(* ===== verification/Prelude.thy ===== *)
theory Prelude
  imports Complex_Main "HOL-Library.AList" "HOL-Library.Multiset"
begin

text \<open>
  Shared vocabulary of the development: what the TypeScript sources use of the language and of
  its standard library.

  \<^item> nullish values (\<open>undefined\<close>, \<open>null\<close>) and the \<open>??\<close> operator;
  \<^item> numbers: a JavaScript number that the code keeps integral is an \<open>int\<close>, one that may be
    fractional is a \<open>rat\<close>, and one that may also be \<open>NaN\<close> or infinite is a \<open>jsnum\<close>. Rounding
    of intermediate results to 53 bits is not modelled; heights, timestamps, counts and amounts in
    duffs all stay below \<open>2 ^ 53\<close>;
  \<^item> strings are lists of characters, with \<open>split\<close>, \<open>slice\<close>, \<open>indexOf\<close>, \<open>trim\<close> and decimal printing;
  \<^item> \<open>Array.prototype.sort\<close> with a comparator (stable), \<open>Array.prototype.slice\<close>, and \<open>Map\<close>, whose
    insertion order is that of \<open>AList.update\<close>;
  \<^item> dates, as milliseconds since the epoch, or invalid.
\<close>

named_theorems js_defs "definitions of the JavaScript vocabulary, for unfolding"

section \<open>Nullish values\<close>

datatype 'a js = JUndef | JNull | J 'a

text \<open>\<open>x ?? null\<close>: the result is \<open>null\<close> (\<open>None\<close>) or a value, never \<open>undefined\<close>.\<close>

fun or_null :: "'a js \<Rightarrow> 'a option" where
  "or_null JUndef = None"
| "or_null JNull = None"
| "or_null (J x) = Some x"

text \<open>\<open>x ?? d\<close>.\<close>

fun coalesce :: "'a js \<Rightarrow> 'a \<Rightarrow> 'a" where
  "coalesce (J x) d = x"
| "coalesce JUndef d = d"
| "coalesce JNull d = d"

text \<open>\<open>x ?? d\<close> where \<open>x\<close> is already known not to be \<open>undefined\<close>.\<close>

fun or_else :: "'a option \<Rightarrow> 'a \<Rightarrow> 'a" where
  "or_else (Some x) d = x"
| "or_else None d = d"

text \<open>A default of a destructuring pattern, \<open>{page = 1}\<close>: it replaces \<open>undefined\<close> only.\<close>

fun defaulted :: "'a js \<Rightarrow> 'a \<Rightarrow> 'a js" where
  "defaulted JUndef d = J d"
| "defaulted JNull d = JNull"
| "defaulted (J x) d = J x"

fun js_of_option :: "'a option \<Rightarrow> 'a js" where
  "js_of_option None = JNull"
| "js_of_option (Some x) = J x"

lemma or_null_js_of_option [simp]: "or_null (js_of_option x) = x"
  by (cases x) auto

lemma coalesce_or_else: "coalesce x d = or_else (or_null x) d"
  by (cases x) auto

lemma or_null_eq_Some [simp]: "or_null x = Some y \<longleftrightarrow> x = J y"
  by (cases x) auto

section \<open>Lists\<close>

text \<open>\<open>slice(a, b)\<close> of arrays and strings: negative positions count from the end.\<close>

definition slice_pos :: "int \<Rightarrow> nat \<Rightarrow> nat" where
  "slice_pos i n = (if i < 0 then nat (max 0 (int n + i)) else min (nat i) n)"

definition js_slice :: "'a list \<Rightarrow> int \<Rightarrow> int \<Rightarrow> 'a list" where
  "js_slice xs a b =
     (let i = slice_pos a (length xs); j = slice_pos b (length xs) in take (j - i) (drop i xs))"

definition js_slice_from :: "'a list \<Rightarrow> int \<Rightarrow> 'a list" where
  "js_slice_from xs a = drop (slice_pos a (length xs)) xs"

lemma js_slice_nonneg:
  "0 \<le> a \<Longrightarrow> a \<le> b \<Longrightarrow> js_slice xs a b = take (nat b - nat a) (drop (nat a) xs)"
  by (auto simp: js_slice_def slice_pos_def Let_def min_def)

lemma js_slice_0: "0 \<le> b \<Longrightarrow> js_slice xs 0 b = take (nat b) xs"
  by (simp add: js_slice_nonneg)

lemma set_js_slice_subset: "set (js_slice xs a b) \<subseteq> set xs"
  by (auto simp: js_slice_def Let_def dest: in_set_takeD in_set_dropD)

text \<open>The last element of a non-empty array, \<open>undefined\<close> otherwise.\<close>

definition js_last :: "'a list \<Rightarrow> 'a option" where
  "js_last xs = (if xs = [] then None else Some (last xs))"

text \<open>\<open>xs[0]\<close>, as in \<open>const [row] = rows\<close>.\<close>

fun first :: "'a list \<Rightarrow> 'a option" where
  "first [] = None"
| "first (x # xs) = Some x"

section \<open>Sorting\<close>

text \<open>
  \<open>Array.prototype.sort(cmp)\<close> is stable, so for a comparator that is a total preorder its result
  is determined; the model inserts from the right, keeping equal elements in their order.
\<close>

fun insert_cmp :: "('a \<Rightarrow> 'a \<Rightarrow> int) \<Rightarrow> 'a \<Rightarrow> 'a list \<Rightarrow> 'a list" where
  "insert_cmp cmp x [] = [x]"
| "insert_cmp cmp x (y # ys) = (if cmp x y \<le> 0 then x # y # ys else y # insert_cmp cmp x ys)"

definition js_sort :: "('a \<Rightarrow> 'a \<Rightarrow> int) \<Rightarrow> 'a list \<Rightarrow> 'a list" where
  "js_sort cmp xs = foldr (insert_cmp cmp) xs []"

lemma mset_insert_cmp [simp]: "mset (insert_cmp cmp x ys) = add_mset x (mset ys)"
  by (induction ys) auto

lemma mset_js_sort [simp]: "mset (js_sort cmp xs) = mset xs"
  by (induction xs) (auto simp: js_sort_def)

lemma set_js_sort [simp]: "set (js_sort cmp xs) = set xs"
  by (metis mset_js_sort set_mset_mset)

lemma length_js_sort [simp]: "length (js_sort cmp xs) = length xs"
  by (metis mset_js_sort size_mset)

lemma distinct_js_sort [simp]: "distinct (js_sort cmp xs) = distinct xs"
  by (metis mset_eq_imp_distinct_iff mset_js_sort)

lemma js_sort_sorted: "sorted_wrt (\<lambda>a b. cmp a b \<le> 0) xs \<Longrightarrow> js_sort cmp xs = xs"
proof (induction xs)
  case (Cons x xs)
  then have "js_sort cmp (x # xs) = insert_cmp cmp x xs" by (simp add: js_sort_def)
  with Cons.prems show ?case by (cases xs) auto
qed (simp add: js_sort_def)

text \<open>Comparators that agree on the elements sort them alike.\<close>

lemma insert_cmp_cmp_cong:
  "(\<And>y. y \<in> set ys \<Longrightarrow> f x y = g x y) \<Longrightarrow> insert_cmp f x ys = insert_cmp g x ys"
  by (induction ys) auto

lemma js_sort_cmp_cong:
  "(\<And>x y. x \<in> set xs \<Longrightarrow> y \<in> set xs \<Longrightarrow> f x y = g x y) \<Longrightarrow> js_sort f xs = js_sort g xs"
proof (induction xs)
  case (Cons x xs)
  have "js_sort f xs = js_sort g xs" using Cons by simp
  moreover have "insert_cmp f x (js_sort g xs) = insert_cmp g x (js_sort g xs)"
    by (rule insert_cmp_cmp_cong) (use Cons.prems in auto)
  ultimately show ?case by (simp add: js_sort_def)
qed (simp add: js_sort_def)

text \<open>The contract a comparator owes to the sort: a total preorder.\<close>

locale js_comparator =
  fixes cmp :: "'a \<Rightarrow> 'a \<Rightarrow> int"
  assumes total: "cmp x y \<le> 0 \<or> cmp y x \<le> 0"
    and trans: "cmp x y \<le> 0 \<Longrightarrow> cmp y z \<le> 0 \<Longrightarrow> cmp x z \<le> 0"
begin

lemma sorted_insert_cmp:
  "sorted_wrt (\<lambda>a b. cmp a b \<le> 0) ys \<Longrightarrow> sorted_wrt (\<lambda>a b. cmp a b \<le> 0) (insert_cmp cmp x ys)"
proof (induction ys)
  case (Cons y ys)
  have set: "set (insert_cmp cmp x ys) = insert x (set ys)"
    by (simp flip: set_mset_mset)
  show ?case
    using Cons total [of x y] by (auto simp: set intro: trans)
qed simp

lemma sorted_js_sort: "sorted_wrt (\<lambda>a b. cmp a b \<le> 0) (js_sort cmp xs)"
  by (induction xs) (auto simp: js_sort_def sorted_insert_cmp)

text \<open>Stability: the elements equivalent to any given one keep their order.\<close>

lemma filter_insert_cmp:
  assumes "sorted_wrt (\<lambda>a b. cmp a b \<le> 0) ys" "\<And>y. y \<in> set ys \<Longrightarrow> P y \<Longrightarrow> P x \<Longrightarrow> cmp x y \<le> 0"
  shows "filter P (insert_cmp cmp x ys) = (if P x then x # filter P ys else filter P ys)"
  using assms by (induction ys) auto

lemma stable_js_sort:
  "filter (\<lambda>y. cmp z y = 0 \<and> cmp y z = 0) (js_sort cmp xs) =
   filter (\<lambda>y. cmp z y = 0 \<and> cmp y z = 0) xs"
proof (induction xs)
  case (Cons x xs)
  have step: "js_sort cmp (x # xs) = insert_cmp cmp x (js_sort cmp xs)" by (simp add: js_sort_def)
  show ?case
    unfolding step
    by (subst filter_insert_cmp [OF sorted_js_sort]) (auto simp: Cons intro: trans [of x z])
qed (simp add: js_sort_def)

end

text \<open>A list sorted by a comparator that tells distinct elements apart is determined by its elements.\<close>

lemma sorted_wrt_unique:
  "sorted_wrt R xs \<Longrightarrow> sorted_wrt R ys \<Longrightarrow> mset xs = mset ys \<Longrightarrow>
   (\<And>a b. a \<in> set xs \<Longrightarrow> b \<in> set xs \<Longrightarrow> R a b \<Longrightarrow> R b a \<Longrightarrow> a = b) \<Longrightarrow> xs = ys"
proof (induction xs arbitrary: ys)
  case (Cons x xs)
  then obtain y zs where ys: "ys = y # zs" by (cases ys) auto
  have same: "set (x # xs) = set ys" using Cons.prems(3) by (rule mset_eq_setD)
  have "x = y"
  proof (rule ccontr)
    assume "x \<noteq> y"
    with same ys have "x \<in> set zs" "y \<in> set xs" by auto
    then have "R y x" "R x y" using Cons.prems(1,2) ys by auto
    then show False using Cons.prems(4) [of x y] \<open>x \<noteq> y\<close> \<open>y \<in> set xs\<close> by auto
  qed
  moreover have "xs = zs"
    using Cons.prems ys \<open>x = y\<close> by (intro Cons.IH) auto
  ultimately show ?case by (simp add: ys)
qed simp

text \<open>The comparators of the sources: a difference of numeric keys, with a direction.\<close>

definition by_key :: "('a \<Rightarrow> int) \<Rightarrow> 'a \<Rightarrow> 'a \<Rightarrow> int" where
  "by_key f a b = f a - f b"

interpretation by_key: js_comparator "by_key f" for f
  by unfold_locales (auto simp: by_key_def)

lemma js_sort_by_key_sorted: "sorted (map f (js_sort (by_key f) xs))"
  using by_key.sorted_js_sort [of f xs] by (simp add: sorted_map by_key_def)

lemma insert_cmp_by_key: "insert_cmp (by_key f) x ys = insort_key f x ys"
  by (induction ys) (auto simp: by_key_def)

lemma js_sort_by_key: "js_sort (by_key f) xs = sort_key f xs"
  by (induction xs) (auto simp: js_sort_def insert_cmp_by_key sort_key_def)

section \<open>Pages\<close>

text \<open>
  \<open>OFFSET (page - 1) * limit LIMIT limit\<close> and its array counterpart
  \<open>slice((page - 1) * limit, page * limit)\<close>. \<open>page\<close> is at least 1 and \<open>limit\<close> at least 0 by the
  request schemas.
\<close>

definition page_of :: "nat \<Rightarrow> nat \<Rightarrow> 'a list \<Rightarrow> 'a list" where
  "page_of page limit xs = take limit (drop ((page - 1) * limit) xs)"

lemma length_page_of: "length (page_of page limit xs) \<le> limit"
  by (simp add: page_of_def)

lemma set_page_of: "set (page_of page limit xs) \<subseteq> set xs"
  by (auto simp: page_of_def dest: in_set_takeD in_set_dropD)

lemma distinct_page_of: "distinct xs \<Longrightarrow> distinct (page_of page limit xs)"
  by (simp add: page_of_def)

lemma sorted_wrt_page_of: "sorted_wrt P xs \<Longrightarrow> sorted_wrt P (page_of page limit xs)"
  by (simp add: page_of_def sorted_wrt_take sorted_wrt_drop)

text \<open>Walking the pages from the first one on gives the list back, once and in order.\<close>

lemma concat_pages: "concat (map (\<lambda>p. page_of p limit xs) [1..<Suc n]) = take (n * limit) xs"
proof (induction n)
  case (Suc n)
  have "concat (map (\<lambda>p. page_of p limit xs) [1..<Suc (Suc n)]) =
        take (n * limit) xs @ page_of (Suc n) limit xs"
    using Suc by simp
  also have "\<dots> = take (n * limit + limit) xs"
    by (simp add: page_of_def take_add)
  finally show ?case by (simp add: add.commute)
qed simp

lemma concat_all_pages:
  "length xs \<le> n * limit \<Longrightarrow> concat (map (\<lambda>p. page_of p limit xs) [1..<Suc n]) = xs"
  by (subst concat_pages) simp

lemma js_slice_page_of:
  "1 \<le> page \<Longrightarrow>
   js_slice xs ((int page - 1) * int limit) (int page * int limit) = page_of page limit xs"
proof -
  assume "1 \<le> page"
  then obtain m where m: "page = Suc m" by (cases page) auto
  have a: "(int page - 1) * int limit = int (m * limit)"
    and b: "int page * int limit = int (m * limit + limit)"
    by (simp_all add: m algebra_simps)
  show ?thesis
    unfolding a b by (subst js_slice_nonneg) (simp_all add: page_of_def m del: of_nat_add of_nat_mult)
qed

text \<open>A whole quotient and what it leaves.\<close>

lemma div_bounds:
  fixes h i :: int
  assumes "0 < i"
  shows "h div i * i \<le> h" "h < h div i * i + i" "h < (h div i + 1) * i"
proof -
  have eq: "h = h div i * i + h mod i" by simp
  show "h div i * i \<le> h" using eq pos_mod_sign [OF assms, of h] by linarith
  show less: "h < h div i * i + i" using eq pos_mod_bound [OF assms, of h] by linarith
  have "(h div i + 1) * i = h div i * i + i" by (simp add: distrib_right)
  with less show "h < (h div i + 1) * i" by (simp only:)
qed

end
