(* ===== verification/Constants.thy ===== *)
theory Constants
  imports Prelude
begin

text \<open>
  \<open>api/src/constants.ts\<close>, the enums of \<open>api/src/enums\<close> and the error classes of
  \<open>api/src/errors\<close>. The lemmas show that the transaction type enum is a bijection between its
  names and codes.
\<close>

section \<open>Networks and life times\<close>

datatype network = Mainnet | Testnet

definition UTXO_INFO_LIFE_TIME :: int where "UTXO_INFO_LIFE_TIME = 1000 * 60 * 30"

definition PROTX_OUTPOINT_MAP_LIFE_TIME :: int where
  "PROTX_OUTPOINT_MAP_LIFE_TIME = 1000 * 60 * 5"

definition CONCENTRATION_DECIMALS :: nat where "CONCENTRATION_DECIMALS = 12"

datatype chain_name = ChainMainnet | ChainTestnet | ChainDevnet | ChainRegtest

fun SUPERBLOCK_INTERVALS :: "chain_name \<Rightarrow> int" where
  "SUPERBLOCK_INTERVALS ChainMainnet = 16616"
| "SUPERBLOCK_INTERVALS ChainTestnet = 24"
| "SUPERBLOCK_INTERVALS ChainDevnet = 24"
| "SUPERBLOCK_INTERVALS ChainRegtest = 20"

text \<open>\<open>NETWORK\<close> only takes two of the four names.\<close>

fun chain_of :: "network \<Rightarrow> chain_name" where
  "chain_of Mainnet = ChainMainnet"
| "chain_of Testnet = ChainTestnet"

fun network_name :: "network \<Rightarrow> string" where
  "network_name Mainnet = ''mainnet''"
| "network_name Testnet = ''testnet''"

section \<open>Address activity windows\<close>

definition ADDRESSES_ACTIVITY_LOW_PRECISION_AFTER :: int where
  "ADDRESSES_ACTIVITY_LOW_PRECISION_AFTER = 259200000"

definition ADDRESSES_ACTIVITY_WEEKLY_AFTER :: int where
  "ADDRESSES_ACTIVITY_WEEKLY_AFTER = 691200000"

definition ADDRESSES_ACTIVITY_WEEKLY_MIN_TX_COUNT :: int where
  "ADDRESSES_ACTIVITY_WEEKLY_MIN_TX_COUNT = 10"

definition ADDRESSES_ACTIVITY_DAILY_MIN_TX_COUNT :: int where
  "ADDRESSES_ACTIVITY_DAILY_MIN_TX_COUNT = 2"

section \<open>Scripts and Redis keys\<close>

definition SCRIPT_TYPE_MULTISIG :: string where "SCRIPT_TYPE_MULTISIG = ''multisig''"

definition PUBKEY_PUSH_OPCODES :: "int list" where "PUBKEY_PUSH_OPCODES = [33, 65]"

definition REDIS_VOTES_KEY_PART :: string where "REDIS_VOTES_KEY_PART = ''dao:votes:''"

definition REDIS_AVAILABLE_KEY :: string where "REDIS_AVAILABLE_KEY = ''peers:available''"

definition REDIS_UNAVAILABLE_KEY :: string where "REDIS_UNAVAILABLE_KEY = ''peers:unavailable''"

section \<open>Extended keys\<close>

record xpub_versions =
  private_version :: int
  public_version :: int

fun XPUB_VERSIONS :: "network \<Rightarrow> xpub_versions" where
  "XPUB_VERSIONS Mainnet = \<lparr>private_version = 0x0488ade4, public_version = 0x0488b21e\<rparr>"
| "XPUB_VERSIONS Testnet = \<lparr>private_version = 0x04358394, public_version = 0x043587cf\<rparr>"

definition XPUB_BRANCHES :: "nat list" where "XPUB_BRANCHES = [0, 1]"

definition XPUB_DEFAULT_GAP_LIMIT :: nat where "XPUB_DEFAULT_GAP_LIMIT = 20"

definition XPUB_MAX_ADDRESSES_PER_BRANCH :: nat where "XPUB_MAX_ADDRESSES_PER_BRANCH = 5000"

definition XPUB_DERIVATION_BATCH_SIZE :: nat where "XPUB_DERIVATION_BATCH_SIZE = 100"

definition XPUB_CACHE_LIFE_TIME :: int where "XPUB_CACHE_LIFE_TIME = 1000 * 60 * 60"

definition XPUB_CACHE_VERSION :: nat where "XPUB_CACHE_VERSION = 2"

section \<open>Market data\<close>

definition MARKET_CACHE_LIFE_TIME :: int where "MARKET_CACHE_LIFE_TIME = 1000 * 60 * 60"

definition MARKET_STALE_LIFE_TIME :: int where "MARKET_STALE_LIFE_TIME = 1000 * 60 * 60 * 24"

definition MARKET_FAILURE_LIFE_TIME :: int where "MARKET_FAILURE_LIFE_TIME = 1000 * 60"

section \<open>Enums\<close>

text \<open>\<open>Intervals\<close>: the preset steps in the order of their keys.\<close>

definition Intervals :: "(string \<times> int) list" where
  "Intervals =
     [(''PT5M'', 300000), (''PT30M'', 1800000), (''PT1H'', 3600000), (''PT2H'', 7200000),
      (''PT6H'', 21600000), (''PT12H'', 43200000), (''PT14H'', 50400000), (''P1D'', 86400000),
      (''P1W'', 604800000), (''P1M'', 2419200000), (''P1Y'', 29030400000)]"

datatype TransactionType =
    CLASSIC | PROVIDER_REGISTRATION | PROVIDER_UPDATE_SERVICE | PROVIDER_UPDATE_REGISTRAR
  | PROVIDER_UPDATE_REVOCATION | COINBASE | QUORUM_COMMITMENT | MASTERNODE_HARD_FORK_SIGNAL
  | ASSET_LOCK | ASSET_UNLOCK

definition all_TransactionTypes :: "TransactionType list" where
  "all_TransactionTypes =
     [CLASSIC, PROVIDER_REGISTRATION, PROVIDER_UPDATE_SERVICE, PROVIDER_UPDATE_REGISTRAR,
      PROVIDER_UPDATE_REVOCATION, COINBASE, QUORUM_COMMITMENT, MASTERNODE_HARD_FORK_SIGNAL,
      ASSET_LOCK, ASSET_UNLOCK]"

fun type_code :: "TransactionType \<Rightarrow> int" where
  "type_code CLASSIC = 0"
| "type_code PROVIDER_REGISTRATION = 1"
| "type_code PROVIDER_UPDATE_SERVICE = 2"
| "type_code PROVIDER_UPDATE_REGISTRAR = 3"
| "type_code PROVIDER_UPDATE_REVOCATION = 4"
| "type_code COINBASE = 5"
| "type_code QUORUM_COMMITMENT = 6"
| "type_code MASTERNODE_HARD_FORK_SIGNAL = 7"
| "type_code ASSET_LOCK = 8"
| "type_code ASSET_UNLOCK = 9"

fun type_name :: "TransactionType \<Rightarrow> string" where
  "type_name CLASSIC = ''CLASSIC''"
| "type_name PROVIDER_REGISTRATION = ''PROVIDER_REGISTRATION''"
| "type_name PROVIDER_UPDATE_SERVICE = ''PROVIDER_UPDATE_SERVICE''"
| "type_name PROVIDER_UPDATE_REGISTRAR = ''PROVIDER_UPDATE_REGISTRAR''"
| "type_name PROVIDER_UPDATE_REVOCATION = ''PROVIDER_UPDATE_REVOCATION''"
| "type_name COINBASE = ''COINBASE''"
| "type_name QUORUM_COMMITMENT = ''QUORUM_COMMITMENT''"
| "type_name MASTERNODE_HARD_FORK_SIGNAL = ''MASTERNODE_HARD_FORK_SIGNAL''"
| "type_name ASSET_LOCK = ''ASSET_LOCK''"
| "type_name ASSET_UNLOCK = ''ASSET_UNLOCK''"

text \<open>
  \<open>TransactionType[code]\<close> and \<open>TransactionType[name]\<close>: the two directions of a numeric enum,
  \<open>undefined\<close> where the key is neither a code nor a name.
\<close>

definition type_of_code :: "int \<Rightarrow> TransactionType option" where
  "type_of_code c = find (\<lambda>t. type_code t = c) all_TransactionTypes"

definition type_of_name :: "string \<Rightarrow> TransactionType option" where
  "type_of_name s = find (\<lambda>t. type_name t = s) all_TransactionTypes"

lemma type_of_code_code [simp]: "type_of_code (type_code t) = Some t"
  by (cases t) (simp_all add: type_of_code_def all_TransactionTypes_def)

lemma type_of_name_name [simp]: "type_of_name (type_name t) = Some t"
  by (cases t) (simp_all add: type_of_name_def all_TransactionTypes_def)

lemma type_of_code_Some: "type_of_code c = Some t \<Longrightarrow> type_code t = c"
  by (auto simp: type_of_code_def find_Some_iff)

datatype GovernanceObjectType = GovUnknown | GovProposal | GovTrigger

text \<open>\<open>GovernanceObjectType[n]\<close>.\<close>

definition gov_type_of_code :: "int \<Rightarrow> GovernanceObjectType option" where
  "gov_type_of_code n =
     (if n = 0 then Some GovUnknown else if n = 1 then Some GovProposal
      else if n = 2 then Some GovTrigger else None)"

section \<open>Errors\<close>

text \<open>
  The exceptions an API request may raise. \<open>ServiceNotAvailable\<close> keeps the code of the RPC
  error. \<open>TypeFailure\<close> is the \<open>TypeError\<close> of the language,
  \<open>QueryFailure\<close> an error reported by PostgreSQL, \<open>PlainError\<close> a \<open>throw new Error(message)\<close>,
  \<open>FastifyFailure\<close> an error that carries a status code, as request validation does.
\<close>

datatype api_error =
    ServiceNotAvailable "int js"
  | MarketDataUnavailable string
  | InvalidXpub string
  | InvalidCursor string
  | FastifyFailure int string
  | PlainError string
  | TypeFailure
  | QueryFailure

type_synonym 'a result = "api_error + 'a"

fun bind_result :: "'a result \<Rightarrow> ('a \<Rightarrow> 'b result) \<Rightarrow> 'b result" where
  "bind_result (Inl e) f = Inl e"
| "bind_result (Inr x) f = f x"

lemma bind_result_Inr_iff: "bind_result r f = Inr y \<longleftrightarrow> (\<exists>x. r = Inr x \<and> f x = Inr y)"
  by (cases r) auto

lemma bind_result_Inl_iff:
  "bind_result r f = Inl e \<longleftrightarrow> r = Inl e \<or> (\<exists>x. r = Inr x \<and> f x = Inl e)"
  by (cases r) auto

text \<open>\<open>map\<close> and \<open>filter\<close> with a callback that may throw: the first exception ends the walk.\<close>

fun map_result :: "('a \<Rightarrow> 'b result) \<Rightarrow> 'a list \<Rightarrow> 'b list result" where
  "map_result f [] = Inr []"
| "map_result f (x # xs) =
     bind_result (f x) (\<lambda>y. bind_result (map_result f xs) (\<lambda>ys. Inr (y # ys)))"

fun filter_result :: "('a \<Rightarrow> bool result) \<Rightarrow> 'a list \<Rightarrow> 'a list result" where
  "filter_result f [] = Inr []"
| "filter_result f (x # xs) =
     bind_result (f x) (\<lambda>keep. bind_result (filter_result f xs) (\<lambda>ys. Inr (if keep then x # ys else ys)))"

lemma map_result_Inr:
  "(\<And>x. x \<in> set xs \<Longrightarrow> f x = Inr (g x)) \<Longrightarrow> map_result f xs = Inr (map g xs)"
  by (induction xs) auto

lemma filter_result_Inr:
  "(\<And>x. x \<in> set xs \<Longrightarrow> f x = Inr (P x)) \<Longrightarrow> filter_result f xs = Inr (filter P xs)"
  by (induction xs) auto

lemma map_result_Inr_length: "map_result f xs = Inr ys \<Longrightarrow> length ys = length xs"
  by (induction xs arbitrary: ys) (auto simp: bind_result_Inr_iff)

lemma map_result_Inr_nth:
  "map_result f xs = Inr ys \<Longrightarrow> i < length xs \<Longrightarrow> f (xs ! i) = Inr (ys ! i)"
  by (induction xs arbitrary: ys i) (auto simp: bind_result_Inr_iff nth_Cons split: nat.splits)

lemma map_result_Inr_set:
  "map_result f xs = Inr ys \<Longrightarrow> y \<in> set ys \<Longrightarrow> \<exists>x \<in> set xs. f x = Inr y"
  by (metis in_set_conv_nth map_result_Inr_length map_result_Inr_nth)

end
