(* ===== verification/JsText.thy ===== *)
theory JsText
  imports Prelude
begin

text \<open>
  Numbers that may fail to be finite, strings and dates: \<open>Number(s)\<close>, decimal printing,
  \<open>toFixed\<close>, \<open>split\<close>, \<open>indexOf\<close>, \<open>trim\<close>, \<open>new Date(ms)\<close>. The lemmas show that decimal
  printing and scanning are inverse to each other.
\<close>

section \<open>Numbers\<close>

datatype jsnum = NaN | PosInf | NegInf | Fin rat

text \<open>A literal beyond the largest double overflows to an infinity.\<close>

definition double_limit :: rat where
  "double_limit = 2 ^ 1024 - 2 ^ 970"

lemma double_limit_large: "1024 < double_limit"
  by (simp add: double_limit_def)

lemma below_double_limit: "n \<le> 1024 \<Longrightarrow> n < double_limit"
  using double_limit_large by (rule le_less_trans [rotated])

definition to_double :: "rat \<Rightarrow> jsnum" where
  "to_double v = (if v \<ge> double_limit then PosInf else if v \<le> - double_limit then NegInf else Fin v)"

fun is_finite :: "jsnum \<Rightarrow> bool" where
  "is_finite (Fin _) = True"
| "is_finite _ = False"

fun is_nan :: "jsnum \<Rightarrow> bool" where
  "is_nan NaN = True"
| "is_nan _ = False"

text \<open>\<open>a / b\<close> for a finite numerator, with the sign of a zero divisor taken as positive.\<close>

definition num_div :: "rat \<Rightarrow> rat \<Rightarrow> jsnum" where
  "num_div a b = (if b \<noteq> 0 then Fin (a / b) else if a = 0 then NaN else if a > 0 then PosInf else NegInf)"

fun num_ceil :: "jsnum \<Rightarrow> jsnum" where
  "num_ceil (Fin v) = Fin (of_int \<lceil>v\<rceil>)"
| "num_ceil n = n"

fun num_sub1 :: "jsnum \<Rightarrow> jsnum" where
  "num_sub1 (Fin v) = Fin (v - 1)"
| "num_sub1 n = n"

text \<open>Comparisons against an integer; every comparison with \<open>NaN\<close> is false.\<close>

fun num_ge :: "jsnum \<Rightarrow> int \<Rightarrow> bool" where
  "num_ge (Fin v) k \<longleftrightarrow> v \<ge> of_int k"
| "num_ge PosInf k \<longleftrightarrow> True"
| "num_ge _ k \<longleftrightarrow> False"

fun num_lt :: "jsnum \<Rightarrow> int \<Rightarrow> bool" where
  "num_lt (Fin v) k \<longleftrightarrow> v < of_int k"
| "num_lt NegInf k \<longleftrightarrow> True"
| "num_lt _ k \<longleftrightarrow> False"

text \<open>The remainder \<open>a % b\<close> for a positive divisor: it has the sign of the dividend.\<close>

definition js_rem :: "int \<Rightarrow> int \<Rightarrow> int" where
  "js_rem a b = (if a < 0 then - ((- a) mod b) else a mod b)"

lemma js_rem_nonneg [simp]: "0 \<le> a \<Longrightarrow> js_rem a b = a mod b"
  by (simp add: js_rem_def)

lemma js_rem_div: "\<exists>q. a = js_rem a b + b * q"
proof (cases "a < 0")
  case True
  have "a = - ((- a) mod b) + b * (- ((- a) div b))"
    by (smt (verit) mult_div_mod_eq mult_minus_right)
  with True show ?thesis unfolding js_rem_def by (intro exI [of _ "- ((- a) div b)"]) simp
next
  case False
  then show ?thesis unfolding js_rem_def by (intro exI [of _ "a div b"]) simp
qed

definition js_round :: "rat \<Rightarrow> int" where
  "js_round v = \<lfloor>v + 1 / 2\<rfloor>"

section \<open>Decimal digits\<close>

definition digit_char :: "nat \<Rightarrow> char" where
  "digit_char d = char_of (48 + d)"

definition is_digit :: "char \<Rightarrow> bool" where
  "is_digit c \<longleftrightarrow> 48 \<le> (of_char c :: nat) \<and> (of_char c :: nat) \<le> 57"

definition digit_val :: "char \<Rightarrow> nat" where
  "digit_val c = of_char c - 48"

lemma is_digit_digit_char [simp]: "d < 10 \<Longrightarrow> is_digit (digit_char d)"
  by (simp add: is_digit_def digit_char_def)

lemma digit_val_digit_char [simp]: "d < 10 \<Longrightarrow> digit_val (digit_char d) = d"
  by (simp add: digit_val_def digit_char_def)

text \<open>\<open>n.toString()\<close> for a natural number and for an integer.\<close>

fun dec_nat :: "nat \<Rightarrow> string" where
  "dec_nat n = (if n < 10 then [digit_char n] else dec_nat (n div 10) @ [digit_char (n mod 10)])"

declare dec_nat.simps [simp del]

definition dec_int :: "int \<Rightarrow> string" where
  "dec_int i = (if i < 0 then CHR ''-'' # dec_nat (nat (- i)) else dec_nat (nat i))"

definition digits_val :: "string \<Rightarrow> nat" where
  "digits_val ds = foldl (\<lambda>a c. 10 * a + digit_val c) 0 ds"

lemma digits_val_snoc [simp]: "digits_val (ds @ [c]) = 10 * digits_val ds + digit_val c"
  by (simp add: digits_val_def)

lemma digits_val_dec_nat [simp]: "digits_val (dec_nat n) = n"
proof (induction n rule: dec_nat.induct)
  case (1 n)
  show ?case
  proof (cases "n < 10")
    case True
    then show ?thesis by (simp add: dec_nat.simps [of n] digits_val_def)
  next
    case False
    with 1 show ?thesis by (simp add: dec_nat.simps [of n])
  qed
qed

lemma all_digits_dec_nat: "\<forall>c \<in> set (dec_nat n). is_digit c"
proof (induction n rule: dec_nat.induct)
  case (1 n)
  then show ?case
    by (cases "n < 10") (simp_all add: dec_nat.simps [of n])
qed

lemma dec_nat_nonempty [simp]: "dec_nat n \<noteq> []"
  by (subst dec_nat.simps) simp

lemma dec_nat_inj [simp]: "dec_nat m = dec_nat n \<longleftrightarrow> m = n"
  by (metis digits_val_dec_nat)

text \<open>Scanning a maximal run of digits: what a reader of printed numbers does.\<close>

lemma takeWhile_dec_nat [simp]:
  "takeWhile is_digit (dec_nat n @ r) = dec_nat n @ takeWhile is_digit r"
  using all_digits_dec_nat by (simp add: takeWhile_append2)

lemma dropWhile_dec_nat [simp]: "dropWhile is_digit (dec_nat n @ r) = dropWhile is_digit r"
  using all_digits_dec_nat by (simp add: dropWhile_append2)

lemma hd_dec_nat: "is_digit (hd (dec_nat n))"
  using all_digits_dec_nat dec_nat_nonempty by (meson hd_in_set)

text \<open>\<open>x.toFixed(f)\<close>: the nearest decimal with \<open>f\<close> places, the larger one in a tie.\<close>

definition pad_left :: "nat \<Rightarrow> string \<Rightarrow> string" where
  "pad_left w s = replicate (w - length s) (CHR ''0'') @ s"

definition to_fixed_abs :: "nat \<Rightarrow> rat \<Rightarrow> string" where
  "to_fixed_abs f v =
     (let n = nat (js_round (v * 10 ^ f)) in
      if f = 0 then dec_nat n
      else dec_nat (n div 10 ^ f) @ CHR ''.'' # pad_left f (dec_nat (n mod 10 ^ f)))"

definition to_fixed :: "nat \<Rightarrow> rat \<Rightarrow> string" where
  "to_fixed f v = (if v < 0 then CHR ''-'' # to_fixed_abs f (- v) else to_fixed_abs f v)"

section \<open>Strings\<close>

definition is_space :: "char \<Rightarrow> bool" where
  "is_space c \<longleftrightarrow> (of_char c :: nat) \<in> {9, 10, 11, 12, 13, 32, 160}"

definition js_trim :: "string \<Rightarrow> string" where
  "js_trim s = rev (dropWhile is_space (rev (dropWhile is_space s)))"

text \<open>\<open>s.split(c)\<close> for a one-character separator.\<close>

fun js_split :: "char \<Rightarrow> string \<Rightarrow> string list" where
  "js_split c [] = [[]]"
| "js_split c (x # xs) =
     (if x = c then [] # js_split c xs
      else case js_split c xs of [] \<Rightarrow> [[x]] | y # ys \<Rightarrow> (x # y) # ys)"

text \<open>\<open>parts.join(c)\<close>.\<close>

fun js_join :: "string \<Rightarrow> string list \<Rightarrow> string" where
  "js_join c [] = []"
| "js_join c [p] = p"
| "js_join c (p # ps) = p @ c @ js_join c ps"

lemma js_split_nonempty [simp]: "js_split c s \<noteq> []"
  by (induction s) (auto split: list.splits)

lemma js_split_no_sep: "c \<notin> set p \<Longrightarrow> js_split c p = [p]"
  by (induction p) auto

lemma js_split_append: "c \<notin> set p \<Longrightarrow> js_split c (p @ c # s) = p # js_split c s"
  by (induction p) auto

lemma js_split_join:
  "ps \<noteq> [] \<Longrightarrow> \<forall>p \<in> set ps. c \<notin> set p \<Longrightarrow> js_split c (js_join [c] ps) = ps"
proof (induction ps rule: induct_list012)
  case (3 p q ps)
  then have "js_split c (js_join [c] (q # ps)) = q # ps" by simp
  with 3 show ?case by (simp add: js_split_append)
qed (simp_all add: js_split_no_sep)

lemma js_join_split: "js_join [c] (js_split c s) = s"
proof (induction s)
  case (Cons x s)
  obtain y ys where y: "js_split c s = y # ys" by (meson js_split_nonempty list.exhaust)
  with Cons show ?case by (cases ys) auto
qed simp

text \<open>\<open>indexOf\<close> and \<open>lastIndexOf\<close> of a character: \<open>-1\<close> where it does not occur.\<close>

definition index_of :: "char \<Rightarrow> string \<Rightarrow> int" where
  "index_of c s = (if c \<in> set s then int (length (takeWhile (\<lambda>x. x \<noteq> c) s)) else -1)"

definition last_index_of :: "char \<Rightarrow> string \<Rightarrow> int" where
  "last_index_of c s =
     (if c \<in> set s then int (length s) - 1 - int (length (takeWhile (\<lambda>x. x \<noteq> c) (rev s))) else -1)"

definition starts_with :: "string \<Rightarrow> string \<Rightarrow> bool" where
  "starts_with s p \<longleftrightarrow> take (length p) s = p"

definition to_upper_char :: "char \<Rightarrow> char" where
  "to_upper_char c = (let n = of_char c :: nat in if 97 \<le> n \<and> n \<le> 122 then char_of (n - 32) else c)"

definition to_lower_char :: "char \<Rightarrow> char" where
  "to_lower_char c = (let n = of_char c :: nat in if 65 \<le> n \<and> n \<le> 90 then char_of (n + 32) else c)"

text \<open>\<open>toUpperCase\<close> and \<open>toLowerCase\<close> on ASCII, which is what the sources compare.\<close>

definition js_upper :: "string \<Rightarrow> string" where
  "js_upper s = List.map to_upper_char s"

definition js_lower :: "string \<Rightarrow> string" where
  "js_lower s = List.map to_lower_char s"

text \<open>\<open>s.includes(p)\<close>.\<close>

fun js_includes :: "string \<Rightarrow> string \<Rightarrow> bool" where
  "js_includes [] p \<longleftrightarrow> p = []"
| "js_includes (x # xs) p \<longleftrightarrow> starts_with (x # xs) p \<or> js_includes xs p"

lemma last_index_of_append:
  "c \<notin> set r \<Longrightarrow> last_index_of c (p @ c # r) = int (length p)"
proof -
  assume "c \<notin> set r"
  then have "takeWhile (\<lambda>x. x \<noteq> c) (rev r @ c # rev p) = rev r"
    by (subst takeWhile_append2) auto
  then show ?thesis by (simp add: last_index_of_def)
qed

lemma index_of_append: "c \<notin> set p \<Longrightarrow> index_of c (p @ c # r) = int (length p)"
proof -
  assume "c \<notin> set p"
  then have "takeWhile (\<lambda>x. x \<noteq> c) (p @ c # r) = p"
    by (subst takeWhile_append2) auto
  then show ?thesis by (simp add: index_of_def)
qed

section \<open>\<open>Number(s)\<close>\<close>

definition radix_digit :: "nat \<Rightarrow> char \<Rightarrow> nat option" where
  "radix_digit b c =
     (let n = of_char (to_lower_char c) :: nat;
          d = (if is_digit c then n - 48 else if 97 \<le> n \<and> n \<le> 122 then n - 87 else 99)
      in if d < b then Some d else None)"

fun radix_val :: "nat \<Rightarrow> nat \<Rightarrow> string \<Rightarrow> nat option" where
  "radix_val b acc [] = Some acc"
| "radix_val b acc (c # cs) =
     (case radix_digit b c of None \<Rightarrow> None | Some d \<Rightarrow> radix_val b (b * acc + d) cs)"

definition radix_number :: "nat \<Rightarrow> string \<Rightarrow> jsnum" where
  "radix_number b ds =
     (if ds = [] then NaN
      else case radix_val b 0 ds of None \<Rightarrow> NaN | Some v \<Rightarrow> to_double (of_nat v))"

definition pow10 :: "int \<Rightarrow> rat" where
  "pow10 e = (if e \<ge> 0 then 10 ^ nat e else 1 / 10 ^ nat (- e))"

text \<open>The exponent part of a decimal literal, from behind the mantissa to the end.\<close>

definition exponent_part :: "string \<Rightarrow> int option" where
  "exponent_part r =
     (case r of [] \<Rightarrow> Some 0
      | c # r' \<Rightarrow>
          if c \<noteq> CHR ''e'' \<and> c \<noteq> CHR ''E'' then None
          else
            let neg = (r' \<noteq> [] \<and> hd r' = CHR ''-'');
                ds = (if r' \<noteq> [] \<and> (hd r' = CHR ''-'' \<or> hd r' = CHR ''+'') then tl r' else r')
            in if ds \<noteq> [] \<and> list_all is_digit ds
               then Some (if neg then - int (digits_val ds) else int (digits_val ds))
               else None)"

definition unsigned_decimal :: "string \<Rightarrow> rat option" where
  "unsigned_decimal s =
     (let ip = takeWhile is_digit s;
          r = dropWhile is_digit s;
          dot = (r \<noteq> [] \<and> hd r = CHR ''.'');
          fp = (if dot then takeWhile is_digit (tl r) else []);
          r2 = (if dot then dropWhile is_digit (tl r) else r)
      in if ip = [] \<and> fp = [] then None
         else map_option (\<lambda>e. of_nat (digits_val (ip @ fp)) * pow10 (e - int (length fp)))
                (exponent_part r2))"

definition neg_num :: "jsnum \<Rightarrow> jsnum" where
  "neg_num n = (case n of NaN \<Rightarrow> NaN | PosInf \<Rightarrow> NegInf | NegInf \<Rightarrow> PosInf | Fin v \<Rightarrow> Fin (- v))"

definition decimal_number :: "string \<Rightarrow> jsnum" where
  "decimal_number s =
     (if s = ''Infinity'' then PosInf
      else case unsigned_decimal s of None \<Rightarrow> NaN | Some v \<Rightarrow> to_double v)"

definition js_number :: "string \<Rightarrow> jsnum" where
  "js_number s0 =
     (let s = js_trim s0 in
      if s = [] then Fin 0
      else if starts_with s ''0x'' \<or> starts_with s ''0X'' then radix_number 16 (drop 2 s)
      else if starts_with s ''0o'' \<or> starts_with s ''0O'' then radix_number 8 (drop 2 s)
      else if starts_with s ''0b'' \<or> starts_with s ''0B'' then radix_number 2 (drop 2 s)
      else if hd s = CHR ''-'' then neg_num (decimal_number (tl s))
      else if hd s = CHR ''+'' then decimal_number (tl s)
      else decimal_number s)"

text \<open>A printed natural number is read back.\<close>

lemma digit_not_space: "is_digit c \<Longrightarrow> \<not> is_space c"
  by (auto simp: is_digit_def is_space_def)

lemma js_trim_id: "(\<forall>c \<in> set s. \<not> is_space c) \<Longrightarrow> js_trim s = s"
proof -
  assume ns: "\<forall>c \<in> set s. \<not> is_space c"
  have id: "dropWhile is_space t = t" if "set t = set s" for t
    using ns that by (cases t) auto
  show ?thesis by (simp add: js_trim_def id)
qed

lemma dropWhile_digits_dec_nat: "dropWhile is_digit (dec_nat n) = []"
  using dropWhile_dec_nat [of n "[]"] by simp

lemma takeWhile_digits_dec_nat: "takeWhile is_digit (dec_nat n) = dec_nat n"
  using takeWhile_dec_nat [of n "[]"] by simp

lemma unsigned_decimal_dec_nat: "unsigned_decimal (dec_nat n) = Some (of_nat n)"
  by (simp add: unsigned_decimal_def dropWhile_digits_dec_nat takeWhile_digits_dec_nat
      exponent_part_def pow10_def Let_def)

lemma dec_nat_no_radix: "is_digit b \<or> starts_with (dec_nat n) [a, b] = False"
proof (rule ccontr)
  assume contra: "\<not> ?thesis"
  then have "[a, b] = take 2 (dec_nat n)" by (simp add: starts_with_def numeral_2_eq_2)
  then have "b \<in> set (dec_nat n)"
    by (metis in_set_takeD list.set_intros(1) list.set_intros(2))
  with contra show False using all_digits_dec_nat by blast
qed

lemma dec_nat_starts_with [simp]:
  "\<not> is_digit b \<Longrightarrow> starts_with (dec_nat n) [a, b] = False"
  using dec_nat_no_radix by blast

lemma js_number_dec_nat: "of_nat n < double_limit \<Longrightarrow> js_number (dec_nat n) = Fin (of_nat n)"
proof -
  assume lim: "of_nat n < double_limit"
  have trim: "js_trim (dec_nat n) = dec_nat n"
    using all_digits_dec_nat digit_not_space by (intro js_trim_id) blast
  have nd: "\<not> is_digit CHR ''x''" "\<not> is_digit CHR ''X''" "\<not> is_digit CHR ''o''"
    "\<not> is_digit CHR ''O''" "\<not> is_digit CHR ''b''" "\<not> is_digit CHR ''B''"
    "\<not> is_digit CHR ''-''" "\<not> is_digit CHR ''+''" "\<not> is_digit CHR ''I''"
    by (simp_all add: is_digit_def)
  have hd: "hd (dec_nat n) \<noteq> CHR ''-''" "hd (dec_nat n) \<noteq> CHR ''+''"
    using hd_dec_nat [of n] nd by auto
  have inf: "dec_nat n \<noteq> ''Infinity''"
    using hd_dec_nat [of n] nd by auto
  have low: "\<not> of_nat n \<le> - double_limit"
    using lim by (smt (verit) neg_le_0_iff_le of_nat_0_le_iff order_le_less_trans order_less_imp_le
        order_less_le_trans neg_less_0_iff_less not_le)
  show ?thesis
    using lim low by (simp add: js_number_def trim hd inf nd decimal_number_def
        unsigned_decimal_dec_nat to_double_def)
qed

section \<open>Dates\<close>

text \<open>
  A \<open>Date\<close> is its time value in milliseconds, or invalid. \<open>new Date(v)\<close> truncates a fractional
  time value and rejects one beyond the range of the language.
\<close>

type_synonym date = "int option"

definition js_trunc :: "rat \<Rightarrow> int" where
  "js_trunc v = (if v < 0 then \<lceil>v\<rceil> else \<lfloor>v\<rfloor>)"

fun new_date :: "jsnum \<Rightarrow> date" where
  "new_date (Fin v) = (if \<bar>v\<bar> > 8640000000000000 then None else Some (js_trunc v))"
| "new_date _ = None"

text \<open>\<open>new Date(seconds * 1000)\<close>.\<close>

definition date_of_seconds :: "rat \<Rightarrow> date" where
  "date_of_seconds s = new_date (to_double (s * 1000))"

lemma js_trunc_of_int [simp]: "js_trunc (of_int i) = i"
  by (simp add: js_trunc_def)

end
