(* ===== verification/TimeUtils.thy ===== *)
theory TimeUtils
  imports Constants JsText
begin

text \<open>
  \<open>api/src/utils.ts\<close>: \<open>iso8601duration\<close>, \<open>calculateInterval\<close> and \<open>multisigAddresses\<close>.
  The duration printer is shown equal to the Euclidean decomposition into days, hours, minutes,
  seconds and milliseconds, and a reader of such durations gets the number of milliseconds back.
  \<open>calculateInterval\<close> is shown to pick the coarsest preset step that still gives four buckets.
\<close>

section \<open>Durations\<close>

abbreviation ms_per_day :: int where "ms_per_day \<equiv> 86400000"

text \<open>The text of a duration from its parts: the second half of \<open>iso8601duration\<close>.\<close>

definition duration_text :: "int \<Rightarrow> int \<Rightarrow> int \<Rightarrow> int \<Rightarrow> int \<Rightarrow> string" where
  "duration_text days hours minutes seconds millis =
     ''P'' @ (if days \<noteq> 0 then dec_int days @ ''D'' else []) @
     (if hours \<noteq> 0 \<or> minutes \<noteq> 0 \<or> seconds \<noteq> 0 \<or> millis \<noteq> 0 then
        ''T'' @ (if hours \<noteq> 0 then dec_int hours @ ''H'' else []) @
        (if minutes \<noteq> 0 then dec_int minutes @ ''M'' else []) @
        (if seconds \<noteq> 0 \<or> millis \<noteq> 0 then
           dec_int seconds @ (if millis \<noteq> 0 then CHR ''.'' # pad_left 3 (dec_int millis) else []) @ ''S''
         else [])
      else [])"

definition iso8601duration :: "rat \<Rightarrow> string" where
  "iso8601duration milliseconds =
     (if milliseconds = 0 then ''P0D''
      else
        let offset = \<lfloor>milliseconds\<rfloor>;
            days = (if offset < 0 then js_rem offset ms_per_day else 0);
            offset1 = (if offset < 0 then offset - ms_per_day * days else offset);
            millis = js_rem offset1 1000;
            offset2 = offset1 div 1000;
            seconds = js_rem offset2 60;
            offset3 = offset2 div 60;
            minutes = js_rem offset3 60;
            offset4 = offset3 div 60;
            hours = js_rem offset4 24
        in duration_text (days + offset4 div 24) hours minutes seconds millis)"

text \<open>The mathematical decomposition of a whole number of milliseconds.\<close>

definition iso_reference :: "int \<Rightarrow> string" where
  "iso_reference n =
     (if n = 0 then ''P0D''
      else duration_text (n div ms_per_day) (n div 3600000 mod 24) (n div 60000 mod 60)
             (n div 1000 mod 60) (n mod 1000))"

text \<open>
  For a negative offset the source borrows \<open>offset % 86400000\<close> days, where the number of days to
  borrow is \<open>\<lfloor>offset / 86400000\<rfloor>\<close>. Taking a multiple of a day away and adding the same number of
  days back is harmless as long as what is left is not negative.
\<close>

lemma shift_div: "0 < k \<Longrightarrow> (n - k * d) div k = n div k - d" for n k d :: int
  using div_mult_self1 [of k n "- d"] by (simp add: algebra_simps)

lemma shift_rem: "0 \<le> n - k * d \<Longrightarrow> js_rem (n - k * d) k = n mod k" for n k d :: int
proof -
  assume "0 \<le> n - k * d"
  moreover have "(n + k * (- d)) mod k = n mod k" by (rule mod_mult_self2)
  ultimately show ?thesis by simp
qed

text \<open>
  The four numbers the source reads off an offset, and the days on top, for an offset that is not
  negative; and the same for the offset from which \<open>d\<close> days were taken.
\<close>

definition offset_parts :: "int \<Rightarrow> int \<Rightarrow> int \<times> int \<times> int \<times> int \<times> int" where
  "offset_parts d m =
     (d + m div 1000 div 60 div 60 div 24, js_rem (m div 1000 div 60 div 60) 24,
      js_rem (m div 1000 div 60) 60, js_rem (m div 1000) 60, js_rem m 1000)"

lemma offset_parts_nonneg:
  "0 \<le> m \<Longrightarrow> offset_parts d m =
     (d + m div ms_per_day, m div 3600000 mod 24, m div 60000 mod 60, m div 1000 mod 60, m mod 1000)"
  by (simp add: offset_parts_def zdiv_zmult2_eq [symmetric] pos_imp_zdiv_nonneg_iff)

lemma offset_parts_shift:
  assumes "0 \<le> n - ms_per_day * d"
  shows "offset_parts d (n - ms_per_day * d) =
    (n div ms_per_day, n div 3600000 mod 24, n div 60000 mod 60, n div 1000 mod 60, n mod 1000)"
proof -
  define m where "m = n - ms_per_day * d"
  have div: "m div ms_per_day = n div ms_per_day - d"
    unfolding m_def by (rule shift_div) simp
  have h: "m div 3600000 = n div 3600000 - 24 * d"
    using shift_div [of 3600000 n "24 * d"] by (simp add: m_def)
  have mi: "m div 60000 = n div 60000 - 60 * (24 * d)"
    using shift_div [of 60000 n "1440 * d"] by (simp add: m_def)
  have s: "m div 1000 = n div 1000 - 60 * (1440 * d)"
    using shift_div [of 1000 n "86400 * d"] by (simp add: m_def)
  have f: "m = n - 1000 * (86400 * d)" by (simp add: m_def)
  have mod: "(a - b * c) mod b = a mod b" for a b c :: int
    using mod_mult_self2 [of a b "- c"] by simp
  have "0 \<le> m" using assms by (simp add: m_def)
  from offset_parts_nonneg [OF this, of d] show ?thesis
    unfolding m_def [symmetric] div h mi s mod
    unfolding f mod by simp
qed

lemma iso8601duration_parts:
  "n \<noteq> 0 \<Longrightarrow> iso8601duration (of_int n) =
     (let d = (if n < 0 then js_rem n ms_per_day else 0) in
      case offset_parts d (n - ms_per_day * d) of (dd, h, m, s, f) \<Rightarrow> duration_text dd h m s f)"
  by (simp add: iso8601duration_def offset_parts_def Let_def)

lemma iso8601duration_nonneg: "0 \<le> n \<Longrightarrow> iso8601duration (of_int n) = iso_reference n"
proof (cases "n = 0")
  case True
  then show ?thesis by (simp add: iso8601duration_def iso_reference_def)
next
  case False
  assume "0 \<le> n"
  then have "offset_parts 0 (n - ms_per_day * 0) =
    (n div ms_per_day, n div 3600000 mod 24, n div 60000 mod 60, n div 1000 mod 60, n mod 1000)"
    by (intro offset_parts_shift) simp
  with \<open>0 \<le> n\<close> False show ?thesis
    by (simp add: iso8601duration_parts iso_reference_def Let_def)
qed

text \<open>Below zero the printer is right when the borrowed days cover the offset.\<close>

lemma iso8601duration_neg:
  assumes "n < 0" "0 \<le> n - ms_per_day * js_rem n ms_per_day"
  shows "iso8601duration (of_int n) = iso_reference n"
  using offset_parts_shift [OF assms(2)] assms(1)
  by (simp only: iso8601duration_parts iso_reference_def Let_def if_True prod.case) simp

section \<open>Reading durations back\<close>

text \<open>
  A reader for the durations the printer produces: days before the \<open>T\<close>, then hours, minutes and
  seconds with an optional fraction of three digits.
\<close>

definition read_unit :: "char \<Rightarrow> nat \<Rightarrow> string \<Rightarrow> nat \<times> string" where
  "read_unit u w s =
     (let ds = takeWhile is_digit s; r = dropWhile is_digit s
      in if ds \<noteq> [] \<and> r \<noteq> [] \<and> hd r = u then (digits_val ds * w, tl r) else (0, s))"

definition read_seconds :: "string \<Rightarrow> nat \<times> string" where
  "read_seconds s =
     (let ds = takeWhile is_digit s; r = dropWhile is_digit s
      in if ds = [] \<or> r = [] then (0, s)
         else if hd r = CHR ''S'' then (digits_val ds * 1000, tl r)
         else if hd r = CHR ''.'' then
           (digits_val ds * 1000 + digits_val (takeWhile is_digit (tl r)),
            tl (dropWhile is_digit (tl r)))
         else (0, s))"

definition read_duration :: "string \<Rightarrow> nat option" where
  "read_duration s =
     (if s = [] \<or> hd s \<noteq> CHR ''P'' then None
      else
        let (d, s1) = read_unit CHR ''D'' 86400000 (tl s)
        in if s1 = [] then Some d
           else if hd s1 \<noteq> CHR ''T'' then None
           else
             let (h, s2) = read_unit CHR ''H'' 3600000 (tl s1);
                 (m, s3) = read_unit CHR ''M'' 60000 s2;
                 (x, s4) = read_seconds s3
             in if s4 = [] then Some (d + h + m + x) else None)"

lemma letters_not_digits [simp]:
  "\<not> is_digit CHR ''D''" "\<not> is_digit CHR ''T''" "\<not> is_digit CHR ''H''" "\<not> is_digit CHR ''M''"
  "\<not> is_digit CHR ''S''" "\<not> is_digit CHR ''.''" "\<not> is_digit CHR ''P''"
  by (simp_all add: is_digit_def)

lemma read_unit_hit [simp]: "\<not> is_digit u \<Longrightarrow> read_unit u w (dec_nat n @ u # r) = (n * w, r)"
  by (simp add: read_unit_def)

lemma read_unit_other [simp]:
  "\<not> is_digit c \<Longrightarrow> c \<noteq> u \<Longrightarrow> read_unit u w (dec_nat n @ c # r) = (0, dec_nat n @ c # r)"
  by (simp add: read_unit_def)

lemma read_unit_none [simp]: "\<not> is_digit c \<Longrightarrow> read_unit u w (c # r) = (0, c # r)"
  "read_unit u w [] = (0, [])"
  by (simp_all add: read_unit_def)

lemma read_seconds_nil [simp]: "read_seconds [] = (0, [])"
  by (simp add: read_seconds_def)

lemma read_seconds_whole [simp]: "read_seconds (dec_nat n @ ''S'') = (n * 1000, [])"
  by (simp add: read_seconds_def)

lemma digits_val_zeros: "digits_val (replicate k (CHR ''0'') @ ds) = digits_val ds"
proof (induction k)
  case (Suc k)
  then show ?case by (simp add: digits_val_def digit_val_def)
qed simp

lemma digits_pad_left: "\<forall>c \<in> set (pad_left k (dec_nat n)). is_digit c"
  using all_digits_dec_nat by (auto simp: pad_left_def is_digit_def)

lemma read_seconds_fraction [simp]:
  "read_seconds (dec_nat n @ CHR ''.'' # pad_left k (dec_nat f) @ ''S'') = (n * 1000 + f, [])"
proof -
  let ?p = "pad_left k (dec_nat f)"
  have take: "takeWhile is_digit (?p @ ''S'') = ?p"
    using digits_pad_left [of k f] by (subst takeWhile_append2) auto
  have drop: "dropWhile is_digit (?p @ ''S'') = ''S''"
    using digits_pad_left [of k f] by (subst dropWhile_append2) auto
  have val: "digits_val ?p = f" by (simp add: pad_left_def digits_val_zeros)
  show ?thesis by (simp add: read_seconds_def take drop val)
qed

lemma dec_int_of_nat [simp]: "dec_int (int n) = dec_nat n"
  by (simp add: dec_int_def)

lemma read_duration_text:
  assumes "d \<noteq> 0 \<or> h \<noteq> 0 \<or> m \<noteq> 0 \<or> s \<noteq> 0 \<or> f \<noteq> 0"
  shows "read_duration (duration_text (int d) (int h) (int m) (int s) (int f)) =
    Some (d * 86400000 + h * 3600000 + m * 60000 + s * 1000 + f)"
proof -
  have dec: "dec_int (int k) = dec_nat k" for k by simp
  show ?thesis
    using assms unfolding duration_text_def dec
    by (cases "d = 0"; cases "h = 0"; cases "m = 0"; cases "s = 0"; cases "f = 0")
       (simp_all add: read_duration_def)
qed

lemma sum_of_parts:
  fixes n :: nat
  assumes "n = a * 1000 + f" "a = b * 60 + s" "b = c * 60 + m" "c = d * 24 + h"
  shows "d * 86400000 + h * 3600000 + m * 60000 + s * 1000 + f = n"
  using assms by simp

lemma nonzero_part:
  fixes n :: nat
  assumes "d * 86400000 + h * 3600000 + m * 60000 + s * 1000 + f = n" "n \<noteq> 0"
  shows "d \<noteq> 0 \<or> h \<noteq> 0 \<or> m \<noteq> 0 \<or> s \<noteq> 0 \<or> f \<noteq> 0"
  using assms by auto

lemma read_duration_iso_reference: "read_duration (iso_reference (int n)) = Some n"
proof (cases "n = 0")
  case True
  have "read_duration ''P0D'' = Some 0"
    by (simp add: read_duration_def read_unit_def is_digit_def digits_val_def digit_val_def)
  with True show ?thesis by (simp add: iso_reference_def)
next
  case False
  let ?d = "n div 86400000" and ?h = "n div 3600000 mod 24" and ?m = "n div 60000 mod 60"
  let ?s = "n div 1000 mod 60" and ?f = "n mod 1000"
  have sum: "?d * 86400000 + ?h * 3600000 + ?m * 60000 + ?s * 1000 + ?f = n"
  proof -
    have split: "n div k = n div (k * j) * j + n div k mod j" for k j :: nat
      by (simp add: div_mult2_eq)
    have parts: "n div 1000 = n div 60000 * 60 + ?s" "n div 60000 = n div 3600000 * 60 + ?m"
      "n div 3600000 = ?d * 24 + ?h" "n = n div 1000 * 1000 + ?f"
      using split [of 1000 60] split [of 60000 60] split [of 3600000 24] split [of 1 1000]
      by simp_all
    show ?thesis by (rule sum_of_parts [OF parts(4,1,2,3)])
  qed
  then have "?d \<noteq> 0 \<or> ?h \<noteq> 0 \<or> ?m \<noteq> 0 \<or> ?s \<noteq> 0 \<or> ?f \<noteq> 0"
    using False by (rule nonzero_part)
  from read_duration_text [OF this]
  have "read_duration (duration_text (int ?d) (int ?h) (int ?m) (int ?s) (int ?f)) = Some n"
    unfolding sum .
  moreover have "iso_reference (int n) = duration_text (int ?d) (int ?h) (int ?m) (int ?s) (int ?f)"
    using False by (simp only: iso_reference_def zdiv_int zmod_int of_nat_numeral) simp
  ultimately show ?thesis by simp
qed

section \<open>The preset step of a chart\<close>

text \<open>
  \<open>reduce\<close> without an initial value: the accumulator starts as the first key and the callback sees
  the index of each further one. The callback's \<open>array.splice(length)\<close> removes nothing, so the walk
  always reaches the last key, and its \<open>currentIndex === 0\<close> branch is never taken.
\<close>

fun reduce_from :: "('b \<Rightarrow> 'a \<Rightarrow> nat \<Rightarrow> 'b) \<Rightarrow> 'b \<Rightarrow> nat \<Rightarrow> 'a list \<Rightarrow> 'b" where
  "reduce_from f acc i [] = acc"
| "reduce_from f acc i (x # xs) = reduce_from f (f acc x i) (Suc i) xs"

definition interval_step :: "int \<Rightarrow> string \<times> int \<Rightarrow> string \<times> int \<Rightarrow> nat \<Rightarrow> string \<times> int" where
  "interval_step period previousValue currentValue currentIndex =
     (let parts = (of_int period / of_int (snd currentValue) :: rat) in
      if parts < 4 \<and> currentIndex > 0 then previousValue
      else if parts \<le> 12 \<and> currentIndex = 0 then currentValue
      else currentValue)"

definition calculateInterval :: "int \<Rightarrow> int \<Rightarrow> string" where
  "calculateInterval start end' =
     fst (reduce_from (interval_step (end' - start)) (hd Intervals) 1 (tl Intervals))"

text \<open>\<open>Intervals[name]\<close>.\<close>

definition interval_ms :: "string \<Rightarrow> int option" where
  "interval_ms name = map_of Intervals name"

lemma interval_step_simp:
  "0 < snd cur \<Longrightarrow> 0 < i \<Longrightarrow>
   interval_step period prev cur i = (if period < 4 * snd cur then prev else cur)"
proof -
  assume pos: "0 < snd cur" "0 < i"
  have "(of_int period / of_int (snd cur) :: rat) < 4 \<longleftrightarrow> (of_int period :: rat) < of_int (4 * snd cur)"
    using pos by (simp add: divide_less_eq)
  also have "\<dots> \<longleftrightarrow> period < 4 * snd cur" by (rule of_int_less_iff)
  finally show ?thesis using pos by (simp add: interval_step_def Let_def)
qed

lemma reduce_interval_last:
  "sorted (List.map snd xs) \<Longrightarrow> \<forall>x \<in> set xs. 0 < snd x \<Longrightarrow> 0 < i \<Longrightarrow>
   reduce_from (interval_step period) acc i xs = last (acc # takeWhile (\<lambda>x. 4 * snd x \<le> period) xs)"
proof (induction xs arbitrary: acc i)
  case (Cons x xs)
  show ?case
  proof (cases "4 * snd x \<le> period")
    case True
    with Cons show ?thesis by (simp add: interval_step_simp)
  next
    case False
    have "takeWhile (\<lambda>y. 4 * snd y \<le> period) xs = []"
      using False Cons.prems(1) by (cases xs) auto
    with False Cons show ?thesis by (simp add: interval_step_simp)
  qed
qed simp

lemma calculateInterval_takeWhile:
  "calculateInterval a b =
     fst (last (hd Intervals # takeWhile (\<lambda>x. 4 * snd x \<le> b - a) (tl Intervals)))"
  unfolding calculateInterval_def
  by (subst reduce_interval_last) (simp_all add: Intervals_def)

text \<open>The same as a table of thresholds, each four times a preset step.\<close>

lemma calculateInterval_table:
  "calculateInterval a b =
    (let p = b - a in
     if p < 7200000 then ''PT5M'' else if p < 14400000 then ''PT30M''
     else if p < 28800000 then ''PT1H'' else if p < 86400000 then ''PT2H''
     else if p < 172800000 then ''PT6H'' else if p < 201600000 then ''PT12H''
     else if p < 345600000 then ''PT14H'' else if p < 2419200000 then ''P1D''
     else if p < 9676800000 then ''P1W'' else if p < 116121600000 then ''P1M'' else ''P1Y'')"
  by (simp add: calculateInterval_takeWhile Intervals_def Let_def)

lemma calculateInterval_preset: "\<exists>ms. interval_ms (calculateInterval a b) = Some ms \<and> 300000 \<le> ms"
  by (simp add: calculateInterval_table interval_ms_def Intervals_def Let_def)

section \<open>Addresses of a bare multisig script\<close>

text \<open>
  The script decoder, the hash and the address encoder belong to \<open>dash-core-sdk\<close> and are
  parameters. A chunk is its opcode and its pushed data, if any.
\<close>

record script_chunk =
  opcode :: int
  chunk_data :: "nat list option"

definition multisigAddresses ::
  "(string \<Rightarrow> script_chunk list) \<Rightarrow> (nat list \<Rightarrow> nat list) \<Rightarrow> (nat list \<Rightarrow> network \<Rightarrow> string) \<Rightarrow>
   network \<Rightarrow> string \<Rightarrow> string list" where
  "multisigAddresses parse_script sha256ripemd160 pkh_to_address net scriptPubKey =
     List.map (\<lambda>chunk. pkh_to_address (sha256ripemd160 (or_else (chunk_data chunk) []))
                   (if net = Mainnet then Mainnet else Testnet))
       (filter (\<lambda>chunk. opcode chunk \<in> set PUBKEY_PUSH_OPCODES \<and> chunk_data chunk \<noteq> None)
          (parse_script scriptPubKey))"

lemma length_multisigAddresses:
  "length (multisigAddresses ps h enc net s) \<le> length (ps s)"
  by (simp add: multisigAddresses_def)

end
