(* ===== verification/Models.thy ===== *)
theory Models
  imports TimeUtils
begin

text \<open>
  \<open>api/src/models\<close>: the classes the API serialises, their constructors and their \<open>fromRow\<close> /
  \<open>fromObject\<close> factories. A constructor parameter may be left out, so it is a \<open>'a js\<close>; a field that
  the constructor completes with \<open>?? null\<close> is an \<open>'a option\<close>, with \<open>None\<close> for \<open>null\<close>. An object that
  is spread into \<open>fromObject\<close> (\<open>{...x}\<close>) passes every field on, \<open>null\<close> included: \<open>js_of_option\<close>.
\<close>

section \<open>Cells of a result row\<close>

text \<open>
  The PostgreSQL driver returns \<open>bigint\<close> columns as strings and smaller numbers as numbers;
  \<open>Number(x)\<close> of a missing cell is \<open>NaN\<close>, of \<open>NULL\<close> it is 0.
\<close>

datatype cell = CStr string | CNum rat

fun cell_number :: "cell \<Rightarrow> jsnum" where
  "cell_number (CStr s) = js_number s"
| "cell_number (CNum v) = Fin v"

fun js_Number :: "cell js \<Rightarrow> jsnum" where
  "js_Number JUndef = NaN"
| "js_Number JNull = Fin 0"
| "js_Number (J c) = cell_number c"

text \<open>\<open>Number(x) || 0\<close>.\<close>

fun num_or_0 :: "jsnum \<Rightarrow> jsnum" where
  "num_or_0 NaN = Fin 0"
| "num_or_0 n = n"

fun num_add :: "jsnum \<Rightarrow> jsnum \<Rightarrow> jsnum" where
  "num_add (Fin a) (Fin b) = Fin (a + b)"
| "num_add NaN _ = NaN"
| "num_add _ NaN = NaN"
| "num_add PosInf NegInf = NaN"
| "num_add NegInf PosInf = NaN"
| "num_add PosInf _ = PosInf"
| "num_add NegInf _ = NegInf"
| "num_add _ PosInf = PosInf"
| "num_add _ NegInf = NegInf"

section \<open>Result sets\<close>

record pagination =
  pg_page :: int
  pg_limit :: jsnum
  pg_total :: jsnum

record 'a PaginatedResultSet =
  resultSet :: "'a list"
  pagination :: pagination

text \<open>\<open>total: Number(resultSet.length ? total : -1)\<close>.\<close>

definition new_PaginatedResultSet ::
  "'a list \<Rightarrow> int \<Rightarrow> jsnum \<Rightarrow> cell js \<Rightarrow> 'a PaginatedResultSet" where
  "new_PaginatedResultSet rs page limit tot =
     \<lparr>resultSet = rs,
      pagination = \<lparr>pg_page = page, pg_limit = limit,
                    pg_total = js_Number (if length rs \<noteq> 0 then tot else J (CNum (-1)))\<rparr>\<rparr>"

record 'a CursorResultSet =
  cursorSet :: "'a list"
  cursor_limit :: int
  nextCursor :: "string option"

definition new_CursorResultSet :: "'a list \<Rightarrow> int \<Rightarrow> string option \<Rightarrow> 'a CursorResultSet" where
  "new_CursorResultSet rs limit next' =
     \<lparr>cursorSet = rs, cursor_limit = limit, nextCursor = next'\<rparr>"

record 'a SeriesData =
  timestamp :: "date option"
  data :: "'a option"

definition new_SeriesData :: "date js \<Rightarrow> 'a js \<Rightarrow> 'a SeriesData" where
  "new_SeriesData ts d = \<lparr>timestamp = or_null ts, data = or_null d\<rparr>"

section \<open>Addresses\<close>

text \<open>The driver hands block timestamps over as dates, which the class passes on as they are.\<close>

record Address =
  ad_address :: "string option"
  firstSeenBlock :: "string option"
  firstSeenBlockTimestamp :: "date option"
  firstSeenTx :: "string option"
  lastSeenBlock :: "string option"
  lastSeenBlockTimestamp :: "date option"
  lastSeenTx :: "string option"
  ad_txCount :: "jsnum option"
  ad_received :: "string option"
  ad_sent :: "string option"
  ad_balance :: "string option"

record AddressRow =
  ar_address :: "string js"
  ar_first_seen_block :: "string js"
  ar_first_seen_block_timestamp :: "date js"
  ar_first_seen_tx :: "string js"
  ar_last_seen_block :: "string js"
  ar_last_seen_block_timestamp :: "date js"
  ar_last_seen_tx :: "string js"
  ar_tx_count :: "cell js"
  ar_received :: "string js"
  ar_sent :: "string js"

definition new_Address ::
  "string js \<Rightarrow> string js \<Rightarrow> date js \<Rightarrow> string js \<Rightarrow> string js \<Rightarrow> date js \<Rightarrow> string js \<Rightarrow>
   jsnum js \<Rightarrow> string js \<Rightarrow> string js \<Rightarrow> string js \<Rightarrow> Address" where
  "new_Address address fsb fsbt fst' lsb lsbt lst txCount received sent balance =
     \<lparr>ad_address = or_null address, firstSeenBlock = or_null fsb,
      firstSeenBlockTimestamp = or_null fsbt, firstSeenTx = or_null fst',
      lastSeenBlock = or_null lsb, lastSeenBlockTimestamp = or_null lsbt,
      lastSeenTx = or_null lst, ad_txCount = or_null txCount,
      ad_received = or_null received, ad_sent = or_null sent, ad_balance = or_null balance\<rparr>"

definition Address_fromRow :: "AddressRow \<Rightarrow> Address" where
  "Address_fromRow r =
     new_Address (ar_address r) (ar_first_seen_block r) (ar_first_seen_block_timestamp r)
       (ar_first_seen_tx r) (ar_last_seen_block r) (ar_last_seen_block_timestamp r)
       (ar_last_seen_tx r) (J (js_Number (ar_tx_count r))) (ar_received r) (ar_sent r) JUndef"

text \<open>\<open>Address.fromObject({...a, balance})\<close>.\<close>

definition Address_fromObject :: "Address \<Rightarrow> string js \<Rightarrow> Address" where
  "Address_fromObject a balance =
     new_Address (js_of_option (ad_address a)) (js_of_option (firstSeenBlock a))
       (js_of_option (firstSeenBlockTimestamp a)) (js_of_option (firstSeenTx a))
       (js_of_option (lastSeenBlock a)) (js_of_option (lastSeenBlockTimestamp a))
       (js_of_option (lastSeenTx a)) (js_of_option (ad_txCount a))
       (js_of_option (ad_received a)) (js_of_option (ad_sent a)) balance"

record AddressBalance =
  ab_address :: "string option"
  ab_balance :: "string option"
  concentration :: "string option"

definition new_AddressBalance :: "string js \<Rightarrow> string js \<Rightarrow> string js \<Rightarrow> AddressBalance" where
  "new_AddressBalance address balance conc =
     \<lparr>ab_address = or_null address, ab_balance = or_null balance, concentration = or_null conc\<rparr>"

definition AddressBalance_fromRow :: "string js \<Rightarrow> string js \<Rightarrow> AddressBalance" where
  "AddressBalance_fromRow address balance = new_AddressBalance address balance JUndef"

definition AddressBalance_fromObject :: "string js \<Rightarrow> string js \<Rightarrow> string js \<Rightarrow> AddressBalance" where
  "AddressBalance_fromObject address balance conc = new_AddressBalance address balance conc"

record AddressInfo =
  ai_address :: "string option"
  ai_balance :: "string option"
  ai_txCount :: "jsnum option"

definition new_AddressInfo :: "string js \<Rightarrow> string js \<Rightarrow> jsnum js \<Rightarrow> AddressInfo" where
  "new_AddressInfo address balance txCount =
     \<lparr>ai_address = or_null address, ai_balance = or_null balance, ai_txCount = or_null txCount\<rparr>"

definition AddressInfo_fromRow :: "string js \<Rightarrow> string js \<Rightarrow> cell js \<Rightarrow> AddressInfo" where
  "AddressInfo_fromRow address balance tx_count =
     new_AddressInfo address balance (J (js_Number tx_count))"

definition AddressInfo_fromObject :: "string js \<Rightarrow> string js \<Rightarrow> jsnum js \<Rightarrow> AddressInfo" where
  "AddressInfo_fromObject address balance txCount = new_AddressInfo address balance txCount"

section \<open>Unspent outputs\<close>

record Utxo =
  ux_prevTxHash :: "string option"
  ux_vOutIndex :: "int option"
  ux_address :: "string option"
  ux_amount :: "string option"
  ux_scriptPubKeyHex :: "string option"
  ux_blockHeight :: "jsnum option"
  ux_confirmations :: "jsnum option"
  ux_timestamp :: "date option"
  ux_sequence :: "int option"
  ux_scriptSigASM :: "string option"

record UtxoRow =
  ur_prev_tx_hash :: "string js"
  ur_prev_vout_index :: "int js"
  ur_address :: "string js"
  ur_amount :: "string js"
  ur_script_pub_key :: "string js"
  ur_block_height :: "cell js"
  ur_confirmations :: "cell js"
  ur_timestamp :: "date js"

definition new_Utxo ::
  "string js \<Rightarrow> int js \<Rightarrow> string js \<Rightarrow> string js \<Rightarrow> string js \<Rightarrow> jsnum js \<Rightarrow> jsnum js \<Rightarrow> date js \<Rightarrow> Utxo" where
  "new_Utxo prevTxHash vOutIndex address amount scriptPubKeyHex blockHeight confirmations ts =
     \<lparr>ux_prevTxHash = or_null prevTxHash, ux_vOutIndex = or_null vOutIndex,
      ux_address = or_null address, ux_amount = or_null amount,
      ux_scriptPubKeyHex = or_null scriptPubKeyHex, ux_blockHeight = or_null blockHeight,
      ux_confirmations = or_null confirmations, ux_timestamp = or_null ts,
      ux_sequence = None, ux_scriptSigASM = None\<rparr>"

text \<open>\<open>x != null ? Number(x) : undefined\<close>.\<close>

definition number_if_set :: "cell js \<Rightarrow> jsnum js" where
  "number_if_set c = (case or_null c of None \<Rightarrow> JUndef | Some x \<Rightarrow> J (cell_number x))"

definition Utxo_fromRow :: "UtxoRow \<Rightarrow> Utxo" where
  "Utxo_fromRow r =
     new_Utxo (ur_prev_tx_hash r) (ur_prev_vout_index r) (ur_address r) (ur_amount r)
       (ur_script_pub_key r) (number_if_set (ur_block_height r))
       (number_if_set (ur_confirmations r)) (ur_timestamp r)"

definition Utxo_fromRows :: "UtxoRow list \<Rightarrow> Utxo list" where
  "Utxo_fromRows rows = List.map Utxo_fromRow rows"

section \<open>Blocks\<close>

record Block =
  bk_height :: "int option"
  bk_hash :: "string option"
  bk_version :: "int option"
  bk_timestamp :: "date option"
  bk_txCount :: "int option"
  bk_size :: "int option"
  creditPoolBalance :: "rat option"
  bk_difficulty :: "rat option"
  merkleRoot :: "string js"
  previousBlockHash :: "string option"
  nonce :: "cell option"
  bk_confirmations :: "int option"
  bk_superblock :: "bool option"

record BlockRow =
  br_height :: "int js"
  br_hash :: "string js"
  br_version :: "int js"
  br_timestamp :: "date js"
  br_tx_count :: "int js"
  br_size :: "int js"
  br_credit_pool_balance :: "rat js"
  br_difficulty :: "rat js"
  br_merkle_root :: "string js"
  br_previous_block_hash :: "string js"
  br_nonce :: "cell js"
  br_confirmations :: "int js"
  br_superblock :: "bool js"

definition new_Block ::
  "int js \<Rightarrow> string js \<Rightarrow> int js \<Rightarrow> date js \<Rightarrow> int js \<Rightarrow> int js \<Rightarrow> rat js \<Rightarrow> rat js \<Rightarrow> string js \<Rightarrow>
   string js \<Rightarrow> cell js \<Rightarrow> int js \<Rightarrow> bool js \<Rightarrow> Block" where
  "new_Block height hash version ts txCount size' credit difficulty merkle prev nonce' confs superblock =
     \<lparr>bk_height = or_null height, bk_hash = or_null hash, bk_version = or_null version,
      bk_timestamp = or_null ts, bk_txCount = or_null txCount, bk_size = or_null size',
      creditPoolBalance = or_null credit, bk_difficulty = or_null difficulty,
      merkleRoot = merkle, previousBlockHash = or_null prev, nonce = or_null nonce',
      bk_confirmations = or_null confs, bk_superblock = or_null superblock\<rparr>"

definition Block_fromRow :: "BlockRow \<Rightarrow> Block" where
  "Block_fromRow r =
     new_Block (br_height r) (br_hash r) (br_version r) (br_timestamp r) (br_tx_count r) (br_size r)
       (br_credit_pool_balance r) (br_difficulty r) (br_merkle_root r) (br_previous_block_hash r)
       (br_nonce r) (br_confirmations r) (br_superblock r)"

section \<open>Search and wallets\<close>

record XpubAddress =
  xa_address :: "string option"
  xa_branch :: "nat option"
  xa_index :: "nat option"
  xa_used :: "bool option"

definition new_XpubAddress :: "string js \<Rightarrow> nat js \<Rightarrow> nat js \<Rightarrow> bool js \<Rightarrow> XpubAddress" where
  "new_XpubAddress address branch index used =
     \<lparr>xa_address = or_null address, xa_branch = or_null branch, xa_index = or_null index,
      xa_used = or_null used\<rparr>"

record next_unused =
  receive :: "nat option"
  change :: "nat option"

record XpubSummary =
  xs_balance :: "string option"
  xs_received :: "string option"
  xs_sent :: "string option"
  xs_txCount :: "jsnum option"
  addressCount :: "nat option"
  usedAddressCount :: "nat option"
  nextUnused :: "next_unused option"

definition new_XpubSummary ::
  "string js \<Rightarrow> string js \<Rightarrow> string js \<Rightarrow> jsnum js \<Rightarrow> nat js \<Rightarrow> nat js \<Rightarrow> next_unused js \<Rightarrow> XpubSummary" where
  "new_XpubSummary balance received sent txCount cnt used next' =
     \<lparr>xs_balance = or_null balance, xs_received = or_null received, xs_sent = or_null sent,
      xs_txCount = or_null txCount, addressCount = or_null cnt, usedAddressCount = or_null used,
      nextUnused = or_null next'\<rparr>"

definition XpubSummary_fromRow :: "string js \<Rightarrow> string js \<Rightarrow> string js \<Rightarrow> cell js \<Rightarrow> XpubSummary" where
  "XpubSummary_fromRow balance received sent tx_count =
     new_XpubSummary balance received sent (J (js_Number tx_count)) JUndef JUndef JUndef"

text \<open>\<open>XpubSummary.fromObject({...summary, addressCount, usedAddressCount, nextUnused})\<close>.\<close>

definition XpubSummary_fromObject ::
  "XpubSummary \<Rightarrow> nat js \<Rightarrow> nat js \<Rightarrow> next_unused js \<Rightarrow> XpubSummary" where
  "XpubSummary_fromObject s cnt used next' =
     new_XpubSummary (js_of_option (xs_balance s)) (js_of_option (xs_received s))
       (js_of_option (xs_sent s)) (js_of_option (xs_txCount s)) cnt used next'"

section \<open>Statistics of transactions\<close>

record TransactionStats =
  ts_total :: "jsnum option"
  ts_special :: "jsnum option"
  ts_coinjoin :: "jsnum option"
  ts_multisig :: "jsnum option"
  ts_normal :: "jsnum option"

text \<open>
  \<open>fromRow\<close> reads every count with \<open>Number\<close>, which leaves a number as it is: \<open>TransactionStats_of\<close> is
  the factory on counts that are numbers already.
\<close>

definition TransactionStats_of :: "jsnum \<Rightarrow> jsnum \<Rightarrow> jsnum \<Rightarrow> jsnum \<Rightarrow> TransactionStats" where
  "TransactionStats_of special coinjoin normal multisig =
     (let specialTxsCount = num_or_0 special;
          coinjoinTxsCount = num_or_0 coinjoin;
          multisigTxsCount = num_or_0 multisig;
          normalTxsCount = num_or_0 normal;
          totalCount = num_add (num_add (num_add specialTxsCount coinjoinTxsCount) multisigTxsCount)
                         normalTxsCount
      in \<lparr>ts_total = Some totalCount, ts_special = Some specialTxsCount,
          ts_coinjoin = Some coinjoinTxsCount, ts_multisig = Some multisigTxsCount,
          ts_normal = Some normalTxsCount\<rparr>)"

definition TransactionStats_fromRow ::
  "cell js \<Rightarrow> cell js \<Rightarrow> cell js \<Rightarrow> cell js \<Rightarrow> TransactionStats" where
  "TransactionStats_fromRow special coinjoin normal multisig =
     TransactionStats_of (js_Number special) (js_Number coinjoin) (js_Number normal) (js_Number multisig)"

section \<open>Geography\<close>

record GeoIpInfo =
  ipv4 :: string
  countryCode :: "string option"
  city :: "string option"
  latitude :: "rat option"
  longitude :: "rat option"

section \<open>Masternodes\<close>

text \<open>
  Six fields have no default, so that an entry built without them serialises without them: they
  stay \<open>'a js\<close>.
\<close>

record Masternode =
  proTxHash :: "string option"
  mn_address :: "string js"
  payee :: "string option"
  mn_status :: "string option"
  mn_type :: "string option"
  posPenaltyScore :: "int js"
  consecutivePayments :: "int js"
  lastPaidTime :: "date js"
  lastPaidBlock :: "int js"
  ownerAddress :: "string option"
  votingAddress :: "string option"
  collateralAddress :: "string option"
  pubKeyOperator :: "string js"
  createdAt :: "date option"
  updatedAt :: "date js"
  geoIpInfo :: "GeoIpInfo option"

record MasternodeRow =
  mr_pro_tx_hash :: "string js"
  mr_address :: "string js"
  mr_payee :: "string js"
  mr_status :: "string js"
  mr_type :: "string js"
  mr_pos_penalty_score :: "int js"
  mr_consecutive_payments :: "int js"
  mr_last_paid_time :: "cell js"
  mr_last_paid_block :: "int js"
  mr_owner_address :: "string js"
  mr_voting_address :: "string js"
  mr_collateral_address :: "string js"
  mr_pub_key_operator :: "string js"
  mr_created_at :: "date js"
  mr_updated_at :: "date js"

definition new_Masternode ::
  "string js \<Rightarrow> string js \<Rightarrow> string js \<Rightarrow> string js \<Rightarrow> string js \<Rightarrow> int js \<Rightarrow> int js \<Rightarrow> date js \<Rightarrow>
   int js \<Rightarrow> string js \<Rightarrow> string js \<Rightarrow> string js \<Rightarrow> string js \<Rightarrow> date js \<Rightarrow> date js \<Rightarrow> GeoIpInfo js \<Rightarrow> Masternode" where
  "new_Masternode hash address payee' status type' pos cons paidTime paidBlock owner voting
     collateral operator created updated geo =
     \<lparr>proTxHash = or_null hash, mn_address = address, payee = or_null payee',
      mn_status = or_null status, mn_type = or_null type', posPenaltyScore = pos,
      consecutivePayments = cons, lastPaidTime = paidTime, lastPaidBlock = paidBlock,
      ownerAddress = or_null owner, votingAddress = or_null voting,
      collateralAddress = or_null collateral, pubKeyOperator = operator,
      createdAt = or_null created, updatedAt = updated, geoIpInfo = or_null geo\<rparr>"

text \<open>\<open>new Date(Number(x ?? 0) * 1000)\<close>.\<close>

fun date_of_seconds_num :: "jsnum \<Rightarrow> date" where
  "date_of_seconds_num (Fin v) = date_of_seconds v"
| "date_of_seconds_num _ = None"

definition Masternode_fromRow :: "MasternodeRow \<Rightarrow> Masternode" where
  "Masternode_fromRow r =
     (let lastPaidDate = date_of_seconds_num (js_Number (J (coalesce (mr_last_paid_time r) (CNum 0))))
      in new_Masternode (mr_pro_tx_hash r) (mr_address r) (mr_payee r) (mr_status r) (mr_type r)
           (mr_pos_penalty_score r) (mr_consecutive_payments r) (J lastPaidDate)
           (mr_last_paid_block r) (mr_owner_address r) (mr_voting_address r)
           (mr_collateral_address r) (mr_pub_key_operator r) (mr_created_at r) (mr_updated_at r)
           JUndef)"

text \<open>\<open>Masternode.fromObject({...masternode, geoIpInfo})\<close>.\<close>

definition Masternode_fromObject :: "Masternode \<Rightarrow> GeoIpInfo js \<Rightarrow> Masternode" where
  "Masternode_fromObject m geo =
     new_Masternode (js_of_option (proTxHash m)) (mn_address m) (js_of_option (payee m))
       (js_of_option (mn_status m)) (js_of_option (mn_type m)) (posPenaltyScore m)
       (consecutivePayments m) (lastPaidTime m) (lastPaidBlock m) (js_of_option (ownerAddress m))
       (js_of_option (votingAddress m)) (js_of_option (collateralAddress m)) (pubKeyOperator m)
       (js_of_option (createdAt m)) (updatedAt m) geo"

section \<open>Spreading an object into \<open>fromObject\<close>\<close>

text \<open>Re-wrapping replaces exactly the named fields: no argument is lost or swapped on the way.\<close>

lemma Address_rewrap: "Address_fromObject a b = a\<lparr>ad_balance := or_null b\<rparr>"
  by (simp add: Address_fromObject_def new_Address_def)

lemma Masternode_rewrap: "Masternode_fromObject m g = m\<lparr>geoIpInfo := or_null g\<rparr>"
  by (simp add: Masternode_fromObject_def new_Masternode_def)

lemma XpubSummary_rewrap:
  "XpubSummary_fromObject s c u n =
     s\<lparr>addressCount := or_null c, usedAddressCount := or_null u, nextUnused := or_null n\<rparr>"
  by (simp add: XpubSummary_fromObject_def new_XpubSummary_def)

end
