(* ===== verification/GovernanceModels.thy ===== *)
theory GovernanceModels
  imports Models
begin

text \<open>
  The governance classes of \<open>api/src/models\<close>: \<open>VoteResult\<close>, \<open>ProposalData\<close>, \<open>ProposalVote\<close> and
  \<open>GovernanceObject\<close>, with the records the node answers with. The parser of JSON texts is a
  parameter. The lemmas show that a vote record of the node is read back field by field.
\<close>

section \<open>Vote results\<close>

record vote_result_raw =
  AbsoluteYesCount :: "int js"
  YesCount :: "int js"
  NoCount :: "int js"
  AbstainCount :: "int js"

record VoteResult =
  vr_absoluteYesCount :: int
  vr_yesCount :: int
  vr_noCount :: int
  vr_abstainCount :: int

definition VoteResult_fromRaw :: "vote_result_raw js \<Rightarrow> VoteResult option" where
  "VoteResult_fromRaw raw =
     (case or_null raw of
        None \<Rightarrow> None
      | Some r \<Rightarrow> Some \<lparr>vr_absoluteYesCount = coalesce (AbsoluteYesCount r) 0,
                        vr_yesCount = coalesce (YesCount r) 0, vr_noCount = coalesce (NoCount r) 0,
                        vr_abstainCount = coalesce (AbstainCount r) 0\<rparr>)"

section \<open>Proposal data\<close>

record proposal_data_raw =
  end_epoch :: "rat js"
  raw_name :: "string js"
  payment_address :: "string js"
  payment_amount :: "rat js"
  start_epoch :: "rat js"
  raw_type :: "int js"
  raw_url :: "string js"

record ProposalData =
  pd_endEpoch :: "rat option"
  pd_startEpoch :: "rat option"
  pd_name :: "string option"
  pd_paymentAddress :: "string option"
  pd_paymentAmount :: "rat option"
  pd_type :: "int option"
  pd_url :: "string option"

definition new_ProposalData ::
  "rat js \<Rightarrow> string js \<Rightarrow> string js \<Rightarrow> rat js \<Rightarrow> rat js \<Rightarrow> int js \<Rightarrow> string js \<Rightarrow> ProposalData" where
  "new_ProposalData endEpoch name paymentAddress paymentAmount startEpoch type' url =
     \<lparr>pd_endEpoch = or_null endEpoch, pd_startEpoch = or_null startEpoch, pd_name = or_null name,
      pd_paymentAddress = or_null paymentAddress, pd_paymentAmount = or_null paymentAmount,
      pd_type = or_null type', pd_url = or_null url\<rparr>"

definition ProposalData_fromObject :: "proposal_data_raw \<Rightarrow> ProposalData" where
  "ProposalData_fromObject o' =
     new_ProposalData (end_epoch o') (raw_name o') (payment_address o') (payment_amount o')
       (start_epoch o') (raw_type o') (raw_url o')"

section \<open>Votes\<close>

record ProposalVote =
  vote_outpoint :: string
  vote_proTxHash :: "string option"
  vote_proposalHash :: "string js"
  vote_time :: date
  vote_outcome :: string
  vote_signal :: string

text \<open>A vote record is \<open>outpoint:time:outcome:signal\<close>; anything after a fifth colon is ignored.\<close>

definition ProposalVote_fromRaw :: "string \<Rightarrow> ProposalVote option" where
  "ProposalVote_fromRaw value =
     (let parts = js_split (CHR '':'') value in
      case parts of
        outpoint # timeStr # outcome # signal # _ \<Rightarrow>
          (case js_number timeStr of
             Fin timeSec \<Rightarrow>
               Some \<lparr>vote_outpoint = outpoint, vote_proTxHash = None, vote_proposalHash = JUndef,
                     vote_time = date_of_seconds timeSec, vote_outcome = outcome,
                     vote_signal = signal\<rparr>
           | _ \<Rightarrow> None)
      | _ \<Rightarrow> None)"

text \<open>The record a node prints for a vote.\<close>

definition print_vote :: "string \<Rightarrow> nat \<Rightarrow> string \<Rightarrow> string \<Rightarrow> string" where
  "print_vote outpoint secs outcome signal =
     js_join '':'' [outpoint, dec_nat secs, outcome, signal]"

lemma dec_nat_no_colon: "CHR '':'' \<notin> set (dec_nat n)"
  using all_digits_dec_nat [of n] by (auto simp: is_digit_def)

lemma double_limit_date: "8640000000000000 < double_limit"
  by (simp add: double_limit_def)

lemma new_date_int:
  assumes "\<bar>k\<bar> \<le> m" "of_int m < double_limit" "m \<le> 8640000000000000"
  shows "new_date (to_double (of_int k)) = Some k"
proof -
  have "(of_int \<bar>k\<bar> :: rat) \<le> of_int m" using assms(1) by (simp only: of_int_le_iff)
  then have lim: "\<bar>of_int k :: rat\<bar> < double_limit" using assms(2) by simp
  have "(of_int \<bar>k\<bar> :: rat) \<le> of_int 8640000000000000"
    using assms(1,3) by (simp only: of_int_le_iff)
  then have date: "\<not> 8640000000000000 < \<bar>of_int k :: rat\<bar>" by simp
  have "to_double (of_int k) = Fin (of_int k)" using lim by (auto simp: to_double_def)
  then show ?thesis using date by (simp only: new_date.simps js_trunc_of_int if_False)
qed

lemma date_of_seconds_nat:
  assumes "int n \<le> 8640000000000"
  shows "date_of_seconds (of_nat n) = Some (int n * 1000)"
proof -
  have "\<bar>int n * 1000\<bar> \<le> 8640000000000000" using assms by simp
  then have "new_date (to_double (of_int (int n * 1000))) = Some (int n * 1000)"
    by (rule new_date_int) (use double_limit_date in simp_all)
  moreover have "(of_nat n * 1000 :: rat) = of_int (int n * 1000)" by simp
  ultimately show ?thesis by (simp only: date_of_seconds_def)
qed

lemma ProposalVote_fromRaw_print:
  assumes "CHR '':'' \<notin> set outpoint" "CHR '':'' \<notin> set outcome" "CHR '':'' \<notin> set signal"
    "int secs \<le> 8640000000000"
  shows "ProposalVote_fromRaw (print_vote outpoint secs outcome signal) =
    Some \<lparr>vote_outpoint = outpoint, vote_proTxHash = None, vote_proposalHash = JUndef,
          vote_time = Some (int secs * 1000), vote_outcome = outcome, vote_signal = signal\<rparr>"
proof -
  have "(of_nat secs :: rat) = of_int (int secs)" by simp
  also have "\<dots> \<le> of_int 8640000000000" using assms(4) by (simp only: of_int_le_iff)
  also have "\<dots> < double_limit" by (simp add: double_limit_def)
  finally have small: "(of_nat secs :: rat) < double_limit" .
  have "js_split (CHR '':'') (print_vote outpoint secs outcome signal) =
        [outpoint, dec_nat secs, outcome, signal]"
    unfolding print_vote_def by (rule js_split_join) (use assms dec_nat_no_colon in auto)
  then show ?thesis
    using assms(4) small by (simp add: ProposalVote_fromRaw_def js_number_dec_nat date_of_seconds_nat)
qed

section \<open>Governance objects\<close>

record GovernanceObjectDetails =
  DataHex :: "string js"
  DataString :: "string js"
  go_Hash :: string
  CollateralHash :: "string js"
  ObjectType :: int
  CreationTime :: rat
  go_AbsoluteYesCount :: "int js"
  go_YesCount :: "int js"
  go_NoCount :: "int js"
  go_AbstainCount :: "int js"
  fLocalValidity :: "bool js"
  IsValidReason :: "string js"
  FundingResult :: "vote_result_raw js"
  DeleteResult :: "vote_result_raw js"
  EndorsedResult :: "vote_result_raw js"

record GovernanceObject =
  dataHex :: "string option"
  endEpoch :: "rat option"
  startEpoch :: "rat option"
  go_name :: "string option"
  paymentAddress :: "string option"
  paymentAmount :: "rat option"
  go_type :: "int option"
  go_url :: "string option"
  go_hash :: "string option"
  collateralHash :: "string option"
  objectType :: "GovernanceObjectType option"
  creationTime :: "date option"
  absoluteYesCount :: "int option"
  yesCount :: "int option"
  noCount :: "int option"
  abstainCount :: "int option"
  localValidity :: "bool option"
  isValidReason :: "string option"
  enoughVotes :: "bool option"
  enoughFunds :: "bool option"
  fundingResult :: "VoteResult option"
  deleteResult :: "VoteResult option"
  endorsedResult :: "VoteResult option"
  votes :: "ProposalVote list option"

definition new_GovernanceObject ::
  "string js \<Rightarrow> ProposalData option \<Rightarrow> string js \<Rightarrow> string js \<Rightarrow> GovernanceObjectType js \<Rightarrow> date js \<Rightarrow>
   int js \<Rightarrow> int js \<Rightarrow> int js \<Rightarrow> int js \<Rightarrow> bool js \<Rightarrow> string js \<Rightarrow> bool js \<Rightarrow> bool js \<Rightarrow>
   VoteResult option \<Rightarrow> VoteResult option \<Rightarrow> VoteResult option \<Rightarrow> GovernanceObject" where
  "new_GovernanceObject hex d hash collateral type' created absyes yes no' abstain validity reason
     enoughV enoughF funding del endorsed =
     \<lparr>dataHex = or_null hex,
      endEpoch = Option.bind d pd_endEpoch, startEpoch = Option.bind d pd_startEpoch,
      go_name = Option.bind d pd_name, paymentAddress = Option.bind d pd_paymentAddress,
      paymentAmount = Option.bind d pd_paymentAmount, go_type = Option.bind d pd_type,
      go_url = Option.bind d pd_url, go_hash = or_null hash, collateralHash = or_null collateral,
      objectType = or_null type', creationTime = or_null created,
      absoluteYesCount = or_null absyes, yesCount = or_null yes, noCount = or_null no',
      abstainCount = or_null abstain, localValidity = or_null validity,
      isValidReason = or_null reason, enoughVotes = or_null enoughV, enoughFunds = or_null enoughF,
      fundingResult = funding, deleteResult = del, endorsedResult = endorsed, votes = None\<rparr>"

text \<open>
  \<open>JSON.parse\<close> of the data string throws on text that is not JSON, and may answer \<open>null\<close>. An object
  type outside the enum is \<open>undefined\<close>.
\<close>

definition GovernanceObject_fromObject ::
  "(string \<Rightarrow> proposal_data_raw option result) \<Rightarrow> GovernanceObjectDetails \<Rightarrow> GovernanceObject result" where
  "GovernanceObject_fromObject json_parse obj =
     bind_result
       (case or_null (DataString obj) of None \<Rightarrow> Inr None | Some s \<Rightarrow> json_parse s)
       (\<lambda>d. Inr (new_GovernanceObject (DataHex obj) (map_option ProposalData_fromObject d)
              (J (go_Hash obj)) (CollateralHash obj)
              (case gov_type_of_code (ObjectType obj) of None \<Rightarrow> JUndef | Some t \<Rightarrow> J t)
              (J (date_of_seconds (CreationTime obj))) (go_AbsoluteYesCount obj) (go_YesCount obj)
              (go_NoCount obj) (go_AbstainCount obj) (fLocalValidity obj) (IsValidReason obj)
              JUndef JUndef (VoteResult_fromRaw (FundingResult obj))
              (VoteResult_fromRaw (DeleteResult obj)) (VoteResult_fromRaw (EndorsedResult obj))))"

lemmas governance_object_defs =
  GovernanceObject_fromObject_def new_GovernanceObject_def ProposalData_fromObject_def
  new_ProposalData_def VoteResult_fromRaw_def

end
