(* ===== verification/Sql.thy ===== *)
theory Sql
  imports Models
begin

text \<open>
  What the data access objects use of SQL, through the query builder. A table is a list of row
  records; the order of that list stands for the order in which the server happens to deliver the
  rows, so a property that holds for every table does not rest on how ties are broken.

  \<^item> \<open>orderBy(key, order)\<close>: ascending unless the order is \<open>desc\<close>; \<open>NULL\<close> keys come last in
    ascending and first in descending order;
  \<^item> \<open>limit(n).offset(k)\<close>: a negative limit is an error of the server;
  \<^item> \<open>count(*) over()\<close>: a \<open>bigint\<close> column, so a string, on every row.
\<close>

section \<open>Ordering\<close>

datatype sql_dir = Asc | Desc

definition dir_of :: "string \<Rightarrow> sql_dir" where
  "dir_of order = (if order = ''desc'' then Desc else Asc)"

text \<open>\<open>orderBy(column, order)\<close> with an order that may be missing.\<close>

fun js_dir :: "string js \<Rightarrow> sql_dir" where
  "js_dir (J order) = dir_of order"
| "js_dir _ = Asc"

fun null_key_le :: "sql_dir \<Rightarrow> int option \<Rightarrow> int option \<Rightarrow> bool" where
  "null_key_le Asc (Some a) (Some b) \<longleftrightarrow> a \<le> b"
| "null_key_le Desc (Some a) (Some b) \<longleftrightarrow> b \<le> a"
| "null_key_le Asc _ None \<longleftrightarrow> True"
| "null_key_le Desc None _ \<longleftrightarrow> True"
| "null_key_le Asc None (Some _) \<longleftrightarrow> False"
| "null_key_le Desc (Some _) None \<longleftrightarrow> False"

lemma null_key_le_total: "null_key_le d a b \<or> null_key_le d b a"
  by (cases d; cases a; cases b) auto

lemma null_key_le_trans: "null_key_le d a b \<Longrightarrow> null_key_le d b c \<Longrightarrow> null_key_le d a c"
  by (cases d; cases a; cases b; cases c) auto

lemma null_key_le_antisym: "null_key_le d a b \<Longrightarrow> null_key_le d b a \<Longrightarrow> a = b"
  by (cases d; cases a; cases b) auto

definition order_cmp :: "sql_dir \<Rightarrow> ('r \<Rightarrow> int option) \<Rightarrow> 'r \<Rightarrow> 'r \<Rightarrow> int" where
  "order_cmp d key x y =
     (if null_key_le d (key x) (key y) then if null_key_le d (key y) (key x) then 0 else -1 else 1)"

lemma order_cmp_le: "order_cmp d key x y \<le> 0 \<longleftrightarrow> null_key_le d (key x) (key y)"
  by (simp add: order_cmp_def)

interpretation order_by: js_comparator "order_cmp d key" for d :: sql_dir and key :: "'r \<Rightarrow> int option"
  by unfold_locales (use null_key_le_total in \<open>auto simp: order_cmp_le intro: null_key_le_trans\<close>)

definition order_by :: "sql_dir \<Rightarrow> ('r \<Rightarrow> int option) \<Rightarrow> 'r list \<Rightarrow> 'r list" where
  "order_by d key rows = js_sort (order_cmp d key) rows"

lemma mset_order_by [simp]: "mset (order_by d key rows) = mset rows"
  by (simp add: order_by_def)

lemma set_order_by [simp]: "set (order_by d key rows) = set rows"
  by (simp add: order_by_def)

lemma length_order_by [simp]: "length (order_by d key rows) = length rows"
  by (simp add: order_by_def)

lemma distinct_order_by [simp]: "distinct (order_by d key rows) = distinct rows"
  by (simp add: order_by_def)

lemma order_by_Nil [simp]: "order_by d key [] = []"
  by (simp add: order_by_def js_sort_def)

lemma order_by_eq_Nil [simp]: "order_by d key rows = [] \<longleftrightarrow> rows = []"
  by (metis length_0_conv length_order_by)

lemma sorted_order_by: "sorted_wrt (\<lambda>a b. null_key_le d (key a) (key b)) (order_by d key rows)"
  using order_by.sorted_js_sort [of d key rows] by (simp add: order_cmp_le order_by_def)

lemma sorted_order_by_desc:
  "(\<And>r. r \<in> set rows \<Longrightarrow> key r = Some (f r)) \<Longrightarrow>
   sorted_wrt (\<lambda>a b. f b \<le> f a) (order_by Desc key rows)"
  by (rule sorted_wrt_mono_rel [OF _ sorted_order_by [of Desc key rows]]) auto

lemma sorted_order_by_asc:
  "(\<And>r. r \<in> set rows \<Longrightarrow> key r = Some (f r)) \<Longrightarrow>
   sorted_wrt (\<lambda>a b. f a \<le> f b) (order_by Asc key rows)"
  by (rule sorted_wrt_mono_rel [OF _ sorted_order_by [of Asc key rows]]) auto

text \<open>Several keys, each with its direction, the first one deciding.\<close>

fun lex_cmp :: "('r \<Rightarrow> 'r \<Rightarrow> int) list \<Rightarrow> 'r \<Rightarrow> 'r \<Rightarrow> int" where
  "lex_cmp [] x y = 0"
| "lex_cmp (c # cs) x y = (let v = c x y in if v = 0 then lex_cmp cs x y else v)"

abbreviation keys_cmp :: "(sql_dir \<times> ('r \<Rightarrow> int option)) list \<Rightarrow> 'r \<Rightarrow> 'r \<Rightarrow> int" where
  "keys_cmp ks \<equiv> lex_cmp (map (\<lambda>(d, key). order_cmp d key) ks)"

lemma order_cmp_0: "order_cmp d key x y = 0 \<longleftrightarrow> key x = key y"
  by (auto simp: order_cmp_def dest: null_key_le_antisym split: if_splits)
     (metis null_key_le_total)+

lemma order_cmp_values: "order_cmp d key x y \<in> {-1, 0, 1}"
  by (simp add: order_cmp_def)

text \<open>The comparison by several keys, spelled out.\<close>

lemma keys_cmp_Cons:
  "keys_cmp ((d, key) # ks) x y \<le> 0 \<longleftrightarrow>
     (if key x = key y then keys_cmp ks x y \<le> 0 else null_key_le d (key x) (key y))"
  using order_cmp_0 [of d key x y] order_cmp_le [of d key x y] by (auto simp: Let_def)

lemma keys_cmp_total: "keys_cmp ks x y \<le> 0 \<or> keys_cmp ks y x \<le> 0"
proof (induction ks)
  case (Cons k ks)
  obtain d key where [simp]: "k = (d, key)" by (cases k)
  show ?case using Cons null_key_le_total [of d "key x" "key y"] by (simp add: keys_cmp_Cons del: lex_cmp.simps list.map)
qed simp

lemma keys_cmp_trans: "keys_cmp ks x y \<le> 0 \<Longrightarrow> keys_cmp ks y z \<le> 0 \<Longrightarrow> keys_cmp ks x z \<le> 0"
proof (induction ks)
  case (Cons k ks)
  obtain d key where k: "k = (d, key)" by (cases k)
  show ?case
    using Cons.prems Cons.IH null_key_le_trans [of d "key x" "key y" "key z"]
      null_key_le_antisym [of d "key x" "key y"]
    unfolding k keys_cmp_Cons by (auto split: if_splits)
qed simp

interpretation order_by_keys: js_comparator "keys_cmp ks" for ks :: "(sql_dir \<times> ('r \<Rightarrow> int option)) list"
  by unfold_locales (fact keys_cmp_total, fact keys_cmp_trans)

definition order_by_keys :: "(sql_dir \<times> ('r \<Rightarrow> int option)) list \<Rightarrow> 'r list \<Rightarrow> 'r list" where
  "order_by_keys ks rows = js_sort (keys_cmp ks) rows"

lemma mset_order_by_keys [simp]: "mset (order_by_keys ks rows) = mset rows"
  by (simp add: order_by_keys_def)

lemma set_order_by_keys [simp]: "set (order_by_keys ks rows) = set rows"
  by (simp add: order_by_keys_def)

lemma length_order_by_keys [simp]: "length (order_by_keys ks rows) = length rows"
  by (simp add: order_by_keys_def)

lemma distinct_order_by_keys [simp]: "distinct (order_by_keys ks rows) = distinct rows"
  by (simp add: order_by_keys_def)

lemma sorted_order_by_keys: "sorted_wrt (\<lambda>a b. keys_cmp ks a b \<le> 0) (order_by_keys ks rows)"
  unfolding order_by_keys_def by (rule order_by_keys.sorted_js_sort)

text \<open>A boolean column as a sort key: \<open>false\<close> before \<open>true\<close>.\<close>

definition bool_key :: "bool \<Rightarrow> int option" where
  "bool_key b = Some (if b then 1 else 0)"

section \<open>Pages of a query\<close>

text \<open>\<open>.limit(limit).offset(offset)\<close> on the ordered rows.\<close>

definition limit_offset :: "int \<Rightarrow> int \<Rightarrow> 'r list \<Rightarrow> 'r list result" where
  "limit_offset limit offset rows =
     (if limit < 0 \<or> offset < 0 then Inl QueryFailure
      else Inr (take (nat limit) (drop (nat offset) rows)))"

lemma limit_offset_page:
  assumes "1 \<le> page"
  shows "limit_offset (int limit) ((int page - 1) * int limit) rows = Inr (page_of page limit rows)"
proof -
  obtain m where m: "page = Suc m" using assms by (cases page) auto
  have "(int page - 1) * int limit = int ((page - 1) * limit)" by (simp add: m)
  then show ?thesis
    by (simp only: limit_offset_def nat_int of_nat_less_0_iff) (simp add: page_of_def)
qed

lemma set_limit_offset: "limit_offset l k rows = Inr xs \<Longrightarrow> set xs \<subseteq> set rows"
  by (auto simp: limit_offset_def split: if_splits dest: in_set_takeD in_set_dropD)

text \<open>\<open>count(*) over()\<close> and \<open>row?.total_count\<close> of the first row of a page.\<close>

definition count_cell :: "'r list \<Rightarrow> cell" where
  "count_cell rows = CStr (dec_nat (length rows))"

definition first_count :: "'r list \<Rightarrow> 'r list \<Rightarrow> cell js" where
  "first_count page rows = (if page = [] then JUndef else J (count_cell rows))"

lemma js_Number_count_cell:
  "of_nat (length rows) < double_limit \<Longrightarrow> js_Number (J (count_cell rows)) = Fin (of_nat (length rows))"
  by (simp add: count_cell_def js_number_dec_nat)

text \<open>\<open>where column = value\<close>: \<open>NULL\<close> equals nothing.\<close>

definition sql_eq :: "'a option \<Rightarrow> 'a \<Rightarrow> bool" where
  "sql_eq c v \<longleftrightarrow> c = Some v"

text \<open>A filter that is added to the query only when its parameter is given.\<close>

definition when_given :: "'a js \<Rightarrow> ('a \<Rightarrow> 'r \<Rightarrow> bool) \<Rightarrow> 'r list \<Rightarrow> 'r list" where
  "when_given p f rows = (case or_null p of None \<Rightarrow> rows | Some v \<Rightarrow> filter (f v) rows)"

lemma set_when_given:
  "set (when_given p f rows) = {r \<in> set rows. \<forall>v. p = J v \<longrightarrow> f v r}"
  by (cases p) (auto simp: when_given_def)

lemma filter_order_by_page_total:
  "page_of 1 (length rows) (order_by d key rows) = order_by d key rows"
  by (simp add: page_of_def)

text \<open>\<open>LEFT JOIN\<close> on a key that is unique on the right: the matching row, if any.\<close>

definition left_join :: "('a \<Rightarrow> 'b \<Rightarrow> bool) \<Rightarrow> 'a list \<Rightarrow> 'b list \<Rightarrow> ('a \<times> 'b option) list" where
  "left_join on' xs ys =
     concat (map (\<lambda>x. case filter (on' x) ys of [] \<Rightarrow> [(x, None)] | ms \<Rightarrow> map (\<lambda>y. (x, Some y)) ms) xs)"

text \<open>\<open>JOIN\<close>.\<close>

definition inner_join :: "('a \<Rightarrow> 'b \<Rightarrow> bool) \<Rightarrow> 'a list \<Rightarrow> 'b list \<Rightarrow> ('a \<times> 'b) list" where
  "inner_join on' xs ys = concat (map (\<lambda>x. map (Pair x) (filter (on' x) ys)) xs)"

lemma in_inner_join: "(x, y) \<in> set (inner_join on' xs ys) \<longleftrightarrow> x \<in> set xs \<and> y \<in> set ys \<and> on' x y"
  by (auto simp: inner_join_def)

lemma left_join_fst_unique:
  "(\<And>x. length (filter (on' x) ys) \<le> 1) \<Longrightarrow> map fst (left_join on' xs ys) = xs"
proof (induction xs)
  case (Cons x xs)
  have one: "map fst (case filter (on' x) ys of [] \<Rightarrow> [(x, None)] | ms \<Rightarrow> map (\<lambda>y. (x, Some y)) ms) = [x]"
  proof (cases "filter (on' x) ys")
    case (Cons m ms)
    then have "ms = []" using Cons.prems [of x] by simp
    then show ?thesis by (simp add: Cons)
  qed simp
  show ?case using Cons by (simp add: left_join_def one)
qed (simp add: left_join_def)

end
