(* ===== verification/Floats.thy ===== *)
theory Floats
  imports Prelude
begin

text \<open>
  Rounding of a product of numbers to a double, for the one place where the sources round to an
  integer after multiplying by a decimal fraction: \<open>Math.ceil(n * 0.1)\<close>. A non-negative double that
  is a multiple of \<open>2 ^ -55\<close> is represented by its multiple, a natural number; \<open>round53\<close> rounds such
  a number to 53 significant bits, to the nearest and in a tie to the even one, as IEEE 754 does.
  The lemmas show that \<open>Math.ceil(n * 0.1)\<close> is the exact ceiling of \<open>n / 10\<close>.
\<close>

fun bit_length :: "nat \<Rightarrow> nat" where
  "bit_length n = (if n = 0 then 0 else Suc (bit_length (n div 2)))"

declare bit_length.simps [simp del]

lemma bit_length_bounds: "0 < n \<Longrightarrow> 2 ^ (bit_length n - 1) \<le> n \<and> n < 2 ^ bit_length n"
proof (induction n rule: bit_length.induct)
  case (1 n)
  show ?case
  proof (cases "n div 2 = 0")
    case True
    with "1.prems" have "n = 1" by linarith
    then show ?thesis by (simp add: bit_length.simps [of "Suc 0"] bit_length.simps [of 0])
  next
    case False
    with 1 have IH: "2 ^ (bit_length (n div 2) - 1) \<le> n div 2" "n div 2 < 2 ^ bit_length (n div 2)"
      by auto
    obtain k where k: "bit_length (n div 2) = Suc k"
      using False bit_length.simps [of "n div 2"] by auto
    have bl: "bit_length n = Suc (Suc k)" using "1.prems" k bit_length.simps [of n] by simp
    show ?thesis using IH k bl by auto
  qed
qed

lemma bit_length_unique: "2 ^ e \<le> n \<Longrightarrow> n < 2 ^ Suc e \<Longrightarrow> bit_length n = Suc e"
proof -
  assume e: "2 ^ e \<le> n" "n < 2 ^ Suc e"
  then have pos: "0 < n" by (meson less_le_trans zero_less_numeral zero_less_power)
  note b = bit_length_bounds [OF pos]
  have "2 ^ e < (2::nat) ^ bit_length n" using e b by linarith
  then have lo: "e < bit_length n" by simp
  have "2 ^ (bit_length n - 1) < (2::nat) ^ Suc e" using e b by linarith
  then have "bit_length n - 1 < Suc e" by (rule power_less_imp_less_exp [rotated]) simp
  with lo show ?thesis by linarith
qed

text \<open>Division by a power of two, rounded to the nearest, ties to even.\<close>

definition round_half_even :: "nat \<Rightarrow> nat \<Rightarrow> nat" where
  "round_half_even m s =
     (let q = m div 2 ^ s; r = m mod 2 ^ s in
      if 2 * r < 2 ^ s then q else if 2 * r > 2 ^ s then Suc q else if even q then q else Suc q)"

definition round53 :: "nat \<Rightarrow> nat" where
  "round53 m = (let s = bit_length m - 53 in round_half_even m s * 2 ^ s)"

lemma round_half_even_near:
  "2 * m \<le> 2 * (round_half_even m s * 2 ^ s) + 2 ^ s"
  "2 * (round_half_even m s * 2 ^ s) \<le> 2 * m + 2 ^ s"
proof -
  define p where "p = (2::nat) ^ s"
  define q r where "q = m div p" and "r = m mod p"
  have m: "m = q * p + r" unfolding q_def r_def by (rule div_mult_mod_eq [symmetric])
  have lt: "r < p" by (simp add: r_def p_def)
  have rnd: "round_half_even m s = (if 2 * r < p then q else if 2 * r > p then Suc q else if even q then q else Suc q)"
    by (simp add: round_half_even_def Let_def q_def r_def p_def)
  show "2 * m \<le> 2 * (round_half_even m s * 2 ^ s) + 2 ^ s"
    unfolding p_def [symmetric] rnd using m lt by (simp split: if_splits)
  show "2 * (round_half_even m s * 2 ^ s) \<le> 2 * m + 2 ^ s"
    unfolding p_def [symmetric] rnd using m lt by (simp split: if_splits)
qed

text \<open>The relative error of a rounding is at most \<open>2 ^ -53\<close>.\<close>

lemma round53_near:
  assumes "0 < m"
  shows "2 ^ 53 * m \<le> 2 ^ 53 * round53 m + m" "2 ^ 53 * round53 m \<le> 2 ^ 53 * m + m"
proof -
  define s where "s = bit_length m - 53"
  have r: "round53 m = round_half_even m s * 2 ^ s" by (simp add: round53_def s_def Let_def)
  have big: "2 ^ 52 * 2 ^ s \<le> m \<or> s = 0"
  proof (cases "s = 0")
    case False
    then have "52 + s = bit_length m - 1" by (simp add: s_def)
    with bit_length_bounds [OF assms] show ?thesis by (metis power_add)
  qed simp
  show "2 ^ 53 * m \<le> 2 ^ 53 * round53 m + m"
  proof (cases "s = 0")
    case True
    then show ?thesis by (simp add: r round_half_even_def)
  next
    case False
    with big round_half_even_near(1) [of m s] show ?thesis unfolding r by simp
  qed
  show "2 ^ 53 * round53 m \<le> 2 ^ 53 * m + m"
  proof (cases "s = 0")
    case True
    then show ?thesis by (simp add: r round_half_even_def)
  next
    case False
    with big round_half_even_near(2) [of m s] show ?thesis unfolding r by simp
  qed
qed

section \<open>\<open>Math.ceil(n * 0.1)\<close>\<close>

text \<open>The double nearest to \<open>0.1\<close> is \<open>3602879701896397 / 2 ^ 55\<close>.\<close>

definition tenth :: nat where "tenth = 3602879701896397"

definition ceil_tenth :: "nat \<Rightarrow> nat" where
  "ceil_tenth n = (round53 (n * tenth) + (2 ^ 55 - 1)) div 2 ^ 55"

lemma ceil_div_eqI: "k * d < x + d \<Longrightarrow> x \<le> k * d \<Longrightarrow> 0 < d \<Longrightarrow> (x + (d - 1)) div d = k"
  for x d k :: nat
  by (intro div_nat_eqI) (simp_all add: mult.commute [of d k] add.commute [of d])

text \<open>A multiple of ten is rounded back to an integer: the excess is under half a unit.\<close>

lemma round53_multiple:
  assumes "0 < k" "k < 2 ^ 50"
  shows "round53 (10 * k * tenth) = k * 2 ^ 55"
proof -
  define e where "e = bit_length k - 1"
  note b = bit_length_bounds [OF assms(1)]
  have "bit_length k = Suc e" using assms(1) bit_length.simps [of k] by (simp add: e_def)
  with b have k: "2 ^ e \<le> k" "k < 2 ^ Suc e" by simp_all
  have m: "10 * k * tenth = k * 2 ^ 55 + 2 * k" by (simp add: tenth_def)
  have small: "2 * k < 2 ^ 55" using assms(2) by simp
  have "2 ^ (e + 55) \<le> 10 * k * tenth" unfolding m using k by (simp add: power_add)
  moreover have "10 * k * tenth < 2 ^ Suc (e + 55)"
  proof -
    have "10 * k * tenth < (k + 1) * 2 ^ 55" unfolding m using small by simp
    also have "\<dots> \<le> 2 ^ Suc e * 2 ^ 55" using k by (intro mult_le_mono1) simp
    finally show ?thesis by (simp add: power_add)
  qed
  ultimately have "bit_length (10 * k * tenth) = Suc (e + 55)" by (rule bit_length_unique)
  then have s: "bit_length (10 * k * tenth) - 53 = e + 3" by simp
  have "e < 50"
  proof (rule ccontr)
    assume "\<not> e < 50"
    then have "(2::nat) ^ 50 \<le> 2 ^ e" by (intro power_increasing) auto
    with k(1) assms(2) show False by linarith
  qed
  define j where "j = 52 - e"
  have j: "52 = e + j" using \<open>e < 50\<close> by (simp add: j_def)
  have split: "k * 2 ^ 55 = (k * 2 ^ j) * 2 ^ (e + 3)"
  proof -
    have "55 = j + (e + 3)" using j by simp
    then have "(2::nat) ^ 55 = 2 ^ j * 2 ^ (e + 3)" by (metis power_add)
    then show ?thesis by simp
  qed
  have rest: "2 * (2 * k) < 2 ^ (e + 3)" using k(2) by (simp add: power_add)
  have "2 * k < 2 ^ (e + 3)" using rest by linarith
  then have "(10 * k * tenth) div 2 ^ (e + 3) = k * 2 ^ j" "(10 * k * tenth) mod 2 ^ (e + 3) = 2 * k"
    unfolding m split by simp_all
  with rest have "round_half_even (10 * k * tenth) (e + 3) = k * 2 ^ j"
    by (simp add: round_half_even_def Let_def)
  then have "round53 (10 * k * tenth) = (k * 2 ^ j) * 2 ^ (e + 3)"
    by (simp add: round53_def s Let_def)
  then show ?thesis by (simp only: split)
qed

lemma ceil_tenth_exact:
  assumes "n < 2 ^ 50"
  shows "ceil_tenth n = (n + 9) div 10"
proof (cases "n mod 10 = 0")
  case True
  then obtain k where k: "n = 10 * k" by auto
  show ?thesis
  proof (cases "k = 0")
    case True
    then show ?thesis using k
      by (simp add: ceil_tenth_def round53_def round_half_even_def)
  next
    case False
    then have "round53 (n * tenth) = k * 2 ^ 55"
      using round53_multiple [of k] assms k by simp
    then have "ceil_tenth n = k" unfolding ceil_tenth_def by (intro ceil_div_eqI) simp_all
    with k show ?thesis by simp
  qed
next
  case False
  define k where "k = n div 10"
  define r where "r = n mod 10"
  have n: "n = 10 * k + r" "0 < r" "r \<le> 9" using False by (auto simp: k_def r_def)
  have pos: "0 < n * tenth" using n by (simp add: tenth_def)
  have m: "n * tenth = k * 2 ^ 55 + 2 * k + r * tenth" using n by (simp add: tenth_def algebra_simps)
  have k50: "k < 2 ^ 47" using assms by (simp add: k_def)
  note near = round53_near [OF pos]
  have "k * 2 ^ 55 < round53 (n * tenth)"
    using near(1) m n k50 unfolding tenth_def by simp
  moreover have "round53 (n * tenth) \<le> (k + 1) * 2 ^ 55"
    using near(2) m n k50 unfolding tenth_def by simp
  ultimately have "ceil_tenth n = k + 1" unfolding ceil_tenth_def by (intro ceil_div_eqI) simp_all
  with n show ?thesis by simp
qed

end
