(* ===== verification/Masternodes.thy ===== *)
theory Masternodes
  imports Sql Floats
begin

text \<open>
  \<open>api/src/dao/MasternodesDAO.ts\<close>, \<open>api/src/models/MasternodeStats.ts\<close>,
  \<open>api/src/services/GeoIPService.ts\<close> and \<open>api/src/controllers/MasternodesController.ts\<close>. The
  masternode table is a list of rows; the reader of the geography database is a parameter.
\<close>

section \<open>Geography\<close>

record geo_response =
  gr_country_code :: "string js"
  gr_city :: "string js"
  gr_latitude :: "rat js"
  gr_longitude :: "rat js"

text \<open>
  \<open>lookup\<close>: the reader answers \<open>null\<close> for an address outside its table, and reading a property of
  \<open>null\<close> is a \<open>TypeError\<close>.
\<close>

definition lookup ::
  "(string \<Rightarrow> geo_response option result) \<Rightarrow> string \<Rightarrow> GeoIpInfo result" where
  "lookup reader ip =
     (if ip = [] then Inl (PlainError ''you must specify a valid IP address'')
      else bind_result (reader ip) (\<lambda>response.
        case response of
          None \<Rightarrow> Inl TypeFailure
        | Some r \<Rightarrow> Inr \<lparr>ipv4 = ip, countryCode = or_null (gr_country_code r),
                        city = or_null (gr_city r), latitude = or_null (gr_latitude r),
                        longitude = or_null (gr_longitude r)\<rparr>))"

text \<open>\<open>const [ip] = address.split(':')\<close>.\<close>

definition host_part :: "string \<Rightarrow> string" where
  "host_part address = hd (js_split (CHR '':'') address)"

definition NO_ADDRESS :: string where "NO_ADDRESS = ''[::]:0''"

section \<open>Statistics\<close>

text \<open>
  Counts are decimal strings that \<open>Number\<close> reads back exactly (\<open>js_number_dec_nat\<close>), so a count
  column is a natural number here.
\<close>

record MasternodeStatsRow =
  masternodes_total_count :: nat
  evo_masternodes_count :: nat
  regular_masternodes_count :: nat
  evo_enabled_masternodes :: nat
  regular_enabled_masternodes :: nat

record MasternodeStats =
  mst_total :: int
  mst_evo :: int
  mst_regular :: int
  regularDisabled :: int
  regularEnabled :: int
  evoDisabled :: int
  evoEnabled :: int
  requiredProposalVotes :: int

definition MasternodeStats_fromRow :: "MasternodeStatsRow \<Rightarrow> MasternodeStats" where
  "MasternodeStats_fromRow r =
     (let evoCount = evo_masternodes_count r;
          regularCount = regular_masternodes_count r;
          evoEnabledCount = evo_enabled_masternodes r;
          regularEnabledCount = regular_enabled_masternodes r;
          required = ceil_tenth (regularEnabledCount + evoEnabledCount * 4)
      in \<lparr>mst_total = int (masternodes_total_count r), mst_evo = int evoCount,
          mst_regular = int regularCount,
          regularDisabled = int regularCount - int regularEnabledCount,
          regularEnabled = int regularEnabledCount,
          evoDisabled = int evoCount - int evoEnabledCount, evoEnabled = int evoEnabledCount,
          requiredProposalVotes = int required\<rparr>)"

definition count_where :: "('r \<Rightarrow> bool) \<Rightarrow> 'r list \<Rightarrow> nat" where
  "count_where P rows = length (filter P rows)"

definition getMasternodeStats :: "MasternodeRow list \<Rightarrow> MasternodeStats" where
  "getMasternodeStats table =
     MasternodeStats_fromRow
       \<lparr>masternodes_total_count = length table,
        evo_masternodes_count = count_where (\<lambda>r. mr_type r = J ''Evo'') table,
        regular_masternodes_count = count_where (\<lambda>r. mr_type r = J ''Regular'') table,
        evo_enabled_masternodes =
          count_where (\<lambda>r. mr_type r = J ''Evo'' \<and> mr_status r = J ''ENABLED'') table,
        regular_enabled_masternodes =
          count_where (\<lambda>r. mr_type r = J ''Regular'' \<and> mr_status r = J ''ENABLED'') table\<rparr>"

text \<open>
  The governance weight of a masternode: four votes for an evolution node and one for a regular
  node, none when it is not enabled.
\<close>

definition node_weight :: "MasternodeRow \<Rightarrow> nat" where
  "node_weight r =
     (if mr_status r \<noteq> J ''ENABLED'' then 0
      else if mr_type r = J ''Evo'' then 4 else if mr_type r = J ''Regular'' then 1 else 0)"

lemma count_where_weight:
  "count_where (\<lambda>r. mr_type r = J ''Regular'' \<and> mr_status r = J ''ENABLED'') table +
   count_where (\<lambda>r. mr_type r = J ''Evo'' \<and> mr_status r = J ''ENABLED'') table * 4 =
   sum_list (map node_weight table)"
  by (induction table) (auto simp: count_where_def node_weight_def)

lemma count_where_le: "(\<And>r. P r \<Longrightarrow> Q r) \<Longrightarrow> count_where P rows \<le> count_where Q rows"
  by (induction rows) (auto simp: count_where_def)

lemma getMasternodeStats_required:
  "sum_list (map node_weight table) < 2 ^ 50 \<Longrightarrow>
   requiredProposalVotes (getMasternodeStats table) = int ((sum_list (map node_weight table) + 9) div 10)"
  by (simp add: getMasternodeStats_def MasternodeStats_fromRow_def Let_def count_where_weight
      ceil_tenth_exact)

section \<open>Listing\<close>

text \<open>The number a cell holds, as PostgreSQL compares it.\<close>

definition cell_value :: "cell js \<Rightarrow> rat option" where
  "cell_value c =
     (case or_null c of None \<Rightarrow> None
      | Some x \<Rightarrow> (case cell_number x of Fin v \<Rightarrow> Some v | _ \<Rightarrow> None))"

fun num_less :: "jsnum \<Rightarrow> rat \<Rightarrow> bool" where
  "num_less (Fin t) v \<longleftrightarrow> t < v"
| "num_less NegInf v \<longleftrightarrow> True"
| "num_less _ v \<longleftrightarrow> False"

definition paid_after :: "jsnum \<Rightarrow> MasternodeRow \<Rightarrow> bool" where
  "paid_after t r = (case cell_value (mr_last_paid_time r) of None \<Rightarrow> False | Some v \<Rightarrow> num_less t v)"

definition penalty_is :: "bool \<Rightarrow> MasternodeRow \<Rightarrow> bool" where
  "penalty_is has r =
     (case or_null (mr_pos_penalty_score r) of None \<Rightarrow> False | Some s \<Rightarrow> if has then s > 0 else s = 0)"

definition type_is :: "string \<Rightarrow> MasternodeRow \<Rightarrow> bool" where
  "type_is t r = (case or_null (mr_type r) of None \<Rightarrow> False | Some u \<Rightarrow> js_lower u = js_lower t)"

text \<open>
  The first step of a country filter: the hashes of the masternodes whose address lies in the
  country. A \<open>NULL\<close> address has no \<open>split\<close>.
\<close>

definition in_country ::
  "(string \<Rightarrow> geo_response option result) \<Rightarrow> string \<Rightarrow> MasternodeRow \<Rightarrow> bool result" where
  "in_country reader country r =
     (case or_null (mr_address r) of
        None \<Rightarrow> Inl TypeFailure
      | Some address \<Rightarrow>
          bind_result (lookup reader (host_part address)) (\<lambda>g. Inr (countryCode g = Some country)))"

definition proTxHashFilter ::
  "(string \<Rightarrow> geo_response option result) \<Rightarrow> MasternodeRow list \<Rightarrow> string \<Rightarrow> string option list result" where
  "proTxHashFilter reader table country =
     bind_result
       (filter_result (in_country reader country)
          (filter (\<lambda>r. mr_address r \<noteq> J NO_ADDRESS) table))
       (\<lambda>rows. Inr (map (\<lambda>r. or_null (mr_pro_tx_hash r)) rows))"

text \<open>A row as the API shows it, with the place of its address.\<close>

definition present_masternode ::
  "(string \<Rightarrow> geo_response option result) \<Rightarrow> MasternodeRow \<Rightarrow> Masternode result" where
  "present_masternode reader row =
     (let masternode = Masternode_fromRow row in
      case or_null (mn_address masternode) of
        None \<Rightarrow> Inr (Masternode_fromObject masternode JUndef)
      | Some address \<Rightarrow>
          if address = NO_ADDRESS then Inr (Masternode_fromObject masternode JUndef)
          else bind_result (lookup reader (host_part address))
                 (\<lambda>g. Inr (Masternode_fromObject masternode (J g))))"

definition masternode_query ::
  "string option list option \<Rightarrow> string js \<Rightarrow> string js \<Rightarrow> jsnum js \<Rightarrow> bool js \<Rightarrow>
   MasternodeRow list \<Rightarrow> MasternodeRow list" where
  "masternode_query hashes status type' lastPaidBefore hasPenalty table =
     (let rows = when_given status (\<lambda>s r. sql_eq (or_null (mr_status r)) s) table;
          rows = when_given type' type_is rows;
          rows = when_given lastPaidBefore paid_after rows;
          rows = when_given hasPenalty penalty_is rows
      in case hashes of
           None \<Rightarrow> rows
         | Some hs \<Rightarrow> filter (\<lambda>r. \<exists>h \<in> set hs. h \<noteq> None \<and> h = or_null (mr_pro_tx_hash r)) rows)"

text \<open>The query itself, with the hashes of the country filter if there is one.\<close>

definition masternode_page ::
  "(string \<Rightarrow> geo_response option result) \<Rightarrow> MasternodeRow list \<Rightarrow> int js \<Rightarrow> int js \<Rightarrow> string js \<Rightarrow>
   string js \<Rightarrow> string js \<Rightarrow> jsnum js \<Rightarrow> bool js \<Rightarrow> string option list option \<Rightarrow>
   Masternode PaginatedResultSet result" where
  "masternode_page reader table page limit order status type' lastPaidBefore hasPenalty hashes =
     (let effectivePage = coalesce page 1;
          effectiveLimit = coalesce limit 10;
          fromRank = (effectivePage - 1) * effectiveLimit;
          matching = masternode_query hashes status type' lastPaidBefore hasPenalty table;
          ordered = order_by (js_dir order) (\<lambda>r. or_null (mr_last_paid_block r)) matching
      in if or_null lastPaidBefore = Some NaN then Inl QueryFailure
         else bind_result
           (if or_null limit \<noteq> None \<or> or_null page \<noteq> None
            then limit_offset effectiveLimit fromRank ordered else Inr ordered)
           (\<lambda>rows. bind_result (map_result (present_masternode reader) rows)
              (\<lambda>resultSet.
                 let total_count = first_count rows matching in
                 Inr (new_PaginatedResultSet resultSet effectivePage
                        (if or_null limit \<noteq> None then Fin (of_int effectiveLimit)
                         else js_Number (J (coalesce total_count (CNum (of_nat (length rows))))))
                        (J (coalesce total_count (CNum 0)))))))"

definition getMasternodes ::
  "(string \<Rightarrow> geo_response option result) \<Rightarrow> MasternodeRow list \<Rightarrow> int js \<Rightarrow> int js \<Rightarrow> string js \<Rightarrow>
   string js \<Rightarrow> string js \<Rightarrow> jsnum js \<Rightarrow> bool js \<Rightarrow> string js \<Rightarrow> Masternode PaginatedResultSet result" where
  "getMasternodes reader table page limit order status type' lastPaidBefore hasPenalty country =
     (let query = masternode_page reader table page limit order status type' lastPaidBefore hasPenalty in
      case or_null country of
        None \<Rightarrow> query None
      | Some c \<Rightarrow>
          bind_result (proTxHashFilter reader table c) (\<lambda>hashes.
            if hashes = [] then
              Inr (new_PaginatedResultSet [] (coalesce page 1) (Fin (of_int (coalesce limit 10))) (J (CNum 0)))
            else query (Some hashes)))"

lemma masternode_page_rows:
  assumes "masternode_page reader table page limit order st ty before pen hashes = Inr res"
    "m \<in> set (resultSet res)"
  obtains r where "r \<in> set (masternode_query hashes st ty before pen table)"
    "present_masternode reader r = Inr m"
  using assms
  by (auto simp: masternode_page_def Let_def bind_result_Inr_iff new_PaginatedResultSet_def
      split: if_splits dest!: set_limit_offset map_result_Inr_set)

lemma getMasternodes_rows:
  assumes "getMasternodes reader table page limit order st ty before pen country = Inr res"
    "m \<in> set (resultSet res)"
  obtains hashes r where "r \<in> set (masternode_query hashes st ty before pen table)"
    "present_masternode reader r = Inr m"
proof -
  obtain hashes where "masternode_page reader table page limit order st ty before pen hashes = Inr res"
    using assms
    by (auto simp: getMasternodes_def Let_def bind_result_Inr_iff new_PaginatedResultSet_def
        split: option.splits if_splits)
  from masternode_page_rows [OF this assms(2)] that show thesis by blast
qed

section \<open>The controller\<close>

record masternodes_request =
  mq_page :: "int js"
  mq_limit :: "int js"
  mq_order :: "string js"
  mq_status :: "string js"
  mq_type :: "string js"
  mq_last_paid_before :: "string js"
  mq_has_penalty :: "bool js"
  mq_country :: "string js"

text \<open>
  \<open>Math.floor(new Date(s).getTime() / 1000)\<close>; an invalid date reaches the query as \<open>NaN\<close>, which
  the server refuses for an integer column. How a date is read from a string is a parameter.
\<close>

fun date_seconds :: "date \<Rightarrow> jsnum" where
  "date_seconds None = NaN"
| "date_seconds (Some ms) = Fin (of_int (ms div 1000))"

definition masternodes_handler ::
  "(string \<Rightarrow> date) \<Rightarrow> (string \<Rightarrow> geo_response option result) \<Rightarrow> MasternodeRow list \<Rightarrow>
   masternodes_request \<Rightarrow> Masternode PaginatedResultSet result" where
  "masternodes_handler parse_date reader table q =
     (let lastPaidBeforeUnix =
            (case or_null (mq_last_paid_before q) of
               None \<Rightarrow> JUndef | Some s \<Rightarrow> J (date_seconds (parse_date s)))
      in getMasternodes reader table (mq_page q) (mq_limit q) (defaulted (mq_order q) ''asc'')
           (mq_status q) (mq_type q) lastPaidBeforeUnix (mq_has_penalty q) (mq_country q))"

section \<open>What a listing shows\<close>

text \<open>
  The filters as one predicate on a row, over the place each listed address resolves to.
\<close>

definition masternode_matches ::
  "(string \<Rightarrow> GeoIpInfo) \<Rightarrow> string js \<Rightarrow> string js \<Rightarrow> jsnum js \<Rightarrow> bool js \<Rightarrow> string js \<Rightarrow> MasternodeRow \<Rightarrow> bool" where
  "masternode_matches place status type' before penalty country r \<longleftrightarrow>
     (\<forall>s. status = J s \<longrightarrow> mr_status r = J s) \<and>
     (\<forall>t. type' = J t \<longrightarrow> type_is t r) \<and>
     (\<forall>t. before = J t \<longrightarrow> paid_after t r) \<and>
     (\<forall>h. penalty = J h \<longrightarrow> penalty_is h r) \<and>
     (\<forall>c. country = J c \<longrightarrow>
        (\<exists>a. mr_address r = J a \<and> a \<noteq> NO_ADDRESS \<and> countryCode (place (host_part a)) = Some c))"

definition shown_masternode :: "(string \<Rightarrow> GeoIpInfo) \<Rightarrow> MasternodeRow \<Rightarrow> Masternode" where
  "shown_masternode place r =
     (Masternode_fromRow r)
       \<lparr>geoIpInfo := (case mr_address r of
                      J a \<Rightarrow> if a = NO_ADDRESS then None else Some (place (host_part a))
                    | _ \<Rightarrow> None)\<rparr>"

text \<open>A table in which every row has its own hash and every address can be located.\<close>

definition locatable ::
  "(string \<Rightarrow> geo_response option result) \<Rightarrow> (string \<Rightarrow> GeoIpInfo) \<Rightarrow> MasternodeRow list \<Rightarrow> bool" where
  "locatable reader place table \<longleftrightarrow>
     distinct (map mr_pro_tx_hash table) \<and>
     (\<forall>r \<in> set table. (\<exists>h. mr_pro_tx_hash r = J h) \<and>
        (\<exists>a. mr_address r = J a \<and>
           (a \<noteq> NO_ADDRESS \<longrightarrow> lookup reader (host_part a) = Inr (place (host_part a)))))"

lemma present_shown:
  "locatable reader place table \<Longrightarrow> r \<in> set table \<Longrightarrow>
   present_masternode reader r = Inr (shown_masternode place r)"
  by (auto simp: locatable_def present_masternode_def shown_masternode_def Masternode_rewrap
      Masternode_fromRow_def new_Masternode_def Let_def)

lemma proTxHashFilter_locatable:
  assumes "locatable reader place table"
  shows "proTxHashFilter reader table country =
    Inr (map (\<lambda>r. or_null (mr_pro_tx_hash r))
          (filter (\<lambda>r. \<exists>a. mr_address r = J a \<and> a \<noteq> NO_ADDRESS \<and>
                        countryCode (place (host_part a)) = Some country) table))"
proof -
  let ?located = "filter (\<lambda>r. mr_address r \<noteq> J NO_ADDRESS) table"
  have "filter_result (in_country reader country) ?located =
        Inr (filter (\<lambda>r. \<exists>a. mr_address r = J a \<and> countryCode (place (host_part a)) = Some country) ?located)"
    by (rule filter_result_Inr) (use assms in \<open>auto simp: locatable_def in_country_def\<close>)
  then show ?thesis
    by (simp add: proTxHashFilter_def) (metis (mono_tags, lifting) js.inject)
qed

lemma hashes_select:
  assumes "distinct (map mr_pro_tx_hash table)" "\<forall>r \<in> set table. \<exists>h. mr_pro_tx_hash r = J h" "r \<in> set table"
  shows "(\<exists>h \<in> set (map (\<lambda>r. or_null (mr_pro_tx_hash r)) (filter P table)).
            h \<noteq> None \<and> h = or_null (mr_pro_tx_hash r)) \<longleftrightarrow> P r"
proof -
  have inj: "inj_on mr_pro_tx_hash (set table)" using assms(1) by (simp add: distinct_map)
  have "q = r" if "q \<in> set table" "or_null (mr_pro_tx_hash q) = or_null (mr_pro_tx_hash r)" for q
    using that assms(2,3) inj by (metis inj_onD or_null_eq_Some or_null.simps(3))
  with assms(2,3) show ?thesis by (auto 4 3)
qed

lemma masternode_query_matches:
  assumes loc: "locatable reader place table"
  shows "masternode_query
      (case or_null country of None \<Rightarrow> None
       | Some c \<Rightarrow> Some (map (\<lambda>r. or_null (mr_pro_tx_hash r))
          (filter (\<lambda>r. \<exists>a. mr_address r = J a \<and> a \<noteq> NO_ADDRESS \<and>
                        countryCode (place (host_part a)) = Some c) table)))
      status type' before penalty table =
    filter (masternode_matches place status type' before penalty country) table"
proof -
  have base: "when_given penalty penalty_is (when_given before paid_after (when_given type' type_is
      (when_given status (\<lambda>s r. sql_eq (or_null (mr_status r)) s) table))) =
    filter (masternode_matches place status type' before penalty JUndef) table"
    by (cases status; cases type'; cases before; cases penalty)
       (auto simp: when_given_def masternode_matches_def sql_eq_def intro!: filter_cong)
  show ?thesis
  proof (cases "or_null country")
    case None
    then have "masternode_matches place status type' before penalty country =
      masternode_matches place status type' before penalty JUndef"
      by (cases country) (auto simp: masternode_matches_def)
    then show ?thesis by (simp add: masternode_query_def base Let_def None)
  next
    case (Some c)
    then have country: "country = J c" by simp
    have hashes: "distinct (map mr_pro_tx_hash table)" "\<forall>r \<in> set table. \<exists>h. mr_pro_tx_hash r = J h"
      using loc by (auto simp: locatable_def)
    show ?thesis
      unfolding masternode_query_def base Let_def country or_null.simps option.case filter_filter
      by (intro filter_cong refl, subst hashes_select [OF hashes])
         (auto simp: masternode_matches_def)
  qed
qed

text \<open>
  With a page and a limit, the listing holds exactly one page of the masternodes that match every
  filter, in the requested order by last paid block, each with the place of its address; the country
  filter, which runs as a query of its own, gives the same as a filter on the rows, and the total is
  the number of matching rows whenever the page is not empty.
\<close>

theorem getMasternodes_page:
  assumes "locatable reader place table" "1 \<le> page" "before \<noteq> J NaN"
  shows "getMasternodes reader table (J (int page)) (J (int limit)) order status type' before penalty country =
    (let matching = filter (masternode_matches place status type' before penalty country) table;
         rows = page_of page limit (order_by (js_dir order) (\<lambda>r. or_null (mr_last_paid_block r)) matching)
     in Inr (new_PaginatedResultSet (map (shown_masternode place) rows) (int page) (Fin (of_nat limit))
               (J (if rows = [] then CNum 0 else count_cell matching))))"
proof -
  let ?hashes = "case or_null country of None \<Rightarrow> None
       | Some c \<Rightarrow> Some (map (\<lambda>r. or_null (mr_pro_tx_hash r))
          (filter (\<lambda>r. \<exists>a. mr_address r = J a \<and> a \<noteq> NO_ADDRESS \<and>
                        countryCode (place (host_part a)) = Some c) table))"
  note matching = masternode_query_matches [OF assms(1), of country status type' before penalty]
  let ?rows = "page_of page limit (order_by (js_dir order) (\<lambda>r. or_null (mr_last_paid_block r))
     (filter (masternode_matches place status type' before penalty country) table))"
  have shown: "map_result (present_masternode reader) ?rows = Inr (map (shown_masternode place) ?rows)"
    by (rule map_result_Inr, rule present_shown [OF assms(1)])
       (metis (no_types, lifting) filter_is_subset set_order_by set_page_of subset_iff)
  have total: "coalesce (first_count ?rows xs) (CNum 0) = (if ?rows = [] then CNum 0 else count_cell xs)"
    for xs :: "MasternodeRow list" by (simp add: first_count_def)
  have none: "?hashes = Some [] \<Longrightarrow> ?rows = []"
    using matching by (auto simp: masternode_query_def page_of_def Let_def)
  show ?thesis
  proof (cases "or_null country")
    case None
    with matching show ?thesis
      using assms(3) by (simp add: getMasternodes_def masternode_page_def limit_offset_page [OF assms(2)] shown total Let_def)
  next
    case (Some c)
    then have country: "country = J c" by simp
    show ?thesis
      using assms(3) matching [unfolded country] none [unfolded country]
      by (auto simp: getMasternodes_def masternode_page_def limit_offset_page [OF assms(2)] shown [unfolded country]
          total [unfolded country] country Let_def proTxHashFilter_locatable [OF assms(1)]
          simp del: map_is_Nil_conv)
  qed
qed

text \<open>
  C23: the number of votes a proposal needs is one tenth of the weight of the enabled masternodes,
  four for each evolution node and one for each regular node, rounded up; the floating point product
  with \<open>0.1\<close> never makes it one too many or too few.
\<close>

theorem requiredProposalVotes_exact:
  assumes "sum_list (map node_weight table) < 2 ^ 50"
  shows "requiredProposalVotes (getMasternodeStats table) =
    int ((sum_list (map node_weight table) + 9) div 10)"
  by (rule getMasternodeStats_required [OF assms])

text \<open>
  Every masternode listed for a request with \<open>last_paid_before\<close> was last paid after that instant,
  whatever the other filters: the parameter selects the opposite of what its name and its
  documentation say.
\<close>

theorem last_paid_before_lists_later:
  assumes "masternodes_handler parse_date reader table q = Inr res"
    "mq_last_paid_before q = J s" "parse_date s = Some ms" "m \<in> set (resultSet res)"
  shows "\<exists>r \<in> set table. \<exists>paid. cell_value (mr_last_paid_time r) = Some paid \<and>
    of_int (ms div 1000) < paid \<and> present_masternode reader r = Inr m"
proof -
  have later: "r \<in> set table \<and> paid_after (Fin (of_int (ms div 1000))) r"
    if "r \<in> set (masternode_query hs st ty (J (Fin (of_int (ms div 1000)))) pen table)" for r hs st ty pen
    using that by (auto simp: masternode_query_def set_when_given Let_def split: option.splits)
  obtain r hs where "r \<in> set (masternode_query hs (mq_status q) (mq_type q)
      (J (Fin (of_int (ms div 1000)))) (mq_has_penalty q) table)" "present_masternode reader r = Inr m"
    using assms(1) unfolding masternodes_handler_def assms(2) or_null.simps option.case assms(3)
      date_seconds.simps Let_def by (rule getMasternodes_rows [OF _ assms(4)])
  with later show ?thesis by (fastforce simp: paid_after_def split: option.splits)
qed

section \<open>Sample table\<close>

definition sample_row :: "string \<Rightarrow> string \<Rightarrow> string \<Rightarrow> rat \<Rightarrow> MasternodeRow" where
  "sample_row hash address type' paid =
     \<lparr>mr_pro_tx_hash = J hash, mr_address = J address, mr_payee = JNull, mr_status = J ''ENABLED'',
      mr_type = J type', mr_pos_penalty_score = J 0, mr_consecutive_payments = J 0,
      mr_last_paid_time = J (CNum paid), mr_last_paid_block = J 7, mr_owner_address = JNull,
      mr_voting_address = JNull, mr_collateral_address = JNull, mr_pub_key_operator = JNull,
      mr_created_at = JNull, mr_updated_at = JNull\<rparr>"

definition sample_table :: "MasternodeRow list" where
  "sample_table = [sample_row ''aa'' ''1.2.3.4:9999'' ''Evo'' 50, sample_row ''bb'' NO_ADDRESS ''Regular'' 0]"

definition sample_reader :: "string \<Rightarrow> geo_response option result" where
  "sample_reader ip =
     Inr (if ip = ''1.2.3.4''
          then Some \<lparr>gr_country_code = J ''DE'', gr_city = JNull, gr_latitude = JNull, gr_longitude = JNull\<rparr>
          else None)"

definition sample_place :: "string \<Rightarrow> GeoIpInfo" where
  "sample_place ip = \<lparr>ipv4 = ip, countryCode = Some ''DE'', city = None, latitude = None, longitude = None\<rparr>"

lemmas sample_masternode_defs = sample_row_def sample_table_def sample_reader_def sample_place_def

lemma sample_locatable: "locatable sample_reader sample_place sample_table"
  by (simp add: locatable_def sample_masternode_defs lookup_def host_part_def NO_ADDRESS_def)

theorem getMasternodes_page_witness:
  "map_sum id (\<lambda>r. map proTxHash (resultSet r))
     (getMasternodes sample_reader sample_table (J (int 1)) (J (int 5)) JUndef JUndef JUndef JUndef JUndef
        (J ''DE'')) = Inr [Some ''aa'']"
  by (subst getMasternodes_page [OF sample_locatable])
     (simp_all add: masternode_matches_def sample_masternode_defs page_of_def order_by_def js_sort_def
        NO_ADDRESS_def shown_masternode_def Masternode_fromRow_def new_Masternode_def
        new_PaginatedResultSet_def Let_def)

theorem requiredProposalVotes_exact_witness:
  "sum_list (map node_weight sample_table) < 2 ^ 50 \<and>
   requiredProposalVotes (getMasternodeStats sample_table) = 1"
  using requiredProposalVotes_exact [of sample_table]
  by (simp add: sample_masternode_defs node_weight_def)

definition sample_request :: masternodes_request where
  "sample_request =
     \<lparr>mq_page = JUndef, mq_limit = JUndef, mq_order = JUndef, mq_status = JUndef, mq_type = JUndef,
      mq_last_paid_before = J ''1970-01-01T00:00:20Z'', mq_has_penalty = JUndef, mq_country = JUndef\<rparr>"

lemma sample_reply:
  "\<exists>res. masternodes_handler (\<lambda>_. Some 20000) sample_reader sample_table sample_request = Inr res \<and>
     resultSet res = [shown_masternode sample_place (sample_row ''aa'' ''1.2.3.4:9999'' ''Evo'' 50)]"
  by (simp add: masternodes_handler_def sample_request_def getMasternodes_def masternode_page_def masternode_query_def
      when_given_def paid_after_def cell_value_def sample_masternode_defs order_by_def js_sort_def
      present_masternode_def Masternode_fromRow_def new_Masternode_def shown_masternode_def
      Masternode_fromObject_def lookup_def host_part_def NO_ADDRESS_def new_PaginatedResultSet_def Let_def)

theorem last_paid_before_lists_later_witness:
  "\<exists>res m. masternodes_handler (\<lambda>_. Some 20000) sample_reader sample_table sample_request = Inr res \<and>
     m \<in> set (resultSet res) \<and>
     (\<exists>r \<in> set sample_table. \<exists>paid. cell_value (mr_last_paid_time r) = Some paid \<and>
        of_int (20000 div 1000) < paid \<and> present_masternode sample_reader r = Inr m)"
proof -
  obtain res where res: "masternodes_handler (\<lambda>_. Some 20000) sample_reader sample_table sample_request = Inr res"
    "resultSet res = [shown_masternode sample_place (sample_row ''aa'' ''1.2.3.4:9999'' ''Evo'' 50)]"
    using sample_reply by blast
  define m where "m = shown_masternode sample_place (sample_row ''aa'' ''1.2.3.4:9999'' ''Evo'' 50)"
  have m: "m \<in> set (resultSet res)" by (simp add: res(2) m_def)
  have q: "mq_last_paid_before sample_request = J ''1970-01-01T00:00:20Z''"
    by (simp add: sample_request_def)
  show ?thesis
    by (intro exI [of _ res] exI [of _ m] conjI res(1) m last_paid_before_lists_later [OF res(1) q _ m]) simp
qed

end
