(* ===== verification/CacheModel.thy ===== *)
theory CacheModel
  imports Constants
begin

text \<open>
  \<open>api/src/cache.ts\<close>: a cache of JSON values on Redis, with a life time in milliseconds per entry.
  The interface the services rely on is the locale \<open>ttl_cache\<close>; its interpretation \<open>redis_cache\<close>
  discharges the laws for the model of \<open>cache.ts\<close>.
\<close>

section \<open>Redis\<close>

text \<open>
  The text under a key is the JSON text of a value, of \<open>null\<close>, or no JSON at all. Life times are
  whole milliseconds; an entry is gone from the instant its life time ends.
\<close>

datatype 'v raw = Json "'v option" | Garbage string

record 'v entry =
  raw_text :: "'v raw"
  expires :: "int option"

type_synonym 'v redis = "string \<Rightarrow> 'v entry option"

definition redis_get :: "int \<Rightarrow> string \<Rightarrow> 'v redis \<Rightarrow> 'v raw option" where
  "redis_get now k s =
     (case s k of
        None \<Rightarrow> None
      | Some e \<Rightarrow> (case expires e of
                    None \<Rightarrow> Some (raw_text e)
                  | Some t \<Rightarrow> if t \<le> now then None else Some (raw_text e)))"

definition redis_set :: "string \<Rightarrow> 'v raw \<Rightarrow> 'v redis \<Rightarrow> 'v redis" where
  "redis_set k raw s = s(k \<mapsto> \<lparr>raw_text = raw, expires = None\<rparr>)"

text \<open>\<open>SET k raw PX ttl\<close>, for a positive life time.\<close>

definition redis_set_px :: "int \<Rightarrow> string \<Rightarrow> 'v raw \<Rightarrow> int \<Rightarrow> 'v redis \<Rightarrow> 'v redis" where
  "redis_set_px now k raw ttl s = s(k \<mapsto> \<lparr>raw_text = raw, expires = Some (now + ttl)\<rparr>)"

definition redis_del :: "string \<Rightarrow> 'v redis \<Rightarrow> 'v redis" where
  "redis_del k s = s(k := None)"

text \<open>\<open>PEXPIRE\<close>: nothing for a key that is gone, a deletion when the life time is not positive.\<close>

definition redis_pexpire :: "int \<Rightarrow> string \<Rightarrow> int \<Rightarrow> 'v redis \<Rightarrow> 'v redis" where
  "redis_pexpire now k ttl s =
     (case redis_get now k s of
        None \<Rightarrow> s
      | Some raw \<Rightarrow> if ttl \<le> 0 then redis_del k s
                    else s(k \<mapsto> \<lparr>raw_text = raw, expires = Some (now + ttl)\<rparr>))"

lemmas redis_defs = redis_get_def redis_set_def redis_set_px_def redis_del_def redis_pexpire_def

section \<open>The cache\<close>

definition cache_prefix :: string where "cache_prefix = ''cache:''"

definition keyFor :: "string \<Rightarrow> string" where "keyFor k = cache_prefix @ k"

lemma keyFor_inj [simp]: "keyFor a = keyFor b \<longleftrightarrow> a = b"
  by (simp add: keyFor_def)

definition cache_delete :: "string \<Rightarrow> 'v redis \<Rightarrow> 'v redis" where
  "cache_delete k s = redis_del (keyFor k) s"

text \<open>Text that is not JSON is dropped rather than failing the request.\<close>

definition cache_get :: "int \<Rightarrow> string \<Rightarrow> 'v redis \<Rightarrow> 'v option \<times> 'v redis" where
  "cache_get now k s =
     (case redis_get now (keyFor k) s of
        None \<Rightarrow> (None, s)
      | Some (Json v) \<Rightarrow> (v, s)
      | Some (Garbage _) \<Rightarrow> (None, cache_delete k s))"

definition cache_set :: "int \<Rightarrow> string \<Rightarrow> 'v \<Rightarrow> int option \<Rightarrow> 'v redis \<Rightarrow> 'v redis" where
  "cache_set now k v ttlMs s =
     (let raw = Json (Some v) in
      case ttlMs of
        None \<Rightarrow> redis_set (keyFor k) raw s
      | Some t \<Rightarrow> if t > 0 then redis_set_px now (keyFor k) raw t s else redis_set (keyFor k) raw s)"

definition cache_touch :: "int \<Rightarrow> string \<Rightarrow> int \<Rightarrow> 'v redis \<Rightarrow> 'v redis" where
  "cache_touch now k ttlMs s = redis_pexpire now (keyFor k) ttlMs s"

lemmas cache_defs = cache_get_def cache_set_def cache_touch_def cache_delete_def redis_defs

section \<open>What a client may rely on\<close>

text \<open>
  \<open>lives now ttl t\<close>: an entry written at \<open>now\<close> with this life time is still there at \<open>t\<close>. A life time
  that is not positive counts as none.
\<close>

definition lives :: "int \<Rightarrow> int option \<Rightarrow> int \<Rightarrow> bool" where
  "lives now ttl t = (case ttl of None \<Rightarrow> True | Some d \<Rightarrow> d \<le> 0 \<or> t < now + d)"

text \<open>
  The pattern of the services: read the entry, else compute the value and store it. A computation
  that throws stores nothing.
\<close>

definition memoise ::
  "(int \<Rightarrow> string \<Rightarrow> 's \<Rightarrow> 'v option \<times> 's) \<Rightarrow> (int \<Rightarrow> string \<Rightarrow> 'v \<Rightarrow> int option \<Rightarrow> 's \<Rightarrow> 's) \<Rightarrow>
   int \<Rightarrow> string \<Rightarrow> int \<Rightarrow> 'v result \<Rightarrow> 's \<Rightarrow> 'v result \<times> 's" where
  "memoise get put now k ttl compute s =
     (case get now k s of
        (Some v, s') \<Rightarrow> (Inr v, s')
      | (None, s') \<Rightarrow> (case compute of
                         Inl e \<Rightarrow> (Inl e, s')
                       | Inr v \<Rightarrow> (Inr v, put now k v (Some ttl) s')))"

locale ttl_cache =
  fixes get :: "int \<Rightarrow> string \<Rightarrow> 's \<Rightarrow> 'v option \<times> 's"
    and put :: "int \<Rightarrow> string \<Rightarrow> 'v \<Rightarrow> int option \<Rightarrow> 's \<Rightarrow> 's"
    and erase :: "string \<Rightarrow> 's \<Rightarrow> 's"
  assumes get_put: "fst (get t k (put now k v ttl s)) = (if lives now ttl t then Some v else None)"
    and get_put_other: "k \<noteq> k' \<Longrightarrow> fst (get t k' (put now k v ttl s)) = fst (get t k' s)"
    and get_erase: "fst (get t k' (erase k s)) = (if k = k' then None else fst (get t k' s))"
    and get_stable: "fst (get t' k' (snd (get t k s))) = fst (get t' k' s)"
begin

lemma memoise_hit:
  "fst (get now k s) = Some v \<Longrightarrow> fst (memoise get put now k ttl compute s) = Inr v"
  by (auto simp: memoise_def split: prod.splits)

lemma memoise_miss:
  "fst (get now k s) = None \<Longrightarrow> fst (memoise get put now k ttl compute s) = compute"
  by (auto simp: memoise_def split: prod.splits sum.splits)

text \<open>Within its life time a stored value is found again, and nothing is computed anew.\<close>

lemma memoise_again:
  assumes "fst (memoise get put now k ttl compute s) = Inr v" "fst (get now k s) = None"
    "t < now + ttl"
  shows "fst (memoise get put t k ttl compute' (snd (memoise get put now k ttl compute s))) = Inr v"
proof (rule memoise_hit)
  show "fst (get t k (snd (memoise get put now k ttl compute s))) = Some v"
    using assms by (auto simp: memoise_def get_put lives_def split: prod.splits sum.splits)
qed

text \<open>A failure leaves every key as it was, so the next request tries again.\<close>

lemma memoise_failure:
  "fst (memoise get put now k ttl (Inl e) s) = Inl e \<Longrightarrow>
   fst (get t k' (snd (memoise get put now k ttl (Inl e) s))) = fst (get t k' s)"
  using get_stable [of t k' now k s] by (auto simp: memoise_def split: prod.splits option.splits)

lemma memoise_other:
  "k \<noteq> k' \<Longrightarrow> fst (get t k' (snd (memoise get put now k ttl compute s))) = fst (get t k' s)"
  using get_stable [of t k' now k s]
  by (auto simp: memoise_def get_put_other split: prod.splits sum.splits option.splits)

end

interpretation redis_cache: ttl_cache cache_get cache_set cache_delete
  by unfold_locales
     (auto simp: cache_defs lives_def Let_def split: option.splits raw.splits if_splits)

text \<open>Extending the life of an entry changes what is read only in how long it is read.\<close>

lemma cache_get_touch:
  assumes "0 < ttl" "now \<le> t"
  shows "fst (cache_get t k (cache_touch now k ttl s)) =
    (if t < now + ttl then fst (cache_get now k s) else None)"
  using assms by (auto simp: cache_defs split: option.splits raw.splits)

lemma cache_get_touch_other:
  "k \<noteq> k' \<Longrightarrow> fst (cache_get t k' (cache_touch now k ttl s)) = fst (cache_get t k' s)"
  by (auto simp: cache_defs split: option.splits raw.splits)

end
