(* ===== verification/DashcoreRPC.thy ===== *)
theory DashcoreRPC
  imports Constants
begin

text \<open>
  \<open>api/src/dashcoreRPC.ts\<close>: the client of a Dash Core node. The node is a parameter: a function from
  a method name and its arguments to a reply. What a method's reply holds is a type parameter, so a
  component that uses several methods takes one typed view of the node for each. The lemmas show
  which failures of the node reach the caller and which are absorbed.
\<close>

text \<open>A reply is the \<open>result\<close> of the envelope, or a thrown error with its \<open>code\<close>.\<close>

datatype 'a rpc_outcome = RpcResult 'a | RpcError "int js"

datatype rpc_arg = AStr string | ANum int | ABool bool

type_synonym 'a rpc_method = "string \<Rightarrow> rpc_arg list \<Rightarrow> 'a rpc_outcome"

text \<open>
  An error handler answers with an object, which is truthy and becomes the result, or with \<open>null\<close>
  or \<open>undefined\<close>, which are not.
\<close>

definition callMethod ::
  "'a rpc_method \<Rightarrow> string \<Rightarrow> rpc_arg list \<Rightarrow> (int js \<Rightarrow> 'a js) \<Rightarrow> 'a result" where
  "callMethod node meth args onError =
     (case node meth args of
        RpcResult result \<Rightarrow> Inr result
      | RpcError code \<Rightarrow>
          (case onError code of
             J handlerResponse \<Rightarrow> Inr handlerResponse
           | _ \<Rightarrow> Inl (ServiceNotAvailable code)))"

text \<open>The default of \<open>onError\<close>, \<open>() => {}\<close>.\<close>

definition no_handler :: "int js \<Rightarrow> 'a js" where "no_handler e = JUndef"

definition getBlock :: "'a rpc_method \<Rightarrow> string \<Rightarrow> int \<Rightarrow> 'a result" where
  "getBlock node hash format = callMethod node ''getblock'' [AStr hash, ANum format] no_handler"

definition getTransactionByHash :: "'a rpc_method \<Rightarrow> string \<Rightarrow> int \<Rightarrow> 'a result" where
  "getTransactionByHash node hash json =
     callMethod node ''getRawTransaction'' [AStr hash, ANum json] no_handler"

definition getMasternodes :: "'a rpc_method \<Rightarrow> 'a result" where
  "getMasternodes node =
     callMethod node ''masternode'' [AStr ''list'', AStr ''json'', AStr ''ENABLED''] no_handler"

text \<open>\<open>signal = "all", type = "all"\<close> replace arguments that are left out.\<close>

definition getGovernanceObjects :: "'a rpc_method \<Rightarrow> string js \<Rightarrow> string js \<Rightarrow> 'a result" where
  "getGovernanceObjects node signal type' =
     callMethod node ''gobject''
       [AStr ''list'', AStr (coalesce signal ''all''), AStr (coalesce type' ''all'')] no_handler"

definition getGovernanceObject :: "'a rpc_method \<Rightarrow> string \<Rightarrow> 'a result" where
  "getGovernanceObject node hash =
     callMethod node ''gobject'' [AStr ''get'', AStr hash] (\<lambda>_. JNull)"

text \<open>The votes of an object, in the order of their keys; the handler answers \<open>{}\<close>.\<close>

definition getGovernanceObjectVotes ::
  "(string \<times> string) list rpc_method \<Rightarrow> string \<Rightarrow> (string \<times> string) list result" where
  "getGovernanceObjectVotes node hash =
     callMethod node ''gobject'' [AStr ''getcurrentvotes'', AStr hash] (\<lambda>_. J [])"

definition getProTxList :: "'a rpc_method \<Rightarrow> 'a result" where
  "getProTxList node =
     callMethod node ''protx'' [AStr ''list'', AStr ''registered'', ABool True] no_handler"

definition getSuperblockBudget :: "'a rpc_method \<Rightarrow> int \<Rightarrow> 'a result" where
  "getSuperblockBudget node superblockHeight =
     callMethod node ''getsuperblockbudget'' [ANum superblockHeight] no_handler"

definition getGovernanceInfo :: "'a rpc_method \<Rightarrow> 'a result" where
  "getGovernanceInfo node = callMethod node ''getgovernanceinfo'' [] no_handler"

definition getMemPoolTransactionHashes :: "'a rpc_method \<Rightarrow> 'a result" where
  "getMemPoolTransactionHashes node = callMethod node ''getrawmempool'' [] no_handler"

definition getBlockCount :: "'a rpc_method \<Rightarrow> 'a result" where
  "getBlockCount node = callMethod node ''getBlockCount'' [] no_handler"

definition getChainInfo :: "'a rpc_method \<Rightarrow> 'a result" where
  "getChainInfo node = callMethod node ''getblockchaininfo'' [] no_handler"

definition getUtxoInfo :: "'a rpc_method \<Rightarrow> 'a result" where
  "getUtxoInfo node = callMethod node ''gettxoutsetinfo'' [] no_handler"

lemmas rpc_defs =
  getBlock_def getTransactionByHash_def getMasternodes_def getGovernanceObjects_def
  getGovernanceObject_def getGovernanceObjectVotes_def getProTxList_def getSuperblockBudget_def
  getGovernanceInfo_def getMemPoolTransactionHashes_def getBlockCount_def getChainInfo_def
  getUtxoInfo_def

lemma callMethod_no_handler:
  "callMethod node m args no_handler =
     (case node m args of RpcResult r \<Rightarrow> Inr r | RpcError c \<Rightarrow> Inl (ServiceNotAvailable c))"
  by (simp add: callMethod_def no_handler_def split: rpc_outcome.splits)

text \<open>Votes are read without failure: an error of the node reads as no votes at all.\<close>

lemma getGovernanceObjectVotes_total:
  "getGovernanceObjectVotes node hash =
     Inr (case node ''gobject'' [AStr ''getcurrentvotes'', AStr hash] of
            RpcResult votes \<Rightarrow> votes | RpcError c \<Rightarrow> [])"
  by (simp add: getGovernanceObjectVotes_def callMethod_def split: rpc_outcome.splits)

text \<open>The \<open>null\<close> of the other handler is falsy: an error of the node is thrown all the same.\<close>

lemma getGovernanceObject_error:
  "node ''gobject'' [AStr ''get'', AStr hash] = RpcError c \<Longrightarrow>
   getGovernanceObject node hash = Inl (ServiceNotAvailable c)"
  by (simp add: getGovernanceObject_def callMethod_def)

end
