(* ===== verification/BucketSeries.thy ===== *)
theory BucketSeries
  imports TimeUtils
begin

text \<open>
  Time series shared by the chart endpoints: the \<open>ranges\<close> common table expression
  (\<open>generate_series\<close> with a \<open>LAG\<close> over it), bucket sums and running totals. How PostgreSQL adds
  one step of an interval to a timestamp is a parameter, \<open>advance\<close>: calendar months and years have
  no fixed length. The lemmas show that the rows of \<open>ranges\<close> are half-open intervals that follow one
  another without gap or overlap, so every instant falls into at most one bucket and bucket sums
  add up to the sum over the window.
\<close>

section \<open>Rows that follow one another\<close>

fun chain :: "int \<Rightarrow> (int \<times> int) list \<Rightarrow> bool" where
  "chain s [] = True"
| "chain s ((a, b) # rs) = (a = s \<and> a < b \<and> chain b rs)"

text \<open>The instant up to which the rows reach.\<close>

fun chain_end :: "int \<Rightarrow> (int \<times> int) list \<Rightarrow> int" where
  "chain_end s [] = s"
| "chain_end s ((a, b) # rs) = chain_end b rs"

definition in_row :: "int \<Rightarrow> int \<times> int \<Rightarrow> bool" where
  "in_row t r \<longleftrightarrow> fst r < t \<and> t \<le> snd r"

lemma chain_end_ge: "chain s rs \<Longrightarrow> s \<le> chain_end s rs"
  by (induction s rs rule: chain.induct) auto

lemma chain_row: "chain s rs \<Longrightarrow> r \<in> set rs \<Longrightarrow> s \<le> fst r \<and> fst r < snd r"
  by (induction s rs rule: chain.induct) fastforce+

text \<open>The sum of a weight over the events of a row, and over the events of a window.\<close>

definition row_sum :: "('e \<Rightarrow> int) \<Rightarrow> ('e \<Rightarrow> int) \<Rightarrow> 'e list \<Rightarrow> int \<times> int \<Rightarrow> int" where
  "row_sum time weight es r = sum_list (List.map weight (filter (\<lambda>e. in_row (time e) r) es))"

lemma row_sum_append: "row_sum time weight (es @ fs) r = row_sum time weight es r + row_sum time weight fs r"
  by (simp add: row_sum_def)

lemma row_sum_split:
  "a \<le> b \<Longrightarrow> b \<le> c \<Longrightarrow>
   row_sum time weight es (a, c) = row_sum time weight es (a, b) + row_sum time weight es (b, c)"
  by (induction es) (auto simp: row_sum_def in_row_def)

lemma row_sum_empty [simp]: "row_sum time weight es (a, a) = 0"
  by (simp add: row_sum_def in_row_def)

text \<open>The contract of a series of buckets, and what follows from it.\<close>

locale bucket_chain =
  fixes start :: int and rows :: "(int \<times> int) list"
  assumes chained: "chain start rows"
begin

lemma in_some_row: "(\<exists>r \<in> set rows. in_row t r) \<longleftrightarrow> start < t \<and> t \<le> chain_end start rows"
  using chained
proof (induction start rows rule: chain.induct)
  case (2 s a b rs)
  then have "b \<le> chain_end b rs" by (simp add: chain_end_ge)
  with 2 show ?case by (auto simp: in_row_def)
qed (auto)

lemma rows_start_late: "r \<in> set rows \<Longrightarrow> start \<le> fst r"
  using chain_row [OF chained] by blast

lemma row_unique:
  "i < length rows \<Longrightarrow> j < length rows \<Longrightarrow> in_row t (rows ! i) \<Longrightarrow> in_row t (rows ! j) \<Longrightarrow> i = j"
  using chained
proof (induction start rows arbitrary: i j rule: chain.induct)
  case (2 s a b rs)
  have late: "b \<le> fst r" if "r \<in> set rs" for r
    using 2(6) that bucket_chain.rows_start_late [of b rs r] by (simp add: bucket_chain_def)
  show ?case
  proof (cases i; cases j)
    fix i' j' assume "i = Suc i'" "j = Suc j'"
    with 2 show ?thesis by auto
  next
    fix j' assume "i = 0" "j = Suc j'"
    with 2 late [of "rs ! j'"] show ?thesis by (auto simp: in_row_def)
  next
    fix i' assume "i = Suc i'" "j = 0"
    with 2 late [of "rs ! i'"] show ?thesis by (auto simp: in_row_def)
  qed auto
qed simp

lemma sum_rows:
  "sum_list (List.map (row_sum time weight es) rows) = row_sum time weight es (start, chain_end start rows)"
  using chained
proof (induction start rows rule: chain.induct)
  case (2 s a b rs)
  then have "b \<le> chain_end b rs" by (simp add: chain_end_ge)
  with 2 row_sum_split [of a b "chain_end b rs" time weight es] show ?case by simp
qed simp

lemma chain_take: "chain start (take n rows)"
  using chained by (induction start rows arbitrary: n rule: chain.induct) (auto simp: take_Cons')

lemma distinct_starts: "sorted_wrt (<) (List.map fst rows)"
  using chained
proof (induction start rows rule: chain.induct)
  case (2 s a b rs)
  have "b \<le> fst r" if "r \<in> set rs" for r
    using 2 that bucket_chain.rows_start_late [of b rs r] by (simp add: bucket_chain_def)
  with 2 show ?case by fastforce
qed simp

end

section \<open>\<open>generate_series\<close>\<close>

text \<open>
  \<open>generate_series(t, e, step)\<close>: the instants from \<open>t\<close> to \<open>e\<close>, each one step after the one before.
  A step that does not advance is refused by the server, as a step of zero is.
\<close>

function generate_series :: "(int \<Rightarrow> int) \<Rightarrow> int \<Rightarrow> int \<Rightarrow> int list option" where
  "generate_series advance t e =
     (if advance t \<le> t then None
      else if t > e then Some []
      else map_option (Cons t) (generate_series advance (advance t) e))"
  by pat_completeness auto
termination
  by (relation "measure (\<lambda>(advance, t, e). nat (e - t + 1))") auto

declare generate_series.simps [simp del]

text \<open>
  The \<open>ranges\<close> rows: \<open>date_to\<close> from the series that begins one step after \<open>start\<close>, \<open>date_from\<close> the
  \<open>date_to\<close> of the row before, \<open>start\<close> in the first row (\<open>LAG(date_to, 1, start)\<close>).
\<close>

definition lag_rows :: "int \<Rightarrow> int list \<Rightarrow> (int \<times> int) list" where
  "lag_rows start tos = zip (start # tos) tos"

definition ranges :: "(int \<Rightarrow> int) \<Rightarrow> int \<Rightarrow> int \<Rightarrow> int \<Rightarrow> (int \<times> int) list option" where
  "ranges advance start end' intervalInMs =
     map_option (lag_rows start) (generate_series advance (start + intervalInMs) end')"

lemma lag_rows_simps [simp]:
  "lag_rows s [] = []"
  "lag_rows s (t # ts) = (s, t) # lag_rows t ts"
  by (simp_all add: lag_rows_def)

lemma generate_series_chain:
  "generate_series advance t e = Some ts \<Longrightarrow> s < t \<Longrightarrow>
   chain s (lag_rows s ts) \<and> chain_end s (lag_rows s ts) \<le> max s e"
proof (induction advance t e arbitrary: s ts rule: generate_series.induct)
  case (1 advance t e)
  show ?case
  proof (cases "t > e")
    case True
    with 1 show ?thesis by (auto simp: generate_series.simps [of advance t e] split: if_splits)
  next
    case False
    with "1.prems" obtain us where
      adv: "t < advance t" and us: "generate_series advance (advance t) e = Some us" "ts = t # us"
      by (auto simp: generate_series.simps [of advance t e] split: if_splits)
    with "1.IH" [of us t] False "1.prems" show ?thesis by auto
  qed
qed

lemma ranges_chain:
  assumes "ranges advance start end' ms = Some rs" "0 < ms"
  shows "bucket_chain start rs" "chain_end start rs \<le> max start end'"
  using assms generate_series_chain [of advance "start + ms" end' _ start]
  by (auto simp: ranges_def bucket_chain_def)

lemma generate_series_defined:
  "(\<And>u. u < advance u) \<Longrightarrow> \<exists>ts. generate_series advance t e = Some ts"
proof (induction advance t e rule: generate_series.induct)
  case (1 advance t e)
  have "\<not> advance t \<le> t" using "1.prems" [of t] by simp
  with "1.IH" "1.prems" show ?case by (subst generate_series.simps) auto
qed

lemma ranges_zero_step: "ranges (\<lambda>t. t) start end' ms = None"
  by (simp add: ranges_def generate_series.simps)

text \<open>With a fixed step, the series ends less than one step before the end of the window.\<close>

lemma generate_series_fixed:
  "0 < ms \<Longrightarrow> generate_series (\<lambda>t. t + ms) t e = Some ts \<Longrightarrow>
   ts = List.map (\<lambda>i. t + int i * ms) [0..<length ts] \<and> (t \<le> e + ms \<longrightarrow> e < t + int (length ts) * ms)"
proof (induction "\<lambda>t. t + ms" t e arbitrary: ts rule: generate_series.induct)
  case (1 t e)
  show ?case
  proof (cases "t > e")
    case True
    with 1 show ?thesis by (auto simp: generate_series.simps [of _ t e] split: if_splits)
  next
    case False
    with 1(3) obtain us where us: "generate_series (\<lambda>t. t + ms) (t + ms) e = Some us" "ts = t # us"
      using \<open>0 < ms\<close> by (auto simp: generate_series.simps [of _ t e] split: if_splits)
    have IH: "us = List.map (\<lambda>i. t + ms + int i * ms) [0..<length us]"
      "t + ms \<le> e + ms \<longrightarrow> e < t + ms + int (length us) * ms"
      using 1(1) [OF _ _ \<open>0 < ms\<close> us(1)] False \<open>0 < ms\<close> by auto
    have "List.map (\<lambda>i. t + int i * ms) [0..<Suc (length us)] =
          t # List.map (\<lambda>i. t + int (Suc i) * ms) [0..<length us]"
      by (subst upt_conv_Cons) (simp_all add: map_Suc_upt [symmetric] del: upt_Suc map_Suc_upt)
    also have "\<dots> = t # us" by (subst IH(1)) (simp add: algebra_simps)
    finally show ?thesis using us IH(2) False by (auto simp: algebra_simps)
  qed
qed

section \<open>Running totals\<close>

text \<open>\<open>SUM(x) OVER (ORDER BY \<dots> ROWS BETWEEN UNBOUNDED PRECEDING AND CURRENT ROW)\<close>.\<close>

fun running :: "int \<Rightarrow> int list \<Rightarrow> int list" where
  "running acc [] = []"
| "running acc (x # xs) = (acc + x) # running (acc + x) xs"

lemma length_running [simp]: "length (running acc xs) = length xs"
  by (induction xs arbitrary: acc) auto

lemma nth_running: "i < length xs \<Longrightarrow> running acc xs ! i = acc + sum_list (take (Suc i) xs)"
  by (induction xs arbitrary: acc i) (auto simp: nth_Cons split: nat.splits)

lemma last_running: "xs \<noteq> [] \<Longrightarrow> last (running acc xs) = acc + sum_list xs"
  by (induction xs arbitrary: acc rule: induct_list012) auto

lemma running_ge: "\<forall>x \<in> set xs. 0 \<le> x \<Longrightarrow> y \<in> set (running acc xs) \<Longrightarrow> acc \<le> y"
  by (induction xs arbitrary: acc) force+

lemma running_mono: "\<forall>x \<in> set xs. 0 \<le> x \<Longrightarrow> sorted (running acc xs)"
  by (induction xs arbitrary: acc) (auto intro: running_ge)

section \<open>Requests for a chart\<close>

text \<open>
  The step of a chart, as the controllers compute it: \<open>intervals_count\<close> equal buckets rounded up to
  whole seconds when the caller asks for a count, else a preset step. The duration string goes to
  PostgreSQL, the number of milliseconds positions the first bucket.
\<close>

definition count_interval_ms :: "int \<Rightarrow> int \<Rightarrow> rat \<Rightarrow> int" where
  "count_interval_ms start end' cnt = \<lceil>of_int (end' - start) / cnt / 1000\<rceil> * 1000"

definition chart_interval :: "int \<Rightarrow> int \<Rightarrow> rat option \<Rightarrow> string \<times> int option" where
  "chart_interval start end' cnt =
     (case cnt of
        Some n \<Rightarrow> (let ms = count_interval_ms start end' n
                  in (iso8601duration (of_int ms), Some ms))
      | None \<Rightarrow> (let name = calculateInterval start end' in (name, interval_ms name)))"

lemma count_interval_bounds:
  assumes "start \<le> end'" "0 < cnt"
  shows "0 \<le> count_interval_ms start end' cnt"
    "of_int (end' - start) \<le> cnt * of_int (count_interval_ms start end' cnt)"
proof -
  define q where "q = of_int (end' - start) / cnt / 1000"
  have "0 \<le> q" using assms by (simp add: q_def)
  then have "0 \<le> \<lceil>q\<rceil>" by linarith
  then show "0 \<le> count_interval_ms start end' cnt" by (simp add: count_interval_ms_def q_def)
  have "of_int (end' - start) = cnt * (q * 1000)" using assms(2) by (simp add: q_def)
  also have "\<dots> \<le> cnt * (of_int \<lceil>q\<rceil> * 1000)"
    using assms(2) le_of_int_ceiling [of q] by (intro mult_left_mono mult_right_mono) auto
  finally show "of_int (end' - start) \<le> cnt * of_int (count_interval_ms start end' cnt)"
    by (simp add: count_interval_ms_def q_def)
qed

lemma count_interval_pos:
  "start < end' \<Longrightarrow> 0 < cnt \<Longrightarrow> 0 < count_interval_ms start end' cnt"
  by (simp add: count_interval_ms_def)

end
