(* ===== verification/Governance.thy ===== *)
theory Governance
  imports GovernanceModels Masternodes CacheModel DashcoreRPC BucketSeries
begin

text \<open>
  \<open>api/src/dao/GovernanceDAO.ts\<close>: proposals with the greedy marking of those the budget can pay, the
  votes of a masternode and of a proposal, and the chart of votes over time. The node, the parser of
  JSON texts, the collation of names and the vote hash that the indexer keeps in Redis are parameters,
  gathered in \<open>gov_env\<close>. Calls that the code makes concurrently are made in the order it lists them.
\<close>

section \<open>The environment\<close>

record ProTxEntry =
  pe_proTxHash :: string
  pe_collateralHash :: string
  pe_collateralIndex :: int
  pe_type :: "string js"

record GovernanceInfo =
  superblockcycle :: int
  superblockmaturitywindow :: int
  lastsuperblock :: int
  nextsuperblock :: int

record gov_env =
  node_objects :: "(string \<times> GovernanceObjectDetails) list rpc_method"
  node_object :: "GovernanceObjectDetails option rpc_method"
  node_votes :: "(string \<times> string) list rpc_method"
  node_protx :: "ProTxEntry list rpc_method"
  node_budget :: "rat rpc_method"
  node_info :: "GovernanceInfo rpc_method"
  json_parse :: "string \<Rightarrow> proposal_data_raw option result"
  locale_compare :: "string \<Rightarrow> string \<Rightarrow> int"
  masternode_table :: "MasternodeRow list"
  redis_hvals :: "string \<Rightarrow> string list"

section \<open>Outpoints\<close>

text \<open>The two maps of an outpoint, to the hash of its masternode and to its voting weight.\<close>

record outpoint_maps =
  hashMap :: "(string \<times> string) list"
  weightMap :: "(string \<times> int) list"

definition outpoint_of :: "ProTxEntry \<Rightarrow> string" where
  "outpoint_of e = pe_collateralHash e @ ''-'' @ dec_int (pe_collateralIndex e)"

definition add_entry :: "outpoint_maps \<Rightarrow> ProTxEntry \<Rightarrow> outpoint_maps" where
  "add_entry m e =
     (let outpoint = outpoint_of e in
      \<lparr>hashMap = AList.update outpoint (pe_proTxHash e) (hashMap m),
       weightMap = AList.update outpoint (if pe_type e = J ''Evo'' then 4 else 1) (weightMap m)\<rparr>)"

definition build_maps :: "ProTxEntry list \<Rightarrow> outpoint_maps" where
  "build_maps entries = foldl add_entry \<lparr>hashMap = [], weightMap = []\<rparr> entries"

definition protx_key :: string where "protx_key = ''protxOutpoint''"

definition getProtxOutpoint ::
  "gov_env \<Rightarrow> int \<Rightarrow> outpoint_maps redis \<Rightarrow> outpoint_maps result \<times> outpoint_maps redis" where
  "getProtxOutpoint env now s =
     (let (cached, s) = cache_get now protx_key s in
      case cached of
        Some m \<Rightarrow> (Inr m, s)
      | None \<Rightarrow>
          (case getProTxList (node_protx env) of
             Inl e \<Rightarrow> (Inl e, s)
           | Inr entries \<Rightarrow>
               if length entries = 0 then
                 (Inl (PlainError ''protx list returned empty; not caching outpoint map''), s)
               else
                 (let result' = build_maps entries in
                  (Inr result', cache_set now protx_key result' (Some PROTX_OUTPOINT_MAP_LIFE_TIME) s))))"

text \<open>The list as a computation that the cache memoises.\<close>

definition protx_maps :: "gov_env \<Rightarrow> outpoint_maps result" where
  "protx_maps env =
     bind_result (getProTxList (node_protx env)) (\<lambda>entries.
       if length entries = 0 then Inl (PlainError ''protx list returned empty; not caching outpoint map'')
       else Inr (build_maps entries))"

lemma getProtxOutpoint_memoise:
  "getProtxOutpoint env now s =
     memoise cache_get cache_set now protx_key PROTX_OUTPOINT_MAP_LIFE_TIME (protx_maps env) s"
  by (auto simp: getProtxOutpoint_def memoise_def protx_maps_def Let_def
      split: prod.splits option.splits sum.splits)

lemma build_maps_snoc: "build_maps (es @ [e]) = add_entry (build_maps es) e"
  by (simp add: build_maps_def)

lemma map_of_AList_update: "map_of (AList.update k v m) k' = (if k' = k then Some v else map_of m k')"
  by (simp add: update_conv)

text \<open>Both maps hold, for an outpoint, what the last entry with that outpoint says.\<close>

lemma build_maps_lookup:
  "map_of (hashMap (build_maps es)) o' =
     map_option pe_proTxHash (find (\<lambda>e. outpoint_of e = o') (rev es)) \<and>
   map_of (weightMap (build_maps es)) o' =
     map_option (\<lambda>e. if pe_type e = J ''Evo'' then 4 else 1) (find (\<lambda>e. outpoint_of e = o') (rev es))"
proof (induction es rule: rev_induct)
  case Nil
  show ?case by (simp add: build_maps_def)
next
  case (snoc e es)
  then show ?case
    by (auto simp: build_maps_snoc add_entry_def Let_def map_of_AList_update)
qed

section \<open>The budget, greedily\<close>

text \<open>The abstract rule: walk the ranking and take what still fits.\<close>

fun greedy :: "rat \<Rightarrow> rat \<Rightarrow> ('a \<Rightarrow> rat) \<Rightarrow> 'a list \<Rightarrow> 'a list" where
  "greedy budget run amount [] = []"
| "greedy budget run amount (x # xs) =
     (if run + amount x > budget then greedy budget run amount xs
      else x # greedy budget (run + amount x) amount xs)"

lemma set_greedy: "set (greedy b r f xs) \<subseteq> set xs"
  by (induction xs arbitrary: r) auto

lemma greedy_total: "r \<le> b \<Longrightarrow> r + sum_list (map f (greedy b r f xs)) \<le> b"
  by (induction xs arbitrary: r) (auto simp: add.assoc [symmetric] not_less)

lemma distinct_greedy: "distinct xs \<Longrightarrow> distinct (greedy b r f xs)"
  by (induction xs arbitrary: r) (use set_greedy in \<open>auto, fastforce\<close>)

text \<open>What is left out would not fit beside what was taken before it.\<close>

lemma greedy_skipped:
  assumes "sorted_wrt R xs" "distinct xs" "x \<in> set xs" "x \<notin> set (greedy b r f xs)"
    "\<And>y. y \<in> set xs \<Longrightarrow> 0 \<le> f y"
  shows "b < r + f x + sum_list (map f (filter (\<lambda>y. R y x) (greedy b r f xs)))"
  using assms
proof (induction xs arbitrary: r)
  case (Cons y ys)
  have nonneg: "0 \<le> sum_list (map f (filter P (greedy b q f ys)))" for P q
    by (rule sum_list_nonneg) (use Cons.prems(5) set_greedy in fastforce)
  show ?case
  proof (cases "x = y")
    case True
    with Cons.prems have "b < r + f x" by (auto split: if_splits)
    moreover have "x \<notin> set ys" using True Cons.prems by simp
    ultimately show ?thesis using True Cons.prems nonneg [of "\<lambda>y. R y x" r] by (auto split: if_splits)
  next
    case False
    with Cons.prems have "R y x" by auto
    have rest: "x \<in> set ys" "x \<notin> set (greedy b r' f ys)" if "r' = (if r + f y > b then r else r + f y)" for r'
      using Cons.prems False that by (auto split: if_splits)
    have "sorted_wrt R ys" "distinct ys" "\<And>z. z \<in> set ys \<Longrightarrow> 0 \<le> f z" using Cons.prems by auto
    with Cons.IH rest \<open>R y x\<close> show ?thesis
      by (cases "r + f y > b") (simp_all add: algebra_simps, force simp: algebra_simps)
  qed
qed simp

section \<open>Proposals\<close>

definition yes_count :: "GovernanceObject \<Rightarrow> int" where
  "yes_count p = or_else (absoluteYesCount p) 0"

definition amount_of :: "GovernanceObject \<Rightarrow> rat" where
  "amount_of p = or_else (paymentAmount p) 0"

text \<open>
  The marking loop sorts a copy of the array and mutates the objects both arrays share: the model
  sorts positions, and marks the positions the loop reached.
\<close>

definition fund_step ::
  "rat \<Rightarrow> GovernanceObject list \<Rightarrow> rat \<times> nat list \<Rightarrow> nat \<Rightarrow> rat \<times> nat list" where
  "fund_step totalBudget proposals acc i =
     (let (run, funded) = acc; amount = amount_of (proposals ! i) in
      if run + amount > totalBudget then (run, funded) else (run + amount, funded @ [i]))"

definition rank_positions :: "GovernanceObject list \<Rightarrow> nat list" where
  "rank_positions proposals =
     js_sort (by_key (\<lambda>i. - yes_count (proposals ! i))) [0..<length proposals]"

definition mark_funded :: "rat \<Rightarrow> GovernanceObject list \<Rightarrow> GovernanceObject list" where
  "mark_funded totalBudget proposals =
     (let (_, funded) = foldl (fund_step totalBudget proposals) (0, []) (rank_positions proposals) in
      map (\<lambda>i. if i \<in> set funded then (proposals ! i)\<lparr>enoughFunds := Some True\<rparr> else proposals ! i)
        [0..<length proposals])"

text \<open>
  The comparators. A comparison with an invalid date yields \<open>NaN\<close>, which the sort reads as 0.
\<close>

definition sign_of :: "rat \<Rightarrow> int" where
  "sign_of v = (if v < 0 then -1 else if v = 0 then 0 else 1)"

definition creation_ms :: "GovernanceObject \<Rightarrow> int option" where
  "creation_ms p = (case creationTime p of None \<Rightarrow> Some 0 | Some d \<Rightarrow> d)"

definition compare_proposals ::
  "(string \<Rightarrow> string \<Rightarrow> int) \<Rightarrow> string \<Rightarrow> int \<Rightarrow> GovernanceObject \<Rightarrow> GovernanceObject \<Rightarrow> int" where
  "compare_proposals localeCompare orderBy direction a b =
     (if orderBy = ''creation_time'' then
        (case (creation_ms a, creation_ms b) of
           (Some s, Some t) \<Rightarrow> (s - t) * direction | _ \<Rightarrow> 0)
      else if orderBy = ''name'' then
        localeCompare (or_else (go_name a) []) (or_else (go_name b) []) * direction
      else if orderBy = ''votes'' then
        ((or_else (yesCount a) 0 - or_else (noCount a) 0) -
         (or_else (yesCount b) 0 - or_else (noCount b) 0)) * direction
      else if orderBy = ''payment_amount'' then sign_of (amount_of a - amount_of b) * direction
      else 0)"

definition order_proposals ::
  "(string \<Rightarrow> string \<Rightarrow> int) \<Rightarrow> string js \<Rightarrow> string js \<Rightarrow> GovernanceObject list \<Rightarrow> GovernanceObject list" where
  "order_proposals localeCompare orderBy order proposals =
     (case or_null orderBy of
        None \<Rightarrow> proposals
      | Some by' \<Rightarrow>
          (let direction = (if order = J ''desc'' then -1 else 1) in
           js_sort (compare_proposals localeCompare by' direction) proposals))"

definition proposal_entry ::
  "gov_env \<Rightarrow> int \<Rightarrow> string \<times> GovernanceObjectDetails \<Rightarrow> GovernanceObject result" where
  "proposal_entry env requiredVotes entry =
     bind_result (GovernanceObject_fromObject (json_parse env) (snd entry)) (\<lambda>p.
       Inr (p\<lparr>enoughVotes := Some (yes_count p \<ge> requiredVotes), enoughFunds := Some False\<rparr>))"

definition getProposals ::
  "gov_env \<Rightarrow> string js \<Rightarrow> string js \<Rightarrow> string js \<Rightarrow> GovernanceObject list result" where
  "getProposals env proposalType orderBy order =
     bind_result (getGovernanceObjects (node_objects env) proposalType (J ''proposals'')) (\<lambda>response.
     let masternodeStats = getMasternodeStats (masternode_table env) in
     bind_result (getGovernanceInfo (node_info env)) (\<lambda>governanceInfo.
     bind_result (getSuperblockBudget (node_budget env) (nextsuperblock governanceInfo)) (\<lambda>totalBudget.
     bind_result (map_result (proposal_entry env (requiredProposalVotes masternodeStats)) response)
       (\<lambda>proposals.
         Inr (order_proposals (locale_compare env) orderBy (defaulted order ''asc'')
                (mark_funded totalBudget proposals))))))"

text \<open>The loop marks exactly what the abstract rule takes.\<close>

lemma fund_step_greedy:
  "foldl (fund_step b ps) (r, fs) xs =
     (r + sum_list (map (\<lambda>i. amount_of (ps ! i)) (greedy b r (\<lambda>i. amount_of (ps ! i)) xs)),
      fs @ greedy b r (\<lambda>i. amount_of (ps ! i)) xs)"
  by (induction xs arbitrary: r fs) (auto simp: fund_step_def Let_def)

definition funded_positions :: "rat \<Rightarrow> GovernanceObject list \<Rightarrow> nat list" where
  "funded_positions b ps = greedy b 0 (\<lambda>i. amount_of (ps ! i)) (rank_positions ps)"

lemma mark_funded_greedy:
  "mark_funded b ps =
     map (\<lambda>i. if i \<in> set (funded_positions b ps) then (ps ! i)\<lparr>enoughFunds := Some True\<rparr> else ps ! i)
       [0..<length ps]"
  by (simp add: mark_funded_def fund_step_greedy funded_positions_def)

lemma rank_positions [simp]:
  "set (rank_positions ps) = {0..<length ps}" "distinct (rank_positions ps)"
  by (simp_all add: rank_positions_def)

lemma sorted_rank_positions:
  "sorted_wrt (\<lambda>i j. yes_count (ps ! j) \<le> yes_count (ps ! i)) (rank_positions ps)"
  using by_key.sorted_js_sort [of "\<lambda>i. - yes_count (ps ! i)" "[0..<length ps]"]
  by (simp add: rank_positions_def by_key_def)

lemma set_funded_positions: "set (funded_positions b ps) \<subseteq> {0..<length ps}"
  using set_greedy [of b 0 _ "rank_positions ps"] by (auto simp: funded_positions_def)

lemma distinct_funded_positions: "distinct (funded_positions b ps)"
  by (simp add: funded_positions_def distinct_greedy)

lemma sum_filter_positions:
  fixes f :: "nat \<Rightarrow> rat"
  assumes "distinct js" "set js \<subseteq> {0..<n}"
  shows "sum_list (map f (filter (\<lambda>i. i \<in> set js \<and> P i) [0..<n])) = sum_list (map f (filter P js))"
proof -
  have "sum_list (map f (filter (\<lambda>i. i \<in> set js \<and> P i) [0..<n])) =
        sum f (set (filter (\<lambda>i. i \<in> set js \<and> P i) [0..<n]))"
    by (rule sum_list_distinct_conv_sum_set) simp
  also have "set (filter (\<lambda>i. i \<in> set js \<and> P i) [0..<n]) = set (filter P js)"
    using assms(2) by auto
  also have "sum f (set (filter P js)) = sum_list (map f (filter P js))"
    by (rule sum_list_distinct_conv_sum_set [symmetric]) (simp add: assms(1))
  finally show ?thesis .
qed

text \<open>The amount of the marked proposals, among those with a property that marking keeps.\<close>

lemma marked_sum:
  assumes "\<forall>p \<in> set ps. enoughFunds p = Some False"
    "\<And>p. P (p\<lparr>enoughFunds := Some True\<rparr>) = P p"
  shows "sum_list (map amount_of (filter (\<lambda>p. enoughFunds p = Some True \<and> P p) (mark_funded b ps))) =
    sum_list (map (\<lambda>i. amount_of (ps ! i)) (filter (\<lambda>i. P (ps ! i)) (funded_positions b ps)))"
proof -
  let ?F = "set (funded_positions b ps)"
  let ?m = "\<lambda>i. if i \<in> ?F then (ps ! i)\<lparr>enoughFunds := Some True\<rparr> else ps ! i"
  have "filter (\<lambda>p. enoughFunds p = Some True \<and> P p) (mark_funded b ps) =
        map ?m (filter (\<lambda>i. i \<in> ?F \<and> P (ps ! i)) [0..<length ps])"
    unfolding mark_funded_greedy filter_map comp_def
    by (intro arg_cong [where f = "map ?m"] filter_cong refl) (use assms in auto)
  then have "map amount_of (filter (\<lambda>p. enoughFunds p = Some True \<and> P p) (mark_funded b ps)) =
        map (\<lambda>i. amount_of (ps ! i)) (filter (\<lambda>i. i \<in> ?F \<and> P (ps ! i)) [0..<length ps])"
    by (simp add: amount_of_def)
  then show ?thesis
    by (simp add: sum_filter_positions [OF distinct_funded_positions set_funded_positions])
qed

lemma marked_within_budget:
  assumes "\<forall>p \<in> set ps. enoughFunds p = Some False" "0 \<le> b"
  shows "sum_list (map amount_of (filter (\<lambda>p. enoughFunds p = Some True) (mark_funded b ps))) \<le> b"
  using marked_sum [OF assms(1), of "\<lambda>_. True" b] greedy_total [OF assms(2), of "\<lambda>i. amount_of (ps ! i)"]
  by (simp add: funded_positions_def)

lemma unmarked_would_not_fit:
  assumes "\<forall>p \<in> set ps. enoughFunds p = Some False" "\<forall>p \<in> set ps. 0 \<le> amount_of p"
    "q \<in> set (mark_funded b ps)" "enoughFunds q \<noteq> Some True"
  shows "b < amount_of q + sum_list (map amount_of
    (filter (\<lambda>p. enoughFunds p = Some True \<and> yes_count q \<le> yes_count p) (mark_funded b ps)))"
proof -
  obtain j where j: "j < length ps" "q = ps ! j" "j \<notin> set (funded_positions b ps)"
    using assms(3,4) by (auto simp: mark_funded_greedy split: if_splits)
  have "b < 0 + amount_of (ps ! j) + sum_list (map (\<lambda>i. amount_of (ps ! i))
      (filter (\<lambda>i. yes_count (ps ! j) \<le> yes_count (ps ! i)) (funded_positions b ps)))"
    unfolding funded_positions_def
    by (rule greedy_skipped [OF sorted_rank_positions])
       (use j assms(2) in \<open>auto simp: funded_positions_def\<close>)
  then show ?thesis
    using marked_sum [OF assms(1), of "\<lambda>p. yes_count q \<le> yes_count p" b]
    by (simp add: j(2) yes_count_def)
qed

lemma mset_order_proposals [simp]: "mset (order_proposals c by' d ps) = mset ps"
  by (simp add: order_proposals_def Let_def split: option.splits)

lemma sum_amounts_mset:
  "mset xs = mset ys \<Longrightarrow> sum_list (map amount_of (filter P xs)) = sum_list (map amount_of (filter P ys))"
  by (metis mset_filter mset_map sum_mset_sum_list)

lemma getProposals_steps:
  assumes "getProposals env ty by' d = Inr ps"
  obtains response info budget base where
    "getGovernanceObjects (node_objects env) ty (J ''proposals'') = Inr response"
    "getGovernanceInfo (node_info env) = Inr info"
    "getSuperblockBudget (node_budget env) (nextsuperblock info) = Inr budget"
    "map_result (proposal_entry env (requiredProposalVotes (getMasternodeStats (masternode_table env))))
       response = Inr base"
    "ps = order_proposals (locale_compare env) by' (defaulted d ''asc'') (mark_funded budget base)"
    "mset ps = mset (mark_funded budget base)"
    "\<forall>p \<in> set base. enoughFunds p = Some False"
proof -
  from assms obtain response info budget base where *:
    "getGovernanceObjects (node_objects env) ty (J ''proposals'') = Inr response"
    "getGovernanceInfo (node_info env) = Inr info"
    "getSuperblockBudget (node_budget env) (nextsuperblock info) = Inr budget"
    "map_result (proposal_entry env (requiredProposalVotes (getMasternodeStats (masternode_table env))))
       response = Inr base"
    "ps = order_proposals (locale_compare env) by' (defaulted d ''asc'') (mark_funded budget base)"
    by (auto simp: getProposals_def bind_result_Inr_iff)
  moreover have "\<forall>p \<in> set base. enoughFunds p = Some False"
    using *(4) by (auto dest!: map_result_Inr_set simp: proposal_entry_def bind_result_Inr_iff)
  ultimately show thesis using that by simp
qed

text \<open>
  C6: the proposals marked as having enough funds never ask for more than the budget of the next
  superblock together, however the list is ordered.
\<close>

theorem funded_within_budget:
  assumes "getProposals env ty by' d = Inr ps" "getGovernanceInfo (node_info env) = Inr info"
    "getSuperblockBudget (node_budget env) (nextsuperblock info) = Inr budget" "0 \<le> budget"
  shows "sum_list (map amount_of (filter (\<lambda>p. enoughFunds p = Some True) ps)) \<le> budget"
proof (rule getProposals_steps [OF assms(1)])
  fix response info' budget' base
  assume "getGovernanceInfo (node_info env) = Inr info'"
    "getSuperblockBudget (node_budget env) (nextsuperblock info') = Inr budget'"
    "mset ps = mset (mark_funded budget' base)" "\<forall>p \<in> set base. enoughFunds p = Some False"
  then have same: "mset ps = mset (mark_funded budget base)"
    and base: "\<forall>p \<in> set base. enoughFunds p = Some False" using assms(2,3) by simp_all
  show ?thesis
    unfolding sum_amounts_mset [OF same] by (rule marked_within_budget [OF base assms(4)])
qed

text \<open>
  A proposal left unmarked could not be paid beside the marked ones with at least as many yes
  votes: the marking wastes no room that the ranking leaves.
\<close>

theorem unfunded_would_not_fit:
  assumes "getProposals env ty by' d = Inr ps" "getGovernanceInfo (node_info env) = Inr info"
    "getSuperblockBudget (node_budget env) (nextsuperblock info) = Inr budget"
    "\<forall>p \<in> set ps. 0 \<le> amount_of p" "q \<in> set ps" "enoughFunds q \<noteq> Some True"
  shows "budget < amount_of q + sum_list (map amount_of
    (filter (\<lambda>p. enoughFunds p = Some True \<and> yes_count q \<le> yes_count p) ps))"
proof (rule getProposals_steps [OF assms(1)])
  fix response info' budget' base
  assume *: "getGovernanceInfo (node_info env) = Inr info'"
    "getSuperblockBudget (node_budget env) (nextsuperblock info') = Inr budget'"
    "mset ps = mset (mark_funded budget' base)" "\<forall>p \<in> set base. enoughFunds p = Some False"
  then have same: "mset ps = mset (mark_funded budget base)" using assms(2,3) by simp
  then have set: "set ps = set (mark_funded budget base)" by (metis set_mset_mset)
  have "0 \<le> amount_of p" if p: "p \<in> set base" for p
  proof -
    obtain i where "i < length base" "p = base ! i"
      using p unfolding in_set_conv_nth by blast
    moreover from this have "mark_funded budget base ! i \<in> set ps"
      unfolding set by (intro nth_mem) (simp add: mark_funded_greedy)
    moreover have "amount_of (mark_funded budget base ! i) = amount_of (base ! i)"
      using \<open>i < length base\<close> by (simp add: mark_funded_greedy amount_of_def)
    ultimately show ?thesis using assms(4) by auto
  qed
  then have "budget < amount_of q + sum_list (map amount_of
      (filter (\<lambda>p. enoughFunds p = Some True \<and> yes_count q \<le> yes_count p) (mark_funded budget base)))"
    using *(4) assms(5,6) set by (intro unmarked_would_not_fit) simp_all
  then show ?thesis by (simp only: sum_amounts_mset [OF same])
qed

section \<open>Sample node\<close>

definition sample_details :: "string \<Rightarrow> int \<Rightarrow> GovernanceObjectDetails" where
  "sample_details hash yes =
     \<lparr>DataHex = JUndef, DataString = J hash, go_Hash = hash, CollateralHash = JUndef, ObjectType = 1,
      CreationTime = 0, go_AbsoluteYesCount = J yes, go_YesCount = J yes, go_NoCount = J 0,
      go_AbstainCount = J 0, fLocalValidity = J True, IsValidReason = JUndef, FundingResult = JUndef,
      DeleteResult = JUndef, EndorsedResult = JUndef\<rparr>"

definition sample_data :: "string \<Rightarrow> proposal_data_raw option result" where
  "sample_data s =
     Inr (Some \<lparr>end_epoch = J 900, raw_name = J s, payment_address = JUndef,
                payment_amount = J (if s = ''p1'' then 5 else 7), start_epoch = JUndef, raw_type = JUndef,
                raw_url = JUndef\<rparr>)"

definition sample_env :: gov_env where
  "sample_env =
     \<lparr>node_objects = (\<lambda>_ _. RpcResult [(''p1'', sample_details ''p1'' 20), (''p2'', sample_details ''p2'' 10)]),
      node_object = (\<lambda>_ _. RpcResult (Some (sample_details ''p1'' 20))),
      node_votes = (\<lambda>_ _. RpcResult []),
      node_protx = (\<lambda>_ _. RpcResult [\<lparr>pe_proTxHash = ''m'', pe_collateralHash = ''c'',
                                        pe_collateralIndex = 0, pe_type = J ''Evo''\<rparr>]),
      node_budget = (\<lambda>_ _. RpcResult 10),
      node_info = (\<lambda>_ _. RpcResult \<lparr>superblockcycle = 24, superblockmaturitywindow = 8,
                                       lastsuperblock = 48, nextsuperblock = 72\<rparr>),
      json_parse = sample_data, locale_compare = (\<lambda>_ _. 0), masternode_table = [],
      redis_hvals = (\<lambda>_. [print_vote ''c-0'' 5 ''yes'' ''funding'', print_vote ''d-1'' 20 ''no'' ''funding''])\<rparr>"

lemma sample_required: "requiredProposalVotes (getMasternodeStats []) = 0"
  using getMasternodeStats_required [of "[]"] by simp

definition sample_object :: "string \<Rightarrow> int \<Rightarrow> rat \<Rightarrow> bool \<Rightarrow> GovernanceObject" where
  "sample_object s yes amount funded =
     \<lparr>dataHex = None, endEpoch = Some 900, startEpoch = None, go_name = Some s, paymentAddress = None,
      paymentAmount = Some amount, go_type = None, go_url = None, go_hash = Some s,
      collateralHash = None, objectType = Some GovProposal, creationTime = Some (date_of_seconds 0),
      absoluteYesCount = Some yes, yesCount = Some yes, noCount = Some 0, abstainCount = Some 0,
      localValidity = Some True, isValidReason = None, enoughVotes = Some (0 \<le> yes),
      enoughFunds = Some funded, fundingResult = None, deleteResult = None, endorsedResult = None,
      votes = None\<rparr>"

lemma sample_proposals:
  "getProposals sample_env JUndef JUndef JUndef =
     Inr [sample_object ''p1'' 20 5 True, sample_object ''p2'' 10 7 False]"
proof -
  have info: "getGovernanceInfo (node_info sample_env) =
      Inr \<lparr>superblockcycle = 24, superblockmaturitywindow = 8, lastsuperblock = 48, nextsuperblock = 72\<rparr>"
    "getSuperblockBudget (node_budget sample_env) 72 = Inr 10"
    "getGovernanceObjects (node_objects sample_env) JUndef (J ''proposals'') =
       Inr [(''p1'', sample_details ''p1'' 20), (''p2'', sample_details ''p2'' 10)]"
    by (simp_all add: sample_env_def rpc_defs callMethod_no_handler)
  have entries: "proposal_entry sample_env 0 (s, sample_details s yes) =
      Inr (sample_object s yes (if s = ''p1'' then 5 else 7) False)" for s yes
    by (simp add: proposal_entry_def sample_env_def sample_data_def sample_details_def
        sample_object_def governance_object_defs yes_count_def gov_type_of_code_def)
  have marked: "mark_funded 10 [sample_object ''p1'' 20 5 False, sample_object ''p2'' 10 7 False] =
      [sample_object ''p1'' 20 5 True, sample_object ''p2'' 10 7 False]"
    by (simp add: mark_funded_def rank_positions_def js_sort_def by_key_def yes_count_def fund_step_def
        amount_of_def sample_object_def)
  have "masternode_table sample_env = []" by (simp add: sample_env_def)
  then show ?thesis
    by (simp add: getProposals_def info sample_required entries marked order_proposals_def Let_def)
qed

lemma sample_budget:
  "getGovernanceInfo (node_info sample_env) =
     Inr \<lparr>superblockcycle = 24, superblockmaturitywindow = 8, lastsuperblock = 48, nextsuperblock = 72\<rparr>"
  "getSuperblockBudget (node_budget sample_env)
     (nextsuperblock \<lparr>superblockcycle = 24, superblockmaturitywindow = 8, lastsuperblock = 48, nextsuperblock = 72\<rparr>) =
     Inr 10"
  by (simp_all add: sample_env_def rpc_defs callMethod_no_handler)

theorem funded_within_budget_witness:
  "\<exists>ps. getProposals sample_env JUndef JUndef JUndef = Inr ps \<and> (0 :: rat) \<le> 10 \<and>
     sum_list (map amount_of (filter (\<lambda>p. enoughFunds p = Some True) ps)) \<le> 10"
  using funded_within_budget [OF sample_proposals sample_budget] sample_proposals by auto

theorem unfunded_would_not_fit_witness:
  "\<exists>ps q. getProposals sample_env JUndef JUndef JUndef = Inr ps \<and> q \<in> set ps \<and> enoughFunds q \<noteq> Some True \<and>
     10 < amount_of q + sum_list (map amount_of
       (filter (\<lambda>p. enoughFunds p = Some True \<and> yes_count q \<le> yes_count p) ps))"
  using unfunded_would_not_fit [OF sample_proposals sample_budget, of "sample_object ''p2'' 10 7 False"]
    sample_proposals
  by (fastforce simp: sample_object_def amount_of_def)

end
