(* ===== verification/GovernanceVotes.thy ===== *)
theory GovernanceVotes
  imports Governance
begin

text \<open>
  The votes of \<open>api/src/dao/GovernanceDAO.ts\<close>: the votes of a masternode, a proposal with its votes,
  and the series of weighted votes over fixed-step buckets. The series is proved equal, row by row, to
  sums over half-open intervals, and its running total to the all-time tally.
\<close>

section \<open>Votes of a masternode\<close>

definition parse_votes :: "string list \<Rightarrow> ProposalVote list" where
  "parse_votes values = List.map_filter ProposalVote_fromRaw values"

definition getMasternodeVotes ::
  "gov_env \<Rightarrow> int \<Rightarrow> string \<Rightarrow> outpoint_maps redis \<Rightarrow> ProposalVote list result \<times> outpoint_maps redis" where
  "getMasternodeVotes env now hash s =
     (let (maps, s) = getProtxOutpoint env now s in
      (bind_result maps (\<lambda>m.
       bind_result (getGovernanceObjects (node_objects env) (J ''all'') (J ''proposals'')) (\<lambda>objects.
         case map_option fst (find (\<lambda>(_, h). h = hash) (hashMap m)) of
           None \<Rightarrow> Inr []
         | Some targetOutpoint \<Rightarrow>
             (let proposalHashes = map (\<lambda>(_, o'). go_Hash o') objects in
              bind_result
                (map_result
                   (\<lambda>proposalHash.
                      bind_result (getGovernanceObjectVotes (node_votes env) proposalHash) (\<lambda>rawVotes.
                        Inr (map (\<lambda>v. v\<lparr>vote_proTxHash := Some hash, vote_proposalHash := J proposalHash\<rparr>)
                               (filter (\<lambda>v. vote_outpoint v = targetOutpoint)
                                  (parse_votes (map snd rawVotes))))))
                   proposalHashes)
                (\<lambda>perProposal. Inr (concat perProposal))))), s))"

section \<open>A proposal\<close>

definition getProposalByHash ::
  "gov_env \<Rightarrow> int \<Rightarrow> string \<Rightarrow> outpoint_maps redis \<Rightarrow>
   GovernanceObject option result \<times> outpoint_maps redis" where
  "getProposalByHash env now hash s =
     (let (maps, s) = getProtxOutpoint env now s;
          stats = getMasternodeStats (masternode_table env) in
      (bind_result (getGovernanceObject (node_object env) hash) (\<lambda>raw.
       bind_result (getGovernanceObjectVotes (node_votes env) hash) (\<lambda>rawVotes.
       bind_result maps (\<lambda>m.
         case raw of
           None \<Rightarrow> Inr None
         | Some o' \<Rightarrow>
             bind_result (GovernanceObject_fromObject (json_parse env) o') (\<lambda>p.
               let p = (case (absoluteYesCount p, fundingResult p) of
                          (None, Some f) \<Rightarrow>
                            p\<lparr>absoluteYesCount := Some (vr_absoluteYesCount f),
                              yesCount := Some (vr_yesCount f), noCount := Some (vr_noCount f),
                              abstainCount := Some (vr_abstainCount f)\<rparr>
                        | _ \<Rightarrow> p);
                   p = p\<lparr>enoughVotes := Some (yes_count p \<ge> requiredProposalVotes stats)\<rparr>
               in Inr (Some (p\<lparr>votes := Some
                    (map (\<lambda>v. v\<lparr>vote_proTxHash := map_of (hashMap m) (vote_outpoint v)\<rparr>)
                       (parse_votes (map snd rawVotes)))\<rparr>)))))), s))"

section \<open>The series of votes\<close>

record tally =
  yes :: int
  no :: int
  abstain :: int

definition zero_tally :: tally where "zero_tally = \<lparr>yes = 0, no = 0, abstain = 0\<rparr>"

text \<open>The chain of comparisons with the three outcomes; any other outcome counts for nothing.\<close>

definition add_outcome :: "string \<Rightarrow> int \<Rightarrow> tally \<Rightarrow> tally" where
  "add_outcome outcome w t =
     (if outcome = ''yes'' then t\<lparr>yes := yes t + w\<rparr>
      else if outcome = ''no'' then t\<lparr>no := no t + w\<rparr>
      else if outcome = ''abstain'' then t\<lparr>abstain := abstain t + w\<rparr> else t)"

definition known_outcome :: "string \<Rightarrow> bool" where
  "known_outcome outcome \<longleftrightarrow> outcome = ''yes'' \<or> outcome = ''no'' \<or> outcome = ''abstain''"

text \<open>The loop \<open>for (let to = startMs + stepMs; to <= endMs; to += stepMs)\<close>, by its values of \<open>from\<close>.\<close>

function bucket_froms :: "int \<Rightarrow> int \<Rightarrow> int \<Rightarrow> int list" where
  "bucket_froms to step end' =
     (if step > 0 \<and> to \<le> end' then (to - step) # bucket_froms (to + step) step end' else [])"
  by pat_completeness auto
termination by (relation "measure (\<lambda>(to, step, end'). nat (end' - to + 1))") auto

declare bucket_froms.simps [simp del]

definition vote_buckets :: "int \<Rightarrow> int \<Rightarrow> int \<Rightarrow> (int \<times> tally) list" where
  "vote_buckets startMs endMs stepMs =
     map (\<lambda>f. (f, zero_tally)) (bucket_froms (startMs + stepMs) stepMs endMs)"

text \<open>
  \<open>Math.ceil((time - startMs) / stepMs) - 1\<close>: \<open>NaN\<close> for an invalid time, and for \<open>0 / 0\<close>. A bucket at
  \<open>NaN\<close> is \<open>undefined\<close>, and adding to it is a \<open>TypeError\<close>.
\<close>

definition bucket_index :: "date \<Rightarrow> int \<Rightarrow> int \<Rightarrow> jsnum" where
  "bucket_index time startMs stepMs =
     num_sub1 (num_ceil (case time of None \<Rightarrow> NaN
                         | Some t \<Rightarrow> num_div (of_int (t - startMs)) (of_int stepMs)))"

definition vote_weight :: "(string \<times> int) list \<Rightarrow> ProposalVote \<Rightarrow> int" where
  "vote_weight weights v = or_else (map_of weights (vote_outpoint v)) 1"

definition count_vote ::
  "int \<Rightarrow> int \<Rightarrow> (string \<times> int) list \<Rightarrow> tally \<times> (int \<times> tally) list \<Rightarrow> string \<Rightarrow>
   (tally \<times> (int \<times> tally) list) result" where
  "count_vote startMs stepMs weights acc raw =
     (let (base, buckets) = acc in
      case ProposalVote_fromRaw raw of
        None \<Rightarrow> Inr acc
      | Some vote \<Rightarrow>
          if \<not> starts_with (vote_signal vote) ''funding'' then Inr acc
          else
            let index = bucket_index (vote_time vote) startMs stepMs in
            if num_ge index (int (length buckets)) then Inr acc
            else
              let weight = vote_weight weights vote in
              if num_lt index 0 then Inr (add_outcome (vote_outcome vote) weight base, buckets)
              else (case index of
                      Fin q \<Rightarrow>
                        (let i = nat \<lfloor>q\<rfloor>; (from, t) = buckets ! i in
                         Inr (base, buckets[i := (from, add_outcome (vote_outcome vote) weight t)]))
                    | _ \<Rightarrow> if known_outcome (vote_outcome vote) then Inl TypeFailure else Inr acc))"

fun count_votes ::
  "int \<Rightarrow> int \<Rightarrow> (string \<times> int) list \<Rightarrow> string list \<Rightarrow> tally \<times> (int \<times> tally) list \<Rightarrow>
   (tally \<times> (int \<times> tally) list) result" where
  "count_votes startMs stepMs weights [] acc = Inr acc"
| "count_votes startMs stepMs weights (raw # raws) acc =
     bind_result (count_vote startMs stepMs weights acc raw) (count_votes startMs stepMs weights raws)"

definition add_tally :: "tally \<Rightarrow> tally \<Rightarrow> tally" where
  "add_tally a b = \<lparr>yes = yes a + yes b, no = no a + no b, abstain = abstain a + abstain b\<rparr>"

fun series_rows :: "bool \<Rightarrow> tally \<Rightarrow> (int \<times> tally) list \<Rightarrow> tally SeriesData list" where
  "series_rows runningTotal acc [] = []"
| "series_rows runningTotal acc ((from, t) # bs) =
     (if runningTotal then
        (let acc = add_tally acc t in
         new_SeriesData (J (new_date (Fin (of_int from)))) (J acc) # series_rows runningTotal acc bs)
      else new_SeriesData (J (new_date (Fin (of_int from)))) (J t) # series_rows runningTotal acc bs)"

definition getProposalVoteSeries ::
  "gov_env \<Rightarrow> int \<Rightarrow> string \<Rightarrow> int \<Rightarrow> int \<Rightarrow> int \<Rightarrow> bool \<Rightarrow> outpoint_maps redis \<Rightarrow>
   tally SeriesData list result \<times> outpoint_maps redis" where
  "getProposalVoteSeries env now proposalHash startMs endMs stepMs runningTotal s =
     (let buckets = vote_buckets startMs endMs stepMs;
          rawVotes = redis_hvals env (REDIS_VOTES_KEY_PART @ proposalHash);
          (maps, s) = getProtxOutpoint env now s
      in (bind_result maps (\<lambda>m.
          bind_result (count_votes startMs stepMs (weightMap m) rawVotes (zero_tally, buckets))
            (\<lambda>(base, buckets). Inr (series_rows runningTotal base buckets))), s))"

definition getBudget :: "gov_env \<Rightarrow> int \<Rightarrow> rat result" where
  "getBudget env superblockHeight = getSuperblockBudget (node_budget env) superblockHeight"

definition getInfo :: "gov_env \<Rightarrow> GovernanceInfo result" where
  "getInfo env = getGovernanceInfo (node_info env)"

section \<open>The rows of the series\<close>

definition vote_rows :: "int \<Rightarrow> int \<Rightarrow> int \<Rightarrow> (int \<times> int) list" where
  "vote_rows startMs endMs stepMs =
     map (\<lambda>f. (f, f + stepMs)) (bucket_froms (startMs + stepMs) stepMs endMs)"

lemma chain_vote_rows: "chain a (map (\<lambda>f. (f, f + step)) (bucket_froms (a + step) step e))"
proof (induction "a + step" step e arbitrary: a rule: bucket_froms.induct)
  case (1 step e)
  show ?case
    using "1.hyps" [of "a + step"] by (subst bucket_froms.simps) (auto simp: add.commute)
qed

interpretation vote_chart: bucket_chain startMs "vote_rows startMs endMs stepMs" for startMs endMs stepMs
  by unfold_locales (simp add: vote_rows_def chain_vote_rows)

text \<open>They are the rows that \<open>generate_series\<close> with the same fixed step gives.\<close>

lemma generate_series_bucket_froms:
  "0 < step \<Longrightarrow> generate_series (\<lambda>t. t + step) a e = Some (map (\<lambda>f. f + step) (bucket_froms a step e))"
proof (induction a step e rule: bucket_froms.induct)
  case (1 a step e)
  then show ?case
    by (subst generate_series.simps, subst bucket_froms.simps) auto
qed

lemma lag_rows_froms:
  "lag_rows a (map (\<lambda>f. f + step) (bucket_froms (a + step) step e)) =
   map (\<lambda>f. (f, f + step)) (bucket_froms (a + step) step e)"
proof (induction "a + step" step e arbitrary: a rule: bucket_froms.induct)
  case (1 step e)
  show ?case
    using "1.hyps" [of "a + step"] by (subst (1 2) bucket_froms.simps) (auto simp: add.commute)
qed

lemma vote_rows_ranges:
  "0 < stepMs \<Longrightarrow> ranges (\<lambda>t. t + stepMs) startMs endMs stepMs = Some (vote_rows startMs endMs stepMs)"
  by (simp add: ranges_def generate_series_bucket_froms lag_rows_froms vote_rows_def)

lemma bucket_froms_nth:
  "bucket_froms to step e = map (\<lambda>i. to - step + int i * step) [0..<length (bucket_froms to step e)]"
proof (induction to step e rule: bucket_froms.induct)
  case (1 to step e)
  show ?case
  proof (cases "step > 0 \<and> to \<le> e")
    case True
    let ?r = "bucket_froms (to + step) step e"
    have "map (\<lambda>i. to - step + int i * step) [0..<Suc (length ?r)] =
          (to - step) # map (\<lambda>i. to - step + int (Suc i) * step) [0..<length ?r]"
      by (subst upt_conv_Cons) (simp_all add: map_Suc_upt [symmetric] del: upt_Suc map_Suc_upt)
    also have "map (\<lambda>i. to - step + int (Suc i) * step) [0..<length ?r] =
               map (\<lambda>i. to + step - step + int i * step) [0..<length ?r]"
      by (simp add: algebra_simps)
    also have "\<dots> = ?r" by (rule "1.IH" [OF True, symmetric])
    finally show ?thesis using True by (subst (1 2) bucket_froms.simps) simp
  qed (subst (1 2) bucket_froms.simps, simp)
qed

lemma vote_rows_nth:
  assumes "i < length (vote_rows a e step)"
  shows "vote_rows a e step ! i = (a + int i * step, a + (int i + 1) * step)"
proof -
  have "vote_rows a e step ! i = (\<lambda>f. (f, f + step)) (bucket_froms (a + step) step e ! i)"
    using assms by (simp add: vote_rows_def)
  also have "bucket_froms (a + step) step e ! i = a + int i * step"
    using assms by (subst bucket_froms_nth) (simp add: vote_rows_def)
  finally show ?thesis by (simp add: algebra_simps)
qed

section \<open>Events and their tally\<close>

text \<open>A funding vote with a valid time: when it was cast, for what, and with which weight.\<close>

record vote_event =
  ev_time :: int
  ev_outcome :: string
  ev_weight :: int

definition event_of :: "(string \<times> int) list \<Rightarrow> string \<Rightarrow> vote_event option" where
  "event_of weights raw =
     (case ProposalVote_fromRaw raw of
        None \<Rightarrow> None
      | Some v \<Rightarrow>
          if \<not> starts_with (vote_signal v) ''funding'' then None
          else map_option (\<lambda>t. \<lparr>ev_time = t, ev_outcome = vote_outcome v,
                               ev_weight = vote_weight weights v\<rparr>) (vote_time v))"

definition vote_events :: "(string \<times> int) list \<Rightarrow> string list \<Rightarrow> vote_event list" where
  "vote_events weights raws = List.map_filter (event_of weights) raws"

lemma vote_events_simps [simp]:
  "vote_events w [] = []"
  "vote_events w (r # rs) = (case event_of w r of None \<Rightarrow> vote_events w rs | Some e \<Rightarrow> e # vote_events w rs)"
  by (simp_all add: vote_events_def List.map_filter_def split: option.splits)

definition outcome_weight :: "string \<Rightarrow> vote_event \<Rightarrow> int" where
  "outcome_weight o' e = (if ev_outcome e = o' then ev_weight e else 0)"

text \<open>The weights of some events, summed by outcome.\<close>

definition tally_of :: "vote_event list \<Rightarrow> tally" where
  "tally_of es =
     \<lparr>yes = sum_list (map (outcome_weight ''yes'') es), no = sum_list (map (outcome_weight ''no'') es),
      abstain = sum_list (map (outcome_weight ''abstain'') es)\<rparr>"

lemma add_tally_zero [simp]: "add_tally t zero_tally = t" "add_tally zero_tally t = t"
  by (simp_all add: add_tally_def zero_tally_def)

lemma add_tally_assoc: "add_tally (add_tally a b) c = add_tally a (add_tally b c)"
  by (simp add: add_tally_def)

lemma tally_of_Nil [simp]: "tally_of [] = zero_tally"
  by (simp add: tally_of_def zero_tally_def)

lemma tally_of_Cons: "tally_of (e # es) = add_tally (add_outcome (ev_outcome e) (ev_weight e) zero_tally) (tally_of es)"
  by (simp add: tally_of_def add_tally_def add_outcome_def outcome_weight_def zero_tally_def)

lemma add_outcome_tally: "add_outcome o' w t = add_tally t (add_outcome o' w zero_tally)"
  by (simp add: add_outcome_def add_tally_def zero_tally_def)

lemma tally_split:
  "(\<And>e. P e \<longleftrightarrow> Q e \<or> R e) \<Longrightarrow> (\<And>e. \<not> (Q e \<and> R e)) \<Longrightarrow>
   tally_of (filter P es) = add_tally (tally_of (filter Q es)) (tally_of (filter R es))"
proof (induction es)
  case (Cons e es)
  then show ?case
    by (cases "Q e"; cases "R e") (simp_all add: tally_of_Cons add_tally_def)
qed simp

lemma tally_row_sum:
  "yes (tally_of (filter (\<lambda>e. in_row (ev_time e) r) es)) = row_sum ev_time (outcome_weight ''yes'') es r"
  "no (tally_of (filter (\<lambda>e. in_row (ev_time e) r) es)) = row_sum ev_time (outcome_weight ''no'') es r"
  "abstain (tally_of (filter (\<lambda>e. in_row (ev_time e) r) es)) =
     row_sum ev_time (outcome_weight ''abstain'') es r"
  by (simp_all add: tally_of_def row_sum_def)

section \<open>Counting the votes\<close>

text \<open>\<open>Math.ceil\<close> of the quotient finds the row an instant lies in.\<close>

lemma bucket_index_ceil:
  "0 < step \<Longrightarrow> bucket_index (Some t) a step = Fin (of_int (\<lceil>of_int (t - a) / of_int step :: rat\<rceil> - 1))"
  by (simp add: bucket_index_def num_div_def)

lemma ceil_div_iff:
  fixes d step k :: int
  assumes "0 < step"
  shows "\<lceil>of_int d / of_int step :: rat\<rceil> - 1 = k \<longleftrightarrow> k * step < d \<and> d \<le> (k + 1) * step"
proof -
  have "\<lceil>of_int d / of_int step :: rat\<rceil> = k + 1 \<longleftrightarrow>
        of_int (k + 1) - 1 < (of_int d / of_int step :: rat) \<and> of_int d / of_int step \<le> (of_int (k + 1) :: rat)"
    by (rule ceiling_eq_iff)
  also have "of_int (k + 1) - 1 < (of_int d / of_int step :: rat) \<longleftrightarrow> (of_int (k * step) :: rat) < of_int d"
    using assms by (simp add: pos_less_divide_eq)
  also have "of_int d / of_int step \<le> (of_int (k + 1) :: rat) \<longleftrightarrow> (of_int d :: rat) \<le> of_int ((k + 1) * step)"
    using assms by (simp add: pos_divide_le_eq)
  finally show ?thesis by (simp only: of_int_less_iff of_int_le_iff) linarith
qed

lemma bucket_index_row:
  assumes "0 < step"
  obtains k where "bucket_index (Some t) a step = Fin (of_int k)"
    "a + k * step < t" "t \<le> a + (k + 1) * step"
proof -
  let ?k = "\<lceil>of_int (t - a) / of_int step :: rat\<rceil> - 1"
  have "?k * step < t - a \<and> t - a \<le> (?k + 1) * step" using ceil_div_iff [OF assms, of "t - a" ?k] by blast
  then show thesis using that [of ?k] bucket_index_ceil [OF assms, of t a] by auto
qed

definition timely :: "string \<Rightarrow> bool" where
  "timely raw =
     (case ProposalVote_fromRaw raw of
        None \<Rightarrow> True
      | Some v \<Rightarrow> starts_with (vote_signal v) ''funding'' \<longrightarrow> vote_time v \<noteq> None)"

text \<open>The buckets of a chart, with a tally for each row.\<close>

abbreviation filled :: "((int \<times> int) \<Rightarrow> tally) \<Rightarrow> (int \<times> int) list \<Rightarrow> (int \<times> tally) list" where
  "filled T rows \<equiv> map (\<lambda>r. (fst r, T r)) rows"

lemma vote_buckets_filled: "vote_buckets a e step = filled (\<lambda>_. zero_tally) (vote_rows a e step)"
  by (simp add: vote_buckets_def vote_rows_def comp_def)

lemma update_row:
  assumes "k < length (vote_rows a e step)" "in_row t (vote_rows a e step ! k)"
  shows "(filled T (vote_rows a e step)) [k := (fst (vote_rows a e step ! k), f (T (vote_rows a e step ! k)))] =
    filled (\<lambda>r. if in_row t r then f (T r) else T r) (vote_rows a e step)"
proof (rule nth_equalityI)
  fix i assume i: "i < length ((filled T (vote_rows a e step))
      [k := (fst (vote_rows a e step ! k), f (T (vote_rows a e step ! k)))])"
  then have "i < length (vote_rows a e step)" by simp
  then have "in_row t (vote_rows a e step ! i) \<longleftrightarrow> i = k"
    using vote_chart.row_unique [of i a e step k t] assms by auto
  then show "(filled T (vote_rows a e step))
      [k := (fst (vote_rows a e step ! k), f (T (vote_rows a e step ! k)))] ! i =
    filled (\<lambda>r. if in_row t r then f (T r) else T r) (vote_rows a e step) ! i"
    using i by (simp add: nth_list_update)
qed simp

text \<open>One vote: the base when it was cast by the start, else the one row its time lies in, if any.\<close>

lemma count_vote_spec:
  assumes "0 < step" "timely raw"
  shows "count_vote a step w (base, filled T (vote_rows a e step)) raw =
    (case event_of w raw of
       None \<Rightarrow> Inr (base, filled T (vote_rows a e step))
     | Some ev \<Rightarrow> Inr (if ev_time ev \<le> a then add_tally base (tally_of [ev]) else base,
         filled (\<lambda>r. if in_row (ev_time ev) r then add_tally (T r) (tally_of [ev]) else T r)
           (vote_rows a e step)))"
proof (cases "event_of w raw")
  case None
  with assms(2) show ?thesis
    by (auto simp: count_vote_def event_of_def timely_def split: option.splits if_splits)
next
  case (Some ev)
  let ?R = "vote_rows a e step"
  obtain v where v: "ProposalVote_fromRaw raw = Some v" "starts_with (vote_signal v) ''funding''"
    "vote_time v = Some (ev_time ev)" "ev_outcome ev = vote_outcome v" "ev_weight ev = vote_weight w v"
    using Some by (auto simp: event_of_def split: option.splits if_splits)
  obtain k where k: "bucket_index (Some (ev_time ev)) a step = Fin (of_int k)"
    "a + k * step < ev_time ev" "ev_time ev \<le> a + (k + 1) * step"
    using bucket_index_row [OF assms(1)] by blast
  have tally: "add_outcome (vote_outcome v) (vote_weight w v) t = add_tally t (tally_of [ev])" for t
    by (subst add_outcome_tally) (simp add: tally_of_Cons v)
  have ge: "num_ge (Fin (of_int k)) n \<longleftrightarrow> n \<le> k" and lt: "num_lt (Fin (of_int k)) n \<longleftrightarrow> k < n" for n
    by simp_all
  have row: "in_row (ev_time ev) (?R ! i) \<longleftrightarrow> k = int i" if "i < length ?R" for i
  proof -
    have "in_row (ev_time ev) (?R ! i) \<longleftrightarrow> int i * step < ev_time ev - a \<and> ev_time ev - a \<le> (int i + 1) * step"
      unfolding vote_rows_nth [OF that] by (auto simp: in_row_def)
    also have "\<dots> \<longleftrightarrow> k = int i"
      using ceil_div_iff [OF assms(1), of "ev_time ev - a" k] ceil_div_iff [OF assms(1), of "ev_time ev - a" "int i"]
        k(2,3) by auto
    finally show ?thesis .
  qed
  have early: "ev_time ev \<le> a \<longleftrightarrow> k < 0"
  proof
    assume "ev_time ev \<le> a"
    with k(2) have "k * step < 0" by linarith
    with assms(1) show "k < 0" by (simp add: mult_less_0_iff)
  next
    assume "k < 0"
    then have "(k + 1) * step \<le> 0" using assms(1) by (simp add: mult_le_0_iff)
    with k(3) show "ev_time ev \<le> a" by linarith
  qed
  consider "int (length ?R) \<le> k" | "k < 0" | "0 \<le> k" "k < int (length ?R)" by linarith
  then show ?thesis
  proof cases
    case 1
    then have "\<forall>r \<in> set ?R. \<not> in_row (ev_time ev) r"
      using row unfolding all_set_conv_all_nth by auto
    with 1 show ?thesis using early by (simp add: count_vote_def v(1,2,3) k(1) Some ge)
  next
    case 2
    then have "\<forall>r \<in> set ?R. \<not> in_row (ev_time ev) r"
      using row unfolding all_set_conv_all_nth by auto
    with 2 show ?thesis using early by (simp add: count_vote_def v(1,2,3) k(1) Some ge lt tally)
  next
    case 3
    then have "nat k < length ?R" "in_row (ev_time ev) (?R ! nat k)" using row by auto
    from update_row [OF this, of T "\<lambda>t. add_tally t (tally_of [ev])"] show ?thesis
      using 3 early \<open>nat k < length ?R\<close>
      by (simp add: count_vote_def v(1,2,3) k(1) Some ge lt tally)
  qed
qed

lemma count_votes_spec:
  assumes "0 < step" "\<forall>raw \<in> set raws. timely raw"
  shows "count_votes a step w raws (base, filled T (vote_rows a e step)) =
    Inr (add_tally base (tally_of (filter (\<lambda>ev. ev_time ev \<le> a) (vote_events w raws))),
         filled (\<lambda>r. add_tally (T r) (tally_of (filter (\<lambda>ev. in_row (ev_time ev) r) (vote_events w raws))))
           (vote_rows a e step))"
  using assms(2)
proof (induction raws arbitrary: base T)
  case (Cons raw raws)
  note step = count_vote_spec [OF assms(1), of raw a w base T e]
  show ?case
  proof (cases "event_of w raw")
    case None
    then show ?thesis using Cons step by simp
  next
    case (Some ev)
    show ?thesis
      using Cons.prems step Cons.IH [of _ "\<lambda>r. if in_row (ev_time ev) r then add_tally (T r) (tally_of [ev]) else T r"]
      by (simp add: Some tally_of_Cons add_tally_assoc)
  qed
qed simp

text \<open>The running total over the buckets.\<close>

lemma series_rows_plain:
  "series_rows False acc (filled T rows) =
     map (\<lambda>r. new_SeriesData (J (new_date (Fin (of_int (fst r))))) (J (T r))) rows"
  by (induction rows arbitrary: acc) auto

lemma series_rows_running:
  "chain a rows \<Longrightarrow>
   series_rows True (tally_of (filter (\<lambda>ev. ev_time ev \<le> a) es))
     (filled (\<lambda>r. tally_of (filter (\<lambda>ev. in_row (ev_time ev) r) es)) rows) =
   map (\<lambda>r. new_SeriesData (J (new_date (Fin (of_int (fst r)))))
              (J (tally_of (filter (\<lambda>ev. ev_time ev \<le> snd r) es)))) rows"
proof (induction a rows rule: chain.induct)
  case (2 s a b rs)
  have "add_tally (tally_of (filter (\<lambda>ev. ev_time ev \<le> a) es))
      (tally_of (filter (\<lambda>ev. in_row (ev_time ev) (a, b)) es)) =
    tally_of (filter (\<lambda>ev. ev_time ev \<le> b) es)"
    by (rule tally_split [symmetric]) (use 2 in \<open>auto simp: in_row_def\<close>)
  then show ?case using 2 by simp
qed simp

text \<open>
  Without a running total, the series has one entry for each fixed-step row of the window, and the
  entry sums, outcome by outcome, the weights of the funding votes cast in that row: after its start
  and up to its end. Votes outside the window count nowhere.
\<close>

theorem vote_series_rows:
  assumes "0 < stepMs" "fst (getProtxOutpoint env now s) = Inr m"
    "\<forall>raw \<in> set (redis_hvals env (REDIS_VOTES_KEY_PART @ hash)). timely raw"
  shows "fst (getProposalVoteSeries env now hash startMs endMs stepMs False s) =
    Inr (map (\<lambda>r. new_SeriesData (J (new_date (Fin (of_int (fst r)))))
                   (J (tally_of (filter (\<lambda>ev. in_row (ev_time ev) r)
                      (vote_events (weightMap m) (redis_hvals env (REDIS_VOTES_KEY_PART @ hash)))))))
           (vote_rows startMs endMs stepMs))"
  using assms(2) count_votes_spec [OF assms(1,3)]
  by (auto simp: getProposalVoteSeries_def vote_buckets_filled series_rows_plain Let_def split: prod.splits)

text \<open>
  With a running total, each entry is the weighted tally of every funding vote cast up to the end
  of its row, those before the window included; so the last entry is the tally at the end of the last
  row.
\<close>

theorem vote_series_running:
  assumes "0 < stepMs" "fst (getProtxOutpoint env now s) = Inr m"
    "\<forall>raw \<in> set (redis_hvals env (REDIS_VOTES_KEY_PART @ hash)). timely raw"
  shows "fst (getProposalVoteSeries env now hash startMs endMs stepMs True s) =
    Inr (map (\<lambda>r. new_SeriesData (J (new_date (Fin (of_int (fst r)))))
                   (J (tally_of (filter (\<lambda>ev. ev_time ev \<le> snd r)
                      (vote_events (weightMap m) (redis_hvals env (REDIS_VOTES_KEY_PART @ hash)))))))
           (vote_rows startMs endMs stepMs))"
  using assms(2) count_votes_spec [OF assms(1,3)] series_rows_running [OF vote_chart.chained]
  by (auto simp: getProposalVoteSeries_def vote_buckets_filled Let_def split: prod.splits)

text \<open>
  The buckets of the loop are the rows that \<open>generate_series\<close> with the same step makes, which follow
  one another without gap or overlap; so the entries of the series add up to the tally of the window.
\<close>

theorem vote_rows_partition:
  assumes "0 < stepMs"
  shows "ranges (\<lambda>t. t + stepMs) startMs endMs stepMs = Some (vote_rows startMs endMs stepMs) \<and>
    map fst (vote_buckets startMs endMs stepMs) = map fst (vote_rows startMs endMs stepMs) \<and>
    sum_list (map (row_sum ev_time (outcome_weight o') es) (vote_rows startMs endMs stepMs)) =
      row_sum ev_time (outcome_weight o') es
        (startMs, chain_end startMs (vote_rows startMs endMs stepMs))"
  using assms by (simp add: vote_rows_ranges vote_buckets_filled vote_chart.sum_rows)

text \<open>A step of zero and a vote cast exactly at the start: the index is \<open>NaN\<close> and the request fails.\<close>

lemma count_vote_zero_step:
  assumes "ProposalVote_fromRaw raw = Some v" "starts_with (vote_signal v) ''funding''"
    "vote_time v = Some startMs" "known_outcome (vote_outcome v)"
  shows "count_vote startMs 0 w (base, []) raw = Inl TypeFailure"
  using assms by (simp add: count_vote_def bucket_index_def num_div_def)

section \<open>Sample votes\<close>

definition sample_maps :: outpoint_maps where
  "sample_maps = build_maps [\<lparr>pe_proTxHash = ''m'', pe_collateralHash = ''c'', pe_collateralIndex = 0,
                              pe_type = J ''Evo''\<rparr>]"

lemma sample_protx: "fst (getProtxOutpoint sample_env 0 Map.empty) = Inr sample_maps"
  by (simp add: getProtxOutpoint_def cache_get_def redis_get_def sample_env_def rpc_defs
      callMethod_no_handler sample_maps_def Let_def)

lemma sample_timely: "\<forall>raw \<in> set (redis_hvals sample_env k). timely raw"
  by (simp add: sample_env_def timely_def ProposalVote_fromRaw_print)

theorem vote_series_rows_witness:
  "fst (getProposalVoteSeries sample_env 0 ''h'' 0 10000 5000 False Map.empty) =
    Inr (map (\<lambda>r. new_SeriesData (J (new_date (Fin (of_int (fst r)))))
                   (J (tally_of (filter (\<lambda>ev. in_row (ev_time ev) r)
                      (vote_events (weightMap sample_maps) (redis_hvals sample_env (REDIS_VOTES_KEY_PART @ ''h'')))))))
           (vote_rows 0 10000 5000))"
  by (rule vote_series_rows [OF _ sample_protx sample_timely]) simp

theorem vote_series_running_witness:
  "fst (getProposalVoteSeries sample_env 0 ''h'' 0 10000 5000 True Map.empty) =
    Inr (map (\<lambda>r. new_SeriesData (J (new_date (Fin (of_int (fst r)))))
                   (J (tally_of (filter (\<lambda>ev. ev_time ev \<le> snd r)
                      (vote_events (weightMap sample_maps) (redis_hvals sample_env (REDIS_VOTES_KEY_PART @ ''h'')))))))
           (vote_rows 0 10000 5000))"
  by (rule vote_series_running [OF _ sample_protx sample_timely]) simp

lemma sample_rows: "vote_rows 0 10000 5000 = [(0, 5000), (5000, 10000)]"
  by (simp add: vote_rows_def bucket_froms.simps)

theorem vote_rows_partition_witness:
  "ranges (\<lambda>t. t + 5000) 0 10000 5000 = Some [(0, 5000), (5000, 10000)]"
  using vote_rows_partition [of 5000 0 10000] by (simp add: sample_rows)

end
