(* ===== verification/TransactionModels.thy ===== *)
theory TransactionModels
  imports Sql
begin

text \<open>
  \<open>api/src/models/Transaction.ts\<close>, \<open>VIn.ts\<close> and \<open>VOut.ts\<close>. Scripts, addresses and special payloads
  are decoded by \<open>dash-core-sdk\<close>, a parameter gathered in the record \<open>sdk\<close>; each reader of a script
  or a payload may throw.
\<close>

section \<open>The SDK\<close>

record 'p sdk =
  script_asm :: "string \<Rightarrow> string result"
  script_address :: "string \<Rightarrow> network \<Rightarrow> string option result"
  script_chunks :: "string \<Rightarrow> script_chunk list"
  sha256ripemd160 :: "nat list \<Rightarrow> nat list"
  pkh_to_address :: "nat list \<Rightarrow> network \<Rightarrow> string"
  payload_fromHex :: "TransactionType \<Rightarrow> string \<Rightarrow> 'p result"

section \<open>Inputs\<close>

record VIn =
  vi_sequence :: "int option"
  scriptSigASM :: "string option"
  vi_prevTxHash :: "string option"
  vi_vOutIndex :: "int option"
  vi_address :: "string option"
  vi_amount :: "string option"

record VInRow =
  vir_prev_tx_hash :: "string js"
  vir_prev_vout_index :: "int js"
  vir_address :: "string js"
  vir_amount :: "string js"

definition new_VIn ::
  "int js \<Rightarrow> string js \<Rightarrow> string js \<Rightarrow> int js \<Rightarrow> string js \<Rightarrow> string js \<Rightarrow> VIn" where
  "new_VIn sequence asm prevTxHash vOutIndex address amount =
     \<lparr>vi_sequence = or_null sequence, scriptSigASM = or_null asm, vi_prevTxHash = or_null prevTxHash,
      vi_vOutIndex = or_null vOutIndex, vi_address = or_null address, vi_amount = or_null amount\<rparr>"

definition VIn_fromRow :: "VInRow \<Rightarrow> VIn" where
  "VIn_fromRow r =
     new_VIn JUndef JUndef (vir_prev_tx_hash r) (vir_prev_vout_index r) (vir_address r) (vir_amount r)"

definition VIn_fromRows :: "VInRow list \<Rightarrow> VIn list" where
  "VIn_fromRows rows = map VIn_fromRow rows"

text \<open>\<open>VIn.fromObject(input)\<close> of an input that is already a \<open>VIn\<close>.\<close>

definition VIn_fromObject :: "VIn \<Rightarrow> VIn" where
  "VIn_fromObject i =
     new_VIn (js_of_option (vi_sequence i)) (js_of_option (scriptSigASM i))
       (js_of_option (vi_prevTxHash i)) (js_of_option (vi_vOutIndex i))
       (js_of_option (vi_address i)) (js_of_option (vi_amount i))"

definition VIn_fromObjects :: "VIn list \<Rightarrow> VIn list" where
  "VIn_fromObjects is = map VIn_fromObject is"

section \<open>Outputs\<close>

record VOut =
  vo_value :: "cell option"
  vo_number :: "int option"
  scriptPubKeyASM :: "string option"
  scriptPubKeyHex :: "string option"
  scriptPubKeyType :: "string option"
  vo_address :: "string option"
  vo_addresses :: "string list option"
  spentTxId :: "string option"
  spentIndex :: "int option"
  spentHeight :: "int option"

record VOutRow =
  vor_value :: "cell js"
  vor_vout_index :: "int js"
  vor_script_pub_key :: "string js"
  vor_script_type :: "string js"
  vor_address :: "string js"
  vor_spent_tx_id :: "string js"
  vor_spent_index :: "int js"
  vor_spent_height :: "int js"

definition new_VOut ::
  "cell js \<Rightarrow> int js \<Rightarrow> string js \<Rightarrow> string js \<Rightarrow> string js \<Rightarrow> string js \<Rightarrow> string list js \<Rightarrow>
   string js \<Rightarrow> int js \<Rightarrow> int js \<Rightarrow> VOut" where
  "new_VOut value number asm address hex type' addresses spentTx spentIdx spentAt =
     \<lparr>vo_value = or_null value, vo_number = or_null number, scriptPubKeyASM = or_null asm,
      scriptPubKeyHex = or_null hex, scriptPubKeyType = or_null type', vo_address = or_null address,
      vo_addresses = or_null addresses, spentTxId = or_null spentTx, spentIndex = or_null spentIdx,
      spentHeight = or_null spentAt\<rparr>"

text \<open>
  The script is decoded only when it is present: it supplies the address of a row without one, and the
  addresses of a bare multisig output.
\<close>

definition VOut_fromRow :: "'p sdk \<Rightarrow> network \<Rightarrow> VOutRow \<Rightarrow> VOut result" where
  "VOut_fromRow sdk net r =
     (let resolvedAddress = or_null (vor_address r);
          addresses = map_option (\<lambda>a. [a]) (or_null (vor_address r));
          build = (\<lambda>asm resolved addrs.
            new_VOut (vor_value r) (vor_vout_index r) (js_of_option asm) (js_of_option resolved)
              (vor_script_pub_key r) (vor_script_type r) (js_of_option addrs)
              (vor_spent_tx_id r) (vor_spent_index r) (vor_spent_height r))
      in case or_null (vor_script_pub_key r) of
           None \<Rightarrow> Inr (build None resolvedAddress addresses)
         | Some hex \<Rightarrow>
             bind_result (case resolvedAddress of
                            None \<Rightarrow> script_address sdk hex net | Some a \<Rightarrow> Inr (Some a)) (\<lambda>resolved.
             bind_result (script_asm sdk hex) (\<lambda>asm.
             let addrs =
               (if vor_script_type r = J SCRIPT_TYPE_MULTISIG
                then Some (multisigAddresses (script_chunks sdk) (sha256ripemd160 sdk)
                             (pkh_to_address sdk) net hex)
                else (case (addresses, resolved) of (None, Some a) \<Rightarrow> Some [a] | _ \<Rightarrow> addresses))
             in Inr (build (Some asm) resolved addrs))))"

definition VOut_fromRows :: "'p sdk \<Rightarrow> network \<Rightarrow> VOutRow list \<Rightarrow> VOut list result" where
  "VOut_fromRows sdk net rows = map_result (VOut_fromRow sdk net) rows"

definition VOut_fromObject :: "VOut \<Rightarrow> VOut" where
  "VOut_fromObject o' =
     new_VOut (js_of_option (vo_value o')) (js_of_option (vo_number o'))
       (js_of_option (scriptPubKeyASM o')) (js_of_option (vo_address o'))
       (js_of_option (scriptPubKeyHex o')) (js_of_option (scriptPubKeyType o'))
       (js_of_option (vo_addresses o')) (js_of_option (spentTxId o')) (js_of_option (spentIndex o'))
       (js_of_option (spentHeight o'))"

definition VOut_fromObjects :: "VOut list \<Rightarrow> VOut list" where
  "VOut_fromObjects os = map VOut_fromObject os"

text \<open>Rebuilding an instance from its own fields gives it back.\<close>

lemma VIn_fromObject_id [simp]: "VIn_fromObject i = i"
  by (simp add: VIn_fromObject_def new_VIn_def)

lemma VOut_fromObject_id [simp]: "VOut_fromObject o' = o'"
  by (simp add: VOut_fromObject_def new_VOut_def)

section \<open>Transactions\<close>

record 'p Transaction =
  tr_hash :: "string option"
  tr_type :: "string option"
  tr_blockHeight :: "int option"
  tr_blockHash :: "string option"
  tr_timestamp :: "date option"
  tr_amount :: "string option"
  tr_version :: "int option"
  vIn :: "VIn list option"
  vOut :: "VOut list option"
  tr_confirmations :: "int option"
  instantLock :: "string option"
  chainLocked :: "bool option"
  tr_size :: "int option"
  tr_coinjoin :: "bool option"
  tr_multisig :: "bool option"
  extraPayload :: "'p option"

record TransactionRow =
  trr_hash :: "string js"
  trr_type :: "int js"
  trr_block_height :: "int js"
  trr_block_hash :: "string js"
  trr_timestamp :: "date js"
  trr_confirmations :: "int js"
  trr_instant_lock :: "string js"
  trr_chain_locked :: "bool js"
  trr_version :: "int js"
  trr_size :: "int js"
  trr_inputs :: "VInRow list js"
  trr_outputs :: "VOutRow list js"
  trr_amount :: "string js"
  trr_coinjoin :: "bool js"
  trr_multisig :: "bool js"
  trr_extra_payload :: "string js"

definition new_Transaction ::
  "string js \<Rightarrow> string js \<Rightarrow> int js \<Rightarrow> string js \<Rightarrow> string js \<Rightarrow> int js \<Rightarrow> VIn list js \<Rightarrow> VOut list js \<Rightarrow>
   int js \<Rightarrow> string js \<Rightarrow> date js \<Rightarrow> bool js \<Rightarrow> int js \<Rightarrow> bool js \<Rightarrow> bool js \<Rightarrow> 'p js \<Rightarrow> 'p Transaction" where
  "new_Transaction hash type' height bhash amount version ins outs confs lock ts chain' size' cj ms payload =
     \<lparr>tr_hash = or_null hash, tr_type = or_null type', tr_blockHeight = or_null height,
      tr_blockHash = or_null bhash, tr_timestamp = or_null ts, tr_amount = or_null amount,
      tr_version = or_null version, vIn = or_null ins, vOut = or_null outs,
      tr_confirmations = or_null confs, instantLock = or_null lock, chainLocked = or_null chain',
      tr_size = or_null size', tr_coinjoin = or_null cj, tr_multisig = or_null ms,
      extraPayload = or_null payload\<rparr>"

text \<open>
  The switch on the type: every special type has a reader, a classic transaction or an unknown type
  has none.
\<close>

definition payload_handler :: "'p sdk \<Rightarrow> int js \<Rightarrow> (string \<Rightarrow> 'p result) option" where
  "payload_handler sdk type' =
     (case Option.bind (or_null type') type_of_code of
        None \<Rightarrow> None
      | Some CLASSIC \<Rightarrow> None
      | Some t \<Rightarrow> Some (payload_fromHex sdk t))"

definition Transaction_fromRow :: "'p sdk \<Rightarrow> network \<Rightarrow> TransactionRow \<Rightarrow> 'p Transaction result" where
  "Transaction_fromRow sdk net r =
     bind_result
       (case (or_null (trr_extra_payload r), payload_handler sdk (trr_type r)) of
          (Some hex, Some handler) \<Rightarrow> map_sum id J (handler hex)
        | _ \<Rightarrow> Inr JUndef)
       (\<lambda>normalExtraPayload.
     bind_result
       (case or_null (trr_outputs r) of
          None \<Rightarrow> Inr JNull | Some rows \<Rightarrow> map_sum id J (VOut_fromRows sdk net rows))
       (\<lambda>normalVOut.
        let normalVIn = (case or_null (trr_inputs r) of
                           None \<Rightarrow> JNull | Some rows \<Rightarrow> J (VIn_fromRows rows));
            typeText = (case or_null (trr_type r) of
                          None \<Rightarrow> JNull
                        | Some c \<Rightarrow> (case type_of_code c of None \<Rightarrow> JUndef | Some t \<Rightarrow> J (type_name t)))
        in Inr (new_Transaction (trr_hash r) typeText (trr_block_height r) (trr_block_hash r)
                  (trr_amount r) (trr_version r) normalVIn normalVOut (trr_confirmations r)
                  (trr_instant_lock r) (trr_timestamp r) (trr_chain_locked r) (trr_size r)
                  (trr_coinjoin r) (trr_multisig r) normalExtraPayload)))"

section \<open>Transactions from objects\<close>

text \<open>
  \<open>fromObject\<close> takes inputs and outputs that are instances already, or the objects of a node's reply,
  whose scripts it decodes; a missing script reads as the empty one.
\<close>

record raw_vin =
  rvi_prev_tx_hash :: "string js"
  rvi_prev_vout :: "int js"
  rvi_scriptSig_hex :: "string js"
  rvi_sequence :: "int js"
  rvi_amount :: "string js"

record raw_vout =
  rvo_valueSat :: "int js"
  rvo_n :: "int js"
  rvo_scriptPubKey_hex :: "string js"

datatype vin_object = VInInstance VIn | VInRaw raw_vin
datatype vout_object = VOutInstance VOut | VOutRaw raw_vout

fun normal_vin :: "'p sdk \<Rightarrow> vin_object \<Rightarrow> VIn result" where
  "normal_vin sdk (VInInstance i) = Inr (VIn_fromObject i)"
| "normal_vin sdk (VInRaw r) =
     bind_result (script_asm sdk (coalesce (rvi_scriptSig_hex r) [])) (\<lambda>asm.
       Inr (new_VIn (rvi_sequence r) (J asm) (rvi_prev_tx_hash r) (rvi_prev_vout r) JUndef (rvi_amount r)))"

fun normal_vout :: "'p sdk \<Rightarrow> vout_object \<Rightarrow> VOut result" where
  "normal_vout sdk (VOutInstance o') = Inr (VOut_fromObject o')"
| "normal_vout sdk (VOutRaw r) =
     bind_result (script_asm sdk (coalesce (rvo_scriptPubKey_hex r) [])) (\<lambda>asm.
       Inr (new_VOut (case or_null (rvo_valueSat r) of None \<Rightarrow> JUndef | Some v \<Rightarrow> J (CStr (dec_int v)))
              (rvo_n r) (J asm) JUndef JUndef JUndef JUndef JUndef JUndef JUndef))"

definition Transaction_fromObject ::
  "'p sdk \<Rightarrow> string js \<Rightarrow> string js \<Rightarrow> int js \<Rightarrow> string js \<Rightarrow> string js \<Rightarrow> int js \<Rightarrow> vin_object list js \<Rightarrow>
   vout_object list js \<Rightarrow> int js \<Rightarrow> string js \<Rightarrow> date js \<Rightarrow> bool js \<Rightarrow> int js \<Rightarrow> bool js \<Rightarrow> bool js \<Rightarrow> 'p js \<Rightarrow>
   'p Transaction result" where
  "Transaction_fromObject sdk hash type' height bhash amount version ins outs confs lock ts chain' size'
     cj ms payload =
     bind_result (case or_null ins of
                    None \<Rightarrow> Inr JUndef | Some is \<Rightarrow> map_sum id J (map_result (normal_vin sdk) is)) (\<lambda>nin.
     bind_result (case or_null outs of
                    None \<Rightarrow> Inr JUndef | Some os \<Rightarrow> map_sum id J (map_result (normal_vout sdk) os)) (\<lambda>nout.
     Inr (new_Transaction hash type' height bhash amount version nin nout confs lock ts chain' size'
            cj ms payload)))"

lemmas transaction_defs = Transaction_fromRow_def new_Transaction_def

text \<open>The fields a listing is ordered and paged by survive the conversion.\<close>

lemma Transaction_fromRow_keys:
  "Transaction_fromRow sdk net r = Inr t \<Longrightarrow>
   tr_hash t = or_null (trr_hash r) \<and> tr_blockHeight t = or_null (trr_block_height r) \<and>
   tr_confirmations t = or_null (trr_confirmations r)"
  by (auto simp: transaction_defs bind_result_Inr_iff Let_def)

text \<open>A row without scripts and without a payload is converted without failure.\<close>

lemma Transaction_fromRow_plain:
  "or_null (trr_extra_payload r) = None \<Longrightarrow> or_null (trr_outputs r) = None \<Longrightarrow>
   \<exists>t. Transaction_fromRow sdk net r = Inr t"
  by (simp add: Transaction_fromRow_def Let_def)

end
