(* ===== verification/Http.thy ===== *)
theory Http
  imports BucketSeries
begin

text \<open>
  What a request handler produces: a reply with a status, or an exception that the error handler of
  \<open>api/src/server.ts\<close> turns into one. The time window of the chart endpoints is here too, since every
  controller reads it in the same way.
\<close>

section \<open>Replies\<close>

datatype 'a reply = Sent int 'a | Refused int string

text \<open>The error handler. Every exception has a branch, so every request gets a reply.\<close>

definition backend_message :: string where "backend_message = ''Dashcore backend is not available''"

fun errorHandler :: "api_error \<Rightarrow> 'a reply" where
  "errorHandler (ServiceNotAvailable code) = Refused 503 backend_message"
| "errorHandler (MarketDataUnavailable msg) = Refused 503 msg"
| "errorHandler (InvalidXpub msg) = Refused 400 msg"
| "errorHandler (InvalidCursor msg) = Refused 400 msg"
| "errorHandler (FastifyFailure statusCode msg) =
     (if statusCode \<ge> 400 \<and> statusCode < 500 then Refused statusCode msg else Refused 500 msg)"
| "errorHandler (PlainError msg) = Refused 500 msg"
| "errorHandler TypeFailure = Refused 500 ''TypeError''"
| "errorHandler QueryFailure = Refused 500 ''QueryError''"

definition respond :: "'a reply result \<Rightarrow> 'a reply" where
  "respond r = (case r of Inl e \<Rightarrow> errorHandler e | Inr reply \<Rightarrow> reply)"

fun status_of :: "'a reply \<Rightarrow> int" where
  "status_of (Sent s _) = s"
| "status_of (Refused s _) = s"

definition client_error :: "api_error \<Rightarrow> bool" where
  "client_error e =
     (case e of
        InvalidXpub _ \<Rightarrow> True | InvalidCursor _ \<Rightarrow> True
      | FastifyFailure s _ \<Rightarrow> 400 \<le> s \<and> s < 500 | _ \<Rightarrow> False)"

lemma errorHandler_status:
  "400 \<le> status_of (errorHandler e :: 'a reply) \<and> status_of (errorHandler e :: 'a reply) < 600"
  by (cases e) auto

lemma errorHandler_client:
  "status_of (errorHandler e :: 'a reply) < 500 \<longleftrightarrow> client_error e"
  by (cases e) (auto simp: client_error_def)

section \<open>Time windows\<close>

text \<open>
  \<open>timestamp_start\<close> and \<open>timestamp_end\<close> with their defaults; an explicit \<open>null\<close> reads as the epoch.
  The schema admits only date-time strings, so their reading is a total function, \<open>parse\<close>.
\<close>

record time_query =
  tq_start :: "string js"
  tq_end :: "string js"
  tq_count :: "rat js"

fun instant_of :: "(string \<Rightarrow> int) \<Rightarrow> int \<Rightarrow> string js \<Rightarrow> int" where
  "instant_of parse dflt JUndef = dflt"
| "instant_of parse dflt JNull = 0"
| "instant_of parse dflt (J s) = parse s"

definition window_of :: "(string \<Rightarrow> int) \<Rightarrow> int \<Rightarrow> int \<Rightarrow> time_query \<Rightarrow> int \<times> int" where
  "window_of parse now period q =
     (instant_of parse (now - period) (tq_start q), instant_of parse now (tq_end q))"

definition window_message :: string where
  "window_message = ''start timestamp cannot be more than end timestamp''"

text \<open>
  The common shape of a chart handler: refuse a reversed window, choose the step, run the query.
  A step of \<open>None\<close> milliseconds, a preset name missing from the table, would shift the series to an
  invalid date.
\<close>

definition chart_handler ::
  "(string \<Rightarrow> int) \<Rightarrow> int \<Rightarrow> int \<Rightarrow> (int \<Rightarrow> int \<Rightarrow> string \<Rightarrow> int \<Rightarrow> 'a result) \<Rightarrow> time_query \<Rightarrow> 'a reply result" where
  "chart_handler parse now period query q =
     (let (start, end') = window_of parse now period q in
      if start > end' then Inr (Refused 400 window_message)
      else (case chart_interval start end' (or_null (tq_count q)) of
              (interval, Some ms) \<Rightarrow> map_sum id (Sent 200) (query start end' interval ms)
            | (_, None) \<Rightarrow> Inl (PlainError ''Invalid time value'')))"

lemma chart_interval_ms:
  "\<exists>ms. snd (chart_interval start end' cnt) = Some ms"
  using calculateInterval_preset by (auto simp: chart_interval_def Let_def split: option.splits)

text \<open>A handler that runs its query always has a step, positive unless an empty window is divided.\<close>

lemma chart_handler_query:
  assumes "chart_handler parse now period query q = Inr (Sent 200 x)"
  obtains start end' interval ms where
    "(start, end') = window_of parse now period q" "start \<le> end'"
    "chart_interval start end' (or_null (tq_count q)) = (interval, Some ms)"
    "query start end' interval ms = Inr x"
  using assms
  by (cases "query (fst (window_of parse now period q)) (snd (window_of parse now period q))
        (fst (chart_interval (fst (window_of parse now period q)) (snd (window_of parse now period q)) (or_null (tq_count q))))
        (the (snd (chart_interval (fst (window_of parse now period q)) (snd (window_of parse now period q)) (or_null (tq_count q)))))")
     (auto simp: chart_handler_def Let_def not_less split: prod.splits if_splits option.splits)

section \<open>Pages\<close>

text \<open>
  \<open>page = 1\<close> and \<open>limit = 10\<close> replace parameters that are left out. A parameter that is present but
  empty, which the schema reads as \<open>null\<close>, is outside the model.
\<close>

definition page_and_limit :: "int option \<Rightarrow> int option \<Rightarrow> int \<times> int" where
  "page_and_limit page limit = (or_else page 1, or_else limit 10)"

end
