(* ===== verification/Database.thy ===== *)
theory Database
  imports TransactionModels Http
begin

text \<open>
  The tables the API reads, as the migrations of \<open>indexer/migrations\<close> leave them, each a list of rows.
  A timestamp is a number of milliseconds, a \<open>bigint\<close> a string for the driver. The statement of what
  the indexer keeps true of the tables, \<open>keyed\<close>, is the primary and unique keys.
\<close>

record block_row =
  b_height :: int
  b_hash :: "string option"
  b_version :: int
  b_timestamp :: int
  b_tx_count :: int
  b_size :: int
  b_credit_pool_balance :: "rat option"
  b_difficulty :: rat
  b_merkle_root :: string
  b_previous_block_hash :: "string option"
  b_nonce :: "nat option"
  b_superblock :: bool

record tx_row =
  t_id :: int
  t_hash :: string
  t_type :: int
  t_block_height :: "int option"
  t_version :: "int option"
  t_size :: "int option"
  t_is_coinbase :: bool
  t_instant_lock :: "string option"
  t_chain_locked :: bool
  t_amount :: "int option"
  t_coinjoin :: bool
  t_multisig :: bool

record input_row =
  i_tx_id :: int
  i_vin_index :: int
  i_prev_tx_hash :: "string option"
  i_prev_vout_index :: "int option"
  i_address_id :: "int option"
  i_amount :: "int option"

record output_row =
  o_tx_id :: int
  o_vout_index :: int
  o_value :: int
  o_script_pub_key :: "string option"
  o_script_type :: "string option"
  o_address_id :: "int option"
  o_spent_by_tx_id :: "int option"
  o_spent_by_vin_index :: "int option"

record address_row =
  a_id :: int
  a_address :: string
  a_first_seen_tx_id :: "int option"
  a_first_seen_block :: "int option"
  a_last_seen_tx_id :: "int option"
  a_last_seen_block :: "int option"
  a_received :: int
  a_sent :: int
  a_tx_count :: int

record address_tx_row =
  at_address_id :: int
  at_tx_id :: int
  at_block_height :: int

record special_row =
  sp_tx_id :: int
  sp_payload :: string

record utxo_row =
  u_tx_id :: int
  u_vout_index :: int
  u_address_id :: "int option"
  u_amount :: int

record balance_row =
  bl_address_id :: int
  bl_balance :: int

record activity_row =
  act_day :: int
  act_address_id :: int
  act_tx_count :: int

record delta_row =
  dl_address_id :: int
  dl_day :: int
  dl_received :: int
  dl_sent :: int

record hourly_row =
  h_hour :: int
  h_special :: int
  h_coinjoin :: int
  h_multisig :: int
  h_normal :: int

record type_count_row =
  tc_type :: int
  tc_coinjoin :: bool
  tc_multisig :: bool
  tc_count :: int

record db =
  db_blocks :: "block_row list"
  db_transactions :: "tx_row list"
  db_inputs :: "input_row list"
  db_outputs :: "output_row list"
  db_addresses :: "address_row list"
  db_address_transactions :: "address_tx_row list"
  db_special :: "special_row list"
  db_utxo :: "utxo_row list"
  db_balances :: "balance_row list"
  db_activity :: "activity_row list"
  db_activity_weekly :: "activity_row list"
  db_deltas :: "delta_row list"
  db_hourly :: "hourly_row list"
  db_type_counts :: "type_count_row list"
  db_masternodes :: "MasternodeRow list"
  db_reltuples :: "string \<Rightarrow> int"

section \<open>Keys\<close>

definition keyed :: "db \<Rightarrow> bool" where
  "keyed d \<longleftrightarrow>
     distinct (map b_height (db_blocks d)) \<and>
     distinct (map t_id (db_transactions d)) \<and> distinct (map t_hash (db_transactions d)) \<and>
     distinct (map a_id (db_addresses d)) \<and> distinct (map a_address (db_addresses d)) \<and>
     distinct (map (\<lambda>r. (at_address_id r, at_tx_id r)) (db_address_transactions d)) \<and>
     distinct (map h_hour (db_hourly d)) \<and>
     distinct (map (\<lambda>r. (tc_type r, tc_coinjoin r, tc_multisig r)) (db_type_counts d))"

section \<open>Lookups by a unique key\<close>

text \<open>A \<open>LEFT JOIN\<close> on a unique key is a lookup.\<close>

definition block_at :: "db \<Rightarrow> int \<Rightarrow> block_row option" where
  "block_at d h = find (\<lambda>b. b_height b = h) (db_blocks d)"

definition tx_by_id :: "db \<Rightarrow> int \<Rightarrow> tx_row option" where
  "tx_by_id d i = find (\<lambda>t. t_id t = i) (db_transactions d)"

definition address_by_id :: "db \<Rightarrow> int \<Rightarrow> address_row option" where
  "address_by_id d i = find (\<lambda>a. a_id a = i) (db_addresses d)"

definition address_id :: "db \<Rightarrow> string \<Rightarrow> int option" where
  "address_id d address = map_option a_id (find (\<lambda>a. a_address a = address) (db_addresses d))"

text \<open>\<open>MAX(height)\<close>: \<open>NULL\<close> on an empty table.\<close>

definition max_height :: "db \<Rightarrow> int option" where
  "max_height d = (case db_blocks d of [] \<Rightarrow> None | bs \<Rightarrow> Some (Max (set (map b_height bs))))"

lemma max_height_Some:
  "max_height d = Some m \<longleftrightarrow> m \<in> b_height ` set (db_blocks d) \<and> (\<forall>b \<in> set (db_blocks d). b_height b \<le> m)"
proof (cases "db_blocks d")
  case (Cons b bs)
  have fin: "finite (b_height ` set (db_blocks d))" "b_height ` set (db_blocks d) \<noteq> {}"
    using Cons by simp_all
  have "max_height d = Some (Max (b_height ` set (db_blocks d)))"
    using Cons by (simp add: max_height_def)
  with Max_eq_iff [OF fin, of m] show ?thesis by auto
qed (simp add: max_height_def)

lemma find_key:
  "distinct (map f xs) \<Longrightarrow> x \<in> set xs \<Longrightarrow> find (\<lambda>y. f y = f x) xs = Some x"
  by (induction xs) (auto simp: image_iff)

lemma find_SomeD: "find P xs = Some x \<Longrightarrow> x \<in> set xs \<and> P x"
  by (induction xs) (auto split: if_splits)

text \<open>\<open>max_height - block_height + 1\<close>, \<open>NULL\<close> when either is.\<close>

definition confirmations_of :: "db \<Rightarrow> int option \<Rightarrow> int js" where
  "confirmations_of d h =
     (case (max_height d, h) of (Some m, Some h) \<Rightarrow> J (m - h + 1) | _ \<Rightarrow> JNull)"

lemma confirmations_pos:
  "b \<in> set (db_blocks d) \<Longrightarrow> \<exists>n. confirmations_of d (Some (b_height b)) = J n \<and> 1 \<le> n"
proof -
  assume b: "b \<in> set (db_blocks d)"
  then obtain m where m: "max_height d = Some m"
    by (cases "max_height d") (auto simp: max_height_def split: list.splits)
  with b have "b_height b \<le> m" by (auto simp: max_height_Some)
  with m show ?thesis by (simp add: confirmations_of_def)
qed

definition bigint :: "int \<Rightarrow> cell" where
  "bigint v = CStr (dec_int v)"

lemma js_Number_bigint:
  "of_nat n < double_limit \<Longrightarrow> js_Number (J (bigint (int n))) = Fin (of_nat n)"
  by (simp add: bigint_def js_number_dec_nat dec_int_def)

end
