(* ===== verification/Blocks.thy ===== *)
theory Blocks
  imports Database DashcoreRPC
begin

text \<open>
  \<open>api/src/dao/BlocksDAO.ts\<close>, \<open>api/src/models/ChainStats.ts\<close>, \<open>api/src/controllers/BlocksController.ts\<close>
  and \<open>MainController.ts\<close>. The lemmas relate the chain statistics to the most recent blocks by height,
  the listing to the ordered table, and the chart to averages over half-open intervals.
\<close>

section \<open>Listing blocks\<close>

text \<open>The columns of a block, with its confirmations where the query computes them.\<close>

definition block_columns :: "db \<Rightarrow> block_row \<Rightarrow> BlockRow" where
  "block_columns d b =
     \<lparr>br_height = J (b_height b), br_hash = js_of_option (b_hash b), br_version = J (b_version b),
      br_timestamp = J (Some (b_timestamp b)), br_tx_count = J (b_tx_count b),
      br_size = J (b_size b), br_credit_pool_balance = js_of_option (b_credit_pool_balance b),
      br_difficulty = J (b_difficulty b), br_merkle_root = J (b_merkle_root b),
      br_previous_block_hash = js_of_option (b_previous_block_hash b),
      br_nonce = js_of_option (map_option (\<lambda>n. bigint (int n)) (b_nonce b)),
      br_confirmations = confirmations_of d (Some (b_height b)), br_superblock = J (b_superblock b)\<rparr>"

definition superblock_filter :: "bool js \<Rightarrow> block_row list \<Rightarrow> block_row list" where
  "superblock_filter superblock bs = when_given superblock (\<lambda>v b. b_superblock b = v) bs"

definition getBlocks ::
  "db \<Rightarrow> int \<Rightarrow> int \<Rightarrow> string js \<Rightarrow> bool js \<Rightarrow> Block PaginatedResultSet result" where
  "getBlocks d page limit order superblock =
     (let fromRank = (page - 1) * limit;
          total_count = (if superblock = J True
                         then bigint (int (length (filter b_superblock (db_blocks d))))
                         else bigint (db_reltuples d ''blocks''));
          ordered = order_by (js_dir order) (\<lambda>b. Some (b_height b))
                      (superblock_filter superblock (db_blocks d))
      in bind_result (limit_offset limit fromRank ordered) (\<lambda>rows.
           Inr (new_PaginatedResultSet (map (\<lambda>b. Block_fromRow (block_columns d b)) rows) page
                  (Fin (of_int limit)) (if rows = [] then JUndef else J total_count))))"

definition getBlockByHash :: "db \<Rightarrow> string \<Rightarrow> Block option" where
  "getBlockByHash d hash =
     map_option (\<lambda>b. Block_fromRow (block_columns d b))
       (find (\<lambda>b. b_hash b = Some hash) (db_blocks d))"

lemma getBlocks_page:
  "1 \<le> page \<Longrightarrow>
   getBlocks d (int page) (int limit) order superblock =
     (let rows = page_of page limit (order_by (js_dir order) (\<lambda>b. Some (b_height b))
                   (superblock_filter superblock (db_blocks d)))
      in Inr (new_PaginatedResultSet (map (\<lambda>b. Block_fromRow (block_columns d b)) rows) (int page)
                (Fin (of_nat limit))
                (if rows = [] then JUndef
                 else J (if superblock = J True
                         then bigint (int (length (filter b_superblock (db_blocks d))))
                         else bigint (db_reltuples d ''blocks'')))))"
  by (simp add: getBlocks_def limit_offset_page Let_def)

section \<open>Chain statistics\<close>

record ChainStats =
  cs_chain :: "string option"
  cs_sizeOnDisk :: "int option"
  cs_difficulty :: "rat option"
  cs_blockTime :: "int option"
  cs_transactionsPerSecond :: "rat option"
  cs_transactionsPerMinute :: "rat option"
  cs_latestHeight :: "int option"
  cs_hashRate :: "string option"
  cs_mempoolSize :: "int option"
  cs_latestSuperblockHeight :: "int option"
  cs_nextSuperblockHeight :: "int option"

record ChainStatsRow =
  cr_latest_height :: "int option"
  cr_last_timestamp :: "int option"
  cr_first_timestamp :: "int option"
  cr_bt_first_timestamp :: "int option"
  cr_bt_tx_count :: "int option"
  cr_bt_sample_size :: "int option"
  cr_work_sum :: "rat option"
  cr_mempool_size :: "int option"
  cr_latest_superblock_height :: "int option"

definition new_ChainStats ::
  "string js \<Rightarrow> int js \<Rightarrow> rat js \<Rightarrow> int js \<Rightarrow> rat js \<Rightarrow> rat js \<Rightarrow> int js \<Rightarrow> string js \<Rightarrow> int js \<Rightarrow> int js \<Rightarrow>
   int js \<Rightarrow> ChainStats" where
  "new_ChainStats chain' sizeOnDisk difficulty blockTime tps tpm latestHeight hashRate mempool lsb nsb =
     \<lparr>cs_chain = or_null chain', cs_sizeOnDisk = or_null sizeOnDisk,
      cs_difficulty = or_null difficulty, cs_blockTime = or_null blockTime,
      cs_transactionsPerSecond = or_null tps, cs_transactionsPerMinute = or_null tpm,
      cs_latestHeight = or_null latestHeight, cs_hashRate = or_null hashRate,
      cs_mempoolSize = or_null mempool, cs_latestSuperblockHeight = or_null lsb,
      cs_nextSuperblockHeight = or_null nsb\<rparr>"

text \<open>\<open>Number(x.toFixed(2))\<close>: the nearest hundredth, the larger one of two.\<close>

definition round2 :: "rat \<Rightarrow> rat" where
  "round2 x = of_int \<lfloor>x * 100 + 1 / 2\<rfloor> / 100"

definition if_pos :: "bool \<Rightarrow> 'a \<Rightarrow> 'a js" where
  "if_pos b x = (if b then J x else JUndef)"

definition ChainStats_fromRow :: "ChainStatsRow option \<Rightarrow> ChainStats" where
  "ChainStats_fromRow row' =
     (case row' of
        None \<Rightarrow> new_ChainStats JUndef JUndef JUndef JUndef JUndef JUndef JUndef JUndef JUndef JUndef JUndef
      | Some row \<Rightarrow>
        (let lastTs = cr_last_timestamp row; firstTs = cr_first_timestamp row;
             btFirstTs = cr_bt_first_timestamp row;
             btSampleSize = or_else (cr_bt_sample_size row) 0;
             btTimeSpanMSec = (case (lastTs, btFirstTs) of (Some l, Some f) \<Rightarrow> l - f | _ \<Rightarrow> 0);
             btTimeSpanSec = (of_int btTimeSpanMSec / 1000 :: rat);
             blockTime = if_pos (btSampleSize > 1) (btTimeSpanMSec div (btSampleSize - 1));
             txCount = or_else (cr_bt_tx_count row) 0;
             perSecond = if_pos (btTimeSpanSec > 0) (round2 (of_int txCount / btTimeSpanSec));
             perMinute = if_pos (btTimeSpanSec > 0) (round2 (of_int txCount / (btTimeSpanSec / 60)));
             hrTimeSpanMs = (case (lastTs, firstTs) of (Some l, Some f) \<Rightarrow> l - f | _ \<Rightarrow> 0);
             difficultySum = or_else (cr_work_sum row) 0;
             hashRate = if_pos (hrTimeSpanMs > 0 \<and> difficultySum > 0)
                          (dec_int ((\<lfloor>difficultySum\<rfloor> * 2 ^ 32 * 1000) div hrTimeSpanMs))
         in new_ChainStats JUndef JUndef JUndef blockTime perSecond perMinute
              (js_of_option (cr_latest_height row)) hashRate (js_of_option (cr_mempool_size row))
              (J (or_else (cr_latest_superblock_height row) 0)) JUndef))"

text \<open>\<open>ChainStats.fromObject({...stats, \<dots>})\<close>, with the fields that are replaced.\<close>

definition ChainStats_with_next :: "ChainStats \<Rightarrow> int \<Rightarrow> ChainStats" where
  "ChainStats_with_next s next' =
     new_ChainStats (js_of_option (cs_chain s)) (js_of_option (cs_sizeOnDisk s))
       (js_of_option (cs_difficulty s)) (js_of_option (cs_blockTime s))
       (js_of_option (cs_transactionsPerSecond s)) (js_of_option (cs_transactionsPerMinute s))
       (js_of_option (cs_latestHeight s)) (js_of_option (cs_hashRate s))
       (js_of_option (cs_mempoolSize s)) (js_of_option (cs_latestSuperblockHeight s)) (J next')"

definition ChainStats_with_info :: "ChainStats \<Rightarrow> string js \<Rightarrow> int js \<Rightarrow> rat js \<Rightarrow> ChainStats" where
  "ChainStats_with_info s chain' sizeOnDisk difficulty =
     new_ChainStats chain' sizeOnDisk difficulty (js_of_option (cs_blockTime s))
       (js_of_option (cs_transactionsPerSecond s)) (js_of_option (cs_transactionsPerMinute s))
       (js_of_option (cs_latestHeight s)) (js_of_option (cs_hashRate s))
       (js_of_option (cs_mempoolSize s)) (js_of_option (cs_latestSuperblockHeight s))
       (js_of_option (cs_nextSuperblockHeight s))"

text \<open>
  The query: the newest blocks by height, numbered from 1, and aggregates over them. Aggregates of no
  rows are \<open>NULL\<close>, and \<open>LEAST\<close> passes over \<open>NULL\<close>.
\<close>

definition recent_blocks :: "db \<Rightarrow> nat \<Rightarrow> block_row list" where
  "recent_blocks d n = take n (order_by Desc (\<lambda>b. Some (b_height b)) (db_blocks d))"

definition nth_timestamp :: "block_row list \<Rightarrow> nat \<Rightarrow> int option" where
  "nth_timestamp bs i = (if i < length bs then Some (b_timestamp (bs ! i)) else None)"

definition chain_stats_row :: "db \<Rightarrow> nat \<Rightarrow> nat \<Rightarrow> ChainStatsRow" where
  "chain_stats_row d blocksForHashRate blocksForBlockTime =
     (let recent = recent_blocks d blocksForHashRate;
          k = min blocksForBlockTime (length recent)
      in \<lparr>cr_latest_height = map_option b_height (first recent),
          cr_last_timestamp = nth_timestamp recent 0,
          cr_first_timestamp = nth_timestamp recent (length recent - 1),
          cr_bt_first_timestamp = (if k = 0 then None else nth_timestamp recent (k - 1)),
          cr_bt_tx_count =
            (if recent = [] then None
             else Some (sum_list (map b_tx_count (take blocksForBlockTime recent)))),
          cr_bt_sample_size =
            Some (if recent = [] then int blocksForBlockTime else int k),
          cr_work_sum = (if recent = [] then None else Some (sum_list (map b_difficulty recent))),
          cr_mempool_size =
            Some (int (length (filter (\<lambda>t. t_block_height t = None) (db_transactions d)))),
          cr_latest_superblock_height =
            map_option b_height
              (first (order_by Desc (\<lambda>b. Some (b_height b)) (filter b_superblock (db_blocks d))))\<rparr>)"

definition getChainStats :: "network \<Rightarrow> db \<Rightarrow> nat \<Rightarrow> nat \<Rightarrow> ChainStats" where
  "getChainStats net d blocksForHashRate blocksForBlockTime =
     (let row = chain_stats_row d blocksForHashRate blocksForBlockTime;
          stats = ChainStats_fromRow (Some row);
          nextSuperblockHeight =
            or_else (cr_latest_superblock_height row) 0 + SUPERBLOCK_INTERVALS (chain_of net)
      in ChainStats_with_next stats nextSuperblockHeight)"

lemma ChainStats_with_next_simp: "ChainStats_with_next s n = s\<lparr>cs_nextSuperblockHeight := Some n\<rparr>"
  by (simp add: ChainStats_with_next_def new_ChainStats_def)

lemma first_conv: "first xs = (if xs = [] then None else Some (hd xs))"
  by (cases xs) auto

lemma hd_order_by_desc:
  assumes "xs \<noteq> []" "x \<in> set xs"
  shows "f x \<le> (f (hd (order_by Desc (\<lambda>b. Some (f b)) xs)) :: int)"
proof (cases "order_by Desc (\<lambda>b. Some (f b)) xs")
  case (Cons y ys)
  have "sorted_wrt (\<lambda>a b. f b \<le> f a) (y # ys)"
    using sorted_order_by_desc [of xs "\<lambda>b. Some (f b)" f] by (simp add: Cons)
  moreover have "x \<in> set (y # ys)" using assms(2) by (metis Cons set_order_by)
  ultimately show ?thesis by (auto simp: Cons)
qed (use assms in auto)

text \<open>The head of a listing from the top is the highest element.\<close>

lemma first_order_by_desc:
  "first (order_by Desc (\<lambda>b. Some (f b)) xs) = Some y \<Longrightarrow> y \<in> set xs \<and> (\<forall>x \<in> set xs. f x \<le> f y)"
  using hd_order_by_desc [of xs _ f] hd_in_set [of "order_by Desc (\<lambda>b. Some (f b)) xs"]
  by (auto simp: first_conv split: if_splits)

section \<open>The chart of transactions per block\<close>

definition average :: "rat list \<Rightarrow> rat option" where
  "average xs = (if xs = [] then None else Some (sum_list xs / of_nat (length xs)))"

definition getTxCountStats ::
  "(string \<Rightarrow> int \<Rightarrow> int) \<Rightarrow> db \<Rightarrow> int \<Rightarrow> int \<Rightarrow> string \<Rightarrow> int \<Rightarrow> rat SeriesData list result" where
  "getTxCountStats pg_add d start end' interval intervalInMs =
     (case ranges (pg_add interval) start end' intervalInMs of
        None \<Rightarrow> Inl QueryFailure
      | Some rows \<Rightarrow>
          Inr (map (\<lambda>r. new_SeriesData (J (Some (fst r)))
                 (J (round2 (or_else (average (map (\<lambda>b. of_int (b_tx_count b))
                      (filter (\<lambda>b. in_row (b_timestamp b) r) (db_blocks d)))) 0)))) rows))"

section \<open>Controllers\<close>

record blocks_request =
  bq_page :: "int option"
  bq_limit :: "int option"
  bq_order :: "string js"
  bq_superblock :: "bool js"

definition blocks_handler :: "db \<Rightarrow> blocks_request \<Rightarrow> Block PaginatedResultSet reply result" where
  "blocks_handler d q =
     (let (page, limit) = page_and_limit (bq_page q) (bq_limit q) in
      map_sum id (Sent 200)
        (getBlocks d page limit (defaulted (bq_order q) ''asc'') (bq_superblock q)))"

definition blocks_chart_handler ::
  "(string \<Rightarrow> int) \<Rightarrow> (string \<Rightarrow> int \<Rightarrow> int) \<Rightarrow> db \<Rightarrow> int \<Rightarrow> time_query \<Rightarrow> rat SeriesData list reply result" where
  "blocks_chart_handler parse pg_add d now q =
     chart_handler parse now 3600000 (getTxCountStats pg_add d) q"

definition block_handler :: "db \<Rightarrow> string \<Rightarrow> Block reply result" where
  "block_handler d hash =
     (case getBlockByHash d hash of
        None \<Rightarrow> Inr (Refused 404 ''Block not found'')
      | Some b \<Rightarrow> Inr (Sent 200 b))"

datatype status_text = StatusOk | StatusSyncing | StatusError

text \<open>
  \<open>STATUS_CHECK_HEIGHT_GAP\<close> is read from the environment, 1 when it is not set. Every failure of the
  handler is caught and answered with 500. The height of a block row is never \<open>null\<close>.
\<close>

definition status_handler :: "int rpc_method \<Rightarrow> db \<Rightarrow> int option \<Rightarrow> status_text reply" where
  "status_handler node d gap =
     (case bind_result (getBlockCount node) (\<lambda>networkHeight.
           bind_result (getBlocks d 1 1 (J ''desc'') JUndef) (\<lambda>blocks.
             Inr (case first (resultSet blocks) of
                    None \<Rightarrow> Sent 503 StatusSyncing
                  | Some block \<Rightarrow>
                      if networkHeight - or_else (bk_height block) 0 > or_else gap 1
                      then Sent 503 StatusSyncing else Sent 200 StatusOk))) of
        Inl e \<Rightarrow> Sent 500 StatusError
      | Inr reply \<Rightarrow> reply)"

record chain_info =
  ci_chain :: string
  ci_size_on_disk :: int
  ci_difficulty :: rat

definition chain_stats_handler :: "network \<Rightarrow> chain_info rpc_method \<Rightarrow> db \<Rightarrow> ChainStats reply result" where
  "chain_stats_handler net node d =
     bind_result (getChainInfo node) (\<lambda>info.
       Inr (Sent 200 (ChainStats_with_info (getChainStats net d 120 20) (J (ci_chain info))
                        (J (ci_size_on_disk info)) (J (ci_difficulty info)))))"

section \<open>What the replies say\<close>

text \<open>
  Walking the pages of the block list from the first one on shows every block that passes the
  superblock filter exactly once, in the order of their heights.
\<close>

theorem getBlocks_all_pages:
  assumes "length (superblock_filter superblock (db_blocks d)) \<le> n * limit"
  shows "concat (map (\<lambda>p. resultSet (projr (getBlocks d (int p) (int limit) order superblock))) [1..<Suc n]) =
    map (\<lambda>b. Block_fromRow (block_columns d b))
      (order_by (js_dir order) (\<lambda>b. Some (b_height b)) (superblock_filter superblock (db_blocks d)))"
proof -
  let ?all = "order_by (js_dir order) (\<lambda>b. Some (b_height b)) (superblock_filter superblock (db_blocks d))"
  have "map (\<lambda>p. resultSet (projr (getBlocks d (int p) (int limit) order superblock))) [1..<Suc n] =
        map (\<lambda>p. map (\<lambda>b. Block_fromRow (block_columns d b)) (page_of p limit ?all)) [1..<Suc n]"
    by (rule map_cong [OF refl]) (auto simp: getBlocks_page new_PaginatedResultSet_def Let_def)
  also have "concat \<dots> = map (\<lambda>b. Block_fromRow (block_columns d b))
      (concat (map (\<lambda>p. page_of p limit ?all) [1..<Suc n]))"
    by (simp add: map_concat comp_def del: upt_Suc)
  also have "concat (map (\<lambda>p. page_of p limit ?all) [1..<Suc n]) = ?all"
    by (rule concat_all_pages) (use assms in simp)
  finally show ?thesis .
qed

lemma first_recent:
  assumes "0 < n"
  shows "first (recent_blocks d n) = first (order_by Desc (\<lambda>b. Some (b_height b)) (db_blocks d))"
  using assms by (cases "order_by Desc (\<lambda>b. Some (b_height b)) (db_blocks d)")
    (auto simp: recent_blocks_def take_Cons')

lemma first_is_max:
  "map_option b_height (first (order_by Desc (\<lambda>b. Some (b_height b)) (db_blocks d))) = max_height d"
proof (cases "first (order_by Desc (\<lambda>b. Some (b_height b)) (db_blocks d))")
  case None
  then have "db_blocks d = []" by (simp add: first_conv split: if_splits)
  then show ?thesis by (simp add: max_height_def)
next
  case (Some b)
  from first_order_by_desc [OF this] have "max_height d = Some (b_height b)"
    by (auto simp: max_height_Some)
  with Some show ?thesis by simp
qed

text \<open>
  The statistics name the highest block and the highest superblock of the table, schedule the next
  superblock one interval of the network after it, and count the transactions without a block.
\<close>

theorem chain_stats_heights:
  assumes "0 < n"
  shows "cs_latestHeight (getChainStats net d n k) = max_height d \<and>
    cs_mempoolSize (getChainStats net d n k) =
      Some (int (length (filter (\<lambda>t. t_block_height t = None) (db_transactions d)))) \<and>
    cs_nextSuperblockHeight (getChainStats net d n k) =
      Some (or_else (max_height (d\<lparr>db_blocks := filter b_superblock (db_blocks d)\<rparr>)) 0 +
            SUPERBLOCK_INTERVALS (chain_of net))"
  using first_is_max [of d] first_is_max [of "d\<lparr>db_blocks := filter b_superblock (db_blocks d)\<rparr>"]
  by (simp add: getChainStats_def ChainStats_with_next_simp ChainStats_fromRow_def new_ChainStats_def
      chain_stats_row_def first_recent [OF assms] Let_def)

text \<open>
  With more than one recent block, the block time is the time between the newest block and the
  oldest of the last \<open>k\<close> by height, divided by the number of gaps between them and rounded down.
\<close>

theorem chain_stats_block_time:
  assumes "m = min k (length (recent_blocks d n))" "1 < m"
  shows "cs_blockTime (getChainStats net d n k) =
    Some ((b_timestamp (recent_blocks d n ! 0) - b_timestamp (recent_blocks d n ! (m - 1))) div (int m - 1))"
proof -
  have "recent_blocks d n \<noteq> []" using assms by auto
  with assms show ?thesis
    by (auto simp: getChainStats_def ChainStats_with_next_simp ChainStats_fromRow_def
        new_ChainStats_def chain_stats_row_def nth_timestamp_def if_pos_def Let_def)
qed

text \<open>
  The status is \<open>ok\<close> exactly when the node answers, the table has a block, and its highest block is
  at most the configured gap behind the node.
\<close>

theorem status_ok_iff:
  "status_handler node d gap = Sent 200 StatusOk \<longleftrightarrow>
   (\<exists>height m. getBlockCount node = Inr height \<and> max_height d = Some m \<and> height - m \<le> or_else gap 1)"
proof -
  let ?ordered = "order_by Desc (\<lambda>b. Some (b_height b)) (db_blocks d)"
  have "getBlocks d 1 1 (J ''desc'') JUndef =
      Inr (new_PaginatedResultSet (map (\<lambda>b. Block_fromRow (block_columns d b)) (page_of 1 1 ?ordered)) 1
        (Fin 1) (if page_of 1 1 ?ordered = [] then JUndef else J (bigint (db_reltuples d ''blocks''))))"
    using getBlocks_page [of 1 d 1 "J ''desc''" JUndef]
    by (simp add: superblock_filter_def when_given_def dir_of_def Let_def)
  then show ?thesis
    using first_is_max [of d, symmetric]
    by (cases ?ordered; cases "getBlockCount node")
       (auto simp: status_handler_def page_of_def new_PaginatedResultSet_def Block_fromRow_def
         new_Block_def block_columns_def take_Cons' split: sum.splits)
qed

section \<open>Sample chain\<close>

definition sample_block :: "int \<Rightarrow> int \<Rightarrow> bool \<Rightarrow> block_row" where
  "sample_block h ts super =
     \<lparr>b_height = h, b_hash = Some (dec_int h), b_version = 1, b_timestamp = ts, b_tx_count = 2,
      b_size = 300, b_credit_pool_balance = None, b_difficulty = 1, b_merkle_root = ''r'',
      b_previous_block_hash = None, b_nonce = None, b_superblock = super\<rparr>"

definition sample_db :: db where
  "sample_db =
     \<lparr>db_blocks = [sample_block 1 0 False, sample_block 3 90000 True, sample_block 2 30000 False],
      db_transactions = [], db_inputs = [], db_outputs = [], db_addresses = [],
      db_address_transactions = [], db_special = [], db_utxo = [], db_balances = [], db_activity = [],
      db_activity_weekly = [], db_deltas = [], db_hourly = [], db_type_counts = [], db_masternodes = [],
      db_reltuples = (\<lambda>_. 3)\<rparr>"

lemma sample_order:
  "order_by Desc (\<lambda>b. Some (b_height b)) (db_blocks sample_db) =
     [sample_block 3 90000 True, sample_block 2 30000 False, sample_block 1 0 False]"
  by (simp add: sample_db_def sample_block_def order_by_def js_sort_def order_cmp_def)

theorem getBlocks_all_pages_witness:
  "map bk_height (concat (map (\<lambda>p. resultSet (projr (getBlocks sample_db (int p) (int 2) (J ''desc'') JUndef)))
     [1..<Suc 2])) = [Some 3, Some 2, Some 1]"
  using sample_order
  by (subst getBlocks_all_pages)
     (simp_all add: superblock_filter_def when_given_def dir_of_def sample_db_def Block_fromRow_def
       new_Block_def block_columns_def sample_block_def)

theorem chain_stats_heights_witness:
  "cs_latestHeight (getChainStats Testnet sample_db 120 20) = Some 3 \<and>
   cs_nextSuperblockHeight (getChainStats Testnet sample_db 120 20) = Some 27"
  using chain_stats_heights [of 120 Testnet sample_db 20]
  by (simp add: max_height_def sample_db_def sample_block_def)

theorem chain_stats_block_time_witness:
  "cs_blockTime (getChainStats Testnet sample_db 120 20) = Some 45000"
  using chain_stats_block_time [of 3 20 sample_db 120 Testnet]
  by (simp add: recent_blocks_def sample_order sample_block_def)

end
