(* ===== verification/GovernanceBudget.thy ===== *)
theory GovernanceBudget
  imports GovernanceVotes Blocks
begin

text \<open>
  \<open>api/src/controllers/GovernanceController.ts\<close>: the request handlers of the governance endpoints and
  the budget of the next superblock. The filters of the budget are proved to be the greedy rule of
  \<open>Governance\<close>, so the budget and the marks of the proposal list agree.
\<close>

section \<open>Simple handlers\<close>

definition votes_handler ::
  "gov_env \<Rightarrow> int \<Rightarrow> string \<Rightarrow> outpoint_maps redis \<Rightarrow> ProposalVote list reply result \<times> outpoint_maps redis" where
  "votes_handler env now proTxHash' s =
     (let (votes, s) = getMasternodeVotes env now proTxHash' s in (map_sum id (Sent 200) votes, s))"

text \<open>The step in milliseconds: equal buckets when a count is given, else the preset.\<close>

definition vote_interval :: "int \<Rightarrow> int \<Rightarrow> rat option \<Rightarrow> int option" where
  "vote_interval start end' cnt =
     (case cnt of
        Some n \<Rightarrow> Some (count_interval_ms start end' n)
      | None \<Rightarrow> interval_ms (calculateInterval start end'))"

definition vote_series_handler ::
  "(string \<Rightarrow> int) \<Rightarrow> gov_env \<Rightarrow> int \<Rightarrow> string \<Rightarrow> time_query \<Rightarrow> bool js \<Rightarrow> outpoint_maps redis \<Rightarrow>
   tally SeriesData list reply result \<times> outpoint_maps redis" where
  "vote_series_handler parse env now hash q runningTotal s =
     (let (start, end') = window_of parse now 3600000 q in
      if start > end' then (Inr (Refused 400 window_message), s)
      else (case vote_interval start end' (or_null (tq_count q)) of
              None \<Rightarrow> (Inr (Sent 200 []), s)
            | Some ms \<Rightarrow>
                (let (series, s) = getProposalVoteSeries env now hash start end' ms
                                     (defaulted runningTotal False = J True) s
                 in (map_sum id (Sent 200) series, s))))"

definition proposal_handler ::
  "gov_env \<Rightarrow> int \<Rightarrow> string \<Rightarrow> outpoint_maps redis \<Rightarrow> GovernanceObject reply result \<times> outpoint_maps redis" where
  "proposal_handler env now hash s =
     (let (proposal, s) = getProposalByHash env now hash s in
      (bind_result proposal (\<lambda>p. Inr (case p of None \<Rightarrow> Refused 404 ''Proposal not found''
                                        | Some p \<Rightarrow> Sent 200 p)), s))"

definition proposals_handler ::
  "gov_env \<Rightarrow> string js \<Rightarrow> string js \<Rightarrow> string js \<Rightarrow> GovernanceObject list reply result" where
  "proposals_handler env proposalType orderBy order =
     map_sum id (Sent 200) (getProposals env proposalType orderBy (defaulted order ''asc''))"

section \<open>The budget\<close>

record budget_info =
  totalBudget :: rat
  totalProposals :: nat
  totalRequested :: rat
  enoughVotesTotal :: rat
  enoughVotesCount :: nat
  enoughFundsTotal :: rat
  enoughFundsCount :: nat
  enoughVotesAndFundsTotal :: rat
  enoughVotesAndFundsCount :: nat
  remainingAllPass :: rat
  remainingEnoughVotes :: rat
  remainingEnoughVotesAndFunds :: rat
  requiredVotes :: int
  votingDeadline :: date

text \<open>The filter with a running total: the amount spent and the proposals kept.\<close>

fun fill_budget :: "rat \<Rightarrow> rat \<Rightarrow> GovernanceObject list \<Rightarrow> rat \<times> GovernanceObject list" where
  "fill_budget budget run [] = (run, [])"
| "fill_budget budget run (p # ps) =
     (if run + amount_of p \<le> budget
      then (let (r, kept) = fill_budget budget (run + amount_of p) ps in (r, p # kept))
      else fill_budget budget run ps)"

definition by_votes :: "GovernanceObject list \<Rightarrow> GovernanceObject list" where
  "by_votes ps = js_sort (by_key (\<lambda>p. - yes_count p)) ps"

definition live_proposals :: "int \<Rightarrow> GovernanceObject list \<Rightarrow> GovernanceObject list" where
  "live_proposals nextSuperblockTimeSec ps =
     filter (\<lambda>p. objectType p = Some GovProposal \<and>
                 or_else (endEpoch p) 0 > of_int nextSuperblockTimeSec) ps"

text \<open>
  The end of the voting: the maturity window before the next superblock, at the average block time of
  the last cycle. A cycle of no blocks divides by zero, and the date is invalid.
\<close>

definition voting_deadline :: "int \<Rightarrow> int \<Rightarrow> GovernanceInfo \<Rightarrow> date" where
  "voting_deadline nextMs cycleMs info =
     (if superblockcycle info = 0 then None
      else new_date (Fin (of_int nextMs -
             of_int (superblockmaturitywindow info) * (of_int cycleMs / of_int (superblockcycle info)))))"

definition budget_of ::
  "rat \<Rightarrow> int \<Rightarrow> GovernanceObject list \<Rightarrow> date \<Rightarrow> budget_info" where
  "budget_of total' required proposals deadline =
     (let requested = sum_list (map amount_of proposals);
          enoughVotes' = filter (\<lambda>p. yes_count p \<ge> required) proposals;
          votesTotal = sum_list (map amount_of enoughVotes');
          (running', enoughFunds') = fill_budget total' 0 (by_votes proposals);
          (bothRunning, both) = fill_budget total' 0 (by_votes enoughVotes')
      in \<lparr>totalBudget = total', totalProposals = length proposals, totalRequested = requested,
          enoughVotesTotal = votesTotal, enoughVotesCount = length enoughVotes',
          enoughFundsTotal = running', enoughFundsCount = length enoughFunds',
          enoughVotesAndFundsTotal = bothRunning, enoughVotesAndFundsCount = length both,
          remainingAllPass = total' - requested, remainingEnoughVotes = total' - votesTotal,
          remainingEnoughVotesAndFunds = total' - bothRunning, requiredVotes = required,
          votingDeadline = deadline\<rparr>)"

text \<open>
  The handler, by the replies it sends in order. When the node knows a later superblock than the table,
  it sends a failure and, having no \<open>return\<close> there, goes on and sends another reply.
\<close>

definition superblocks_message :: string where
  "superblocks_message = ''Not enough superblocks indexed to compute next superblock time''"

definition behind_message :: string where
  "behind_message = ''Cannot find the last superblock in the database. Please wait if the sync progress is not at 100%.''"

definition finish :: "'a reply result \<Rightarrow> 'a reply list" where
  "finish r = [respond r]"

definition budget_handler :: "gov_env \<Rightarrow> db \<Rightarrow> budget_info reply list" where
  "budget_handler env d =
     (case getBlocks d 1 2 (J ''desc'') (J True) of
        Inl e \<Rightarrow> finish (Inl e)
      | Inr superblocks \<Rightarrow>
         (case resultSet superblocks of
            lastSuperblock # prevSuperblock # _ \<Rightarrow>
              (case (bk_timestamp lastSuperblock, bk_timestamp prevSuperblock) of
                 (Some (Some lastMs), Some (Some prevMs)) \<Rightarrow>
                   (case bind_result (getInfo env) (\<lambda>info.
                         bind_result (getProposals env JUndef JUndef JUndef) (\<lambda>ps. Inr (info, ps))) of
                      Inl e \<Rightarrow> finish (Inl e)
                    | Inr (info, allProposals) \<Rightarrow>
                        (let stats = getMasternodeStats (masternode_table env);
                             early = (if lastsuperblock info > or_else (bk_height lastSuperblock) 0
                                      then [Refused 500 behind_message] else []);
                             cycleMs = lastMs - prevMs;
                             nextMs = lastMs + cycleMs;
                             proposals = live_proposals (nextMs div 1000) allProposals
                         in early @ finish (bind_result (getBudget env (nextsuperblock info)) (\<lambda>total'.
                              Inr (Sent 200 (budget_of total' (requiredProposalVotes stats) proposals
                                     (voting_deadline nextMs cycleMs info)))))))
               | _ \<Rightarrow> [Refused 404 superblocks_message])
          | _ \<Rightarrow> [Refused 404 superblocks_message]))"

section \<open>The filter is the greedy rule\<close>

lemma fill_budget_greedy:
  "fill_budget b r ps = (r + sum_list (map amount_of (greedy b r amount_of ps)), greedy b r amount_of ps)"
  by (induction ps arbitrary: r) (auto simp: Let_def not_le)

lemma insert_cmp_map:
  "insert_cmp (by_key f) (g x) (map g ys) = map g (insert_cmp (by_key (\<lambda>i. f (g i))) x ys)"
  by (induction ys) (auto simp: by_key_def)

lemma js_sort_map:
  "js_sort (by_key f) (map g xs) = map g (js_sort (by_key (\<lambda>i. f (g i))) xs)"
  by (induction xs) (auto simp: js_sort_def insert_cmp_map)

lemma greedy_map: "greedy b r f (map g xs) = map g (greedy b r (\<lambda>i. f (g i)) xs)"
  by (induction xs arbitrary: r) auto

text \<open>Ranking positions and ranking objects is the same.\<close>

lemma by_votes_positions: "by_votes ps = map ((!) ps) (rank_positions ps)"
proof -
  have "by_votes (map ((!) ps) [0..<length ps]) = map ((!) ps) (rank_positions ps)"
    unfolding by_votes_def rank_positions_def js_sort_map by simp
  then show ?thesis by (simp add: map_nth)
qed

lemma greedy_by_votes:
  "greedy b 0 amount_of (by_votes ps) = map ((!) ps) (funded_positions b ps)"
  by (simp add: by_votes_positions greedy_map funded_positions_def)

lemma mset_by_votes [simp]: "mset (by_votes ps) = mset ps"
  by (simp add: by_votes_def)

text \<open>What \<open>mark_funded\<close> marks, in number and in amount.\<close>

lemma marked_count:
  assumes "\<forall>p \<in> set ps. enoughFunds p = Some False"
  shows "length (filter (\<lambda>p. enoughFunds p = Some True) (mark_funded b ps)) = length (funded_positions b ps)"
proof -
  let ?F = "set (funded_positions b ps)"
  have "filter (\<lambda>p. enoughFunds p = Some True) (mark_funded b ps) =
        map (\<lambda>i. if i \<in> ?F then (ps ! i)\<lparr>enoughFunds := Some True\<rparr> else ps ! i)
          (filter (\<lambda>i. i \<in> ?F) [0..<length ps])"
    unfolding mark_funded_greedy filter_map comp_def
    by (intro arg_cong [where f = "map _"] filter_cong refl) (use assms in auto)
  moreover have "length (filter (\<lambda>i. i \<in> ?F) [0..<length ps]) = card ?F"
    using set_funded_positions [of b ps]
    by (simp add: distinct_length_filter Int_absorb2)
  ultimately show ?thesis
    by (simp add: distinct_card [OF distinct_funded_positions])
qed

text \<open>Marking changes neither the ranking nor the amounts.\<close>

lemma mark_funded_length [simp]: "length (mark_funded b ps) = length ps"
  by (simp add: mark_funded_greedy)

lemma mark_funded_nth:
  "i < length ps \<Longrightarrow> yes_count (mark_funded b ps ! i) = yes_count (ps ! i) \<and>
     amount_of (mark_funded b ps ! i) = amount_of (ps ! i)"
  by (simp add: mark_funded_greedy yes_count_def amount_of_def)

lemma js_sort_cong:
  "(\<And>y. y \<in> set xs \<Longrightarrow> f y = g y) \<Longrightarrow> js_sort (by_key f) xs = js_sort (by_key g) xs"
  by (rule js_sort_cmp_cong) (simp add: by_key_def)

lemma greedy_cong: "(\<And>x. x \<in> set xs \<Longrightarrow> f x = g x) \<Longrightarrow> greedy b r f xs = greedy b r g xs"
  by (induction xs arbitrary: r) auto

lemma funded_positions_marked: "funded_positions b (mark_funded b ps) = funded_positions b ps"
proof -
  have rank: "rank_positions (mark_funded b ps) = rank_positions ps"
    unfolding rank_positions_def mark_funded_length by (rule js_sort_cong) (simp add: mark_funded_nth)
  show ?thesis
    unfolding funded_positions_def rank by (rule greedy_cong) (simp add: mark_funded_nth)
qed

text \<open>
  The proposals counted as having both enough votes and enough funds are proposals that reach the
  required votes, their amounts add up to the stated total, and that total never exceeds the budget,
  so what is stated to remain is never negative.
\<close>

theorem budget_of_both:
  assumes "0 \<le> budget" "info = budget_of budget required ps deadline"
  shows "\<exists>chosen. mset chosen \<subseteq># mset ps \<and> (\<forall>p \<in> set chosen. required \<le> yes_count p) \<and>
    length chosen = enoughVotesAndFundsCount info \<and>
    sum_list (map amount_of chosen) = enoughVotesAndFundsTotal info \<and>
    enoughVotesAndFundsTotal info \<le> budget \<and> 0 \<le> remainingEnoughVotesAndFunds info"
proof -
  let ?able = "filter (\<lambda>p. required \<le> yes_count p) ps"
  let ?chosen = "greedy budget 0 amount_of (by_votes ?able)"
  have sub: "mset (greedy b r f xs) \<subseteq># mset xs" for b r and f :: "GovernanceObject \<Rightarrow> rat" and xs
  proof (induction xs arbitrary: r)
    case (Cons x xs)
    have "mset xs \<subseteq># add_mset x (mset xs)" by (simp add: subseteq_mset_def)
    with Cons [of r] have "mset (greedy b r f xs) \<subseteq># add_mset x (mset xs)"
      by (rule subset_mset.order_trans)
    then show ?case using Cons by simp
  qed simp
  have "mset ?chosen \<subseteq># mset ?able" using sub [of budget 0 amount_of "by_votes ?able"] by simp
  then have c1: "mset ?chosen \<subseteq># mset ps" by (metis mset_filter multiset_filter_subset subset_mset.order_trans)
  have c2: "\<forall>p \<in> set ?chosen. required \<le> yes_count p"
    using set_greedy [of budget 0 amount_of "by_votes ?able"] by (auto simp: by_votes_def)
  have c3: "sum_list (map amount_of ?chosen) \<le> budget"
    using greedy_total [OF assms(1), of amount_of "by_votes ?able"] by simp
  have c4: "enoughVotesAndFundsCount info = length ?chosen"
    "enoughVotesAndFundsTotal info = sum_list (map amount_of ?chosen)"
    "remainingEnoughVotesAndFunds info = budget - sum_list (map amount_of ?chosen)"
    unfolding assms(2) budget_of_def fill_budget_greedy by (simp_all only: Let_def prod.case budget_info.simps add_0)
  have c5: "0 \<le> budget - sum_list (map amount_of ?chosen)" using c3 by linarith
  show ?thesis
    unfolding c4 by (rule exI [of _ ?chosen]) (intro conjI c1 c2 c3 c5 refl)
qed

text \<open>
  C7: when every proposal of the list is live, the budget endpoint and the proposal list agree: the
  number and the total of the proposals with enough funds are those of the proposals that the list
  marks.
\<close>

theorem budget_agrees_with_list:
  assumes "getProposals env JUndef JUndef JUndef = Inr ps" "getInfo env = Inr info"
    "getBudget env (nextsuperblock info) = Inr budget" "live_proposals secs ps = ps"
    "b = budget_of budget required (live_proposals secs ps) deadline"
  shows "enoughFundsCount b = length (filter (\<lambda>p. enoughFunds p = Some True) ps) \<and>
    enoughFundsTotal b = sum_list (map amount_of (filter (\<lambda>p. enoughFunds p = Some True) ps))"
proof -
  obtain base where base: "ps = mark_funded budget base" "\<forall>p \<in> set base. enoughFunds p = Some False"
    by (rule getProposals_steps [OF assms(1)])
       (use assms(2,3) in \<open>auto simp: getInfo_def getBudget_def order_proposals_def\<close>)
  have chosen: "greedy budget 0 amount_of (by_votes ps) = map ((!) ps) (funded_positions budget base)"
    by (simp add: greedy_by_votes base(1) funded_positions_marked)
  have "sum_list (map amount_of (filter (\<lambda>p. enoughFunds p = Some True) ps)) =
        sum_list (map (\<lambda>i. amount_of (base ! i)) (funded_positions budget base))"
    using marked_sum [OF base(2), of "\<lambda>_. True" budget] by (simp add: base(1))
  also have "\<dots> = sum_list (map (\<lambda>i. amount_of (ps ! i)) (funded_positions budget base))"
    using set_funded_positions [of budget base]
    by (intro arg_cong [where f = sum_list] map_cong) (auto simp: base(1) mark_funded_nth)
  finally show ?thesis
    using marked_count [OF base(2), of budget]
    by (simp add: assms(4,5) budget_of_def fill_budget_greedy chosen Let_def base(1) [symmetric] comp_def)
qed

text \<open>When the node is ahead of the table, the handler sends a failure and then a second reply.\<close>

lemma budget_handler_sends_twice:
  assumes "getBlocks d 1 2 (J ''desc'') (J True) = Inr sbs" "resultSet sbs = [lastSb, prevSb]"
    "bk_timestamp lastSb = Some (Some lastMs)" "bk_timestamp prevSb = Some (Some prevMs)"
    "getInfo env = Inr info" "getProposals env JUndef JUndef JUndef = Inr ps"
    "bk_height lastSb = Some h" "h < lastsuperblock info"
  shows "\<exists>second. budget_handler env d = [Refused 500 behind_message, second]"
  using assms by (simp add: budget_handler_def finish_def Let_def)

theorem budget_of_both_witness:
  "\<exists>chosen. (0 :: rat) \<le> 10 \<and>
    mset chosen \<subseteq># mset [sample_object ''p1'' 20 5 True, sample_object ''p2'' 10 7 False] \<and>
    (\<forall>p \<in> set chosen. 15 \<le> yes_count p) \<and>
    sum_list (map amount_of chosen) =
      enoughVotesAndFundsTotal
        (budget_of 10 15 [sample_object ''p1'' 20 5 True, sample_object ''p2'' 10 7 False] None)"
  using budget_of_both [of 10 _ 15 "[sample_object ''p1'' 20 5 True, sample_object ''p2'' 10 7 False]" None,
      OF _ refl] by auto

theorem budget_agrees_with_list_witness:
  "enoughFundsCount (budget_of 10 15 (live_proposals 0
     [sample_object ''p1'' 20 5 True, sample_object ''p2'' 10 7 False]) None) = 1"
proof -
  have live: "live_proposals 0 [sample_object ''p1'' 20 5 True, sample_object ''p2'' 10 7 False] =
      [sample_object ''p1'' 20 5 True, sample_object ''p2'' 10 7 False]"
    by (simp add: live_proposals_def sample_object_def)
  show ?thesis
    using budget_agrees_with_list [OF sample_proposals _ _ live refl] sample_budget
    by (simp add: getInfo_def getBudget_def) (simp add: sample_object_def)
qed

end
