(* ===== verification/Transactions.thy ===== *)
theory Transactions
  imports Database
begin

text \<open>
  The listings of \<open>api/src/dao/TransactionsDAO.ts\<close> and their handlers in
  \<open>api/src/controllers/TransactionsController.ts\<close>: transactions of the chain, of a block, of the
  mempool, of an address and of a masternode, and one transaction by its hash. The joins of a page are
  on unique keys, so each is a lookup.
\<close>

section \<open>Rows\<close>

text \<open>\<open>json_agg\<close> over the inputs of a transaction: \<open>NULL\<close> when the join finds no row.\<close>

definition json_agg :: "'a list \<Rightarrow> 'a list js" where
  "json_agg xs = (if xs = [] then JNull else J xs)"

definition address_text :: "db \<Rightarrow> int option \<Rightarrow> string js" where
  "address_text d i = js_of_option (map_option a_address (Option.bind i (address_by_id d)))"

definition inputsAggregate :: "db \<Rightarrow> int \<Rightarrow> VInRow list js" where
  "inputsAggregate d txid =
     json_agg (map (\<lambda>i. \<lparr>vir_prev_tx_hash = js_of_option (i_prev_tx_hash i),
                         vir_prev_vout_index = js_of_option (i_prev_vout_index i),
                         vir_address = address_text d (i_address_id i),
                         vir_amount = js_of_option (map_option dec_int (i_amount i))\<rparr>)
       (order_by Asc (\<lambda>i. Some (i_vin_index i)) (filter (\<lambda>i. i_tx_id i = txid) (db_inputs d))))"

definition outputsAggregate :: "db \<Rightarrow> int \<Rightarrow> VOutRow list js" where
  "outputsAggregate d txid =
     json_agg (map (\<lambda>o'. let spender = Option.bind (o_spent_by_tx_id o') (tx_by_id d) in
                        \<lparr>vor_value = J (CNum (of_int (o_value o'))),
                         vor_vout_index = J (o_vout_index o'),
                         vor_script_pub_key = js_of_option (o_script_pub_key o'),
                         vor_script_type = js_of_option (o_script_type o'),
                         vor_address = address_text d (o_address_id o'),
                         vor_spent_tx_id = js_of_option (map_option t_hash spender),
                         vor_spent_index = js_of_option (o_spent_by_vin_index o'),
                         vor_spent_height = js_of_option (Option.bind spender t_block_height)\<rparr>)
       (order_by Asc (\<lambda>o'. Some (o_vout_index o')) (filter (\<lambda>o'. o_tx_id o' = txid) (db_outputs d))))"

definition special_payload :: "db \<Rightarrow> int \<Rightarrow> string js" where
  "special_payload d txid =
     js_of_option (map_option sp_payload (find (\<lambda>s. sp_tx_id s = txid) (db_special d)))"

text \<open>The columns every listing selects; the payload only where the query joins it.\<close>

definition tx_columns :: "db \<Rightarrow> bool \<Rightarrow> tx_row \<Rightarrow> TransactionRow" where
  "tx_columns d with_payload t =
     (let block = Option.bind (t_block_height t) (block_at d) in
      \<lparr>trr_hash = J (t_hash t), trr_type = J (t_type t),
       trr_block_height = js_of_option (t_block_height t),
       trr_block_hash = js_of_option (Option.bind block b_hash),
       trr_timestamp = js_of_option (map_option (\<lambda>b. Some (b_timestamp b)) block),
       trr_confirmations = confirmations_of d (t_block_height t),
       trr_instant_lock = js_of_option (t_instant_lock t), trr_chain_locked = J (t_chain_locked t),
       trr_version = js_of_option (t_version t), trr_size = js_of_option (t_size t),
       trr_inputs = inputsAggregate d (t_id t), trr_outputs = outputsAggregate d (t_id t),
       trr_amount = js_of_option (map_option dec_int (t_amount t)),
       trr_coinjoin = J (t_coinjoin t), trr_multisig = J (t_multisig t),
       trr_extra_payload = (if with_payload then special_payload d (t_id t) else JUndef)\<rparr>)"

text \<open>The mempool listing selects neither heights nor blocks.\<close>

definition pending_columns :: "db \<Rightarrow> tx_row \<Rightarrow> TransactionRow" where
  "pending_columns d t =
     (tx_columns d False t)
       \<lparr>trr_block_height := JUndef, trr_block_hash := JUndef, trr_timestamp := JUndef,
        trr_confirmations := JUndef\<rparr>"

definition to_transactions ::
  "'p sdk \<Rightarrow> network \<Rightarrow> TransactionRow list \<Rightarrow> 'p Transaction list result" where
  "to_transactions sdk net rows = map_result (Transaction_fromRow sdk net) rows"

section \<open>Listings of the chain\<close>

definition tx_matches :: "TransactionType js \<Rightarrow> bool js \<Rightarrow> bool js \<Rightarrow> int js \<Rightarrow> tx_row \<Rightarrow> bool" where
  "tx_matches type' coinjoin multisig height t \<longleftrightarrow>
     (\<forall>ty. type' = J ty \<longrightarrow> t_type t = type_code ty) \<and> (\<forall>b. coinjoin = J b \<longrightarrow> t_coinjoin t = b) \<and>
     (\<forall>b. multisig = J b \<longrightarrow> t_multisig t = b) \<and> (\<forall>h. height = J h \<longrightarrow> t_block_height t = Some h)"

lemma tx_matches_code [code]:
  "tx_matches type' coinjoin multisig height t \<longleftrightarrow>
     (case type' of J ty \<Rightarrow> t_type t = type_code ty | _ \<Rightarrow> True) \<and>
     (case coinjoin of J b \<Rightarrow> t_coinjoin t = b | _ \<Rightarrow> True) \<and>
     (case multisig of J b \<Rightarrow> t_multisig t = b | _ \<Rightarrow> True) \<and>
     (case height of J h \<Rightarrow> t_block_height t = Some h | _ \<Rightarrow> True)"
  by (auto simp: tx_matches_def split: js.splits)

definition type_count_matches :: "TransactionType js \<Rightarrow> bool js \<Rightarrow> bool js \<Rightarrow> type_count_row \<Rightarrow> bool" where
  "type_count_matches type' coinjoin multisig r \<longleftrightarrow>
     (case type' of J ty \<Rightarrow> tc_type r = type_code ty | _ \<Rightarrow> True) \<and>
     (case coinjoin of J b \<Rightarrow> tc_coinjoin r = b | _ \<Rightarrow> True) \<and>
     (case multisig of J b \<Rightarrow> tc_multisig r = b | _ \<Rightarrow> True)"

text \<open>
  The total beside a page: a count within a block, else the counters by type when a filter is set,
  else the estimate of the server.
\<close>

definition transactions_total ::
  "db \<Rightarrow> TransactionType js \<Rightarrow> bool js \<Rightarrow> bool js \<Rightarrow> int js \<Rightarrow> int" where
  "transactions_total d type' coinjoin multisig height =
     (if or_null height \<noteq> None then
        int (length (filter (tx_matches type' coinjoin multisig height) (db_transactions d)))
      else if or_null type' \<noteq> None \<or> or_null coinjoin \<noteq> None \<or> or_null multisig \<noteq> None then
        sum_list (map tc_count (filter (type_count_matches type' coinjoin multisig) (db_type_counts d)))
      else db_reltuples d ''transactions'')"

definition chain_keys :: "string js \<Rightarrow> (sql_dir \<times> (tx_row \<Rightarrow> int option)) list" where
  "chain_keys order =
     [(js_dir order, t_block_height), (Desc, \<lambda>t. bool_key (t_is_coinbase t)), (Asc, \<lambda>t. Some (t_id t))]"

definition getTransactions ::
  "'p sdk \<Rightarrow> network \<Rightarrow> db \<Rightarrow> int \<Rightarrow> int \<Rightarrow> string js \<Rightarrow> TransactionType js \<Rightarrow> bool js \<Rightarrow> bool js \<Rightarrow> int js \<Rightarrow>
   'p Transaction PaginatedResultSet result" where
  "getTransactions sdk net d page limit order type' coinjoin multisig height =
     (let fromRank = (page - 1) * limit;
          confirmed = filter (\<lambda>t. t_block_height t \<noteq> None) (db_transactions d);
          matching = filter (tx_matches type' coinjoin multisig height) confirmed
      in bind_result (limit_offset limit fromRank (order_by_keys (chain_keys order) matching)) (\<lambda>subquery.
         let rows = order_by_keys (chain_keys order) subquery in
         bind_result (to_transactions sdk net (map (tx_columns d False) rows)) (\<lambda>txs.
           Inr (new_PaginatedResultSet txs page (Fin (of_int limit))
                  (if rows = [] then JUndef
                   else J (bigint (transactions_total d type' coinjoin multisig height)))))))"

definition getTransactionByHash ::
  "'p sdk \<Rightarrow> network \<Rightarrow> db \<Rightarrow> string \<Rightarrow> 'p Transaction option result" where
  "getTransactionByHash sdk net d hash =
     (case find (\<lambda>t. t_hash t = js_trim hash) (db_transactions d) of
        None \<Rightarrow> Inr None
      | Some t \<Rightarrow> map_sum id Some (Transaction_fromRow sdk net (tx_columns d True t)))"

definition block_keys :: "string js \<Rightarrow> (sql_dir \<times> (tx_row \<Rightarrow> int option)) list" where
  "block_keys order = [(Desc, \<lambda>t. bool_key (t_is_coinbase t)), (js_dir order, \<lambda>t. Some (t_id t))]"

definition getTransactionsByBlockHeight ::
  "'p sdk \<Rightarrow> network \<Rightarrow> db \<Rightarrow> int \<Rightarrow> int \<Rightarrow> int \<Rightarrow> string js \<Rightarrow> 'p Transaction PaginatedResultSet result" where
  "getTransactionsByBlockHeight sdk net d height page limit order =
     (let fromRank = (page - 1) * limit;
          matching = filter (\<lambda>t. t_block_height t = Some height) (db_transactions d)
      in bind_result (limit_offset limit fromRank (order_by_keys (block_keys order) matching)) (\<lambda>subquery.
         let rows = order_by_keys (block_keys order) subquery in
         bind_result (to_transactions sdk net (map (tx_columns d True) rows)) (\<lambda>txs.
           Inr (new_PaginatedResultSet txs page (Fin (of_int limit))
                  (if rows = [] then JUndef
                   else js_of_option (map_option (\<lambda>b. CNum (of_int (b_tx_count b))) (block_at d height)))))))"

text \<open>The final query of the mempool listing has no order of its own; it keeps that of its subquery.\<close>

definition getPendingTransactions ::
  "'p sdk \<Rightarrow> network \<Rightarrow> db \<Rightarrow> int \<Rightarrow> int \<Rightarrow> string js \<Rightarrow> 'p Transaction PaginatedResultSet result" where
  "getPendingTransactions sdk net d page limit order =
     (let fromRank = (page - 1) * limit;
          pending = filter (\<lambda>t. t_block_height t = None) (db_transactions d)
      in bind_result (limit_offset limit fromRank (order_by (js_dir order) (\<lambda>t. Some (t_id t)) pending)) (\<lambda>rows.
         bind_result (to_transactions sdk net (map (pending_columns d) rows)) (\<lambda>txs.
           Inr (new_PaginatedResultSet txs page (Fin (of_int limit))
                  (J (coalesce (first_count rows pending) (CNum (-1))))))))"

section \<open>Transactions of an address\<close>

text \<open>
  \<open>pendingTransactionIds\<close>: the unconfirmed transactions that pay to, or spend from, an owned address.
\<close>

definition pendingTransactionIds ::
  "db \<Rightarrow> (int option \<Rightarrow> bool) \<Rightarrow> TransactionType js \<Rightarrow> tx_row list" where
  "pendingTransactionIds d owned type' =
     filter (\<lambda>t. t_block_height t = None \<and>
        (case type' of J ty \<Rightarrow> t_type t = type_code ty | _ \<Rightarrow> True) \<and>
        ((\<exists>o' \<in> set (db_outputs d). o_tx_id o' = t_id t \<and> owned (o_address_id o')) \<or>
         (\<exists>i \<in> set (db_inputs d). i_tx_id i = t_id t \<and> owned (i_address_id i))))
       (db_transactions d)"

definition owned_by :: "int option \<Rightarrow> int option \<Rightarrow> bool" where
  "owned_by aid i \<longleftrightarrow> aid \<noteq> None \<and> i = aid"

definition address_entries :: "db \<Rightarrow> int option \<Rightarrow> TransactionType js \<Rightarrow> address_tx_row list" where
  "address_entries d aid type' =
     filter (\<lambda>r. Some (at_address_id r) = aid \<and>
        (case type' of
           J ty \<Rightarrow> (case tx_by_id d (at_tx_id r) of None \<Rightarrow> False | Some t \<Rightarrow> t_type t = type_code ty)
         | _ \<Rightarrow> True))
       (db_address_transactions d)"

definition address_keys :: "string js \<Rightarrow> (sql_dir \<times> (tx_row \<Rightarrow> int option)) list" where
  "address_keys order = [(js_dir order, t_block_height), (js_dir order, \<lambda>t. Some (t_id t))]"

definition getAddressTransactions ::
  "'p sdk \<Rightarrow> network \<Rightarrow> db \<Rightarrow> string \<Rightarrow> int \<Rightarrow> int \<Rightarrow> string js \<Rightarrow> TransactionType js \<Rightarrow>
   'p Transaction PaginatedResultSet result" where
  "getAddressTransactions sdk net d address page limit order type' =
     (let fromRank = (page - 1) * limit;
          aid = address_id d address;
          entries = address_entries d aid type'
      in bind_result (limit_offset limit fromRank
           (order_by (js_dir order) (\<lambda>r. Some (at_block_height r)) entries)) (\<lambda>addressTxIds.
         let includePending = (page = 1 \<and> order = J ''desc'');
             pageIds = map at_tx_id addressTxIds @
               (if includePending then map t_id (pendingTransactionIds d (owned_by aid) type') else []);
             rows = order_by_keys (address_keys order)
                      (filter (\<lambda>t. t_id t \<in> set pageIds) (db_transactions d));
             total_count = (if or_null type' \<noteq> None then J (bigint (int (length entries)))
                            else js_of_option (map_option (\<lambda>a. bigint (a_tx_count a))
                                   (find (\<lambda>a. a_address a = address) (db_addresses d))))
         in bind_result (to_transactions sdk net (map (tx_columns d True) rows)) (\<lambda>txs.
              Inr (new_PaginatedResultSet txs page (Fin (of_int limit))
                     (J (coalesce (if rows = [] then JUndef else total_count) (CNum (-1))))))))"

section \<open>Transactions of a masternode\<close>

definition masternode_address_ids :: "db \<Rightarrow> string \<Rightarrow> int list" where
  "masternode_address_ids d hash =
     (let names = concat (map (\<lambda>m. [or_null (mr_payee m), or_null (mr_owner_address m),
                                    or_null (mr_voting_address m), or_null (mr_collateral_address m)])
                    (filter (\<lambda>m. mr_pro_tx_hash m = J hash) (db_masternodes d)))
      in map a_id (filter (\<lambda>a. Some (a_address a) \<in> set names) (db_addresses d)))"

text \<open>\<open>MAX(block_height) \<dots> GROUP BY tx_id\<close>.\<close>

definition group_max :: "(int \<times> int) list \<Rightarrow> (int \<times> int) list" where
  "group_max es = map (\<lambda>i. (i, Max (set (map snd (filter (\<lambda>e. fst e = i) es))))) (remdups (map fst es))"

definition getMasternodeTransactions ::
  "'p sdk \<Rightarrow> network \<Rightarrow> db \<Rightarrow> string \<Rightarrow> int \<Rightarrow> int \<Rightarrow> string js \<Rightarrow> 'p Transaction PaginatedResultSet result" where
  "getMasternodeTransactions sdk net d hash page limit order =
     (let fromRank = (page - 1) * limit;
          ids = masternode_address_ids d hash;
          grouped = group_max (map (\<lambda>r. (at_tx_id r, at_block_height r))
                      (filter (\<lambda>r. at_address_id r \<in> set ids) (db_address_transactions d)))
      in bind_result (limit_offset limit fromRank (order_by (js_dir order) (\<lambda>e. Some (snd e)) grouped)) (\<lambda>entries.
         let rows = order_by (js_dir order) (\<lambda>t. Some (t_id t))
                      (filter (\<lambda>t. t_id t \<in> set (map fst entries)) (db_transactions d));
             total_count = bigint (int (length grouped))
         in bind_result (to_transactions sdk net (map (tx_columns d True) rows)) (\<lambda>txs.
              Inr (new_PaginatedResultSet txs page (Fin (of_int limit))
                     (J (if rows = [] then CNum (-1) else total_count))))))"

section \<open>Conversion of rows\<close>

text \<open>Without outputs and payloads there is nothing for the SDK to decode.\<close>

lemma to_transactions_plain:
  assumes "db_outputs d = []" "db_special d = []"
  shows "\<exists>txs. to_transactions sdk net (map (tx_columns d p) ts) = Inr txs"
proof (induction ts)
  case (Cons t ts)
  have "\<exists>tx. Transaction_fromRow sdk net (tx_columns d p t) = Inr tx"
    by (rule Transaction_fromRow_plain)
       (simp_all add: tx_columns_def assms outputsAggregate_def json_agg_def special_payload_def Let_def)
  with Cons show ?case by (auto simp: to_transactions_def)
qed (simp add: to_transactions_def)

lemma to_transactions_hashes:
  "to_transactions sdk net (map (tx_columns d p) ts) = Inr txs \<Longrightarrow>
   map tr_hash txs = map (\<lambda>t. Some (t_hash t)) ts"
  unfolding to_transactions_def
proof (induction ts arbitrary: txs)
  case (Cons t ts)
  then show ?case
    by (auto simp: bind_result_Inr_iff dest!: Transaction_fromRow_keys) (simp add: tx_columns_def Let_def)
qed simp

lemma to_transactions_heights:
  "to_transactions sdk net (map (tx_columns d p) ts) = Inr txs \<Longrightarrow>
   map tr_blockHeight txs = map t_block_height ts"
  unfolding to_transactions_def
proof (induction ts arbitrary: txs)
  case (Cons t ts)
  then show ?case
    by (auto simp: bind_result_Inr_iff dest!: Transaction_fromRow_keys) (simp add: tx_columns_def Let_def)
qed simp

section \<open>Sample database\<close>

definition sample_tx :: "int \<Rightarrow> int option \<Rightarrow> bool \<Rightarrow> int \<Rightarrow> tx_row" where
  "sample_tx i h coinbase type' =
     \<lparr>t_id = i, t_hash = replicate (nat i) (CHR ''f''), t_type = type', t_block_height = h, t_version = None,
      t_size = None, t_is_coinbase = coinbase, t_instant_lock = None, t_chain_locked = False,
      t_amount = None, t_coinjoin = False, t_multisig = False\<rparr>"

definition sample_chain_block :: "int \<Rightarrow> int \<Rightarrow> block_row" where
  "sample_chain_block h ts =
     \<lparr>b_height = h, b_hash = None, b_version = 1, b_timestamp = ts, b_tx_count = 1, b_size = 1,
      b_credit_pool_balance = None, b_difficulty = 1, b_merkle_root = ''r'',
      b_previous_block_hash = None, b_nonce = None, b_superblock = False\<rparr>"

definition sample_wallet_db :: db where
  "sample_wallet_db =
     \<lparr>db_blocks = [sample_chain_block 1 1000, sample_chain_block 2 5400000],
      db_transactions = [sample_tx 1 (Some 1) True 5, sample_tx 2 (Some 2) False 0, sample_tx 3 (Some 2) True 5,
                         sample_tx 4 None False 0],
      db_inputs = [\<lparr>i_tx_id = 4, i_vin_index = 0, i_prev_tx_hash = None, i_prev_vout_index = None,
                    i_address_id = Some 7, i_amount = None\<rparr>],
      db_outputs = [],
      db_addresses = [\<lparr>a_id = 7, a_address = ''X7'', a_first_seen_tx_id = None, a_first_seen_block = None,
                       a_last_seen_tx_id = None, a_last_seen_block = None, a_received = 9, a_sent = 4,
                       a_tx_count = 2\<rparr>],
      db_address_transactions =
        [\<lparr>at_address_id = 7, at_tx_id = 1, at_block_height = 1\<rparr>,
         \<lparr>at_address_id = 7, at_tx_id = 2, at_block_height = 2\<rparr>,
         \<lparr>at_address_id = 8, at_tx_id = 2, at_block_height = 2\<rparr>,
         \<lparr>at_address_id = 8, at_tx_id = 3, at_block_height = 2\<rparr>],
      db_special = [], db_utxo = [], db_balances = [], db_activity = [], db_activity_weekly = [],
      db_deltas = [], db_hourly = [],
      db_type_counts = [\<lparr>tc_type = 5, tc_coinjoin = False, tc_multisig = False, tc_count = 2\<rparr>,
                        \<lparr>tc_type = 0, tc_coinjoin = False, tc_multisig = False, tc_count = 1\<rparr>],
      db_masternodes = [], db_reltuples = (\<lambda>_. 3)\<rparr>"

definition sample_sdk :: "string sdk" where
  "sample_sdk =
     \<lparr>script_asm = (\<lambda>s. Inr s), script_address = (\<lambda>_ _. Inr None), script_chunks = (\<lambda>_. []),
      sha256ripemd160 = (\<lambda>b. b), pkh_to_address = (\<lambda>_ _. ''X''), payload_fromHex = (\<lambda>_ s. Inr s)\<rparr>"

end
