(* ===== verification/TransactionSeries.thy ===== *)
theory TransactionSeries
  imports Transactions
begin

text \<open>
  The two statistics of \<open>api/src/dao/TransactionsDAO.ts\<close>: \<open>getTransactionCountSeries\<close>, the number of
  transactions per bucket of a window, plain or running, and \<open>getTransactionStats\<close>, the number of
  transactions of each kind in a window, put together from whole hours of the table
  \<open>chain_stats_hourly\<close> and live counts at the two edges.
\<close>

section \<open>Counts per bucket\<close>

text \<open>
  The buckets \<open>GROUP BY date_from\<close>: the rows of \<open>ranges\<close> differ in \<open>date_from\<close>, so a group is one row.
  \<open>SUM\<close> of no block is \<open>NULL\<close>, which \<open>COALESCE\<close> makes 0.
\<close>

definition count_buckets :: "db \<Rightarrow> (int \<times> int) list \<Rightarrow> (int \<times> int) list" where
  "count_buckets d rows =
     map (\<lambda>r. (fst r, row_sum b_timestamp b_tx_count (db_blocks d) r)) rows"

definition count_point :: "int \<times> int \<Rightarrow> jsnum SeriesData" where
  "count_point row =
     new_SeriesData (J (Some (fst row))) (J (js_Number (J (bigint (snd row)))))"

definition getTransactionCountSeries ::
  "(string \<Rightarrow> int \<Rightarrow> int) \<Rightarrow> db \<Rightarrow> int \<Rightarrow> int \<Rightarrow> string \<Rightarrow> int \<Rightarrow> bool \<Rightarrow> jsnum SeriesData list result" where
  "getTransactionCountSeries pg_add d start end' interval intervalInMs runningTotal =
     (case ranges (pg_add interval) start end' intervalInMs of
        None \<Rightarrow> Inl QueryFailure
      | Some rows \<Rightarrow>
          (let buckets = order_by Asc (\<lambda>b. Some (fst b)) (count_buckets d rows);
               values = (if runningTotal then running 0 (map snd buckets) else map snd buckets)
           in Inr (map count_point (zip (map fst buckets) values))))"

lemma count_buckets_sorted:
  assumes "bucket_chain start rows"
  shows "order_by Asc (\<lambda>b. Some (fst b)) (count_buckets d rows) = count_buckets d rows"
  unfolding order_by_def
  by (rule js_sort_sorted)
     (use bucket_chain.distinct_starts [OF assms] in
       \<open>auto simp: count_buckets_def order_cmp_le sorted_wrt_map elim!: sorted_wrt_mono_rel [rotated]\<close>)

lemma running_rows:
  assumes "chain start rows"
  shows "running acc (map (row_sum time weight es) rows) =
    map (\<lambda>r. acc + row_sum time weight es (start, snd r)) rows"
  using assms
proof (induction start rows arbitrary: acc rule: chain.induct)
  case (2 s a b rs)
  have later: "row_sum time weight es (s, snd r) = row_sum time weight es (s, b) + row_sum time weight es (b, snd r)"
    if "r \<in> set rs" for r
  proof (rule row_sum_split)
    show "s \<le> b" using 2 by simp
    have "b \<le> fst r \<and> fst r < snd r" using that 2 chain_row [of b rs r] by simp
    then show "b \<le> snd r" by simp
  qed
  show ?case using 2 later by simp
qed simp

lemma sum_list_filter_le:
  "\<forall>x \<in> set xs. 0 \<le> f x \<Longrightarrow> 0 \<le> sum_list (map f (filter P xs)) \<and> sum_list (map f (filter P xs)) \<le> sum_list (map f xs)"
  for f :: "'a \<Rightarrow> int"
  by (induction xs) auto

lemma count_point_value:
  assumes "\<forall>b \<in> set bs. 0 \<le> b_tx_count b" "of_int (sum_list (map b_tx_count bs)) < double_limit"
  shows "count_point (t, row_sum b_timestamp b_tx_count bs r) =
    \<lparr>timestamp = Some (Some t), data = Some (Fin (of_int (row_sum b_timestamp b_tx_count bs r)))\<rparr>"
proof -
  let ?v = "row_sum b_timestamp b_tx_count bs r"
  have v: "0 \<le> ?v" "?v \<le> sum_list (map b_tx_count bs)"
    using sum_list_filter_le [OF assms(1)] by (auto simp: row_sum_def)
  then have "(of_int ?v :: rat) < double_limit" using assms(2) by (meson le_less_trans of_int_le_iff)
  with v(1) js_Number_bigint [of "nat ?v"] have "js_Number (J (bigint ?v)) = Fin (of_int ?v)" by simp
  then show ?thesis by (simp add: count_point_def new_SeriesData_def del: js_Number.simps)
qed

lemma zip_map_fst_snd: "zip (map fst rows) (map snd rows) = rows"
  by (induction rows) auto

section \<open>Counts per kind\<close>

record kind_totals =
  k_special :: jsnum
  k_coinjoin :: jsnum
  k_multisig :: jsnum
  k_normal :: jsnum

definition zero_totals :: kind_totals where
  "zero_totals = \<lparr>k_special = Fin 0, k_coinjoin = Fin 0, k_multisig = Fin 0, k_normal = Fin 0\<rparr>"

text \<open>A row of four \<open>bigint\<close> counts and its addition to the totals.\<close>

record count_row =
  c_special :: int
  c_coinjoin :: int
  c_multisig :: int
  c_normal :: int

definition add_row :: "kind_totals \<Rightarrow> count_row \<Rightarrow> kind_totals" where
  "add_row t row =
     \<lparr>k_special = num_add (k_special t) (js_Number (J (bigint (c_special row)))),
      k_coinjoin = num_add (k_coinjoin t) (js_Number (J (bigint (c_coinjoin row)))),
      k_multisig = num_add (k_multisig t) (js_Number (J (bigint (c_multisig row)))),
      k_normal = num_add (k_normal t) (js_Number (J (bigint (c_normal row))))\<rparr>"

definition is_special :: "tx_row \<Rightarrow> bool" where "is_special t \<longleftrightarrow> 0 < t_type t"

definition is_normal :: "tx_row \<Rightarrow> bool" where
  "is_normal t \<longleftrightarrow> t_type t = 0 \<and> \<not> t_coinjoin t \<and> \<not> t_multisig t"

definition count_kinds :: "tx_row list \<Rightarrow> count_row" where
  "count_kinds ts =
     \<lparr>c_special = int (length (filter is_special ts)),
      c_coinjoin = int (length (filter t_coinjoin ts)),
      c_multisig = int (length (filter t_multisig ts)),
      c_normal = int (length (filter is_normal ts))\<rparr>"

definition msPerHour :: int where "msPerHour = 3600000"

definition hour_ceil :: "int \<Rightarrow> int" where
  "hour_ceil t = \<lceil>of_int t / (of_int msPerHour :: rat)\<rceil> * msPerHour"

definition hour_floor :: "int \<Rightarrow> int" where
  "hour_floor t = \<lfloor>of_int t / (of_int msPerHour :: rat)\<rfloor> * msPerHour"

definition hourly_totals :: "db \<Rightarrow> int \<Rightarrow> int \<Rightarrow> count_row" where
  "hourly_totals d hourLo hourHi =
     (let rows = filter (\<lambda>r. hourLo \<le> h_hour r \<and> h_hour r < hourHi) (db_hourly d)
      in \<lparr>c_special = sum_list (map h_special rows), c_coinjoin = sum_list (map h_coinjoin rows),
          c_multisig = sum_list (map h_multisig rows), c_normal = sum_list (map h_normal rows)\<rparr>)"

text \<open>One live slice: the heights of its blocks, then the transactions between those heights.\<close>

definition slice_blocks :: "db \<Rightarrow> int \<times> int \<Rightarrow> block_row list" where
  "slice_blocks d slice =
     filter (\<lambda>b. fst slice \<le> b_timestamp b \<and> b_timestamp b \<le> snd slice) (db_blocks d)"

definition slice_txs :: "db \<Rightarrow> int \<times> int \<Rightarrow> tx_row list" where
  "slice_txs d slice =
     (let heights = b_height ` set (slice_blocks d slice) in
      filter (\<lambda>t. case t_block_height t of None \<Rightarrow> False | Some h \<Rightarrow> Min heights \<le> h \<and> h \<le> Max heights)
        (db_transactions d))"

definition live_slice :: "db \<Rightarrow> kind_totals \<Rightarrow> int \<times> int \<Rightarrow> kind_totals" where
  "live_slice d t slice =
     (if slice_blocks d slice = [] then t else add_row t (count_kinds (slice_txs d slice)))"

definition live_slices :: "int \<Rightarrow> int \<Rightarrow> (int \<times> int) list" where
  "live_slices start end' =
     (let hourLo = hour_ceil start; hourHi = hour_floor end' in
      if hourLo < hourHi
      then (if start < hourLo then [(start, hourLo - 1)] else []) @
           (if hourHi < end' then [(hourHi, end')] else [])
      else [(start, end')])"

definition getTransactionStats :: "db \<Rightarrow> int \<Rightarrow> int \<Rightarrow> TransactionStats" where
  "getTransactionStats d start end' =
     (let hourLo = hour_ceil start; hourHi = hour_floor end';
          useRollup = (hourLo < hourHi);
          rolled = (if useRollup then add_row zero_totals (hourly_totals d hourLo hourHi) else zero_totals);
          added = foldl (live_slice d) rolled (live_slices start end')
      in TransactionStats_of (k_special added) (k_coinjoin added) (k_normal added) (k_multisig added))"

section \<open>Counts over a window\<close>

definition tx_time :: "db \<Rightarrow> tx_row \<Rightarrow> int option" where
  "tx_time d t = Option.bind (t_block_height t) (\<lambda>h. map_option b_timestamp (block_at d h))"

definition in_window :: "db \<Rightarrow> int \<Rightarrow> int \<Rightarrow> tx_row \<Rightarrow> bool" where
  "in_window d a b t = (case tx_time d t of None \<Rightarrow> False | Some s \<Rightarrow> a \<le> s \<and> s \<le> b)"

definition window_txs :: "db \<Rightarrow> int \<Rightarrow> int \<Rightarrow> tx_row list" where
  "window_txs d a b = filter (in_window d a b) (db_transactions d)"

text \<open>The counts as exact numbers.\<close>

definition add_counts :: "count_row \<Rightarrow> count_row \<Rightarrow> count_row" where
  "add_counts a b =
     \<lparr>c_special = c_special a + c_special b, c_coinjoin = c_coinjoin a + c_coinjoin b,
      c_multisig = c_multisig a + c_multisig b, c_normal = c_normal a + c_normal b\<rparr>"

definition totals_of :: "count_row \<Rightarrow> kind_totals" where
  "totals_of c =
     \<lparr>k_special = Fin (of_int (c_special c)), k_coinjoin = Fin (of_int (c_coinjoin c)),
      k_multisig = Fin (of_int (c_multisig c)), k_normal = Fin (of_int (c_normal c))\<rparr>"

lemma length_filter_disjoint:
  "(\<And>x. x \<in> set xs \<Longrightarrow> \<not> (P x \<and> Q x)) \<Longrightarrow>
   length (filter (\<lambda>x. P x \<or> Q x) xs) = length (filter P xs) + length (filter Q xs)"
  by (induction xs) auto

lemma count_kinds_disjoint:
  assumes "\<And>x. x \<in> set ts \<Longrightarrow> \<not> (P x \<and> Q x)"
  shows "count_kinds (filter (\<lambda>x. P x \<or> Q x) ts) = add_counts (count_kinds (filter P ts)) (count_kinds (filter Q ts))"
proof -
  have kind: "length (filter K (filter (\<lambda>x. P x \<or> Q x) ts)) =
      length (filter K (filter P ts)) + length (filter K (filter Q ts))" for K
  proof -
    have "filter K (filter (\<lambda>x. P x \<or> Q x) ts) = filter (\<lambda>x. (K x \<and> P x) \<or> (K x \<and> Q x)) ts"
      unfolding filter_filter by (rule filter_cong) auto
    then show ?thesis
      using length_filter_disjoint [of ts "\<lambda>x. K x \<and> P x" "\<lambda>x. K x \<and> Q x"] assms
      by (simp add: conj_commute)
  qed
  show ?thesis by (simp only: count_kinds_def add_counts_def kind of_nat_add count_row.select_convs)
qed

lemma count_kinds_Nil: "count_kinds [] = \<lparr>c_special = 0, c_coinjoin = 0, c_multisig = 0, c_normal = 0\<rparr>"
  by (simp add: count_kinds_def)

lemma add_counts_Nil [simp]: "add_counts c (count_kinds []) = c" "add_counts (count_kinds []) c = c"
  by (simp_all add: add_counts_def count_kinds_Nil)

lemma window_split:
  assumes "a \<le> m" "m \<le> b + 1"
  shows "count_kinds (window_txs d a b) =
    add_counts (count_kinds (window_txs d a (m - 1))) (count_kinds (window_txs d m b))"
proof -
  have "in_window d a b = (\<lambda>t. in_window d a (m - 1) t \<or> in_window d m b t)"
    using assms by (auto simp: in_window_def fun_eq_iff split: option.splits)
  then show ?thesis
    unfolding window_txs_def
    by (simp only:) (rule count_kinds_disjoint, auto simp: in_window_def split: option.splits)
qed

lemma add_row_totals:
  assumes "of_nat (length ts) < double_limit"
  shows "add_row (totals_of c) (count_kinds ts) = totals_of (add_counts c (count_kinds ts))"
proof -
  have "of_nat (length (filter K ts)) < double_limit" for K
    using assms by (rule le_less_trans [rotated]) simp
  from js_Number_bigint [OF this]
  have num: "js_Number (J (bigint (int (length (filter K ts))))) = Fin (of_nat (length (filter K ts)))" for K .
  show ?thesis by (simp add: add_row_def totals_of_def add_counts_def count_kinds_def num del: js_Number.simps)
qed

text \<open>What the indexer keeps true of the hourly table.\<close>

definition in_hour :: "db \<Rightarrow> hourly_row \<Rightarrow> tx_row \<Rightarrow> bool" where
  "in_hour d r = in_window d (h_hour r) (h_hour r + msPerHour - 1)"

definition hourly_counts :: "hourly_row \<Rightarrow> count_row" where
  "hourly_counts r =
     \<lparr>c_special = h_special r, c_coinjoin = h_coinjoin r, c_multisig = h_multisig r, c_normal = h_normal r\<rparr>"

definition hourly_exact :: "db \<Rightarrow> bool" where
  "hourly_exact d \<longleftrightarrow> distinct (map h_hour (db_hourly d)) \<and>
     (\<forall>r \<in> set (db_hourly d). h_hour r mod msPerHour = 0 \<and>
        hourly_counts r = count_kinds (filter (in_hour d r) (db_transactions d))) \<and>
     (\<forall>t \<in> set (db_transactions d). tx_time d t \<noteq> None \<longrightarrow> (\<exists>r \<in> set (db_hourly d). in_hour d r t))"

lemma multiples_apart:
  assumes "a mod msPerHour = 0" "b mod msPerHour = 0" "a < b"
  shows "a + msPerHour \<le> b"
proof -
  have pos: "0 < msPerHour" by (simp add: msPerHour_def)
  obtain x y where a: "a = msPerHour * x" and b: "b = msPerHour * y"
    using assms(1,2) by (meson dvdE mod_0_imp_dvd)
  have "x + 1 \<le> y" using assms(3) pos by (simp add: a b)
  then have "msPerHour * (x + 1) \<le> msPerHour * y" using pos by (intro mult_left_mono) simp_all
  then show ?thesis by (simp add: a b distrib_left)
qed

lemma hours_disjoint:
  assumes "h_hour r mod msPerHour = 0" "h_hour r' mod msPerHour = 0" "in_hour d r t" "in_hour d r' t"
  shows "h_hour r = h_hour r'"
proof -
  obtain s where s: "h_hour r \<le> s" "s \<le> h_hour r + msPerHour - 1" "h_hour r' \<le> s" "s \<le> h_hour r' + msPerHour - 1"
    using assms by (auto simp: in_hour_def in_window_def split: option.splits)
  have "\<not> h_hour r < h_hour r'" using multiples_apart [OF assms(1,2)] s by linarith
  moreover have "\<not> h_hour r' < h_hour r" using multiples_apart [OF assms(2,1)] s by linarith
  ultimately show ?thesis by simp
qed

lemma hourly_sum:
  assumes "distinct (map h_hour rs)"
    "\<And>r. r \<in> set rs \<Longrightarrow> h_hour r mod msPerHour = 0 \<and> hourly_counts r = count_kinds (filter (in_hour d r) ts)"
  shows "\<lparr>c_special = sum_list (map h_special rs), c_coinjoin = sum_list (map h_coinjoin rs),
      c_multisig = sum_list (map h_multisig rs), c_normal = sum_list (map h_normal rs)\<rparr> =
    count_kinds (filter (\<lambda>t. \<exists>r \<in> set rs. in_hour d r t) ts)"
  using assms
proof (induction rs)
  case (Cons r rs)
  have "count_kinds (filter (\<lambda>t. \<exists>r \<in> set (r # rs). in_hour d r t) ts) =
      count_kinds (filter (\<lambda>t. in_hour d r t \<or> (\<exists>r \<in> set rs. in_hour d r t)) ts)" by simp
  also have "\<dots> = add_counts (count_kinds (filter (in_hour d r) ts))
      (count_kinds (filter (\<lambda>t. \<exists>r \<in> set rs. in_hour d r t) ts))"
  proof (rule count_kinds_disjoint)
    fix t
    show "\<not> (in_hour d r t \<and> (\<exists>r \<in> set rs. in_hour d r t))"
      using hours_disjoint [of r _ d t] Cons.prems by (auto simp: image_iff)
  qed
  also have "\<dots> = add_counts (hourly_counts r)
      \<lparr>c_special = sum_list (map h_special rs), c_coinjoin = sum_list (map h_coinjoin rs),
       c_multisig = sum_list (map h_multisig rs), c_normal = sum_list (map h_normal rs)\<rparr>"
    using Cons by simp
  finally show ?case by (simp add: add_counts_def hourly_counts_def)
qed (simp add: count_kinds_def)

lemma msPerHour_pos: "(0 :: rat) < of_int msPerHour"
  by (simp add: msPerHour_def)

lemma hour_ceil_bounds: "t \<le> hour_ceil t" "hour_ceil t mod msPerHour = 0"
proof -
  have "of_int t / (of_int msPerHour :: rat) \<le> of_int \<lceil>of_int t / (of_int msPerHour :: rat)\<rceil>" by simp
  then have "of_int t \<le> (of_int (hour_ceil t) :: rat)"
    by (simp only: pos_divide_le_eq [OF msPerHour_pos] hour_ceil_def of_int_mult)
  then show "t \<le> hour_ceil t" by (simp only: of_int_le_iff)
qed (simp add: hour_ceil_def)

lemma hour_floor_bounds: "hour_floor t \<le> t" "hour_floor t mod msPerHour = 0"
proof -
  have "of_int \<lfloor>of_int t / (of_int msPerHour :: rat)\<rfloor> \<le> of_int t / (of_int msPerHour :: rat)" by simp
  then have "of_int (hour_floor t) \<le> (of_int t :: rat)"
    by (simp only: pos_le_divide_eq [OF msPerHour_pos] hour_floor_def of_int_mult)
  then show "hour_floor t \<le> t" by (simp only: of_int_le_iff)
qed (simp add: hour_floor_def)

lemma hourly_totals_exact:
  assumes "hourly_exact d" "lo mod msPerHour = 0" "hi mod msPerHour = 0"
  shows "hourly_totals d lo hi = count_kinds (window_txs d lo (hi - 1))"
proof -
  let ?rs = "filter (\<lambda>r. lo \<le> h_hour r \<and> h_hour r < hi) (db_hourly d)"
  have inside: "lo \<le> h \<and> h < hi \<longleftrightarrow> lo \<le> s \<and> s \<le> hi - 1"
    if "h mod msPerHour = 0" "h \<le> s" "s \<le> h + msPerHour - 1" for h s
    using that multiples_apart [OF that(1) assms(3)] multiples_apart [OF that(1) assms(2)] 
      multiples_apart [OF assms(2) that(1)] by linarith
  have "(\<exists>r \<in> set ?rs. in_hour d r t) \<longleftrightarrow> in_window d lo (hi - 1) t"
    if t: "t \<in> set (db_transactions d)" for t
  proof (cases "tx_time d t")
    case (Some s)
    have hour: "in_hour d r t \<longleftrightarrow> h_hour r \<le> s \<and> s \<le> h_hour r + msPerHour - 1" for r
      by (simp add: in_hour_def in_window_def Some)
    obtain r where "r \<in> set (db_hourly d)" "in_hour d r t"
      using assms(1) t Some by (auto simp: hourly_exact_def)
    moreover have "h_hour r mod msPerHour = 0" if "r \<in> set (db_hourly d)" for r
      using assms(1) that by (simp add: hourly_exact_def)
    ultimately show ?thesis
      using inside by (auto simp: in_window_def Some hour) blast+
  qed (simp add: in_hour_def in_window_def)
  then have "filter (\<lambda>t. \<exists>r \<in> set ?rs. in_hour d r t) (db_transactions d) = window_txs d lo (hi - 1)"
    unfolding window_txs_def by (intro filter_cong) auto
  moreover have "distinct (map h_hour ?rs)"
    using assms(1) by (simp add: hourly_exact_def distinct_map_filter)
  moreover have "h_hour r mod msPerHour = 0 \<and> hourly_counts r = count_kinds (filter (in_hour d r) (db_transactions d))"
    if "r \<in> set ?rs" for r using that assms(1) by (auto simp: hourly_exact_def)
  ultimately show ?thesis
    unfolding hourly_totals_def Let_def using hourly_sum [of ?rs d "db_transactions d"] by simp
qed

text \<open>
  A slice is turned into heights: the lowest and the highest of its blocks. Block times may step back
  from one height to the next, so a block in between can lie outside the slice in time, and its
  transactions are counted with the slice all the same: they are the strays of the slice.
\<close>

definition between :: "block_row list \<Rightarrow> int \<Rightarrow> bool" where
  "between bs h \<longleftrightarrow> list_ex (\<lambda>l. b_height l \<le> h) bs \<and> list_ex (\<lambda>u. h \<le> b_height u) bs"

definition stray :: "db \<Rightarrow> int \<times> int \<Rightarrow> tx_row \<Rightarrow> bool" where
  "stray d s t \<longleftrightarrow> \<not> in_window d (fst s) (snd s) t \<and>
     (case t_block_height t of None \<Rightarrow> False | Some h \<Rightarrow> between (slice_blocks d s) h)"

definition strays :: "db \<Rightarrow> int \<times> int \<Rightarrow> tx_row list" where
  "strays d s = filter (stray d s) (db_transactions d)"

lemma between_heights:
  assumes "bs \<noteq> []"
  shows "Min (b_height ` set bs) \<le> h \<and> h \<le> Max (b_height ` set bs) \<longleftrightarrow> between bs h"
  using assms by (simp add: between_def Min_le_iff Max_ge_iff list_ex_iff)

lemma between_Nil [simp]: "\<not> between [] h"
  by (simp add: between_def)

lemma block_at_between:
  assumes "block_at d h = Some c" "a \<le> b_timestamp c" "b_timestamp c \<le> b"
  shows "between (slice_blocks d (a, b)) h"
  using assms by (auto simp: between_def slice_blocks_def list_ex_iff block_at_def dest!: find_SomeD)

lemma in_window_between:
  assumes "in_window d a b t"
  shows "case t_block_height t of None \<Rightarrow> False | Some h \<Rightarrow> between (slice_blocks d (a, b)) h"
proof (cases "t_block_height t")
  case None
  with assms show ?thesis by (simp add: in_window_def tx_time_def)
next
  case (Some h)
  with assms obtain c where "block_at d h = Some c" "a \<le> b_timestamp c" "b_timestamp c \<le> b"
    by (auto simp: in_window_def tx_time_def split: option.splits)
  from block_at_between [OF this] show ?thesis by (simp add: Some)
qed

text \<open>What a slice counts: the transactions of its window and its strays.\<close>

lemma slice_txs_exact:
  "slice_blocks d (a, b) \<noteq> [] \<Longrightarrow>
     slice_txs d (a, b) = filter (\<lambda>t. in_window d a b t \<or> stray d (a, b) t) (db_transactions d)"
  "slice_blocks d (a, b) = [] \<Longrightarrow>
     filter (\<lambda>t. in_window d a b t \<or> stray d (a, b) t) (db_transactions d) = []"
proof -
  have stray_or: "in_window d a b t \<or> stray d (a, b) t \<longleftrightarrow>
      (case t_block_height t of None \<Rightarrow> False | Some h \<Rightarrow> between (slice_blocks d (a, b)) h)" for t
    using in_window_between [of d a b t] by (auto simp: stray_def)
  show "slice_txs d (a, b) = filter (\<lambda>t. in_window d a b t \<or> stray d (a, b) t) (db_transactions d)"
    if "slice_blocks d (a, b) \<noteq> []"
    unfolding stray_or slice_txs_def Let_def between_heights [OF that] by (rule refl)
  show "filter (\<lambda>t. in_window d a b t \<or> stray d (a, b) t) (db_transactions d) = []"
    if "slice_blocks d (a, b) = []"
    unfolding stray_or that by (auto simp: filter_empty_conv split: option.splits)
qed

lemma count_kinds_append: "count_kinds (xs @ ys) = add_counts (count_kinds xs) (count_kinds ys)"
  by (simp add: count_kinds_def add_counts_def)

lemma add_counts_assoc: "add_counts (add_counts a b) c = add_counts a (add_counts b c)"
  by (simp add: add_counts_def)

lemma add_counts_commute: "add_counts a b = add_counts b a"
  by (simp add: add_counts_def)

lemma add_counts_left_commute: "add_counts a (add_counts b c) = add_counts b (add_counts a c)"
  by (simp add: add_counts_def)

lemmas add_counts_ac = add_counts_assoc add_counts_commute add_counts_left_commute

lemma live_slice_exact:
  assumes "of_nat (length (db_transactions d)) < double_limit"
  shows "live_slice d (totals_of c) (a, b) =
    totals_of (add_counts c (count_kinds (window_txs d a b @ strays d (a, b))))"
proof -
  let ?ts = "filter (\<lambda>t. in_window d a b t \<or> stray d (a, b) t) (db_transactions d)"
  have "of_nat (length ?ts) < double_limit" using assms by (rule le_less_trans [rotated]) simp
  moreover have "count_kinds ?ts = count_kinds (window_txs d a b @ strays d (a, b))"
    unfolding count_kinds_append window_txs_def strays_def
    by (rule count_kinds_disjoint) (simp add: stray_def)
  moreover have "live_slice d (totals_of c) (a, b) = add_row (totals_of c) (count_kinds ?ts)"
  proof (cases "slice_blocks d (a, b) = []")
    case True
    then show ?thesis
      using slice_txs_exact(2) [OF True] add_row_totals [of "[] :: tx_row list" c] below_double_limit [of 0]
      by (simp add: live_slice_def)
  next
    case False
    then show ?thesis using slice_txs_exact(1) [OF False] by (simp add: live_slice_def)
  qed
  ultimately show ?thesis using add_row_totals [of ?ts c] by simp
qed

text \<open>Where block times never step back from one height to the next, no slice has strays.\<close>

lemma no_strays:
  assumes "\<forall>b \<in> set (db_blocks d). \<forall>c \<in> set (db_blocks d). b_height b \<le> b_height c \<longrightarrow> b_timestamp b \<le> b_timestamp c"
    "\<forall>t \<in> set (db_transactions d). \<forall>h. t_block_height t = Some h \<longrightarrow> block_at d h \<noteq> None"
  shows "strays d s = []"
proof -
  have "\<not> stray d s t" if t: "t \<in> set (db_transactions d)" for t
  proof (cases "t_block_height t")
    case (Some h)
    then obtain c where c: "block_at d h = Some c" using assms(2) t by blast
    then have cin: "c \<in> set (db_blocks d)" "b_height c = h" by (auto simp: block_at_def dest: find_SomeD)
    have "fst s \<le> b_timestamp c \<and> b_timestamp c \<le> snd s" if "between (slice_blocks d s) h"
    proof -
      obtain l u where "l \<in> set (slice_blocks d s)" "b_height l \<le> h" "u \<in> set (slice_blocks d s)" "h \<le> b_height u"
        using \<open>between (slice_blocks d s) h\<close> by (auto simp: between_def list_ex_iff)
      with assms(1) cin show ?thesis by (auto simp: slice_blocks_def intro: order_trans)
    qed
    then show ?thesis by (auto simp: stray_def Some in_window_def tx_time_def c)
  qed (simp add: stray_def)
  then show ?thesis by (simp add: strays_def filter_empty_conv)
qed

lemma window_empty: "b < a \<Longrightarrow> window_txs d a b = []"
  by (auto simp: window_txs_def in_window_def filter_empty_conv split: option.splits)

lemma zero_totals_of: "zero_totals = totals_of (count_kinds [])"
  by (simp add: zero_totals_def totals_of_def count_kinds_Nil)

text \<open>
  The last instant that is counted. When whole hours are used and the window ends on an hour, no slice
  remains for its very last instant.
\<close>

definition counted_until :: "int \<Rightarrow> int \<Rightarrow> int" where
  "counted_until start end' =
     (if hour_ceil start < hour_floor end' \<and> hour_floor end' = end' then end' - 1 else end')"

text \<open>The transactions that are counted, as often as they are.\<close>

definition counted_txs :: "db \<Rightarrow> int \<Rightarrow> int \<Rightarrow> tx_row list" where
  "counted_txs d start end' =
     window_txs d start (counted_until start end') @ concat (map (strays d) (live_slices start end'))"

lemma set_counted_txs: "set (counted_txs d start end') \<subseteq> set (db_transactions d)"
  by (auto simp: counted_txs_def window_txs_def strays_def)

lemma getTransactionStats_counts:
  assumes "hourly_exact d" "of_nat (length (db_transactions d)) < double_limit"
  shows "foldl (live_slice d)
      (if hour_ceil start < hour_floor end'
       then add_row zero_totals (hourly_totals d (hour_ceil start) (hour_floor end')) else zero_totals)
      (live_slices start end') =
    totals_of (count_kinds (counted_txs d start end'))"
proof -
  define lo hi where "lo = hour_ceil start" and "hi = hour_floor end'"
  have bounds: "start \<le> lo" "hi \<le> end'" by (simp_all add: lo_def hi_def hour_ceil_bounds hour_floor_bounds)
  have few: "of_nat (length (window_txs d a b)) < double_limit" for a b
    using assms(2) by (rule le_less_trans [rotated]) (simp add: window_txs_def)
  define W S where "W = (\<lambda>a b. count_kinds (window_txs d a b))" and "S = (\<lambda>s. count_kinds (strays d s))"
  have counts: "count_kinds (window_txs d a b @ ts) = add_counts (W a b) (count_kinds ts)"
    "count_kinds (strays d s @ ts) = add_counts (S s) (count_kinds ts)"
    "count_kinds (window_txs d a b) = W a b" "count_kinds (strays d s) = S s" for a b s ts
    by (simp_all add: count_kinds_append W_def S_def)
  have slice: "live_slice d (totals_of c) (a, b) = totals_of (add_counts c (add_counts (W a b) (S (a, b))))" for c a b
    by (simp add: live_slice_exact [OF assms(2)] counts)
  have split: "W a b = add_counts (W a (m - 1)) (W m b)" if "a \<le> m" "m \<le> b + 1" for a m b
    using window_split [OF that] by (simp add: W_def)
  show ?thesis
  proof (cases "lo < hi")
    case True
    have rolled: "add_row zero_totals (hourly_totals d lo hi) = totals_of (W lo (hi - 1))"
      unfolding hourly_totals_exact [OF assms(1) hour_ceil_bounds(2) hour_floor_bounds(2)] zero_totals_of lo_def hi_def
      by (simp add: add_row_totals [OF few] W_def)
    have starts: "W start (hi - 1) = add_counts (W start (lo - 1)) (W lo (hi - 1))" if "start < lo"
      using split [of start lo "hi - 1"] True that by simp
    have ends: "W start end' = add_counts (W start (hi - 1)) (W hi end')" if "hi < end'"
      using split [of start hi end'] True bounds that by simp
    have same: "start = lo" if "\<not> start < lo" using bounds that by simp
    have until: "counted_until start end' = (if hi < end' then end' else hi - 1)"
      using True bounds by (simp add: counted_until_def flip: lo_def hi_def)
    show ?thesis
      using True starts ends same
      by (auto simp: live_slices_def counted_txs_def until rolled slice counts Let_def add_counts_ac
          simp flip: lo_def hi_def)
  next
    case False
    then show ?thesis
      by (simp add: live_slices_def zero_totals_of slice counted_until_def counted_txs_def counts flip: lo_def hi_def)
  qed
qed

section \<open>What the statistics say\<close>

text \<open>
  A running count series has one entry for each bucket of the window, stamped with the start of the
  bucket, and its value is the number of transactions of all blocks from the start of the window
  (exclusive) to the end of the bucket (inclusive).
\<close>

theorem count_series_running:
  assumes "ranges (pg_add interval) start end' ms = Some rows" "0 < ms"
    "\<forall>b \<in> set (db_blocks d). 0 \<le> b_tx_count b"
    "of_int (sum_list (map b_tx_count (db_blocks d))) < double_limit"
  shows "getTransactionCountSeries pg_add d start end' interval ms True =
    Inr (map (\<lambda>r. \<lparr>timestamp = Some (Some (fst r)),
      data = Some (Fin (of_int (row_sum b_timestamp b_tx_count (db_blocks d) (start, snd r))))\<rparr>) rows)"
proof -
  note chain = ranges_chain(1) [OF assms(1,2)]
  have "map snd (count_buckets d rows) = map (row_sum b_timestamp b_tx_count (db_blocks d)) rows"
    by (simp add: count_buckets_def)
  then have "running 0 (map snd (count_buckets d rows)) =
      map (\<lambda>r. row_sum b_timestamp b_tx_count (db_blocks d) (start, snd r)) rows"
    using running_rows [of start rows 0] chain by (simp add: bucket_chain_def)
  moreover have "map fst (count_buckets d rows) = map fst rows" by (simp add: count_buckets_def)
  ultimately show ?thesis
    by (simp add: getTransactionCountSeries_def assms(1) count_buckets_sorted [OF chain] zip_map_map
        count_point_value [OF assms(3,4)] zip_same_conv_map Let_def)
qed

text \<open>
  Without a running total, the entries of the count series add up to the number of transactions
  of the blocks that the series reaches: no block is counted twice and none is left out.
\<close>

theorem count_series_partition:
  assumes "ranges (pg_add interval) start end' ms = Some rows" "0 < ms"
    "\<forall>b \<in> set (db_blocks d). 0 \<le> b_tx_count b"
    "of_int (sum_list (map b_tx_count (db_blocks d))) < double_limit"
  shows "getTransactionCountSeries pg_add d start end' interval ms False =
      Inr (map (\<lambda>r. \<lparr>timestamp = Some (Some (fst r)),
        data = Some (Fin (of_int (row_sum b_timestamp b_tx_count (db_blocks d) r)))\<rparr>) rows) \<and>
    sum_list (map (row_sum b_timestamp b_tx_count (db_blocks d)) rows) =
      row_sum b_timestamp b_tx_count (db_blocks d) (start, chain_end start rows)"
proof
  note chain = ranges_chain(1) [OF assms(1,2)]
  show "getTransactionCountSeries pg_add d start end' interval ms False =
      Inr (map (\<lambda>r. \<lparr>timestamp = Some (Some (fst r)),
        data = Some (Fin (of_int (row_sum b_timestamp b_tx_count (db_blocks d) r)))\<rparr>) rows)"
    by (simp add: getTransactionCountSeries_def assms(1) count_buckets_sorted [OF chain] zip_map_fst_snd)
       (simp add: count_buckets_def count_point_value [OF assms(3,4)])
  show "sum_list (map (row_sum b_timestamp b_tx_count (db_blocks d)) rows) =
      row_sum b_timestamp b_tx_count (db_blocks d) (start, chain_end start rows)"
    by (rule bucket_chain.sum_rows [OF chain])
qed

text \<open>
  C9: the statistics of a window, where the table of hours holds the exact counts of every hour that
  has transactions (what the indexer keeps of it) and there are fewer transactions than a double can
  count. The reply holds the exact counts of the special, CoinJoin, multisig and normal transactions
  whose block is timed in the window, and their sum, although most of them come from the table of
  hours: the hours and the live slices at the edges neither overlap nor leave a gap, but for two
  things. The very last instant of a window that ends on an hour is not counted. And as the slices are cut
  by the heights of their first and last block, a transaction whose block lies between these heights but is
  timed outside the slice (block times may step back) is counted for each such slice too, on top of what
  the hours and the other slices hold of it.
\<close>

theorem stats_exact:
  assumes "hourly_exact d" "of_nat (length (db_transactions d)) < double_limit"
  shows "getTransactionStats d start end' =
    (let ts = window_txs d start (counted_until start end') @ concat (map (strays d) (live_slices start end'));
         n = (\<lambda>K. length (filter K ts)) in
     \<lparr>ts_total = Some (Fin (of_nat (n is_special + n t_coinjoin + n t_multisig + n is_normal))),
      ts_special = Some (Fin (of_nat (n is_special))), ts_coinjoin = Some (Fin (of_nat (n t_coinjoin))),
      ts_multisig = Some (Fin (of_nat (n t_multisig))), ts_normal = Some (Fin (of_nat (n is_normal)))\<rparr>)"
  using getTransactionStats_counts [OF assms, of start end', unfolded counted_txs_def]
  by (simp add: getTransactionStats_def TransactionStats_of_def totals_of_def count_kinds_def Let_def
      del: filter_append)

section \<open>Sample statistics\<close>

text \<open>Two blocks, in the first and in the second hour, with one hourly row each.\<close>

definition sample_hourly_db :: db where
  "sample_hourly_db =
     sample_wallet_db\<lparr>db_hourly :=
       [\<lparr>h_hour = 0, h_special = 1, h_coinjoin = 0, h_multisig = 0, h_normal = 0\<rparr>,
        \<lparr>h_hour = 3600000, h_special = 1, h_coinjoin = 0, h_multisig = 0, h_normal = 1\<rparr>]\<rparr>"

lemmas sample_hourly = sample_hourly_db_def sample_wallet_db_def sample_tx_def sample_chain_block_def

lemma sample_times:
  "tx_time sample_hourly_db (sample_tx 1 (Some 1) True 5) = Some 1000"
  "tx_time sample_hourly_db (sample_tx 2 (Some 2) False 0) = Some 5400000"
  "tx_time sample_hourly_db (sample_tx 3 (Some 2) True 5) = Some 5400000"
  "tx_time sample_hourly_db (sample_tx 4 None False 0) = None"
  by (simp_all add: tx_time_def block_at_def sample_hourly)

lemma sample_in_window:
  "in_window sample_hourly_db a b (sample_tx 1 (Some 1) True 5) \<longleftrightarrow> a \<le> 1000 \<and> 1000 \<le> b"
  "in_window sample_hourly_db a b (sample_tx 2 (Some 2) False 0) \<longleftrightarrow> a \<le> 5400000 \<and> 5400000 \<le> b"
  "in_window sample_hourly_db a b (sample_tx 3 (Some 2) True 5) \<longleftrightarrow> a \<le> 5400000 \<and> 5400000 \<le> b"
  "\<not> in_window sample_hourly_db a b (sample_tx 4 None False 0)"
  by (simp_all add: in_window_def sample_times)

lemma sample_hourly_tables:
  "db_transactions sample_hourly_db =
     [sample_tx 1 (Some 1) True 5, sample_tx 2 (Some 2) False 0, sample_tx 3 (Some 2) True 5, sample_tx 4 None False 0]"
  "db_hourly sample_hourly_db =
     [\<lparr>h_hour = 0, h_special = 1, h_coinjoin = 0, h_multisig = 0, h_normal = 0\<rparr>,
      \<lparr>h_hour = 3600000, h_special = 1, h_coinjoin = 0, h_multisig = 0, h_normal = 1\<rparr>]"
  by (simp_all add: sample_hourly_db_def sample_wallet_db_def)

lemma sample_kinds:
  "is_special (sample_tx i h c ty) \<longleftrightarrow> 0 < ty" "\<not> t_coinjoin (sample_tx i h c ty)"
  "\<not> t_multisig (sample_tx i h c ty)" "is_normal (sample_tx i h c ty) \<longleftrightarrow> ty = 0"
  by (simp_all add: sample_tx_def is_special_def is_normal_def)

lemma sample_hourly_exact: "hourly_exact sample_hourly_db"
  unfolding hourly_exact_def sample_hourly_tables
  by (simp add: in_hour_def sample_in_window msPerHour_def hourly_counts_def count_kinds_def sample_kinds sample_times)

lemma sample_no_strays: "strays sample_hourly_db s = []"
  by (rule no_strays) (simp_all add: block_at_def sample_hourly)

text \<open>
  A chain whose third block is timed before the second: half an hour in, while the second is an hour and
  a half in. The window of the second hour reaches from block 2 to block 4 and counts block 3 as well.
\<close>

definition stepping_back_db :: db where
  "stepping_back_db =
     sample_wallet_db\<lparr>
       db_blocks := [sample_chain_block 1 1000, sample_chain_block 2 5400000, sample_chain_block 3 1800000,
                     sample_chain_block 4 5500000],
       db_transactions := [sample_tx 1 (Some 2) False 0, sample_tx 2 (Some 3) False 0, sample_tx 3 (Some 4) False 5],
       db_hourly :=
         [\<lparr>h_hour = 0, h_special = 0, h_coinjoin = 0, h_multisig = 0, h_normal = 1\<rparr>,
          \<lparr>h_hour = 3600000, h_special = 1, h_coinjoin = 0, h_multisig = 0, h_normal = 1\<rparr>]\<rparr>"

lemmas stepping_back = stepping_back_db_def sample_wallet_db_def sample_tx_def sample_chain_block_def

lemma stepping_back_hourly_exact: "hourly_exact stepping_back_db"
  by (simp add: hourly_exact_def in_hour_def in_window_def tx_time_def block_at_def stepping_back
      msPerHour_def hourly_counts_def count_kinds_def is_special_def is_normal_def)

theorem stats_exact_witness:
  "ts_total (getTransactionStats sample_hourly_db 0 6000000) = Some (Fin 3) \<and>
   length (window_txs stepping_back_db 3700000 6000000) = 2 \<and>
   ts_total (getTransactionStats stepping_back_db 3700000 6000000) = Some (Fin 3)"
proof (intro conjI)
  have "of_nat (length (db_transactions sample_hourly_db)) < double_limit"
    using below_double_limit [of 4] by (simp add: sample_hourly)
  moreover have "\<lfloor>5 / 3 :: rat\<rfloor> = 1" by (simp add: floor_eq_iff)
  then have "counted_until 0 6000000 = 6000000"
    by (simp add: counted_until_def hour_ceil_def hour_floor_def msPerHour_def)
  ultimately show "ts_total (getTransactionStats sample_hourly_db 0 6000000) = Some (Fin 3)"
    using stats_exact [OF sample_hourly_exact, of 0 6000000]
    by (simp add: window_txs_def sample_hourly_tables(1) sample_in_window sample_kinds sample_no_strays Let_def comp_def)
next
  show "length (window_txs stepping_back_db 3700000 6000000) = 2"
    by (simp add: window_txs_def in_window_def tx_time_def block_at_def stepping_back)
next
  have "of_nat (length (db_transactions stepping_back_db)) < double_limit"
    using below_double_limit [of 3] by (simp add: stepping_back)
  moreover have "\<lfloor>5 / 3 :: rat\<rfloor> = 1" "\<lceil>37 / 36 :: rat\<rceil> = 2" by (simp_all add: floor_eq_iff ceiling_eq_iff)
  then have "counted_until 3700000 6000000 = 6000000" "live_slices 3700000 6000000 = [(3700000, 6000000)]"
    by (simp_all add: counted_until_def live_slices_def hour_ceil_def hour_floor_def msPerHour_def)
  ultimately show "ts_total (getTransactionStats stepping_back_db 3700000 6000000) = Some (Fin 3)"
    using stats_exact [OF stepping_back_hourly_exact, of 3700000 6000000]
    by (simp add: window_txs_def strays_def stray_def between_def slice_blocks_def in_window_def tx_time_def
        block_at_def stepping_back is_special_def is_normal_def Let_def)
qed

lemma sample_count_ranges:
  "ranges (\<lambda>t. t + 3600000) 0 7200000 3600000 = Some [(0, 3600000), (3600000, 7200000)]"
  by (simp add: ranges_def generate_series.simps lag_rows_def)

lemma sample_hourly_blocks:
  "db_blocks sample_hourly_db = [sample_chain_block 1 1000, sample_chain_block 2 5400000]"
  "\<forall>b \<in> set (db_blocks sample_hourly_db). 0 \<le> b_tx_count b"
  "of_int (sum_list (map b_tx_count (db_blocks sample_hourly_db))) < double_limit"
  using below_double_limit [of 2] by (simp_all add: sample_hourly)

lemma sample_row_sum:
  "row_sum b_timestamp b_tx_count (db_blocks sample_hourly_db) (0, 3600000) = 1"
  "row_sum b_timestamp b_tx_count (db_blocks sample_hourly_db) (0, 7200000) = 2"
  "row_sum b_timestamp b_tx_count (db_blocks sample_hourly_db) (3600000, 7200000) = 1"
  by (simp_all add: sample_hourly_blocks(1) row_sum_def in_row_def sample_chain_block_def)

theorem count_series_running_witness:
  "getTransactionCountSeries (\<lambda>_ t. t + 3600000) sample_hourly_db 0 7200000 ''PT1H'' 3600000 True =
     Inr [\<lparr>timestamp = Some (Some 0), data = Some (Fin 1)\<rparr>,
          \<lparr>timestamp = Some (Some 3600000), data = Some (Fin 2)\<rparr>]"
  using count_series_running [of "\<lambda>_ t. t + 3600000", OF sample_count_ranges _ sample_hourly_blocks(2,3)]
  by (simp add: sample_row_sum)

theorem count_series_partition_witness:
  "getTransactionCountSeries (\<lambda>_ t. t + 3600000) sample_hourly_db 0 7200000 ''PT1H'' 3600000 False =
     Inr [\<lparr>timestamp = Some (Some 0), data = Some (Fin 1)\<rparr>,
          \<lparr>timestamp = Some (Some 3600000), data = Some (Fin 1)\<rparr>]"
  using count_series_partition [of "\<lambda>_ t. t + 3600000", OF sample_count_ranges _ sample_hourly_blocks(2,3)]
  by (simp add: sample_row_sum)

end
