(* ===== verification/Ranking.thy ===== *)
theory Ranking
  imports Sql
begin

text \<open>
  The first elements of a ranking. The locale \<open>strict_ranking\<close> extends the contract of a comparator
  by antisymmetry, so that a ranking is determined by its set of elements; its main result is that the
  first \<open>n\<close> of a union are found among the first \<open>n\<close> of each part.
\<close>

locale strict_ranking = js_comparator +
  assumes antisym: "cmp x y \<le> 0 \<Longrightarrow> cmp y x \<le> 0 \<Longrightarrow> x = y"
begin

lemma ranking_unique:
  "sorted_wrt (\<lambda>a b. cmp a b \<le> 0) xs \<Longrightarrow> sorted_wrt (\<lambda>a b. cmp a b \<le> 0) ys \<Longrightarrow>
   distinct xs \<Longrightarrow> distinct ys \<Longrightarrow> set xs = set ys \<Longrightarrow> xs = ys"
proof (induction xs arbitrary: ys)
  case (Cons x xs)
  then obtain y ys' where ys: "ys = y # ys'" by (cases ys) auto
  have "x = y"
  proof (rule ccontr)
    assume "x \<noteq> y"
    with Cons.prems ys have "x \<in> set ys'" "y \<in> set xs" by auto
    with Cons.prems ys \<open>x \<noteq> y\<close> antisym [of x y] show False by auto
  qed
  with Cons.prems ys have "set xs = set ys'" by auto
  with Cons ys \<open>x = y\<close> show ?case by auto
qed auto

lemma js_sort_set_cong:
  "distinct xs \<Longrightarrow> distinct ys \<Longrightarrow> set xs = set ys \<Longrightarrow> js_sort cmp xs = js_sort cmp ys"
  by (rule ranking_unique) (auto simp: sorted_js_sort)

text \<open>The elements ranked before an element.\<close>

definition before :: "'a set \<Rightarrow> 'a \<Rightarrow> 'a set" where
  "before S x = {y \<in> S. y \<noteq> x \<and> cmp y x \<le> 0}"

lemma before_sorted:
  assumes "sorted_wrt (\<lambda>a b. cmp a b \<le> 0) xs" "distinct xs" "i < length xs"
  shows "before (set xs) (xs ! i) = set (take i xs)"
proof (intro equalityI subsetI)
  fix y assume "y \<in> before (set xs) (xs ! i)"
  then obtain j where j: "j < length xs" "y = xs ! j" "cmp y (xs ! i) \<le> 0" "y \<noteq> xs ! i"
    by (auto simp: before_def in_set_conv_nth)
  have "j < i"
  proof (rule ccontr)
    assume "\<not> j < i"
    with j have "i < j" by (metis linorder_neqE_nat)
    then have "cmp (xs ! i) (xs ! j) \<le> 0"
      using sorted_wrt_nth_less [OF assms(1)] j(1) by blast
    with j antisym show False by blast
  qed
  with j assms(3) show "y \<in> set (take i xs)" by (auto simp: in_set_conv_nth)
next
  fix y assume "y \<in> set (take i xs)"
  then obtain j where j: "j < i" "y = xs ! j" using assms(3) by (auto simp: in_set_conv_nth)
  have "cmp (xs ! j) (xs ! i) \<le> 0" using sorted_wrt_nth_less [OF assms(1) j(1) assms(3)] .
  moreover have "xs ! j \<noteq> xs ! i" using assms j by (simp add: nth_eq_iff_index_eq)
  ultimately have "cmp (xs ! j) (xs ! i) \<le> 0" "xs ! j \<noteq> xs ! i" by auto
  with j assms(3) show "y \<in> before (set xs) (xs ! i)" by (auto simp: before_def)
qed

text \<open>An element is among the first \<open>n\<close> when fewer than \<open>n\<close> are ranked before it.\<close>

lemma in_top_iff:
  assumes "distinct xs"
  shows "x \<in> set (take n (js_sort cmp xs)) \<longleftrightarrow> x \<in> set xs \<and> card (before (set xs) x) < n"
proof -
  let ?s = "js_sort cmp xs"
  have s: "sorted_wrt (\<lambda>a b. cmp a b \<le> 0) ?s" "distinct ?s" "set ?s = set xs"
    by (simp_all add: sorted_js_sort assms)
  have card: "card (before (set xs) (?s ! i)) = i" if "i < length ?s" for i
    using before_sorted [OF s(1,2) that] that distinct_card [OF distinct_take [OF s(2)], of i] by (simp add: s(3))
  show ?thesis
  proof
    assume "x \<in> set (take n ?s)"
    then obtain i where "i < n" "i < length ?s" "x = ?s ! i" by (auto simp: in_set_conv_nth)
    with card s(3) nth_mem [of i ?s] show "x \<in> set xs \<and> card (before (set xs) x) < n" by auto
  next
    assume *: "x \<in> set xs \<and> card (before (set xs) x) < n"
    then obtain i where "i < length ?s" "x = ?s ! i" by (metis in_set_conv_nth s(3))
    with * card show "x \<in> set (take n ?s)" by (auto simp: in_set_conv_nth)
  qed
qed

lemma top_subset:
  assumes "distinct xs" "distinct ys" "set ys \<subseteq> set xs" "x \<in> set ys" "x \<in> set (take n (js_sort cmp xs))"
  shows "x \<in> set (take n (js_sort cmp ys))"
proof -
  have "before (set ys) x \<subseteq> before (set xs) x" using assms(3) by (auto simp: before_def)
  then have "card (before (set ys) x) \<le> card (before (set xs) x)"
    by (rule card_mono [rotated]) (simp add: before_def)
  with assms show ?thesis by (auto simp: in_top_iff)
qed

text \<open>Whatever lies between the first \<open>n\<close> of a list and the list has the same first \<open>n\<close>.\<close>

lemma top_between:
  assumes "distinct xs" "distinct ys" "set ys \<subseteq> set xs" "set (take n (js_sort cmp xs)) \<subseteq> set ys"
  shows "take n (js_sort cmp ys) = take n (js_sort cmp xs)"
proof (rule ranking_unique)
  let ?T = "set (take n (js_sort cmp xs))"
  show "set (take n (js_sort cmp ys)) = ?T"
  proof (intro equalityI subsetI)
    fix x assume x: "x \<in> set (take n (js_sort cmp ys))"
    show "x \<in> ?T"
    proof (rule ccontr)
      assume out: "x \<notin> ?T"
      from x assms(2) have xy: "x \<in> set ys" "card (before (set ys) x) < n" by (auto simp: in_top_iff)
      then have xs: "x \<in> set (js_sort cmp xs)" using assms(3) by auto
      then obtain i where i: "i < length xs" "x = js_sort cmp xs ! i"
        unfolding in_set_conv_nth by auto
      with out have n: "n \<le> i" by (metis in_set_conv_nth leI length_js_sort length_take min_less_iff_conj nth_take)
      have "?T \<subseteq> before (set xs) x"
        using before_sorted [OF sorted_js_sort [of xs], of i] i assms(1)
          set_take_subset_set_take [OF n, of "js_sort cmp xs"] by simp
      then have "?T \<subseteq> before (set ys) x" using assms(4) by (auto simp: before_def)
      then have "card ?T \<le> card (before (set ys) x)"
        by (rule card_mono [rotated]) (simp add: before_def)
      moreover have "card ?T = n" using n i assms(1) by (simp add: distinct_card)
      ultimately show False using xy by simp
    qed
  next
    fix x assume "x \<in> ?T"
    with assms show "x \<in> set (take n (js_sort cmp ys))" by (meson subsetD top_subset)
  qed
qed (auto simp: sorted_js_sort sorted_wrt_take assms)

text \<open>The first \<open>n\<close> of several lists together are found among the first \<open>n\<close> of each.\<close>

lemma top_of_parts:
  assumes "distinct xs" "distinct ys" "\<And>p. p \<in> set parts \<Longrightarrow> distinct p"
    "set xs = (\<Union>p \<in> set parts. set p)"
    "set ys = (\<Union>p \<in> set parts. set (take n (js_sort cmp p)))"
  shows "take n (js_sort cmp ys) = take n (js_sort cmp xs)"
proof (rule top_between [OF assms(1,2)])
  show "set ys \<subseteq> set xs" using assms(4,5) by (fastforce dest: in_set_takeD)
  show "set (take n (js_sort cmp xs)) \<subseteq> set ys"
  proof
    fix x assume x: "x \<in> set (take n (js_sort cmp xs))"
    then have "x \<in> set xs" by (auto dest: in_set_takeD)
    then obtain p where p: "p \<in> set parts" "x \<in> set p" using assms(4) by auto
    then have "set p \<subseteq> set xs" using assms(4) by auto
    with top_subset [OF assms(1) assms(3) [OF p(1)] _ p(2) x] p assms(5)
    show "x \<in> set ys" by auto
  qed
qed

text \<open>Those ranked strictly after the element at a position are the rest of the list.\<close>

lemma filter_after:
  assumes "sorted_wrt (\<lambda>a b. cmp a b \<le> 0) xs" "distinct xs" "i < length xs"
  shows "filter (\<lambda>y. y \<noteq> xs ! i \<and> cmp (xs ! i) y \<le> 0) xs = drop (Suc i) xs"
proof -
  define ys zs where "ys = take i xs" and "zs = drop (Suc i) xs"
  have xs: "xs = ys @ xs ! i # zs" unfolding ys_def zs_def by (rule id_take_nth_drop [OF assms(3)])
  obtain x where x: "x = xs ! i" by simp
  have s: "sorted_wrt (\<lambda>a b. cmp a b \<le> 0) (ys @ x # zs)" "distinct (ys @ x # zs)"
    using assms xs x by simp_all
  have 1: "filter (\<lambda>y. y \<noteq> x \<and> cmp x y \<le> 0) ys = []"
    using s antisym [of x] by (auto simp: sorted_wrt_append filter_empty_conv)
  have 2: "filter (\<lambda>y. y \<noteq> x \<and> cmp x y \<le> 0) zs = zs"
    using s by (auto simp: sorted_wrt_append filter_id_conv)
  have "filter (\<lambda>y. y \<noteq> x \<and> cmp x y \<le> 0) (ys @ x # zs) = zs" by (simp add: 1 2)
  moreover have "ys @ x # zs = xs" using xs x by simp
  ultimately have "filter (\<lambda>y. y \<noteq> x \<and> cmp x y \<le> 0) xs = zs" by simp
  then show ?thesis unfolding x zs_def .
qed

end

text \<open>
  The ranking of the history: entries of a transaction id and a height, the highest first and, within
  a block, the latest id first.
\<close>

definition entry_keys :: "(sql_dir \<times> (int \<times> int \<Rightarrow> int option)) list" where
  "entry_keys = [(Desc, \<lambda>e. Some (snd e)), (Desc, \<lambda>e. Some (fst e))]"

lemma entry_cmp_le:
  "keys_cmp entry_keys x y \<le> 0 \<longleftrightarrow> snd y < snd x \<or> snd x = snd y \<and> fst y \<le> fst x"
  unfolding entry_keys_def keys_cmp_Cons by auto

interpretation history: strict_ranking "keys_cmp entry_keys"
  by unfold_locales (auto simp: entry_cmp_le prod_eq_iff)

end
