(* ===== verification/XpubHistory.thy ===== *)
theory XpubHistory
  imports Transactions Ranking
begin

text \<open>
  \<open>getXpubTransactions\<close> of \<open>api/src/dao/TransactionsDAO.ts\<close>: the history of all addresses of a wallet,
  merged from one page per address and paged by a cursor. The theorem says that the merge loses
  nothing: a page is the next stretch of the whole history.
\<close>

section \<open>The query\<close>

text \<open>The bound that the cursor puts on an entry, an id and a height.\<close>

definition below :: "int \<times> int \<Rightarrow> int \<times> int \<Rightarrow> bool" where
  "below position e \<longleftrightarrow>
     snd e \<le> snd position \<and> (snd e < snd position \<or> fst e < fst position)"

definition bounded :: "(int \<times> int) option \<Rightarrow> (int \<times> int) list \<Rightarrow> (int \<times> int) list" where
  "bounded position es = (case position of None \<Rightarrow> es | Some p \<Rightarrow> filter (below p) es)"

definition address_history :: "db \<Rightarrow> int \<Rightarrow> (int \<times> int) list" where
  "address_history d aid =
     map (\<lambda>r. (at_tx_id r, at_block_height r))
       (filter (\<lambda>r. at_address_id r = aid) (db_address_transactions d))"

definition perAddressPage :: "db \<Rightarrow> (int \<times> int) option \<Rightarrow> nat \<Rightarrow> int \<Rightarrow> (int \<times> int) list" where
  "perAddressPage d position perAddress aid =
     take perAddress (order_by_keys entry_keys (bounded position (address_history d aid)))"

definition addressTxIds :: "db \<Rightarrow> (int \<times> int) option \<Rightarrow> nat \<Rightarrow> int list \<Rightarrow> (int \<times> int) list" where
  "addressTxIds d position perAddress addressIds =
     take perAddress (order_by_keys entry_keys
       (group_max (concat (map (perAddressPage d position perAddress) addressIds))))"

definition history_keys :: "(sql_dir \<times> (tx_row \<Rightarrow> int option)) list" where
  "history_keys = [(Desc, t_block_height), (Desc, \<lambda>t. Some (t_id t))]"

definition cursor_position :: "db \<Rightarrow> string \<Rightarrow> (int \<times> int) option" where
  "cursor_position d cursor =
     map_option (\<lambda>t. (t_id t, or_else (t_block_height t) 0))
       (find (\<lambda>t. t_hash t = cursor \<and> t_block_height t \<noteq> None) (db_transactions d))"

definition xpub_page ::
  "db \<Rightarrow> int list \<Rightarrow> nat \<Rightarrow> (int \<times> int) option \<Rightarrow> bool \<Rightarrow> tx_row list \<times> tx_row list \<times> string option" where
  "xpub_page d addressIds limit position firstPage =
     (let perAddress = limit + 1;
          pageIds = map fst (addressTxIds d position perAddress addressIds) @
            (if firstPage
             then map t_id (pendingTransactionIds d (\<lambda>i. \<exists>a \<in> set addressIds. i = Some a) JUndef)
             else []);
          rows = order_by_keys history_keys (filter (\<lambda>t. t_id t \<in> set pageIds) (db_transactions d));
          pending = filter (\<lambda>t. t_block_height t = None) rows;
          confirmed = filter (\<lambda>t. t_block_height t \<noteq> None) rows;
          hasMore = length confirmed > limit;
          page = (if hasMore then take limit confirmed else confirmed)
      in (pending, page, if hasMore then map_option t_hash (js_last page) else None))"

definition unknown_cursor :: "string \<Rightarrow> string" where
  "unknown_cursor cursor = ''Unknown cursor transaction '' @ cursor"

definition getXpubTransactions ::
  "'p sdk \<Rightarrow> network \<Rightarrow> db \<Rightarrow> int list \<Rightarrow> nat \<Rightarrow> string js \<Rightarrow> 'p Transaction CursorResultSet result" where
  "getXpubTransactions sdk net d addressIds limit cursor =
     (let build = (\<lambda>position firstPage.
            let (pending, page, next') = xpub_page d addressIds limit position firstPage in
            bind_result (to_transactions sdk net (map (tx_columns d True) (pending @ page)))
              (\<lambda>txs. Inr (new_CursorResultSet txs (int limit) next')))
      in if addressIds = [] then Inr (new_CursorResultSet [] (int limit) None)
         else case or_null cursor of
                None \<Rightarrow> build None True
              | Some c \<Rightarrow> (case cursor_position d c of
                             None \<Rightarrow> Inl (InvalidCursor (unknown_cursor c))
                           | Some position \<Rightarrow> build (Some position) False))"

section \<open>The whole history\<close>

text \<open>What the indexer keeps true: keys, and the height of an entry is that of its transaction.\<close>

definition indexed :: "db \<Rightarrow> bool" where
  "indexed d \<longleftrightarrow> keyed d \<and>
     (\<forall>r \<in> set (db_address_transactions d). \<exists>t \<in> set (db_transactions d).
        t_id t = at_tx_id r \<and> t_block_height t = Some (at_block_height r))"

definition wallet_history :: "db \<Rightarrow> int list \<Rightarrow> tx_row list" where
  "wallet_history d addressIds =
     order_by_keys history_keys
       (filter (\<lambda>t. \<exists>r \<in> set (db_address_transactions d).
                      at_tx_id r = t_id t \<and> at_address_id r \<in> set addressIds)
          (db_transactions d))"

definition entry_of :: "tx_row \<Rightarrow> int \<times> int" where
  "entry_of t = (t_id t, or_else (t_block_height t) 0)"

lemma indexedD:
  assumes "indexed d"
  shows "inj_on t_id (set (db_transactions d))" "inj_on t_hash (set (db_transactions d))"
    "distinct (db_transactions d)"
  using assms by (auto simp: indexed_def keyed_def distinct_map)

lemma indexed_entry:
  assumes "indexed d" "r \<in> set (db_address_transactions d)" "t \<in> set (db_transactions d)" "t_id t = at_tx_id r"
  shows "t_block_height t = Some (at_block_height r)"
proof -
  obtain u where "u \<in> set (db_transactions d)" "t_id u = at_tx_id r" "t_block_height u = Some (at_block_height r)"
    using assms(1,2) by (auto simp: indexed_def)
  with assms indexedD(1) [OF assms(1)] show ?thesis by (metis inj_onD)
qed

lemma wallet_confirmed: "indexed d \<Longrightarrow> t \<in> set (wallet_history d ids) \<Longrightarrow> t_block_height t \<noteq> None"
  using indexed_entry by (fastforce simp: wallet_history_def)

lemma below_cmp: "below p e \<longleftrightarrow> e \<noteq> p \<and> keys_cmp entry_keys p e \<le> 0"
  by (auto simp: below_def entry_cmp_le prod_eq_iff)

text \<open>Confirmed transactions in the order of the final query are their entries in the ranking.\<close>

lemma history_cmp_entry:
  "t_block_height t \<noteq> None \<Longrightarrow> t_block_height u \<noteq> None \<Longrightarrow>
   keys_cmp history_keys t u \<le> 0 \<Longrightarrow> keys_cmp entry_keys (entry_of t) (entry_of u) \<le> 0"
  unfolding history_keys_def keys_cmp_Cons entry_cmp_le by (auto simp: entry_of_def split: if_splits)

lemma sorted_entries:
  assumes "\<forall>t \<in> set ts. t_block_height t \<noteq> None"
    "sorted_wrt (\<lambda>a b. keys_cmp history_keys a b \<le> 0) ts"
  shows "sorted_wrt (\<lambda>a b. keys_cmp entry_keys a b \<le> 0) (map entry_of ts)"
  unfolding sorted_wrt_map
  by (rule sorted_wrt_mono_rel [OF _ assms(2)]) (use assms(1) history_cmp_entry in blast)

lemma inj_entry_of: "inj_on t_id S \<Longrightarrow> inj_on entry_of S"
  by (auto simp: inj_on_def entry_of_def)

lemma group_max_functional:
  assumes "\<And>i h h'. (i, h) \<in> set es \<Longrightarrow> (i, h') \<in> set es \<Longrightarrow> h = h'"
  shows "set (group_max es) = set es" "distinct (group_max es)"
proof -
  have max: "Max (set (map snd (filter (\<lambda>e. fst e = i) es))) = h" if "(i, h) \<in> set es" for i h
  proof -
    have "y = h" if "y \<in> snd ` {e \<in> set es. fst e = i}" for y
    proof -
      from that have "(i, y) \<in> set es" by auto
      from this \<open>(i, h) \<in> set es\<close> show ?thesis by (rule assms)
    qed
    moreover have "h \<in> snd ` {e \<in> set es. fst e = i}"
      using \<open>(i, h) \<in> set es\<close> by (intro image_eqI [of _ snd "(i, h)"]) auto
    ultimately have "snd ` {e \<in> set es. fst e = i} = {h}" by blast
    then show ?thesis by simp
  qed
  have "set (group_max es) = (\<lambda>i. (i, Max (set (map snd (filter (\<lambda>e. fst e = i) es))))) ` fst ` set es"
    by (simp add: group_max_def)
  also have "\<dots> = (\<lambda>e. e) ` set es"
    unfolding image_image by (rule image_cong [OF refl]) (metis max prod.collapse)
  finally show "set (group_max es) = set es" by simp
  show "distinct (group_max es)"
    by (auto simp: group_max_def distinct_map inj_on_def)
qed

lemma address_history_in:
  "e \<in> set (address_history d a) \<longleftrightarrow>
   (\<exists>r \<in> set (db_address_transactions d). at_address_id r = a \<and> e = (at_tx_id r, at_block_height r))"
  by (auto simp: address_history_def)

lemma distinct_address_history: "indexed d \<Longrightarrow> distinct (address_history d a)"
  by (auto simp: indexed_def keyed_def address_history_def distinct_map inj_on_def distinct_filter)

lemma set_bounded: "set (bounded p es) = {e \<in> set es. \<forall>q. p = Some q \<longrightarrow> below q e}"
  by (auto simp: bounded_def split: option.splits)

lemma distinct_bounded: "distinct es \<Longrightarrow> distinct (bounded p es)"
  by (auto simp: bounded_def split: option.splits)

lemma history_functional:
  "indexed d \<Longrightarrow> (i, h) \<in> set (address_history d a) \<Longrightarrow> (i, h') \<in> set (address_history d b) \<Longrightarrow> h = h'"
  by (auto simp: address_history_in indexed_def) (metis indexed_def indexed_entry option.inject)

text \<open>The entries of the history are the entries of the addresses.\<close>

lemma wallet_entries:
  assumes "indexed d"
  shows "set (map entry_of (wallet_history d ids)) = (\<Union>a \<in> set ids. set (address_history d a))"
proof (intro equalityI subsetI)
  fix e assume "e \<in> set (map entry_of (wallet_history d ids))"
  then obtain t r where t: "t \<in> set (db_transactions d)" "e = entry_of t"
    "r \<in> set (db_address_transactions d)" "at_tx_id r = t_id t" "at_address_id r \<in> set ids"
    by (auto simp: wallet_history_def)
  have "e = (at_tx_id r, at_block_height r)"
    using indexed_entry [OF assms t(3,1)] t(2,4) by (simp add: entry_of_def)
  with t(3) have "e \<in> set (address_history d (at_address_id r))" by (auto simp: address_history_in)
  with t(5) show "e \<in> (\<Union>a \<in> set ids. set (address_history d a))" by blast
next
  fix e assume "e \<in> (\<Union>a \<in> set ids. set (address_history d a))"
  then obtain r where r: "r \<in> set (db_address_transactions d)" "at_address_id r \<in> set ids"
    "e = (at_tx_id r, at_block_height r)" by (auto simp: address_history_in)
  with assms obtain t where "t \<in> set (db_transactions d)" "t_id t = at_tx_id r"
    "t_block_height t = Some (at_block_height r)" by (auto simp: indexed_def)
  with r show "e \<in> set (map entry_of (wallet_history d ids))"
    by (force simp: wallet_history_def entry_of_def)
qed

lemma wallet_entries_sorted:
  assumes "indexed d"
  shows "sorted_wrt (\<lambda>a b. keys_cmp entry_keys a b \<le> 0) (map entry_of (wallet_history d ids))"
    "distinct (map entry_of (wallet_history d ids))"
proof -
  show "sorted_wrt (\<lambda>a b. keys_cmp entry_keys a b \<le> 0) (map entry_of (wallet_history d ids))"
    by (rule sorted_entries) (use wallet_confirmed [OF assms] in \<open>auto simp: wallet_history_def sorted_order_by_keys\<close>)
  have "inj_on entry_of (set (db_transactions d))" by (rule inj_entry_of [OF indexedD(1) [OF assms]])
  then show "distinct (map entry_of (wallet_history d ids))"
    using indexedD(3) [OF assms] by (auto simp: distinct_map wallet_history_def intro: inj_on_subset)
qed

text \<open>The merge of one page per address is the first part of the whole, bounded, history.\<close>

lemma addressTxIds_exact:
  assumes "indexed d"
  shows "addressTxIds d position n ids = take n (bounded position (map entry_of (wallet_history d ids)))"
proof -
  let ?H = "bounded position (map entry_of (wallet_history d ids))"
  let ?parts = "map (\<lambda>a. bounded position (address_history d a)) ids"
  let ?merged = "concat (map (perAddressPage d position n) ids)"
  have sorted: "sorted_wrt (\<lambda>a b. keys_cmp entry_keys a b \<le> 0) ?H" and distinct: "distinct ?H"
    using wallet_entries_sorted [OF assms, of ids]
    by (auto simp: bounded_def sorted_wrt_filter split: option.splits)
  have merged: "set ?merged = (\<Union>p \<in> set ?parts. set (take n (js_sort (keys_cmp entry_keys) p)))"
    by (auto simp: perAddressPage_def order_by_keys_def)
  have sub: "set ?merged \<subseteq> (\<Union>a \<in> set ids. set (address_history d a))"
    unfolding merged by (auto simp: set_bounded dest!: in_set_takeD)
  have fn: "\<And>i h h'. (i, h) \<in> set ?merged \<Longrightarrow> (i, h') \<in> set ?merged \<Longrightarrow> h = h'"
    using sub history_functional [OF assms] by blast
  note group = group_max_functional [of ?merged, OF fn]
  have "take n (js_sort (keys_cmp entry_keys) (group_max ?merged)) = take n (js_sort (keys_cmp entry_keys) ?H)"
  proof (rule history.top_of_parts [where parts = ?parts])
    show "distinct p" if "p \<in> set ?parts" for p
      using that distinct_address_history [OF assms] by (auto intro: distinct_bounded)
    show "set ?H = (\<Union>p \<in> set ?parts. set p)"
      using wallet_entries [OF assms, of ids] by (simp only: set_bounded) (auto simp: set_bounded)
    show "set (group_max ?merged) = (\<Union>p \<in> set ?parts. set (take n (js_sort (keys_cmp entry_keys) p)))"
      using group(1) merged by simp
  qed (use distinct group(2) in simp_all)
  then show ?thesis
    by (simp add: addressTxIds_def order_by_keys_def js_sort_sorted [OF sorted])
qed

section \<open>Pages\<close>

definition rest_of :: "db \<Rightarrow> int list \<Rightarrow> (int \<times> int) option \<Rightarrow> tx_row list" where
  "rest_of d ids position =
     filter (\<lambda>t. case position of None \<Rightarrow> True | Some q \<Rightarrow> below q (entry_of t)) (wallet_history d ids)"

lemma bounded_rest: "bounded position (map entry_of (wallet_history d ids)) = map entry_of (rest_of d ids position)"
  by (simp add: bounded_def rest_of_def filter_map comp_def split: option.splits)

text \<open>The confirmed rows of the final query are the next stretch of the history, and one more.\<close>

lemma confirmed_rows:
  fixes d ids position n
  assumes "indexed d" "\<forall>i \<in> extra. \<exists>t \<in> set (db_transactions d). t_id t = i \<and> t_block_height t = None"
  shows "filter (\<lambda>t. t_block_height t \<noteq> None)
     (order_by_keys history_keys
       (filter (\<lambda>t. t_id t \<in> fst ` set (addressTxIds d position n ids) \<union> extra) (db_transactions d))) =
    take n (rest_of d ids position)"
proof -
  let ?rows = "order_by_keys history_keys
    (filter (\<lambda>t. t_id t \<in> fst ` set (addressTxIds d position n ids) \<union> extra) (db_transactions d))"
  let ?c = "filter (\<lambda>t. t_block_height t \<noteq> None) ?rows"
  let ?T = "take n (rest_of d ids position)"
  have exact: "addressTxIds d position n ids = map entry_of ?T"
    by (simp add: addressTxIds_exact [OF assms(1)] bounded_rest take_map)
  have T: "set ?T \<subseteq> set (wallet_history d ids)" by (auto simp: rest_of_def dest: in_set_takeD)
  then have T_tx: "set ?T \<subseteq> set (db_transactions d)" by (auto simp: wallet_history_def)
  note inj = indexedD(1) [OF assms(1)]
  have same: "t \<in> set ?T" if "t \<in> set (db_transactions d)" "u \<in> set ?T" "t_id t = t_id u" for t u
    using that T_tx inj by (metis inj_onD subsetD)
  have set: "set ?c = set ?T"
  proof (intro equalityI subsetI)
    fix t assume t: "t \<in> set ?c"
    then have tx: "t \<in> set (db_transactions d)" "t_block_height t \<noteq> None" by auto
    have "t_id t \<notin> extra" using tx inj assms(2) by (metis inj_onD)
    with t have "t_id t \<in> fst ` set (map entry_of ?T)" by (auto simp: exact)
    then obtain u where "u \<in> set ?T" "t_id t = t_id u" by (auto simp: entry_of_def)
    with same tx show "t \<in> set ?T" by blast
  next
    fix t assume t: "t \<in> set ?T"
    then have "entry_of t \<in> set (addressTxIds d position n ids)" unfolding exact by simp
    then have "t_id t \<in> fst ` set (addressTxIds d position n ids)"
      by (intro image_eqI [of _ fst "entry_of t"]) (simp_all add: entry_of_def)
    moreover have "t \<in> set (db_transactions d)" "t_block_height t \<noteq> None"
      using t T T_tx wallet_confirmed [OF assms(1)] by auto
    ultimately show "t \<in> set ?c" by simp
  qed
  have "map entry_of ?c = map entry_of ?T"
  proof (rule history.ranking_unique)
    show "sorted_wrt (\<lambda>a b. keys_cmp entry_keys a b \<le> 0) (map entry_of ?c)"
      by (rule sorted_entries) (auto intro: sorted_wrt_filter sorted_order_by_keys)
    show "sorted_wrt (\<lambda>a b. keys_cmp entry_keys a b \<le> 0) (map entry_of ?T)"
      using wallet_entries_sorted(1) [OF assms(1), of ids]
      by (simp add: rest_of_def sorted_wrt_map sorted_wrt_take sorted_wrt_filter)
    show "distinct (map entry_of ?c)"
      using inj_entry_of [OF inj] indexedD(3) [OF assms(1)]
      by (auto simp: distinct_map intro: inj_on_subset)
    show "distinct (map entry_of ?T)"
      using inj_entry_of [OF inj] T_tx wallet_entries_sorted(2) [OF assms(1), of ids]
      by (auto simp: distinct_map rest_of_def intro: inj_on_subset)
  qed (simp only: set_map set)
  moreover have "inj_on entry_of (set ?c \<union> set ?T)"
    by (rule inj_on_subset [OF inj_entry_of [OF inj]]) (use T_tx in auto)
  ultimately show ?thesis by (simp add: inj_on_map_eq_map)
qed

lemma pending_ids_pending:
  "\<forall>i \<in> set (map t_id (pendingTransactionIds d owned ty)).
     \<exists>t \<in> set (db_transactions d). t_id t = i \<and> t_block_height t = None"
  by (auto simp: pendingTransactionIds_def)

lemma page_of_rest:
  "length (take (limit + 1) xs) > limit \<longleftrightarrow> limit < length xs"
  "0 < limit \<Longrightarrow> limit < length xs \<Longrightarrow> js_last (take limit (take (limit + 1) xs)) = Some (xs ! (limit - 1))"
  by (auto simp: js_last_def last_conv_nth min_def)

text \<open>One page: the next stretch, and the hash of its last transaction when more follow.\<close>

lemma xpub_page_exact:
  assumes "indexed d" "0 < limit" "xpub_page d ids limit position firstPage = (pending, page, next')"
  shows "page = take limit (rest_of d ids position)"
    "next' = (if limit < length (rest_of d ids position)
              then Some (t_hash (rest_of d ids position ! (limit - 1))) else None)"
    "set pending = (if firstPage
       then set (pendingTransactionIds d (\<lambda>i. \<exists>a \<in> set ids. i = Some a) JUndef) else {})"
    "distinct pending"
proof -
  let ?P = "pendingTransactionIds d (\<lambda>i. \<exists>a \<in> set ids. i = Some a) JUndef"
  let ?extra = "if firstPage then set (map t_id ?P) else {}"
  let ?rows = "order_by_keys history_keys
    (filter (\<lambda>t. t_id t \<in> fst ` set (addressTxIds d position (limit + 1) ids) \<union> ?extra) (db_transactions d))"
  have extra: "\<forall>i \<in> ?extra. \<exists>t \<in> set (db_transactions d). t_id t = i \<and> t_block_height t = None"
    using pending_ids_pending [of d _ JUndef] by auto
  note confirmed = confirmed_rows [OF assms(1) extra, of position "limit + 1" ids]
  have ids: "set (map fst (addressTxIds d position (limit + 1) ids) @ (if firstPage then map t_id ?P else [])) =
      fst ` set (addressTxIds d position (limit + 1) ids) \<union> ?extra" by simp
  have page: "xpub_page d ids limit position firstPage =
      (filter (\<lambda>t. t_block_height t = None) ?rows,
       (let c = take (limit + 1) (rest_of d ids position) in if length c > limit then take limit c else c),
       (let c = take (limit + 1) (rest_of d ids position) in
        if length c > limit then map_option t_hash (js_last (take limit c)) else None))"
    unfolding xpub_page_def Let_def ids confirmed by simp
  show "page = take limit (rest_of d ids position)"
    using assms(3) unfolding page by (auto simp: Let_def min_def split: if_splits)
  show "next' = (if limit < length (rest_of d ids position)
      then Some (t_hash (rest_of d ids position ! (limit - 1))) else None)"
    using assms(3) page_of_rest [of limit "rest_of d ids position"] assms(2)
    unfolding page by (auto simp: Let_def)
  have pending: "pending = filter (\<lambda>t. t_block_height t = None) ?rows" using assms(3) page by simp
  show "distinct pending" unfolding pending using indexedD(3) [OF assms(1)] by simp
  have addr: "t_block_height t \<noteq> None"
    if t: "t \<in> set (db_transactions d)" "t_id t \<in> fst ` set (addressTxIds d position (limit + 1) ids)" for t
  proof -
    from t(2) obtain u where "u \<in> set (wallet_history d ids)" "t_id t = t_id u"
      by (auto simp: addressTxIds_exact [OF assms(1)] bounded_rest take_map rest_of_def entry_of_def
          dest!: in_set_takeD)
    moreover from this have "u \<in> set (db_transactions d)" by (simp add: wallet_history_def)
    ultimately show ?thesis
      using t(1) indexedD(1) [OF assms(1)] wallet_confirmed [OF assms(1)] by (metis inj_onD)
  qed
  obtain P where P: "P = ?P" by simp
  have sub: "set P \<subseteq> set (db_transactions d)" "\<forall>t \<in> set P. t_block_height t = None"
    by (auto simp: P pendingTransactionIds_def)
  have own: "t_id t \<in> t_id ` set P \<longleftrightarrow> t \<in> set P" if "t \<in> set (db_transactions d)" for t
    using that sub(1) inj_on_image_mem_iff [OF indexedD(1) [OF assms(1)], of t "set P"] by blast
  have "set pending = {t \<in> set (db_transactions d). t_block_height t = None \<and>
      (t_id t \<in> fst ` set (addressTxIds d position (limit + 1) ids) \<or> firstPage \<and> t_id t \<in> t_id ` set P)}"
    unfolding pending P by auto
  also have "\<dots> = {t \<in> set (db_transactions d). t_block_height t = None \<and> firstPage \<and> t \<in> set P}"
    by (intro Collect_cong) (use addr own in blast)
  also have "\<dots> = (if firstPage then set P else {})" using sub by auto
  finally show "set pending = (if firstPage then set ?P else {})" by (simp only: P)
qed

lemma rest_of_None: "rest_of d ids None = wallet_history d ids"
  by (simp add: rest_of_def)

lemma rest_of_nth:
  assumes "indexed d" "i < length (wallet_history d ids)"
  shows "rest_of d ids (Some (entry_of (wallet_history d ids ! i))) = drop (Suc i) (wallet_history d ids)"
proof -
  let ?H = "wallet_history d ids" let ?E = "map entry_of ?H"
  have "filter (\<lambda>e. e \<noteq> ?E ! i \<and> keys_cmp entry_keys (?E ! i) e \<le> 0) ?E = drop (Suc i) ?E"
    by (rule history.filter_after [OF wallet_entries_sorted [OF assms(1)]]) (simp add: assms(2))
  then have "map entry_of (rest_of d ids (Some (entry_of (?H ! i)))) = map entry_of (drop (Suc i) ?H)"
    using assms(2) by (simp add: rest_of_def below_cmp filter_map comp_def drop_map)
  moreover have "inj_on entry_of (set (rest_of d ids (Some (entry_of (?H ! i)))) \<union> set (drop (Suc i) ?H))"
    by (rule inj_on_subset [OF inj_entry_of [OF indexedD(1) [OF assms(1)]]])
       (auto simp: rest_of_def wallet_history_def dest: in_set_dropD)
  ultimately show ?thesis by (simp add: inj_on_map_eq_map)
qed

lemma cursor_position_nth:
  assumes "indexed d" "t \<in> set (wallet_history d ids)"
  shows "cursor_position d (t_hash t) = Some (entry_of t)"
proof -
  have t: "t \<in> set (db_transactions d)" "t_block_height t \<noteq> None"
    using assms wallet_confirmed [OF assms] by (auto simp: wallet_history_def)
  have "find (\<lambda>u. t_hash u = t_hash t \<and> t_block_height u \<noteq> None) (db_transactions d) \<noteq> None"
    using t by (auto simp: find_None_iff)
  then obtain u where u: "find (\<lambda>u. t_hash u = t_hash t \<and> t_block_height u \<noteq> None) (db_transactions d) = Some u"
    by blast
  then have "u \<in> set (db_transactions d)" "t_hash u = t_hash t" using find_SomeD by fastforce+
  then have "u = t" using t indexedD(2) [OF assms(1)] by (metis inj_onD)
  then show ?thesis using u by (simp add: cursor_position_def entry_of_def)
qed

text \<open>
  C2: the first page of a wallet shows every pending transaction that touches one of its addresses and
  then the newest confirmed ones, up to the limit, of the whole history over all addresses: taking one
  page per address before merging loses nothing. The cursor is the last one shown, when more follow.
\<close>

theorem xpub_first_page:
  assumes "indexed d" "0 < limit" "ids \<noteq> []"
    "getXpubTransactions sdk net d ids limit JUndef = Inr res"
  shows "\<exists>pending. distinct pending \<and>
    set pending = set (pendingTransactionIds d (\<lambda>i. \<exists>a \<in> set ids. i = Some a) JUndef) \<and>
    map tr_hash (cursorSet res) =
      map (\<lambda>t. Some (t_hash t)) (pending @ take limit (wallet_history d ids)) \<and>
    nextCursor res = (if limit < length (wallet_history d ids)
                      then Some (t_hash (wallet_history d ids ! (limit - 1))) else None)"
proof -
  obtain pending page next' where page: "xpub_page d ids limit None True = (pending, page, next')"
    by (cases "xpub_page d ids limit None True") auto
  note exact = xpub_page_exact [OF assms(1,2) page]
  have "map tr_hash (cursorSet res) = map (\<lambda>t. Some (t_hash t)) (pending @ page)" "nextCursor res = next'"
    using assms(3,4) page
    by (auto simp: getXpubTransactions_def bind_result_Inr_iff new_CursorResultSet_def Let_def
        simp del: map_append dest: to_transactions_hashes)
  with exact show ?thesis by (intro exI [of _ pending]) (simp add: rest_of_None)
qed

text \<open>
  C1: asked for the page after any transaction of the wallet's history, the reply holds exactly the next
  transactions of the history, none skipped and none repeated, also where several share a block.
\<close>

theorem xpub_next_page:
  assumes "indexed d" "0 < limit" "i < length (wallet_history d ids)" "ids \<noteq> []"
    "getXpubTransactions sdk net d ids limit (J (t_hash (wallet_history d ids ! i))) = Inr res"
  shows "map tr_hash (cursorSet res) =
      map (\<lambda>t. Some (t_hash t)) (take limit (drop (Suc i) (wallet_history d ids))) \<and>
    nextCursor res = (if Suc i + limit < length (wallet_history d ids)
                      then Some (t_hash (wallet_history d ids ! (i + limit))) else None)"
proof -
  let ?H = "wallet_history d ids"
  let ?pos = "Some (entry_of (?H ! i))"
  obtain pending page next' where page: "xpub_page d ids limit ?pos False = (pending, page, next')"
    by (cases "xpub_page d ids limit ?pos False") auto
  note exact = xpub_page_exact [OF assms(1,2) page]
  have "pending = []" using exact(3) by simp
  have "map tr_hash (cursorSet res) = map (\<lambda>t. Some (t_hash t)) (pending @ page)" "nextCursor res = next'"
    using assms(4,5) page cursor_position_nth [OF assms(1) nth_mem [OF assms(3)]]
    by (auto simp: getXpubTransactions_def bind_result_Inr_iff new_CursorResultSet_def Let_def
        simp del: map_append dest: to_transactions_hashes)
  moreover have "limit < length ?H - Suc i \<longleftrightarrow> Suc i + limit < length ?H" using assms(3) by arith
  ultimately show ?thesis
    using exact(1,2) assms(2) by (simp add: rest_of_nth [OF assms(1,3)] \<open>pending = []\<close>)
qed

section \<open>Sample pages\<close>

lemma sample_indexed: "indexed sample_wallet_db"
  by (simp add: indexed_def keyed_def sample_wallet_db_def sample_tx_def sample_chain_block_def numeral_eq_Suc)

lemma sample_history:
  "wallet_history sample_wallet_db [7, 8] =
     [sample_tx 3 (Some 2) True 5, sample_tx 2 (Some 2) False 0, sample_tx 1 (Some 1) True 5]"
  by (simp add: wallet_history_def sample_wallet_db_def sample_tx_def order_by_keys_def js_sort_def
      history_keys_def order_cmp_def)

lemma xpub_build_ok:
  assumes "db_outputs d = []" "db_special d = []"
  shows "\<exists>res. (let (pending, page, next') = xpub_page d ids limit position firstPage in
      bind_result (to_transactions sdk net (map (tx_columns d True) (pending @ page)))
        (\<lambda>txs. Inr (new_CursorResultSet txs (int limit) next'))) = Inr res"
proof -
  obtain pending page next' where page: "xpub_page d ids limit position firstPage = (pending, page, next')"
    by (cases "xpub_page d ids limit position firstPage") auto
  obtain txs where "to_transactions sdk net (map (tx_columns d True) (pending @ page)) = Inr txs"
    using to_transactions_plain [OF assms] by blast
  then show ?thesis by (simp add: page)
qed

lemma sample_page:
  "\<exists>res. getXpubTransactions sample_sdk Testnet sample_wallet_db [7, 8] 1 JUndef = Inr res"
  "\<exists>res. getXpubTransactions sample_sdk Testnet sample_wallet_db [7, 8] 1
     (J (t_hash (wallet_history sample_wallet_db [7, 8] ! 0))) = Inr res"
proof -
  have plain: "db_outputs sample_wallet_db = []" "db_special sample_wallet_db = []"
    by (simp_all add: sample_wallet_db_def)
  note ok = xpub_build_ok [OF plain, of "[7, 8]" 1]
  show "\<exists>res. getXpubTransactions sample_sdk Testnet sample_wallet_db [7, 8] 1 JUndef = Inr res"
    using ok [of None True sample_sdk Testnet] by (simp add: getXpubTransactions_def Let_def)
  have "cursor_position sample_wallet_db (t_hash (wallet_history sample_wallet_db [7, 8] ! 0)) =
      Some (entry_of (wallet_history sample_wallet_db [7, 8] ! 0))"
    by (rule cursor_position_nth [OF sample_indexed nth_mem]) (simp add: sample_history)
  then show "\<exists>res. getXpubTransactions sample_sdk Testnet sample_wallet_db [7, 8] 1
     (J (t_hash (wallet_history sample_wallet_db [7, 8] ! 0))) = Inr res"
    using ok [of _ False sample_sdk Testnet] by (simp add: getXpubTransactions_def Let_def)
qed

theorem xpub_first_page_witness:
  "\<exists>res. getXpubTransactions sample_sdk Testnet sample_wallet_db [7, 8] 1 JUndef = Inr res \<and>
     nextCursor res = Some ''fff''"
proof -
  obtain res where res: "getXpubTransactions sample_sdk Testnet sample_wallet_db [7, 8] 1 JUndef = Inr res"
    using sample_page(1) by blast
  show ?thesis
    using xpub_first_page [OF sample_indexed _ _ res] res by (auto simp: sample_history sample_tx_def numeral_3_eq_3)
qed

theorem xpub_next_page_witness:
  "\<exists>res. getXpubTransactions sample_sdk Testnet sample_wallet_db [7, 8] 1
     (J (t_hash (wallet_history sample_wallet_db [7, 8] ! 0))) = Inr res \<and>
     map tr_hash (cursorSet res) = [Some ''ff''] \<and> nextCursor res = Some ''ff''"
proof -
  obtain res where res: "getXpubTransactions sample_sdk Testnet sample_wallet_db [7, 8] 1
      (J (t_hash (wallet_history sample_wallet_db [7, 8] ! 0))) = Inr res"
    using sample_page(2) by blast
  show ?thesis
    using xpub_next_page [OF sample_indexed _ _ _ res] res
    by (simp add: sample_history) (simp add: sample_tx_def numeral_2_eq_2)
qed

end
