(* ===== verification/TransactionListings.thy ===== *)
theory TransactionListings
  imports TransactionSeries XpubHistory
begin

text \<open>
  \<open>api/src/controllers/TransactionsController.ts\<close>, and what its listings show: which transactions a page
  holds, that the pages together show every transaction once, how the pending transactions join the
  first page of an address, and when the totals beside a page are exact.
\<close>

section \<open>Controller\<close>

text \<open>\<open>TransactionType[name]\<close>, \<open>undefined\<close> for a name that is missing or unknown.\<close>

fun type_parameter :: "string js \<Rightarrow> TransactionType js" where
  "type_parameter (J s) = (case type_of_name s of None \<Rightarrow> JUndef | Some t \<Rightarrow> J t)"
| "type_parameter _ = JUndef"

record transactions_request =
  xq_page :: "int option"
  xq_limit :: "int option"
  xq_order :: "string js"
  xq_coinjoin :: "bool js"
  xq_multisig :: "bool js"
  xq_type :: "string js"
  xq_height :: "int js"

definition asc_default :: "string js \<Rightarrow> string js" where
  "asc_default order = defaulted order ''asc''"

definition transactions_handler ::
  "'p sdk \<Rightarrow> network \<Rightarrow> db \<Rightarrow> transactions_request \<Rightarrow> 'p Transaction PaginatedResultSet reply result" where
  "transactions_handler sdk net d q =
     (let (page, limit) = page_and_limit (xq_page q) (xq_limit q) in
      map_sum id (Sent 200)
        (getTransactions sdk net d page limit (asc_default (xq_order q)) (type_parameter (xq_type q))
           (xq_coinjoin q) (xq_multisig q) (xq_height q)))"

definition transaction_handler :: "'p sdk \<Rightarrow> network \<Rightarrow> db \<Rightarrow> string \<Rightarrow> 'p Transaction reply result" where
  "transaction_handler sdk net d hash =
     bind_result (getTransactionByHash sdk net d hash) (\<lambda>transaction.
       Inr (case transaction of
              None \<Rightarrow> Refused 404 ''Transaction not found''
            | Some t \<Rightarrow> Sent 200 t))"

definition block_transactions_handler ::
  "'p sdk \<Rightarrow> network \<Rightarrow> db \<Rightarrow> int option \<Rightarrow> transactions_request \<Rightarrow> 'p Transaction PaginatedResultSet reply result" where
  "block_transactions_handler sdk net d param q =
     (let (page, limit) = page_and_limit (xq_page q) (xq_limit q);
          height = or_else param 1
      in if height = 0 \<or> height < 1 then Inr (Refused 400 ''Invalid height'')
         else map_sum id (Sent 200)
                (getTransactionsByBlockHeight sdk net d height page limit (asc_default (xq_order q))))"

definition pending_handler ::
  "'p sdk \<Rightarrow> network \<Rightarrow> db \<Rightarrow> transactions_request \<Rightarrow> 'p Transaction PaginatedResultSet reply result" where
  "pending_handler sdk net d q =
     (let (page, limit) = page_and_limit (xq_page q) (xq_limit q) in
      map_sum id (Sent 200) (getPendingTransactions sdk net d page limit (asc_default (xq_order q))))"

definition count_series_handler ::
  "(string \<Rightarrow> int) \<Rightarrow> (string \<Rightarrow> int \<Rightarrow> int) \<Rightarrow> db \<Rightarrow> int \<Rightarrow> time_query \<Rightarrow> bool js \<Rightarrow> jsnum SeriesData list reply result" where
  "count_series_handler parse pg_add d now q runningTotal =
     chart_handler parse now 3600000
       (\<lambda>start end' interval ms.
          getTransactionCountSeries pg_add d start end' interval ms (coalesce runningTotal False)) q"

definition stats_handler ::
  "(string \<Rightarrow> int) \<Rightarrow> db \<Rightarrow> int \<Rightarrow> time_query \<Rightarrow> TransactionStats reply result" where
  "stats_handler parse d now q =
     (let (start, end') = window_of parse now 86400000 q in
      if start > end' then Inr (Refused 400 window_message)
      else Inr (Sent 200 (getTransactionStats d start end')))"

definition address_transactions_handler ::
  "'p sdk \<Rightarrow> network \<Rightarrow> db \<Rightarrow> string \<Rightarrow> transactions_request \<Rightarrow> 'p Transaction PaginatedResultSet reply result" where
  "address_transactions_handler sdk net d address q =
     (let (page, limit) = page_and_limit (xq_page q) (xq_limit q) in
      map_sum id (Sent 200)
        (getAddressTransactions sdk net d address page limit (asc_default (xq_order q))
           (type_parameter (xq_type q))))"

definition masternode_transactions_handler ::
  "'p sdk \<Rightarrow> network \<Rightarrow> db \<Rightarrow> string \<Rightarrow> transactions_request \<Rightarrow> 'p Transaction PaginatedResultSet reply result" where
  "masternode_transactions_handler sdk net d hash q =
     (let (page, limit) = page_and_limit (xq_page q) (xq_limit q) in
      map_sum id (Sent 200)
        (getMasternodeTransactions sdk net d hash page limit (asc_default (xq_order q))))"

section \<open>Listings of the chain\<close>

text \<open>The SDK can read the scripts and payloads of a row.\<close>

definition readable :: "'p sdk \<Rightarrow> network \<Rightarrow> db \<Rightarrow> bool \<Rightarrow> tx_row \<Rightarrow> bool" where
  "readable sdk net d with_payload t = (\<not> isl (Transaction_fromRow sdk net (tx_columns d with_payload t)))"

lemma to_transactions_readable:
  "\<forall>t \<in> set ts. readable sdk net d p t \<Longrightarrow>
   \<exists>txs. to_transactions sdk net (map (tx_columns d p) ts) = Inr txs \<and>
     map tr_hash txs = map (\<lambda>t. Some (t_hash t)) ts"
proof (induction ts)
  case (Cons t ts)
  from Cons.prems obtain tx where tx: "Transaction_fromRow sdk net (tx_columns d p t) = Inr tx"
    by (cases "Transaction_fromRow sdk net (tx_columns d p t)") (auto simp: readable_def)
  have "tr_hash tx = Some (t_hash t)"
    using Transaction_fromRow_keys [OF tx] by (simp add: tx_columns_def Let_def)
  with Cons tx show ?case by (auto simp: to_transactions_def)
qed (simp add: to_transactions_def)

definition listed :: "db \<Rightarrow> TransactionType js \<Rightarrow> bool js \<Rightarrow> bool js \<Rightarrow> int js \<Rightarrow> tx_row list" where
  "listed d type' coinjoin multisig height =
     filter (tx_matches type' coinjoin multisig height)
       (filter (\<lambda>t. t_block_height t \<noteq> None) (db_transactions d))"

lemma order_by_keys_page:
  "order_by_keys ks (page_of page limit (order_by_keys ks xs)) = page_of page limit (order_by_keys ks xs)"
  unfolding order_by_keys_def
  by (rule js_sort_sorted) (rule sorted_wrt_page_of, rule order_by_keys.sorted_js_sort)

lemma getTransactions_page:
  assumes "1 \<le> page" "\<forall>t \<in> set (listed d type' coinjoin multisig height). readable sdk net d False t"
  shows "\<exists>txs. getTransactions sdk net d (int page) (int limit) order type' coinjoin multisig height =
      Inr (new_PaginatedResultSet txs (int page) (Fin (of_nat limit))
        (if page_of page limit (order_by_keys (chain_keys order) (listed d type' coinjoin multisig height)) = []
         then JUndef else J (bigint (transactions_total d type' coinjoin multisig height)))) \<and>
    map tr_hash txs = map (\<lambda>t. Some (t_hash t))
      (page_of page limit (order_by_keys (chain_keys order) (listed d type' coinjoin multisig height)))"
proof -
  let ?rows = "page_of page limit (order_by_keys (chain_keys order) (listed d type' coinjoin multisig height))"
  have "\<forall>t \<in> set ?rows. readable sdk net d False t"
    using assms(2) set_page_of [of page limit "order_by_keys (chain_keys order) (listed d type' coinjoin multisig height)"]
    by (simp add: subset_iff)
  from to_transactions_readable [OF this]
  obtain txs where txs: "to_transactions sdk net (map (tx_columns d False) ?rows) = Inr txs"
    "map tr_hash txs = map (\<lambda>t. Some (t_hash t)) ?rows" by blast
  show ?thesis
    unfolding getTransactions_def listed_def [symmetric] Let_def limit_offset_page [OF assms(1)]
      bind_result.simps order_by_keys_page txs(1)
    by (rule exI [of _ txs]) (simp add: txs(2))
qed

text \<open>
  Walking the pages of the transaction list from the first one on shows every confirmed transaction
  that passes the filters exactly once, by height in the requested order, the coinbase first within a
  block and the rest in the order of their ids.
\<close>

theorem getTransactions_all_pages:
  assumes "\<forall>t \<in> set (listed d type' coinjoin multisig height). readable sdk net d False t"
    "length (listed d type' coinjoin multisig height) \<le> n * limit"
  shows "concat (map (\<lambda>p. map tr_hash (resultSet (projr
        (getTransactions sdk net d (int p) (int limit) order type' coinjoin multisig height)))) [1..<Suc n]) =
    map (\<lambda>t. Some (t_hash t)) (order_by_keys (chain_keys order) (listed d type' coinjoin multisig height))"
proof -
  let ?all = "order_by_keys (chain_keys order) (listed d type' coinjoin multisig height)"
  have "map (\<lambda>p. map tr_hash (resultSet (projr
        (getTransactions sdk net d (int p) (int limit) order type' coinjoin multisig height)))) [1..<Suc n] =
      map (\<lambda>p. map (\<lambda>t. Some (t_hash t)) (page_of p limit ?all)) [1..<Suc n]"
  proof (rule map_cong [OF refl])
    fix p assume "p \<in> set [1..<Suc n]"
    then have "1 \<le> p" by auto
    from getTransactions_page [OF this assms(1), of limit order]
    show "map tr_hash (resultSet (projr
        (getTransactions sdk net d (int p) (int limit) order type' coinjoin multisig height))) =
      map (\<lambda>t. Some (t_hash t)) (page_of p limit ?all)"
      by (auto simp: new_PaginatedResultSet_def)
  qed
  also have "concat \<dots> = map (\<lambda>t. Some (t_hash t)) (concat (map (\<lambda>p. page_of p limit ?all) [1..<Suc n]))"
    by (simp add: map_concat comp_def del: upt_Suc)
  also have "concat (map (\<lambda>p. page_of p limit ?all) [1..<Suc n]) = ?all"
    by (rule concat_all_pages) (use assms(2) in simp)
  finally show ?thesis .
qed

section \<open>Totals\<close>

text \<open>What the indexer keeps true of \<open>transaction_type_counts\<close>: one row per kind, with its exact count.\<close>

definition of_kind :: "type_count_row \<Rightarrow> tx_row \<Rightarrow> bool" where
  "of_kind r t \<longleftrightarrow> t_block_height t \<noteq> None \<and>
     t_type t = tc_type r \<and> t_coinjoin t = tc_coinjoin r \<and> t_multisig t = tc_multisig r"

definition type_counts_exact :: "db \<Rightarrow> bool" where
  "type_counts_exact d \<longleftrightarrow>
     distinct (map (\<lambda>r. (tc_type r, tc_coinjoin r, tc_multisig r)) (db_type_counts d)) \<and>
     (\<forall>r \<in> set (db_type_counts d). tc_count r = int (length (filter (of_kind r) (db_transactions d)))) \<and>
     (\<forall>t \<in> set (db_transactions d). t_block_height t \<noteq> None \<longrightarrow> (\<exists>r \<in> set (db_type_counts d). of_kind r t))"

lemma sum_of_kinds:
  assumes "distinct (map (\<lambda>r. (tc_type r, tc_coinjoin r, tc_multisig r)) rs)"
    "\<forall>r \<in> set rs. tc_count r = int (length (filter (of_kind r) ts))"
  shows "sum_list (map tc_count rs) = int (length (filter (\<lambda>t. \<exists>r \<in> set rs. of_kind r t) ts))"
  using assms
proof (induction rs)
  case (Cons r rs)
  have "length (filter (\<lambda>t. of_kind r t \<or> (\<exists>s \<in> set rs. of_kind s t)) ts) =
      length (filter (of_kind r) ts) + length (filter (\<lambda>t. \<exists>s \<in> set rs. of_kind s t) ts)"
    by (rule length_filter_disjoint) (use Cons.prems(1) in \<open>auto simp: of_kind_def image_iff\<close>)
  with Cons show ?case by simp
qed simp

lemma kind_matches:
  "of_kind r t \<Longrightarrow> type_count_matches type' coinjoin multisig r \<longleftrightarrow> tx_matches type' coinjoin multisig JUndef t"
  by (auto simp: of_kind_def type_count_matches_def tx_matches_def split: js.splits)

lemma tx_matches_no_height: "or_null height = None \<Longrightarrow> tx_matches a b c height = tx_matches a b c JUndef"
  by (cases height) (auto simp: tx_matches_def fun_eq_iff)

lemma transactions_total_exact:
  assumes "type_counts_exact d" "or_null height = None"
    "or_null type' \<noteq> None \<or> or_null coinjoin \<noteq> None \<or> or_null multisig \<noteq> None"
  shows "transactions_total d type' coinjoin multisig height = int (length (listed d type' coinjoin multisig height))"
proof -
  let ?rs = "filter (type_count_matches type' coinjoin multisig) (db_type_counts d)"
  have "transactions_total d type' coinjoin multisig height = sum_list (map tc_count ?rs)"
    using assms(2,3) by (simp add: transactions_total_def)
  also have "\<dots> = int (length (filter (\<lambda>t. \<exists>r \<in> set ?rs. of_kind r t) (db_transactions d)))"
    using assms(1) by (intro sum_of_kinds) (auto simp: type_counts_exact_def distinct_map_filter)
  also have "filter (\<lambda>t. \<exists>r \<in> set ?rs. of_kind r t) (db_transactions d) = listed d type' coinjoin multisig height"
    unfolding listed_def filter_filter tx_matches_no_height [OF assms(2)]
  proof (rule filter_cong [OF refl])
    fix t assume t: "t \<in> set (db_transactions d)"
    show "(\<exists>r \<in> set ?rs. of_kind r t) \<longleftrightarrow>
        t_block_height t \<noteq> None \<and> tx_matches type' coinjoin multisig JUndef t"
    proof
      assume "\<exists>r \<in> set ?rs. of_kind r t"
      then show "t_block_height t \<noteq> None \<and> tx_matches type' coinjoin multisig JUndef t"
        using kind_matches [of _ t type' coinjoin multisig] by (auto simp: of_kind_def)
    next
      assume m: "t_block_height t \<noteq> None \<and> tx_matches type' coinjoin multisig JUndef t"
      then obtain r where r: "r \<in> set (db_type_counts d)" "of_kind r t"
        using assms(1) t by (auto simp: type_counts_exact_def)
      with m kind_matches [OF r(2)] show "\<exists>r \<in> set ?rs. of_kind r t" by auto
    qed
  qed
  finally show ?thesis .
qed

text \<open>
  When the list is filtered by type, CoinJoin or multisig, the total beside a page that shows a
  transaction is exactly the number of transactions the pages hold together, although it is summed
  from the table of counters and no transaction is counted for it.
\<close>

theorem getTransactions_filtered_total:
  assumes "type_counts_exact d" "or_null height = None"
    "or_null type' \<noteq> None \<or> or_null coinjoin \<noteq> None \<or> or_null multisig \<noteq> None"
    "\<forall>t \<in> set (listed d type' coinjoin multisig height). readable sdk net d False t"
    "1 \<le> page" "(page - 1) * limit < length (listed d type' coinjoin multisig height)" "0 < limit"
    "of_nat (length (db_transactions d)) < double_limit"
  shows "pg_total (pagination (projr
      (getTransactions sdk net d (int page) (int limit) order type' coinjoin multisig height))) =
    Fin (of_nat (length (listed d type' coinjoin multisig height)))"
proof -
  let ?all = "listed d type' coinjoin multisig height"
  let ?rows = "page_of page limit (order_by_keys (chain_keys order) ?all)"
  have some: "?rows \<noteq> []" using assms(6,7) by (simp add: page_of_def)
  obtain txs where txs: "getTransactions sdk net d (int page) (int limit) order type' coinjoin multisig height =
      Inr (new_PaginatedResultSet txs (int page) (Fin (of_nat limit)) (J (bigint (int (length ?all)))))"
    "map tr_hash txs = map (\<lambda>t. Some (t_hash t)) ?rows"
    using getTransactions_page [OF assms(5,4), of limit order] some transactions_total_exact [OF assms(1,2,3)]
    by auto
  have "txs \<noteq> []" using txs(2) some by auto
  moreover have "length ?all \<le> length (db_transactions d)" by (simp add: listed_def)
  then have "of_nat (length ?all) < double_limit"
    using assms(8) by (meson le_less_trans of_nat_le_iff)
  ultimately show ?thesis
    by (simp add: txs(1) new_PaginatedResultSet_def js_Number_bigint del: js_Number.simps)
qed

section \<open>The first page of an address\<close>

lemma sorted_null_first:
  assumes "sorted_wrt (\<lambda>a b. keys_cmp ((Desc, key) # ks) a b \<le> 0) xs"
  shows "xs = filter (\<lambda>x. key x = None) xs @ filter (\<lambda>x. key x \<noteq> None) xs"
  using assms
proof (induction xs)
  case (Cons x xs)
  show ?case
  proof (cases "key x")
    case None
    with Cons show ?thesis by simp
  next
    case (Some k)
    have "key y \<noteq> None" if "y \<in> set xs" for y
    proof
      assume "key y = None"
      moreover have "keys_cmp ((Desc, key) # ks) x y \<le> 0" using Cons.prems that by simp
      ultimately show False unfolding keys_cmp_Cons by (simp add: Some)
    qed
    then have "filter (\<lambda>y. key y = None) xs = []" "filter (\<lambda>y. key y \<noteq> None) xs = xs"
      by (auto simp: filter_empty_conv filter_id_conv)
    then show ?thesis by (simp add: Some)
  qed
qed simp

definition page_entries :: "db \<Rightarrow> string js \<Rightarrow> int option \<Rightarrow> TransactionType js \<Rightarrow> nat \<Rightarrow> nat \<Rightarrow> address_tx_row list" where
  "page_entries d order aid type' page limit =
     page_of page limit (order_by (js_dir order) (\<lambda>r. Some (at_block_height r)) (address_entries d aid type'))"

text \<open>
  The first page of the newest-first history of an address begins with all its unconfirmed
  transactions and goes on with exactly the confirmed transactions of the first \<open>limit\<close> entries of the
  address, however many the unconfirmed ones are.
\<close>

theorem address_first_page:
  assumes "indexed d" "getAddressTransactions sdk net d address 1 (int limit) (J ''desc'') type' = Inr res"
  shows "\<exists>unconfirmed confirmed.
    map tr_hash (resultSet res) = map (\<lambda>t. Some (t_hash t)) (unconfirmed @ confirmed) \<and>
    set unconfirmed = set (pendingTransactionIds d (owned_by (address_id d address)) type') \<and>
    set confirmed = {t \<in> set (db_transactions d).
      t_id t \<in> at_tx_id ` set (page_entries d (J ''desc'') (address_id d address) type' 1 limit)}"
proof -
  let ?pending = "pendingTransactionIds d (owned_by (address_id d address)) type'"
  let ?entries = "page_entries d (J ''desc'') (address_id d address) type' 1 limit"
  let ?rows = "order_by_keys (address_keys (J ''desc''))
      (filter (\<lambda>t. t_id t \<in> set (map at_tx_id ?entries @ map t_id ?pending)) (db_transactions d))"
  have hashes: "map tr_hash (resultSet res) = map (\<lambda>t. Some (t_hash t)) ?rows"
    using assms(2) limit_offset_page [of 1 limit "order_by (js_dir (J ''desc'')) (\<lambda>r. Some (at_block_height r))
        (address_entries d (address_id d address) type')"]
    by (auto simp: getAddressTransactions_def bind_result_Inr_iff new_PaginatedResultSet_def page_entries_def Let_def
        simp del: js_dir.simps set_append dest!: to_transactions_hashes)
  have split: "?rows = filter (\<lambda>t. t_block_height t = None) ?rows @ filter (\<lambda>t. t_block_height t \<noteq> None) ?rows"
    by (rule sorted_null_first [where ks = "[(Desc, \<lambda>t. Some (t_id t))]"])
       (use sorted_order_by_keys [of "address_keys (J ''desc'')"] in \<open>simp only: address_keys_def js_dir.simps dir_of_def if_True refl\<close>)
  have inj: "t = u" if "t \<in> set (db_transactions d)" "u \<in> set (db_transactions d)" "t_id t = t_id u" for t u
    using indexedD(1) [OF assms(1)] that by (auto dest: inj_onD)
  have entry: "t_block_height t \<noteq> None"
    if "t \<in> set (db_transactions d)" "r \<in> set ?entries" "t_id t = at_tx_id r" for t r
  proof -
    have "r \<in> set (db_address_transactions d)"
      using that(2) set_page_of by (fastforce simp: page_entries_def address_entries_def)
    from indexed_entry [OF assms(1) this that(1,3)] show ?thesis by simp
  qed
  have pend: "t \<in> set ?pending \<Longrightarrow> t \<in> set (db_transactions d) \<and> t_block_height t = None" for t
    by (auto simp: pendingTransactionIds_def)
  have rows: "t \<in> set ?rows \<longleftrightarrow> t \<in> set (db_transactions d) \<and>
      ((\<exists>r \<in> set ?entries. t_id t = at_tx_id r) \<or> (\<exists>u \<in> set ?pending. t_id t = t_id u))" for t
    by auto
  have unconfirmed: "set (filter (\<lambda>t. t_block_height t = None) ?rows) = set ?pending"
  proof (intro equalityI subsetI)
    fix t assume "t \<in> set (filter (\<lambda>t. t_block_height t = None) ?rows)"
    then have t: "t \<in> set (db_transactions d)" "t_block_height t = None" "t \<in> set ?rows"
      using rows [of t] by simp_all
    with entry [OF t(1)] rows [of t] obtain u where "u \<in> set ?pending" "t_id t = t_id u" by blast
    with inj [of t u] pend [of u] t(1) show "t \<in> set ?pending" by simp
  next
    fix t assume t: "t \<in> set ?pending"
    then show "t \<in> set (filter (\<lambda>t. t_block_height t = None) ?rows)"
      using rows [of t] pend [OF t] by (simp only: set_filter mem_Collect_eq) blast
  qed
  have confirmed: "set (filter (\<lambda>t. t_block_height t \<noteq> None) ?rows) =
      {t \<in> set (db_transactions d). t_id t \<in> at_tx_id ` set ?entries}"
  proof (intro equalityI subsetI)
    fix t assume "t \<in> set (filter (\<lambda>t. t_block_height t \<noteq> None) ?rows)"
    then have t: "t \<in> set (db_transactions d)" "t_block_height t \<noteq> None" "t \<in> set ?rows"
      using rows [of t] by simp_all
    have "\<not> (\<exists>u \<in> set ?pending. t_id t = t_id u)"
    proof
      assume "\<exists>u \<in> set ?pending. t_id t = t_id u"
      then obtain u where u: "u \<in> set ?pending" "t_id t = t_id u" by blast
      with inj [OF t(1) _ u(2)] pend [OF u(1)] t(2) show False by simp
    qed
    with t rows [of t] show "t \<in> {t \<in> set (db_transactions d). t_id t \<in> at_tx_id ` set ?entries}" by blast
  next
    fix t assume "t \<in> {t \<in> set (db_transactions d). t_id t \<in> at_tx_id ` set ?entries}"
    then have t: "t \<in> set (db_transactions d)" "\<exists>r \<in> set ?entries. t_id t = at_tx_id r" by auto
    with entry [OF t(1)] rows [of t] show "t \<in> set (filter (\<lambda>t. t_block_height t \<noteq> None) ?rows)"
      by (simp only: set_filter mem_Collect_eq) blast
  qed
  show ?thesis
  proof (intro exI conjI)
    show "map tr_hash (resultSet res) = map (\<lambda>t. Some (t_hash t))
        (filter (\<lambda>t. t_block_height t = None) ?rows @ filter (\<lambda>t. t_block_height t \<noteq> None) ?rows)"
      using hashes split by metis
  qed (fact unconfirmed, fact confirmed)
qed

section \<open>Lookup\<close>

text \<open>
  The handler of a single transaction answers 404 exactly when no transaction of the table has the
  hash, and otherwise, once the SDK can read it, sends the one that has it.
\<close>

theorem transaction_found_iff:
  assumes "distinct (map t_hash (db_transactions d))" "\<forall>t \<in> set (db_transactions d). readable sdk net d True t"
    "js_trim hash = hash"
  shows "case transaction_handler sdk net d hash of
      Inr (Sent code tx) \<Rightarrow> code = 200 \<and> tr_hash tx = Some hash \<and>
        (\<exists>t \<in> set (db_transactions d). t_hash t = hash \<and> tr_blockHeight tx = t_block_height t)
    | Inr (Refused code _) \<Rightarrow> code = 404 \<and> hash \<notin> t_hash ` set (db_transactions d)
    | Inl _ \<Rightarrow> False"
proof (cases "find (\<lambda>t. t_hash t = hash) (db_transactions d)")
  case None
  then have "hash \<notin> t_hash ` set (db_transactions d)" by (auto simp: find_None_iff)
  with None assms(3) show ?thesis by (simp add: transaction_handler_def getTransactionByHash_def)
next
  case (Some t)
  from find_SomeD [OF this] have t: "t \<in> set (db_transactions d)" "t_hash t = hash" by auto
  then obtain tx where tx: "Transaction_fromRow sdk net (tx_columns d True t) = Inr tx"
    using assms(2) by (cases "Transaction_fromRow sdk net (tx_columns d True t)") (auto simp: readable_def)
  have "tr_hash tx = Some hash \<and> tr_blockHeight tx = t_block_height t"
    using Transaction_fromRow_keys [OF tx] t(2) by (simp add: tx_columns_def Let_def)
  with Some tx t assms(3) show ?thesis
    by (auto simp: transaction_handler_def getTransactionByHash_def)
qed

section \<open>Sample listings\<close>

lemma sample_plain: "db_outputs sample_wallet_db = []" "db_special sample_wallet_db = []"
  by (simp_all add: sample_wallet_db_def)

lemma bind_result_ok: "\<exists>x. r = Inr x \<Longrightarrow> \<exists>y. bind_result r (\<lambda>x. Inr (f x)) = Inr y"
  by auto

lemma getAddressTransactions_plain:
  assumes "db_outputs d = []" "db_special d = []"
  shows "\<exists>res. getAddressTransactions sdk net d address 1 (int limit) order type' = Inr res"
proof -
  have page: "limit_offset (int limit) ((1 - 1) * int limit) xs = Inr (take limit xs)"
    for xs :: "address_tx_row list"
    by (simp add: limit_offset_def)
  show ?thesis
    unfolding getAddressTransactions_def Let_def page bind_result.simps
    by (rule bind_result_ok) (rule to_transactions_plain [OF assms])
qed

lemma sample_readable: "readable sdk net sample_wallet_db p t"
proof -
  obtain txs where "to_transactions sdk net (map (tx_columns sample_wallet_db p) [t]) = Inr txs"
    using to_transactions_plain [OF sample_plain, of sdk net p "[t]"] by blast
  then show ?thesis by (auto simp: readable_def to_transactions_def bind_result_Inr_iff)
qed

lemma sample_listed:
  "listed sample_wallet_db JUndef JUndef JUndef JUndef =
     [sample_tx 1 (Some 1) True 5, sample_tx 2 (Some 2) False 0, sample_tx 3 (Some 2) True 5]"
  "listed sample_wallet_db (J COINBASE) JUndef JUndef JUndef = [sample_tx 1 (Some 1) True 5, sample_tx 3 (Some 2) True 5]"
  by (simp_all add: listed_def sample_wallet_db_def sample_tx_def tx_matches_def)

theorem getTransactions_all_pages_witness:
  "concat (map (\<lambda>p. map tr_hash (resultSet (projr
      (getTransactions sample_sdk Testnet sample_wallet_db (int p) (int 2) (J ''desc'') JUndef JUndef JUndef JUndef)))) [1..<Suc 2]) =
   [Some ''fff'', Some ''ff'', Some ''f'']"
  using getTransactions_all_pages [of sample_wallet_db JUndef JUndef JUndef JUndef sample_sdk Testnet 2 2 "J ''desc''"]
  by (simp add: sample_readable sample_listed del: upt_Suc)
     (simp add: order_by_keys_def js_sort_def chain_keys_def order_cmp_def sample_tx_def dir_of_def bool_key_def
       numeral_2_eq_2 numeral_3_eq_3)

lemma sample_counts_exact: "type_counts_exact sample_wallet_db"
  by (simp add: type_counts_exact_def of_kind_def sample_wallet_db_def sample_tx_def)

theorem getTransactions_filtered_total_witness:
  "pg_total (pagination (projr (getTransactions sample_sdk Testnet sample_wallet_db (int 2) (int 1) (J ''asc'')
      (J COINBASE) JUndef JUndef JUndef))) = Fin 2"
proof -
  have "of_nat (length (db_transactions sample_wallet_db)) < double_limit"
    using below_double_limit [of 4] by (simp add: sample_wallet_db_def)
  then show ?thesis
    using getTransactions_filtered_total [OF sample_counts_exact, of JUndef "J COINBASE" JUndef JUndef
        sample_sdk Testnet 2 1 "J ''asc''"]
    by (simp add: sample_readable sample_listed)
qed

theorem address_first_page_witness:
  "\<exists>res unconfirmed confirmed.
     getAddressTransactions sample_sdk Testnet sample_wallet_db ''X7'' 1 (int 1) (J ''desc'') JUndef = Inr res \<and>
     map tr_hash (resultSet res) = map (\<lambda>t. Some (t_hash t)) (unconfirmed @ confirmed) \<and>
     set unconfirmed = {sample_tx 4 None False 0}"
proof -
  have "\<exists>res. getAddressTransactions sample_sdk Testnet sample_wallet_db ''X7'' 1 (int 1) (J ''desc'') JUndef = Inr res"
    by (rule getAddressTransactions_plain [OF sample_plain])
  then obtain res where res: "getAddressTransactions sample_sdk Testnet sample_wallet_db ''X7'' 1 (int 1) (J ''desc'') JUndef = Inr res" ..
  have "set (pendingTransactionIds sample_wallet_db (owned_by (address_id sample_wallet_db ''X7'')) JUndef) =
      {sample_tx 4 None False 0}"
    by (simp add: pendingTransactionIds_def owned_by_def address_id_def sample_wallet_db_def sample_tx_def)
  with address_first_page [OF sample_indexed res] res show ?thesis by (simp, blast)
qed

theorem transaction_found_iff_witness:
  "case transaction_handler sample_sdk Testnet sample_wallet_db ''a'' of
     Inr (Refused code _) \<Rightarrow> code = 404 | _ \<Rightarrow> False"
proof -
  have "distinct (map t_hash (db_transactions sample_wallet_db))" "js_trim ''a'' = ''a''"
    "''a'' \<notin> t_hash ` set (db_transactions sample_wallet_db)"
    using sample_indexed by (simp_all add: indexed_def keyed_def js_trim_def is_space_def sample_wallet_db_def sample_tx_def numeral_eq_Suc)
  moreover have "\<forall>t \<in> set (db_transactions sample_wallet_db). readable sample_sdk Testnet sample_wallet_db True t"
    by (simp add: sample_readable)
  ultimately show ?thesis
    using transaction_found_iff [of sample_wallet_db sample_sdk Testnet "''a''"]
    by (auto split: sum.splits reply.splits) (metis imageI)
qed

end
