(* ===== verification/Addresses.thy ===== *)
theory Addresses
  imports XpubHistory
begin

text \<open>
  \<open>api/src/dao/AddressesDAO.ts\<close> without its time series: addresses and their totals, the balances of
  several addresses or of a wallet, unspent outputs, and the rich list.
\<close>

section \<open>Addresses\<close>

definition tx_hash_of :: "db \<Rightarrow> int option \<Rightarrow> string js" where
  "tx_hash_of d i = js_of_option (map_option t_hash (Option.bind i (tx_by_id d)))"

definition block_hash_of :: "db \<Rightarrow> int option \<Rightarrow> string js" where
  "block_hash_of d h = js_of_option (Option.bind (Option.bind h (block_at d)) b_hash)"

definition block_time_of :: "db \<Rightarrow> int option \<Rightarrow> date js" where
  "block_time_of d h = js_of_option (map_option (\<lambda>b. Some (b_timestamp b)) (Option.bind h (block_at d)))"

definition getAddresses :: "db \<Rightarrow> int \<Rightarrow> int \<Rightarrow> string js \<Rightarrow> Address PaginatedResultSet result" where
  "getAddresses d page limit order =
     (let fromRank = (page - 1) * limit in
      bind_result (limit_offset limit fromRank (order_by (js_dir order) a_last_seen_block (db_addresses d))) (\<lambda>rows.
        Inr (new_PaginatedResultSet
               (map (\<lambda>a. Address_fromRow
                      \<lparr>ar_address = J (a_address a), ar_first_seen_block = block_hash_of d (a_first_seen_block a),
                       ar_first_seen_block_timestamp = JUndef, ar_first_seen_tx = tx_hash_of d (a_first_seen_tx_id a),
                       ar_last_seen_block = block_hash_of d (a_last_seen_block a),
                       ar_last_seen_block_timestamp = JUndef, ar_last_seen_tx = tx_hash_of d (a_last_seen_tx_id a),
                       ar_tx_count = JUndef, ar_received = JUndef, ar_sent = JUndef\<rparr>) rows)
               page (Fin (of_int limit))
               (if rows = [] then JUndef else J (bigint (db_reltuples d ''addresses''))))))"

text \<open>\<open>COALESCE(SUM(amount), 0)::text\<close> over the unspent outputs of some addresses.\<close>

definition unspent_sum :: "db \<Rightarrow> (int option \<Rightarrow> bool) \<Rightarrow> int" where
  "unspent_sum d owned = sum_list (map u_amount (filter (\<lambda>u. owned (u_address_id u)) (db_utxo d)))"

definition getAddress :: "db \<Rightarrow> string \<Rightarrow> Address option" where
  "getAddress d address =
     map_option (\<lambda>a.
       let row = \<lparr>ar_address = J (a_address a), ar_first_seen_block = block_hash_of d (a_first_seen_block a),
                  ar_first_seen_block_timestamp = block_time_of d (a_first_seen_block a),
                  ar_first_seen_tx = tx_hash_of d (a_first_seen_tx_id a),
                  ar_last_seen_block = block_hash_of d (a_last_seen_block a),
                  ar_last_seen_block_timestamp = block_time_of d (a_last_seen_block a),
                  ar_last_seen_tx = tx_hash_of d (a_last_seen_tx_id a),
                  ar_tx_count = J (bigint (a_tx_count a)), ar_received = J (dec_int (a_received a)),
                  ar_sent = J (dec_int (a_sent a))\<rparr>
       in Address_fromObject (Address_fromRow row) (J (dec_int (unspent_sum d (owned_by (Some (a_id a)))))))
       (find (\<lambda>a. a_address a = address) (db_addresses d))"

text \<open>\<open>Map\<close> keeps the last row under an address.\<close>

definition getAddressesInfo :: "db \<Rightarrow> string list \<Rightarrow> AddressInfo list" where
  "getAddressesInfo d addresses =
     (let unique = remdups addresses;
          rows = filter (\<lambda>a. a_address a \<in> set unique) (db_addresses d);
          byAddress = map_of (rev (map (\<lambda>a. (a_address a, a)) rows))
      in map (\<lambda>address.
           case byAddress address of
             Some a \<Rightarrow> AddressInfo_fromRow (J (a_address a))
                         (J (dec_int (unspent_sum d (owned_by (Some (a_id a)))))) (J (bigint (a_tx_count a)))
           | None \<Rightarrow> AddressInfo_fromObject (J address) (J ''0'') (J (Fin 0))) addresses)"

definition getAddressIds :: "db \<Rightarrow> string list \<Rightarrow> (int \<times> string) list" where
  "getAddressIds d addresses =
     (if addresses = [] then []
      else map (\<lambda>a. (a_id a, a_address a)) (filter (\<lambda>a. a_address a \<in> set addresses) (db_addresses d)))"

section \<open>Wallets\<close>

definition in_ids :: "int list \<Rightarrow> int option \<Rightarrow> bool" where
  "in_ids ids i \<longleftrightarrow> (case i of None \<Rightarrow> False | Some a \<Rightarrow> a \<in> set ids)"

definition getXpubSummary :: "db \<Rightarrow> int list \<Rightarrow> XpubSummary" where
  "getXpubSummary d addressIds =
     (if addressIds = [] then XpubSummary_fromRow (J ''0'') (J ''0'') (J ''0'') (J (CStr ''0''))
      else
        (let owned = filter (\<lambda>a. a_id a \<in> set addressIds) (db_addresses d);
             txs = map at_tx_id (filter (\<lambda>r. at_address_id r \<in> set addressIds) (db_address_transactions d))
         in XpubSummary_fromRow
              (J (dec_int (unspent_sum d (in_ids addressIds))))
              (J (dec_int (sum_list (map a_received owned))))
              (J (dec_int (sum_list (map a_sent owned))))
              (J (bigint (int (length (remdups txs)))))))"

section \<open>Unspent outputs\<close>

definition output_at :: "db \<Rightarrow> int \<Rightarrow> int \<Rightarrow> output_row option" where
  "output_at d txid vout = find (\<lambda>o'. o_tx_id o' = txid \<and> o_vout_index o' = vout) (db_outputs d)"

definition utxo_columns :: "db \<Rightarrow> string js \<Rightarrow> utxo_row \<Rightarrow> UtxoRow" where
  "utxo_columns d address u =
     (let t = tx_by_id d (u_tx_id u); height = Option.bind t t_block_height in
      \<lparr>ur_prev_tx_hash = js_of_option (map_option t_hash t), ur_prev_vout_index = J (u_vout_index u),
       ur_address = address, ur_amount = J (dec_int (u_amount u)),
       ur_script_pub_key = js_of_option (Option.bind (output_at d (u_tx_id u) (u_vout_index u)) o_script_pub_key),
       ur_block_height = js_of_option (map_option (\<lambda>h. CNum (of_int h)) height),
       ur_confirmations = js_of_option (map_option (\<lambda>n. CNum (of_int n)) (or_null (confirmations_of d height))),
       ur_timestamp = block_time_of d height\<rparr>)"

definition getAddressUtxo ::
  "db \<Rightarrow> string \<Rightarrow> int \<Rightarrow> int \<Rightarrow> string js \<Rightarrow> Utxo PaginatedResultSet result" where
  "getAddressUtxo d address page limit order =
     (let fromRank = (page - 1) * limit;
          owned = filter (\<lambda>u. owned_by (address_id d address) (u_address_id u)) (db_utxo d);
          by_amount = order_by (js_dir order) (\<lambda>u. Some (u_amount u))
      in bind_result (limit_offset limit fromRank (by_amount owned)) (\<lambda>pageRows.
           let rows = by_amount pageRows in
           Inr (new_PaginatedResultSet (map (\<lambda>u. Utxo_fromRow (utxo_columns d (J address) u)) rows) page
                  (Fin (of_int limit))
                  (J (coalesce (if rows = [] then JUndef else J (bigint (int (length owned)))) (CNum (-1)))))))"

definition getXpubUtxo :: "db \<Rightarrow> int list \<Rightarrow> int \<Rightarrow> int \<Rightarrow> Utxo PaginatedResultSet result" where
  "getXpubUtxo d addressIds page limit =
     (if addressIds = [] then Inr (new_PaginatedResultSet [] page (Fin (of_int limit)) (J (CNum 0)))
      else
        (let fromRank = (page - 1) * limit;
             owned = filter (\<lambda>u. in_ids addressIds (u_address_id u)) (db_utxo d);
             by_amount = order_by Desc (\<lambda>u. Some (u_amount u))
         in bind_result (limit_offset limit fromRank (by_amount owned)) (\<lambda>pageRows.
              let rows = by_amount pageRows in
              Inr (new_PaginatedResultSet
                     (Utxo_fromRows (map (\<lambda>u. utxo_columns d (address_text d (u_address_id u)) u) rows)) page
                     (Fin (of_int limit))
                     (J (coalesce (if rows = [] then JUndef else J (bigint (int (length owned)))) (CNum 0)))))))"

text \<open>
  How the server sorts text is its collation, a parameter: \<open>rank\<close> numbers the addresses in its order.
\<close>

definition getAddressesUtxo :: "(string \<Rightarrow> int) \<Rightarrow> db \<Rightarrow> string list \<Rightarrow> Utxo list" where
  "getAddressesUtxo rank d addresses =
     (let ids = filter (\<lambda>a. a_address a \<in> set (remdups addresses)) (db_addresses d);
          rows = inner_join (\<lambda>u a. u_address_id u = Some (a_id a)) (db_utxo d) ids;
          ordered = order_by_keys [(Asc, \<lambda>(u, a). Some (rank (a_address a))), (Desc, \<lambda>(u, a). Some (u_amount u))] rows
      in Utxo_fromRows (map (\<lambda>(u, a). utxo_columns d (J (a_address a)) u) ordered))"

section \<open>The rich list\<close>

text \<open>A row of balance and address, as the driver delivers it.\<close>

record rich_row =
  rr_balance :: int
  rr_address :: "string js"

definition getBalancesInfo ::
  "db \<Rightarrow> int \<Rightarrow> int \<Rightarrow> string js \<Rightarrow> rich_row PaginatedResultSet result" where
  "getBalancesInfo d page limit order =
     (let fromRank = (page - 1) * limit in
      bind_result (limit_offset limit fromRank (order_by (js_dir order) (\<lambda>b. Some (bl_balance b)) (db_balances d)))
        (\<lambda>rows.
          Inr (new_PaginatedResultSet
                 (map (\<lambda>b. \<lparr>rr_balance = bl_balance b, rr_address = address_text d (Some (bl_address_id b))\<rparr>) rows)
                 page (Fin (of_int limit))
                 (J (coalesce (if rows = [] then JUndef else J (bigint (db_reltuples d ''address_balances'')))
                      (CNum (-1)))))))"

section \<open>What the replies say\<close>

lemma dec_int_0: "dec_int 0 = ''0''"
  by (simp add: dec_int_def dec_nat.simps digit_char_def char_of_def bit_0)

lemma map_of_key:
  assumes "distinct (map f xs)"
  shows "map_of (rev (map (\<lambda>x. (f x, x)) (filter (\<lambda>x. f x \<in> A) xs))) k =
    (if k \<in> A then find (\<lambda>x. f x = k) xs else None)"
proof -
  let ?ps = "map (\<lambda>x. (f x, x)) (filter (\<lambda>x. f x \<in> A) xs)"
  have "distinct (map fst ?ps)" using assms by (simp add: comp_def distinct_map_filter)
  then have "map_of (rev ?ps) = map_of ?ps"
    by (intro map_of_inject_set [THEN iffD2]) (simp_all flip: rev_map)
  then have "map_of (rev ?ps) k = map_of ?ps k" by simp
  also have "\<dots> = (if k \<in> A then find (\<lambda>x. f x = k) xs else None)"
    by (induction xs) auto
  finally show ?thesis .
qed

text \<open>
  The balances of a list of addresses come back one for each requested address, in the order of the
  request and with repetitions, each the sum of the unspent outputs of that address, and zero for an
  address that was never seen.
\<close>

theorem addresses_info_in_order:
  assumes "keyed d"
  shows "map (\<lambda>info. (ai_address info, ai_balance info)) (getAddressesInfo d addresses) =
    map (\<lambda>x. (Some x, Some (dec_int (unspent_sum d (owned_by (address_id d x)))))) addresses"
proof -
  have none: "unspent_sum d (owned_by None) = 0" by (simp add: unspent_sum_def owned_by_def)
  note zero = dec_int_0
  have "distinct (map a_address (db_addresses d))" using assms by (simp add: keyed_def)
  from map_of_key [OF this] show ?thesis
    by (auto simp: getAddressesInfo_def address_id_def AddressInfo_fromRow_def AddressInfo_fromObject_def
        new_AddressInfo_def none zero dest: find_SomeD split: option.splits)
qed

lemma wallet_history_ids:
  assumes "indexed d"
  shows "length (remdups (map at_tx_id (filter (\<lambda>r. at_address_id r \<in> set ids) (db_address_transactions d)))) =
    length (wallet_history d ids)"
proof -
  let ?txs = "map at_tx_id (filter (\<lambda>r. at_address_id r \<in> set ids) (db_address_transactions d))"
  have "set ?txs = t_id ` set (wallet_history d ids)"
    using assms by (auto simp: wallet_history_def indexed_def image_iff) metis+
  moreover have "distinct (map t_id (wallet_history d ids))"
    using indexedD(1,3) [OF assms] by (auto simp: wallet_history_def distinct_map inj_on_def)
  then have "length (wallet_history d ids) = card (t_id ` set (wallet_history d ids))"
    using distinct_card by fastforce
  ultimately show ?thesis by (simp add: length_remdups_card_conv)
qed

lemma in_ids_Nil: "\<not> in_ids [] i"
  by (cases i) (auto simp: in_ids_def)

text \<open>
  The totals of a wallet count each of its transactions once, however many of its addresses it
  touches: the count is the length of the history that the wallet endpoint pages through.
\<close>

theorem xpub_summary_counts_history:
  assumes "indexed d" "of_nat (length (db_transactions d)) < double_limit"
  shows "xs_txCount (getXpubSummary d ids) = Some (Fin (of_nat (length (wallet_history d ids)))) \<and>
    xs_balance (getXpubSummary d ids) = Some (dec_int (unspent_sum d (in_ids ids)))"
proof -
  note zero = dec_int_0
  have "length (wallet_history d ids) \<le> length (db_transactions d)"
    by (simp add: wallet_history_def)
  then have lim: "of_nat (length (wallet_history d ids)) < double_limit"
    using assms(2) by (meson le_less_trans of_nat_le_iff)
  show ?thesis
  proof (cases "ids = []")
    case True
    moreover have "js_Number (J (CStr ''0'')) = Fin 0"
      using js_Number_bigint [of 0] below_double_limit [of 0] by (simp add: bigint_def zero)
    ultimately show ?thesis
      by (simp add: getXpubSummary_def XpubSummary_fromRow_def new_XpubSummary_def wallet_history_def
          unspent_sum_def in_ids_Nil zero del: js_Number.simps)
  next
    case False
    then show ?thesis
      using js_Number_bigint [OF lim] wallet_history_ids [OF assms(1), of ids]
      by (simp add: getXpubSummary_def XpubSummary_fromRow_def new_XpubSummary_def Let_def del: js_Number.simps)
  qed
qed

definition owned_utxo :: "db \<Rightarrow> string \<Rightarrow> utxo_row list" where
  "owned_utxo d address = filter (\<lambda>u. owned_by (address_id d address) (u_address_id u)) (db_utxo d)"

lemma order_by_page:
  "order_by dir key (page_of page limit (order_by dir key xs)) = page_of page limit (order_by dir key xs)"
  unfolding order_by_def
  by (rule js_sort_sorted) (rule sorted_wrt_page_of, rule order_by.sorted_js_sort)

lemma getAddressUtxo_page:
  assumes "1 \<le> page"
  shows "getAddressUtxo d address (int page) (int limit) order =
    (let rows = page_of page limit (order_by (js_dir order) (\<lambda>u. Some (u_amount u)) (owned_utxo d address)) in
     Inr (new_PaginatedResultSet (map (\<lambda>u. Utxo_fromRow (utxo_columns d (J address) u)) rows) (int page)
       (Fin (of_nat limit))
       (J (if rows = [] then CNum (-1) else bigint (int (length (owned_utxo d address)))))))"
  by (simp add: getAddressUtxo_def limit_offset_page [OF assms] order_by_page owned_utxo_def Let_def)

text \<open>
  Walking the pages of the unspent outputs of an address shows each of them once, by amount in the
  requested order, and the total beside every page that shows one is their number.
\<close>

theorem address_utxo_pages:
  assumes "length (owned_utxo d address) \<le> n * limit" "of_nat (length (db_utxo d)) < double_limit"
  shows "concat (map (\<lambda>p. resultSet (projr (getAddressUtxo d address (int p) (int limit) order))) [1..<Suc n]) =
      map (\<lambda>u. Utxo_fromRow (utxo_columns d (J address) u))
        (order_by (js_dir order) (\<lambda>u. Some (u_amount u)) (owned_utxo d address)) \<and>
    (\<forall>p \<ge> 1. resultSet (projr (getAddressUtxo d address (int p) (int limit) order)) \<noteq> [] \<longrightarrow>
      pg_total (pagination (projr (getAddressUtxo d address (int p) (int limit) order))) =
        Fin (of_nat (length (owned_utxo d address))))"
proof
  let ?all = "order_by (js_dir order) (\<lambda>u. Some (u_amount u)) (owned_utxo d address)"
  have "map (\<lambda>p. resultSet (projr (getAddressUtxo d address (int p) (int limit) order))) [1..<Suc n] =
      map (\<lambda>p. map (\<lambda>u. Utxo_fromRow (utxo_columns d (J address) u)) (page_of p limit ?all)) [1..<Suc n]"
    by (rule map_cong [OF refl]) (auto simp: getAddressUtxo_page new_PaginatedResultSet_def Let_def)
  also have "concat \<dots> = map (\<lambda>u. Utxo_fromRow (utxo_columns d (J address) u))
      (concat (map (\<lambda>p. page_of p limit ?all) [1..<Suc n]))"
    by (simp add: map_concat comp_def del: upt_Suc)
  also have "concat (map (\<lambda>p. page_of p limit ?all) [1..<Suc n]) = ?all"
    by (rule concat_all_pages) (use assms(1) in simp)
  finally show "concat (map (\<lambda>p. resultSet (projr (getAddressUtxo d address (int p) (int limit) order))) [1..<Suc n]) =
      map (\<lambda>u. Utxo_fromRow (utxo_columns d (J address) u)) ?all" .
  have "length (owned_utxo d address) \<le> length (db_utxo d)" by (simp add: owned_utxo_def)
  then have "of_nat (length (owned_utxo d address)) < double_limit"
    using assms(2) by (meson le_less_trans of_nat_le_iff)
  from js_Number_bigint [OF this]
  show "\<forall>p \<ge> 1. resultSet (projr (getAddressUtxo d address (int p) (int limit) order)) \<noteq> [] \<longrightarrow>
      pg_total (pagination (projr (getAddressUtxo d address (int p) (int limit) order))) =
        Fin (of_nat (length (owned_utxo d address)))"
    by (auto simp: getAddressUtxo_page new_PaginatedResultSet_def Let_def simp del: js_Number.simps)
qed

section \<open>Sample addresses\<close>

definition sample_utxo_db :: db where
  "sample_utxo_db =
     sample_wallet_db\<lparr>db_utxo :=
       [\<lparr>u_tx_id = 1, u_vout_index = 0, u_address_id = Some 7, u_amount = 3\<rparr>,
        \<lparr>u_tx_id = 2, u_vout_index = 0, u_address_id = Some 8, u_amount = 4\<rparr>,
        \<lparr>u_tx_id = 2, u_vout_index = 1, u_address_id = Some 7, u_amount = 5\<rparr>]\<rparr>"

lemma sample_utxo_keyed: "keyed sample_utxo_db"
  using sample_indexed by (simp add: indexed_def keyed_def sample_utxo_db_def)

lemma sample_address_ids: "address_id sample_utxo_db ''X7'' = Some 7" "address_id sample_utxo_db ''Xq'' = None"
  by (simp_all add: address_id_def sample_utxo_db_def sample_wallet_db_def)

theorem addresses_info_in_order_witness:
  "map (\<lambda>info. (ai_address info, ai_balance info)) (getAddressesInfo sample_utxo_db [''Xq'', ''X7'']) =
     [(Some ''Xq'', Some (dec_int 0)), (Some ''X7'', Some (dec_int 8))]"
  using addresses_info_in_order [OF sample_utxo_keyed, of "[''Xq'', ''X7'']"]
  by (simp add: sample_address_ids unspent_sum_def owned_by_def) (simp add: sample_utxo_db_def)

theorem xpub_summary_counts_history_witness:
  "xs_txCount (getXpubSummary sample_wallet_db [7, 8]) = Some (Fin 3)"
proof -
  have "of_nat (length (db_transactions sample_wallet_db)) < double_limit"
    using below_double_limit [of 4] by (simp add: sample_wallet_db_def)
  with xpub_summary_counts_history [OF sample_indexed, of "[7, 8]"] show ?thesis
    by (simp add: sample_history)
qed

theorem address_utxo_pages_witness:
  "map ux_amount (concat (map (\<lambda>p. resultSet (projr (getAddressUtxo sample_utxo_db ''X7'' (int p) (int 1) (J ''desc''))))
     [1..<Suc 2])) = [Some (dec_int 5), Some (dec_int 3)]"
proof -
  have owned: "owned_utxo sample_utxo_db ''X7'' =
      [\<lparr>u_tx_id = 1, u_vout_index = 0, u_address_id = Some 7, u_amount = 3\<rparr>,
       \<lparr>u_tx_id = 2, u_vout_index = 1, u_address_id = Some 7, u_amount = 5\<rparr>]"
    by (simp add: owned_utxo_def sample_address_ids owned_by_def) (simp add: sample_utxo_db_def)
  have "of_nat (length (db_utxo sample_utxo_db)) < double_limit"
    using below_double_limit [of 3] by (simp add: sample_utxo_db_def)
  with address_utxo_pages [of sample_utxo_db "''X7''" 2 1 "J ''desc''"] show ?thesis
    by (simp add: owned order_by_def js_sort_def order_cmp_def dir_of_def Utxo_fromRow_def new_Utxo_def
        utxo_columns_def Let_def del: upt_Suc)
qed

end
