(* ===== verification/BalanceSeries.thy ===== *)
theory BalanceSeries
  imports Addresses TransactionSeries
begin

text \<open>
  \<open>getAddressBalanceSeries\<close> of \<open>api/src/dao/AddressesDAO.ts\<close>: the balance of an address over a window,
  from daily net flows before the window and live flows inside it. The theorem relates every point of
  the chart to the whole history of the address: it shows the one instant that is lost, and what is
  counted twice where block times step back.
\<close>

definition msPerDay :: int where "msPerDay = 86400000"

definition utc_day :: "int \<Rightarrow> int" where "utc_day t = t div msPerDay"

text \<open>What an address receives with an output and spends with an input, at the time of the block.\<close>

record flow =
  fl_time :: int
  fl_received :: bool
  fl_value :: int

definition flows_of_entry :: "db \<Rightarrow> int \<Rightarrow> address_tx_row \<Rightarrow> flow list" where
  "flows_of_entry d aid r =
     (case block_at d (at_block_height r) of
        None \<Rightarrow> []
      | Some b \<Rightarrow>
          map (\<lambda>o'. \<lparr>fl_time = b_timestamp b, fl_received = True, fl_value = o_value o'\<rparr>)
            (filter (\<lambda>o'. o_tx_id o' = at_tx_id r \<and> o_address_id o' = Some aid) (db_outputs d)) @
          map (\<lambda>i. \<lparr>fl_time = b_timestamp b, fl_received = False, fl_value = or_else (i_amount i) 0\<rparr>)
            (filter (\<lambda>i. i_tx_id i = at_tx_id r \<and> i_address_id i = Some aid) (db_inputs d)))"

definition all_txs :: "db \<Rightarrow> int \<Rightarrow> address_tx_row list \<Rightarrow> flow list" where
  "all_txs d aid entries = concat (map (flows_of_entry d aid) entries)"

text \<open>\<open>SUM(value) FILTER (received) - SUM(value) FILTER (spent)\<close>, nothing counting as 0.\<close>

definition net_change :: "flow list \<Rightarrow> int" where
  "net_change fs =
     sum_list (map fl_value (filter fl_received fs)) - sum_list (map fl_value (filter (\<lambda>f. \<not> fl_received f) fs))"

definition entries_of :: "db \<Rightarrow> int \<Rightarrow> address_tx_row list" where
  "entries_of d aid = filter (\<lambda>r. at_address_id r = aid) (db_address_transactions d)"

text \<open>The entries between the lowest and the highest block of the window, from the start of its first day.\<close>

definition window_entries :: "db \<Rightarrow> int \<Rightarrow> int \<Rightarrow> int \<Rightarrow> address_tx_row list" where
  "window_entries d aid startDay end' =
     (let bs = slice_blocks d (startDay, end'); heights = b_height ` set bs in
      if bs = [] then []
      else filter (\<lambda>r. Min heights \<le> at_block_height r \<and> at_block_height r \<le> Max heights) (entries_of d aid))"

definition opening_balance :: "db \<Rightarrow> int \<Rightarrow> int \<Rightarrow> int" where
  "opening_balance d aid day =
     (let rows = filter (\<lambda>r. dl_address_id r = aid \<and> dl_day r < day) (db_deltas d) in
      sum_list (map dl_received rows) - sum_list (map dl_sent rows))"

text \<open>An address that is not in the table has no entries, no deltas and so a balance of 0 throughout.\<close>

definition getAddressBalanceSeries ::
  "(string \<Rightarrow> int \<Rightarrow> int) \<Rightarrow> db \<Rightarrow> string \<Rightarrow> int \<Rightarrow> int \<Rightarrow> string \<Rightarrow> int \<Rightarrow> string SeriesData list result" where
  "getAddressBalanceSeries pg_add d address start end' interval intervalInMs =
     (case ranges (pg_add interval) start end' intervalInMs of
        None \<Rightarrow> Inl QueryFailure
      | Some rows \<Rightarrow>
          (let startDay = utc_day start;
               (opening, flows) =
                 (case address_id d address of
                    None \<Rightarrow> (0, [])
                  | Some aid \<Rightarrow> (opening_balance d aid startDay,
                                all_txs d aid (window_entries d aid (startDay * msPerDay) end')));
               initial = opening + net_change (filter (\<lambda>f. fl_time f < start) flows);
               buckets = map (\<lambda>r. (fst r, net_change (filter (\<lambda>f. in_row (fl_time f) r) flows))) rows;
               ordered = order_by Asc (\<lambda>b. Some (fst b)) buckets
           in Inr (map (\<lambda>(from, balance). new_SeriesData (J (Some from)) (J (dec_int balance)))
                     (zip (map fst ordered) (map ((+) initial) (running 0 (map snd ordered)))))))"

section \<open>Flows\<close>

definition signed :: "flow \<Rightarrow> int" where
  "signed f = (if fl_received f then fl_value f else - fl_value f)"

lemma net_change_signed: "net_change fs = sum_list (map signed fs)"
  by (induction fs) (auto simp: net_change_def signed_def)

lemma net_change_row: "net_change (filter (\<lambda>f. in_row (fl_time f) r) fs) = row_sum fl_time signed fs r"
  by (simp add: net_change_signed row_sum_def)

lemma sum_filter_disjoint:
  "(\<And>x. x \<in> set xs \<Longrightarrow> \<not> (P x \<and> Q x)) \<Longrightarrow>
   sum_list (map f (filter (\<lambda>x. P x \<or> Q x) xs)) = sum_list (map f (filter P xs)) + sum_list (map f (filter Q xs))"
  for f :: "'a \<Rightarrow> int"
  by (induction xs) auto

lemma sum_by_key:
  fixes w :: "'a \<Rightarrow> int"
  assumes "finite K" "g ` set xs \<subseteq> K"
  shows "sum_list (map w (filter (\<lambda>x. P (g x)) xs)) =
    (\<Sum>k | k \<in> K \<and> P k. sum_list (map w (filter (\<lambda>x. g x = k) xs)))"
  using assms(2)
proof (induction xs)
  case (Cons x xs)
  have fin: "finite {k \<in> K. P k}" using assms(1) by simp
  have "(\<Sum>k | k \<in> K \<and> P k. sum_list (map w (filter (\<lambda>x. g x = k) (x # xs)))) =
      (\<Sum>k | k \<in> K \<and> P k. (if k = g x then w x else 0) + sum_list (map w (filter (\<lambda>x. g x = k) xs)))"
    by (rule sum.cong) auto
  also have "\<dots> = (if P (g x) then w x else 0) + sum_list (map w (filter (\<lambda>x. P (g x)) xs))"
    using Cons fin by (simp add: sum.distrib sum.delta)
  finally show ?case by simp
qed simp

text \<open>The history of an address, and what the indexer keeps true of the daily table.\<close>

definition history_of :: "db \<Rightarrow> int \<Rightarrow> flow list" where
  "history_of d aid = all_txs d aid (entries_of d aid)"

definition delta_net :: "delta_row \<Rightarrow> int" where "delta_net r = dl_received r - dl_sent r"

definition deltas_exact :: "db \<Rightarrow> int \<Rightarrow> bool" where
  "deltas_exact d aid \<longleftrightarrow>
     (\<forall>day \<in> utc_day ` fl_time ` set (history_of d aid) \<union> dl_day ` set (db_deltas d).
        sum_list (map delta_net (filter (\<lambda>r. dl_address_id r = aid \<and> dl_day r = day) (db_deltas d))) =
        net_change (filter (\<lambda>f. utc_day (fl_time f) = day) (history_of d aid)))"

lemma opening_balance_exact:
  assumes "deltas_exact d aid"
  shows "opening_balance d aid day = net_change (filter (\<lambda>f. utc_day (fl_time f) < day) (history_of d aid))"
proof -
  let ?fs = "history_of d aid" and ?rs = "filter (\<lambda>r. dl_address_id r = aid) (db_deltas d)"
  let ?K = "utc_day ` fl_time ` set ?fs \<union> dl_day ` set (db_deltas d)"
  have "opening_balance d aid day = sum_list (map delta_net (filter (\<lambda>r. dl_day r < day) ?rs))"
    by (induction "db_deltas d") (auto simp: opening_balance_def delta_net_def sum_list_subtractf conj_commute Let_def)
  also have "\<dots> = (\<Sum>k | k \<in> ?K \<and> k < day. sum_list (map delta_net (filter (\<lambda>r. dl_day r = k) ?rs)))"
    by (rule sum_by_key) auto
  also have "\<dots> = (\<Sum>k | k \<in> ?K \<and> k < day. sum_list (map signed (filter (\<lambda>f. utc_day (fl_time f) = k) ?fs)))"
    using assms by (intro sum.cong) (auto simp: deltas_exact_def net_change_signed conj_commute)
  also have "\<dots> = sum_list (map signed (filter (\<lambda>f. utc_day (fl_time f) < day) ?fs))"
    by (rule sum_by_key [symmetric, of _ "\<lambda>f. utc_day (fl_time f)"]) auto
  finally show ?thesis by (simp add: net_change_signed)
qed

lemma flows_time:
  "f \<in> set (flows_of_entry d aid r) \<Longrightarrow>
   \<exists>b. block_at d (at_block_height r) = Some b \<and> fl_time f = b_timestamp b \<and> b \<in> set (db_blocks d)"
  by (cases "block_at d (at_block_height r)")
     (auto simp: flows_of_entry_def block_at_def dest: find_SomeD)

lemma entry_kept:
  assumes "block_at d (at_block_height r) = Some c"
  shows "filter (\<lambda>f. a \<le> fl_time f \<and> fl_time f \<le> b) (flows_of_entry d aid r) =
    (if a \<le> b_timestamp c \<and> b_timestamp c \<le> b then flows_of_entry d aid r else [])"
proof -
  have time: "fl_time f = b_timestamp c" if "f \<in> set (flows_of_entry d aid r)" for f
    using flows_time [OF that] assms by auto
  then show ?thesis by (simp add: filter_id_conv filter_empty_conv)
qed

lemma entry_lost: "block_at d (at_block_height r) = None \<Longrightarrow> flows_of_entry d aid r = []"
  by (simp add: flows_of_entry_def)

text \<open>
  The entries are cut out by height. Those whose block is timed in the window are all among them, and so
  may be entries whose block is timed elsewhere, between blocks of the window.
\<close>

lemma window_entries_between:
  "window_entries d aid a b = filter (\<lambda>r. between (slice_blocks d (a, b)) (at_block_height r)) (entries_of d aid)"
  by (cases "slice_blocks d (a, b) = []")
     (simp_all add: window_entries_def between_heights flip: filter_False)

lemma window_flows:
  "filter (\<lambda>f. a \<le> fl_time f \<and> fl_time f \<le> b) (all_txs d aid (window_entries d aid a b)) =
    filter (\<lambda>f. a \<le> fl_time f \<and> fl_time f \<le> b) (history_of d aid)"
proof -
  let ?Q = "\<lambda>f. a \<le> fl_time f \<and> fl_time f \<le> b"
  have "filter ?Q (all_txs d aid (filter (\<lambda>r. between (slice_blocks d (a, b)) (at_block_height r)) rs)) =
      filter ?Q (all_txs d aid rs)" for rs
  proof (induction rs)
    case (Cons r rs)
    have "filter ?Q (flows_of_entry d aid r) = []" if "\<not> between (slice_blocks d (a, b)) (at_block_height r)"
    proof (cases "block_at d (at_block_height r)")
      case (Some c)
      with that block_at_between [of d "at_block_height r" c a b] show ?thesis by (auto simp: entry_kept)
    qed (simp add: entry_lost)
    with Cons show ?case by (auto simp: all_txs_def)
  qed (simp add: all_txs_def)
  then show ?thesis by (simp add: window_entries_between history_of_def)
qed

text \<open>
  The entries of blocks that are timed before the first day of the window although their height lies
  between those of two blocks of the window, and what they move.
\<close>

definition stepped_back :: "db \<Rightarrow> int \<Rightarrow> int \<Rightarrow> address_tx_row \<Rightarrow> bool" where
  "stepped_back d start end' r \<longleftrightarrow>
     (case block_at d (at_block_height r) of None \<Rightarrow> False
      | Some c \<Rightarrow> b_timestamp c < utc_day start * msPerDay \<and>
          between (slice_blocks d (utc_day start * msPerDay, end')) (at_block_height r))"

definition counted_twice :: "db \<Rightarrow> int \<Rightarrow> int \<Rightarrow> int \<Rightarrow> flow list" where
  "counted_twice d aid start end' = all_txs d aid (filter (stepped_back d start end') (entries_of d aid))"

lemma early_flows:
  "filter (\<lambda>f. fl_time f < utc_day start * msPerDay)
     (all_txs d aid (window_entries d aid (utc_day start * msPerDay) end')) = counted_twice d aid start end'"
proof -
  define day where "day = utc_day start * msPerDay"
  have "filter (\<lambda>f. fl_time f < day)
        (all_txs d aid (filter (\<lambda>r. between (slice_blocks d (day, end')) (at_block_height r)) rs)) =
      all_txs d aid (filter (stepped_back d start end') rs)" for rs
  proof (induction rs)
    case (Cons r rs)
    show ?case
    proof (cases "block_at d (at_block_height r)")
      case None
      with Cons show ?thesis by (simp add: all_txs_def stepped_back_def entry_lost)
    next
      case (Some c)
      have "filter (\<lambda>f. fl_time f < day) (flows_of_entry d aid r) =
          (if b_timestamp c < day then flows_of_entry d aid r else [])"
        using flows_time [of _ d aid r] Some by (fastforce simp: filter_id_conv filter_empty_conv)
      with Cons Some show ?thesis by (simp add: all_txs_def stepped_back_def flip: day_def)
    qed
  qed (simp add: all_txs_def)
  then show ?thesis by (simp add: window_entries_between counted_twice_def flip: day_def)
qed

text \<open>Where block times never step back from one height to the next, nothing is counted twice.\<close>

lemma nothing_twice:
  assumes "\<forall>b \<in> set (db_blocks d). \<forall>c \<in> set (db_blocks d). b_height b \<le> b_height c \<longrightarrow> b_timestamp b \<le> b_timestamp c"
  shows "counted_twice d aid start end' = []"
proof -
  have "\<not> stepped_back d start end' r" for r
  proof
    assume "stepped_back d start end' r"
    then obtain c where c: "block_at d (at_block_height r) = Some c" "b_timestamp c < utc_day start * msPerDay"
      "between (slice_blocks d (utc_day start * msPerDay, end')) (at_block_height r)"
      by (auto simp: stepped_back_def split: option.splits)
    then have cin: "c \<in> set (db_blocks d)" "b_height c = at_block_height r"
      by (auto simp: block_at_def dest: find_SomeD)
    obtain l where "l \<in> set (db_blocks d)" "utc_day start * msPerDay \<le> b_timestamp l" "b_height l \<le> b_height c"
      using c(3) by (auto simp: between_def list_ex_iff slice_blocks_def cin(2))
    with assms cin(1) c(2) show False by fastforce
  qed
  then have "filter (stepped_back d start end') rs = []" for rs by simp
  then show ?thesis by (simp add: counted_twice_def all_txs_def)
qed

section \<open>The chart\<close>

text \<open>What a point of the chart shows: all flows up to it, but for those at the very start of the window.\<close>

definition balance_at :: "flow list \<Rightarrow> int \<Rightarrow> int \<Rightarrow> int" where
  "balance_at fs start to' = net_change (filter (\<lambda>f. fl_time f \<le> to' \<and> fl_time f \<noteq> start) fs)"

lemma net_change_disjoint:
  "(\<And>f. f \<in> set fs \<Longrightarrow> \<not> (P f \<and> Q f)) \<Longrightarrow>
   net_change (filter (\<lambda>f. P f \<or> Q f) fs) = net_change (filter P fs) + net_change (filter Q fs)"
  by (simp add: net_change_signed sum_filter_disjoint)

lemma div_less_mult: "0 < m \<Longrightarrow> t div m < k \<longleftrightarrow> t < k * m" for m :: int
proof
  assume m: "0 < m"
  show "t < k * m" if "t div m < k"
  proof -
    have "(t div m + 1) * m \<le> k * m" using that m by (intro mult_right_mono) simp_all
    moreover have "t < (t div m + 1) * m"
      unfolding distrib_right mult_1 using pos_mod_bound [OF m, of t] div_mult_mod_eq [of t m] by linarith
    ultimately show ?thesis by simp
  qed
  show "t div m < k" if "t < k * m"
  proof (rule ccontr)
    assume "\<not> t div m < k"
    then have "k * m \<le> t div m * m" using m by (intro mult_right_mono) simp_all
    also have "\<dots> \<le> t" using m by (simp add: minus_mod_eq_div_mult [symmetric])
    finally show False using that by simp
  qed
qed

lemma start_of_day: "utc_day start * msPerDay \<le> start"
  "utc_day t < utc_day start \<longleftrightarrow> t < utc_day start * msPerDay"
proof -
  have pos: "0 < msPerDay" by (simp add: msPerDay_def)
  show "utc_day start * msPerDay \<le> start"
    using pos by (simp add: utc_day_def minus_mod_eq_div_mult [symmetric])
  show "utc_day t < utc_day start \<longleftrightarrow> t < utc_day start * msPerDay"
    using pos unfolding utc_day_def by (rule div_less_mult)
qed

lemma initial_balance:
  assumes "start \<le> end'"
  shows "net_change (filter (\<lambda>f. utc_day (fl_time f) < utc_day start) fs) +
      net_change (filter (\<lambda>f. fl_time f < start)
        (filter (\<lambda>f. utc_day start * msPerDay \<le> fl_time f \<and> fl_time f \<le> end') fs)) =
    net_change (filter (\<lambda>f. fl_time f < start) fs)"
proof -
  let ?day = "utc_day start * msPerDay"
  have "net_change (filter (\<lambda>f. fl_time f < start) fs) =
      net_change (filter (\<lambda>f. fl_time f < ?day \<or> (?day \<le> fl_time f \<and> fl_time f < start)) fs)"
    using start_of_day(1) [of start] by (intro arg_cong [where f = net_change] filter_cong) auto
  also have "\<dots> = net_change (filter (\<lambda>f. fl_time f < ?day) fs) +
      net_change (filter (\<lambda>f. ?day \<le> fl_time f \<and> fl_time f < start) fs)"
    by (rule net_change_disjoint) auto
  also have "filter (\<lambda>f. ?day \<le> fl_time f \<and> fl_time f < start) fs =
      filter (\<lambda>f. fl_time f < start) (filter (\<lambda>f. ?day \<le> fl_time f \<and> fl_time f \<le> end') fs)"
    unfolding filter_filter using assms by (intro filter_cong) auto
  finally show ?thesis by (simp add: start_of_day(2))
qed

lemma balance_at_split:
  assumes "start \<le> to'"
  shows "balance_at fs start to' = net_change (filter (\<lambda>f. fl_time f < start) fs) + row_sum fl_time signed fs (start, to')"
proof -
  have "balance_at fs start to' =
      net_change (filter (\<lambda>f. fl_time f < start \<or> in_row (fl_time f) (start, to')) fs)"
    unfolding balance_at_def using assms by (intro arg_cong [where f = net_change] filter_cong) (auto simp: in_row_def)
  also have "\<dots> = net_change (filter (\<lambda>f. fl_time f < start) fs) +
      net_change (filter (\<lambda>f. in_row (fl_time f) (start, to')) fs)"
    by (rule net_change_disjoint) (auto simp: in_row_def)
  finally show ?thesis by (simp add: net_change_row)
qed

lemma running_plus: "map ((+) a) (running b xs) = running (a + b) xs"
  by (induction xs arbitrary: b) (simp_all add: add.assoc)

lemma sorted_starts:
  assumes "bucket_chain start rows"
  shows "order_by Asc (\<lambda>b. Some (fst b)) (map (\<lambda>r. (fst r, g r)) rows) = map (\<lambda>r. (fst r, g r)) rows"
  unfolding order_by_def
  by (rule js_sort_sorted)
     (use bucket_chain.distinct_starts [OF assms] in
       \<open>auto simp: order_cmp_le sorted_wrt_map elim!: sorted_wrt_mono_rel [rotated]\<close>)

lemma chart_flows:
  fixes d :: db and aid start end' :: int
  assumes "start \<le> end'"
  defines "F \<equiv> all_txs d aid (window_entries d aid (utc_day start * msPerDay) end')"
  shows "net_change (filter (\<lambda>f. fl_time f < start) F) =
      net_change (counted_twice d aid start end') +
      net_change (filter (\<lambda>f. fl_time f < start)
        (filter (\<lambda>f. utc_day start * msPerDay \<le> fl_time f \<and> fl_time f \<le> end') (history_of d aid)))"
    and "to' \<le> end' \<Longrightarrow> row_sum fl_time signed F (start, to') = row_sum fl_time signed (history_of d aid) (start, to')"
proof -
  let ?day = "utc_day start * msPerDay"
  note day = start_of_day(1) [of start]
  have same: "filter (\<lambda>f. ?day \<le> fl_time f \<and> fl_time f \<le> end') F =
      filter (\<lambda>f. ?day \<le> fl_time f \<and> fl_time f \<le> end') (history_of d aid)"
    unfolding F_def by (rule window_flows)
  have early: "filter (\<lambda>f. fl_time f < ?day) F = counted_twice d aid start end'"
    unfolding F_def by (rule early_flows)
  have "net_change (filter (\<lambda>f. fl_time f < start) F) =
      net_change (filter (\<lambda>f. fl_time f < ?day \<or> (?day \<le> fl_time f \<and> fl_time f < start)) F)"
    using day by (intro arg_cong [where f = net_change] filter_cong) auto
  also have "\<dots> = net_change (filter (\<lambda>f. fl_time f < ?day) F) +
      net_change (filter (\<lambda>f. ?day \<le> fl_time f \<and> fl_time f < start) F)"
    by (rule net_change_disjoint) auto
  also have "filter (\<lambda>f. ?day \<le> fl_time f \<and> fl_time f < start) F =
      filter (\<lambda>f. fl_time f < start) (filter (\<lambda>f. ?day \<le> fl_time f \<and> fl_time f \<le> end') F)"
    unfolding filter_filter using assms(1) by (intro filter_cong) auto
  finally show "net_change (filter (\<lambda>f. fl_time f < start) F) =
      net_change (counted_twice d aid start end') +
      net_change (filter (\<lambda>f. fl_time f < start)
        (filter (\<lambda>f. ?day \<le> fl_time f \<and> fl_time f \<le> end') (history_of d aid)))"
    unfolding early same .
  show "row_sum fl_time signed F (start, to') = row_sum fl_time signed (history_of d aid) (start, to')"
    if "to' \<le> end'"
  proof -
    have inside: "filter (\<lambda>f. in_row (fl_time f) (start, to')) fs =
        filter (\<lambda>f. in_row (fl_time f) (start, to')) (filter (\<lambda>f. ?day \<le> fl_time f \<and> fl_time f \<le> end') fs)" for fs
      unfolding filter_filter using day that by (intro filter_cong) (auto simp: in_row_def)
    show ?thesis unfolding row_sum_def inside [of F] inside [of "history_of d aid"] same ..
  qed
qed

text \<open>
  C8: the balance chart of a known address over a window whose end is not before its start, where the
  table of daily totals holds the exact total of every day of the address (what the indexer keeps of
  it). Each point is the sum of everything the address received minus everything it spent up to the end of
  the bucket, in the whole chain, although all days before the window come from daily totals, but for two
  things. What happened in the very millisecond the window starts is left out, since the opening balance
  stops before that instant and the first bucket begins after it. And as the live part is cut by the heights of
  the first and the last block of the window, a block between these heights that is timed before the
  first day (block times may step back) is in the daily totals already and is counted once more.
\<close>

theorem balance_series_exact:
  assumes "ranges (pg_add interval) start end' ms = Some rows" "0 < ms" "start \<le> end'"
    "address_id d address = Some aid" "deltas_exact d aid"
  shows "getAddressBalanceSeries pg_add d address start end' interval ms =
    Inr (map (\<lambda>r. \<lparr>timestamp = Some (Some (fst r)),
      data = Some (dec_int (balance_at (history_of d aid) start (snd r) +
                            net_change (counted_twice d aid start end')))\<rparr>) rows)"
proof -
  note chain = ranges_chain(1) [OF assms(1,2)]
  have until: "chain_end start rows \<le> end'" using ranges_chain(2) [OF assms(1,2)] assms(3) by simp
  let ?H = "history_of d aid"
  let ?F = "all_txs d aid (window_entries d aid (utc_day start * msPerDay) end')"
  let ?twice = "net_change (counted_twice d aid start end')"
  define initial where "initial = opening_balance d aid (utc_day start) + net_change (filter (\<lambda>f. fl_time f < start) ?F)"
  have initial: "initial = ?twice + net_change (filter (\<lambda>f. fl_time f < start) ?H)"
    using initial_balance [OF assms(3), of ?H] chart_flows(1) [OF assms(3), of d aid]
    by (simp add: initial_def opening_balance_exact [OF assms(5)])
  have inside: "start \<le> snd r \<and> snd r \<le> end'" if "r \<in> set rows" for r
  proof -
    have "in_row (snd r) r" using chain_row [OF bucket_chain.chained [OF chain] that] by (simp add: in_row_def)
    then have "snd r \<le> chain_end start rows"
      using bucket_chain.in_some_row [OF chain, of "snd r"] that by blast
    with until chain_row [OF bucket_chain.chained [OF chain] that] show ?thesis by linarith
  qed
  have "map ((+) initial) (running 0 (map (row_sum fl_time signed ?F) rows)) =
      map (\<lambda>r. initial + row_sum fl_time signed ?F (start, snd r)) rows"
    using running_rows [OF bucket_chain.chained [OF chain], of initial] by (simp add: running_plus)
  also have "\<dots> = map (\<lambda>r. balance_at ?H start (snd r) + ?twice) rows"
    using inside chart_flows(2) [OF assms(3)] by (intro map_cong) (simp_all add: initial balance_at_split)
  finally have points: "map ((+) initial) (running 0 (map (row_sum fl_time signed ?F) rows)) =
      map (\<lambda>r. balance_at ?H start (snd r) + ?twice) rows" .
  show ?thesis
    unfolding getAddressBalanceSeries_def assms(1,4) option.case Let_def prod.case
      initial_def [symmetric] sorted_starts [OF chain] net_change_row
    by (simp add: points comp_def zip_map_map new_SeriesData_def) (simp add: zip_same_conv_map)
qed

text \<open>How far a point is from the true balance: by the flows of the instant at which the window starts.\<close>

lemma balance_at_true:
  assumes "start \<le> to'"
  shows "net_change (filter (\<lambda>f. fl_time f \<le> to') fs) =
    balance_at fs start to' + net_change (filter (\<lambda>f. fl_time f = start) fs)"
proof -
  have "net_change (filter (\<lambda>f. fl_time f \<le> to') fs) =
      net_change (filter (\<lambda>f. (fl_time f \<le> to' \<and> fl_time f \<noteq> start) \<or> fl_time f = start) fs)"
    using assms by (intro arg_cong [where f = net_change] filter_cong) auto
  also have "\<dots> = balance_at fs start to' + net_change (filter (\<lambda>f. fl_time f = start) fs)"
    unfolding balance_at_def by (rule net_change_disjoint) auto
  finally show ?thesis .
qed

section \<open>Sample chart\<close>

text \<open>Address 7 receives 9 in block 1 and spends 4 in block 2, both on the first day.\<close>

definition sample_balance_db :: db where
  "sample_balance_db =
     sample_wallet_db
       \<lparr>db_outputs := [\<lparr>o_tx_id = 1, o_vout_index = 0, o_value = 9, o_script_pub_key = None, o_script_type = None,
                       o_address_id = Some 7, o_spent_by_tx_id = None, o_spent_by_vin_index = None\<rparr>],
        db_inputs := [\<lparr>i_tx_id = 2, i_vin_index = 0, i_prev_tx_hash = None, i_prev_vout_index = None,
                      i_address_id = Some 7, i_amount = Some 4\<rparr>],
        db_deltas := [\<lparr>dl_address_id = 7, dl_day = 0, dl_received = 9, dl_sent = 4\<rparr>]\<rparr>"

lemma sample_flows:
  "history_of sample_balance_db 7 =
     [\<lparr>fl_time = 1000, fl_received = True, fl_value = 9\<rparr>, \<lparr>fl_time = 5400000, fl_received = False, fl_value = 4\<rparr>]"
  by (simp add: history_of_def entries_of_def all_txs_def flows_of_entry_def block_at_def sample_balance_db_def
      sample_wallet_db_def sample_chain_block_def)

lemma sample_deltas_exact: "deltas_exact sample_balance_db 7"
  by (simp add: deltas_exact_def sample_flows utc_day_def msPerDay_def net_change_def delta_net_def)
     (simp add: sample_balance_db_def delta_net_def)

lemma sample_nothing_twice: "counted_twice sample_balance_db aid start end' = []"
  by (rule nothing_twice) (simp add: sample_balance_db_def sample_wallet_db_def sample_chain_block_def)

text \<open>
  Block 2 is timed a minute before midnight, blocks 1 and 3 after it: what the address receives in
  block 2 is in the totals of the day before and is read again with the window.
\<close>

definition late_night_db :: db where
  "late_night_db =
     sample_balance_db
       \<lparr>db_blocks := [sample_chain_block 1 86400000, sample_chain_block 2 86340000, sample_chain_block 3 86460000],
        db_inputs := [],
        db_outputs := map (\<lambda>o'. o'\<lparr>o_tx_id := 2\<rparr>) (db_outputs sample_balance_db),
        db_deltas := [\<lparr>dl_address_id = 7, dl_day = 0, dl_received = 9, dl_sent = 0\<rparr>]\<rparr>"

lemmas late_night = late_night_db_def sample_balance_db_def sample_wallet_db_def sample_chain_block_def

lemma late_night_flows:
  "history_of late_night_db 7 = [\<lparr>fl_time = 86340000, fl_received = True, fl_value = 9\<rparr>]"
  "counted_twice late_night_db 7 86400000 90000000 = [\<lparr>fl_time = 86340000, fl_received = True, fl_value = 9\<rparr>]"
  by (simp_all add: history_of_def counted_twice_def stepped_back_def between_def slice_blocks_def entries_of_def
      all_txs_def flows_of_entry_def block_at_def late_night utc_day_def msPerDay_def)

lemma late_night_deltas_exact: "deltas_exact late_night_db 7"
  by (simp add: deltas_exact_def late_night_flows utc_day_def msPerDay_def net_change_def delta_net_def)
     (simp add: late_night delta_net_def)

theorem balance_series_exact_witness:
  "getAddressBalanceSeries (\<lambda>_ t. t + 3600000) sample_balance_db ''X7'' 500 7200500 ''PT1H'' 3600000 =
     Inr [\<lparr>timestamp = Some (Some 500), data = Some (dec_int 9)\<rparr>,
          \<lparr>timestamp = Some (Some 3600500), data = Some (dec_int 5)\<rparr>] \<and>
   getAddressBalanceSeries (\<lambda>_ t. t + 3600000) late_night_db ''X7'' 86400000 90000000 ''PT1H'' 3600000 =
     Inr [\<lparr>timestamp = Some (Some 86400000), data = Some (dec_int 18)\<rparr>]"
proof
  have "ranges (\<lambda>t. t + 3600000) 500 7200500 3600000 = Some [(500, 3600500), (3600500, 7200500)]"
    by (simp add: ranges_def generate_series.simps lag_rows_def)
  moreover have "address_id sample_balance_db ''X7'' = Some 7"
    by (simp add: address_id_def sample_balance_db_def sample_wallet_db_def)
  ultimately show "getAddressBalanceSeries (\<lambda>_ t. t + 3600000) sample_balance_db ''X7'' 500 7200500 ''PT1H'' 3600000 =
     Inr [\<lparr>timestamp = Some (Some 500), data = Some (dec_int 9)\<rparr>,
          \<lparr>timestamp = Some (Some 3600500), data = Some (dec_int 5)\<rparr>]"
    using balance_series_exact [of "\<lambda>_ t. t + 3600000" "''PT1H''" 500 7200500 3600000 _ sample_balance_db "''X7''" 7]
    by (simp add: sample_deltas_exact sample_nothing_twice balance_at_def sample_flows net_change_def)
next
  have "ranges (\<lambda>t. t + 3600000) 86400000 90000000 3600000 = Some [(86400000, 90000000)]"
    by (simp add: ranges_def generate_series.simps lag_rows_def)
  moreover have "address_id late_night_db ''X7'' = Some 7" by (simp add: address_id_def late_night)
  ultimately show "getAddressBalanceSeries (\<lambda>_ t. t + 3600000) late_night_db ''X7'' 86400000 90000000 ''PT1H'' 3600000 =
     Inr [\<lparr>timestamp = Some (Some 86400000), data = Some (dec_int 18)\<rparr>]"
    using balance_series_exact [of "\<lambda>_ t. t + 3600000" "''PT1H''" 86400000 90000000 3600000 _ late_night_db "''X7''" 7]
    by (simp add: late_night_deltas_exact late_night_flows balance_at_def net_change_def)
qed

end
