(* ===== verification/AddressActivity.thy ===== *)
theory AddressActivity
  imports BalanceSeries TransactionListings
begin

text \<open>
  \<open>getAddressesActivity\<close> of \<open>api/src/dao/AddressesDAO.ts\<close>: the most active addresses of a window. A long
  window is put together from live counts at its edges, days of \<open>address_activity\<close> and weeks of
  \<open>address_activity_weekly\<close>. The theorems show that these stretches tile the window and that a short
  window is counted exactly.
\<close>

section \<open>The stretches of a window\<close>

text \<open>\<open>getUTCDay()\<close>: 0 is Sunday; the epoch was a Thursday.\<close>

definition utc_weekday :: "int \<Rightarrow> int" where "utc_weekday t = (utc_day t + 4) mod 7"

record windows =
  liveWindows :: "(int \<times> int) list"
  dayWindows :: "(int \<times> int) list"
  weekWindow :: "(int \<times> int) option"

definition isShortWindow :: "int \<Rightarrow> int \<Rightarrow> bool" where
  "isShortWindow start end' \<longleftrightarrow> end' - start \<le> ADDRESSES_ACTIVITY_LOW_PRECISION_AFTER"

definition activity_windows :: "int \<Rightarrow> int \<Rightarrow> windows" where
  "activity_windows start end' =
     (let startNextDay = (utc_day start + 1) * msPerDay;
          endDayStart = utc_day end' * msPerDay;
          startsAtMidnight = (startNextDay - start = msPerDay);
          dayLo = (if startsAtMidnight then start else startNextDay);
          weekLo = dayLo + ((8 - utc_weekday dayLo) mod 7) * msPerDay;
          weekHi = endDayStart - ((utc_weekday endDayStart + 6) mod 7) * msPerDay;
          useWeekly = (\<not> isShortWindow start end' \<and>
            end' - start > ADDRESSES_ACTIVITY_WEEKLY_AFTER \<and> weekLo < weekHi)
      in if isShortWindow start end'
         then \<lparr>liveWindows = [(start, end')], dayWindows = [], weekWindow = None\<rparr>
         else
           \<lparr>liveWindows =
              (if \<not> startsAtMidnight then [(start, startNextDay - 1)] else []) @
              (if end' > endDayStart then [(endDayStart, end')] else []),
            dayWindows =
              (if useWeekly
               then (if dayLo < weekLo then [(dayLo, weekLo)] else []) @
                    (if weekHi < endDayStart then [(weekHi, endDayStart)] else [])
               else if dayLo < endDayStart then [(dayLo, endDayStart)] else []),
            weekWindow = (if useWeekly then Some (weekLo, weekHi) else None)\<rparr>)"

section \<open>Counts of a stretch\<close>

text \<open>\<open>GROUP BY address_id\<close> with a count or a sum.\<close>

definition group_sum :: "(int \<times> int) list \<Rightarrow> (int \<times> int) list" where
  "group_sum es = map (\<lambda>a. (a, sum_list (map snd (filter (\<lambda>e. fst e = a) es)))) (remdups (map fst es))"

text \<open>\<open>UNION\<close> keeps one pair of an address and a transaction.\<close>

definition address_pairs :: "db \<Rightarrow> int list \<Rightarrow> (int \<times> int) list" where
  "address_pairs d txids =
     remdups
       (concat (map (\<lambda>o'. case o_address_id o' of None \<Rightarrow> [] | Some a \<Rightarrow> [(a, o_tx_id o')])
          (filter (\<lambda>o'. o_tx_id o' \<in> set txids) (db_outputs d))) @
        concat (map (\<lambda>i. case i_address_id i of None \<Rightarrow> [] | Some a \<Rightarrow> [(a, i_tx_id i)])
          (filter (\<lambda>i. i_tx_id i \<in> set txids) (db_inputs d))))"

definition live_part :: "db \<Rightarrow> int \<times> int \<Rightarrow> (int \<times> int) list list" where
  "live_part d slice =
     (if slice_blocks d slice = [] then []
      else [group_sum (map (\<lambda>p. (fst p, 1)) (address_pairs d (map t_id (slice_txs d slice))))])"

definition rollup_part :: "activity_row list \<Rightarrow> int \<Rightarrow> int \<times> int \<Rightarrow> (int \<times> int) list" where
  "rollup_part rows least r =
     map (\<lambda>a. (act_address_id a, act_tx_count a))
       (filter (\<lambda>a. utc_day (fst r) \<le> act_day a \<and> act_day a < utc_day (snd r) \<and> act_tx_count a > least) rows)"

definition activity_parts :: "db \<Rightarrow> int \<Rightarrow> int \<Rightarrow> (int \<times> int) list list" where
  "activity_parts d start end' =
     (let w = activity_windows start end' in
      concat (map (live_part d) (liveWindows w)) @
      map (rollup_part (db_activity d) ADDRESSES_ACTIVITY_DAILY_MIN_TX_COUNT) (dayWindows w) @
      (case weekWindow w of
         None \<Rightarrow> []
       | Some r \<Rightarrow> [rollup_part (db_activity_weekly d) ADDRESSES_ACTIVITY_WEEKLY_MIN_TX_COUNT r]))"

definition rank_keys :: "string js \<Rightarrow> (sql_dir \<times> (int \<times> int \<Rightarrow> int option)) list" where
  "rank_keys order = [(js_dir order, \<lambda>e. Some (snd e)), (Asc, \<lambda>e. Some (fst e))]"

definition active_row :: "address_row \<Rightarrow> int \<Rightarrow> AddressRow" where
  "active_row a n =
     \<lparr>ar_address = J (a_address a), ar_first_seen_block = JUndef, ar_first_seen_block_timestamp = JUndef,
      ar_first_seen_tx = JUndef, ar_last_seen_block = JUndef, ar_last_seen_block_timestamp = JUndef,
      ar_last_seen_tx = JUndef, ar_tx_count = J (bigint n), ar_received = JUndef, ar_sent = JUndef\<rparr>"

definition getAddressesActivity ::
  "db \<Rightarrow> int \<Rightarrow> int \<Rightarrow> int \<Rightarrow> int \<Rightarrow> string js \<Rightarrow> Address PaginatedResultSet result" where
  "getAddressesActivity d start end' page limit order =
     (let fromRank = (page - 1) * limit; parts = activity_parts d start end' in
      if parts = [] then Inr (new_PaginatedResultSet [] page (Fin (of_int limit)) (J (CNum (-1))))
      else
        (let ranked = group_sum (concat parts) in
         bind_result (limit_offset limit fromRank (order_by_keys (rank_keys order) ranked)) (\<lambda>rankedPage.
           let joined = inner_join (\<lambda>e a. a_id a = fst e) rankedPage (db_addresses d);
               rows = map snd (order_by_keys
                        [(js_dir order, \<lambda>(e, a). Some (snd e)), (Asc, \<lambda>(e, a). Some (fst e))]
                        (map (\<lambda>(e, a). (e, active_row a (snd e))) joined))
           in Inr (new_PaginatedResultSet (map Address_fromRow rows) page (Fin (of_int limit))
                     (J (coalesce (if rows = [] then JUndef else J (bigint (int (length ranked)))) (CNum (-1))))))))"

section \<open>Tiling\<close>

definition covered :: "(int \<times> int) list \<Rightarrow> (int \<times> int) list \<Rightarrow> int \<Rightarrow> nat" where
  "covered inclusive half_open t =
     length (filter (\<lambda>r. fst r \<le> t \<and> t \<le> snd r) inclusive) + length (filter (\<lambda>r. fst r \<le> t \<and> t < snd r) half_open)"

definition times_covered :: "windows \<Rightarrow> int \<Rightarrow> nat" where
  "times_covered w t =
     covered (liveWindows w)
       (dayWindows w @ (case weekWindow w of None \<Rightarrow> [] | Some r \<Rightarrow> [r])) t"

definition last_counted :: "int \<Rightarrow> int \<Rightarrow> int" where
  "last_counted start end' =
     (if \<not> isShortWindow start end' \<and> end' mod msPerDay = 0 then end' - 1 else end')"

lemma midnights:
  "(utc_day t + 1) * msPerDay - msPerDay \<le> t" "t < (utc_day t + 1) * msPerDay"
  "utc_day t * msPerDay \<le> t" "t < utc_day t * msPerDay + msPerDay"
  "t mod msPerDay = 0 \<longleftrightarrow> utc_day t * msPerDay = t"
proof -
  have m: "0 < msPerDay" by (simp add: msPerDay_def)
  have "utc_day t * msPerDay + t mod msPerDay = t" by (simp add: utc_day_def)
  moreover have "0 \<le> t mod msPerDay" "t mod msPerDay < msPerDay" using m by simp_all
  ultimately show "(utc_day t + 1) * msPerDay - msPerDay \<le> t" "t < (utc_day t + 1) * msPerDay"
    "utc_day t * msPerDay \<le> t" "t < utc_day t * msPerDay + msPerDay"
    "t mod msPerDay = 0 \<longleftrightarrow> utc_day t * msPerDay = t"
    unfolding distrib_right mult_1 by linarith+
qed

text \<open>
  C10: every instant of the window falls into exactly one of the stretches that are counted, live, by
  day or by week, and no instant outside of it into any; the only instant that can be missed is the
  last one of a long window that ends at midnight.
\<close>

theorem activity_windows_tile:
  assumes "start \<le> end'"
  shows "times_covered (activity_windows start end') t =
    (if start \<le> t \<and> t \<le> last_counted start end' then 1 else 0)"
proof (cases "isShortWindow start end'")
  case True
  then show ?thesis by (simp add: activity_windows_def times_covered_def covered_def last_counted_def)
next
  case False
  define sn where "sn = (utc_day start + 1) * msPerDay"
  define ed where "ed = utc_day end' * msPerDay"
  define dl where "dl = (if sn - start = msPerDay then start else sn)"
  define wl where "wl = dl + ((8 - utc_weekday dl) mod 7) * msPerDay"
  define wh where "wh = ed - ((utc_weekday ed + 6) mod 7) * msPerDay"
  have sn: "sn - msPerDay \<le> start" "start < sn" unfolding sn_def by (rule midnights)+
  have ed: "ed \<le> end'" "end' < ed + msPerDay" unfolding ed_def by (rule midnights)+
  have last: "last_counted start end' = (if ed = end' then end' - 1 else end')"
    using False midnights(5) [of end'] by (simp add: last_counted_def ed_def)
  have "3 * msPerDay < end' - start"
    using False by (simp add: isShortWindow_def ADDRESSES_ACTIVITY_LOW_PRECISION_AFTER_def msPerDay_def)
  moreover have pos: "0 < msPerDay" by (simp add: msPerDay_def)
  ultimately have order: "dl < ed" using sn ed by (auto simp: dl_def)
  have weeks: "dl \<le> wl" "wh \<le> ed" using pos by (simp_all add: wl_def wh_def)
  have w: "activity_windows start end' =
    \<lparr>liveWindows = (if sn - start \<noteq> msPerDay then [(start, sn - 1)] else []) @ (if end' > ed then [(ed, end')] else []),
     dayWindows = (if end' - start > ADDRESSES_ACTIVITY_WEEKLY_AFTER \<and> wl < wh
       then (if dl < wl then [(dl, wl)] else []) @ (if wh < ed then [(wh, ed)] else [])
       else if dl < ed then [(dl, ed)] else []),
     weekWindow = (if end' - start > ADDRESSES_ACTIVITY_WEEKLY_AFTER \<and> wl < wh then Some (wl, wh) else None)\<rparr>"
    unfolding activity_windows_def Let_def sn_def [symmetric] ed_def [symmetric] dl_def [symmetric]
      wl_def [symmetric] wh_def [symmetric] using False by simp
  have dl: "start \<le> dl" using sn by (simp add: dl_def)
  have left: "length (filter (\<lambda>r. fst r \<le> t \<and> t \<le> snd r) (if sn - start \<noteq> msPerDay then [(start, sn - 1)] else [])) =
      (if start \<le> t \<and> t < dl then 1 else 0)"
    using sn by (cases "sn - start = msPerDay") (simp_all add: dl_def)
  have right: "length (filter (\<lambda>r. fst r \<le> t \<and> t \<le> snd r) (if end' > ed then [(ed, end')] else [])) =
      (if ed \<le> t \<and> t \<le> (if ed = end' then end' - 1 else end') then 1 else 0)"
    using ed by auto
  show ?thesis
    unfolding w last times_covered_def covered_def windows.select_convs filter_append length_append left right
    using dl order ed weeks by auto
qed

section \<open>Short windows\<close>

definition touches :: "db \<Rightarrow> int \<Rightarrow> tx_row \<Rightarrow> bool" where
  "touches d aid t \<longleftrightarrow>
     (\<exists>o' \<in> set (db_outputs d). o_tx_id o' = t_id t \<and> o_address_id o' = Some aid) \<or>
     (\<exists>i \<in> set (db_inputs d). i_tx_id i = t_id t \<and> i_address_id i = Some aid)"

lemma address_pairs_in:
  "(a, i) \<in> set (address_pairs d txids) \<longleftrightarrow> i \<in> set txids \<and>
     ((\<exists>o' \<in> set (db_outputs d). o_tx_id o' = i \<and> o_address_id o' = Some a) \<or>
      (\<exists>n \<in> set (db_inputs d). i_tx_id n = i \<and> i_address_id n = Some a))"
  by (auto simp: address_pairs_def split: option.splits)

lemma group_sum_count:
  "map_of (group_sum (map (\<lambda>p. (fst p, 1)) ps)) a =
     (if a \<in> fst ` set ps then Some (int (length (filter (\<lambda>p. fst p = a) ps))) else None)"
proof -
  have "sum_list (map snd (filter (\<lambda>e. fst e = b) (map (\<lambda>p. (fst p, 1)) ps))) = int (length (filter (\<lambda>p. fst p = b) ps))" for b
    by (induction ps) auto
  moreover have "map_of (map (\<lambda>b. (b, f b)) bs) a = (if a \<in> set bs then Some (f a) else None)" for f :: "int \<Rightarrow> int" and bs
    by (induction bs) auto
  ultimately show ?thesis by (simp add: group_sum_def comp_def)
qed

lemma keys_group_sum: "map fst (group_sum es) = remdups (map fst es)"
  by (simp add: group_sum_def comp_def)

lemma group_sum_again:
  assumes "distinct (map fst es)"
  shows "group_sum es = es"
proof -
  have "filter (\<lambda>e. fst e = fst x) es = [x]" if "x \<in> set es" for x
    using assms that by (induction es) (auto simp: filter_empty_conv image_iff)
  then have "map (\<lambda>a. (a, sum_list (map snd (filter (\<lambda>e. fst e = a) es)))) (map fst es) = es"
    by (simp add: comp_def map_idI)
  with assms show ?thesis by (simp add: group_sum_def distinct_remdups_id)
qed

text \<open>The ranking that the pages of the reply are cut from.\<close>

definition activity_ranking :: "db \<Rightarrow> int \<Rightarrow> int \<Rightarrow> (int \<times> int) list" where
  "activity_ranking d start end' = group_sum (concat (activity_parts d start end'))"

text \<open>
  Over a window of at most three days every address that takes part in a transaction of the window
  is ranked, and its score is the exact number of those transactions, each counted once also when the
  address stands on both sides of it. Transactions of a block that lies between blocks of the window and is
  timed outside it count as well.
\<close>

theorem short_activity_exact:
  assumes "isShortWindow start end'" "distinct (map t_id (db_transactions d))"
  shows "map_of (activity_ranking d start end') aid =
    (let n = length (filter (touches d aid)
        (filter (\<lambda>t. in_window d start end' t \<or> stray d (start, end') t) (db_transactions d)))
     in if n = 0 then None else Some (int n))"
proof -
  have parts: "activity_parts d start end' = live_part d (start, end')"
    using assms(1) by (simp add: activity_parts_def activity_windows_def)
  have inj: "inj_on t_id (set (db_transactions d))" using assms(2) by (simp add: distinct_map)
  let ?txs = "filter (\<lambda>t. in_window d start end' t \<or> stray d (start, end') t) (db_transactions d)"
  let ?ps = "address_pairs d (map t_id ?txs)"
  have ranking: "activity_ranking d start end' = group_sum (map (\<lambda>p. (fst p, 1)) ?ps)"
  proof (cases "slice_blocks d (start, end') = []")
    case True
    with slice_txs_exact(2) [OF True] have "?txs = []" by simp
    with True show ?thesis by (simp add: activity_ranking_def parts live_part_def group_sum_def address_pairs_def)
  next
    case False
    then show ?thesis
      using slice_txs_exact(1) [OF False]
      by (simp add: activity_ranking_def parts live_part_def group_sum_again keys_group_sum)
  qed
  have "set (filter (\<lambda>p. fst p = aid) ?ps) = (\<lambda>t. (aid, t_id t)) ` set (filter (touches d aid) ?txs)"
  proof (rule set_eqI)
    fix p
    have "p \<in> set (filter (\<lambda>p. fst p = aid) ?ps) \<longleftrightarrow> (\<exists>t \<in> set ?txs. p = (aid, t_id t) \<and> touches d aid t)"
      by (cases p) (auto simp: address_pairs_in touches_def)
    then show "p \<in> set (filter (\<lambda>p. fst p = aid) ?ps) \<longleftrightarrow> p \<in> (\<lambda>t. (aid, t_id t)) ` set (filter (touches d aid) ?txs)"
      by (simp only: set_filter) blast
  qed
  moreover have "distinct (filter (\<lambda>p. fst p = aid) ?ps)" by (simp add: address_pairs_def)
  moreover have "distinct (map (\<lambda>t. (aid, t_id t)) (filter (touches d aid) ?txs))"
    using assms(2) inj
    by (auto simp: distinct_map inj_on_def)
  ultimately have count: "length (filter (\<lambda>p. fst p = aid) ?ps) = length (filter (touches d aid) ?txs)"
    by (metis (no_types, lifting) distinct_card length_map set_map)
  have "aid \<in> fst ` set ?ps \<longleftrightarrow> filter (\<lambda>p. fst p = aid) ?ps \<noteq> []"
    by (auto simp: filter_empty_conv)
  then show ?thesis
    unfolding ranking group_sum_count Let_def count [symmetric] by simp
qed

text \<open>
  A longer window adds days with more than two and weeks with more than ten transactions of an address
  only, so a score there is a lower bound.
\<close>

lemma rollup_part_dropped:
  "act_tx_count a \<le> least \<Longrightarrow> rollup_part (a # rows) least r = rollup_part rows least r"
  by (simp add: rollup_part_def)

section \<open>Sample activity\<close>

theorem activity_windows_tile_witness:
  "times_covered (activity_windows 3600000 950400000) 950399999 = 1 \<and>
   times_covered (activity_windows 3600000 950400000) 950400000 = 0"
  using activity_windows_tile [of 3600000 950400000 950399999] activity_windows_tile [of 3600000 950400000 950400000]
  by (simp add: last_counted_def isShortWindow_def ADDRESSES_ACTIVITY_LOW_PRECISION_AFTER_def msPerDay_def)

theorem short_activity_exact_witness:
  "map_of (activity_ranking sample_balance_db 0 6000000) 7 = Some 2"
proof -
  have "strays sample_balance_db (0, 6000000) = []"
    by (rule no_strays) (simp_all add: block_at_def sample_balance_db_def sample_wallet_db_def sample_tx_def sample_chain_block_def)
  then have "\<not> stray sample_balance_db (0, 6000000) t" if "t \<in> set (db_transactions sample_balance_db)" for t
    using that by (simp add: strays_def filter_empty_conv)
  then have same: "filter (\<lambda>t. in_window sample_balance_db 0 6000000 t \<or> stray sample_balance_db (0, 6000000) t)
      (db_transactions sample_balance_db) = window_txs sample_balance_db 0 6000000"
    unfolding window_txs_def by (intro filter_cong) simp_all
  have txs: "window_txs sample_balance_db 0 6000000 =
      [sample_tx 1 (Some 1) True 5, sample_tx 2 (Some 2) False 0, sample_tx 3 (Some 2) True 5]"
    by (simp add: window_txs_def in_window_def tx_time_def block_at_def sample_balance_db_def sample_wallet_db_def
        sample_tx_def sample_chain_block_def)
  have "touches sample_balance_db 7 (sample_tx i h c ty) \<longleftrightarrow> i = 1 \<or> i = 2" for i h c ty
    by (auto simp: touches_def sample_balance_db_def sample_tx_def)
  moreover have "isShortWindow 0 6000000"
    by (simp add: isShortWindow_def ADDRESSES_ACTIVITY_LOW_PRECISION_AFTER_def)
  moreover have "distinct (map t_id (db_transactions sample_balance_db))"
    by (simp add: sample_balance_db_def sample_wallet_db_def sample_tx_def)
  ultimately show ?thesis
    using short_activity_exact [of 0 6000000 sample_balance_db 7] unfolding same by (simp add: txs Let_def)
qed

end
