(* ===== verification/AddressHandlers.thy ===== *)
theory AddressHandlers
  imports AddressActivity CacheModel DashcoreRPC
begin

text \<open>
  \<open>api/src/controllers/AddressesController.ts\<close>. The rich list is put together from a page of the
  database and the supply that the node reports, which is cached; the theorems show that its entries
  always add up to the supply, and what a request for no entries gets.
\<close>

record list_request =
  lq_page :: "int option"
  lq_limit :: "int option"
  lq_order :: "string js"

definition addresses_handler :: "db \<Rightarrow> list_request \<Rightarrow> Address PaginatedResultSet reply result" where
  "addresses_handler d q =
     (let (page, limit) = page_and_limit (lq_page q) (lq_limit q) in
      map_sum id (Sent 200) (getAddresses d page limit (asc_default (lq_order q))))"

definition address_handler :: "db \<Rightarrow> string \<Rightarrow> Address reply" where
  "address_handler d address =
     (case getAddress d address of
        None \<Rightarrow> Refused 404 ''Address not found''
      | Some a \<Rightarrow> Sent 200 a)"

definition addresses_info_handler :: "db \<Rightarrow> string \<Rightarrow> AddressInfo list reply" where
  "addresses_info_handler d addresses = Sent 200 (getAddressesInfo d (js_split CHR '','' addresses))"

text \<open>\<open>!start || !end\<close>: an empty string, \<open>null\<close>, or a clock at the epoch.\<close>

fun missing :: "int \<Rightarrow> string js \<Rightarrow> bool" where
  "missing dflt JUndef = (dflt = 0)"
| "missing dflt JNull = True"
| "missing dflt (J s) = (s = [])"

definition balance_series_handler ::
  "(string \<Rightarrow> int) \<Rightarrow> (string \<Rightarrow> int \<Rightarrow> int) \<Rightarrow> db \<Rightarrow> int \<Rightarrow> string \<Rightarrow> time_query \<Rightarrow>
   string SeriesData list reply result" where
  "balance_series_handler parse pg_add d now address q =
     (if missing (now - 3600000) (tq_start q) \<or> missing now (tq_end q)
      then Inr (Refused 400 ''start and end must be set'')
      else chart_handler parse now 3600000 (getAddressBalanceSeries pg_add d address) q)"

definition address_utxo_handler :: "db \<Rightarrow> string \<Rightarrow> list_request \<Rightarrow> Utxo PaginatedResultSet reply result" where
  "address_utxo_handler d address q =
     (let (page, limit) = page_and_limit (lq_page q) (lq_limit q) in
      map_sum id (Sent 200) (getAddressUtxo d address page limit (asc_default (lq_order q))))"

definition addresses_utxo_handler :: "(string \<Rightarrow> int) \<Rightarrow> db \<Rightarrow> string \<Rightarrow> Utxo list reply" where
  "addresses_utxo_handler rank d addresses = Sent 200 (getAddressesUtxo rank d (js_split CHR '','' addresses))"

text \<open>\<open>timestamp ? new Date(timestamp) : \<dots>\<close>: an empty timestamp counts as missing, and so does \<open>null\<close>.\<close>

fun given_instant :: "(string \<Rightarrow> int) \<Rightarrow> int \<Rightarrow> string js \<Rightarrow> int" where
  "given_instant parse dflt (J s) = (if s = [] then dflt else parse s)"
| "given_instant parse dflt _ = dflt"

definition activity_handler ::
  "(string \<Rightarrow> int) \<Rightarrow> db \<Rightarrow> int \<Rightarrow> time_query \<Rightarrow> list_request \<Rightarrow> Address PaginatedResultSet reply result" where
  "activity_handler parse d now t q =
     (let (page, limit) = page_and_limit (lq_page q) (lq_limit q);
          end' = given_instant parse now (tq_end t);
          start = given_instant parse (end' - 24 * 3600 * 1000) (tq_start t)
      in if start > end' then Inr (Refused 400 window_message)
         else map_sum id (Sent 200)
                (getAddressesActivity d start end' page limit (defaulted (lq_order q) ''desc'')))"

section \<open>The rich list\<close>

record UtxoInfoRPC =
  total_amount :: rat

text \<open>\<open>(Number(balance) / 1e8 / totalSupply * 100).toFixed(12)\<close>; a supply of zero divides by zero.\<close>

definition concentration_text :: "int \<Rightarrow> rat \<Rightarrow> string" where
  "concentration_text balance supply =
     (case num_div (of_int balance / 100000000) supply of
        Fin q \<Rightarrow> to_fixed CONCENTRATION_DECIMALS (q * 100)
      | NaN \<Rightarrow> ''NaN''
      | PosInf \<Rightarrow> ''Infinity''
      | NegInf \<Rightarrow> ''-Infinity'')"

text \<open>
  The list asks for one entry less than the limit and appends the entry of all others. Reading a
  balance back with \<open>BigInt\<close> gives the number whose digits the row holds.
\<close>

definition rich_list :: "rat \<Rightarrow> int \<Rightarrow> rich_row PaginatedResultSet \<Rightarrow> AddressBalance PaginatedResultSet" where
  "rich_list totalSupply limit balances =
     (let shown = map (\<lambda>b. AddressBalance_fromObject (rr_address b) (J (dec_int (rr_balance b)))
                        (J (concentration_text (rr_balance b) totalSupply))) (resultSet balances);
          shownDuffs = sum_list (map rr_balance (resultSet balances));
          totalDuffs = js_round (totalSupply * 100000000);
          othersDuffs = totalDuffs - shownDuffs
      in \<lparr>resultSet = shown @ [AddressBalance_fromObject (J ''others'') (J (dec_int othersDuffs))
                                (J (concentration_text othersDuffs totalSupply))],
          pagination = (pagination balances)\<lparr>pg_limit := Fin (of_int limit)\<rparr>\<rparr>)"

definition balances_handler ::
  "UtxoInfoRPC rpc_method \<Rightarrow> db \<Rightarrow> int \<Rightarrow> list_request \<Rightarrow> UtxoInfoRPC redis \<Rightarrow>
   AddressBalance PaginatedResultSet reply result \<times> UtxoInfoRPC redis" where
  "balances_handler node d now q s =
     (let (page, limit) = page_and_limit (lq_page q) (lq_limit q);
          (utxoInfo, s) = memoise cache_get cache_set now ''utxoInfo'' UTXO_INFO_LIFE_TIME (getUtxoInfo node) s
      in (bind_result utxoInfo (\<lambda>info.
            bind_result (getBalancesInfo d page (limit - 1) (asc_default (lq_order q))) (\<lambda>balances.
              Inr (Sent 200 (rich_list (total_amount info) limit balances)))), s))"

section \<open>What the replies say\<close>

definition supply_of :: "UtxoInfoRPC rpc_method \<Rightarrow> int \<Rightarrow> UtxoInfoRPC redis \<Rightarrow> UtxoInfoRPC result" where
  "supply_of node now s = fst (memoise cache_get cache_set now ''utxoInfo'' UTXO_INFO_LIFE_TIME (getUtxoInfo node) s)"

text \<open>
  The balances of a page of the rich list are those of the next addresses by balance, followed by
  one entry for all others, and together they are exactly the supply the node reported, in duffs.
\<close>

theorem rich_list_adds_up:
  assumes "fst (balances_handler node d now \<lparr>lq_page = Some (int page), lq_limit = Some (int limit + 1), lq_order = order\<rparr> s) =
      Inr (Sent 200 reply)" "1 \<le> page"
  shows "\<exists>info shown.
    supply_of node now s = Inr info \<and>
    shown = map bl_balance (page_of page limit
      (order_by (js_dir (asc_default order)) (\<lambda>b. Some (bl_balance b)) (db_balances d))) \<and>
    map ab_balance (resultSet reply) =
      map (\<lambda>v. Some (dec_int v)) (shown @ [js_round (total_amount info * 100000000) - sum_list shown])"
proof -
  let ?page = "page_of page limit (order_by (js_dir (asc_default order)) (\<lambda>b. Some (bl_balance b)) (db_balances d))"
  obtain info where info: "supply_of node now s = Inr info"
    using assms(1)
    by (cases "supply_of node now s") (auto simp: balances_handler_def supply_of_def page_and_limit_def split: prod.splits)
  have shown: "map rr_balance (map (\<lambda>b. \<lparr>rr_balance = bl_balance b, rr_address = address_text d (Some (bl_address_id b))\<rparr>) ?page) =
      map bl_balance ?page" by simp
  have "map ab_balance (resultSet reply) =
      map (\<lambda>v. Some (dec_int v)) (map bl_balance ?page @
        [js_round (total_amount info * 100000000) - sum_list (map bl_balance ?page)])"
    using assms(1) info
    by (auto simp: balances_handler_def supply_of_def page_and_limit_def getBalancesInfo_def
        limit_offset_page [OF assms(2)] rich_list_def AddressBalance_fromObject_def new_AddressBalance_def
        new_PaginatedResultSet_def comp_def Let_def split: prod.splits)
  with info show ?thesis by blast
qed

text \<open>
  Within the life time of the cached supply, a second request for the rich list is answered from the
  same supply, whatever the node says by then.
\<close>

theorem rich_list_supply_cached:
  assumes "fst (cache_get now ''utxoInfo'' s) = None" "getUtxoInfo node = Inr info"
    "now \<le> t" "t < now + UTXO_INFO_LIFE_TIME"
  shows "supply_of node' t (snd (balances_handler node d now q s)) = Inr info"
proof -
  have "snd (balances_handler node d now q s) =
      snd (memoise cache_get cache_set now ''utxoInfo'' UTXO_INFO_LIFE_TIME (getUtxoInfo node) s)"
    by (simp add: balances_handler_def split: prod.splits)
  moreover have "fst (memoise cache_get cache_set now ''utxoInfo'' UTXO_INFO_LIFE_TIME (getUtxoInfo node) s) = Inr info"
    using redis_cache.memoise_miss [OF assms(1)] assms(2) by simp
  ultimately show ?thesis
    using redis_cache.memoise_again [OF _ assms(1,4)] by (simp add: supply_of_def)
qed

text \<open>
  A request for a rich list of no entries asks the database for a page of minus one, which it
  refuses; the client gets a server error.
\<close>

theorem rich_list_of_nothing:
  assumes "supply_of node now s = Inr info"
  shows "status_of (respond (fst (balances_handler node d now \<lparr>lq_page = page, lq_limit = Some 0, lq_order = order\<rparr> s))) = 500"
  using assms
  by (cases "memoise cache_get cache_set now ''utxoInfo'' UTXO_INFO_LIFE_TIME (getUtxoInfo node) s")
     (simp add: balances_handler_def supply_of_def page_and_limit_def getBalancesInfo_def limit_offset_def respond_def)

section \<open>Sample rich list\<close>

definition sample_rich_db :: db where
  "sample_rich_db =
     sample_wallet_db\<lparr>db_balances := [\<lparr>bl_address_id = 7, bl_balance = 3\<rparr>, \<lparr>bl_address_id = 8, bl_balance = 5\<rparr>]\<rparr>"

definition sample_supply :: "UtxoInfoRPC rpc_method" where
  "sample_supply m args = RpcResult \<lparr>total_amount = 1 / 1000000\<rparr>"

lemma sample_supply_of: "supply_of sample_supply 0 (\<lambda>_. None) = Inr \<lparr>total_amount = 1 / 1000000\<rparr>"
  by (simp add: supply_of_def memoise_def cache_get_def redis_get_def getUtxoInfo_def sample_supply_def callMethod_def)

theorem rich_list_adds_up_witness:
  "\<exists>reply. fst (balances_handler sample_supply sample_rich_db 0
      \<lparr>lq_page = Some (int 1), lq_limit = Some (int 1 + 1), lq_order = J ''desc''\<rparr> (\<lambda>_. None)) = Inr (Sent 200 reply) \<and>
    map ab_balance (resultSet reply) = [Some (dec_int 5), Some (dec_int 95)]"
proof -
  have sorted: "order_by Desc (\<lambda>b. Some (bl_balance b)) (db_balances sample_rich_db) =
      [\<lparr>bl_address_id = 8, bl_balance = 5\<rparr>, \<lparr>bl_address_id = 7, bl_balance = 3\<rparr>]"
    by (simp add: sample_rich_db_def order_by_def js_sort_def order_cmp_def)
  have "\<exists>reply. fst (balances_handler sample_supply sample_rich_db 0
      \<lparr>lq_page = Some (int 1), lq_limit = Some (int 1 + 1), lq_order = J ''desc''\<rparr> (\<lambda>_. None)) = Inr (Sent 200 reply)"
    using sample_supply_of
    by (cases "memoise cache_get cache_set 0 ''utxoInfo'' UTXO_INFO_LIFE_TIME (getUtxoInfo sample_supply) (\<lambda>_. None)")
       (simp add: balances_handler_def supply_of_def page_and_limit_def getBalancesInfo_def limit_offset_def)
  then obtain reply where reply: "fst (balances_handler sample_supply sample_rich_db 0
      \<lparr>lq_page = Some (int 1), lq_limit = Some (int 1 + 1), lq_order = J ''desc''\<rparr> (\<lambda>_. None)) = Inr (Sent 200 reply)" ..
  obtain info shown where info: "supply_of sample_supply 0 (\<lambda>_. None) = Inr info" and
    shown: "shown = map bl_balance (page_of 1 1
      (order_by (js_dir (asc_default (J ''desc''))) (\<lambda>b. Some (bl_balance b)) (db_balances sample_rich_db)))" and
    balances: "map ab_balance (resultSet reply) =
      map (\<lambda>v. Some (dec_int v)) (shown @ [js_round (total_amount info * 100000000) - sum_list shown])"
    using rich_list_adds_up [OF reply] by blast
  have "js_round 100 = 100" by (simp add: js_round_def floor_eq_iff)
  moreover have reported: "total_amount info * 100000000 = 100" using info by (auto simp: sample_supply_of)
  moreover have "shown = [5]" unfolding shown by (simp add: asc_default_def dir_of_def sorted page_of_def)
  ultimately have "map ab_balance (resultSet reply) = [Some (dec_int 5), Some (dec_int 95)]"
    unfolding balances reported by simp
  with reply show ?thesis by (intro exI [of _ reply] conjI)
qed

theorem rich_list_supply_cached_witness:
  "supply_of (\<lambda>_ _. RpcError JUndef) 5
     (snd (balances_handler sample_supply sample_rich_db 0 \<lparr>lq_page = None, lq_limit = None, lq_order = JUndef\<rparr> (\<lambda>_. None))) =
   Inr \<lparr>total_amount = 1 / 1000000\<rparr>"
  by (rule rich_list_supply_cached)
     (simp_all add: cache_get_def redis_get_def getUtxoInfo_def sample_supply_def callMethod_def UTXO_INFO_LIFE_TIME_def)

theorem rich_list_of_nothing_witness:
  "status_of (respond (fst (balances_handler sample_supply sample_rich_db 0
     \<lparr>lq_page = None, lq_limit = Some 0, lq_order = JUndef\<rparr> (\<lambda>_. None)))) = 500"
  by (rule rich_list_of_nothing [OF sample_supply_of])

end
