(* ===== verification/XpubScan.thy ===== *)
theory XpubScan
  imports Addresses CacheModel
begin

text \<open>
  \<open>api/src/services/XpubService.ts\<close>: the gap-limit scan of one branch of an extended public key. A scan
  derives addresses in batches, asks the database which of them were ever used, and keeps both in a
  cache. The theorem states the wallet that a scan finds without mentioning batches or cache.
\<close>

section \<open>Derivation\<close>

text \<open>
  \<open>childPublicKey\<close>: \<open>child\<close> stands for the arithmetic of the curve library, \<open>None\<close> for an index it
  rejects. A rejected index is retried with the next one, each retry a stack frame deeper; \<open>depth\<close>
  frames are left before the stack overflows.
\<close>

fun childPublicKey :: "(nat \<Rightarrow> 'b option) \<Rightarrow> nat \<Rightarrow> nat \<Rightarrow> 'b result" where
  "childPublicKey child 0 index = Inl (PlainError ''Maximum call stack size exceeded'')"
| "childPublicKey child (Suc depth) index =
     (case child (index mod 2 ^ 32) of
        Some key \<Rightarrow> Inr key
      | None \<Rightarrow> childPublicKey child depth (index + 1))"

definition derive_range :: "(nat \<Rightarrow> 'b option) \<Rightarrow> ('b \<Rightarrow> string) \<Rightarrow> nat \<Rightarrow> nat \<Rightarrow> nat \<Rightarrow> string list result" where
  "derive_range child to_address depth from count' =
     map_result (\<lambda>index. map_sum id to_address (childPublicKey child depth index)) [from..<from + count']"

text \<open>A valid index is derived as it is; an invalid one takes the key of the next valid index.\<close>

lemma childPublicKey_valid: "child (index mod 2 ^ 32) = Some key \<Longrightarrow> childPublicKey child (Suc depth) index = Inr key"
  by simp

lemma childPublicKey_skips:
  "child (index mod 2 ^ 32) = None \<Longrightarrow> childPublicKey child (Suc depth) index = childPublicKey child depth (index + 1)"
  by simp

text \<open>What the scan relies on: a range is the addresses of its indices.\<close>

definition derives :: "(nat \<Rightarrow> nat \<Rightarrow> string list result) \<Rightarrow> (nat \<Rightarrow> string) \<Rightarrow> bool" where
  "derives derive addr \<longleftrightarrow> (\<forall>from count'. derive from count' = Inr (map addr [from..<from + count']))"

lemma derive_range_derives:
  assumes "\<And>i. child (i mod 2 ^ 32) \<noteq> None"
  shows "derives (derive_range child to_address (Suc depth)) (\<lambda>i. to_address (the (child (i mod 2 ^ 32))))"
proof -
  have "map_sum id to_address (childPublicKey child (Suc depth) i) = Inr (to_address (the (child (i mod 2 ^ 32))))" for i
    using assms [of i] by auto
  then show ?thesis
    unfolding derives_def derive_range_def by (intro allI map_result_Inr)
qed

section \<open>The scan of a branch\<close>

record branch_cache =
  bc_derived :: "string list"
  bc_ids :: "(string \<times> int) list"

record DerivedAddress =
  da_address :: string
  da_branch :: nat
  da_index :: nat
  da_used :: bool
  da_addressId :: "int option"

record ScannedBranch =
  sb_branch :: nat
  sb_addresses :: "DerivedAddress list"
  sb_addressIds :: "int list"
  sb_firstUnused :: "nat option"

text \<open>\<open>Map\<close>s of the code are association lists with the order of insertion.\<close>

definition lookupIds :: "db \<Rightarrow> string list \<Rightarrow> (string \<times> int) list" where
  "lookupIds d addresses = foldl (\<lambda>m (i, a). AList.update a i m) [] (getAddressIds d addresses)"

definition set_all :: "(string \<times> int) list \<Rightarrow> (string \<times> int) list \<Rightarrow> (string \<times> int) list" where
  "set_all known found = foldl (\<lambda>m (a, i). AList.update a i m) known found"

lemma batch_pos: "0 < XPUB_DERIVATION_BATCH_SIZE"
  by (simp add: XPUB_DERIVATION_BATCH_SIZE_def)

function confirmUpTo ::
  "db \<Rightarrow> string list \<Rightarrow> nat \<Rightarrow> nat \<Rightarrow> (string \<times> int) list \<Rightarrow> nat \<times> (string \<times> int) list" where
  "confirmUpTo d derived index checkedTo known =
     (if checkedTo \<le> index \<and> checkedTo < length derived
      then (let to' = min (checkedTo + XPUB_DERIVATION_BATCH_SIZE) (length derived);
                slice = filter (\<lambda>a. map_of known a = None) (take (to' - checkedTo) (drop checkedTo derived))
            in confirmUpTo d derived index to' (set_all known (lookupIds d slice)))
      else (checkedTo, known))"
  by pat_completeness auto
termination
  by (relation "measure (\<lambda>(d, derived, index, checkedTo, known). length derived - checkedTo)")
     (use batch_pos in auto)

declare confirmUpTo.simps [simp del]

record scan_state =
  sc_derived :: "string list"
  sc_known :: "(string \<times> int) list"
  sc_checkedTo :: nat
  sc_scannedTo :: nat
  sc_run :: nat

definition extend_derived ::
  "(nat \<Rightarrow> nat \<Rightarrow> string list result) \<Rightarrow> nat \<Rightarrow> scan_state \<Rightarrow> string list result" where
  "extend_derived derive gapLimit s =
     (let derived = sc_derived s in
      if sc_scannedTo s \<ge> length derived
      then (let count' = min (if length derived < XPUB_DERIVATION_BATCH_SIZE then gapLimit
                              else XPUB_DERIVATION_BATCH_SIZE)
                             (XPUB_MAX_ADDRESSES_PER_BRANCH - length derived)
            in map_sum id ((@) derived) (derive (length derived) count'))
      else Inr derived)"

text \<open>\<open>known.has(derived[scannedTo])\<close>; reading past the end gives \<open>undefined\<close>, which no map holds.\<close>

definition has_at :: "(string \<times> int) list \<Rightarrow> string list \<Rightarrow> nat \<Rightarrow> bool" where
  "has_at known derived i \<longleftrightarrow> i < length derived \<and> map_of known (derived ! i) \<noteq> None"

definition scan_step ::
  "db \<Rightarrow> (nat \<Rightarrow> nat \<Rightarrow> string list result) \<Rightarrow> nat \<Rightarrow> scan_state \<Rightarrow> scan_state result" where
  "scan_step d derive gapLimit s =
     bind_result (extend_derived derive gapLimit s) (\<lambda>derived.
       let (checkedTo, known) = confirmUpTo d derived (sc_scannedTo s) (sc_checkedTo s) (sc_known s)
       in Inr \<lparr>sc_derived = derived, sc_known = known, sc_checkedTo = checkedTo,
               sc_scannedTo = sc_scannedTo s + 1,
               sc_run = (if has_at known derived (sc_scannedTo s) then 0 else sc_run s + 1)\<rparr>)"

lemma scan_step_advances: "scan_step d derive gapLimit s = Inr s' \<Longrightarrow> sc_scannedTo s' = sc_scannedTo s + 1"
  by (auto simp: scan_step_def bind_result_Inr_iff case_prod_beta Let_def)

function scan_loop ::
  "db \<Rightarrow> (nat \<Rightarrow> nat \<Rightarrow> string list result) \<Rightarrow> nat \<Rightarrow> scan_state \<Rightarrow> scan_state result" where
  "scan_loop d derive gapLimit s =
     (if sc_run s < gapLimit \<and> sc_scannedTo s < XPUB_MAX_ADDRESSES_PER_BRANCH
      then (case scan_step d derive gapLimit s of
              Inl e \<Rightarrow> Inl e
            | Inr s' \<Rightarrow> scan_loop d derive gapLimit s')
      else Inr s)"
  by pat_completeness auto
termination
  by (relation "measure (\<lambda>(d, derive, gapLimit, s). XPUB_MAX_ADDRESSES_PER_BRANCH - sc_scannedTo s)")
     (auto dest: scan_step_advances)

declare scan_loop.simps [simp del]

definition collect_addresses :: "nat \<Rightarrow> string list \<Rightarrow> (string \<Rightarrow> int option) \<Rightarrow> ScannedBranch" where
  "collect_addresses branch derived known =
     \<lparr>sb_branch = branch,
      sb_addresses = map (\<lambda>i. \<lparr>da_address = derived ! i, da_branch = branch, da_index = i,
                              da_used = (known (derived ! i) \<noteq> None), da_addressId = known (derived ! i)\<rparr>)
                       [0..<length derived],
      sb_addressIds = concat (map (\<lambda>a. case known a of None \<Rightarrow> [] | Some i \<Rightarrow> [i]) derived),
      sb_firstUnused = find (\<lambda>i. known (derived ! i) = None) [0..<length derived]\<rparr>"

definition scanBranch ::
  "db \<Rightarrow> (nat \<Rightarrow> nat \<Rightarrow> string list result) \<Rightarrow> int \<Rightarrow> string \<Rightarrow> nat \<Rightarrow> nat \<Rightarrow> branch_cache redis \<Rightarrow>
   ScannedBranch result \<times> branch_cache redis" where
  "scanBranch d derive now key branch gapLimit s =
     (let (cached, s) = cache_get now key s;
          derived = (case cached of None \<Rightarrow> [] | Some c \<Rightarrow> bc_derived c);
          known = (case cached of None \<Rightarrow> [] | Some c \<Rightarrow> bc_ids c)
      in case scan_loop d derive gapLimit
                \<lparr>sc_derived = derived, sc_known = known, sc_checkedTo = 0, sc_scannedTo = 0, sc_run = 0\<rparr> of
           Inl e \<Rightarrow> (Inl e, s)
         | Inr st \<Rightarrow>
             (let s' = (if length (sc_derived st) \<noteq> length derived \<or> length (sc_known st) \<noteq> length known
                        then cache_set now key \<lparr>bc_derived = sc_derived st, bc_ids = sc_known st\<rparr>
                               (Some XPUB_CACHE_LIFE_TIME) s
                        else cache_touch now key XPUB_CACHE_LIFE_TIME s)
              in (Inr (collect_addresses branch (take (sc_scannedTo st) (sc_derived st)) (map_of (sc_known st))), s')))"

section \<open>The wallet that a scan finds\<close>

text \<open>How many addresses before position \<open>n\<close> are unused in a row.\<close>

fun unused_run :: "(nat \<Rightarrow> bool) \<Rightarrow> nat \<Rightarrow> nat" where
  "unused_run used 0 = 0"
| "unused_run used (Suc n) = (if used n then 0 else Suc (unused_run used n))"

text \<open>
  The end of a wallet: the first position with a full gap before it, or the limit of a branch.
\<close>

definition wallet_end :: "(nat \<Rightarrow> bool) \<Rightarrow> nat \<Rightarrow> nat \<Rightarrow> bool" where
  "wallet_end used gap n \<longleftrightarrow>
     (\<forall>m < n. unused_run used m < gap) \<and> n \<le> XPUB_MAX_ADDRESSES_PER_BRANCH \<and>
     (gap \<le> unused_run used n \<or> n = XPUB_MAX_ADDRESSES_PER_BRANCH)"

lemma wallet_end_unique: "wallet_end used gap n \<Longrightarrow> wallet_end used gap m \<Longrightarrow> n = m"
  by (metis linorder_neqE_nat not_less wallet_end_def)

lemma unused_run_le: "unused_run used n \<le> n"
  by (induction n) auto

lemma unused_run_unused: "n - unused_run used n \<le> i \<Longrightarrow> i < n \<Longrightarrow> \<not> used i"
proof (induction n)
  case (Suc n)
  then show ?case by (cases "i = n") (auto split: if_splits)
qed simp

text \<open>What the cache may hold: a prefix of the branch, and ids that the database has.\<close>

definition sound_ids :: "(string \<Rightarrow> int option) \<Rightarrow> (string \<times> int) list \<Rightarrow> bool" where
  "sound_ids ids known \<longleftrightarrow> (\<forall>a i. map_of known a = Some i \<longrightarrow> ids a = Some i)"

definition sound_branch :: "(nat \<Rightarrow> string) \<Rightarrow> (string \<Rightarrow> int option) \<Rightarrow> branch_cache \<Rightarrow> bool" where
  "sound_branch addr ids c \<longleftrightarrow>
     bc_derived c = map addr [0..<length (bc_derived c)] \<and>
     length (bc_derived c) \<le> XPUB_MAX_ADDRESSES_PER_BRANCH \<and> sound_ids ids (bc_ids c)"

text \<open>An address row is never deleted, so what was sound stays sound.\<close>

lemma sound_branch_mono:
  "sound_branch addr ids c \<Longrightarrow> (\<And>a i. ids a = Some i \<Longrightarrow> ids' a = Some i) \<Longrightarrow> sound_branch addr ids' c"
  by (auto simp: sound_branch_def sound_ids_def)

lemma address_id_find: "keyed d \<Longrightarrow> a \<in> set (db_addresses d) \<Longrightarrow> address_id d (a_address a) = Some (a_id a)"
  using find_key [of a_address "db_addresses d" a] by (simp add: keyed_def address_id_def)

lemma address_id_SomeD: "address_id d x = Some i \<Longrightarrow> \<exists>a \<in> set (db_addresses d). a_address a = x \<and> a_id a = i"
  by (auto simp: address_id_def dest: find_SomeD)

lemma map_of_foldl_update:
  assumes "\<And>x. x \<in> set rows \<Longrightarrow> f (key x) = Some (val x)"
  shows "map_of (foldl (\<lambda>m x. AList.update (key x) (val x) m) known rows) a =
    (if a \<in> key ` set rows then f a else map_of known a)"
  using assms by (induction rows arbitrary: known) (auto simp: update_conv')

lemma lookupIds_map:
  assumes "keyed d"
  shows "map_of (lookupIds d addresses) a = (if a \<in> set addresses then address_id d a else None)"
proof -
  have "lookupIds d addresses = foldl (\<lambda>m x. AList.update (a_address x) (a_id x) m) []
      (filter (\<lambda>x. a_address x \<in> set addresses) (db_addresses d))"
    by (simp add: lookupIds_def getAddressIds_def foldl_map)
  also have "map_of \<dots> a = (if a \<in> a_address ` set (filter (\<lambda>x. a_address x \<in> set addresses) (db_addresses d))
      then address_id d a else map_of [] a)"
    by (rule map_of_foldl_update) (simp add: address_id_find [OF assms])
  finally have found: "map_of (lookupIds d addresses) a =
      (if a \<in> a_address ` set (filter (\<lambda>x. a_address x \<in> set addresses) (db_addresses d))
       then address_id d a else None)" by simp
  show ?thesis
  proof (cases "address_id d a")
    case (Some i)
    then obtain x where "x \<in> set (db_addresses d)" "a_address x = a" using address_id_SomeD by blast
    then show ?thesis unfolding found by auto
  qed (simp add: found)
qed

lemma distinct_lookupIds: "distinct (map fst (lookupIds d addresses))"
proof -
  have "distinct (map fst m) \<Longrightarrow> distinct (map fst (foldl (\<lambda>m (i, a). AList.update a i m) m rows))"
    for rows :: "(int \<times> string) list" and m
    by (induction rows arbitrary: m) (auto simp: distinct_update)
  then show ?thesis by (simp add: lookupIds_def)
qed

lemma set_all_map:
  assumes "distinct (map fst found)"
  shows "map_of (set_all known found) a = (case map_of found a of None \<Rightarrow> map_of known a | Some i \<Rightarrow> Some i)"
proof -
  have "map_of (foldl (\<lambda>m x. AList.update (fst x) (snd x) m) known found) a =
      (if a \<in> fst ` set found then map_of found a else map_of known a)"
    by (rule map_of_foldl_update) (use assms in \<open>simp add: map_of_eq_Some_iff\<close>)
  then show ?thesis
    by (auto simp: set_all_def case_prod_beta' map_of_eq_None_iff split: option.splits)
       (metis map_of_eq_None_iff option.distinct(1))+
qed

text \<open>A batch makes the map complete on its addresses and changes nothing else.\<close>

lemma set_all_lookup:
  assumes "keyed d" "sound_ids (address_id d) known"
  shows "map_of (set_all known (lookupIds d (filter (\<lambda>a. map_of known a = None) as))) a =
    (if a \<in> set as then address_id d a else map_of known a)"
  using assms(2)
  by (auto simp: set_all_map [OF distinct_lookupIds] lookupIds_map [OF assms(1)] sound_ids_def
      split: option.splits)

definition seen :: "db \<Rightarrow> (nat \<Rightarrow> string) \<Rightarrow> nat \<Rightarrow> bool" where
  "seen d addr i \<longleftrightarrow> address_id d (addr i) \<noteq> None"

definition complete_to :: "db \<Rightarrow> (nat \<Rightarrow> string) \<Rightarrow> (string \<times> int) list \<Rightarrow> nat \<Rightarrow> bool" where
  "complete_to d addr known n \<longleftrightarrow> (\<forall>j < n. map_of known (addr j) = address_id d (addr j))"

definition scan_inv :: "db \<Rightarrow> (nat \<Rightarrow> string) \<Rightarrow> nat \<Rightarrow> scan_state \<Rightarrow> bool" where
  "scan_inv d addr gap s \<longleftrightarrow>
     sc_derived s = map addr [0..<length (sc_derived s)] \<and>
     length (sc_derived s) \<le> XPUB_MAX_ADDRESSES_PER_BRANCH \<and>
     sound_ids (address_id d) (sc_known s) \<and>
     sc_scannedTo s \<le> sc_checkedTo s \<and> sc_checkedTo s \<le> length (sc_derived s) \<and>
     complete_to d addr (sc_known s) (sc_checkedTo s) \<and>
     sc_run s = unused_run (seen d addr) (sc_scannedTo s) \<and>
     (\<forall>m < sc_scannedTo s. unused_run (seen d addr) m < gap)"

lemma in_batch:
  assumes "c \<le> j" "j < to'" "to' \<le> n"
  shows "addr j \<in> set (take (to' - c) (drop c (map addr [0..<n])))"
proof -
  have "take (to' - c) (drop c (map addr [0..<n])) ! (j - c) = addr j"
    using assms by simp
  moreover have "j - c < length (take (to' - c) (drop c (map addr [0..<n])))" using assms by simp
  ultimately show ?thesis by (metis nth_mem)
qed

lemma complete_step:
  assumes "keyed d" "sound_ids (address_id d) known" "complete_to d addr known c" "to' \<le> n"
  defines "known' \<equiv> set_all known (lookupIds d (filter (\<lambda>a. map_of known a = None) (take (to' - c) (drop c (map addr [0..<n])))))"
  shows "sound_ids (address_id d) known'" "complete_to d addr known' to'"
proof -
  note map = set_all_lookup [OF assms(1,2), of "take (to' - c) (drop c (map addr [0..<n]))"]
  show "sound_ids (address_id d) known'"
    using assms(2) by (auto simp: known'_def map sound_ids_def)
  show "complete_to d addr known' to'"
    unfolding complete_to_def known'_def map
  proof (intro allI impI)
    fix j assume j: "j < to'"
    show "(if addr j \<in> set (take (to' - c) (drop c (map addr [0..<n]))) then address_id d (addr j) else map_of known (addr j)) =
        address_id d (addr j)"
      using in_batch [of c j to' n addr] j assms(3,4) by (cases "c \<le> j") (auto simp: complete_to_def)
  qed
qed

lemma confirmUpTo_complete:
  assumes "keyed d" "sound_ids (address_id d) known" "complete_to d addr known c" "c \<le> n"
    "confirmUpTo d (map addr [0..<n]) index c known = (c', known')"
  shows "sound_ids (address_id d) known' \<and> complete_to d addr known' c' \<and> c \<le> c' \<and> c' \<le> n \<and> (index < n \<longrightarrow> index < c')"
  using assms(2-)
proof (induction "n - c" arbitrary: c known rule: less_induct)
  case less
  show ?case
  proof (cases "c \<le> index \<and> c < n")
    case False
    with less.prems show ?thesis by (auto simp: confirmUpTo.simps [of d _ index c known])
  next
    case True
    define to' where "to' = min (c + XPUB_DERIVATION_BATCH_SIZE) n"
    have to': "c < to'" "to' \<le> n" using True batch_pos by (auto simp: to'_def)
    let ?known = "set_all known (lookupIds d (filter (\<lambda>a. map_of known a = None) (take (to' - c) (drop c (map addr [0..<n])))))"
    have rec: "confirmUpTo d (map addr [0..<n]) index to' ?known = (c', known')"
      using less.prems(4) True unfolding confirmUpTo.simps [of d _ index c known] length_map length_upt
      by (simp add: to'_def Let_def)
    have "n - to' < n - c" using to' by linarith
    from less.hyps [OF this complete_step [OF assms(1) less.prems(1,2) to'(2)] to'(2) rec] to'(1)
    show ?thesis by simp
  qed
qed

lemma extend_derived_ok:
  assumes "derives derive addr" "scan_inv d addr gap s" "sc_run s < gap" "sc_scannedTo s < XPUB_MAX_ADDRESSES_PER_BRANCH"
  shows "\<exists>n. extend_derived derive gap s = Inr (map addr [0..<n]) \<and> length (sc_derived s) \<le> n \<and>
    n \<le> XPUB_MAX_ADDRESSES_PER_BRANCH \<and> sc_scannedTo s < n"
proof (cases "sc_scannedTo s \<ge> length (sc_derived s)")
  case False
  with assms(2) show ?thesis
    by (intro exI [of _ "length (sc_derived s)"]) (simp add: extend_derived_def scan_inv_def)
next
  case True
  define k where "k = min (if length (sc_derived s) < XPUB_DERIVATION_BATCH_SIZE then gap else XPUB_DERIVATION_BATCH_SIZE)
      (XPUB_MAX_ADDRESSES_PER_BRANCH - length (sc_derived s))"
  have same: "sc_scannedTo s = length (sc_derived s)" using True assms(2) by (simp add: scan_inv_def)
  then have k: "0 < k" "length (sc_derived s) + k \<le> XPUB_MAX_ADDRESSES_PER_BRANCH"
    using assms(3,4) batch_pos by (auto simp: k_def)
  have "extend_derived derive gap s = Inr (sc_derived s @ map addr [length (sc_derived s)..<length (sc_derived s) + k])"
    using True assms(1) by (simp add: extend_derived_def derives_def k_def Let_def)
  also have "sc_derived s @ map addr [length (sc_derived s)..<length (sc_derived s) + k] =
      map addr ([0..<length (sc_derived s)] @ [length (sc_derived s)..<length (sc_derived s) + k])"
    using assms(2) by (simp add: scan_inv_def)
  also have "[0..<length (sc_derived s)] @ [length (sc_derived s)..<length (sc_derived s) + k] =
      [0..<length (sc_derived s) + k]"
    by (simp add: upt_add_eq_append [symmetric])
  finally show ?thesis using k same by (intro exI [of _ "length (sc_derived s) + k"]) simp
qed

lemma scan_step_inv:
  assumes "keyed d" "derives derive addr" "scan_inv d addr gap s"
    "sc_run s < gap" "sc_scannedTo s < XPUB_MAX_ADDRESSES_PER_BRANCH"
  shows "\<exists>s'. scan_step d derive gap s = Inr s' \<and> scan_inv d addr gap s'"
proof -
  obtain n where n: "extend_derived derive gap s = Inr (map addr [0..<n])" "length (sc_derived s) \<le> n"
    "n \<le> XPUB_MAX_ADDRESSES_PER_BRANCH" "sc_scannedTo s < n"
    using extend_derived_ok [OF assms(2-)] by blast
  obtain c known where c: "confirmUpTo d (map addr [0..<n]) (sc_scannedTo s) (sc_checkedTo s) (sc_known s) = (c, known)"
    by fastforce
  have inv: "sound_ids (address_id d) (sc_known s)" "complete_to d addr (sc_known s) (sc_checkedTo s)"
    "sc_checkedTo s \<le> n" "sc_run s = unused_run (seen d addr) (sc_scannedTo s)"
    "\<forall>m < sc_scannedTo s. unused_run (seen d addr) m < gap" "sc_scannedTo s \<le> sc_checkedTo s"
    using assms(3) n(2) by (simp_all add: scan_inv_def)
  note ok = confirmUpTo_complete [OF assms(1) inv(1,2,3) c]
  have "has_at known (map addr [0..<n]) (sc_scannedTo s) \<longleftrightarrow> seen d addr (sc_scannedTo s)"
    using ok n(4) by (simp add: has_at_def seen_def complete_to_def)
  then show ?thesis
    using n ok inv assms(4)
    by (auto simp: scan_step_def c scan_inv_def less_Suc_eq)
qed

lemma scan_loop_inv:
  assumes "keyed d" "derives derive addr" "scan_inv d addr gap s"
  shows "\<exists>s'. scan_loop d derive gap s = Inr s' \<and> scan_inv d addr gap s' \<and>
    \<not> (sc_run s' < gap \<and> sc_scannedTo s' < XPUB_MAX_ADDRESSES_PER_BRANCH)"
  using assms(3)
proof (induction "XPUB_MAX_ADDRESSES_PER_BRANCH - sc_scannedTo s" arbitrary: s rule: less_induct)
  case less
  show ?case
  proof (cases "sc_run s < gap \<and> sc_scannedTo s < XPUB_MAX_ADDRESSES_PER_BRANCH")
    case False
    with less.prems show ?thesis by (intro exI [of _ s]) (auto simp: scan_loop.simps [of d derive gap s])
  next
    case True
    then obtain t where t: "scan_step d derive gap s = Inr t" "scan_inv d addr gap t"
      using scan_step_inv [OF assms(1,2) less.prems] by blast
    have "XPUB_MAX_ADDRESSES_PER_BRANCH - sc_scannedTo t < XPUB_MAX_ADDRESSES_PER_BRANCH - sc_scannedTo s"
      using scan_step_advances [OF t(1)] True by linarith
    from less.hyps [OF this t(2)] True t(1) show ?thesis by (simp add: scan_loop.simps [of d derive gap s])
  qed
qed

lemma scan_end:
  assumes "scan_inv d addr gap s" "\<not> (sc_run s < gap \<and> sc_scannedTo s < XPUB_MAX_ADDRESSES_PER_BRANCH)"
  shows "wallet_end (seen d addr) gap (sc_scannedTo s)"
  using assms by (auto simp: wallet_end_def scan_inv_def)

section \<open>What a scan returns\<close>

lemma collect_cong:
  assumes "\<forall>j < n. known (addr j) = ids (addr j)"
  shows "collect_addresses branch (map addr [0..<n]) known = collect_addresses branch (map addr [0..<n]) ids"
proof -
  have "map (\<lambda>i. \<lparr>da_address = map addr [0..<n] ! i, da_branch = branch, da_index = i,
      da_used = (known (map addr [0..<n] ! i) \<noteq> None), da_addressId = known (map addr [0..<n] ! i)\<rparr>) [0..<n] =
    map (\<lambda>i. \<lparr>da_address = map addr [0..<n] ! i, da_branch = branch, da_index = i,
      da_used = (ids (map addr [0..<n] ! i) \<noteq> None), da_addressId = ids (map addr [0..<n] ! i)\<rparr>) [0..<n]"
    using assms by (intro map_cong) auto
  moreover have "map (\<lambda>a. case known a of None \<Rightarrow> [] | Some i \<Rightarrow> [i]) (map addr [0..<n]) =
      map (\<lambda>a. case ids a of None \<Rightarrow> [] | Some i \<Rightarrow> [i]) (map addr [0..<n])"
    unfolding map_map by (rule map_cong) (use assms in auto)
  moreover have "find (\<lambda>i. known (map addr [0..<n] ! i) = None) [0..<n] =
      find (\<lambda>i. ids (map addr [0..<n] ! i) = None) [0..<n]"
    using assms by (intro find_cong) auto
  ultimately show ?thesis by (simp only: collect_addresses_def length_map length_upt diff_zero)
qed

definition sound_cache :: "db \<Rightarrow> (nat \<Rightarrow> string) \<Rightarrow> string \<Rightarrow> int \<Rightarrow> branch_cache redis \<Rightarrow> bool" where
  "sound_cache d addr key now s \<longleftrightarrow>
     (\<forall>c. fst (cache_get now key s) = Some c \<longrightarrow> sound_branch addr (address_id d) c)"

lemma scan_result:
  assumes "keyed d" "derives derive addr" "sound_cache d addr key now s"
  obtains n known derived where
    "wallet_end (seen d addr) gap n"
    "fst (scanBranch d derive now key branch gap s) = Inr (collect_addresses branch (map addr [0..<n]) (address_id d))"
    "sound_branch addr (address_id d) \<lparr>bc_derived = derived, bc_ids = known\<rparr>"
    "snd (scanBranch d derive now key branch gap s) =
       cache_set now key \<lparr>bc_derived = derived, bc_ids = known\<rparr> (Some XPUB_CACHE_LIFE_TIME) (snd (cache_get now key s)) \<or>
     snd (scanBranch d derive now key branch gap s) = cache_touch now key XPUB_CACHE_LIFE_TIME (snd (cache_get now key s))"
proof -
  obtain cached s0 where get: "cache_get now key s = (cached, s0)" by fastforce
  define derived0 where "derived0 = (case cached of None \<Rightarrow> [] | Some c \<Rightarrow> bc_derived c)"
  define known0 where "known0 = (case cached of None \<Rightarrow> [] | Some c \<Rightarrow> bc_ids c)"
  let ?st = "\<lparr>sc_derived = derived0, sc_known = known0, sc_checkedTo = 0, sc_scannedTo = 0, sc_run = 0\<rparr>"
  have inv: "scan_inv d addr gap ?st"
    using assms(3) get
    by (cases cached) (auto simp: sound_cache_def scan_inv_def derived0_def known0_def sound_branch_def sound_ids_def complete_to_def)
  obtain st where st: "scan_loop d derive gap ?st = Inr st" "scan_inv d addr gap st"
    "\<not> (sc_run st < gap \<and> sc_scannedTo st < XPUB_MAX_ADDRESSES_PER_BRANCH)"
    using scan_loop_inv [OF assms(1,2) inv] by blast
  let ?n = "sc_scannedTo st"
  have n: "?n \<le> length (sc_derived st)" "sc_derived st = map addr [0..<length (sc_derived st)]"
    "\<forall>j < ?n. map_of (sc_known st) (addr j) = address_id d (addr j)"
    using st(2) by (auto simp: scan_inv_def complete_to_def)
  have "take ?n (sc_derived st) = map addr [0..<?n]"
    using n(1) by (subst n(2)) (simp add: take_map)
  then have fst: "fst (scanBranch d derive now key branch gap s) =
      Inr (collect_addresses branch (map addr [0..<?n]) (address_id d))"
    using st(1) collect_cong [OF n(3), of branch]
    by (simp add: scanBranch_def get derived0_def known0_def Let_def)
  have snd: "snd (scanBranch d derive now key branch gap s) =
       cache_set now key \<lparr>bc_derived = sc_derived st, bc_ids = sc_known st\<rparr> (Some XPUB_CACHE_LIFE_TIME) s0 \<or>
     snd (scanBranch d derive now key branch gap s) = cache_touch now key XPUB_CACHE_LIFE_TIME s0"
    using st(1) by (simp add: scanBranch_def get derived0_def known0_def Let_def)
  have "sound_branch addr (address_id d) \<lparr>bc_derived = sc_derived st, bc_ids = sc_known st\<rparr>"
    using st(2) n(2) by (simp add: sound_branch_def scan_inv_def)
  with that [OF scan_end [OF st(2,3)] fst] snd get show ?thesis by simp
qed

text \<open>
  C3: a scan of a branch ends, and returns the addresses from the first one up to the end of the wallet,
  the first position that has a full gap of unused addresses before it, or the limit of a branch. An
  address is marked as used, with its id, exactly if the database has seen it. Neither the batches
  nor what the cache held make a difference.
\<close>

theorem scanBranch_finds_wallet:
  assumes "keyed d" "derives derive addr" "sound_cache d addr key now s"
  shows "\<exists>n. wallet_end (seen d addr) gap n \<and>
    fst (scanBranch d derive now key branch gap s) =
      Inr (collect_addresses branch (map addr [0..<n]) (address_id d))"
  by (rule scan_result [OF assms, of gap branch]) blast

text \<open>A scan that starts from a filled cache returns what a scan without a cache returns.\<close>

theorem scanBranch_cache_transparent:
  assumes "keyed d" "derives derive addr" "sound_cache d addr key now s"
  shows "fst (scanBranch d derive now key branch gap s) = fst (scanBranch d derive now key branch gap (\<lambda>_. None))"
proof -
  have "sound_cache d addr key now (\<lambda>_. None)"
    by (simp add: sound_cache_def cache_get_def redis_get_def)
  then show ?thesis
    using scan_result [OF assms, of gap branch] scan_result [OF assms(1,2), of key now "\<lambda>_. None" gap branch]
      wallet_end_unique by metis
qed

text \<open>
  The cache of a branch stays sound: whenever it is read after a scan, until the entry expires or
  after that, it holds nothing or a prefix of the branch with ids that the database has, also for a
  later database that has lost no address.
\<close>

lemma scanBranch_keeps_cache:
  assumes "keyed d" "derives derive addr" "sound_cache d addr key now s" "now \<le> t"
    "\<And>a i. address_id d a = Some i \<Longrightarrow> address_id d' a = Some i"
  shows "sound_cache d' addr key t (snd (scanBranch d derive now key branch gap s))"
proof -
  obtain n known derived where r:
    "sound_branch addr (address_id d) \<lparr>bc_derived = derived, bc_ids = known\<rparr>"
    "snd (scanBranch d derive now key branch gap s) =
       cache_set now key \<lparr>bc_derived = derived, bc_ids = known\<rparr> (Some XPUB_CACHE_LIFE_TIME) (snd (cache_get now key s)) \<or>
     snd (scanBranch d derive now key branch gap s) = cache_touch now key XPUB_CACHE_LIFE_TIME (snd (cache_get now key s))"
    by (rule scan_result [OF assms(1-3), of gap branch]) blast
  have "sound_cache d addr key t (snd (scanBranch d derive now key branch gap s))"
    unfolding sound_cache_def
  proof (intro allI impI)
    fix c assume c: "fst (cache_get t key (snd (scanBranch d derive now key branch gap s))) = Some c"
    from r(2) show "sound_branch addr (address_id d) c"
    proof
      assume "snd (scanBranch d derive now key branch gap s) =
        cache_set now key \<lparr>bc_derived = derived, bc_ids = known\<rparr> (Some XPUB_CACHE_LIFE_TIME) (snd (cache_get now key s))"
      with c r(1) show ?thesis by (auto simp: redis_cache.get_put split: if_splits)
    next
      assume touch: "snd (scanBranch d derive now key branch gap s) = cache_touch now key XPUB_CACHE_LIFE_TIME (snd (cache_get now key s))"
      have pos: "0 < XPUB_CACHE_LIFE_TIME" by (simp add: XPUB_CACHE_LIFE_TIME_def)
      from c have "fst (cache_get now key (snd (cache_get now key s))) = Some c"
        unfolding touch cache_get_touch [OF pos assms(4)] by (simp split: if_splits)
      with assms(3) show ?thesis by (simp add: redis_cache.get_stable sound_cache_def)
    qed
  qed
  with assms(5) show ?thesis by (auto simp: sound_cache_def intro: sound_branch_mono)
qed

text \<open>A scan touches no entry of another key.\<close>

lemma scanBranch_other:
  "key \<noteq> k' \<Longrightarrow> fst (cache_get t k' (snd (scanBranch d derive now key branch gap s))) = fst (cache_get t k' s)"
  using redis_cache.get_stable [of t k' now key s]
  by (auto simp: scanBranch_def Let_def case_prod_beta redis_cache.get_put_other cache_get_touch_other
      split: sum.splits)

lemma sound_cache_other:
  "key \<noteq> k' \<Longrightarrow>
   sound_cache d' addr k' t (snd (scanBranch d derive now key branch gap s)) = sound_cache d' addr k' t s"
  by (simp add: sound_cache_def scanBranch_other)

text \<open>Where a branch has its next unused address.\<close>

lemma unused_run_at_end:
  assumes "wallet_end used gap n" "0 < gap" "n < XPUB_MAX_ADDRESSES_PER_BRANCH"
  shows "0 < n \<and> \<not> used (n - 1)"
proof -
  have run: "0 < unused_run used n" using assms by (auto simp: wallet_end_def)
  with unused_run_unused [of n used "n - 1"] unused_run_le [of used n] show ?thesis by linarith
qed

lemma first_unused:
  assumes "wallet_end (seen d addr) gap n" "0 < gap"
  shows "case sb_firstUnused (collect_addresses b (map addr [0..<n]) (address_id d)) of
      Some i \<Rightarrow> i < n \<and> \<not> seen d addr i \<and> (\<forall>j < i. seen d addr j)
    | None \<Rightarrow> n = XPUB_MAX_ADDRESSES_PER_BRANCH \<and> (\<forall>j < n. seen d addr j)"
proof -
  have "find (\<lambda>i. address_id d (map addr [0..<n] ! i) = None) [0..<n] = find (\<lambda>i. \<not> seen d addr i) [0..<n]"
    by (rule find_cong) (auto simp: seen_def)
  then have found: "sb_firstUnused (collect_addresses b (map addr [0..<n]) (address_id d)) =
      find (\<lambda>i. \<not> seen d addr i) [0..<n]"
    by (simp add: collect_addresses_def)
  show ?thesis
  proof (cases "find (\<lambda>i. \<not> seen d addr i) [0..<n]")
    case None
    then have all: "\<forall>j < n. seen d addr j" by (auto simp: find_None_iff)
    then have "\<not> n < XPUB_MAX_ADDRESSES_PER_BRANCH" using unused_run_at_end [OF assms] by auto
    moreover have "n \<le> XPUB_MAX_ADDRESSES_PER_BRANCH" using assms(1) by (simp add: wallet_end_def)
    ultimately show ?thesis unfolding found None using all by simp
  next
    case (Some i)
    then obtain k where k: "k < n" "\<not> seen d addr k" "i = k" "\<forall>j < k. seen d addr j"
      by (auto simp: find_Some_iff)
    then show ?thesis unfolding found Some by simp
  qed
qed

section \<open>Sample wallet\<close>

text \<open>A curve that rejects no index, and a wallet of which the database has the second address.\<close>

definition sample_addr :: "nat \<Rightarrow> string" where
  "sample_addr i = (if i mod 2 ^ 32 = 1 then ''X7'' else ''Y'')"

definition sample_derive :: "nat \<Rightarrow> nat \<Rightarrow> string list result" where
  "sample_derive = derive_range (\<lambda>i. Some (sample_addr i)) id 3"

lemma sample_derives: "derives sample_derive sample_addr"
proof -
  have "id (the (Some (sample_addr (i mod 2 ^ 32)))) = sample_addr i" for i
    by (simp add: sample_addr_def)
  with derive_range_derives [of "\<lambda>i. Some (sample_addr i)" id 2] show ?thesis
    by (simp add: sample_derive_def numeral_3_eq_3 numeral_2_eq_2)
qed

lemma sample_keyed: "keyed sample_wallet_db"
  using sample_indexed by (simp add: indexed_def)

lemma sound_cache_empty: "sound_cache d addr key now (\<lambda>_. None)"
  by (simp add: sound_cache_def cache_get_def redis_get_def)

lemma sample_address_id: "address_id sample_wallet_db a = (if a = ''X7'' then Some 7 else None)"
  by (simp add: address_id_def sample_wallet_db_def)

lemma sample_seen: "seen sample_wallet_db sample_addr = (\<lambda>i. i mod 2 ^ 32 = 1)"
  by (rule ext) (simp add: seen_def sample_address_id sample_addr_def)

lemma wallet_end_4:
  assumes "\<not> used 0" "used (Suc 0)" "\<not> used 2" "\<not> used 3"
  shows "wallet_end used 2 n \<longleftrightarrow> n = 4"
proof -
  have run: "map (unused_run used) [0, 1, 2, 3, 4] = [0, 1, 0, 1, 2]"
    using assms by (simp add: eval_nat_numeral)
  have "wallet_end used 2 4"
    unfolding wallet_end_def
  proof (intro conjI allI impI)
    fix m :: nat assume "m < 4"
    then have "m = 0 \<or> m = 1 \<or> m = 2 \<or> m = 3" by linarith
    then show "unused_run used m < 2" using run by auto
  qed (use run in \<open>simp_all add: XPUB_MAX_ADDRESSES_PER_BRANCH_def\<close>)
  then show ?thesis using wallet_end_unique by blast
qed

lemma sample_wallet_end: "wallet_end (seen sample_wallet_db sample_addr) 2 n \<longleftrightarrow> n = 4"
  unfolding sample_seen by (rule wallet_end_4) simp_all

lemma sample_found:
  "map da_used (sb_addresses (collect_addresses 1 (map sample_addr [0..<4]) (address_id sample_wallet_db))) =
     [False, True, False, False]"
  "sb_addressIds (collect_addresses 1 (map sample_addr [0..<4]) (address_id sample_wallet_db)) = [7]"
  by (simp_all add: collect_addresses_def sample_address_id sample_addr_def upt_rec)

theorem scanBranch_finds_wallet_witness:
  "\<exists>r. fst (scanBranch sample_wallet_db sample_derive 0 ''k'' 1 2 (\<lambda>_. None)) = Inr r \<and>
     map da_used (sb_addresses r) = [False, True, False, False] \<and> sb_addressIds r = [7]"
  using scanBranch_finds_wallet [OF sample_keyed sample_derives sound_cache_empty, of 2 0 "''k''" 1]
  unfolding sample_wallet_end using sample_found by (metis)

theorem scanBranch_cache_transparent_witness:
  "fst (scanBranch sample_wallet_db sample_derive 5 ''k'' 1 2
      (cache_set 0 ''k'' \<lparr>bc_derived = [''Y'', ''X7''], bc_ids = []\<rparr> (Some XPUB_CACHE_LIFE_TIME) (\<lambda>_. None))) =
   fst (scanBranch sample_wallet_db sample_derive 5 ''k'' 1 2 (\<lambda>_. None))"
proof (rule scanBranch_cache_transparent [OF sample_keyed sample_derives])
  show "sound_cache sample_wallet_db sample_addr ''k'' 5
      (cache_set 0 ''k'' \<lparr>bc_derived = [''Y'', ''X7''], bc_ids = []\<rparr> (Some XPUB_CACHE_LIFE_TIME) (\<lambda>_. None))"
    by (auto simp: sound_cache_def redis_cache.get_put sound_branch_def sound_ids_def upt_rec sample_addr_def
        XPUB_MAX_ADDRESSES_PER_BRANCH_def split: if_splits)
qed

end
