(* ===== verification/Xpub.thy ===== *)
theory Xpub
  imports XpubScan "HOL-Library.Word"
begin

text \<open>
  \<open>api/src/services/XpubService.ts\<close> around the scan of a branch, and
  \<open>api/src/controllers/XpubController.ts\<close>: reading an extended public key, deriving the addresses of its
  branches, and the four endpoints of a wallet. The key library, the curve and the hash are
  parameters, gathered in the record \<open>hd_env\<close>.
\<close>

section \<open>Keys\<close>

type_synonym octets = "8 word list"

record ('n, 'p, 's) hd_env =
  hd_fromExtendedKey :: "string \<Rightarrow> xpub_versions \<Rightarrow> string + 'n"
  hd_privateKey :: "'n \<Rightarrow> octets option"
  hd_deriveChild :: "'n \<Rightarrow> nat \<Rightarrow> 'n result"
  hd_publicKey :: "'n \<Rightarrow> octets option"
  hd_chainCode :: "'n \<Rightarrow> octets option"
  hmac_sha512 :: "octets \<Rightarrow> octets \<Rightarrow> octets"
  point_fromBytes :: "octets \<Rightarrow> 'p result"
  scalar_fromBytes :: "octets \<Rightarrow> 's option"
  is_zero :: "'s \<Rightarrow> bool"
  base_multiply :: "'s \<Rightarrow> 'p"
  point_add :: "'p \<Rightarrow> 'p \<Rightarrow> 'p"
  is_infinity :: "'p \<Rightarrow> bool"
  point_toBytes :: "'p \<Rightarrow> octets"
  key_address :: "octets \<Rightarrow> network \<Rightarrow> string"
  sha256_hex :: "string \<Rightarrow> string"

definition digest :: "('n, 'p, 's) hd_env \<Rightarrow> network \<Rightarrow> string \<Rightarrow> string" where
  "digest k net xpub = sha256_hex k (network_name net @ '':'' @ xpub)"

definition cacheKey :: "('n, 'p, 's) hd_env \<Rightarrow> network \<Rightarrow> string \<Rightarrow> nat \<Rightarrow> string" where
  "cacheKey k net xpub branch =
     ''xpub:'' @ dec_nat XPUB_CACHE_VERSION @ '':'' @ digest k net xpub @ '':'' @ dec_nat branch"

text \<open>\<open>parse\<close>: what the library throws reaches the client, one message reworded.\<close>

definition parse_xpub :: "('n, 'p, 's) hd_env \<Rightarrow> network \<Rightarrow> string \<Rightarrow> 'n result" where
  "parse_xpub k net xpub =
     (case hd_fromExtendedKey k (js_trim xpub) (XPUB_VERSIONS net) of
        Inl message \<Rightarrow>
          Inl (InvalidXpub (if message = ''Version mismatch''
                            then ''Not a '' @ network_name net @ '' extended public key'' else message))
      | Inr node \<Rightarrow>
          if hd_privateKey k node \<noteq> None then Inl (InvalidXpub ''Extended private keys are not accepted'')
          else Inr node)"

text \<open>\<open>view.setUint32(33, index, false)\<close>: the index, reduced to 32 bits, with the highest byte first.\<close>

definition ser32 :: "nat \<Rightarrow> octets" where
  "ser32 index = map (\<lambda>n. ucast (drop_bit n (of_nat index :: 32 word))) [24, 16, 8, 0]"

text \<open>The body of \<open>childPublicKey\<close>: \<open>None\<close> for an index whose tweak is out of range.\<close>

definition child_key ::
  "('n, 'p, 's) hd_env \<Rightarrow> octets \<Rightarrow> octets \<Rightarrow> 'p \<Rightarrow> nat \<Rightarrow> octets option" where
  "child_key k publicKey chainCode point index =
     (let I = hmac_sha512 k chainCode (publicKey @ ser32 index) in
      case scalar_fromBytes k (take 32 I) of
        None \<Rightarrow> None
      | Some tweak \<Rightarrow>
          (let child = (if is_zero k tweak then point else point_add k point (base_multiply k tweak)) in
           if is_infinity k child then None else Some (point_toBytes k child)))"

text \<open>\<open>brancher\<close>; \<open>depth\<close> is the stack that is left for retries.\<close>

definition brancher ::
  "('n, 'p, 's) hd_env \<Rightarrow> network \<Rightarrow> nat \<Rightarrow> 'n \<Rightarrow> nat \<Rightarrow> (nat \<Rightarrow> nat \<Rightarrow> string list result) result" where
  "brancher k net depth node branch =
     bind_result (hd_deriveChild k node branch) (\<lambda>branchNode.
       case (hd_publicKey k branchNode, hd_chainCode k branchNode) of
         (Some publicKey, Some chainCode) \<Rightarrow>
           bind_result (point_fromBytes k publicKey) (\<lambda>point.
             Inr (derive_range (child_key k publicKey chainCode point) (\<lambda>key. key_address k key net) depth))
       | _ \<Rightarrow> Inl (InvalidXpub ''Failed to derive public key''))"

section \<open>The wallet of a key\<close>

record ResolvedXpub =
  rx_addresses :: "DerivedAddress list"
  rx_addressIds :: "int list"
  rx_nextUnused :: "nat \<Rightarrow> nat option"

record ('n, 'p, 's) xpub_env =
  xe_hd :: "('n, 'p, 's) hd_env"
  xe_network :: network
  xe_depth :: nat
  xe_db :: db

text \<open>\<open>scanBranch\<close> with its first two lines: a key that cannot be derived fails before the cache is read.\<close>

definition scan_branch_of ::
  "('n, 'p, 's) xpub_env \<Rightarrow> int \<Rightarrow> 'n \<Rightarrow> string \<Rightarrow> nat \<Rightarrow> nat \<Rightarrow> branch_cache redis \<Rightarrow>
   ScannedBranch result \<times> branch_cache redis" where
  "scan_branch_of e now node xpub branch gapLimit s =
     (let key = cacheKey (xe_hd e) (xe_network e) xpub branch in
      case brancher (xe_hd e) (xe_network e) (xe_depth e) node branch of
        Inl err \<Rightarrow> (Inl err, s)
      | Inr derive \<Rightarrow> scanBranch (xe_db e) derive now key branch gapLimit s)"

text \<open>
  \<open>Promise.all\<close> over the branches: they touch different entries of the cache, so their order does not
  matter, and a failed branch does not stop the other ones.
\<close>

fun scan_branches ::
  "('n, 'p, 's) xpub_env \<Rightarrow> int \<Rightarrow> 'n \<Rightarrow> string \<Rightarrow> nat \<Rightarrow> nat list \<Rightarrow> branch_cache redis \<Rightarrow>
   ScannedBranch result list \<times> branch_cache redis" where
  "scan_branches e now node xpub gapLimit [] s = ([], s)"
| "scan_branches e now node xpub gapLimit (b # bs) s =
     (let (r, s) = scan_branch_of e now node xpub b gapLimit s;
          (rs, s) = scan_branches e now node xpub gapLimit bs s
      in (r # rs, s))"

definition resolved_of :: "ScannedBranch list \<Rightarrow> ResolvedXpub" where
  "resolved_of branches =
     \<lparr>rx_addresses = concat (map sb_addresses branches), rx_addressIds = concat (map sb_addressIds branches),
      rx_nextUnused = foldl (\<lambda>m b. m(sb_branch b := sb_firstUnused b)) (\<lambda>_. None) branches\<rparr>"

definition scan_xpub ::
  "('n, 'p, 's) xpub_env \<Rightarrow> int \<Rightarrow> string \<Rightarrow> nat \<Rightarrow> branch_cache redis \<Rightarrow>
   ResolvedXpub result \<times> branch_cache redis" where
  "scan_xpub e now xpub gapLimit s =
     (case parse_xpub (xe_hd e) (xe_network e) xpub of
        Inl err \<Rightarrow> (Inl err, s)
      | Inr node \<Rightarrow>
          (let (rs, s) = scan_branches e now node xpub gapLimit XPUB_BRANCHES s in
           (bind_result (map_result id rs) (\<lambda>branches. Inr (resolved_of branches)), s)))"

section \<open>Endpoints\<close>

record xpub_request =
  xq_xpub :: string
  xq_gap_limit :: "nat option"
  xq_page :: "int option"
  xq_limit :: "int option"
  xq_cursor :: "string js"

definition resolve_request ::
  "('n, 'p, 's) xpub_env \<Rightarrow> int \<Rightarrow> xpub_request \<Rightarrow> branch_cache redis \<Rightarrow> ResolvedXpub result \<times> branch_cache redis" where
  "resolve_request e now q s = scan_xpub e now (xq_xpub q) (or_else (xq_gap_limit q) XPUB_DEFAULT_GAP_LIMIT) s"

definition summary_of :: "db \<Rightarrow> ResolvedXpub \<Rightarrow> XpubSummary" where
  "summary_of d resolved =
     XpubSummary_fromObject (getXpubSummary d (rx_addressIds resolved))
       (J (length (rx_addresses resolved))) (J (length (rx_addressIds resolved)))
       (J \<lparr>receive = rx_nextUnused resolved 0, change = rx_nextUnused resolved 1\<rparr>)"

definition xpub_handler ::
  "('n, 'p, 's) xpub_env \<Rightarrow> int \<Rightarrow> xpub_request \<Rightarrow> branch_cache redis \<Rightarrow> XpubSummary reply result \<times> branch_cache redis" where
  "xpub_handler e now q s =
     (let (resolved, s) = resolve_request e now q s in
      (bind_result resolved (\<lambda>r. Inr (Sent 200 (summary_of (xe_db e) r))), s))"

definition XpubAddress_fromObject :: "DerivedAddress \<Rightarrow> XpubAddress" where
  "XpubAddress_fromObject a = new_XpubAddress (J (da_address a)) (J (da_branch a)) (J (da_index a)) (J (da_used a))"

definition XpubAddress_fromObjects :: "DerivedAddress list \<Rightarrow> XpubAddress list" where
  "XpubAddress_fromObjects as = map XpubAddress_fromObject as"

definition addresses_page :: "int \<Rightarrow> int \<Rightarrow> ResolvedXpub \<Rightarrow> XpubAddress PaginatedResultSet" where
  "addresses_page page limit resolved =
     (let from = (page - 1) * limit in
      new_PaginatedResultSet (XpubAddress_fromObjects (js_slice (rx_addresses resolved) from (from + limit)))
        page (Fin (of_int limit)) (J (CNum (of_nat (length (rx_addresses resolved))))))"

definition xpub_addresses_handler ::
  "('n, 'p, 's) xpub_env \<Rightarrow> int \<Rightarrow> xpub_request \<Rightarrow> branch_cache redis \<Rightarrow>
   XpubAddress PaginatedResultSet reply result \<times> branch_cache redis" where
  "xpub_addresses_handler e now q s =
     (let (resolved, s) = resolve_request e now q s in
      (bind_result resolved (\<lambda>r. Inr (Sent 200 (addresses_page (or_else (xq_page q) 1) (or_else (xq_limit q) 100) r))), s))"

definition xpub_utxo_handler ::
  "('n, 'p, 's) xpub_env \<Rightarrow> int \<Rightarrow> xpub_request \<Rightarrow> branch_cache redis \<Rightarrow>
   Utxo PaginatedResultSet reply result \<times> branch_cache redis" where
  "xpub_utxo_handler e now q s =
     (let (resolved, s) = resolve_request e now q s in
      (bind_result resolved (\<lambda>r.
         map_sum id (Sent 200)
           (getXpubUtxo (xe_db e) (rx_addressIds r) (or_else (xq_page q) 1) (or_else (xq_limit q) 100))), s))"

text \<open>The request schema admits no negative limit.\<close>

definition xpub_transactions_handler ::
  "'t sdk \<Rightarrow> ('n, 'p, 's) xpub_env \<Rightarrow> int \<Rightarrow> xpub_request \<Rightarrow> branch_cache redis \<Rightarrow>
   't Transaction CursorResultSet reply result \<times> branch_cache redis" where
  "xpub_transactions_handler sdk e now q s =
     (let (resolved, s) = resolve_request e now q s in
      (bind_result resolved (\<lambda>r.
         map_sum id (Sent 200)
           (getXpubTransactions sdk (xe_network e) (xe_db e) (rx_addressIds r)
              (nat (or_else (xq_limit q) 25)) (xq_cursor q))), s))"

section \<open>What a scan of a key finds\<close>

text \<open>
  What the key library owes: the key is an extended public key of the network, and both branches
  derive; \<open>addr b i\<close> is the address at index \<open>i\<close> of branch \<open>b\<close>.
\<close>

definition derivable :: "('n, 'p, 's) xpub_env \<Rightarrow> string \<Rightarrow> (nat \<Rightarrow> nat \<Rightarrow> string) \<Rightarrow> bool" where
  "derivable e xpub addr \<longleftrightarrow>
     (\<exists>node. parse_xpub (xe_hd e) (xe_network e) xpub = Inr node \<and>
        (\<forall>b \<in> set XPUB_BRANCHES. \<exists>derive.
           brancher (xe_hd e) (xe_network e) (xe_depth e) node b = Inr derive \<and> derives derive (addr b)))"

lemma brancher_derives:
  assumes "hd_deriveChild k node b = Inr child" "hd_publicKey k child = Some pk" "hd_chainCode k child = Some cc"
    "point_fromBytes k pk = Inr point" "\<And>i. child_key k pk cc point (i mod 2 ^ 32) \<noteq> None"
  shows "\<exists>derive. brancher k net (Suc depth) node b = Inr derive \<and>
    derives derive (\<lambda>i. key_address k (the (child_key k pk cc point (i mod 2 ^ 32))) net)"
  using derive_range_derives [of "child_key k pk cc point" "\<lambda>key. key_address k key net" depth] assms(5)
  by (simp add: brancher_def assms(1-4))

definition branch_scanned :: "db \<Rightarrow> (nat \<Rightarrow> string) \<Rightarrow> nat \<Rightarrow> nat \<Rightarrow> ScannedBranch \<Rightarrow> bool" where
  "branch_scanned d addr gap b r \<longleftrightarrow>
     (\<exists>n. wallet_end (seen d addr) gap n \<and> r = collect_addresses b (map addr [0..<n]) (address_id d))"

definition sound_wallet_cache ::
  "('n, 'p, 's) xpub_env \<Rightarrow> string \<Rightarrow> (nat \<Rightarrow> nat \<Rightarrow> string) \<Rightarrow> int \<Rightarrow> branch_cache redis \<Rightarrow> bool" where
  "sound_wallet_cache e xpub addr now s \<longleftrightarrow>
     (\<forall>b \<in> set XPUB_BRANCHES.
        sound_cache (xe_db e) (addr b) (cacheKey (xe_hd e) (xe_network e) xpub b) now s)"

lemma cacheKey_branch [simp]: "cacheKey k net xpub b = cacheKey k net xpub b' \<longleftrightarrow> b = b'"
  by (simp add: cacheKey_def)

lemma scan_xpub_result:
  assumes "keyed (xe_db e)" "derivable e xpub addr" "sound_wallet_cache e xpub addr now s"
  obtains r0 r1 where
    "branch_scanned (xe_db e) (addr 0) gap 0 r0" "branch_scanned (xe_db e) (addr 1) gap 1 r1"
    "fst (scan_xpub e now xpub gap s) = Inr (resolved_of [r0, r1])"
proof -
  let ?key = "cacheKey (xe_hd e) (xe_network e) xpub"
  obtain node d0 d1 where node: "parse_xpub (xe_hd e) (xe_network e) xpub = Inr node"
    and d0: "brancher (xe_hd e) (xe_network e) (xe_depth e) node 0 = Inr d0" "derives d0 (addr 0)"
    and d1: "brancher (xe_hd e) (xe_network e) (xe_depth e) node 1 = Inr d1" "derives d1 (addr 1)"
    using assms(2) by (auto simp: derivable_def XPUB_BRANCHES_def)
  have sound: "sound_cache (xe_db e) (addr 0) (?key 0) now s" "sound_cache (xe_db e) (addr 1) (?key 1) now s"
    using assms(3) by (simp_all add: sound_wallet_cache_def XPUB_BRANCHES_def)
  obtain s1 where s1: "s1 = snd (scanBranch (xe_db e) d0 now (?key 0) 0 gap s)" by simp
  have sound1: "sound_cache (xe_db e) (addr 1) (?key 1) now s1"
    unfolding s1 by (subst sound_cache_other) (use sound(2) in simp_all)
  obtain n0 where n0: "wallet_end (seen (xe_db e) (addr 0)) gap n0"
    "fst (scanBranch (xe_db e) d0 now (?key 0) 0 gap s) =
       Inr (collect_addresses 0 (map (addr 0) [0..<n0]) (address_id (xe_db e)))"
    by (rule scan_result [OF assms(1) d0(2) sound(1), of gap 0]) blast
  obtain n1 where n1: "wallet_end (seen (xe_db e) (addr 1)) gap n1"
    "fst (scanBranch (xe_db e) d1 now (?key 1) 1 gap s1) =
       Inr (collect_addresses 1 (map (addr 1) [0..<n1]) (address_id (xe_db e)))"
    by (rule scan_result [OF assms(1) d1(2) sound1, of gap 1]) blast
  show ?thesis
  proof (rule that)
    show "branch_scanned (xe_db e) (addr 0) gap 0 (collect_addresses 0 (map (addr 0) [0..<n0]) (address_id (xe_db e)))"
      "branch_scanned (xe_db e) (addr 1) gap 1 (collect_addresses 1 (map (addr 1) [0..<n1]) (address_id (xe_db e)))"
      using n0(1) n1(1) by (auto simp: branch_scanned_def)
    show "fst (scan_xpub e now xpub gap s) = Inr (resolved_of
        [collect_addresses 0 (map (addr 0) [0..<n0]) (address_id (xe_db e)),
         collect_addresses 1 (map (addr 1) [0..<n1]) (address_id (xe_db e))])"
      using n0(2) n1(2)
      by (simp add: scan_xpub_def node XPUB_BRANCHES_def scan_branch_of_def d0(1) d1(1) [unfolded One_nat_def] Let_def case_prod_beta s1)
  qed
qed

lemma branch_scanned_simps:
  assumes "branch_scanned d addr gap b r"
  shows "sb_branch r = b"
    "sb_addressIds r = concat (map (\<lambda>a. case da_addressId a of None \<Rightarrow> [] | Some i \<Rightarrow> [i]) (sb_addresses r))"
    "length (sb_addressIds r) = length (filter da_used (sb_addresses r))"
    "a \<in> set (sb_addresses r) \<Longrightarrow> da_branch a = b \<and> da_address a = addr (da_index a) \<and>
       da_addressId a = address_id d (addr (da_index a)) \<and> (da_used a \<longleftrightarrow> seen d addr (da_index a))"
proof -
  obtain n where r: "r = collect_addresses b (map addr [0..<n]) (address_id d)"
    using assms by (auto simp: branch_scanned_def)
  show "sb_branch r = b" by (simp add: r collect_addresses_def)
  have list: "sb_addresses r = map (\<lambda>i. \<lparr>da_address = addr i, da_branch = b, da_index = i,
      da_used = (address_id d (addr i) \<noteq> None), da_addressId = address_id d (addr i)\<rparr>) [0..<n]"
    unfolding r collect_addresses_def by (auto intro: map_cong)
  have ids: "sb_addressIds r = concat (map (\<lambda>i. case address_id d (addr i) of None \<Rightarrow> [] | Some i \<Rightarrow> [i]) [0..<n])"
    by (simp add: r collect_addresses_def comp_def)
  show "sb_addressIds r = concat (map (\<lambda>a. case da_addressId a of None \<Rightarrow> [] | Some i \<Rightarrow> [i]) (sb_addresses r))"
    by (simp add: ids list comp_def)
  have "length (concat (map (\<lambda>i. case f i of None \<Rightarrow> [] | Some i \<Rightarrow> [i]) xs)) = length (filter (\<lambda>i. f i \<noteq> None) xs)"
    for f :: "nat \<Rightarrow> int option" and xs
    by (induction xs) (auto split: option.splits)
  from this [of "\<lambda>i. address_id d (addr i)" "[0..<n]"]
  show "length (sb_addressIds r) = length (filter da_used (sb_addresses r))"
    by (simp add: ids list filter_map comp_def)
  show "a \<in> set (sb_addresses r) \<Longrightarrow> da_branch a = b \<and> da_address a = addr (da_index a) \<and>
       da_addressId a = address_id d (addr (da_index a)) \<and> (da_used a \<longleftrightarrow> seen d addr (da_index a))"
    by (auto simp: list seen_def)
qed

text \<open>
  An extended public key resolves to its two branches, each up to the end of its wallet: the
  addresses of the receiving branch come first, then those of the change branch, and each carries its
  branch, its index and whether the database has seen it. Two runs with different sound caches
  resolve to the same wallet.
\<close>

theorem xpub_resolves_both_branches:
  assumes "keyed (xe_db e)" "derivable e xpub addr" "sound_wallet_cache e xpub addr now s"
  shows "\<exists>r0 r1. branch_scanned (xe_db e) (addr 0) gap 0 r0 \<and> branch_scanned (xe_db e) (addr 1) gap 1 r1 \<and>
    fst (scan_xpub e now xpub gap s) = Inr (resolved_of [r0, r1]) \<and>
    (\<forall>a \<in> set (rx_addresses (resolved_of [r0, r1])).
       da_address a = addr (da_branch a) (da_index a) \<and>
       (da_used a \<longleftrightarrow> address_id (xe_db e) (da_address a) \<noteq> None))"
proof (rule scan_xpub_result [OF assms, of gap])
  fix r0 r1
  assume r: "branch_scanned (xe_db e) (addr 0) gap 0 r0" "branch_scanned (xe_db e) (addr 1) gap 1 r1"
    "fst (scan_xpub e now xpub gap s) = Inr (resolved_of [r0, r1])"
  show ?thesis
    by (intro exI conjI, rule r(1), rule r(2), rule r(3))
       (auto simp: resolved_of_def seen_def dest: branch_scanned_simps(4) [OF r(1)] branch_scanned_simps(4) [OF r(2)])
qed

text \<open>The next address to hand out: unused, with none before it unused.\<close>

definition next_free :: "db \<Rightarrow> (nat \<Rightarrow> string) \<Rightarrow> nat option \<Rightarrow> bool" where
  "next_free d addr r \<longleftrightarrow>
     (case r of
        Some i \<Rightarrow> \<not> seen d addr i \<and> (\<forall>j < i. seen d addr j)
      | None \<Rightarrow> \<forall>j < XPUB_MAX_ADDRESSES_PER_BRANCH. seen d addr j)"

lemma branch_next_free:
  assumes "branch_scanned d addr gap b r" "0 < gap"
  shows "next_free d addr (sb_firstUnused r)"
proof -
  obtain n where n: "wallet_end (seen d addr) gap n" "r = collect_addresses b (map addr [0..<n]) (address_id d)"
    using assms(1) by (auto simp: branch_scanned_def)
  from first_unused [OF n(1) assms(2), of b] show ?thesis
    unfolding n(2) by (auto simp: next_free_def split: option.splits)
qed

lemma branch_counts:
  assumes "branch_scanned d addr gap b r"
  obtains n where "wallet_end (seen d addr) gap n" "length (sb_addresses r) = n"
    "length (sb_addressIds r) = length (filter (seen d addr) [0..<n])"
proof -
  obtain n where n: "wallet_end (seen d addr) gap n" "r = collect_addresses b (map addr [0..<n]) (address_id d)"
    using assms by (auto simp: branch_scanned_def)
  have "length (sb_addressIds r) = length (filter da_used (sb_addresses r))" by (rule branch_scanned_simps(3) [OF assms])
  also have "sb_addresses r = map (\<lambda>i. \<lparr>da_address = addr i, da_branch = b, da_index = i,
      da_used = (address_id d (addr i) \<noteq> None), da_addressId = address_id d (addr i)\<rparr>) [0..<n]"
    unfolding n(2) collect_addresses_def by (auto intro: map_cong)
  finally have "length (sb_addressIds r) = length (filter (seen d addr) [0..<n])"
    by (simp add: filter_map comp_def seen_def [abs_def])
  moreover have "length (sb_addresses r) = n" by (simp add: n(2) collect_addresses_def)
  ultimately show thesis using that n(1) by blast
qed

text \<open>
  C35: the summary of a wallet whose key derives, over a sound cache and with a gap of at least one. Each of the two
  branches is looked at up to the end of its wallet (a full gap of addresses without history, or the limit of a
  branch); the summary counts the addresses of both branches up to there and those of them that the
  database knows. It names the next address of each branch: one that no block of the database
  has ever used, though every address before it was used. It names none only if all addresses of
  the branch that a scan may look at are used.
\<close>

theorem xpub_next_address_unused:
  assumes "keyed (xe_db e)" "derivable e (xq_xpub q) addr" "sound_wallet_cache e (xq_xpub q) addr now s"
    "xq_gap_limit q \<noteq> Some 0"
  defines "gap \<equiv> or_else (xq_gap_limit q) XPUB_DEFAULT_GAP_LIMIT"
    and "used \<equiv> \<lambda>b. seen (xe_db e) (addr b)"
  shows "\<exists>x receiving changing n0 n1.
    fst (xpub_handler e now q s) = Inr (Sent 200 x) \<and>
    wallet_end (used 0) gap n0 \<and> wallet_end (used 1) gap n1 \<and>
    addressCount x = Some (n0 + n1) \<and>
    usedAddressCount x = Some (length (filter (used 0) [0..<n0]) + length (filter (used 1) [0..<n1])) \<and>
    nextUnused x = Some \<lparr>receive = receiving, change = changing\<rparr> \<and>
    next_free (xe_db e) (addr 0) receiving \<and> next_free (xe_db e) (addr 1) changing"
proof -
  have gap: "0 < gap" using assms(4) by (cases "xq_gap_limit q") (auto simp: gap_def XPUB_DEFAULT_GAP_LIMIT_def)
  obtain r0 r1 where r: "branch_scanned (xe_db e) (addr 0) gap 0 r0" "branch_scanned (xe_db e) (addr 1) gap 1 r1"
    "fst (scan_xpub e now (xq_xpub q) gap s) = Inr (resolved_of [r0, r1])"
    by (rule scan_xpub_result [OF assms(1-3), of gap])
  note b = branch_scanned_simps [OF r(1)] branch_scanned_simps [OF r(2)]
  obtain n0 where n0: "wallet_end (used 0) gap n0" "length (sb_addresses r0) = n0"
    "length (sb_addressIds r0) = length (filter (used 0) [0..<n0])"
    unfolding used_def by (rule branch_counts [OF r(1)])
  obtain n1 where n1: "wallet_end (used 1) gap n1" "length (sb_addresses r1) = n1"
    "length (sb_addressIds r1) = length (filter (used 1) [0..<n1])"
    unfolding used_def by (rule branch_counts [OF r(2)])
  let ?x = "summary_of (xe_db e) (resolved_of [r0, r1])"
  have "fst (xpub_handler e now q s) = Inr (Sent 200 ?x)"
    using r(3) by (simp add: xpub_handler_def resolve_request_def case_prod_beta Let_def flip: gap_def)
  moreover have "nextUnused ?x = Some \<lparr>receive = sb_firstUnused r0, change = sb_firstUnused r1\<rparr>"
    by (simp add: summary_of_def XpubSummary_fromObject_def new_XpubSummary_def resolved_of_def b(1,5))
  moreover have "addressCount ?x = Some (n0 + n1)"
    by (simp add: summary_of_def XpubSummary_fromObject_def new_XpubSummary_def resolved_of_def n0(2) n1(2))
  moreover have "usedAddressCount ?x = Some (length (filter (used 0) [0..<n0]) + length (filter (used 1) [0..<n1]))"
    by (simp add: summary_of_def XpubSummary_fromObject_def new_XpubSummary_def resolved_of_def n0(3) n1(3))
  ultimately show ?thesis
    using n0(1) n1(1) branch_next_free [OF r(1) gap] branch_next_free [OF r(2) gap] by (intro exI conjI)
qed

lemma branch_scanned_unique: "branch_scanned d addr gap b r \<Longrightarrow> branch_scanned d addr gap b r' \<Longrightarrow> r = r'"
  using wallet_end_unique by (fastforce simp: branch_scanned_def)

lemma addresses_page_of:
  "1 \<le> p \<Longrightarrow> resultSet (addresses_page (int p) (int l) r) = page_of p l (XpubAddress_fromObjects (rx_addresses r))"
proof -
  assume p: "1 \<le> p"
  have "(int p - 1) * int l + int l = int p * int l" by (simp add: algebra_simps)
  then show ?thesis
    using js_slice_page_of [OF p, of "rx_addresses r" l]
    by (simp add: addresses_page_def new_PaginatedResultSet_def Let_def XpubAddress_fromObjects_def page_of_def
        take_map drop_map)
qed

text \<open>
  The pages of the address list put together are the whole list, once and in order, whatever the
  cache held at each of the requests. A page reports the length of the whole list, but a page past
  the end reports -1.
\<close>

theorem xpub_addresses_all_pages:
  assumes "keyed (xe_db e)" "derivable e (xq_xpub q) addr"
    "\<And>p. sound_wallet_cache e (xq_xpub q) addr (clock p) (s p)"
  shows "\<exists>all pages.
    (\<forall>p \<ge> 1. fst (xpub_addresses_handler e (clock p) (q\<lparr>xq_page := Some (int p), xq_limit := Some (int l)\<rparr>) (s p)) = Inr (Sent 200 (pages p)) \<and>
       pg_total (pagination (pages p)) = Fin (if resultSet (pages p) = [] then -1 else of_nat (length all))) \<and>
    (\<forall>a \<in> set all. \<exists>b \<in> set XPUB_BRANCHES. \<exists>i. xa_address a = Some (addr b i) \<and> xa_branch a = Some b \<and>
       xa_index a = Some i \<and> xa_used a = Some (seen (xe_db e) (addr b) i)) \<and>
    (\<forall>n. length all \<le> n * l \<longrightarrow> concat (map (\<lambda>p. resultSet (pages p)) [1..<Suc n]) = all)"
proof -
  let ?gap = "or_else (xq_gap_limit q) XPUB_DEFAULT_GAP_LIMIT"
  obtain r0 r1 where r: "branch_scanned (xe_db e) (addr 0) ?gap 0 r0" "branch_scanned (xe_db e) (addr 1) ?gap 1 r1"
    by (rule scan_xpub_result [OF assms(1-3), of ?gap]) blast
  have found: "fst (scan_xpub e (clock p) (xq_xpub q) ?gap (s p)) = Inr (resolved_of [r0, r1])" for p
    by (rule scan_xpub_result [OF assms(1-3), of ?gap p]) (metis branch_scanned_unique r)
  note b = branch_scanned_simps [OF r(1)] branch_scanned_simps [OF r(2)]
  define all where "all = XpubAddress_fromObjects (rx_addresses (resolved_of [r0, r1]))"
  define pages where "pages p = addresses_page (int p) (int l) (resolved_of [r0, r1])" for p
  have reply: "fst (xpub_addresses_handler e (clock p) (q\<lparr>xq_page := Some (int p), xq_limit := Some (int l)\<rparr>) (s p)) = Inr (Sent 200 (pages p))" for p
    by (simp add: xpub_addresses_handler_def resolve_request_def found pages_def case_prod_beta Let_def)
  have totals: "pg_total (pagination (pages p)) = Fin (if resultSet (pages p) = [] then -1 else of_nat (length all))" for p
    by (simp add: pages_def addresses_page_def new_PaginatedResultSet_def all_def XpubAddress_fromObjects_def Let_def)
  have listed: "\<exists>b \<in> set XPUB_BRANCHES. \<exists>i. xa_address a = Some (addr b i) \<and> xa_branch a = Some b \<and>
       xa_index a = Some i \<and> xa_used a = Some (seen (xe_db e) (addr b) i)" if a: "a \<in> set all" for a
  proof -
    from a obtain x where x: "x \<in> set (sb_addresses r0) \<or> x \<in> set (sb_addresses r1)" "a = XpubAddress_fromObject x"
      by (auto simp: all_def XpubAddress_fromObjects_def resolved_of_def)
    then have "da_branch x \<in> set XPUB_BRANCHES" "da_address x = addr (da_branch x) (da_index x)"
      "da_used x \<longleftrightarrow> seen (xe_db e) (addr (da_branch x)) (da_index x)"
      using b(4,8) by (auto simp: XPUB_BRANCHES_def)
    then show ?thesis
      by (intro bexI [of _ "da_branch x"] exI [of _ "da_index x"])
         (simp_all add: x(2) XpubAddress_fromObject_def new_XpubAddress_def)
  qed
  have pages: "map (\<lambda>p. resultSet (pages p)) [1..<Suc n] = map (\<lambda>p. page_of p l all) [1..<Suc n]" for n
    by (rule map_cong [OF refl]) (simp add: pages_def all_def addresses_page_of del: upt_Suc)
  have "concat (map (\<lambda>p. resultSet (pages p)) [1..<Suc n]) = all" if "length all \<le> n * l" for n
    unfolding pages by (rule concat_all_pages [OF that])
  with reply totals listed show ?thesis by (intro exI [of _ all] exI [of _ pages]) blast
qed

text \<open>
  A text that is no extended public key of the network, and an extended private key, are refused
  with status 400 by all four endpoints, and nothing of them reaches the cache.
\<close>

theorem bad_key_refused:
  assumes "(\<exists>m. hd_fromExtendedKey (xe_hd e) (js_trim (xq_xpub q)) (XPUB_VERSIONS (xe_network e)) = Inl m) \<or>
    (\<exists>node. hd_fromExtendedKey (xe_hd e) (js_trim (xq_xpub q)) (XPUB_VERSIONS (xe_network e)) = Inr node \<and>
       hd_privateKey (xe_hd e) node \<noteq> None)"
  shows "\<exists>message.
    (respond (fst (xpub_handler e now q s)), snd (xpub_handler e now q s)) = (Refused 400 message, s) \<and>
    (respond (fst (xpub_addresses_handler e now q s)), snd (xpub_addresses_handler e now q s)) = (Refused 400 message, s) \<and>
    (respond (fst (xpub_utxo_handler e now q s)), snd (xpub_utxo_handler e now q s)) = (Refused 400 message, s) \<and>
    (respond (fst (xpub_transactions_handler sdk e now q s)), snd (xpub_transactions_handler sdk e now q s)) =
      (Refused 400 message, s)"
proof -
  obtain message where "parse_xpub (xe_hd e) (xe_network e) (xq_xpub q) = Inl (InvalidXpub message)"
    using assms by (auto simp: parse_xpub_def)
  then have "resolve_request e now q s = (Inl (InvalidXpub message), s)"
    by (simp add: resolve_request_def scan_xpub_def)
  then show ?thesis
    by (intro exI [of _ message])
       (simp add: xpub_handler_def xpub_addresses_handler_def xpub_utxo_handler_def xpub_transactions_handler_def
          respond_def)
qed

section \<open>The cache of a wallet\<close>

lemma scan_branch_keeps:
  assumes "keyed (xe_db e)" "brancher (xe_hd e) (xe_network e) (xe_depth e) node b = Inr derive"
    "derives derive (addr b)" "b \<in> set XPUB_BRANCHES" "now \<le> t"
    "sound_wallet_cache e xpub addr now s" "sound_wallet_cache e xpub addr t s"
  shows "sound_wallet_cache e xpub addr t (snd (scan_branch_of e now node xpub b gap s))"
  unfolding sound_wallet_cache_def
proof
  fix b' assume b': "b' \<in> set XPUB_BRANCHES"
  let ?key = "cacheKey (xe_hd e) (xe_network e) xpub"
  have sound: "sound_cache (xe_db e) (addr b') (?key b') now s" "sound_cache (xe_db e) (addr b') (?key b') t s"
    using assms(6,7) b' by (auto simp: sound_wallet_cache_def)
  have step: "snd (scan_branch_of e now node xpub b gap s) = snd (scanBranch (xe_db e) derive now (?key b) b gap s)"
    by (simp add: scan_branch_of_def assms(2))
  show "sound_cache (xe_db e) (addr b') (?key b') t (snd (scan_branch_of e now node xpub b gap s))"
  proof (cases "b = b'")
    case True
    with scanBranch_keeps_cache [OF assms(1,3) _ assms(5), of "?key b" s "xe_db e" b gap] sound(1)
    show ?thesis unfolding step by simp
  next
    case False
    with sound show ?thesis unfolding step by (subst sound_cache_other) auto
  qed
qed

lemma scan_branches_keep:
  assumes "keyed (xe_db e)" "now \<le> t" "set bs \<subseteq> set XPUB_BRANCHES"
    "\<forall>b \<in> set XPUB_BRANCHES. \<exists>derive. brancher (xe_hd e) (xe_network e) (xe_depth e) node b = Inr derive \<and> derives derive (addr b)"
    "sound_wallet_cache e xpub addr now s" "sound_wallet_cache e xpub addr t s"
  shows "sound_wallet_cache e xpub addr t (snd (scan_branches e now node xpub gap bs s))"
  using assms(3,5,6)
proof (induction bs arbitrary: s)
  case (Cons b bs)
  then obtain derive where d: "brancher (xe_hd e) (xe_network e) (xe_depth e) node b = Inr derive" "derives derive (addr b)"
    using assms(4) by auto
  have b: "b \<in> set XPUB_BRANCHES" using Cons.prems(1) by simp
  have "sound_wallet_cache e xpub addr now (snd (scan_branch_of e now node xpub b gap s))"
    "sound_wallet_cache e xpub addr t (snd (scan_branch_of e now node xpub b gap s))"
    using scan_branch_keeps [OF assms(1) d b _ Cons.prems(2)] Cons.prems(2,3) assms(2) by auto
  with Cons.IH Cons.prems(1) show ?case by (simp add: case_prod_beta Let_def)
qed simp

text \<open>
  Whatever key is scanned with whatever gap, the cached branches of a wallet stay sound: at any
  later time an entry is gone or holds a prefix of its branch with ids of the database. So every scan
  in a sequence of requests finds the hypothesis that the scans need.
\<close>

theorem wallet_cache_stays_sound:
  assumes "keyed (xe_db e)" "derivable e xpub addr" "now \<le> t"
    "\<And>u. now \<le> u \<Longrightarrow> sound_wallet_cache e xpub addr u s"
  shows "sound_wallet_cache e xpub addr t (snd (scan_xpub e now xpub gap s))"
proof -
  obtain node where node: "parse_xpub (xe_hd e) (xe_network e) xpub = Inr node"
    "\<forall>b \<in> set XPUB_BRANCHES. \<exists>derive. brancher (xe_hd e) (xe_network e) (xe_depth e) node b = Inr derive \<and> derives derive (addr b)"
    using assms(2) by (auto simp: derivable_def)
  have "sound_wallet_cache e xpub addr t (snd (scan_branches e now node xpub gap XPUB_BRANCHES s))"
    by (rule scan_branches_keep [OF assms(1,3) _ node(2)]) (simp_all add: assms(3,4))
  then show ?thesis by (simp add: scan_xpub_def node(1) case_prod_beta Let_def)
qed

text \<open>
  Wallets are apart: a scan of one key changes nothing that is cached for a key with another digest.
\<close>

theorem wallets_do_not_share_cache:
  assumes "digest (xe_hd e) (xe_network e) xpub \<noteq> digest (xe_hd e) (xe_network e) xpub'"
    "b' \<in> set XPUB_BRANCHES"
  shows "fst (cache_get t (cacheKey (xe_hd e) (xe_network e) xpub' b') (snd (scan_xpub e now xpub gap s))) =
    fst (cache_get t (cacheKey (xe_hd e) (xe_network e) xpub' b') s)"
proof -
  let ?get = "\<lambda>s. fst (cache_get t (cacheKey (xe_hd e) (xe_network e) xpub' b') s)"
  have apart: "cacheKey (xe_hd e) (xe_network e) xpub b \<noteq> cacheKey (xe_hd e) (xe_network e) xpub' b'"
    if "b \<in> set XPUB_BRANCHES" for b
  proof -
    have "length (dec_nat 0) = length (dec_nat (Suc 0))"
      by (simp add: dec_nat.simps [of 0] dec_nat.simps [of "Suc 0"])
    then have "length (dec_nat b) = length (dec_nat b')"
      using that assms(2) by (auto simp: XPUB_BRANCHES_def)
    with assms(1) show ?thesis by (auto simp: cacheKey_def append_eq_append_conv)
  qed
  have "?get (snd (scan_branches e now node xpub gap bs s)) = ?get s" if "set bs \<subseteq> set XPUB_BRANCHES" for bs node s
    using that
  proof (induction bs arbitrary: s)
    case (Cons b bs)
    have "?get (snd (scan_branch_of e now node xpub b gap s)) = ?get s"
      using apart [of b] Cons.prems by (simp add: scan_branch_of_def scanBranch_other Let_def split: sum.splits)
    with Cons show ?case by (simp add: case_prod_beta Let_def)
  qed simp
  then show ?thesis by (simp add: scan_xpub_def case_prod_beta Let_def split: sum.splits)
qed

section \<open>Sample keys\<close>

text \<open>
  A key library in which the node is the text of the key, its chain code tells the branches apart,
  and the address of a key is read off its bytes.
\<close>

definition sample_hd :: "(string, octets, octets) hd_env" where
  "sample_hd =
     \<lparr>hd_fromExtendedKey = (\<lambda>text v. if text = ''bad'' then Inl ''Version mismatch'' else Inr text),
      hd_privateKey = (\<lambda>n. if n = ''xprv'' then Some [1] else None),
      hd_deriveChild = (\<lambda>n b. Inr (if b = 0 then n else [])),
      hd_publicKey = (\<lambda>n. Some [2]),
      hd_chainCode = (\<lambda>n. Some (if n = [] then [1] else [0])),
      hmac_sha512 = (\<lambda>code msg. code @ drop 1 msg),
      point_fromBytes = (\<lambda>b. Inr b), scalar_fromBytes = (\<lambda>b. Some b), is_zero = (\<lambda>_. False),
      base_multiply = (\<lambda>s. s), point_add = (\<lambda>p q. q), is_infinity = (\<lambda>_. False), point_toBytes = (\<lambda>p. p),
      key_address = (\<lambda>b net. if b = [0, 0, 0, 0, 1] then ''X7'' else ''Y''),
      sha256_hex = (\<lambda>s. s)\<rparr>"

definition sample_xpub_env :: "(string, octets, octets) xpub_env" where
  "sample_xpub_env = \<lparr>xe_hd = sample_hd, xe_network = Testnet, xe_depth = 1, xe_db = sample_wallet_db\<rparr>"

definition sample_branch :: "nat \<Rightarrow> nat \<Rightarrow> string" where
  "sample_branch b i = (if b = 0 \<and> ser32 i = [0, 0, 0, 1] then ''X7'' else ''Y'')"

lemma sample_derivable: "derivable sample_xpub_env ''xpub'' sample_branch"
proof -
  have addr: "(\<lambda>i. key_address sample_hd (the (child_key sample_hd [2] [c] [2] (i mod 2 ^ 32))) Testnet) = sample_branch b"
    if "(c = 0 \<and> b = 0) \<or> (c = 1 \<and> b = 1)" for c b
  proof
    fix i :: nat
    have "(of_nat (i mod 2 ^ 32) :: 32 word) = of_nat i"
      by (simp add: word_of_nat_eq_iff take_bit_eq_mod)
    then have "ser32 (i mod 2 ^ 32) = ser32 i" by (simp add: ser32_def)
    then show "key_address sample_hd (the (child_key sample_hd [2] [c] [2] (i mod 2 ^ 32))) Testnet = sample_branch b i"
      using that by (auto simp: child_key_def sample_hd_def sample_branch_def ser32_def)
  qed
  have parse: "parse_xpub sample_hd Testnet ''xpub'' = Inr ''xpub''"
    by (simp add: parse_xpub_def sample_hd_def js_trim_def is_space_def)
  have "\<exists>derive. brancher sample_hd Testnet (Suc 0) ''xpub'' b = Inr derive \<and> derives derive (sample_branch b)"
    if "b \<in> set XPUB_BRANCHES" for b
  proof -
    define c :: "8 word" where "c = (if b = 0 then 0 else 1)"
    have b: "(c = 0 \<and> b = 0) \<or> (c = 1 \<and> b = 1)" using that by (auto simp: XPUB_BRANCHES_def c_def)
    show ?thesis
      unfolding addr [OF b, symmetric]
      by (rule brancher_derives [where child = "if b = 0 then ''xpub'' else []"])
         (use b in \<open>auto simp: sample_hd_def child_key_def c_def\<close>)
  qed
  with parse show ?thesis by (simp add: derivable_def sample_xpub_env_def)
qed

lemma sample_sound: "sound_wallet_cache e xpub addr now (\<lambda>_. None)"
  by (simp add: sound_wallet_cache_def sound_cache_empty)

lemma sample_xpub_keyed: "keyed (xe_db sample_xpub_env)"
  by (simp add: sample_xpub_env_def sample_keyed)

definition sample_xpub_request :: xpub_request where
  "sample_xpub_request =
     \<lparr>xq_xpub = ''xpub'', xq_gap_limit = Some 2, xq_page = None, xq_limit = None, xq_cursor = JUndef\<rparr>"

lemma sample_branch_seen:
  "seen sample_wallet_db (sample_branch 0) = (\<lambda>i. ser32 i = [0, 0, 0, 1])"
  "seen sample_wallet_db (sample_branch (Suc 0)) = (\<lambda>i. False)"
  by (simp_all add: fun_eq_iff seen_def sample_address_id sample_branch_def)

theorem xpub_resolves_both_branches_witness:
  "\<exists>r0 r1. branch_scanned sample_wallet_db (sample_branch 0) 2 0 r0 \<and>
     fst (scan_xpub sample_xpub_env 0 ''xpub'' 2 (\<lambda>_. None)) = Inr (resolved_of [r0, r1])"
  using xpub_resolves_both_branches [OF sample_xpub_keyed sample_derivable sample_sound, of 2 0]
  by (auto simp: sample_xpub_env_def)

text \<open>The receiving branch has its first address free, and so has the change branch.\<close>

theorem xpub_next_address_unused_witness:
  "\<exists>x i. fst (xpub_handler sample_xpub_env 0 sample_xpub_request (\<lambda>_. None)) = Inr (Sent 200 x) \<and>
     nextUnused x = Some \<lparr>receive = Some 0, change = i\<rparr>"
proof -
  have request: "derivable sample_xpub_env (xq_xpub sample_xpub_request) sample_branch"
    by (simp add: sample_derivable sample_xpub_request_def)
  have free: "next_free (xe_db sample_xpub_env) (sample_branch 0) r \<Longrightarrow> r = Some 0" for r
  proof -
    have not: "\<not> seen sample_wallet_db (sample_branch 0) 0" by (simp add: sample_branch_seen ser32_def)
    show "next_free (xe_db sample_xpub_env) (sample_branch 0) r \<Longrightarrow> r = Some 0"
      using not by (cases r; cases "the r = 0")
        (auto simp: next_free_def sample_xpub_env_def XPUB_MAX_ADDRESSES_PER_BRANCH_def)
  qed
  show ?thesis
    using xpub_next_address_unused [OF sample_xpub_keyed request sample_sound, of 0] free
    by (fastforce simp: sample_xpub_request_def)
qed

theorem xpub_addresses_all_pages_witness:
  "\<exists>pages :: nat \<Rightarrow> XpubAddress PaginatedResultSet. \<forall>p \<ge> 1.
     fst (xpub_addresses_handler sample_xpub_env 0
       (sample_xpub_request\<lparr>xq_page := Some (int p), xq_limit := Some (int 3)\<rparr>) (\<lambda>_. None)) = Inr (Sent 200 (pages p))"
proof -
  have request: "derivable sample_xpub_env (xq_xpub sample_xpub_request) sample_branch"
    by (simp add: sample_derivable sample_xpub_request_def)
  show ?thesis
    using xpub_addresses_all_pages [OF sample_xpub_keyed request sample_sound, of "\<lambda>_. 0" 3] by blast
qed

theorem bad_key_refused_witness:
  "\<exists>message. respond (fst (xpub_handler sample_xpub_env 0 (sample_xpub_request\<lparr>xq_xpub := ''xprv''\<rparr>) (\<lambda>_. None))) =
     Refused 400 message"
proof -
  have "hd_fromExtendedKey sample_hd (js_trim ''xprv'') (XPUB_VERSIONS Testnet) = Inr ''xprv'' \<and>
      hd_privateKey sample_hd ''xprv'' \<noteq> None"
    by (simp add: sample_hd_def js_trim_def is_space_def)
  with bad_key_refused [of sample_xpub_env "sample_xpub_request\<lparr>xq_xpub := ''xprv''\<rparr>" 0 "\<lambda>_. None" sample_sdk]
  show ?thesis by (auto simp: sample_xpub_env_def)
qed

theorem wallet_cache_stays_sound_witness:
  "sound_wallet_cache sample_xpub_env ''xpub'' sample_branch 1000 (snd (scan_xpub sample_xpub_env 0 ''xpub'' 2 (\<lambda>_. None)))"
  by (rule wallet_cache_stays_sound [OF sample_xpub_keyed sample_derivable]) (simp_all add: sample_sound)

theorem wallets_do_not_share_cache_witness:
  "fst (cache_get 5 (cacheKey sample_hd Testnet ''other'' 1)
     (snd (scan_xpub sample_xpub_env 0 ''xpub'' 2
        (cache_set 0 (cacheKey sample_hd Testnet ''other'' 1) \<lparr>bc_derived = [], bc_ids = []\<rparr> None (\<lambda>_. None))))) =
   Some \<lparr>bc_derived = [], bc_ids = []\<rparr>"
proof -
  have env: "xe_hd sample_xpub_env = sample_hd" "xe_network sample_xpub_env = Testnet"
    by (simp_all add: sample_xpub_env_def)
  have "digest (xe_hd sample_xpub_env) (xe_network sample_xpub_env) ''xpub'' \<noteq>
      digest (xe_hd sample_xpub_env) (xe_network sample_xpub_env) ''other''"
    by (simp add: digest_def env sample_hd_def)
  from wallets_do_not_share_cache [OF this, of 1 5 0 2] show ?thesis
    unfolding env by (simp add: XPUB_BRANCHES_def redis_cache.get_put lives_def)
qed

end
