(* ===== verification/Search.thy ===== *)
theory Search
  imports TransactionListings Addresses
begin

text \<open>
  \<open>api/src/dao/SearchDAO.ts\<close> and \<open>api/src/controllers/SearchController.ts\<close>: one text box for heights,
  hashes and addresses. The shape of the text decides which tables are asked.
\<close>

section \<open>The shapes of a query\<close>

text \<open>The three regular expressions, anchored at both ends.\<close>

definition is_integer_text :: "string \<Rightarrow> bool" where
  "is_integer_text s \<longleftrightarrow> s \<noteq> [] \<and> list_all is_digit s"

definition is_hex_char :: "char \<Rightarrow> bool" where
  "is_hex_char c \<longleftrightarrow> (let n = of_char c :: nat in (48 \<le> n \<and> n \<le> 57) \<or> (97 \<le> n \<and> n \<le> 102) \<or> (65 \<le> n \<and> n \<le> 70))"

definition is_hex64 :: "string \<Rightarrow> bool" where
  "is_hex64 s \<longleftrightarrow> length s = 64 \<and> list_all is_hex_char s"

text \<open>\<open>[1-9A-HJ-NP-Za-km-z]\<close>.\<close>

definition is_base58_char :: "char \<Rightarrow> bool" where
  "is_base58_char c \<longleftrightarrow>
     (let n = of_char c :: nat in
      (49 \<le> n \<and> n \<le> 57) \<or> (65 \<le> n \<and> n \<le> 72) \<or> (74 \<le> n \<and> n \<le> 78) \<or> (80 \<le> n \<and> n \<le> 90) \<or>
      (97 \<le> n \<and> n \<le> 107) \<or> (109 \<le> n \<and> n \<le> 122))"

fun address_prefixes :: "network \<Rightarrow> string" where
  "address_prefixes Mainnet = ''X7''"
| "address_prefixes Testnet = ''y8''"

definition is_address_text :: "network \<Rightarrow> string \<Rightarrow> bool" where
  "is_address_text net s \<longleftrightarrow>
     (case s of
        [] \<Rightarrow> False
      | c # rest \<Rightarrow> c \<in> set (address_prefixes net) \<and> 25 \<le> length rest \<and> length rest \<le> 33 \<and> list_all is_base58_char rest)"

section \<open>Lookups\<close>

record 'p SearchResult =
  sr_block :: "Block option"
  sr_transaction :: "'p Transaction option"
  sr_masternode :: "Masternode option"
  sr_address :: "Address option"

definition nothing_found :: "'p SearchResult" where
  "nothing_found = \<lparr>sr_block = None, sr_transaction = None, sr_masternode = None, sr_address = None\<rparr>"

definition search_block_columns :: "block_row \<Rightarrow> BlockRow" where
  "search_block_columns b =
     \<lparr>br_height = J (b_height b), br_hash = js_of_option (b_hash b), br_version = J (b_version b),
      br_timestamp = J (Some (b_timestamp b)), br_tx_count = J (b_tx_count b), br_size = J (b_size b),
      br_credit_pool_balance = JUndef, br_difficulty = J (b_difficulty b), br_merkle_root = JUndef,
      br_previous_block_hash = js_of_option (b_previous_block_hash b),
      br_nonce = js_of_option (map_option (\<lambda>n. bigint (int n)) (b_nonce b)), br_confirmations = JUndef,
      br_superblock = JUndef\<rparr>"

definition search_block_by_hash :: "db \<Rightarrow> string \<Rightarrow> Block option" where
  "search_block_by_hash d hash =
     map_option (\<lambda>b. Block_fromRow (search_block_columns b)) (find (\<lambda>b. b_hash b = Some hash) (db_blocks d))"

text \<open>The column is an \<open>INT\<close>; the server refuses a number it cannot hold.\<close>

definition max_int4 :: nat where "max_int4 = 2147483647"

definition search_block_by_height :: "db \<Rightarrow> nat \<Rightarrow> Block option result" where
  "search_block_by_height d height =
     (if height \<le> max_int4
      then Inr (map_option (\<lambda>b. Block_fromRow (search_block_columns b)) (block_at d (int height)))
      else Inl QueryFailure)"

definition search_tx_columns :: "db \<Rightarrow> tx_row \<Rightarrow> TransactionRow" where
  "search_tx_columns d t =
     (let block = Option.bind (t_block_height t) (block_at d) in
      \<lparr>trr_hash = J (t_hash t), trr_type = J (t_type t), trr_block_height = js_of_option (map_option b_height block),
       trr_block_hash = js_of_option (Option.bind block b_hash),
       trr_timestamp = js_of_option (map_option (\<lambda>b. Some (b_timestamp b)) block),
       trr_confirmations = JUndef, trr_instant_lock = JUndef, trr_chain_locked = JUndef,
       trr_version = js_of_option (t_version t), trr_size = js_of_option (t_size t),
       trr_inputs = JUndef, trr_outputs = JUndef, trr_amount = js_of_option (map_option dec_int (t_amount t)),
       trr_coinjoin = J (t_coinjoin t), trr_multisig = JUndef, trr_extra_payload = JUndef\<rparr>)"

definition search_transaction :: "'p sdk \<Rightarrow> network \<Rightarrow> db \<Rightarrow> string \<Rightarrow> 'p Transaction option result" where
  "search_transaction sdk net d hash =
     (case find (\<lambda>t. t_hash t = hash) (db_transactions d) of
        None \<Rightarrow> Inr None
      | Some t \<Rightarrow> map_sum id Some (Transaction_fromRow sdk net (search_tx_columns d t)))"

definition search_masternode :: "db \<Rightarrow> string \<Rightarrow> Masternode option" where
  "search_masternode d hash =
     map_option Masternode_fromRow (find (\<lambda>m. mr_pro_tx_hash m = J hash) (db_masternodes d))"

definition search_address :: "db \<Rightarrow> string \<Rightarrow> Address option" where
  "search_address d address =
     map_option (\<lambda>a. Address_fromRow
       \<lparr>ar_address = J (a_address a), ar_first_seen_block = block_hash_of d (a_first_seen_block a),
        ar_first_seen_block_timestamp = JUndef, ar_first_seen_tx = tx_hash_of d (a_first_seen_tx_id a),
        ar_last_seen_block = block_hash_of d (a_last_seen_block a),
        ar_last_seen_block_timestamp = JUndef, ar_last_seen_tx = tx_hash_of d (a_last_seen_tx_id a),
        ar_tx_count = JUndef, ar_received = JUndef, ar_sent = JUndef\<rparr>)
       (find (\<lambda>a. a_address a = address) (db_addresses d))"

definition search :: "'p sdk \<Rightarrow> network \<Rightarrow> db \<Rightarrow> string \<Rightarrow> 'p SearchResult result" where
  "search sdk net d query =
     (let trimmed = js_trim query in
      if is_integer_text trimmed then
        bind_result (search_block_by_height d (digits_val trimmed)) (\<lambda>block. Inr (nothing_found\<lparr>sr_block := block\<rparr>))
      else if is_hex64 trimmed then
        bind_result (search_transaction sdk net d trimmed) (\<lambda>transaction.
          Inr (nothing_found\<lparr>sr_block := search_block_by_hash d trimmed, sr_transaction := transaction,
                             sr_masternode := search_masternode d trimmed\<rparr>))
      else if is_address_text net trimmed then
        Inr (nothing_found\<lparr>sr_address := search_address d trimmed\<rparr>)
      else Inr nothing_found)"

definition search_handler :: "'p sdk \<Rightarrow> network \<Rightarrow> db \<Rightarrow> string \<Rightarrow> 'p SearchResult reply result" where
  "search_handler sdk net d query = map_sum id (Sent 200) (search sdk net d query)"

section \<open>What a search finds\<close>

text \<open>A search reads no script and no payload, so no transaction of the table can break it.\<close>

lemma search_transaction_ok:
  "\<exists>tx. Transaction_fromRow sdk net (search_tx_columns d t) = Inr tx \<and> tr_hash tx = Some (t_hash t)"
proof -
  have "\<exists>tx. Transaction_fromRow sdk net (search_tx_columns d t) = Inr tx"
    by (simp add: Transaction_fromRow_def search_tx_columns_def Let_def)
  then show ?thesis using Transaction_fromRow_keys by (fastforce simp: search_tx_columns_def Let_def)
qed

text \<open>Spaces around a text do not count.\<close>

lemma js_trim_around:
  assumes "list_all is_space pre" "list_all is_space post" "\<forall>c \<in> set s. \<not> is_space c" "s \<noteq> []"
  shows "js_trim (pre @ s @ post) = s"
proof -
  have "dropWhile is_space (pre @ s @ post) = s @ post"
    using assms by (cases s) (auto simp: dropWhile_append list_all_iff)
  moreover have "dropWhile is_space (rev (s @ post)) = rev s"
    using assms by (cases s rule: rev_cases) (auto simp: dropWhile_append list_all_iff)
  ultimately show ?thesis by (simp add: js_trim_def)
qed

lemma find_by_key: "find (\<lambda>x. f x = k) xs = None \<longleftrightarrow> k \<notin> f ` set xs"
  by (induction xs) auto

lemma find_by_keyD: "find (\<lambda>x. f x = k) xs = Some x \<Longrightarrow> f x = k"
  using find_SomeD by fastforce

text \<open>
  The number of any block finds this block, whatever spaces stand around it; a number that the height
  column cannot hold makes the request fail with status 500, although a height that is merely not
  there yet is answered with nothing found.
\<close>

theorem search_by_height:
  assumes "distinct (map b_height (db_blocks d))" "list_all is_space pre" "list_all is_space post"
  shows "if h \<le> max_int4
    then \<exists>r. search_handler sdk net d (pre @ dec_nat h @ post) = Inr (Sent 200 r) \<and>
      (\<forall>b \<in> set (db_blocks d). b_height b = int h \<longrightarrow> sr_block r = Some (Block_fromRow (search_block_columns b))) \<and>
      (int h \<notin> b_height ` set (db_blocks d) \<longrightarrow> r = nothing_found)
    else respond (search_handler sdk net d (pre @ dec_nat h @ post)) = Refused 500 ''QueryError''"
proof -
  note digits = all_digits_dec_nat [of h]
  have "\<forall>c \<in> set (dec_nat h). \<not> is_space c" using digits digit_not_space by blast
  then have trim: "js_trim (pre @ dec_nat h @ post) = dec_nat h"
    by (rule js_trim_around [OF assms(2,3) _ dec_nat_nonempty])
  have shape: "is_integer_text (dec_nat h)" using digits by (simp add: is_integer_text_def list_all_iff)
  have hit: "block_at d (int h) = Some b" if "b \<in> set (db_blocks d)" "b_height b = int h" for b
    using find_key [OF assms(1) that(1)] that(2) by (simp add: block_at_def)
  have miss: "block_at d (int h) = None" if "int h \<notin> b_height ` set (db_blocks d)"
    using that unfolding block_at_def find_None_iff by (metis image_eqI)
  have "search_handler sdk net d (pre @ dec_nat h @ post) =
      (if h \<le> max_int4
       then Inr (Sent 200 (nothing_found\<lparr>sr_block :=
              map_option (\<lambda>b. Block_fromRow (search_block_columns b)) (block_at d (int h))\<rparr>))
       else Inl QueryFailure)"
    by (simp add: search_handler_def search_def trim shape search_block_by_height_def Let_def)
  then show ?thesis
    using hit miss by (auto simp: respond_def nothing_found_def)
qed

lemma search_finds:
  assumes "\<not> is_integer_text (js_trim query)"
  shows "\<exists>r. search sdk net d query = Inr r \<and>
    (sr_transaction r \<noteq> None \<longleftrightarrow> is_hex64 (js_trim query) \<and> js_trim query \<in> t_hash ` set (db_transactions d)) \<and>
    (\<forall>tx. sr_transaction r = Some tx \<longrightarrow> tr_hash tx = Some (js_trim query)) \<and>
    (sr_block r \<noteq> None \<longleftrightarrow> is_hex64 (js_trim query) \<and> Some (js_trim query) \<in> b_hash ` set (db_blocks d)) \<and>
    (\<forall>b. sr_block r = Some b \<longrightarrow> bk_hash b = Some (js_trim query)) \<and>
    (sr_masternode r \<noteq> None \<longleftrightarrow>
       is_hex64 (js_trim query) \<and> J (js_trim query) \<in> mr_pro_tx_hash ` set (db_masternodes d)) \<and>
    (\<forall>m. sr_masternode r = Some m \<longrightarrow> proTxHash m = Some (js_trim query)) \<and>
    (sr_address r \<noteq> None \<longleftrightarrow> \<not> is_hex64 (js_trim query) \<and> is_address_text net (js_trim query) \<and>
       js_trim query \<in> a_address ` set (db_addresses d)) \<and>
    (\<forall>a. sr_address r = Some a \<longrightarrow> ad_address a = Some (js_trim query))"
proof -
  let ?q = "js_trim query"
  obtain tx where tx: "search_transaction sdk net d ?q = Inr tx"
    "tx \<noteq> None \<longleftrightarrow> ?q \<in> t_hash ` set (db_transactions d)" "\<forall>t. tx = Some t \<longrightarrow> tr_hash t = Some ?q"
  proof (cases "find (\<lambda>t. t_hash t = ?q) (db_transactions d)")
    case None
    then have "?q \<notin> t_hash ` set (db_transactions d)" by (auto simp: find_None_iff)
    with None show ?thesis using that [of None] by (simp add: search_transaction_def)
  next
    case (Some t)
    obtain x where x: "Transaction_fromRow sdk net (search_tx_columns d t) = Inr x" "tr_hash x = Some (t_hash t)"
      using search_transaction_ok by blast
    from find_SomeD [OF Some] have t: "t \<in> set (db_transactions d)" "t_hash t = ?q" by auto
    then have "?q \<in> t_hash ` set (db_transactions d)" by (metis image_eqI)
    with x t Some show ?thesis using that [of "Some x"] by (simp add: search_transaction_def)
  qed
  have block: "search_block_by_hash d ?q \<noteq> None \<longleftrightarrow> Some ?q \<in> b_hash ` set (db_blocks d)"
    "\<forall>b. search_block_by_hash d ?q = Some b \<longrightarrow> bk_hash b = Some ?q"
    by (auto simp: search_block_by_hash_def find_by_key Block_fromRow_def new_Block_def search_block_columns_def
        dest: find_by_keyD)
  have masternode: "search_masternode d ?q \<noteq> None \<longleftrightarrow> J ?q \<in> mr_pro_tx_hash ` set (db_masternodes d)"
    "\<forall>m. search_masternode d ?q = Some m \<longrightarrow> proTxHash m = Some ?q"
    by (auto simp: search_masternode_def find_by_key Masternode_fromRow_def new_Masternode_def Let_def
        dest: find_by_keyD)
  have address: "search_address d ?q \<noteq> None \<longleftrightarrow> ?q \<in> a_address ` set (db_addresses d)"
    "\<forall>a. search_address d ?q = Some a \<longrightarrow> ad_address a = Some ?q"
    by (auto simp: search_address_def find_by_key Address_fromRow_def new_Address_def dest: find_by_keyD)
  show ?thesis
  proof (cases "is_hex64 ?q")
    case True
    then show ?thesis
      using assms tx block masternode
      by (intro exI [of _ "nothing_found\<lparr>sr_block := search_block_by_hash d ?q, sr_transaction := tx,
            sr_masternode := search_masternode d ?q\<rparr>"])
         (simp add: search_def Let_def nothing_found_def)
  next
    case False
    then show ?thesis
      using assms address
      by (intro exI [of _ "if is_address_text net ?q then nothing_found\<lparr>sr_address := search_address d ?q\<rparr> else nothing_found"])
         (simp add: search_def Let_def nothing_found_def)
  qed
qed

text \<open>
  A search for a hash or an address answers with exactly what the tables hold under it, and with
  nothing else: a transaction, block or masternode is found if and only if the text is a hash that
  the table has, an address if and only if the text has the form of an address of the network and
  the table has it.
\<close>

theorem search_exact:
  assumes "\<not> is_integer_text (js_trim query)"
  shows "\<exists>r. search sdk net d query = Inr r \<and>
    (sr_transaction r \<noteq> None \<longleftrightarrow> is_hex64 (js_trim query) \<and> js_trim query \<in> t_hash ` set (db_transactions d)) \<and>
    (\<forall>tx. sr_transaction r = Some tx \<longrightarrow> tr_hash tx = Some (js_trim query)) \<and>
    (sr_block r \<noteq> None \<longleftrightarrow> is_hex64 (js_trim query) \<and> Some (js_trim query) \<in> b_hash ` set (db_blocks d)) \<and>
    (\<forall>b. sr_block r = Some b \<longrightarrow> bk_hash b = Some (js_trim query)) \<and>
    (sr_masternode r \<noteq> None \<longleftrightarrow>
       is_hex64 (js_trim query) \<and> J (js_trim query) \<in> mr_pro_tx_hash ` set (db_masternodes d)) \<and>
    (\<forall>m. sr_masternode r = Some m \<longrightarrow> proTxHash m = Some (js_trim query)) \<and>
    (sr_address r \<noteq> None \<longleftrightarrow> \<not> is_hex64 (js_trim query) \<and> is_address_text net (js_trim query) \<and>
       js_trim query \<in> a_address ` set (db_addresses d)) \<and>
    (\<forall>a. sr_address r = Some a \<longrightarrow> ad_address a = Some (js_trim query))"
  using search_finds [OF assms] .

section \<open>Sample searches\<close>

theorem search_by_height_witness:
  "(\<exists>r. search_handler sample_sdk Testnet sample_wallet_db ('' '' @ dec_nat 2 @ '' '') = Inr (Sent 200 r) \<and>
      map_option bk_height (sr_block r) = Some (Some 2)) \<and>
   respond (search_handler sample_sdk Testnet sample_wallet_db ('' '' @ dec_nat 3000000000 @ '' '')) =
     Refused 500 ''QueryError''"
proof -
  have blocks: "distinct (map b_height (db_blocks sample_wallet_db))"
    using sample_indexed by (simp add: indexed_def keyed_def)
  have space: "list_all is_space '' ''" by (simp add: is_space_def)
  have mem: "sample_chain_block 2 5400000 \<in> set (db_blocks sample_wallet_db)" "b_height (sample_chain_block 2 5400000) = int 2"
    by (simp_all add: sample_wallet_db_def sample_chain_block_def)
  from search_by_height [OF blocks space space, of 2 sample_sdk Testnet] obtain r where
    r: "search_handler sample_sdk Testnet sample_wallet_db ('' '' @ dec_nat 2 @ '' '') = Inr (Sent 200 r)"
    "sr_block r = Some (Block_fromRow (search_block_columns (sample_chain_block 2 5400000)))"
    using mem by (auto simp: max_int4_def simp del: dec_nat.simps)
  moreover have "\<not> 3000000000 \<le> max_int4" by (simp add: max_int4_def)
  ultimately show ?thesis
    using search_by_height [OF blocks space space, of 3000000000 sample_sdk Testnet] mem(2)
    by (auto simp: Block_fromRow_def new_Block_def search_block_columns_def simp del: dec_nat.simps)
qed

lemma sample_hash64: "is_hex64 (replicate 64 (CHR ''f''))" "\<not> is_integer_text (replicate 64 (CHR ''f''))"
    "js_trim (replicate 64 (CHR ''f'')) = replicate 64 (CHR ''f'')"
proof -
  show "is_hex64 (replicate 64 (CHR ''f''))" by (simp add: is_hex64_def is_hex_char_def list_all_iff)
  show "\<not> is_integer_text (replicate 64 (CHR ''f''))" by (simp add: is_integer_text_def is_digit_def list_all_iff)
  show "js_trim (replicate 64 (CHR ''f'')) = replicate 64 (CHR ''f'')"
    by (rule js_trim_id) (simp add: is_space_def)
qed

definition sample_search_db :: db where
  "sample_search_db = sample_wallet_db\<lparr>db_transactions := [sample_tx 64 (Some 1) False 0]\<rparr>"

theorem search_exact_witness:
  "\<exists>r. search sample_sdk Testnet sample_search_db (replicate 64 (CHR ''f'')) = Inr r \<and>
     sr_transaction r \<noteq> None \<and> sr_block r = None \<and> sr_address r = None"
proof -
  have query: "\<not> is_integer_text (js_trim (replicate 64 (CHR ''f'')))" by (simp add: sample_hash64)
  have tables: "replicate 64 (CHR ''f'') \<in> t_hash ` set (db_transactions sample_search_db)"
    "Some (replicate 64 (CHR ''f'')) \<notin> b_hash ` set (db_blocks sample_search_db)"
    by (simp_all add: sample_search_db_def sample_tx_def sample_wallet_db_def sample_chain_block_def)
  show ?thesis
    using search_exact [OF query, of sample_sdk Testnet sample_search_db] tables
    unfolding sample_hash64(3) by (auto simp: sample_hash64(1))
qed

end
