(* ===== verification/Peers.thy ===== *)
theory Peers
  imports Masternodes GovernanceModels Http
begin

text \<open>
  \<open>api/src/models/Peer.ts\<close>, \<open>PeerUserAgent.ts\<close>, \<open>api/src/dao/PeersDAO.ts\<close> and
  \<open>api/src/controllers/PeersController.ts\<close>: the peers that the crawler leaves in two Redis hashes. The
  JSON parser, the engine for regular expressions and the collation are parameters.
\<close>

section \<open>Peers\<close>

record StoredPeer =
  sp_addr :: string
  sp_available :: bool
  sp_version :: "int option"
  sp_services :: "int option"
  sp_user_agent :: "string option"
  sp_start_height :: "int option"
  sp_last_seen :: int
  sp_probed_at :: int

record Peer =
  pr_address :: string
  pr_host :: string
  pr_port :: jsnum
  pr_available :: bool
  pr_protocolVersion :: "int option"
  pr_services :: "int option"
  pr_userAgent :: "string option"
  pr_startHeight :: "int option"
  pr_lastSeen :: date
  pr_probedAt :: date
  pr_geo :: "GeoIpInfo option"

definition Peer_host :: "string \<Rightarrow> string" where
  "Peer_host addr =
     (if starts_with addr ''['' then js_slice addr 1 (index_of (CHR '']'') addr)
      else js_slice addr 0 (last_index_of (CHR '':'') addr))"

definition Peer_port :: "string \<Rightarrow> jsnum" where
  "Peer_port addr = js_number (js_slice_from addr (last_index_of (CHR '':'') addr + 1))"

text \<open>
  \<open>json\<close> reads a stored text: \<open>None\<close> when it is no JSON, \<open>Some None\<close> when it is a value without
  \<open>addr\<close>.
\<close>

definition Peer_fromStored :: "(string \<Rightarrow> StoredPeer option option) \<Rightarrow> string \<Rightarrow> GeoIpInfo option \<Rightarrow> Peer option" where
  "Peer_fromStored json raw geo =
     (case json raw of
        None \<Rightarrow> None
      | Some None \<Rightarrow> None
      | Some (Some stored) \<Rightarrow>
          Some \<lparr>pr_address = sp_addr stored, pr_host = Peer_host (sp_addr stored),
                pr_port = Peer_port (sp_addr stored), pr_available = sp_available stored,
                pr_protocolVersion = sp_version stored, pr_services = sp_services stored,
                pr_userAgent = sp_user_agent stored, pr_startHeight = sp_start_height stored,
                pr_lastSeen = date_of_seconds (of_int (sp_last_seen stored)),
                pr_probedAt = date_of_seconds (of_int (sp_probed_at stored)), pr_geo = geo\<rparr>)"

record PeerUserAgent =
  ua_userAgent :: string
  ua_count :: nat

section \<open>Loading\<close>

record peers_env =
  pe_hvals :: "string \<Rightarrow> string list"
  pe_json :: "string \<Rightarrow> StoredPeer option option"
  pe_reader :: "string \<Rightarrow> geo_response option result"
  pe_collate :: "string \<Rightarrow> string \<Rightarrow> int"
  pe_regexp :: "string \<Rightarrow> (string \<Rightarrow> bool) option"

text \<open>A text that is no peer is skipped, and a place that cannot be looked up is left out.\<close>

definition load_peer :: "peers_env \<Rightarrow> bool \<Rightarrow> string \<Rightarrow> Peer option" where
  "load_peer e withGeo raw =
     map_option (\<lambda>peer.
       if withGeo
       then peer\<lparr>pr_geo := (case lookup (pe_reader e) (pr_host peer) of Inl _ \<Rightarrow> None | Inr geo \<Rightarrow> Some geo)\<rparr>
       else peer)
     (Peer_fromStored (pe_json e) raw None)"

definition loadPeers :: "peers_env \<Rightarrow> string list \<Rightarrow> bool \<Rightarrow> Peer list" where
  "loadPeers e keys withGeo = List.map_filter (load_peer e withGeo) (concat (map (pe_hvals e) keys))"

definition filterPeers :: "string js \<Rightarrow> (string \<Rightarrow> bool) option \<Rightarrow> string js \<Rightarrow> Peer list \<Rightarrow> Peer list" where
  "filterPeers country userAgent ip peers =
     (let filtered = when_given country (\<lambda>c peer. Option.bind (pr_geo peer) countryCode = Some c) peers;
          filtered = (case userAgent of
                        None \<Rightarrow> filtered
                      | Some test \<Rightarrow> filter (\<lambda>peer. case pr_userAgent peer of None \<Rightarrow> False | Some a \<Rightarrow> test a) filtered)
      in when_given ip (\<lambda>i peer. pr_host peer = i) filtered)"

definition paginate :: "'a list \<Rightarrow> int \<Rightarrow> int option \<Rightarrow> 'a PaginatedResultSet" where
  "paginate items page limit =
     (let tot = of_nat (length items) in
      case limit of
        None \<Rightarrow> new_PaginatedResultSet items page (Fin tot) (J (CNum tot))
      | Some l \<Rightarrow> new_PaginatedResultSet (js_slice items ((page - 1) * l) (page * l)) page (Fin (of_int l)) (J (CNum tot)))"

section \<open>Queries\<close>

definition peer_keys :: "bool js \<Rightarrow> string list" where
  "peer_keys available =
     (if available = J True then [REDIS_AVAILABLE_KEY]
      else if available = J False then [REDIS_UNAVAILABLE_KEY]
      else [REDIS_AVAILABLE_KEY, REDIS_UNAVAILABLE_KEY])"

text \<open>An invalid date has no time: the difference is \<open>NaN\<close>, which a sort reads as equal.\<close>

definition by_lastSeen :: "int \<Rightarrow> Peer \<Rightarrow> Peer \<Rightarrow> int" where
  "by_lastSeen direction a b =
     (case (pr_lastSeen a, pr_lastSeen b) of
        (Some x, Some y) \<Rightarrow> (x - y) * direction
      | _ \<Rightarrow> 0)"

definition getPeers ::
  "peers_env \<Rightarrow> int \<Rightarrow> int option \<Rightarrow> string \<Rightarrow> bool js \<Rightarrow> string js \<Rightarrow> (string \<Rightarrow> bool) option \<Rightarrow> string js \<Rightarrow>
   Peer PaginatedResultSet" where
  "getPeers e page limit order available country userAgent ip =
     (let peers = filterPeers country userAgent ip (loadPeers e (peer_keys available) True);
          direction = (if order = ''desc'' then -1 else 1)
      in paginate (js_sort (by_lastSeen direction) peers) page limit)"

text \<open>\<open>counts\<close> is a \<open>Map\<close>: an association list in the order of insertion.\<close>

definition count_agent :: "(string \<times> nat) list \<Rightarrow> Peer \<Rightarrow> (string \<times> nat) list" where
  "count_agent counts peer =
     (case pr_userAgent peer of
        None \<Rightarrow> counts
      | Some agent \<Rightarrow> AList.update agent (or_else (map_of counts agent) 0 + 1) counts)"

definition by_count :: "(string \<Rightarrow> string \<Rightarrow> int) \<Rightarrow> int \<Rightarrow> PeerUserAgent \<Rightarrow> PeerUserAgent \<Rightarrow> int" where
  "by_count collate direction a b =
     (let difference = (int (ua_count b) - int (ua_count a)) * direction in
      if difference \<noteq> 0 then difference else collate (ua_userAgent a) (ua_userAgent b))"

definition getUserAgents :: "peers_env \<Rightarrow> int \<Rightarrow> int option \<Rightarrow> string \<Rightarrow> PeerUserAgent PaginatedResultSet" where
  "getUserAgents e page limit order =
     (let peers = loadPeers e [REDIS_AVAILABLE_KEY] False;
          counts = foldl count_agent [] peers;
          direction = (if order = ''asc'' then -1 else 1);
          userAgents = js_sort (by_count (pe_collate e) direction)
                         (map (\<lambda>(agent, n). \<lparr>ua_userAgent = agent, ua_count = n\<rparr>) counts)
      in paginate userAgents page limit)"

section \<open>Endpoints\<close>

record peers_request =
  pq_page :: "int option"
  pq_limit :: "int option"
  pq_order :: "string option"
  pq_available :: "bool js"
  pq_country :: "string js"
  pq_user_agent :: "string js"
  pq_ip :: "string js"

definition peers_handler :: "peers_env \<Rightarrow> peers_request \<Rightarrow> Peer PaginatedResultSet reply" where
  "peers_handler e q =
     (let (page, limit) = page_and_limit (pq_page q) (pq_limit q);
          answer = (\<lambda>userAgent. Sent 200 (getPeers e page (Some limit) (or_else (pq_order q) ''asc'')
                      (pq_available q) (pq_country q) userAgent (pq_ip q)))
      in case or_null (pq_user_agent q) of
           None \<Rightarrow> answer None
         | Some pattern \<Rightarrow>
             (case pe_regexp e pattern of
                None \<Rightarrow> Refused 400 ''user_agent must be a valid regular expression''
              | Some test \<Rightarrow> answer (Some test)))"

definition user_agents_handler :: "peers_env \<Rightarrow> peers_request \<Rightarrow> PeerUserAgent PaginatedResultSet reply" where
  "user_agents_handler e q =
     Sent 200 (getUserAgents e (or_else (pq_page q) 1) (pq_limit q) (or_else (pq_order q) ''desc''))"

section \<open>Addresses read back\<close>

text \<open>
  C38: the address that the crawler writes, \<open>host:port\<close> with the host in brackets when it contains
  colons itself, is read back as the same host and the same port.
\<close>

theorem peer_address_roundtrip:
  assumes "if CHR '':'' \<in> set host then CHR '']'' \<notin> set host else \<not> starts_with host ''[''"
    "host \<noteq> []" "of_nat port < double_limit"
  defines "addr \<equiv> (if CHR '':'' \<in> set host then ''['' @ host @ '']'' else host) @ '':'' @ dec_nat port"
  shows "Peer_host addr = host \<and> Peer_port addr = Fin (of_nat port)"
proof -
  have digits: "CHR '':'' \<notin> set (dec_nat port)"
    using all_digits_dec_nat [of port] by (auto simp: is_digit_def)
  have port: "Peer_port (p @ CHR '':'' # dec_nat port) = Fin (of_nat port)" for p
  proof -
    have "last_index_of (CHR '':'') (p @ CHR '':'' # dec_nat port) + 1 = int (length p + 1)"
      by (simp add: last_index_of_append [OF digits])
    moreover have "js_slice_from (p @ CHR '':'' # dec_nat port) (int (length p + 1)) = dec_nat port"
      by (simp add: js_slice_from_def slice_pos_def nat_add_distrib min_def)
    ultimately show ?thesis by (simp only: Peer_port_def js_number_dec_nat [OF assms(3)])
  qed
  show ?thesis
  proof (cases "CHR '':'' \<in> set host")
    case True
    have "index_of (CHR '']'') addr = int (length host + 1)"
      using True assms(1) index_of_append [of "CHR '']''" "''['' @ host" "'':'' @ dec_nat port"] by (simp add: addr_def)
    then have "Peer_host addr = js_slice addr 1 (int (length host + 1))"
      by (simp add: Peer_host_def addr_def True starts_with_def)
    also have "\<dots> = host" by (simp add: js_slice_nonneg addr_def True nat_add_distrib)
    finally show ?thesis using port [of "''['' @ host @ '']''"] by (simp add: addr_def True)
  next
    case False
    have "last_index_of (CHR '':'') addr = int (length host)"
      using last_index_of_append [OF digits, of host] by (simp add: addr_def False)
    moreover have "\<not> starts_with addr ''[''"
      using False assms(1,2) by (cases host) (auto simp: addr_def starts_with_def)
    ultimately have "Peer_host addr = host"
      by (simp add: Peer_host_def js_slice_0) (simp add: addr_def False)
    then show ?thesis using port [of host] by (simp add: addr_def False)
  qed
qed

section \<open>The listing of peers\<close>

lemma paginate_page:
  "1 \<le> p \<Longrightarrow> resultSet (paginate items (int p) (Some (int l))) = page_of p l items"
  by (simp add: paginate_def new_PaginatedResultSet_def js_slice_page_of Let_def)

lemma paginate_total:
  "pg_total (pagination (paginate items page limit)) =
     Fin (if resultSet (paginate items page limit) = [] then -1 else of_nat (length items))"
  by (auto simp: paginate_def new_PaginatedResultSet_def Let_def split: option.splits)

definition matches_peer :: "string js \<Rightarrow> (string \<Rightarrow> bool) option \<Rightarrow> string js \<Rightarrow> Peer \<Rightarrow> bool" where
  "matches_peer country userAgent ip p \<longleftrightarrow>
     (\<forall>c. country = J c \<longrightarrow> (\<exists>g. pr_geo p = Some g \<and> countryCode g = Some c)) \<and>
     (\<forall>test. userAgent = Some test \<longrightarrow> (\<exists>a. pr_userAgent p = Some a \<and> test a)) \<and>
     (\<forall>i. ip = J i \<longrightarrow> pr_host p = i)"

lemma filterPeers_matches: "filterPeers country userAgent ip ps = filter (matches_peer country userAgent ip) ps"
proof -
  have "filterPeers country userAgent ip ps =
      filter (\<lambda>p. (\<forall>c. country = J c \<longrightarrow> Option.bind (pr_geo p) countryCode = Some c) \<and>
        (\<forall>test. userAgent = Some test \<longrightarrow> (case pr_userAgent p of None \<Rightarrow> False | Some a \<Rightarrow> test a)) \<and>
        (\<forall>i. ip = J i \<longrightarrow> pr_host p = i)) ps"
    by (cases country; cases userAgent; cases ip) (auto simp: filterPeers_def when_given_def Let_def intro: filter_cong)
  also have "\<dots> = filter (matches_peer country userAgent ip) ps"
    by (rule filter_cong) (auto simp: matches_peer_def split: option.splits Option.bind_splits)
  finally show ?thesis .
qed

text \<open>The dates that the crawler writes are whole seconds that a date can hold.\<close>

definition dated :: "peers_env \<Rightarrow> bool" where
  "dated e \<longleftrightarrow> (\<forall>raw stored. pe_json e raw = Some (Some stored) \<longrightarrow>
     0 \<le> sp_last_seen stored \<and> sp_last_seen stored * 1000 \<le> 8640000000000000)"

lemma loaded_dated:
  assumes "dated e" "p \<in> set (loadPeers e keys withGeo)"
  shows "\<exists>stored raw. pe_json e raw = Some (Some stored) \<and> pr_lastSeen p = Some (sp_last_seen stored * 1000)"
proof -
  obtain raw where raw: "load_peer e withGeo raw = Some p"
    using assms(2) by (auto simp: loadPeers_def map_filter_def)
  then obtain stored where stored: "pe_json e raw = Some (Some stored)"
    "pr_lastSeen p = date_of_seconds (of_int (sp_last_seen stored))"
    by (auto simp: load_peer_def Peer_fromStored_def split: option.splits)
  have range: "0 \<le> sp_last_seen stored" "sp_last_seen stored * 1000 \<le> 8640000000000000"
    using assms(1) stored(1) by (auto simp: dated_def)
  then have "date_of_seconds (of_nat (nat (sp_last_seen stored))) = Some (int (nat (sp_last_seen stored)) * 1000)"
    by (intro date_of_seconds_nat) linarith
  with stored range(1) show ?thesis by (intro exI [of _ stored] exI [of _ raw]) simp
qed

definition seen_key :: "int \<Rightarrow> Peer \<Rightarrow> int" where
  "seen_key direction p = direction * or_else (pr_lastSeen p) 0"

lemma by_lastSeen_key:
  "pr_lastSeen a \<noteq> None \<Longrightarrow> pr_lastSeen b \<noteq> None \<Longrightarrow> by_lastSeen direction a b = by_key (seen_key direction) a b"
  by (auto simp: by_lastSeen_def by_key_def seen_key_def algebra_simps)

lemma sorted_by_lastSeen:
  assumes "\<forall>p \<in> set ps. pr_lastSeen p \<noteq> None"
  shows "sorted (map (seen_key direction) (js_sort (by_lastSeen direction) ps))"
proof -
  have "js_sort (by_lastSeen direction) ps = js_sort (by_key (seen_key direction)) ps"
    by (rule js_sort_cmp_cong) (use assms by_lastSeen_key in blast)
  then show ?thesis by (simp add: js_sort_by_key_sorted)
qed

text \<open>
  The pages of the peers put together are all the stored peers that match the filters, each once,
  with the times they were last seen in the order asked for. A stored text that is no peer, and a
  host whose place cannot be looked up, neither fail the request nor hide another peer.
\<close>

theorem getPeers_all_pages:
  assumes "dated e" "direction = (if order = ''desc'' then -1 else 1)"
  shows "\<exists>ps. mset ps = mset (filter (matches_peer country userAgent ip)
        (List.map_filter (load_peer e True) (concat (map (pe_hvals e) (peer_keys available))))) \<and>
    sorted (map (\<lambda>p. direction * the (pr_lastSeen p)) ps) \<and>
    (\<forall>n. length ps \<le> n * l \<longrightarrow>
       concat (map (\<lambda>p. resultSet (getPeers e (int p) (Some (int l)) order available country userAgent ip)) [1..<Suc n]) = ps)"
proof -
  let ?loaded = "filter (matches_peer country userAgent ip) (loadPeers e (peer_keys available) True)"
  define ps where "ps = js_sort (by_lastSeen direction) ?loaded"
  have page: "resultSet (getPeers e (int p) (Some (int l)) order available country userAgent ip) = page_of p l ps"
    if "1 \<le> p" for p
    using paginate_page [OF that, of ps l]
    by (simp add: getPeers_def filterPeers_matches ps_def assms(2) Let_def)
  have seen: "\<forall>p \<in> set ps. pr_lastSeen p \<noteq> None"
    using loaded_dated [OF assms(1)] by (fastforce simp: ps_def)
  have key: "map (seen_key direction) ps = map (\<lambda>p. direction * the (pr_lastSeen p)) ps"
    by (rule map_cong [OF refl]) (use seen in \<open>auto simp: seen_key_def\<close>)
  have "sorted (map (seen_key direction) ps)"
    unfolding ps_def by (rule sorted_by_lastSeen) (use seen in \<open>simp add: ps_def\<close>)
  then have "sorted (map (\<lambda>p. direction * the (pr_lastSeen p)) ps)" by (simp only: key)
  moreover have "mset ps = mset ?loaded" by (simp add: ps_def)
  moreover have "concat (map (\<lambda>p. resultSet (getPeers e (int p) (Some (int l)) order available country userAgent ip)) [1..<Suc n]) = ps"
    if "length ps \<le> n * l" for n
  proof -
    have "map (\<lambda>p. resultSet (getPeers e (int p) (Some (int l)) order available country userAgent ip)) [1..<Suc n] =
        map (\<lambda>p. page_of p l ps) [1..<Suc n]"
      by (rule map_cong [OF refl]) (simp add: page del: upt_Suc)
    then show ?thesis using concat_all_pages [OF that] by (simp only:)
  qed
  ultimately show ?thesis by (intro exI [of _ ps]) (simp add: loadPeers_def del: upt_Suc)
qed

section \<open>The user agents\<close>

definition agents :: "Peer list \<Rightarrow> string list" where
  "agents peers = List.map_filter pr_userAgent peers"

lemma count_agents:
  assumes "\<forall>a. map_of counts a = (if a \<in> set seen_agents then Some (count_list seen_agents a) else None)"
    "distinct (map fst counts)"
  shows "(\<forall>a. map_of (foldl count_agent counts peers) a =
        (if a \<in> set (seen_agents @ agents peers) then Some (count_list (seen_agents @ agents peers) a) else None)) \<and>
     distinct (map fst (foldl count_agent counts peers))"
  using assms
proof (induction peers arbitrary: counts seen_agents)
  case Nil
  then show ?case by (simp add: agents_def map_filter_def)
next
  case (Cons p peers)
  show ?case
  proof (cases "pr_userAgent p")
    case None
    then have "count_agent counts p = counts" "agents (p # peers) = agents peers"
      by (simp_all add: count_agent_def agents_def map_filter_def)
    then show ?thesis using Cons.IH [OF Cons.prems] by simp
  next
    case (Some a)
    let ?counts = "AList.update a (or_else (map_of counts a) 0 + 1) counts"
    have step: "count_agent counts p = ?counts" "agents (p # peers) = a # agents peers"
      using Some by (simp_all add: count_agent_def agents_def map_filter_def)
    have m: "\<forall>b. map_of ?counts b = (if b \<in> set (seen_agents @ [a]) then Some (count_list (seen_agents @ [a]) b) else None)"
      using Cons.prems(1) by (auto simp: update_conv' count_notin)
    have "distinct (map fst ?counts)" using Cons.prems(2) by (simp add: distinct_update)
    from Cons.IH [OF m this, unfolded append_assoc append_Cons append_Nil] show ?thesis
      unfolding step foldl_Cons .
  qed
qed

lemma counted_agents:
  "mset (foldl count_agent [] peers) =
   mset (map (\<lambda>a. (a, count_list (agents peers) a)) (remdups (agents peers)))"
proof -
  let ?counts = "foldl count_agent [] peers"
  have inv: "map_of ?counts a = (if a \<in> set (agents peers) then Some (count_list (agents peers) a) else None)"
    "distinct (map fst ?counts)" for a
    using count_agents [of "[]" "[]" peers] by simp_all
  have member: "(a, n) \<in> set ?counts \<longleftrightarrow> a \<in> set (agents peers) \<and> n = count_list (agents peers) a" for a n
    unfolding map_of_eq_Some_iff [OF inv(2), symmetric] inv(1) by auto
  have "set ?counts = (\<lambda>a. (a, count_list (agents peers) a)) ` set (agents peers)"
    by (auto simp: member)
  moreover have "distinct ?counts" using inv(2) by (simp add: distinct_map)
  moreover have "distinct (map (\<lambda>a. (a, count_list (agents peers) a)) (remdups (agents peers)))"
    by (simp add: distinct_map inj_on_def)
  ultimately show ?thesis
    using set_eq_iff_mset_eq_distinct [of ?counts "map (\<lambda>a. (a, count_list (agents peers) a)) (remdups (agents peers))"]
    by simp
qed

lemma by_count_comparator:
  assumes "js_comparator collate"
  shows "js_comparator (by_count collate direction)"
proof -
  have order: "collate x y \<le> 0 \<or> collate y x \<le> 0" "collate x y \<le> 0 \<Longrightarrow> collate y z \<le> 0 \<Longrightarrow> collate x z \<le> 0" for x y z
    using assms by (simp_all add: js_comparator_def)
  define k where "k u = int (ua_count u) * direction" for u :: PeerUserAgent
  have le: "by_count collate direction a b \<le> 0 \<longleftrightarrow>
      k b < k a \<or> k b = k a \<and> collate (ua_userAgent a) (ua_userAgent b) \<le> 0" for a b
    unfolding k_def
    by (cases "direction = 0"; cases "ua_count b = ua_count a")
       (auto simp: by_count_def Let_def left_diff_distrib less_le)
  show ?thesis
  proof (rule js_comparator.intro)
    fix a b c
    show "by_count collate direction a b \<le> 0 \<or> by_count collate direction b a \<le> 0"
      unfolding le using order(1) by (metis linorder_less_linear)
    assume "by_count collate direction a b \<le> 0" "by_count collate direction b c \<le> 0"
    then show "by_count collate direction a c \<le> 0"
      unfolding le using order(2) [of "ua_userAgent a" "ua_userAgent b" "ua_userAgent c"] by auto
  qed
qed

text \<open>
  The user agents are counted exactly: every agent that an available peer advertises is listed once,
  with the number of peers that run it, so the counts add up to the number of peers that advertise
  one. Without a limit the whole list is one page, and for any collation the counts go down, or up when
  asked for ascending order.
\<close>

theorem user_agents_exact:
  assumes "js_comparator (pe_collate e)"
  shows "\<exists>uas. resultSet (getUserAgents e page None order) = uas \<and>
    mset (map (\<lambda>u. (ua_userAgent u, ua_count u)) uas) =
      mset (map (\<lambda>a. (a, length (filter (\<lambda>p. pr_userAgent p = Some a) (loadPeers e [REDIS_AVAILABLE_KEY] False))))
        (remdups (agents (loadPeers e [REDIS_AVAILABLE_KEY] False)))) \<and>
    sum_list (map ua_count uas) =
      length (filter (\<lambda>p. pr_userAgent p \<noteq> None) (loadPeers e [REDIS_AVAILABLE_KEY] False)) \<and>
    sorted_wrt (\<lambda>u v. if order = ''asc'' then ua_count u \<le> ua_count v else ua_count v \<le> ua_count u) uas"
proof -
  let ?peers = "loadPeers e [REDIS_AVAILABLE_KEY] False"
  let ?direction = "if order = ''asc'' then -1 else 1 :: int"
  let ?counts = "foldl count_agent [] ?peers"
  define uas where "uas = js_sort (by_count (pe_collate e) ?direction) (map (\<lambda>(agent, n). \<lparr>ua_userAgent = agent, ua_count = n\<rparr>) ?counts)"
  have whole: "resultSet (getUserAgents e page None order) = uas"
    by (simp add: getUserAgents_def uas_def paginate_def new_PaginatedResultSet_def Let_def)
  have number: "count_list (agents ps) a = length (filter (\<lambda>p. pr_userAgent p = Some a) ps)" for ps a
    by (induction ps) (auto simp: agents_def map_filter_def)
  have all: "length (agents ps) = length (filter (\<lambda>p. pr_userAgent p \<noteq> None) ps)" for ps
    by (simp add: agents_def map_filter_def)
  have pairs: "mset (map (\<lambda>u. (ua_userAgent u, ua_count u)) uas) = mset ?counts"
  proof -
    have "mset (map (\<lambda>u. (ua_userAgent u, ua_count u)) uas) =
        mset (map (\<lambda>u. (ua_userAgent u, ua_count u)) (map (\<lambda>(agent, n). \<lparr>ua_userAgent = agent, ua_count = n\<rparr>) ?counts))"
      unfolding uas_def mset_map mset_js_sort ..
    also have "map (\<lambda>u. (ua_userAgent u, ua_count u)) (map (\<lambda>(agent, n). \<lparr>ua_userAgent = agent, ua_count = n\<rparr>) ?counts) = ?counts"
      by (simp add: comp_def case_prod_beta)
    finally show ?thesis .
  qed
  have "sum_list (map ua_count uas) = sum_mset (image_mset snd (mset (map (\<lambda>u. (ua_userAgent u, ua_count u)) uas)))"
    by (simp add: sum_mset_sum_list [symmetric] multiset.map_comp comp_def)
  also have "\<dots> = sum_list (map (count_list (agents ?peers)) (remdups (agents ?peers)))"
    unfolding pairs counted_agents by (simp add: sum_mset_sum_list [symmetric] multiset.map_comp comp_def)
  also have "\<dots> = length (agents ?peers)"
    by (simp add: sum_list_distinct_conv_sum_set sum_count_set)
  finally have total_count: "sum_list (map ua_count uas) = length (filter (\<lambda>p. pr_userAgent p \<noteq> None) ?peers)"
    by (simp only: all)
  have "sorted_wrt (\<lambda>u v. by_count (pe_collate e) ?direction u v \<le> 0) uas"
    unfolding uas_def by (rule js_comparator.sorted_js_sort [OF by_count_comparator [OF assms]])
  then have "sorted_wrt (\<lambda>u v. if order = ''asc'' then ua_count u \<le> ua_count v else ua_count v \<le> ua_count u) uas"
    by (rule sorted_wrt_mono_rel [rotated]) (auto simp: by_count_def Let_def split: if_splits)
  with whole pairs counted_agents total_count show ?thesis
    by (intro exI [of _ uas]) (simp add: number)
qed

section \<open>Sample peers\<close>

definition sample_stored :: "string \<Rightarrow> int \<Rightarrow> StoredPeer" where
  "sample_stored address seen =
     \<lparr>sp_addr = address, sp_available = True, sp_version = None, sp_services = None, sp_user_agent = Some ''dash'',
      sp_start_height = None, sp_last_seen = seen, sp_probed_at = seen\<rparr>"

definition sample_peers :: peers_env where
  "sample_peers =
     \<lparr>pe_hvals = (\<lambda>key. if key = REDIS_AVAILABLE_KEY then [''a'', ''junk'', ''b''] else []),
      pe_json = (\<lambda>raw. if raw = ''a'' then Some (Some (sample_stored ''1.2.3.4:9999'' 20))
                       else if raw = ''b'' then Some (Some (sample_stored ''[::1]:9999'' 10)) else None),
      pe_reader = (\<lambda>_. Inr None), pe_collate = (\<lambda>_ _. 0), pe_regexp = (\<lambda>_. None)\<rparr>"

lemma sample_dated: "dated sample_peers"
  by (auto simp: dated_def sample_peers_def sample_stored_def split: if_splits)

theorem peer_address_roundtrip_witness:
  "Peer_host (''1.2.3.4'' @ '':'' @ dec_nat 9999) = ''1.2.3.4'' \<and> Peer_port (''['' @ ''::1'' @ '']'' @ '':'' @ dec_nat 9999) = Fin 9999"
proof -
  have port: "(9999 :: rat) < double_limit" using double_limit_date by linarith
  show ?thesis
    using peer_address_roundtrip [of "''1.2.3.4''" 9999] peer_address_roundtrip [of "''::1''" 9999] port
    by (simp add: starts_with_def del: dec_nat.simps)
qed

text \<open>The text that is no JSON is skipped, and the peer seen first comes first.\<close>

theorem getPeers_all_pages_witness:
  "length (concat (map (\<lambda>p. resultSet (getPeers sample_peers (int p) (Some (int 1)) ''asc'' JUndef JUndef None JUndef)) [1..<Suc 2])) = 2"
proof -
  let ?loaded = "List.map_filter (load_peer sample_peers True) (concat (map (pe_hvals sample_peers) (peer_keys JUndef)))"
  have "load_peer sample_peers True ''junk'' = None" "load_peer sample_peers True ''a'' \<noteq> None"
    "load_peer sample_peers True ''b'' \<noteq> None"
    by (simp_all add: load_peer_def Peer_fromStored_def sample_peers_def)
  then have "length ?loaded = 2"
    by (auto simp: map_filter_def peer_keys_def) (simp_all add: sample_peers_def REDIS_AVAILABLE_KEY_def REDIS_UNAVAILABLE_KEY_def)
  moreover have "filter (matches_peer JUndef None JUndef) ?loaded = ?loaded"
    by (simp add: matches_peer_def)
  moreover obtain ps where "mset ps = mset (filter (matches_peer JUndef None JUndef) ?loaded)"
    "\<forall>n. length ps \<le> n * 1 \<longrightarrow> concat (map (\<lambda>p. resultSet
       (getPeers sample_peers (int p) (Some (int 1)) ''asc'' JUndef JUndef None JUndef)) [1..<Suc n]) = ps"
    using getPeers_all_pages [OF sample_dated, of 1 "''asc''" JUndef None JUndef JUndef 1] by auto
  ultimately show ?thesis by (metis mset_eq_length mult.right_neutral order_refl)
qed

theorem user_agents_exact_witness:
  "\<exists>uas. resultSet (getUserAgents sample_peers 1 None ''desc'') = uas \<and> sum_list (map ua_count uas) = 2"
proof -
  have collate: "js_comparator (pe_collate sample_peers)"
    by (simp add: js_comparator_def sample_peers_def)
  have loaded: "length (filter (\<lambda>p. pr_userAgent p \<noteq> None) (loadPeers sample_peers [REDIS_AVAILABLE_KEY] False)) = 2"
    by (simp add: loadPeers_def map_filter_def load_peer_def Peer_fromStored_def sample_peers_def sample_stored_def)
  show ?thesis using user_agents_exact [OF collate, of 1 "''desc''"] unfolding loaded by blast
qed

end
