(* ===== verification/InFlight.thy ===== *)
theory InFlight
  imports Xpub GovernanceModels
begin

text \<open>
  Requests in flight: \<open>XpubService.resolve\<close> and \<open>MarketService.load\<close> keep a map from keys to running
  promises, so that callers who ask for the same key at the same time share one piece of work. The
  event loop runs callers and promises in any order, so the steps are a relation; the invariant says
  how the map and the promises agree.
\<close>

section \<open>Sharing\<close>

text \<open>
  Promise \<open>p\<close> is the \<open>p\<close>-th one ever made, for the key \<open>fl_keys ! p\<close>; \<open>fl_waiting\<close> holds what a caller
  asked for and the promise it awaits, \<open>fl_answers\<close> what callers were told, the latest first.
\<close>

record ('k, 'c, 'v) flights =
  fl_inFlight :: "'k \<Rightarrow> nat option"
  fl_keys :: "'k list"
  fl_results :: "nat \<Rightarrow> 'v option"
  fl_waiting :: "'c \<Rightarrow> ('k \<times> nat) option"
  fl_answers :: "('c \<times> 'k \<times> 'v) list"

definition no_flights :: "('k, 'c, 'v) flights" where
  "no_flights = \<lparr>fl_inFlight = (\<lambda>_. None), fl_keys = [], fl_results = (\<lambda>_. None), fl_waiting = (\<lambda>_. None),
                 fl_answers = []\<rparr>"

text \<open>The body of \<open>resolve\<close>: join the running promise of the key, or start one and note it.\<close>

definition share :: "'k \<Rightarrow> ('k, 'c, 'v) flights \<Rightarrow> nat \<times> ('k, 'c, 'v) flights" where
  "share key s =
     (case fl_inFlight s key of
        Some joined \<Rightarrow> (joined, s)
      | None \<Rightarrow>
          (let scan = length (fl_keys s) in
           (scan, s\<lparr>fl_keys := fl_keys s @ [key], fl_inFlight := (fl_inFlight s)(key \<mapsto> scan)\<rparr>)))"

text \<open>The work of a promise ends, well or badly: \<open>finally\<close> deletes the key, then the promise settles.\<close>

definition settle :: "nat \<Rightarrow> 'v \<Rightarrow> ('k, 'c, 'v) flights \<Rightarrow> ('k, 'c, 'v) flights" where
  "settle p v s =
     s\<lparr>fl_inFlight := (fl_inFlight s)(fl_keys s ! p := None), fl_results := (fl_results s)(p \<mapsto> v)\<rparr>"

text \<open>\<open>outcome k v\<close>: work for the key \<open>k\<close> may end with \<open>v\<close>.\<close>

inductive flight_step ::
  "('k \<Rightarrow> 'v \<Rightarrow> bool) \<Rightarrow> ('k, 'c, 'v) flights \<Rightarrow> ('k, 'c, 'v) flights \<Rightarrow> bool" for outcome where
  ask: "fl_waiting s c = None \<Longrightarrow> share k s = (p, s') \<Longrightarrow>
     flight_step outcome s (s'\<lparr>fl_waiting := (fl_waiting s')(c \<mapsto> (k, p))\<rparr>)"
| finish: "p < length (fl_keys s) \<Longrightarrow> fl_results s p = None \<Longrightarrow> outcome (fl_keys s ! p) v \<Longrightarrow>
     flight_step outcome s (settle p v s)"
| answer: "fl_waiting s c = Some (k, p) \<Longrightarrow> fl_results s p = Some v \<Longrightarrow>
     flight_step outcome s
       (s\<lparr>fl_waiting := (fl_waiting s)(c := None), fl_answers := (c, k, v) # fl_answers s\<rparr>)"

inductive flights_run ::
  "('k \<Rightarrow> 'v \<Rightarrow> bool) \<Rightarrow> ('k, 'c, 'v) flights \<Rightarrow> ('k, 'c, 'v) flights \<Rightarrow> bool" for outcome s where
  here: "flights_run outcome s s"
| more: "flights_run outcome s t \<Longrightarrow> flight_step outcome t u \<Longrightarrow> flights_run outcome s u"

abbreviation flights_reachable :: "('k \<Rightarrow> 'v \<Rightarrow> bool) \<Rightarrow> ('k, 'c, 'v) flights \<Rightarrow> bool" where
  "flights_reachable outcome \<equiv> flights_run outcome no_flights"

section \<open>The invariant\<close>

definition flights_inv :: "('k \<Rightarrow> 'v \<Rightarrow> bool) \<Rightarrow> ('k, 'c, 'v) flights \<Rightarrow> bool" where
  "flights_inv outcome s \<longleftrightarrow>
     (\<forall>k p. fl_inFlight s k = Some p \<longleftrightarrow> p < length (fl_keys s) \<and> fl_keys s ! p = k \<and> fl_results s p = None) \<and>
     (\<forall>c k p. fl_waiting s c = Some (k, p) \<longrightarrow> p < length (fl_keys s) \<and> fl_keys s ! p = k) \<and>
     (\<forall>p v. fl_results s p = Some v \<longrightarrow> p < length (fl_keys s) \<and> outcome (fl_keys s ! p) v) \<and>
     (\<forall>(c, k, v) \<in> set (fl_answers s). outcome k v)"

lemma flights_invD:
  assumes "flights_inv outcome s"
  shows "fl_inFlight s k = Some p \<longleftrightarrow> p < length (fl_keys s) \<and> fl_keys s ! p = k \<and> fl_results s p = None"
    "fl_waiting s c = Some (k, p) \<Longrightarrow> p < length (fl_keys s) \<and> fl_keys s ! p = k"
    "fl_results s p = Some v \<Longrightarrow> p < length (fl_keys s) \<and> outcome (fl_keys s ! p) v"
    "(c, k, v) \<in> set (fl_answers s) \<Longrightarrow> outcome k v"
  using assms unfolding flights_inv_def by blast+

lemma flights_inv_start: "flights_inv outcome no_flights"
  by (simp add: flights_inv_def no_flights_def)

lemma share_inv:
  assumes "flights_inv outcome s" "share k s = (p, s')"
  shows "flights_inv outcome s' \<and> p < length (fl_keys s') \<and> fl_keys s' ! p = k \<and> fl_waiting s' = fl_waiting s"
proof (cases "fl_inFlight s k")
  case (Some q)
  then have "p = q" "s' = s" using assms(2) by (simp_all add: share_def)
  with assms(1) Some flights_invD(1) [OF assms(1), of k q] show ?thesis by simp
next
  case None
  then have p: "p = length (fl_keys s)"
    and s': "s' = s\<lparr>fl_keys := fl_keys s @ [k], fl_inFlight := (fl_inFlight s)(k \<mapsto> length (fl_keys s))\<rparr>"
    using assms(2) by (auto simp: share_def Let_def)
  note inv = flights_invD [OF assms(1)]
  have fresh: "fl_results s (length (fl_keys s)) = None" using inv(3) by (cases "fl_results s (length (fl_keys s))") auto
  have running: "fl_inFlight s' k' = Some q \<longleftrightarrow>
      q < length (fl_keys s') \<and> fl_keys s' ! q = k' \<and> fl_results s' q = None" for k' q
    using None inv(1) [of k' q] inv(1) [of k q] fresh
    by (cases "k' = k"; cases "q = length (fl_keys s)") (auto simp: s' nth_append less_Suc_eq)
  have "flights_inv outcome s'"
    unfolding flights_inv_def
  proof (intro conjI allI)
    show "fl_inFlight s' k' = Some q \<longleftrightarrow> q < length (fl_keys s') \<and> fl_keys s' ! q = k' \<and> fl_results s' q = None" for k' q
      by (rule running)
    show "fl_waiting s' c = Some (k', q) \<longrightarrow> q < length (fl_keys s') \<and> fl_keys s' ! q = k'" for c k' q
      using inv(2) [of c k' q] by (auto simp: s' nth_append)
    show "fl_results s' q = Some v \<longrightarrow> q < length (fl_keys s') \<and> outcome (fl_keys s' ! q) v" for q v
      using inv(3) [of q v] by (auto simp: s' nth_append)
    show "\<forall>(c, k, v) \<in> set (fl_answers s'). outcome k v" using inv(4) by (auto simp: s')
  qed
  then show ?thesis by (simp add: p s')
qed

lemma settle_inv:
  assumes "flights_inv outcome s" "p < length (fl_keys s)" "fl_results s p = None" "outcome (fl_keys s ! p) v"
  shows "flights_inv outcome (settle p v s)"
proof -
  note inv = flights_invD [OF assms(1)]
  have mine: "fl_inFlight s (fl_keys s ! p) = Some p" using inv(1) assms(2,3) by simp
  have running: "fl_inFlight (settle p v s) k = Some q \<longleftrightarrow>
      q < length (fl_keys s) \<and> fl_keys s ! q = k \<and> fl_results (settle p v s) q = None" for k q
    using inv(1) [of k q] mine by (cases "k = fl_keys s ! p"; cases "q = p") (auto simp: settle_def)
  show ?thesis
    unfolding flights_inv_def
  proof (intro conjI allI)
    show "fl_inFlight (settle p v s) k = Some q \<longleftrightarrow> q < length (fl_keys (settle p v s)) \<and>
        fl_keys (settle p v s) ! q = k \<and> fl_results (settle p v s) q = None" for k q
      using running [of k q] by (simp add: settle_def)
    show "fl_waiting (settle p v s) c = Some (k', q) \<longrightarrow>
        q < length (fl_keys (settle p v s)) \<and> fl_keys (settle p v s) ! q = k'" for c k' q
      using inv(2) [of c k' q] by (simp add: settle_def)
    show "fl_results (settle p v s) q = Some w \<longrightarrow>
        q < length (fl_keys (settle p v s)) \<and> outcome (fl_keys (settle p v s) ! q) w" for q w
      using inv(3) [of q w] assms(2,4) by (auto simp: settle_def)
    show "\<forall>(c, k, v) \<in> set (fl_answers (settle p v s)). outcome k v" using inv(4) by (auto simp: settle_def)
  qed
qed

lemma flight_step_inv: "flight_step outcome s t \<Longrightarrow> flights_inv outcome s \<Longrightarrow> flights_inv outcome t"
proof (induction rule: flight_step.induct)
  case (ask s c k p s')
  from share_inv [OF ask.prems ask.hyps(2)] show ?case by (auto simp: flights_inv_def)
next
  case (finish p s v)
  from settle_inv [OF finish.prems finish.hyps] show ?case .
next
  case (answer s c k p v)
  then have "outcome k v" using flights_invD(2,3) by metis
  with answer.prems show ?case by (auto simp: flights_inv_def)
qed

lemma flights_run_inv: "flights_run outcome s t \<Longrightarrow> flights_inv outcome s \<Longrightarrow> flights_inv outcome t"
  by (induction rule: flights_run.induct) (blast intro: flight_step_inv)+

lemma reachable_inv: "flights_reachable outcome s \<Longrightarrow> flights_inv outcome s"
  using flights_run_inv flights_inv_start by blast

section \<open>What sharing gives\<close>

text \<open>
  C4: at no time are two pieces of work for the same key under way, in whatever order callers ask and
  work ends: an unsettled promise is the only one of its key, and the map leads to it.
\<close>

theorem one_flight_per_key:
  assumes "flights_reachable outcome s" "p < length (fl_keys s)" "q < length (fl_keys s)"
    "fl_keys s ! p = fl_keys s ! q" "fl_results s p = None" "fl_results s q = None"
  shows "p = q \<and> fl_inFlight s (fl_keys s ! p) = Some p"
proof -
  note inv = flights_invD(1) [OF reachable_inv [OF assms(1)]]
  have "fl_inFlight s (fl_keys s ! p) = Some p" "fl_inFlight s (fl_keys s ! p) = Some q"
    using inv assms(2-) by auto
  then show ?thesis by simp
qed

text \<open>
  Nobody waits in vain: whoever waits in a reachable state can be answered, once the work for the key
  ends, by at most two further steps, and the answer is an outcome of the work for the key that was
  asked for.
\<close>

theorem every_caller_is_answered:
  assumes "flights_reachable outcome s" "fl_waiting s c = Some (k, p)" "outcome k v"
  shows "\<exists>t w. flights_run outcome s t \<and> fl_waiting t c = None \<and> hd (fl_answers t) = (c, k, w) \<and> outcome k w"
proof -
  note inv = flights_invD [OF reachable_inv [OF assms(1)]]
  have p: "p < length (fl_keys s)" "fl_keys s ! p = k" using inv(2) [OF assms(2)] by auto
  let ?answered = "\<lambda>s w. s\<lparr>fl_waiting := (fl_waiting s)(c := None), fl_answers := (c, k, w) # fl_answers s\<rparr>"
  show ?thesis
  proof (cases "fl_results s p")
    case (Some w)
    then have "flight_step outcome s (?answered s w)" by (rule flight_step.answer [OF assms(2)])
    with flights_run.more [OF flights_run.here] inv(3) [OF Some] p(2) show ?thesis
      by (intro exI [of _ "?answered s w"] exI [of _ w]) auto
  next
    case None
    let ?s = "settle p v s"
    have "flight_step outcome s ?s" using p None assms(3) by (intro flight_step.finish) auto
    then have run: "flights_run outcome s ?s" by (rule flights_run.more [OF flights_run.here])
    have "fl_waiting ?s c = Some (k, p)" "fl_results ?s p = Some v" using assms(2) by (simp_all add: settle_def)
    then have "flight_step outcome ?s (?answered ?s v)" by (rule flight_step.answer)
    with run have "flights_run outcome s (?answered ?s v)" by (rule flights_run.more)
    with assms(3) show ?thesis by (intro exI [of _ "?answered ?s v"] exI [of _ v]) simp
  qed
qed

section \<open>Shared scans\<close>

text \<open>\<open>resolve\<close>: the key of a scan is the digest of the extended public key and the gap.\<close>

definition flight_key :: "('n, 'p, 's) hd_env \<Rightarrow> network \<Rightarrow> string \<Rightarrow> nat \<Rightarrow> string" where
  "flight_key k net xpub gapLimit = digest k net xpub @ '':'' @ dec_nat gapLimit"

definition resolve ::
  "('n, 'p, 's) xpub_env \<Rightarrow> string \<Rightarrow> nat \<Rightarrow> (string, 'c, 'v) flights \<Rightarrow> nat \<times> (string, 'c, 'v) flights" where
  "resolve e xpub gapLimit s = share (flight_key (xe_hd e) (xe_network e) xpub gapLimit) s"

text \<open>A scan ends with what \<open>scan_xpub\<close> gives at some time, on a cache that is sound for the key.\<close>

definition scan_outcome ::
  "('n, 'p, 's) xpub_env \<Rightarrow> (string \<Rightarrow> nat \<Rightarrow> nat \<Rightarrow> string) \<Rightarrow> string set \<Rightarrow> string \<Rightarrow> ResolvedXpub result \<Rightarrow> bool" where
  "scan_outcome e addr xpubs key r \<longleftrightarrow>
     (\<exists>xpub \<in> xpubs. \<exists>gap now s. key = flight_key (xe_hd e) (xe_network e) xpub gap \<and>
        sound_wallet_cache e xpub (addr xpub) now s \<and> r = fst (scan_xpub e now xpub gap s))"

lemma flight_key_inj:
  "flight_key k net xpub gap = flight_key k net xpub' gap' \<Longrightarrow> digest k net xpub = digest k net xpub' \<and> gap = gap'"
proof -
  assume same: "flight_key k net xpub gap = flight_key k net xpub' gap'"
  have tail: "takeWhile (\<lambda>c. c \<noteq> CHR '':'') (rev (dg @ '':'' @ dec_nat g)) = rev (dec_nat g)" for dg g
  proof -
    have "takeWhile (\<lambda>c. c \<noteq> CHR '':'') (rev (dec_nat g) @ CHR '':'' # rev dg) = rev (dec_nat g)"
      by (subst takeWhile_append2) (use dec_nat_no_colon [of g] in auto)
    then show ?thesis by simp
  qed
  have "dec_nat gap = dec_nat gap'"
    using tail same by (metis flight_key_def rev_rev_ident)
  with same show ?thesis by (simp add: flight_key_def)
qed

text \<open>
  C5: sharing is invisible: as long as no two keys in use have the same digest, every caller who is
  answered gets the wallet of the key and the gap that it asked for, whoever started the scan.
\<close>

theorem shared_scans_are_right:
  assumes "flights_reachable (scan_outcome e addr xpubs) s"
    "(c, flight_key (xe_hd e) (xe_network e) xpub gap, r) \<in> set (fl_answers s)" "xpub \<in> xpubs"
    "keyed (xe_db e)" "\<forall>x \<in> xpubs. derivable e x (addr x)"
    "inj_on (digest (xe_hd e) (xe_network e)) xpubs"
  shows "\<exists>r0 r1. branch_scanned (xe_db e) (addr xpub 0) gap 0 r0 \<and>
    branch_scanned (xe_db e) (addr xpub 1) gap 1 r1 \<and> r = Inr (resolved_of [r0, r1])"
proof -
  have "scan_outcome e addr xpubs (flight_key (xe_hd e) (xe_network e) xpub gap) r"
    using flights_invD(4) [OF reachable_inv [OF assms(1)] assms(2)] .
  then obtain x g now cache where x: "x \<in> xpubs"
    "flight_key (xe_hd e) (xe_network e) xpub gap = flight_key (xe_hd e) (xe_network e) x g"
    "sound_wallet_cache e x (addr x) now cache" "r = fst (scan_xpub e now x g cache)"
    by (auto simp: scan_outcome_def)
  then have "x = xpub" "g = gap"
    using flight_key_inj [OF x(2)] assms(3,6) by (auto dest: inj_onD)
  with x assms(5) have "derivable e xpub (addr xpub)" "sound_wallet_cache e xpub (addr xpub) now cache"
    "r = fst (scan_xpub e now xpub gap cache)" by auto
  with scan_xpub_result [OF assms(4), of xpub "addr xpub" now cache gap] show ?thesis by metis
qed

section \<open>Sample flights\<close>

text \<open>Two callers ask for the same key, a third one for another key.\<close>

definition sample_flights :: "(string, nat, ResolvedXpub result) flights" where
  "sample_flights =
     \<lparr>fl_inFlight = [''a'' \<mapsto> 0, ''b'' \<mapsto> 1], fl_keys = [''a'', ''b''], fl_results = (\<lambda>_. None),
      fl_waiting = [0 \<mapsto> (''a'', 0), 1 \<mapsto> (''a'', 0), 2 \<mapsto> (''b'', 1)], fl_answers = []\<rparr>"

definition sample_ask :: "nat \<Rightarrow> string \<Rightarrow> (string, nat, 'v) flights \<Rightarrow> (string, nat, 'v) flights" where
  "sample_ask c k s = (let (p, s') = share k s in s'\<lparr>fl_waiting := (fl_waiting s')(c \<mapsto> (k, p))\<rparr>)"

lemma sample_ask_step: "fl_waiting s c = None \<Longrightarrow> flight_step outcome s (sample_ask c k s)"
  by (auto simp: sample_ask_def split: prod.splits intro: flight_step.ask)

lemma sample_reachable: "flights_reachable outcome sample_flights"
proof -
  have "sample_flights = sample_ask 2 ''b'' (sample_ask 1 ''a'' (sample_ask 0 ''a'' no_flights))"
    by (auto simp: sample_flights_def sample_ask_def share_def no_flights_def Let_def)
  moreover have "flights_reachable outcome (sample_ask 2 ''b'' (sample_ask 1 ''a'' (sample_ask 0 ''a'' no_flights)))"
    by (intro flights_run.more [OF _ sample_ask_step] flights_run.here)
       (simp_all add: sample_ask_def share_def no_flights_def Let_def)
  ultimately show ?thesis by simp
qed

theorem one_flight_per_key_witness:
  "fl_inFlight sample_flights (fl_keys sample_flights ! 1) = Some 1"
  using one_flight_per_key [OF sample_reachable, of 1 1] by (simp add: sample_flights_def)

theorem every_caller_is_answered_witness:
  "\<exists>t w. flights_run (\<lambda>_ r. r = Inl TypeFailure) sample_flights t \<and> fl_waiting t 1 = None \<and>
     hd (fl_answers t) = (1, ''a'', w)"
  using every_caller_is_answered [OF sample_reachable, of 1 "''a''" 0 "\<lambda>_ r. r = Inl TypeFailure" "Inl TypeFailure"]
  by (auto simp: sample_flights_def)

definition sample_answered :: "ResolvedXpub result \<Rightarrow> (string, nat, ResolvedXpub result) flights" where
  "sample_answered r =
     (let k = flight_key sample_hd Testnet ''xpub'' 2;
          s = settle 0 r (sample_ask 0 k no_flights)
      in s\<lparr>fl_waiting := (fl_waiting s)(0 := None), fl_answers := (0, k, r) # fl_answers s\<rparr>)"

lemma sample_answered_reachable:
  assumes "outcome (flight_key sample_hd Testnet ''xpub'' 2) r"
  shows "flights_reachable outcome (sample_answered r)"
proof -
  let ?k = "flight_key sample_hd Testnet ''xpub'' 2"
  let ?asked = "sample_ask 0 ?k no_flights"
  have "flights_reachable outcome ?asked"
    by (rule flights_run.more [OF flights_run.here sample_ask_step]) (simp add: no_flights_def)
  then have "flights_reachable outcome (settle 0 r ?asked)"
    by (rule flights_run.more) (rule flight_step.finish, use assms in \<open>simp_all add: sample_ask_def share_def no_flights_def\<close>)
  then show ?thesis
    unfolding sample_answered_def Let_def
    by (rule flights_run.more)
       (rule flight_step.answer, simp_all add: settle_def sample_ask_def share_def no_flights_def)
qed

theorem shared_scans_are_right_witness:
  "\<exists>r0 r1 r. flights_reachable (scan_outcome sample_xpub_env (\<lambda>_. sample_branch) {''xpub''}) (sample_answered r) \<and>
     branch_scanned sample_wallet_db (sample_branch 0) 2 0 r0 \<and> r = Inr (resolved_of [r0, r1])"
proof -
  define r where "r = fst (scan_xpub sample_xpub_env 0 ''xpub'' 2 (\<lambda>_. None))"
  have env: "xe_hd sample_xpub_env = sample_hd" "xe_network sample_xpub_env = Testnet"
    "xe_db sample_xpub_env = sample_wallet_db"
    by (simp_all add: sample_xpub_env_def)
  have "scan_outcome sample_xpub_env (\<lambda>_. sample_branch) {''xpub''} (flight_key sample_hd Testnet ''xpub'' 2) r"
    unfolding scan_outcome_def r_def env using sample_sound by blast
  from sample_answered_reachable [of "scan_outcome sample_xpub_env (\<lambda>_. sample_branch) {''xpub''}", OF this]
  have reach: "flights_reachable (scan_outcome sample_xpub_env (\<lambda>_. sample_branch) {''xpub''}) (sample_answered r)" .
  have "(0, flight_key (xe_hd sample_xpub_env) (xe_network sample_xpub_env) ''xpub'' 2, r) \<in> set (fl_answers (sample_answered r))"
    by (simp add: sample_answered_def env Let_def)
  from shared_scans_are_right [OF reach this] reach show ?thesis
    using sample_xpub_keyed sample_derivable unfolding env by auto
qed

end
