(* ===== verification/Market.thy ===== *)
theory Market
  imports CacheModel Http Sql
begin

text \<open>
  \<open>api/src/services/MarketService.ts\<close> and \<open>api/src/controllers/MarketController.ts\<close>: prices, market caps,
  volumes and their history, from two providers behind a cache that answers with old values while a
  provider cannot be reached. The providers are parameters; their JSON is read at the types the code
  declares for it. A time is passed for every reading of the clock.
\<close>

section \<open>Data\<close>

datatype Currency = Usd | Btc

fun currency_text :: "Currency \<Rightarrow> string" where
  "currency_text Usd = ''usd''"
| "currency_text Btc = ''btc''"

record DataPoint =
  dp_timestamp :: int
  dp_value :: jsnum

record CurrentData =
  cd_price :: rat
  cd_marketCap :: "rat option"
  cd_volume :: "rat option"

record MarketChart =
  mc_prices :: "DataPoint list"
  mc_marketCaps :: "DataPoint list"
  mc_volumes :: "DataPoint list"

text \<open>An entry of the cache with its age, and the marker of an upstream that is down.\<close>

datatype 'v market_value = Entry 'v int | Down

section \<open>Fetching\<close>

text \<open>A request fails, or has a status and a body that may be no JSON.\<close>

datatype 'a answer = Unreachable string | Answer bool int "'a option"

fun fetchJson :: "'a answer \<Rightarrow> string \<Rightarrow> 'a result" where
  "fetchJson (Unreachable message) provider = Inl (PlainError message)"
| "fetchJson (Answer ok status body) provider =
     (if \<not> ok then Inl (PlainError (provider @ '' error: '' @ dec_int status))
      else case body of None \<Rightarrow> Inl (PlainError ''Unexpected token'') | Some doc \<Rightarrow> Inr doc)"

text \<open>\<open>Math.floor(timestampMs / 1000 / 3600) * 3600\<close>; a \<open>Map\<close> keeps the last value of an hour.\<close>

definition hour_of :: "int \<Rightarrow> int" where
  "hour_of timestampMs = timestampMs div 3600000 * 3600"

definition compactToHourly :: "(int \<times> jsnum) list \<Rightarrow> DataPoint list" where
  "compactToHourly points =
     (let byHour = foldl (\<lambda>m (timestampMs, value). AList.update (hour_of timestampMs) value m) [] points
      in map (\<lambda>(timestamp, value). \<lparr>dp_timestamp = timestamp, dp_value = value\<rparr>) (js_sort (by_key fst) byHour))"

text \<open>\<open>parseFloat\<close>: the longest prefix that is a number, \<open>NaN\<close> when there is none.\<close>

definition signed_decimal :: "string \<Rightarrow> jsnum" where
  "signed_decimal s =
     (case s of
        [] \<Rightarrow> NaN
      | c # cs \<Rightarrow> if c = CHR ''-'' then neg_num (decimal_number cs)
                  else if c = CHR ''+'' then decimal_number cs else decimal_number s)"

fun longest_number :: "nat \<Rightarrow> string \<Rightarrow> jsnum" where
  "longest_number 0 s = NaN"
| "longest_number (Suc n) s =
     (case signed_decimal (take (Suc n) s) of NaN \<Rightarrow> longest_number n s | v \<Rightarrow> v)"

definition parseFloat :: "string \<Rightarrow> jsnum" where
  "parseFloat s = (let t = dropWhile is_space s in longest_number (length t) t)"

section \<open>Providers\<close>

record coingecko_simple =
  cg_dash :: "(string \<Rightarrow> rat js) js"

record kraken_pair =
  kp_c :: "string list js"

record kraken_ticker =
  kt_error :: "string list js"
  kt_result :: "(string \<times> kraken_pair js) list js"

record coingecko_chart =
  cc_prices :: "(int \<times> jsnum) list js"
  cc_market_caps :: "(int \<times> jsnum) list js"
  cc_total_volumes :: "(int \<times> jsnum) list js"

record candle =
  cn_timestamp :: int
  cn_close :: string
  cn_volume :: string

datatype ohlc_entry = Candles "candle list" | Scalar rat

record kraken_ohlc =
  ko_error :: "string list js"
  ko_result :: "(string \<times> ohlc_entry) list js"

record web =
  web_simple :: "string \<Rightarrow> coingecko_simple answer"
  web_ticker :: "string \<Rightarrow> kraken_ticker answer"
  web_chart :: "string \<Rightarrow> coingecko_chart answer"
  web_ohlc :: "string \<Rightarrow> kraken_ohlc answer"

definition simple_url :: "Currency \<Rightarrow> string" where
  "simple_url currency =
     ''https://api.coingecko.com/api/v3/simple/price?ids=dash&vs_currencies='' @ currency_text currency @
     ''&include_market_cap=true&include_24hr_vol=true''"

definition coingeckoCurrent :: "web \<Rightarrow> Currency \<Rightarrow> CurrentData result" where
  "coingeckoCurrent w currency =
     bind_result (fetchJson (web_simple w (simple_url currency)) ''CoinGecko'') (\<lambda>doc.
       let dash = (case cg_dash doc of J d \<Rightarrow> d | _ \<Rightarrow> (\<lambda>_. JUndef)) in
       case or_null (dash (currency_text currency)) of
         None \<Rightarrow> Inl (PlainError (''CoinGecko returned no '' @ currency_text currency @ '' price for dash''))
       | Some price \<Rightarrow>
           Inr \<lparr>cd_price = price, cd_marketCap = or_null (dash (currency_text currency @ ''_market_cap'')),
                cd_volume = or_null (dash (currency_text currency @ ''_24h_vol''))\<rparr>)"

definition reported :: "string list js \<Rightarrow> string list" where
  "reported errors = coalesce errors []"

definition kraken_failure :: "string list \<Rightarrow> api_error" where
  "kraken_failure errors = PlainError (''Kraken error: '' @ js_join '', '' errors)"

text \<open>\<open>Object.values(data.result ?? {})[0]?.c?.[0]\<close>; \<open>parseFloat(undefined)\<close> is \<open>NaN\<close>.\<close>

definition ticker_text :: "kraken_ticker \<Rightarrow> string option" where
  "ticker_text doc =
     Option.bind (first (coalesce (kt_result doc) [])) (\<lambda>(_, pair).
       Option.bind (or_null pair) (\<lambda>p. Option.bind (or_null (kp_c p)) first))"

definition krakenLastPrice :: "web \<Rightarrow> string \<Rightarrow> rat result" where
  "krakenLastPrice w pair =
     bind_result (fetchJson (web_ticker w (''https://api.kraken.com/0/public/Ticker?pair='' @ pair)) ''Kraken'') (\<lambda>doc.
       if reported (kt_error doc) \<noteq> [] then Inl (kraken_failure (reported (kt_error doc)))
       else case map_option parseFloat (ticker_text doc) of
              Some (Fin price) \<Rightarrow>
                if price \<le> 0 then Inl (PlainError (''Kraken returned no ticker for '' @ pair)) else Inr price
            | _ \<Rightarrow> Inl (PlainError (''Kraken returned no ticker for '' @ pair)))"

definition krakenCurrentPrice :: "web \<Rightarrow> Currency \<Rightarrow> rat result" where
  "krakenCurrentPrice w currency =
     (if currency = Usd then krakenLastPrice w ''DASHUSD''
      else bind_result (krakenLastPrice w ''DASHUSD'') (\<lambda>dashUsd.
           bind_result (krakenLastPrice w ''XBTUSD'') (\<lambda>btcUsd. Inr (dashUsd / btcUsd))))"

definition coingeckoHistoricalChart :: "web \<Rightarrow> Currency \<Rightarrow> MarketChart result" where
  "coingeckoHistoricalChart w currency =
     bind_result (fetchJson (web_chart w (''https://api.coingecko.com/api/v3/coins/dash/market_chart?vs_currency='' @
         currency_text currency @ ''&days=1'')) ''CoinGecko'') (\<lambda>doc.
       case or_null (cc_prices doc) of
         None \<Rightarrow> Inl (PlainError ''CoinGecko returned no chart for dash'')
       | Some prices \<Rightarrow>
           Inr \<lparr>mc_prices = compactToHourly prices,
                mc_marketCaps = compactToHourly (coalesce (cc_market_caps doc) []),
                mc_volumes = compactToHourly (coalesce (cc_total_volumes doc) [])\<rparr>)"

definition krakenHistoricalUsd :: "web \<Rightarrow> MarketChart result" where
  "krakenHistoricalUsd w =
     bind_result (fetchJson (web_ohlc w ''https://api.kraken.com/0/public/OHLC?pair=DASHUSD&interval=60'') ''Kraken'') (\<lambda>doc.
       if reported (ko_error doc) \<noteq> [] then Inl (kraken_failure (reported (ko_error doc)))
       else (let candles = (case find (\<lambda>(key, _). key \<noteq> ''last'') (coalesce (ko_result doc) []) of
                              Some (_, Candles cs) \<Rightarrow> cs | _ \<Rightarrow> [])
             in if candles = [] then Inl (PlainError ''Kraken returned no candles for DASHUSD'')
                else (let window = js_slice_from candles (-24) in
                  Inr \<lparr>mc_prices = map (\<lambda>c. \<lparr>dp_timestamp = cn_timestamp c, dp_value = parseFloat (cn_close c)\<rparr>) window,
                       mc_marketCaps = [],
                       mc_volumes = map (\<lambda>c. \<lparr>dp_timestamp = cn_timestamp c, dp_value = parseFloat (cn_volume c)\<rparr>) window\<rparr>)))"

section \<open>The cache in front of the providers\<close>

definition down_key :: "string \<Rightarrow> string" where "down_key key = key @ '':down''"

definition entry_of :: "'v market_value option \<Rightarrow> ('v \<times> int) option" where
  "entry_of c = (case c of Some (Entry v fetchedAt) \<Rightarrow> Some (v, fetchedAt) | _ \<Rightarrow> None)"

text \<open>
  \<open>load\<close> without a promise in flight: \<open>now\<close> is the time of the checks, \<open>later\<close> the time at which the
  provider has answered or failed; \<open>fetched\<close> is what it answers, when it is asked.
\<close>

definition load ::
  "string \<Rightarrow> int \<Rightarrow> int \<Rightarrow> int \<Rightarrow> 'v result \<Rightarrow> 'v market_value redis \<Rightarrow> 'v result \<times> 'v market_value redis" where
  "load key ttlMs now later fetched s =
     (let (c, s) = cache_get now key s; cached = entry_of c in
      case cached of
        Some (v, fetchedAt) \<Rightarrow>
          if now - fetchedAt < ttlMs then (Inr v, s)
          else (let (down, s) = cache_get now (down_key key) s in
                if down \<noteq> None then (Inr v, s)
                else (case fetched of
                        Inr w \<Rightarrow> (Inr w, cache_set later key (Entry w later) (Some MARKET_STALE_LIFE_TIME) s)
                      | Inl e \<Rightarrow> (Inr v, cache_set later (down_key key) Down (Some MARKET_FAILURE_LIFE_TIME) s)))
      | None \<Rightarrow>
          (let (down, s) = cache_get now (down_key key) s in
           if down \<noteq> None then (Inl (PlainError (''Upstream for '' @ key @ '' is down'')), s)
           else (case fetched of
                   Inr w \<Rightarrow> (Inr w, cache_set later key (Entry w later) (Some MARKET_STALE_LIFE_TIME) s)
                 | Inl e \<Rightarrow> (Inl e, cache_set later (down_key key) Down (Some MARKET_FAILURE_LIFE_TIME) s))))"

record market_state =
  ms_currents :: "CurrentData market_value redis"
  ms_charts :: "MarketChart market_value redis"

text \<open>
  The entries of the two types share one Redis; no key is used for both, so they are kept apart.
  \<open>clock 0\<close> and \<open>clock 1\<close> are the times of the first \<open>load\<close>, \<open>clock 2\<close> and \<open>clock 3\<close> those of the second.
\<close>

definition current_key :: "Currency \<Rightarrow> string" where
  "current_key currency = ''market:current:'' @ currency_text currency"

definition fallback_key :: "Currency \<Rightarrow> string" where
  "fallback_key currency = ''market:fallback:'' @ currency_text currency"

definition price_only :: "rat \<Rightarrow> CurrentData" where
  "price_only price = \<lparr>cd_price = price, cd_marketCap = None, cd_volume = None\<rparr>"

definition getCurrentData ::
  "web \<Rightarrow> Currency \<Rightarrow> (nat \<Rightarrow> int) \<Rightarrow> market_state \<Rightarrow> CurrentData result \<times> market_state" where
  "getCurrentData w currency clock s =
     (case load (current_key currency) MARKET_CACHE_LIFE_TIME (clock 0) (clock 1) (coingeckoCurrent w currency) (ms_currents s) of
        (Inr doc, c) \<Rightarrow> (Inr doc, s\<lparr>ms_currents := c\<rparr>)
      | (Inl _, c) \<Rightarrow>
          (case load (fallback_key currency) MARKET_CACHE_LIFE_TIME (clock 2) (clock 3)
                  (map_sum id price_only (krakenCurrentPrice w currency)) c of
             (Inr doc, c) \<Rightarrow> (Inr doc, s\<lparr>ms_currents := c\<rparr>)
           | (Inl _, c) \<Rightarrow> (Inl (MarketDataUnavailable ''Market data is not available''), s\<lparr>ms_currents := c\<rparr>)))"

definition getCurrentPrice :: "web \<Rightarrow> Currency \<Rightarrow> (nat \<Rightarrow> int) \<Rightarrow> market_state \<Rightarrow> rat result \<times> market_state" where
  "getCurrentPrice w currency clock s =
     (let (doc, s) = getCurrentData w currency clock s in (map_sum id cd_price doc, s))"

definition getCurrentMarketCap :: "web \<Rightarrow> Currency \<Rightarrow> (nat \<Rightarrow> int) \<Rightarrow> market_state \<Rightarrow> rat result \<times> market_state" where
  "getCurrentMarketCap w currency clock s =
     (let (doc, s) = getCurrentData w currency clock s in
      (bind_result doc (\<lambda>d. case cd_marketCap d of
         None \<Rightarrow> Inl (MarketDataUnavailable ''Market cap is not available'') | Some c \<Rightarrow> Inr c), s))"

definition getCurrentVolume :: "web \<Rightarrow> Currency \<Rightarrow> (nat \<Rightarrow> int) \<Rightarrow> market_state \<Rightarrow> rat result \<times> market_state" where
  "getCurrentVolume w currency clock s =
     (let (doc, s) = getCurrentData w currency clock s in
      (bind_result doc (\<lambda>d. case cd_volume d of
         None \<Rightarrow> Inl (MarketDataUnavailable ''Volume is not available'') | Some v \<Rightarrow> Inr v), s))"

definition chart_unavailable :: api_error where
  "chart_unavailable = MarketDataUnavailable ''Historical chart is not available''"

definition getHistoricalChart ::
  "web \<Rightarrow> Currency \<Rightarrow> (nat \<Rightarrow> int) \<Rightarrow> market_state \<Rightarrow> MarketChart result \<times> market_state" where
  "getHistoricalChart w currency clock s =
     (case load (''market:chart:'' @ currency_text currency) MARKET_CACHE_LIFE_TIME (clock 0) (clock 1)
             (coingeckoHistoricalChart w currency) (ms_charts s) of
        (Inr chart, c) \<Rightarrow> (Inr chart, s\<lparr>ms_charts := c\<rparr>)
      | (Inl _, c) \<Rightarrow>
          if currency \<noteq> Usd then (Inl chart_unavailable, s\<lparr>ms_charts := c\<rparr>)
          else (case load ''market:chart:fallback:usd'' MARKET_CACHE_LIFE_TIME (clock 2) (clock 3) (krakenHistoricalUsd w) c of
                  (Inr chart, c) \<Rightarrow> (Inr chart, s\<lparr>ms_charts := c\<rparr>)
                | (Inl _, c) \<Rightarrow> (Inl chart_unavailable, s\<lparr>ms_charts := c\<rparr>)))"

definition getHistorical ::
  "(MarketChart \<Rightarrow> DataPoint list) \<Rightarrow> web \<Rightarrow> Currency \<Rightarrow> (nat \<Rightarrow> int) \<Rightarrow> market_state \<Rightarrow> DataPoint list result \<times> market_state" where
  "getHistorical series w currency clock s =
     (let (chart, s) = getHistoricalChart w currency clock s in (map_sum id series chart, s))"

section \<open>Endpoints\<close>

definition price_handler :: "web \<Rightarrow> Currency \<Rightarrow> (nat \<Rightarrow> int) \<Rightarrow> market_state \<Rightarrow> (string \<times> rat) reply result \<times> market_state" where
  "price_handler w currency clock s =
     (let (price, s) = getCurrentPrice w currency clock s in
      (map_sum id (\<lambda>v. Sent 200 (currency_text currency, v)) price, s))"

definition market_cap_handler :: "web \<Rightarrow> Currency \<Rightarrow> (nat \<Rightarrow> int) \<Rightarrow> market_state \<Rightarrow> (string \<times> rat) reply result \<times> market_state" where
  "market_cap_handler w currency clock s =
     (let (cap, s) = getCurrentMarketCap w currency clock s in
      (map_sum id (\<lambda>v. Sent 200 (currency_text currency, v)) cap, s))"

definition volume_handler :: "web \<Rightarrow> Currency \<Rightarrow> (nat \<Rightarrow> int) \<Rightarrow> market_state \<Rightarrow> (string \<times> rat) reply result \<times> market_state" where
  "volume_handler w currency clock s =
     (let (volume, s) = getCurrentVolume w currency clock s in
      (map_sum id (\<lambda>v. Sent 200 (currency_text currency, v)) volume, s))"

definition historical_handler ::
  "(MarketChart \<Rightarrow> DataPoint list) \<Rightarrow> web \<Rightarrow> Currency \<Rightarrow> (nat \<Rightarrow> int) \<Rightarrow> market_state \<Rightarrow>
   DataPoint list reply result \<times> market_state" where
  "historical_handler series w currency clock s =
     (let (points, s) = getHistorical series w currency clock s in (map_sum id (Sent 200) points, s))"

section \<open>What a load answers\<close>

lemma down_key_other [simp]: "down_key key \<noteq> key"
  by (simp add: down_key_def)

lemma stale_pos: "0 < MARKET_STALE_LIFE_TIME" "0 < MARKET_FAILURE_LIFE_TIME"
  by (simp_all add: MARKET_STALE_LIFE_TIME_def MARKET_FAILURE_LIFE_TIME_def)

text \<open>Whether a load turns to its provider.\<close>

definition is_fresh :: "string \<Rightarrow> int \<Rightarrow> int \<Rightarrow> 'v market_value redis \<Rightarrow> bool" where
  "is_fresh key ttlMs now s \<longleftrightarrow>
     (\<exists>v fetchedAt. fst (cache_get now key s) = Some (Entry v fetchedAt) \<and> now - fetchedAt < ttlMs)"

definition is_down :: "string \<Rightarrow> int \<Rightarrow> 'v market_value redis \<Rightarrow> bool" where
  "is_down key now s \<longleftrightarrow> fst (cache_get now (down_key key) s) \<noteq> None"

lemma entry_of_Some: "entry_of c = Some (v, f) \<longleftrightarrow> c = Some (Entry v f)"
  by (auto simp: entry_of_def split: option.splits market_value.splits)

lemma entry_of_None: "entry_of c = None \<longleftrightarrow> (\<forall>v f. c \<noteq> Some (Entry v f))"
  by (auto simp: entry_of_def split: option.splits market_value.splits)

lemma load_alternatives:
  obtains s2 where
    "\<And>t k. fst (cache_get t k s2) = fst (cache_get t k s)"
    "load key ttlMs now later fetched s =
       (if is_fresh key ttlMs now s \<or> is_down key now s
        then (case entry_of (fst (cache_get now key s)) of
                Some (v, _) \<Rightarrow> Inr v
              | None \<Rightarrow> Inl (PlainError (''Upstream for '' @ key @ '' is down'')), s2)
        else case fetched of
               Inr w \<Rightarrow> (Inr w, cache_set later key (Entry w later) (Some MARKET_STALE_LIFE_TIME) s2)
             | Inl e \<Rightarrow> (case entry_of (fst (cache_get now key s)) of Some (v, _) \<Rightarrow> Inr v | None \<Rightarrow> Inl e,
                         cache_set later (down_key key) Down (Some MARKET_FAILURE_LIFE_TIME) s2))"
proof -
  obtain c s1 where c: "cache_get now key s = (c, s1)" by fastforce
  obtain d s2 where d: "cache_get now (down_key key) s1 = (d, s2)" by fastforce
  have s1: "fst (cache_get t k s1) = fst (cache_get t k s)" for t k
    using redis_cache.get_stable [of t k now key s] by (simp add: c)
  have s2: "fst (cache_get t k s2) = fst (cache_get t k s)" for t k
    using redis_cache.get_stable [of t k now "down_key key" s1] s1 by (simp add: d)
  have down: "is_down key now s \<longleftrightarrow> d \<noteq> None" using s1 [of now "down_key key"] by (simp add: is_down_def d)
  show ?thesis
  proof (cases "is_fresh key ttlMs now s")
    case True
    then obtain v f where "c = Some (Entry v f)" "now - f < ttlMs" by (auto simp: is_fresh_def c)
    with True show ?thesis by (intro that [of s1] s1) (simp add: load_def c entry_of_def Let_def)
  next
    case False
    then show ?thesis
      using down by (intro that [of s2] s2)
        (auto simp: load_def c d is_fresh_def entry_of_def Let_def split: option.splits market_value.splits sum.splits)
  qed
qed

text \<open>
  The invariant of the cache: an entry that can be read was answered by the provider of its key, at the
  time it carries and less than a day ago.
\<close>

definition holds_recent :: "(string \<Rightarrow> 'v \<Rightarrow> int \<Rightarrow> bool) \<Rightarrow> int \<Rightarrow> 'v market_value redis \<Rightarrow> bool" where
  "holds_recent answered now s \<longleftrightarrow>
     (\<forall>t key v f. now \<le> t \<longrightarrow> fst (cache_get t key s) = Some (Entry v f) \<longrightarrow>
        answered key v f \<and> f \<le> now \<and> t < f + MARKET_STALE_LIFE_TIME)"

lemma holds_recentD:
  assumes "holds_recent answered now s" "now \<le> t" "fst (cache_get t key s) = Some (Entry v f)"
  shows "answered key v f" "f \<le> now" "t < f + MARKET_STALE_LIFE_TIME"
  using assms by (auto simp: holds_recent_def)

lemma holds_recent_later: "holds_recent answered now s \<Longrightarrow> now \<le> later \<Longrightarrow> holds_recent answered later s"
  unfolding holds_recent_def by (meson order_trans)

lemma holds_recent_same:
  "(\<And>t k. fst (cache_get t k s') = fst (cache_get t k s)) \<Longrightarrow> holds_recent answered now s' = holds_recent answered now s"
  by (simp add: holds_recent_def)

lemma holds_recent_put:
  assumes "holds_recent answered now s" "answered key v now"
  shows "holds_recent answered now (cache_set now key (Entry v now) (Some MARKET_STALE_LIFE_TIME) s)"
  unfolding holds_recent_def
proof (intro allI impI)
  fix t k w f
  assume t: "now \<le> t" and hit: "fst (cache_get t k (cache_set now key (Entry v now) (Some MARKET_STALE_LIFE_TIME) s)) = Some (Entry w f)"
  show "answered k w f \<and> f \<le> now \<and> t < f + MARKET_STALE_LIFE_TIME"
  proof (cases "k = key")
    case True
    with hit stale_pos(1) assms(2) show ?thesis by (auto simp: redis_cache.get_put lives_def split: if_splits)
  next
    case False
    with hit have "fst (cache_get t k s) = Some (Entry w f)" by (subst (asm) redis_cache.get_put_other) auto
    then show ?thesis using holds_recentD [OF assms(1) t] by blast
  qed
qed

lemma holds_recent_down:
  assumes "holds_recent answered now s"
  shows "holds_recent answered now (cache_set now (down_key key) Down ttl s)"
  unfolding holds_recent_def
proof (intro allI impI)
  fix t k w f
  assume t: "now \<le> t" and hit: "fst (cache_get t k (cache_set now (down_key key) Down ttl s)) = Some (Entry w f)"
  have "k \<noteq> down_key key" using hit by (auto simp: redis_cache.get_put split: if_splits)
  with hit have "fst (cache_get t k s) = Some (Entry w f)" by (subst (asm) redis_cache.get_put_other) auto
  then show "answered k w f \<and> f \<le> now \<and> t < f + MARKET_STALE_LIFE_TIME"
    using holds_recentD [OF assms t] by blast
qed

lemma load_recent:
  assumes "holds_recent answered now s" "now \<le> later" "\<And>w. fetched = Inr w \<Longrightarrow> answered key w later"
  shows "holds_recent answered later (snd (load key ttlMs now later fetched s))"
    "fst (load key ttlMs now later fetched s) = Inr v \<Longrightarrow>
       \<exists>f. answered key v f \<and> f \<le> later \<and> now < f + MARKET_STALE_LIFE_TIME"
proof -
  obtain s2 where same: "\<And>t k. fst (cache_get t k s2) = fst (cache_get t k s)"
    and load: "load key ttlMs now later fetched s =
       (if is_fresh key ttlMs now s \<or> is_down key now s
        then (case entry_of (fst (cache_get now key s)) of
                Some (v, _) \<Rightarrow> Inr v
              | None \<Rightarrow> Inl (PlainError (''Upstream for '' @ key @ '' is down'')), s2)
        else case fetched of
               Inr w \<Rightarrow> (Inr w, cache_set later key (Entry w later) (Some MARKET_STALE_LIFE_TIME) s2)
             | Inl e \<Rightarrow> (case entry_of (fst (cache_get now key s)) of Some (v, _) \<Rightarrow> Inr v | None \<Rightarrow> Inl e,
                         cache_set later (down_key key) Down (Some MARKET_FAILURE_LIFE_TIME) s2))"
    by (rule load_alternatives [of s key ttlMs now later fetched]) blast
  have later: "holds_recent answered later s2"
    using holds_recent_later [OF assms(1,2)] holds_recent_same [of s2 s, OF same] by blast
  show "holds_recent answered later (snd (load key ttlMs now later fetched s))"
    unfolding load using later holds_recent_put [OF later] holds_recent_down [OF later] assms(3)
    by (auto split: sum.splits)
  have cached: "\<exists>f. answered key v f \<and> f \<le> later \<and> now < f + MARKET_STALE_LIFE_TIME"
    if "entry_of (fst (cache_get now key s)) = Some (v, f)" for v f
    using holds_recentD [OF assms(1) order_refl, of key v f] that assms(2) by (auto simp: entry_of_Some)
  show "fst (load key ttlMs now later fetched s) = Inr v \<Longrightarrow>
       \<exists>f. answered key v f \<and> f \<le> later \<and> now < f + MARKET_STALE_LIFE_TIME"
    unfolding load using cached assms(2,3) stale_pos(1)
    by (auto split: if_splits option.splits sum.splits prod.splits)
qed

text \<open>
  A price is never old and never made up: whatever the providers and the cache do, a price that is sent
  was quoted by one of the two providers, for the currency asked for, less than a day before the
  request, and the cache keeps holding nothing but such quotes.
\<close>

theorem price_is_recent_quote:
  assumes "holds_recent quoted (clock 0) (ms_currents s)"
    "clock 0 \<le> clock 1" "clock 1 \<le> clock 2" "clock 2 \<le> clock 3"
    "\<And>d. coingeckoCurrent w currency = Inr d \<Longrightarrow> quoted (current_key currency) d (clock 1)"
    "\<And>v. krakenCurrentPrice w currency = Inr v \<Longrightarrow> quoted (fallback_key currency) (price_only v) (clock 3)"
  shows "holds_recent quoted (clock 3) (ms_currents (snd (getCurrentPrice w currency clock s))) \<and>
    (\<forall>price. fst (getCurrentPrice w currency clock s) = Inr price \<longrightarrow>
       (\<exists>key \<in> {current_key currency, fallback_key currency}. \<exists>d f. quoted key d f \<and> cd_price d = price \<and>
          f \<le> clock 3 \<and> clock 0 < f + MARKET_STALE_LIFE_TIME))"
proof -
  obtain r1 c1 where r1: "load (current_key currency) MARKET_CACHE_LIFE_TIME (clock 0) (clock 1)
      (coingeckoCurrent w currency) (ms_currents s) = (r1, c1)" by fastforce
  obtain r2 c2 where r2: "load (fallback_key currency) MARKET_CACHE_LIFE_TIME (clock 2) (clock 3)
      (map_sum id price_only (krakenCurrentPrice w currency)) c1 = (r2, c2)" by fastforce
  have first: "holds_recent quoted (clock 1) c1"
    "r1 = Inr d \<Longrightarrow> \<exists>f. quoted (current_key currency) d f \<and> f \<le> clock 1 \<and> clock 0 < f + MARKET_STALE_LIFE_TIME" for d
    using load_recent(1) [OF assms(1,2), of "coingeckoCurrent w currency" "current_key currency" MARKET_CACHE_LIFE_TIME]
      load_recent(2) [OF assms(1,2), of "coingeckoCurrent w currency" "current_key currency" MARKET_CACHE_LIFE_TIME d]
      assms(5) by (simp_all only: r1 fst_conv snd_conv)
  have held: "holds_recent quoted (clock 2) c1" using first(1) assms(3) by (rule holds_recent_later)
  have kraken: "quoted (fallback_key currency) d (clock 3)"
    if "map_sum id price_only (krakenCurrentPrice w currency) = Inr d" for d
    using that assms(6) by (cases "krakenCurrentPrice w currency") auto
  have second: "holds_recent quoted (clock 3) c2"
    "r2 = Inr d \<Longrightarrow> \<exists>f. quoted (fallback_key currency) d f \<and> f \<le> clock 3 \<and> clock 2 < f + MARKET_STALE_LIFE_TIME" for d
    using load_recent(1) [OF held assms(4), of "map_sum id price_only (krakenCurrentPrice w currency)" "fallback_key currency"
        MARKET_CACHE_LIFE_TIME]
      load_recent(2) [OF held assms(4), of "map_sum id price_only (krakenCurrentPrice w currency)" "fallback_key currency"
        MARKET_CACHE_LIFE_TIME d]
      kraken by (simp_all only: r2 fst_conv snd_conv)
  have state: "ms_currents (snd (getCurrentPrice w currency clock s)) = (if isl r1 then c2 else c1)"
    "fst (getCurrentPrice w currency clock s) =
       (case r1 of Inr d \<Rightarrow> Inr (cd_price d)
        | Inl _ \<Rightarrow> (case r2 of Inr d \<Rightarrow> Inr (cd_price d) | Inl _ \<Rightarrow> Inl (MarketDataUnavailable ''Market data is not available'')))"
    unfolding getCurrentPrice_def getCurrentData_def r1 Let_def by (cases r1; cases r2; simp add: r2)+
  have "holds_recent quoted (clock 3) c1" using held assms(4) by (rule holds_recent_later)
  then have "holds_recent quoted (clock 3) (ms_currents (snd (getCurrentPrice w currency clock s)))"
    using second(1) by (simp add: state(1))
  moreover have "\<exists>key \<in> {current_key currency, fallback_key currency}. \<exists>d f. quoted key d f \<and> cd_price d = price \<and>
      f \<le> clock 3 \<and> clock 0 < f + MARKET_STALE_LIFE_TIME"
    if price: "fst (getCurrentPrice w currency clock s) = Inr price" for price
  proof (cases r1)
    case (Inr d)
    with first(2) obtain f where "quoted (current_key currency) d f" "f \<le> clock 1" "clock 0 < f + MARKET_STALE_LIFE_TIME"
      by blast
    with Inr price assms(3,4) show ?thesis by (fastforce simp: state(2))
  next
    case (Inl e)
    with price obtain d where d: "r2 = Inr d" "cd_price d = price" by (auto simp: state(2) split: sum.splits)
    with second(2) obtain f where "quoted (fallback_key currency) d f" "f \<le> clock 3" "clock 2 < f + MARKET_STALE_LIFE_TIME"
      by blast
    with d assms(2,3) show ?thesis by fastforce
  qed
  ultimately show ?thesis by blast
qed

text \<open>
  An outage costs one attempt: after a load has asked its provider in vain, no load of the key asks
  it again for the life time of the marker; what the provider would say makes no difference to what is
  answered and kept.
\<close>

theorem outage_costs_one_attempt:
  assumes "\<not> is_fresh key ttlMs now s" "\<not> is_down key now s" "later \<le> t" "t < later + MARKET_FAILURE_LIFE_TIME"
  shows "load key ttlMs t u fetched (snd (load key ttlMs now later (Inl e) s)) =
    load key ttlMs t u' fetched' (snd (load key ttlMs now later (Inl e) s))"
proof -
  let ?s = "snd (load key ttlMs now later (Inl e) s)"
  obtain s2 where "?s = cache_set later (down_key key) Down (Some MARKET_FAILURE_LIFE_TIME) s2"
    by (rule load_alternatives [of s key ttlMs now later "Inl e"]) (use assms(1,2) in simp)
  then have "is_down key t ?s"
    using assms(4) by (simp add: is_down_def redis_cache.get_put lives_def)
  moreover obtain c s1 where c: "cache_get t key ?s = (c, s1)" by fastforce
  moreover have "fst (cache_get t (down_key key) s1) = fst (cache_get t (down_key key) ?s)"
    using redis_cache.get_stable [of t "down_key key" t key ?s] by (simp add: c)
  ultimately show ?thesis
    by (auto simp: load_def is_down_def Let_def case_prod_beta split: option.splits)
qed

text \<open>
  The last known quote outlives its provider: while it can be read, price and market cap are answered
  from it however the provider fails, and the price-only fallback does not evict it.
\<close>

theorem last_quote_survives_outage:
  assumes "fst (cache_get (clock 0) (current_key currency) (ms_currents s)) = Some (Entry d f)"
    "coingeckoCurrent w currency = Inl e"
  shows "fst (getCurrentPrice w currency clock s) = Inr (cd_price d) \<and>
    fst (getCurrentMarketCap w currency clock s) =
      (case cd_marketCap d of None \<Rightarrow> Inl (MarketDataUnavailable ''Market cap is not available'') | Some cap \<Rightarrow> Inr cap) \<and>
    fst (cache_get t (current_key currency) (ms_currents (snd (getCurrentPrice w currency clock s)))) =
      fst (cache_get t (current_key currency) (ms_currents s))"
proof -
  let ?load = "load (current_key currency) MARKET_CACHE_LIFE_TIME (clock 0) (clock 1) (coingeckoCurrent w currency) (ms_currents s)"
  have "fst ?load = Inr d \<and> fst (cache_get t (current_key currency) (snd ?load)) = fst (cache_get t (current_key currency) (ms_currents s))"
    by (rule load_alternatives [of "ms_currents s" "current_key currency" MARKET_CACHE_LIFE_TIME "clock 0" "clock 1" "coingeckoCurrent w currency"])
       (simp add: assms entry_of_def redis_cache.get_put_other [OF down_key_other])
  then obtain c where "?load = (Inr d, c)"
    "fst (cache_get t (current_key currency) c) = fst (cache_get t (current_key currency) (ms_currents s))"
    by (cases ?load) auto
  then show ?thesis
    by (simp add: getCurrentPrice_def getCurrentMarketCap_def getCurrentData_def Let_def split: option.splits)
qed

text \<open>
  Nothing of a provider's failure leaks: whenever one of the market endpoints does not answer with
  data, it answers with status 503 and one of the four messages of the service.
\<close>

theorem market_failures_are_503:
  "((\<exists>v. respond (fst (price_handler w currency clock s)) = Sent 200 (currency_text currency, v)) \<or>
     respond (fst (price_handler w currency clock s)) = Refused 503 ''Market data is not available'') \<and>
   ((\<exists>v. respond (fst (market_cap_handler w currency clock s)) = Sent 200 (currency_text currency, v)) \<or>
     respond (fst (market_cap_handler w currency clock s)) \<in>
       Refused 503 ` {''Market data is not available'', ''Market cap is not available''}) \<and>
   ((\<exists>v. respond (fst (volume_handler w currency clock s)) = Sent 200 (currency_text currency, v)) \<or>
     respond (fst (volume_handler w currency clock s)) \<in>
       Refused 503 ` {''Market data is not available'', ''Volume is not available''}) \<and>
   ((\<exists>points. respond (fst (historical_handler series w currency clock s)) = Sent 200 points) \<or>
     respond (fst (historical_handler series w currency clock s)) = Refused 503 ''Historical chart is not available'')"
proof -
  have current: "(\<exists>d. fst (getCurrentData w currency clock s) = Inr d) \<or>
      fst (getCurrentData w currency clock s) = Inl (MarketDataUnavailable ''Market data is not available'')"
    by (auto simp: getCurrentData_def split: prod.splits sum.splits)
  have chart: "(\<exists>c. fst (getHistoricalChart w currency clock s) = Inr c) \<or>
      fst (getHistoricalChart w currency clock s) = Inl chart_unavailable"
    by (auto simp: getHistoricalChart_def split: prod.splits sum.splits)
  show ?thesis
  proof (intro conjI)
    show "(\<exists>v. respond (fst (price_handler w currency clock s)) = Sent 200 (currency_text currency, v)) \<or>
        respond (fst (price_handler w currency clock s)) = Refused 503 ''Market data is not available''"
      using current by (auto simp: price_handler_def getCurrentPrice_def case_prod_beta Let_def respond_def)
    show "(\<exists>v. respond (fst (market_cap_handler w currency clock s)) = Sent 200 (currency_text currency, v)) \<or>
        respond (fst (market_cap_handler w currency clock s)) \<in>
          Refused 503 ` {''Market data is not available'', ''Market cap is not available''}"
      using current
      by (auto simp: market_cap_handler_def getCurrentMarketCap_def case_prod_beta Let_def respond_def split: option.splits)
    show "(\<exists>v. respond (fst (volume_handler w currency clock s)) = Sent 200 (currency_text currency, v)) \<or>
        respond (fst (volume_handler w currency clock s)) \<in>
          Refused 503 ` {''Market data is not available'', ''Volume is not available''}"
      using current
      by (auto simp: volume_handler_def getCurrentVolume_def case_prod_beta Let_def respond_def split: option.splits)
    show "(\<exists>points. respond (fst (historical_handler series w currency clock s)) = Sent 200 points) \<or>
        respond (fst (historical_handler series w currency clock s)) = Refused 503 ''Historical chart is not available''"
      using chart
      by (auto simp: historical_handler_def getHistorical_def case_prod_beta Let_def respond_def chart_unavailable_def)
  qed
qed

section \<open>Hourly points\<close>

lemma hourly_map:
  "map_of (foldl (\<lambda>m (t, v). AList.update (hour_of t) v m) m points) h =
     (if h \<in> hour_of ` fst ` set points
      then Some (snd (last (filter (\<lambda>(t, _). hour_of t = h) points))) else map_of m h)"
proof (induction points arbitrary: m)
  case (Cons p points)
  obtain t v where p: "p = (t, v)" by fastforce
  have "h \<in> hour_of ` fst ` set points \<longleftrightarrow> filter (\<lambda>(t, _). hour_of t = h) points \<noteq> []"
    by (force simp: filter_empty_conv)
  then show ?case by (auto simp: p Cons update_conv')
qed simp

lemma hourly_distinct:
  "distinct (map fst m) \<Longrightarrow> distinct (map fst (foldl (\<lambda>m (t, v). AList.update (hour_of t) v m) m points))"
  by (induction points arbitrary: m) (auto simp: distinct_update)

text \<open>
  The hourly chart has one point for every hour that has a quote, in strictly ascending order, and its
  value is the last quote of that hour.
\<close>

theorem hourly_chart_exact:
  "sorted_wrt (<) (map dp_timestamp (compactToHourly points)) \<and>
   set (map dp_timestamp (compactToHourly points)) = (\<lambda>(t, _). hour_of t) ` set points \<and>
   (\<forall>p \<in> set (compactToHourly points).
      dp_value p = snd (last (filter (\<lambda>(t, _). hour_of t = dp_timestamp p) points)) \<and> 3600 dvd dp_timestamp p)"
proof -
  let ?m = "foldl (\<lambda>m (t, v). AList.update (hour_of t) v m) [] points"
  let ?sorted = "js_sort (by_key fst) ?m"
  have stamps: "map dp_timestamp (compactToHourly points) = map fst ?sorted"
    by (simp add: compactToHourly_def Let_def comp_def case_prod_beta)
  have distinct: "distinct (map fst ?m)" by (rule hourly_distinct) simp
  have "distinct (map fst ?sorted)"
    using distinct by (simp add: distinct_map)
  then have strict: "sorted_wrt (<) (map fst ?sorted)"
    using js_sort_by_key_sorted [of fst ?m] by (simp add: strict_sorted_iff)
  have member: "(h, v) \<in> set ?m \<longleftrightarrow>
      h \<in> hour_of ` fst ` set points \<and> v = snd (last (filter (\<lambda>(t, _). hour_of t = h) points))" for h v
    unfolding map_of_eq_Some_iff [OF distinct, symmetric] hourly_map by auto
  have "fst ` set ?m = dom (map_of ?m)" by (simp add: dom_map_of_conv_image_fst)
  also have "\<dots> = hour_of ` fst ` set points" by (auto simp: dom_def hourly_map)
  finally have "fst ` set ?m = hour_of ` fst ` set points" .
  then have "set (map dp_timestamp (compactToHourly points)) = (\<lambda>(t, _). hour_of t) ` set points"
    unfolding stamps by (simp add: image_image case_prod_beta)
  moreover have "dp_value p = snd (last (filter (\<lambda>(t, _). hour_of t = dp_timestamp p) points)) \<and> 3600 dvd dp_timestamp p"
    if "p \<in> set (compactToHourly points)" for p
  proof -
    from that obtain h v where "(h, v) \<in> set ?m" "p = \<lparr>dp_timestamp = h, dp_value = v\<rparr>"
      by (auto simp: compactToHourly_def Let_def)
    moreover from this have "v = snd (last (filter (\<lambda>(t, _). hour_of t = h) points))" "\<exists>t. h = hour_of t"
      by (auto simp: member)
    moreover have "3600 dvd hour_of t" for t by (simp add: hour_of_def)
    ultimately show ?thesis by auto
  qed
  ultimately show ?thesis using strict by (simp only: stamps) blast
qed

section \<open>Sample market\<close>

text \<open>CoinGecko quotes 30 for the dollar and nothing else; Kraken is not reached.\<close>

definition sample_web :: web where
  "sample_web =
     \<lparr>web_simple = (\<lambda>url. if url = simple_url Usd
        then Answer True 200 (Some \<lparr>cg_dash = J (\<lambda>k. if k = ''usd'' then J 30 else JUndef)\<rparr>)
        else Answer False 429 None),
      web_ticker = (\<lambda>_. Unreachable ''down''), web_chart = (\<lambda>_. Unreachable ''down''),
      web_ohlc = (\<lambda>_. Unreachable ''down'')\<rparr>"

definition empty_market :: market_state where
  "empty_market = \<lparr>ms_currents = (\<lambda>_. None), ms_charts = (\<lambda>_. None)\<rparr>"

lemma sample_quote: "coingeckoCurrent sample_web Usd = Inr \<lparr>cd_price = 30, cd_marketCap = None, cd_volume = None\<rparr>"
  by (simp add: coingeckoCurrent_def sample_web_def)

lemma sample_no_quote: "coingeckoCurrent sample_web Btc = Inl (PlainError (''CoinGecko'' @ '' error: '' @ dec_int 429))"
  by (simp add: coingeckoCurrent_def sample_web_def simple_url_def)

lemma sample_no_kraken: "krakenCurrentPrice sample_web currency = Inl (PlainError ''down'')"
  by (simp add: krakenCurrentPrice_def krakenLastPrice_def sample_web_def)

theorem price_is_recent_quote_witness:
  "fst (getCurrentPrice sample_web Usd (\<lambda>i. int i) empty_market) = Inr 30 \<and>
   holds_recent (\<lambda>_ d f. cd_price d = 30 \<and> f = 1) 3
     (ms_currents (snd (getCurrentPrice sample_web Usd (\<lambda>i. int i) empty_market)))"
proof -
  have start: "holds_recent (\<lambda>_ d f. cd_price d = 30 \<and> f = 1) (int 0) (ms_currents empty_market)"
    by (simp add: holds_recent_def empty_market_def cache_get_def redis_get_def)
  have "fst (getCurrentPrice sample_web Usd (\<lambda>i. int i) empty_market) = Inr 30"
    by (simp add: getCurrentPrice_def getCurrentData_def load_def sample_quote empty_market_def cache_get_def
        redis_get_def entry_of_def)
  with price_is_recent_quote [where quoted = "\<lambda>_ d f. cd_price d = 30 \<and> f = 1" and clock = "\<lambda>i. int i" and
      s = empty_market and w = sample_web and currency = Usd, OF start]
  show ?thesis by (simp add: sample_quote sample_no_kraken)
qed

theorem outage_costs_one_attempt_witness:
  "fst (load ''k'' 10 20000 30000 (Inr (1 :: nat)) (snd (load ''k'' 10 0 5 (Inl TypeFailure) (\<lambda>_. None)))) =
   fst (load ''k'' 10 20000 40000 (Inl QueryFailure) (snd (load ''k'' 10 0 5 (Inl TypeFailure) (\<lambda>_. None))))"
proof -
  have "\<not> is_fresh ''k'' 10 0 (\<lambda>_. None)" "\<not> is_down ''k'' 0 (\<lambda>_. None)"
    by (simp_all add: is_fresh_def is_down_def cache_get_def redis_get_def)
  from outage_costs_one_attempt [OF this, of 5 20000 30000 "Inr (1 :: nat)" TypeFailure 40000 "Inl QueryFailure"]
  show ?thesis by (simp add: MARKET_FAILURE_LIFE_TIME_def)
qed

theorem last_quote_survives_outage_witness:
  "fst (getCurrentMarketCap sample_web Btc (\<lambda>_. 7200000)
     \<lparr>ms_currents = cache_set 0 (current_key Btc)
        (Entry \<lparr>cd_price = 2, cd_marketCap = Some 9, cd_volume = None\<rparr> 0) (Some MARKET_STALE_LIFE_TIME) (\<lambda>_. None),
      ms_charts = (\<lambda>_. None)\<rparr>) = Inr 9"
proof -
  let ?s = "\<lparr>ms_currents = cache_set 0 (current_key Btc)
      (Entry \<lparr>cd_price = 2, cd_marketCap = Some 9, cd_volume = None\<rparr> 0) (Some MARKET_STALE_LIFE_TIME) (\<lambda>_. None),
    ms_charts = (\<lambda>_. None)\<rparr>"
  have "fst (cache_get ((\<lambda>_. 7200000) 0) (current_key Btc) (ms_currents ?s)) =
      Some (Entry \<lparr>cd_price = 2, cd_marketCap = Some 9, cd_volume = None\<rparr> 0)"
    by (simp add: redis_cache.get_put lives_def MARKET_STALE_LIFE_TIME_def)
  from last_quote_survives_outage [OF this sample_no_quote] show ?thesis by simp
qed

theorem hourly_chart_exact_witness:
  "map (\<lambda>p. (dp_timestamp p, dp_value p)) (compactToHourly [(3600001, Fin 1), (3, Fin 2), (3600005, Fin 4)]) =
     [(0, Fin 2), (3600, Fin 4)]"
proof -
  let ?ps = "[(3600001, Fin 1), (3, Fin 2), (3600005, Fin 4)] :: (int \<times> jsnum) list"
  have "map dp_timestamp (compactToHourly ?ps) = [0, 3600]"
    by (simp add: compactToHourly_def hour_of_def js_sort_def by_key_def)
  then obtain p q where pq: "compactToHourly ?ps = [p, q]" "dp_timestamp p = 0" "dp_timestamp q = 3600"
    by (auto simp: map_eq_Cons_conv)
  then have "dp_value p = Fin 2" "dp_value q = Fin 4"
    using hourly_chart_exact [of ?ps] by (auto simp: hour_of_def)
  with pq show ?thesis by simp
qed

end
