(* ===== verification/SuperblockClock.thy ===== *)
theory SuperblockClock
  imports Blocks Masternodes
begin

text \<open>
  \<open>frontend/src/lib/governance.ts\<close>: the clock of the governance cycle in the browser. It works from the
  height alone and is compared here with what the API says: the superblock heights of the chain
  statistics and the votes that a proposal needs.
\<close>

section \<open>Parameters\<close>

record GovernanceParams =
  gp_superblockInterval :: int
  gp_votingDeadlineBlocksBeforeSb :: int
  gp_blocksPerDay :: rat

fun getGovernanceParams :: "network \<Rightarrow> GovernanceParams" where
  "getGovernanceParams Mainnet =
     \<lparr>gp_superblockInterval = 16616, gp_votingDeadlineBlocksBeforeSb = 1662, gp_blocksPerDay = 55387 / 100\<rparr>"
| "getGovernanceParams Testnet =
     \<lparr>gp_superblockInterval = 24, gp_votingDeadlineBlocksBeforeSb = 2, gp_blocksPerDay = 576\<rparr>"

abbreviation sb_interval :: "network \<Rightarrow> int" where
  "sb_interval net \<equiv> gp_superblockInterval (getGovernanceParams net)"

definition resolveNetworkFromChain :: "string js \<Rightarrow> network \<Rightarrow> network" where
  "resolveNetworkFromChain chainName fallback =
     (if chainName = J ''main'' then Mainnet else if chainName = J ''test'' then Testnet else fallback)"

section \<open>The cycle\<close>

definition getPreviousSuperblockHeight :: "int \<Rightarrow> network \<Rightarrow> int" where
  "getPreviousSuperblockHeight currentHeight net =
     \<lfloor>of_int currentHeight / of_int (sb_interval net) :: rat\<rfloor> * sb_interval net"

definition getNextSuperblockHeight :: "int \<Rightarrow> network \<Rightarrow> int" where
  "getNextSuperblockHeight currentHeight net =
     \<lceil>of_int currentHeight / of_int (sb_interval net) :: rat\<rceil> * sb_interval net"

definition clamp01 :: "rat \<Rightarrow> rat" where
  "clamp01 v = min 1 (max 0 v)"

definition getSuperblockProgress :: "int \<Rightarrow> network \<Rightarrow> rat" where
  "getSuperblockProgress currentHeight net =
     (if currentHeight \<le> 0 then 0
      else clamp01 (of_int (currentHeight - getPreviousSuperblockHeight currentHeight net) / of_int (sb_interval net)))"

definition getRequiredVotes :: "int \<Rightarrow> int" where
  "getRequiredVotes masternodeCount = \<lfloor>of_int masternodeCount / 10 :: rat\<rfloor> + 1"

definition getBlocksUntilSuperblock :: "int \<Rightarrow> network \<Rightarrow> int" where
  "getBlocksUntilSuperblock currentHeight net = getNextSuperblockHeight currentHeight net - currentHeight"

definition defaultBlockTimeMs :: "network \<Rightarrow> rat" where
  "defaultBlockTimeMs net = (24 * 60 * 60 * 1000) / gp_blocksPerDay (getGovernanceParams net)"

definition getMsUntilSuperblock :: "int \<Rightarrow> network \<Rightarrow> rat js \<Rightarrow> rat" where
  "getMsUntilSuperblock currentHeight net blockTimeMs =
     of_int (getBlocksUntilSuperblock currentHeight net) * coalesce blockTimeMs (defaultBlockTimeMs net)"

definition getVotingDeadlineHeight :: "int \<Rightarrow> network \<Rightarrow> int" where
  "getVotingDeadlineHeight currentHeight net =
     getNextSuperblockHeight currentHeight net - gp_votingDeadlineBlocksBeforeSb (getGovernanceParams net)"

definition getVotingDeadline :: "int \<Rightarrow> int \<Rightarrow> network \<Rightarrow> rat js \<Rightarrow> date" where
  "getVotingDeadline now currentHeight net blockTimeMs =
     (let cutoff = getVotingDeadlineHeight currentHeight net;
          blocksRemaining = cutoff - currentHeight;
          ms = coalesce blockTimeMs (defaultBlockTimeMs net)
      in new_date (to_double (of_int now + of_int blocksRemaining * ms)))"

definition getVotingProgress :: "int \<Rightarrow> network \<Rightarrow> rat" where
  "getVotingProgress currentHeight net =
     (if currentHeight \<le> 0 then 0
      else (let prev = getPreviousSuperblockHeight currentHeight net;
                cutoff = getVotingDeadlineHeight currentHeight net;
                totalSpan = cutoff - prev
            in if totalSpan \<le> 0 then 1 else clamp01 (of_int (currentHeight - prev) / of_int totalSpan)))"

definition getBlocksUntilVotingDeadline :: "int \<Rightarrow> network \<Rightarrow> int" where
  "getBlocksUntilVotingDeadline currentHeight net = max 0 (getVotingDeadlineHeight currentHeight net - currentHeight)"

definition getMsUntilVotingDeadline :: "int \<Rightarrow> network \<Rightarrow> rat js \<Rightarrow> rat" where
  "getMsUntilVotingDeadline currentHeight net blockTimeMs =
     of_int (getBlocksUntilVotingDeadline currentHeight net) * coalesce blockTimeMs (defaultBlockTimeMs net)"

section \<open>Facts about the cycle\<close>

lemma sb_interval_pos [simp]: "0 < sb_interval net"
  by (cases net) simp_all

lemma sb_interval_api: "SUPERBLOCK_INTERVALS (chain_of net) = sb_interval net"
  by (cases net) simp_all

lemma previous_div: "getPreviousSuperblockHeight h net = h div sb_interval net * sb_interval net"
  by (simp add: getPreviousSuperblockHeight_def floor_divide_of_int_eq)

lemma next_div: "getNextSuperblockHeight h net = - ((- h) div sb_interval net) * sb_interval net"
  by (simp add: getNextSuperblockHeight_def ceiling_divide_eq_div)

lemma up_div:
  fixes h i :: int
  assumes "0 < i"
  shows "- ((- h) div i) * i = (if i dvd h then h else h div i * i + i)"
proof (cases "i dvd h")
  case True
  then show ?thesis using assms by auto
next
  case False
  then have q: "(- h) div i = - (h div i) - 1" using assms by (simp add: zdiv_zminus1_eq_if dvd_eq_mod_eq_0)
  show ?thesis unfolding q using False by (simp add: algebra_simps)
qed

lemma next_superblock: "getNextSuperblockHeight h net =
  (if sb_interval net dvd h then h else getPreviousSuperblockHeight h net + sb_interval net)"
  unfolding next_div previous_div by (rule up_div) simp

lemma previous_le: "getPreviousSuperblockHeight h net \<le> h"
  unfolding previous_div by (rule div_bounds(1)) simp

lemma previous_near: "h < getPreviousSuperblockHeight h net + sb_interval net"
  unfolding previous_div by (rule div_bounds(2)) simp

lemma previous_eq: "getPreviousSuperblockHeight h net = h \<longleftrightarrow> sb_interval net dvd h"
  unfolding previous_div by (metis dvd_div_mult_self dvd_triv_right)

lemma previous_dvd: "sb_interval net dvd getPreviousSuperblockHeight h net"
  unfolding previous_div by simp

lemma previous_greatest:
  assumes "sb_interval net dvd k" "k \<le> h"
  shows "k \<le> getPreviousSuperblockHeight h net"
proof -
  obtain j where j: "k = j * sb_interval net" using assms(1) by (auto simp: dvd_def mult.commute)
  have "j \<le> h div sb_interval net"
    using assms(2) j zdiv_mono1 [of k h "sb_interval net"] sb_interval_pos [of net] by simp
  then show ?thesis unfolding previous_div j by (intro mult_right_mono) (simp_all add: less_imp_le)
qed

lemma deadline_inside: "0 < gp_votingDeadlineBlocksBeforeSb (getGovernanceParams net)"
  "gp_votingDeadlineBlocksBeforeSb (getGovernanceParams net) < sb_interval net"
  by (cases net; simp)+

lemma clamp01_1: "clamp01 v = 1 \<longleftrightarrow> 1 \<le> v"
  by (auto simp: clamp01_def min_def max_def)

text \<open>
  The two clocks of the governance page never disagree: above height 0, the ring of the voting period is full
  exactly when no blocks are left until the deadline, so for every positive block time the page says
  that voting is closed exactly when it counts no time until the cutoff. The deadline lies in the
  cycle that ends with the next superblock.
\<close>

theorem voting_closed_consistent:
  assumes "0 < h" "0 < coalesce blockTimeMs (defaultBlockTimeMs net)"
  shows "(getVotingProgress h net = 1 \<longleftrightarrow> \<not> 0 < getMsUntilVotingDeadline h net blockTimeMs) \<and>
    (0 < getMsUntilVotingDeadline h net blockTimeMs \<longleftrightarrow> h < getVotingDeadlineHeight h net) \<and>
    getNextSuperblockHeight h net - sb_interval net < getVotingDeadlineHeight h net \<and>
    getVotingDeadlineHeight h net < getNextSuperblockHeight h net"
proof -
  let ?cut = "getVotingDeadlineHeight h net" and ?prev = "getPreviousSuperblockHeight h net"
  have ms: "0 < getMsUntilVotingDeadline h net blockTimeMs \<longleftrightarrow> h < ?cut"
    using assms(2) by (auto simp: getMsUntilVotingDeadline_def getBlocksUntilVotingDeadline_def zero_less_mult_iff)
  have "getVotingProgress h net = 1 \<longleftrightarrow> ?cut \<le> h"
  proof (cases "?cut \<le> ?prev")
    case True
    then show ?thesis using assms(1) previous_le [of h net] by (simp add: getVotingProgress_def Let_def)
  next
    case False
    then have "(of_int (h - ?prev) / of_int (?cut - ?prev) :: rat) \<ge> 1 \<longleftrightarrow> ?cut \<le> h"
      by (simp add: le_divide_eq)
    then show ?thesis using False assms(1) by (simp add: getVotingProgress_def clamp01_1 Let_def)
  qed
  with ms deadline_inside [of net] show ?thesis by (auto simp: getVotingDeadlineHeight_def)
qed

lemma chain_stats_superblocks:
  assumes "max_height d = Some h" "0 < n"
    "\<And>b. b \<in> set (db_blocks d) \<Longrightarrow> b_superblock b \<longleftrightarrow> sb_interval net dvd b_height b"
    "getPreviousSuperblockHeight h net \<in> b_height ` set (db_blocks d)"
  shows "cs_latestSuperblockHeight (getChainStats net d n k) = Some (getPreviousSuperblockHeight h net) \<and>
    cs_nextSuperblockHeight (getChainStats net d n k) =
      Some (getNextSuperblockHeight h net + (if sb_interval net dvd h then sb_interval net else 0))"
proof -
  let ?sbs = "filter b_superblock (db_blocks d)"
  let ?d = "d\<lparr>db_blocks := ?sbs\<rparr>"
  obtain b where b: "b \<in> set (db_blocks d)" "b_height b = getPreviousSuperblockHeight h net" using assms(4) by auto
  then have mem: "b \<in> set ?sbs" using assms(3) previous_dvd [of net h] by auto
  have "b_height a \<le> b_height b" if "a \<in> set ?sbs" for a
  proof -
    have a: "a \<in> set (db_blocks d)" "sb_interval net dvd b_height a" using that assms(3) by auto
    then have "b_height a \<le> h" using assms(1) by (auto simp: max_height_Some)
    with a(2) show ?thesis unfolding b(2) by (rule previous_greatest)
  qed
  then have "max_height ?d = Some (getPreviousSuperblockHeight h net)"
    using mem b(2) by (force simp: max_height_Some)
  then have first: "map_option b_height (first (order_by Desc (\<lambda>b. Some (b_height b)) ?sbs)) =
      Some (getPreviousSuperblockHeight h net)"
    using first_is_max [of ?d] by simp
  show ?thesis
    using first next_superblock [of h net] previous_eq [of h net]
    by (auto simp: getChainStats_def ChainStats_with_next_simp ChainStats_fromRow_def new_ChainStats_def
        chain_stats_row_def sb_interval_api Let_def)
qed

text \<open>
  Browser and API tell the same superblocks: when the blocks that the table marks as superblocks are
  those at the multiples of the interval and it holds the last one, the chain statistics name the
  previous superblock that the browser computes from the highest block, and the same next one, except
  in the block of a superblock itself, which the browser still counts as the next.
\<close>

theorem clock_agrees_with_chain_stats:
  assumes "max_height d = Some h" "0 < n"
    "\<And>b. b \<in> set (db_blocks d) \<Longrightarrow> b_superblock b \<longleftrightarrow> sb_interval net dvd b_height b"
    "getPreviousSuperblockHeight h net \<in> b_height ` set (db_blocks d)"
  shows "cs_latestSuperblockHeight (getChainStats net d n k) = Some (getPreviousSuperblockHeight h net) \<and>
    cs_nextSuperblockHeight (getChainStats net d n k) =
      Some (getNextSuperblockHeight h net + (if sb_interval net dvd h then sb_interval net else 0))"
  using assms by (rule chain_stats_superblocks)

text \<open>
  The page takes the number of all masternodes and adds one to its tenth; the API rounds a tenth of
  the votes of the enabled ones up. For enabled regular nodes alone the page asks for one vote more
  when their number is a multiple of ten, and for the same otherwise.
\<close>

lemma required_votes_of_regulars:
  assumes "\<And>r. r \<in> set table \<Longrightarrow> node_weight r = 1" "length table < 2 ^ 50"
  shows "getRequiredVotes (int (length table)) =
    requiredProposalVotes (getMasternodeStats table) + (if 10 dvd length table then 1 else 0)"
proof -
  have "sum_list (map node_weight table) = length table"
    using assms(1) by (induction table) auto
  then have api: "requiredProposalVotes (getMasternodeStats table) = int ((length table + 9) div 10)"
    using getMasternodeStats_required [of table] assms(2) by simp
  have "\<lfloor>of_int (int (length table)) / 10 :: rat\<rfloor> = int (length table) div 10"
    using floor_divide_of_int_eq [of "int (length table)" 10, where 'a = rat] by simp
  moreover have "(length table + 9) div 10 = length table div 10 + (if 10 dvd length table then 0 else 1)"
    by presburger
  ultimately show ?thesis using api by (simp add: getRequiredVotes_def zdiv_int)
qed

section \<open>Sample cycle\<close>

definition sample_cycle_db :: db where
  "sample_cycle_db =
     sample_db\<lparr>db_blocks := [sample_block 24 0 True, sample_block 25 90000 False]\<rparr>"

theorem voting_closed_consistent_witness:
  "getVotingProgress 46 Testnet = 1 \<and> getMsUntilVotingDeadline 46 Testnet (J 1000) = 0 \<and>
   getMsUntilVotingDeadline 45 Testnet JNull = 150000"
proof -
  have "getVotingProgress 46 Testnet = 1 \<longleftrightarrow> \<not> 0 < getMsUntilVotingDeadline 46 Testnet (J 1000)"
    using voting_closed_consistent [of 46 "J 1000" Testnet] by simp
  then show ?thesis
    by (simp add: getMsUntilVotingDeadline_def getBlocksUntilVotingDeadline_def getVotingDeadlineHeight_def
        next_div defaultBlockTimeMs_def)
qed

theorem clock_agrees_with_chain_stats_witness:
  "cs_latestSuperblockHeight (getChainStats Testnet sample_cycle_db 120 20) = Some 24 \<and>
   cs_nextSuperblockHeight (getChainStats Testnet sample_cycle_db 120 20) = Some 48"
proof -
  have "cs_latestSuperblockHeight (getChainStats Testnet sample_cycle_db 120 20) = Some (getPreviousSuperblockHeight 25 Testnet) \<and>
    cs_nextSuperblockHeight (getChainStats Testnet sample_cycle_db 120 20) =
      Some (getNextSuperblockHeight 25 Testnet + (if sb_interval Testnet dvd 25 then sb_interval Testnet else 0))"
    by (rule clock_agrees_with_chain_stats)
       (auto simp: max_height_def sample_cycle_db_def sample_block_def previous_div)
  then show ?thesis by (simp add: previous_div next_div)
qed

end
