(* ===== verification/Doubles.thy ===== *)
theory Doubles
  imports Floats JsText
begin

text \<open>
  Rounding of a quotient to a double: the value of \<open>a / b\<close> in the sources, where the result is printed
  with a fixed number of places. A rational is rounded to 53 significant bits, to the nearest and in
  a tie to the even one. Overflow and subnormal numbers are outside the range the sources print.
\<close>

definition round_even :: "rat \<Rightarrow> int" where
  "round_even x =
     (let f = \<lfloor>x\<rfloor>; r = x - of_int f in
      if r < 1 / 2 then f else if r > 1 / 2 then f + 1 else if even f then f else f + 1)"

text \<open>The weight of the last bit of the significand of \<open>v = a / b\<close>.\<close>

definition last_bit :: "rat \<Rightarrow> rat" where
  "last_bit v =
     (let (a, b) = quotient_of v;
          e = int (bit_length (nat a)) - int (bit_length (nat b))
      in if 2 powi e \<le> v then 2 powi (e - 52) else 2 powi (e - 53))"

definition fl_pos :: "rat \<Rightarrow> rat" where
  "fl_pos v = of_int (round_even (v / last_bit v)) * last_bit v"

definition fl :: "rat \<Rightarrow> rat" where
  "fl v = (if v = 0 then 0 else if v < 0 then - fl_pos (- v) else fl_pos v)"

lemma round_even_near: "\<bar>of_int (round_even x) - x\<bar> \<le> 1 / 2"
proof -
  define f where "f = \<lfloor>x\<rfloor>"
  have "0 \<le> x - of_int f" "x - of_int f < 1" unfolding f_def by linarith+
  then show ?thesis by (auto simp: round_even_def Let_def f_def [symmetric] abs_le_iff)
qed

lemma power_int_52: "(2 :: rat) powi (e - 53) * 2 ^ 53 = 2 powi e" "(2 :: rat) powi (e - 52) * 2 ^ 52 = 2 powi e"
proof -
  have "(2 :: rat) powi (e - 53) * 2 powi 53 = 2 powi (e - 53 + 53)" by (subst power_int_add) auto
  then show "(2 :: rat) powi (e - 53) * 2 ^ 53 = 2 powi e" by simp
  have "(2 :: rat) powi (e - 52) * 2 powi 52 = 2 powi (e - 52 + 52)" by (subst power_int_add) auto
  then show "(2 :: rat) powi (e - 52) * 2 ^ 52 = 2 powi e" by simp
qed

lemma quotient_bits:
  assumes "0 < v" "quotient_of v = (a, b)"
  shows "2 powi (int (bit_length (nat a)) - int (bit_length (nat b)) - 1) \<le> v"
proof -
  have b: "0 < b" using assms(2) by (rule quotient_of_denom_pos)
  have v: "v = of_int a / of_int b" using assms(2) by (rule quotient_of_div)
  have a: "0 < a" using assms(1) b by (simp add: v zero_less_divide_iff)
  obtain k where k: "bit_length (nat a) = Suc k"
    using a bit_length.simps [of "nat a"] by auto
  have "2 ^ k \<le> nat a" using bit_length_bounds [of "nat a"] a k by auto
  then have lo: "(2 :: rat) ^ k \<le> of_int a"
    using a by (metis of_nat_le_iff of_nat_numeral of_nat_power of_nat_nat less_imp_le)
  have "nat b < 2 ^ bit_length (nat b)" using bit_length_bounds [of "nat b"] b by auto
  then have hi: "of_int b \<le> (2 :: rat) ^ bit_length (nat b)"
    using b by (metis less_imp_le of_nat_le_iff of_nat_numeral of_nat_power of_nat_nat)
  have "(2 :: rat) powi (int (bit_length (nat a)) - int (bit_length (nat b)) - 1) =
      2 ^ k / 2 ^ bit_length (nat b)"
    unfolding k by (simp add: power_int_diff)
  also have "\<dots> \<le> of_int a / of_int b"
    using lo hi a b by (intro frac_le) auto
  finally show ?thesis by (simp add: v)
qed

lemma last_bit_small:
  assumes "0 < v"
  shows "0 < last_bit v" "2 ^ 52 * last_bit v \<le> v"
proof -
  obtain a b where q: "quotient_of v = (a, b)" by (cases "quotient_of v")
  define e where "e = int (bit_length (nat a)) - int (bit_length (nat b))"
  have l: "last_bit v = (if 2 powi e \<le> v then 2 powi (e - 52) else 2 powi (e - 53))"
    by (simp add: last_bit_def q e_def Let_def)
  show "0 < last_bit v" by (simp add: l)
  have low: "2 powi (e - 1) \<le> v" using quotient_bits [OF assms q] by (simp add: e_def)
  have "(2 :: rat) powi (e - 53) * 2 ^ 52 = 2 powi (e - 1)"
    using power_int_52(2) [of "e - 1"] by simp
  then show "2 ^ 52 * last_bit v \<le> v"
    using low power_int_52(2) [of e] by (auto simp: l mult.commute)
qed

text \<open>The relative error of a rounding is at most \<open>2 ^ -53\<close>.\<close>

lemma fl_near:
  assumes "0 \<le> v"
  shows "\<bar>fl v - v\<bar> * 2 ^ 53 \<le> v"
proof (cases "v = 0")
  case False
  with assms have v: "0 < v" by simp
  note l = last_bit_small [OF v]
  have "fl v - v = (of_int (round_even (v / last_bit v)) - v / last_bit v) * last_bit v"
    using v l(1) by (simp add: fl_def fl_pos_def algebra_simps)
  then have "\<bar>fl v - v\<bar> = \<bar>of_int (round_even (v / last_bit v)) - v / last_bit v\<bar> * last_bit v"
    using l(1) by (simp add: abs_mult)
  also have "\<dots> \<le> 1 / 2 * last_bit v"
    using round_even_near [of "v / last_bit v"] l(1) by (intro mult_right_mono) auto
  finally have "\<bar>fl v - v\<bar> * 2 ^ 53 \<le> 1 / 2 * last_bit v * 2 ^ 53" by simp
  also have "\<dots> = 2 ^ 52 * last_bit v" by simp
  also have "\<dots> \<le> v" by (rule l(2))
  finally show ?thesis .
qed (simp add: fl_def)

text \<open>A quotient by a power of ten that is printed with as many places is printed exactly.\<close>

lemma to_fixed_quotient:
  assumes "d < 2 ^ 52"
  shows "to_fixed f (fl (of_nat d / 10 ^ f)) = to_fixed f (of_nat d / 10 ^ f)"
proof -
  define v where "v = (of_nat d / 10 ^ f :: rat)"
  have v: "0 \<le> v" "v * 10 ^ f = of_nat d" by (simp_all add: v_def)
  have "\<bar>fl v - v\<bar> * 10 ^ f * 2 ^ 53 \<le> of_nat d"
    using mult_right_mono [OF fl_near [OF v(1)], of "10 ^ f"] v(2) by (simp add: mult.commute mult.left_commute)
  also have "of_nat d < (2 ^ 52 :: rat)" using assms by (metis of_nat_less_iff of_nat_numeral of_nat_power)
  finally have "\<bar>fl v - v\<bar> * 10 ^ f < 1 / 2" by simp
  moreover have "fl v * 10 ^ f - of_nat d = (fl v - v) * 10 ^ f" by (simp add: left_diff_distrib v(2))
  ultimately have near: "\<bar>fl v * 10 ^ f - of_nat d\<bar> < 1 / 2" by (simp add: abs_mult)
  have round: "js_round (fl v * 10 ^ f) = int d"
    unfolding js_round_def floor_eq_iff using near by (auto simp only: abs_less_iff of_int_of_nat_eq)
  have "0 \<le> fl v"
  proof (rule ccontr)
    assume "\<not> 0 \<le> fl v"
    then have "v \<le> \<bar>fl v - v\<bar>" using v(1) by simp
    moreover have "\<bar>fl v - v\<bar> * 2 ^ 53 \<le> v" by (rule fl_near [OF v(1)])
    ultimately have "\<bar>fl v - v\<bar> * 2 ^ 53 \<le> \<bar>fl v - v\<bar>" by linarith
    then have "\<bar>fl v - v\<bar> = 0" by (simp add: mult_le_cancel_left1)
    with \<open>\<not> 0 \<le> fl v\<close> v(1) show False by simp
  qed
  moreover have "js_round (v * 10 ^ f) = int d" by (simp add: v(2) js_round_def floor_eq_iff)
  ultimately show ?thesis using v(1) round by (simp add: to_fixed_def to_fixed_abs_def v_def [symmetric])
qed

end
