(* ===== verification/Format.thy ===== *)
theory Format
  imports Doubles TransactionModels Masternodes
begin

text \<open>
  \<open>frontend/src/lib/format.ts\<close>: how the browser prints amounts, types, ages and durations. Quotients
  are rounded to doubles before they are printed; the text that depends on the locale of the browser
  is a parameter. Text outside ASCII is written in UTF-8.
\<close>

section \<open>Amounts\<close>

record ApiVIn =
  vi_prevTxHash :: "string option"
  vi_vOutIndex :: "int option"
  vi_sequence :: "int option"
  vi_scriptSigASM :: "string option"
  vi_address :: "string option"
  vi_amount :: "int option"

record ApiVOut =
  vo_value :: int
  vo_number :: int
  vo_scriptPubKeyASM :: string
  vo_address :: "string option"

definition DUFFS_PER_DASH :: int where "DUFFS_PER_DASH = 100000000"

definition addressNetAmount :: "ApiVIn list js \<Rightarrow> ApiVOut list js \<Rightarrow> string \<Rightarrow> int" where
  "addressNetAmount ins outs address =
     (let received = foldl (\<lambda>acc out. if vo_address out = Some address then acc + vo_value out else acc) 0 (coalesce outs []);
          spent = foldl (\<lambda>acc vin. if vi_address vin = Some address then acc + or_else (vi_amount vin) 0 else acc) 0 (coalesce ins [])
      in received - spent)"

definition sumVOut :: "ApiVOut list js \<Rightarrow> int" where
  "sumVOut outs = foldl (\<lambda>acc out. acc + vo_value out) 0 (coalesce outs [])"

definition formatDash :: "int \<Rightarrow> string" where
  "formatDash duffs =
     (let dash = fl (of_int duffs / of_int DUFFS_PER_DASH) in
      if dash \<ge> 1 then to_fixed 2 dash @ '' DASH'' else to_fixed 4 dash @ '' DASH'')"

definition formatDuffs :: "int \<Rightarrow> nat \<Rightarrow> string" where
  "formatDuffs duffs decimals = to_fixed decimals (fl (of_int duffs / of_int DUFFS_PER_DASH))"

definition formatCompactUsd :: "rat \<Rightarrow> string" where
  "formatCompactUsd v =
     (if v \<ge> 1000000000 then ''$'' @ to_fixed 2 (fl (v / 1000000000)) @ '' B''
      else if v \<ge> 1000000 then ''$'' @ to_fixed 2 (fl (v / 1000000)) @ '' M''
      else if v \<ge> 1000 then ''$'' @ to_fixed 2 (fl (v / 1000)) @ '' K''
      else ''$'' @ to_fixed 2 v)"

definition formatCompactUsdShort :: "rat \<Rightarrow> string" where
  "formatCompactUsdShort v =
     (if v \<ge> 1000000000 then ''$'' @ dec_int (js_round (fl (v / 1000000000))) @ ''B''
      else if v \<ge> 1000000 then ''$'' @ dec_int (js_round (fl (v / 1000000))) @ ''M''
      else if v \<ge> 1000 then ''$'' @ dec_int (js_round (fl (v / 1000))) @ ''K''
      else ''$'' @ dec_int (js_round v))"

definition formatCompact :: "(rat \<Rightarrow> string) \<Rightarrow> rat \<Rightarrow> string" where
  "formatCompact toLocaleString v =
     (if v \<ge> 1000000 then to_fixed 1 (fl (v / 1000000)) @ ''M''
      else if v \<ge> 1000 then to_fixed 1 (fl (v / 1000)) @ ''K''
      else toLocaleString v)"

text \<open>A number or a text; the dash is one character of three bytes.\<close>

datatype hash_rate = RateText string | RateNumber jsnum

definition em_dash :: string where "em_dash = [CHR 0xE2, CHR 0x80, CHR 0x94]"

definition hash_units :: "(rat \<times> string) list" where
  "hash_units =
     [(10 ^ 18, ''EH/s''), (10 ^ 15, ''PH/s''), (10 ^ 12, ''TH/s''), (10 ^ 9, ''GH/s''), (10 ^ 6, ''MH/s''),
      (10 ^ 3, ''kH/s'')]"

definition formatHashRate :: "hash_rate js \<Rightarrow> string" where
  "formatHashRate hps =
     (case hps of
        J h \<Rightarrow>
          (case (case h of RateNumber n \<Rightarrow> n | RateText s \<Rightarrow> js_number s) of
             Fin n \<Rightarrow>
               if n \<le> 0 then em_dash
               else (case find (\<lambda>(scale, _). n \<ge> scale) hash_units of
                       Some (scale, u) \<Rightarrow> to_fixed 2 (fl (n / scale)) @ '' '' @ u
                     | None \<Rightarrow> to_fixed 0 n @ '' H/s'')
           | _ \<Rightarrow> em_dash)
      | _ \<Rightarrow> em_dash)"

section \<open>Masternodes\<close>

definition is_evo_text :: "string \<Rightarrow> bool" where
  "is_evo_text t \<longleftrightarrow> t = ''evo'' \<or> t = ''evolution'' \<or> t = ''highperformance''"

definition accent_style :: string where "accent_style = ''border-accent bg-[#4C7EFF1F] text-accent''"
definition muted_style :: string where "muted_style = ''border-border bg-muted/50 text-muted-foreground''"
definition red_style :: string where "red_style = ''border-red-500 bg-red-500/12 text-red-500''"

definition getMnTypeBadgeStyle :: "string \<Rightarrow> string" where
  "getMnTypeBadgeStyle t = (if is_evo_text (js_lower t) then accent_style else muted_style)"

definition getMnTypeLabel :: "string \<Rightarrow> string" where
  "getMnTypeLabel ty =
     (let t = js_lower ty in
      if t = ''evo'' \<or> t = ''highperformance'' then ''Evolution''
      else if t = ''regular'' then ''Regular'' else ty)"

definition getMnStatusBadgeStyle :: "string \<Rightarrow> string" where
  "getMnStatusBadgeStyle st =
     (let s = js_upper st in
      if s = ''ENABLED'' then accent_style else if js_includes s ''BANNED'' then red_style else muted_style)"

definition getMnStatusLabel :: "string \<Rightarrow> string" where
  "getMnStatusLabel st =
     (let s = js_upper st in
      if s = ''ENABLED'' then ''Enabled'' else if js_includes s ''BANNED'' then ''Banned'' else st)"

datatype MnStatusBucket = EnabledBucket | BannedBucket | OtherBucket
datatype MnTypeBucket = RegularBucket | EvoBucket

definition getMnStatusBucket :: "string \<Rightarrow> MnStatusBucket" where
  "getMnStatusBucket st =
     (let s = js_upper st in
      if s = ''ENABLED'' then EnabledBucket else if js_includes s ''BANNED'' then BannedBucket else OtherBucket)"

definition getMnTypeBucket :: "string \<Rightarrow> MnTypeBucket" where
  "getMnTypeBucket t = (if is_evo_text (js_lower t) then EvoBucket else RegularBucket)"

definition getIp :: "string \<Rightarrow> string" where
  "getIp address =
     (let idx = last_index_of (CHR '':'') address in if idx > 0 then js_slice address 0 idx else address)"

section \<open>Transaction types\<close>

datatype tx_type_ref = TypeName string | TypeNum int

definition TX_TYPE_BY_NAME :: "(string \<times> int) list" where
  "TX_TYPE_BY_NAME =
     [(''CLASSIC'', 0), (''PROVIDER_REGISTRATION'', 1), (''PROVIDER_UPDATE_SERVICE'', 2),
      (''PROVIDER_UPDATE_REGISTRAR'', 3), (''PROVIDER_UPDATE_REVOCATION'', 4), (''COINBASE'', 5),
      (''QUORUM_COMMITMENT'', 6), (''MASTERNODE_HARD_FORK_SIGNAL'', 7), (''ASSET_LOCK'', 8),
      (''ASSET_UNLOCK'', 9)]"

fun txTypeNum :: "tx_type_ref js \<Rightarrow> int" where
  "txTypeNum (J (TypeNum n)) = n"
| "txTypeNum (J (TypeName s)) = or_else (map_of TX_TYPE_BY_NAME s) 0"
| "txTypeNum _ = 0"

definition TX_TYPE_LABELS :: "(int \<times> string) list" where
  "TX_TYPE_LABELS =
     [(0, ''Asset Transfer''), (1, ''Provider Register''), (2, ''Provider Update Service''),
      (3, ''Provider Update Registrar''), (4, ''Provider Update Revoke''), (5, ''Coinbase''),
      (6, ''Quorum Commitment''), (7, ''Future''), (8, ''Asset Lock''), (9, ''Asset Unlock'')]"

fun shown_type :: "tx_type_ref js \<Rightarrow> string" where
  "shown_type (J (TypeNum n)) = dec_int n"
| "shown_type (J (TypeName s)) = s"
| "shown_type JNull = ''null''"
| "shown_type JUndef = ''undefined''"

definition getTxTypeLabel :: "tx_type_ref js \<Rightarrow> string" where
  "getTxTypeLabel t = or_else (map_of TX_TYPE_LABELS (txTypeNum t)) (''Type '' @ shown_type t)"

definition tint :: "string \<Rightarrow> string" where
  "tint colour = ''border-'' @ colour @ ''-500 bg-'' @ colour @ ''-500/12 text-'' @ colour @ ''-500''"

definition TX_TYPE_STYLES :: "(int \<times> string) list" where
  "TX_TYPE_STYLES =
     [(0, accent_style), (1, tint ''violet''), (2, tint ''violet''), (3, tint ''violet''), (4, tint ''red''),
      (5, tint ''amber''), (6, tint ''cyan''), (7, tint ''slate''), (8, tint ''emerald''), (9, tint ''teal'')]"

definition getTxTypeBadgeStyle :: "tx_type_ref js \<Rightarrow> string" where
  "getTxTypeBadgeStyle t = or_else (map_of TX_TYPE_STYLES (txTypeNum t)) (tint ''slate'')"

section \<open>Ages and durations\<close>

datatype moment = Moment jsnum | MomentText string

definition whole_seconds_ago :: "rat \<Rightarrow> int" where
  "whole_seconds_ago ms = \<lfloor>ms / 1000\<rfloor>"

definition seconds_ago_text :: "int \<Rightarrow> string" where
  "seconds_ago_text diffSeconds =
     (if diffSeconds < 0 then ''Just now''
      else if diffSeconds < 60 then dec_int diffSeconds @ '' sec. ago''
      else (let diffMinutes = diffSeconds div 60 in
        if diffMinutes < 60 then dec_int diffMinutes @ '' min. ago''
        else (let diffHours = diffMinutes div 60 in
          if diffHours < 24 then dec_int diffHours @ '' hr. ago''
          else (let diffDays = diffHours div 24 in
            dec_int diffDays @ '' day'' @ (if diffDays > 1 then ''s'' else '''') @ '' ago''))))"

text \<open>
  A number, or a text of digits, counts seconds; any other text is a date. An invalid date makes every
  comparison false.
\<close>

definition formatRelativeTime :: "(string \<Rightarrow> date) \<Rightarrow> int \<Rightarrow> moment \<Rightarrow> string" where
  "formatRelativeTime parse now stamp =
     (let of_seconds = (\<lambda>unixSeconds. case unixSeconds of
            NaN \<Rightarrow> ''Never''
          | Fin v \<Rightarrow> if v = 0 then ''Never'' else seconds_ago_text (whole_seconds_ago (of_int now - v * 1000))
          | PosInf \<Rightarrow> ''Just now''
          | NegInf \<Rightarrow> ''Infinity days ago'')
      in case stamp of
           Moment n \<Rightarrow> of_seconds n
         | MomentText s \<Rightarrow>
             if s \<noteq> [] \<and> list_all is_digit s then of_seconds (js_number s)
             else (case parse s of
                     None \<Rightarrow> ''NaN day ago''
                   | Some t \<Rightarrow> seconds_ago_text (whole_seconds_ago (of_int (now - t)))))"

definition total_minutes :: "rat \<Rightarrow> int" where
  "total_minutes ms = max 0 (js_round (ms / 60000))"

definition formatDuration :: "rat \<Rightarrow> string" where
  "formatDuration ms =
     (let totalMinutes = total_minutes ms in
      if totalMinutes < 1 then ''<1m''
      else if totalMinutes < 60 then dec_int totalMinutes @ ''m''
      else (let totalHours = totalMinutes div 60; minutes = totalMinutes mod 60 in
        if totalHours < 24
        then (if minutes > 0 then dec_int totalHours @ ''h '' @ dec_int minutes @ ''m'' else dec_int totalHours @ ''h'')
        else (let days = totalHours div 24; hours = totalHours mod 24 in
          if hours > 0 then dec_int days @ ''d '' @ dec_int hours @ ''h'' else dec_int days @ ''d'')))"

definition formatDurationParts :: "rat \<Rightarrow> string \<times> string" where
  "formatDurationParts ms =
     (let totalMinutes = total_minutes ms in
      if totalMinutes < 1 then (''0'', ''min left'')
      else if totalMinutes < 60 then (dec_int totalMinutes, if totalMinutes = 1 then ''min left'' else ''mins left'')
      else (let totalHours = totalMinutes div 60 in
        if totalHours < 24 then (dec_int totalHours, if totalHours = 1 then ''hr left'' else ''hrs left'')
        else (let days = totalHours div 24 in
          (dec_int days, if days = 1 then ''day left'' else ''days left''))))"

section \<open>Amounts are printed exactly\<close>

lemma fl_minus: "fl (- v) = - fl v"
  by (simp add: fl_def)

lemma fl_positive: "0 < v \<Longrightarrow> 0 < fl v"
proof -
  assume v: "0 < v"
  then have near: "\<bar>fl v - v\<bar> * 2 ^ 53 \<le> v" by (intro fl_near) simp
  show "0 < fl v"
  proof (rule ccontr)
    assume "\<not> 0 < fl v"
    then have "v \<le> \<bar>fl v - v\<bar>" using v by simp
    with near have "v * 2 ^ 53 \<le> v" by (meson mult_right_mono order_trans zero_le_numeral zero_le_power)
    with v show False by simp
  qed
qed

definition duffs_text :: "nat \<Rightarrow> string" where
  "duffs_text d = dec_nat (d div 10 ^ 8) @ CHR ''.'' # pad_left 8 (dec_nat (d mod 10 ^ 8))"

lemma js_round_nat: "js_round (of_nat d) = int d"
  by (simp add: js_round_def floor_eq_iff)

lemma formatDuffs_nat:
  assumes "d < 2 ^ 52"
  shows "formatDuffs (int d) 8 = duffs_text d"
    "0 < d \<Longrightarrow> formatDuffs (- int d) 8 = CHR ''-'' # duffs_text d"
proof -
  let ?v = "of_nat d / 10 ^ 8 :: rat"
  have exact: "to_fixed 8 ?v = duffs_text d"
    using js_round_nat [of d] by (simp add: to_fixed_def to_fixed_abs_def duffs_text_def)
  show "formatDuffs (int d) 8 = duffs_text d"
    using to_fixed_quotient [OF assms, of 8] exact by (simp add: formatDuffs_def DUFFS_PER_DASH_def)
  assume "0 < d"
  then have pos: "0 < fl ?v" by (intro fl_positive) simp
  have "to_fixed 8 (- fl ?v) = CHR ''-'' # to_fixed 8 (fl ?v)" using pos by (simp add: to_fixed_def)
  then show "formatDuffs (- int d) 8 = CHR ''-'' # duffs_text d"
    using to_fixed_quotient [OF assms, of 8] exact fl_minus [of ?v]
    by (simp add: formatDuffs_def DUFFS_PER_DASH_def)
qed

text \<open>What is printed is read back.\<close>

lemma digits_val_append: "digits_val (a @ b) = digits_val a * 10 ^ length b + digits_val b"
proof (induction b rule: rev_induct)
  case (snoc c b)
  have "digits_val (a @ b @ [c]) = 10 * digits_val (a @ b) + digit_val c"
    using digits_val_snoc [of "a @ b" c] by simp
  with snoc show ?case by (simp add: algebra_simps)
qed (simp add: digits_val_def)

lemma length_dec_nat: "n < 10 ^ Suc k \<Longrightarrow> length (dec_nat n) \<le> Suc k"
proof (induction k arbitrary: n)
  case 0
  then show ?case by (simp add: dec_nat.simps [of n])
next
  case (Suc k)
  have "n div 10 < 10 ^ Suc k" using Suc.prems by (simp add: div_less_iff_less_mult mult.commute)
  from Suc.IH [OF this] show ?case by (subst dec_nat.simps) simp
qed

lemma pad_left_digits:
  assumes "n < 10 ^ Suc k"
  shows "length (pad_left (Suc k) (dec_nat n)) = Suc k" "digits_val (pad_left (Suc k) (dec_nat n)) = n"
  using length_dec_nat [OF assms] by (simp_all add: pad_left_def digits_val_zeros)

lemma js_number_point:
  assumes "n < 10 ^ Suc k" "of_nat (a * 10 ^ Suc k + n) / 10 ^ Suc k < double_limit"
  shows "js_number (dec_nat a @ CHR ''.'' # pad_left (Suc k) (dec_nat n)) =
    Fin (of_nat (a * 10 ^ Suc k + n) / 10 ^ Suc k)"
proof -
  let ?p = "pad_left (Suc k) (dec_nat n)"
  let ?s = "dec_nat a @ CHR ''.'' # ?p"
  note p = pad_left_digits [OF assms(1)] and pd = digits_pad_left [of "Suc k" n]
  note a = all_digits_dec_nat [of a]
  have chars: "\<forall>c \<in> set ?s. is_digit c \<or> c = CHR ''.''" using a pd by auto
  have trim: "js_trim ?s = ?s"
  proof (rule js_trim_id, rule ballI)
    fix c assume "c \<in> set ?s"
    with chars have "is_digit c \<or> c = CHR ''.''" by blast
    then show "\<not> is_space c" using digit_not_space by (auto simp: is_space_def)
  qed
  have tk: "takeWhile is_digit ?p = ?p" "dropWhile is_digit ?p = []"
    using pd by (auto simp: takeWhile_eq_all_conv dropWhile_eq_Nil_conv)
  have ip: "takeWhile is_digit ?s = dec_nat a" "dropWhile is_digit ?s = CHR ''.'' # ?p"
    using a by (auto simp: takeWhile_append2 dropWhile_append2 is_digit_def)
  have val: "unsigned_decimal ?s = Some (of_nat (a * 10 ^ Suc k + n) / 10 ^ Suc k)"
    using p by (simp add: unsigned_decimal_def Let_def ip tk exponent_part_def digits_val_append pow10_def
        dec_nat_nonempty nat_add_distrib del: power_Suc)
  have no_radix: "\<not> starts_with ?s [CHR ''0'', x]" if "\<not> is_digit x" "x \<noteq> CHR ''.''" for x
  proof
    assume "starts_with ?s [CHR ''0'', x]"
    then have "take 2 ?s = [CHR ''0'', x]" by (simp add: starts_with_def numeral_2_eq_2)
    then have "x \<in> set (take 2 ?s)" by simp
    then show False using chars that by (meson in_set_takeD)
  qed
  have hd: "is_digit (hd ?s)" using hd_dec_nat dec_nat_nonempty by simp
  have "?s \<noteq> ''Infinity''"
  proof
    assume eq: "?s = ''Infinity''"
    show False using hd unfolding eq by (simp add: is_digit_def)
  qed
  moreover have "to_double (of_nat (a * 10 ^ Suc k + n) / 10 ^ Suc k) = Fin (of_nat (a * 10 ^ Suc k + n) / 10 ^ Suc k)"
  proof -
    define v where "v = (of_nat (a * 10 ^ Suc k + n) / 10 ^ Suc k :: rat)"
    have "0 \<le> v" unfolding v_def by (intro divide_nonneg_nonneg) simp_all
    then have "\<not> v \<le> - double_limit" using double_limit_large by linarith
    then show ?thesis using assms(2) unfolding v_def [symmetric] by (simp add: to_double_def)
  qed
  ultimately have "decimal_number ?s = Fin (of_nat (a * 10 ^ Suc k + n) / 10 ^ Suc k)"
    by (simp add: decimal_number_def val)
  moreover have "hd ?s \<noteq> CHR ''-''" "hd ?s \<noteq> CHR ''+''" using hd by (auto simp: is_digit_def)
  ultimately show ?thesis
    unfolding js_number_def trim Let_def using no_radix by (simp add: is_digit_def)
qed

text \<open>
  C39: an amount below 2 ^ 52 duffs, more than there will ever be, is printed to the last duff although it
  is divided as a double first, with a sign when it is negative; and the text reads back as the very
  amount.
\<close>

theorem duffs_printed_exactly:
  assumes "d < 2 ^ 52"
  shows "formatDuffs (int d) 8 = dec_nat (d div 10 ^ 8) @ CHR ''.'' # pad_left 8 (dec_nat (d mod 10 ^ 8)) \<and>
    (0 < d \<longrightarrow> formatDuffs (- int d) 8 = CHR ''-'' # formatDuffs (int d) 8) \<and>
    js_number (formatDuffs (int d) 8) = Fin (of_nat d / 10 ^ 8)"
proof -
  have "of_nat d / 10 ^ 8 < (2 ^ 52 :: rat)"
  proof -
    have "of_nat d < (2 ^ 52 :: rat)" using assms by (metis of_nat_less_iff of_nat_numeral of_nat_power)
    then show ?thesis by simp
  qed
  also have "\<dots> < double_limit" by (simp add: double_limit_def)
  finally have limit: "of_nat d / 10 ^ 8 < double_limit" .
  have split: "d div 10 ^ 8 * 10 ^ Suc 7 + d mod 10 ^ 8 = d" by simp
  have "js_number (duffs_text d) = Fin (of_nat d / 10 ^ 8)"
    using js_number_point [of "d mod 10 ^ 8" 7 "d div 10 ^ 8"] limit unfolding split duffs_text_def by simp
  then show ?thesis using formatDuffs_nat [OF assms] by (simp add: duffs_text_def)
qed

section \<open>Net amounts\<close>

definition received_by :: "ApiVOut list \<Rightarrow> string \<Rightarrow> int" where
  "received_by outs a = sum_list (map vo_value (filter (\<lambda>out. vo_address out = Some a) outs))"

definition spent_by :: "ApiVIn list \<Rightarrow> string \<Rightarrow> int" where
  "spent_by ins a = sum_list (map (\<lambda>i. or_else (vi_amount i) 0) (filter (\<lambda>i. vi_address i = Some a) ins))"

lemma foldl_if_sum:
  "foldl (\<lambda>acc x. if P x then acc + f x else acc) (z :: int) xs = z + sum_list (map f (filter P xs))"
  by (induction xs arbitrary: z) auto

lemma addressNetAmount_sums:
  "addressNetAmount (J ins) (J outs) a = received_by outs a - spent_by ins a"
  by (simp add: addressNetAmount_def received_by_def spent_by_def foldl_if_sum Let_def)

lemma sum_by_group:
  assumes "distinct as" "\<And>x. x \<in> set xs \<Longrightarrow> key x \<in> Some ` set as"
  shows "(\<Sum>a\<leftarrow>as. sum_list (map f (filter (\<lambda>x. key x = Some a) xs))) = (sum_list (map f xs) :: int)"
  using assms(2)
proof (induction xs)
  case (Cons x xs)
  then obtain b where b: "key x = Some b" "b \<in> set as" by auto
  have split: "sum_list (map f (filter (\<lambda>y. key y = Some a) (x # xs))) =
      (if a = b then f x else 0) + sum_list (map f (filter (\<lambda>y. key y = Some a) xs))" for a
    using b(1) by auto
  have "(\<Sum>a\<leftarrow>as. if a = b then f x else 0) = f x"
    using assms(1) b(2) by (simp add: sum_list_distinct_conv_sum_set)
  then show ?case unfolding split using Cons by (simp add: sum_list_addf)
qed simp

text \<open>
  What a transaction moves adds up: over all addresses that appear in it, each counted once, the net
  amounts the address pages show sum to what the outputs carry less what the inputs spend, the
  negative of the fee.
\<close>

theorem net_amounts_add_up:
  assumes "distinct as" "\<And>i. i \<in> set ins \<Longrightarrow> vi_address i \<in> Some ` set as"
    "\<And>out. out \<in> set outs \<Longrightarrow> vo_address out \<in> Some ` set as"
  shows "(\<Sum>a\<leftarrow>as. addressNetAmount (J ins) (J outs) a) =
    sumVOut (J outs) - sum_list (map (\<lambda>i. or_else (vi_amount i) 0) ins)"
proof -
  have "foldl (\<lambda>acc out. acc + vo_value out) z outs = z + sum_list (map vo_value outs)" for z
    using foldl_if_sum [of "\<lambda>_. True" vo_value z outs] by simp
  then show ?thesis
    using sum_by_group [OF assms(1), of ins vi_address "\<lambda>i. or_else (vi_amount i) 0"]
      sum_by_group [OF assms(1), of outs vo_address vo_value] assms(2,3)
    by (simp add: addressNetAmount_sums received_by_def spent_by_def sum_list_subtractf sumVOut_def)
qed

section \<open>Ages\<close>

definition age_units :: "(int \<times> int \<times> string) list" where
  "age_units =
     [(1, 60, '' sec. ago''), (60, 3600, '' min. ago''), (3600, 86400, '' hr. ago'')]"

text \<open>\<open>n\<close> whole units of \<open>u\<close> seconds, and less than one unit of the next kind.\<close>

definition age_reads :: "int \<Rightarrow> int \<Rightarrow> int \<Rightarrow> string \<Rightarrow> bool" where
  "age_reads secs n u suffix \<longleftrightarrow> n * u \<le> secs \<and> secs < (n + 1) * u \<and>
     ((\<exists>cap. (u, cap, suffix) \<in> set age_units \<and> secs < cap \<and> (u = 1 \<or> 1 \<le> n)) \<or>
      (u = 86400 \<and> 1 \<le> n \<and> suffix = (if n = 1 then '' day ago'' else '' days ago'')))"

lemma seconds_ago_text_reads:
  assumes "0 \<le> secs"
  shows "\<exists>n u suffix. seconds_ago_text secs = dec_int n @ suffix \<and> age_reads secs n u suffix"
proof -
  have near: "secs div u * u \<le> secs" "secs < (secs div u + 1) * u" if "0 < u" for u
    using div_bounds [OF that, of secs] by auto
  consider "secs < 60" | "60 \<le> secs" "secs < 3600" | "3600 \<le> secs" "secs < 86400" | "86400 \<le> secs" by linarith
  then show ?thesis
  proof cases
    case 1
    then show ?thesis using assms
      by (intro exI [of _ secs] exI [of _ 1] exI [of _ "'' sec. ago''"])
        (simp add: seconds_ago_text_def age_reads_def age_units_def)
  next
    case 2
    then have "secs div 60 < 60" "1 \<le> secs div 60" by auto
    then show ?thesis using 2 near [of 60]
      by (intro exI [of _ "secs div 60"] exI [of _ 60] exI [of _ "'' min. ago''"])
        (simp add: seconds_ago_text_def age_reads_def age_units_def)
  next
    case 3
    then have "60 \<le> secs div 60" "secs div 60 div 60 = secs div 3600" "secs div 3600 < 24" "1 \<le> secs div 3600"
      by (auto simp: zdiv_zmult2_eq [symmetric])
    then show ?thesis using 3 near [of 3600]
      by (intro exI [of _ "secs div 3600"] exI [of _ 3600] exI [of _ "'' hr. ago''"])
        (simp add: seconds_ago_text_def age_reads_def age_units_def)
  next
    case 4
    then have "60 \<le> secs div 60" "24 \<le> secs div 60 div 60" "secs div 60 div 60 div 24 = secs div 86400" "1 \<le> secs div 86400"
      by (auto simp: zdiv_zmult2_eq [symmetric])
    then show ?thesis using 4 near [of 86400]
      by (intro exI [of _ "secs div 86400"] exI [of _ 86400]
          exI [of _ "if secs div 86400 = 1 then '' day ago'' else '' days ago''"])
        (simp add: seconds_ago_text_def age_reads_def)
  qed
qed

text \<open>
  An age is told in the largest unit that fits, rounded down: seconds up to a minute, minutes up to
  an hour, hours up to a day, then days, for the seconds of the node in decimal digits as for a date,
  and a node that reports 0 is shown as never.
\<close>

theorem ages_rounded_down:
  assumes "0 < k" "int k * 1000 \<le> now" "of_nat k < double_limit"
    "\<not> list_all is_digit date_text" "parse date_text = Some t" "t \<le> now"
  shows "(\<exists>n u suffix. formatRelativeTime parse now (MomentText (dec_nat k)) = dec_int n @ suffix \<and>
      age_reads (now div 1000 - int k) n u suffix) \<and>
    (\<exists>n u suffix. formatRelativeTime parse now (MomentText date_text) = dec_int n @ suffix \<and>
      age_reads ((now - t) div 1000) n u suffix) \<and>
    formatRelativeTime parse now (MomentText ''0'') = ''Never''"
proof -
  have floor: "whole_seconds_ago (of_int x) = x div 1000" for x
    using floor_divide_of_int_eq [of x 1000, where 'a = rat] by (simp add: whole_seconds_ago_def)
  have "list_all is_digit (dec_nat k)" using all_digits_dec_nat by (simp add: list_all_iff)
  moreover have "whole_seconds_ago (of_int now - of_nat k * 1000) = (now - int k * 1000) div 1000"
    using floor [of "now - int k * 1000"] by simp
  ultimately have "formatRelativeTime parse now (MomentText (dec_nat k)) = seconds_ago_text ((now - int k * 1000) div 1000)"
    using assms(1,3)
    by (simp add: formatRelativeTime_def dec_nat_nonempty js_number_dec_nat Let_def del: of_int_diff)
  moreover have "(now - int k * 1000) div 1000 = now div 1000 - int k" by simp
  moreover have "0 \<le> now div 1000 - int k" using assms(2) by linarith
  moreover have "formatRelativeTime parse now (MomentText date_text) = seconds_ago_text ((now - t) div 1000)"
    using assms(4,5) floor [of "now - t"] by (simp add: formatRelativeTime_def Let_def del: of_int_diff)
  moreover have "0 \<le> (now - t) div 1000" using assms(6) by simp
  moreover have "formatRelativeTime parse now (MomentText (dec_nat 0)) = ''Never''"
    using js_number_dec_nat [of 0] double_limit_large all_digits_dec_nat [of 0]
    by (simp add: formatRelativeTime_def dec_nat_nonempty list_all_iff Let_def)
  moreover have "dec_nat 0 = ''0''" by (simp add: dec_nat.simps digit_char_def char_of_def bit_0)
  ultimately show ?thesis by (simp add: seconds_ago_text_reads)
qed

section \<open>Types\<close>

text \<open>
  The browser knows exactly the transaction types of the API: the name the API sends is turned back
  into the number of the type, and every type has a label of its own.
\<close>

theorem tx_types_agree:
  "txTypeNum (J (TypeName (type_name t))) = type_code t \<and>
   (getTxTypeLabel (J (TypeName (type_name t))) = getTxTypeLabel (J (TypeName (type_name t'))) \<longleftrightarrow> t = t')"
proof -
  have nums: "txTypeNum (J (TypeName (type_name t))) = type_code t" for t
    by (cases t) (simp_all add: TX_TYPE_BY_NAME_def)
  have label: "getTxTypeLabel (J (TypeName (type_name t))) = the (map_of TX_TYPE_LABELS (type_code t))" for t
    unfolding getTxTypeLabel_def nums by (cases t) (simp_all add: TX_TYPE_LABELS_def)
  have "the (map_of TX_TYPE_LABELS (type_code t)) = the (map_of TX_TYPE_LABELS (type_code t')) \<longleftrightarrow> t = t'"
    by (cases t; cases t') (simp_all add: TX_TYPE_LABELS_def)
  then show ?thesis by (simp only: nums label simp_thms)
qed

section \<open>Samples\<close>

theorem duffs_printed_exactly_witness:
  "formatDuffs 123450000000 8 = dec_nat 1234 @ CHR ''.'' # pad_left 8 (dec_nat 50000000) \<and>
   js_number (formatDuffs 123450000000 8) = Fin (12345 / 10)"
proof -
  have "(123450000000 :: nat) < 2 ^ 52" by simp
  from duffs_printed_exactly [OF this]
  have "formatDuffs (int 123450000000) 8 = dec_nat (123450000000 div 10 ^ 8) @ CHR ''.'' #
      pad_left 8 (dec_nat (123450000000 mod 10 ^ 8))"
    "js_number (formatDuffs (int 123450000000) 8) = Fin (of_nat 123450000000 / 10 ^ 8)"
    by blast+
  then show ?thesis by (intro conjI) simp_all
qed

definition sample_ins :: "ApiVIn list" where
  "sample_ins =
     [\<lparr>vi_prevTxHash = Some ''p'', vi_vOutIndex = Some 0, vi_sequence = None, vi_scriptSigASM = None,
       vi_address = Some ''a'', vi_amount = Some 100\<rparr>]"

definition sample_outs :: "ApiVOut list" where
  "sample_outs =
     [\<lparr>vo_value = 70, vo_number = 0, vo_scriptPubKeyASM = [], vo_address = Some ''b''\<rparr>,
      \<lparr>vo_value = 25, vo_number = 1, vo_scriptPubKeyASM = [], vo_address = Some ''a''\<rparr>]"

theorem net_amounts_add_up_witness:
  "addressNetAmount (J sample_ins) (J sample_outs) ''a'' + addressNetAmount (J sample_ins) (J sample_outs) ''b'' = -5"
proof -
  have "(\<Sum>a\<leftarrow>[''a'', ''b'']. addressNetAmount (J sample_ins) (J sample_outs) a) =
    sumVOut (J sample_outs) - sum_list (map (\<lambda>i. or_else (vi_amount i) 0) sample_ins)"
    by (rule net_amounts_add_up) (auto simp: sample_ins_def sample_outs_def)
  then show ?thesis by (simp add: sample_ins_def sample_outs_def sumVOut_def)
qed

theorem ages_rounded_down_witness:
  "(\<exists>n u suffix. formatRelativeTime (\<lambda>_. Some 0) 7300000 (MomentText (dec_nat 100)) = dec_int n @ suffix \<and>
     age_reads 7200 n u suffix) \<and>
   (\<exists>n u suffix. formatRelativeTime (\<lambda>_. Some 0) 7300000 (MomentText ''T'') = dec_int n @ suffix \<and>
     age_reads 7300 n u suffix)"
  using ages_rounded_down [of 100 7300000 "''T''" "\<lambda>_. Some 0" 0] double_limit_large
  by (simp add: is_digit_def)

end
