(* ===== verification/Markup.thy ===== *)
theory Markup
  imports JsText
begin

text \<open>
  Text that the browser inserts as markup: \<open>highlightJson\<close> of \<open>frontend/src/lib/format.ts\<close>, which colours the
  JSON text of an object, and the preview images of \<open>frontend/src/lib/og.ts\<close>. Both take text that others
  control; what they give has no tags but their own.
\<close>

section \<open>Escaping\<close>

text \<open>\<open>s.replace(/c/g, r)\<close> for a single character.\<close>

definition replace_char :: "char \<Rightarrow> string \<Rightarrow> string \<Rightarrow> string" where
  "replace_char c r s = concat (map (\<lambda>x. if x = c then r else [x]) s)"

definition escape_html :: "string \<Rightarrow> string" where
  "escape_html raw =
     replace_char (CHR ''>'') ''&gt;'' (replace_char (CHR ''<'') ''&lt;'' (replace_char (CHR ''&'') ''&amp;'' raw))"

definition markup_free :: "string \<Rightarrow> bool" where
  "markup_free s \<longleftrightarrow> CHR ''<'' \<notin> set s \<and> CHR ''>'' \<notin> set s"

lemma set_replace_char: "set (replace_char c r s) \<subseteq> (set s - {c}) \<union> set r"
  by (auto simp: replace_char_def split: if_splits)

lemma markup_free_escape: "markup_free (escape_html s)"
proof -
  let ?a = "replace_char (CHR ''&'') ''&amp;'' s"
  let ?b = "replace_char (CHR ''<'') ''&lt;'' ?a"
  have b: "CHR ''<'' \<notin> set ?b" using set_replace_char [of "CHR ''<''" "''&lt;''" ?a] by auto
  have "set (escape_html s) \<subseteq> (set ?b - {CHR ''>''}) \<union> set ''&gt;''"
    unfolding escape_html_def by (rule set_replace_char)
  with b show ?thesis unfolding markup_free_def by auto
qed

lemma markup_free_append [simp]: "markup_free (a @ b) \<longleftrightarrow> markup_free a \<and> markup_free b"
  by (auto simp: markup_free_def)

lemma markup_free_Cons: "markup_free (c # s) \<longleftrightarrow> c \<noteq> CHR ''<'' \<and> c \<noteq> CHR ''>'' \<and> markup_free s"
  by (auto simp: markup_free_def)

section \<open>Colouring JSON\<close>

text \<open>
  The three alternatives of the regular expression, each with what it matches and what follows. A
  string: from the opening quote to the next quote that no backslash precedes.
\<close>

fun string_body :: "string \<Rightarrow> (string \<times> string) option" where
  "string_body [] = None"
| "string_body (c # s) =
     (if c = CHR 0x22 then Some ([c], s)
      else if c = CHR 0x5C then
        (case s of
           [] \<Rightarrow> None
         | d # s' \<Rightarrow>
             if d = CHR 0x0A \<or> d = CHR 0x0D then None
             else map_option (\<lambda>(body, rest). (c # d # body, rest)) (string_body s'))
      else map_option (\<lambda>(body, rest). (c # body, rest)) (string_body s))"

definition string_token :: "string \<Rightarrow> (string \<times> string) option" where
  "string_token s =
     (case s of
        c # s' \<Rightarrow> if c = CHR 0x22 then map_option (\<lambda>(body, rest). (c # body, rest)) (string_body s') else None
      | [] \<Rightarrow> None)"

definition is_word_char :: "char \<Rightarrow> bool" where
  "is_word_char c \<longleftrightarrow>
     (let n = of_char c :: nat in
      (48 \<le> n \<and> n \<le> 57) \<or> (65 \<le> n \<and> n \<le> 90) \<or> (97 \<le> n \<and> n \<le> 122) \<or> n = 95)"

definition word_end :: "string \<Rightarrow> bool" where
  "word_end s \<longleftrightarrow> (case s of [] \<Rightarrow> True | c # _ \<Rightarrow> \<not> is_word_char c)"

definition keyword_token :: "char option \<Rightarrow> string \<Rightarrow> (string \<times> string) option" where
  "keyword_token before s =
     (case find (\<lambda>w. starts_with s w \<and> word_end (drop (length w) s)) [''true'', ''false'', ''null''] of
        Some w \<Rightarrow>
          if (case before of Some b \<Rightarrow> is_word_char b | None \<Rightarrow> False) then None
          else Some (w, drop (length w) s)
      | None \<Rightarrow> None)"

text \<open>The longest number: an optional sign, digits, an optional fraction and an optional exponent.\<close>

definition digits_part :: "string \<Rightarrow> string \<times> string" where
  "digits_part s = (takeWhile is_digit s, dropWhile is_digit s)"

definition fraction_part :: "string \<Rightarrow> string \<times> string" where
  "fraction_part s =
     (case s of
        c # s' \<Rightarrow>
          if c = CHR ''.'' \<and> fst (digits_part s') \<noteq> [] then (c # fst (digits_part s'), snd (digits_part s')) else ([], s)
      | [] \<Rightarrow> ([], s))"

definition exponent_text :: "string \<Rightarrow> string \<times> string" where
  "exponent_text s =
     (case s of
        c # s' \<Rightarrow>
          if c = CHR ''e'' \<or> c = CHR ''E'' then
            (let sgn = (case s' of d # _ \<Rightarrow> if d = CHR ''+'' \<or> d = CHR ''-'' then [d] else [] | [] \<Rightarrow> []);
                 (ds, rest) = digits_part (drop (length sgn) s')
             in if ds \<noteq> [] then (c # sgn @ ds, rest) else ([], s))
          else ([], s)
      | [] \<Rightarrow> ([], s))"

definition number_token :: "string \<Rightarrow> (string \<times> string) option" where
  "number_token s =
     (let sgn = (case s of c # _ \<Rightarrow> if c = CHR ''-'' then [c] else [] | [] \<Rightarrow> []);
          (ip, r1) = digits_part (drop (length sgn) s);
          (fp, r2) = fraction_part r1;
          (ex, r3) = exponent_text r2
      in if ip = [] then None else Some (sgn @ ip @ fp @ ex, r3))"

text \<open>
  What the replacement makes of a match. A string takes the blanks behind it into the match, also
  where no colon follows, and they are not written back.
\<close>

definition coloured :: "string \<Rightarrow> string \<Rightarrow> string" where
  "coloured colour t = ''<span class='' @ [CHR 0x22] @ colour @ [CHR 0x22] @ ''>'' @ t @ ''</span>''"

definition match_at :: "char option \<Rightarrow> string \<Rightarrow> (string \<times> string) option" where
  "match_at before s =
     (case string_token s of
        Some (str, rest) \<Rightarrow>
          (let behind = dropWhile is_space rest in
           case behind of
             c # rest' \<Rightarrow>
               if c = CHR '':'' then Some (coloured ''text-foreground'' str @ '':'', rest')
               else Some (coloured ''text-emerald-600'' str, behind)
           | [] \<Rightarrow> Some (coloured ''text-emerald-600'' str, []))
      | None \<Rightarrow>
          (case keyword_token before s of
             Some (w, rest) \<Rightarrow> Some (coloured ''text-accent'' w, rest)
           | None \<Rightarrow>
               (case number_token s of
                  Some (n, rest) \<Rightarrow> Some (coloured ''text-accent'' n, rest)
                | None \<Rightarrow> None)))"

lemma string_body_split: "string_body s = Some (body, rest) \<Longrightarrow> s = body @ rest \<and> body \<noteq> []"
proof (induction s arbitrary: body rest rule: string_body.induct)
  case (2 c s)
  consider (quote) "c = CHR 0x22" | (plain) "c \<noteq> CHR 0x22" "c \<noteq> CHR 0x5C"
    | (slash) d s' where "c = CHR 0x5C" "s = d # s'" | (stop) "c = CHR 0x5C" "s = []"
    by (cases s) auto
  then show ?case
  proof cases
    case plain
    with 2(3) obtain b where b: "string_body s = Some (b, rest)" "body = c # b" by auto
    show ?thesis using 2(2) [OF plain b(1)] b(2) by simp
  next
    case slash
    with 2(3) obtain b where b: "string_body s' = Some (b, rest)" "body = c # d # b" "\<not> (d = CHR 0x0A \<or> d = CHR 0x0D)"
      by (auto split: if_splits)
    show ?thesis using 2(1) [OF _ slash(1,2) b(3,1)] slash b(2) by simp
  qed (use 2(3) in auto)
qed simp

lemma string_token_split: "string_token s = Some (str, rest) \<Longrightarrow> s = str @ rest \<and> str \<noteq> []"
proof (cases s)
  case (Cons c t)
  assume "string_token s = Some (str, rest)"
  with Cons obtain b where "string_body t = Some (b, rest)" "str = c # b"
    by (auto simp: string_token_def split: if_splits)
  then show ?thesis using string_body_split Cons by simp
qed (simp add: string_token_def)

lemma keyword_token_split: "keyword_token before s = Some (w, rest) \<Longrightarrow> s = w @ rest \<and> w \<noteq> []"
proof -
  assume some: "keyword_token before s = Some (w, rest)"
  define P where "P = (\<lambda>w. starts_with s w \<and> word_end (drop (length w) s))"
  obtain w' where w': "find P [''true'', ''false'', ''null''] = Some w'"
    using some by (cases "find P [''true'', ''false'', ''null'']") (simp_all add: keyword_token_def P_def)
  then have "P w'" "w' \<noteq> []" by (auto split: if_splits)
  moreover have "w = w'" "rest = drop (length w') s"
    using some w' by (auto simp: keyword_token_def P_def split: if_splits)
  ultimately show ?thesis by (simp add: P_def starts_with_def) (metis append_take_drop_id)
qed

lemma digits_part_split: "fst (digits_part s) @ snd (digits_part s) = s"
  by (simp add: digits_part_def)

lemma fraction_part_split: "fst (fraction_part s) @ snd (fraction_part s) = s"
proof (cases s)
  case (Cons c t)
  then show ?thesis using digits_part_split [of t] by (simp add: fraction_part_def)
qed (simp add: fraction_part_def)

lemma exponent_text_split: "fst (exponent_text s) @ snd (exponent_text s) = s"
proof (cases s)
  case (Cons c t)
  define sgn where "sgn = (case t of d # _ \<Rightarrow> if d = CHR ''+'' \<or> d = CHR ''-'' then [d] else [] | [] \<Rightarrow> [])"
  have t: "t = sgn @ drop (length sgn) t" unfolding sgn_def by (cases t) simp_all
  show ?thesis
    using t digits_part_split [of "drop (length sgn) t"]
    by (simp add: Cons exponent_text_def Let_def sgn_def [symmetric] case_prod_beta)
qed (simp add: exponent_text_def)

lemma number_token_split: "number_token s = Some (n, rest) \<Longrightarrow> s = n @ rest \<and> n \<noteq> []"
proof -
  assume some: "number_token s = Some (n, rest)"
  define sgn where "sgn = (case s of c # _ \<Rightarrow> if c = CHR ''-'' then [c] else [] | [] \<Rightarrow> [])"
  have s: "s = sgn @ drop (length sgn) s" by (auto simp: sgn_def split: list.splits)
  let ?r = "drop (length sgn) s"
  let ?r1 = "dropWhile is_digit ?r"
  let ?r2 = "snd (fraction_part ?r1)"
  have n: "takeWhile is_digit ?r \<noteq> []"
    "n = sgn @ takeWhile is_digit ?r @ fst (fraction_part ?r1) @ fst (exponent_text ?r2)"
    "rest = snd (exponent_text ?r2)"
    using some by (auto simp: number_token_def digits_part_def Let_def case_prod_beta sgn_def [symmetric] split: if_splits)
  have "n @ rest = sgn @ takeWhile is_digit ?r @ ?r1"
    using fraction_part_split [of ?r1] exponent_text_split [of ?r2] by (simp add: n(2,3))
  with s n(1,2) show ?thesis by simp
qed

definition non_blank :: "string \<Rightarrow> string" where
  "non_blank s = filter (\<lambda>c. \<not> is_space c) s"

lemma non_blank_append [simp]: "non_blank (a @ b) = non_blank a @ non_blank b"
  by (simp add: non_blank_def)

lemma non_blank_skip: "non_blank (dropWhile is_space s) = non_blank s"
  by (induction s) (auto simp: non_blank_def)

text \<open>A match is a coloured part of the text, perhaps a colon, and what follows.\<close>

lemma match_at_split:
  assumes "match_at before s = Some (out, rest)"
  shows "\<exists>colour t tail. out = coloured colour t @ tail \<and>
    colour \<in> {''text-foreground'', ''text-emerald-600'', ''text-accent''} \<and> tail \<in> {[], '':''} \<and>
    set t \<subseteq> set s \<and> set rest \<subseteq> set s \<and> non_blank s = non_blank (t @ tail @ rest) \<and> length rest < length s"
proof (cases "string_token s")
  case (Some p)
  then obtain str r where p: "string_token s = Some (str, r)" by (cases p) auto
  then have s: "s = str @ r" "str \<noteq> []" using string_token_split by auto
  let ?b = "dropWhile is_space r"
  have b: "set ?b \<subseteq> set r" "length ?b \<le> length r" "non_blank r = non_blank ?b"
    using set_dropWhileD length_dropWhile_le non_blank_skip by (auto dest: set_dropWhileD)
  show ?thesis
  proof (cases "\<exists>r'. ?b = CHR '':'' # r'")
    case True
    then obtain r' where r': "?b = CHR '':'' # r'" by blast
    then have out: "out = coloured ''text-foreground'' str @ '':''" "rest = r'"
      using assms by (simp_all add: match_at_def p)
    have "non_blank s = non_blank (str @ '':'' @ rest)" using b(3) by (simp add: s(1) r' out(2))
    then show ?thesis using s b r' out
      by (intro exI [of _ "''text-foreground''"] exI [of _ str] exI [of _ "'':''"]) auto
  next
    case False
    then have out: "out = coloured ''text-emerald-600'' str" "rest = ?b"
      using assms by - (cases ?b; simp add: match_at_def p split: if_splits del: dropWhile_eq_Nil_conv)+
    have "non_blank s = non_blank (str @ rest)" using b(3) by (simp add: s(1) out(2))
    moreover have "length rest < length s" using s b(2) by (cases str) (simp_all add: out(2))
    moreover have "set str \<subseteq> set s" "set rest \<subseteq> set s" using s(1) b(1) out(2) by auto
    ultimately show ?thesis using out(1)
      by (intro exI [of _ "''text-emerald-600''"] exI [of _ str] exI [of _ "[]"]) simp
  qed
next
  case None
  have "\<exists>t. out = coloured ''text-accent'' t \<and> (keyword_token before s = Some (t, rest) \<or> number_token s = Some (t, rest))"
  proof (cases "keyword_token before s")
    case key: None
    show ?thesis using assms None key by (cases "number_token s") (auto simp: match_at_def)
  next
    case key: (Some q)
    show ?thesis using assms None key by (cases q) (auto simp: match_at_def)
  qed
  then obtain t where "out = coloured ''text-accent'' t" "s = t @ rest \<and> t \<noteq> []"
    using keyword_token_split number_token_split by blast
  then show ?thesis by (intro exI [of _ "''text-accent''"] exI [of _ t] exI [of _ "[]"]) auto
qed

text \<open>The global replacement: left to right, a character that starts no match stays.\<close>

function highlight_from :: "char option \<Rightarrow> string \<Rightarrow> string" where
  "highlight_from before [] = []"
| "highlight_from before (c # s) =
     (case match_at before (c # s) of
        Some (out, rest) \<Rightarrow> out @ highlight_from (Some (last (take (length (c # s) - length rest) (c # s)))) rest
      | None \<Rightarrow> c # highlight_from (Some c) s)"
  by pat_completeness auto
termination
  by (relation "measure (\<lambda>(_, s). length s)") (auto dest: match_at_split)

text \<open>\<open>raw\<close> is what \<open>JSON.stringify\<close> gives.\<close>

definition highlightJson :: "string \<Rightarrow> string" where
  "highlightJson raw = highlight_from None (escape_html raw)"

lemma highlight_from_pieces:
  assumes "markup_free s"
  shows "\<exists>ps. highlight_from before s = concat (map (\<lambda>(colour, t). case colour of None \<Rightarrow> t | Some c \<Rightarrow> coloured c t) ps) \<and>
    (\<forall>(colour, t) \<in> set ps. markup_free t \<and>
      colour \<in> {None, Some ''text-foreground'', Some ''text-emerald-600'', Some ''text-accent''}) \<and>
    non_blank (concat (map snd ps)) = non_blank s"
  using assms
proof (induction before s rule: highlight_from.induct)
  case (1 before)
  show ?case by (intro exI [of _ "[]"]) simp
next
  case (2 before c s)
  show ?case
  proof (cases "match_at before (c # s)")
    case None
    have "markup_free s" using "2.prems" by (simp add: markup_free_Cons)
    from "2.IH"(1) [OF None this] obtain ps where
      "highlight_from (Some c) s = concat (map (\<lambda>(colour, t). case colour of None \<Rightarrow> t | Some c \<Rightarrow> coloured c t) ps)"
      "\<forall>(colour, t) \<in> set ps. markup_free t \<and>
        colour \<in> {None, Some ''text-foreground'', Some ''text-emerald-600'', Some ''text-accent''}"
      "non_blank (concat (map snd ps)) = non_blank s" by blast
    then show ?thesis using None "2.prems"
      by (intro exI [of _ "(None, [c]) # ps"]) (simp add: markup_free_Cons non_blank_def, simp add: markup_free_def)
  next
    case (Some p)
    then obtain out rest where p: "match_at before (c # s) = Some (out, rest)" by (cases p) auto
    then obtain colour t tail where m: "out = coloured colour t @ tail"
      "colour \<in> {''text-foreground'', ''text-emerald-600'', ''text-accent''}" "tail \<in> {[], '':''}"
      "set t \<subseteq> set (c # s)" "set rest \<subseteq> set (c # s)" "non_blank (c # s) = non_blank (t @ tail @ rest)"
      using match_at_split by blast
    have free: "markup_free rest" "markup_free t" "markup_free tail"
      using "2.prems" m(3-5) by (auto simp: markup_free_def)
    let ?b = "Some (last (take (length (c # s) - length rest) (c # s)))"
    from "2.IH"(2) [OF p refl free(1)] obtain ps where ps:
      "highlight_from ?b rest = concat (map (\<lambda>(colour, t). case colour of None \<Rightarrow> t | Some c \<Rightarrow> coloured c t) ps)"
      "\<forall>(colour, t) \<in> set ps. markup_free t \<and>
        colour \<in> {None, Some ''text-foreground'', Some ''text-emerald-600'', Some ''text-accent''}"
      "non_blank (concat (map snd ps)) = non_blank rest" by blast
    show ?thesis
      using p m(1,2,6) free(2,3) ps
      by (intro exI [of _ "(Some colour, t) # (None, tail) # ps"]) auto
  qed
qed

text \<open>
  Whatever the JSON text of an object contains, the coloured text is made of pieces without a
  single angle bracket, some of them wrapped into the one kind of tag the function writes itself, in one
  of its three colours; and blanks apart, the pieces together are exactly the escaped text. So a
  transaction or proposal cannot bring markup of its own into the page.
\<close>

theorem highlight_adds_only_colour:
  "\<exists>ps. highlightJson raw = concat (map (\<lambda>(colour, t). case colour of None \<Rightarrow> t | Some c \<Rightarrow> coloured c t) ps) \<and>
    (\<forall>(colour, t) \<in> set ps. markup_free t \<and>
      colour \<in> {None, Some ''text-foreground'', Some ''text-emerald-600'', Some ''text-accent''}) \<and>
    non_blank (concat (map snd ps)) = non_blank (escape_html raw)"
  unfolding highlightJson_def by (rule highlight_from_pieces [OF markup_free_escape])

text \<open>
  The blanks behind a string go with its match even where no colon follows, so the line break that
  ends the last member of an object is lost.
\<close>

lemma highlight_drops_line_break:
  "highlightJson ([CHR 0x22, CHR ''a'', CHR 0x22, CHR 0x0A] @ ''}'') = coloured ''text-emerald-600'' [CHR 0x22, CHR ''a'', CHR 0x22] @ ''}''"
  by (simp add: highlightJson_def escape_html_def replace_char_def match_at_def string_token_def is_space_def
      keyword_token_def starts_with_def number_token_def digits_part_def is_digit_def)

theorem highlight_adds_only_colour_witness:
  "\<exists>ps. highlightJson ''<b>'' = concat (map (\<lambda>(colour, t). case colour of None \<Rightarrow> t | Some c \<Rightarrow> coloured c t) ps) \<and>
    non_blank (concat (map snd ps)) = ''&lt;b&gt;''"
proof -
  have "non_blank (escape_html ''<b>'') = ''&lt;b&gt;''"
    by (simp add: escape_html_def replace_char_def non_blank_def is_space_def)
  then show ?thesis using highlight_adds_only_colour [of "''<b>''"] by (auto simp del: highlightJson_def)
qed

end
