(* ===== verification/OgImage.thy ===== *)
theory OgImage
  imports Markup
begin

text \<open>
  \<open>frontend/src/lib/og.ts\<close>: the preview image of a block, transaction, address or masternode as an SVG
  text. What the locale of the server prints for numbers and dates is a parameter. Text outside ASCII
  is written in UTF-8; a line break joins the lines of a template.
\<close>

section \<open>Payloads\<close>

datatype OgPayload =
    OgBlock int string int string
  | OgTransaction string "string option" "rat option"
  | OgAddress string "rat option" "int option"
  | OgMasternode string "string option" "string option" "int option"

datatype og_kind = KBlock | KTransaction | KAddress | KMasternode

fun og_kind_of :: "OgPayload \<Rightarrow> og_kind" where
  "og_kind_of (OgBlock _ _ _ _) = KBlock"
| "og_kind_of (OgTransaction _ _ _) = KTransaction"
| "og_kind_of (OgAddress _ _ _) = KAddress"
| "og_kind_of (OgMasternode _ _ _ _) = KMasternode"

fun og_accent :: "og_kind \<Rightarrow> string" where
  "og_accent KBlock = ''#1d70e3''"
| "og_accent KTransaction = ''#7c5cff''"
| "og_accent KAddress = ''#f4a738''"
| "og_accent KMasternode = ''#2bb6a7''"

fun og_label :: "og_kind \<Rightarrow> string" where
  "og_label KBlock = ''BLOCK''"
| "og_label KTransaction = ''TRANSACTION''"
| "og_label KAddress = ''ADDRESS''"
| "og_label KMasternode = ''MASTERNODE''"

record og_locale =
  ol_number :: "int \<Rightarrow> string"
  ol_date :: "string \<Rightarrow> string option"

definition escapeXml :: "string \<Rightarrow> string" where
  "escapeXml v =
     replace_char (CHR 0x27) ''&apos;'' (replace_char (CHR 0x22) ''&quot;'' (replace_char (CHR ''>'') ''&gt;''
       (replace_char (CHR ''<'') ''&lt;'' (replace_char (CHR ''&'') ''&amp;'' v))))"

definition ellipsis :: string where "ellipsis = [CHR 0xE2, CHR 0x80, CHR 0xA6]"
definition middle_dot :: string where "middle_dot = [CHR 0xC2, CHR 0xB7]"
definition long_dash :: string where "long_dash = [CHR 0xE2, CHR 0x80, CHR 0x94]"

definition shortHash :: "string \<Rightarrow> nat \<Rightarrow> nat \<Rightarrow> string" where
  "shortHash hash front back =
     (if length hash \<le> front + back + 1 then hash
      else js_slice hash 0 (int front) @ ellipsis @ js_slice_from hash (- int back))"

section \<open>The parts of an image\<close>

fun renderHeadline :: "og_locale \<Rightarrow> OgPayload \<Rightarrow> string \<times> nat" where
  "renderHeadline l (OgBlock height hash txCount stamp) = (''#'' @ ol_number l height, 110)"
| "renderHeadline l (OgTransaction hash ty amount) = (shortHash hash 14 10, 64)"
| "renderHeadline l (OgAddress address bal txCount) = (shortHash address 14 10, 64)"
| "renderHeadline l (OgMasternode hash ip st collateral) = (or_else ip (shortHash hash 14 10), 72)"

fun renderSubline :: "OgPayload \<Rightarrow> string option" where
  "renderSubline (OgBlock height hash txCount stamp) = Some (shortHash hash 16 10)"
| "renderSubline (OgTransaction hash ty amount) =
     (case ty of
        Some t \<Rightarrow> if t = [] then None else Some (''Type '' @ middle_dot @ '' '' @ t)
      | None \<Rightarrow> None)"
| "renderSubline (OgAddress address bal txCount) = None"
| "renderSubline (OgMasternode hash ip st collateral) = Some (shortHash hash 14 10)"

text \<open>\<open>attr n v\<close> is a blank, the name and the quoted value; \<open>lines\<close> joins with a line break.\<close>

definition attr :: "string \<Rightarrow> string \<Rightarrow> string" where
  "attr n v = '' '' @ n @ ''='' @ [CHR 0x22] @ v @ [CHR 0x22]"

definition text_lines :: "string list \<Rightarrow> string" where
  "text_lines ls = js_join [CHR 0x0A] ls"

definition og_stat :: "nat \<Rightarrow> string \<Rightarrow> string \<Rightarrow> string" where
  "og_stat x label v =
     text_lines
       [''<g'' @ attr ''transform'' (''translate('' @ dec_nat x @ '', 420)'') @ ''>'',
        ''      <text'' @ attr ''font-size'' ''20'' @ attr ''fill'' ''#8aa0bd'' @ attr ''letter-spacing'' ''2'' @ ''>'' @
          escapeXml (js_upper label) @ ''</text>'',
        ''      <text'' @ attr ''y'' ''44'' @ attr ''font-size'' ''40'' @ attr ''font-weight'' ''700'' @
          attr ''fill'' ''#ffffff'' @ attr ''font-family'' ''ui-monospace, monospace'' @ ''>'' @ escapeXml v @ ''</text>'',
        ''    </g>'']"

fun renderStats :: "og_locale \<Rightarrow> OgPayload \<Rightarrow> string" where
  "renderStats l (OgBlock height hash txCount stamp) =
     og_stat 80 ''Transactions'' (ol_number l txCount) @
     og_stat 480 ''Timestamp'' (or_else (ol_date l stamp) long_dash)"
| "renderStats l (OgTransaction hash ty amount) =
     og_stat 80 ''Amount'' (case amount of Some a \<Rightarrow> to_fixed 4 a @ '' DASH'' | None \<Rightarrow> long_dash)"
| "renderStats l (OgAddress address bal txCount) =
     og_stat 80 ''Balance'' (case bal of Some a \<Rightarrow> to_fixed 4 a @ '' DASH'' | None \<Rightarrow> long_dash) @
     og_stat 480 ''Transactions'' (case txCount of Some n \<Rightarrow> ol_number l n | None \<Rightarrow> long_dash)"
| "renderStats l (OgMasternode hash ip st collateral) =
     og_stat 80 ''Status'' (or_else st long_dash) @
     og_stat 480 ''Collateral'' (case collateral of Some n \<Rightarrow> ol_number l n @ '' DASH'' | None \<Rightarrow> long_dash)"

definition stop_at :: "string \<Rightarrow> string \<Rightarrow> string option \<Rightarrow> string" where
  "stop_at offset colour opacity =
     ''      <stop'' @ attr ''offset'' offset @ attr ''stop-color'' colour @
     (case opacity of Some v \<Rightarrow> attr ''stop-opacity'' v | None \<Rightarrow> []) @ ''/>''"

definition og_defs :: "string \<Rightarrow> string list" where
  "og_defs accent =
     [''  <defs>'',
      ''    <linearGradient'' @ attr ''id'' ''bg'' @ attr ''x1'' ''0'' @ attr ''y1'' ''0'' @ attr ''x2'' ''1'' @ attr ''y2'' ''1'' @ ''>'',
      stop_at ''0%'' ''#0a1426'' None, stop_at ''100%'' ''#162338'' None,
      ''    </linearGradient>'',
      ''    <radialGradient'' @ attr ''id'' ''halo'' @ attr ''cx'' ''0.15'' @ attr ''cy'' ''0.2'' @ attr ''r'' ''0.6'' @ ''>'',
      stop_at ''0%'' accent (Some ''0.35''), stop_at ''100%'' accent (Some ''0''),
      ''    </radialGradient>'',
      ''    <linearGradient'' @ attr ''id'' ''accentLine'' @ attr ''x1'' ''0'' @ attr ''y1'' ''0'' @ attr ''x2'' ''1'' @ attr ''y2'' ''0'' @ ''>'',
      stop_at ''0%'' accent (Some ''0''), stop_at ''50%'' accent None, stop_at ''100%'' accent (Some ''0''),
      ''    </linearGradient>'',
      ''  </defs>'']"

definition full_rect :: "string \<Rightarrow> string" where
  "full_rect fill = ''  <rect'' @ attr ''width'' ''1200'' @ attr ''height'' ''630'' @ attr ''fill'' fill @ ''/>''"

definition dot_at :: "string \<Rightarrow> string \<Rightarrow> string option \<Rightarrow> string" where
  "dot_at r accent opacity =
     ''      <circle'' @ attr ''cx'' ''40'' @ attr ''cy'' ''40'' @ attr ''r'' r @ attr ''fill'' accent @
     (case opacity of Some v \<Rightarrow> attr ''opacity'' v | None \<Rightarrow> []) @ ''/>''"

definition og_subline :: "nat \<Rightarrow> string option \<Rightarrow> string" where
  "og_subline fontSize subline =
     (case subline of
        Some s \<Rightarrow>
          if s = [] then []
          else ''<text'' @ attr ''x'' ''80'' @ attr ''y'' (if fontSize > 70 then ''320'' else ''310'') @ attr ''font-size'' ''28'' @
            attr ''fill'' ''#a8bbd9'' @ attr ''font-family'' ''ui-monospace, monospace'' @ ''>'' @ escapeXml s @ ''</text>''
      | None \<Rightarrow> [])"

definition buildOgSvg :: "og_locale \<Rightarrow> OgPayload \<Rightarrow> string" where
  "buildOgSvg l payload =
     (let accent = og_accent (og_kind_of payload);
          label = og_label (og_kind_of payload);
          (headline, fontSize) = renderHeadline l payload
      in text_lines
        ([''<svg'' @ attr ''xmlns'' ''http://www.w3.org/2000/svg'' @ attr ''viewBox'' ''0 0 1200 630'' @ attr ''width'' ''1200'' @
            attr ''height'' ''630'' @ attr ''role'' ''img'' @ attr ''aria-label'' (escapeXml label @ '' OG image'') @ ''>''] @
         og_defs accent @
         [full_rect ''url(#bg)'', full_rect ''url(#halo)'',
          ''  <g'' @ attr ''font-family'' ''Manrope, system-ui, sans-serif'' @ attr ''fill'' ''#e9eef7'' @ ''>'',
          ''    <text'' @ attr ''x'' ''80'' @ attr ''y'' ''120'' @ attr ''font-size'' ''22'' @ attr ''letter-spacing'' ''6'' @
            attr ''fill'' ''#8aa0bd'' @ ''>DASHSCAN '' @ middle_dot @ '' '' @ escapeXml label @ ''</text>'',
          ''    <rect'' @ attr ''x'' ''80'' @ attr ''y'' ''148'' @ attr ''width'' ''180'' @ attr ''height'' ''3'' @
            attr ''fill'' ''url(#accentLine)'' @ ''/>'',
          ''    <text'' @ attr ''x'' ''80'' @ attr ''y'' ''260'' @ attr ''font-size'' (dec_nat fontSize) @ attr ''font-weight'' ''800'' @
            attr ''fill'' ''#ffffff'' @ ''>'' @ escapeXml headline @ ''</text>'',
          ''    '' @ og_subline fontSize (renderSubline payload),
          ''    '' @ renderStats l payload,
          ''    <g'' @ attr ''transform'' ''translate(80, 540)'' @ ''>'',
          ''      <text'' @ attr ''font-size'' ''22'' @ attr ''fill'' ''#8aa0bd'' @ ''>dashscan.io</text>'',
          ''    </g>'',
          ''    <g'' @ attr ''transform'' ''translate(1040, 80)'' @ attr ''fill'' accent @ ''>'',
          dot_at ''40'' accent (Some ''0.15''), dot_at ''26'' accent (Some ''0.35''), dot_at ''12'' accent None,
          ''    </g>'', ''  </g>'', ''</svg>'']))"

section \<open>No payload adds markup\<close>

definition is_markup :: "char \<Rightarrow> bool" where
  "is_markup c \<longleftrightarrow> c = CHR ''<'' \<or> c = CHR ''>'' \<or> c = CHR 0x22 \<or> c = CHR 0x27"

text \<open>What is left of a text when everything but brackets and quotes is taken out.\<close>

definition skeleton :: "string \<Rightarrow> string" where
  "skeleton s = filter is_markup s"

lemma skeleton_append [simp]: "skeleton (a @ b) = skeleton a @ skeleton b"
  by (simp add: skeleton_def)

lemma skeleton_Nil [simp]: "skeleton [] = []"
  by (simp add: skeleton_def)

lemma skeleton_Cons: "skeleton (c # s) = (if is_markup c then [c] else []) @ skeleton s"
  by (simp add: skeleton_def)

lemma skeleton_escape [simp]: "skeleton (escapeXml s) = []"
proof -
  let ?a = "replace_char (CHR ''&'') ''&amp;'' s"
  let ?b = "replace_char (CHR ''<'') ''&lt;'' ?a"
  let ?c = "replace_char (CHR ''>'') ''&gt;'' ?b"
  let ?d = "replace_char (CHR 0x22) ''&quot;'' ?c"
  have b: "CHR ''<'' \<notin> set ?b" using set_replace_char [of "CHR ''<''" "''&lt;''" ?a] by auto
  have c: "set ?c \<inter> {CHR ''<'', CHR ''>''} = {}"
    using set_replace_char [of "CHR ''>''" "''&gt;''" ?b] b by auto
  have d: "set ?d \<inter> {CHR ''<'', CHR ''>'', CHR 0x22} = {}"
    using set_replace_char [of "CHR 0x22" "''&quot;''" ?c] c by auto
  have "set (escapeXml s) \<inter> {CHR ''<'', CHR ''>'', CHR 0x22, CHR 0x27} = {}"
    using set_replace_char [of "CHR 0x27" "''&apos;''" ?d] d unfolding escapeXml_def by auto
  then show ?thesis by (auto simp: skeleton_def is_markup_def filter_empty_conv)
qed

lemma skeleton_dec_nat [simp]: "skeleton (dec_nat n) = []"
  using all_digits_dec_nat [of n]
  by (auto simp: skeleton_def is_markup_def filter_empty_conv is_digit_def)

lemma skeleton_join [simp]:
  "skeleton (text_lines ls) = concat (map skeleton ls)"
proof -
  have "skeleton (js_join [CHR 0x0A] ls) = concat (map skeleton ls)"
    by (induction "[CHR 0x0A]" ls rule: js_join.induct) (simp_all add: skeleton_Cons is_markup_def)
  then show ?thesis by (simp add: text_lines_def)
qed

lemma skeleton_attr: "skeleton (attr n v) = skeleton n @ [CHR 0x22] @ skeleton v @ [CHR 0x22]"
  by (simp add: attr_def skeleton_Cons is_markup_def)

text \<open>The literal parts of a template stay as they are; only the parts that vary are looked at.\<close>

lemmas skeleton_parts =
  skeleton_append skeleton_join skeleton_attr skeleton_escape skeleton_dec_nat list.map map_append concat.simps
  concat_append append_Nil2

definition sample_stat :: string where "sample_stat = og_stat 0 [] []"

lemma skeleton_stat: "skeleton (og_stat x label v) = skeleton sample_stat"
  by (simp only: og_stat_def sample_stat_def skeleton_parts)

definition has_subline :: "OgPayload \<Rightarrow> bool" where
  "has_subline p \<longleftrightarrow> (case renderSubline p of Some s \<Rightarrow> s \<noteq> [] | None \<Rightarrow> False)"

definition sample_subline :: string where "sample_subline = og_subline 0 (Some ''s'')"

lemma skeleton_subline_text: "s \<noteq> [] \<Longrightarrow> skeleton (og_subline n (Some s)) = skeleton sample_subline"
proof -
  assume "s \<noteq> []"
  moreover have y: "skeleton (if n > 70 then ''320'' else ''310'') = []" "skeleton ''310'' = []"
    by (simp_all add: skeleton_def is_markup_def)
  ultimately show ?thesis
    by (simp only: og_subline_def sample_subline_def option.case if_False list.distinct not_less_zero skeleton_parts y)
qed

lemma skeleton_subline:
  assumes "has_subline p = has_subline p'"
  shows "skeleton (og_subline n (renderSubline p)) = skeleton (og_subline n' (renderSubline p'))"
proof -
  have "skeleton (og_subline n (renderSubline q)) = (if has_subline q then skeleton sample_subline else [])" for n q
    by (cases "renderSubline q") (auto simp: has_subline_def skeleton_subline_text, simp_all add: og_subline_def)
  then show ?thesis using assms by simp
qed

lemma skeleton_stats:
  "og_kind_of p = og_kind_of p' \<Longrightarrow> skeleton (renderStats l p) = skeleton (renderStats l' p')"
  by (cases p; cases p') (simp_all add: skeleton_stat)

text \<open>
  Nothing in a payload can add markup to a preview image: two payloads of the same kind, with a
  second line in both or in neither, give images with the very same brackets and quotes in the same
  order, whatever their hashes, addresses, states and numbers are and whatever the locale prints.
\<close>

theorem og_image_fixed_markup:
  assumes "og_kind_of p = og_kind_of p'" "has_subline p = has_subline p'"
  shows "skeleton (buildOgSvg l p) = skeleton (buildOgSvg l' p')"
proof -
  obtain h n h' n' where h: "renderHeadline l p = (h, n)" "renderHeadline l' p' = (h', n')"
    by (cases "renderHeadline l p"; cases "renderHeadline l' p'")
  show ?thesis
    using skeleton_subline [OF assms(2), of n n'] skeleton_stats [OF assms(1), of l l']
    by (simp only: buildOgSvg_def h assms(1) Let_def prod.case skeleton_parts)
qed

theorem og_image_fixed_markup_witness:
  "skeleton (buildOgSvg \<lparr>ol_number = dec_int, ol_date = (\<lambda>_. None)\<rparr> (OgAddress ''</text><script>'' None None)) =
   skeleton (buildOgSvg \<lparr>ol_number = dec_int, ol_date = Some\<rparr> (OgAddress ''X1'' (Some 2) (Some 3)))"
  by (rule og_image_fixed_markup) (simp_all add: has_subline_def)

end
