(* ===== verification/ClientRequests.thy ===== *)
theory ClientRequests
  imports Routes
begin

text \<open>
  The data layer of the web interface, \<open>frontend/src/lib/api\<close>: one asynchronous function per
  request, with what it makes of the answer, and one \<open>QueryOptions\<close> function per query, with the
  key its result is cached under.

  An asynchronous function is a \<open>program\<close>: it is done, or it awaits \<open>apiFetch\<close> on a request and
  goes on with the response, or without one when the promise is rejected. The bodies of responses
  are of any type \<open>'b\<close>; parsing them is \<open>response.json()\<close>, which may be rejected too. Of the query
  library the model has the key and the function it is given; that it files results under the
  \<open>JSON.stringify\<close> of the key, in which \<open>undefined\<close> reads as \<open>null\<close>, is \<open>json_key\<close>.
\<close>

section \<open>Requests and programs\<close>

record request =
  net :: network
  target :: string
  search_params :: "(string \<times> string) list"

record 'b response =
  code :: int
  reason :: string
  body :: "'b option"

text \<open>What a function may resolve to: the parsed body, one of its members, or a substitute.\<close>

datatype 'b answer =
    Parsed 'b
  | Member string 'b
  | NullAnswer
  | NoRows
  | EmptyPage int int
  | NoBreakdown

datatype 'b outcome = Resolved "'b answer" | ThrownError string | FetchRejected | BodyRejected

datatype 'b program = Done "'b outcome" | Await request "'b response option \<Rightarrow> 'b program"

primrec run :: "'b program \<Rightarrow> (request \<Rightarrow> 'b response option) \<Rightarrow> 'b outcome" where
  "run (Done x) fetch = x"
| "run (Await r k) fetch = run (k (fetch r)) fetch"

text \<open>The requests a run makes, in order.\<close>

primrec requests_made ::
  "'b program \<Rightarrow> (request \<Rightarrow> 'b response option) \<Rightarrow> request list" where
  "requests_made (Done x) fetch = []"
| "requests_made (Await r k) fetch = r # requests_made (k (fetch r)) fetch"

text \<open>\<open>new URL(path, getBaseUrl(network))\<close> and \<open>url.searchParams.set\<close>.\<close>

definition new_url :: "string \<Rightarrow> network \<Rightarrow> request" where
  "new_url p n = \<lparr>net = n, target = p, search_params = []\<rparr>"

definition set_param :: "string \<Rightarrow> string \<Rightarrow> request \<Rightarrow> request" where
  "set_param k v r = r\<lparr>search_params := AList.update k v (search_params r)\<rparr>"

fun set_defined :: "string \<Rightarrow> string option \<Rightarrow> request \<Rightarrow> request" where
  "set_defined k None r = r"
| "set_defined k (Some v) r = set_param k v r"

text \<open>\<open>if (x) url.searchParams.set(k, x)\<close> on a string: the empty one counts as absent.\<close>

definition truthy :: "string option \<Rightarrow> string option" where
  "truthy x = (if x = Some [] then None else x)"

fun bool_text :: "bool \<Rightarrow> string" where
  "bool_text True = ''true''"
| "bool_text False = ''false''"

definition getBaseUrl :: "string option \<Rightarrow> network \<Rightarrow> string" where
  "getBaseUrl DASHSCAN_API_URL n =
     (case DASHSCAN_API_URL of Some u \<Rightarrow> u | None \<Rightarrow> ''https://testnet.dashscan.pshenmic.dev'')"

text \<open>\<open>response.ok\<close>, the error of a response that is not, and \<open>response.json()\<close>.\<close>

definition ok :: "'b response \<Rightarrow> bool" where
  "ok r \<longleftrightarrow> 200 \<le> code r \<and> code r \<le> 299"

definition api_failure :: "'b response \<Rightarrow> 'b outcome" where
  "api_failure r = ThrownError (''API error: '' @ dec_int (code r) @ '' '' @ reason r)"

definition json_as :: "('b \<Rightarrow> 'b answer) \<Rightarrow> 'b response \<Rightarrow> 'b outcome" where
  "json_as f r = (case body r of Some b \<Rightarrow> Resolved (f b) | None \<Rightarrow> BodyRejected)"

text \<open>Await a response; on a rejected promise the function is left.\<close>

definition awaiting :: "request \<Rightarrow> ('b response \<Rightarrow> 'b program) \<Rightarrow> 'b program" where
  "awaiting r k = Await r (\<lambda>a. case a of None \<Rightarrow> Done FetchRejected | Some x \<Rightarrow> k x)"

text \<open>\<open>if (!response.ok) throw \<dots>; return response.json()\<close>, also after \<open>if (status === 404) return x\<close>.\<close>

definition json_or_throw :: "('b \<Rightarrow> 'b answer) \<Rightarrow> 'b response \<Rightarrow> 'b program" where
  "json_or_throw f r = Done (if ok r then json_as f r else api_failure r)"

definition json_unless_missing :: "'b answer \<Rightarrow> ('b \<Rightarrow> 'b answer) \<Rightarrow> 'b response \<Rightarrow> 'b program" where
  "json_unless_missing x f r =
     (if code r = 404 then Done (Resolved x) else json_or_throw f r)"

text \<open>\<open>PaginationParams\<close>, and how most requests pass them on.\<close>

record paging =
  page_no :: "int option"
  page_limit :: "int option"
  page_order :: "string option"

definition set_paging :: "paging \<Rightarrow> request \<Rightarrow> request" where
  "set_paging p r =
     set_defined ''order'' (page_order p)
       (set_defined ''limit'' (map_option dec_int (page_limit p))
         (set_defined ''page'' (map_option dec_int (page_no p)) r))"

section \<open>Query keys\<close>

datatype key_part = KText string | KNum int | KBool bool | KNull | KUndefined

fun text_or :: "key_part \<Rightarrow> string option \<Rightarrow> key_part" where
  "text_or k None = k"
| "text_or k (Some s) = KText s"

fun num_or :: "key_part \<Rightarrow> int option \<Rightarrow> key_part" where
  "num_or k None = k"
| "num_or k (Some n) = KNum n"

fun bool_or :: "key_part \<Rightarrow> bool option \<Rightarrow> key_part" where
  "bool_or k None = k"
| "bool_or k (Some b) = KBool b"

definition net_part :: "network \<Rightarrow> key_part" where "net_part n = KText (network_name n)"

definition paging_parts :: "paging \<Rightarrow> key_part list" where
  "paging_parts p = [num_or KUndefined (page_no p), num_or KUndefined (page_limit p),
                     text_or KUndefined (page_order p)]"

text \<open>In an array \<open>JSON.stringify\<close> writes \<open>undefined\<close> as \<open>null\<close>.\<close>

fun json_part :: "key_part \<Rightarrow> key_part" where
  "json_part KUndefined = KNull"
| "json_part k = k"

definition json_key :: "key_part list \<Rightarrow> key_part list" where "json_key k = List.map json_part k"

text \<open>
  What a \<open>QueryOptions\<close> function returns. An infinite query is asked for a page at a time; for the
  others the argument of \<open>query_fn\<close> is unused.
\<close>

record 'b query_options =
  query_key :: "key_part list"
  query_fn :: "int \<Rightarrow> 'b program"
  enabled :: bool
  stale_time :: "int option"

definition plain_query :: "key_part list \<Rightarrow> 'b program \<Rightarrow> 'b query_options" where
  "plain_query k f = \<lparr>query_key = k, query_fn = (\<lambda>_. f), enabled = True, stale_time = None\<rparr>"

definition infinite_query :: "key_part list \<Rightarrow> (int \<Rightarrow> 'b program) \<Rightarrow> 'b query_options" where
  "infinite_query k f = \<lparr>query_key = k, query_fn = f, enabled = True, stale_time = None\<rparr>"

section \<open>Addresses\<close>

definition getAddresses :: "network \<Rightarrow> paging \<Rightarrow> 'b program" where
  "getAddresses n p = awaiting (set_paging p (new_url ''/addresses'' n)) (json_or_throw Parsed)"

definition addressesQueryOptions :: "network \<Rightarrow> paging \<Rightarrow> 'b query_options" where
  "addressesQueryOptions n p =
     plain_query (KText ''addresses'' # net_part n # paging_parts p) (getAddresses n p)"

definition getAddress :: "network \<Rightarrow> string \<Rightarrow> 'b program" where
  "getAddress n a = awaiting (new_url (''/address/'' @ a) n) (json_or_throw Parsed)"

definition addressQueryOptions :: "network \<Rightarrow> string \<Rightarrow> 'b query_options" where
  "addressQueryOptions n a = plain_query [KText ''address'', net_part n, KText a] (getAddress n a)"

definition getAddressTransactions :: "network \<Rightarrow> string \<Rightarrow> paging \<Rightarrow> 'b program" where
  "getAddressTransactions n a p =
     awaiting (set_paging p (new_url (''/address/'' @ a @ ''/transactions'') n)) (json_or_throw Parsed)"

definition addressTransactionsQueryOptions ::
  "network \<Rightarrow> string \<Rightarrow> paging \<Rightarrow> 'b query_options" where
  "addressTransactionsQueryOptions n a p =
     plain_query (KText ''address-transactions'' # net_part n # KText a # paging_parts p)
       (getAddressTransactions n a p)"

text \<open>The paging of page \<open>pageParam\<close> of an infinite query.\<close>

definition scroll_page :: "int option \<Rightarrow> string option \<Rightarrow> int \<Rightarrow> paging" where
  "scroll_page limit order q = \<lparr>page_no = Some q, page_limit = Some (or_else limit 25),
                                page_order = Some (or_else order ''desc'')\<rparr>"

definition scroll_parts :: "int option \<Rightarrow> string option \<Rightarrow> key_part list" where
  "scroll_parts limit order = [KNum (or_else limit 25), KText (or_else order ''desc'')]"

definition addressTransactionsInfiniteQueryOptions ::
  "network \<Rightarrow> string \<Rightarrow> int option \<Rightarrow> string option \<Rightarrow> 'b query_options" where
  "addressTransactionsInfiniteQueryOptions n a limit order =
     infinite_query (KText ''address-transactions-infinite'' # net_part n # KText a #
         scroll_parts limit order)
       (\<lambda>q. getAddressTransactions n a (scroll_page limit order q))"

text \<open>
  \<open>buildUrl\<close> and the two attempts of \<open>getAddressBalanceChart\<close>: a 404 from the first path sends it
  to the second.
\<close>

definition buildUrl :: "network \<Rightarrow> string \<Rightarrow> string \<Rightarrow> int option \<Rightarrow> string \<Rightarrow> request" where
  "buildUrl n start stop intervals p =
     set_defined ''intervals_count'' (map_option dec_int intervals)
       (set_param ''timestamp_end'' stop (set_param ''timestamp_start'' start (new_url p n)))"

definition getAddressBalanceChart ::
  "network \<Rightarrow> string \<Rightarrow> string \<Rightarrow> string \<Rightarrow> int option \<Rightarrow> 'b program" where
  "getAddressBalanceChart n a start stop intervals =
     awaiting (buildUrl n start stop intervals (''/address/'' @ a @ ''/balance/chart'')) (\<lambda>r.
       if code r = 404
       then awaiting (buildUrl n start stop intervals (''/address/'' @ a @ ''/balance/history''))
              (json_or_throw Parsed)
       else json_or_throw Parsed r)"

definition addressBalanceChartQueryOptions ::
  "network \<Rightarrow> string \<Rightarrow> string \<Rightarrow> string \<Rightarrow> int option \<Rightarrow> 'b query_options" where
  "addressBalanceChartQueryOptions n a start stop intervals =
     plain_query [KText ''address-balance-chart'', net_part n, KText a, KText start, KText stop,
         num_or KUndefined intervals]
       (getAddressBalanceChart n a start stop intervals)"

definition getAddressUtxos :: "network \<Rightarrow> string \<Rightarrow> paging \<Rightarrow> 'b program" where
  "getAddressUtxos n a p =
     awaiting (set_paging p (new_url (''/address/'' @ a @ ''/utxo'') n)) (json_or_throw Parsed)"

definition addressUtxosQueryOptions :: "network \<Rightarrow> string \<Rightarrow> paging \<Rightarrow> 'b query_options" where
  "addressUtxosQueryOptions n a p =
     plain_query (KText ''address-utxos'' # net_part n # KText a # paging_parts p)
       (getAddressUtxos n a p)"

definition getRichList :: "network \<Rightarrow> paging \<Rightarrow> 'b program" where
  "getRichList n p =
     awaiting (set_paging p (new_url ''/addresses/rich-list'' n)) (json_or_throw Parsed)"

definition richListQueryOptions :: "network \<Rightarrow> paging \<Rightarrow> 'b query_options" where
  "richListQueryOptions n p =
     plain_query (KText ''rich-list'' # net_part n # paging_parts p) (getRichList n p)"

definition richListInfiniteQueryOptions ::
  "network \<Rightarrow> int option \<Rightarrow> string option \<Rightarrow> 'b query_options" where
  "richListInfiniteQueryOptions n limit order =
     infinite_query (KText ''rich-list-infinite'' # net_part n # scroll_parts limit order)
       (\<lambda>q. getRichList n (scroll_page limit order q))"

definition getAddressesActivity ::
  "network \<Rightarrow> paging \<Rightarrow> string option \<Rightarrow> string option \<Rightarrow> 'b program" where
  "getAddressesActivity n p start stop =
     awaiting
       (set_defined ''timestamp_end'' stop (set_defined ''timestamp_start'' start
          (set_paging p (new_url ''/addresses/activity'' n))))
       (json_unless_missing NullAnswer Parsed)"

definition addressesActivityQueryOptions ::
  "network \<Rightarrow> paging \<Rightarrow> string option \<Rightarrow> string option \<Rightarrow> 'b query_options" where
  "addressesActivityQueryOptions n p start stop =
     plain_query (KText ''addresses-activity'' # net_part n # paging_parts p @
         [text_or KUndefined start, text_or KUndefined stop])
       (getAddressesActivity n p start stop)"

definition addressesActivityInfiniteQueryOptions ::
  "network \<Rightarrow> int option \<Rightarrow> string option \<Rightarrow> string option \<Rightarrow> string option \<Rightarrow> 'b query_options" where
  "addressesActivityInfiniteQueryOptions n limit order start stop =
     infinite_query (KText ''addresses-activity-infinite'' # net_part n # scroll_parts limit order @
         [text_or KUndefined start, text_or KUndefined stop])
       (\<lambda>q. getAddressesActivity n (scroll_page limit order q) start stop)"

section \<open>Blocks, the chain and the mempool\<close>

definition getBlocks :: "network \<Rightarrow> paging \<Rightarrow> bool js \<Rightarrow> 'b program" where
  "getBlocks n p superblock =
     awaiting (set_defined ''superblock'' (map_option bool_text (or_null superblock))
         (set_paging p (new_url ''/blocks'' n)))
       (json_or_throw Parsed)"

definition blocksQueryOptions :: "network \<Rightarrow> paging \<Rightarrow> bool js \<Rightarrow> 'b query_options" where
  "blocksQueryOptions n p superblock =
     plain_query (KText ''blocks'' # net_part n # paging_parts p @ [bool_or KNull (or_null superblock)])
       (getBlocks n p superblock)"

definition blocksInfiniteQueryOptions ::
  "network \<Rightarrow> int option \<Rightarrow> string option \<Rightarrow> bool js \<Rightarrow> 'b query_options" where
  "blocksInfiniteQueryOptions n limit order superblock =
     (let sb = or_null superblock in
      infinite_query (KText ''blocks-infinite'' # net_part n # scroll_parts limit order @
          [bool_or KNull sb])
        (\<lambda>q. getBlocks n (scroll_page limit order q) (js_of_option sb)))"

definition getBlock :: "network \<Rightarrow> string \<Rightarrow> 'b program" where
  "getBlock n h = awaiting (new_url (''/block/'' @ h) n) (json_or_throw Parsed)"

definition blockQueryOptions :: "network \<Rightarrow> string \<Rightarrow> 'b query_options" where
  "blockQueryOptions n h = plain_query [KText ''block'', net_part n, KText h] (getBlock n h)"

definition getChainStats :: "network \<Rightarrow> 'b program" where
  "getChainStats n = awaiting (new_url ''/chain/stats'' n) (json_or_throw Parsed)"

definition chainStatsQueryOptions :: "network \<Rightarrow> 'b query_options" where
  "chainStatsQueryOptions n = plain_query [KText ''chainStats'', net_part n] (getChainStats n)"

definition getMempool :: "network \<Rightarrow> paging \<Rightarrow> 'b program" where
  "getMempool n p =
     awaiting (set_paging p (new_url ''/transactions/mempool'' n)) (json_or_throw Parsed)"

definition mempoolQueryOptions :: "network \<Rightarrow> paging \<Rightarrow> 'b query_options" where
  "mempoolQueryOptions n p =
     plain_query (KText ''mempool'' # net_part n # paging_parts p) (getMempool n p)"

section \<open>Transactions\<close>

record tx_filters =
  transactionType :: "string option"
  coinjoin :: "bool option"
  multisig :: "bool option"
  blockHeight :: "int option"

definition applyTxFilters :: "tx_filters \<Rightarrow> request \<Rightarrow> request" where
  "applyTxFilters f r =
     set_defined ''block_height'' (map_option dec_int (blockHeight f))
       (set_defined ''multisig'' (map_option bool_text (multisig f))
         (set_defined ''coinjoin'' (map_option bool_text (coinjoin f))
           (set_defined ''transaction_type'' (transactionType f) r)))"

definition filter_parts :: "tx_filters \<Rightarrow> key_part list" where
  "filter_parts f = [text_or KNull (transactionType f), bool_or KNull (coinjoin f),
                     bool_or KNull (multisig f), num_or KNull (blockHeight f)]"

definition getTransactions :: "network \<Rightarrow> paging \<Rightarrow> tx_filters \<Rightarrow> 'b program" where
  "getTransactions n p f =
     awaiting (applyTxFilters f (set_paging p (new_url ''/transactions'' n))) (json_or_throw Parsed)"

definition transactionsQueryOptions :: "network \<Rightarrow> paging \<Rightarrow> tx_filters \<Rightarrow> 'b query_options" where
  "transactionsQueryOptions n p f =
     plain_query (KText ''transactions'' # net_part n # paging_parts p @ filter_parts f)
       (getTransactions n p f)"

definition transactionsInfiniteQueryOptions ::
  "network \<Rightarrow> int option \<Rightarrow> string option \<Rightarrow> tx_filters \<Rightarrow> 'b query_options" where
  "transactionsInfiniteQueryOptions n limit order f =
     infinite_query (KText ''transactions-infinite'' # net_part n # scroll_parts limit order @
         filter_parts f)
       (\<lambda>q. getTransactions n (scroll_page limit order q) f)"

definition getTransaction :: "network \<Rightarrow> string \<Rightarrow> 'b program" where
  "getTransaction n h = awaiting (new_url (''/transaction/'' @ h) n) (json_or_throw Parsed)"

definition transactionQueryOptions :: "network \<Rightarrow> string \<Rightarrow> 'b query_options" where
  "transactionQueryOptions n h =
     plain_query [KText ''transaction'', net_part n, KText h] (getTransaction n h)"

text \<open>
  The request sits in a \<open>try\<close> whose handler answers an empty page, so a rejected request and a
  response that is not ok read as a block without transactions. \<open>return response.json()\<close> is not
  awaited there: a body that cannot be parsed still rejects.
\<close>

definition getTransactionsByHeight :: "network \<Rightarrow> int \<Rightarrow> paging \<Rightarrow> 'b program" where
  "getTransactionsByHeight n h p =
     (let emptyResult = EmptyPage (or_else (page_no p) 1) (or_else (page_limit p) 10) in
      Await (set_paging p (new_url (''/transactions/height/'' @ dec_int h) n)) (\<lambda>a. case a of
          None \<Rightarrow> Done (Resolved emptyResult)
        | Some r \<Rightarrow> Done (if ok r then json_as Parsed r else Resolved emptyResult)))"

definition transactionsByHeightQueryOptions :: "network \<Rightarrow> int \<Rightarrow> paging \<Rightarrow> 'b query_options" where
  "transactionsByHeightQueryOptions n h p =
     plain_query (KText ''transactionsByHeight'' # net_part n # KNum h # paging_parts p)
       (getTransactionsByHeight n h p)"

section \<open>Masternodes\<close>

definition getMasternodes :: "network \<Rightarrow> paging \<Rightarrow> ('b \<Rightarrow> 'b answer) \<Rightarrow> 'b program" where
  "getMasternodes n p f = awaiting (set_paging p (new_url ''/masternodes'' n)) (json_or_throw f)"

definition getMasternode :: "network \<Rightarrow> string \<Rightarrow> 'b program" where
  "getMasternode n h =
     awaiting (set_param ''query'' h (new_url ''/search'' n)) (json_or_throw (Member ''masternode''))"

definition masternodeQueryOptions :: "network \<Rightarrow> string \<Rightarrow> 'b query_options" where
  "masternodeQueryOptions n h =
     plain_query [KText ''masternode'', net_part n, KText h] (getMasternode n h)"

definition getMasternodeVotes :: "network \<Rightarrow> string \<Rightarrow> 'b program" where
  "getMasternodeVotes n h =
     awaiting (new_url (''/masternode/'' @ h @ ''/votes'') n) (json_unless_missing NoRows Parsed)"

definition masternodeVotesQueryOptions :: "network \<Rightarrow> string \<Rightarrow> 'b query_options" where
  "masternodeVotesQueryOptions n h =
     (plain_query [KText ''masternode-votes'', net_part n, KText h] (getMasternodeVotes n h))
       \<lparr>stale_time := Some (60 * 1000)\<rparr>"

definition getMasternodeTransactions :: "network \<Rightarrow> string \<Rightarrow> paging \<Rightarrow> 'b program" where
  "getMasternodeTransactions n h p =
     awaiting (set_paging p (new_url (''/masternode/'' @ h @ ''/transactions'') n))
       (json_or_throw Parsed)"

definition masternodeTransactionsQueryOptions ::
  "network \<Rightarrow> string \<Rightarrow> paging \<Rightarrow> 'b query_options" where
  "masternodeTransactionsQueryOptions n h p =
     plain_query (KText ''masternode-transactions'' # net_part n # KText h # paging_parts p)
       (getMasternodeTransactions n h p)"

definition masternodeTransactionsInfiniteQueryOptions ::
  "network \<Rightarrow> string \<Rightarrow> int option \<Rightarrow> string option \<Rightarrow> 'b query_options" where
  "masternodeTransactionsInfiniteQueryOptions n h limit order =
     infinite_query (KText ''masternode-transactions-infinite'' # net_part n # KText h #
         scroll_parts limit order)
       (\<lambda>q. getMasternodeTransactions n h (scroll_page limit order q))"

definition masternodesQueryOptions :: "network \<Rightarrow> paging \<Rightarrow> 'b query_options" where
  "masternodesQueryOptions n p =
     plain_query (KText ''masternodes'' # net_part n # paging_parts p) (getMasternodes n p Parsed)"

definition masternodesInfiniteQueryOptions ::
  "network \<Rightarrow> int option \<Rightarrow> string option \<Rightarrow> 'b query_options" where
  "masternodesInfiniteQueryOptions n limit order =
     infinite_query (KText ''masternodes-infinite'' # net_part n # scroll_parts limit order)
       (\<lambda>q. getMasternodes n (scroll_page limit order q) Parsed)"

text \<open>\<open>(await getMasternodes(\<dots>)).resultSet\<close>; the map of masternodes selects from the same entry.\<close>

definition newest_first :: paging where
  "newest_first = \<lparr>page_no = None, page_limit = None, page_order = Some ''desc''\<rparr>"

definition getAllMasternodes :: "network \<Rightarrow> 'b program" where
  "getAllMasternodes n = getMasternodes n newest_first (Member ''resultSet'')"

definition allMasternodesBaseQueryOptions :: "network \<Rightarrow> 'b query_options" where
  "allMasternodesBaseQueryOptions n =
     (plain_query [KText ''masternodes-all'', net_part n] (getAllMasternodes n))
       \<lparr>stale_time := Some (5 * 60 * 1000)\<rparr>"

definition allMasternodesQueryOptions :: "network \<Rightarrow> 'b query_options" where
  "allMasternodesQueryOptions n = allMasternodesBaseQueryOptions n"

section \<open>Peers\<close>

record peer_filters =
  peer_available :: "bool option"
  peer_country :: "string option"
  peer_agent :: "string option"
  peer_ip :: "string option"

definition getPeers :: "network \<Rightarrow> paging \<Rightarrow> peer_filters \<Rightarrow> ('b \<Rightarrow> 'b answer) \<Rightarrow> 'b program" where
  "getPeers n p f g =
     awaiting
       (set_defined ''ip'' (truthy (peer_ip f))
         (set_defined ''user_agent'' (truthy (peer_agent f))
           (set_defined ''country'' (truthy (peer_country f))
             (set_defined ''available'' (map_option bool_text (peer_available f))
               (set_paging p (new_url ''/peers'' n))))))
       (json_or_throw g)"

definition no_peer_filters :: peer_filters where
  "no_peer_filters =
     \<lparr>peer_available = None, peer_country = None, peer_agent = None, peer_ip = None\<rparr>"

definition getAllPeers :: "network \<Rightarrow> 'b program" where
  "getAllPeers n = getPeers n newest_first no_peer_filters (Member ''resultSet'')"

definition allPeersQueryOptions :: "network \<Rightarrow> 'b query_options" where
  "allPeersQueryOptions n =
     (plain_query [KText ''peers-all'', net_part n] (getAllPeers n))
       \<lparr>stale_time := Some (5 * 60 * 1000)\<rparr>"

definition getPeerUserAgents :: "network \<Rightarrow> 'b program" where
  "getPeerUserAgents n =
     awaiting (set_param ''order'' ''desc'' (new_url ''/peers/user-agents'' n))
       (json_unless_missing NullAnswer (Member ''resultSet''))"

definition peerUserAgentsQueryOptions :: "network \<Rightarrow> 'b query_options" where
  "peerUserAgentsQueryOptions n =
     (plain_query [KText ''peer-user-agents'', net_part n] (getPeerUserAgents n))
       \<lparr>stale_time := Some (5 * 60 * 1000)\<rparr>"

section \<open>Governance\<close>

definition getProposals :: "network \<Rightarrow> string option \<Rightarrow> 'b program" where
  "getProposals n proposalType =
     awaiting (set_defined ''proposalType'' (truthy proposalType) (new_url ''/governance/proposals'' n))
       (json_or_throw Parsed)"

definition proposalsQueryOptions :: "network \<Rightarrow> string option \<Rightarrow> 'b query_options" where
  "proposalsQueryOptions n proposalType =
     plain_query [KText ''proposals'', net_part n, text_or KUndefined proposalType]
       (getProposals n proposalType)"

definition getProposal :: "network \<Rightarrow> string \<Rightarrow> 'b program" where
  "getProposal n h =
     awaiting (new_url (''/governance/proposal/'' @ h) n) (json_unless_missing NullAnswer Parsed)"

definition proposalQueryOptions :: "network \<Rightarrow> string \<Rightarrow> 'b query_options" where
  "proposalQueryOptions n h = plain_query [KText ''proposal'', net_part n, KText h] (getProposal n h)"

definition getProposalVotesChart ::
  "network \<Rightarrow> string \<Rightarrow> string \<Rightarrow> string \<Rightarrow> int option \<Rightarrow> bool option \<Rightarrow> 'b program" where
  "getProposalVotesChart n h start stop intervals runningTotal =
     awaiting
       (set_defined ''running_total'' (map_option bool_text runningTotal)
         (set_defined ''intervals_count'' (map_option dec_int intervals)
           (set_param ''timestamp_end'' stop (set_param ''timestamp_start'' start
             (new_url (''/governance/proposal/'' @ h @ ''/votes/chart'') n)))))
       (json_unless_missing NullAnswer Parsed)"

definition proposalVotesChartQueryOptions ::
  "network \<Rightarrow> string \<Rightarrow> string \<Rightarrow> string \<Rightarrow> int option \<Rightarrow> bool option \<Rightarrow> 'b query_options" where
  "proposalVotesChartQueryOptions n h start stop intervals runningTotal =
     plain_query [KText ''proposal-votes-chart'', net_part n, KText h, KText start, KText stop,
         num_or KUndefined intervals, bool_or KUndefined runningTotal]
       (getProposalVotesChart n h start stop intervals runningTotal)"

definition getBudget :: "network \<Rightarrow> 'b program" where
  "getBudget n = awaiting (new_url ''/governance/budget'' n) (json_or_throw Parsed)"

definition budgetQueryOptions :: "network \<Rightarrow> 'b query_options" where
  "budgetQueryOptions n = plain_query [KText ''governance-budget'', net_part n] (getBudget n)"

section \<open>Statistics\<close>

record stats_input =
  stats_start :: "string option"
  stats_end :: "string option"
  stats_intervals :: "int option"

definition buildStatsUrl :: "string \<Rightarrow> network \<Rightarrow> stats_input \<Rightarrow> request" where
  "buildStatsUrl p n s =
     set_defined ''intervals_count'' (map_option dec_int (stats_intervals s))
       (set_defined ''timestamp_end'' (truthy (stats_end s))
         (set_defined ''timestamp_start'' (truthy (stats_start s)) (new_url p n)))"

definition stats_parts :: "stats_input \<Rightarrow> key_part list" where
  "stats_parts s = [text_or KNull (stats_start s), text_or KNull (stats_end s),
                    num_or KNull (stats_intervals s)]"

definition getTransactionsStats :: "network \<Rightarrow> stats_input \<Rightarrow> 'b program" where
  "getTransactionsStats n s =
     awaiting (buildStatsUrl ''/transactions/chart'' n s) (json_or_throw Parsed)"

definition transactionsStatsQueryOptions :: "network \<Rightarrow> stats_input \<Rightarrow> 'b query_options" where
  "transactionsStatsQueryOptions n s =
     plain_query (KText ''transactionsStats'' # net_part n # stats_parts s)
       (getTransactionsStats n s)"

definition getBlockTransactionsStats :: "network \<Rightarrow> stats_input \<Rightarrow> 'b program" where
  "getBlockTransactionsStats n s =
     awaiting (buildStatsUrl ''/blocks/transactions/chart'' n s) (json_or_throw Parsed)"

definition blockTransactionsStatsQueryOptions ::
  "network \<Rightarrow> stats_input \<Rightarrow> 'b query_options" where
  "blockTransactionsStatsQueryOptions n s =
     plain_query (KText ''blockTransactionsStats'' # net_part n # stats_parts s)
       (getBlockTransactionsStats n s)"

definition getTransactionsBreakdown24h :: "network \<Rightarrow> 'b program" where
  "getTransactionsBreakdown24h n =
     awaiting (new_url ''/transactions/stats'' n) (json_unless_missing NoBreakdown Parsed)"

definition transactionsBreakdown24hQueryOptions :: "network \<Rightarrow> 'b query_options" where
  "transactionsBreakdown24hQueryOptions n =
     plain_query [KText ''transactionsBreakdown24h'', net_part n] (getTransactionsBreakdown24h n)"

section \<open>Search and the market\<close>

definition getSearch :: "network \<Rightarrow> string \<Rightarrow> 'b program" where
  "getSearch n q = awaiting (set_param ''query'' q (new_url ''/search'' n)) (json_or_throw Parsed)"

definition searchQueryOptions :: "network \<Rightarrow> string \<Rightarrow> 'b query_options" where
  "searchQueryOptions n q =
     (plain_query [KText ''search'', net_part n, KText q] (getSearch n q))\<lparr>enabled := q \<noteq> []\<rparr>"

datatype currency = Usd | Btc

fun currency_text :: "currency \<Rightarrow> string" where
  "currency_text Usd = ''usd''"
| "currency_text Btc = ''btc''"

definition getPrice :: "network \<Rightarrow> currency \<Rightarrow> 'b program" where
  "getPrice n c = awaiting (new_url (''/price/'' @ currency_text c) n) (json_or_throw Parsed)"

definition priceQueryOptions :: "network \<Rightarrow> currency \<Rightarrow> 'b query_options" where
  "priceQueryOptions n c =
     plain_query [KText ''price'', net_part n, KText (currency_text c)] (getPrice n c)"

definition getPriceHistorical :: "network \<Rightarrow> currency \<Rightarrow> 'b program" where
  "getPriceHistorical n c =
     awaiting (new_url (''/price/'' @ currency_text c @ ''/chart'') n) (json_or_throw Parsed)"

definition priceHistoricalQueryOptions :: "network \<Rightarrow> currency \<Rightarrow> 'b query_options" where
  "priceHistoricalQueryOptions n c =
     plain_query [KText ''priceHistorical'', net_part n, KText (currency_text c)]
       (getPriceHistorical n c)"

definition getVolume :: "network \<Rightarrow> currency \<Rightarrow> 'b program" where
  "getVolume n c = awaiting (new_url (''/volume/'' @ currency_text c) n) (json_or_throw Parsed)"

definition volumeQueryOptions :: "network \<Rightarrow> currency \<Rightarrow> 'b query_options" where
  "volumeQueryOptions n c =
     plain_query [KText ''volume'', net_part n, KText (currency_text c)] (getVolume n c)"

definition getVolumeHistorical :: "network \<Rightarrow> currency \<Rightarrow> 'b program" where
  "getVolumeHistorical n c =
     awaiting (new_url (''/volume/'' @ currency_text c @ ''/chart'') n) (json_or_throw Parsed)"

definition volumeHistoricalQueryOptions :: "network \<Rightarrow> currency \<Rightarrow> 'b query_options" where
  "volumeHistoricalQueryOptions n c =
     plain_query [KText ''volumeHistorical'', net_part n, KText (currency_text c)]
       (getVolumeHistorical n c)"

definition getMarketCap :: "network \<Rightarrow> currency \<Rightarrow> 'b program" where
  "getMarketCap n c = awaiting (new_url (''/marketcap/'' @ currency_text c) n) (json_or_throw Parsed)"

definition marketCapQueryOptions :: "network \<Rightarrow> currency \<Rightarrow> 'b query_options" where
  "marketCapQueryOptions n c =
     plain_query [KText ''marketcap'', net_part n, KText (currency_text c)] (getMarketCap n c)"

definition getMarketCapHistorical :: "network \<Rightarrow> currency \<Rightarrow> 'b program" where
  "getMarketCapHistorical n c =
     awaiting (new_url (''/marketcap/'' @ currency_text c @ ''/chart'') n) (json_or_throw Parsed)"

definition marketCapHistoricalQueryOptions :: "network \<Rightarrow> currency \<Rightarrow> 'b query_options" where
  "marketCapHistoricalQueryOptions n c =
     plain_query [KText ''marketcapHistorical'', net_part n, KText (currency_text c)]
       (getMarketCapHistorical n c)"

end
