(* ===== verification/QueryCache.thy ===== *)
theory QueryCache
  imports ClientRequests
begin

text \<open>
  The queries of the web interface taken together: the cache entries they share, the routes of the
  API that answer them, and what they make of an answer that is missing. \<open>issues\<close> lists the
  queries, each with the texts it puts into the path and the handler that is meant to answer it.
\<close>

inductive issues :: "'b query_options \<Rightarrow> string list \<Rightarrow> handler \<Rightarrow> bool" where
  q_addresses: "issues (addressesQueryOptions n p) [] GetAddresses"
| q_address: "issues (addressQueryOptions n a) [a] GetAddress"
| q_addressTransactions: "issues (addressTransactionsQueryOptions n a p) [a] GetAddressTransactions"
| q_addressTransactionsInfinite: "issues (addressTransactionsInfiniteQueryOptions n a lmt ord) [a] GetAddressTransactions"
| q_addressBalanceChart: "issues (addressBalanceChartQueryOptions n a s e i) [a] GetAddressBalanceSeries"
| q_addressUtxos: "issues (addressUtxosQueryOptions n a p) [a] GetAddressUtxo"
| q_richList: "issues (richListQueryOptions n p) [] GetBalancesInfo"
| q_richListInfinite: "issues (richListInfiniteQueryOptions n lmt ord) [] GetBalancesInfo"
| q_addressesActivity: "issues (addressesActivityQueryOptions n p so eo) [] GetAddressesActivity"
| q_addressesActivityInfinite: "issues (addressesActivityInfiniteQueryOptions n lmt ord so eo) [] GetAddressesActivity"
| q_blocks: "issues (blocksQueryOptions n p sb) [] GetBlocks"
| q_blocksInfinite: "issues (blocksInfiniteQueryOptions n lmt ord sb) [] GetBlocks"
| q_block: "issues (blockQueryOptions n a) [a] GetBlockByHash"
| q_chainStats: "issues (chainStatsQueryOptions n) [] GetChainStats"
| q_mempool: "issues (mempoolQueryOptions n p) [] GetPendingTransactions"
| q_transactions: "issues (transactionsQueryOptions n p f) [] GetTransactions"
| q_transactionsInfinite: "issues (transactionsInfiniteQueryOptions n lmt ord f) [] GetTransactions"
| q_transaction: "issues (transactionQueryOptions n a) [a] GetTransactionByHash"
| q_transactionsByHeight: "issues (transactionsByHeightQueryOptions n h p) [] GetTransactionsByBlockHeight"
| q_masternode: "issues (masternodeQueryOptions n a) [] SearchAll"
| q_masternodeVotes: "issues (masternodeVotesQueryOptions n a) [a] GetMasternodeVotes"
| q_masternodeTransactions: "issues (masternodeTransactionsQueryOptions n a p) [a] GetMasternodeTransactions"
| q_masternodeTransactionsInfinite: "issues (masternodeTransactionsInfiniteQueryOptions n a lmt ord) [a] GetMasternodeTransactions"
| q_masternodes: "issues (masternodesQueryOptions n p) [] GetMasternodes"
| q_masternodesInfinite: "issues (masternodesInfiniteQueryOptions n lmt ord) [] GetMasternodes"
| q_allMasternodes: "issues (allMasternodesQueryOptions n) [] GetMasternodes"
| q_allPeers: "issues (allPeersQueryOptions n) [] GetPeers"
| q_peerUserAgents: "issues (peerUserAgentsQueryOptions n) [] GetPeerUserAgents"
| q_proposals: "issues (proposalsQueryOptions n so) [] GetProposals"
| q_proposal: "issues (proposalQueryOptions n a) [a] GetProposalByHash"
| q_proposalVotesChart: "issues (proposalVotesChartQueryOptions n a s e i rt) [a] GetProposalVoteSeries"
| q_budget: "issues (budgetQueryOptions n) [] GetBudgetInfo"
| q_transactionsStats: "issues (transactionsStatsQueryOptions n st) [] GetTransactionCountSeries"
| q_blockTransactionsStats: "issues (blockTransactionsStatsQueryOptions n st) [] GetTxCountStats"
| q_transactionsBreakdown24h: "issues (transactionsBreakdown24hQueryOptions n) [] GetTransactionStats"
| q_search: "issues (searchQueryOptions n a) [] SearchAll"
| q_price: "issues (priceQueryOptions n c) [] GetPrice"
| q_priceHistorical: "issues (priceHistoricalQueryOptions n c) [] GetHistoricalPrices"
| q_volume: "issues (volumeQueryOptions n c) [] GetVolume"
| q_volumeHistorical: "issues (volumeHistoricalQueryOptions n c) [] GetHistoricalVolumes"
| q_marketCap: "issues (marketCapQueryOptions n c) [] GetMarketCap"
| q_marketCapHistorical: "issues (marketCapHistoricalQueryOptions n c) [] GetHistoricalMarketCaps"

section \<open>Cache entries\<close>

text \<open>What can be read back from a stringified key.\<close>

fun as_text :: "key_part \<Rightarrow> string" where
  "as_text (KText s) = s"
| "as_text _ = []"

fun as_opt_text :: "key_part \<Rightarrow> string option" where
  "as_opt_text (KText s) = Some s"
| "as_opt_text _ = None"

fun as_num :: "key_part \<Rightarrow> int option" where
  "as_num (KNum n) = Some n"
| "as_num _ = None"

fun as_bool :: "key_part \<Rightarrow> bool option" where
  "as_bool (KBool b) = Some b"
| "as_bool _ = None"

definition text_at :: "nat \<Rightarrow> key_part list \<Rightarrow> string" where "text_at i k = as_text (k ! i)"

definition opt_text_at :: "nat \<Rightarrow> key_part list \<Rightarrow> string option" where
  "opt_text_at i k = as_opt_text (k ! i)"

definition num_at :: "nat \<Rightarrow> key_part list \<Rightarrow> int option" where "num_at i k = as_num (k ! i)"

definition bool_at :: "nat \<Rightarrow> key_part list \<Rightarrow> bool option" where "bool_at i k = as_bool (k ! i)"

definition network_at :: "nat \<Rightarrow> key_part list \<Rightarrow> network" where
  "network_at i k = (if text_at i k = network_name Mainnet then Mainnet else Testnet)"

definition currency_at :: "nat \<Rightarrow> key_part list \<Rightarrow> currency" where
  "currency_at i k = (if text_at i k = currency_text Usd then Usd else Btc)"

definition paging_at :: "nat \<Rightarrow> key_part list \<Rightarrow> paging" where
  "paging_at i k = \<lparr>page_no = num_at i k, page_limit = num_at (i + 1) k,
                    page_order = opt_text_at (i + 2) k\<rparr>"

definition filters_at :: "nat \<Rightarrow> key_part list \<Rightarrow> tx_filters" where
  "filters_at i k = \<lparr>transactionType = opt_text_at i k, coinjoin = bool_at (i + 1) k,
                     multisig = bool_at (i + 2) k, blockHeight = num_at (i + 3) k\<rparr>"

definition stats_at :: "nat \<Rightarrow> key_part list \<Rightarrow> stats_input" where
  "stats_at i k = \<lparr>stats_start = opt_text_at i k, stats_end = opt_text_at (i + 1) k,
                   stats_intervals = num_at (i + 2) k\<rparr>"

lemma as_json_part [simp]:
  "as_opt_text (json_part (text_or KUndefined s)) = s" "as_opt_text (json_part (text_or KNull s)) = s"
  "as_num (json_part (num_or KUndefined i)) = i" "as_num (json_part (num_or KNull i)) = i"
  "as_bool (json_part (bool_or KUndefined b)) = b" "as_bool (json_part (bool_or KNull b)) = b"
  by (cases s; simp; fail | cases i; simp; fail | cases b; simp; fail)+

lemma network_at_json [simp]: "as_text (json_part (net_part n)) = network_name n"
  by (simp add: net_part_def)

lemma network_back [simp]: "(if network_name n = ''mainnet'' then Mainnet else Testnet) = n"
  by (cases n) auto

lemma currency_back [simp]: "(if currency_text c = ''usd'' then Usd else Btc) = c"
  by (cases c) auto

lemma records_back [simp]:
  "\<lparr>page_no = page_no p, page_limit = page_limit p, page_order = page_order p\<rparr> = p"
  "\<lparr>transactionType = transactionType f, coinjoin = coinjoin f, multisig = multisig f,
    blockHeight = blockHeight f\<rparr> = f"
  "\<lparr>stats_start = stats_start s, stats_end = stats_end s, stats_intervals = stats_intervals s\<rparr> = s"
  by simp_all

lemma scroll_page_back [simp]:
  "scroll_page (Some (or_else l 25)) (Some (or_else s ''desc'')) = scroll_page l s"
  by (simp add: scroll_page_def fun_eq_iff)

lemma getBlocks_back [simp]: "getBlocks n p (js_of_option (or_null sb)) = getBlocks n p sb"
  by (simp add: getBlocks_def)

lemmas reading_back =
  json_key_def paging_parts_def scroll_parts_def filter_parts_def stats_parts_def
  text_at_def opt_text_at_def num_at_def bool_at_def network_at_def currency_at_def
  paging_at_def filters_at_def stats_at_def plain_query_def infinite_query_def

text \<open>The function of a query, rebuilt from its key.\<close>

definition function_of_key :: "key_part list \<Rightarrow> int \<Rightarrow> 'b program" where
  "function_of_key k =
     (let h = text_at 0 k; n = network_at 1 k in
      if h = ''addresses'' then query_fn (addressesQueryOptions n (paging_at 2 k))
      else if h = ''address'' then query_fn (addressQueryOptions n (text_at 2 k))
      else if h = ''address-transactions'' then
        query_fn (addressTransactionsQueryOptions n (text_at 2 k) (paging_at 3 k))
      else if h = ''address-transactions-infinite'' then
        query_fn (addressTransactionsInfiniteQueryOptions n (text_at 2 k) (num_at 3 k) (opt_text_at 4 k))
      else if h = ''address-balance-chart'' then
        query_fn (addressBalanceChartQueryOptions n (text_at 2 k) (text_at 3 k) (text_at 4 k) (num_at 5 k))
      else if h = ''address-utxos'' then
        query_fn (addressUtxosQueryOptions n (text_at 2 k) (paging_at 3 k))
      else if h = ''rich-list'' then query_fn (richListQueryOptions n (paging_at 2 k))
      else if h = ''rich-list-infinite'' then
        query_fn (richListInfiniteQueryOptions n (num_at 2 k) (opt_text_at 3 k))
      else if h = ''addresses-activity'' then
        query_fn (addressesActivityQueryOptions n (paging_at 2 k) (opt_text_at 5 k) (opt_text_at 6 k))
      else if h = ''addresses-activity-infinite'' then
        query_fn (addressesActivityInfiniteQueryOptions n (num_at 2 k) (opt_text_at 3 k) (opt_text_at 4 k) (opt_text_at 5 k))
      else if h = ''blocks'' then
        query_fn (blocksQueryOptions n (paging_at 2 k) (js_of_option (bool_at 5 k)))
      else if h = ''blocks-infinite'' then
        query_fn (blocksInfiniteQueryOptions n (num_at 2 k) (opt_text_at 3 k) (js_of_option (bool_at 4 k)))
      else if h = ''block'' then query_fn (blockQueryOptions n (text_at 2 k))
      else if h = ''chainStats'' then query_fn (chainStatsQueryOptions n)
      else if h = ''mempool'' then query_fn (mempoolQueryOptions n (paging_at 2 k))
      else if h = ''transactions'' then
        query_fn (transactionsQueryOptions n (paging_at 2 k) (filters_at 5 k))
      else if h = ''transactions-infinite'' then
        query_fn (transactionsInfiniteQueryOptions n (num_at 2 k) (opt_text_at 3 k) (filters_at 4 k))
      else if h = ''transaction'' then query_fn (transactionQueryOptions n (text_at 2 k))
      else if h = ''transactionsByHeight'' then
        query_fn (transactionsByHeightQueryOptions n (the (num_at 2 k)) (paging_at 3 k))
      else if h = ''masternode'' then query_fn (masternodeQueryOptions n (text_at 2 k))
      else if h = ''masternode-votes'' then
        query_fn (masternodeVotesQueryOptions n (text_at 2 k))
      else if h = ''masternode-transactions'' then
        query_fn (masternodeTransactionsQueryOptions n (text_at 2 k) (paging_at 3 k))
      else if h = ''masternode-transactions-infinite'' then
        query_fn (masternodeTransactionsInfiniteQueryOptions n (text_at 2 k) (num_at 3 k) (opt_text_at 4 k))
      else if h = ''masternodes'' then query_fn (masternodesQueryOptions n (paging_at 2 k))
      else if h = ''masternodes-infinite'' then
        query_fn (masternodesInfiniteQueryOptions n (num_at 2 k) (opt_text_at 3 k))
      else if h = ''masternodes-all'' then query_fn (allMasternodesQueryOptions n)
      else if h = ''peers-all'' then query_fn (allPeersQueryOptions n)
      else if h = ''peer-user-agents'' then query_fn (peerUserAgentsQueryOptions n)
      else if h = ''proposals'' then query_fn (proposalsQueryOptions n (opt_text_at 2 k))
      else if h = ''proposal'' then query_fn (proposalQueryOptions n (text_at 2 k))
      else if h = ''proposal-votes-chart'' then
        query_fn (proposalVotesChartQueryOptions n (text_at 2 k) (text_at 3 k) (text_at 4 k) (num_at 5 k) (bool_at 6 k))
      else if h = ''governance-budget'' then query_fn (budgetQueryOptions n)
      else if h = ''transactionsStats'' then
        query_fn (transactionsStatsQueryOptions n (stats_at 2 k))
      else if h = ''blockTransactionsStats'' then
        query_fn (blockTransactionsStatsQueryOptions n (stats_at 2 k))
      else if h = ''transactionsBreakdown24h'' then
        query_fn (transactionsBreakdown24hQueryOptions n)
      else if h = ''search'' then query_fn (searchQueryOptions n (text_at 2 k))
      else if h = ''price'' then query_fn (priceQueryOptions n (currency_at 2 k))
      else if h = ''priceHistorical'' then
        query_fn (priceHistoricalQueryOptions n (currency_at 2 k))
      else if h = ''volume'' then query_fn (volumeQueryOptions n (currency_at 2 k))
      else if h = ''volumeHistorical'' then
        query_fn (volumeHistoricalQueryOptions n (currency_at 2 k))
      else if h = ''marketcap'' then query_fn (marketCapQueryOptions n (currency_at 2 k))
      else if h = ''marketcapHistorical'' then
        query_fn (marketCapHistoricalQueryOptions n (currency_at 2 k))
      else (\<lambda>_. Done FetchRejected))"

lemmas options_defs =
  addressesQueryOptions_def
  addressQueryOptions_def
  addressTransactionsQueryOptions_def
  addressTransactionsInfiniteQueryOptions_def
  addressBalanceChartQueryOptions_def
  addressUtxosQueryOptions_def
  richListQueryOptions_def
  richListInfiniteQueryOptions_def
  addressesActivityQueryOptions_def
  addressesActivityInfiniteQueryOptions_def
  blocksQueryOptions_def
  blocksInfiniteQueryOptions_def
  blockQueryOptions_def
  chainStatsQueryOptions_def
  mempoolQueryOptions_def
  transactionsQueryOptions_def
  transactionsInfiniteQueryOptions_def
  transactionQueryOptions_def
  transactionsByHeightQueryOptions_def
  masternodeQueryOptions_def
  masternodeVotesQueryOptions_def
  masternodeTransactionsQueryOptions_def
  masternodeTransactionsInfiniteQueryOptions_def
  masternodesQueryOptions_def
  masternodesInfiniteQueryOptions_def
  allMasternodesQueryOptions_def
  allPeersQueryOptions_def
  peerUserAgentsQueryOptions_def
  proposalsQueryOptions_def
  proposalQueryOptions_def
  proposalVotesChartQueryOptions_def
  budgetQueryOptions_def
  transactionsStatsQueryOptions_def
  blockTransactionsStatsQueryOptions_def
  transactionsBreakdown24hQueryOptions_def
  searchQueryOptions_def
  priceQueryOptions_def
  priceHistoricalQueryOptions_def
  volumeQueryOptions_def
  volumeHistoricalQueryOptions_def
  marketCapQueryOptions_def
  marketCapHistoricalQueryOptions_def
  allMasternodesBaseQueryOptions_def

lemma function_of_key_correct:
  "issues q ps h \<Longrightarrow> function_of_key (json_key (query_key q)) = query_fn q"
  by (erule issues.cases; hypsubst;
      simp add: function_of_key_def options_defs reading_back)

text \<open>
  C37: one cache entry, one function. Two queries of the web interface whose keys read the same
  once they are stringified, so that the cache answers one with the other's result, ask the API
  for the same thing and make the same of its answer, page by page; a parameter that the request
  depends on is never missing from the key, and an \<open>undefined\<close> one is not confused with a given one.
\<close>

theorem equal_keys_equal_functions:
  assumes "issues a ps h" "issues b qs g"
    and "json_key (query_key a) = json_key (query_key b)"
  shows "query_fn a = query_fn b"
  using assms function_of_key_correct by metis

definition any_page :: paging where
  "any_page = \<lparr>page_no = None, page_limit = Some 10, page_order = None\<rparr>"

lemma equal_keys_equal_functions_witness:
  "query_fn (blocksQueryOptions Mainnet any_page JUndef :: nat query_options) =
   query_fn (blocksQueryOptions Mainnet any_page JNull)"
  by (rule equal_keys_equal_functions [OF q_blocks q_blocks])
    (simp add: blocksQueryOptions_def plain_query_def)

section \<open>Routes\<close>

text \<open>A text that goes into a path as it is and fills one segment of it.\<close>

definition one_segment :: "string \<Rightarrow> bool" where
  "one_segment s \<longleftrightarrow> s \<noteq> [] \<and> list_all alphanumeric s"

lemma one_segmentD: "one_segment s \<Longrightarrow> s \<noteq> []" "one_segment s \<Longrightarrow> CHR ''/'' \<notin> set s"
  by (auto simp: one_segment_def list_all_iff alphanumeric_def Let_def)

lemma dec_int_segment: "dec_int i \<noteq> []" "CHR ''/'' \<notin> set (dec_int i)"
proof -
  have "CHR ''/'' \<notin> set (dec_nat n)" for n
    using all_digits_dec_nat [of n] by (auto simp: is_digit_def)
  then show "dec_int i \<noteq> []" "CHR ''/'' \<notin> set (dec_int i)" by (auto simp: dec_int_def)
qed

definition route_shapes :: "(handler \<times> string list) list" where
  "route_shapes =
     List.map (\<lambda>r. (answer_by r, segments (pattern r))) (List.filter (\<lambda>r. verb r = ''get'') registered)"

definition reaches :: "handler \<Rightarrow> string \<Rightarrow> bool" where
  "reaches h p \<longleftrightarrow> (\<exists>r \<in> set registered. verb r = ''get'' \<and> answer_by r = h \<and> takes (pattern r) p)"

lemma reachesI:
  "(h, ps) \<in> set route_shapes \<Longrightarrow> list_all2 segment_takes ps (segments p) \<Longrightarrow> reaches h p"
  unfolding reaches_def route_shapes_def takes_def by auto

lemma routed:
  assumes "routes_requests router" "reaches h p"
  shows "map_option answer_by (router registered ''get'' p) = Some h"
  using assms router_settled unfolding reaches_def by fastforce

lemma shapes:
  "route_shapes =
     [(GetStatus, ['''', ''status'']),
      (GetBlocks, ['''', ''blocks'']),
      (GetTxCountStats, ['''', ''blocks'', ''transactions'', ''chart'']),
      (GetBlockByHash, ['''', ''block'', '':hash'']),
      (GetTransactions, ['''', ''transactions'']),
      (GetTransactionStats, ['''', ''transactions'', ''stats'']),
      (GetTransactionCountSeries, ['''', ''transactions'', ''chart'']),
      (GetTransactionsByBlockHeight, ['''', ''transactions'', ''height'', '':height'']),
      (GetTransactionByHash, ['''', ''transaction'', '':hash'']),
      (GetAddresses, ['''', ''addresses'']),
      (GetMasternodes, ['''', ''masternodes'']),
      (GetMasternodeStats, ['''', ''masternodes'', ''stats'']),
      (GetMasternodeTransactions, ['''', ''masternode'', '':proTxHash'', ''transactions'']),
      (GetMasternodeVotes, ['''', ''masternode'', '':proTxHash'', ''votes'']),
      (GetPrice, ['''', ''price'', '':currency'']),
      (GetHistoricalPrices, ['''', ''price'', '':currency'', ''chart'']),
      (GetMarketCap, ['''', ''marketcap'', '':currency'']),
      (GetHistoricalMarketCaps, ['''', ''marketcap'', '':currency'', ''chart'']),
      (GetVolume, ['''', ''volume'', '':currency'']),
      (GetHistoricalVolumes, ['''', ''volume'', '':currency'', ''chart'']),
      (SearchAll, ['''', ''search'']),
      (GetProposalByHash, ['''', ''governance'', ''proposal'', '':hash'']),
      (GetProposalVoteSeries, ['''', ''governance'', ''proposal'', '':hash'', ''votes'', ''chart'']),
      (GetProposals, ['''', ''governance'', ''proposals'']),
      (GetPendingTransactions, ['''', ''transactions'', ''mempool'']),
      (GetAddress, ['''', ''address'', '':address'']),
      (GetAddressTransactions, ['''', ''address'', '':address'', ''transactions'']),
      (GetAddressBalanceSeries, ['''', ''address'', '':address'', ''balance'', ''chart'']),
      (GetAddressUtxo, ['''', ''address'', '':address'', ''utxo'']),
      (GetAddressesInfo, ['''', ''addresses'', ''info'']),
      (GetAddressesUtxo, ['''', ''addresses'', ''utxo'']),
      (GetBalancesInfo, ['''', ''addresses'', ''rich-list'']),
      (GetAddressesActivity, ['''', ''addresses'', ''activity'']),
      (GetBudgetInfo, ['''', ''governance'', ''budget'']),
      (GetChainStats, ['''', ''chain'', ''stats'']),
      (GetPeers, ['''', ''peers'']),
      (GetPeerUserAgents, ['''', ''peers'', ''user-agents''])]"
  by code_simp

text \<open>The handler that answers each query, and the only one that may take a second request.\<close>

lemmas program_defs =
  getAddresses_def getAddress_def getAddressTransactions_def getAddressBalanceChart_def
  getAddressUtxos_def getRichList_def getAddressesActivity_def getBlocks_def getBlock_def
  getChainStats_def getMempool_def getTransactions_def getTransaction_def
  getTransactionsByHeight_def getMasternodes_def getMasternode_def getMasternodeVotes_def
  getMasternodeTransactions_def getAllMasternodes_def getPeers_def getAllPeers_def
  getPeerUserAgents_def getProposals_def getProposal_def getProposalVotesChart_def getBudget_def
  getTransactionsStats_def getBlockTransactionsStats_def getTransactionsBreakdown24h_def
  getSearch_def getPrice_def getPriceHistorical_def getVolume_def getVolumeHistorical_def
  getMarketCap_def getMarketCapHistorical_def

lemmas request_targets =
  program_defs awaiting_def set_paging_def new_url_def buildUrl_def buildStatsUrl_def applyTxFilters_def

lemma target_set_defined [simp]: "target (set_defined k v r) = target r" "target (set_param k w r) = target r"
  by (cases v; simp add: set_param_def)+

primrec first_target :: "'b program \<Rightarrow> string" where
  "first_target (Done x) = []"
| "first_target (Await r k) = target r"

lemma currency_segment: "currency_text c \<noteq> []" "CHR ''/'' \<notin> set (currency_text c)"
  by (cases c; simp)+

lemma reaches_shapes:
  "reaches h p \<longleftrightarrow> list_ex (\<lambda>(g, ps). h = g \<and> list_all2 segment_takes ps (segments p)) route_shapes"
  unfolding reaches_def route_shapes_def takes_def by (auto simp: list_ex_iff)

lemmas matching =
  segments_def segment_takes_def is_param_def js_split_append js_split_no_sep
  one_segmentD currency_segment dec_int_segment

lemma query_reaches:
  "issues q ps h \<Longrightarrow> list_all one_segment ps \<Longrightarrow> reaches h (first_target (query_fn q i))"
  by (erule issues.cases; hypsubst;
      simp add: options_defs plain_query_def infinite_query_def request_targets Let_def;
      simp add: reaches_shapes shapes matching)

lemma requests_of_query:
  "issues q ps h \<Longrightarrow>
   requests_made (query_fn q i) fetch \<noteq> []
   \<and> target (hd (requests_made (query_fn q i) fetch)) = first_target (query_fn q i)
   \<and> length (requests_made (query_fn q i) fetch) \<le> (if h = GetAddressBalanceSeries then 2 else 1)"
  by (erule issues.cases; hypsubst;
      simp add: options_defs plain_query_def infinite_query_def request_targets Let_def
        json_or_throw_def json_unless_missing_def split: option.split)

text \<open>
  C12: the web interface and the API agree on the routes. For every query, with texts in its path
  that fill a segment each, any router gives its first request to the handler that is meant to
  answer it; every query makes one request, except that the balance chart may make a second one.
\<close>

theorem queries_reach_their_handlers:
  assumes "issues q ps h" "list_all one_segment ps" "routes_requests router"
  shows "map_option answer_by
           (router registered ''get'' (target (hd (requests_made (query_fn q i) fetch)))) = Some h \<and>
    length (requests_made (query_fn q i) fetch) \<in> {1..(if h = GetAddressBalanceSeries then 2 else 1)}"
proof -
  note made = requests_of_query [OF assms(1), of i fetch]
  have part1: "map_option answer_by
      (router registered ''get'' (target (hd (requests_made (query_fn q i) fetch)))) = Some h"
    using routed [OF assms(3) query_reaches [OF assms(1,2), of i]] made by simp
  have part2: "length (requests_made (query_fn q i) fetch) \<in> {1..(if h = GetAddressBalanceSeries then 2 else 1)}"
    using made by (cases "requests_made (query_fn q i) fetch") auto
  show ?thesis using part1 part2 by blast
qed

definition some_address :: string where
  "some_address = ''yP8A3cbdxRtLRduy5mXDsBnJtMzHWs6ZXr''"

lemma one_segment_address: "list_all one_segment [some_address]"
  by code_simp

definition never :: "request \<Rightarrow> nat response option" where
  "never r = None"

lemma queries_reach_their_handlers_witness:
  "map_option answer_by (first_fitting registered ''get''
     (target (hd (requests_made (query_fn (addressUtxosQueryOptions Testnet some_address any_page) 1)
        never)))) = Some GetAddressUtxo
   \<and> length (requests_made (query_fn (addressUtxosQueryOptions Testnet some_address any_page) 1) never)
       \<in> {1..(if GetAddressUtxo = GetAddressBalanceSeries then 2 else 1)}"
  using queries_reach_their_handlers [OF q_addressUtxos one_segment_address first_fitting_routes]
  by blast

text \<open>
  That second request goes to \<open>/address/:address/balance/history\<close>, which no route takes: a balance
  chart that is missing is asked for again in vain.
\<close>

lemma balance_history_unrouted:
  assumes "routes_requests router" "one_segment a"
  shows "router registered ''get'' (''/address/'' @ a @ ''/balance/history'') = None"
proof (cases "router registered ''get'' (''/address/'' @ a @ ''/balance/history'')")
  case (Some r)
  moreover have "case router registered ''get'' (''/address/'' @ a @ ''/balance/history'') of
      None \<Rightarrow> \<not> (\<exists>r \<in> set registered. verb r = ''get''
        \<and> takes (pattern r) (''/address/'' @ a @ ''/balance/history''))
    | Some r \<Rightarrow> r \<in> set registered \<and> verb r = ''get''
        \<and> takes (pattern r) (''/address/'' @ a @ ''/balance/history'')"
    using assms(1) unfolding routes_requests_def by blast
  ultimately have "reaches (answer_by r) (''/address/'' @ a @ ''/balance/history'')"
    unfolding reaches_def by (simp only: option.case) blast
  then show ?thesis using assms(2) by (simp add: reaches_shapes shapes matching)
qed

section \<open>Failures\<close>

text \<open>
  An answer that carries no data: none at all, a response that is not ok, or a body that cannot be
  parsed.
\<close>

definition fruitless :: "'b response option \<Rightarrow> bool" where
  "fruitless a = (case a of None \<Rightarrow> True | Some r \<Rightarrow> \<not> ok r \<or> body r = None)"

text \<open>The queries for which a 404 is an answer, and what it stands for.\<close>

definition missing_answer :: "handler \<Rightarrow> 'b answer option" where
  "missing_answer h =
     (if h = GetMasternodeVotes then Some NoRows
      else if h = GetTransactionStats then Some NoBreakdown
      else if h \<in> {GetAddressesActivity, GetPeerUserAgents, GetProposalByHash, GetProposalVoteSeries}
      then Some NullAnswer else None)"

text \<open>The empty page of the size that the query, and so its key, asks for.\<close>

definition empty_page :: "'b query_options \<Rightarrow> 'b answer" where
  "empty_page q = EmptyPage (or_else (num_at 3 (query_key q)) 1) (or_else (num_at 4 (query_key q)) 10)"

text \<open>What a query makes of an answer without data.\<close>

definition failure_reads_as ::
  "'b query_options \<Rightarrow> handler \<Rightarrow> 'b response option \<Rightarrow> 'b outcome" where
  "failure_reads_as q h a = (case a of
       None \<Rightarrow> if h = GetTransactionsByBlockHeight then Resolved (empty_page q) else FetchRejected
     | Some r \<Rightarrow>
         if ok r then BodyRejected
         else if h = GetTransactionsByBlockHeight then Resolved (empty_page q)
         else (case (missing_answer h, code r = 404) of
             (Some x, True) \<Rightarrow> Resolved x
           | _ \<Rightarrow> api_failure r))"

lemma missing_not_ok: "code r = 404 \<Longrightarrow> \<not> ok r"
  by (simp add: ok_def)

lemmas reading_answers =
  json_or_throw_def json_unless_missing_def json_as_def failure_reads_as_def fruitless_def
  missing_not_ok awaiting_def

lemma plain_fails:
  assumes "list_all (\<lambda>x. fruitless (fetch x)) (requests_made (awaiting r (json_or_throw f)) fetch)"
    and "missing_answer h = (None :: 'b answer option)" "h \<noteq> GetTransactionsByBlockHeight"
  shows "run (awaiting r (json_or_throw f) :: 'b program) fetch = failure_reads_as q h
    (fetch (last (requests_made (awaiting r (json_or_throw f)) fetch)))"
  using assms by (cases "fetch r") (auto simp: reading_answers)

lemma missing_fails:
  assumes "list_all (\<lambda>x. fruitless (fetch x)) (requests_made (awaiting r (json_unless_missing x f)) fetch)"
    and "missing_answer h = Some x" "h \<noteq> GetTransactionsByBlockHeight"
  shows "run (awaiting r (json_unless_missing x f)) fetch = failure_reads_as q h
    (fetch (last (requests_made (awaiting r (json_unless_missing x f)) fetch)))"
  using assms by (cases "fetch r") (auto simp: reading_answers)

lemma balance_chart_fails:
  assumes "list_all (\<lambda>x. fruitless (fetch x)) (requests_made (getAddressBalanceChart n a s e i) fetch)"
  shows "run (getAddressBalanceChart n a s e i) fetch = failure_reads_as q GetAddressBalanceSeries
    (fetch (last (requests_made (getAddressBalanceChart n a s e i) fetch)))"
proof (cases "fetch (buildUrl n s e i (''/address/'' @ a @ ''/balance/chart''))")
  case None
  then show ?thesis by (simp add: getAddressBalanceChart_def reading_answers)
next
  case (Some r)
  then show ?thesis using assms
    by (cases "fetch (buildUrl n s e i (''/address/'' @ a @ ''/balance/history''))")
      (auto simp: getAddressBalanceChart_def reading_answers missing_answer_def)
qed

lemma as_num_num_or: "as_num (num_or KUndefined x) = x"
  by (cases x) simp_all

lemma block_transactions_fail:
  assumes "list_all (\<lambda>x. fruitless (fetch x)) (requests_made (getTransactionsByHeight n k p) fetch)"
  shows "run (getTransactionsByHeight n k p) fetch =
    failure_reads_as (transactionsByHeightQueryOptions n k p) GetTransactionsByBlockHeight
      (fetch (last (requests_made (getTransactionsByHeight n k p) fetch)))"
  using assms
  by (cases "fetch (set_paging p (new_url (''/transactions/height/'' @ dec_int k) n))")
    (auto simp: getTransactionsByHeight_def Let_def reading_answers empty_page_def num_at_def as_num_num_or
      transactionsByHeightQueryOptions_def plain_query_def paging_parts_def)

text \<open>
  C36: what becomes of a failure of the API. When no request of a query brings data, the query
  ends as its last answer says. A rejected request, by a time-out for instance, rejects it, and so
  does a response that is ok with a body that cannot be parsed; a response that is not ok makes it
  throw the API's error, with its status and its reason. There are two exceptions: a 404 reads as
  no votes of a masternode, as no breakdown of the transactions, and as null for the activity of
  addresses, the user agents, a proposal and its votes; and the transactions of a block read any
  status that is not ok, and a rejected request, as an empty page of the size asked for, so that
  an outage looks like a block without transactions.
\<close>

theorem failures_are_reported:
  assumes "issues q ps h"
    and "list_all (\<lambda>x. fruitless (fetch x)) (requests_made (query_fn q i) fetch)"
  shows "run (query_fn q i) fetch =
    failure_reads_as q h (fetch (last (requests_made (query_fn q i) fetch)))"
  using assms
proof cases
  case (q_addressBalanceChart n a s e k)
  then show ?thesis using assms(2) balance_chart_fails
    by (simp add: addressBalanceChartQueryOptions_def plain_query_def)
next
  case (q_transactionsByHeight n k p)
  then show ?thesis using assms(2) block_transactions_fail [of fetch n k p]
    by (simp add: transactionsByHeightQueryOptions_def plain_query_def)
qed (use assms(2) in \<open>simp add: options_defs plain_query_def infinite_query_def program_defs Let_def
    missing_answer_def plain_fails missing_fails\<close>)+

definition unavailable :: "nat response" where
  "unavailable = \<lparr>code = 503, reason = ''Service Unavailable'', body = None\<rparr>"

definition not_found :: "nat response" where
  "not_found = \<lparr>code = 404, reason = ''Not Found'', body = Some 0\<rparr>"

theorem failures_are_reported_witness:
  "run (query_fn (proposalQueryOptions Mainnet some_address) 1) (\<lambda>_. Some unavailable)
     = ThrownError ''API error: 503 Service Unavailable''
   \<and> run (query_fn (proposalQueryOptions Mainnet some_address) 1) (\<lambda>_. Some not_found) = Resolved NullAnswer
   \<and> run (query_fn (transactionsByHeightQueryOptions Mainnet 7 any_page) 1) never
       = Resolved (empty_page (transactionsByHeightQueryOptions Mainnet 7 any_page))"
proof -
  have none: "fruitless (Some unavailable)" "fruitless (Some not_found)" "fruitless (never x)" for x
    by (simp_all add: fruitless_def ok_def unavailable_def not_found_def never_def)
  have reads: "failure_reads_as q GetProposalByHash (Some unavailable)
      = ThrownError ''API error: 503 Service Unavailable''"
    "failure_reads_as q GetProposalByHash (Some not_found) = Resolved NullAnswer"
    "failure_reads_as q GetTransactionsByBlockHeight (never x) = Resolved (empty_page q)" for q x
    by (simp_all add: failure_reads_as_def ok_def unavailable_def not_found_def never_def
        missing_answer_def api_failure_def, code_simp)
  note asked = failures_are_reported [OF q_proposal, of "\<lambda>_. Some unavailable" Mainnet some_address 1]
    failures_are_reported [OF q_proposal, of "\<lambda>_. Some not_found" Mainnet some_address 1]
    failures_are_reported [OF q_transactionsByHeight, of never Mainnet 7 any_page 1]
  show ?thesis
    using asked by (simp only: none list_all_iff reads) simp
qed

end
