(* ===== verification/InfiniteScroll.thy ===== *)
theory InfiniteScroll
  imports Blocks AddressHandlers
begin

text \<open>
  The listings of the web interface, which load page after page while the reader scrolls
  (\<open>getNextPageParam\<close> of the \<open>InfiniteQueryOptions\<close> in \<open>frontend/src/lib/api\<close>) or show one page under a
  pager (\<open>frontend/src/lib/pagination.ts\<close>), over the API's handlers. Both trust the total that a page
  states. The locale \<open>stated_listing\<close> is what a listing of the API promises them: pages of a fixed
  list, and a total that is stated on the pages that hold something and is at most zero on the
  others. Its lemma says what scrolling shows; it is interpreted on the block list and on the rich
  list.
\<close>

section \<open>The next page\<close>

text \<open>A number in a JSON text: what is not finite is written as \<open>null\<close>, which counts as 0.\<close>

fun json_number :: "jsnum \<Rightarrow> rat" where
  "json_number (Fin x) = x"
| "json_number _ = 0"

definition getNextPageParam :: "'a PaginatedResultSet \<Rightarrow> int option" where
  "getNextPageParam lastPage =
     (let pg = pagination lastPage in
      if of_int (pg_page pg) * json_number (pg_limit pg) < json_number (pg_total pg)
      then Some (pg_page pg + 1) else None)"

text \<open>The ranking by activity may be missing.\<close>

fun next_activity_page :: "'a PaginatedResultSet option \<Rightarrow> int option" where
  "next_activity_page None = None"
| "next_activity_page (Some r) = getNextPageParam r"

text \<open>
  The pages that are there after up to \<open>n\<close> requests, from page \<open>p\<close> on; \<open>fetchNextPage\<close> does nothing
  once there is no next page. Each request finds the state of its own moment, so the source is indexed by the
  number of the request; \<open>scroll\<close> is the case in which nothing changes meanwhile.
\<close>

fun scroll_over :: "(nat \<Rightarrow> int \<Rightarrow> 'a PaginatedResultSet) \<Rightarrow> nat \<Rightarrow> nat \<Rightarrow> int \<Rightarrow> 'a PaginatedResultSet list" where
  "scroll_over fetch i 0 p = []"
| "scroll_over fetch i (Suc n) p =
     (let r = fetch i p in
      r # (case getNextPageParam r of None \<Rightarrow> [] | Some q \<Rightarrow> scroll_over fetch (Suc i) n q))"

definition scroll :: "(int \<Rightarrow> 'a PaginatedResultSet) \<Rightarrow> nat \<Rightarrow> int \<Rightarrow> 'a PaginatedResultSet list" where
  "scroll fetch n p = scroll_over (\<lambda>_. fetch) 0 n p"

lemma scroll_over_still: "scroll_over (\<lambda>_. fetch) i n p = scroll fetch n p"
  unfolding scroll_def by (induction n arbitrary: i p) (auto simp: Let_def split: option.split, metis)

lemma scroll_simps [simp]:
  "scroll fetch 0 p = []"
  "scroll fetch (Suc n) p =
     (let r = fetch p in
      r # (case getNextPageParam r of None \<Rightarrow> [] | Some q \<Rightarrow> scroll fetch n q))"
proof -
  show "scroll fetch 0 p = []" by (simp add: scroll_def)
  have "scroll fetch (Suc n) p =
      fetch p # (case getNextPageParam (fetch p) of None \<Rightarrow> [] | Some q \<Rightarrow> scroll_over (\<lambda>_. fetch) (Suc 0) n q)"
    by (simp add: scroll_def Let_def)
  then show "scroll fetch (Suc n) p =
     (let r = fetch p in r # (case getNextPageParam r of None \<Rightarrow> [] | Some q \<Rightarrow> scroll fetch n q))"
    by (cases "getNextPageParam (fetch p)") (simp_all add: scroll_over_still Let_def)
qed

text \<open>Which request brings which page, and where it ends, for a source that says when there is more.\<close>

lemma scroll_over_nth:
  assumes "\<And>i p. 1 \<le> p \<Longrightarrow> getNextPageParam (fetch i (int p)) = (if goes_on i p then Some (int (Suc p)) else None)"
    and "1 \<le> p"
  shows "i < length (scroll_over fetch j n (int p)) \<Longrightarrow> scroll_over fetch j n (int p) ! i = fetch (j + i) (int (p + i))"
    and "Suc i < length (scroll_over fetch j n (int p)) \<Longrightarrow> goes_on (j + i) (p + i)"
    and "Suc i = length (scroll_over fetch j n (int p)) \<Longrightarrow> Suc i < n \<Longrightarrow> \<not> goes_on (j + i) (p + i)"
  using assms(2)
proof (induction n arbitrary: i j p)
  case (Suc n)
  { case 1
    then show ?case
      using Suc.IH(1) [of "i - 1" "Suc j" "Suc p"] assms(1) [of p j]
      by (cases i) (auto simp: Let_def split: if_splits)
  next
    case 2
    then show ?case
      using Suc.IH(2) [of "i - 1" "Suc j" "Suc p"] assms(1) [of p j]
      by (cases i) (auto simp: Let_def split: if_splits)
  next
    case 3
    have goes_on: "goes_on j p \<longleftrightarrow> scroll_over fetch j (Suc n) (int p) = fetch j (int p) # scroll_over fetch (Suc j) n (int (Suc p))"
      if "0 < n"
      using assms(1) [of p j] 3 that by (cases n) (auto simp: Let_def)
    show ?case
    proof (cases i)
      case 0
      then show ?thesis using 3 goes_on by (cases n) (auto simp: Let_def)
    next
      case (Suc k)
      then have "goes_on j p" "Suc k = length (scroll_over fetch (Suc j) n (int (Suc p)))" "Suc k < n"
        using 3 assms(1) [of p j] by (auto simp: Let_def split: if_splits)
      then have "\<not> goes_on (Suc j + k) (Suc p + k)" using 3 by (intro Suc.IH(3)) simp_all
      then show ?thesis by (simp add: Suc)
    qed }
qed auto

lemma scroll_over_length: "length (scroll_over fetch j n p) \<le> n" "0 < n \<Longrightarrow> 0 < length (scroll_over fetch j n p)"
  by (induction n arbitrary: j p) (auto simp: Let_def split: option.split)

text \<open>\<open>getPageCount(pagination)\<close>.\<close>

fun getPageCount :: "pagination option \<Rightarrow> jsnum" where
  "getPageCount None = Fin 0"
| "getPageCount (Some pg) = num_ceil (num_div (json_number (pg_total pg)) (json_number (pg_limit pg)))"

section \<open>What scrolling shows\<close>

definition stated_pages :: "rat \<Rightarrow> nat \<Rightarrow> nat" where
  "stated_pages tot limit = nat (max 1 \<lceil>tot / of_nat limit\<rceil>)"

lemma more_stated:
  assumes "0 < limit" "1 \<le> p"
  shows "of_int (int p) * of_nat limit < tot \<longleftrightarrow> p < stated_pages tot limit"
proof -
  have "of_int (int p) * of_nat limit < tot \<longleftrightarrow> of_int (int p) < tot / of_nat limit"
    using assms(1) by (simp add: pos_less_divide_eq)
  also have "\<dots> \<longleftrightarrow> int p < \<lceil>tot / of_nat limit\<rceil>" by (simp add: less_ceiling_iff)
  also have "\<dots> \<longleftrightarrow> p < stated_pages tot limit"
    using assms(2) unfolding stated_pages_def by linarith
  finally show ?thesis .
qed

lemma stated_pages_pos: "1 \<le> stated_pages tot limit"
  by (simp add: stated_pages_def)

locale stated_listing =
  fixes fetch :: "int \<Rightarrow> 'a PaginatedResultSet"
    and shown :: "'a PaginatedResultSet \<Rightarrow> 'b list"
    and rows :: "'b list"
    and size limit :: nat
    and tot none :: jsnum
  assumes limit_positive: "0 < limit"
    and nothing_stated: "json_number none \<le> 0"
    and page_shown: "1 \<le> p \<Longrightarrow> shown (fetch (int p)) = page_of p size rows"
    and page_stated: "1 \<le> p \<Longrightarrow> pagination (fetch (int p)) =
      \<lparr>pg_page = int p, pg_limit = Fin (of_nat limit),
       pg_total = (if page_of p size rows = [] then none else tot)\<rparr>"
begin

lemma next_page:
  assumes "1 \<le> p"
  shows "getNextPageParam (fetch (int p)) =
    (if page_of p size rows \<noteq> [] \<and> p < stated_pages (json_number tot) limit
     then Some (int (Suc p)) else None)"
proof -
  have "\<not> of_int (int p) * of_nat limit < json_number none"
    using nothing_stated by (simp add: not_less order_trans [of _ 0])
  then show ?thesis
    using more_stated [OF limit_positive assms, of "json_number tot"]
    by (auto simp: getNextPageParam_def page_stated [OF assms] Let_def)
qed

lemma drop_page:
  assumes "1 \<le> p"
  shows "page_of p size rows @ drop (p * size) rows = drop ((p - 1) * size) rows"
proof -
  obtain m where "p = Suc m" using assms by (cases p) auto
  then show ?thesis
    by (simp add: page_of_def) (metis append_take_drop_id drop_drop)
qed

lemma scroll_shows_from:
  "1 \<le> p \<Longrightarrow> concat (map shown (scroll fetch n (int p))) =
   take (min n (max 1 (stated_pages (json_number tot) limit - (p - 1))) * size)
     (drop ((p - 1) * size) rows)"
proof (induction n arbitrary: p)
  case (Suc n)
  let ?k = "stated_pages (json_number tot) limit"
  have rest: "drop ((p - 1) * size) rows = page_of p size rows @ drop (p * size) rows"
    using drop_page [OF Suc.prems] by simp
  show ?case
  proof (cases "page_of p size rows \<noteq> [] \<and> p < ?k")
    case True
    then have empty_or: "length (page_of p size rows) = size \<or> drop (p * size) rows = []"
      using Suc.prems by (cases p) (auto simp: page_of_def)
    have count: "min (Suc n) (max 1 (?k - (p - 1))) = Suc (min n (max 1 (?k - p)))"
      using True Suc.prems by (auto simp: min_def max_def)
    have len: "length (page_of p size rows) \<le> size" by (simp add: length_page_of)
    have "concat (map shown (scroll fetch (Suc n) (int p))) =
        page_of p size rows @ take (min n (max 1 (?k - p)) * size) (drop (p * size) rows)"
      using True Suc.IH [of "Suc p"] Suc.prems by (simp add: next_page page_shown Let_def)
    also have "\<dots> = take (min (Suc n) (max 1 (?k - (p - 1))) * size) (drop ((p - 1) * size) rows)"
      unfolding rest count using empty_or len by (auto simp: take_add)
    finally show ?thesis .
  next
    case False
    have "getNextPageParam (fetch (int p)) = None"
      using False next_page [OF Suc.prems] by (simp only: if_False)
    then have "concat (map shown (scroll fetch (Suc n) (int p))) = page_of p size rows"
      using Suc.prems by (simp add: page_shown Let_def)
    moreover have "page_of p size rows = take size (drop ((p - 1) * size) rows)"
      by (simp add: page_of_def)
    moreover have "min (Suc n) (max 1 (?k - (p - 1))) = 1 \<or> size = 0 \<or> drop ((p - 1) * size) rows = []"
      using False Suc.prems by (auto simp: page_of_def)
    ultimately show ?thesis by auto
  qed
qed simp

lemma scroll_shows:
  "concat (map shown (scroll fetch n 1)) =
   take (min n (stated_pages (json_number tot) limit) * size) rows"
  using scroll_shows_from [of 1 n] stated_pages_pos [of "json_number tot" limit] by (simp add: max_absorb2)

text \<open>Once the stated pages are there, asking for more changes nothing.\<close>

lemma scroll_stops_from:
  "1 \<le> p \<Longrightarrow> stated_pages (json_number tot) limit \<le> n + (p - 1) \<Longrightarrow> 0 < n \<Longrightarrow>
   scroll fetch (n + m) (int p) = scroll fetch n (int p)"
proof (induction n arbitrary: p)
  case (Suc n)
  have "scroll fetch (n + m) (int (Suc p)) = scroll fetch n (int (Suc p))"
    if "p < stated_pages (json_number tot) limit"
    using that Suc.prems by (intro Suc.IH) auto
  then show ?case using Suc.prems by (simp add: next_page Let_def)
qed simp

lemma scroll_stops:
  "stated_pages (json_number tot) limit \<le> n \<Longrightarrow> scroll fetch (n + m) 1 = scroll fetch n 1"
  using scroll_stops_from [of 1 n m] stated_pages_pos [of "json_number tot" limit] by simp

end

section \<open>The block list\<close>

definition all_blocks :: "db \<Rightarrow> string js \<Rightarrow> bool js \<Rightarrow> Block list" where
  "all_blocks d order superblock =
     map (\<lambda>b. Block_fromRow (block_columns d b))
       (order_by (js_dir order) (\<lambda>b. Some (b_height b)) (superblock_filter superblock (db_blocks d)))"

definition block_total :: "db \<Rightarrow> bool js \<Rightarrow> int" where
  "block_total d superblock =
     (if superblock = J True then int (length (filter b_superblock (db_blocks d)))
      else db_reltuples d ''blocks'')"

definition block_pages :: "db \<Rightarrow> nat \<Rightarrow> string js \<Rightarrow> bool js \<Rightarrow> int \<Rightarrow> Block PaginatedResultSet" where
  "block_pages d limit order superblock p = projr (getBlocks d p (int limit) order superblock)"

lemma page_of_map: "page_of p n (map f xs) = map f (page_of p n xs)"
  by (simp add: page_of_def take_map drop_map)

interpretation block_list: stated_listing "block_pages d (Suc k) order superblock" resultSet
    "all_blocks d order superblock" "Suc k" "Suc k"
    "js_Number (J (bigint (block_total d superblock)))" "Fin (- 1)" for d k order superblock
  by unfold_locales
    (auto simp: block_pages_def getBlocks_page all_blocks_def new_PaginatedResultSet_def Let_def
      page_of_map block_total_def simp del: of_nat_Suc)

lemma js_Number_int: "0 \<le> t \<Longrightarrow> of_int t < double_limit \<Longrightarrow> js_Number (J (bigint t)) = Fin (of_int t)"
  using js_Number_bigint [of "nat t"] by simp

text \<open>While nothing changes, the reader gets the first pages of the list, one after the other, up to the stated end.\<close>

lemma scrolling_still_blocks:
  assumes "0 < limit" "0 \<le> block_total d superblock" "of_int (block_total d superblock) < double_limit"
  defines "stated \<equiv> stated_pages (of_int (block_total d superblock)) limit"
  shows "concat (map resultSet (scroll (block_pages d limit order superblock) n 1)) =
      take (min n stated * limit) (all_blocks d order superblock)"
    and "scroll (block_pages d limit order superblock) (stated + m) 1 =
      scroll (block_pages d limit order superblock) stated 1"
proof -
  obtain k where k: "limit = Suc k" using assms(1) by (cases limit) auto
  show "concat (map resultSet (scroll (block_pages d limit order superblock) n 1)) =
      take (min n stated * limit) (all_blocks d order superblock)"
    using block_list.scroll_shows [of d k order superblock n]
    by (simp only: k stated_def js_Number_int [OF assms(2,3)] json_number.simps)
  show "scroll (block_pages d limit order superblock) (stated + m) 1 =
      scroll (block_pages d limit order superblock) stated 1"
    using block_list.scroll_stops [of d superblock k stated order m]
    by (simp only: k stated_def js_Number_int [OF assms(2,3)] json_number.simps order.refl)
qed

subsection \<open>Scrolling while the chain grows\<close>

definition heights_desc :: "db \<Rightarrow> bool js \<Rightarrow> int list" where
  "heights_desc d superblock =
     map b_height (order_by Desc (\<lambda>b. Some (b_height b)) (superblock_filter superblock (db_blocks d)))"

definition page_heights :: "Block PaginatedResultSet \<Rightarrow> int list" where
  "page_heights r = List.map_filter bk_height (resultSet r)"

lemma block_height_column: "bk_height (Block_fromRow (block_columns d b)) = Some (b_height b)"
  by (simp add: Block_fromRow_def new_Block_def block_columns_def)

lemma page_heights_of:
  assumes "0 < limit" "1 \<le> p"
  shows "page_heights (block_pages d limit (J ''desc'') superblock (int p)) =
    take limit (drop ((p - 1) * limit) (heights_desc d superblock))"
proof -
  obtain k where "limit = Suc k" using assms(1) by (cases limit) auto
  then have "resultSet (block_pages d limit (J ''desc'') superblock (int p)) =
      page_of p limit (all_blocks d (J ''desc'') superblock)"
    using block_list.page_shown [OF assms(2)] by simp
  moreover have "List.map_filter bk_height (map (\<lambda>b. Block_fromRow (block_columns d b)) bs) = map b_height bs" for bs
    by (induction bs) (simp_all add: List.map_filter_simps block_height_column)
  ultimately show ?thesis
    by (simp add: page_heights_def all_blocks_def page_of_map page_of_def heights_desc_def dir_of_def
        take_map drop_map)
qed

lemma block_next_page:
  assumes "0 < limit" "0 \<le> block_total d superblock" "of_int (block_total d superblock) < double_limit" "1 \<le> p"
  shows "getNextPageParam (block_pages d limit (J ''desc'') superblock (int p)) =
    (if drop ((p - 1) * limit) (heights_desc d superblock) \<noteq> [] \<and> int (p * limit) < block_total d superblock
     then Some (int (Suc p)) else None)"
proof -
  obtain k where k: "limit = Suc k" using assms(1) by (cases limit) auto
  have "p < stated_pages (of_int (block_total d superblock)) limit \<longleftrightarrow>
      of_int (int p) * of_nat limit < (of_int (block_total d superblock) :: rat)"
    using more_stated [OF assms(1,4)] by blast
  also have "\<dots> \<longleftrightarrow> (of_int (int (p * limit)) :: rat) < of_int (block_total d superblock)" by simp
  also have "\<dots> \<longleftrightarrow> int (p * limit) < block_total d superblock" by (simp only: of_int_less_iff)
  finally show ?thesis
    using block_list.next_page [OF assms(4), of d k "J ''desc''" superblock] assms(1)
    by (auto simp: js_Number_int [OF assms(2,3)] k [symmetric] page_of_def all_blocks_def heights_desc_def dir_of_def
        simp del: js_Number.simps)
qed

text \<open>Where a block stands after some more have arrived on top of it.\<close>

lemma grown_position:
  fixes h :: "nat \<Rightarrow> 'a list"
  assumes "\<And>i. h (Suc i) = new i @ h i" "k < length (h 0)"
  shows "k + (\<Sum>j<i. length (new j)) < length (h i) \<and> h i ! (k + (\<Sum>j<i. length (new j))) = h 0 ! k"
proof (induction i)
  case (Suc i)
  then show ?case by (simp add: assms(1) nth_append)
qed (use assms(2) in simp)

lemma nothing_skipped:
  fixes h :: "nat \<Rightarrow> 'a list"
  assumes "\<And>i. h (Suc i) = new i @ h i" "0 < limit" "0 < n"
  shows "set (take (n * limit - (\<Sum>i<n - 1. length (new i))) (h 0)) \<subseteq>
    (\<Union>i<n. set (take limit (drop (i * limit) (h i))))"
proof
  fix x assume "x \<in> set (take (n * limit - (\<Sum>i<n - 1. length (new i))) (h 0))"
  then obtain k where k: "k < length (h 0)" "k < n * limit - (\<Sum>i<n - 1. length (new i))" "x = h 0 ! k"
    by (auto simp: in_set_conv_nth)
  define at' where "at' i = k + (\<Sum>j<i. length (new j))" for i
  define i where "i = (LEAST i. at' i < Suc i * limit)"
  have last: "at' (n - 1) < Suc (n - 1) * limit" using k(2) assms(3) by (simp add: at'_def)
  then have i: "at' i < Suc i * limit" "i \<le> n - 1" unfolding i_def by (rule LeastI, rule Least_le)
  have "i * limit \<le> at' i"
  proof (cases i)
    case (Suc m)
    then have "\<not> at' m < Suc m * limit" using not_less_Least [of m "\<lambda>i. at' i < Suc i * limit"] i_def by auto
    moreover have "at' m \<le> at' i" by (simp add: at'_def Suc)
    ultimately show ?thesis using Suc by simp
  qed simp
  moreover have "at' i < length (h i)" "h i ! at' i = x"
    using grown_position [of h new k i, OF assms(1) k(1)] k(3) by (simp_all add: at'_def)
  ultimately have "take limit (drop (i * limit) (h i)) ! (at' i - i * limit) = x"
    "at' i - i * limit < length (take limit (drop (i * limit) (h i)))"
    using i(1) by auto
  then have "x \<in> set (take limit (drop (i * limit) (h i)))" by (metis nth_mem)
  then show "x \<in> (\<Union>i<n. set (take limit (drop (i * limit) (h i))))" using i(2) assms(3) by auto
qed

lemma page_repeats:
  assumes "length new \<le> limit"
  shows "take (length new) (take limit (drop (Suc i * limit) (new @ h))) =
    drop (limit - length new) (take limit (drop (i * limit) h))"
proof -
  have "drop (Suc i * limit) (new @ h) = drop (limit - length new) (drop (i * limit) h)"
    using assms by (simp add: add.commute)
  then show ?thesis using assms by (simp add: drop_take min_def)
qed

text \<open>
  C26: what scrolling through the list of the blocks, newest first, shows while blocks arrive on top (no
  reorganisation in between, and stated totals that are numbers). The i-th request gets the i-th page of the
  chain of its own moment. No block that stood on the first pages is skipped, as far as the loaded pages
  reach beyond the blocks that have arrived. But as the pages are counted from the top, every block
  that arrives between two requests brings one row of the page before again: the next page begins with
  as many of its last rows. It goes on exactly while the page before has rows and its end lies below the total
  stated with it, which for the unfiltered list is the estimate of the database.
\<close>

theorem scrolling_blocks:
  fixes ds :: "nat \<Rightarrow> db" and limit n :: nat and new :: "nat \<Rightarrow> int list"
  assumes "0 < limit" "0 < n" "\<And>i. heights_desc (ds (Suc i)) superblock = new i @ heights_desc (ds i) superblock"
    "\<And>i. 0 \<le> block_total (ds i) superblock \<and> of_int (block_total (ds i) superblock) < double_limit"
  defines "pages \<equiv> scroll_over (\<lambda>i. block_pages (ds i) limit (J ''desc'') superblock) 0 n 1"
    and "stands \<equiv> \<lambda>i. take limit (drop (i * limit) (heights_desc (ds i) superblock))"
  shows "map page_heights pages = map stands [0..<length pages] \<and>
    set (take (length pages * limit - (\<Sum>i<length pages - 1. length (new i))) (heights_desc (ds 0) superblock)) \<subseteq>
      set (concat (map page_heights pages)) \<and>
    (\<forall>i. Suc i < length pages \<and> length (new i) \<le> limit \<longrightarrow>
       take (length (new i)) (stands (Suc i)) = drop (limit - length (new i)) (stands i)) \<and>
    (\<forall>i < length pages. (Suc i < length pages \<longleftrightarrow>
       Suc i < n \<and> stands i \<noteq> [] \<and> int (Suc i * limit) < block_total (ds i) superblock))"
proof -
  let ?fetch = "\<lambda>i. block_pages (ds i) limit (J ''desc'') superblock"
  let ?more = "\<lambda>i p. drop ((p - 1) * limit) (heights_desc (ds i) superblock) \<noteq> [] \<and>
    int (p * limit) < block_total (ds i) superblock"
  have answers: "getNextPageParam (?fetch i (int p)) = (if ?more i p then Some (int (Suc p)) else None)"
    if "1 \<le> p" for i p
    using block_next_page [OF assms(1) _ _ that] assms(4) by blast
  note nth = scroll_over_nth [of ?fetch ?more, OF answers, of 1, simplified, where j = 0 and n = n, simplified,
      folded pages_def]
  have len: "0 < length pages" "length pages \<le> n"
    using scroll_over_length(1) [of ?fetch 0 n 1] scroll_over_length(2) [of n ?fetch 0 1] assms(2)
    by (simp_all add: pages_def)
  have heights: "map page_heights pages = map stands [0..<length pages]"
  proof (rule nth_equalityI)
    fix i assume "i < length (map page_heights pages)"
    then have "pages ! i = ?fetch i (int (Suc i))" "i < length pages" using nth(1) by simp_all
    then show "map page_heights pages ! i = map stands [0..<length pages] ! i"
      using page_heights_of [OF assms(1), of "Suc i" "ds i" superblock] by (simp add: stands_def del: of_nat_Suc)
  qed simp
  have "(\<Union>i<length pages. set (stands i)) = set (concat (map page_heights pages))"
    unfolding heights by auto
  moreover have "set (take (length pages * limit - (\<Sum>i<length pages - 1. length (new i)))
      (heights_desc (ds 0) superblock)) \<subseteq> (\<Union>i<length pages. set (stands i))"
    unfolding stands_def by (rule nothing_skipped [where new = new]) (use assms(1,3) len in simp_all)
  ultimately have kept: "set (take (length pages * limit - (\<Sum>i<length pages - 1. length (new i)))
      (heights_desc (ds 0) superblock)) \<subseteq> set (concat (map page_heights pages))" by simp
  have repeats: "take (length (new i)) (stands (Suc i)) = drop (limit - length (new i)) (stands i)"
    if "length (new i) \<le> limit" for i
    unfolding stands_def assms(3) by (rule page_repeats [OF that])
  have empty: "stands i \<noteq> [] \<longleftrightarrow> drop (i * limit) (heights_desc (ds i) superblock) \<noteq> []" for i
    using assms(1) by (auto simp: stands_def)
  have ends: "Suc i < length pages \<longleftrightarrow>
      Suc i < n \<and> stands i \<noteq> [] \<and> int (Suc i * limit) < block_total (ds i) superblock" if "i < length pages" for i
    using nth(2,3) [of i] that len(2) unfolding empty by (cases "Suc i < length pages") auto
  show ?thesis using heights kept repeats ends by blast
qed

text \<open>Three blocks, two for a page; a fourth arrives between the requests and brings the block 2 again.\<close>

definition grown_chain :: "nat \<Rightarrow> db" where
  "grown_chain i = (if i = 0 then sample_db
     else sample_db\<lparr>db_blocks := sample_block 4 120000 False # db_blocks sample_db\<rparr>)"

lemma grown_heights: "heights_desc (grown_chain i) JUndef = (if i = 0 then [3, 2, 1] else [4, 3, 2, 1])"
  by (simp add: heights_desc_def grown_chain_def superblock_filter_def when_given_def sample_db_def sample_block_def
      order_by_def js_sort_def order_cmp_def)

theorem scrolling_blocks_witness:
  "map page_heights (scroll_over (\<lambda>i. block_pages (grown_chain i) 2 (J ''desc'') JUndef) 0 5 1) =
     [[3, 2], [2, 1]]"
proof -
  let ?pages = "scroll_over (\<lambda>i. block_pages (grown_chain i) 2 (J ''desc'') JUndef) 0 5 1"
  define new :: "nat \<Rightarrow> int list" where "new = (\<lambda>i. if i = 0 then [4] else [])"
  have stated: "block_total (grown_chain i) JUndef = 3" for i
    by (simp add: block_total_def grown_chain_def sample_db_def)
  have three: "of_int 3 < double_limit" using below_double_limit [of 3] by simp
  have all: "map page_heights ?pages = map (\<lambda>i. take 2 (drop (i * 2) (heights_desc (grown_chain i) JUndef))) [0..<length ?pages] \<and>
    (\<forall>i < length ?pages. (Suc i < length ?pages \<longleftrightarrow> Suc i < 5 \<and>
       take 2 (drop (i * 2) (heights_desc (grown_chain i) JUndef)) \<noteq> [] \<and> int (Suc i * 2) < 3))"
    using scrolling_blocks [of 2 5 grown_chain JUndef new] three by (simp add: stated grown_heights new_def)
  have "length ?pages \<noteq> 0" using scroll_over_length(2) [of 5] by simp
  then have "length ?pages = 2" using all [THEN conjunct2, rule_format, of 0] all [THEN conjunct2, rule_format, of 1]
    by (simp add: grown_heights)
  with all [THEN conjunct1] show ?thesis by (simp add: grown_heights upt_rec)
qed

text \<open>The pager of the same list offers exactly the pages that scrolling loads.\<close>

lemma pages_agree:
  "0 < limit \<Longrightarrow> 0 < t \<Longrightarrow>
   getPageCount (Some \<lparr>pg_page = p, pg_limit = Fin (of_nat limit), pg_total = Fin t\<rparr>) =
   Fin (of_nat (stated_pages t limit))"
proof -
  assume "0 < limit" "0 < t"
  then have "0 < t / of_nat limit" by simp
  then have "1 \<le> \<lceil>t / of_nat limit\<rceil>" by linarith
  then show ?thesis
    using \<open>0 < limit\<close> by (simp add: num_div_def stated_pages_def of_nat_nat max_absorb2)
qed

section \<open>The rich list\<close>

text \<open>
  The page shows the entries whose address is not \<open>others\<close>. The handler asks the database for one
  entry less than the limit, so its pages are smaller than the limit they state.
\<close>

definition rich_rows :: "rat \<Rightarrow> db \<Rightarrow> string js \<Rightarrow> AddressBalance list" where
  "rich_rows totalSupply d order =
     map (\<lambda>b. AddressBalance_fromObject (address_text d (Some (bl_address_id b)))
                (J (dec_int (bl_balance b))) (J (concentration_text (bl_balance b) totalSupply)))
       (order_by (js_dir order) (\<lambda>b. Some (bl_balance b)) (db_balances d))"

definition rich_pages ::
  "rat \<Rightarrow> db \<Rightarrow> nat \<Rightarrow> string js \<Rightarrow> int \<Rightarrow> AddressBalance PaginatedResultSet" where
  "rich_pages totalSupply d limit order p =
     rich_list totalSupply (int limit) (projr (getBalancesInfo d p (int limit - 1) order))"

lemma getBalancesInfo_page:
  "1 \<le> p \<Longrightarrow> getBalancesInfo d (int p) (int k) order =
     (let rows = page_of p k (order_by (js_dir order) (\<lambda>b. Some (bl_balance b)) (db_balances d)) in
      Inr (new_PaginatedResultSet
             (map (\<lambda>b. \<lparr>rr_balance = bl_balance b, rr_address = address_text d (Some (bl_address_id b))\<rparr>) rows)
             (int p) (Fin (of_nat k))
             (J (if rows = [] then CNum (- 1) else bigint (db_reltuples d ''address_balances'')))))"
  by (simp add: getBalancesInfo_def limit_offset_page Let_def)

interpretation rich_scroll: stated_listing "rich_pages totalSupply d (Suc k) order"
    "\<lambda>r. butlast (resultSet r)" "rich_rows totalSupply d order" k "Suc k"
    "js_Number (J (bigint (db_reltuples d ''address_balances'')))" "Fin (- 1)"
    for totalSupply d k order
  by unfold_locales
    (auto simp: rich_pages_def getBalancesInfo_page rich_list_def rich_rows_def
      new_PaginatedResultSet_def Let_def page_of_map)

text \<open>
  Scrolling through the rich list ends too early. Each page of \<open>limit\<close> entries holds \<open>limit - 1\<close>
  addresses and the entry of all others, but the end is worked out from the stated limit: even
  with an exact total, an address is left out for every page that is loaded, so that the poorest
  addresses of a list longer than one page can not be reached.
\<close>

theorem scrolling_rich_list:
  assumes "0 < limit" "db_reltuples d ''address_balances'' = int (length (db_balances d))"
    "of_nat (length (db_balances d)) < double_limit"
  defines "stated \<equiv> stated_pages (of_nat (length (db_balances d))) limit"
  shows "concat (map (\<lambda>r. butlast (resultSet r)) (scroll (rich_pages totalSupply d limit order) n 1)) =
      take (min n stated * (limit - 1)) (rich_rows totalSupply d order)"
proof -
  obtain k where k: "limit = Suc k" using assms(1) by (cases limit) auto
  have "js_Number (J (bigint (db_reltuples d ''address_balances''))) = Fin (of_nat (length (db_balances d)))"
    unfolding assms(2) by (rule js_Number_bigint [OF assms(3)])
  then show ?thesis
    using rich_scroll.scroll_shows [of totalSupply d k order n]
    by (simp only: k stated_def json_number.simps diff_Suc_1)
qed

lemma scrolling_rich_list_witness:
  "length (concat (map (\<lambda>r. butlast (resultSet r))
     (scroll (rich_pages 1 (sample_rich_db\<lparr>db_reltuples := \<lambda>_. 2\<rparr>) 2 (J ''desc'')) 9 1))) = 1
   \<and> length (rich_rows 1 (sample_rich_db\<lparr>db_reltuples := \<lambda>_. 2\<rparr>) (J ''desc'')) = 2"
proof -
  let ?d = "sample_rich_db\<lparr>db_reltuples := \<lambda>_. 2\<rparr>"
  have n: "length (db_balances sample_rich_db) = 2" by (simp add: sample_rich_db_def)
  have rows: "length (rich_rows 1 ?d (J ''desc'')) = 2"
    by (simp add: rich_rows_def sample_rich_db_def length_order_by)
  have "stated_pages (of_nat 2) 2 = 1" by (simp add: stated_pages_def)
  then show ?thesis
    using scrolling_rich_list [of 2 ?d 1 "J ''desc''" 9] below_double_limit [of 2] rows by (simp add: n)
qed

end
