(* ===== verification/ApiFetch.thy ===== *)
theory ApiFetch
  imports JsText
begin

text \<open>
  \<open>apiFetch\<close> of \<open>frontend/src/lib/api/client.ts\<close>, the one place where the web interface calls
  \<open>fetch\<close>, and \<open>prefetchSsrData\<close> of \<open>frontend/src/lib/ssr-prefetch.ts\<close>, which bounds the time the
  server spends on a page. Both race promises against timers, so each is a state and a relation of
  steps, one per event that the platform may deliver: a signal aborts, a timer fires, a promise
  settles. Responses and errors are of any type. The theorems are proved by induction over the
  sequences of events.
\<close>

section \<open>A request under a signal and a timer\<close>

definition SERVER_API_TIMEOUT_MS :: int where "SERVER_API_TIMEOUT_MS = 1000"

text \<open>The input of \<open>fetch\<close>, and the text by which an \<open>ApiTimeoutError\<close> names it.\<close>

datatype fetch_input = InputText string | InputUrl string | InputRequest string

fun input_url :: "fetch_input \<Rightarrow> string" where
  "input_url (InputText s) = s"
| "input_url (InputUrl u) = u"
| "input_url (InputRequest u) = u"

record 'e timeout_error =
  te_message :: string
  te_name :: string
  te_timeoutMs :: int
  te_url :: string
  te_cause :: 'e

definition ApiTimeoutError :: "fetch_input \<Rightarrow> int \<Rightarrow> 'e \<Rightarrow> 'e timeout_error" where
  "ApiTimeoutError input ms cause =
     \<lparr>te_message = ''API request timed out after '' @ dec_int ms @ ''ms: '' @ input_url input,
      te_name = ''ApiTimeoutError'', te_timeoutMs = ms, te_url = input_url input, te_cause = cause\<rparr>"

datatype abort_source = ByCaller | ByTimeout

datatype ('r, 'e) fetched = Returned 'r | TimedOut "'e timeout_error" | Rethrown 'e

text \<open>
  The state of a call: what its options fix, \<open>abortSource\<close>, whether the controller is aborted,
  whether the timer is set and the listener is attached, and the outcome once it has one.
\<close>

record ('r, 'e) call =
  input :: fetch_input
  timeoutMs :: "int option"
  abortSource :: "abort_source option"
  aborted :: bool
  timer_set :: bool
  listening :: bool
  outcome :: "('r, 'e) fetched option"

text \<open>The signal of the caller, which may be aborted already.\<close>

datatype signal = NoSignal | LiveSignal | AbortedSignal

definition abortFromCaller :: "('r, 'e) call \<Rightarrow> ('r, 'e) call" where
  "abortFromCaller c = (if aborted c then c else c\<lparr>abortSource := Some ByCaller, aborted := True\<rparr>)"

definition abortFromTimer :: "('r, 'e) call \<Rightarrow> ('r, 'e) call" where
  "abortFromTimer c = (if aborted c then c else c\<lparr>abortSource := Some ByTimeout, aborted := True\<rparr>)"

text \<open>
  \<open>timeoutMs\<close> is what the options give, or on a server, where there is no \<open>window\<close>, the default.
\<close>

definition effective_timeout :: "bool \<Rightarrow> int option \<Rightarrow> int option" where
  "effective_timeout in_browser given =
     (case given of Some ms \<Rightarrow> Some ms
      | None \<Rightarrow> if in_browser then None else Some SERVER_API_TIMEOUT_MS)"

definition start_call :: "bool \<Rightarrow> fetch_input \<Rightarrow> signal \<Rightarrow> int option \<Rightarrow> ('r, 'e) call" where
  "start_call in_browser inp sig given =
     (let ms = effective_timeout in_browser given;
          c = \<lparr>input = inp, timeoutMs = ms, abortSource = None, aborted = False,
               timer_set = False, listening = False, outcome = None\<rparr>;
          c = (if sig = AbortedSignal then abortFromCaller c else c\<lparr>listening := (sig = LiveSignal)\<rparr>)
      in c\<lparr>timer_set := (ms \<noteq> None)\<rparr>)"

text \<open>The \<open>catch\<close> and the \<open>finally\<close> of the call.\<close>

definition caught :: "('r, 'e) call \<Rightarrow> 'e \<Rightarrow> ('r, 'e) fetched" where
  "caught c e =
     (case timeoutMs c of
        Some ms \<Rightarrow> if abortSource c = Some ByTimeout then TimedOut (ApiTimeoutError (input c) ms e)
                   else Rethrown e
      | None \<Rightarrow> Rethrown e)"

definition finally_with :: "('r, 'e) fetched \<Rightarrow> ('r, 'e) call \<Rightarrow> ('r, 'e) call" where
  "finally_with x c = c\<lparr>outcome := Some x, timer_set := False, listening := False\<rparr>"

datatype ('r, 'e) event = CallerAborts | TimerFires | Answered 'r | Failed 'e

text \<open>The listener is attached \<open>once\<close>, a timer fires once.\<close>

inductive api_step :: "('r, 'e) call \<Rightarrow> ('r, 'e) event \<Rightarrow> ('r, 'e) call \<Rightarrow> bool" where
  caller: "listening c \<Longrightarrow> api_step c CallerAborts (abortFromCaller (c\<lparr>listening := False\<rparr>))"
| timer: "timer_set c \<Longrightarrow> api_step c TimerFires (abortFromTimer (c\<lparr>timer_set := False\<rparr>))"
| answered: "outcome c = None \<Longrightarrow> api_step c (Answered r) (finally_with (Returned r) c)"
| failed: "outcome c = None \<Longrightarrow> api_step c (Failed e) (finally_with (caught c e) c)"

inductive_cases caller_stepE: "api_step c CallerAborts c'"
inductive_cases timer_stepE: "api_step c TimerFires c'"
inductive_cases answered_stepE: "api_step c (Answered r) c'"
inductive_cases failed_stepE: "api_step c (Failed e) c'"

inductive api_run :: "('r, 'e) call \<Rightarrow> ('r, 'e) event list \<Rightarrow> ('r, 'e) call \<Rightarrow> bool" where
  api_start: "api_run c [] c"
| api_next: "api_run c es c' \<Longrightarrow> api_step c' ev c'' \<Longrightarrow> api_run c (es @ [ev]) c''"

text \<open>Which side aborted first, told from the events alone.\<close>

fun first_abort :: "('r, 'e) event list \<Rightarrow> abort_source option" where
  "first_abort [] = None"
| "first_abort (CallerAborts # es) = Some ByCaller"
| "first_abort (TimerFires # es) = Some ByTimeout"
| "first_abort (_ # es) = first_abort es"

definition blamed :: "signal \<Rightarrow> ('r, 'e) event list \<Rightarrow> abort_source option" where
  "blamed sig es = (if sig = AbortedSignal then Some ByCaller else first_abort es)"

lemma first_abort_snoc:
  "first_abort (es @ [ev]) =
     (case first_abort es of Some s \<Rightarrow> Some s
      | None \<Rightarrow> (case ev of CallerAborts \<Rightarrow> Some ByCaller | TimerFires \<Rightarrow> Some ByTimeout | _ \<Rightarrow> None))"
  by (induction es rule: first_abort.induct) (auto split: event.split)

text \<open>The outcome that the events call for.\<close>

definition verdict :: "bool \<Rightarrow> fetch_input \<Rightarrow> signal \<Rightarrow> int option \<Rightarrow> ('r, 'e) event list \<Rightarrow> ('r, 'e) fetched option" where
  "verdict in_browser inp sig given es =
     (if es = [] then None
      else case last es of
          Answered r \<Rightarrow> Some (Returned r)
        | Failed e \<Rightarrow>
            (case effective_timeout in_browser given of
               None \<Rightarrow> Some (Rethrown e)
             | Some ms \<Rightarrow>
                 if blamed sig (butlast es) = Some ByTimeout
                 then Some (TimedOut (ApiTimeoutError inp ms e)) else Some (Rethrown e))
        | _ \<Rightarrow> None)"

text \<open>What holds along every run.\<close>

definition call_inv :: "bool \<Rightarrow> fetch_input \<Rightarrow> signal \<Rightarrow> int option \<Rightarrow> ('r, 'e) event list \<Rightarrow> ('r, 'e) call \<Rightarrow> bool" where
  "call_inv in_browser inp sig given es c \<longleftrightarrow>
     input c = inp \<and> timeoutMs c = effective_timeout in_browser given \<and>
     abortSource c = blamed sig es \<and> (aborted c \<longleftrightarrow> abortSource c \<noteq> None) \<and>
     outcome c = verdict in_browser inp sig given es \<and>
     (outcome c \<noteq> None \<longrightarrow> \<not> timer_set c \<and> \<not> listening c)"

lemma call_inv_start: "call_inv b inp sig given [] (start_call b inp sig given)"
  by (auto simp: call_inv_def start_call_def blamed_def abortFromCaller_def verdict_def Let_def)

lemma call_inv_step:
  assumes "call_inv b inp sig given es c" "api_step c ev c'"
  shows "call_inv b inp sig given (es @ [ev]) c'"
  using assms(2)
proof cases
  case caller
  then show ?thesis
    using assms(1)
    by (auto simp: call_inv_def abortFromCaller_def blamed_def verdict_def first_abort_snoc split: option.splits)
next
  case timer
  then show ?thesis
    using assms(1)
    by (auto simp: call_inv_def abortFromTimer_def blamed_def verdict_def first_abort_snoc split: option.splits)
next
  case (answered r)
  then show ?thesis
    using assms(1)
    by (auto simp: call_inv_def finally_with_def blamed_def verdict_def first_abort_snoc split: option.splits)
next
  case (failed e)
  then show ?thesis
    using assms(1)
    by (auto simp: call_inv_def finally_with_def caught_def blamed_def verdict_def first_abort_snoc
        split: option.splits)
qed

lemma call_inv_run:
  "api_run c0 es c \<Longrightarrow> c0 = start_call b inp sig given \<Longrightarrow> call_inv b inp sig given es c"
  by (induction rule: api_run.induct) (auto intro: call_inv_start call_inv_step)

text \<open>
  C31: who is to blame for a failed request. A request of the web interface ends with the first
  answer or failure that \<open>fetch\<close> delivers, and then neither its timer nor its listener is left
  behind, so that no later event can touch it. A failure is reported as an \<open>ApiTimeoutError\<close>, with
  the limit and the address, exactly when the timer fired before the caller's signal aborted;
  when the caller was first, or nothing was aborted, the error is passed on as it is.
\<close>

theorem first_abort_is_blamed:
  assumes "api_run (start_call in_browser inp sig given) es c"
  shows "outcome c = verdict in_browser inp sig given es \<and>
    (outcome c \<noteq> None \<longrightarrow> \<not> timer_set c \<and> \<not> listening c \<and> (\<nexists>ev c'. api_step c ev c'))"
proof -
  note inv = call_inv_run [OF assms refl, unfolded call_inv_def]
  then have part1: "outcome c = verdict in_browser inp sig given es" by blast
  have part2: "\<not> timer_set c \<and> \<not> listening c \<and> (\<nexists>ev c'. api_step c ev c')" if "outcome c \<noteq> None"
    using inv that by (auto elim: api_step.cases)
  show ?thesis using part1 part2 by blast
qed

text \<open>A caller that leaves after the limit has passed does not hide the time-out.\<close>

definition slow_call :: "(nat, string) call" where
  "slow_call = start_call False (InputText ''/blocks'') LiveSignal None"

definition slow_result :: "(nat, string) call" where
  "slow_result = finally_with (caught (abortFromCaller (abortFromTimer
     (slow_call\<lparr>timer_set := False\<rparr>)\<lparr>listening := False\<rparr>)) ''AbortError'')
     (abortFromCaller (abortFromTimer (slow_call\<lparr>timer_set := False\<rparr>)\<lparr>listening := False\<rparr>))"

lemma slow_run: "api_run slow_call [TimerFires, CallerAborts, Failed ''AbortError''] slow_result"
proof -
  let ?a = "abortFromTimer (slow_call\<lparr>timer_set := False\<rparr>)"
  let ?b = "abortFromCaller (?a\<lparr>listening := False\<rparr>)"
  have "timer_set slow_call" "listening ?a" "outcome ?b = None"
    by (simp_all add: slow_call_def start_call_def effective_timeout_def abortFromTimer_def
        abortFromCaller_def Let_def)
  note steps = timer [OF this(1)] caller [OF this(2)] failed [OF this(3), of "''AbortError''"]
  have "api_run slow_call ((([] @ [TimerFires]) @ [CallerAborts]) @ [Failed ''AbortError'']) slow_result"
    unfolding slow_result_def
    by (rule api_next [OF api_next [OF api_next [OF api_start steps(1)] steps(2)] steps(3)])
  then show ?thesis by simp
qed

lemma first_abort_is_blamed_witness:
  "outcome slow_result = Some (TimedOut (ApiTimeoutError (InputText ''/blocks'') 1000 ''AbortError''))
   \<and> \<not> timer_set slow_result \<and> \<not> listening slow_result"
proof -
  note blamed = first_abort_is_blamed [OF slow_run [unfolded slow_call_def]]
  have "outcome slow_result = Some (TimedOut (ApiTimeoutError (InputText ''/blocks'') 1000 ''AbortError''))"
    using conjunct1 [OF blamed] by (simp add: verdict_def effective_timeout_def SERVER_API_TIMEOUT_MS_def blamed_def)
  then show ?thesis using conjunct2 [OF blamed] by simp
qed

section \<open>Prefetching for a page rendered on the server\<close>

text \<open>
  \<open>prefetchSsrData\<close> waits for all its tasks, however they end, or for the timer. A task that throws
  at once counts as rejected (\<open>Promise.resolve().then(task)\<close>). \<open>queryClient.cancelQueries()\<close> is
  third party; the model records that it is called.
\<close>

datatype prefetch_phase = Waiting | Finished

record prefetch =
  unsettled :: "nat set"
  deadline_set :: bool
  phase :: prefetch_phase
  cancelled :: bool

text \<open>In the browser, and without tasks, nothing is started.\<close>

definition prefetchSsrData :: "bool \<Rightarrow> nat \<Rightarrow> prefetch" where
  "prefetchSsrData in_browser tasks =
     (if in_browser \<or> tasks = 0
      then \<lparr>unsettled = {}, deadline_set = False, phase = Finished, cancelled = False\<rparr>
      else \<lparr>unsettled = {..<tasks}, deadline_set = True, phase = Waiting, cancelled = False\<rparr>)"

text \<open>What follows the race: the timer is cleared, and the queries are cancelled if it won.\<close>

definition after_race :: "bool \<Rightarrow> prefetch \<Rightarrow> prefetch" where
  "after_race timedOut s = s\<lparr>deadline_set := False, phase := Finished, cancelled := timedOut\<rparr>"

datatype prefetch_event = TaskSettles nat | DeadlinePasses

inductive prefetch_step :: "prefetch \<Rightarrow> prefetch_event \<Rightarrow> prefetch \<Rightarrow> bool" where
  settles: "i \<in> unsettled s \<Longrightarrow> s' = s\<lparr>unsettled := unsettled s - {i}\<rparr> \<Longrightarrow>
    prefetch_step s (TaskSettles i)
      (if unsettled s' = {} \<and> phase s' = Waiting then after_race False s' else s')"
| deadline: "deadline_set s \<Longrightarrow> prefetch_step s DeadlinePasses (after_race True s)"

inductive prefetch_run :: "prefetch \<Rightarrow> prefetch_event list \<Rightarrow> prefetch \<Rightarrow> bool" where
  prefetch_start: "prefetch_run s [] s"
| prefetch_next: "prefetch_run s es s' \<Longrightarrow> prefetch_step s' ev s'' \<Longrightarrow> prefetch_run s (es @ [ev]) s''"

definition settled_in :: "prefetch_event list \<Rightarrow> nat set" where
  "settled_in es = {i. TaskSettles i \<in> set es}"

definition prefetch_inv :: "nat \<Rightarrow> prefetch_event list \<Rightarrow> prefetch \<Rightarrow> bool" where
  "prefetch_inv tasks es s \<longleftrightarrow>
     unsettled s = {..<tasks} - settled_in es \<and> settled_in es \<subseteq> {..<tasks} \<and>
     (deadline_set s \<longleftrightarrow> phase s = Waiting) \<and>
     (phase s = Finished \<longleftrightarrow> DeadlinePasses \<in> set es \<or> unsettled s = {}) \<and>
     (cancelled s \<longleftrightarrow> DeadlinePasses \<in> set es)"

lemma settled_in_snoc:
  "settled_in (es @ [TaskSettles i]) = insert i (settled_in es)"
  "settled_in (es @ [DeadlinePasses]) = settled_in es"
  by (auto simp: settled_in_def)

lemma prefetch_inv_step:
  assumes "prefetch_inv tasks es s" "prefetch_step s ev s'"
  shows "prefetch_inv tasks (es @ [ev]) s'"
  using assms(2)
proof cases
  case (settles i s1)
  have "phase s = Waiting \<or> phase s = Finished" by (cases "phase s") auto
  then show ?thesis
    using assms(1) settles by (auto simp: prefetch_inv_def settled_in_snoc after_race_def)
next
  case deadline
  then show ?thesis
    using assms(1) by (auto simp: prefetch_inv_def settled_in_snoc after_race_def)
qed

lemma prefetch_inv_start: "0 < tasks \<Longrightarrow> prefetch_inv tasks [] (prefetchSsrData False tasks)"
  by (auto simp: prefetch_inv_def prefetchSsrData_def settled_in_def)

lemma prefetch_inv_run:
  "prefetch_run s0 es s \<Longrightarrow> s0 = prefetchSsrData False tasks \<Longrightarrow> 0 < tasks \<Longrightarrow> prefetch_inv tasks es s"
  by (induction rule: prefetch_run.induct) (auto intro: prefetch_inv_start prefetch_inv_step)

text \<open>
  C32: rendering on the server is never held up for longer than the limit, and no work is thrown
  away before it. With tasks to do, the prefetch is finished exactly when every task has settled
  or the deadline has passed; it cancels the outstanding queries exactly in the second case; and it
  can always go on: as long as it waits, the deadline is still to come. In the browser and without
  tasks it is finished at once.
\<close>

theorem prefetch_waits_for_tasks_or_deadline:
  assumes "prefetch_run (prefetchSsrData False tasks) es s" "0 < tasks"
  shows "(phase s = Finished \<longleftrightarrow> settled_in es = {..<tasks} \<or> DeadlinePasses \<in> set es) \<and>
    (cancelled s \<longleftrightarrow> DeadlinePasses \<in> set es) \<and>
    (phase s = Waiting \<longrightarrow> (\<exists>s'. prefetch_step s DeadlinePasses s' \<and> phase s' = Finished)) \<and>
    phase (prefetchSsrData True tasks) = Finished \<and> phase (prefetchSsrData b 0) = Finished"
proof -
  note inv = prefetch_inv_run [OF assms(1) refl assms(2), unfolded prefetch_inv_def]
  have part1: "phase s = Finished \<longleftrightarrow> settled_in es = {..<tasks} \<or> DeadlinePasses \<in> set es"
    using inv by auto
  have part2: "cancelled s \<longleftrightarrow> DeadlinePasses \<in> set es" using inv by blast
  have part3: "\<exists>s'. prefetch_step s DeadlinePasses s' \<and> phase s' = Finished" if "phase s = Waiting"
    using inv that deadline [of s] by (intro exI [of _ "after_race True s"]) (auto simp: after_race_def)
  have part4: "phase (prefetchSsrData True tasks) = Finished \<and> phase (prefetchSsrData b 0) = Finished"
    by (simp add: prefetchSsrData_def)
  show ?thesis using part1 part2 part3 part4 by blast
qed

definition late_page :: prefetch where
  "late_page = after_race True ((prefetchSsrData False 2)\<lparr>unsettled := unsettled (prefetchSsrData False 2) - {1}\<rparr>)"

lemma late_page_run: "prefetch_run (prefetchSsrData False 2) [TaskSettles 1, DeadlinePasses] late_page"
proof -
  let ?s = "prefetchSsrData False 2" and ?t = "(prefetchSsrData False 2)\<lparr>unsettled := unsettled (prefetchSsrData False 2) - {1}\<rparr>"
  have one: "1 \<in> unsettled ?s" and "0 \<in> unsettled ?t" by (simp_all add: prefetchSsrData_def)
  then have "unsettled ?t \<noteq> {}" by blast
  then have "prefetch_step ?s (TaskSettles 1) ?t"
    using settles [OF one refl] by (simp only: if_False simp_thms)
  moreover have "prefetch_step ?t DeadlinePasses late_page"
    unfolding late_page_def by (rule deadline) (simp add: prefetchSsrData_def)
  ultimately have "prefetch_run ?s (([] @ [TaskSettles 1]) @ [DeadlinePasses]) late_page"
    by (intro prefetch_next [OF prefetch_next [OF prefetch_start]])
  then show ?thesis by simp
qed

lemma prefetch_waits_for_tasks_or_deadline_witness:
  "phase late_page = Finished \<and> cancelled late_page"
  using prefetch_waits_for_tasks_or_deadline [OF late_page_run] by simp

end
