(* ===== verification/BrowserPeers.thy ===== *)
theory BrowserPeers
  imports Peers "HOL-Library.Word" "HOL-Library.Char_ord" "HOL-Library.List_Lexorder"
begin

unbundle bit_operations_syntax

text \<open>
  What the web interface makes of the peers and masternodes it fetched
  (\<open>frontend/src/lib/api/peers.ts\<close> and \<open>masternodes.ts\<close>): the points of the maps, the services that a
  peer offers, the agents when the API does not count them, and the index by address. An \<open>ApiPeer\<close>
  is the JSON of the API's \<open>Peer\<close>; its place, which comes from another program, may lack its
  coordinates. The comparison \<open>localeCompare\<close> is a parameter.
\<close>

section \<open>IPv4 addresses\<close>

text \<open>\<open>/^\d{1,3}$/.test(part)\<close>.\<close>

definition is_octet_text :: "string \<Rightarrow> bool" where
  "is_octet_text s \<longleftrightarrow> s \<noteq> [] \<and> length s \<le> 3 \<and> list_all is_digit s"

definition isValidIpv4 :: "string \<Rightarrow> bool" where
  "isValidIpv4 s =
     (let parts = js_split (CHR ''.'') s in
      length parts = 4 \<and>
      list_all (\<lambda>p. is_octet_text p \<and> num_ge (js_number p) 0 \<and> num_lt (js_number p) 256) parts)"

section \<open>Services\<close>

definition SERVICE_FLAG_NAMES :: "(nat \<times> string) list" where
  "SERVICE_FLAG_NAMES =
     [(0, ''NETWORK''), (1, ''GETUTXO''), (2, ''BLOOM''), (4, ''XTHIN''), (6, ''COMPACT_FILTERS''),
      (10, ''NETWORK_LIMITED'')]"

text \<open>\<open>services & (1 << bit)\<close>: both sides are taken to 32 bits.\<close>

definition decode_bit :: "int \<Rightarrow> string list \<times> nat list \<Rightarrow> nat \<Rightarrow> string list \<times> nat list" where
  "decode_bit services acc b =
     (if (word_of_int services :: 32 word) AND push_bit b 1 = 0 then acc
      else case map_of SERVICE_FLAG_NAMES b of
          Some name \<Rightarrow> (fst acc @ [name], snd acc)
        | None \<Rightarrow> (fst acc, snd acc @ [b]))"

definition decodeServices :: "int option \<Rightarrow> string list \<times> nat list" where
  "decodeServices services =
     (case services of
        None \<Rightarrow> ([], [])
      | Some v \<Rightarrow> if v \<le> 0 then ([], []) else foldl (decode_bit v) ([], []) [0..<32])"

text \<open>The bit of a name.\<close>

definition flag_bit :: "string \<Rightarrow> nat" where
  "flag_bit name = the (map_of (map (\<lambda>(b, n). (n, b)) SERVICE_FLAG_NAMES) name)"

definition decoded_value :: "string list \<times> nat list \<Rightarrow> int" where
  "decoded_value r = (\<Sum>n\<leftarrow>fst r. 2 ^ flag_bit n) + (\<Sum>b\<leftarrow>snd r. 2 ^ b)"

lemma flag_bit_name: "map_of SERVICE_FLAG_NAMES b = Some name \<Longrightarrow> flag_bit name = b"
  by (auto simp: SERVICE_FLAG_NAMES_def flag_bit_def split: if_splits)

lemma bit_test: "b \<le> 31 \<Longrightarrow> (word_of_int v :: 32 word) AND 2 ^ b = 0 \<longleftrightarrow> \<not> bit v b"
  by (simp add: and_exp_eq_0_iff_not_bit bit_word_of_int_iff)

lemma decode_bits:
  "n \<le> 32 \<Longrightarrow> decoded_value (foldl (decode_bit v) ([], []) [0..<n]) = take_bit n v"
proof (induction n)
  case 0
  then show ?case by (simp add: decoded_value_def)
next
  case (Suc n)
  let ?r = "foldl (decode_bit v) ([], []) [0..<n]"
  have "decoded_value (decode_bit v ?r n) = decoded_value ?r + (if bit v n then 2 ^ n else 0)"
    using Suc.prems
    by (auto simp: decode_bit_def bit_test decoded_value_def flag_bit_name split: option.split)
  also have "\<dots> = take_bit (Suc n) v"
    using Suc by (simp add: take_bit_Suc_from_most)
  finally show ?case by simp
qed

text \<open>
  No service of a peer is lost or invented. The names and the numbers of the unnamed bits that
  are shown add up to exactly the low 32 bits of the number that the peer advertises; a number
  that needs more bits is cut, and none is shown for a number that is missing or not positive.
\<close>

theorem services_decoded_exactly:
  "decoded_value (decodeServices services) =
     (case services of None \<Rightarrow> 0 | Some v \<Rightarrow> if v \<le> 0 then 0 else v mod 2 ^ 32)"
proof (cases services)
  case None
  then show ?thesis by (simp add: decodeServices_def decoded_value_def)
next
  case (Some v)
  have "decoded_value (foldl (decode_bit v) ([], []) [0..<32]) = take_bit 32 v"
    by (rule decode_bits) simp
  then show ?thesis
    using Some by (simp add: decodeServices_def decoded_value_def take_bit_eq_mod)
qed

section \<open>Points of the maps\<close>

record api_geo =
  ag_ipv4 :: string
  ag_countryCode :: string
  ag_city :: string
  ag_latitude :: "rat js"
  ag_longitude :: "rat js"

record ApiPeer =
  ap_address :: string
  ap_available :: bool
  ap_protocolVersion :: "int option"
  ap_userAgent :: "string option"
  ap_geo :: "api_geo option"

record PeerGeoPoint =
  pp_address :: string
  pp_available :: bool
  pp_userAgent :: "string option"
  pp_protocolVersion :: "int option"
  pp_ipv4 :: string
  pp_countryCode :: string
  pp_city :: string
  pp_lat :: rat
  pp_lng :: rat

definition peer_point :: "ApiPeer \<Rightarrow> PeerGeoPoint option" where
  "peer_point peer =
     (case ap_geo peer of
        None \<Rightarrow> None
      | Some geo \<Rightarrow> (case (ag_latitude geo, ag_longitude geo) of
            (J lat, J lng) \<Rightarrow> Some
              \<lparr>pp_address = ap_address peer, pp_available = ap_available peer,
               pp_userAgent = ap_userAgent peer, pp_protocolVersion = ap_protocolVersion peer,
               pp_ipv4 = ag_ipv4 geo, pp_countryCode = ag_countryCode geo, pp_city = ag_city geo,
               pp_lat = lat, pp_lng = lng\<rparr>
          | _ \<Rightarrow> None))"

definition peersToGeoPoints :: "ApiPeer list \<Rightarrow> PeerGeoPoint list" where
  "peersToGeoPoints peers =
     foldl (\<lambda>points p. case peer_point p of Some x \<Rightarrow> points @ [x] | None \<Rightarrow> points) [] peers"

record ApiMasternode =
  am_proTxHash :: string
  am_status :: string
  am_type :: string
  am_address :: string
  am_geoIpInfo :: "api_geo option"

record MasternodeGeoPoint =
  mp_proTxHash :: string
  mp_status :: string
  mp_type :: string
  mp_address :: string
  mp_ipv4 :: string
  mp_countryCode :: string
  mp_city :: string
  mp_lat :: rat
  mp_lng :: rat

definition masternode_point :: "ApiMasternode \<Rightarrow> MasternodeGeoPoint option" where
  "masternode_point mn =
     (case am_geoIpInfo mn of
        None \<Rightarrow> None
      | Some geo \<Rightarrow> (case (ag_latitude geo, ag_longitude geo) of
            (J lat, J lng) \<Rightarrow> Some
              \<lparr>mp_proTxHash = am_proTxHash mn, mp_status = am_status mn, mp_type = am_type mn,
               mp_address = am_address mn, mp_ipv4 = ag_ipv4 geo,
               mp_countryCode = ag_countryCode geo, mp_city = ag_city geo,
               mp_lat = lat, mp_lng = lng\<rparr>
          | _ \<Rightarrow> None))"

definition masternodes_to_points :: "ApiMasternode list \<Rightarrow> MasternodeGeoPoint list" where
  "masternodes_to_points mns =
     foldl (\<lambda>points m. case masternode_point m of Some x \<Rightarrow> points @ [x] | None \<Rightarrow> points) [] mns"

lemma fold_points:
  "foldl (\<lambda>points p. case f p of Some x \<Rightarrow> points @ [x] | None \<Rightarrow> points) acc ps =
   acc @ List.map_filter f ps"
  by (induction ps arbitrary: acc) (auto simp: map_filter_def split: option.split)

lemma points_of_located:
  "peersToGeoPoints peers = List.map_filter peer_point peers"
  "masternodes_to_points mns = List.map_filter masternode_point mns"
  by (simp_all add: peersToGeoPoints_def masternodes_to_points_def fold_points)

section \<open>Agents and the index by address\<close>

text \<open>A peer that is not available, or has no agent, is passed over; the empty text is no agent.\<close>

definition count_advertised :: "(string \<times> nat) list \<Rightarrow> ApiPeer \<Rightarrow> (string \<times> nat) list" where
  "count_advertised counts peer =
     (case ap_userAgent peer of
        None \<Rightarrow> counts
      | Some agent \<Rightarrow>
          if \<not> ap_available peer \<or> agent = [] then counts
          else AList.update agent (or_else (map_of counts agent) 0 + 1) counts)"

definition derivePeerUserAgents :: "(string \<Rightarrow> string \<Rightarrow> int) \<Rightarrow> ApiPeer list \<Rightarrow> PeerUserAgent list" where
  "derivePeerUserAgents collate peers =
     js_sort (\<lambda>a b. let difference = int (ua_count b) - int (ua_count a) in
                    if difference \<noteq> 0 then difference else collate (ua_userAgent a) (ua_userAgent b))
       (map (\<lambda>(agent, n). \<lparr>ua_userAgent = agent, ua_count = n\<rparr>) (foldl count_advertised [] peers))"

text \<open>\<open>new Map(peers.map(p => [p.address, p]))\<close>.\<close>

definition peersByAddress :: "ApiPeer list \<Rightarrow> (string \<times> ApiPeer) list" where
  "peersByAddress peers = foldl (\<lambda>m p. AList.update (ap_address p) p m) [] peers"

lemma peersByAddress_last:
  "map_of (peersByAddress peers) a = first (filter (\<lambda>p. ap_address p = a) (rev peers))"
proof -
  have "map_of (foldl (\<lambda>m p. AList.update (ap_address p) p m) m peers) a =
      (case first (filter (\<lambda>p. ap_address p = a) (rev peers)) of Some p \<Rightarrow> Some p | None \<Rightarrow> map_of m a)" for m
  proof (induction peers arbitrary: m)
    case (Cons q peers)
    have "first (xs @ ys) = (case first xs of Some x \<Rightarrow> Some x | None \<Rightarrow> first ys)" for xs ys :: "ApiPeer list"
      by (cases xs) auto
    with Cons show ?case by (auto simp: update_conv' split: option.split)
  qed simp
  from this [of "[]"] show ?thesis by (simp add: peersByAddress_def split: option.split)
qed

definition api_peer :: "Peer \<Rightarrow> ApiPeer" where
  "api_peer p =
     \<lparr>ap_address = pr_address p, ap_available = pr_available p,
      ap_protocolVersion = pr_protocolVersion p, ap_userAgent = pr_userAgent p, ap_geo = None\<rparr>"

lemma count_advertised_available:
  assumes "\<forall>p \<in> set peers. pr_userAgent p \<noteq> Some []"
  shows "foldl count_advertised acc (map api_peer peers) = foldl count_agent acc (filter pr_available peers)"
  using assms
  by (induction peers arbitrary: acc)
    (auto simp: count_advertised_def count_agent_def api_peer_def split: option.split)

lemma counted_distinct: "distinct (map fst (foldl count_agent [] peers))"
  using count_agents [of "[]" "[]" peers] by simp

lemma counted_perm:
  assumes "mset (map pr_userAgent ps) = mset (map pr_userAgent qs)"
  shows "mset (foldl count_agent [] ps) = mset (foldl count_agent [] qs)"
proof -
  have as_map: "agents xs = map the (filter (\<lambda>x. x \<noteq> None) (map pr_userAgent xs))" for xs
    by (induction xs) (auto simp: agents_def map_filter_def)
  have same: "mset (agents ps) = mset (agents qs)"
    unfolding as_map mset_map [of the] mset_filter assms ..
  then have "mset (remdups (agents ps)) = mset (remdups (agents qs))"
    by (metis distinct_remdups set_eq_iff_mset_eq_distinct mset_eq_setD set_remdups)
  moreover have "count_list (agents ps) = count_list (agents qs)"
    using same by (simp add: fun_eq_iff flip: count_mset)
  ultimately show ?thesis by (simp add: counted_agents)
qed

text \<open>
  When the API does not count the agents, the browser does, and shows the same. From a list of
  peers of which the available ones are those the API has, in any order, it derives exactly the
  list that the API would have answered, for any collation that tells texts apart.
\<close>

theorem derived_agents_agree:
  assumes "js_comparator (pe_collate e)" "\<And>a b. pe_collate e a b = 0 \<Longrightarrow> a = b"
    "\<And>a b. pe_collate e a b \<le> 0 \<Longrightarrow> pe_collate e b a \<le> 0 \<Longrightarrow> pe_collate e a b = 0"
    "\<forall>p \<in> set peers. pr_userAgent p \<noteq> Some []"
    "mset (map pr_userAgent (filter pr_available peers)) =
     mset (map pr_userAgent (loadPeers e [REDIS_AVAILABLE_KEY] False))"
  shows "derivePeerUserAgents (pe_collate e) (map api_peer peers) =
    resultSet (getUserAgents e page None ''desc'')"
proof -
  let ?cmp = "by_count (pe_collate e) 1"
  let ?rows = "\<lambda>ps. map (\<lambda>(agent, n). \<lparr>ua_userAgent = agent, ua_count = n\<rparr>) (foldl count_agent [] ps)"
  let ?xs = "?rows (filter pr_available peers)"
  let ?ys = "?rows (loadPeers e [REDIS_AVAILABLE_KEY] False)"
  have comparator: "js_comparator ?cmp" by (rule by_count_comparator [OF assms(1)])
  have tells_apart: "a = b" if "?cmp a b \<le> 0" "?cmp b a \<le> 0" for a b
  proof -
    have "ua_count a = ua_count b" using that by (auto simp: by_count_def Let_def split: if_splits)
    then show ?thesis
      using that assms(2) assms(3) [of "ua_userAgent a" "ua_userAgent b"] by (simp add: by_count_def)
  qed
  have "derivePeerUserAgents (pe_collate e) (map api_peer peers) = js_sort ?cmp ?xs"
    unfolding derivePeerUserAgents_def count_advertised_available [OF assms(4)]
    by (intro js_sort_cmp_cong) (simp add: by_count_def)
  also have "\<dots> = js_sort ?cmp ?ys"
  proof (rule sorted_wrt_unique)
    show "mset (js_sort ?cmp ?xs) = mset (js_sort ?cmp ?ys)"
      using counted_perm [OF assms(5)] by simp
  qed (use js_comparator.sorted_js_sort [OF comparator] tells_apart in blast)+
  also have "\<dots> = resultSet (getUserAgents e page None ''desc'')"
    by (simp add: getUserAgents_def paginate_def new_PaginatedResultSet_def Let_def)
  finally show ?thesis .
qed

definition compare_texts :: "string \<Rightarrow> string \<Rightarrow> int" where
  "compare_texts a b = (if a < b then -1 else if a = b then 0 else 1)"

definition strict_peers :: peers_env where
  "strict_peers = sample_peers\<lparr>pe_collate := compare_texts\<rparr>"

lemma derived_agents_agree_witness:
  "derivePeerUserAgents (pe_collate strict_peers) (map api_peer (loadPeers strict_peers [REDIS_AVAILABLE_KEY] False)) =
   resultSet (getUserAgents strict_peers 1 None ''desc'')"
proof (rule derived_agents_agree)
  show "js_comparator (pe_collate strict_peers)"
    by (auto simp: js_comparator_def strict_peers_def compare_texts_def)
  show "pe_collate strict_peers a b = 0 \<Longrightarrow> a = b" for a b
    by (simp add: strict_peers_def compare_texts_def split: if_splits)
  show "pe_collate strict_peers a b \<le> 0 \<Longrightarrow> pe_collate strict_peers b a \<le> 0 \<Longrightarrow> pe_collate strict_peers a b = 0" for a b
    by (auto simp: strict_peers_def compare_texts_def split: if_splits)
  have loaded: "\<forall>p \<in> set (loadPeers strict_peers [REDIS_AVAILABLE_KEY] False).
      pr_userAgent p = Some ''dash'' \<and> pr_available p"
    by (simp add: loadPeers_def map_filter_def load_peer_def Peer_fromStored_def sample_peers_def
        strict_peers_def sample_stored_def)
  then show "\<forall>p \<in> set (loadPeers strict_peers [REDIS_AVAILABLE_KEY] False). pr_userAgent p \<noteq> Some []"
    by simp
  have "filter pr_available (loadPeers strict_peers [REDIS_AVAILABLE_KEY] False) =
      loadPeers strict_peers [REDIS_AVAILABLE_KEY] False"
    using loaded by (simp add: filter_id_conv)
  then show "mset (map pr_userAgent (filter pr_available (loadPeers strict_peers [REDIS_AVAILABLE_KEY] False))) =
     mset (map pr_userAgent (loadPeers strict_peers [REDIS_AVAILABLE_KEY] False))"
    by simp
qed

text \<open>A valid address is one of four numbers below 256, however many zeros they are padded with.\<close>

lemma isValidIpv4_printed:
  assumes "a < 256" "b < 256" "c < 256" "d < 256"
  shows "isValidIpv4 (js_join ''.'' (map dec_nat [a, b, c, d]))"
proof -
  have digits: "is_octet_text (dec_nat n)" if "n < 256" for n
  proof -
    have "length (dec_nat n) \<le> 3" using that by (auto simp: dec_nat.simps [of n] dec_nat.simps [of "n div 10"] dec_nat.simps [of "n div 10 div 10"])
    then show ?thesis using all_digits_dec_nat [of n] by (simp add: is_octet_text_def list_all_iff)
  qed
  have number: "js_number (dec_nat n) = Fin (of_nat n)" if "n < 256" for n
    using that by (intro js_number_dec_nat below_double_limit) simp
  have "CHR ''.'' \<notin> set (dec_nat n)" for n
    using all_digits_dec_nat [of n] by (auto simp: is_digit_def)
  then have "js_split (CHR ''.'') (js_join ''.'' (map dec_nat [a, b, c, d])) = map dec_nat [a, b, c, d]"
    by (intro js_split_join) auto
  then show ?thesis using assms digits number by (simp add: isValidIpv4_def Let_def)
qed

end
