(* ===== verification/ViewModes.thy ===== *)
theory ViewModes
  imports Prelude
begin

text \<open>
  How a table is viewed, \<open>frontend/src/lib/use-table-view-mode.ts\<close>: the mode of a table lives in the state
  of its component and in \<open>localStorage\<close>, which may be missing (on the server), refuse to be read, or
  refuse to be written (full, or in a private window). The effect of the hook runs after each
  rendering in which the mode changed; mounting and updating are modelled with the effects they
  cause.
\<close>

datatype TableViewMode = InfiniteView | PaginationView

fun mode_text :: "TableViewMode \<Rightarrow> string" where
  "mode_text InfiniteView = ''infinite''"
| "mode_text PaginationView = ''pagination''"

definition STORAGE_PREFIX :: string where "STORAGE_PREFIX = ''dashscan.tableViewMode.''"

record storage =
  has_window :: bool
  readable :: bool
  writable :: bool
  items :: "(string \<times> string) list"

definition readStored :: "storage \<Rightarrow> string \<Rightarrow> TableViewMode option" where
  "readStored st key =
     (if \<not> has_window st then None
      else if \<not> readable st then None
      else let raw = map_of (items st) (STORAGE_PREFIX @ key) in
        if raw = Some ''infinite'' then Some InfiniteView
        else if raw = Some ''pagination'' then Some PaginationView
        else None)"

definition view_effect :: "storage \<Rightarrow> string \<Rightarrow> TableViewMode \<Rightarrow> TableViewMode" where
  "view_effect st key mode =
     (case readStored st key of
        Some stored \<Rightarrow> if stored \<noteq> mode then stored else mode
      | None \<Rightarrow> mode)"

text \<open>The effect runs again when it changed the mode, and then finds what it has just set.\<close>

lemma view_effect_idem [simp]: "view_effect st key (view_effect st key mode) = view_effect st key mode"
  by (auto simp: view_effect_def split: option.splits)

text \<open>
  The table is drawn with its default first, on the server as in the browser, whatever is stored; the
  effect of the first drawing then brings the stored mode.
\<close>

definition first_view :: "TableViewMode \<Rightarrow> TableViewMode" where
  "first_view defaultMode = defaultMode"

definition mount_view :: "storage \<Rightarrow> string \<Rightarrow> TableViewMode \<Rightarrow> TableViewMode" where
  "mount_view st key defaultMode = view_effect st key (first_view defaultMode)"

definition store_view :: "string \<Rightarrow> TableViewMode \<Rightarrow> storage \<Rightarrow> storage" where
  "store_view key m st =
     (if has_window st \<and> writable st
      then st\<lparr>items := AList.update (STORAGE_PREFIX @ key) (mode_text m) (items st)\<rparr>
      else st)"

definition update_view :: "string \<Rightarrow> TableViewMode \<Rightarrow> storage \<times> TableViewMode \<Rightarrow> storage \<times> TableViewMode" where
  "update_view key m s =
     (let st = store_view key m (fst s); mode = m
      in (st, if mode \<noteq> snd s then view_effect st key mode else mode))"

lemma readStored_stored:
  "has_window st \<Longrightarrow> writable st \<Longrightarrow>
   readStored (store_view key m st) key' =
   (if readable st then (if key' = key then Some m else readStored st key') else None)"
  by (cases m) (auto simp: readStored_def store_view_def update_conv' Let_def)

lemma readStored_unwritable: "\<not> writable st \<Longrightarrow> store_view key m st = st"
  by (simp add: store_view_def)

text \<open>
  The choice of a reader. Where the storage works, a choice holds at once, and every table with
  the same key that is opened later begins with it, whatever its default, while the tables with
  other keys keep theirs. Where there is no readable storage, the choice holds as long as the table
  is open. But where the storage can be read and not written, and holds an earlier choice, the
  effect brings that one back at once: the table can not be switched.
\<close>

theorem view_choice:
  fixes key :: string
  defines "after \<equiv> \<lambda>st old m. update_view key m (st, old)"
  shows "(\<forall>st old m. has_window st \<and> readable st \<and> writable st \<longrightarrow>
      snd (after st old m) = m \<and>
      (\<forall>d. mount_view (fst (after st old m)) key d = m) \<and>
      (\<forall>key' d. key' \<noteq> key \<longrightarrow> mount_view (fst (after st old m)) key' d = mount_view st key' d)) \<and>
    (\<forall>st old m. \<not> (has_window st \<and> readable st) \<longrightarrow> snd (after st old m) = m) \<and>
    (\<forall>st old m. has_window st \<and> readable st \<and> \<not> writable st \<and> readStored st key = Some old \<longrightarrow>
      after st old m = (st, old))"
proof (intro conjI allI impI)
  fix st :: storage and old m :: TableViewMode
  assume st: "has_window st \<and> readable st \<and> writable st"
  then have stored: "readStored (fst (after st old m)) k = (if k = key then Some m else readStored st k)" for k
    using readStored_stored [of st key m k] by (simp add: after_def update_view_def Let_def)
  show "snd (after st old m) = m"
    using st readStored_stored [of st key m key]
    by (simp add: after_def update_view_def view_effect_def Let_def)
  show "mount_view (fst (after st old m)) key d = m" for d
    using stored [of key] by (simp add: mount_view_def first_view_def view_effect_def)
  show "mount_view (fst (after st old m)) key' d = mount_view st key' d" if "key' \<noteq> key" for key' d
    using stored [of key'] that by (simp add: mount_view_def first_view_def view_effect_def)
next
  fix st :: storage and old m :: TableViewMode
  assume "\<not> (has_window st \<and> readable st)"
  then have "readStored (store_view key m st) key = None"
    by (auto simp: readStored_def store_view_def)
  then show "snd (after st old m) = m" by (simp add: after_def update_view_def view_effect_def Let_def)
next
  fix st :: storage and old m :: TableViewMode
  assume "has_window st \<and> readable st \<and> \<not> writable st \<and> readStored st key = Some old"
  then show "after st old m = (st, old)"
    by (simp add: after_def update_view_def view_effect_def readStored_unwritable Let_def)
qed

theorem view_choice_witness:
  "update_view ''blocks'' PaginationView
     (\<lparr>has_window = True, readable = True, writable = False,
       items = [(''dashscan.tableViewMode.blocks'', ''infinite'')]\<rparr>, InfiniteView) =
   (\<lparr>has_window = True, readable = True, writable = False,
     items = [(''dashscan.tableViewMode.blocks'', ''infinite'')]\<rparr>, InfiniteView) \<and>
   snd (update_view ''blocks'' PaginationView
     (\<lparr>has_window = True, readable = True, writable = True, items = []\<rparr>, InfiniteView)) = PaginationView"
proof -
  have "readStored \<lparr>has_window = True, readable = True, writable = False,
      items = [(''dashscan.tableViewMode.blocks'', ''infinite'')]\<rparr> ''blocks'' = Some InfiniteView"
    by (simp add: readStored_def STORAGE_PREFIX_def)
  then show ?thesis using view_choice [of "''blocks''"] by simp
qed

end
