(* ===== verification/MasternodesPage.thy ===== *)
theory MasternodesPage
  imports InfiniteScroll BrowserPeers Format ViewModes
begin

text \<open>
  The page of the masternodes, \<open>frontend/src/themes/neo/pages/masternodes-list.tsx\<close> and
  \<open>components/masternodes-filter-bar.tsx\<close>: the filters, the effects that load the whole list once a
  filter is active, the rows that pass, and the statistics. \<open>Date.parse\<close> is a parameter; what is
  drawn is not modelled.
\<close>

section \<open>Filters\<close>

datatype LastPaidWindow = AnyTime | Paid24h | Paid7d | Paid30d | Paid90d | NeverPaid
datatype PoseFilter = AnyPose | Healthy | HasPenalty

record MasternodeFilters =
  statuses :: "MnStatusBucket list"
  mn_types :: "MnTypeBucket list"
  lastPaid :: LastPaidWindow
  pose :: PoseFilter
  mn_country :: "string option"

fun LAST_PAID_WINDOW_SEC :: "LastPaidWindow \<Rightarrow> int option" where
  "LAST_PAID_WINDOW_SEC AnyTime = None"
| "LAST_PAID_WINDOW_SEC Paid24h = Some 86400"
| "LAST_PAID_WINDOW_SEC Paid7d = Some 604800"
| "LAST_PAID_WINDOW_SEC Paid30d = Some 2592000"
| "LAST_PAID_WINDOW_SEC Paid90d = Some 7776000"
| "LAST_PAID_WINDOW_SEC NeverPaid = Some 0"

definition EMPTY_FILTERS :: MasternodeFilters where
  "EMPTY_FILTERS =
     \<lparr>statuses = [], mn_types = [], lastPaid = AnyTime, pose = AnyPose, mn_country = None\<rparr>"

definition isFiltersActive :: "MasternodeFilters \<Rightarrow> bool" where
  "isFiltersActive f \<longleftrightarrow>
     length (statuses f) > 0 \<or> length (mn_types f) > 0 \<or> lastPaid f \<noteq> AnyTime \<or> pose f \<noteq> AnyPose
     \<or> mn_country f \<noteq> None"

definition activeFilterCount :: "MasternodeFilters \<Rightarrow> nat" where
  "activeFilterCount f =
     (let n = 0;
          n = (if length (statuses f) > 0 then n + 1 else n);
          n = (if length (mn_types f) > 0 then n + 1 else n);
          n = (if lastPaid f \<noteq> AnyTime then n + 1 else n);
          n = (if pose f \<noteq> AnyPose then n + 1 else n);
          n = (if mn_country f \<noteq> None then n + 1 else n)
      in n)"

lemma activeFilterCount_pos: "activeFilterCount f > 0 \<longleftrightarrow> isFiltersActive f"
  by (auto simp: activeFilterCount_def isFiltersActive_def Let_def)

section \<open>Rows\<close>

record mn_row = ApiMasternode +
  am_payee :: "string option"
  am_lastPaidTime :: "string option"
  am_penalty :: int

definition countryByHash :: "MasternodeGeoPoint list \<Rightarrow> (string \<times> string) list" where
  "countryByHash geo = foldl (\<lambda>m p. AList.update (mp_proTxHash p) (mp_countryCode p) m) [] geo"

definition countryOptions :: "MasternodeGeoPoint list \<Rightarrow> (string \<times> nat) list" where
  "countryOptions geo =
     foldl (\<lambda>m p. AList.update (mp_countryCode p) (or_else (map_of m (mp_countryCode p)) 0 + 1) m) [] geo"

text \<open>The pages of the endless view put together, each masternode at its first place.\<close>

definition keep_first :: "string list \<times> mn_row list \<Rightarrow> mn_row \<Rightarrow> string list \<times> mn_row list" where
  "keep_first acc m =
     (let (seen, unique) = acc in
      if am_proTxHash m \<in> set seen then acc else (am_proTxHash m # seen, unique @ [m]))"

definition infiniteMasternodes :: "mn_row PaginatedResultSet list \<Rightarrow> mn_row list" where
  "infiniteMasternodes pages = snd (foldl keep_first ([], []) (concat (map resultSet pages)))"

definition search_hit :: "string \<Rightarrow> mn_row \<Rightarrow> bool" where
  "search_hit q m \<longleftrightarrow>
     js_includes (js_lower (am_proTxHash m)) q \<or> js_includes (js_lower (am_address m)) q \<or>
     (case am_payee m of None \<Rightarrow> False | Some p \<Rightarrow> js_includes (js_lower p) q)"

definition last_paid_sec :: "(string \<Rightarrow> int) \<Rightarrow> mn_row \<Rightarrow> int" where
  "last_paid_sec parse m =
     (case am_lastPaidTime m of
        Some t \<Rightarrow> if t = [] then 0 else parse t div 1000
      | None \<Rightarrow> 0)"

definition paid_within :: "(string \<Rightarrow> int) \<Rightarrow> int \<Rightarrow> LastPaidWindow \<Rightarrow> mn_row \<Rightarrow> bool" where
  "paid_within parse nowSec w m =
     (let lp = last_paid_sec parse m in
      case LAST_PAID_WINDOW_SEC w of
        None \<Rightarrow> True
      | Some windowSec \<Rightarrow>
          if windowSec = 0 then \<not> lp > 0
          else \<not> lp \<le> 0 \<and> \<not> nowSec - lp > windowSec)"

fun pose_passes :: "PoseFilter \<Rightarrow> int \<Rightarrow> bool" where
  "pose_passes AnyPose n \<longleftrightarrow> True"
| "pose_passes Healthy n \<longleftrightarrow> n = 0"
| "pose_passes HasPenalty n \<longleftrightarrow> n \<noteq> 0"

record list_env =
  le_parse :: "string \<Rightarrow> int"
  le_now :: int
  le_geo :: "MasternodeGeoPoint list"

definition row_passes :: "list_env \<Rightarrow> string \<Rightarrow> MasternodeFilters \<Rightarrow> mn_row \<Rightarrow> bool" where
  "row_passes e search f m \<longleftrightarrow>
     (search = [] \<or> search_hit (js_lower search) m) \<and>
     (case mn_country f of
        Some c \<Rightarrow> c = [] \<or> map_of (countryByHash (le_geo e)) (am_proTxHash m) = Some c
      | None \<Rightarrow> True) \<and>
     (statuses f = [] \<or> getMnStatusBucket (am_status m) \<in> set (statuses f)) \<and>
     (mn_types f = [] \<or> getMnTypeBucket (am_type m) \<in> set (mn_types f)) \<and>
     paid_within (le_parse e) (le_now e div 1000) (lastPaid f) m \<and>
     pose_passes (pose f) (am_penalty m)"

definition filtered :: "list_env \<Rightarrow> string \<Rightarrow> MasternodeFilters \<Rightarrow> mn_row list \<Rightarrow> mn_row list" where
  "filtered e search f masternodes = filter (row_passes e search f) masternodes"

section \<open>Effects\<close>

text \<open>
  Two effects run after every change: an active filter turns the paged view into the endless one,
  and then asks for the next page for as long as there is one and none is being fetched. A step of
  \<open>list_effect\<close> is one of them, with the answer to the request.
\<close>

record list_state =
  filters :: MasternodeFilters
  view :: TableViewMode
  loaded :: nat

definition more_to_load :: "(int \<Rightarrow> mn_row PaginatedResultSet) \<Rightarrow> nat \<Rightarrow> bool" where
  "more_to_load fetch n \<longleftrightarrow> length (scroll fetch (Suc n) 1) > length (scroll fetch n 1)"

inductive list_effect :: "(int \<Rightarrow> mn_row PaginatedResultSet) \<Rightarrow> list_state \<Rightarrow> list_state \<Rightarrow> bool"
  for fetch where
  to_endless: "isFiltersActive (filters s) \<Longrightarrow> view s = PaginationView \<Longrightarrow>
    list_effect fetch s (s\<lparr>view := InfiniteView\<rparr>)"
| load_next: "isFiltersActive (filters s) \<Longrightarrow> view s = InfiniteView \<Longrightarrow> more_to_load fetch (loaded s) \<Longrightarrow>
    list_effect fetch s (s\<lparr>loaded := Suc (loaded s)\<rparr>)"

inductive_cases list_effectE: "list_effect fetch s s'"

inductive list_effects :: "(int \<Rightarrow> mn_row PaginatedResultSet) \<Rightarrow> list_state \<Rightarrow> list_state \<Rightarrow> bool"
  for fetch where
  effects_none: "list_effects fetch s s"
| effects_more: "list_effects fetch s s' \<Longrightarrow> list_effect fetch s' s'' \<Longrightarrow> list_effects fetch s s''"

definition settled :: "(int \<Rightarrow> mn_row PaginatedResultSet) \<Rightarrow> list_state \<Rightarrow> bool" where
  "settled fetch s \<longleftrightarrow> (\<nexists>s'. list_effect fetch s s')"

lemma effects_keep_filters: "list_effects fetch s s' \<Longrightarrow> filters s' = filters s"
  by (induction rule: list_effects.induct) (auto elim: list_effectE)

lemma keep_first_distinct:
  assumes "distinct (map am_proTxHash ms)" "set (map am_proTxHash ms) \<inter> set seen = {}"
  shows "snd (foldl keep_first (seen, acc) ms) = acc @ ms"
  using assms by (induction ms arbitrary: seen acc) (auto simp: keep_first_def)

text \<open>A list whose stated total is exact is loaded in as many pages as it needs.\<close>

lemma exact_scroll_length:
  assumes "stated_listing fetch shown rows limit limit (Fin (of_nat (length rows))) none"
  shows "1 \<le> p \<Longrightarrow> p \<le> stated_pages (of_nat (length rows)) limit \<Longrightarrow>
    length (scroll fetch n (int p)) = min n (stated_pages (of_nat (length rows)) limit - (p - 1))"
proof (induction n arbitrary: p)
  case (Suc n)
  let ?k = "stated_pages (of_nat (length rows)) limit"
  have limit: "0 < limit" using assms by (simp add: stated_listing_def)
  note step = stated_listing.next_page [OF assms Suc.prems(1), unfolded json_number.simps]
  show ?case
  proof (cases "p < ?k")
    case True
    then have "of_int (int p) * of_nat limit < (of_nat (length rows) :: rat)"
      using more_stated [OF limit Suc.prems(1)] by blast
    then have less: "p * limit < length rows"
      by (metis of_int_of_nat_eq of_nat_less_iff of_nat_mult)
    have "(p - 1) * limit < length rows"
      using less mult_le_mono1 [of "p - 1" p limit] by linarith
    then have "page_of p limit rows \<noteq> []" using limit by (simp add: page_of_def)
    then have "getNextPageParam (fetch (int p)) = Some (int (Suc p))" using step True by simp
    moreover have "length (scroll fetch n (int (Suc p))) = min n (?k - p)"
      using Suc.IH [of "Suc p"] True by simp
    ultimately show ?thesis using True Suc.prems by (simp del: of_nat_Suc)
  next
    case False
    then have "getNextPageParam (fetch (int p)) = None" using step by simp
    then show ?thesis using False Suc.prems by simp
  qed
qed simp

lemma exact_scroll:
  assumes "stated_listing fetch shown rows limit limit (Fin (of_nat (length rows))) none"
  defines "k \<equiv> stated_pages (of_nat (length rows)) limit"
  shows "more_to_load fetch n \<longleftrightarrow> n < k"
    and "k \<le> n \<Longrightarrow> concat (map shown (scroll fetch n 1)) = rows"
proof -
  have "length (scroll fetch m 1) = min m k" for m
    using exact_scroll_length [OF assms(1), of 1 m] stated_pages_pos [of "of_nat (length rows)" limit]
    by (simp add: k_def)
  then show "more_to_load fetch n \<longleftrightarrow> n < k" by (simp only: more_to_load_def) auto
  have limit: "0 < limit" using assms(1) by (simp add: stated_listing_def)
  have "of_nat (length rows) / of_nat limit \<le> (of_nat k :: rat)"
    using of_nat_ceiling [of "of_nat (length rows) / of_nat limit :: rat"]
    by (simp add: k_def stated_pages_def) linarith
  then have "(of_nat (length rows) :: rat) \<le> of_nat (k * limit)" using limit by (simp add: pos_divide_le_eq)
  then have "length rows \<le> k * limit" by (simp only: of_nat_le_iff)
  then show "concat (map shown (scroll fetch n 1)) = rows" if "k \<le> n"
    using stated_listing.scroll_shows [OF assms(1), of n, unfolded json_number.simps] that
    by (simp add: k_def min_absorb2)
qed

lemma load_rest:
  assumes "isFiltersActive (filters s)" "view s = InfiniteView" "\<And>n. more_to_load fetch n \<longleftrightarrow> n < k" "loaded s \<le> k"
  shows "list_effects fetch s (s\<lparr>loaded := k\<rparr>)"
proof -
  have "loaded s + d \<le> k \<Longrightarrow> list_effects fetch s (s\<lparr>loaded := loaded s + d\<rparr>)" for d
  proof (induction d)
    case (Suc d)
    let ?t = "s\<lparr>loaded := loaded s + d\<rparr>"
    have "list_effects fetch s ?t" using Suc by simp
    moreover have "list_effect fetch ?t (?t\<lparr>loaded := Suc (loaded ?t)\<rparr>)"
      using assms(1,2,3) Suc.prems by (intro load_next) simp_all
    ultimately show ?case using effects_more by fastforce
  qed (simp add: effects_none)
  from this [of "k - loaded s"] assms(4) show ?thesis by simp
qed

text \<open>
  An active filter searches the whole list. Whatever the mode of the table and however many
  pages are there, the effects can always run until nothing is left to do; and whenever they have,
  the table is in the endless view and shows exactly the masternodes of the API's listing that pass
  the search and every filter, each once and in the order of the listing.
\<close>

theorem active_filters_search_everything:
  assumes "stated_listing fetch resultSet rows limit limit (Fin (of_nat (length rows))) none"
    "distinct (map am_proTxHash rows)" "isFiltersActive (filters s)"
  shows "(\<exists>s'. list_effects fetch s s' \<and> settled fetch s') \<and>
    (\<forall>s'. list_effects fetch s s' \<longrightarrow> settled fetch s' \<longrightarrow>
      view s' = InfiniteView \<and>
      filtered e search (filters s') (infiniteMasternodes (scroll fetch (loaded s') 1)) =
        filter (row_passes e search (filters s)) rows)"
proof -
  define k where "k = stated_pages (of_nat (length rows)) limit"
  note more = exact_scroll(1) [OF assms(1), folded k_def]
  have settled_iff: "settled fetch t \<longleftrightarrow> view t = InfiniteView \<and> k \<le> loaded t" if "filters t = filters s" for t
  proof (cases "view t")
    case PaginationView
    then have "list_effect fetch t (t\<lparr>view := InfiniteView\<rparr>)" using that assms(3) by (simp add: to_endless)
    then show ?thesis using PaginationView by (auto simp: settled_def)
  next
    case InfiniteView
    have "(\<exists>t'. list_effect fetch t t') \<longleftrightarrow> loaded t < k"
    proof
      assume "\<exists>t'. list_effect fetch t t'"
      then show "loaded t < k" using InfiniteView more by (metis TableViewMode.distinct(1) list_effectE)
    next
      assume "loaded t < k"
      then have "list_effect fetch t (t\<lparr>loaded := Suc (loaded t)\<rparr>)"
        using InfiniteView that assms(3) more by (simp add: load_next)
      then show "\<exists>t'. list_effect fetch t t'" ..
    qed
    then show ?thesis using InfiniteView by (auto simp: settled_def not_less)
  qed
  have part1: "\<exists>s'. list_effects fetch s s' \<and> settled fetch s'"
  proof -
    let ?t = "s\<lparr>view := InfiniteView\<rparr>"
    have t: "list_effects fetch s ?t"
    proof (cases "view s")
      case PaginationView
      then show ?thesis using effects_more [OF effects_none to_endless] assms(3) by blast
    next
      case InfiniteView
      then have "?t = s" by (cases s) simp
      then show ?thesis by (simp add: effects_none)
    qed
    show ?thesis
    proof (cases "k \<le> loaded s")
      case True
      then show ?thesis using t settled_iff [of ?t] by auto
    next
      case False
      have "list_effects fetch ?t (?t\<lparr>loaded := k\<rparr>)"
        using False assms(3) more by (intro load_rest [of ?t fetch k]) simp_all
      then have "list_effects fetch s (?t\<lparr>loaded := k\<rparr>)"
        using t by (induction rule: list_effects.induct) (auto intro: effects_more)
      then show ?thesis using settled_iff [of "?t\<lparr>loaded := k\<rparr>"] by auto
    qed
  qed
  have part2: "view s' = InfiniteView \<and>
      filtered e search (filters s') (infiniteMasternodes (scroll fetch (loaded s') 1)) =
        filter (row_passes e search (filters s)) rows"
    if "list_effects fetch s s'" "settled fetch s'" for s'
  proof -
    have same: "filters s' = filters s" by (rule effects_keep_filters [OF that(1)])
    then have done': "view s' = InfiniteView" "k \<le> loaded s'" using settled_iff that(2) by auto
    then have "concat (map resultSet (scroll fetch (loaded s') 1)) = rows"
      using exact_scroll(2) [OF assms(1)] by (simp add: k_def)
    then have "infiniteMasternodes (scroll fetch (loaded s') 1) = rows"
      using keep_first_distinct [OF assms(2), of "[]" "[]"] by (simp add: infiniteMasternodes_def)
    then show ?thesis by (simp add: filtered_def same done')
  qed
  show ?thesis using part1 part2 by blast
qed

section \<open>Statistics\<close>

definition count_type :: "(string \<times> nat) list \<Rightarrow> mn_row \<Rightarrow> (string \<times> nat) list" where
  "count_type acc n =
     (let key = getMnTypeLabel (am_type n) in AList.update key (or_else (map_of acc key) 0 + 1) acc)"

record mn_stats =
  totalAll :: "nat option"
  banned :: nat
  enabled_count :: nat
  others_count :: int
  typeChart :: "(string \<times> nat) list"
  statusChart :: "(string \<times> int) list"

definition mn_page_stats :: "mn_row list option \<Rightarrow> mn_stats" where
  "mn_page_stats allMasternodes =
     (let every = or_else allMasternodes [];
          banned' = length (filter (\<lambda>n. js_includes (js_upper (am_status n)) ''BANNED'') every);
          enabled' = length (filter (\<lambda>n. js_upper (am_status n) = ''ENABLED'') every);
          other = int (length every) - int banned' - int enabled'
      in \<lparr>totalAll = (if length every > 0 then Some (length every) else None),
          banned = banned', enabled_count = enabled', others_count = other,
          typeChart = foldl count_type [] every,
          statusChart = [(''Enabled'', int enabled'), (''Banned'', int banned')] @
            (if other > 0 then [(''Other'', other)] else [])\<rparr>)"

definition getMasternodeCollateral :: "string \<Rightarrow> int" where
  "getMasternodeCollateral ty =
     (let t = js_lower ty in
      if t = ''evo'' \<or> t = ''evolution'' \<or> t = ''highperformance'' then 4000 else 1000)"

lemma enabled_not_banned: "\<not> js_includes ''ENABLED'' ''BANNED''"
  by code_simp

lemma count_type_sum:
  "sum_list (map snd (AList.update k (Suc (or_else (map_of m k) 0)) m)) = Suc (sum_list (map snd m))"
  by (induction m) (auto split: if_splits)

text \<open>
  The charts of the masternodes account for every node. The three groups of the status chart
  are exactly the groups that the status filter tells apart, so the two agree on every node and the
  group of the others is never negative; and both charts add up to the number of nodes.
\<close>

theorem masternode_charts_add_up:
  shows "int (banned (mn_page_stats (Some ms))) + int (enabled_count (mn_page_stats (Some ms)))
      + others_count (mn_page_stats (Some ms)) = int (length ms) \<and>
    banned (mn_page_stats (Some ms)) = length (filter (\<lambda>m. getMnStatusBucket (am_status m) = BannedBucket) ms) \<and>
    enabled_count (mn_page_stats (Some ms)) = length (filter (\<lambda>m. getMnStatusBucket (am_status m) = EnabledBucket) ms) \<and>
    others_count (mn_page_stats (Some ms)) = int (length (filter (\<lambda>m. getMnStatusBucket (am_status m) = OtherBucket) ms)) \<and>
    sum_list (map snd (statusChart (mn_page_stats (Some ms)))) = int (length ms) \<and>
    sum_list (map snd (typeChart (mn_page_stats (Some ms)))) = length ms"
proof -
  let ?s = "mn_page_stats (Some ms)"
  have part1: "banned ?s = length (filter (\<lambda>m. getMnStatusBucket (am_status m) = BannedBucket) ms)"
    using enabled_not_banned
    by (auto simp: mn_page_stats_def Let_def getMnStatusBucket_def intro!: arg_cong [of _ _ length] filter_cong)
  have part2: "enabled_count ?s = length (filter (\<lambda>m. getMnStatusBucket (am_status m) = EnabledBucket) ms)"
    by (auto simp: mn_page_stats_def Let_def getMnStatusBucket_def intro!: arg_cong [of _ _ length] filter_cong)
  have part3: "int (banned ?s) + int (enabled_count ?s) + others_count ?s = int (length ms)"
    by (simp add: mn_page_stats_def Let_def)
  have "length ms = length (filter (\<lambda>m. getMnStatusBucket (am_status m) = BannedBucket) ms)
      + length (filter (\<lambda>m. getMnStatusBucket (am_status m) = EnabledBucket) ms)
      + length (filter (\<lambda>m. getMnStatusBucket (am_status m) = OtherBucket) ms)"
    by (induction ms) (auto, metis MnStatusBucket.exhaust)
  then have part4: "others_count ?s = int (length (filter (\<lambda>m. getMnStatusBucket (am_status m) = OtherBucket) ms))"
    using part3 part1 part2 by linarith
  have "sum_list (map snd (statusChart ?s)) = int (enabled_count ?s) + int (banned ?s) + max 0 (others_count ?s)"
    by (simp add: mn_page_stats_def Let_def)
  then have part5: "sum_list (map snd (statusChart ?s)) = int (length ms)" using part3 part4 by linarith
  have "sum_list (map snd (foldl count_type acc ms)) = sum_list (map snd acc) + length ms" for acc
    by (induction ms arbitrary: acc) (simp_all add: count_type_def count_type_sum Let_def)
  then have part6: "sum_list (map snd (typeChart ?s)) = length ms"
    by (simp add: mn_page_stats_def Let_def)
  show ?thesis using part1 part2 part3 part4 part5 part6 by blast
qed

section \<open>Sample list\<close>

definition sample_source :: "mn_row list \<Rightarrow> nat \<Rightarrow> int \<Rightarrow> mn_row PaginatedResultSet" where
  "sample_source rows limit p =
     (let shown = page_of (nat p) limit rows in
      \<lparr>resultSet = shown,
       pagination = \<lparr>pg_page = p, pg_limit = Fin (of_nat limit),
                     pg_total = (if shown = [] then Fin 0 else Fin (of_nat (length rows)))\<rparr>\<rparr>)"

lemma sample_source_listing:
  "0 < limit \<Longrightarrow>
   stated_listing (sample_source rows limit) resultSet rows limit limit (Fin (of_nat (length rows))) (Fin 0)"
  by (simp add: stated_listing_def sample_source_def Let_def)

definition sample_node :: "string \<Rightarrow> string \<Rightarrow> mn_row" where
  "sample_node h st =
     \<lparr>am_proTxHash = h, am_status = st, am_type = ''Evo'', am_address = ''1.2.3.4:9999'', am_geoIpInfo = None,
      am_payee = None, am_lastPaidTime = None, am_penalty = 0\<rparr>"

definition sample_nodes :: "mn_row list" where
  "sample_nodes = [sample_node ''a'' ''ENABLED'', sample_node ''b'' ''POSE_BANNED'', sample_node ''c'' ''ENABLED'']"

definition banned_only :: list_state where
  "banned_only = \<lparr>filters = EMPTY_FILTERS\<lparr>statuses := [BannedBucket]\<rparr>, view = PaginationView, loaded = 1\<rparr>"

definition sample_list_env :: list_env where
  "sample_list_env = \<lparr>le_parse = (\<lambda>_. 0), le_now = 0, le_geo = []\<rparr>"

lemma active_filters_search_everything_witness:
  "\<exists>s'. settled (sample_source sample_nodes 1) s' \<and> view s' = InfiniteView \<and>
     filtered sample_list_env [] (filters s') (infiniteMasternodes (scroll (sample_source sample_nodes 1) (loaded s') 1)) =
     filter (row_passes sample_list_env [] (filters banned_only)) sample_nodes"
proof -
  have listing: "stated_listing (sample_source sample_nodes 1) resultSet sample_nodes 1 1
      (Fin (of_nat (length sample_nodes))) (Fin 0)"
    by (rule sample_source_listing) simp
  have "distinct (map am_proTxHash sample_nodes)" "isFiltersActive (filters banned_only)"
    by (simp_all add: sample_nodes_def sample_node_def banned_only_def isFiltersActive_def)
  note whole = active_filters_search_everything [OF listing this]
  from conjunct1 [OF whole] obtain s' where "list_effects (sample_source sample_nodes 1) banned_only s'"
    "settled (sample_source sample_nodes 1) s'" by blast
  with conjunct2 [OF whole] show ?thesis by blast
qed

end
