(* ===== verification/DaoPage.thy ===== *)
theory DaoPage
  imports SuperblockClock Governance ViewModes
begin

text \<open>
  The governance page of the web interface, \<open>frontend/src/themes/neo/pages/dao.tsx\<close>: from the proposals
  the API lists to the rows of the table, and the state of the page with the handlers of its
  controls. What is drawn is not modelled. \<open>localeCompare\<close> and \<open>Date.parse\<close> are parameters;
  \<open>toLowerCase\<close> is that of ASCII texts.
\<close>

section \<open>From the proposals to the rows\<close>

record dao_proposal =
  dr_hash :: "string option"
  dr_name :: "string option"
  dr_type :: "string option"
  dr_address :: "string option"
  dr_yes :: "int option"
  dr_no :: "int option"
  dr_created :: "string option"
  dr_amount :: "rat option"

definition PROPOSALS_PAGE_SIZE :: nat where "PROPOSALS_PAGE_SIZE = 25"

datatype SortId = ByRank | ByName | ByTime | ByVotes | ByFunding
datatype SortDir = Ascending | Descending

definition net_votes :: "dao_proposal \<Rightarrow> int" where
  "net_votes p = or_else (dr_yes p) 0 - or_else (dr_no p) 0"

definition dao_proposals :: "dao_proposal list option \<Rightarrow> dao_proposal list" where
  "dao_proposals allProposals =
     filter (\<lambda>p. dr_type p = Some ''Proposal'' \<and> dr_name p \<noteq> None) (or_else allProposals [])"

fun lower_includes :: "string option \<Rightarrow> string \<Rightarrow> bool" where
  "lower_includes None q \<longleftrightarrow> False"
| "lower_includes (Some s) q \<longleftrightarrow> js_includes (js_lower s) q"

definition filteredProposals :: "string \<Rightarrow> dao_proposal list \<Rightarrow> dao_proposal list" where
  "filteredProposals search proposals =
     (if search = [] then proposals
      else let q = js_lower search in
        filter (\<lambda>p. lower_includes (dr_name p) q \<or> lower_includes (dr_address p) q \<or>
                    lower_includes (dr_hash p) q) proposals)"

definition ranked :: "dao_proposal list \<Rightarrow> dao_proposal list" where
  "ranked proposals = js_sort (\<lambda>a b. net_votes b - net_votes a) proposals"

definition rank_entry ::
  "int \<Rightarrow> (string \<times> nat \<times> bool) list \<Rightarrow> nat \<times> dao_proposal \<Rightarrow> (string \<times> nat \<times> bool) list" where
  "rank_entry requiredVotes m ip =
     (let (i, p) = ip in
      case dr_hash p of
        None \<Rightarrow> m
      | Some h \<Rightarrow> if h = [] then m else AList.update h (i + 1, requiredVotes \<le> net_votes p) m)"

definition rankMap :: "int \<Rightarrow> dao_proposal list \<Rightarrow> (string \<times> nat \<times> bool) list" where
  "rankMap requiredVotes proposals =
     foldl (rank_entry requiredVotes) [] (enumerate 0 (ranked proposals))"

definition MAX_SAFE_INTEGER :: int where "MAX_SAFE_INTEGER = 2 ^ 53 - 1"

definition rank_key :: "(string \<times> nat \<times> bool) list \<Rightarrow> dao_proposal \<Rightarrow> int" where
  "rank_key ranks p =
     (case map_of ranks (or_else (dr_hash p) []) of Some (r, _) \<Rightarrow> int r | None \<Rightarrow> MAX_SAFE_INTEGER)"

record dao_env =
  de_collate :: "string \<Rightarrow> string \<Rightarrow> int"
  de_parse :: "string \<Rightarrow> int"

definition time_key :: "dao_env \<Rightarrow> dao_proposal \<Rightarrow> int" where
  "time_key e p = (case dr_created p of Some t \<Rightarrow> if t = [] then 0 else de_parse e t | None \<Rightarrow> 0)"

fun compare_rows :: "dao_env \<Rightarrow> (string \<times> nat \<times> bool) list \<Rightarrow> SortId \<Rightarrow> dao_proposal \<Rightarrow> dao_proposal \<Rightarrow> int" where
  "compare_rows e ranks ByRank a b = rank_key ranks a - rank_key ranks b"
| "compare_rows e ranks ByName a b = de_collate e (or_else (dr_name a) []) (or_else (dr_name b) [])"
| "compare_rows e ranks ByTime a b = time_key e a - time_key e b"
| "compare_rows e ranks ByVotes a b = net_votes a - net_votes b"
| "compare_rows e ranks ByFunding a b = sign_of (or_else (dr_amount a) 0 - or_else (dr_amount b) 0)"

fun direction :: "SortDir \<Rightarrow> int" where
  "direction Ascending = 1"
| "direction Descending = - 1"

definition sortedProposals ::
  "dao_env \<Rightarrow> (string \<times> nat \<times> bool) list \<Rightarrow> SortId \<Rightarrow> SortDir \<Rightarrow> dao_proposal list \<Rightarrow> dao_proposal list" where
  "sortedProposals e ranks sortId sortDir rows =
     js_sort (\<lambda>a b. compare_rows e ranks sortId a b * direction sortDir) rows"

section \<open>The state of the page\<close>

record dao_state =
  search :: string
  visibleCount :: nat
  viewMode :: TableViewMode
  page_index :: nat
  pageSize :: nat
  sortId :: SortId
  sortDir :: SortDir

definition dao_initial :: "TableViewMode \<Rightarrow> dao_state" where
  "dao_initial mode =
     \<lparr>search = [], visibleCount = PROPOSALS_PAGE_SIZE, viewMode = mode, page_index = 1,
      pageSize = PROPOSALS_PAGE_SIZE, sortId = ByRank, sortDir = Ascending\<rparr>"

fun flip_dir :: "SortDir \<Rightarrow> SortDir" where
  "flip_dir Ascending = Descending"
| "flip_dir Descending = Ascending"

definition toggleSort :: "SortId \<Rightarrow> dao_state \<Rightarrow> dao_state" where
  "toggleSort i s =
     (let s = (if sortId s = i then s\<lparr>sortDir := flip_dir (sortDir s)\<rparr>
               else s\<lparr>sortId := i, sortDir := (if i = ByRank \<or> i = ByName then Ascending else Descending)\<rparr>)
      in s\<lparr>page_index := 1, visibleCount := PROPOSALS_PAGE_SIZE\<rparr>)"

definition handleSearchChange :: "string \<Rightarrow> dao_state \<Rightarrow> dao_state" where
  "handleSearchChange v s = s\<lparr>search := v, visibleCount := PROPOSALS_PAGE_SIZE, page_index := 1\<rparr>"

definition onLoadMore :: "dao_state \<Rightarrow> dao_state" where
  "onLoadMore s = s\<lparr>visibleCount := visibleCount s + PROPOSALS_PAGE_SIZE\<rparr>"

definition onPageSizeChange :: "nat \<Rightarrow> dao_state \<Rightarrow> dao_state" where
  "onPageSizeChange n s = s\<lparr>pageSize := n, page_index := 1\<rparr>"

text \<open>The table offers the pages from 1 on and page sizes that are positive.\<close>

datatype dao_event =
    ToggleSort SortId
  | ChangeSearch string
  | LoadMore
  | GoToPage nat
  | ChangePageSize nat
  | ChangeViewMode TableViewMode

inductive dao_step :: "dao_state \<Rightarrow> dao_event \<Rightarrow> dao_state \<Rightarrow> bool" where
  "dao_step s (ToggleSort i) (toggleSort i s)"
| "dao_step s (ChangeSearch v) (handleSearchChange v s)"
| "dao_step s LoadMore (onLoadMore s)"
| "1 \<le> p \<Longrightarrow> dao_step s (GoToPage p) (s\<lparr>page_index := p\<rparr>)"
| "1 \<le> n \<Longrightarrow> dao_step s (ChangePageSize n) (onPageSizeChange n s)"
| "dao_step s (ChangeViewMode m) (s\<lparr>viewMode := m\<rparr>)"

inductive dao_reachable :: "dao_state \<Rightarrow> bool" where
  "dao_reachable (dao_initial m)"
| "dao_reachable s \<Longrightarrow> dao_step s ev s' \<Longrightarrow> dao_reachable s'"

definition dao_rows :: "dao_env \<Rightarrow> int \<Rightarrow> dao_proposal list option \<Rightarrow> dao_state \<Rightarrow> dao_proposal list" where
  "dao_rows e requiredVotes allProposals s =
     (let proposals = dao_proposals allProposals in
      sortedProposals e (rankMap requiredVotes proposals) (sortId s) (sortDir s)
        (filteredProposals (search s) proposals))"

definition paged :: "dao_proposal list \<Rightarrow> dao_state \<Rightarrow> dao_proposal list" where
  "paged rows s =
     (case viewMode s of
        InfiniteView \<Rightarrow> js_slice rows 0 (int (visibleCount s))
      | PaginationView \<Rightarrow>
          (let start = (int (page_index s) - 1) * int (pageSize s) in
           js_slice rows start (start + int (pageSize s))))"

definition hasNextPage :: "dao_proposal list \<Rightarrow> dao_state \<Rightarrow> bool" where
  "hasNextPage rows s \<longleftrightarrow> visibleCount s < length rows"

section \<open>Ranks\<close>

lemma ranked_by_key: "ranked ps = js_sort (by_key (\<lambda>p. - net_votes p)) ps"
  by (simp add: ranked_def by_key_def [abs_def] algebra_simps)

lemma ranked_sorted: "sorted_wrt (\<lambda>a b. net_votes b \<le> net_votes a) (ranked ps)"
  using by_key.sorted_js_sort [of "\<lambda>p. - net_votes p" ps] by (simp add: ranked_by_key by_key_def)

definition hashed :: "dao_proposal list \<Rightarrow> bool" where
  "hashed ps \<longleftrightarrow> list_all (\<lambda>p. dr_hash p \<noteq> None \<and> dr_hash p \<noteq> Some []) ps \<and> distinct (map dr_hash ps)"

lemma rank_fold_other:
  "h \<notin> {h. Some h \<in> dr_hash ` snd ` set xs} \<Longrightarrow> map_of (foldl (rank_entry r) m xs) h = map_of m h"
proof (induction xs arbitrary: m)
  case (Cons x xs)
  have "map_of (rank_entry r m x) h = map_of m h"
    using Cons.prems by (auto simp: rank_entry_def update_conv' split: option.split prod.split)
  with Cons show ?case by simp
qed simp

lemma rank_fold:
  assumes "hashed ps" "i < length ps"
  shows "map_of (foldl (rank_entry r) m (enumerate n ps)) (the (dr_hash (ps ! i))) =
    Some (n + i + 1, r \<le> net_votes (ps ! i))"
  using assms
proof (induction ps arbitrary: m n i)
  case (Cons p ps)
  obtain h where h: "dr_hash p = Some h" "h \<noteq> []" using Cons.prems(1) by (auto simp: hashed_def)
  have entry: "rank_entry r m (n, p) = AList.update h (n + 1, r \<le> net_votes p) m"
    using h by (simp add: rank_entry_def)
  show ?case
  proof (cases i)
    case 0
    have "snd ` set (enumerate (Suc n) ps) = set ps"
      by (simp only: set_map [symmetric] map_snd_enumerate)
    then have "Some h \<notin> dr_hash ` snd ` set (enumerate (Suc n) ps)"
      using Cons.prems(1) h by (simp add: hashed_def)
    then show ?thesis
      using 0 h entry by (simp add: rank_fold_other update_conv')
  next
    case (Suc j)
    have "hashed ps" using Cons.prems(1) by (simp add: hashed_def)
    with Cons.IH [of j "rank_entry r m (n, p)" "Suc n"] Cons.prems(2) Suc show ?thesis by simp
  qed
qed simp

lemma hashed_ranked: "hashed ps \<Longrightarrow> hashed (ranked ps)"
  unfolding hashed_def ranked_def by (simp add: list_all_iff distinct_map)

lemma rankMap_ranked:
  assumes "hashed ps" "i < length ps"
  shows "map_of (rankMap r ps) (the (dr_hash (ranked ps ! i))) =
    Some (i + 1, r \<le> net_votes (ranked ps ! i))"
  using rank_fold [OF hashed_ranked [OF assms(1)], of i r "[]" 0] assms(2)
  by (simp add: rankMap_def ranked_def)

text \<open>
  What the rank of a proposal means. When every proposal has a hash of its own, the ranks are
  the numbers from one to the number of proposals, each given once; more votes for than against
  than another proposal has give a better rank; and a proposal is marked as passing exactly when
  its margin reaches the required votes, so that every proposal ranked better than a passing one
  passes. Neither the search nor the chosen order enters into it.
\<close>

theorem ranks_follow_votes:
  assumes "hashed ps"
  shows "\<exists>rank. bij_betw rank (set ps) {1..length ps} \<and>
    (\<forall>p \<in> set ps. map_of (rankMap r ps) (the (dr_hash p)) = Some (rank p, r \<le> net_votes p)) \<and>
    (\<forall>p \<in> set ps. \<forall>q \<in> set ps. net_votes q < net_votes p \<longrightarrow> rank p < rank q)"
proof -
  let ?R = "ranked ps"
  have R: "set ?R = set ps" "distinct ?R" "length ?R = length ps"
    using assms by (auto simp: ranked_def hashed_def distinct_map)
  define pos where "pos p = (THE i. i < length ?R \<and> ?R ! i = p)" for p
  have pos_nth: "pos (?R ! i) = i" if "i < length ?R" for i
    unfolding pos_def using that R(2) by (auto simp: nth_eq_iff_index_eq)
  have pos: "pos p < length ?R" "?R ! pos p = p" if p: "p \<in> set ps" for p
  proof -
    obtain i where i: "i < length ?R" "?R ! i = p" using p R(1) by (metis in_set_conv_nth)
    then show "pos p < length ?R" "?R ! pos p = p" using pos_nth [OF i(1)] by auto
  qed
  define rank where "rank p = Suc (pos p)" for p
  have "inj_on rank (set ps)"
    unfolding rank_def by (rule inj_onI) (metis pos(2) nat.inject)
  moreover have "rank ` set ps = {1..length ps}"
  proof
    show "rank ` set ps \<subseteq> {1..length ps}" using pos(1) R(3) by (auto simp: rank_def Suc_le_eq)
    show "{1..length ps} \<subseteq> rank ` set ps"
    proof
      fix k assume "k \<in> {1..length ps}"
      then obtain i where i: "k = Suc i" "i < length ?R" using R(3) by (cases k) auto
      then have "?R ! i \<in> set ps" using R(1) nth_mem by blast
      then show "k \<in> rank ` set ps" using i pos_nth [OF i(2)] by (auto simp: rank_def intro!: image_eqI)
    qed
  qed
  ultimately have "bij_betw rank (set ps) {1..length ps}" by (simp add: bij_betw_def)
  moreover have "map_of (rankMap r ps) (the (dr_hash p)) = Some (rank p, r \<le> net_votes p)"
    if "p \<in> set ps" for p
    using rankMap_ranked [OF assms, of "pos p" r] pos [OF that] R(3) by (simp add: rank_def)
  moreover have "rank p < rank q" if "p \<in> set ps" "q \<in> set ps" "net_votes q < net_votes p" for p q
  proof (rule ccontr)
    assume "\<not> rank p < rank q"
    moreover have "pos p \<noteq> pos q" using pos(2) that by (metis less_irrefl)
    ultimately have "pos q < pos p" by (auto simp: rank_def)
    then have "net_votes (?R ! pos p) \<le> net_votes (?R ! pos q)"
      using ranked_sorted [of ps] pos(1) [OF that(1)] by (simp add: sorted_wrt_iff_nth_less)
    then have "net_votes p \<le> net_votes q" by (simp only: pos(2) [OF that(1)] pos(2) [OF that(2)])
    with that(3) show False by simp
  qed
  ultimately show ?thesis by blast
qed

section \<open>The rows of the table\<close>

text \<open>The table opens on the ranking.\<close>

lemma opening_order:
  assumes "hashed ps"
  shows "sortedProposals e (rankMap r ps) ByRank Ascending (filteredProposals [] ps) = ranked ps"
proof -
  have key: "rank_key (rankMap r ps) (ranked ps ! i) = int (i + 1)" if "i < length ps" for i
  proof -
    have "dr_hash (ranked ps ! i) \<noteq> None"
      using hashed_ranked [OF assms] that by (auto simp: hashed_def list_all_length ranked_def)
    then show ?thesis using rankMap_ranked [OF assms that, of r] by (auto simp: rank_key_def)
  qed
  let ?cmp = "by_key (rank_key (rankMap r ps))"
  have "sortedProposals e (rankMap r ps) ByRank Ascending (filteredProposals [] ps) = js_sort ?cmp ps"
    by (simp add: sortedProposals_def filteredProposals_def by_key_def [abs_def])
  also have "\<dots> = ranked ps"
  proof (rule sorted_wrt_unique)
    show "sorted_wrt (\<lambda>a b. ?cmp a b \<le> 0) (js_sort ?cmp ps)" by (rule by_key.sorted_js_sort)
    show "sorted_wrt (\<lambda>a b. ?cmp a b \<le> 0) (ranked ps)"
      unfolding sorted_wrt_iff_nth_less by_key_def using key by (simp add: ranked_def)
    show "mset (js_sort ?cmp ps) = mset (ranked ps)" by (simp add: ranked_def)
    fix a b assume ab: "a \<in> set (js_sort ?cmp ps)" "b \<in> set (js_sort ?cmp ps)" "?cmp a b \<le> 0" "?cmp b a \<le> 0"
    then have "a \<in> set (ranked ps)" "b \<in> set (ranked ps)" "length (ranked ps) = length ps"
      by (simp_all add: ranked_def)
    then obtain i j where ij: "i < length ps" "j < length ps" "a = ranked ps ! i" "b = ranked ps ! j"
      by (metis in_set_conv_nth)
    then show "a = b" using ab(3,4) key by (simp add: by_key_def)
  qed
  finally show ?thesis .
qed

lemma mset_sortedProposals: "mset (sortedProposals e m i d rows) = mset rows"
  by (simp add: sortedProposals_def)

lemma dao_reachable_inv:
  "dao_reachable s \<Longrightarrow> 1 \<le> page_index s \<and> 1 \<le> pageSize s \<and> PROPOSALS_PAGE_SIZE \<le> visibleCount s"
  by (induction rule: dao_reachable.induct)
    (auto simp: dao_initial_def PROPOSALS_PAGE_SIZE_def toggleSort_def handleSearchChange_def
      onLoadMore_def onPageSizeChange_def Let_def elim!: dao_step.cases)

lemma visible_after: "visibleCount ((onLoadMore ^^ k) s) = visibleCount s + k * PROPOSALS_PAGE_SIZE"
  by (induction k) (auto simp: onLoadMore_def)

lemma view_after: "viewMode ((onLoadMore ^^ k) s) = viewMode s"
  by (induction k) (auto simp: onLoadMore_def)

text \<open>
  Every proposal that matches the search can be reached. In whatever state the controls of the
  page have left it, the rows are a rearrangement of the matching proposals; in the endless view,
  loading more shows ever longer beginnings of them and ends, after finitely many times, with all
  of them and nothing more to load; and in the paged view the pages from the first one on follow
  one another without a gap or a repetition.
\<close>

theorem every_proposal_reachable:
  fixes e :: dao_env and required :: int and allProposals :: "dao_proposal list option"
  assumes "dao_reachable s"
  defines "rows \<equiv> dao_rows e required allProposals s"
  shows "mset rows = mset (filteredProposals (search s) (dao_proposals allProposals)) \<and>
    (viewMode s = InfiniteView \<longrightarrow>
      paged rows ((onLoadMore ^^ k) s) = take (visibleCount s + k * PROPOSALS_PAGE_SIZE) rows) \<and>
    (\<exists>k. \<not> hasNextPage rows ((onLoadMore ^^ k) s)) \<and>
    (viewMode s = PaginationView \<longrightarrow> length rows \<le> n * pageSize s \<longrightarrow>
      concat (map (\<lambda>p. paged rows (s\<lparr>page_index := p\<rparr>)) [1..<Suc n]) = rows)"
proof -
  note inv = dao_reachable_inv [OF assms(1)]
  have part1: "mset rows = mset (filteredProposals (search s) (dao_proposals allProposals))"
    by (simp add: rows_def dao_rows_def mset_sortedProposals Let_def)
  have part2: "paged rows ((onLoadMore ^^ k) s) = take (visibleCount s + k * PROPOSALS_PAGE_SIZE) rows"
    if "viewMode s = InfiniteView"
    using that by (simp add: paged_def view_after visible_after js_slice_0 nat_int_add del: of_nat_add)
  have "\<not> hasNextPage rows ((onLoadMore ^^ length rows) s)"
    by (simp add: hasNextPage_def visible_after PROPOSALS_PAGE_SIZE_def)
  then have part3: "\<exists>k. \<not> hasNextPage rows ((onLoadMore ^^ k) s)" ..
  have part4: "concat (map (\<lambda>p. paged rows (s\<lparr>page_index := p\<rparr>)) [1..<Suc n]) = rows"
    if "viewMode s = PaginationView" "length rows \<le> n * pageSize s"
  proof -
    have page: "paged rows (s\<lparr>page_index := p\<rparr>) = page_of p (pageSize s) rows" if "1 \<le> p" for p
      using js_slice_page_of [OF that, of rows "pageSize s"] \<open>viewMode s = PaginationView\<close>
      by (simp add: paged_def Let_def algebra_simps)
    have "map (\<lambda>p. paged rows (s\<lparr>page_index := p\<rparr>)) [1..<Suc n] =
        map (\<lambda>p. page_of p (pageSize s) rows) [1..<Suc n]"
      by (rule map_cong [OF refl], rule page) auto
    then show ?thesis using concat_all_pages [OF that(2)] by (simp only:)
  qed
  show ?thesis using part1 part2 part3 part4 by blast
qed

section \<open>Sample page\<close>

definition sample_proposal :: "string \<Rightarrow> int \<Rightarrow> dao_proposal" where
  "sample_proposal h yes =
     \<lparr>dr_hash = Some h, dr_name = Some (''Proposal '' @ h), dr_type = Some ''Proposal'', dr_address = None,
      dr_yes = Some yes, dr_no = None, dr_created = None, dr_amount = None\<rparr>"

definition sample_list :: "dao_proposal list" where
  "sample_list = [sample_proposal ''a'' 3, sample_proposal ''b'' 9]"

lemma sample_hashed: "hashed sample_list"
  by (simp add: hashed_def sample_list_def sample_proposal_def)

lemma ranks_follow_votes_witness:
  "\<exists>rank. map_of (rankMap 5 sample_list) ''b'' = Some (rank (sample_proposal ''b'' 9), True) \<and>
     rank (sample_proposal ''b'' 9) < rank (sample_proposal ''a'' 3)"
proof -
  have members: "sample_proposal ''b'' 9 \<in> set sample_list" "sample_proposal ''a'' 3 \<in> set sample_list"
    by (simp_all add: sample_list_def)
  have votes: "net_votes (sample_proposal h v) = v" "dr_hash (sample_proposal h v) = Some h" for h v
    by (simp_all add: net_votes_def sample_proposal_def)
  obtain rank where "\<forall>p \<in> set sample_list.
      map_of (rankMap 5 sample_list) (the (dr_hash p)) = Some (rank p, 5 \<le> net_votes p)"
    "\<forall>p \<in> set sample_list. \<forall>q \<in> set sample_list. net_votes q < net_votes p \<longrightarrow> rank p < rank q"
    using ranks_follow_votes [OF sample_hashed, of 5] by blast
  then have "map_of (rankMap 5 sample_list) ''b'' = Some (rank (sample_proposal ''b'' 9), True)"
    "rank (sample_proposal ''b'' 9) < rank (sample_proposal ''a'' 3)"
    using members votes(1) votes(2) [of "''b''" 9] by (fastforce, simp)
  then show ?thesis by blast
qed

definition sample_dao_env :: dao_env where
  "sample_dao_env = \<lparr>de_collate = (\<lambda>_ _. 0), de_parse = (\<lambda>_. 0)\<rparr>"

definition searching :: dao_state where
  "searching = handleSearchChange ''B'' (dao_initial PaginationView)"

lemma searching_reachable: "dao_reachable searching"
  unfolding searching_def by (rule dao_reachable.intros(2) [OF dao_reachable.intros(1) dao_step.intros(2)])

lemma every_proposal_reachable_witness:
  "mset (dao_rows sample_dao_env 5 (Some sample_list) searching) =
     mset (filteredProposals ''B'' (dao_proposals (Some sample_list)))
   \<and> (\<exists>k. \<not> hasNextPage (dao_rows sample_dao_env 5 (Some sample_list) searching) ((onLoadMore ^^ k) searching))"
  using every_proposal_reachable [OF searching_reachable, where allProposals = "Some sample_list"
      and e = sample_dao_env and required = 5]
  by (simp add: searching_def handleSearchChange_def)

end
