(* ===== verification/Countries.thy ===== *)
theory Countries
  imports Routes
begin

text \<open>
  The countries of the maps, \<open>frontend/src/themes/neo/components/masternode-map/iso-codes.ts\<close>: the
  numeric codes of the shapes of the world map, the two-letter codes and names of the countries,
  their flags and the text of a place. The codes are compared with those that the API accepts as
  a filter. Texts beyond ASCII are kept as their UTF-8 bytes.
\<close>

section \<open>Tables\<close>

definition numeric_codes_1 :: "(string \<times> string) list" where
  "numeric_codes_1 =
     [(''004'', ''AF''), (''008'', ''AL''), (''010'', ''AQ''), (''012'', ''DZ''),
      (''016'', ''AS''), (''020'', ''AD''), (''024'', ''AO''), (''028'', ''AG''),
      (''031'', ''AZ''), (''032'', ''AR''), (''036'', ''AU''), (''040'', ''AT''),
      (''044'', ''BS''), (''048'', ''BH''), (''050'', ''BD''), (''051'', ''AM''),
      (''052'', ''BB''), (''056'', ''BE''), (''060'', ''BM''), (''064'', ''BT''),
      (''068'', ''BO''), (''070'', ''BA''), (''072'', ''BW''), (''074'', ''BV''),
      (''076'', ''BR''), (''084'', ''BZ''), (''086'', ''IO''), (''090'', ''SB''),
      (''092'', ''VG''), (''096'', ''BN''), (''100'', ''BG''), (''104'', ''MM''),
      (''108'', ''BI''), (''112'', ''BY''), (''116'', ''KH''), (''120'', ''CM''),
      (''124'', ''CA''), (''132'', ''CV''), (''136'', ''KY''), (''140'', ''CF''),
      (''144'', ''LK''), (''148'', ''TD''), (''152'', ''CL''), (''156'', ''CN''),
      (''158'', ''TW''), (''162'', ''CX''), (''166'', ''CC''), (''170'', ''CO''),
      (''174'', ''KM''), (''175'', ''YT''), (''178'', ''CG''), (''180'', ''CD''),
      (''184'', ''CK''), (''188'', ''CR''), (''191'', ''HR''), (''192'', ''CU''),
      (''196'', ''CY''), (''203'', ''CZ''), (''204'', ''BJ''), (''208'', ''DK''),
      (''212'', ''DM''), (''214'', ''DO''), (''218'', ''EC''), (''222'', ''SV''),
      (''226'', ''GQ''), (''231'', ''ET''), (''232'', ''ER''), (''233'', ''EE''),
      (''234'', ''FO''), (''238'', ''FK''), (''239'', ''GS''), (''242'', ''FJ''),
      (''246'', ''FI''), (''248'', ''AX''), (''250'', ''FR''), (''254'', ''GF''),
      (''258'', ''PF''), (''260'', ''TF''), (''262'', ''DJ''), (''266'', ''GA''),
      (''268'', ''GE''), (''270'', ''GM''), (''275'', ''PS''), (''276'', ''DE''),
      (''288'', ''GH''), (''292'', ''GI''), (''296'', ''KI''), (''300'', ''GR''),
      (''304'', ''GL''), (''308'', ''GD''), (''312'', ''GP''), (''316'', ''GU''),
      (''320'', ''GT''), (''324'', ''GN''), (''328'', ''GY''), (''332'', ''HT''),
      (''334'', ''HM''), (''336'', ''VA''), (''340'', ''HN''), (''344'', ''HK''),
      (''348'', ''HU''), (''352'', ''IS''), (''356'', ''IN''), (''360'', ''ID''),
      (''364'', ''IR''), (''368'', ''IQ''), (''372'', ''IE''), (''376'', ''IL''),
      (''380'', ''IT''), (''384'', ''CI''), (''388'', ''JM''), (''392'', ''JP''),
      (''398'', ''KZ''), (''400'', ''JO''), (''404'', ''KE''), (''408'', ''KP''),
      (''410'', ''KR''), (''414'', ''KW''), (''417'', ''KG''), (''418'', ''LA''),
      (''422'', ''LB''), (''426'', ''LS''), (''428'', ''LV''), (''430'', ''LR''),
      (''434'', ''LY''), (''438'', ''LI''), (''440'', ''LT''), (''442'', ''LU''),
      (''446'', ''MO''), (''450'', ''MG'')]"

definition numeric_codes_2 :: "(string \<times> string) list" where
  "numeric_codes_2 =
     [(''454'', ''MW''), (''458'', ''MY''), (''462'', ''MV''), (''466'', ''ML''),
      (''470'', ''MT''), (''474'', ''MQ''), (''478'', ''MR''), (''480'', ''MU''),
      (''484'', ''MX''), (''492'', ''MC''), (''496'', ''MN''), (''498'', ''MD''),
      (''499'', ''ME''), (''500'', ''MS''), (''504'', ''MA''), (''508'', ''MZ''),
      (''512'', ''OM''), (''516'', ''NA''), (''520'', ''NR''), (''524'', ''NP''),
      (''528'', ''NL''), (''531'', ''CW''), (''533'', ''AW''), (''534'', ''SX''),
      (''535'', ''BQ''), (''540'', ''NC''), (''548'', ''VU''), (''554'', ''NZ''),
      (''558'', ''NI''), (''562'', ''NE''), (''566'', ''NG''), (''570'', ''NU''),
      (''574'', ''NF''), (''578'', ''NO''), (''580'', ''MP''), (''581'', ''UM''),
      (''583'', ''FM''), (''584'', ''MH''), (''585'', ''PW''), (''586'', ''PK''),
      (''591'', ''PA''), (''598'', ''PG''), (''600'', ''PY''), (''604'', ''PE''),
      (''608'', ''PH''), (''612'', ''PN''), (''616'', ''PL''), (''620'', ''PT''),
      (''624'', ''GW''), (''626'', ''TL''), (''630'', ''PR''), (''634'', ''QA''),
      (''638'', ''RE''), (''642'', ''RO''), (''643'', ''RU''), (''646'', ''RW''),
      (''652'', ''BL''), (''654'', ''SH''), (''659'', ''KN''), (''660'', ''AI''),
      (''662'', ''LC''), (''663'', ''MF''), (''666'', ''PM''), (''670'', ''VC''),
      (''674'', ''SM''), (''678'', ''ST''), (''682'', ''SA''), (''686'', ''SN''),
      (''688'', ''RS''), (''690'', ''SC''), (''694'', ''SL''), (''702'', ''SG''),
      (''703'', ''SK''), (''704'', ''VN''), (''705'', ''SI''), (''706'', ''SO''),
      (''710'', ''ZA''), (''716'', ''ZW''), (''724'', ''ES''), (''728'', ''SS''),
      (''729'', ''SD''), (''732'', ''EH''), (''740'', ''SR''), (''744'', ''SJ''),
      (''748'', ''SZ''), (''752'', ''SE''), (''756'', ''CH''), (''760'', ''SY''),
      (''762'', ''TJ''), (''764'', ''TH''), (''768'', ''TG''), (''772'', ''TK''),
      (''776'', ''TO''), (''780'', ''TT''), (''784'', ''AE''), (''788'', ''TN''),
      (''792'', ''TR''), (''795'', ''TM''), (''796'', ''TC''), (''798'', ''TV''),
      (''800'', ''UG''), (''804'', ''UA''), (''807'', ''MK''), (''818'', ''EG''),
      (''826'', ''GB''), (''831'', ''GG''), (''832'', ''JE''), (''833'', ''IM''),
      (''834'', ''TZ''), (''840'', ''US''), (''850'', ''VI''), (''854'', ''BF''),
      (''858'', ''UY''), (''860'', ''UZ''), (''862'', ''VE''), (''876'', ''WF''),
      (''882'', ''WS''), (''887'', ''YE''), (''894'', ''ZM'')]"

definition country_names_1 :: "(string \<times> string) list" where
  "country_names_1 =
     [(''AD'', ''Andorra''), (''AE'', ''United Arab Emirates''),
      (''AF'', ''Afghanistan''), (''AG'', ''Antigua''),
      (''AI'', ''Anguilla''), (''AL'', ''Albania''),
      (''AM'', ''Armenia''), (''AO'', ''Angola''),
      (''AQ'', ''Antarctica''), (''AR'', ''Argentina''),
      (''AS'', ''American Samoa''), (''AT'', ''Austria''),
      (''AU'', ''Australia''), (''AW'', ''Aruba''),
      (''AX'', [CHR 0xC3, CHR 0x85] @ ''land''), (''AZ'', ''Azerbaijan''),
      (''BA'', ''Bosnia & Herzegovina''), (''BB'', ''Barbados''),
      (''BD'', ''Bangladesh''), (''BE'', ''Belgium''),
      (''BF'', ''Burkina Faso''), (''BG'', ''Bulgaria''),
      (''BH'', ''Bahrain''), (''BI'', ''Burundi''),
      (''BJ'', ''Benin''), (''BL'', ''St. Barth'' @ [CHR 0xC3, CHR 0xA9] @ ''lemy''),
      (''BM'', ''Bermuda''), (''BN'', ''Brunei''),
      (''BO'', ''Bolivia''), (''BQ'', ''Caribbean NL''),
      (''BR'', ''Brazil''), (''BS'', ''Bahamas''),
      (''BT'', ''Bhutan''), (''BW'', ''Botswana''),
      (''BY'', ''Belarus''), (''BZ'', ''Belize''),
      (''CA'', ''Canada''), (''CC'', ''Cocos Islands''),
      (''CD'', ''DR Congo''), (''CF'', ''Central African Rep.''),
      (''CG'', ''Congo''), (''CH'', ''Switzerland''),
      (''CI'', ''C'' @ [CHR 0xC3, CHR 0xB4] @ ''te d'' @ [CHR 0x27] @ ''Ivoire''), (''CK'', ''Cook Islands''),
      (''CL'', ''Chile''), (''CM'', ''Cameroon''),
      (''CN'', ''China''), (''CO'', ''Colombia''),
      (''CR'', ''Costa Rica''), (''CU'', ''Cuba''),
      (''CV'', ''Cabo Verde''), (''CW'', ''Cura'' @ [CHR 0xC3, CHR 0xA7] @ ''ao''),
      (''CX'', ''Christmas Island''), (''CY'', ''Cyprus''),
      (''CZ'', ''Czechia''), (''DE'', ''Germany''),
      (''DJ'', ''Djibouti''), (''DK'', ''Denmark''),
      (''DM'', ''Dominica''), (''DO'', ''Dominican Rep.''),
      (''DZ'', ''Algeria''), (''EC'', ''Ecuador''),
      (''EE'', ''Estonia''), (''EG'', ''Egypt''),
      (''EH'', ''W. Sahara''), (''ER'', ''Eritrea''),
      (''ES'', ''Spain''), (''ET'', ''Ethiopia''),
      (''FI'', ''Finland''), (''FJ'', ''Fiji''),
      (''FK'', ''Falkland Is.''), (''FM'', ''Micronesia''),
      (''FO'', ''Faroe Is.''), (''FR'', ''France''),
      (''GA'', ''Gabon''), (''GB'', ''United Kingdom''),
      (''GD'', ''Grenada''), (''GE'', ''Georgia''),
      (''GF'', ''French Guiana''), (''GG'', ''Guernsey''),
      (''GH'', ''Ghana''), (''GI'', ''Gibraltar''),
      (''GL'', ''Greenland''), (''GM'', ''Gambia''),
      (''GN'', ''Guinea''), (''GP'', ''Guadeloupe''),
      (''GQ'', ''Eq. Guinea''), (''GR'', ''Greece''),
      (''GT'', ''Guatemala''), (''GU'', ''Guam''),
      (''GW'', ''Guinea-Bissau''), (''GY'', ''Guyana''),
      (''HK'', ''Hong Kong''), (''HN'', ''Honduras''),
      (''HR'', ''Croatia''), (''HT'', ''Haiti''),
      (''HU'', ''Hungary''), (''ID'', ''Indonesia''),
      (''IE'', ''Ireland''), (''IL'', ''Israel''),
      (''IM'', ''Isle of Man''), (''IN'', ''India''),
      (''IO'', ''Br. Indian Ocean''), (''IQ'', ''Iraq''),
      (''IR'', ''Iran''), (''IS'', ''Iceland''),
      (''IT'', ''Italy''), (''JE'', ''Jersey''),
      (''JM'', ''Jamaica''), (''JO'', ''Jordan''),
      (''JP'', ''Japan''), (''KE'', ''Kenya''),
      (''KG'', ''Kyrgyzstan''), (''KH'', ''Cambodia''),
      (''KI'', ''Kiribati''), (''KM'', ''Comoros''),
      (''KN'', ''St. Kitts''), (''KP'', ''North Korea''),
      (''KR'', ''South Korea''), (''KW'', ''Kuwait''),
      (''KY'', ''Cayman Is.''), (''KZ'', ''Kazakhstan''),
      (''LA'', ''Laos''), (''LB'', ''Lebanon''),
      (''LC'', ''St. Lucia''), (''LI'', ''Liechtenstein''),
      (''LK'', ''Sri Lanka''), (''LR'', ''Liberia''),
      (''LS'', ''Lesotho''), (''LT'', ''Lithuania'')]"

definition country_names_2 :: "(string \<times> string) list" where
  "country_names_2 =
     [(''LU'', ''Luxembourg''), (''LV'', ''Latvia''),
      (''LY'', ''Libya''), (''MA'', ''Morocco''),
      (''MC'', ''Monaco''), (''MD'', ''Moldova''),
      (''ME'', ''Montenegro''), (''MF'', ''St. Martin''),
      (''MG'', ''Madagascar''), (''MH'', ''Marshall Is.''),
      (''MK'', ''N. Macedonia''), (''ML'', ''Mali''),
      (''MM'', ''Myanmar''), (''MN'', ''Mongolia''),
      (''MO'', ''Macao''), (''MP'', ''N. Mariana Is.''),
      (''MQ'', ''Martinique''), (''MR'', ''Mauritania''),
      (''MS'', ''Montserrat''), (''MT'', ''Malta''),
      (''MU'', ''Mauritius''), (''MV'', ''Maldives''),
      (''MW'', ''Malawi''), (''MX'', ''Mexico''),
      (''MY'', ''Malaysia''), (''MZ'', ''Mozambique''),
      (''NA'', ''Namibia''), (''NC'', ''New Caledonia''),
      (''NE'', ''Niger''), (''NF'', ''Norfolk Is.''),
      (''NG'', ''Nigeria''), (''NI'', ''Nicaragua''),
      (''NL'', ''Netherlands''), (''NO'', ''Norway''),
      (''NP'', ''Nepal''), (''NR'', ''Nauru''),
      (''NU'', ''Niue''), (''NZ'', ''New Zealand''),
      (''OM'', ''Oman''), (''PA'', ''Panama''),
      (''PE'', ''Peru''), (''PF'', ''Fr. Polynesia''),
      (''PG'', ''Papua New Guinea''), (''PH'', ''Philippines''),
      (''PK'', ''Pakistan''), (''PL'', ''Poland''),
      (''PM'', ''St. Pierre''), (''PN'', ''Pitcairn''),
      (''PR'', ''Puerto Rico''), (''PS'', ''Palestine''),
      (''PT'', ''Portugal''), (''PW'', ''Palau''),
      (''PY'', ''Paraguay''), (''QA'', ''Qatar''),
      (''RE'', ''R'' @ [CHR 0xC3, CHR 0xA9] @ ''union''), (''RO'', ''Romania''),
      (''RS'', ''Serbia''), (''RU'', ''Russia''),
      (''RW'', ''Rwanda''), (''SA'', ''Saudi Arabia''),
      (''SB'', ''Solomon Is.''), (''SC'', ''Seychelles''),
      (''SD'', ''Sudan''), (''SE'', ''Sweden''),
      (''SG'', ''Singapore''), (''SH'', ''St. Helena''),
      (''SI'', ''Slovenia''), (''SJ'', ''Svalbard''),
      (''SK'', ''Slovakia''), (''SL'', ''Sierra Leone''),
      (''SM'', ''San Marino''), (''SN'', ''Senegal''),
      (''SO'', ''Somalia''), (''SR'', ''Suriname''),
      (''SS'', ''South Sudan''), (''ST'', ''S'' @ [CHR 0xC3, CHR 0xA3] @ ''o Tom'' @ [CHR 0xC3, CHR 0xA9]),
      (''SV'', ''El Salvador''), (''SX'', ''Sint Maarten''),
      (''SY'', ''Syria''), (''SZ'', ''Eswatini''),
      (''TC'', ''Turks & Caicos''), (''TD'', ''Chad''),
      (''TF'', ''Fr. S. Antarctic''), (''TG'', ''Togo''),
      (''TH'', ''Thailand''), (''TJ'', ''Tajikistan''),
      (''TK'', ''Tokelau''), (''TL'', ''Timor-Leste''),
      (''TM'', ''Turkmenistan''), (''TN'', ''Tunisia''),
      (''TO'', ''Tonga''), (''TR'', ''Turkey''),
      (''TT'', ''Trinidad''), (''TV'', ''Tuvalu''),
      (''TW'', ''Taiwan''), (''TZ'', ''Tanzania''),
      (''UA'', ''Ukraine''), (''UG'', ''Uganda''),
      (''UM'', ''U.S. Minor Is.''), (''US'', ''United States''),
      (''UY'', ''Uruguay''), (''UZ'', ''Uzbekistan''),
      (''VA'', ''Vatican''), (''VC'', ''St. Vincent''),
      (''VE'', ''Venezuela''), (''VG'', ''Br. Virgin Is.''),
      (''VI'', ''U.S. Virgin Is.''), (''VN'', ''Vietnam''),
      (''VU'', ''Vanuatu''), (''WF'', ''Wallis & Futuna''),
      (''WS'', ''Samoa''), (''YE'', ''Yemen''),
      (''YT'', ''Mayotte''), (''ZA'', ''South Africa''),
      (''ZM'', ''Zambia''), (''ZW'', ''Zimbabwe'')]"

definition NUMERIC_TO_ALPHA2 :: "(string \<times> string) list" where
  "NUMERIC_TO_ALPHA2 = numeric_codes_1 @ numeric_codes_2"

definition ALPHA2_NAMES :: "(string \<times> string) list" where
  "ALPHA2_NAMES = country_names_1 @ country_names_2"

section \<open>Operations\<close>

datatype shape_id = TextId string | NumberId nat

fun shape_text :: "shape_id \<Rightarrow> string" where
  "shape_text (TextId s) = s"
| "shape_text (NumberId n) = dec_nat n"

definition alpha2FromNumeric :: "shape_id js \<Rightarrow> string option" where
  "alpha2FromNumeric i =
     (case or_null i of None \<Rightarrow> None
      | Some x \<Rightarrow> map_of NUMERIC_TO_ALPHA2 (pad_left 3 (shape_text x)))"

definition countryName :: "string \<Rightarrow> string" where
  "countryName alpha2 = or_else (map_of ALPHA2_NAMES (js_upper alpha2)) (js_upper alpha2)"

text \<open>The code points of the flag: two regional indicators, or a white flag.\<close>

definition countryFlagEmoji :: "string \<Rightarrow> int list" where
  "countryFlagEmoji alpha2 =
     (let cc = js_upper alpha2 in
      case cc of
        [a, b] \<Rightarrow> [0x1F1E6 + (of_char a - 65), 0x1F1E6 + (of_char b - 65)]
      | _ \<Rightarrow> [0x1F3F3])"

definition formatLocation :: "string \<Rightarrow> string \<Rightarrow> string" where
  "formatLocation city country =
     (if city \<noteq> [] then city @ '', '' @ countryName country else countryName country)"

section \<open>The same countries everywhere\<close>

text \<open>A two-letter code as a number, and a three-digit one.\<close>

definition code_number :: "string \<Rightarrow> int" where
  "code_number s = foldl (\<lambda>n c. 256 * n + of_char c) 0 s"

fun increasing :: "int list \<Rightarrow> bool" where
  "increasing (x # y # xs) \<longleftrightarrow> x < y \<and> increasing (y # xs)"
| "increasing _ \<longleftrightarrow> True"

lemma increasing_Cons: "increasing (x # xs) \<Longrightarrow> (\<forall>y \<in> set xs. x < y) \<and> increasing xs"
proof (induction xs arbitrary: x)
  case (Cons y ys)
  then have "x < y" "\<forall>z \<in> set ys. y < z" "increasing (y # ys)" by auto
  then show ?case by auto
qed simp

lemma increasing_distinct: "increasing xs \<Longrightarrow> distinct xs"
proof (induction xs)
  case (Cons x xs)
  then show ?case using increasing_Cons [OF Cons.prems] by auto
qed simp

lemma numeric_increasing: "increasing (map (\<lambda>e. code_number (fst e)) NUMERIC_TO_ALPHA2)"
  by code_simp

text \<open>Merging in rounds, so that the codes can be put into order by evaluation.\<close>

fun merge :: "int list \<Rightarrow> int list \<Rightarrow> int list" where
  "merge [] ys = ys"
| "merge xs [] = xs"
| "merge (x # xs) (y # ys) = (if x \<le> y then x # merge xs (y # ys) else y # merge (x # xs) ys)"

fun merge_pairs :: "int list list \<Rightarrow> int list list" where
  "merge_pairs (xs # ys # zss) = merge xs ys # merge_pairs zss"
| "merge_pairs xss = xss"

lemma mset_merge: "mset (merge xs ys) = mset xs + mset ys"
  by (induction xs ys rule: merge.induct) auto

lemma mset_merge_pairs: "mset (concat (merge_pairs xss)) = mset (concat xss)"
  by (induction xss rule: merge_pairs.induct) (auto simp: mset_merge)

definition in_order :: "int list \<Rightarrow> int list" where
  "in_order xs = concat (merge_pairs (merge_pairs (merge_pairs (merge_pairs (merge_pairs (merge_pairs
     (merge_pairs (merge_pairs (map (\<lambda>x. [x]) xs)))))))))"

lemma mset_in_order: "mset (in_order xs) = mset xs"
  by (simp add: in_order_def mset_merge_pairs)

lemma codes_sorted:
  "in_order (map (\<lambda>e. code_number (snd e)) NUMERIC_TO_ALPHA2) = map code_number country_codes"
  by code_simp

lemma two_letters: "list_all (\<lambda>s. length s = 2) (map snd NUMERIC_TO_ALPHA2)" "list_all (\<lambda>s. length s = 2) country_codes"
  by code_simp+

lemma codes_increasing: "increasing (map code_number country_codes)"
  by code_simp

lemma code_number_inj:
  assumes "length s = 2" "length t = 2" "code_number s = code_number t"
  shows "s = t"
proof -
  obtain a b c d where st: "s = [a, b]" "t = [c, d]"
    using assms(1,2) by (auto simp: numeral_2_eq_2 length_Suc_conv)
  have range: "0 \<le> (of_char x :: int)" "(of_char x :: int) < 256" for x
    using of_char_of [where ?'a = int] by (simp_all add: of_char_def horner_sum_nonnegative)
  have "256 * (of_char a :: int) + of_char b = 256 * of_char c + of_char d"
    using assms(3) st by (simp add: code_number_def)
  moreover from this have "(of_char a :: int) = of_char c"
    using range [of b] range [of d] by linarith
  ultimately show ?thesis by (simp add: st)
qed

lemma same_codes: "set (map snd NUMERIC_TO_ALPHA2) = set country_codes"
proof -
  have "mset (map code_number (map snd NUMERIC_TO_ALPHA2)) = mset (map code_number country_codes)"
    using mset_in_order [of "map (\<lambda>e. code_number (snd e)) NUMERIC_TO_ALPHA2"]
    by (simp only: codes_sorted map_map comp_def)
  then have image: "code_number ` set (map snd NUMERIC_TO_ALPHA2) = code_number ` set country_codes"
    by (metis mset_eq_setD set_map)
  have two: "length s = 2" if "s \<in> set (map snd NUMERIC_TO_ALPHA2) \<union> set country_codes" for s
    using that two_letters unfolding list_all_iff by blast
  have "inj_on code_number (set (map snd NUMERIC_TO_ALPHA2) \<union> set country_codes)"
    using two by (intro inj_onI code_number_inj) blast+
  from inj_on_image_eq_iff [OF this, of "set (map snd NUMERIC_TO_ALPHA2)" "set country_codes"] image
  show ?thesis by blast
qed

lemma distinct_codes: "distinct (map snd NUMERIC_TO_ALPHA2)" "distinct country_codes"
  "distinct (map fst NUMERIC_TO_ALPHA2)"
proof -
  show cc: "distinct country_codes"
    using increasing_distinct [OF codes_increasing] by (simp add: distinct_map)
  have "length (map snd NUMERIC_TO_ALPHA2) = length country_codes"
    using arg_cong [OF mset_in_order [of "map (\<lambda>e. code_number (snd e)) NUMERIC_TO_ALPHA2"], of size]
    by (simp only: codes_sorted size_mset length_map)
  then show "distinct (map snd NUMERIC_TO_ALPHA2)"
    using same_codes cc by (metis card_distinct distinct_card)
  show "distinct (map fst NUMERIC_TO_ALPHA2)"
    using increasing_distinct [OF numeric_increasing] by (simp add: distinct_map inj_on_def)
qed

text \<open>
  The map, the filters and the API mean the same countries. The shapes of the world map and
  the codes that the API accepts as a country filter correspond one to one, so that a click on any
  country gives a filter that the API takes and every accepted country can be clicked; and each of
  them but three uninhabited ones has a name of its own, the others are shown by their code.
\<close>

theorem countries_agree:
  "bij_betw (\<lambda>k. the (map_of NUMERIC_TO_ALPHA2 k)) (set (map fst NUMERIC_TO_ALPHA2)) (set country_codes)
   \<and> map fst ALPHA2_NAMES = filter (\<lambda>c. c \<noteq> ''BV'' \<and> c \<noteq> ''GS'' \<and> c \<noteq> ''HM'') country_codes
   \<and> countryName ''BV'' = ''BV''"
proof (intro conjI)
  let ?f = "\<lambda>k. the (map_of NUMERIC_TO_ALPHA2 k)"
  have look: "?f (fst e) = snd e" if "e \<in> set NUMERIC_TO_ALPHA2" for e
    using map_of_is_SomeI [OF distinct_codes(3), of "fst e" "snd e"] that by simp
  have "inj_on ?f (set (map fst NUMERIC_TO_ALPHA2))"
  proof (rule inj_onI)
    fix k l assume "k \<in> set (map fst NUMERIC_TO_ALPHA2)" "l \<in> set (map fst NUMERIC_TO_ALPHA2)" "?f k = ?f l"
    then obtain d e where de: "d \<in> set NUMERIC_TO_ALPHA2" "e \<in> set NUMERIC_TO_ALPHA2"
      "k = fst d" "l = fst e" "snd d = snd e"
      using look by auto
    then have "d = e" using distinct_codes(1) by (auto simp: distinct_map inj_on_def)
    then show "k = l" by (simp add: de)
  qed
  moreover have "?f ` set (map fst NUMERIC_TO_ALPHA2) = set country_codes"
  proof -
    have "?f ` fst ` set NUMERIC_TO_ALPHA2 = snd ` set NUMERIC_TO_ALPHA2"
      unfolding image_image using look by (rule image_cong [OF refl])
    then show ?thesis by (simp only: set_map same_codes [unfolded set_map])
  qed
  ultimately show "bij_betw ?f (set (map fst NUMERIC_TO_ALPHA2)) (set country_codes)"
    by (simp add: bij_betw_def)
  show named: "map fst ALPHA2_NAMES = filter (\<lambda>c. c \<noteq> ''BV'' \<and> c \<noteq> ''GS'' \<and> c \<noteq> ''HM'') country_codes"
    by code_simp
  have "''BV'' \<notin> set (map fst ALPHA2_NAMES)" unfolding named by simp
  then have "map_of ALPHA2_NAMES ''BV'' = None" by (simp add: map_of_eq_None_iff)
  moreover have "js_upper ''BV'' = ''BV''" by code_simp
  ultimately show "countryName ''BV'' = ''BV''" by (simp only: countryName_def or_else.simps)
qed

end
