(* ===== verification/FlowGraph.thy ===== *)
theory FlowGraph
  imports Format
begin

text \<open>
  The drawing of a transaction, \<open>frontend/src/themes/neo/components/transaction-flow.tsx\<close>: the boxes of the
  inputs on the left, those of the outputs on the right, and the edges that join them in the middle,
  thicker for larger amounts. Lengths are rationals; \<open>Math.sqrt\<close>, which the language leaves to the
  implementation, is a parameter, and the rounding of the widths to doubles is left aside.
\<close>

section \<open>Boxes and edges\<close>

record InputNodeData =
  in_index :: nat
  in_address :: "string option"
  in_amount :: "int option"
  in_prevTxHash :: "string option"
  in_vOutIndex :: "int option"
  in_isCoinbase :: bool

record OutputNodeData =
  out_index :: int
  out_address :: "string option"
  out_amount :: int
  out_scriptPubKeyASM :: string

datatype node_data = TxIn InputNodeData | TxOut OutputNodeData | Junction

record FlowNode =
  node_id :: string
  node_x :: rat
  node_y :: rat
  node_width :: rat
  node_height :: rat
  node_data :: node_data

record FlowEdge =
  edge_id :: string
  edge_source :: string
  edge_target :: string
  edge_colour :: string
  edge_strokeWidth :: rat
  edge_opacity :: rat

record flow_graph =
  flow_nodes :: "FlowNode list"
  flow_edges :: "FlowEdge list"
  flow_height :: rat
  flow_width :: rat

definition ellipsis :: string where "ellipsis = [CHR 0xE2, CHR 0x80, CHR 0xA6]"

definition truncateAddress :: "string \<Rightarrow> nat \<Rightarrow> nat \<Rightarrow> string" where
  "truncateAddress value front back =
     (if length value \<le> front + back + 1 then value
      else take front value @ ellipsis @ drop (length value - back) value)"

text \<open>What a box says of its input or output, and of the output an input spends.\<close>

definition input_label :: "InputNodeData \<Rightarrow> string" where
  "input_label d =
     (if in_isCoinbase d then ''Coinbase''
      else if in_address d \<noteq> None \<and> in_address d \<noteq> Some [] then truncateAddress (the (in_address d)) 6 6
      else ''No address'')"

definition input_origin :: "InputNodeData \<Rightarrow> string option" where
  "input_origin d =
     (case in_prevTxHash d of
        None \<Rightarrow> None
      | Some h \<Rightarrow>
          if h = [] then None
          else Some (take 8 h @ ellipsis @ '':'' @ dec_int (or_else (in_vOutIndex d) 0)))"

definition output_label :: "OutputNodeData \<Rightarrow> string" where
  "output_label d =
     (if starts_with (out_scriptPubKeyASM d) ''OP_RETURN'' then ''OP_RETURN''
      else if out_address d \<noteq> None \<and> out_address d \<noteq> Some [] then truncateAddress (the (out_address d)) 6 6
      else ''No address'')"

section \<open>The layout\<close>

definition NODE_WIDTH :: rat where "NODE_WIDTH = 320"
definition NODE_HEIGHT :: rat where "NODE_HEIGHT = 52"
definition NODE_GAP :: rat where "NODE_GAP = 8"
definition COLUMN_GAP :: rat where "COLUMN_GAP = 200"
definition JUNCTION_SIZE :: rat where "JUNCTION_SIZE = 12"
definition Y_PADDING :: rat where "Y_PADDING = 12"

lemmas layout_consts = NODE_WIDTH_def NODE_HEIGHT_def NODE_GAP_def COLUMN_GAP_def JUNCTION_SIZE_def Y_PADDING_def

definition allAmounts :: "ApiVIn list \<Rightarrow> ApiVOut list \<Rightarrow> int list" where
  "allAmounts inputs outputs = map (\<lambda>v. or_else (vi_amount v) 0) inputs @ map vo_value outputs"

definition maxAmount :: "ApiVIn list \<Rightarrow> ApiVOut list \<Rightarrow> int" where
  "maxAmount inputs outputs = foldl max 1 (allAmounts inputs outputs)"

text \<open>The width and the opacity of an edge.\<close>

definition weightFor :: "(rat \<Rightarrow> rat) \<Rightarrow> int \<Rightarrow> int \<Rightarrow> rat \<times> rat" where
  "weightFor msqrt largest value =
     (let ratio = msqrt (of_int (max 0 value) / of_int largest) in
      (1 + (9 / 2 - 1) * ratio, 35 / 100 + (95 / 100 - 35 / 100) * ratio))"

definition column_height :: "nat \<Rightarrow> rat" where
  "column_height n =
     (if n = 0 then NODE_HEIGHT else of_nat n * NODE_HEIGHT + (of_nat n - 1) * NODE_GAP)"

definition input_node :: "rat \<Rightarrow> nat \<times> ApiVIn \<Rightarrow> FlowNode" where
  "input_node startY ix =
     (let (i, v) = ix in
      \<lparr>node_id = ''in-'' @ dec_nat i, node_x = 0, node_y = startY + of_nat i * (NODE_HEIGHT + NODE_GAP),
       node_width = NODE_WIDTH, node_height = NODE_HEIGHT,
       node_data = TxIn \<lparr>in_index = i, in_address = vi_address v, in_amount = vi_amount v,
         in_prevTxHash = vi_prevTxHash v, in_vOutIndex = vi_vOutIndex v,
         in_isCoinbase = (vi_prevTxHash v = None \<or> vi_prevTxHash v = Some [])\<rparr>\<rparr>)"

definition input_edge :: "(int \<Rightarrow> rat \<times> rat) \<Rightarrow> nat \<times> ApiVIn \<Rightarrow> FlowEdge" where
  "input_edge weight ix =
     (let (i, v) = ix; (w, op) = weight (or_else (vi_amount v) 0) in
      \<lparr>edge_id = ''e-in-'' @ dec_nat i, edge_source = ''in-'' @ dec_nat i, edge_target = ''junction'',
       edge_colour = ''#4c7eff'', edge_strokeWidth = w, edge_opacity = op\<rparr>)"

definition output_node :: "rat \<Rightarrow> nat \<times> ApiVOut \<Rightarrow> FlowNode" where
  "output_node startY ix =
     (let (i, v) = ix in
      \<lparr>node_id = ''out-'' @ dec_nat i, node_x = NODE_WIDTH + COLUMN_GAP,
       node_y = startY + of_nat i * (NODE_HEIGHT + NODE_GAP),
       node_width = NODE_WIDTH, node_height = NODE_HEIGHT,
       node_data = TxOut \<lparr>out_index = vo_number v, out_address = vo_address v, out_amount = vo_value v,
         out_scriptPubKeyASM = vo_scriptPubKeyASM v\<rparr>\<rparr>)"

definition output_edge :: "(int \<Rightarrow> rat \<times> rat) \<Rightarrow> nat \<times> ApiVOut \<Rightarrow> FlowEdge" where
  "output_edge weight ix =
     (let (i, v) = ix; (w, op) = weight (vo_value v) in
      \<lparr>edge_id = ''e-out-'' @ dec_nat i, edge_source = ''junction'', edge_target = ''out-'' @ dec_nat i,
       edge_colour = ''#95bf40'', edge_strokeWidth = w, edge_opacity = op\<rparr>)"

definition buildNodesAndEdges ::
  "(rat \<Rightarrow> rat) \<Rightarrow> ApiVIn list js \<Rightarrow> ApiVOut list js \<Rightarrow> flow_graph" where
  "buildNodesAndEdges msqrt vIns vOuts =
     (let inputs = coalesce vIns []; outputs = coalesce vOuts [];
          weight = weightFor msqrt (maxAmount inputs outputs);
          inputsHeight = column_height (length inputs);
          outputsHeight = column_height (length outputs);
          innerHeight = max inputsHeight outputsHeight;
          totalHeight = innerHeight + Y_PADDING * 2;
          inputsStartY = Y_PADDING + (innerHeight - inputsHeight) / 2;
          outputsStartY = Y_PADDING + (innerHeight - outputsHeight) / 2;
          junction = \<lparr>node_id = ''junction'',
            node_x = 0 + NODE_WIDTH + (COLUMN_GAP - JUNCTION_SIZE) / 2,
            node_y = totalHeight / 2 - JUNCTION_SIZE / 2,
            node_width = JUNCTION_SIZE, node_height = JUNCTION_SIZE, node_data = Junction\<rparr>
      in \<lparr>flow_nodes = map (input_node inputsStartY) (enumerate 0 inputs) @ [junction] @
              map (output_node outputsStartY) (enumerate 0 outputs),
          flow_edges = map (input_edge weight) (enumerate 0 inputs) @
              map (output_edge weight) (enumerate 0 outputs),
          flow_height = totalHeight, flow_width = NODE_WIDTH + COLUMN_GAP + NODE_WIDTH\<rparr>)"

section \<open>Nothing overlaps and nothing is cut off\<close>

definition inside :: "flow_graph \<Rightarrow> FlowNode \<Rightarrow> bool" where
  "inside g n \<longleftrightarrow>
     0 \<le> node_x n \<and> node_x n + node_width n \<le> flow_width g \<and>
     Y_PADDING \<le> node_y n \<and> node_y n + node_height n + Y_PADDING \<le> flow_height g"

definition apart :: "FlowNode \<Rightarrow> FlowNode \<Rightarrow> bool" where
  "apart a b \<longleftrightarrow>
     node_x a + node_width a < node_x b \<or> node_x b + node_width b < node_x a \<or>
     node_y a + node_height a < node_y b \<or> node_y b + node_height b < node_y a"

text \<open>The box at the outer end of an edge.\<close>

definition outer_end :: "FlowEdge \<Rightarrow> string" where
  "outer_end e = (if edge_source e = ''junction'' then edge_target e else edge_source e)"

definition joined :: "FlowEdge \<Rightarrow> bool" where
  "joined e \<longleftrightarrow> (edge_source e = ''junction'') \<noteq> (edge_target e = ''junction'')"

lemma of_nat_step: "i < n \<Longrightarrow> (of_nat i :: rat) + 1 \<le> of_nat n"
proof -
  assume "i < n"
  then have "(of_nat (Suc i) :: rat) \<le> of_nat n" by (simp only: of_nat_le_iff)
  then show ?thesis by simp
qed

lemma column_below: "i < n \<Longrightarrow> of_nat i * (NODE_HEIGHT + NODE_GAP) + NODE_HEIGHT \<le> column_height n"
proof -
  assume "i < n"
  with of_nat_step [OF this] show ?thesis by (simp add: column_height_def layout_consts algebra_simps)
qed

lemma column_height_min: "NODE_HEIGHT \<le> column_height n"
  by (cases n) (simp_all add: column_height_def layout_consts algebra_simps)

text \<open>The boxes of a column.\<close>

lemma column_apart:
  assumes "\<And>i v. node_y (f (i, v)) = startY + of_nat i * (NODE_HEIGHT + NODE_GAP)"
    "\<And>i v. node_height (f (i, v)) = NODE_HEIGHT"
  shows "sorted_wrt apart (map f (enumerate 0 vs))"
proof -
  have "apart (f (enumerate 0 vs ! i)) (f (enumerate 0 vs ! j))" if "i < j" "j < length vs" for i j
    using of_nat_step [OF that(1)] that
    by (simp add: nth_enumerate_eq apart_def assms layout_consts algebra_simps)
  then show ?thesis by (simp add: sorted_wrt_map sorted_wrt_iff_nth_less)
qed

lemma in_enumerate: "(i, v) \<in> set (enumerate 0 vs) \<Longrightarrow> i < length vs"
  by (auto simp: in_set_enumerate_eq)

lemma foldl_max_ge: "n \<le> foldl max n xs \<and> (\<forall>x \<in> set xs. x \<le> foldl max n (xs :: int list))"
proof (induction xs arbitrary: n)
  case (Cons x xs)
  from Cons.IH [of "max n x"] show ?case by auto
qed simp

lemma amounts_bounded:
  "1 \<le> maxAmount ins outs \<and> (\<forall>a \<in> set (allAmounts ins outs). a \<le> maxAmount ins outs)"
  unfolding maxAmount_def by (rule foldl_max_ge)

lemma edge_widths:
  "map edge_strokeWidth (flow_edges (buildNodesAndEdges msqrt (J ins) (J outs))) =
   map (\<lambda>a. fst (weightFor msqrt (maxAmount ins outs) a)) (allAmounts ins outs)"
  "map edge_opacity (flow_edges (buildNodesAndEdges msqrt (J ins) (J outs))) =
   map (\<lambda>a. snd (weightFor msqrt (maxAmount ins outs) a)) (allAmounts ins outs)"
  by (auto simp: buildNodesAndEdges_def Let_def allAmounts_def input_edge_def output_edge_def case_prod_beta
      intro!: nth_equalityI simp: nth_enumerate_eq)

lemma column_inside:
  assumes "i < n" "n = n' \<or> n = n''" "H = max (column_height n') (column_height n'')"
  shows "0 \<le> (H - column_height n) / 2"
    "(H - column_height n) / 2 + of_nat i * (NODE_HEIGHT + NODE_GAP) + NODE_HEIGHT \<le> H"
proof -
  have "column_height n \<le> H" using assms(2,3) by auto
  with column_below [OF assms(1)]
  show "0 \<le> (H - column_height n) / 2"
    "(H - column_height n) / 2 + of_nat i * (NODE_HEIGHT + NODE_GAP) + NODE_HEIGHT \<le> H"
    by (auto simp: field_simps)
qed

lemma column_start_nonneg: "0 \<le> (of_nat i :: rat) * (NODE_HEIGHT + NODE_GAP)"
  by (simp add: layout_consts)

lemma inside_nodes:
  "list_all (inside (buildNodesAndEdges msqrt (J ins) (J outs))) (flow_nodes (buildNodesAndEdges msqrt (J ins) (J outs)))"
proof -
  let ?g = "buildNodesAndEdges msqrt (J ins) (J outs)"
  define H where "H = max (column_height (length ins)) (column_height (length outs))"
  have size: "flow_height ?g = H + Y_PADDING * 2" "flow_width ?g = NODE_WIDTH + COLUMN_GAP + NODE_WIDTH"
    by (simp_all add: buildNodesAndEdges_def H_def Let_def)
  let ?in = "input_node (Y_PADDING + (H - column_height (length ins)) / 2)"
  let ?out = "output_node (Y_PADDING + (H - column_height (length outs)) / 2)"
  have "inside ?g (?in (i, v))" if "i < length ins" for i v
    using column_inside [OF that, of "length ins" "length outs" H] column_start_nonneg [of i]
    by (simp add: inside_def size input_node_def H_def) (simp add: layout_consts)
  moreover have "inside ?g (?out (i, v))" if "i < length outs" for i v
    using column_inside [OF that, of "length ins" "length outs" H] column_start_nonneg [of i]
    by (simp add: inside_def size output_node_def H_def) (simp add: layout_consts)
  moreover have "NODE_HEIGHT \<le> H" using column_height_min by (auto simp: H_def max_def)
  then have "inside ?g \<lparr>node_id = ''junction'', node_x = 0 + NODE_WIDTH + (COLUMN_GAP - JUNCTION_SIZE) / 2,
    node_y = (H + Y_PADDING * 2) / 2 - JUNCTION_SIZE / 2, node_width = JUNCTION_SIZE,
    node_height = JUNCTION_SIZE, node_data = Junction\<rparr>"
    by (simp add: inside_def size layout_consts field_simps)
  ultimately have "list_all (inside ?g) (map ?in (enumerate 0 ins) @
      [\<lparr>node_id = ''junction'', node_x = 0 + NODE_WIDTH + (COLUMN_GAP - JUNCTION_SIZE) / 2,
        node_y = (H + Y_PADDING * 2) / 2 - JUNCTION_SIZE / 2, node_width = JUNCTION_SIZE,
        node_height = JUNCTION_SIZE, node_data = Junction\<rparr>] @ map ?out (enumerate 0 outs))"
    by (auto simp only: list_all_iff set_append set_map list.set Un_iff image_iff insert_iff empty_iff dest: in_enumerate)
  then show ?thesis
    by (simp add: buildNodesAndEdges_def Let_def H_def)
qed

lemma nodes_apart: "sorted_wrt apart (flow_nodes (buildNodesAndEdges msqrt (J ins) (J outs)))"
proof -
  have "sorted_wrt apart (map (input_node y) (enumerate 0 ins))" for y
    by (rule column_apart) (simp_all add: input_node_def)
  moreover have "sorted_wrt apart (map (output_node y) (enumerate 0 outs))" for y
    by (rule column_apart) (simp_all add: output_node_def)
  ultimately show ?thesis
    by (auto simp: buildNodesAndEdges_def Let_def sorted_wrt_append apart_def input_node_def output_node_def
        layout_consts)
qed

lemma node_ids:
  "map node_id (flow_nodes (buildNodesAndEdges msqrt (J ins) (J outs))) =
   map (\<lambda>i. ''in-'' @ dec_nat i) [0..<length ins] @ [''junction''] @
   map (\<lambda>i. ''out-'' @ dec_nat i) [0..<length outs]"
  by (auto simp: buildNodesAndEdges_def Let_def input_node_def output_node_def
      intro!: nth_equalityI simp: nth_enumerate_eq)

lemma node_ids_distinct: "distinct (map node_id (flow_nodes (buildNodesAndEdges msqrt (J ins) (J outs))))"
  unfolding node_ids by (auto simp: distinct_map inj_on_def)

lemma outer_ends:
  "map outer_end (flow_edges (buildNodesAndEdges msqrt (J ins) (J outs))) =
   map (\<lambda>i. ''in-'' @ dec_nat i) [0..<length ins] @ map (\<lambda>i. ''out-'' @ dec_nat i) [0..<length outs]"
  by (auto simp: buildNodesAndEdges_def Let_def input_edge_def output_edge_def outer_end_def case_prod_beta
      intro!: nth_equalityI simp: nth_enumerate_eq)

lemma edges_joined: "list_all joined (flow_edges (buildNodesAndEdges msqrt (J ins) (J outs)))"
  by (auto simp: buildNodesAndEdges_def Let_def input_edge_def output_edge_def joined_def case_prod_beta
      list_all_iff)

definition root_like :: "(rat \<Rightarrow> rat) \<Rightarrow> bool" where
  "root_like f \<longleftrightarrow> (\<forall>x y. 0 \<le> x \<and> x \<le> y \<and> y \<le> 1 \<longrightarrow> 0 \<le> f x \<and> f x \<le> f y \<and> f y \<le> 1)"

lemma ratio_bounds:
  assumes "1 \<le> m" "a \<le> m"
  shows "0 \<le> (of_int (max 0 a) :: rat) / of_int m" "(of_int (max 0 a) :: rat) / of_int m \<le> 1"
  using assms by (simp_all del: of_int_max)

lemma weight_bounds:
  assumes "root_like f" "1 \<le> m" "a \<le> m"
  shows "1 \<le> fst (weightFor f m a) \<and> fst (weightFor f m a) \<le> 9 / 2 \<and>
    35 / 100 \<le> snd (weightFor f m a) \<and> snd (weightFor f m a) \<le> 95 / 100"
proof -
  let ?x = "of_int (max 0 a) / of_int m :: rat"
  have "0 \<le> f ?x \<and> f ?x \<le> 1"
    using assms(1) ratio_bounds [OF assms(2,3)] by (simp only: root_like_def) blast
  then show ?thesis by (simp add: weightFor_def Let_def del: of_int_max)
qed

lemma weight_mono:
  assumes "root_like f" "1 \<le> m" "a \<le> b" "b \<le> m"
  shows "fst (weightFor f m a) \<le> fst (weightFor f m b)"
proof -
  have "max 0 a \<le> max 0 b" using assms(3) by auto
  then have "(of_int (max 0 a) :: rat) \<le> of_int (max 0 b)" by (simp only: of_int_le_iff)
  then have "(of_int (max 0 a) / of_int m :: rat) \<le> of_int (max 0 b) / of_int m"
    using assms(2) by (simp add: divide_right_mono del: of_int_max)
  then have "f (of_int (max 0 a) / of_int m) \<le> f (of_int (max 0 b) / of_int m)"
    using assms(1) ratio_bounds [of m a] ratio_bounds [of m b] assms(2-4)
    unfolding root_like_def by (meson order_trans)
  then show ?thesis by (simp add: weightFor_def Let_def del: of_int_max)
qed

lemma build_coalesce:
  "buildNodesAndEdges f vIns vOuts = buildNodesAndEdges f (J (coalesce vIns [])) (J (coalesce vOuts []))"
  by (simp add: buildNodesAndEdges_def)

text \<open>
  C34: the drawing of a transaction, whatever its inputs and outputs. Every box lies within the
  canvas, a margin above and below it, and no two boxes touch; their names are distinct, and every
  box but the junction has exactly one edge, which runs between it and the junction; widths and
  opacities stay within their bounds, and of two amounts the larger one has no thinner edge. Of
  \<open>Math.sqrt\<close> only its order on the numbers from 0 to 1 is used.
\<close>

theorem flow_graph_laid_out:
  fixes vIns :: "ApiVIn list js" and vOuts :: "ApiVOut list js"
  assumes "root_like msqrt"
  defines "g \<equiv> buildNodesAndEdges msqrt vIns vOuts"
    and "amounts \<equiv> allAmounts (coalesce vIns []) (coalesce vOuts [])"
  shows "list_all (inside g) (flow_nodes g) \<and> sorted_wrt apart (flow_nodes g) \<and>
    distinct (map node_id (flow_nodes g)) \<and> list_all joined (flow_edges g) \<and>
    add_mset ''junction'' (mset (map outer_end (flow_edges g))) = mset (map node_id (flow_nodes g)) \<and>
    list_all (\<lambda>e. 1 \<le> edge_strokeWidth e \<and> edge_strokeWidth e \<le> 9 / 2 \<and>
      35 / 100 \<le> edge_opacity e \<and> edge_opacity e \<le> 95 / 100) (flow_edges g) \<and>
    length (flow_edges g) = length amounts \<and>
    (\<forall>i < length amounts. \<forall>j < length amounts. amounts ! i \<le> amounts ! j \<longrightarrow>
      edge_strokeWidth (flow_edges g ! i) \<le> edge_strokeWidth (flow_edges g ! j))"
proof -
  define ins outs where "ins = coalesce vIns []" and "outs = coalesce vOuts []"
  have g: "g = buildNodesAndEdges msqrt (J ins) (J outs)"
    unfolding g_def ins_def outs_def by (rule build_coalesce)
  let ?m = "maxAmount ins outs"
  have w: "map edge_strokeWidth (flow_edges g) = map (\<lambda>a. fst (weightFor msqrt ?m a)) amounts"
    "map edge_opacity (flow_edges g) = map (\<lambda>a. snd (weightFor msqrt ?m a)) amounts"
    unfolding g amounts_def ins_def [symmetric] outs_def [symmetric] by (rule edge_widths)+
  have len: "length (flow_edges g) = length amounts" using arg_cong [OF w(1), of length] by simp
  have nth: "edge_strokeWidth (flow_edges g ! i) = fst (weightFor msqrt ?m (amounts ! i))"
    "edge_opacity (flow_edges g ! i) = snd (weightFor msqrt ?m (amounts ! i))"
    if "i < length amounts" for i
    using arg_cong [OF w(1), of "\<lambda>xs. xs ! i"] arg_cong [OF w(2), of "\<lambda>xs. xs ! i"] that len by simp_all
  have top: "1 \<le> ?m" "\<And>i. i < length amounts \<Longrightarrow> amounts ! i \<le> ?m"
    using amounts_bounded [of ins outs] by (simp_all add: amounts_def ins_def outs_def)
  have bounds: "list_all (\<lambda>e. 1 \<le> edge_strokeWidth e \<and> edge_strokeWidth e \<le> 9 / 2 \<and>
      35 / 100 \<le> edge_opacity e \<and> edge_opacity e \<le> 95 / 100) (flow_edges g)"
    unfolding list_all_length len using weight_bounds [OF assms(1) top(1) top(2)] by (simp add: nth)
  have mono: "\<forall>i < length amounts. \<forall>j < length amounts. amounts ! i \<le> amounts ! j \<longrightarrow>
      edge_strokeWidth (flow_edges g ! i) \<le> edge_strokeWidth (flow_edges g ! j)"
    using weight_mono [OF assms(1) top(1) _ top(2)] by (simp add: nth)
  have ends: "add_mset ''junction'' (mset (map outer_end (flow_edges g))) = mset (map node_id (flow_nodes g))"
    by (simp only: g outer_ends node_ids) simp
  show ?thesis
    unfolding conj_assoc [symmetric]
    using inside_nodes nodes_apart node_ids_distinct edges_joined ends bounds mono len by (simp only: g) simp
qed

text \<open>A function that is like the square root as far as that goes; a transaction of two inputs and three outputs.\<close>

definition flow_sample_in :: "int \<Rightarrow> ApiVIn" where
  "flow_sample_in n = \<lparr>vi_prevTxHash = Some ''ab'', vi_vOutIndex = Some 1, vi_sequence = None,
     vi_scriptSigASM = None, vi_address = Some ''XyZ'', vi_amount = Some n\<rparr>"

definition flow_sample_out :: "int \<Rightarrow> ApiVOut" where
  "flow_sample_out n = \<lparr>vo_value = n, vo_number = 0, vo_scriptPubKeyASM = [], vo_address = None\<rparr>"

lemma root_like_id: "root_like (\<lambda>x. x)"
  by (simp add: root_like_def)

definition flow_sample :: flow_graph where
  "flow_sample = buildNodesAndEdges (\<lambda>x. x) (J [flow_sample_in 30, flow_sample_in 10])
     (J [flow_sample_out 5, flow_sample_out 20, flow_sample_out 14])"

theorem flow_graph_laid_out_witness:
  "length (flow_nodes flow_sample) = 6 \<and> sorted_wrt apart (flow_nodes flow_sample) \<and>
   edge_strokeWidth (flow_edges flow_sample ! 2) \<le> edge_strokeWidth (flow_edges flow_sample ! 1)"
proof -
  note f = flow_graph_laid_out [OF root_like_id, of "J [flow_sample_in 30, flow_sample_in 10]"
    "J [flow_sample_out 5, flow_sample_out 20, flow_sample_out 14]", folded flow_sample_def]
  have "edge_strokeWidth (flow_edges flow_sample ! 2) \<le> edge_strokeWidth (flow_edges flow_sample ! 1)"
    using f by (simp add: allAmounts_def flow_sample_in_def flow_sample_out_def)
  moreover have "length (flow_nodes flow_sample) = 6"
    by (simp add: flow_sample_def buildNodesAndEdges_def Let_def)
  ultimately show ?thesis using f by blast
qed

end
