(* ===== verification/AddressesPage.thy ===== *)
theory AddressesPage
  imports InfiniteScroll AddressActivity ViewModes Format
begin

text \<open>
  The page of the addresses, \<open>frontend/src/themes/neo/pages/addresses.tsx\<close>, with the window it asks for
  (\<open>lib/address-activity-window.ts\<close>) and the search of its route (\<open>routes/addresses.tsx\<close>): the two
  rankings as they are fetched, and the numbers the table shows. A time is its milliseconds, which
  \<open>toISOString\<close> and the parser of the API carry over unchanged. What is drawn is not modelled, nor is
  the printing of numbers by locale.
\<close>

section \<open>The window\<close>

datatype AddressActivityWindow = W24h | W3d | W7d | W30d

fun WINDOW_MS :: "AddressActivityWindow \<Rightarrow> int" where
  "WINDOW_MS W24h = 24 * 60 * 60 * 1000"
| "WINDOW_MS W3d = 3 * 24 * 60 * 60 * 1000"
| "WINDOW_MS W7d = 7 * 24 * 60 * 60 * 1000"
| "WINDOW_MS W30d = 30 * 24 * 60 * 60 * 1000"

text \<open>\<open>setSeconds(0, 0)\<close>: time zones differ by whole minutes.\<close>

definition start_of_minute :: "int \<Rightarrow> int" where "start_of_minute t = t - t mod 60000"

definition getAddressActivityWindowBounds :: "AddressActivityWindow \<Rightarrow> int \<Rightarrow> int \<times> int" where
  "getAddressActivityWindowBounds window now =
     (let end' = start_of_minute now in (end' - WINDOW_MS window, end'))"

section \<open>The search of the route\<close>

datatype AddressTab = ActiveTab | RichTab

record addresses_search =
  as_tab :: "AddressTab option"
  as_window :: "AddressActivityWindow option"
  as_page :: "nat option"

text \<open>What a parameter of the address bar may hold; a value that does not fit counts as missing.\<close>

datatype raw_param = RawText string | RawNumber rat | RawBool bool | RawOther

definition window_names :: "(string \<times> AddressActivityWindow) list" where
  "window_names = [(''24h'', W24h), (''3d'', W3d), (''7d'', W7d), (''30d'', W30d)]"

fun read_tab :: "raw_param option \<Rightarrow> AddressTab option" where
  "read_tab (Some (RawText s)) = map_of [(''active'', ActiveTab), (''rich'', RichTab)] s"
| "read_tab _ = None"

fun read_window :: "raw_param option \<Rightarrow> AddressActivityWindow option" where
  "read_window (Some (RawText s)) = map_of window_names s"
| "read_window _ = None"

text \<open>\<open>int()\<close> of the schema library accepts the safe integers, up to \<open>Number.MAX_SAFE_INTEGER\<close>.\<close>

definition MAX_SAFE_INTEGER :: int where "MAX_SAFE_INTEGER = 9007199254740991"

fun read_page :: "raw_param option \<Rightarrow> nat option" where
  "read_page (Some (RawNumber q)) =
     (if of_int \<lfloor>q\<rfloor> = q \<and> 1 \<le> q \<and> q \<le> of_int MAX_SAFE_INTEGER then Some (nat \<lfloor>q\<rfloor>) else None)"
| "read_page _ = None"

definition addressesSearchSchema :: "(string \<Rightarrow> raw_param option) \<Rightarrow> addresses_search" where
  "addressesSearchSchema raw =
     \<lparr>as_tab = read_tab (raw ''tab''), as_window = read_window (raw ''window''),
      as_page = read_page (raw ''page'')\<rparr>"

definition shown_tab :: "addresses_search \<Rightarrow> AddressTab" where
  "shown_tab s = or_else (as_tab s) ActiveTab"

definition activityWindow :: "addresses_search \<Rightarrow> AddressActivityWindow" where
  "activityWindow s = or_else (as_window s) W24h"

definition shown_page :: "addresses_search \<Rightarrow> nat" where
  "shown_page s = or_else (as_page s) 1"

definition select_tab :: "string \<Rightarrow> addresses_search \<Rightarrow> addresses_search" where
  "select_tab value s =
     (if value = ''active'' then s\<lparr>as_tab := Some ActiveTab, as_page := Some 1\<rparr>
      else if value = ''rich'' then s\<lparr>as_tab := Some RichTab, as_page := Some 1\<rparr>
      else s)"

text \<open>The toggle group reports an empty value when the pressed window is pressed again.\<close>

definition select_window :: "AddressActivityWindow option \<Rightarrow> addresses_search \<Rightarrow> addresses_search" where
  "select_window value s =
     (case value of Some w \<Rightarrow> s\<lparr>as_window := Some w, as_page := Some 1\<rparr> | None \<Rightarrow> s)"

definition select_page :: "nat \<Rightarrow> addresses_search \<Rightarrow> addresses_search" where
  "select_page n s = s\<lparr>as_page := Some n\<rparr>"

section \<open>The rows\<close>

definition PAGE_SIZE :: nat where "PAGE_SIZE = 25"

record activity_entry =
  ae_address :: "string option"
  ae_txCount :: "int option"

definition present :: "'a option list \<Rightarrow> 'a list" where
  "present xs = map the (filter (\<lambda>x. x \<noteq> None) xs)"

text \<open>
  The pages of the endless view are absent before the first answer, and a page is \<open>null\<close> when the API
  has no such ranking; so is the single page of the other view.
\<close>

definition activityRows ::
  "bool \<Rightarrow> 'a PaginatedResultSet option list js \<Rightarrow> 'a PaginatedResultSet js \<Rightarrow> 'a list" where
  "activityRows isInfinite pages onePage =
     (if isInfinite then concat (map resultSet (present (coalesce pages [])))
      else (case onePage of J r \<Rightarrow> resultSet r | _ \<Rightarrow> []))"

definition stated_total :: "'a PaginatedResultSet option \<Rightarrow> rat" where
  "stated_total r = (case r of Some r \<Rightarrow> json_number (pg_total (pagination r)) | None \<Rightarrow> 0)"

definition activityTotal ::
  "bool \<Rightarrow> 'a PaginatedResultSet option list js \<Rightarrow> 'a PaginatedResultSet js \<Rightarrow> rat" where
  "activityTotal isInfinite pages onePage =
     (if isInfinite then stated_total (first (present (coalesce pages [])))
      else stated_total (or_null onePage))"

definition activityUnavailable ::
  "bool \<Rightarrow> 'a PaginatedResultSet option list js \<Rightarrow> 'a PaginatedResultSet js \<Rightarrow> bool" where
  "activityUnavailable isInfinite pages onePage \<longleftrightarrow>
     (if isInfinite then first (coalesce pages []) = Some None else onePage = JNull)"

definition maxTxCount :: "activity_entry list \<Rightarrow> int" where
  "maxTxCount rows = foldl (\<lambda>m row. max m (or_else (ae_txCount row) 0)) 0 rows"

definition activity_bar :: "int \<Rightarrow> int \<Rightarrow> rat" where
  "activity_bar value largest =
     (if largest > 0 then max 2 (of_int value / of_int largest * 100) else 0)"

definition isLongWindow :: "AddressActivityWindow \<Rightarrow> bool" where
  "isLongWindow w \<longleftrightarrow> w = W7d \<or> w = W30d"

definition richRows ::
  "bool \<Rightarrow> AddressBalance PaginatedResultSet list js \<Rightarrow> AddressBalance PaginatedResultSet js \<Rightarrow> AddressBalance list" where
  "richRows isInfinite pages onePage =
     filter (\<lambda>row. ab_address row \<noteq> Some ''others'')
       (if isInfinite then concat (map resultSet (coalesce pages []))
        else (case onePage of J r \<Rightarrow> resultSet r | _ \<Rightarrow> []))"

definition richTotal ::
  "bool \<Rightarrow> AddressBalance PaginatedResultSet list js \<Rightarrow> AddressBalance PaginatedResultSet js \<Rightarrow> rat" where
  "richTotal isInfinite pages onePage =
     (if isInfinite then stated_total (first (coalesce pages [])) else stated_total (or_null onePage))"

definition rankOffset :: "bool \<Rightarrow> nat \<Rightarrow> nat" where
  "rankOffset isInfinite page = (if isInfinite then 0 else (page - 1) * PAGE_SIZE)"

definition shown_rank :: "bool \<Rightarrow> nat \<Rightarrow> nat \<Rightarrow> nat" where
  "shown_rank isInfinite page index = rankOffset isInfinite page + index + 1"

text \<open>The share of the supply: the length of its bar, and its text.\<close>

definition concentration_cell :: "AddressBalance \<Rightarrow> rat \<times> string" where
  "concentration_cell row =
     (let share = (case concentration row of Some c \<Rightarrow> json_number (js_number c) | None \<Rightarrow> 0)
      in (min 100 share, (if share < 1 / 100 then to_fixed 4 share else to_fixed 2 share) @ ''%''))"

definition balance_cell :: "(rat \<Rightarrow> string) \<Rightarrow> rat js \<Rightarrow> AddressBalance \<Rightarrow> string \<times> string" where
  "balance_cell locale_text usd row =
     (let balanceDash = (case ab_balance row of
            Some b \<Rightarrow> fl (json_number (js_number b) / of_int DUFFS_PER_DASH) | None \<Rightarrow> 0)
      in (formatCompact locale_text balanceDash,
          (case usd of
             J u \<Rightarrow> [CHR 0xE2, CHR 0x89, CHR 0x88, CHR '' ''] @ formatCompactUsd (fl (balanceDash * u))
           | _ \<Rightarrow> [])))"

section \<open>The activity\<close>

text \<open>
  The note under the activity ranking is true. The window ends within the last minute and is as
  long as its name says; and the note that some addresses may be missing is shown exactly for the
  windows for which the API counts by its rollups. So where it is not shown, every address
  that takes part in a transaction the window counts is ranked by the exact number of these.
\<close>

theorem activity_note_is_true:
  assumes "distinct (map t_id (db_transactions d))"
  shows "let (start, end') = getAddressActivityWindowBounds w now in
    end' \<le> now \<and> now < end' + 60000 \<and> end' - start = WINDOW_MS w \<and>
    (isLongWindow w \<longleftrightarrow> \<not> isShortWindow start end') \<and>
    (\<not> isLongWindow w \<longrightarrow> (\<forall>aid. map_of (activity_ranking d start end') aid =
      (let n = length (filter (touches d aid)
          (filter (\<lambda>t. in_window d start end' t \<or> stray d (start, end') t) (db_transactions d)))
       in if n = 0 then None else Some (int n))))"
proof -
  define end' where "end' = start_of_minute now"
  have bounds: "getAddressActivityWindowBounds w now = (end' - WINDOW_MS w, end')"
    by (simp add: getAddressActivityWindowBounds_def end'_def Let_def)
  have "0 \<le> now mod 60000" "now mod 60000 < 60000" by simp_all
  then have minute: "end' \<le> now" "now < end' + 60000" unfolding end'_def start_of_minute_def by linarith+
  have short: "isLongWindow w \<longleftrightarrow> \<not> isShortWindow (end' - WINDOW_MS w) end'"
    by (cases w) (simp_all add: isLongWindow_def isShortWindow_def ADDRESSES_ACTIVITY_LOW_PRECISION_AFTER_def)
  show ?thesis
    unfolding bounds prod.case
    using minute short short_activity_exact [OF _ assms] by simp
qed

lemma bars_bounded:
  assumes "row \<in> set rows" "list_all (\<lambda>r. 0 \<le> or_else (ae_txCount r) 0) rows"
  shows "0 \<le> activity_bar (or_else (ae_txCount row) 0) (maxTxCount rows)"
    "activity_bar (or_else (ae_txCount row) 0) (maxTxCount rows) \<le> 100"
proof -
  have "m \<le> foldl (\<lambda>m row. max m (f row)) m rows \<and>
      (\<forall>r \<in> set rows. f r \<le> foldl (\<lambda>m row. max m (f row)) m rows)" for f :: "activity_entry \<Rightarrow> int" and m
    by (induction rows arbitrary: m) (auto simp: max_def, (meson order_trans linear)+)
  from this [of 0 "\<lambda>r. or_else (ae_txCount r) 0"] assms(1)
  have le: "or_else (ae_txCount row) 0 \<le> maxTxCount rows" by (simp add: maxTxCount_def)
  then show "activity_bar (or_else (ae_txCount row) 0) (maxTxCount rows) \<le> 100"
    by (simp add: activity_bar_def pos_divide_le_eq)
  show "0 \<le> activity_bar (or_else (ae_txCount row) 0) (maxTxCount rows)"
    by (simp add: activity_bar_def le_max_iff_disj)
qed

section \<open>The ranks of the rich list\<close>

lemma filter_butlast:
  "xs \<noteq> [] \<Longrightarrow> \<not> P (last xs) \<Longrightarrow> \<forall>x \<in> set (butlast xs). P x \<Longrightarrow> filter P xs = butlast xs"
  by (cases xs rule: rev_cases) (simp_all add: filter_id_conv)

lemma rich_page_shown:
  assumes "\<forall>b \<in> set (rich_rows totalSupply d order). ab_address b \<noteq> Some ''others''" "1 \<le> p"
  shows "filter (\<lambda>row. ab_address row \<noteq> Some ''others'') (resultSet (rich_pages totalSupply d (Suc k) order (int p))) =
    page_of p k (rich_rows totalSupply d order)"
proof -
  let ?r = "resultSet (rich_pages totalSupply d (Suc k) order (int p))"
  have shown: "butlast ?r = page_of p k (rich_rows totalSupply d order)"
    by (rule rich_scroll.page_shown [OF assms(2)])
  have "?r \<noteq> []" "ab_address (last ?r) = Some ''others''"
    by (simp_all add: rich_pages_def rich_list_def Let_def AddressBalance_fromObject_def new_AddressBalance_def)
  moreover have "\<forall>b \<in> set (butlast ?r). ab_address b \<noteq> Some ''others''"
    unfolding shown using assms(1) set_page_of by fast
  ultimately have "filter (\<lambda>row. ab_address row \<noteq> Some ''others'') ?r = butlast ?r"
    by (intro filter_butlast) simp_all
  then show ?thesis by (simp only: shown)
qed

lemma scroll_pages_at:
  "r \<in> set (scroll fetch n (int p)) \<Longrightarrow> 1 \<le> p \<Longrightarrow>
   (\<And>q. 1 \<le> q \<Longrightarrow> getNextPageParam (fetch (int q)) \<in> {None, Some (int (Suc q))}) \<Longrightarrow>
   \<exists>q \<ge> 1. r = fetch (int q)"
proof (induction n arbitrary: p)
  case (Suc n)
  show ?case
  proof (cases "r = fetch (int p)")
    case False
    then have "r \<in> set (scroll fetch n (int (Suc p)))"
      using Suc.prems(1) Suc.prems(3) [OF Suc.prems(2)] by (auto simp: Let_def split: option.splits)
    then show ?thesis using Suc.IH [of "Suc p", OF _ _ Suc.prems(3)] by (simp del: of_nat_Suc)
  next
    case True
    then show ?thesis using Suc.prems(2) by blast
  qed
qed simp

lemma rich_endless_rows:
  assumes "\<forall>b \<in> set (rich_rows totalSupply d order). ab_address b \<noteq> Some ''others''"
  shows "richRows True (J (scroll (rich_pages totalSupply d (Suc k) order) n 1)) onePage =
    concat (map (\<lambda>r. butlast (resultSet r)) (scroll (rich_pages totalSupply d (Suc k) order) n 1))"
proof -
  let ?fetch = "rich_pages totalSupply d (Suc k) order"
  have following: "getNextPageParam (?fetch (int q)) \<in> {None, Some (int (Suc q))}" if "1 \<le> q" for q
    using rich_scroll.next_page [OF that, of totalSupply d k order] by auto
  have "filter (\<lambda>row. ab_address row \<noteq> Some ''others'') (resultSet r) = butlast (resultSet r)"
    if "r \<in> set (scroll ?fetch n 1)" for r
  proof -
    have "r \<in> set (scroll ?fetch n (int 1))" using that by simp
    then obtain q where q: "1 \<le> q" "r = ?fetch (int q)"
      using scroll_pages_at [OF _ _ following] by blast
    then show ?thesis
      using rich_page_shown [OF assms q(1), of k] rich_scroll.page_shown [OF q(1), of totalSupply d k order]
      by simp
  qed
  then show ?thesis by (simp add: richRows_def filter_concat comp_def cong: map_cong)
qed

text \<open>
  C33: the ranks of the rich list. In the endless view a row's rank is its place among all addresses
  by balance. Under the pager the ranks of page \<open>p\<close> are too high by \<open>p - 1\<close>: the page counts
  twenty-five addresses for each page before it, but the API, whose pages end with the entry of all
  others, gives twenty-four, so the first rank after the first page is skipped, and so on.
\<close>

theorem rich_list_ranks:
  assumes "\<forall>b \<in> set (rich_rows totalSupply d order). ab_address b \<noteq> Some ''others''"
  shows "(let rows = richRows True (J (scroll (rich_pages totalSupply d PAGE_SIZE order) n 1)) JUndef in
      \<forall>i < length rows. rows ! i = rich_rows totalSupply d order ! (shown_rank True 1 i - 1)) \<and>
    (1 \<le> page \<longrightarrow>
      (let rows = richRows False JUndef (J (rich_pages totalSupply d PAGE_SIZE order (int page))) in
       \<forall>i < length rows.
         rows ! i = rich_rows totalSupply d order ! (shown_rank False page i - (page - 1) - 1) \<and>
         page - 1 < shown_rank False page i))"
proof (intro conjI impI)
  have size: "PAGE_SIZE = Suc 24" by (simp add: PAGE_SIZE_def)
  show "let rows = richRows True (J (scroll (rich_pages totalSupply d PAGE_SIZE order) n 1)) JUndef in
      \<forall>i < length rows. rows ! i = rich_rows totalSupply d order ! (shown_rank True 1 i - 1)"
    unfolding size rich_endless_rows [OF assms] rich_scroll.scroll_shows
    by (simp add: Let_def shown_rank_def rankOffset_def)
  assume page: "1 \<le> page"
  have "richRows False JUndef (J (rich_pages totalSupply d PAGE_SIZE order (int page))) =
      page_of page 24 (rich_rows totalSupply d order)"
    unfolding size using rich_page_shown [OF assms page, of 24] by (simp add: richRows_def)
  then show "let rows = richRows False JUndef (J (rich_pages totalSupply d PAGE_SIZE order (int page))) in
       \<forall>i < length rows.
         rows ! i = rich_rows totalSupply d order ! (shown_rank False page i - (page - 1) - 1) \<and>
         page - 1 < shown_rank False page i"
    using page
    by (cases page) (auto simp: Let_def shown_rank_def rankOffset_def PAGE_SIZE_def page_of_def algebra_simps)
qed

section \<open>Samples\<close>

theorem activity_note_is_true_witness:
  "let (start, end') = getAddressActivityWindowBounds W24h 6000000 in
    end' = 6000000 \<and> (\<forall>aid. map_of (activity_ranking sample_balance_db start end') aid =
      (let n = length (filter (touches sample_balance_db aid)
         (filter (\<lambda>t. in_window sample_balance_db start end' t \<or> stray sample_balance_db (start, end') t)
           (db_transactions sample_balance_db)))
       in if n = 0 then None else Some (int n)))"
proof -
  have "distinct (map t_id (db_transactions sample_balance_db))"
    by (simp add: sample_balance_db_def sample_wallet_db_def sample_tx_def)
  from activity_note_is_true [OF this, of W24h 6000000]
  show ?thesis
    by (simp add: getAddressActivityWindowBounds_def start_of_minute_def isLongWindow_def Let_def del: filter_filter)
qed

text \<open>Twenty-six addresses; the names of their rows are missing, which the API allows.\<close>

definition many_balances :: db where
  "many_balances = sample_wallet_db\<lparr>db_addresses := [],
     db_balances := map (\<lambda>i. \<lparr>bl_address_id = i, bl_balance = i\<rparr>) [1..26]\<rparr>"

lemma many_unnamed: "\<forall>b \<in> set (rich_rows q many_balances order). ab_address b \<noteq> Some ''others''"
  by (auto simp: rich_rows_def many_balances_def address_text_def address_by_id_def
      AddressBalance_fromObject_def new_AddressBalance_def)

theorem rich_list_ranks_witness:
  "let rows = richRows False JUndef (J (rich_pages 1 many_balances PAGE_SIZE (J ''desc'') 2)) in
   length rows = 2 \<and> rows ! 0 = rich_rows 1 many_balances (J ''desc'') ! 24 \<and> shown_rank False 2 0 = 26"
proof -
  let ?rows = "richRows False JUndef (J (rich_pages 1 many_balances PAGE_SIZE (J ''desc'') 2))"
  have "PAGE_SIZE = Suc 24" by (simp add: PAGE_SIZE_def)
  then have "?rows = page_of 2 24 (rich_rows 1 many_balances (J ''desc''))"
    using rich_page_shown [OF many_unnamed, of 2 1 24 "J ''desc''"] by (simp add: richRows_def)
  then have len: "length ?rows = 2"
    by (simp add: page_of_def rich_rows_def many_balances_def)
  have rank: "shown_rank False 2 0 = 26" by (simp add: shown_rank_def rankOffset_def PAGE_SIZE_def)
  have "?rows ! 0 = rich_rows 1 many_balances (J ''desc'') ! (shown_rank False 2 0 - (2 - 1) - 1)"
    using rich_list_ranks [OF many_unnamed, of 1 "J ''desc''" 0 2] len by (simp add: Let_def)
  then show ?thesis using len rank by simp
qed

end
