(* ===== verification/ProposalPage.thy ===== *)
theory ProposalPage
  imports GovernanceBudget SuperblockClock ViewModes
begin

text \<open>
  The page of a proposal, \<open>frontend/src/themes/neo/pages/proposal-detail.tsx\<close>: the tallies and the badge, the
  window of the chart of the votes, and the table of the votes, over the answers of the API's
  governance endpoints. Dates travel as their milliseconds; the text that \<open>toISOString\<close> prints and
  the parser reads back is a parameter. What is drawn is not modelled.
\<close>

section \<open>The chart\<close>

datatype ChartRange = R24h | R7d | R30d | RAll
datatype ChartMode = PerInterval | Cumulative

fun RANGE_MS :: "ChartRange \<Rightarrow> int" where
  "RANGE_MS R24h = 24 * 60 * 60 * 1000"
| "RANGE_MS R7d = 7 * 24 * 60 * 60 * 1000"
| "RANGE_MS _ = 30 * 24 * 60 * 60 * 1000"

fun RANGE_BUCKETS :: "ChartRange \<Rightarrow> int" where
  "RANGE_BUCKETS R24h = 24"
| "RANGE_BUCKETS R7d = 28"
| "RANGE_BUCKETS R30d = 30"
| "RANGE_BUCKETS RAll = 36"

definition rangeBounds :: "int \<Rightarrow> ChartRange \<Rightarrow> int option \<Rightarrow> int \<times> int" where
  "rangeBounds now rng created =
     (let end' = now - now mod 60000;
          fallbackStart = end' - RANGE_MS R30d;
          start = (if rng = RAll then (case created of Some t \<Rightarrow> t | None \<Rightarrow> fallbackStart)
                   else end' - RANGE_MS rng)
      in (start, end'))"

text \<open>The request for the chart: the window, the number of intervals and whether to add up.\<close>

definition chart_request ::
  "(int \<Rightarrow> string) \<Rightarrow> int \<Rightarrow> ChartRange \<Rightarrow> int option \<Rightarrow> ChartMode \<Rightarrow> time_query \<times> bool js" where
  "chart_request print_iso now rng created mode =
     (let (start, end') = rangeBounds now rng created in
      (\<lparr>tq_start = J (print_iso start), tq_end = J (print_iso end'), tq_count = J (of_int (RANGE_BUCKETS rng))\<rparr>,
       J (mode = Cumulative)))"

record chart_point =
  cp_timestamp :: date
  cp_yes :: int
  cp_no :: int
  cp_abstain :: int

text \<open>The chart is \<open>null\<close> where the API has no such endpoint.\<close>

definition chartData :: "(date \<times> tally) list js \<Rightarrow> chart_point list" where
  "chartData apiChart =
     map (\<lambda>(t, d). \<lparr>cp_timestamp = t, cp_yes = yes d, cp_no = no d, cp_abstain = abstain d\<rparr>)
       (coalesce apiChart [])"

definition chartUnavailable :: "'a js \<Rightarrow> bool" where
  "chartUnavailable apiChart \<longleftrightarrow> (case apiChart of JNull \<Rightarrow> True | _ \<Rightarrow> False)"

definition chartHasVotes :: "chart_point list \<Rightarrow> bool" where
  "chartHasVotes ps \<longleftrightarrow> list_ex (\<lambda>p. cp_yes p > 0 \<or> cp_no p > 0 \<or> cp_abstain p > 0) ps"

section \<open>Tallies\<close>

definition funding :: "GovernanceObject option \<Rightarrow> VoteResult" where
  "funding proposal =
     or_else (Option.bind proposal fundingResult)
       \<lparr>vr_absoluteYesCount = or_else (Option.bind proposal absoluteYesCount) 0,
        vr_yesCount = or_else (Option.bind proposal yesCount) 0,
        vr_noCount = or_else (Option.bind proposal noCount) 0,
        vr_abstainCount = or_else (Option.bind proposal abstainCount) 0\<rparr>"

definition fundingBallots :: "VoteResult \<Rightarrow> int" where
  "fundingBallots f = vr_yesCount f + vr_noCount f + vr_abstainCount f"

definition page_votes :: "GovernanceObject option \<Rightarrow> ProposalVote list" where
  "page_votes proposal = or_else (Option.bind proposal votes) []"

definition fundingMasternodes :: "ProposalVote list \<Rightarrow> nat" where
  "fundingMasternodes vs =
     length (remdups (map vote_outpoint (filter (\<lambda>v. vote_signal v = ''funding'') vs)))"

definition uniqueMasternodes :: "ProposalVote list \<Rightarrow> nat" where
  "uniqueMasternodes vs = length (remdups (map vote_outpoint vs))"

definition participation :: "ProposalVote list \<Rightarrow> int \<Rightarrow> rat option" where
  "participation vs masternodeCount =
     (if 0 < fundingMasternodes vs \<and> 0 < masternodeCount
      then Some (of_nat (fundingMasternodes vs) / of_int masternodeCount) else None)"

definition isPassing :: "GovernanceObject option \<Rightarrow> int \<Rightarrow> bool" where
  "isPassing proposal masternodeCount =
     or_else (Option.bind proposal enoughVotes)
       (vr_absoluteYesCount (funding proposal) \<ge> getRequiredVotes masternodeCount)"

text \<open>The bar of the tally block, and whether it is drawn as reached.\<close>

definition tally_progress :: "VoteResult \<Rightarrow> int \<Rightarrow> rat" where
  "tally_progress result required =
     (if required > 0 then min 1 (max 0 (of_int (vr_absoluteYesCount result) / of_int required)) else 0)"

definition tally_reached :: "VoteResult \<Rightarrow> int \<Rightarrow> bool" where
  "tally_reached result required \<longleftrightarrow> vr_absoluteYesCount result \<ge> required"

definition no_votes :: "VoteResult option \<Rightarrow> bool" where
  "no_votes result \<longleftrightarrow>
     (case result of None \<Rightarrow> True
      | Some r \<Rightarrow> vr_yesCount r = 0 \<and> vr_noCount r = 0 \<and> vr_abstainCount r = 0)"

definition votingOpen :: "int \<Rightarrow> network \<Rightarrow> rat js \<Rightarrow> bool" where
  "votingOpen currentHeight net blockTimeMs \<longleftrightarrow> getMsUntilVotingDeadline currentHeight net blockTimeMs > 0"

section \<open>The table of the votes\<close>

definition VOTES_PAGE_SIZE :: nat where "VOTES_PAGE_SIZE = 25"

datatype OutcomeFilter = AnyOutcome | OnlyOutcome string

record votes_state =
  vs_search :: string
  vs_outcome :: OutcomeFilter
  vs_page :: nat
  vs_visible :: nat
  vs_view :: TableViewMode

definition votes_initial :: "TableViewMode \<Rightarrow> votes_state" where
  "votes_initial m =
     \<lparr>vs_search = [], vs_outcome = AnyOutcome, vs_page = 1, vs_visible = VOTES_PAGE_SIZE, vs_view = m\<rparr>"

text \<open>\<open>Date.parse(b.time) - Date.parse(a.time)\<close>; \<open>NaN\<close> counts as 0.\<close>

definition newer_first :: "ProposalVote \<Rightarrow> ProposalVote \<Rightarrow> int" where
  "newer_first a b =
     (case (vote_time a, vote_time b) of (Some x, Some y) \<Rightarrow> y - x | _ \<Rightarrow> 0)"

definition vote_passes :: "OutcomeFilter \<Rightarrow> string \<Rightarrow> ProposalVote \<Rightarrow> bool" where
  "vote_passes wanted q v \<longleftrightarrow>
     (case wanted of AnyOutcome \<Rightarrow> True | OnlyOutcome o' \<Rightarrow> vote_outcome v = o') \<and>
     (q = [] \<or> js_includes (js_lower (vote_outpoint v)) q \<or>
      (case vote_proTxHash v of None \<Rightarrow> False | Some h \<Rightarrow> js_includes (js_lower h) q))"

definition filteredVotes :: "votes_state \<Rightarrow> ProposalVote list \<Rightarrow> ProposalVote list" where
  "filteredVotes s vs =
     (let byTime = js_sort newer_first vs; q = js_lower (js_trim (vs_search s))
      in filter (vote_passes (vs_outcome s) q) byTime)"

definition pagedVotes :: "votes_state \<Rightarrow> ProposalVote list \<Rightarrow> ProposalVote list" where
  "pagedVotes s rows =
     (case vs_view s of
        InfiniteView \<Rightarrow> js_slice rows 0 (int (vs_visible s))
      | PaginationView \<Rightarrow>
          js_slice rows ((int (vs_page s) - 1) * int VOTES_PAGE_SIZE) (int (vs_page s) * int VOTES_PAGE_SIZE))"

definition hasMoreVotes :: "votes_state \<Rightarrow> ProposalVote list \<Rightarrow> bool" where
  "hasMoreVotes s rows \<longleftrightarrow> vs_visible s < length rows"

datatype votes_event =
    SearchVotes string
  | FilterOutcome "OutcomeFilter option"
  | LoadMoreVotes
  | GoToVotePage nat
  | ChangeVoteView TableViewMode

text \<open>Pressing the chosen outcome again reports an empty value, which changes nothing.\<close>

fun votes_step :: "votes_event \<Rightarrow> votes_state \<Rightarrow> votes_state" where
  "votes_step (SearchVotes v) s = s\<lparr>vs_search := v, vs_page := 1, vs_visible := VOTES_PAGE_SIZE\<rparr>"
| "votes_step (FilterOutcome None) s = s"
| "votes_step (FilterOutcome (Some o')) s = s\<lparr>vs_outcome := o', vs_page := 1, vs_visible := VOTES_PAGE_SIZE\<rparr>"
| "votes_step LoadMoreVotes s = s\<lparr>vs_visible := vs_visible s + VOTES_PAGE_SIZE\<rparr>"
| "votes_step (GoToVotePage p) s = s\<lparr>vs_page := p\<rparr>"
| "votes_step (ChangeVoteView m) s = s\<lparr>vs_view := m\<rparr>"

section \<open>What the chart covers\<close>

lemma bucket_froms_count:
  "0 < step \<Longrightarrow> length (bucket_froms to step e) = nat ((e - to + step) div step)"
proof (induction to step e rule: bucket_froms.induct)
  case (1 to step e)
  show ?case
  proof (cases "to \<le> e")
    case True
    have div: "(e - to + step) div step = (e - to) div step + 1" using 1(2) by simp
    have "0 \<le> (e - to) div step" using True 1(2) by (simp add: pos_imp_zdiv_nonneg_iff)
    have "bucket_froms to step e = (to - step) # bucket_froms (to + step) step e"
      using True 1(2) by (subst bucket_froms.simps) simp
    then have "length (bucket_froms to step e) = Suc (nat ((e - to) div step))"
      using "1.IH" [OF _ 1(2)] True 1(2) by simp
    then show ?thesis using div \<open>0 \<le> (e - to) div step\<close> by (simp only: Suc_nat_eq_nat_zadd1 add.commute)
  next
    case False
    then have "(e - to + step) div step \<le> 0"
      using 1(2) div_pos_pos_trivial [of "e - to + step" step] div_neg_pos_less0 [of "e - to + step" step]
      by (cases "0 \<le> e - to + step") auto
    then show ?thesis using False by (subst bucket_froms.simps) simp
  qed
qed

lemma vote_rows_count: "0 < step \<Longrightarrow> length (vote_rows a e step) = nat ((e - a) div step)"
  by (simp add: vote_rows_def bucket_froms_count algebra_simps)

lemma vote_rows_list:
  "0 < step \<Longrightarrow> vote_rows a e step = map (\<lambda>i. (a + int i * step, a + (int i + 1) * step)) [0..<nat ((e - a) div step)]"
  using vote_rows_nth [of _ a e step] by (simp add: list_eq_iff_nth_eq vote_rows_count)

text \<open>Both modes of the series in one formula.\<close>

lemma vote_points:
  assumes "0 < step" "fst (getProtxOutpoint env now s) = Inr m"
    "\<forall>raw \<in> set (redis_hvals env (REDIS_VOTES_KEY_PART @ hash)). timely raw"
  shows "fst (getProposalVoteSeries env now hash a e step (mode = Cumulative) s) =
    Inr (map (\<lambda>i. new_SeriesData (J (new_date (Fin (of_int (a + int i * step)))))
        (J (tally_of (filter (\<lambda>ev. (mode = Cumulative \<or> a + int i * step < ev_time ev) \<and>
                               ev_time ev \<le> a + (int i + 1) * step)
          (vote_events (weightMap m) (redis_hvals env (REDIS_VOTES_KEY_PART @ hash)))))))
      [0..<nat ((e - a) div step)])"
  using vote_series_running [OF assms, of a e] vote_series_rows [OF assms, of a e]
  by (cases mode) (simp_all add: vote_rows_list [OF assms(1)] in_row_def comp_def)

text \<open>The step of the API for a request with a number of intervals.\<close>

lemma count_interval_ms_pos: "a < e \<Longrightarrow> 0 < n \<Longrightarrow> 0 < count_interval_ms a e n"
  by (simp add: count_interval_ms_def)

lemma preset_steps:
  "rng \<noteq> RAll \<Longrightarrow> count_interval_ms (e - RANGE_MS rng) e (of_int (RANGE_BUCKETS rng)) * RANGE_BUCKETS rng = RANGE_MS rng"
  by (cases rng) (simp_all add: count_interval_ms_def ceiling_eq_iff)

lemma preset_covered:
  assumes "rng \<noteq> RAll" "start = e - RANGE_MS rng"
    "step = count_interval_ms start e (of_int (RANGE_BUCKETS rng))"
  shows "(e - start) mod step = 0" "(e - start) div step = RANGE_BUCKETS rng"
proof -
  have "e - start = step * RANGE_BUCKETS rng"
    using preset_steps [OF assms(1), of e] assms(2,3) by simp
  moreover have "step \<noteq> 0"
    using preset_steps [OF assms(1), of e] assms by (cases rng) auto
  ultimately show "(e - start) mod step = 0" "(e - start) div step = RANGE_BUCKETS rng" by simp_all
qed

text \<open>The answer to the request of the page.\<close>

lemma chart_request_answer:
  assumes "\<And>t. parse (print_iso t) = t" "rangeBounds now rng created = (start, e)" "start \<le> e"
  shows "fst (vote_series_handler parse env now' hash (fst (chart_request print_iso now rng created mode))
      (snd (chart_request print_iso now rng created mode)) s) =
    map_sum id (Sent 200) (fst (getProposalVoteSeries env now' hash start e
      (count_interval_ms start e (of_int (RANGE_BUCKETS rng))) (mode = Cumulative) s))"
  using assms
  by (simp add: chart_request_def vote_series_handler_def window_of_def vote_interval_def
      split: prod.split)

text \<open>
  C11: how far the chart of the votes reaches, for a proposal created before the current minute, dates that
  are read back as they are printed, votes of the store whose times are valid, and a node that names the
  masternodes with their weights. The page asks for a fixed number of intervals; the API cuts the
  window into steps of whole seconds and drops a last step that does not fit. The reply holds one
  point for each whole step, stamped with its beginning. The point counts the weighted funding votes
  of its step, and in the cumulative chart all of them until its end, those before the window included. For the
  ranges of fixed length there are as many points as the page asks for and the last one ends with the
  window. For the range from the creation on the last one may end earlier, by less than a step, and the cumulative
  chart lacks exactly the votes cast since.
\<close>

theorem proposal_chart_reach:
  fixes now :: int and rng :: ChartRange and created :: "int option"
  assumes "\<forall>t. parse (print_iso t) = t" "fst (getProtxOutpoint env now' s) = Inr m"
    "\<forall>raw \<in> set (redis_hvals env (REDIS_VOTES_KEY_PART @ hash)). timely raw"
    "fst (rangeBounds now rng created) < snd (rangeBounds now rng created)"
  shows "let (start, e) = rangeBounds now rng created;
      step = count_interval_ms start e (of_int (RANGE_BUCKETS rng));
      n = (e - start) div step; reached = start + n * step;
      events = vote_events (weightMap m) (redis_hvals env (REDIS_VOTES_KEY_PART @ hash));
      (q, running) = chart_request print_iso now rng created mode in
    \<exists>points. fst (vote_series_handler parse env now' hash q running s) = Inr (Sent 200 points) \<and>
      points = map (\<lambda>i. new_SeriesData (J (new_date (Fin (of_int (start + int i * step)))))
          (J (tally_of (filter (\<lambda>ev. (mode = Cumulative \<or> start + int i * step < ev_time ev) \<and>
                                 ev_time ev \<le> start + (int i + 1) * step) events)))) [0..<nat n] \<and>
      (rng \<noteq> RAll \<longrightarrow> int (length points) = RANGE_BUCKETS rng \<and> reached = e) \<and>
      reached \<le> e \<and> e < reached + step \<and>
      (mode = Cumulative \<and> points \<noteq> [] \<longrightarrow> (\<exists>t. data (last points) = Some t \<and>
         tally_of events = add_tally t (tally_of (filter (\<lambda>ev. reached < ev_time ev) events))))"
proof -
  obtain start e where bounds: "rangeBounds now rng created = (start, e)" by fastforce
  define step where "step = count_interval_ms start e (of_int (RANGE_BUCKETS rng))"
  define n where "n = (e - start) div step"
  have less: "start < e" using assms(4) bounds by simp
  have some: "0 < RANGE_BUCKETS rng" by (cases rng) simp_all
  then have pos: "0 < step" unfolding step_def by (intro count_interval_ms_pos less) simp
  have n: "0 \<le> n" unfolding n_def using less pos by (simp add: pos_imp_zdiv_nonneg_iff)
  define events where "events = vote_events (weightMap m) (redis_hvals env (REDIS_VOTES_KEY_PART @ hash))"
  define point where "point = (\<lambda>i. new_SeriesData (J (new_date (Fin (of_int (start + int i * step)))))
      (J (tally_of (filter (\<lambda>ev. (mode = Cumulative \<or> start + int i * step < ev_time ev) \<and>
                             ev_time ev \<le> start + (int i + 1) * step) events))))"
  have reply: "fst (vote_series_handler parse env now' hash (fst (chart_request print_iso now rng created mode))
      (snd (chart_request print_iso now rng created mode)) s) = Inr (Sent 200 (map point [0..<nat n]))"
    unfolding chart_request_answer [OF spec [OF assms(1)] bounds order.strict_implies_order [OF less]]
      step_def [symmetric] vote_points [OF pos assms(2,3)] events_def [symmetric] n_def [symmetric] point_def
    by simp
  have near: "start + n * step \<le> e" "e < start + n * step + step"
    using pos_mod_sign [OF pos, of "e - start"] pos_mod_bound [OF pos, of "e - start"]
      div_mult_mod_eq [of "e - start" step] unfolding n_def by linarith+
  have preset: "n = RANGE_BUCKETS rng \<and> start + n * step = e" if "rng \<noteq> RAll"
  proof -
    have "start = e - RANGE_MS rng" using bounds that by (auto simp: rangeBounds_def Let_def)
    note fill = preset_covered [OF that this step_def]
    then show ?thesis using div_mult_mod_eq [of "e - start" step] by (simp add: n_def)
  qed
  have last: "data (last (map point [0..<nat n])) = Some (tally_of (filter (\<lambda>ev. ev_time ev \<le> start + n * step) events)) \<and>
      tally_of events = add_tally (tally_of (filter (\<lambda>ev. ev_time ev \<le> start + n * step) events))
        (tally_of (filter (\<lambda>ev. start + n * step < ev_time ev) events))"
    if "mode = Cumulative" "map point [0..<nat n] \<noteq> []"
  proof
    from that(2) have "0 < n" by simp
    then have "last (map point [0..<nat n]) = point (nat n - 1)" "int (nat n - 1) + 1 = n" by (simp_all add: last_map last_upt)
    then show "data (last (map point [0..<nat n])) = Some (tally_of (filter (\<lambda>ev. ev_time ev \<le> start + n * step) events))"
      by (simp add: point_def new_SeriesData_def that(1))
    show "tally_of events = add_tally (tally_of (filter (\<lambda>ev. ev_time ev \<le> start + n * step) events))
        (tally_of (filter (\<lambda>ev. start + n * step < ev_time ev) events))"
      using tally_split [of "\<lambda>_. True" "\<lambda>ev. ev_time ev \<le> start + n * step" "\<lambda>ev. start + n * step < ev_time ev" events]
      by fastforce
  qed
  show ?thesis
    unfolding case_prod_beta bounds fst_conv snd_conv Let_def step_def [symmetric] n_def [symmetric] events_def [symmetric]
    using reply preset near last n
    by (intro exI [of _ "map point [0..<nat n]"]) (auto simp: point_def)
qed

section \<open>The badge\<close>

text \<open>
  The badge repeats what the API found, which weighs the masternodes and rounds up, whatever number
  of masternodes the page knows; the tally next to it is held against a tenth of the masternodes,
  unweighted, plus one.
\<close>

lemma some_result:
  "(case x of None \<Rightarrow> Inr None | Some o' \<Rightarrow> bind_result (f o') (\<lambda>p. Inr (Some (g p)))) = Inr (Some p) \<Longrightarrow>
   \<exists>q. p = g q"
  by (auto simp: bind_result_Inr_iff split: option.splits)

lemma api_proposal_marked:
  assumes "fst (getProposalByHash env now hash s) = Inr (Some p)"
  shows "enoughVotes p = Some (requiredProposalVotes (getMasternodeStats (masternode_table env)) \<le> yes_count p)"
proof -
  obtain maps s' where maps: "getProtxOutpoint env now s = (maps, s')" by fastforce
  define req where "req = requiredProposalVotes (getMasternodeStats (masternode_table env))"
  define filled :: "GovernanceObject \<Rightarrow> GovernanceObject" where
    "filled p = (case absoluteYesCount p of
        None \<Rightarrow> (case fundingResult p of None \<Rightarrow> p
          | Some f \<Rightarrow> p\<lparr>absoluteYesCount := Some (vr_absoluteYesCount f),
              yesCount := Some (vr_yesCount f), noCount := Some (vr_noCount f),
              abstainCount := Some (vr_abstainCount f)\<rparr>)
      | Some aa \<Rightarrow> p)" for p
  obtain raws and m :: outpoint_maps and p0 where
    "p = (filled p0)\<lparr>enoughVotes := Some (req \<le> yes_count (filled p0)),
       votes := Some (map (\<lambda>v. v\<lparr>vote_proTxHash := map_of (hashMap m) (vote_outpoint v)\<rparr>)
         (parse_votes raws))\<rparr>"
    using assms unfolding getProposalByHash_def maps Let_def req_def [symmetric] prod.case fst_conv
      filled_def [symmetric] bind_result_Inr_iff
    by (elim exE conjE) (erule some_result [THEN exE], erule that)
  then show ?thesis by (simp add: yes_count_def req_def)
qed

lemma passing_badge:
  assumes "fst (getProposalByHash env now hash s) = Inr (Some p)"
  shows "isPassing (Some p) n \<longleftrightarrow>
    yes_count p \<ge> requiredProposalVotes (getMasternodeStats (masternode_table env))"
  by (simp add: isPassing_def api_proposal_marked [OF assms])

section \<open>The votes\<close>

lemma filteredVotes_passing:
  "set (filteredVotes s vs) = {v \<in> set vs. vote_passes (vs_outcome s) (js_lower (js_trim (vs_search s))) v}"
  by (auto simp: filteredVotes_def Let_def)

lemma newer_first_key: "vote_time a \<noteq> None \<Longrightarrow> vote_time b \<noteq> None \<Longrightarrow>
  newer_first a b = by_key (\<lambda>v. - the (vote_time v)) a b"
  by (auto simp: newer_first_def by_key_def)

lemma newest_first:
  assumes "\<forall>v \<in> set vs. vote_time v \<noteq> None"
  shows "sorted_wrt (\<lambda>a b. the (vote_time b) \<le> the (vote_time a)) (filteredVotes s vs)"
proof -
  have "js_sort newer_first vs = js_sort (by_key (\<lambda>v. - the (vote_time v))) vs"
    by (rule js_sort_cmp_cong) (use assms newer_first_key in auto)
  moreover have "sorted_wrt (\<lambda>a b. the (vote_time b) \<le> the (vote_time a))
      (js_sort (by_key (\<lambda>v. - the (vote_time v))) vs)"
    using by_key.sorted_js_sort [of "\<lambda>v. - the (vote_time v)" vs] by (simp add: by_key_def)
  ultimately show ?thesis by (simp add: filteredVotes_def Let_def sorted_wrt_filter)
qed

lemma load_more_votes:
  "vs_visible ((votes_step LoadMoreVotes ^^ k) s) = vs_visible s + k * VOTES_PAGE_SIZE"
  "vs_view ((votes_step LoadMoreVotes ^^ k) s) = vs_view s"
  by (induction k) auto

text \<open>The states that the controls lead to, and what they leave alone.\<close>

definition votes_run :: "votes_event list \<Rightarrow> votes_state \<Rightarrow> votes_state" where
  "votes_run evs s = fold votes_step evs s"

lemma votes_run_visible: "VOTES_PAGE_SIZE \<le> vs_visible s \<Longrightarrow> VOTES_PAGE_SIZE \<le> vs_visible (votes_run evs s)"
  unfolding votes_run_def
proof (induction evs arbitrary: s)
  case (Cons ev evs)
  have "VOTES_PAGE_SIZE \<le> vs_visible (votes_step ev s)"
    using Cons.prems by (cases "(ev, s)" rule: votes_step.cases) auto
  then show ?case using Cons.IH by simp
qed simp

text \<open>
  The table of the votes. After any use of its controls the rows are exactly the votes that
  match the search and the outcome, the newest first; the pages of the pager put together are the
  rows; and in the endless view what is shown is always a first part of the rows, of at least one
  page, which loading more extends until nothing is left.
\<close>

theorem votes_table:
  assumes "\<forall>v \<in> set vs. vote_time v \<noteq> None"
  shows "\<forall>evs m. let s = votes_run evs (votes_initial m); rows = filteredVotes s vs in
    mset rows = mset (filter (vote_passes (vs_outcome s) (js_lower (js_trim (vs_search s)))) vs) \<and>
    sorted_wrt (\<lambda>a b. the (vote_time b) \<le> the (vote_time a)) rows \<and>
    (vs_view s = PaginationView \<longrightarrow> (\<forall>n. length rows \<le> n * VOTES_PAGE_SIZE \<longrightarrow>
      concat (map (\<lambda>p. pagedVotes (votes_step (GoToVotePage p) s) rows) [1..<Suc n]) = rows)) \<and>
    (vs_view s = InfiniteView \<longrightarrow> (\<forall>k. pagedVotes ((votes_step LoadMoreVotes ^^ k) s) rows =
      take (vs_visible s + k * VOTES_PAGE_SIZE) rows)) \<and>
    VOTES_PAGE_SIZE \<le> vs_visible s \<and>
    (\<exists>k. \<not> hasMoreVotes ((votes_step LoadMoreVotes ^^ k) s) rows)"
proof (intro allI)
  fix evs m
  define s where "s = votes_run evs (votes_initial m)"
  define rows where "rows = filteredVotes s vs"
  have same: "mset rows = mset (filter (vote_passes (vs_outcome s) (js_lower (js_trim (vs_search s)))) vs)"
    by (simp add: rows_def filteredVotes_def Let_def)
  have pages: "concat (map (\<lambda>p. pagedVotes (votes_step (GoToVotePage p) s) rows) [1..<Suc n]) = rows"
    if "vs_view s = PaginationView" "length rows \<le> n * VOTES_PAGE_SIZE" for n
  proof -
    have page: "pagedVotes (votes_step (GoToVotePage p) s) rows = page_of p VOTES_PAGE_SIZE rows" if "1 \<le> p" for p
      using js_slice_page_of [OF that, of rows VOTES_PAGE_SIZE] \<open>vs_view s = PaginationView\<close>
      by (simp add: pagedVotes_def)
    have "map (\<lambda>p. pagedVotes (votes_step (GoToVotePage p) s) rows) [1..<Suc n] =
        map (\<lambda>p. page_of p VOTES_PAGE_SIZE rows) [1..<Suc n]"
      by (rule map_cong [OF refl], rule page) auto
    then show ?thesis using concat_all_pages [OF that(2)] by (simp only:)
  qed
  have endless: "pagedVotes ((votes_step LoadMoreVotes ^^ k) s) rows = take (vs_visible s + k * VOTES_PAGE_SIZE) rows"
    if "vs_view s = InfiniteView" for k
    using that by (simp add: pagedVotes_def load_more_votes js_slice_0 nat_int_add del: of_nat_add)
  have least: "VOTES_PAGE_SIZE \<le> vs_visible s"
    unfolding s_def by (rule votes_run_visible) (simp add: votes_initial_def)
  have "\<not> hasMoreVotes ((votes_step LoadMoreVotes ^^ length rows) s) rows"
    by (simp add: hasMoreVotes_def load_more_votes VOTES_PAGE_SIZE_def)
  then show "let s = votes_run evs (votes_initial m); rows = filteredVotes s vs in
    mset rows = mset (filter (vote_passes (vs_outcome s) (js_lower (js_trim (vs_search s)))) vs) \<and>
    sorted_wrt (\<lambda>a b. the (vote_time b) \<le> the (vote_time a)) rows \<and>
    (vs_view s = PaginationView \<longrightarrow> (\<forall>n. length rows \<le> n * VOTES_PAGE_SIZE \<longrightarrow>
      concat (map (\<lambda>p. pagedVotes (votes_step (GoToVotePage p) s) rows) [1..<Suc n]) = rows)) \<and>
    (vs_view s = InfiniteView \<longrightarrow> (\<forall>k. pagedVotes ((votes_step LoadMoreVotes ^^ k) s) rows =
      take (vs_visible s + k * VOTES_PAGE_SIZE) rows)) \<and>
    VOTES_PAGE_SIZE \<le> vs_visible s \<and>
    (\<exists>k. \<not> hasMoreVotes ((votes_step LoadMoreVotes ^^ k) s) rows)"
    unfolding Let_def s_def [symmetric] rows_def [symmetric]
    using same newest_first [OF assms, of s, folded rows_def] pages endless least by blast
qed

section \<open>Samples\<close>

text \<open>A printer of times with its parser; a proposal of 100 seconds ago, for which the steps are three seconds long.\<close>

definition sample_iso :: "int \<Rightarrow> string" where
  "sample_iso t = (if 0 \<le> t then CHR ''+'' # dec_nat (nat t) else CHR ''-'' # dec_nat (nat (- t)))"

definition sample_parse_iso :: "string \<Rightarrow> int" where
  "sample_parse_iso s =
     (case s of [] \<Rightarrow> 0
      | c # ds \<Rightarrow> if c = CHR ''+'' then int (digits_val ds) else - int (digits_val ds))"

lemma sample_iso_parsed: "sample_parse_iso (sample_iso t) = t"
  by (simp add: sample_parse_iso_def sample_iso_def)

text \<open>
  A proposal of 110 seconds ago, for which the steps are four seconds long and the chart ends two seconds before the
  minute; the third vote is cast after that.
\<close>

definition late_vote_env :: gov_env where
  "late_vote_env = sample_env\<lparr>redis_hvals := (\<lambda>_.
     [print_vote ''c-0'' 5 ''yes'' ''funding'', print_vote ''d-1'' 20 ''no'' ''funding'',
      print_vote ''e-2'' 119 ''no'' ''funding''])\<rparr>"

lemma late_vote_protx: "fst (getProtxOutpoint late_vote_env 0 Map.empty) = Inr sample_maps"
  by (simp add: getProtxOutpoint_def cache_get_def redis_get_def late_vote_env_def sample_env_def rpc_defs
      callMethod_no_handler sample_maps_def Let_def)

lemma late_vote_timely: "\<forall>raw \<in> set (redis_hvals late_vote_env k). timely raw"
  by (simp add: late_vote_env_def timely_def ProposalVote_fromRaw_print)

lemma no_index: "dec_int 0 = ''0''"
  by (simp add: dec_int_def dec_nat.simps digit_char_def char_of_def bit_0)

lemma late_vote_events:
  "vote_events (weightMap sample_maps) (redis_hvals late_vote_env k) =
     [\<lparr>ev_time = 5000, ev_outcome = ''yes'', ev_weight = 4\<rparr>, \<lparr>ev_time = 20000, ev_outcome = ''no'', ev_weight = 1\<rparr>,
      \<lparr>ev_time = 119000, ev_outcome = ''no'', ev_weight = 1\<rparr>]"
  by (simp add: late_vote_env_def event_of_def ProposalVote_fromRaw_print vote_weight_def sample_maps_def build_maps_def
      add_entry_def outpoint_of_def starts_with_def no_index Let_def)

theorem proposal_chart_reach_witness:
  "\<exists>points. length points = 27 \<and>
    fst (vote_series_handler sample_parse_iso late_vote_env 0 ''h''
      (fst (chart_request sample_iso 120500 RAll (Some 10000) Cumulative))
      (snd (chart_request sample_iso 120500 RAll (Some 10000) Cumulative)) Map.empty) = Inr (Sent 200 points) \<and>
    data (last points) = Some \<lparr>yes = 4, no = 1, abstain = 0\<rparr>"
proof -
  have bounds: "rangeBounds 120500 RAll (Some 10000) = (10000, 120000)"
    by (simp add: rangeBounds_def Let_def)
  have "\<lceil>of_int 110000 / of_int 36 / 1000 :: rat\<rceil> = 4" by (simp add: ceiling_eq_iff)
  then have step: "count_interval_ms 10000 120000 (of_int (RANGE_BUCKETS RAll)) = 4000"
    by (simp add: count_interval_ms_def)
  have parsed: "\<forall>t. sample_parse_iso (sample_iso t) = t" by (simp add: sample_iso_parsed)
  have "fst (rangeBounds 120500 RAll (Some 10000)) < snd (rangeBounds 120500 RAll (Some 10000))"
    by (simp add: bounds)
  from proposal_chart_reach [OF parsed late_vote_protx late_vote_timely this, of "''h''" Cumulative]
  show ?thesis unfolding case_prod_beta bounds fst_conv snd_conv Let_def step
    by (elim exE) (rule exI, auto simp: late_vote_events last_map new_SeriesData_def tally_of_def outcome_weight_def)
qed

definition sample_vote :: "string \<Rightarrow> int \<Rightarrow> ProposalVote" where
  "sample_vote o' t = \<lparr>vote_outpoint = o', vote_proTxHash = None, vote_proposalHash = JUndef,
     vote_time = Some t, vote_outcome = ''yes'', vote_signal = ''funding''\<rparr>"

theorem votes_table_witness:
  "let s = votes_run [SearchVotes ''AB'', LoadMoreVotes, ChangeVoteView PaginationView] (votes_initial InfiniteView);
       rows = filteredVotes s [sample_vote ''ab-0'' 5, sample_vote ''cd-1'' 7, sample_vote ''ab-2'' 9] in
   concat (map (\<lambda>p. pagedVotes (votes_step (GoToVotePage p) s) rows) [1..<Suc 1]) = rows \<and>
   length rows = 2"
proof -
  let ?vs = "[sample_vote ''ab-0'' 5, sample_vote ''cd-1'' 7, sample_vote ''ab-2'' 9]"
  let ?s = "votes_run [SearchVotes ''AB'', LoadMoreVotes, ChangeVoteView PaginationView] (votes_initial InfiniteView)"
  have "\<forall>v \<in> set ?vs. vote_time v \<noteq> None" by (simp add: sample_vote_def)
  note all = votes_table [OF this, rule_format,
      of "[SearchVotes ''AB'', LoadMoreVotes, ChangeVoteView PaginationView]" InfiniteView, unfolded Let_def]
  have search: "js_lower (js_trim ''AB'') = ''ab''" by code_simp
  have state: "vs_search ?s = ''AB''" "vs_outcome ?s = AnyOutcome" "vs_view ?s = PaginationView"
    by (simp_all add: votes_run_def votes_initial_def)
  have "vote_passes AnyOutcome ''ab'' (sample_vote ''ab-0'' 5)" "\<not> vote_passes AnyOutcome ''ab'' (sample_vote ''cd-1'' 7)"
    "vote_passes AnyOutcome ''ab'' (sample_vote ''ab-2'' 9)"
    unfolding vote_passes_def sample_vote_def by code_simp+
  then have "mset (filteredVotes ?s ?vs) = {#sample_vote ''ab-0'' 5, sample_vote ''ab-2'' 9#}"
    using conjunct1 [OF all] by (simp add: state search)
  then have "size (mset (filteredVotes ?s ?vs)) = 2" by simp
  then have "length (filteredVotes ?s ?vs) = 2" by (simp only: size_mset)
  moreover from this have "concat (map (\<lambda>p. pagedVotes (votes_step (GoToVotePage p) ?s) (filteredVotes ?s ?vs)) [1..<Suc 1]) =
      filteredVotes ?s ?vs"
    by (intro conjunct1 [OF conjunct2 [OF conjunct2 [OF all]], rule_format, OF state(3)])
      (simp add: VOTES_PAGE_SIZE_def)
  ultimately show ?thesis by (simp only: Let_def)
qed

end
