(* ===== verification/SearchBox.thy ===== *)
theory SearchBox
  imports Search FlowGraph
begin

text \<open>
  The search boxes of the web interface, \<open>frontend/src/themes/neo/components/spotlight-search.tsx\<close> and
  \<open>themes/dash/components/search-bar.tsx\<close>: the items they offer for an answer of the API, the recent
  items kept in \<open>localStorage\<close>, and the text that is sent once the reader has stopped typing. The
  JSON coding of the stored items is a parameter. A \<open>null\<close> in a template is the text \<open>null\<close>.
\<close>

section \<open>Items\<close>

datatype Category = BlockItem | TransactionItem | MasternodeItem | AddressItem | DaoItem

record RecentItem =
  ri_category :: Category
  ri_label :: string
  ri_sub :: "string option"
  ri_to :: string

definition in_template :: "string option \<Rightarrow> string" where
  "in_template x = or_else x ''null''"

definition int_in_template :: "int option \<Rightarrow> string" where
  "int_in_template x = (case x of Some i \<Rightarrow> dec_int i | None \<Rightarrow> ''null'')"

definition block_item :: "string \<Rightarrow> Block \<Rightarrow> RecentItem" where
  "block_item heading b =
     \<lparr>ri_category = BlockItem, ri_label = heading @ ''#'' @ int_in_template (bk_height b),
      ri_sub = bk_hash b, ri_to = ''/blocks/'' @ in_template (bk_hash b)\<rparr>"

definition middle_dot :: string where "middle_dot = [CHR '' '', CHR 0xC2, CHR 0xB7, CHR '' '']"

definition transaction_item :: "'p Transaction \<Rightarrow> RecentItem" where
  "transaction_item t =
     \<lparr>ri_category = TransactionItem, ri_label = in_template (tr_hash t), ri_sub = None,
      ri_to = ''/transactions/'' @ in_template (tr_hash t)\<rparr>"

definition masternode_item :: "Masternode \<Rightarrow> RecentItem" where
  "masternode_item m =
     \<lparr>ri_category = MasternodeItem, ri_label = in_template (proTxHash m), ri_sub = None,
      ri_to = ''/masternodes/'' @ in_template (proTxHash m)\<rparr>"

definition address_item :: "Address \<Rightarrow> RecentItem" where
  "address_item a =
     \<lparr>ri_category = AddressItem, ri_label = in_template (ad_address a), ri_sub = None,
      ri_to = ''/address/'' @ in_template (ad_address a)\<rparr>"

lemmas item_defs = block_item_def transaction_item_def masternode_item_def address_item_def in_template_def

definition listed :: "'a option \<Rightarrow> 'a list" where
  "listed x = (case x of Some y \<Rightarrow> [y] | None \<Rightarrow> [])"

definition search_items :: "'p SearchResult option \<Rightarrow> RecentItem list" where
  "search_items found =
     (case found of
        None \<Rightarrow> []
      | Some r \<Rightarrow>
          map (block_item ''Block '') (listed (sr_block r)) @
          map transaction_item (listed (sr_transaction r)) @
          map masternode_item (listed (sr_masternode r)) @
          map address_item (listed (sr_address r)))"

text \<open>The older search bar shows shorter labels for the same places.\<close>

definition bar_label :: "RecentItem \<Rightarrow> string" where
  "bar_label item =
     (case ri_category item of
        TransactionItem \<Rightarrow> take 12 (ri_label item) @ ''...''
      | MasternodeItem \<Rightarrow> take 12 (ri_label item) @ ''...''
      | _ \<Rightarrow> ri_label item)"

definition suggestions :: "Block list js \<Rightarrow> Masternode list js \<Rightarrow> RecentItem list" where
  "suggestions latestBlocks topMasternodes =
     (case first (coalesce latestBlocks []) of
        Some b \<Rightarrow> [block_item (''Latest block'' @ middle_dot) b] | None \<Rightarrow> []) @
     (case first (coalesce topMasternodes []) of
        Some m \<Rightarrow> [\<lparr>ri_category = MasternodeItem, ri_label = ''Top masternode'', ri_sub = proTxHash m,
                   ri_to = ''/masternodes/'' @ in_template (proTxHash m)\<rparr>]
      | None \<Rightarrow> []) @
     [\<lparr>ri_category = DaoItem, ri_label = ''DAO budget & proposals'', ri_sub = None, ri_to = ''/dao''\<rparr>]"

text \<open>How an item is written: a long label, or one that begins with a zero, is cut in the middle.\<close>

definition item_text :: "RecentItem \<Rightarrow> string \<times> string option" where
  "item_text item =
     (if starts_with (ri_label item) ''0'' \<or> length (ri_label item) > 24
      then truncateAddress (ri_label item) 10 6 else ri_label item,
      case ri_sub item of
        Some sub \<Rightarrow> if sub = [] then None else Some (truncateAddress sub 12 8)
      | None \<Rightarrow> None)"

section \<open>Recent items\<close>

definition RECENT_KEY :: string where "RECENT_KEY = ''dashscan:recent-searches''"
definition RECENT_MAX :: nat where "RECENT_MAX = 5"

record json_code =
  jc_print :: "RecentItem list \<Rightarrow> string"
  jc_parse :: "string \<Rightarrow> RecentItem list option option"

text \<open>
  The storage: whether there is a window, whether an access throws, and what is stored. \<open>jc_parse\<close>
  answers \<open>None\<close> when it throws and \<open>Some None\<close> for a value that is no array.
\<close>

record item_storage =
  is_window :: bool
  usable :: bool
  stored :: "(string \<times> string) list"

definition loadRecents :: "json_code \<Rightarrow> item_storage \<Rightarrow> RecentItem list" where
  "loadRecents jc st =
     (if \<not> is_window st \<or> \<not> usable st then []
      else (case map_of (stored st) RECENT_KEY of
              None \<Rightarrow> []
            | Some raw \<Rightarrow>
                if raw = [] then []
                else (case jc_parse jc raw of
                        None \<Rightarrow> [] | Some None \<Rightarrow> []
                      | Some (Some parsed) \<Rightarrow> take RECENT_MAX parsed)))"

definition saveRecents :: "json_code \<Rightarrow> RecentItem list \<Rightarrow> item_storage \<Rightarrow> item_storage" where
  "saveRecents jc its st =
     (if \<not> is_window st \<or> \<not> usable st then st
      else st\<lparr>stored := AList.update RECENT_KEY (jc_print jc its) (stored st)\<rparr>)"

definition next_recents :: "RecentItem \<Rightarrow> RecentItem list \<Rightarrow> RecentItem list" where
  "next_recents item prev =
     take RECENT_MAX (item # filter (\<lambda>r. ri_to r \<noteq> ri_to item) prev)"

definition pushRecent ::
  "json_code \<Rightarrow> RecentItem \<Rightarrow> RecentItem list \<times> item_storage \<Rightarrow> RecentItem list \<times> item_storage" where
  "pushRecent jc item s =
     (let next' = next_recents item (fst s) in (next', saveRecents jc next' (snd s)))"

text \<open>The reference: all that was ever selected, the latest first, each place once.\<close>

fun once_each :: "RecentItem list \<Rightarrow> RecentItem list" where
  "once_each [] = []"
| "once_each (x # xs) = x # filter (\<lambda>r. ri_to r \<noteq> ri_to x) (once_each xs)"

lemma once_each_distinct: "distinct (map ri_to (once_each xs))"
  by (induction xs) (auto simp: distinct_map_filter)

lemma distinct_filter_short:
  assumes "distinct (map f xs)"
  shows "length (filter (\<lambda>r. f r \<noteq> a) xs) + 1 \<ge> length xs"
  using assms
proof (induction xs)
  case (Cons x xs)
  have "f y \<noteq> f x" if "y \<in> set xs" for y using Cons.prems that by (simp, metis image_eqI)
  then have "filter (\<lambda>r. f r \<noteq> f x) xs = xs" by (simp add: filter_id_conv)
  with Cons show ?case by auto
qed simp

lemma take_filter_take:
  assumes "distinct (map f xs)"
  shows "take n (filter (\<lambda>r. f r \<noteq> a) (take (Suc n) xs)) = take n (filter (\<lambda>r. f r \<noteq> a) xs)"
proof -
  let ?P = "\<lambda>r. f r \<noteq> a"
  have "filter ?P xs = filter ?P (take (Suc n) xs) @ filter ?P (drop (Suc n) xs)"
    by (metis append_take_drop_id filter_append)
  moreover have "length (take (Suc n) xs) \<le> length (filter ?P (take (Suc n) xs)) + 1"
    using distinct_filter_short [of f "take (Suc n) xs" a] assms by (metis distinct_take take_map)
  ultimately show ?thesis by (cases "Suc n \<le> length xs") auto
qed

lemma next_recents_once:
  "next_recents item (take RECENT_MAX (once_each xs)) = take RECENT_MAX (once_each (item # xs))"
  using take_filter_take [OF once_each_distinct, of 4 "ri_to item" xs]
  by (simp add: next_recents_def RECENT_MAX_def eval_nat_numeral)

definition select_all ::
  "json_code \<Rightarrow> RecentItem list \<Rightarrow> RecentItem list \<times> item_storage \<Rightarrow> RecentItem list \<times> item_storage" where
  "select_all jc its s = fold (pushRecent jc) its s"

lemma select_all_items:
  "fst s = take RECENT_MAX (once_each xs) \<Longrightarrow>
   fst (select_all jc its s) = take RECENT_MAX (once_each (rev its @ xs))"
  unfolding select_all_def
proof (induction its arbitrary: s xs)
  case (Cons it its)
  have "fst (pushRecent jc it s) = take RECENT_MAX (once_each (it # xs))"
    using Cons.prems by (simp add: pushRecent_def Let_def next_recents_once)
  from Cons.IH [OF this] show ?case by simp
qed simp

lemma pushRecent_loads:
  assumes "\<And>its. jc_parse jc (jc_print jc its) = Some (Some its)" "\<And>its. jc_print jc its \<noteq> []"
    "is_window (snd s)" "usable (snd s)"
  shows "is_window (snd (pushRecent jc it s)) \<and> usable (snd (pushRecent jc it s)) \<and>
    loadRecents jc (snd (pushRecent jc it s)) = fst (pushRecent jc it s)"
  using assms by (simp add: pushRecent_def saveRecents_def loadRecents_def next_recents_def update_conv' Let_def)

lemma select_all_loads:
  assumes "\<And>its. jc_parse jc (jc_print jc its) = Some (Some its)" "\<And>its. jc_print jc its \<noteq> []"
  shows "is_window (snd s) \<Longrightarrow> usable (snd s) \<Longrightarrow> loadRecents jc (snd s) = fst s \<Longrightarrow>
    loadRecents jc (snd (select_all jc its s)) = fst (select_all jc its s)"
  unfolding select_all_def
proof (induction its arbitrary: s)
  case (Cons it its)
  show ?case using Cons.IH [of "pushRecent jc it s"] pushRecent_loads [OF assms Cons.prems(1,2), of it] by simp
qed simp

text \<open>
  The recent searches. After any selections, made since the dialog was opened on an empty store,
  the list shows the five places selected last, the latest first and each once; and where the
  storage works, opening the dialog again shows the same list.
\<close>

theorem recents_are_latest:
  assumes "\<And>its. jc_parse jc (jc_print jc its) = Some (Some its)" "\<And>its. jc_print jc its \<noteq> []"
    "map_of (stored st) RECENT_KEY = None"
  shows "fst (select_all jc its (loadRecents jc st, st)) = take 5 (once_each (rev its)) \<and>
    distinct (map ri_to (fst (select_all jc its (loadRecents jc st, st)))) \<and>
    (is_window st \<and> usable st \<longrightarrow>
      loadRecents jc (snd (select_all jc its (loadRecents jc st, st))) =
      fst (select_all jc its (loadRecents jc st, st)))"
proof -
  have "loadRecents jc st = take RECENT_MAX (once_each [])" using assms(3) by (simp add: loadRecents_def)
  then have items: "fst (select_all jc its (loadRecents jc st, st)) = take 5 (once_each (rev its))"
    using select_all_items [of "(loadRecents jc st, st)" "[]" jc its] by (simp add: RECENT_MAX_def)
  moreover have "distinct (map ri_to (take 5 (once_each (rev its))))"
    using once_each_distinct [of "rev its"] by (metis distinct_take take_map)
  ultimately show ?thesis
    using select_all_loads [OF assms(1,2), of "(loadRecents jc st, st)" its] by simp
qed

section \<open>What the items lead to\<close>

text \<open>
  What the tables hold. A hash is printed with 64 lower-case hexadecimal digits. An address of Dash is the Base58 text of
  25 bytes: the version of its network and kind, 20 bytes of a hash and 4 of a checksum. The versions are
  those of the node: 76 and 16 on the main network, 140 and 19 on the test network, for keys
  and for scripts.
\<close>

definition printed_hash :: "string \<Rightarrow> bool" where
  "printed_hash h \<longleftrightarrow> length h = 64 \<and> set h \<subseteq> set ''0123456789abcdef''"

definition base58_alphabet :: string where
  "base58_alphabet = ''123456789ABCDEFGHJKLMNPQRSTUVWXYZabcdefghijkmnopqrstuvwxyz''"

fun base58 :: "nat \<Rightarrow> nat \<Rightarrow> string" where
  "base58 0 n = []"
| "base58 (Suc k) n = base58 k (n div 58) @ [base58_alphabet ! (n mod 58)]"

fun address_versions :: "network \<Rightarrow> nat list" where
  "address_versions Mainnet = [76, 16]"
| "address_versions Testnet = [140, 19]"

definition dash_address :: "network \<Rightarrow> string \<Rightarrow> bool" where
  "dash_address net a \<longleftrightarrow>
     (\<exists>v \<in> set (address_versions net). \<exists>rest < 256 ^ 24. a = base58 34 (v * 256 ^ 24 + rest))"

definition holds_dash_data :: "network \<Rightarrow> db \<Rightarrow> bool" where
  "holds_dash_data net d \<longleftrightarrow>
     (\<forall>b \<in> set (db_blocks d). \<forall>h. b_hash b = Some h \<longrightarrow> printed_hash h) \<and>
     (\<forall>t \<in> set (db_transactions d). printed_hash (t_hash t)) \<and>
     (\<forall>m \<in> set (db_masternodes d). \<forall>h. mr_pro_tx_hash m = J h \<longrightarrow> printed_hash h) \<and>
     (\<forall>a \<in> set (db_addresses d). dash_address net (a_address a))"

lemma printed_hash_hex: "printed_hash h \<Longrightarrow> is_hex64 h"
proof -
  assume h: "printed_hash h"
  have "list_all is_hex_char ''0123456789abcdef''" by (simp add: is_hex_char_def)
  with h show "is_hex64 h" unfolding printed_hash_def is_hex64_def list_all_iff by blast
qed

lemma length_base58: "length (base58 k n) = k"
  by (induction k arbitrary: n) simp_all

lemma base58_char: "d < 58 \<Longrightarrow> is_base58_char (base58_alphabet ! d)"
proof -
  assume d: "d < 58"
  have "list_all is_base58_char base58_alphabet" by (simp add: base58_alphabet_def is_base58_char_def)
  moreover have "length base58_alphabet = 58" by (simp add: base58_alphabet_def)
  ultimately show ?thesis using d by (simp add: list_all_length)
qed

lemma base58_chars: "list_all is_base58_char (base58 k n)"
  by (induction k arbitrary: n) (simp_all add: base58_char)

lemma base58_leading: "base58 (Suc k) n = base58_alphabet ! (n div 58 ^ k mod 58) # base58 k n"
proof (induction k arbitrary: n)
  case (Suc k)
  have "base58 (Suc (Suc k)) n = base58 (Suc k) (n div 58) @ [base58_alphabet ! (n mod 58)]" by simp
  also have "\<dots> = (base58_alphabet ! (n div 58 div 58 ^ k mod 58) # base58 k (n div 58)) @ [base58_alphabet ! (n mod 58)]"
    by (simp only: Suc.IH)
  also have "n div 58 div 58 ^ k = n div 58 ^ Suc k" by (simp add: div_mult2_eq)
  finally show ?case by simp
qed simp

lemma leading_digit:
  assumes "lo * 58 ^ 33 \<le> n" "n < (hi + 1) * 58 ^ 33" "hi < 58"
  shows "\<exists>d. lo \<le> d \<and> d \<le> hi \<and> base58 34 n = base58_alphabet ! d # base58 33 n"
proof -
  define m :: nat where "m = 58 ^ 33"
  have m: "0 < m" unfolding m_def by (rule zero_less_power) simp
  have "lo \<le> n div m" using assms(1) less_eq_div_iff_mult_less_eq [OF m] by (simp only: m_def)
  moreover have "n div m < hi + 1" using assms(2) unfolding m_def by (rule less_mult_imp_div_less)
  moreover from this have "n div m mod 58 = n div m" using assms(3) by simp
  moreover have "base58 34 n = base58_alphabet ! (n div m mod 58) # base58 33 n"
    using base58_leading [of 33 n] unfolding m_def by (simp del: base58.simps)
  ultimately show ?thesis by (intro exI [of _ "n div m"]) simp
qed

text \<open>The expression of the search knows every address of the main network, and of the test network those not beginning with 9.\<close>

lemma dash_address_text:
  assumes "dash_address net a"
  shows "length a = 34" "\<forall>c \<in> set a. is_base58_char c"
    "is_address_text net a \<longleftrightarrow> \<not> (net = Testnet \<and> hd a = CHR ''9'')"
proof -
  obtain v rest where v: "v \<in> set (address_versions net)" "rest < 256 ^ 24" "a = base58 34 (v * 256 ^ 24 + rest)"
    using assms by (auto simp: dash_address_def)
  show "length a = 34" "\<forall>c \<in> set a. is_base58_char c"
    using v(3) length_base58 base58_chars by (auto simp: list_all_iff)
  let ?n = "v * 256 ^ 24 + rest"
  have shape: "is_address_text net (c # base58 33 n) \<longleftrightarrow> c \<in> set (address_prefixes net)" for c n
    by (simp add: is_address_text_def length_base58 base58_chars)
  have bounds: "v * 256 ^ 24 \<le> ?n" "?n < (v + 1) * 256 ^ 24" using v(2) by simp_all
  show "is_address_text net a \<longleftrightarrow> \<not> (net = Testnet \<and> hd a = CHR ''9'')"
  proof (cases net)
    case Mainnet
    then consider "v = 76" | "v = 16" using v(1) by auto
    then show ?thesis
    proof cases
      case 1
      obtain d where "30 \<le> d" "d \<le> 30" "a = base58_alphabet ! d # base58 33 ?n"
        using leading_digit [of 30 ?n 30] bounds unfolding v(3) 1 by fastforce
      then show ?thesis using shape [of "base58_alphabet ! d" ?n] Mainnet by (simp add: base58_alphabet_def)
    next
      case 2
      obtain d where "6 \<le> d" "d \<le> 6" "a = base58_alphabet ! d # base58 33 ?n"
        using leading_digit [of 6 ?n 6] bounds unfolding v(3) 2 by fastforce
      then show ?thesis using shape [of "base58_alphabet ! d" ?n] Mainnet by (simp add: base58_alphabet_def)
    qed
  next
    case Testnet
    then consider "v = 140" | "v = 19" using v(1) by auto
    then show ?thesis
    proof cases
      case 1
      obtain d where "56 \<le> d" "d \<le> 56" "a = base58_alphabet ! d # base58 33 ?n"
        using leading_digit [of 56 ?n 56] bounds unfolding v(3) 1 by fastforce
      then show ?thesis using shape [of "base58_alphabet ! d" ?n] Testnet by (simp add: base58_alphabet_def)
    next
      case 2
      obtain d where "7 \<le> d" "d \<le> 8" "a = base58_alphabet ! d # base58 33 ?n"
        using leading_digit [of 7 ?n 8] bounds unfolding v(3) 2 by fastforce
      moreover from this have "d = 7 \<or> d = 8" by linarith
      ultimately show ?thesis
        using shape [of "base58_alphabet ! d" ?n] Testnet by (auto simp: base58_alphabet_def)
    qed
  qed
qed

text \<open>
  C20: the items of the search box, over the search of the API, where the tables hold hashes as they are
  printed and addresses of Dash. For a text that is no number, an item is offered for exactly the
  block, transaction, masternode and address that the tables hold under the text as it was typed (but for the
  spaces around it), each item leads to the page of what was found, and no two of them have the
  same heading. Only the addresses of scripts of the test network that begin with a 9 are not found although
  they are held.
\<close>

theorem search_items_exact:
  assumes "\<not> is_integer_text (js_trim query)" "holds_dash_data net d"
  shows "\<exists>r. search sdk net d query = Inr r \<and> distinct (map ri_category (search_items (Some r))) \<and>
    set (map (\<lambda>i. (ri_category i, ri_to i)) (search_items (Some r))) =
      (if Some (js_trim query) \<in> b_hash ` set (db_blocks d)
       then {(BlockItem, ''/blocks/'' @ js_trim query)} else {}) \<union>
      (if js_trim query \<in> t_hash ` set (db_transactions d)
       then {(TransactionItem, ''/transactions/'' @ js_trim query)} else {}) \<union>
      (if J (js_trim query) \<in> mr_pro_tx_hash ` set (db_masternodes d)
       then {(MasternodeItem, ''/masternodes/'' @ js_trim query)} else {}) \<union>
      (if js_trim query \<in> a_address ` set (db_addresses d) \<and>
          \<not> (net = Testnet \<and> hd (js_trim query) = CHR ''9'')
       then {(AddressItem, ''/address/'' @ js_trim query)} else {})"
proof -
  obtain r where r: "search sdk net d query = Inr r"
    "sr_transaction r \<noteq> None \<longleftrightarrow> is_hex64 (js_trim query) \<and> js_trim query \<in> t_hash ` set (db_transactions d)"
    "\<forall>tx. sr_transaction r = Some tx \<longrightarrow> tr_hash tx = Some (js_trim query)"
    "sr_block r \<noteq> None \<longleftrightarrow> is_hex64 (js_trim query) \<and> Some (js_trim query) \<in> b_hash ` set (db_blocks d)"
    "\<forall>b. sr_block r = Some b \<longrightarrow> bk_hash b = Some (js_trim query)"
    "sr_masternode r \<noteq> None \<longleftrightarrow> is_hex64 (js_trim query) \<and> J (js_trim query) \<in> mr_pro_tx_hash ` set (db_masternodes d)"
    "\<forall>m. sr_masternode r = Some m \<longrightarrow> proTxHash m = Some (js_trim query)"
    "sr_address r \<noteq> None \<longleftrightarrow> \<not> is_hex64 (js_trim query) \<and> is_address_text net (js_trim query) \<and>
       js_trim query \<in> a_address ` set (db_addresses d)"
    "\<forall>a. sr_address r = Some a \<longrightarrow> ad_address a = Some (js_trim query)"
    using search_finds [OF assms(1), of sdk net d] by (elim exE conjE) (rule that; assumption)
  have held: "Some (js_trim query) \<in> b_hash ` set (db_blocks d) \<Longrightarrow> is_hex64 (js_trim query)"
    "js_trim query \<in> t_hash ` set (db_transactions d) \<Longrightarrow> is_hex64 (js_trim query)"
    "J (js_trim query) \<in> mr_pro_tx_hash ` set (db_masternodes d) \<Longrightarrow> is_hex64 (js_trim query)"
    using assms(2) unfolding holds_dash_data_def by (metis imageE printed_hash_hex)+
  have address: "\<not> is_hex64 (js_trim query) \<and>
      (is_address_text net (js_trim query) \<longleftrightarrow> \<not> (net = Testnet \<and> hd (js_trim query) = CHR ''9''))"
    if "js_trim query \<in> a_address ` set (db_addresses d)"
    using assms(2) that dash_address_text [of net "js_trim query"] by (auto simp: holds_dash_data_def is_hex64_def)
  let ?f = "\<lambda>i. (ri_category i, ri_to i)"
  have parts: "search_items (Some r) =
      map (block_item ''Block '') (listed (sr_block r)) @ map transaction_item (listed (sr_transaction r)) @
      map masternode_item (listed (sr_masternode r)) @ map address_item (listed (sr_address r))"
    by (simp add: search_items_def)
  have once: "distinct (map ri_category (search_items (Some r)))"
    unfolding parts by (auto simp: listed_def item_defs split: option.splits)
  have part1: "set (map ?f (map (block_item ''Block '') (listed (sr_block r)))) =
      (if sr_block r \<noteq> None then {(BlockItem, ''/blocks/'' @ js_trim query)} else {})"
    using r(5) by (cases "sr_block r") (simp_all add: listed_def item_defs)
  have part2: "set (map ?f (map transaction_item (listed (sr_transaction r)))) =
      (if sr_transaction r \<noteq> None then {(TransactionItem, ''/transactions/'' @ js_trim query)} else {})"
    using r(3) by (cases "sr_transaction r") (simp_all add: listed_def item_defs)
  have part3: "set (map ?f (map masternode_item (listed (sr_masternode r)))) =
      (if sr_masternode r \<noteq> None then {(MasternodeItem, ''/masternodes/'' @ js_trim query)} else {})"
    using r(7) by (cases "sr_masternode r") (simp_all add: listed_def item_defs)
  have part4: "set (map ?f (map address_item (listed (sr_address r)))) =
      (if sr_address r \<noteq> None then {(AddressItem, ''/address/'' @ js_trim query)} else {})"
    using r(9) by (cases "sr_address r") (simp_all add: listed_def item_defs)
  have "set (map ?f (search_items (Some r))) =
      (if sr_block r \<noteq> None then {(BlockItem, ''/blocks/'' @ js_trim query)} else {}) \<union>
      (if sr_transaction r \<noteq> None then {(TransactionItem, ''/transactions/'' @ js_trim query)} else {}) \<union>
      (if sr_masternode r \<noteq> None then {(MasternodeItem, ''/masternodes/'' @ js_trim query)} else {}) \<union>
      (if sr_address r \<noteq> None then {(AddressItem, ''/address/'' @ js_trim query)} else {})"
    by (simp only: parts map_append set_append part1 part2 part3 part4 Un_assoc)
  moreover have "sr_block r \<noteq> None \<longleftrightarrow> Some (js_trim query) \<in> b_hash ` set (db_blocks d)"
    "sr_transaction r \<noteq> None \<longleftrightarrow> js_trim query \<in> t_hash ` set (db_transactions d)"
    "sr_masternode r \<noteq> None \<longleftrightarrow> J (js_trim query) \<in> mr_pro_tx_hash ` set (db_masternodes d)"
    "sr_address r \<noteq> None \<longleftrightarrow> js_trim query \<in> a_address ` set (db_addresses d) \<and>
       \<not> (net = Testnet \<and> hd (js_trim query) = CHR ''9'')"
    using held address r(2,4,6,8) by blast+
  ultimately show ?thesis using r(1) once by (intro exI [of _ r]) (simp only: simp_thms)
qed

section \<open>Typing\<close>

text \<open>
  A change of the text starts a timer, which is cancelled by the next change; when it goes off, the
  trimmed text is sent if it is not empty. Selecting an item clears both texts, and closes the
  dialog.
\<close>

definition DEBOUNCE_MS :: int where "DEBOUNCE_MS = 250"

record box_state =
  box_query :: string
  box_due :: "int option"
  box_sent :: string

definition box_initial :: "int \<Rightarrow> box_state" where
  "box_initial now = \<lparr>box_query = [], box_due = Some (now + DEBOUNCE_MS), box_sent = []\<rparr>"

definition typed :: "int \<Rightarrow> string \<Rightarrow> box_state \<Rightarrow> box_state" where
  "typed now shown s =
     (if shown = box_query s then s else s\<lparr>box_query := shown, box_due := Some (now + DEBOUNCE_MS)\<rparr>)"

definition timer_fires :: "box_state \<Rightarrow> box_state" where
  "timer_fires s = s\<lparr>box_due := None, box_sent := js_trim (box_query s)\<rparr>"

definition select_item :: "int \<Rightarrow> box_state \<Rightarrow> box_state" where
  "select_item now s = (typed now [] s)\<lparr>box_sent := []\<rparr>"

datatype box_event = Typed string | TimerFires | ItemSelected

inductive box_step :: "int \<Rightarrow> box_state \<Rightarrow> box_event \<Rightarrow> box_state \<Rightarrow> bool" where
  "box_step now s (Typed shown) (typed now shown s)"
| "box_due s = Some t \<Longrightarrow> t \<le> now \<Longrightarrow> box_step now s TimerFires (timer_fires s)"
| "box_step now s ItemSelected (select_item now s)"

inductive_cases box_stepE: "box_step now s ev s'"

text \<open>A run, with the time of each event; the events are the latest first.\<close>

inductive box_run :: "int \<Rightarrow> (int \<times> box_event) list \<Rightarrow> box_state \<Rightarrow> bool" for start where
  box_start: "box_run start [] (box_initial start)"
| box_more: "box_run start es s \<Longrightarrow> (\<forall>(t, ev) \<in> set es. t \<le> now) \<Longrightarrow> start \<le> now \<Longrightarrow>
    box_step now s ev s' \<Longrightarrow> box_run start ((now, ev) # es) s'"

text \<open>The text of the box after some events, and the time since which it has stood there.\<close>

fun text_after :: "int \<Rightarrow> (int \<times> box_event) list \<Rightarrow> string \<times> int" where
  "text_after start [] = ([], start)"
| "text_after start ((now, ev) # es) =
     (let (shown, since) = text_after start es in
      (case ev of
         Typed t \<Rightarrow> if t = shown then (shown, since) else (t, now)
       | ItemSelected \<Rightarrow> if shown = [] then (shown, since) else ([], now)
       | TimerFires \<Rightarrow> (shown, since)))"

lemma box_run_text:
  "box_run start es s \<Longrightarrow> box_query s = fst (text_after start es) \<and>
     (box_due s = None \<or> box_due s = Some (snd (text_after start es) + DEBOUNCE_MS))"
proof (induction rule: box_run.induct)
  case box_start
  then show ?case by (simp add: box_initial_def)
next
  case (box_more es s now ev s')
  obtain shown since where ts: "text_after start es = (shown, since)" by fastforce
  from box_more.hyps(4) box_more.IH show ?case
    by cases (auto simp: ts typed_def timer_fires_def select_item_def)
qed

text \<open>
  A text is sent only after the reader has stopped typing. Whenever the timer sends a text,
  it is the trimmed text of the box, and that text had been standing there unchanged for at least
  a quarter of a second; so of texts typed in quick succession only the last one is sent.
\<close>

theorem sent_text_stood:
  assumes "box_run start ((now, TimerFires) # es) s"
  shows "box_sent s = js_trim (fst (text_after start es)) \<and> snd (text_after start es) + DEBOUNCE_MS \<le> now"
  using assms
proof cases
  case (box_more s0)
  from box_run_text [OF box_more(1)] box_more(4) show ?thesis
    by (auto elim!: box_stepE simp: timer_fires_def)
qed

section \<open>Samples\<close>

text \<open>A hash in the table of the transactions, and an address of a script of the test network that begins with a 9.\<close>

definition nine_address :: string where "nine_address = base58 34 (20 * 256 ^ 24 - 1)"

definition search_sample :: db where
  "search_sample = sample_search_db\<lparr>db_blocks := [],
     db_transactions := [(sample_tx 64 (Some 1) False 0)\<lparr>t_hash := replicate 64 (CHR ''f'')\<rparr>],
     db_addresses := map (\<lambda>a. a\<lparr>a_address := nine_address\<rparr>) (take 1 (db_addresses sample_search_db))\<rparr>"

lemma search_sample_data: "holds_dash_data Testnet search_sample"
proof -
  have "dash_address Testnet nine_address"
    unfolding dash_address_def nine_address_def
    by (intro bexI [of _ 19] exI [of _ "256 ^ 24 - 1"]) simp_all
  moreover have "db_masternodes search_sample = []"
    by (simp add: search_sample_def sample_search_db_def sample_wallet_db_def)
  ultimately show ?thesis
    by (auto simp: holds_dash_data_def search_sample_def printed_hash_def dest: in_set_takeD)
qed

theorem search_items_exact_witness:
  "\<exists>r. search sample_sdk Testnet search_sample (replicate 64 (CHR ''f'')) = Inr r \<and>
    set (map (\<lambda>i. (ri_category i, ri_to i)) (search_items (Some r))) =
      {(TransactionItem, ''/transactions/'' @ replicate 64 (CHR ''f''))}"
proof -
  have query: "\<not> is_integer_text (js_trim (replicate 64 (CHR ''f'')))" by (simp add: sample_hash64)
  have held: "replicate 64 (CHR ''f'') \<in> t_hash ` set (db_transactions search_sample)"
    "Some (replicate 64 (CHR ''f'')) \<notin> b_hash ` set (db_blocks search_sample)"
    "J (replicate 64 (CHR ''f'')) \<notin> mr_pro_tx_hash ` set (db_masternodes search_sample)"
    by (simp_all add: search_sample_def sample_search_db_def sample_wallet_db_def)
  have long: "length nine_address = 34" by (simp only: nine_address_def length_base58)
  have "replicate 64 (CHR ''f'') \<noteq> nine_address"
  proof
    assume "replicate 64 (CHR ''f'') = nine_address"
    from arg_cong [OF this, of length] show False by (simp add: long)
  qed
  then have "replicate 64 (CHR ''f'') \<notin> a_address ` set (db_addresses search_sample)"
    by (auto simp: search_sample_def)
  with held show ?thesis
    using search_items_exact [OF query search_sample_data, of sample_sdk]
    unfolding sample_hash64(3) by simp blast
qed

text \<open>The address of the script is held and not found.\<close>

lemma nine_address_not_found: "\<not> is_address_text Testnet nine_address"
proof -
  obtain d where "8 \<le> d" "d \<le> 8" "nine_address = base58_alphabet ! d # base58 33 (20 * 256 ^ 24 - 1)"
    using leading_digit [of 8 "20 * 256 ^ 24 - 1" 8] unfolding nine_address_def by fastforce
  then have "nine_address = CHR ''9'' # base58 33 (20 * 256 ^ 24 - 1)" by (simp add: base58_alphabet_def)
  then have "is_address_text Testnet nine_address \<longleftrightarrow> is_address_text Testnet (CHR ''9'' # base58 33 (20 * 256 ^ 24 - 1))"
    by (rule arg_cong)
  then show ?thesis by (simp add: is_address_text_def [of _ "_ # _"])
qed

lemma typing_run:
  "box_run 0 ((900, TimerFires) # [(640, Typed ''7 ''), (600, Typed ''71'')])
     (timer_fires (typed 640 ''7 '' (typed 600 ''71'' (box_initial 0))))"
proof -
  have "box_run 0 [(600, Typed ''71'')] (typed 600 ''71'' (box_initial 0))"
    by (rule box_more [OF box_start _ _ box_step.intros(1)]) simp_all
  then have "box_run 0 [(640, Typed ''7 ''), (600, Typed ''71'')] (typed 640 ''7 '' (typed 600 ''71'' (box_initial 0)))"
    by (rule box_more [OF _ _ _ box_step.intros(1)]) simp_all
  then show ?thesis
    by (rule box_more [OF _ _ _ box_step.intros(2) [of _ 890]])
      (simp_all add: typed_def box_initial_def DEBOUNCE_MS_def)
qed

theorem sent_text_stood_witness:
  "box_sent (timer_fires (typed 640 ''7 '' (typed 600 ''71'' (box_initial 0)))) = ''7'' \<and>
   (640 :: int) + DEBOUNCE_MS \<le> 900"
proof -
  have trim: "js_trim ''7 '' = ''7''" by code_simp
  show ?thesis using sent_text_stood [OF typing_run] by (simp add: trim)
qed

end
