(* ===== verification/KeyboardNav.thy ===== *)
theory KeyboardNav
  imports JsText
begin

text \<open>
  The keyboard shortcuts, \<open>frontend/src/lib/use-keyboard-nav.tsx\<close>: \<open>g\<close> and then a letter opens a page,
  \<open>?\<close> opens and closes the list of shortcuts. The handler of key presses and the timer of the
  leader key act on a common state, in the order in which the browser runs them.
\<close>

section \<open>The shortcuts\<close>

record NavShortcut =
  ns_keys :: "string \<times> string"
  ns_label :: string
  ns_to :: string

definition NAV_SHORTCUTS :: "NavShortcut list" where
  "NAV_SHORTCUTS =
     [\<lparr>ns_keys = (''g'', ''d''), ns_label = ''Dashboard'', ns_to = ''/''\<rparr>,
      \<lparr>ns_keys = (''g'', ''b''), ns_label = ''Blocks'', ns_to = ''/blocks''\<rparr>,
      \<lparr>ns_keys = (''g'', ''t''), ns_label = ''Transactions'', ns_to = ''/transactions''\<rparr>,
      \<lparr>ns_keys = (''g'', ''m''), ns_label = ''Masternodes'', ns_to = ''/masternodes''\<rparr>,
      \<lparr>ns_keys = (''g'', ''a''), ns_label = ''DAO'', ns_to = ''/dao''\<rparr>]"

definition GLOBAL_SHORTCUTS :: "(string list \<times> string) list" where
  "GLOBAL_SHORTCUTS =
     [([''?''], ''Open this cheatsheet''),
      ([[CHR 0xE2, CHR 0x8C, CHR 0x98], ''K''], ''Open search''),
      ([''Esc''], ''Close dialog'')]"

definition find_shortcut :: "string \<Rightarrow> NavShortcut option" where
  "find_shortcut key = find (\<lambda>s. snd (ns_keys s) = key) NAV_SHORTCUTS"

section \<open>Key presses\<close>

datatype target = NoElement | Element string bool

fun isTypingTarget :: "target \<Rightarrow> bool" where
  "isTypingTarget NoElement \<longleftrightarrow> False"
| "isTypingTarget (Element tag editable) \<longleftrightarrow>
     tag = ''INPUT'' \<or> tag = ''TEXTAREA'' \<or> tag = ''SELECT'' \<or> editable"

record key_press =
  kp_key :: string
  kp_meta :: bool
  kp_ctrl :: bool
  kp_alt :: bool
  kp_shift :: bool
  kp_target :: target

text \<open>
  The state: whether the list is open, whether the leader is active, when its timer goes off, and
  the pages visited, the latest first.
\<close>

record nav_state =
  nv_open :: bool
  nv_leader :: bool
  nv_timer :: "int option"
  nv_visited :: "string list"

definition nav_initial :: nav_state where
  "nav_initial = \<lparr>nv_open = False, nv_leader = False, nv_timer = None, nv_visited = []\<rparr>"

definition LEADER_MS :: int where "LEADER_MS = 1500"

definition clearLeader :: "nav_state \<Rightarrow> nav_state" where
  "clearLeader s = s\<lparr>nv_leader := False, nv_timer := None\<rparr>"

definition ignored :: "key_press \<Rightarrow> bool" where
  "ignored e \<longleftrightarrow> kp_meta e \<or> kp_ctrl e \<or> kp_alt e \<or> isTypingTarget (kp_target e)"

definition opens_help :: "key_press \<Rightarrow> bool" where
  "opens_help e \<longleftrightarrow> kp_key e = ''?'' \<or> (kp_shift e \<and> kp_key e = ''/'')"

definition handler :: "int \<Rightarrow> key_press \<Rightarrow> nav_state \<Rightarrow> nav_state" where
  "handler now e s =
     (if kp_meta e \<or> kp_ctrl e \<or> kp_alt e then s
      else if isTypingTarget (kp_target e) then s
      else if opens_help e then clearLeader (s\<lparr>nv_open := \<not> nv_open s\<rparr>)
      else if kp_key e = ''Escape'' then clearLeader s
      else
        let key = js_lower (kp_key e) in
        if nv_leader s then
          clearLeader (case find_shortcut key of
                         Some t \<Rightarrow> s\<lparr>nv_visited := ns_to t # nv_visited s\<rparr>
                       | None \<Rightarrow> s)
        else if key = ''g'' then s\<lparr>nv_leader := True, nv_timer := Some (now + LEADER_MS)\<rparr>
        else s)"

datatype nav_event = KeyDown key_press | LeaderTimer

inductive nav_step :: "int \<Rightarrow> nav_state \<Rightarrow> nav_event \<Rightarrow> nav_state \<Rightarrow> bool" where
  "nav_step now s (KeyDown e) (handler now e s)"
| "nv_timer s = Some due \<Longrightarrow> due \<le> now \<Longrightarrow> nav_step now s LeaderTimer (clearLeader s)"

inductive_cases nav_stepE: "nav_step now s ev s'"

inductive nav_run :: "(int \<times> nav_event) list \<Rightarrow> nav_state \<Rightarrow> bool" where
  nav_start: "nav_run [] nav_initial"
| nav_more: "nav_run es s \<Longrightarrow> nav_step now s ev s' \<Longrightarrow> nav_run ((now, ev) # es) s'"

section \<open>When the leader is active\<close>

text \<open>The leader key was pressed, and since then there were only presses that are ignored.\<close>

definition is_leader_press :: "key_press \<Rightarrow> bool" where
  "is_leader_press e \<longleftrightarrow> \<not> ignored e \<and> js_lower (kp_key e) = ''g''"

fun pending_leader :: "(int \<times> nav_event) list \<Rightarrow> int option" where
  "pending_leader [] = None"
| "pending_leader ((now, LeaderTimer) # es) = None"
| "pending_leader ((now, KeyDown e) # es) =
     (if ignored e then pending_leader es
      else if is_leader_press e \<and> pending_leader es = None then Some now else None)"

lemma help_not_leader: "opens_help e \<Longrightarrow> js_lower (kp_key e) \<noteq> ''g''"
proof -
  have "js_lower ''?'' \<noteq> ''g''" "js_lower ''/'' \<noteq> ''g''" by code_simp+
  then show "opens_help e \<Longrightarrow> js_lower (kp_key e) \<noteq> ''g''" by (auto simp: opens_help_def)
qed

lemma escape_not_leader [simp]: "js_lower ''Escape'' \<noteq> ''g''"
  by code_simp

lemma nav_run_leader:
  "nav_run es s \<Longrightarrow>
   (nv_leader s \<longleftrightarrow> pending_leader es \<noteq> None) \<and>
   nv_timer s = map_option (\<lambda>t. t + LEADER_MS) (pending_leader es)"
proof (induction rule: nav_run.induct)
  case nav_start
  then show ?case by (simp add: nav_initial_def)
next
  case (nav_more es s now ev s')
  from nav_more.hyps(2) nav_more.IH show ?case
    by cases (auto simp: handler_def clearLeader_def ignored_def is_leader_press_def help_not_leader Let_def split: option.split)
qed

text \<open>
  C30: what the shortcuts do. A page is opened by a key press exactly when the press is not ignored,
  its key is that of a shortcut, and it completes a leader press: the key \<open>g\<close> came before it, was
  not itself the second key of a pair, and since then neither its timer went off nor any other key
  was handled. So nothing typed into a field and nothing pressed with a modifier ever opens a page.
\<close>

theorem shortcut_needs_leader:
  assumes "nav_run es s" "nav_step now s (KeyDown e) s'"
  shows "nv_visited s' =
    (if \<not> ignored e \<and> \<not> opens_help e \<and> kp_key e \<noteq> ''Escape'' \<and> pending_leader es \<noteq> None
     then map ns_to (case find_shortcut (js_lower (kp_key e)) of Some t \<Rightarrow> [t] | None \<Rightarrow> []) @ nv_visited s
     else nv_visited s)"
proof -
  have "s' = handler now e s" using assms(2) by (auto elim: nav_stepE)
  then show ?thesis
    using nav_run_leader [OF assms(1)]
    by (auto simp: handler_def clearLeader_def ignored_def Let_def split: option.splits)
qed

text \<open>The timer goes off no earlier than a second and a half after the leader was pressed.\<close>

lemma leader_lasts:
  assumes "nav_run es s" "nav_step now s LeaderTimer s'"
  shows "\<exists>t. pending_leader es = Some t \<and> t + LEADER_MS \<le> now"
  using assms(2) nav_run_leader [OF assms(1)] by (auto elim!: nav_stepE)

definition press :: "string \<Rightarrow> key_press" where
  "press k = \<lparr>kp_key = k, kp_meta = False, kp_ctrl = False, kp_alt = False, kp_shift = False, kp_target = NoElement\<rparr>"

lemma sample_nav: "nav_run [(100, KeyDown (press ''g''))] (handler 100 (press ''g'') nav_initial)"
  by (rule nav_more [OF nav_start nav_step.intros(1)])

theorem shortcut_needs_leader_witness:
  "nv_visited (handler 900 (press ''b'') (handler 100 (press ''g'') nav_initial)) = [''/blocks'']"
proof -
  have "js_lower ''g'' = ''g''" "js_lower ''b'' = ''b''" by code_simp+
  moreover have "nv_visited (handler 100 (press ''g'') nav_initial) = []"
    by (simp add: handler_def press_def nav_initial_def clearLeader_def Let_def opens_help_def)
  ultimately show ?thesis
    using shortcut_needs_leader [OF sample_nav nav_step.intros(1), of 900 "press ''b''"]
    by (simp add: press_def ignored_def opens_help_def is_leader_press_def find_shortcut_def NAV_SHORTCUTS_def)
qed

end
