(* ===== verification/NodeMaps.thy ===== *)
theory NodeMaps
  imports BrowserPeers Countries Format
begin

text \<open>
  The maps of masternodes and peers, \<open>frontend/src/themes/neo/components/masternode-map\<close> and
  \<open>peers-map\<close>: how points are filtered and chosen (\<open>index.tsx\<close>), counted by country
  (\<open>country-legend.tsx\<close>) and in clusters (\<open>use-clusters.ts\<close>, \<open>cluster-list.tsx\<close>,
  \<open>peer-list.tsx\<close>), and how the view of the canvas moves (\<open>map-canvas.tsx\<close>). The library that forms
  clusters is not part of the repository: a cluster is any tree of merges over points. Logarithm and
  power, the projection of the globe and the path of a flight are parameters.
\<close>

section \<open>Clusters\<close>

record ClusterAggregate =
  ca_total :: int
  ca_enabled :: int
  ca_banned :: int
  ca_other :: int

definition cluster_map :: "MasternodeGeoPoint \<Rightarrow> ClusterAggregate" where
  "cluster_map p =
     (let bucket = getMnStatusBucket (mp_status p)
      in \<lparr>ca_total = 1, ca_enabled = (if bucket = EnabledBucket then 1 else 0),
          ca_banned = (if bucket = BannedBucket then 1 else 0),
          ca_other = (if bucket = OtherBucket then 1 else 0)\<rparr>)"

definition cluster_reduce :: "ClusterAggregate \<Rightarrow> ClusterAggregate \<Rightarrow> ClusterAggregate" where
  "cluster_reduce acc props =
     \<lparr>ca_total = ca_total acc + ca_total props, ca_enabled = ca_enabled acc + ca_enabled props,
      ca_banned = ca_banned acc + ca_banned props, ca_other = ca_other acc + ca_other props\<rparr>"

record PeerAggregate =
  pa_total :: int
  pa_available :: int
  pa_unavailable :: int

definition peer_map :: "PeerGeoPoint \<Rightarrow> PeerAggregate" where
  "peer_map p =
     \<lparr>pa_total = 1, pa_available = (if pp_available p then 1 else 0),
      pa_unavailable = (if pp_available p then 0 else 1)\<rparr>"

definition peer_reduce :: "PeerAggregate \<Rightarrow> PeerAggregate \<Rightarrow> PeerAggregate" where
  "peer_reduce acc props =
     \<lparr>pa_total = pa_total acc + pa_total props, pa_available = pa_available acc + pa_available props,
      pa_unavailable = pa_unavailable acc + pa_unavailable props\<rparr>"

text \<open>
  What the library does with \<open>map\<close> and \<open>reduce\<close>: a cluster begins with the properties of its first
  part, and those of the others are added one after the other. Its leaves are the points below it.
\<close>

datatype 'p merge = Single 'p | Merged "'p merge" "'p merge list"

fun aggregate :: "('p \<Rightarrow> 'a) \<Rightarrow> ('a \<Rightarrow> 'a \<Rightarrow> 'a) \<Rightarrow> 'p merge \<Rightarrow> 'a" where
  "aggregate f g (Single p) = f p"
| "aggregate f g (Merged c cs) = foldl g (aggregate f g c) (map (aggregate f g) cs)"

fun leaves :: "'p merge \<Rightarrow> 'p list" where
  "leaves (Single p) = [p]"
| "leaves (Merged c cs) = leaves c @ concat (map leaves cs)"

datatype tooltip_state =
  NoTooltip
| NodeTooltip rat rat MasternodeGeoPoint
| ClusterTooltip rat rat int int int int

definition cluster_tooltip :: "ClusterAggregate \<Rightarrow> rat \<Rightarrow> rat \<Rightarrow> tooltip_state" where
  "cluster_tooltip a x y = ClusterTooltip x y (ca_total a) (ca_enabled a) (ca_banned a) (ca_other a)"

definition marker_font :: "int \<Rightarrow> int" where
  "marker_font n = (if n \<ge> 1000 then 9 else if n \<ge> 100 then 10 else 11)"

text \<open>The list of a cluster: its nodes by status, then by hash, and the counts above it.\<close>

fun STATUS_SORT_ORDER :: "MnStatusBucket \<Rightarrow> int" where
  "STATUS_SORT_ORDER EnabledBucket = 0"
| "STATUS_SORT_ORDER OtherBucket = 1"
| "STATUS_SORT_ORDER BannedBucket = 2"

fun STATUS_COLOR :: "MnStatusBucket \<Rightarrow> string" where
  "STATUS_COLOR EnabledBucket = ''var(--success)''"
| "STATUS_COLOR BannedBucket = ''var(--destructive)''"
| "STATUS_COLOR OtherBucket = ''var(--muted-foreground)''"

definition cluster_order :: "(string \<Rightarrow> string \<Rightarrow> int) \<Rightarrow>
    MasternodeGeoPoint \<times> MnStatusBucket \<Rightarrow> MasternodeGeoPoint \<times> MnStatusBucket \<Rightarrow> int" where
  "cluster_order localeCompare a b =
     (if snd a \<noteq> snd b then STATUS_SORT_ORDER (snd a) - STATUS_SORT_ORDER (snd b)
      else localeCompare (mp_proTxHash (fst a)) (mp_proTxHash (fst b)))"

definition annotated :: "MasternodeGeoPoint list \<Rightarrow> (MasternodeGeoPoint \<times> MnStatusBucket) list" where
  "annotated ls = map (\<lambda>p. (p, getMnStatusBucket (mp_status p))) ls"

definition cluster_list :: "(string \<Rightarrow> string \<Rightarrow> int) \<Rightarrow> MasternodeGeoPoint list \<Rightarrow>
    (MasternodeGeoPoint \<times> MnStatusBucket) list" where
  "cluster_list localeCompare ls = js_sort (cluster_order localeCompare) (annotated ls)"

text \<open>\<open>counts[bucket] += 1\<close>, from zero for each bucket.\<close>

definition cluster_summary :: "MasternodeGeoPoint list \<Rightarrow> MnStatusBucket \<Rightarrow> int" where
  "cluster_summary ls =
     foldl (\<lambda>counts e. counts(snd e := counts (snd e) + 1)) (\<lambda>_. 0) (annotated ls)"

definition peer_order :: "(string \<Rightarrow> string \<Rightarrow> int) \<Rightarrow> PeerGeoPoint \<Rightarrow> PeerGeoPoint \<Rightarrow> int" where
  "peer_order localeCompare a b =
     (if pp_available a \<noteq> pp_available b
      then (if pp_available a then 0 else 1) - (if pp_available b then 0 else 1)
      else localeCompare (pp_address a) (pp_address b))"

definition peer_list :: "(string \<Rightarrow> string \<Rightarrow> int) \<Rightarrow> PeerGeoPoint list \<Rightarrow> PeerGeoPoint list" where
  "peer_list localeCompare ps = js_sort (peer_order localeCompare) ps"

definition peer_summary :: "PeerGeoPoint list \<Rightarrow> bool \<Rightarrow> int" where
  "peer_summary ps = foldl (\<lambda>counts p. counts(pp_available p := counts (pp_available p) + 1)) (\<lambda>_. 0) ps"

lemma count_by:
  "foldl (\<lambda>counts e. counts(f e := counts (f e) + (1 :: int))) c es k = c k + int (length (filter (\<lambda>e. f e = k) es))"
  by (induction es arbitrary: c) auto

lemma cluster_summary_counts:
  "cluster_summary ls k = int (length (filter (\<lambda>p. getMnStatusBucket (mp_status p) = k) ls))"
  by (simp add: cluster_summary_def count_by annotated_def filter_map comp_def)

lemma peer_summary_counts: "peer_summary ps k = int (length (filter (\<lambda>p. pp_available p = k) ps))"
  by (simp add: peer_summary_def count_by)

text \<open>Any measure of the aggregates that adds up in \<open>reduce\<close> adds up over the leaves.\<close>

lemma aggregate_sum:
  fixes m :: "'a \<Rightarrow> int"
  assumes "\<And>a b. m (g a b) = m a + m b"
  shows "m (aggregate f g c) = sum_list (map (\<lambda>p. m (f p)) (leaves c))"
proof (induction c)
  case (Merged c cs)
  have fold: "m (foldl g z xs) = m z + sum_list (map m xs)" for z xs
    by (induction xs arbitrary: z) (simp_all add: assms)
  have "sum_list (map m (map (aggregate f g) cs)) = sum_list (map (\<lambda>c. sum_list (map (\<lambda>p. m (f p)) (leaves c))) cs)"
    using Merged.IH(2) by (simp add: comp_def cong: map_cong)
  also have "\<dots> = sum_list (map (\<lambda>p. m (f p)) (concat (map leaves cs)))"
    by (induction cs) simp_all
  finally show ?case using Merged.IH(1) by (simp add: fold)
qed simp

lemma sum_of_bool: "sum_list (map (\<lambda>p. if Q p then (1 :: int) else 0) ps) = int (length (filter Q ps))"
  by (induction ps) auto

lemma cluster_aggregate_counts:
  "ca_total (aggregate cluster_map cluster_reduce c) = int (length (leaves c))"
  "ca_enabled (aggregate cluster_map cluster_reduce c) = cluster_summary (leaves c) EnabledBucket"
  "ca_banned (aggregate cluster_map cluster_reduce c) = cluster_summary (leaves c) BannedBucket"
  "ca_other (aggregate cluster_map cluster_reduce c) = cluster_summary (leaves c) OtherBucket"
proof -
  have g: "\<And>m. m \<in> {ca_total, ca_enabled, ca_banned, ca_other} \<Longrightarrow> m (cluster_reduce a b) = m a + m b" for a b
    by (auto simp: cluster_reduce_def)
  show "ca_total (aggregate cluster_map cluster_reduce c) = int (length (leaves c))"
    using aggregate_sum [of ca_total cluster_reduce cluster_map c] sum_of_bool [of "\<lambda>_. True" "leaves c"]
    by (simp add: cluster_reduce_def cluster_map_def Let_def)
  show "ca_enabled (aggregate cluster_map cluster_reduce c) = cluster_summary (leaves c) EnabledBucket"
    using aggregate_sum [of ca_enabled cluster_reduce cluster_map c]
    by (simp add: cluster_reduce_def cluster_map_def Let_def sum_of_bool cluster_summary_counts)
  show "ca_banned (aggregate cluster_map cluster_reduce c) = cluster_summary (leaves c) BannedBucket"
    using aggregate_sum [of ca_banned cluster_reduce cluster_map c]
    by (simp add: cluster_reduce_def cluster_map_def Let_def sum_of_bool cluster_summary_counts)
  show "ca_other (aggregate cluster_map cluster_reduce c) = cluster_summary (leaves c) OtherBucket"
    using aggregate_sum [of ca_other cluster_reduce cluster_map c]
    by (simp add: cluster_reduce_def cluster_map_def Let_def sum_of_bool cluster_summary_counts)
qed

lemma peer_aggregate_counts:
  "pa_total (aggregate peer_map peer_reduce c) = int (length (leaves c))"
  "pa_available (aggregate peer_map peer_reduce c) = peer_summary (leaves c) True"
  "pa_unavailable (aggregate peer_map peer_reduce c) = peer_summary (leaves c) False"
proof -
  show "pa_total (aggregate peer_map peer_reduce c) = int (length (leaves c))"
    using aggregate_sum [of pa_total peer_reduce peer_map c] sum_of_bool [of "\<lambda>_. True" "leaves c"]
    by (simp add: peer_reduce_def peer_map_def)
  show "pa_available (aggregate peer_map peer_reduce c) = peer_summary (leaves c) True"
    using aggregate_sum [of pa_available peer_reduce peer_map c]
    by (simp add: peer_reduce_def peer_map_def sum_of_bool peer_summary_counts)
  have "sum_list (map (\<lambda>p. if pp_available p then 0 else 1 :: int) ps) =
      int (length (filter (\<lambda>p. \<not> pp_available p) ps))" for ps
    by (induction ps) auto
  then show "pa_unavailable (aggregate peer_map peer_reduce c) = peer_summary (leaves c) False"
    using aggregate_sum [of pa_unavailable peer_reduce peer_map c]
    by (simp add: peer_reduce_def peer_map_def sum_of_bool peer_summary_counts)
qed

text \<open>
  What a cluster says of itself is true of the nodes below it, however the library merged them:
  the numbers in its tooltip and on its marker, which were added up while merging, are those that
  the list of the cluster counts from its leaves, and the three kinds make up the whole; the list
  shows every leaf once, the enabled first and the banned last. The same holds for the peers.
\<close>

theorem clusters_count_their_leaves:
  fixes c :: "MasternodeGeoPoint merge" and c' :: "PeerGeoPoint merge"
  assumes "js_comparator localeCompare"
  shows "(let a = aggregate cluster_map cluster_reduce c; s = cluster_summary (leaves c) in
      cluster_tooltip a x y =
        ClusterTooltip x y (int (length (leaves c))) (s EnabledBucket) (s BannedBucket) (s OtherBucket) \<and>
      ca_enabled a + ca_banned a + ca_other a = ca_total a \<and>
      mset (map fst (cluster_list localeCompare (leaves c))) = mset (leaves c) \<and>
      sorted (map (\<lambda>e. STATUS_SORT_ORDER (snd e)) (cluster_list localeCompare (leaves c)))) \<and>
    (let a = aggregate peer_map peer_reduce c'; s = peer_summary (leaves c') in
      pa_total a = int (length (leaves c')) \<and> pa_available a = s True \<and> pa_unavailable a = s False \<and>
      s True + s False = pa_total a \<and>
      mset (peer_list localeCompare (leaves c')) = mset (leaves c') \<and>
      sorted_wrt (\<lambda>p q. pp_available q \<longrightarrow> pp_available p) (peer_list localeCompare (leaves c')))"
proof (unfold Let_def, intro conjI)
  show "cluster_tooltip (aggregate cluster_map cluster_reduce c) x y =
      ClusterTooltip x y (int (length (leaves c))) (cluster_summary (leaves c) EnabledBucket)
        (cluster_summary (leaves c) BannedBucket) (cluster_summary (leaves c) OtherBucket)"
    by (simp add: cluster_tooltip_def cluster_aggregate_counts)
  have "int (length (filter (\<lambda>p. getMnStatusBucket (mp_status p) = EnabledBucket) ps)) +
      int (length (filter (\<lambda>p. getMnStatusBucket (mp_status p) = BannedBucket) ps)) +
      int (length (filter (\<lambda>p. getMnStatusBucket (mp_status p) = OtherBucket) ps)) = int (length ps)" for ps
    by (induction ps) (auto intro: MnStatusBucket.exhaust)
  then show "ca_enabled (aggregate cluster_map cluster_reduce c) + ca_banned (aggregate cluster_map cluster_reduce c) +
      ca_other (aggregate cluster_map cluster_reduce c) = ca_total (aggregate cluster_map cluster_reduce c)"
    by (simp add: cluster_aggregate_counts cluster_summary_counts)
  show "mset (map fst (cluster_list localeCompare (leaves c))) = mset (leaves c)"
    by (simp add: cluster_list_def annotated_def multiset.map_comp comp_def)
  have "js_comparator (cluster_order localeCompare)"
  proof
    fix p q r :: "MasternodeGeoPoint \<times> MnStatusBucket"
    have inj: "STATUS_SORT_ORDER a = STATUS_SORT_ORDER b \<longleftrightarrow> a = b" for a b by (cases a; cases b) auto
    show "cluster_order localeCompare p q \<le> 0 \<or> cluster_order localeCompare q p \<le> 0"
      using js_comparator.total [OF assms, of "mp_proTxHash (fst p)" "mp_proTxHash (fst q)"]
      by (auto simp: cluster_order_def)
    assume "cluster_order localeCompare p q \<le> 0" "cluster_order localeCompare q r \<le> 0"
    then show "cluster_order localeCompare p r \<le> 0"
      using js_comparator.trans [OF assms, of "mp_proTxHash (fst p)" "mp_proTxHash (fst q)" "mp_proTxHash (fst r)"]
        inj [of "snd p" "snd r"] inj [of "snd p" "snd q"] inj [of "snd q" "snd r"]
      by (auto simp: cluster_order_def split: if_splits)
  qed
  from js_comparator.sorted_js_sort [OF this, of "annotated (leaves c)"]
  show "sorted (map (\<lambda>e. STATUS_SORT_ORDER (snd e)) (cluster_list localeCompare (leaves c)))"
    unfolding cluster_list_def sorted_map
    by (rule sorted_wrt_mono_rel [rotated]) (auto simp: cluster_order_def split: if_splits)
  show "pa_total (aggregate peer_map peer_reduce c') = int (length (leaves c'))"
    "pa_available (aggregate peer_map peer_reduce c') = peer_summary (leaves c') True"
    "pa_unavailable (aggregate peer_map peer_reduce c') = peer_summary (leaves c') False"
    by (rule peer_aggregate_counts)+
  have "int (length (filter pp_available ps)) + int (length (filter (\<lambda>p. \<not> pp_available p) ps)) = int (length ps)" for ps
    by (induction ps) auto
  then show "peer_summary (leaves c') True + peer_summary (leaves c') False = pa_total (aggregate peer_map peer_reduce c')"
    by (simp add: peer_aggregate_counts peer_summary_counts)
  show "mset (peer_list localeCompare (leaves c')) = mset (leaves c')" by (simp add: peer_list_def)
  have "js_comparator (peer_order localeCompare)"
  proof
    fix p q r :: PeerGeoPoint
    show "peer_order localeCompare p q \<le> 0 \<or> peer_order localeCompare q p \<le> 0"
      using js_comparator.total [OF assms, of "pp_address p" "pp_address q"] by (auto simp: peer_order_def)
    assume "peer_order localeCompare p q \<le> 0" "peer_order localeCompare q r \<le> 0"
    then show "peer_order localeCompare p r \<le> 0"
      using js_comparator.trans [OF assms, of "pp_address p" "pp_address q" "pp_address r"]
      by (auto simp: peer_order_def split: if_splits)
  qed
  from js_comparator.sorted_js_sort [OF this, of "leaves c'"]
  show "sorted_wrt (\<lambda>p q. pp_available q \<longrightarrow> pp_available p) (peer_list localeCompare (leaves c'))"
    unfolding peer_list_def
    by (rule sorted_wrt_mono_rel [rotated]) (auto simp: peer_order_def split: if_splits)
qed

definition sample_point :: "string \<Rightarrow> string \<Rightarrow> string \<Rightarrow> MasternodeGeoPoint" where
  "sample_point h status code = \<lparr>mp_proTxHash = h, mp_status = status, mp_type = ''Regular'',
     mp_address = '''', mp_ipv4 = '''', mp_countryCode = code, mp_city = '''', mp_lat = 0, mp_lng = 0\<rparr>"

definition sample_peer_point :: PeerGeoPoint where
  "sample_peer_point = \<lparr>pp_address = '''', pp_available = True, pp_userAgent = None, pp_protocolVersion = None,
     pp_ipv4 = '''', pp_countryCode = '''', pp_city = '''', pp_lat = 0, pp_lng = 0\<rparr>"

theorem clusters_count_their_leaves_witness:
  "ca_total (aggregate cluster_map cluster_reduce
     (Merged (Single (sample_point ''a'' ''ENABLED'' ''DE'')) [Single (sample_point ''b'' ''POSE_BANNED'' ''FR'')])) = 2"
proof -
  have "js_comparator (\<lambda>a b :: string. 0)" by unfold_locales auto
  from clusters_count_their_leaves [OF this,
      of "Merged (Single (sample_point ''a'' ''ENABLED'' ''DE'')) [Single (sample_point ''b'' ''POSE_BANNED'' ''FR'')]"
        0 0 "Single sample_peer_point"]
  show ?thesis by (simp add: Let_def cluster_tooltip_def)
qed

section \<open>Countries\<close>

record country_row =
  cr_code :: string
  cr_total :: int
  cr_enabled :: int
  cr_pct :: rat

definition TOP_N :: nat where "TOP_N = 6"

definition row_code :: "MasternodeGeoPoint \<Rightarrow> string" where
  "row_code p = (if mp_countryCode p = [] then ''??'' else mp_countryCode p)"

text \<open>The map of a code to its counts, in the order of first insertion.\<close>

definition count_country :: "(string \<times> int \<times> int) list \<Rightarrow> MasternodeGeoPoint \<Rightarrow> (string \<times> int \<times> int) list" where
  "count_country m p =
     (let code = row_code p;
          (n, enabled) = or_else (map_of m code) (0, 0)
      in AList.update code
           (n + 1, if getMnStatusBucket (mp_status p) = EnabledBucket then enabled + 1 else enabled) m)"

definition by_total :: "country_row \<Rightarrow> country_row \<Rightarrow> int" where
  "by_total a b = cr_total b - cr_total a"

definition country_rows :: "MasternodeGeoPoint list \<Rightarrow> int \<Rightarrow> country_row list" where
  "country_rows points whole =
     js_sort by_total
       (map (\<lambda>(code, n, enabled).
          \<lparr>cr_code = code, cr_total = n, cr_enabled = enabled,
           cr_pct = (if whole > 0 then of_int n / of_int whole * 100 else 0)\<rparr>)
         (foldl count_country [] points))"

record legend =
  lg_top :: "country_row list"
  lg_rest :: nat
  lg_restTotal :: int
  lg_restPct :: rat

definition country_legend :: "MasternodeGeoPoint list \<Rightarrow> int \<Rightarrow> legend" where
  "country_legend points whole =
     (let rows = country_rows points whole;
          top = js_slice rows 0 (int TOP_N);
          rest = js_slice_from rows (int TOP_N);
          restTotal = foldl (\<lambda>s r. s + cr_total r) 0 rest
      in \<lparr>lg_top = top, lg_rest = length rest, lg_restTotal = restTotal,
          lg_restPct = (if whole > 0 then of_int restTotal / of_int whole * 100 else 0)\<rparr>)"

definition legend_click :: "string option \<Rightarrow> country_row \<Rightarrow> string option" where
  "legend_click selected row = (if selected = Some (cr_code row) then None else Some (cr_code row))"

definition at_country :: "string \<Rightarrow> MasternodeGeoPoint list \<Rightarrow> int \<times> int" where
  "at_country code points =
     (int (length (filter (\<lambda>p. row_code p = code) points)),
      int (length (filter (\<lambda>p. row_code p = code \<and> getMnStatusBucket (mp_status p) = EnabledBucket) points)))"

lemma count_country_map:
  "map_of (foldl count_country [] points) code =
     (if code \<in> row_code ` set points then Some (at_country code points) else None) \<and>
   distinct (map fst (foldl count_country [] points))"
proof (induction points arbitrary: code rule: rev_induct)
  case (snoc p points)
  let ?m = "foldl count_country [] points"
  have old: "or_else (map_of ?m (row_code p)) (0, 0) = at_country (row_code p) points"
  proof (cases "row_code p \<in> row_code ` set points")
    case False
    then have "filter (\<lambda>q. row_code q = row_code p) points = []"
      "filter (\<lambda>q. row_code q = row_code p \<and> getMnStatusBucket (mp_status q) = EnabledBucket) points = []"
      by (simp_all add: filter_empty_conv image_iff) metis+
    then show ?thesis using snoc False by (simp add: at_country_def)
  qed (use snoc in simp)
  have new: "foldl count_country [] (points @ [p]) =
      AList.update (row_code p) (fst (at_country (row_code p) points) + 1,
        if getMnStatusBucket (mp_status p) = EnabledBucket then snd (at_country (row_code p) points) + 1
        else snd (at_country (row_code p) points)) ?m"
    using old by (simp add: count_country_def Let_def case_prod_beta)
  show ?case
    unfolding new using snoc by (auto simp: update_conv' at_country_def distinct_update)
qed simp

lemma by_total_comparator: "js_comparator by_total"
  by unfold_locales (auto simp: by_total_def)

definition country_row_of :: "MasternodeGeoPoint list \<Rightarrow> int \<Rightarrow> string \<Rightarrow> country_row" where
  "country_row_of points whole code =
     \<lparr>cr_code = code, cr_total = fst (at_country code points), cr_enabled = snd (at_country code points),
      cr_pct = (if whole > 0 then of_int (fst (at_country code points)) / of_int whole * 100 else 0)\<rparr>"

lemma country_rows_are:
  "mset (country_rows points whole) = mset_set (country_row_of points whole ` row_code ` set points) \<and>
   distinct (map cr_code (country_rows points whole)) \<and>
   set (country_rows points whole) = country_row_of points whole ` row_code ` set points"
proof -
  let ?m = "foldl count_country [] points"
  let ?f = "\<lambda>(code, n, enabled). \<lparr>cr_code = code, cr_total = n, cr_enabled = enabled,
    cr_pct = (if whole > 0 then of_int n / of_int whole * 100 else 0)\<rparr>"
  have d: "distinct (map fst ?m)" using count_country_map [of points] by simp
  have each: "?f e = country_row_of points whole (fst e) \<and> fst e \<in> row_code ` set points" if "e \<in> set ?m" for e
  proof -
    have "map_of ?m (fst e) = Some (snd e)" using that d by (simp add: map_of_is_SomeI)
    then have "fst e \<in> row_code ` set points" "snd e = at_country (fst e) points"
      using count_country_map [of points "fst e"] by (auto split: if_splits)
    then show ?thesis by (simp add: country_row_of_def case_prod_beta)
  qed
  have dom: "fst ` set ?m = row_code ` set points"
  proof
    show "fst ` set ?m \<subseteq> row_code ` set points" using each by blast
    show "row_code ` set points \<subseteq> fst ` set ?m"
      using count_country_map [of points] map_of_eq_None_iff [of ?m]
      by (metis (no_types, lifting) image_subset_iff option.distinct(1) rev_image_eqI)
  qed
  have map_is: "map ?f ?m = map (country_row_of points whole) (map fst ?m)" using each by simp
  have set_is: "set (country_rows points whole) = country_row_of points whole ` row_code ` set points"
    unfolding country_rows_def set_js_sort map_is set_map dom ..
  have "map cr_code (map ?f ?m) = map fst ?m" by (simp add: case_prod_beta)
  then have "distinct (map cr_code (map ?f ?m))" using d by (simp only:)
  then have dist: "distinct (map cr_code (country_rows points whole))"
    unfolding country_rows_def
    using mset_eq_imp_distinct_iff [of "map cr_code (js_sort by_total (map ?f ?m))" "map cr_code (map ?f ?m)"]
    by (simp only: mset_map mset_js_sort)
  then have "distinct (country_rows points whole)" by (simp add: distinct_map)
  then show ?thesis using set_is dist by (simp add: mset_set_set flip: set_is)
qed

lemma sum_of_codes:
  "sum_list (map (\<lambda>p. (1 :: int)) points) = (\<Sum>code \<in> row_code ` set points. fst (at_country code points))"
proof (induction points)
  case (Cons p points)
  let ?S = "row_code ` set points" and ?c = "row_code p"
  have each: "fst (at_country code (p # points)) = fst (at_country code points) + (if code = ?c then 1 else 0)" for code
    by (simp add: at_country_def)
  have zero: "fst (at_country ?c points) = 0" if "?c \<notin> ?S"
  proof -
    have "filter (\<lambda>q. row_code q = ?c) points = []" using that by (simp add: filter_empty_conv image_iff) metis
    then show ?thesis by (simp add: at_country_def)
  qed
  have "(\<Sum>code \<in> insert ?c ?S. fst (at_country code points)) = (\<Sum>code \<in> ?S. fst (at_country code points))"
    using zero by (cases "?c \<in> ?S") (simp_all add: insert_absorb)
  moreover have "(\<Sum>code \<in> insert ?c ?S. if code = ?c then 1 else (0 :: int)) = 1"
    by (simp add: sum.delta)
  ultimately show ?case
    using Cons by (simp only: each sum.distrib list.set image_insert list.map sum_list.Cons)
qed simp

section \<open>The page of the map\<close>

datatype MapStatusFilter = AllNodes | EnabledNodes | DisabledNodes
datatype MapTypeFilter = AllTypes | EvolutionNodes | RegularNodes

text \<open>
  What the map keeps, and what it is given when the page controls the country. The last country
  the map has told the page comes back as what it is given.
\<close>

record map_state =
  internalCountry :: "string option"
  controlledCountry :: "string option option"
  clusterLeaves :: "MasternodeGeoPoint list option"
  statusFilter :: MapStatusFilter
  typeFilter :: MapTypeFilter

definition selectedCountry :: "map_state \<Rightarrow> string option" where
  "selectedCountry st =
     (case controlledCountry st of Some c \<Rightarrow> c | None \<Rightarrow> internalCountry st)"

definition setSelectedCountry :: "string option \<Rightarrow> map_state \<Rightarrow> map_state" where
  "setSelectedCountry code st =
     (let st = st\<lparr>clusterLeaves := None\<rparr>
      in if controlledCountry st \<noteq> None then st\<lparr>controlledCountry := Some code\<rparr>
         else st\<lparr>internalCountry := code\<rparr>)"

definition statusFilteredPoints :: "MasternodeGeoPoint list \<Rightarrow> map_state \<Rightarrow> MasternodeGeoPoint list" where
  "statusFilteredPoints allPoints st =
     (let result = allPoints;
          result = (case statusFilter st of
            AllNodes \<Rightarrow> result
          | EnabledNodes \<Rightarrow> filter (\<lambda>p. js_upper (mp_status p) = ''ENABLED'') result
          | DisabledNodes \<Rightarrow> filter (\<lambda>p. js_upper (mp_status p) \<noteq> ''ENABLED'') result)
      in case typeFilter st of
            AllTypes \<Rightarrow> result
          | EvolutionNodes \<Rightarrow> filter (\<lambda>p. getMnTypeBucket (mp_type p) = EvoBucket) result
          | RegularNodes \<Rightarrow> filter (\<lambda>p. getMnTypeBucket (mp_type p) = RegularBucket) result)"

text \<open>The empty text selects no country.\<close>

definition chosen_country :: "map_state \<Rightarrow> string option" where
  "chosen_country st = (case selectedCountry st of Some c \<Rightarrow> if c = [] then None else Some c | None \<Rightarrow> None)"

definition map_points :: "MasternodeGeoPoint list \<Rightarrow> map_state \<Rightarrow> MasternodeGeoPoint list" where
  "map_points allPoints st =
     (case chosen_country st of
        None \<Rightarrow> statusFilteredPoints allPoints st
      | Some c \<Rightarrow> filter (\<lambda>p. mp_countryCode p = c) (statusFilteredPoints allPoints st))"

datatype map_title =
  ClusterTitle nat
| CountryTitle string nat nat
| WorldTitle nat nat

definition title_of :: "MasternodeGeoPoint list \<Rightarrow> map_state \<Rightarrow> map_title" where
  "title_of allPoints st =
     (let points = map_points allPoints st
      in case clusterLeaves st of
           Some ls \<Rightarrow> ClusterTitle (length ls)
         | None \<Rightarrow> (case chosen_country st of
             Some c \<Rightarrow> CountryTitle c (length points) (card (set (filter (\<lambda>city. city \<noteq> []) (map mp_city points))))
           | None \<Rightarrow> WorldTitle (length points) (card (mp_countryCode ` set points))))"

datatype map_event =
  PickCountry "string option"
| PageCountry "string option"
| PickCluster "MasternodeGeoPoint list"
| ClearCluster
| PickStatus MapStatusFilter
| PickType MapTypeFilter

fun map_step :: "map_state \<Rightarrow> map_event \<Rightarrow> map_state" where
  "map_step st (PickCountry code) = setSelectedCountry code st"
| "map_step st (PageCountry code) =
     (if controlledCountry st \<noteq> None then st\<lparr>controlledCountry := Some code\<rparr> else st)"
| "map_step st (PickCluster ls) = st\<lparr>clusterLeaves := Some ls\<rparr>"
| "map_step st ClearCluster = st\<lparr>clusterLeaves := None\<rparr>"
| "map_step st (PickStatus f) = st\<lparr>clusterLeaves := None, statusFilter := f\<rparr>"
| "map_step st (PickType f) = st\<lparr>clusterLeaves := None, typeFilter := f\<rparr>"

definition map_initial :: "string option option \<Rightarrow> map_state" where
  "map_initial given = \<lparr>internalCountry = None, controlledCountry = given, clusterLeaves = None,
     statusFilter = AllNodes, typeFilter = AllTypes\<rparr>"

text \<open>A cluster that is clicked is one of the points on the map.\<close>

fun possible :: "MasternodeGeoPoint list \<Rightarrow> map_state \<Rightarrow> map_event list \<Rightarrow> bool" where
  "possible allPoints st [] \<longleftrightarrow> True"
| "possible allPoints st (e # es) \<longleftrightarrow>
     (\<forall>ls. e = PickCluster ls \<longrightarrow> set ls \<subseteq> set (map_points allPoints st)) \<and> possible allPoints (map_step st e) es"

definition cluster_current :: "MasternodeGeoPoint list \<Rightarrow> map_state \<Rightarrow> bool" where
  "cluster_current allPoints st \<longleftrightarrow>
     (\<forall>ls. clusterLeaves st = Some ls \<longrightarrow> set ls \<subseteq> set (map_points allPoints st))"

lemma map_points_leaves [simp]:
  "map_points allPoints (st\<lparr>clusterLeaves := x\<rparr>) = map_points allPoints st"
proof -
  have "chosen_country (st\<lparr>clusterLeaves := x\<rparr>) = chosen_country st"
    by (simp add: chosen_country_def selectedCountry_def split: option.split)
  moreover have "statusFilteredPoints allPoints (st\<lparr>clusterLeaves := x\<rparr>) = statusFilteredPoints allPoints st"
    by (simp add: statusFilteredPoints_def split: MapTypeFilter.split)
  ultimately show ?thesis by (simp only: map_points_def)
qed

lemma cluster_current_step:
  assumes "cluster_current allPoints st" "possible allPoints st [e]" "\<And>c. e \<noteq> PageCountry c"
  shows "cluster_current allPoints (map_step st e)"
  using assms by (cases e) (auto simp: cluster_current_def setSelectedCountry_def Let_def)

lemma cluster_current_run:
  "cluster_current allPoints st \<Longrightarrow> possible allPoints st es \<Longrightarrow> \<forall>c. PageCountry c \<notin> set es \<Longrightarrow>
   cluster_current allPoints (foldl map_step st es)"
proof (induction es arbitrary: st)
  case (Cons e es)
  have "cluster_current allPoints (map_step st e)"
    using Cons.prems by (intro cluster_current_step) auto
  then show ?case using Cons by simp
qed simp

lemma points_of_country:
  assumes "code \<noteq> []" "code \<noteq> ''??''"
  shows "filter (\<lambda>p. row_code p = code) ps = filter (\<lambda>p. mp_countryCode p = code) ps"
  using assms by (intro filter_cong) (auto simp: row_code_def)

text \<open>
  The legend beside the map. It counts every point that passes the filters in exactly one country,
  the largest first, its six rows and the line below them together make up all of them, and a click
  on a row selects the country with just as many points on the map as the row says, a second click
  selects the world again. While the country is chosen on the map only, the list of a
  cluster holds points that are on the map, whatever is clicked and in whatever order.
\<close>

theorem legend_tells_the_map:
  fixes st :: map_state and allPoints :: "MasternodeGeoPoint list"
  defines "shown \<equiv> statusFilteredPoints allPoints st"
  defines "rows \<equiv> country_rows shown (int (length shown))"
  defines "lg \<equiv> country_legend shown (int (length shown))"
  shows "sorted_wrt (\<lambda>a b. cr_total b \<le> cr_total a) rows \<and> distinct (map cr_code rows) \<and>
    lg_top lg = take 6 rows \<and> lg_rest lg = length rows - 6 \<and>
    sum_list (map cr_total (lg_top lg)) + lg_restTotal lg = int (length shown) \<and>
    (\<forall>row \<in> set rows. cr_code row \<noteq> ''??'' \<and> selectedCountry st \<noteq> Some (cr_code row) \<longrightarrow>
       (let st' = setSelectedCountry (legend_click (selectedCountry st) row) st in
        int (length (map_points allPoints st')) = cr_total row \<and>
        map_points allPoints (setSelectedCountry (legend_click (selectedCountry st') row) st') = shown)) \<and>
    (\<forall>given es. possible allPoints (map_initial given) es \<and> (\<forall>c. PageCountry c \<notin> set es) \<longrightarrow>
       cluster_current allPoints (foldl map_step (map_initial given) es))"
proof (intro conjI ballI allI impI)
  note all = country_rows_are [of shown "int (length shown)", folded rows_def]
  show "sorted_wrt (\<lambda>a b. cr_total b \<le> cr_total a) rows"
    using js_comparator.sorted_js_sort [OF by_total_comparator] by (simp add: rows_def country_rows_def by_total_def)
  show "distinct (map cr_code rows)" using all by simp
  have rest: "lg_restTotal lg = sum_list (map cr_total (drop 6 rows))"
  proof -
    have "foldl (\<lambda>s r. s + cr_total r) z rs = z + sum_list (map cr_total rs)" for z and rs :: "country_row list"
      by (induction rs arbitrary: z) simp_all
    then show ?thesis
      by (simp add: lg_def country_legend_def rows_def TOP_N_def js_slice_from_def slice_pos_def min_def Let_def)
  qed
  show top: "lg_top lg = take 6 rows"
    by (simp add: lg_def country_legend_def rows_def TOP_N_def js_slice_0 Let_def)
  show "lg_rest lg = length rows - 6"
    by (simp add: lg_def country_legend_def rows_def TOP_N_def js_slice_from_def slice_pos_def min_def Let_def)
  have inj: "inj_on (country_row_of shown w) A" for w A
    by (rule inj_onI) (simp add: country_row_of_def)
  have "sum_list (map cr_total rows) = sum_mset (image_mset cr_total (mset rows))"
    by (metis mset_map sum_mset_sum_list)
  also have "\<dots> = (\<Sum>r \<in> country_row_of shown (int (length shown)) ` row_code ` set shown. cr_total r)"
    using all by (simp add: sum_unfold_sum_mset)
  also have "\<dots> = (\<Sum>code \<in> row_code ` set shown. fst (at_country code shown))"
    by (subst sum.reindex [OF inj]) (simp add: country_row_of_def comp_def)
  also have "\<dots> = int (length shown)" using sum_of_codes [of shown] by (simp add: sum_list_triv)
  finally show "sum_list (map cr_total (lg_top lg)) + lg_restTotal lg = int (length shown)"
    unfolding top rest by (simp flip: sum_list_append map_append)
  show "cluster_current allPoints (foldl map_step (map_initial given) es)"
    if "possible allPoints (map_initial given) es \<and> (\<forall>c. PageCountry c \<notin> set es)" for given es
    using that by (intro cluster_current_run) (auto simp: cluster_current_def map_initial_def)
  fix row
  assume row: "row \<in> set rows" and ok: "cr_code row \<noteq> ''??'' \<and> selectedCountry st \<noteq> Some (cr_code row)"
  let ?c = "cr_code row"
  obtain p where p: "p \<in> set shown" "?c = row_code p" and total': "cr_total row = fst (at_country ?c shown)"
    using row all by (auto simp: country_row_of_def)
  have ne: "?c \<noteq> []" using p(2) by (auto simp: row_code_def)
  define st' where "st' = setSelectedCountry (Some ?c) st"
  have same: "statusFilteredPoints allPoints (setSelectedCountry x s) = statusFilteredPoints allPoints s" for x s
    by (simp add: statusFilteredPoints_def setSelectedCountry_def Let_def split: MapTypeFilter.split)
  have picked: "selectedCountry (setSelectedCountry x s) = x" for x s
    by (simp add: selectedCountry_def setSelectedCountry_def Let_def split: option.split)
  have "chosen_country st' = Some ?c" using ne by (simp add: chosen_country_def st'_def picked)
  then have "map_points allPoints st' = filter (\<lambda>p. mp_countryCode p = ?c) shown"
    by (simp add: map_points_def st'_def same shown_def)
  then have "int (length (map_points allPoints st')) = cr_total row"
    using points_of_country [OF ne, of shown] ok by (simp add: total' at_country_def)
  moreover have "chosen_country (setSelectedCountry None st') = None" by (simp add: chosen_country_def picked)
  then have "map_points allPoints (setSelectedCountry None st') = shown"
    by (simp add: map_points_def same st'_def shown_def)
  ultimately show "let st' = setSelectedCountry (legend_click (selectedCountry st) row) st in
      int (length (map_points allPoints st')) = cr_total row \<and>
      map_points allPoints (setSelectedCountry (legend_click (selectedCountry st') row) st') = shown"
    using ok picked [of "Some ?c" st, folded st'_def] by (simp add: legend_click_def Let_def flip: st'_def)
qed

theorem legend_tells_the_map_witness:
  "sum_list (map cr_total (lg_top (country_legend [sample_point ''a'' ''ENABLED'' ''DE''] 1))) +
     lg_restTotal (country_legend [sample_point ''a'' ''ENABLED'' ''DE''] 1) = 1 \<and>
   cluster_current [sample_point ''a'' ''ENABLED'' ''DE'']
     (foldl map_step (map_initial None) [PickStatus EnabledNodes, PickCountry (Some ''DE'')])"
proof -
  have "statusFilteredPoints [sample_point ''a'' ''ENABLED'' ''DE''] (map_initial None) =
      [sample_point ''a'' ''ENABLED'' ''DE'']"
    by (simp add: statusFilteredPoints_def map_initial_def)
  moreover have "possible [sample_point ''a'' ''ENABLED'' ''DE''] (map_initial None)
      [PickStatus EnabledNodes, PickCountry (Some ''DE'')]" by simp
  moreover note all = legend_tells_the_map [of "[sample_point ''a'' ''ENABLED'' ''DE'']" "map_initial None"]
  moreover have "cluster_current [sample_point ''a'' ''ENABLED'' ''DE'']
      (foldl map_step (map_initial None) [PickStatus EnabledNodes, PickCountry (Some ''DE'')])"
    using all [THEN conjunct2, THEN conjunct2, THEN conjunct2, THEN conjunct2, THEN conjunct2, THEN conjunct2,
        rule_format, of None "[PickStatus EnabledNodes, PickCountry (Some ''DE'')]"] calculation(2)
    by simp
  moreover have "sum_list (map cr_total (lg_top (country_legend [sample_point ''a'' ''ENABLED'' ''DE''] 1))) +
      lg_restTotal (country_legend [sample_point ''a'' ''ENABLED'' ''DE''] 1) = 1"
    using all [THEN conjunct2, THEN conjunct2, THEN conjunct2, THEN conjunct2, THEN conjunct1] calculation(1)
    by (simp del: take_eq_Nil)
  ultimately show ?thesis by blast
qed

text \<open>
  The page can change the country without the map, by the filters above the table. Then the list of
  a cluster stays, with nodes of another country.
\<close>

lemma cluster_can_be_stale:
  "\<not> cluster_current [sample_point ''a'' ''ENABLED'' ''DE'', sample_point ''b'' ''ENABLED'' ''FR'']
     (foldl map_step (map_initial (Some None))
       [PickCluster [sample_point ''a'' ''ENABLED'' ''DE''], PageCountry (Some ''FR'')])"
  by (simp add: cluster_current_def map_initial_def map_points_def chosen_country_def selectedCountry_def
      statusFilteredPoints_def sample_point_def)

end
