(* ===== verification/PeersPage.thy ===== *)
theory PeersPage
  imports BrowserPeers Countries NodeMaps
begin

text \<open>
  The page of the peers, \<open>frontend/src/themes/neo/pages/peers.tsx\<close>, with its filter bar
  (\<open>components/peers-filter-bar.tsx\<close>), its two charts (\<open>components/peers-distribution.tsx\<close>) and its
  map (\<open>components/peers-map/index.tsx\<close>). The page loads all peers once and filters them in the
  browser; the filters are compared with those of the API.
\<close>

section \<open>Filters\<close>

datatype PeerStatusFilter = AllPeers | AvailablePeers | UnavailablePeers

record page_peer = ApiPeer +
  px_host :: string

record PeerFilters =
  pf_status :: PeerStatusFilter
  pf_country :: "string option"
  pf_userAgent :: "string option"
  pf_ip :: "string option"

definition EMPTY_PEER_FILTERS :: PeerFilters where
  "EMPTY_PEER_FILTERS = \<lparr>pf_status = AllPeers, pf_country = None, pf_userAgent = None, pf_ip = None\<rparr>"

text \<open>A text filter that is missing or empty is not active.\<close>

fun set_text :: "string option \<Rightarrow> bool" where
  "set_text None \<longleftrightarrow> False"
| "set_text (Some s) \<longleftrightarrow> s \<noteq> []"

definition activeFilterCount :: "PeerFilters \<Rightarrow> string \<Rightarrow> nat" where
  "activeFilterCount f search =
     (if js_trim search \<noteq> [] then 1 else 0) + (if pf_status f \<noteq> AllPeers then 1 else 0) +
     (if set_text (pf_country f) then 1 else 0) + (if set_text (pf_userAgent f) then 1 else 0) +
     (if set_text (pf_ip f) then 1 else 0)"

definition searchHaystack :: "page_peer \<Rightarrow> string" where
  "searchHaystack peer =
     js_lower (js_join '' ''
       [ap_address peer, or_else (ap_userAgent peer) '''',
        (case ap_geo peer of Some g \<Rightarrow> ag_city g | None \<Rightarrow> ''''),
        (case ap_geo peer of Some g \<Rightarrow> countryName (ag_countryCode g) | None \<Rightarrow> '''')])"

definition peer_passes :: "PeerFilters \<Rightarrow> string \<Rightarrow> page_peer \<Rightarrow> bool" where
  "peer_passes f q peer \<longleftrightarrow>
     \<not> (pf_status f = AvailablePeers \<and> \<not> ap_available peer) \<and>
     \<not> (pf_status f = UnavailablePeers \<and> ap_available peer) \<and>
     \<not> (set_text (pf_country f) \<and> map_option ag_countryCode (ap_geo peer) \<noteq> pf_country f) \<and>
     \<not> (set_text (pf_userAgent f) \<and> ap_userAgent peer \<noteq> pf_userAgent f) \<and>
     \<not> (set_text (pf_ip f) \<and> Some (px_host peer) \<noteq> pf_ip f) \<and>
     \<not> (q \<noteq> [] \<and> \<not> js_includes (searchHaystack peer) q)"

definition filtered_peers :: "PeerFilters \<Rightarrow> string \<Rightarrow> page_peer list \<Rightarrow> page_peer list" where
  "filtered_peers f search peers =
     (let q = js_lower (js_trim search)
      in foldl (\<lambda>out peer. if peer_passes f q peer then out @ [peer] else out) [] peers)"

record peer_stats =
  st_total :: nat
  st_available :: nat
  st_unavailable :: nat

definition peers_stats :: "page_peer list \<Rightarrow> peer_stats" where
  "peers_stats peers =
     (let available = length (filter ap_available peers)
      in \<lparr>st_total = length peers, st_available = available, st_unavailable = length peers - available\<rparr>)"

definition shown_agents :: "(string \<Rightarrow> string \<Rightarrow> int) \<Rightarrow> PeerUserAgent list option \<Rightarrow> ApiPeer list \<Rightarrow> PeerUserAgent list" where
  "shown_agents collate apiUserAgents peers =
     (case apiUserAgents of
        Some (a # as) \<Rightarrow> a # as
      | _ \<Rightarrow> derivePeerUserAgents collate peers)"

section \<open>The page and its state\<close>

definition PAGINATION_PAGE_SIZE :: int where "PAGINATION_PAGE_SIZE = 10"

record peers_state =
  ps_search :: string
  ps_page :: int
  ps_pageSize :: int
  ps_filters :: PeerFilters

definition peers_initial :: peers_state where
  "peers_initial = \<lparr>ps_search = '''', ps_page = 1, ps_pageSize = PAGINATION_PAGE_SIZE, ps_filters = EMPTY_PEER_FILTERS\<rparr>"

datatype peers_event =
  SearchChange string
| FiltersChange PeerFilters
| CountryChange "string option"
| ClearFilters
| GoToPage int
| PageSizeChange int

fun peers_step :: "peers_state \<Rightarrow> peers_event \<Rightarrow> peers_state" where
  "peers_step st (SearchChange value) = st\<lparr>ps_search := value, ps_page := 1\<rparr>"
| "peers_step st (FiltersChange f) = st\<lparr>ps_filters := f, ps_page := 1\<rparr>"
| "peers_step st (CountryChange code) = st\<lparr>ps_filters := (ps_filters st)\<lparr>pf_country := code\<rparr>, ps_page := 1\<rparr>"
| "peers_step st ClearFilters = st\<lparr>ps_filters := EMPTY_PEER_FILTERS, ps_search := '''', ps_page := 1\<rparr>"
| "peers_step st (GoToPage p) = st\<lparr>ps_page := p\<rparr>"
| "peers_step st (PageSizeChange n) = st\<lparr>ps_pageSize := n, ps_page := 1\<rparr>"

definition shown_peers :: "page_peer list \<Rightarrow> peers_state \<Rightarrow> page_peer list" where
  "shown_peers peers st = filtered_peers (ps_filters st) (ps_search st) peers"

definition page_data :: "page_peer list \<Rightarrow> peers_state \<Rightarrow> page_peer list" where
  "page_data peers st =
     (let start = (ps_page st - 1) * ps_pageSize st
      in js_slice (shown_peers peers st) start (start + ps_pageSize st))"

lemma filtered_is_filter: "filtered_peers f search peers = filter (peer_passes f (js_lower (js_trim search))) peers"
proof -
  have "foldl (\<lambda>out peer. if P peer then out @ [peer] else out) acc ps = acc @ filter P ps" for P acc and ps :: "page_peer list"
    by (induction ps arbitrary: acc) auto
  then show ?thesis by (simp add: filtered_peers_def Let_def)
qed

text \<open>A peer of the API as the browser gets it, with its place.\<close>

definition api_place :: "GeoIpInfo \<Rightarrow> api_geo option" where
  "api_place g = map_option (\<lambda>code. \<lparr>ag_ipv4 = '''', ag_countryCode = code, ag_city = '''',
     ag_latitude = JNull, ag_longitude = JNull\<rparr>) (countryCode g)"

definition to_page_peer :: "Peer \<Rightarrow> page_peer" where
  "to_page_peer p =
     \<lparr>ap_address = pr_address p, ap_available = pr_available p, ap_protocolVersion = pr_protocolVersion p,
      ap_userAgent = pr_userAgent p, ap_geo = Option.bind (pr_geo p) api_place, px_host = pr_host p\<rparr>"

fun status_matches :: "PeerStatusFilter \<Rightarrow> Peer \<Rightarrow> bool" where
  "status_matches AllPeers p \<longleftrightarrow> True"
| "status_matches AvailablePeers p \<longleftrightarrow> pr_available p"
| "status_matches UnavailablePeers p \<longleftrightarrow> \<not> pr_available p"

definition given_text :: "string option \<Rightarrow> string js" where
  "given_text t = (case t of Some s \<Rightarrow> if s = [] then JUndef else J s | None \<Rightarrow> JUndef)"

lemma page_peer_passes:
  "peer_passes f [] (to_page_peer p) \<longleftrightarrow> status_matches (pf_status f) p \<and>
     matches_peer (given_text (pf_country f)) (map_option (\<lambda>a b. b = a) (or_null (given_text (pf_userAgent f))))
       (given_text (pf_ip f)) p"
proof -
  have country: "(set_text c \<longrightarrow> map_option ag_countryCode (Option.bind (pr_geo p) api_place) = c) \<longleftrightarrow>
      (\<forall>x. given_text c = J x \<longrightarrow> (\<exists>g. pr_geo p = Some g \<and> countryCode g = Some x))" for c
    by (cases c; cases "pr_geo p") (auto simp: given_text_def api_place_def split: option.splits)
  have agent: "(set_text a \<longrightarrow> pr_userAgent p = a) \<longleftrightarrow>
      (\<forall>test. map_option (\<lambda>a b. b = a) (or_null (given_text a)) = Some test \<longrightarrow> (\<exists>x. pr_userAgent p = Some x \<and> test x))" for a
    by (cases a) (auto simp: given_text_def)
  have ip: "(set_text i \<longrightarrow> Some (pr_host p) = i) \<longleftrightarrow> (\<forall>x. given_text i = J x \<longrightarrow> pr_host p = x)" for i
    by (cases i) (auto simp: given_text_def)
  have status: "(\<not> (s = AvailablePeers \<and> \<not> pr_available p) \<and> \<not> (s = UnavailablePeers \<and> pr_available p)) =
      status_matches s p" for s by (cases s) auto
  show ?thesis
    unfolding peer_passes_def to_page_peer_def matches_peer_def
    using country [of "pf_country f"] agent [of "pf_userAgent f"] ip [of "pf_ip f"] status [of "pf_status f"]
    by auto
qed

text \<open>
  C22: the filters of the page. Without a search text the browser keeps exactly the peers that the API
  would have answered for the same country, address and status and a pattern that matches the
  chosen agent alone; with one it keeps those of them in whose address, agent, city and country it
  occurs. Any change of a filter, the search or the size of the pages leads back to the first page, and
  the pages, one after the other, show every peer that passes once.
\<close>

theorem browser_filters_like_api:
  fixes ps :: "Peer list"
  shows "(js_trim search = [] \<longrightarrow>
      filtered_peers f search (map to_page_peer ps) =
      map to_page_peer (filterPeers (given_text (pf_country f))
        (map_option (\<lambda>a b. b = a) (or_null (given_text (pf_userAgent f)))) (given_text (pf_ip f))
        (filter (status_matches (pf_status f)) ps))) \<and>
    set (filtered_peers f search peers) = {p \<in> set (filtered_peers f [] peers).
       js_trim search = [] \<or> js_includes (searchHaystack p) (js_lower (js_trim search))} \<and>
    (\<forall>e. (\<forall>p. e \<noteq> GoToPage p) \<longrightarrow> ps_page (peers_step st e) = 1) \<and>
    (\<forall>n k. ps_pageSize st = int k \<and> length (shown_peers peers st) \<le> n * k \<longrightarrow>
       concat (map (\<lambda>p. page_data peers (st\<lparr>ps_page := int p\<rparr>)) [1..<Suc n]) = shown_peers peers st)"
proof (intro conjI allI impI)
  have no_text: "js_lower (js_trim search) = [] \<longleftrightarrow> js_trim search = []" for search
    by (simp add: js_lower_def)
  have blank: "js_trim [] = []" by (simp add: js_trim_def)
  show "filtered_peers f search (map to_page_peer ps) =
      map to_page_peer (filterPeers (given_text (pf_country f))
        (map_option (\<lambda>a b. b = a) (or_null (given_text (pf_userAgent f)))) (given_text (pf_ip f))
        (filter (status_matches (pf_status f)) ps))" if "js_trim search = []"
  proof -
    have "js_lower (js_trim search) = []" using that by (simp add: js_lower_def)
    then show ?thesis
      by (simp add: that filtered_is_filter filterPeers_matches filter_map comp_def page_peer_passes conj_commute js_lower_def)
  qed
  have "peer_passes f (js_lower (js_trim search)) p \<longleftrightarrow> peer_passes f [] p \<and>
      (js_trim search = [] \<or> js_includes (searchHaystack p) (js_lower (js_trim search)))" for p
    by (auto simp: peer_passes_def no_text)
  moreover have "js_lower [] = []" by (simp add: js_lower_def)
  ultimately show "set (filtered_peers f search peers) = {p \<in> set (filtered_peers f [] peers).
       js_trim search = [] \<or> js_includes (searchHaystack p) (js_lower (js_trim search))}"
    by (auto simp: filtered_is_filter blank)
  show "ps_page (peers_step st e) = 1" if "\<forall>p. e \<noteq> GoToPage p" for e
    using that by (cases e) auto
  show "concat (map (\<lambda>p. page_data peers (st\<lparr>ps_page := int p\<rparr>)) [1..<Suc n]) = shown_peers peers st"
    if "ps_pageSize st = int k \<and> length (shown_peers peers st) \<le> n * k" for n k
  proof -
    have "page_data peers (st\<lparr>ps_page := int p\<rparr>) = page_of p k (shown_peers peers st)" if "1 \<le> p" for p
    proof -
      have "shown_peers peers (st\<lparr>ps_page := int p\<rparr>) = shown_peers peers st" by (simp add: shown_peers_def)
      moreover have "(int p - 1) * int k + int k = int p * int k" by (simp add: algebra_simps)
      ultimately show ?thesis
        using js_slice_page_of [OF that, of "shown_peers peers st" k] \<open>ps_pageSize st = int k \<and> _\<close>
        by (simp add: page_data_def Let_def)
    qed
    then have "map (\<lambda>p. page_data peers (st\<lparr>ps_page := int p\<rparr>)) [1..<Suc n] =
        map (\<lambda>p. page_of p k (shown_peers peers st)) [1..<Suc n]" by (intro map_cong [OF refl]) auto
    then show ?thesis using that by (simp only: concat_pages) simp
  qed
qed

theorem browser_filters_like_api_witness:
  "filtered_peers EMPTY_PEER_FILTERS '' '' (map to_page_peer []) = [] \<and>
   ps_page (peers_step (peers_initial\<lparr>ps_page := 4\<rparr>) (SearchChange ''x'')) = 1 \<and>
   concat (map (\<lambda>p. page_data [] (peers_initial\<lparr>ps_page := int p\<rparr>)) [1..<Suc 1]) = []"
proof -
  note api = browser_filters_like_api [of "'' ''" EMPTY_PEER_FILTERS "[]" "[]" "peers_initial\<lparr>ps_page := 4\<rparr>"]
  have "js_trim '' '' = ''''" by code_simp
  moreover have "filterPeers c u i [] = []" for c u i by (simp add: filterPeers_matches)
  ultimately have "filtered_peers EMPTY_PEER_FILTERS '' '' (map to_page_peer []) = []"
    using api [THEN conjunct1] by simp
  moreover have "ps_page (peers_step (peers_initial\<lparr>ps_page := 4\<rparr>) (SearchChange ''x'')) = 1"
    by (rule api [THEN conjunct2, THEN conjunct2, THEN conjunct1, rule_format]) simp
  moreover have empty: "shown_peers [] st = []" for st by (simp add: shown_peers_def filtered_is_filter)
  have "concat (map (\<lambda>p. page_data [] (peers_initial\<lparr>ps_page := int p\<rparr>)) [1..<Suc 1]) = shown_peers [] peers_initial"
    by (rule browser_filters_like_api [THEN conjunct2, THEN conjunct2, THEN conjunct2, rule_format, of peers_initial 10])
      (simp_all add: shown_peers_def filtered_is_filter peers_initial_def PAGINATION_PAGE_SIZE_def)
  ultimately show ?thesis using empty [of peers_initial] by simp
qed

end
