(* ===== verification/PeersPanels.thy ===== *)
theory PeersPanels
  imports PeersPage
begin

text \<open>
  The panels of the page of the peers: the two charts (\<open>components/peers-distribution.tsx\<close>), the filter
  bar with its field for an address (\<open>components/peers-filter-bar.tsx\<close>) and the map
  (\<open>components/peers-map/index.tsx\<close>), put together with the page's own state as
  \<open>pages/peers.tsx\<close> puts them together. Every click of a panel is an event of one machine.
\<close>

section \<open>The charts\<close>

definition USER_AGENT_COLORS :: "string list" where
  "USER_AGENT_COLORS =
     [''var(--accent)'', ''var(--accent-teal)'', ''var(--accent-violet)'', ''var(--accent-lime)'', ''var(--chart-4)'']"

definition OTHER_COLOR :: string where
  "OTHER_COLOR = ''color-mix(in oklab, var(--muted-foreground) 28%, transparent)''"

record chart_slice =
  cs_key :: string
  cs_label :: string
  cs_value :: int
  cs_color :: string
  cs_selection :: string
  cs_filter :: "string option"

definition statusData :: "int \<Rightarrow> int \<Rightarrow> chart_slice list" where
  "statusData whole available =
     [\<lparr>cs_key = ''available'', cs_label = ''Available'', cs_value = available, cs_color = ''var(--success)'',
       cs_selection = ''available'', cs_filter = Some ''available''\<rparr>,
      \<lparr>cs_key = ''unavailable'', cs_label = ''Unavailable'', cs_value = max 0 (whole - available),
       cs_color = ''var(--destructive)'', cs_selection = ''unavailable'', cs_filter = Some ''unavailable''\<rparr>]"

definition agent_sum :: "PeerUserAgent list \<Rightarrow> int" where
  "agent_sum = foldl (\<lambda>acc item. acc + int (ua_count item)) 0"

definition agentData :: "PeerUserAgent list \<Rightarrow> chart_slice list" where
  "agentData userAgents =
     (let shown = map (\<lambda>(i, item).
            \<lparr>cs_key = ''agent-'' @ dec_nat i, cs_label = ua_userAgent item, cs_value = int (ua_count item),
             cs_color = USER_AGENT_COLORS ! i, cs_selection = ua_userAgent item,
             cs_filter = Some (ua_userAgent item)\<rparr>)
            (enumerate 0 (take (length USER_AGENT_COLORS) userAgents));
          other = agent_sum (drop (length USER_AGENT_COLORS) userAgents)
      in if other > 0
         then shown @ [\<lparr>cs_key = ''other'', cs_label = ''Other'', cs_value = other, cs_color = OTHER_COLOR,
            cs_selection = ''other'', cs_filter = None\<rparr>]
         else shown)"

definition selectedAgentBucket :: "PeerUserAgent list \<Rightarrow> string option \<Rightarrow> string option" where
  "selectedAgentBucket userAgents userAgent =
     (case userAgent of
        None \<Rightarrow> None
      | Some a \<Rightarrow> if \<exists>sl \<in> set (agentData userAgents). cs_filter sl = Some a then Some a else Some ''other'')"

fun status_text :: "PeerStatusFilter \<Rightarrow> string" where
  "status_text AllPeers = ''all''"
| "status_text AvailablePeers = ''available''"
| "status_text UnavailablePeers = ''unavailable''"

definition selectedStatus :: "PeerStatusFilter \<Rightarrow> string option" where
  "selectedStatus status = (if status = AllPeers then None else Some (status_text status))"

text \<open>A click on a slice of the charts: the chosen one is given up, another one taken.\<close>

definition status_clicked :: "PeerStatusFilter \<Rightarrow> PeerStatusFilter \<Rightarrow> PeerStatusFilter" where
  "status_clicked status chosen = (if status = chosen then AllPeers else chosen)"

definition agent_clicked :: "string option \<Rightarrow> string \<Rightarrow> string option" where
  "agent_clicked userAgent chosen = (if userAgent = Some chosen then None else Some chosen)"

record chart_row =
  cw_label :: string
  cw_value :: int
  cw_percent :: string
  cw_selected :: bool
  cw_dimmed :: bool
  cw_clickable :: bool

definition DistributionRow :: "int \<Rightarrow> string option \<Rightarrow> chart_slice \<Rightarrow> chart_row" where
  "DistributionRow whole selected sl =
     \<lparr>cw_label = cs_label sl, cw_value = cs_value sl,
      cw_percent = to_fixed 1 (fl (fl (of_int (cs_value sl) / of_int whole) * 100)) @ ''%'',
      cw_selected = (selected = Some (cs_selection sl)),
      cw_dimmed = (selected \<noteq> None \<and> selected \<noteq> Some (cs_selection sl)),
      cw_clickable = set_text (cs_filter sl)\<rparr>"

record pie_cell =
  pc_fill :: string
  pc_value :: int
  pc_muted :: bool
  pc_clickable :: bool

datatype distribution_body =
  DistributionSkeleton
| NoDistribution
| Distribution "pie_cell list" "chart_row list"

definition DistributionCard :: "chart_slice list \<Rightarrow> int \<Rightarrow> bool \<Rightarrow> string option \<Rightarrow> distribution_body" where
  "DistributionCard slices whole isLoading selected =
     (if isLoading then DistributionSkeleton
      else if whole = 0 then NoDistribution
      else Distribution
        (map (\<lambda>sl. \<lparr>pc_fill = cs_color sl, pc_value = cs_value sl,
            pc_muted = (selected \<noteq> None \<and> selected \<noteq> Some (cs_selection sl)),
            pc_clickable = set_text (cs_filter sl)\<rparr>)
          (filter (\<lambda>sl. 0 < cs_value sl) slices))
        (map (DistributionRow whole selected) slices))"

section \<open>What the charts count\<close>

definition advertises :: "ApiPeer \<Rightarrow> bool" where
  "advertises p \<longleftrightarrow> ap_available p \<and> set_text (ap_userAgent p)"

lemma sum_update:
  fixes al :: "('a \<times> nat) list"
  assumes "distinct (map fst al)"
  shows "sum_list (map snd (AList.update k v al)) + or_else (map_of al k) 0 = sum_list (map snd al) + v"
  using assms
proof (induction al)
  case (Cons x al)
  then show ?case by (cases x) (auto simp: algebra_simps)
qed simp

lemma count_advertised_step:
  assumes "distinct (map fst acc)"
  shows "distinct (map fst (count_advertised acc p))"
    "sum_list (map snd (count_advertised acc p)) = sum_list (map snd acc) + (if advertises p then 1 else 0)"
    "or_else (map_of (count_advertised acc p) a) 0 =
       or_else (map_of acc a) 0 + (if advertises p \<and> ap_userAgent p = Some a then 1 else 0)"
    "(0::nat) \<notin> snd ` set acc \<Longrightarrow> 0 \<notin> snd ` set (count_advertised acc p)"
proof -
  show "distinct (map fst (count_advertised acc p))"
    using assms by (auto simp: count_advertised_def distinct_update split: option.split)
  show "sum_list (map snd (count_advertised acc p)) = sum_list (map snd acc) + (if advertises p then 1 else 0)"
  proof -
    have "sum_list (map snd (AList.update k (Suc (or_else (map_of acc k) 0)) acc)) = Suc (sum_list (map snd acc))" for k
      using sum_update [OF assms, of k "Suc (or_else (map_of acc k) 0)"] by simp
    then show ?thesis by (auto simp: count_advertised_def advertises_def split: option.split)
  qed
  show "or_else (map_of (count_advertised acc p) a) 0 =
       or_else (map_of acc a) 0 + (if advertises p \<and> ap_userAgent p = Some a then 1 else 0)"
    by (auto simp: count_advertised_def advertises_def update_conv' split: option.split)
  show "0 \<notin> snd ` set (count_advertised acc p)" if "(0::nat) \<notin> snd ` set acc"
  proof -
    have "0 \<notin> snd ` set (AList.update k (Suc v) acc)" for k v
      using that by (induction acc) auto
    then show ?thesis using that by (auto simp: count_advertised_def split: option.split)
  qed
qed

lemma advertised_counts:
  fixes ps :: "ApiPeer list"
  defines "m \<equiv> foldl count_advertised [] ps"
  shows "distinct (map fst m)"
    "sum_list (map snd m) = length (filter advertises ps)"
    "(a, n) \<in> set m \<Longrightarrow> 0 < n \<and> n = length (filter (\<lambda>p. advertises p \<and> ap_userAgent p = Some a) ps)"
proof -
  have all: "distinct (map fst m) \<and> sum_list (map snd m) = length (filter advertises ps) \<and>
      or_else (map_of m a) 0 = length (filter (\<lambda>p. advertises p \<and> ap_userAgent p = Some a) ps) \<and>
      0 \<notin> snd ` set m" for a
    unfolding m_def
  proof (induction ps rule: rev_induct)
    case (snoc p ps)
    from snoc count_advertised_step [of "foldl count_advertised [] ps" p] show ?case by auto
  qed simp
  then show "distinct (map fst m)" "sum_list (map snd m) = length (filter advertises ps)" by blast+
  assume pair: "(a, n) \<in> set m"
  then have "map_of m a = Some n" using all by simp
  then show "0 < n \<and> n = length (filter (\<lambda>p. advertises p \<and> ap_userAgent p = Some a) ps)"
    using all [of a] pair by force
qed

lemma agent_sum_eq: "agent_sum us = int (sum_list (map ua_count us))"
proof -
  have "foldl (\<lambda>acc item. acc + int (ua_count item)) k us = k + int (sum_list (map ua_count us))" for k
    by (induction us arbitrary: k) auto
  then show ?thesis by (simp add: agent_sum_def)
qed

lemma agent_slices:
  "map cs_filter (agentData us) = map Some (map ua_userAgent (take 5 us)) @
     (if sum_list (map ua_count (drop 5 us)) = 0 then [] else [None])"
  "map cs_value (agentData us) = map int (map ua_count (take 5 us)) @
     (if sum_list (map ua_count (drop 5 us)) = 0 then [] else [int (sum_list (map ua_count (drop 5 us)))])"
  "length USER_AGENT_COLORS = 5"
proof -
  show five: "length USER_AGENT_COLORS = 5" by (simp add: USER_AGENT_COLORS_def)
  have mapped: "map f (map (\<lambda>(i, item). g i item) (enumerate k xs)) = map h xs"
    if "\<And>i item. f (g i item) = h item" for f :: "chart_slice \<Rightarrow> 'b" and g h k and xs :: "PeerUserAgent list"
    using that by (induction xs arbitrary: k) auto
  show "map cs_filter (agentData us) = map Some (map ua_userAgent (take 5 us)) @
     (if sum_list (map ua_count (drop 5 us)) = 0 then [] else [None])"
    unfolding agentData_def Let_def five agent_sum_eq
    by (subst if_distrib [of "map cs_filter"], subst map_append, subst (1 2) mapped [of cs_filter _ "Some \<circ> ua_userAgent"])
      simp_all
  show "map cs_value (agentData us) = map int (map ua_count (take 5 us)) @
     (if sum_list (map ua_count (drop 5 us)) = 0 then [] else [int (sum_list (map ua_count (drop 5 us)))])"
    unfolding agentData_def Let_def five agent_sum_eq
    by (subst if_distrib [of "map cs_value"], subst map_append, subst (1 2) mapped [of cs_value _ "int \<circ> ua_count"])
      simp_all
qed

text \<open>The charts look at the peers without their hosts.\<close>

definition api_view :: "page_peer list \<Rightarrow> ApiPeer list" where
  "api_view = map ApiPeer.truncate"

lemma truncate_fields [simp]:
  "ap_available (ApiPeer.truncate p) = ap_available p" "ap_userAgent (ApiPeer.truncate p) = ap_userAgent p"
  "ap_address (ApiPeer.truncate p) = ap_address p" "ap_geo (ApiPeer.truncate p) = ap_geo p"
  by (cases p; simp add: ApiPeer.defs)+

lemma filters_alone:
  "filtered_peers (EMPTY_PEER_FILTERS\<lparr>pf_status := AvailablePeers, pf_userAgent := Some a\<rparr>) '''' peers =
     filter (\<lambda>p. ap_available p \<and> (a \<noteq> [] \<longrightarrow> ap_userAgent p = Some a)) peers"
  "filtered_peers (EMPTY_PEER_FILTERS\<lparr>pf_status := s\<rparr>) '''' peers =
     filter (\<lambda>p. (s = AvailablePeers \<longrightarrow> ap_available p) \<and> (s = UnavailablePeers \<longrightarrow> \<not> ap_available p)) peers"
proof -
  have blank: "js_lower (js_trim []) = []" by (simp add: js_lower_def js_trim_def)
  show "filtered_peers (EMPTY_PEER_FILTERS\<lparr>pf_status := AvailablePeers, pf_userAgent := Some a\<rparr>) '''' peers =
     filter (\<lambda>p. ap_available p \<and> (a \<noteq> [] \<longrightarrow> ap_userAgent p = Some a)) peers"
    by (auto simp: filtered_is_filter peer_passes_def EMPTY_PEER_FILTERS_def blank intro!: filter_cong)
  show "filtered_peers (EMPTY_PEER_FILTERS\<lparr>pf_status := s\<rparr>) '''' peers =
     filter (\<lambda>p. (s = AvailablePeers \<longrightarrow> ap_available p) \<and> (s = UnavailablePeers \<longrightarrow> \<not> ap_available p)) peers"
    by (auto simp: filtered_is_filter peer_passes_def EMPTY_PEER_FILTERS_def blank intro!: filter_cong)
qed

lemma agent_slice_of:
  "sl \<in> set (agentData us) \<Longrightarrow> cs_filter sl = Some a \<Longrightarrow>
     \<exists>u \<in> set us. ua_userAgent u = a \<and> cs_value sl = int (ua_count u)"
  by (auto simp: agentData_def Let_def in_set_enumerate_eq split: if_splits dest!: in_set_takeD)

lemma agent_slice_for:
  assumes "u \<in> set us" "0 < ua_count u"
  shows "selectedAgentBucket us (Some (ua_userAgent u)) \<in> Some ` cs_selection ` set (agentData us)"
proof (cases "\<exists>sl \<in> set (agentData us). cs_filter sl = Some (ua_userAgent u)")
  case True
  then obtain sl where sl: "sl \<in> set (agentData us)" "cs_filter sl = Some (ua_userAgent u)" by blast
  then have "cs_selection sl = ua_userAgent u" by (auto simp: agentData_def Let_def split: if_splits)
  moreover have "selectedAgentBucket us (Some (ua_userAgent u)) = Some (ua_userAgent u)"
    using sl by (auto simp: selectedAgentBucket_def)
  ultimately show ?thesis using sl(1) by (metis image_eqI)
next
  case False
  have "Some (ua_userAgent u) \<notin> set (map cs_filter (agentData us))" using False by force
  then have "u \<notin> set (take 5 us)" by (auto simp: agent_slices(1))
  then have "u \<in> set (drop 5 us)" using assms(1) by (metis Un_iff append_take_drop_id set_append)
  then have "sum_list (map ua_count (drop 5 us)) \<noteq> 0" using assms(2) by auto
  then have "\<exists>sl \<in> set (agentData us). cs_selection sl = ''other''"
    by (simp add: agentData_def Let_def agent_slices(3) agent_sum_eq del: sum_list_eq_0_iff)
  with False show ?thesis by (simp add: selectedAgentBucket_def) (metis image_eqI)
qed

lemma derived_agents:
  fixes peers :: "page_peer list"
  defines "m \<equiv> foldl count_advertised [] (api_view peers)"
  shows "mset (derivePeerUserAgents collate (api_view peers)) = mset (map (\<lambda>(agent, n). \<lparr>ua_userAgent = agent, ua_count = n\<rparr>) m)"
  by (simp add: derivePeerUserAgents_def m_def)

lemma derived_agent_count:
  assumes "u \<in> set (derivePeerUserAgents collate (api_view peers))"
  shows "ua_userAgent u \<noteq> []" "0 < ua_count u"
    "ua_count u = length (filter (\<lambda>p. ap_available p \<and> ap_userAgent p = Some (ua_userAgent u)) peers)"
proof -
  let ?m = "foldl count_advertised [] (api_view peers)"
  have "u \<in> (\<lambda>(agent, n). \<lparr>ua_userAgent = agent, ua_count = n\<rparr>) ` set ?m"
    using assms mset_eq_setD [OF derived_agents [of collate peers]] by simp
  then have "(ua_userAgent u, ua_count u) \<in> set ?m" by auto
  note counted = advertised_counts(3) [OF this]
  then show "0 < ua_count u" by (rule conjunct1)
  from counted have "0 < length (filter (\<lambda>p. advertises p \<and> ap_userAgent p = Some (ua_userAgent u)) (api_view peers))"
    by metis
  then obtain p where "advertises p" "ap_userAgent p = Some (ua_userAgent u)" by (auto simp: filter_empty_conv)
  then show named: "ua_userAgent u \<noteq> []" by (auto simp: advertises_def)
  then have "advertises p \<and> ap_userAgent p = Some (ua_userAgent u) \<longleftrightarrow> ap_available p \<and> ap_userAgent p = Some (ua_userAgent u)"
    for p by (auto simp: advertises_def)
  with counted show "ua_count u = length (filter (\<lambda>p. ap_available p \<and> ap_userAgent p = Some (ua_userAgent u)) peers)"
    by (simp add: api_view_def filter_map comp_def)
qed

text \<open>
  The charts of the page of the peers. The slices for the agents together count every available
  peer with an agent, the number on each slice that can be clicked is the number of peers in the
  list after the click, beside the filter for available peers, and the numbers for reachability are
  those of the list after a click there. Whatever agent of the list is chosen, one slice stays lit.
\<close>

theorem charts_count_the_list:
  fixes peers :: "page_peer list" and collate :: "string \<Rightarrow> string \<Rightarrow> int"
  defines "us \<equiv> derivePeerUserAgents collate (api_view peers)"
  shows "sum_list (map cs_value (agentData us)) = int (length (filter advertises (api_view peers))) \<and>
    (\<forall>sl \<in> set (agentData us). \<forall>a. cs_filter sl = Some a \<longrightarrow> set_text (cs_filter sl) \<and>
      cs_value sl = int (length (filtered_peers
        (EMPTY_PEER_FILTERS\<lparr>pf_status := AvailablePeers, pf_userAgent := agent_clicked None a\<rparr>) '''' peers))) \<and>
    (\<forall>sl \<in> set (statusData (int (st_total (peers_stats peers))) (int (st_available (peers_stats peers)))).
      \<exists>s. cs_filter sl = Some (status_text s) \<and> cs_value sl = int (length (filtered_peers
        (EMPTY_PEER_FILTERS\<lparr>pf_status := status_clicked AllPeers s\<rparr>) '''' peers))) \<and>
    (\<forall>u \<in> set us. selectedAgentBucket us (Some (ua_userAgent u)) \<in> Some ` cs_selection ` set (agentData us))"
proof (intro conjI ballI allI impI)
  let ?m = "foldl count_advertised [] (api_view peers)"
  have "sum_list (map cs_value (agentData us)) = int (sum_list (map ua_count us))"
  proof -
    have "sum_list (map ua_count us) = sum_list (map ua_count (take 5 us)) + sum_list (map ua_count (drop 5 us))"
      by (metis append_take_drop_id map_append sum_list_append)
    moreover have "sum_list (map int ns) = int (sum_list ns)" for ns :: "nat list" by (induction ns) auto
    ultimately show ?thesis by (simp add: agent_slices(2) del: map_map)
  qed
  also have "sum_list (map ua_count us) = sum_list (map snd ?m)"
  proof -
    have "mset (map ua_count us) = mset (map snd ?m)"
      using arg_cong [OF derived_agents [of collate peers], of "image_mset ua_count"]
      by (simp add: us_def image_mset.compositionality comp_def case_prod_beta)
    then show ?thesis by (metis sum_mset_sum_list)
  qed
  finally show "sum_list (map cs_value (agentData us)) = int (length (filter advertises (api_view peers)))"
    by (simp add: advertised_counts(2))
  fix sl a
  assume "sl \<in> set (agentData us)" "cs_filter sl = Some a"
  from agent_slice_of [OF this] obtain u where u: "u \<in> set us" "ua_userAgent u = a" "cs_value sl = int (ua_count u)" by blast
  note counted = derived_agent_count [OF u(1) [unfolded us_def]]
  from counted(1) u(2) \<open>cs_filter sl = Some a\<close> show "set_text (cs_filter sl)" by simp
  from counted u(2,3) show "cs_value sl = int (length (filtered_peers
      (EMPTY_PEER_FILTERS\<lparr>pf_status := AvailablePeers, pf_userAgent := agent_clicked None a\<rparr>) '''' peers))"
    by (simp add: agent_clicked_def filters_alone)
next
  have rest: "int (length peers) - int (length (filter ap_available peers)) = int (length (filter (\<lambda>p. \<not> ap_available p) peers))"
    using sum_length_filter_compl [of ap_available peers] by linarith
  fix sl
  assume "sl \<in> set (statusData (int (st_total (peers_stats peers))) (int (st_available (peers_stats peers))))"
  then consider "cs_filter sl = Some (status_text AvailablePeers)" "cs_value sl = int (length (filter ap_available peers))"
    | "cs_filter sl = Some (status_text UnavailablePeers)" "cs_value sl = int (length (filter (\<lambda>p. \<not> ap_available p) peers))"
    using rest by (auto simp: statusData_def peers_stats_def Let_def)
  then show "\<exists>s. cs_filter sl = Some (status_text s) \<and> cs_value sl = int (length (filtered_peers
        (EMPTY_PEER_FILTERS\<lparr>pf_status := status_clicked AllPeers s\<rparr>) '''' peers))"
    by cases (force simp: status_clicked_def filters_alone)+
next
  fix u
  assume "u \<in> set us"
  then show "selectedAgentBucket us (Some (ua_userAgent u)) \<in> Some ` cs_selection ` set (agentData us)"
    by (intro agent_slice_for) (simp_all add: us_def derived_agent_count(2))
qed

definition sample_page_peer :: page_peer where
  "sample_page_peer = \<lparr>ap_address = ''1.2.3.4:9999'', ap_available = True, ap_protocolVersion = None,
     ap_userAgent = Some ''dash'', ap_geo = None, px_host = ''1.2.3.4''\<rparr>"

theorem charts_count_the_list_witness:
  "let us = derivePeerUserAgents compare_texts (api_view [sample_page_peer]) in
     sum_list (map cs_value (agentData us)) = 1 \<and> map ua_userAgent us = [''dash''] \<and>
     length (filtered_peers (EMPTY_PEER_FILTERS\<lparr>pf_status := AvailablePeers, pf_userAgent := Some ''dash''\<rparr>) '''' [sample_page_peer]) = 1 \<and>
     selectedAgentBucket us (Some ''dash'') = Some ''dash''"
proof -
  let ?us = "derivePeerUserAgents compare_texts (api_view [sample_page_peer])"
  note facts = charts_count_the_list [of compare_texts "[sample_page_peer]"]
  have us: "?us = [\<lparr>ua_userAgent = ''dash'', ua_count = 1\<rparr>]"
    by (simp add: derivePeerUserAgents_def api_view_def count_advertised_def sample_page_peer_def ApiPeer.defs js_sort_sorted)
  have first: "\<exists>sl \<in> set (agentData ?us). cs_filter sl = Some ''dash'' \<and> cs_value sl = 1 \<and> cs_selection sl = ''dash''"
    by (simp add: us agentData_def USER_AGENT_COLORS_def agent_sum_def)
  then obtain sl where sl: "sl \<in> set (agentData ?us)" "cs_filter sl = Some ''dash''" "cs_value sl = 1" by blast
  have "sum_list (map cs_value (agentData ?us)) = 1"
    using facts [THEN conjunct1] by (simp add: api_view_def advertises_def sample_page_peer_def ApiPeer.defs)
  moreover have "length (filtered_peers (EMPTY_PEER_FILTERS\<lparr>pf_status := AvailablePeers, pf_userAgent := Some ''dash''\<rparr>) '''' [sample_page_peer]) = 1"
    using facts [THEN conjunct2, THEN conjunct1, rule_format, OF sl(1,2)] sl(3)
    by (simp add: agent_clicked_def)
  moreover have "selectedAgentBucket ?us (Some ''dash'') = Some ''dash''"
    using sl by (auto simp: selectedAgentBucket_def)
  ultimately show ?thesis by (simp add: us)
qed

section \<open>The page with its panels\<close>

text \<open>
  \<open>useEffect\<close> of the field: the draft follows the filter, and a draft that is an address without
  being the filter is emptied.
\<close>

definition ip_effect :: "string option \<Rightarrow> string \<Rightarrow> string" where
  "ip_effect ip draft =
     (let draft' = (case ip of Some x \<Rightarrow> if x \<noteq> draft then x else draft | None \<Rightarrow> draft)
      in if ip = None \<and> isValidIpv4 (js_trim draft) then [] else draft')"

definition ipInvalid :: "string \<Rightarrow> bool \<Rightarrow> bool" where
  "ipInvalid draft touched =
     (let normalized = js_trim draft
      in normalized \<noteq> [] \<and> \<not> isValidIpv4 normalized \<and>
         (touched \<or> length (js_split (CHR ''.'') normalized) = 4))"

record peers_view =
  pv_peers :: "page_peer list"
  pv_page :: peers_state
  pv_draft :: string
  pv_touched :: bool
  pv_cluster :: "PeerGeoPoint list option"
  pv_selected :: "string option"

definition view_initial :: "page_peer list \<Rightarrow> peers_view" where
  "view_initial peers = \<lparr>pv_peers = peers, pv_page = peers_initial, pv_draft = '''', pv_touched = False,
     pv_cluster = None, pv_selected = None\<rparr>"

text \<open>The map is given the peers that pass the filters, and the country and status of the page.\<close>

definition peer_map_points :: "peers_view \<Rightarrow> PeerGeoPoint list" where
  "peer_map_points v =
     (let f = ps_filters (pv_page v);
          allPoints = peersToGeoPoints (api_view (shown_peers (pv_peers v) (pv_page v)));
          statusFiltered = (case pf_status f of
             AvailablePeers \<Rightarrow> filter pp_available allPoints
           | UnavailablePeers \<Rightarrow> filter (\<lambda>p. \<not> pp_available p) allPoints
           | AllPeers \<Rightarrow> allPoints)
      in if set_text (pf_country f)
         then filter (\<lambda>p. Some (pp_countryCode p) = pf_country f) statusFiltered
         else statusFiltered)"

datatype view_event =
  NewPeers "page_peer list"
| BarFilters PeerFilters
| BarSearch string
| BarIp string
| BarLeaveIp
| BarReset
| ChartStatus PeerStatusFilter
| ChartAgent string
| MapCountry "string option"
| MapStatus PeerStatusFilter
| MapCluster "PeerGeoPoint list"
| MapPeer PeerGeoPoint
| MapDropCluster
| MapBack
| TablePage int
| TablePageSize int

text \<open>A new list of filtered peers closes what the map had opened; the field follows the filter.\<close>

definition to_page :: "peers_event \<Rightarrow> peers_view \<Rightarrow> peers_view" where
  "to_page e v =
     (let page = peers_step (pv_page v) e;
          refiltered = (case e of GoToPage _ \<Rightarrow> False | PageSizeChange _ \<Rightarrow> False
             | SearchChange value \<Rightarrow> value \<noteq> ps_search (pv_page v) | _ \<Rightarrow> True);
          v = v\<lparr>pv_page := page, pv_draft := ip_effect (pf_ip (ps_filters page)) (pv_draft v)\<rparr>
      in if refiltered then v\<lparr>pv_cluster := None, pv_selected := None\<rparr> else v)"

fun view_step :: "peers_view \<Rightarrow> view_event \<Rightarrow> peers_view" where
  "view_step v (NewPeers peers) = v\<lparr>pv_peers := peers, pv_cluster := None, pv_selected := None\<rparr>"
| "view_step v (BarFilters f) = to_page (FiltersChange (f\<lparr>pf_ip := pf_ip (ps_filters (pv_page v))\<rparr>)) v"
| "view_step v (BarSearch value) = to_page (SearchChange value) v"
| "view_step v (BarIp value) =
     (let normalized = js_trim value
      in to_page (FiltersChange ((ps_filters (pv_page v))
           \<lparr>pf_ip := (if isValidIpv4 normalized then Some normalized else None)\<rparr>)) (v\<lparr>pv_draft := value\<rparr>))"
| "view_step v BarLeaveIp = v\<lparr>pv_touched := True\<rparr>"
| "view_step v BarReset = to_page ClearFilters (v\<lparr>pv_draft := '''', pv_touched := False\<rparr>)"
| "view_step v (ChartStatus s) =
     to_page (FiltersChange ((ps_filters (pv_page v))
       \<lparr>pf_status := status_clicked (pf_status (ps_filters (pv_page v))) s\<rparr>)) v"
| "view_step v (ChartAgent a) =
     to_page (FiltersChange ((ps_filters (pv_page v))
       \<lparr>pf_userAgent := agent_clicked (pf_userAgent (ps_filters (pv_page v))) a\<rparr>)) v"
| "view_step v (MapCountry code) = to_page (CountryChange code) (v\<lparr>pv_cluster := None, pv_selected := None\<rparr>)"
| "view_step v (MapStatus s) =
     to_page (FiltersChange ((ps_filters (pv_page v))\<lparr>pf_status := s\<rparr>)) (v\<lparr>pv_cluster := None, pv_selected := None\<rparr>)"
| "view_step v (MapCluster ls) = v\<lparr>pv_selected := None, pv_cluster := Some ls\<rparr>"
| "view_step v (MapPeer p) = v\<lparr>pv_selected := Some (pp_address p)\<rparr>"
| "view_step v MapDropCluster = v\<lparr>pv_cluster := None\<rparr>"
| "view_step v MapBack = v\<lparr>pv_selected := None\<rparr>"
| "view_step v (TablePage n) = to_page (GoToPage n) v"
| "view_step v (TablePageSize n) = to_page (PageSizeChange n) v"

text \<open>What the panel beside the map shows.\<close>

datatype peer_panel =
  PeerDetailPanel ApiPeer
| ClusterPanel "PeerGeoPoint list"
| CountryPanel "PeerGeoPoint list"
| LegendPanel "PeerGeoPoint list"

definition selectedPeer :: "peers_view \<Rightarrow> ApiPeer option" where
  "selectedPeer v =
     (if set_text (pv_selected v)
      then Option.bind (pv_selected v) (map_of (peersByAddress (api_view (pv_peers v)))) else None)"

definition peer_panel_of :: "peers_view \<Rightarrow> peer_panel" where
  "peer_panel_of v =
     (case (selectedPeer v, pv_cluster v) of
        (Some p, _) \<Rightarrow> PeerDetailPanel p
      | (None, Some ls) \<Rightarrow> ClusterPanel ls
      | (None, None) \<Rightarrow> if set_text (pf_country (ps_filters (pv_page v))) then CountryPanel (peer_map_points v)
          else LegendPanel (peer_map_points v))"

lemma fold_points_eq: "peersToGeoPoints ps = List.map_filter peer_point ps"
  by (rule points_of_located)

lemma peer_point_fields:
  "peer_point p = Some q \<Longrightarrow> pp_available q = ap_available p \<and> pp_address q = ap_address p \<and>
     map_option ag_countryCode (ap_geo p) = Some (pp_countryCode q)"
  by (auto simp: peer_point_def split: option.splits js.splits)

text \<open>
  The map filters by country and status once more; on the page of the peers this changes nothing.
\<close>

lemma map_shows_the_list:
  "peer_map_points v = peersToGeoPoints (api_view (shown_peers (pv_peers v) (pv_page v)))"
proof -
  let ?f = "ps_filters (pv_page v)"
  have passes: "(pf_status ?f = AvailablePeers \<longrightarrow> pp_available q) \<and> (pf_status ?f = UnavailablePeers \<longrightarrow> \<not> pp_available q) \<and>
      (set_text (pf_country ?f) \<longrightarrow> Some (pp_countryCode q) = pf_country ?f)"
    if "q \<in> set (peersToGeoPoints (api_view (shown_peers (pv_peers v) (pv_page v))))" for q
  proof -
    from that obtain p where p: "p \<in> set (shown_peers (pv_peers v) (pv_page v))" "peer_point (ApiPeer.truncate p) = Some q"
      by (auto simp: fold_points_eq map_filter_def api_view_def)
    from p(1) have "peer_passes ?f (js_lower (js_trim (ps_search (pv_page v)))) p"
      by (simp add: shown_peers_def filtered_is_filter)
    with peer_point_fields [OF p(2)] show ?thesis by (auto simp: peer_passes_def)
  qed
  have "filter P xs = xs" if "\<forall>x \<in> set xs. P x" for P and xs :: "PeerGeoPoint list"
    using that by (rule filter_True)
  with passes show ?thesis by (auto simp: peer_map_points_def Let_def split: PeerStatusFilter.split)
qed

text \<open>A cluster or a peer that is clicked is one that the map or the panel shows.\<close>

fun offered_event :: "peers_view \<Rightarrow> view_event \<Rightarrow> bool" where
  "offered_event v (MapCluster ls) \<longleftrightarrow> set ls \<subseteq> set (peer_map_points v)"
| "offered_event v (MapPeer p) \<longleftrightarrow>
     p \<in> set (peer_map_points v) \<or> (\<exists>ls. pv_cluster v = Some ls \<and> p \<in> set ls)"
| "offered_event v _ \<longleftrightarrow> True"

fun field_agrees :: "string option \<Rightarrow> string \<Rightarrow> bool" where
  "field_agrees (Some x) draft \<longleftrightarrow> draft = x \<and> isValidIpv4 x"
| "field_agrees None draft \<longleftrightarrow> \<not> isValidIpv4 (js_trim draft)"

definition view_consistent :: "peers_view \<Rightarrow> bool" where
  "view_consistent v \<longleftrightarrow>
     (\<forall>ls. pv_cluster v = Some ls \<longrightarrow> set ls \<subseteq> set (peer_map_points v)) \<and>
     (\<forall>a. pv_selected v = Some a \<longrightarrow> a \<in> ap_address ` set (shown_peers (pv_peers v) (pv_page v))) \<and>
     field_agrees (pf_ip (ps_filters (pv_page v))) (pv_draft v)"

inductive view_reachable :: "page_peer list \<Rightarrow> peers_view \<Rightarrow> bool" for peers where
  start: "view_reachable peers (view_initial peers)"
| click: "view_reachable peers v \<Longrightarrow> offered_event v e \<Longrightarrow> view_reachable peers (view_step v e)"

lemma empty_not_ipv4 [simp]: "\<not> isValidIpv4 (js_trim [])"
  by code_simp

lemma ip_effect_settles:
  assumes "\<forall>x. ip = Some x \<longrightarrow> isValidIpv4 x"
  shows "field_agrees ip (ip_effect ip draft)"
  using assms by (cases ip) (auto simp: ip_effect_def Let_def)

lemma to_page_consistent:
  assumes "view_consistent v \<or> (\<forall>n. e \<noteq> GoToPage n \<and> e \<noteq> PageSizeChange n) \<and> (\<forall>s. e \<noteq> SearchChange s)"
    "\<forall>x. pf_ip (ps_filters (peers_step (pv_page v) e)) = Some x \<longrightarrow> isValidIpv4 x"
  shows "view_consistent (to_page e v)"
proof -
  have same: "shown_peers ps (peers_step st e) = shown_peers ps st"
    if "(\<exists>n. e = GoToPage n \<or> e = PageSizeChange n) \<or> e = SearchChange (ps_search st)" for ps st
    using that by (auto simp: shown_peers_def)
  show ?thesis
  proof (cases "(\<exists>n. e = GoToPage n \<or> e = PageSizeChange n) \<or> e = SearchChange (ps_search (pv_page v))")
    case True
    then have "pv_cluster (to_page e v) = pv_cluster v" "pv_selected (to_page e v) = pv_selected v"
      "pv_peers (to_page e v) = pv_peers v" "pv_page (to_page e v) = peers_step (pv_page v) e"
      by (auto simp: to_page_def Let_def)
    moreover have "view_consistent v" using assms(1) True by blast
    moreover have "pv_draft (to_page e v) = ip_effect (pf_ip (ps_filters (pv_page (to_page e v)))) (pv_draft v)"
      by (simp add: to_page_def Let_def)
    ultimately show ?thesis
      using ip_effect_settles [OF assms(2), of "pv_draft v"] same [OF True, of "pv_peers v"]
      unfolding view_consistent_def map_shows_the_list by simp
  next
    case False
    then have "pv_cluster (to_page e v) = None" "pv_selected (to_page e v) = None"
      by (auto simp: to_page_def Let_def split: peers_event.split)
    moreover have "pv_draft (to_page e v) = ip_effect (pf_ip (ps_filters (pv_page (to_page e v)))) (pv_draft v)"
      "pv_page (to_page e v) = peers_step (pv_page v) e"
      by (simp_all add: to_page_def Let_def)
    ultimately show ?thesis
      using ip_effect_settles [OF assms(2), of "pv_draft v"] by (simp add: view_consistent_def)
  qed
qed

lemma located_address:
  "q \<in> set (peersToGeoPoints (api_view ps)) \<Longrightarrow> pp_address q \<in> ap_address ` set ps"
  using peer_point_fields by (force simp: fold_points_eq map_filter_def api_view_def)

lemma view_step_consistent:
  assumes "view_consistent v" "offered_event v e"
  shows "view_consistent (view_step v e)"
proof -
  have ip: "\<forall>x. pf_ip (ps_filters (pv_page v)) = Some x \<longrightarrow> isValidIpv4 x"
    using assms(1) by (cases "pf_ip (ps_filters (pv_page v))") (auto simp: view_consistent_def)
  have points: "peer_map_points w = peer_map_points v \<and> shown_peers (pv_peers w) (pv_page w) = shown_peers (pv_peers v) (pv_page v)"
    if "pv_peers w = pv_peers v" "pv_page w = pv_page v" for w
    using that by (simp add: map_shows_the_list)
  show ?thesis
  proof (cases e)
    case (MapPeer p)
    have "p \<in> set (peer_map_points v)"
      using MapPeer assms by (auto simp: view_consistent_def)
    then have "pp_address p \<in> ap_address ` set (shown_peers (pv_peers v) (pv_page v))"
      using located_address by (simp add: map_shows_the_list)
    then show ?thesis
      using assms(1) points [of "view_step v e"] by (simp add: MapPeer view_consistent_def)
  next
    case (MapCluster ls)
    then show ?thesis using assms points [of "view_step v e"] by (simp add: view_consistent_def)
  next
    case MapDropCluster
    then show ?thesis using assms points [of "view_step v e"] by (simp add: view_consistent_def)
  next
    case MapBack
    then show ?thesis using assms points [of "view_step v e"] by (simp add: view_consistent_def)
  next
    case BarLeaveIp
    then show ?thesis using assms points [of "view_step v e"] by (simp add: view_consistent_def)
  next
    case (NewPeers ps)
    then show ?thesis using assms(1) by (simp add: view_consistent_def)
  qed (use assms(1) ip in \<open>auto simp: Let_def EMPTY_PEER_FILTERS_def intro!: to_page_consistent\<close>)
qed

text \<open>
  C21: the page of the peers with its panels, after any clicks. The map shows exactly the located
  ones of the peers that pass the filters; the cluster that is open and the peer that is picked are among them;
  the field for an address agrees with the filter, which is only ever an address of four numbers,
  and then every peer in the list has that address.
\<close>

theorem panels_agree_with_filters:
  assumes "view_reachable peers v"
  shows "peer_map_points v = peersToGeoPoints (api_view (shown_peers (pv_peers v) (pv_page v))) \<and>
    (\<forall>ls. pv_cluster v = Some ls \<longrightarrow> set ls \<subseteq> set (peer_map_points v)) \<and>
    (\<forall>a. pv_selected v = Some a \<longrightarrow> a \<in> ap_address ` set (shown_peers (pv_peers v) (pv_page v))) \<and>
    (case pf_ip (ps_filters (pv_page v)) of
       Some x \<Rightarrow> pv_draft v = x \<and> isValidIpv4 x \<and> (\<forall>p \<in> set (shown_peers (pv_peers v) (pv_page v)). px_host p = x)
     | None \<Rightarrow> \<not> isValidIpv4 (js_trim (pv_draft v)))"
proof -
  have "view_consistent v"
    using assms
  proof induction
    case start
    then show ?case by (simp add: view_consistent_def view_initial_def peers_initial_def EMPTY_PEER_FILTERS_def)
  next
    case (click v e)
    then show ?case by (intro view_step_consistent)
  qed
  moreover have "px_host p = x"
    if "p \<in> set (shown_peers (pv_peers v) (pv_page v))" "pf_ip (ps_filters (pv_page v)) = Some x" "x \<noteq> []" for p x
    using that by (auto simp: shown_peers_def filtered_is_filter peer_passes_def)
  moreover have "x \<noteq> []" if "isValidIpv4 x" for x using that empty_not_ipv4 by (auto simp: js_trim_def)
  ultimately show ?thesis by (auto simp: view_consistent_def map_shows_the_list split: option.splits)
qed

theorem panels_agree_with_filters_witness:
  "let v = view_step (view_initial [sample_page_peer]) (BarIp '' 1.2.3.4'')
   in pv_draft v = ''1.2.3.4'' \<and> pf_ip (ps_filters (pv_page v)) = Some ''1.2.3.4''"
proof -
  let ?v = "view_step (view_initial [sample_page_peer]) (BarIp '' 1.2.3.4'')"
  have "view_reachable [sample_page_peer] ?v" by (intro view_reachable.intros) simp
  note facts = panels_agree_with_filters [OF this]
  have "js_trim '' 1.2.3.4'' = ''1.2.3.4''" by code_simp
  moreover have "isValidIpv4 ''1.2.3.4''"
  proof -
    have "dec_nat n = [digit_char n]" if "n < 10" for n using that by (simp add: dec_nat.simps [of n])
    from this [of 1] this [of 2] this [of 3] this [of 4]
    have "map dec_nat [1, 2, 3, 4] = [''1'', ''2'', ''3'', ''4'']"
      by (simp add: digit_char_def char_of_def bit_0)
    then show ?thesis using isValidIpv4_printed [of 1 2 3 4] by (simp add: del: list.map)
  qed
  ultimately have "pf_ip (ps_filters (pv_page ?v)) = Some ''1.2.3.4''" by (simp add: to_page_def Let_def)
  with facts show ?thesis by (simp add: Let_def)
qed

end
