(* ===== verification/MapCanvas.thy ===== *)
theory MapCanvas
  imports NodeMaps
begin

text \<open>
  How the view of the two maps moves, \<open>frontend/src/themes/neo/components/masternode-map/map-canvas.tsx\<close>
  (the same code in \<open>peers-map\<close>) and the zoom levels of \<open>use-clusters.ts\<close>. The view is a state with
  one step for each callback: buttons and clusters start a flight, frames of the browser carry it
  on, dragging and the library's context report where the map is. The projection and its
  inverse, the path of a flight and its duration, and logarithm and power are parameters.
\<close>

section \<open>Zoom\<close>

definition INITIAL_CENTER :: "rat \<times> rat" where "INITIAL_CENTER = (0, 0)"
definition INITIAL_ZOOM :: rat where "INITIAL_ZOOM = 1"
definition MIN_ZOOM :: rat where "MIN_ZOOM = 1"
definition MAX_ZOOM :: rat where "MAX_ZOOM = 64"
definition MAP_WIDTH :: rat where "MAP_WIDTH = 980"
definition MIN_ANIM_MS :: rat where "MIN_ANIM_MS = 350"
definition MAX_ANIM_MS :: rat where "MAX_ANIM_MS = 950"
definition SUPERCLUSTER_MAX_ZOOM :: int where "SUPERCLUSTER_MAX_ZOOM = 18"
definition MAP_TO_SUPER_ZOOM_SLOPE :: rat where "MAP_TO_SUPER_ZOOM_SLOPE = 22 / 10"

definition clampZoom :: "jsnum \<Rightarrow> rat" where
  "clampZoom z = (case z of Fin v \<Rightarrow> max MIN_ZOOM (min MAX_ZOOM v) | _ \<Rightarrow> INITIAL_ZOOM)"

definition mapZoomToSuperZoom :: "(rat \<Rightarrow> rat) \<Rightarrow> rat \<Rightarrow> int" where
  "mapZoomToSuperZoom log2 mapZoom =
     (if mapZoom \<le> 1 then 1
      else let z = js_round (log2 mapZoom * MAP_TO_SUPER_ZOOM_SLOPE + 1)
        in max 0 (min (SUPERCLUSTER_MAX_ZOOM + 1) z))"

definition superZoomToMapZoom :: "(rat \<Rightarrow> rat) \<Rightarrow> int \<Rightarrow> rat" where
  "superZoomToMapZoom exp2 superZoom = exp2 (of_int (superZoom - 1) / MAP_TO_SUPER_ZOOM_SLOPE)"

lemma clampZoom_bounds: "1 \<le> clampZoom z" "clampZoom z \<le> 64"
  by (auto simp: clampZoom_def MIN_ZOOM_def MAX_ZOOM_def INITIAL_ZOOM_def split: jsnum.splits)

section \<open>The view\<close>

type_synonym point = "rat \<times> rat"

record map_view =
  mv_center :: point
  mv_zoom :: rat

text \<open>The flight that a pending frame carries on: its start and duration, path and target.\<close>

record flight =
  fl_started :: rat
  fl_duration :: rat
  fl_path :: "rat \<Rightarrow> point \<times> jsnum"
  fl_target :: map_view

record canvas_env =
  project :: "point \<Rightarrow> point option"
  invert :: "point \<Rightarrow> point option"
  interpolateZoom :: "point \<times> rat \<Rightarrow> point \<times> rat \<Rightarrow> (rat \<Rightarrow> point \<times> jsnum) \<times> rat"
  expansionZoom :: "int \<Rightarrow> int"
  power_of_two :: "rat \<Rightarrow> rat"

record canvas_state =
  cv_view :: map_view
  viewRef :: map_view
  pendingFrame :: "flight option"
  isAnimating :: bool

definition initial_view :: map_view where
  "initial_view = \<lparr>mv_center = INITIAL_CENTER, mv_zoom = INITIAL_ZOOM\<rparr>"

definition canvas_initial :: canvas_state where
  "canvas_initial = \<lparr>cv_view = initial_view, viewRef = initial_view, pendingFrame = None, isAnimating = False\<rparr>"

definition near :: "map_view \<Rightarrow> map_view \<Rightarrow> bool" where
  "near a b \<longleftrightarrow> \<bar>fst (mv_center b) - fst (mv_center a)\<bar> < 1 / 1000 \<and>
     \<bar>snd (mv_center b) - snd (mv_center a)\<bar> < 1 / 1000 \<and> \<bar>mv_zoom b - mv_zoom a\<bar> < 1 / 1000"

definition set_view :: "map_view \<Rightarrow> canvas_state \<Rightarrow> canvas_state" where
  "set_view v st = st\<lparr>viewRef := v, cv_view := v\<rparr>"

definition animateView :: "canvas_env \<Rightarrow> rat \<Rightarrow> point \<Rightarrow> jsnum \<Rightarrow> canvas_state \<Rightarrow> canvas_state" where
  "animateView env now center zoom st =
     (let st = st\<lparr>pendingFrame := None\<rparr>;
          safeTarget = \<lparr>mv_center = center, mv_zoom = clampZoom zoom\<rparr>;
          start = viewRef st
      in if near start safeTarget then st
         else (case (project env (mv_center start), project env (mv_center safeTarget)) of
             (Some startPx, Some targetPx) \<Rightarrow>
               let (path, duration) = interpolateZoom env
                     (startPx, MAP_WIDTH / mv_zoom start) (targetPx, MAP_WIDTH / mv_zoom safeTarget)
               in st\<lparr>isAnimating := True,
                    pendingFrame := Some \<lparr>fl_started = now,
                      fl_duration = max MIN_ANIM_MS (min MAX_ANIM_MS duration),
                      fl_path = path, fl_target = safeTarget\<rparr>\<rparr>
           | _ \<Rightarrow> set_view safeTarget st))"

fun width_over :: "jsnum \<Rightarrow> jsnum" where
  "width_over (Fin w) = num_div MAP_WIDTH w"
| "width_over PosInf = Fin 0"
| "width_over NegInf = Fin 0"
| "width_over NaN = NaN"

definition frame_tick :: "canvas_env \<Rightarrow> rat \<Rightarrow> canvas_state \<Rightarrow> canvas_state" where
  "frame_tick env now st =
     (case pendingFrame st of
        None \<Rightarrow> st
      | Some f \<Rightarrow>
          let t = min 1 ((now - fl_started f) / fl_duration f)
          in if t \<ge> 1 then (set_view (fl_target f) st)\<lparr>pendingFrame := None, isAnimating := False\<rparr>
             else let (c, w) = fl_path f t;
                 center = (case invert env c of Some p \<Rightarrow> p | None \<Rightarrow> mv_center (fl_target f))
               in set_view \<lparr>mv_center = center, mv_zoom = clampZoom (width_over w)\<rparr> st)"

definition zoom_by :: "rat \<Rightarrow> canvas_state \<Rightarrow> jsnum" where
  "zoom_by factor st = Fin (mv_zoom (viewRef st) * factor)"

definition handleMove :: "point \<Rightarrow> jsnum \<Rightarrow> canvas_state \<Rightarrow> canvas_state" where
  "handleMove coordinates zoom st =
     (if isAnimating st then st
      else set_view \<lparr>mv_center = coordinates, mv_zoom = clampZoom zoom\<rparr> st)"

text \<open>What the library's context says: an offset and a scale, each possibly not finite.\<close>

definition viewSync :: "canvas_env \<Rightarrow> rat \<Rightarrow> rat \<Rightarrow> jsnum \<Rightarrow> jsnum \<Rightarrow> jsnum \<Rightarrow> canvas_state \<Rightarrow> canvas_state" where
  "viewSync env width height x y k st =
     (if isAnimating st then st
      else (case (x, y, k) of
          (Fin x, Fin y, Fin k) \<Rightarrow>
            if k \<le> 0 then st
            else (case invert env ((width / 2 - x) / k, (height / 2 - y) / k) of
                None \<Rightarrow> st
              | Some at_ll \<Rightarrow> st\<lparr>viewRef := \<lparr>mv_center = at_ll, mv_zoom = k\<rparr>\<rparr>)
        | _ \<Rightarrow> st))"

datatype canvas_event =
  ZoomIn rat
| ZoomOut rat
| Reset rat
| ClusterClick rat int point
| FrameAt rat
| Move point jsnum
| Sync rat rat jsnum jsnum jsnum

fun canvas_step :: "canvas_env \<Rightarrow> canvas_state \<Rightarrow> canvas_event \<Rightarrow> canvas_state" where
  "canvas_step env st (ZoomIn now) = animateView env now (mv_center (viewRef st)) (zoom_by (16 / 10) st) st"
| "canvas_step env st (ZoomOut now) = animateView env now (mv_center (viewRef st)) (zoom_by (10 / 16) st) st"
| "canvas_step env st (Reset now) = animateView env now INITIAL_CENTER (Fin INITIAL_ZOOM) st"
| "canvas_step env st (ClusterClick now clusterId at_point) =
     (let expansionMapZoom = superZoomToMapZoom (power_of_two env) (expansionZoom env clusterId);
          target = clampZoom (Fin (max (mv_zoom (viewRef st) * (16 / 10)) expansionMapZoom))
      in animateView env now at_point (Fin target) st)"
| "canvas_step env st (FrameAt now) = frame_tick env now st"
| "canvas_step env st (Move coordinates zoom) = handleMove coordinates zoom st"
| "canvas_step env st (Sync width height x y k) = viewSync env width height x y k st"

definition canReset :: "canvas_state \<Rightarrow> bool" where
  "canReset st \<longleftrightarrow> mv_zoom (cv_view st) \<noteq> INITIAL_ZOOM \<or> mv_center (cv_view st) \<noteq> INITIAL_CENTER"

definition canZoomIn :: "canvas_state \<Rightarrow> bool" where
  "canZoomIn st \<longleftrightarrow> mv_zoom (cv_view st) < MAX_ZOOM - 1 / 1000"

definition canZoomOut :: "canvas_state \<Rightarrow> bool" where
  "canZoomOut st \<longleftrightarrow> mv_zoom (cv_view st) > MIN_ZOOM + 1 / 1000"

section \<open>What holds of the view\<close>

definition view_inv :: "canvas_state \<Rightarrow> bool" where
  "view_inv st \<longleftrightarrow> 1 \<le> mv_zoom (cv_view st) \<and> mv_zoom (cv_view st) \<le> 64 \<and> mv_zoom (viewRef st) > 0 \<and>
     (\<forall>f. pendingFrame st = Some f \<longrightarrow> isAnimating st \<and> 350 \<le> fl_duration f \<and> fl_duration f \<le> 950 \<and>
        1 \<le> mv_zoom (fl_target f) \<and> mv_zoom (fl_target f) \<le> 64)"

lemma positive_clamp: "0 < clampZoom z"
  using clampZoom_bounds(1) [of z] by linarith

lemmas clamp_facts = clampZoom_bounds positive_clamp

lemma view_inv_animate: "view_inv st \<Longrightarrow> view_inv (animateView env now center zoom st)"
  by (auto simp: animateView_def view_inv_def set_view_def clamp_facts MIN_ANIM_MS_def MAX_ANIM_MS_def Let_def
      split: option.splits prod.splits)

lemma view_inv_frame: "view_inv st \<Longrightarrow> view_inv (frame_tick env now st)"
  by (auto simp: frame_tick_def view_inv_def set_view_def clamp_facts Let_def
      split: option.splits prod.splits)

lemma view_inv_step: "view_inv st \<Longrightarrow> view_inv (canvas_step env st e)"
proof (cases e)
  case (Move coordinates zoom)
  then show "view_inv st \<Longrightarrow> ?thesis" by (auto simp: view_inv_def handleMove_def set_view_def clamp_facts)
next
  case (Sync width height x y k)
  then show "view_inv st \<Longrightarrow> ?thesis"
    by (auto simp: view_inv_def viewSync_def split: jsnum.splits option.splits)
qed (simp_all add: view_inv_animate view_inv_frame Let_def)

lemma view_inv_run: "view_inv st \<Longrightarrow> view_inv (foldl (canvas_step env) st es)"
  by (induction es arbitrary: st) (auto intro: view_inv_step)

text \<open>A flight is on its way exactly when the flag says so, unless a new one was refused on its way.\<close>

fun starts_flight :: "canvas_event \<Rightarrow> bool" where
  "starts_flight (ZoomIn _) \<longleftrightarrow> True"
| "starts_flight (ZoomOut _) \<longleftrightarrow> True"
| "starts_flight (Reset _) \<longleftrightarrow> True"
| "starts_flight (ClusterClick _ _ _) \<longleftrightarrow> True"
| "starts_flight _ \<longleftrightarrow> False"

fun uninterrupted :: "canvas_env \<Rightarrow> canvas_state \<Rightarrow> canvas_event list \<Rightarrow> bool" where
  "uninterrupted env st [] \<longleftrightarrow> True"
| "uninterrupted env st (e # es) \<longleftrightarrow>
     (starts_flight e \<longrightarrow> pendingFrame st = None) \<and> uninterrupted env (canvas_step env st e) es"

definition in_step :: "canvas_state \<Rightarrow> bool" where
  "in_step st \<longleftrightarrow> (isAnimating st \<longleftrightarrow> pendingFrame st \<noteq> None)"

definition stuck :: "canvas_state \<Rightarrow> bool" where
  "stuck st \<longleftrightarrow> isAnimating st \<and> pendingFrame st = None"

lemma in_step_animate: "in_step st \<Longrightarrow> pendingFrame st = None \<Longrightarrow> in_step (animateView env now center zoom st)"
  by (auto simp: animateView_def in_step_def set_view_def Let_def split: option.splits prod.splits)

lemma in_step_run:
  "in_step st \<Longrightarrow> uninterrupted env st es \<Longrightarrow> in_step (foldl (canvas_step env) st es)"
proof (induction es arbitrary: st)
  case (Cons e es)
  have "in_step (canvas_step env st e)"
  proof (cases e)
    case (FrameAt now)
    then show ?thesis
      using Cons.prems by (auto simp: frame_tick_def in_step_def set_view_def Let_def split: option.splits prod.splits)
  next
    case (Move coordinates zoom)
    then show ?thesis using Cons.prems by (auto simp: handleMove_def in_step_def set_view_def)
  next
    case (Sync width height x y k)
    then show ?thesis
      using Cons.prems by (auto simp: viewSync_def in_step_def split: jsnum.splits option.splits)
  qed (use Cons.prems in \<open>simp_all add: in_step_animate Let_def\<close>)
  then show ?case using Cons by simp
qed simp

lemma stuck_stays:
  "stuck st \<Longrightarrow> \<forall>e \<in> set es. \<not> starts_flight e \<Longrightarrow> foldl (canvas_step env) st es = st"
proof (induction es)
  case (Cons e es)
  have "canvas_step env st e = st"
    using Cons.prems by (cases e) (auto simp: stuck_def frame_tick_def handleMove_def viewSync_def)
  then show ?case using Cons by simp
qed simp

text \<open>
  C29: the view of the map. Whatever the buttons, the drags, the clusters and the path of the library do,
  the zoom shown lies between 1 and 64 and a flight takes between 350 and 950 milliseconds and ends
  at a target within these bounds. As long as no flight is started during another one, the map counts as
  flying exactly while it is. But a flight that is started during another one and ends near where the map
  is cancels the first and clears nothing: the map then counts as flying for good, and ignores every
  drag until another flight has ended.
\<close>

theorem map_view_bounded:
  shows "(let st = foldl (canvas_step env) canvas_initial es in
      1 \<le> mv_zoom (cv_view st) \<and> mv_zoom (cv_view st) \<le> 64 \<and>
      (\<forall>f. pendingFrame st = Some f \<longrightarrow> isAnimating st \<and> 350 \<le> fl_duration f \<and> fl_duration f \<le> 950 \<and>
         1 \<le> mv_zoom (fl_target f) \<and> mv_zoom (fl_target f) \<le> 64) \<and>
      (uninterrupted env canvas_initial es \<longrightarrow> (isAnimating st \<longleftrightarrow> pendingFrame st \<noteq> None)) \<and>
      (\<forall>now center zoom. isAnimating st \<and>
         near (viewRef st) \<lparr>mv_center = center, mv_zoom = clampZoom zoom\<rparr> \<longrightarrow>
         stuck (animateView env now center zoom st)) \<and>
      (stuck st \<longrightarrow> (\<forall>later. (\<forall>e \<in> set later. \<not> starts_flight e) \<longrightarrow>
         foldl (canvas_step env) st later = st)))"
proof -
  have "view_inv canvas_initial" by (simp add: view_inv_def canvas_initial_def initial_view_def INITIAL_ZOOM_def)
  from view_inv_run [OF this, of env es]
  have inv: "view_inv (foldl (canvas_step env) canvas_initial es)" .
  have "in_step canvas_initial" by (simp add: in_step_def canvas_initial_def)
  from in_step_run [OF this, of env es]
  have step: "uninterrupted env canvas_initial es \<longrightarrow> in_step (foldl (canvas_step env) canvas_initial es)" by simp
  have "stuck (animateView env now center zoom st)"
    if "isAnimating st" "near (viewRef st) \<lparr>mv_center = center, mv_zoom = clampZoom zoom\<rparr>" for st now center zoom
    using that by (simp add: animateView_def stuck_def Let_def)
  then show ?thesis
    using inv step stuck_stays [of "foldl (canvas_step env) canvas_initial es"]
    unfolding view_inv_def in_step_def Let_def by blast
qed

text \<open>A second click on the reset button, at the end of the flight it has started, is enough.\<close>

definition sample_canvas :: canvas_env where
  "sample_canvas = \<lparr>project = (\<lambda>p. Some p), invert = (\<lambda>p. Some p),
     interpolateZoom = (\<lambda>a b. (\<lambda>t. (fst b, Fin MAP_WIDTH), 400)), expansionZoom = (\<lambda>_. 1),
     power_of_two = (\<lambda>_. 1)\<rparr>"

lemma reset_twice_sticks:
  "stuck (foldl (canvas_step sample_canvas) canvas_initial [Move (10, 0) (Fin 2), Reset 0, FrameAt 399, Reset 399])"
  by (simp add: sample_canvas_def canvas_initial_def initial_view_def INITIAL_CENTER_def INITIAL_ZOOM_def
      handleMove_def set_view_def clampZoom_def MIN_ZOOM_def MAX_ZOOM_def animateView_def near_def
      MIN_ANIM_MS_def MAX_ANIM_MS_def MAP_WIDTH_def frame_tick_def num_div_def stuck_def Let_def)

theorem map_view_bounded_witness:
  "(let st = foldl (canvas_step sample_canvas) canvas_initial [Move (10, 0) (Fin 2), Reset 0, FrameAt 399]
    in stuck (animateView sample_canvas 399 (0, 0) (Fin 1) st))"
proof -
  let ?st = "foldl (canvas_step sample_canvas) canvas_initial [Move (10, 0) (Fin 2), Reset 0, FrameAt 399]"
  have "isAnimating ?st" "near (viewRef ?st) \<lparr>mv_center = (0, 0), mv_zoom = clampZoom (Fin 1)\<rparr>"
    by (simp_all add: sample_canvas_def canvas_initial_def initial_view_def INITIAL_CENTER_def INITIAL_ZOOM_def
      handleMove_def set_view_def clampZoom_def MIN_ZOOM_def MAX_ZOOM_def animateView_def near_def
      MIN_ANIM_MS_def MAX_ANIM_MS_def MAP_WIDTH_def frame_tick_def num_div_def Let_def)
  then show ?thesis
    using map_view_bounded [of sample_canvas "[Move (10, 0) (Fin 2), Reset 0, FrameAt 399]"]
    unfolding Let_def by blast
qed

section \<open>Levels of clusters\<close>

lemma superZoom_bounds: "0 \<le> mapZoomToSuperZoom log2 z \<and> mapZoomToSuperZoom log2 z \<le> 19"
  by (simp add: mapZoomToSuperZoom_def SUPERCLUSTER_MAX_ZOOM_def Let_def)

text \<open>
  A click on a cluster flies to where the index is asked for the very level at which the cluster falls
  apart, for a logarithm and a power that are inverse to each other.
\<close>

lemma expansion_reached:
  assumes "\<And>v. log2 (exp2 v) = v" "1 \<le> level" "level \<le> 19" "\<And>v. 0 < v \<Longrightarrow> 1 < exp2 v"
  shows "mapZoomToSuperZoom log2 (superZoomToMapZoom exp2 level) = level"
proof (cases "level = 1")
  case True
  have "log2 (exp2 0) = 0" by (rule assms(1))
  moreover have "\<lfloor>3 / 2 :: rat\<rfloor> = 1" by (simp add: floor_eq_iff)
  ultimately show ?thesis
    using True by (simp add: mapZoomToSuperZoom_def superZoomToMapZoom_def js_round_def SUPERCLUSTER_MAX_ZOOM_def Let_def)
next
  case False
  then have "0 < (of_int (level - 1) :: rat) / MAP_TO_SUPER_ZOOM_SLOPE"
    using assms(2) by (simp add: MAP_TO_SUPER_ZOOM_SLOPE_def)
  then have "1 < superZoomToMapZoom exp2 level" unfolding superZoomToMapZoom_def by (rule assms(4))
  moreover have "log2 (superZoomToMapZoom exp2 level) * MAP_TO_SUPER_ZOOM_SLOPE + 1 = of_int level"
    by (simp add: superZoomToMapZoom_def assms(1) MAP_TO_SUPER_ZOOM_SLOPE_def field_simps)
  moreover have "js_round (of_int level) = level" by (simp add: js_round_def floor_eq_iff)
  ultimately show ?thesis
    using assms(2,3) by (simp add: mapZoomToSuperZoom_def SUPERCLUSTER_MAX_ZOOM_def Let_def)
qed

text \<open>
  But the map does not zoom further than 64, where the index is asked for level 14: a cluster that
  falls apart only beyond it can not be taken apart.
\<close>

lemma levels_out_of_reach:
  assumes "mono log2" "log2 64 = 6"
  shows "mapZoomToSuperZoom log2 (clampZoom z) \<le> 14"
proof -
  have "log2 (clampZoom z) \<le> 6" using assms clampZoom_bounds(2) [of z] by (metis monoD)
  then have "log2 (clampZoom z) * MAP_TO_SUPER_ZOOM_SLOPE + 1 + 1 / 2 < 15"
    by (simp add: MAP_TO_SUPER_ZOOM_SLOPE_def)
  then have "js_round (log2 (clampZoom z) * MAP_TO_SUPER_ZOOM_SLOPE + 1) < 15"
    by (simp add: js_round_def floor_less_iff)
  then show ?thesis by (simp add: mapZoomToSuperZoom_def min_le_iff_disj Let_def)
qed

end
