(* ===== verification/BlockTimeline.thy ===== *)
theory BlockTimeline
  imports Format
begin

text \<open>
  The moving parts of the dashboard, \<open>frontend/src/themes/neo/pages/dashboard.tsx\<close>: the rows and
  tiles that light up when the polling brings something new, the counters of the hero and of the
  strip, the map that loads when it comes into view, and the timeline of mined and pending blocks.
  A hook with an effect is a state with one step for each time the effect runs; its timers carry the
  moment they are due (in milliseconds), and one that is due fires before anything that happens at
  the same moment.
\<close>

subsection \<open>What is new\<close>

text \<open>
  The same effect serves the hashes of the transactions and the heights of the blocks, with
  different delays. Running it again first cancels the timer of the run before.
\<close>

definition TX_FLASH_MS :: int where "TX_FLASH_MS = 2400"
definition BLOCK_FLASH_MS :: int where "BLOCK_FLASH_MS = 1200"

record 'k flash_state =
  seen :: "'k set option"
  lit :: "'k set"
  due :: "int option"

definition flash_initial :: "'k flash_state" where
  "flash_initial = \<lparr>seen = None, lit = {}, due = None\<rparr>"

definition flash_timer :: "int \<Rightarrow> 'k flash_state \<Rightarrow> 'k flash_state" where
  "flash_timer now st =
     (case due st of
        Some t \<Rightarrow> if t \<le> now then st\<lparr>lit := {}, due := None\<rparr> else st
      | None \<Rightarrow> st)"

definition flash_effect :: "int \<Rightarrow> int \<Rightarrow> 'k list \<Rightarrow> 'k flash_state \<Rightarrow> 'k flash_state" where
  "flash_effect delay now ks st =
     (let st = st\<lparr>due := None\<rparr> in
      if ks = [] then st
      else (case seen st of
          None \<Rightarrow> st\<lparr>seen := Some (set ks)\<rparr>
        | Some old \<Rightarrow>
            let fresh = set ks - old; st = st\<lparr>seen := Some (set ks)\<rparr>
            in if fresh = {} then st else st\<lparr>lit := fresh, due := Some (now + delay)\<rparr>))"

definition flash_fed :: "int \<Rightarrow> 'k flash_state \<Rightarrow> int \<times> 'k list \<Rightarrow> 'k flash_state" where
  "flash_fed delay st feed = flash_effect delay (fst feed) (snd feed) (flash_timer (fst feed) st)"

definition flash_run :: "int \<Rightarrow> (int \<times> 'k list) list \<Rightarrow> 'k flash_state" where
  "flash_run delay feeds = foldl (flash_fed delay) flash_initial feeds"

definition lit_at :: "int \<Rightarrow> (int \<times> 'k list) list \<Rightarrow> int \<Rightarrow> 'k set" where
  "lit_at delay feeds now = lit (flash_timer now (flash_run delay feeds))"

text \<open>The reference: what a list brings that the list before it, empty ones apart, had not.\<close>

definition known_before :: "(int \<times> 'k list) list \<Rightarrow> 'k set option" where
  "known_before feeds = map_option set (js_last (filter (\<lambda>ks. ks \<noteq> []) (map snd feeds)))"

definition arrivals :: "(int \<times> 'k list) list \<Rightarrow> 'k list \<Rightarrow> 'k set" where
  "arrivals feeds ks = (case known_before feeds of None \<Rightarrow> {} | Some old \<Rightarrow> set ks - old)"

definition quiet :: "(int \<times> 'k list) list \<Rightarrow> (int \<times> 'k list) list \<Rightarrow> bool" where
  "quiet before later \<longleftrightarrow> (\<forall>i < length later. arrivals (before @ take i later) (snd (later ! i)) = {})"

lemma flash_timer_seen [simp]: "seen (flash_timer now st) = seen st"
  by (simp add: flash_timer_def split: option.splits)

lemma known_before_snoc:
  "known_before (feeds @ [feed]) = (if snd feed = [] then known_before feeds else Some (set (snd feed)))"
  by (simp add: known_before_def js_last_def)

lemma flash_run_snoc: "flash_run delay (feeds @ [feed]) = flash_fed delay (flash_run delay feeds) feed"
  by (simp add: flash_run_def)

lemma flash_seen: "seen (flash_run delay feeds) = known_before feeds"
proof (induction feeds rule: rev_induct)
  case Nil
  then show ?case by (simp add: flash_run_def flash_initial_def known_before_def js_last_def)
next
  case (snoc feed feeds)
  then show ?case
    by (auto simp: flash_run_snoc known_before_snoc flash_fed_def flash_effect_def Let_def split: option.splits)
qed

lemma flash_quiet_step:
  assumes "arrivals feeds (snd feed) = {}"
  shows "lit (flash_run delay (feeds @ [feed])) = lit_at delay feeds (fst feed) \<and>
    due (flash_run delay (feeds @ [feed])) = None"
  using assms flash_seen [of delay feeds]
  by (auto simp: flash_run_snoc flash_fed_def flash_effect_def lit_at_def arrivals_def Let_def split: option.splits)

lemma flash_lit_step:
  assumes "arrivals feeds ks \<noteq> {}"
  shows "lit (flash_run delay (feeds @ [(u, ks)])) = arrivals feeds ks \<and>
    due (flash_run delay (feeds @ [(u, ks)])) = Some (u + delay)"
  using assms flash_seen [of delay feeds]
  by (auto simp: flash_run_snoc flash_fed_def flash_effect_def arrivals_def Let_def split: option.splits)

lemma lit_at_no_timer: "due (flash_run delay feeds) = None \<Longrightarrow> lit_at delay feeds now = lit (flash_run delay feeds)"
  by (simp add: lit_at_def flash_timer_def)

lemma quiet_snoc:
  "quiet before (later @ [feed]) \<longleftrightarrow> quiet before later \<and> arrivals (before @ later) (snd feed) = {}"
  by (auto simp: quiet_def nth_append less_Suc_eq)

lemma quiet_from_start: "quiet [] feeds \<Longrightarrow> lit (flash_run delay feeds) = {} \<and> due (flash_run delay feeds) = None"
proof (induction feeds rule: rev_induct)
  case Nil
  then show ?case by (simp add: flash_run_def flash_initial_def)
next
  case (snoc feed feeds)
  then have "lit (flash_run delay feeds) = {}" "due (flash_run delay feeds) = None"
    "arrivals feeds (snd feed) = {}" by (simp_all add: quiet_snoc)
  then show ?case using flash_quiet_step [of feeds feed delay] by (simp add: lit_at_no_timer)
qed

lemma lit_until_next:
  assumes "arrivals feeds ks \<noteq> {}" "quiet (feeds @ [(u, ks)]) (feed # later)"
  shows "due (flash_run delay (feeds @ (u, ks) # feed # later)) = None \<and>
    lit (flash_run delay (feeds @ (u, ks) # feed # later)) =
      (if u + delay \<le> fst feed then {} else arrivals feeds ks)"
  using assms(2)
proof (induction later rule: rev_induct)
  case Nil
  then have "arrivals (feeds @ [(u, ks)]) (snd feed) = {}" by (simp add: quiet_def)
  from flash_quiet_step [OF this, of delay] flash_lit_step [OF assms(1), of delay u]
  show ?case by (auto simp: lit_at_def flash_timer_def)
next
  case (snoc last later)
  then have q: "quiet (feeds @ [(u, ks)]) ((feed # later) @ [last])" by simp
  then have "quiet (feeds @ [(u, ks)]) (feed # later)" "arrivals (feeds @ (u, ks) # feed # later) (snd last) = {}"
    unfolding quiet_snoc by simp_all
  then show ?case
    using snoc.IH flash_quiet_step [of "feeds @ (u, ks) # feed # later" last delay] by (simp add: lit_at_no_timer)
qed

text \<open>
  What lights up. Nothing lights up before a list brings something that the last list had not,
  and then exactly what it brings does, until the delay is over. But a refresh that brings nothing
  new and comes before that cancels the timer and sets no other one: then the rows stay lit however
  late it is, until something new comes.
\<close>

theorem new_rows_light_up:
  fixes feeds :: "(int \<times> 'k list) list"
  shows "(quiet [] feeds \<longrightarrow> lit_at delay feeds now = {}) \<and>
    (arrivals feeds ks \<noteq> {} \<longrightarrow>
       lit_at delay (feeds @ [(u, ks)]) now = (if u + delay \<le> now then {} else arrivals feeds ks) \<and>
       (quiet (feeds @ [(u, ks)]) (feed # later) \<longrightarrow>
          lit_at delay (feeds @ (u, ks) # feed # later) now =
            (if u + delay \<le> fst feed then {} else arrivals feeds ks)))"
proof (intro conjI impI)
  show "lit_at delay feeds now = {}" if "quiet [] feeds"
    using quiet_from_start [OF that, of delay] by (simp add: lit_at_no_timer)
  assume new: "arrivals feeds ks \<noteq> {}"
  show "lit_at delay (feeds @ [(u, ks)]) now = (if u + delay \<le> now then {} else arrivals feeds ks)"
    using flash_lit_step [OF new, of delay u] by (simp add: lit_at_def flash_timer_def)
  assume "quiet (feeds @ [(u, ks)]) (feed # later)"
  from lit_until_next [OF new this, of delay]
  show "lit_at delay (feeds @ (u, ks) # feed # later) now =
      (if u + delay \<le> fst feed then {} else arrivals feeds ks)"
    by (simp add: lit_at_no_timer)
qed

theorem new_rows_light_up_witness:
  "lit_at TX_FLASH_MS [(0, [''a'']), (5000, [''b'', ''a''])] 7000 = {''b''} \<and>
   lit_at TX_FLASH_MS [(0, [''a'']), (5000, [''b'', ''a''])] 7400 = {} \<and>
   lit_at TX_FLASH_MS [(0, [''a'']), (5000, [''b'', ''a'']), (6000, [''a'', ''b''])] 99000 = {''b''}"
proof -
  have new: "arrivals [(0, [''a''])] [''b'', ''a''] = {''b''}"
    by (auto simp: arrivals_def known_before_def js_last_def)
  have q: "quiet ([(0, [''a''])] @ [(5000, [''b'', ''a''])]) [(6000, [''a'', ''b''])]"
    by (simp add: quiet_def arrivals_def known_before_def js_last_def)
  show ?thesis
    using new_rows_light_up [of "[(0, [''a''])]" TX_FLASH_MS 7000 "[''b'', ''a'']" 5000 "(6000, [''a'', ''b''])" "[]"]
      new_rows_light_up [of "[(0, [''a''])]" TX_FLASH_MS 7400 "[''b'', ''a'']" 5000 "(6000, [''a'', ''b''])" "[]"]
      new_rows_light_up [of "[(0, [''a''])]" TX_FLASH_MS 99000 "[''b'', ''a'']" 5000 "(6000, [''a'', ''b''])" "[]"]
      new q by (simp add: TX_FLASH_MS_def)
qed

subsection \<open>Mined and pending blocks\<close>

record ApiBlock =
  ab_height :: int
  ab_hash :: string
  ab_version :: int
  ab_timestamp :: string
  ab_txCount :: int
  ab_size :: int
  ab_creditPoolBalance :: int
  ab_difficulty :: rat
  ab_merkleRoot :: string
  ab_previousBlockHash :: string
  ab_confirmations :: int
  ab_nonce :: int
  ab_superblock :: "bool js"

definition PENDING_BLOCK_COUNT :: nat where "PENDING_BLOCK_COUNT = 3"
definition FALLBACK_BLOCK_TIME_MS :: rat where "FALLBACK_BLOCK_TIME_MS = 150000"
definition MAX_MINED_BLOCKS :: nat where "MAX_MINED_BLOCKS = 7"

definition formatBlockEta :: "rat \<Rightarrow> string" where
  "formatBlockEta ms =
     (if ms \<le> 0 then ''any moment''
      else let totalSeconds = js_round (ms / 1000) in
        if totalSeconds < 60 then ''~ '' @ dec_int totalSeconds @ ''s''
        else let
            minutes = totalSeconds div 60;
            seconds = totalSeconds mod 60
          in if minutes < 10 \<and> seconds > 0 then ''~ '' @ dec_int minutes @ ''m '' @ dec_int seconds @ ''s''
             else ''~ '' @ dec_int minutes @ ''m'')"

text \<open>
  A text of digits counts seconds. Every block time the API sends is a date, so the text of digits is
  a whole number; it is read exactly up to the precision of a double.
\<close>

definition blockTimestampMs :: "(string \<Rightarrow> date) \<Rightarrow> string \<Rightarrow> int" where
  "blockTimestampMs parse stamp =
     (if stamp \<noteq> [] \<and> list_all is_digit stamp then int (digits_val stamp) * 1000
      else (case parse stamp of None \<Rightarrow> 0 | Some ms \<Rightarrow> ms))"

definition minedSorted :: "ApiBlock list \<Rightarrow> ApiBlock list" where
  "minedSorted blocks =
     js_slice (js_sort (\<lambda>a b. ab_height b - ab_height a) blocks) 0 (int MAX_MINED_BLOCKS)"

definition minedRendered :: "ApiBlock list \<Rightarrow> ApiBlock list" where
  "minedRendered blocks = rev (minedSorted blocks)"

definition timeline_block_time :: "rat option \<Rightarrow> rat" where
  "timeline_block_time avgBlockTimeMs =
     (case avgBlockTimeMs of
        Some ms \<Rightarrow> if ms > 0 then ms else FALLBACK_BLOCK_TIME_MS
      | None \<Rightarrow> FALLBACK_BLOCK_TIME_MS)"

record pending_block =
  pb_height :: int
  pb_etaAt :: rat

definition pending :: "(string \<Rightarrow> date) \<Rightarrow> rat option \<Rightarrow> ApiBlock list \<Rightarrow> pending_block list" where
  "pending parse avgBlockTimeMs blocks =
     (case minedSorted blocks of
        [] \<Rightarrow> []
      | latestBlock # _ \<Rightarrow>
          let lastMinedAtMs = of_int (blockTimestampMs parse (ab_timestamp latestBlock));
              blockTimeMs = timeline_block_time avgBlockTimeMs
          in map (\<lambda>i. \<lparr>pb_height = ab_height latestBlock + int i + 1,
                     pb_etaAt = lastMinedAtMs + blockTimeMs * of_nat (i + 1)\<rparr>)
               [0..<PENDING_BLOCK_COUNT])"

definition node_xs :: "nat \<Rightarrow> rat list" where
  "node_xs n = map (\<lambda>i. (of_nat i + 1 / 2) / of_nat n * 100) [0..<n]"

record mined_tile =
  mt_key :: string
  mt_height :: int
  mt_txCount :: int
  mt_kilobytes :: string
  mt_shortHash :: string
  mt_age :: string
  mt_isNew :: bool

definition ellipsis :: string where "ellipsis = [CHR 0xE2, CHR 0x80, CHR 0xA6]"

definition mined_tile_of :: "(string \<Rightarrow> date) \<Rightarrow> int \<Rightarrow> int set \<Rightarrow> ApiBlock \<Rightarrow> mined_tile" where
  "mined_tile_of parse now newHeights b =
     \<lparr>mt_key = ab_hash b, mt_height = ab_height b, mt_txCount = ab_txCount b,
      mt_kilobytes = to_fixed 2 (fl (of_int (ab_size b) / 1024)) @ '' KB'',
      mt_shortHash = js_slice (ab_hash b) 0 8 @ ellipsis @ js_slice_from (ab_hash b) (- 6),
      mt_age = formatRelativeTime parse now (MomentText (ab_timestamp b)),
      mt_isNew = (ab_height b \<in> newHeights)\<rparr>"

definition pending_eta :: "rat \<Rightarrow> pending_block \<Rightarrow> rat" where
  "pending_eta now p = max 0 (pb_etaAt p - now)"

definition pending_text :: "rat \<Rightarrow> pending_block \<Rightarrow> string" where
  "pending_text now p = formatBlockEta (pending_eta now p)"

definition by_height_desc :: "ApiBlock \<Rightarrow> ApiBlock \<Rightarrow> int" where
  "by_height_desc a b = ab_height b - ab_height a"

interpretation by_height_desc: js_comparator by_height_desc
  by unfold_locales (auto simp: by_height_desc_def)

lemma minedSorted_take: "minedSorted blocks = take 7 (js_sort by_height_desc blocks)"
proof -
  have "by_height_desc = (\<lambda>a b. ab_height b - ab_height a)" by (intro ext) (simp add: by_height_desc_def)
  then show ?thesis by (simp add: minedSorted_def MAX_MINED_BLOCKS_def js_slice_0)
qed

lemma sorted_by_height: "sorted_wrt (\<lambda>a b. ab_height b \<le> ab_height a) (js_sort by_height_desc blocks)"
  using by_height_desc.sorted_js_sort [of blocks] by (simp add: by_height_desc_def)

lemma strictly_falling:
  "distinct xs \<Longrightarrow> sorted_wrt (\<lambda>a b. b \<le> a) xs \<Longrightarrow> sorted_wrt (\<lambda>a b. b < a) xs" for xs :: "int list"
  by (induction xs) (auto simp: le_less)

text \<open>The first \<open>k\<close> of a sorted list stand before the rest.\<close>

lemma sorted_wrt_take_drop:
  "sorted_wrt R xs \<Longrightarrow> a \<in> set (take k xs) \<Longrightarrow> b \<in> set (drop k xs) \<Longrightarrow> R a b"
  by (metis append_take_drop_id sorted_wrt_append)

definition timeline_heights :: "(string \<Rightarrow> date) \<Rightarrow> rat option \<Rightarrow> ApiBlock list \<Rightarrow> int list" where
  "timeline_heights parse avgBlockTimeMs blocks =
     map ab_height (minedRendered blocks) @ map pb_height (pending parse avgBlockTimeMs blocks)"

lemma timeline_sorted:
  assumes "distinct (map ab_height blocks)"
  shows "sorted_wrt (<) (timeline_heights parse avg blocks)"
proof -
  let ?xs = "js_sort by_height_desc blocks"
  have "inj_on ab_height (set ?xs)" "distinct ?xs" using assms by (simp_all add: distinct_map)
  then have "distinct (map ab_height ?xs)" by (simp add: distinct_map)
  moreover have "sorted_wrt (\<lambda>a b. b \<le> a) (map ab_height ?xs)"
    using sorted_by_height [of blocks] by (simp add: sorted_wrt_map)
  ultimately have "sorted_wrt (\<lambda>a b. b < a) (map ab_height ?xs)"
    by (metis strictly_falling)
  then have desc: "sorted_wrt (\<lambda>a b. b < a) (map ab_height (minedSorted blocks))"
    by (simp add: minedSorted_take sorted_wrt_take flip: take_map)
  then have mined: "sorted_wrt (<) (map ab_height (minedRendered blocks))"
    by (simp add: minedRendered_def sorted_wrt_rev flip: rev_map)
  show ?thesis
  proof (cases "minedSorted blocks")
    case Nil
    then show ?thesis using mined by (simp add: timeline_heights_def pending_def)
  next
    case (Cons b bs)
    have "\<forall>a \<in> set (minedRendered blocks). ab_height a \<le> ab_height b"
      using desc Cons by (auto simp: minedRendered_def)
    then show ?thesis
      using mined Cons
      by (auto simp: timeline_heights_def pending_def PENDING_BLOCK_COUNT_def sorted_wrt_append Let_def upt_rec
          dest: bspec)
  qed
qed

text \<open>
  The timeline. Read from the left it climbs: the seven highest blocks of the poll, or all of
  them, then the next heights, three of them as soon as there is a block. The moments of
  the pending blocks lie one block time apart, which is positive whatever the API says of it; the
  tile of a pending block counts down to "any moment" and stays there.
\<close>

theorem timeline_climbs:
  assumes "distinct (map ab_height blocks)"
  shows "sorted_wrt (<) (timeline_heights parse avg blocks) \<and>
    length (minedRendered blocks) = min 7 (length blocks) \<and>
    (\<forall>a \<in> set blocks. \<forall>b \<in> set (minedRendered blocks).
       a \<in> set (minedRendered blocks) \<or> ab_height a < ab_height b) \<and>
    (blocks \<noteq> [] \<longrightarrow> map pb_height (pending parse avg blocks) =
       map (\<lambda>k. Max (ab_height ` set blocks) + k) [1, 2, 3]) \<and>
    timeline_block_time avg > 0 \<and>
    (\<forall>i < length (pending parse avg blocks). \<forall>j < i.
       pb_etaAt (pending parse avg blocks ! i) - pb_etaAt (pending parse avg blocks ! j) =
         timeline_block_time avg * of_nat (i - j)) \<and>
    (\<forall>p now. pending_text now p = ''any moment'' \<longleftrightarrow> pb_etaAt p \<le> now)"
proof (intro conjI ballI allI impI)
  show "sorted_wrt (<) (timeline_heights parse avg blocks)" by (rule timeline_sorted [OF assms])
  show "length (minedRendered blocks) = min 7 (length blocks)"
    by (simp add: minedRendered_def minedSorted_take)
  show pos: "timeline_block_time avg > 0"
    by (auto simp: timeline_block_time_def FALLBACK_BLOCK_TIME_MS_def split: option.splits)
  let ?xs = "js_sort by_height_desc blocks"
  show "a \<in> set (minedRendered blocks) \<or> ab_height a < ab_height b"
    if a: "a \<in> set blocks" and b: "b \<in> set (minedRendered blocks)" for a b
  proof (cases "a \<in> set (take 7 ?xs)")
    case False
    have "a \<in> set (take 7 ?xs) \<union> set (drop 7 ?xs)"
      using a by (metis append_take_drop_id set_append set_js_sort)
    then have "a \<in> set (drop 7 ?xs)" using False by simp
    moreover have bt: "b \<in> set (take 7 ?xs)" using b by (simp add: minedRendered_def minedSorted_take)
    ultimately have "ab_height a \<le> ab_height b" using sorted_wrt_take_drop [OF sorted_by_height] by metis
    moreover have "b \<in> set blocks" using bt in_set_takeD by fastforce
    then have "ab_height a \<noteq> ab_height b"
      using assms a bt False by (auto simp: distinct_map dest: inj_onD)
    ultimately show ?thesis by simp
  qed (simp add: minedRendered_def minedSorted_take)
  show "map pb_height (pending parse avg blocks) = map (\<lambda>k. Max (ab_height ` set blocks) + k) [1, 2, 3]"
    if "blocks \<noteq> []"
  proof -
    have "length ?xs \<noteq> 0" using that by simp
    then obtain b bs where xs: "?xs = b # bs" by (cases ?xs) auto
    then have b: "b \<in> set blocks" by (metis list.set_intros(1) set_js_sort)
    have "ab_height a \<le> ab_height b" if "a \<in> set blocks" for a
    proof -
      have "a \<in> set (b # bs)" using that xs by (metis set_js_sort)
      then show ?thesis using sorted_by_height [of blocks] xs by auto
    qed
    then have "Max (ab_height ` set blocks) = ab_height b" using b by (intro Max_eqI) auto
    then show ?thesis
      using xs by (simp add: pending_def minedSorted_take PENDING_BLOCK_COUNT_def Let_def upt_rec)
  qed
  show "pb_etaAt (pending parse avg blocks ! i) - pb_etaAt (pending parse avg blocks ! j) =
      timeline_block_time avg * of_nat (i - j)"
    if "i < length (pending parse avg blocks)" "j < i" for i j
    using that by (auto simp: pending_def Let_def algebra_simps of_nat_diff split: list.splits)
  show "(pending_text now p = ''any moment'') = (pb_etaAt p \<le> now)" for p now
    by (simp add: pending_text_def formatBlockEta_def pending_eta_def Let_def)
qed

definition sample_mined :: "int \<Rightarrow> ApiBlock" where
  "sample_mined h = \<lparr>ab_height = h, ab_hash = ''00ff'', ab_version = 4, ab_timestamp = ''1700000000'',
     ab_txCount = 2, ab_size = 512, ab_creditPoolBalance = 0, ab_difficulty = 1, ab_merkleRoot = '''',
     ab_previousBlockHash = '''', ab_confirmations = 0, ab_nonce = 0, ab_superblock = JNull\<rparr>"

theorem timeline_climbs_witness:
  "sorted_wrt (<) (timeline_heights (\<lambda>_. None) None [sample_mined 11, sample_mined 12]) \<and>
   map pb_height (pending (\<lambda>_. None) None [sample_mined 11, sample_mined 12]) = [13, 14, 15]"
proof -
  have d: "distinct (map ab_height [sample_mined 11, sample_mined 12])" by (simp add: sample_mined_def)
  show ?thesis using timeline_climbs [OF d, of "\<lambda>_. None" None] by (simp add: sample_mined_def)
qed

subsection \<open>The hero\<close>

text \<open>The height in the hero restarts its animation when it changes; a height that is missing changes nothing.\<close>

record hero_state =
  tickKey :: nat
  prevHeight :: "int option"

definition hero_initial :: hero_state where
  "hero_initial = \<lparr>tickKey = 0, prevHeight = None\<rparr>"

definition hero_effect :: "hero_state \<Rightarrow> int option \<Rightarrow> hero_state" where
  "hero_effect st latestHeight =
     (case latestHeight of
        None \<Rightarrow> st
      | Some h \<Rightarrow>
          (case prevHeight st of
             None \<Rightarrow> st\<lparr>prevHeight := Some h\<rparr>
           | Some old \<Rightarrow>
               if h \<noteq> old then st\<lparr>prevHeight := Some h, tickKey := tickKey st + 1\<rparr> else st))"

definition shows_new :: "hero_state \<Rightarrow> bool" where
  "shows_new st \<longleftrightarrow> tickKey st > 0"

definition hero_block_time :: "bool \<Rightarrow> rat option \<Rightarrow> string option" where
  "hero_block_time mounted blockTimeMs =
     (case (if mounted then blockTimeMs else None) of
        Some ms \<Rightarrow> if ms > 0 then Some (to_fixed 0 (fl (ms / 1000))) else None
      | None \<Rightarrow> None)"

definition hero_heights :: "int option list \<Rightarrow> int list" where
  "hero_heights hs = remdups_adj (map the (filter (\<lambda>h. h \<noteq> None) hs))"

lemma remdups_adj_snoc:
  "remdups_adj (xs @ [x]) = (if xs \<noteq> [] \<and> last xs = x then remdups_adj xs else remdups_adj xs @ [x])"
  by (induction xs rule: remdups_adj.induct) auto

lemma hero_run:
  "foldl hero_effect hero_initial hs =
   \<lparr>tickKey = length (hero_heights hs) - 1,
    prevHeight = js_last (map the (filter (\<lambda>h. h \<noteq> None) hs))\<rparr>"
proof (induction hs rule: rev_induct)
  case Nil
  then show ?case by (simp add: hero_initial_def hero_heights_def js_last_def)
next
  case (snoc h hs)
  let ?ks = "map the (filter (\<lambda>h. h \<noteq> None) hs)"
  show ?case
  proof (cases h)
    case None
    then show ?thesis using snoc by (simp add: hero_effect_def hero_heights_def)
  next
    case (Some k)
    have "remdups_adj ?ks \<noteq> []" if "?ks \<noteq> []" using that by simp
    then show ?thesis
      using snoc Some
      by (auto simp: hero_effect_def hero_heights_def js_last_def remdups_adj_snoc Suc_le_eq
          simp del: remdups_adj_Nil_iff)
  qed
qed

subsection \<open>Counting up\<close>

text \<open>
  \<open>useCountUp\<close>: the number runs from the last target to the new one along a cubic curve. The effect
  runs when the target changes; each frame of the browser runs the pending callback. Fractions are
  exact.
\<close>

record count_state =
  cu_val :: rat
  cu_last :: "rat option"
  cu_run :: "(rat \<times> rat \<times> rat) option"

definition COUNT_MS :: rat where "COUNT_MS = 900"

definition count_initial :: count_state where
  "count_initial = \<lparr>cu_val = 0, cu_last = None, cu_run = None\<rparr>"

datatype count_event = Target "rat option" rat | Frame rat

definition eased :: "rat \<Rightarrow> rat" where
  "eased t = 1 - (1 - t) ^ 3"

fun count_step :: "count_state \<Rightarrow> count_event \<Rightarrow> count_state" where
  "count_step st (Target None now) = st\<lparr>cu_run := None\<rparr>"
| "count_step st (Target (Some to) now) =
     (let st = st\<lparr>cu_run := None\<rparr>; from = or_else (cu_last st) 0
      in if from = to then st\<lparr>cu_val := to\<rparr>
         else st\<lparr>cu_last := Some to, cu_run := Some (from, to, now)\<rparr>)"
| "count_step st (Frame now) =
     (case cu_run st of
        None \<Rightarrow> st
      | Some (from, to, start) \<Rightarrow>
          let t = min 1 ((now - start) / COUNT_MS); st = st\<lparr>cu_val := from + (to - from) * eased t\<rparr>
          in if t < 1 then st else st\<lparr>cu_run := None\<rparr>)"

text \<open>The moments of the events do not go back.\<close>

fun event_time :: "count_event \<Rightarrow> rat" where
  "event_time (Target _ now) = now"
| "event_time (Frame now) = now"

fun targets_of :: "count_event list \<Rightarrow> rat list" where
  "targets_of [] = []"
| "targets_of (Target (Some to) _ # es) = to # targets_of es"
| "targets_of (_ # es) = targets_of es"

lemma targets_of_snoc:
  "targets_of (es @ [e]) = targets_of es @ (case e of Target (Some to) _ \<Rightarrow> [to] | _ \<Rightarrow> [])"
  by (induction es rule: targets_of.induct) (auto split: count_event.splits option.splits)

lemma eased_bounds:
  assumes "0 \<le> t" "t \<le> 1"
  shows "0 \<le> eased t \<and> eased t \<le> 1"
proof -
  have "0 \<le> (1 - t) ^ 3" "(1 - t) ^ 3 \<le> 1" using assms by (simp_all add: power_le_one)
  then show ?thesis by (simp add: eased_def)
qed

definition reached :: "rat list \<Rightarrow> rat set" where
  "reached targets = insert 0 (set targets)"

definition count_inv :: "rat list \<Rightarrow> rat \<Rightarrow> count_state \<Rightarrow> bool" where
  "count_inv targets now st \<longleftrightarrow>
     (\<exists>lo \<in> reached targets. \<exists>hi \<in> reached targets. lo \<le> cu_val st \<and> cu_val st \<le> hi) \<and>
     (\<forall>v. cu_last st = Some v \<longrightarrow> v \<in> reached targets) \<and>
     (\<forall>a b u. cu_run st = Some (a, b, u) \<longrightarrow> a \<in> reached targets \<and> b \<in> reached targets \<and> u \<le> now)"

lemma between_convex:
  fixes a b s :: rat
  assumes "0 \<le> s" "s \<le> 1"
  shows "min a b \<le> a + (b - a) * s \<and> a + (b - a) * s \<le> max a b"
proof (cases "a \<le> b")
  case True
  then have "0 \<le> (b - a) * s" "(b - a) * s \<le> b - a" using assms by (simp_all add: mult_left_le)
  then show ?thesis using True by simp
next
  case False
  then have "0 \<le> (a - b) * s" using assms by simp
  moreover have "(a - b) * s \<le> (a - b) * 1" using assms False by (intro mult_left_mono) auto
  moreover have "(b - a) * s = - ((a - b) * s)" by (simp add: algebra_simps)
  ultimately have "b \<le> a + (b - a) * s \<and> a + (b - a) * s \<le> a" by simp
  then show ?thesis using False by simp
qed

lemma count_inv_frame:
  assumes inv: "count_inv ts now st" and le: "now \<le> later"
  shows "count_inv ts later (count_step st (Frame later))"
proof (cases "cu_run st")
  case None
  then show ?thesis using inv le by (simp add: count_inv_def)
next
  case (Some r)
  obtain a b u where r: "r = (a, b, u)" by (cases r)
  let ?t = "min 1 ((later - u) / COUNT_MS)"
  have ab: "a \<in> reached ts" "b \<in> reached ts" "u \<le> later" using inv Some r le by (auto simp: count_inv_def)
  then have "0 \<le> ?t" "?t \<le> 1" by (auto simp: COUNT_MS_def)
  then have "min a b \<le> a + (b - a) * eased ?t \<and> a + (b - a) * eased ?t \<le> max a b"
    using eased_bounds by (intro between_convex) blast+
  moreover have "min a b \<in> reached ts" "max a b \<in> reached ts" using ab by (auto simp: min_def max_def)
  ultimately show ?thesis using inv Some r le ab by (auto simp: count_inv_def Let_def)
qed

lemma reached_append: "reached (ts @ us) = reached ts \<union> set us"
  by (auto simp: reached_def)

lemma count_inv_target:
  assumes inv: "count_inv ts now st" and le: "now \<le> later"
  shows "count_inv (ts @ (case v of Some to \<Rightarrow> [to] | None \<Rightarrow> [])) later (count_step st (Target v later))"
proof (cases v)
  case None
  then show ?thesis using inv by (simp add: count_inv_def)
next
  case (Some w)
  have "or_else (cu_last st) 0 \<in> reached ts"
    using inv by (cases "cu_last st") (auto simp: count_inv_def reached_def)
  then show ?thesis
    using inv Some by (auto simp: count_inv_def Let_def reached_append)
qed

text \<open>The events of a run come one after the other.\<close>

definition in_order :: "count_event list \<Rightarrow> bool" where
  "in_order es \<longleftrightarrow> sorted (map event_time es)"

lemma count_inv_run:
  "in_order es \<Longrightarrow> es \<noteq> [] \<Longrightarrow>
   count_inv (targets_of es) (event_time (last es)) (foldl count_step count_initial es)"
proof (induction es rule: rev_induct)
  case (snoc e es)
  let ?st = "foldl count_step count_initial es"
  let ?now = "if es = [] then event_time e else event_time (last es)"
  have before: "count_inv (targets_of es) ?now ?st"
    using snoc by (cases es) (auto simp: in_order_def sorted_append count_inv_def count_initial_def reached_def)
  have "?now \<le> event_time e"
    using snoc.prems by (auto simp: in_order_def sorted_append)
  then show ?case
    using count_inv_frame [OF before, of "event_time e"] count_inv_target [OF before, of "event_time e"]
    by (cases e) (auto simp: targets_of_snoc split: option.splits)
qed simp

lemma count_last: "foldl count_step count_initial (es @ [e]) = count_step (foldl count_step count_initial es) e"
  by simp

lemma count_frames:
  assumes "cu_run st = Some (a, b, u)" "cu_last st = Some b"
    "\<forall>f \<in> set fs. \<exists>t. f = Frame t" "\<exists>f \<in> set fs. u + COUNT_MS \<le> event_time f"
  shows "cu_val (foldl count_step st fs) = b"
proof -
  have idle: "foldl count_step st' gs = st'" if "cu_run st' = None" "\<forall>f \<in> set gs. \<exists>t. f = Frame t" for st' gs
    using that by (induction gs arbitrary: st') auto
  show ?thesis
    using assms
  proof (induction fs arbitrary: st)
    case (Cons f fs)
    then obtain t where f: "f = Frame t" by auto
    show ?case
    proof (cases "u + COUNT_MS \<le> t")
      case True
      then have "\<not> (t - u) / COUNT_MS < 1" by (simp add: COUNT_MS_def field_simps)
      then have "min 1 ((t - u) / COUNT_MS) = 1" by simp
      then have over: "cu_run (count_step st f) = None" "cu_val (count_step st f) = b"
        using Cons.prems(1) f by (simp_all add: eased_def)
      then show ?thesis using over(2) idle [OF over(1), of fs] Cons.prems(3) by simp
    next
      case False
      then have "(t - u) / COUNT_MS < 1" by (simp add: COUNT_MS_def field_simps)
      then have "cu_run (count_step st f) = Some (a, b, u)" "cu_last (count_step st f) = Some b"
        using Cons.prems(1,2) f by (simp_all add: Let_def)
      then show ?thesis using Cons.IH [of "count_step st f"] Cons.prems(3,4) f False by auto
    qed
  qed simp
qed

text \<open>
  The numbers of the strip. However targets come and go, the number shown lies between two of
  the values it has been told to show (or zero), and the first frame at least the duration after a
  target was set shows that target exactly, unless another one came in between.
\<close>

theorem count_up_lands:
  assumes "in_order (es @ Target (Some v) now # map Frame ts)" "ts = [] \<or> now + COUNT_MS \<le> last ts"
  shows "(\<exists>lo \<in> reached (targets_of es @ [v]). \<exists>hi \<in> reached (targets_of es @ [v]).
      lo \<le> cu_val (foldl count_step count_initial (es @ Target (Some v) now # map Frame ts)) \<and>
      cu_val (foldl count_step count_initial (es @ Target (Some v) now # map Frame ts)) \<le> hi) \<and>
    (ts \<noteq> [] \<longrightarrow> cu_val (foldl count_step count_initial (es @ Target (Some v) now # map Frame ts)) = v)"
proof
  let ?es = "es @ Target (Some v) now # map Frame ts"
  have frames: "targets_of (es' @ map Frame ts') = targets_of es'" for es' ts'
    by (induction ts' rule: rev_induct) (simp_all add: targets_of_snoc flip: append_assoc)
  have "targets_of ?es = targets_of es @ [v]"
    using frames [of "es @ [Target (Some v) now]" ts] by (simp add: targets_of_snoc)
  then show "\<exists>lo \<in> reached (targets_of es @ [v]). \<exists>hi \<in> reached (targets_of es @ [v]).
      lo \<le> cu_val (foldl count_step count_initial ?es) \<and> cu_val (foldl count_step count_initial ?es) \<le> hi"
    using count_inv_run [OF assms(1)] unfolding count_inv_def by simp
  show "ts \<noteq> [] \<longrightarrow> cu_val (foldl count_step count_initial ?es) = v"
  proof
    assume "ts \<noteq> []"
    then have late: "now + COUNT_MS \<le> last ts" "last ts \<in> set ts" using assms(2) by auto
    let ?st = "count_step (foldl count_step count_initial es) (Target (Some v) now)"
    have st: "foldl count_step count_initial ?es = foldl count_step ?st (map Frame ts)" by simp
    show "cu_val (foldl count_step count_initial ?es) = v"
    proof (cases "or_else (cu_last (foldl count_step count_initial es)) 0 = v")
      case True
      then have "cu_run ?st = None" "cu_val ?st = v" by (simp_all add: Let_def)
      then have "foldl count_step ?st (map Frame ts) = ?st" by (induction ts rule: rev_induct) simp_all
      then show ?thesis using st \<open>cu_val ?st = v\<close> by simp
    next
      case False
      then have "cu_run ?st = Some (or_else (cu_last (foldl count_step count_initial es)) 0, v, now)"
        "cu_last ?st = Some v" by (simp_all add: Let_def)
      then show ?thesis unfolding st using late by (intro count_frames) auto
    qed
  qed
qed

theorem count_up_lands_witness:
  "cu_val (foldl count_step count_initial
     ([Target (Some 10) 0] @ Target (Some 4) 100 # map Frame [116, 1200])) = 4"
  using count_up_lands [of "[Target (Some 10) 0]" 4 100 "[116, 1200]"]
  by (simp add: in_order_def COUNT_MS_def)

subsection \<open>Maps that wait\<close>

text \<open>
  \<open>DeferredMap\<close>: without an observer the map loads at once; else when an entry of the observer shows
  that its place comes near. What has been loaded stays.
\<close>

datatype deferred_event = Mounted bool | Seen "bool list"

fun deferred_step :: "bool \<Rightarrow> deferred_event \<Rightarrow> bool" where
  "deferred_step shouldLoad (Mounted has_observer) = (shouldLoad \<or> \<not> has_observer)"
| "deferred_step shouldLoad (Seen entries) = (shouldLoad \<or> True \<in> set entries)"

lemma deferred_run:
  "foldl deferred_step b es \<longleftrightarrow> b \<or> Mounted False \<in> set es \<or> (\<exists>entries. Seen entries \<in> set es \<and> True \<in> set entries)"
proof (induction es arbitrary: b)
  case (Cons e es)
  show ?case by (cases e) (auto simp: Cons)
qed simp

end
