(* ===== verification/Dashboard.thy ===== *)
theory Dashboard
  imports BlockTimeline SuperblockClock
begin

text \<open>
  The cards of the dashboard, \<open>frontend/src/themes/neo/pages/dashboard.tsx\<close>: the transactions, the
  masternodes and the proposals it picks out of what it has polled, the changes and extremes of its
  charts, and the card of the next superblock. Numbers are exact fractions; a value that is missing is
  \<open>None\<close>, and a division by zero gives what JavaScript gives.
\<close>

subsection \<open>The lists\<close>

datatype lock_field = LockFlag bool | LockText string

record 'p ApiTransaction =
  at_hash :: string
  at_type :: "string option"
  at_blockHeight :: int
  at_blockHash :: string
  at_amount :: "string option"
  at_version :: int
  at_vIn :: "ApiVIn list"
  at_vOut :: "ApiVOut list"
  at_confirmations :: int
  at_instantLock :: "lock_field option"
  at_chainLocked :: "bool js"
  at_coinjoin :: bool
  at_multisig :: bool
  at_size :: "int js"
  at_timestamp :: "string option"
  at_extraPayload :: "'p js"

text \<open>\<open>toMs\<close>: a text of digits counts seconds; no text, and no date, are zero.\<close>

definition toMs :: "(string \<Rightarrow> date) \<Rightarrow> string option \<Rightarrow> int" where
  "toMs parse t =
     (case t of
        None \<Rightarrow> 0
      | Some s \<Rightarrow>
          if s \<noteq> [] \<and> list_all is_digit s then int (digits_val s) * 1000
          else (case parse s of None \<Rightarrow> 0 | Some ms \<Rightarrow> ms))"

definition newest_first :: "(string \<Rightarrow> date) \<Rightarrow> (string \<Rightarrow> string \<Rightarrow> int) \<Rightarrow>
    'p ApiTransaction \<Rightarrow> 'p ApiTransaction \<Rightarrow> int" where
  "newest_first parse localeCompare a b =
     (let difference = toMs parse (at_timestamp b) - toMs parse (at_timestamp a)
      in if difference \<noteq> 0 then difference else localeCompare (at_hash b) (at_hash a))"

definition dashboard_txs :: "(string \<Rightarrow> date) \<Rightarrow> (string \<Rightarrow> string \<Rightarrow> int) \<Rightarrow>
    'p ApiTransaction list \<Rightarrow> 'p ApiTransaction list" where
  "dashboard_txs parse localeCompare rawTxs = js_sort (newest_first parse localeCompare) rawTxs"

definition LATEST_TXS :: nat where "LATEST_TXS = 8"

definition latest_rows :: "string set \<Rightarrow> 'p ApiTransaction list \<Rightarrow> ('p ApiTransaction \<times> bool) list" where
  "latest_rows newTxHashes txs =
     map (\<lambda>tx. (tx, at_hash tx \<in> newTxHashes)) (js_slice txs 0 (int LATEST_TXS))"

record dash_masternode =
  dm_proTxHash :: string
  dm_address :: string
  dm_status :: string
  dm_type :: string
  dm_posPenaltyScore :: "int option"
  dm_consecutivePayments :: "int option"
  dm_lastPaidTime :: "string option"

definition getCollateral :: "string \<Rightarrow> int" where
  "getCollateral t =
     (let t = js_lower t in if t = ''evo'' \<or> t = ''highperformance'' then 4000 else 1000)"

definition staked_first :: "dash_masternode \<Rightarrow> dash_masternode \<Rightarrow> int" where
  "staked_first a b =
     (let sa = getCollateral (dm_type a); sb = getCollateral (dm_type b)
      in if sa \<noteq> sb then sb - sa
         else or_else (dm_consecutivePayments b) 0 - or_else (dm_consecutivePayments a) 0)"

definition topMasternodes :: "dash_masternode list \<Rightarrow> dash_masternode list" where
  "topMasternodes mns = js_slice (js_sort staked_first mns) 0 7"

datatype 'row card_body = CardSkeletons nat | CardEmpty | CardRows "'row list"

definition masternodes_card :: "bool \<Rightarrow> dash_masternode list \<Rightarrow> dash_masternode card_body" where
  "masternodes_card isLoading mns =
     (if isLoading then CardSkeletons 6
      else if length mns = 0 then CardEmpty
      else CardRows (filter (\<lambda>mn. dm_status mn = ''ENABLED'') mns))"

record dash_proposal =
  dp_hash :: "string option"
  dp_collateralHash :: "string option"
  dp_name :: "string option"
  dp_url :: "string option"
  dp_yesCount :: "int option"
  dp_noCount :: "int option"
  dp_absoluteYesCount :: "int option"
  dp_paymentAmount :: "rat option"

definition most_wanted :: "dash_proposal \<Rightarrow> dash_proposal \<Rightarrow> int" where
  "most_wanted a b = or_else (dp_absoluteYesCount b) 0 - or_else (dp_absoluteYesCount a) 0"

definition topProposals :: "dash_proposal list option \<Rightarrow> dash_proposal list" where
  "topProposals proposals =
     (case proposals of
        None \<Rightarrow> []
      | Some ps \<Rightarrow> js_slice (js_sort most_wanted ps) 0 6)"

definition proposals_card :: "bool \<Rightarrow> dash_proposal list \<Rightarrow> dash_proposal card_body" where
  "proposals_card isLoading ps =
     (if isLoading then CardSkeletons 5 else if length ps = 0 then CardEmpty else CardRows ps)"

record proposal_row =
  pr_key :: string
  pr_title :: string
  pr_yesPct :: rat
  pr_noPct :: rat
  pr_net :: int
  pr_isPassing :: bool
  pr_usd :: "rat option"

definition proposal_row_of :: "rat option \<Rightarrow> dash_proposal \<Rightarrow> proposal_row" where
  "proposal_row_of usdPrice p =
     (let yes = or_else (dp_yesCount p) 0; no = or_else (dp_noCount p) 0;
          net = or_else (dp_absoluteYesCount p) (yes - no);
          ballots = max (yes + no) 1;
          yesPct = of_int yes / of_int ballots * 100
      in \<lparr>pr_key = or_else (dp_hash p) (or_else (dp_collateralHash p) (or_else (dp_name p) ''p'')),
          pr_title = or_else (dp_name p) ''Untitled'',
          pr_yesPct = yesPct, pr_noPct = 100 - yesPct, pr_net = net, pr_isPassing = (net > 0),
          pr_usd = (case (dp_paymentAmount p, usdPrice) of
                      (Some amount, Some price) \<Rightarrow> Some (amount * price) | _ \<Rightarrow> None)\<rparr>)"

subsection \<open>Facts about the lists\<close>

interpretation staked_first: js_comparator staked_first
  by unfold_locales (auto simp: staked_first_def Let_def split: if_splits)

interpretation most_wanted: js_comparator most_wanted
  by unfold_locales (auto simp: most_wanted_def)

text \<open>The newest come first for every collation of the hashes that is a total preorder.\<close>

lemma newest_first_comparator:
  assumes "js_comparator localeCompare"
  shows "js_comparator (newest_first parse localeCompare)"
proof
  fix x y z :: "'a ApiTransaction"
  show "newest_first parse localeCompare x y \<le> 0 \<or> newest_first parse localeCompare y x \<le> 0"
    using js_comparator.total [OF assms, of "at_hash y" "at_hash x"]
    by (auto simp: newest_first_def Let_def)
  assume "newest_first parse localeCompare x y \<le> 0" "newest_first parse localeCompare y z \<le> 0"
  then show "newest_first parse localeCompare x z \<le> 0"
    using js_comparator.trans [OF assms, of "at_hash z" "at_hash y" "at_hash x"]
    by (auto simp: newest_first_def Let_def split: if_splits)
qed

text \<open>What a slice of a sorted list leaves out does not stand before what it shows.\<close>

lemma slice_keeps_best:
  assumes "js_comparator cmp" "a \<in> set xs" "b \<in> set (js_slice (js_sort cmp xs) 0 (int k))"
    "a \<notin> set (js_slice (js_sort cmp xs) 0 (int k))"
  shows "cmp b a \<le> 0"
proof -
  have s: "js_slice (js_sort cmp xs) 0 (int k) = take k (js_sort cmp xs)" by (simp add: js_slice_0)
  have "a \<in> set (take k (js_sort cmp xs)) \<union> set (drop k (js_sort cmp xs))"
    using assms(2) by (metis append_take_drop_id set_append set_js_sort)
  then have "a \<in> set (drop k (js_sort cmp xs))" using assms(4) unfolding s by simp
  then show ?thesis
    using sorted_wrt_take_drop [OF js_comparator.sorted_js_sort [OF assms(1), of xs], of b k a] assms(3)
    unfolding s by blast
qed

text \<open>
  What the dashboard picks out of its polls. Its transactions are those of the poll, the newest
  first, and a row is lit when it has just arrived. The seven masternodes and the six proposals are
  those that no other of the poll outdoes. But of the seven only the enabled ones are shown, after
  they were picked: an enabled node outdone by seven others is missing however many of these are
  banned, and when all seven are, the card shows neither a row nor that there is none.
\<close>

theorem dashboard_picks:
  assumes "js_comparator localeCompare"
  shows "(let txs = dashboard_txs parse localeCompare raw in
      mset txs = mset raw \<and> sorted_wrt (\<lambda>a b. toMs parse (at_timestamp b) \<le> toMs parse (at_timestamp a)) txs \<and>
      latest_rows fresh txs = map (\<lambda>tx. (tx, at_hash tx \<in> fresh)) (take 8 txs)) \<and>
    (let top = topMasternodes mns in
      length top = min 7 (length mns) \<and> set top \<subseteq> set mns \<and>
      (\<forall>a \<in> set mns. \<forall>b \<in> set top. a \<in> set top \<or> staked_first b a \<le> 0) \<and>
      (\<forall>rows. masternodes_card False top = CardRows rows \<longrightarrow>
         set rows = {mn \<in> set top. dm_status mn = ''ENABLED''}) \<and>
      (masternodes_card False top = CardEmpty \<longleftrightarrow> mns = [])) \<and>
    (let top = topProposals (Some ps) in
      length top = min 6 (length ps) \<and> set top \<subseteq> set ps \<and>
      (\<forall>a \<in> set ps. \<forall>b \<in> set top. a \<in> set top \<or> most_wanted b a \<le> 0))"
proof (unfold Let_def, intro conjI ballI allI impI)
  have "js_comparator (newest_first parse localeCompare)" by (rule newest_first_comparator [OF assms])
  note sorted = js_comparator.sorted_js_sort [OF this, of raw]
  show "mset (dashboard_txs parse localeCompare raw) = mset raw" by (simp add: dashboard_txs_def)
  show "sorted_wrt (\<lambda>a b. toMs parse (at_timestamp b) \<le> toMs parse (at_timestamp a))
      (dashboard_txs parse localeCompare raw)"
    unfolding dashboard_txs_def
    by (rule sorted_wrt_mono_rel [OF _ sorted]) (auto simp: newest_first_def Let_def split: if_splits)
  show "latest_rows fresh (dashboard_txs parse localeCompare raw) =
      map (\<lambda>tx. (tx, at_hash tx \<in> fresh)) (take 8 (dashboard_txs parse localeCompare raw))"
    by (simp add: latest_rows_def LATEST_TXS_def js_slice_0)
  show len: "length (topMasternodes mns) = min 7 (length mns)" by (simp add: topMasternodes_def js_slice_0)
  show "set (topMasternodes mns) \<subseteq> set mns"
    unfolding topMasternodes_def using set_js_slice_subset [of "js_sort staked_first mns" 0 7] by simp
  show "a \<in> set (topMasternodes mns) \<or> staked_first b a \<le> 0"
    if "a \<in> set mns" "b \<in> set (topMasternodes mns)" for a b
    using slice_keeps_best [OF staked_first.js_comparator_axioms that(1), of b 7] that(2)
    by (auto simp: topMasternodes_def)
  show "set rows = {mn \<in> set (topMasternodes mns). dm_status mn = ''ENABLED''}"
    if "masternodes_card False (topMasternodes mns) = CardRows rows" for rows
    using that by (auto simp: masternodes_card_def split: if_splits)
  show "(masternodes_card False (topMasternodes mns) = CardEmpty) = (mns = [])"
    using len by (cases mns) (auto simp: masternodes_card_def min_def split: if_splits)
  show "length (topProposals (Some ps)) = min 6 (length ps)" by (simp add: topProposals_def js_slice_0)
  show "set (topProposals (Some ps)) \<subseteq> set ps"
    unfolding topProposals_def using set_js_slice_subset [of "js_sort most_wanted ps" 0 6] by simp
  show "a \<in> set (topProposals (Some ps)) \<or> most_wanted b a \<le> 0"
    if "a \<in> set ps" "b \<in> set (topProposals (Some ps))" for a b
    using slice_keeps_best [OF most_wanted.js_comparator_axioms that(1), of b 6] that(2)
    by (auto simp: topProposals_def)
qed

text \<open>Seven banned nodes of the larger kind hide an enabled regular one, and the card is blank.\<close>

definition sample_node :: "string \<Rightarrow> string \<Rightarrow> string \<Rightarrow> dash_masternode" where
  "sample_node h status kind = \<lparr>dm_proTxHash = h, dm_address = '''', dm_status = status, dm_type = kind,
     dm_posPenaltyScore = None, dm_consecutivePayments = None, dm_lastPaidTime = None\<rparr>"

lemma card_can_be_blank:
  "masternodes_card False (topMasternodes
     (sample_node ''r'' ''ENABLED'' ''Regular'' # replicate 7 (sample_node ''e'' ''POSE_BANNED'' ''Evo''))) =
   CardRows []"
proof -
  have "getCollateral ''Regular'' = 1000" "getCollateral ''Evo'' = 4000" by code_simp+
  then show ?thesis
    by (simp add: topMasternodes_def masternodes_card_def js_slice_0 js_sort_def staked_first_def
        sample_node_def numeral_eq_Suc)
qed

theorem dashboard_picks_witness:
  "masternodes_card False (topMasternodes []) = CardEmpty \<and>
   length (topProposals (Some (replicate 9 \<lparr>dp_hash = None, dp_collateralHash = None, dp_name = None,
     dp_url = None, dp_yesCount = None, dp_noCount = None, dp_absoluteYesCount = Some 3,
     dp_paymentAmount = None\<rparr>))) = 6"
proof -
  have "js_comparator (\<lambda>a b :: string. 0)" by unfold_locales auto
  from dashboard_picks [OF this, of "\<lambda>_. None" "[] :: unit ApiTransaction list" "{}" "[]"
      "replicate 9 \<lparr>dp_hash = None, dp_collateralHash = None, dp_name = None,
        dp_url = None, dp_yesCount = None, dp_noCount = None, dp_absoluteYesCount = Some 3,
        dp_paymentAmount = None\<rparr>"]
  show ?thesis by (simp add: Let_def masternodes_card_def)
qed

subsection \<open>Changes and extremes\<close>

fun num_scale :: "rat \<Rightarrow> jsnum \<Rightarrow> jsnum" where
  "num_scale k (Fin v) = Fin (k * v)"
| "num_scale k n = n"

text \<open>Points of a history: seconds and value.\<close>

definition value_change :: "(rat \<times> rat) list option \<Rightarrow> jsnum option" where
  "value_change history =
     (case history of
        Some h \<Rightarrow>
          if length h \<ge> 2
          then Some (num_scale 100 (num_div (snd (h ! (length h - 1)) - snd (h ! 0)) (snd (h ! 0)))) else None
      | None \<Rightarrow> None)"

definition volume_change :: "(rat \<times> rat) list option \<Rightarrow> rat option" where
  "volume_change history =
     (case history of
        Some h \<Rightarrow>
          if length h \<ge> 2
          then Some ((snd (h ! (length h - 1)) - snd (h ! 0)) / max (snd (h ! 0)) (1 / 10000) * 100) else None
      | None \<Rightarrow> None)"

definition chart_data :: "(rat \<times> rat) list option \<Rightarrow> (rat \<times> rat) list" where
  "chart_data history = map (\<lambda>p. (fst p * 1000, snd p)) (or_else history [])"

definition chart_range :: "(rat \<times> rat) list \<Rightarrow> (rat \<times> rat) option" where
  "chart_range points =
     (if length points = 0 then None
      else Some (foldr max (map snd points) (snd (points ! 0)), foldr min (map snd points) (snd (points ! 0))))"

text \<open>Points of the API's series: the text of an instant and a number.\<close>

definition txCount30d :: "(string \<times> int) list option \<Rightarrow> int" where
  "txCount30d txStats = (case txStats of None \<Rightarrow> 0 | Some es \<Rightarrow> foldl (\<lambda>s e. s + snd e) 0 es)"

definition by_instant :: "(string \<Rightarrow> date) \<Rightarrow> string \<times> int \<Rightarrow> string \<times> int \<Rightarrow> int" where
  "by_instant parse a b =
     (case (parse (fst a), parse (fst b)) of (Some s, Some t) \<Rightarrow> s - t | _ \<Rightarrow> 0)"

definition txChange :: "(string \<Rightarrow> date) \<Rightarrow> (string \<times> int) list option \<Rightarrow> rat option" where
  "txChange parse txStats =
     (case txStats of
        None \<Rightarrow> None
      | Some es \<Rightarrow>
          if length es < 4 then None
          else let
              sorted_es = js_sort (by_instant parse) es;
              half = length sorted_es div 2;
              first = foldl (\<lambda>s e. s + snd e) 0 (take half sorted_es);
              second = foldl (\<lambda>s e. s + snd e) 0 (drop half sorted_es)
            in if first > 0 then Some (of_int (second - first) / of_int first * 100) else None)"

definition circulatingSupply :: "rat option \<Rightarrow> rat option \<Rightarrow> rat option" where
  "circulatingSupply marketCapUsd usdPrice =
     (case (marketCapUsd, usdPrice) of
        (Some cap, Some price) \<Rightarrow> if price > 0 then Some (cap / price) else None
      | _ \<Rightarrow> None)"

definition avgBlockSize :: "ApiBlock list \<Rightarrow> rat option" where
  "avgBlockSize blocks =
     (if length blocks = 0 then None
      else Some (of_int (foldl (\<lambda>s b. s + ab_size b) 0 blocks) / of_nat (length blocks)))"

definition mempoolCount :: "int option \<Rightarrow> int" where
  "mempoolCount rawMempoolTotal =
     (case rawMempoolTotal of Some n \<Rightarrow> if n \<ge> 0 then n else 0 | None \<Rightarrow> 0)"

definition budgetUsedPct :: "(rat \<times> rat) option \<Rightarrow> rat" where
  "budgetUsedPct budget =
     (case budget of
        Some (totalBudget, totalRequested) \<Rightarrow>
          if totalBudget > 0 then min 100 (totalRequested / totalBudget * 100) else 0
      | None \<Rightarrow> 0)"

definition formatBytes :: "rat \<Rightarrow> string" where
  "formatBytes bytes =
     (if bytes \<ge> 1024 ^ 4 then to_fixed 2 (fl (bytes / 1024 ^ 4)) @ '' TB''
      else if bytes \<ge> 1024 ^ 3 then to_fixed 2 (fl (bytes / 1024 ^ 3)) @ '' GB''
      else if bytes \<ge> 1024 ^ 2 then to_fixed 2 (fl (bytes / 1024 ^ 2)) @ '' MB''
      else if bytes \<ge> 1024 then to_fixed 2 (fl (bytes / 1024)) @ '' KB''
      else dec_int \<lfloor>bytes\<rfloor> @ '' B'')"

lemma foldl_add_sum: "foldl (\<lambda>s e. s + f e) (z :: int) es = z + sum_list (map f es)"
  by (induction es arbitrary: z) auto

text \<open>
  Both halves of the month together are what the card counts; the change says how the later half
  compares, with one interval more when their number is odd.
\<close>

lemma tx_halves:
  assumes "txChange parse (Some es) = Some q"
  shows "\<exists>first second. first > 0 \<and> first + second = txCount30d (Some es) \<and>
    of_int second = of_int first * (1 + q / 100)"
proof -
  let ?s = "js_sort (by_instant parse) es" and ?f = "\<lambda>xs. foldl (\<lambda>s e. s + snd e) 0 xs"
  define a where "a = ?f (take (length ?s div 2) ?s)"
  define b where "b = ?f (drop (length ?s div 2) ?s)"
  have q: "a > 0" "q = of_int (b - a) / of_int a * 100"
    using assms by (auto simp: txChange_def Let_def a_def b_def split: if_splits)
  have "a + b = sum_list (map snd ?s)"
    unfolding a_def b_def foldl_add_sum by (simp flip: sum_list_append map_append)
  also have "\<dots> = sum_list (map snd es)" by (metis mset_js_sort mset_map sum_mset_sum_list)
  finally have "a + b = txCount30d (Some es)" by (simp add: txCount30d_def foldl_add_sum)
  then show ?thesis using q by (intro exI [of _ a] exI [of _ b]) (simp add: field_simps)
qed

lemma chart_range_bounds:
  assumes "chart_range points = Some (high, low)"
  shows "(\<forall>p \<in> set points. low \<le> snd p \<and> snd p \<le> high) \<and>
    high \<in> snd ` set points \<and> low \<in> snd ` set points"
proof -
  have hi: "(\<forall>v \<in> set vs. v \<le> foldr max vs z) \<and> foldr max vs z \<in> insert z (set vs)" for vs :: "rat list" and z
    by (induction vs) (auto simp: max_def)
  have lo: "(\<forall>v \<in> set vs. foldr min vs z \<le> v) \<and> foldr min vs z \<in> insert z (set vs)" for vs :: "rat list" and z
    by (induction vs) (auto simp: min_def)
  have ne: "points \<noteq> []" and
    h: "high = foldr max (map snd points) (snd (points ! 0))" and
    l: "low = foldr min (map snd points) (snd (points ! 0))"
    using assms by (auto simp: chart_range_def split: if_splits)
  have "snd (points ! 0) \<in> snd ` set points" using ne by simp
  then have "insert (snd (points ! 0)) (set (map snd points)) = snd ` set points" by auto
  then show ?thesis
    using hi [of "map snd points" "snd (points ! 0)"] lo [of "map snd points" "snd (points ! 0)"]
    unfolding h l by auto
qed

subsection \<open>The next superblock\<close>

record superblock_card =
  sc_resolvedNext :: "int option"
  sc_resolvedPrev :: "int option"
  sc_blocksLeft :: "int option"
  sc_progress :: rat
  sc_etaMs :: "rat option"
  sc_voteHeight :: "int option"
  sc_voteProgress :: rat
  sc_voteBlocksLeft :: "int option"
  sc_voteMs :: "rat option"
  sc_votingClosed :: bool
  sc_budgetUsd :: "rat option"

definition next_superblock_card ::
  "int option \<Rightarrow> int option \<Rightarrow> int option \<Rightarrow> rat option \<Rightarrow> rat option \<Rightarrow> rat option \<Rightarrow> network \<Rightarrow> superblock_card" where
  "next_superblock_card next_height prev_height latestHeight blockTimeMs budgetDash usdPrice net =
     (let resolvedNext = (case next_height of
            Some n \<Rightarrow> Some n | None \<Rightarrow> map_option (\<lambda>h. getNextSuperblockHeight h net) latestHeight);
          resolvedPrev = (case prev_height of
            Some n \<Rightarrow> Some n | None \<Rightarrow> map_option (\<lambda>h. getPreviousSuperblockHeight h net) latestHeight);
          blocksLeft = (case (resolvedNext, latestHeight) of
            (Some n, Some h) \<Rightarrow> Some (max 0 (n - h)) | _ \<Rightarrow> None);
          totalBlocks = (case (resolvedNext, resolvedPrev) of
            (Some n, Some p) \<Rightarrow> Some (max 1 (n - p)) | _ \<Rightarrow> None);
          sbProgress = (case (blocksLeft, totalBlocks) of
            (Some l, Some t) \<Rightarrow> clamp01 (1 - of_int l / of_int t) | _ \<Rightarrow> 0);
          etaMs = (case (blocksLeft, blockTimeMs) of
            (Some l, Some ms) \<Rightarrow> if ms > 0 then Some (of_int l * ms) else None | _ \<Rightarrow> None);
          voteBlocksLeft = map_option (\<lambda>h. getBlocksUntilVotingDeadline h net) latestHeight
      in \<lparr>sc_resolvedNext = resolvedNext, sc_resolvedPrev = resolvedPrev, sc_blocksLeft = blocksLeft,
          sc_progress = sbProgress, sc_etaMs = etaMs,
          sc_voteHeight = map_option (\<lambda>h. getVotingDeadlineHeight h net) latestHeight,
          sc_voteProgress = (case latestHeight of Some h \<Rightarrow> getVotingProgress h net | None \<Rightarrow> 0),
          sc_voteBlocksLeft = voteBlocksLeft,
          sc_voteMs = (case (latestHeight, blockTimeMs) of
             (Some h, Some ms) \<Rightarrow> Some (getMsUntilVotingDeadline h net (J ms)) | _ \<Rightarrow> None),
          sc_votingClosed = (case voteBlocksLeft of Some n \<Rightarrow> n \<le> 0 | None \<Rightarrow> False),
          sc_budgetUsd = (case (budgetDash, usdPrice) of
             (Some b, Some u) \<Rightarrow> Some (b * u) | _ \<Rightarrow> None)\<rparr>)"

record countdown_dial =
  cd_value :: string
  cd_unit :: string
  cd_dashOffset :: rat

text \<open>The circumference of the ring, \<open>2 * Math.PI * 48\<close>, is a parameter.\<close>

definition countdown_dial_of :: "rat \<Rightarrow> rat option \<Rightarrow> rat \<Rightarrow> bool \<Rightarrow> countdown_dial" where
  "countdown_dial_of circumference ms progress isClosed =
     (let parts = map_option formatDurationParts ms; safeProgress = clamp01 progress
      in \<lparr>cd_value = (if isClosed then em_dash else (case parts of Some p \<Rightarrow> fst p | None \<Rightarrow> em_dash)),
          cd_unit = (if isClosed then ''closed'' else (case parts of Some p \<Rightarrow> snd p | None \<Rightarrow> '''')),
          cd_dashOffset = circumference * (1 - safeProgress)\<rparr>)"

lemma cycle_part:
  "(of_int (h - p) :: rat) / of_int (sb_interval net) = 1 - of_int (p + sb_interval net - h) / of_int (sb_interval net)"
proof -
  have "(of_int (sb_interval net) :: rat) / of_int (sb_interval net) = 1"
    by (cases net) simp_all
  then have "1 - of_int (p + sb_interval net - h) / of_int (sb_interval net) =
      (of_int (sb_interval net) - of_int (p + sb_interval net - h) :: rat) / of_int (sb_interval net)"
    by (simp only: diff_divide_distrib)
  then show ?thesis by simp
qed

lemma card_from_stats:
  assumes "next_sb = prev_sb + sb_interval net" "prev_sb \<le> h" "h < next_sb"
    "sbc = next_superblock_card (Some next_sb) (Some prev_sb) (Some h) ms budget price net"
  shows "sc_blocksLeft sbc = Some (next_sb - h)"
    "sc_progress sbc = of_int (h - prev_sb) / of_int (sb_interval net)"
    "0 \<le> sc_progress sbc" "sc_progress sbc < 1"
proof -
  let ?i = "sb_interval net"
  have pos: "(0 :: rat) < of_int ?i" using sb_interval_pos [of net] by (simp del: sb_interval_pos)
  have "h - prev_sb < ?i" using assms(1,3) by linarith
  then have "(of_int (h - prev_sb) :: rat) < of_int ?i" by (simp only: of_int_less_iff)
  then have lt: "(of_int (h - prev_sb) :: rat) / of_int ?i < 1" using pos by simp
  have ge: "(0 :: rat) \<le> of_int (h - prev_sb) / of_int ?i"
    using assms(2) pos by (intro divide_nonneg_pos) simp_all
  show left: "sc_blocksLeft sbc = Some (next_sb - h)"
    using assms(3,4) by (simp add: next_superblock_card_def Let_def)
  have "max 1 (next_sb - prev_sb) = ?i" using assms(1) sb_interval_pos [of net] by linarith
  then have "sc_progress sbc = clamp01 (1 - of_int (next_sb - h) / of_int ?i)"
    using assms(3,4) by (simp add: next_superblock_card_def Let_def)
  also have "1 - of_int (next_sb - h) / of_int ?i = (of_int (h - prev_sb) / of_int ?i :: rat)"
    unfolding assms(1) by (rule cycle_part [symmetric])
  finally show "sc_progress sbc = of_int (h - prev_sb) / of_int ?i"
    using ge lt by (simp add: clamp01_def)
  then show "0 \<le> sc_progress sbc" "sc_progress sbc < 1" using ge lt by simp_all
qed

text \<open>
  C27: the card of the next superblock, fed with the chain statistics of the API: between two
  superblocks it counts the blocks down to the next one, its ring is full by the part of the cycle
  that is over, and it says that voting is closed from the deadline on. In the very block of a
  superblock the countdown has begun again with a whole cycle to go, but the voting dial still
  belongs to the cycle before: it says closed although voting for the superblock shown is open.
\<close>

theorem superblock_card_counts_down:
  assumes "max_height d = Some h" "0 < n"
    "\<And>b. b \<in> set (db_blocks d) \<Longrightarrow> b_superblock b \<longleftrightarrow> sb_interval net dvd b_height b"
    "getPreviousSuperblockHeight h net \<in> b_height ` set (db_blocks d)"
    "stats = getChainStats net d n k"
    "sbc = next_superblock_card (cs_nextSuperblockHeight stats) (cs_latestSuperblockHeight stats) (Some h) ms budget price net"
  shows "(\<exists>next_sb. sc_resolvedNext sbc = Some next_sb \<and> sb_interval net dvd next_sb \<and> h < next_sb \<and>
      next_sb \<le> h + sb_interval net \<and> sc_blocksLeft sbc = Some (next_sb - h) \<and>
      sc_progress sbc = 1 - of_int (next_sb - h) / of_int (sb_interval net) \<and>
      0 \<le> sc_progress sbc \<and> sc_progress sbc < 1 \<and>
      (sb_interval net dvd h \<longrightarrow> sc_votingClosed sbc \<and> sc_progress sbc = 0) \<and>
      (\<not> sb_interval net dvd h \<longrightarrow> (sc_votingClosed sbc \<longleftrightarrow>
         next_sb - gp_votingDeadlineBlocksBeforeSb (getGovernanceParams net) \<le> h)))"
proof -
  let ?p = "getPreviousSuperblockHeight h net" and ?i = "sb_interval net"
  let ?next = "?p + ?i"
  have stats: "cs_latestSuperblockHeight stats = Some ?p" "cs_nextSuperblockHeight stats = Some ?next"
    using chain_stats_superblocks [OF assms(1-4)] next_superblock [of h net] previous_eq [of h net]
    unfolding assms(5) by auto
  note sbc = assms(6) [unfolded stats]
  note facts = card_from_stats [OF refl previous_le previous_near sbc]
  have "?next - h \<le> ?i" using previous_le [of h net] by simp
  moreover have "?i dvd ?next" using previous_dvd by simp
  moreover have "sc_resolvedNext sbc = Some ?next" by (simp add: sbc next_superblock_card_def Let_def)
  moreover have "sc_progress sbc = 1 - of_int (?next - h) / of_int ?i"
    unfolding facts(2) by (rule cycle_part)
  moreover have deadline: "sc_votingClosed sbc \<longleftrightarrow> getVotingDeadlineHeight h net \<le> h"
    by (simp add: sbc next_superblock_card_def getBlocksUntilVotingDeadline_def Let_def)
  then have "?i dvd h \<longrightarrow> sc_votingClosed sbc"
    using next_superblock [of h net] deadline_inside [of net] by (auto simp: getVotingDeadlineHeight_def)
  moreover have "?i dvd h \<longrightarrow> sc_progress sbc = 0"
    unfolding facts(2) using previous_eq [of h net] by auto
  moreover have "\<not> ?i dvd h \<longrightarrow> (sc_votingClosed sbc \<longleftrightarrow>
      ?next - gp_votingDeadlineBlocksBeforeSb (getGovernanceParams net) \<le> h)"
    unfolding deadline using next_superblock [of h net] by (simp add: getVotingDeadlineHeight_def)
  ultimately show ?thesis
    using facts(1,3,4) previous_near [of h net] by (intro exI [of _ ?next]) simp
qed

theorem superblock_card_counts_down_witness:
  "\<exists>next_sb. sc_resolvedNext (next_superblock_card
       (cs_nextSuperblockHeight (getChainStats Testnet sample_cycle_db 120 20))
       (cs_latestSuperblockHeight (getChainStats Testnet sample_cycle_db 120 20)) (Some 25) None None None Testnet) =
     Some next_sb \<and> 25 < next_sb \<and> next_sb \<le> 49"
proof -
  have p: "getPreviousSuperblockHeight 25 Testnet = 24" by (simp add: previous_div)
  have "max_height sample_cycle_db = Some 25"
    by (auto simp: max_height_def sample_cycle_db_def sample_block_def)
  moreover have "b_superblock b \<longleftrightarrow> sb_interval Testnet dvd b_height b" if "b \<in> set (db_blocks sample_cycle_db)" for b
    using that by (auto simp: sample_cycle_db_def sample_block_def)
  moreover have "getPreviousSuperblockHeight 25 Testnet \<in> b_height ` set (db_blocks sample_cycle_db)"
    unfolding p by (simp add: sample_cycle_db_def sample_block_def)
  ultimately show ?thesis
    using superblock_card_counts_down [of sample_cycle_db 25 120 Testnet _ 20, OF _ _ _ _ refl refl, of None None None]
    by fastforce
qed

end
