(* ===== verification/SupplyCards.thy ===== *)
theory SupplyCards
  imports Dashboard AddressesPage TransactionSeries
begin

text \<open>
  The cards on who holds and what moves, in \<open>frontend/src/themes/neo\<close>: the banner on the concentration
  of the supply, \<open>components/concentration-banner.tsx\<close>, the top holders of \<open>pages/dashboard.tsx\<close>, the
  composition of a day's transactions, \<open>components/tx-breakdown-card.tsx\<close>, and the ticker,
  \<open>components/live-ticker.tsx\<close>. They are judged by what the handlers of the API answer.
\<close>

section \<open>Numbers\<close>

text \<open>\<open>a / b\<close> of two numbers, and whether a number is above zero.\<close>

fun num_quot :: "jsnum \<Rightarrow> jsnum \<Rightarrow> jsnum" where
  "num_quot (Fin a) (Fin b) = num_div a b"
| "num_quot (Fin a) PosInf = Fin 0"
| "num_quot (Fin a) NegInf = Fin 0"
| "num_quot PosInf (Fin b) = (if b < 0 then NegInf else PosInf)"
| "num_quot NegInf (Fin b) = (if b < 0 then PosInf else NegInf)"
| "num_quot _ _ = NaN"

fun num_positive :: "jsnum \<Rightarrow> bool" where
  "num_positive (Fin v) \<longleftrightarrow> v > 0"
| "num_positive PosInf \<longleftrightarrow> True"
| "num_positive _ \<longleftrightarrow> False"

fun num_max0 :: "jsnum \<Rightarrow> jsnum" where
  "num_max0 (Fin v) = Fin (max 0 v)"
| "num_max0 NegInf = Fin 0"
| "num_max0 n = n"

fun num_neg :: "jsnum \<Rightarrow> jsnum" where
  "num_neg (Fin v) = Fin (- v)"
| "num_neg PosInf = NegInf"
| "num_neg NegInf = PosInf"
| "num_neg NaN = NaN"

text \<open>\<open>n || 1\<close>: zero and \<open>NaN\<close> are replaced.\<close>

fun num_or_1 :: "jsnum \<Rightarrow> jsnum" where
  "num_or_1 NaN = Fin 1"
| "num_or_1 (Fin v) = (if v = 0 then Fin 1 else Fin v)"
| "num_or_1 n = n"

definition num_sum :: "jsnum list \<Rightarrow> jsnum" where
  "num_sum ns = foldl num_add (Fin 0) ns"

lemma foldl_num_add: "foldl num_add (Fin a) (map (\<lambda>x. Fin (f x :: rat)) xs) = Fin (a + sum_list (map f xs))"
  by (induction xs arbitrary: a) (auto simp: algebra_simps)

lemma num_sum_Fin: "num_sum (map (\<lambda>x. Fin (f x :: rat)) xs) = Fin (sum_list (map f xs))"
  by (simp add: num_sum_def foldl_num_add)

section \<open>The banner\<close>

definition conc :: "AddressBalance \<Rightarrow> jsnum" where
  "conc e = (case concentration e of Some t \<Rightarrow> js_number t | None \<Rightarrow> Fin 0)"

definition conc_sum :: "AddressBalance list \<Rightarrow> jsnum" where
  "conc_sum es = foldl (\<lambda>acc e. num_add acc (conc e)) (Fin 0) es"

definition topEntries :: "AddressBalance list \<Rightarrow> AddressBalance list" where
  "topEntries entries = filter (\<lambda>e. ab_address e \<noteq> Some ''others'') entries"

definition othersEntry :: "AddressBalance list \<Rightarrow> AddressBalance option" where
  "othersEntry entries = find (\<lambda>e. ab_address e = Some ''others'') entries"

definition top_sum :: "nat \<Rightarrow> AddressBalance list \<Rightarrow> jsnum" where
  "top_sum k entries =
     (let part = js_slice (topEntries entries) 0 (int k)
      in if length part > 0 then conc_sum part else Fin 0)"

record distribution =
  di_t1 :: jsnum
  di_t2to3 :: jsnum
  di_t4to10 :: jsnum
  di_others :: jsnum

definition distribution_of :: "AddressBalance list \<Rightarrow> distribution" where
  "distribution_of entries =
     (let top = topEntries entries
      in \<lparr>di_t1 = conc_sum (js_slice top 0 1), di_t2to3 = conc_sum (js_slice top 1 3),
          di_t4to10 = conc_sum (js_slice top 3 10),
          di_others = (case othersEntry entries of
             Some e \<Rightarrow> conc e
           | None \<Rightarrow> num_max0 (num_add (Fin 100) (num_neg (top_sum 10 entries))))\<rparr>)"

record pie_slice =
  ps_key :: string
  ps_label :: string
  ps_value :: jsnum
  ps_color :: string

text \<open>The opacity falls from 100 to 38 per cent.\<close>

definition sliceColor :: "nat \<Rightarrow> nat \<Rightarrow> string" where
  "sliceColor index n =
     (if n \<le> 1 then ''var(--accent)''
      else let
          t = of_nat index / of_nat (max 1 (n - 1));
          opacity = js_round ((1 - t * 62 / 100) * 100)
        in ''color-mix(in oklab, var(--accent) '' @ dec_int opacity @ ''%, transparent)'')"

definition others_slice_value :: "AddressBalance list \<Rightarrow> jsnum" where
  "others_slice_value entries =
     (case othersEntry entries of
        Some e \<Rightarrow>
          (case concentration e of
             Some t \<Rightarrow> js_number t
           | None \<Rightarrow> num_max0 (num_add (Fin 100) (num_neg (top_sum 10 entries))))
      | None \<Rightarrow> num_max0 (num_add (Fin 100) (num_neg (top_sum 10 entries))))"

definition pieData :: "AddressBalance list \<Rightarrow> pie_slice list" where
  "pieData entries =
     (let top = topEntries entries;
          slices = map (\<lambda>(idx, e).
            \<lparr>ps_key = or_else (ab_address e) (''top-'' @ dec_nat idx),
             ps_label = CHR ''#'' # dec_nat (idx + 1),
             ps_value = conc e, ps_color = sliceColor idx (length top)\<rparr>) (enumerate 0 top)
      in filter (\<lambda>s. num_positive (ps_value s))
           (slices @ [\<lparr>ps_key = ''others'', ps_label = ''Others'', ps_value = others_slice_value entries,
              ps_color = ''color-mix(in oklab, var(--muted-foreground) 22%, transparent)''\<rparr>]))"

definition segments :: "AddressBalance list \<Rightarrow> (string \<times> jsnum) list" where
  "segments entries =
     (let d = distribution_of entries
      in [(''Top 1'', di_t1 d), (''Top 2-3'', di_t2to3 d), (''Top 4-10'', di_t4to10 d), (''Others'', di_others d)])"

definition distroTotal :: "AddressBalance list \<Rightarrow> jsnum" where
  "distroTotal entries = num_or_1 (foldl (\<lambda>acc s. num_add acc (snd s)) (Fin 0) (segments entries))"

definition segment_width :: "jsnum \<Rightarrow> jsnum \<Rightarrow> jsnum" where
  "segment_width whole v = num_scale 100 (num_quot v whole)"

definition formatPct :: "jsnum \<Rightarrow> string" where
  "formatPct value =
     (case value of
        Fin v \<Rightarrow>
          if v \<le> 0 then ''0%''
          else if v < 1 / 100 then to_fixed 4 v @ ''%''
          else to_fixed 2 v @ ''%''
      | _ \<Rightarrow> ''0%'')"

section \<open>The banner of the dashboard\<close>

text \<open>The dashboard asks for ten entries of the rich list.\<close>

definition RICH_LIMIT :: nat where "RICH_LIMIT = 10"

text \<open>The share of a balance in per cent, as the API prints it, to twelve places.\<close>

definition share :: "rat \<Rightarrow> int \<Rightarrow> rat" where
  "share supply balance =
     of_int (js_round (of_int balance / 100000000 / supply * 100 * 10 ^ 12)) / 10 ^ 12"

lemma js_round_nonneg: "0 \<le> v \<Longrightarrow> 0 \<le> js_round v"
  by (simp add: js_round_def)

lemma concentration_read:
  assumes "0 < supply" "0 \<le> balance" "of_int balance / 100000000 \<le> 2 * supply"
  shows "js_number (concentration_text balance supply) = Fin (share supply balance)"
proof -
  define v where "v = of_int balance / 100000000 / supply * 100"
  have v: "0 \<le> v" "v \<le> 200"
    using assms by (simp_all add: v_def pos_divide_le_eq)
  define n where "n = nat (js_round (v * 10 ^ 12))"
  have n: "int n = js_round (v * 10 ^ 12)" using v by (simp add: n_def js_round_nonneg)
  have "of_int (js_round (v * 10 ^ 12)) \<le> v * 10 ^ 12 + 1 / 2"
    unfolding js_round_def by (rule of_int_floor_le)
  then have "(of_nat n :: rat) \<le> 200 * 10 ^ 12 + 1" using n v by (simp flip: n)
  then have "(of_nat n :: rat) / 10 ^ 12 < 2 ^ 52" by simp
  also have "\<dots> < double_limit" by (simp add: double_limit_def)
  finally have small: "(of_nat n :: rat) / 10 ^ 12 < double_limit" .
  have split: "n div 10 ^ 12 * 10 ^ Suc 11 + n mod 10 ^ 12 = n" by simp
  have q: "num_div (of_int balance / 100000000) supply = Fin (v / 100)"
    using assms(1) by (simp add: num_div_def v_def)
  have "concentration_text balance supply = to_fixed_abs 12 v"
    unfolding concentration_text_def q using v by (simp add: to_fixed_def CONCENTRATION_DECIMALS_def)
  also have "\<dots> = dec_nat (n div 10 ^ 12) @ CHR ''.'' # pad_left (Suc 11) (dec_nat (n mod 10 ^ 12))"
    unfolding to_fixed_abs_def n_def Let_def by simp
  finally have text_is: "concentration_text balance supply =
      dec_nat (n div 10 ^ 12) @ CHR ''.'' # pad_left (Suc 11) (dec_nat (n mod 10 ^ 12))" .
  have "n mod 10 ^ 12 < 10 ^ Suc 11" by simp
  from js_number_point [OF this, of "n div 10 ^ 12"] small
  have "js_number (concentration_text balance supply) = Fin (of_nat n / 10 ^ Suc 11)"
    unfolding text_is split by simp
  moreover have "(of_nat n :: rat) = of_int (js_round (v * 10 ^ 12))" using n by (metis of_int_of_nat_eq)
  then have "(of_nat n :: rat) / 10 ^ Suc 11 = share supply balance" unfolding share_def v_def by simp
  ultimately show ?thesis by simp
qed

definition ranked_balances :: "db \<Rightarrow> balance_row list" where
  "ranked_balances d = order_by Desc (\<lambda>b. Some (bl_balance b)) (db_balances d)"

definition others_balance :: "rat \<Rightarrow> db \<Rightarrow> int" where
  "others_balance supply d =
     js_round (supply * 100000000) - sum_list (map bl_balance (take 9 (ranked_balances d)))"

definition dashboard_entries :: "rat \<Rightarrow> db \<Rightarrow> AddressBalance list" where
  "dashboard_entries supply d = resultSet (rich_pages supply d RICH_LIMIT (J ''desc'') 1)"

definition rich_entry :: "rat \<Rightarrow> db \<Rightarrow> balance_row \<Rightarrow> AddressBalance" where
  "rich_entry supply d b =
     AddressBalance_fromObject (address_text d (Some (bl_address_id b)))
       (J (dec_int (bl_balance b))) (J (concentration_text (bl_balance b) supply))"

lemma dashboard_entries_are:
  "dashboard_entries supply d = map (rich_entry supply d) (take 9 (ranked_balances d)) @
     [AddressBalance_fromObject (J ''others'') (J (dec_int (others_balance supply d)))
       (J (concentration_text (others_balance supply d) supply))]"
  using getBalancesInfo_page [of 1 d 9 "J ''desc''"]
  by (simp add: dashboard_entries_def rich_pages_def RICH_LIMIT_def rich_list_def others_balance_def
      ranked_balances_def rich_entry_def new_PaginatedResultSet_def page_of_def dir_of_def
      comp_def Let_def)

definition within_supply :: "rat \<Rightarrow> db \<Rightarrow> bool" where
  "within_supply supply d \<longleftrightarrow> 1 \<le> supply \<and> (\<forall>b \<in> set (db_balances d). 0 \<le> bl_balance b) \<and>
     sum_list (map bl_balance (db_balances d)) \<le> js_round (supply * 100000000)"

lemma sum_list_take_le:
  fixes f :: "'a \<Rightarrow> int"
  shows "\<forall>x \<in> set xs. 0 \<le> f x \<Longrightarrow> sum_list (map f (take k xs)) \<le> sum_list (map f xs)"
proof (induction xs arbitrary: k)
  case (Cons x xs)
  then show ?case using Cons.IH [of "k - 1"]
    by (cases k) (auto intro!: add_nonneg_nonneg sum_list_nonneg)
qed simp

lemma ranked_balances_same: "set (ranked_balances d) = set (db_balances d)"
  "sum_list (map bl_balance (ranked_balances d)) = sum_list (map bl_balance (db_balances d))"
proof -
  have "mset (ranked_balances d) = mset (db_balances d)" by (simp add: ranked_balances_def)
  then show "set (ranked_balances d) = set (db_balances d)"
    "sum_list (map bl_balance (ranked_balances d)) = sum_list (map bl_balance (db_balances d))"
    by (metis set_mset_mset, metis mset_map sum_mset_sum_list)
qed

lemma small_balance:
  assumes "1 \<le> supply" "v \<le> js_round (supply * 100000000)"
  shows "of_int v / 100000000 \<le> 2 * supply"
proof -
  have "of_int (js_round (supply * 100000000)) \<le> supply * 100000000 + 1 / 2"
    unfolding js_round_def by (rule of_int_floor_le)
  moreover have "(of_int v :: rat) \<le> of_int (js_round (supply * 100000000))" using assms(2) by simp
  ultimately show ?thesis using assms(1) by simp
qed

lemma entry_shares:
  assumes "within_supply supply d"
  shows "b \<in> set (db_balances d) \<Longrightarrow> conc (rich_entry supply d b) = Fin (share supply (bl_balance b))"
    "js_number (concentration_text (others_balance supply d) supply) = Fin (share supply (others_balance supply d))"
    "0 \<le> others_balance supply d"
proof -
  note s = assms [unfolded within_supply_def]
  show "conc (rich_entry supply d b) = Fin (share supply (bl_balance b))" if b: "b \<in> set (db_balances d)"
  proof -
    have "bl_balance b \<le> sum_list (map bl_balance (db_balances d))"
      using s b by (intro member_le_sum_list) auto
    then have "of_int (bl_balance b) / 100000000 \<le> 2 * supply" using s by (intro small_balance) auto
    then show ?thesis
      using s b by (simp add: conc_def rich_entry_def AddressBalance_fromObject_def new_AddressBalance_def
          concentration_read)
  qed
  have "sum_list (map bl_balance (take 9 (ranked_balances d))) \<le> sum_list (map bl_balance (ranked_balances d))"
    using s by (intro sum_list_take_le) (simp add: ranked_balances_same)
  then show nonneg: "0 \<le> others_balance supply d"
    using s by (simp add: others_balance_def ranked_balances_same)
  have "0 \<le> sum_list (map bl_balance (take 9 (ranked_balances d)))"
    using s by (intro sum_list_nonneg) (auto simp: ranked_balances_same dest: in_set_takeD)
  then have "others_balance supply d \<le> js_round (supply * 100000000)" by (simp add: others_balance_def)
  then have "of_int (others_balance supply d) / 100000000 \<le> 2 * supply" using s by (intro small_balance) auto
  then show "js_number (concentration_text (others_balance supply d) supply) = Fin (share supply (others_balance supply d))"
    using s nonneg by (intro concentration_read) auto
qed

definition no_other_others :: "db \<Rightarrow> bool" where
  "no_other_others d \<longleftrightarrow> (\<forall>b \<in> set (db_balances d). address_text d (Some (bl_address_id b)) \<noteq> J ''others'')"

lemma dashboard_top:
  assumes "no_other_others d"
  shows "topEntries (dashboard_entries supply d) = map (rich_entry supply d) (take 9 (ranked_balances d))"
    "othersEntry (dashboard_entries supply d) =
      Some (AddressBalance_fromObject (J ''others'') (J (dec_int (others_balance supply d)))
        (J (concentration_text (others_balance supply d) supply)))"
proof -
  have named: "\<forall>b \<in> set (take 9 (ranked_balances d)). ab_address (rich_entry supply d b) \<noteq> Some ''others''"
    using assms ranked_balances_same(1) [of d]
    by (auto simp: no_other_others_def rich_entry_def AddressBalance_fromObject_def new_AddressBalance_def
        dest!: in_set_takeD)
  then show "topEntries (dashboard_entries supply d) = map (rich_entry supply d) (take 9 (ranked_balances d))"
    by (simp add: topEntries_def dashboard_entries_are AddressBalance_fromObject_def new_AddressBalance_def filter_id_conv)
  have "find P (xs @ [y]) = Some y" if "\<forall>x \<in> set xs. \<not> P x" "P y" for P xs and y :: AddressBalance
    using that by (induction xs) auto
  from this [of "map (rich_entry supply d) (take 9 (ranked_balances d))" "\<lambda>e. ab_address e = Some ''others''"]
  show "othersEntry (dashboard_entries supply d) =
      Some (AddressBalance_fromObject (J ''others'') (J (dec_int (others_balance supply d)))
        (J (concentration_text (others_balance supply d) supply)))"
    using named by (simp add: othersEntry_def dashboard_entries_are AddressBalance_fromObject_def new_AddressBalance_def)
qed

lemma conc_sum_entries:
  assumes "within_supply supply d" "set bs \<subseteq> set (db_balances d)"
  shows "conc_sum (map (rich_entry supply d) bs) = Fin (sum_list (map (\<lambda>b. share supply (bl_balance b)) bs))"
proof -
  have "foldl (\<lambda>acc e. num_add acc (conc e)) (Fin a) (map (rich_entry supply d) bs) =
      Fin (a + sum_list (map (\<lambda>b. share supply (bl_balance b)) bs))" for a
    using assms(2) by (induction bs arbitrary: a) (auto simp: entry_shares(1) [OF assms(1)] algebra_simps)
  then show ?thesis by (simp add: conc_sum_def)
qed

lemma slice_entries:
  assumes "within_supply supply d" "no_other_others d" "a \<le> b"
  shows "conc_sum (js_slice (topEntries (dashboard_entries supply d)) (int a) (int b)) =
    Fin (sum_list (map (\<lambda>b. share supply (bl_balance b)) (take (b - a) (drop a (take 9 (ranked_balances d))))))"
proof -
  have "set (take (b - a) (drop a (take 9 (ranked_balances d)))) \<subseteq> set (db_balances d)"
    unfolding ranked_balances_same(1) [of d, symmetric] by (auto dest!: in_set_takeD in_set_dropD)
  from conc_sum_entries [OF assms(1) this] show ?thesis
    using assms(3) by (simp add: dashboard_top [OF assms(2)] js_slice_nonneg drop_map take_map)
qed

lemma widths_sum:
  fixes vs :: "rat list"
  assumes "sum_list vs \<noteq> 0"
  shows "num_sum (map (segment_width (Fin (sum_list vs))) (map Fin vs)) = Fin 100"
proof -
  have "map (segment_width (Fin (sum_list vs))) (map Fin vs) = map (\<lambda>v. Fin (v * (100 / sum_list vs))) vs"
    using assms by (simp add: segment_width_def num_div_def)
  then have "num_sum (map (segment_width (Fin (sum_list vs))) (map Fin vs)) =
      Fin (sum_list (map (\<lambda>v. v * (100 / sum_list vs)) vs))"
    by (simp only: num_sum_Fin)
  also have "sum_list (map (\<lambda>v. v * (100 / sum_list vs)) vs) = sum_list vs * (100 / sum_list vs)"
    by (rule sum_list_mult_const [of "\<lambda>v. v", simplified])
  finally show ?thesis using assms by simp
qed

text \<open>
  C28: the banner over the reply of the API. It counts "Top 10" but the reply to a request for ten
  entries holds nine addresses and the entry of all others, so what it shows as the share of the top ten
  is that of nine, and the tenth richest address is part of "Others". Its four segments are the first,
  the next two and six addresses and the rest, and fill the bar exactly.
\<close>

theorem top_ten_are_nine:
  assumes "within_supply supply d" "no_other_others d"
  defines "entries \<equiv> dashboard_entries supply d" and "r \<equiv> ranked_balances d"
    and "shares \<equiv> \<lambda>bs. sum_list (map (\<lambda>b. share supply (bl_balance b)) bs)"
  shows "top_sum 10 entries = Fin (shares (take 9 r)) \<and>
    top_sum 3 entries = Fin (shares (take 3 r)) \<and> top_sum 1 entries = Fin (shares (take 1 r)) \<and>
    map snd (segments entries) = map Fin [shares (take 1 r), shares (take 2 (drop 1 r)),
      shares (take 6 (drop 3 r)), share supply (others_balance supply d)] \<and>
    (9 < length r \<longrightarrow> bl_balance (r ! 9) \<le> others_balance supply d) \<and>
    (sum_list [shares (take 1 r), shares (take 2 (drop 1 r)), shares (take 6 (drop 3 r)),
        share supply (others_balance supply d)] \<noteq> 0 \<longrightarrow>
      num_sum (map (segment_width (distroTotal entries)) (map snd (segments entries))) = Fin 100)"
proof (intro conjI impI)
  note slice = slice_entries [OF assms(1,2) _, folded entries_def r_def]
  have top: "top_sum k entries = Fin (shares (take k (take 9 r)))" for k
    using slice [of 0 k]
    by (cases "length (js_slice (topEntries entries) 0 (int k)) > 0")
       (auto simp: top_sum_def shares_def js_slice_nonneg conc_sum_def Let_def)
  show "top_sum 10 entries = Fin (shares (take 9 r))" "top_sum 3 entries = Fin (shares (take 3 r))"
    "top_sum 1 entries = Fin (shares (take 1 r))" by (simp_all add: top)
  have oth: "conc (the (othersEntry entries)) = Fin (share supply (others_balance supply d))" "othersEntry entries \<noteq> None"
    using entry_shares(2) [OF assms(1)] dashboard_top(2) [OF assms(2), of "supply"]
    by (simp_all add: entries_def conc_def AddressBalance_fromObject_def new_AddressBalance_def)
  let ?vs = "[shares (take 1 r), shares (take 2 (drop 1 r)), shares (take 6 (drop 3 r)),
    share supply (others_balance supply d)]"
  show segs: "map snd (segments entries) = map Fin ?vs"
    using slice [of 0 1] slice [of 1 3] slice [of 3 10] oth
    by (auto simp: segments_def distribution_of_def shares_def drop_take Let_def)
  have "foldl (\<lambda>acc s. num_add acc (snd s)) (Fin 0) (segments entries) = num_sum (map snd (segments entries))"
    by (simp add: num_sum_def foldl_map)
  also have "\<dots> = Fin (sum_list ?vs)" unfolding segs using num_sum_Fin [of "\<lambda>v. v" ?vs] by simp
  finally have whole: "distroTotal entries = num_or_1 (Fin (sum_list ?vs))" by (simp only: distroTotal_def)
  show "num_sum (map (segment_width (distroTotal entries)) (map snd (segments entries))) = Fin 100"
    if "sum_list ?vs \<noteq> 0"
    unfolding segs whole using that widths_sum [OF that] by (simp only: num_or_1.simps if_False)
  show "bl_balance (r ! 9) \<le> others_balance supply d" if "9 < length r"
  proof -
    note s = assms(1) [unfolded within_supply_def]
    have "take 10 r = take 9 r @ [r ! 9]" using that take_Suc_conv_app_nth [of 9 r] by simp
    moreover have "sum_list (map bl_balance (take 10 r)) \<le> sum_list (map bl_balance r)"
      using s by (intro sum_list_take_le) (simp add: r_def ranked_balances_same)
    ultimately show ?thesis
      using s ranked_balances_same(2) [of d] by (simp add: others_balance_def r_def)
  qed
qed

definition ten_balances :: db where
  "ten_balances = sample_wallet_db\<lparr>db_addresses := [],
     db_balances := map (\<lambda>i. \<lparr>bl_address_id = i, bl_balance = 10000000\<rparr>) [1..10]\<rparr>"

theorem top_ten_are_nine_witness:
  "\<exists>v. top_sum 10 (dashboard_entries 1 ten_balances) = Fin v \<and>
   10000000 \<le> others_balance 1 ten_balances"
proof -
  have up: "[1..10] = [1, 2, 3, 4, 5, 6, 7, 8, 9, 10 :: int]" by code_simp
  have enough: "within_supply 1 ten_balances"
    by (simp add: within_supply_def ten_balances_def up js_round_def)
  have named: "no_other_others ten_balances"
    by (auto simp: no_other_others_def ten_balances_def address_text_def address_by_id_def)
  have len: "9 < length (ranked_balances ten_balances)"
    by (simp add: ranked_balances_def ten_balances_def)
  have "ranked_balances ten_balances ! 9 \<in> set (ranked_balances ten_balances)" using len by (rule nth_mem)
  then have "bl_balance (ranked_balances ten_balances ! 9) = 10000000"
    unfolding ranked_balances_same by (auto simp: ten_balances_def)
  then show ?thesis using top_ten_are_nine [OF enough named] len by auto
qed

section \<open>The holders\<close>

text \<open>The key under which a row is drawn, its rank, and what its cells show; numbers before they are printed.\<close>

record holder_row =
  hr_key :: string
  hr_rank :: nat
  hr_address :: string
  hr_dash :: jsnum
  hr_bar :: jsnum
  hr_share :: jsnum
  hr_usd :: "jsnum option"

fun num_min100 :: "jsnum \<Rightarrow> jsnum" where
  "num_min100 (Fin v) = Fin (min 100 v)"
| "num_min100 PosInf = Fin 100"
| "num_min100 n = n"

definition balance_dash :: "AddressBalance \<Rightarrow> jsnum" where
  "balance_dash e =
     (case ab_balance e of
        Some t \<Rightarrow> num_scale (1 / of_int DUFFS_PER_DASH) (js_number t)
      | None \<Rightarrow> Fin 0)"

definition top_holder_row :: "rat option \<Rightarrow> nat \<Rightarrow> AddressBalance \<Rightarrow> holder_row" where
  "top_holder_row usdPrice idx e =
     \<lparr>hr_key = or_else (ab_address e) (''r-'' @ dec_nat idx), hr_rank = idx + 1,
      hr_address = or_else (ab_address e) '''', hr_dash = balance_dash e,
      hr_bar = num_min100 (conc e), hr_share = conc e,
      hr_usd = map_option (\<lambda>price. num_scale price (balance_dash e)) usdPrice\<rparr>"

datatype holders_body = HolderSkeletons nat | Holders bool "holder_row list" "(jsnum \<times> jsnum \<times> jsnum) option"

text \<open>Whether the card says that there is no data, its rows, and the row of all others.\<close>

definition top_holders_card :: "rat option \<Rightarrow> bool \<Rightarrow> AddressBalance list \<Rightarrow> holders_body" where
  "top_holders_card usdPrice isLoading entries =
     (let rows = topEntries entries;
          others = map_option (\<lambda>e. (balance_dash e, num_min100 (conc e), conc e)) (othersEntry entries)
      in if isLoading then HolderSkeletons 6
         else Holders (length rows = 0)
           (map (\<lambda>(idx, e). top_holder_row usdPrice idx e) (enumerate 0 rows)) others)"

record active_row =
  ac_key :: string
  ac_rank :: nat
  ac_highlight :: bool
  ac_address :: "string option"
  ac_width :: rat
  ac_txCount :: int

definition active_addresses :: "activity_entry list \<Rightarrow> active_row list" where
  "active_addresses entries =
     (let most = foldl (\<lambda>acc e. max acc (or_else (ae_txCount e) 0)) 0 entries
      in map (\<lambda>(i, e).
           let txCount = or_else (ae_txCount e) 0
           in \<lparr>ac_key = or_else (ae_address e) (''active-'' @ dec_nat i), ac_rank = i + 1,
               ac_highlight = (i < 3), ac_address = ae_address e,
               ac_width = (if most > 0 then max 3 (of_int txCount / of_int most * 100) else 0),
               ac_txCount = txCount\<rparr>)
         (enumerate 0 (js_slice entries 0 10)))"

section \<open>The composition of a day\<close>

record breakdown_slice =
  bs_key :: string
  bs_label :: string
  bs_value :: jsnum

definition breakdown_slices :: "TransactionStats option \<Rightarrow> breakdown_slice list" where
  "breakdown_slices breakdown =
     (case breakdown of
        None \<Rightarrow> []
      | Some b \<Rightarrow>
          [\<lparr>bs_key = ''normal'', bs_label = ''Normal'', bs_value = or_else (ts_normal b) (Fin 0)\<rparr>,
           \<lparr>bs_key = ''special'', bs_label = ''Special'', bs_value = or_else (ts_special b) (Fin 0)\<rparr>,
           \<lparr>bs_key = ''coinjoin'', bs_label = ''CoinJoin'', bs_value = or_else (ts_coinjoin b) (Fin 0)\<rparr>,
           \<lparr>bs_key = ''multisig'', bs_label = ''Multisig'', bs_value = or_else (ts_multisig b) (Fin 0)\<rparr>])"

definition breakdown_total :: "TransactionStats option \<Rightarrow> jsnum" where
  "breakdown_total breakdown = or_else (Option.bind breakdown ts_total) (Fin 0)"

datatype breakdown_body =
  BreakdownSkeleton | NoTransactions | Composition jsnum "breakdown_slice list" "(breakdown_slice \<times> jsnum) list"

text \<open>The slices of the pie, those that are not zero, and the list of all with their percentages.\<close>

definition breakdown_card :: "TransactionStats option \<Rightarrow> bool \<Rightarrow> breakdown_body" where
  "breakdown_card breakdown isLoading =
     (let whole = breakdown_total breakdown; slices = breakdown_slices breakdown
      in if isLoading then BreakdownSkeleton
         else if whole = Fin 0 then NoTransactions
         else Composition whole (filter (\<lambda>s. num_positive (bs_value s)) slices)
           (map (\<lambda>s. (s, if num_positive whole then num_scale 100 (num_quot (bs_value s) whole) else Fin 0)) slices))"

text \<open>In how many of the four kinds a transaction is counted.\<close>

definition kinds_of :: "tx_row \<Rightarrow> nat" where
  "kinds_of t = of_bool (is_special t) + of_bool (t_coinjoin t) + of_bool (t_multisig t) + of_bool (is_normal t)"

lemma kinds_sum:
  "length (filter is_special ts) + length (filter t_coinjoin ts) + length (filter t_multisig ts) +
   length (filter is_normal ts) = sum_list (map kinds_of ts)"
  by (induction ts) (auto simp: kinds_of_def)

lemma kinds_positive: "0 \<le> t_type t \<Longrightarrow> 1 \<le> kinds_of t"
  by (auto simp: kinds_of_def is_special_def is_normal_def)

lemma sum_list_ge_length: "\<forall>x \<in> set xs. 1 \<le> f x \<Longrightarrow> length xs \<le> sum_list (map f xs)" for f :: "'a \<Rightarrow> nat"
  by (induction xs) auto

lemma sum_list_eq_length:
  fixes f :: "'a \<Rightarrow> nat"
  shows "\<forall>x \<in> set xs. 1 \<le> f x \<Longrightarrow> sum_list (map f xs) = length xs \<longleftrightarrow> (\<forall>x \<in> set xs. f x = 1)"
proof (induction xs)
  case (Cons x xs)
  then have "length xs \<le> sum_list (map f xs)" by (intro sum_list_ge_length) simp
  then show ?case using Cons by (auto simp: le_Suc_eq)
qed simp

text \<open>
  The composition of a day, from the table of transactions to the card. The four values are the
  counts of the API and their sum is the total in the middle, the percentages add up to 100, and the
  card says that there was nothing exactly when no transaction was counted. The card calls the kinds
  buckets with priorities, but a transaction stands in each kind it belongs to: the total is
  the number of transactions only when none of them is of two kinds, and is too high otherwise.
\<close>

theorem composition_of_a_day:
  fixes d :: db and start end' :: int
  assumes "hourly_exact d" "of_nat (length (db_transactions d)) < double_limit"
    "\<forall>t \<in> set (db_transactions d). 0 \<le> t_type t"
  defines "ts \<equiv> counted_txs d start end'"
  defines "b \<equiv> Some (getTransactionStats d start end')"
  shows "breakdown_total b = num_sum (map bs_value (breakdown_slices b)) \<and>
    (breakdown_card b False = NoTransactions \<longleftrightarrow> ts = []) \<and>
    (ts \<noteq> [] \<longrightarrow> (\<exists>pie parts. breakdown_card b False = Composition (breakdown_total b) pie parts \<and>
       num_sum (map snd parts) = Fin 100)) \<and>
    (\<exists>n \<ge> length ts. breakdown_total b = Fin (of_nat n) \<and>
       (n = length ts \<longleftrightarrow> (\<forall>t \<in> set ts. kinds_of t = 1)))"
proof -
  define n where "n = (\<lambda>K. length (filter K ts))"
  have stats: "b = Some \<lparr>ts_total = Some (Fin (of_nat (n is_special + n t_coinjoin + n t_multisig + n is_normal))),
      ts_special = Some (Fin (of_nat (n is_special))), ts_coinjoin = Some (Fin (of_nat (n t_coinjoin))),
      ts_multisig = Some (Fin (of_nat (n t_multisig))), ts_normal = Some (Fin (of_nat (n is_normal)))\<rparr>"
    using getTransactionStats_counts [OF assms(1,2), of start end']
    by (simp add: b_def n_def ts_def getTransactionStats_def TransactionStats_of_def totals_of_def count_kinds_def Let_def)
  let ?n = "n is_special + n t_coinjoin + n t_multisig + n is_normal"
  have n_is: "?n = sum_list (map kinds_of ts)" unfolding n_def by (rule kinds_sum)
  have "set ts \<subseteq> set (db_transactions d)" unfolding ts_def by (rule set_counted_txs)
  then have each: "\<forall>t \<in> set ts. 1 \<le> kinds_of t" using assms(3) kinds_positive by blast
  have total_is: "breakdown_total b = Fin (of_nat ?n)" by (simp add: stats breakdown_total_def)
  have ge: "length ts \<le> ?n" unfolding n_is by (rule sum_list_ge_length [OF each])
  have none: "?n = 0 \<longleftrightarrow> ts = []" using ge by (auto simp: n_def)
  let ?vs = "[of_nat (n is_normal), of_nat (n is_special), of_nat (n t_coinjoin), of_nat (n t_multisig)] :: rat list"
  have vals: "map bs_value (breakdown_slices b) = map Fin ?vs" by (simp add: stats breakdown_slices_def)
  have all: "sum_list ?vs = of_nat ?n" by simp
  have "breakdown_total b = num_sum (map bs_value (breakdown_slices b))"
    unfolding vals total_is using num_sum_Fin [of "\<lambda>v. v" ?vs] all by simp
  moreover have "breakdown_card b False = NoTransactions \<longleftrightarrow> ts = []"
    using none by (auto simp: breakdown_card_def total_is Let_def)
  moreover have "\<exists>pie parts. breakdown_card b False = Composition (breakdown_total b) pie parts \<and>
      num_sum (map snd parts) = Fin 100" if "ts \<noteq> []"
  proof -
    have pos: "(0 :: rat) < of_nat ?n" using none that by (simp only: of_nat_0_less_iff) simp
    let ?parts = "map (\<lambda>s. (s, segment_width (breakdown_total b) (bs_value s))) (breakdown_slices b)"
    have "map snd ?parts = map (segment_width (breakdown_total b)) (map bs_value (breakdown_slices b))" by simp
    also have "\<dots> = map (segment_width (Fin (sum_list ?vs))) (map Fin ?vs)" by (simp only: vals total_is all)
    finally have "num_sum (map snd ?parts) = Fin 100" using widths_sum [of ?vs] pos all by simp
    moreover have "\<exists>pie. breakdown_card b False = Composition (breakdown_total b) pie ?parts"
      using pos by (simp add: breakdown_card_def total_is segment_width_def Let_def del: of_nat_add)
    ultimately show ?thesis by blast
  qed
  moreover have "\<exists>n \<ge> length ts. breakdown_total b = Fin (of_nat n) \<and>
       (n = length ts \<longleftrightarrow> (\<forall>t \<in> set ts. kinds_of t = 1))"
    using ge total_is sum_list_eq_length [OF each] n_is by (intro exI [of _ ?n]) simp
  ultimately show ?thesis by blast
qed

theorem composition_of_a_day_witness:
  "breakdown_card (Some (getTransactionStats sample_hourly_db 0 6000000)) False \<noteq> NoTransactions"
proof -
  have "of_nat (length (db_transactions sample_hourly_db)) < double_limit"
    using below_double_limit [of 4] by (simp add: sample_hourly)
  moreover have "\<forall>t \<in> set (db_transactions sample_hourly_db). 0 \<le> t_type t" by (simp add: sample_hourly)
  moreover have "\<lfloor>5 / 3 :: rat\<rfloor> = 1" by (simp add: floor_eq_iff)
  then have "counted_until 0 6000000 = 6000000"
    by (simp add: counted_until_def hour_ceil_def hour_floor_def msPerHour_def)
  ultimately show ?thesis
    using composition_of_a_day [OF sample_hourly_exact, of 0 6000000]
    by (simp add: counted_txs_def sample_no_strays window_txs_def sample_hourly_tables(1) sample_in_window)
qed

section \<open>The ticker\<close>

definition truncateHash :: "string \<Rightarrow> nat \<Rightarrow> nat \<Rightarrow> string" where
  "truncateHash hash head tail =
     (if length hash \<le> head + tail + 1 then hash
      else js_slice hash 0 (int head) @ ellipsis @ js_slice_from hash (- int tail))"

definition isInstantLocked :: "'p ApiTransaction \<Rightarrow> bool" where
  "isInstantLocked tx = (case at_instantLock tx of Some (LockText v) \<Rightarrow> length v > 0 | Some (LockFlag b) \<Rightarrow> b | None \<Rightarrow> False)"

record ticker_item =
  ti_hash :: string
  ti_shown :: string
  ti_amount :: string
  ti_locked :: bool

definition ticker_items :: "'p ApiTransaction list \<Rightarrow> ticker_item list" where
  "ticker_items txs =
     map (\<lambda>tx. \<lparr>ti_hash = at_hash tx, ti_shown = truncateHash (at_hash tx) 8 6,
                ti_amount = formatDuffs (sumVOut (J (at_vOut tx))) 8, ti_locked = isInstantLocked tx\<rparr>)
       (js_slice txs 0 5)"

end
