(* ===== verification/TablePager.thy ===== *)
theory TablePager
  imports ViewModes
begin

text \<open>
  The tables of the two themes, \<open>frontend/src/themes/neo/components/data-table.tsx\<close>,
  \<open>frontend/src/themes/dash/components/data-table.tsx\<close>, \<open>dash/components/pagination.tsx\<close> and
  \<open>dash/components/page-size-select.tsx\<close>: what a table shows for its rows, when it asks for more of
  them, and the buttons that lead to its pages. The cells of a row are the caller's; a row is
  whatever the caller puts there. Page sizes come from the address bar, whose schema admits
  10, 25, 50 and 100 only.
\<close>

subsection \<open>The pages a pager offers\<close>

datatype page_entry = PageNo int | Ellipsis

definition buildPageList :: "int \<Rightarrow> int \<Rightarrow> page_entry list" where
  "buildPageList current n =
     (if n \<le> 7 then map (\<lambda>i. PageNo (int i + 1)) [0..<nat n]
      else let
          start = max 2 (current - 1);
          stop = min (n - 1) (current + 1)
        in [PageNo 1] @ (if current > 3 then [Ellipsis] else []) @
           map PageNo [start..stop] @
           (if current < n - 2 then [Ellipsis] else []) @ [PageNo n])"

datatype dash_entry = DashPage int | DashGap string

definition dash_pages :: "int \<Rightarrow> int \<Rightarrow> dash_entry list" where
  "dash_pages page pageCount =
     (let pageIndex = page - 1 in
      if pageCount \<le> 7 then map DashPage [0..pageCount - 1]
      else let
          start = max 1 (pageIndex - 1);
          stop = min (pageCount - 2) (pageIndex + 1)
        in [DashPage 0] @ (if pageIndex > 2 then [DashGap ''ellipsis-start''] else []) @
           map DashPage [start..stop] @
           (if pageIndex < pageCount - 3 then [DashGap ''ellipsis-end''] else []) @
           [DashPage (pageCount - 1)])"

text \<open>What the button of an entry shows, and the page that a click on it asks for.\<close>

fun dash_button :: "dash_entry \<Rightarrow> page_entry" where
  "dash_button (DashPage p) = PageNo (p + 1)"
| "dash_button (DashGap _) = Ellipsis"

definition totalPages :: "int \<Rightarrow> int \<Rightarrow> int" where
  "totalPages rows pageSize = max 1 \<lceil>rat_of_int rows / rat_of_int pageSize\<rceil>"

datatype pager_event = Previous | Next | Click nat

fun neo_click :: "int \<Rightarrow> int \<Rightarrow> pager_event \<Rightarrow> int" where
  "neo_click n page Previous = (if page > 1 then page - 1 else page)"
| "neo_click n page Next = (if page < n then page + 1 else page)"
| "neo_click n page (Click i) =
     (let entries = buildPageList page n in
      if i < length entries then (case entries ! i of PageNo p \<Rightarrow> p | Ellipsis \<Rightarrow> page) else page)"

fun dash_click :: "int \<Rightarrow> int \<Rightarrow> pager_event \<Rightarrow> int" where
  "dash_click n page Previous = (if page \<le> 1 then page else page - 1)"
| "dash_click n page Next = (if page \<ge> n then page else page + 1)"
| "dash_click n page (Click i) =
     (let entries = dash_pages page n in
      if i < length entries then (case entries ! i of DashPage p \<Rightarrow> p + 1 | DashGap _ \<Rightarrow> page) else page)"

definition clicks :: "(int \<Rightarrow> pager_event \<Rightarrow> int) \<Rightarrow> int \<Rightarrow> pager_event list \<Rightarrow> int" where
  "clicks click page es = foldl click page es"

text \<open>
  The reference: the pages to be offered, in order, with a gap wherever the next one offered does
  not follow the last.
\<close>

definition offered :: "int \<Rightarrow> int \<Rightarrow> int \<Rightarrow> bool" where
  "offered current n p \<longleftrightarrow> n \<le> 7 \<or> p = 1 \<or> p = n \<or> \<bar>p - current\<bar> \<le> 1"

fun with_gaps :: "int list \<Rightarrow> page_entry list" where
  "with_gaps [] = []"
| "with_gaps [p] = [PageNo p]"
| "with_gaps (p # q # ps) =
     PageNo p # (if q = p + 1 then [] else [Ellipsis]) @ with_gaps (q # ps)"

lemma with_gaps_run:
  "with_gaps ([a..b] @ ps) =
   map PageNo [a..b] @
     (if a \<le> b \<and> ps \<noteq> [] \<and> hd ps \<noteq> b + 1 then [Ellipsis] else []) @ with_gaps ps"
proof (induction "nat (b - a + 1)" arbitrary: a)
  case 0
  then show ?case by simp
next
  case (Suc k)
  then have ab: "a \<le> b" and k: "k = nat (b - (a + 1) + 1)" by simp_all
  show ?case
  proof (cases "a = b")
    case True
    then show ?thesis by (cases ps) auto
  next
    case False
    with ab have le: "a + 1 \<le> b" by simp
    then have "with_gaps ([a..b] @ ps) = PageNo a # with_gaps ([a + 1..b] @ ps)"
      using ab by (simp add: upto_rec1 [of a b] upto_rec1 [of "a + 1" b])
    then show ?thesis using Suc(1) [OF k] le ab by (simp add: upto_rec1 [of a b])
  qed
qed

lemma pages_upto: "map (\<lambda>i. int i + 1) [0..<nat n] = [1..n]"
  by (rule nth_equalityI) auto

lemma filter_upto_near:
  "filter (\<lambda>p. \<bar>p - c\<bar> \<le> 1) [a..b] = [max a (c - 1)..min b (c + 1)]" for c :: int
proof (induction "nat (b - a + 1)" arbitrary: a)
  case 0
  then show ?case by simp
next
  case (Suc k)
  then have ab: "a \<le> b" and k: "k = nat (b - (a + 1) + 1)" by simp_all
  have step: "[a..b] = a # [a + 1..b]" using ab by (rule upto_rec1)
  consider "a < c - 1" | "c - 1 \<le> a" "a \<le> c + 1" | "c + 1 < a" by linarith
  then show ?case
  proof cases
    case 1
    then show ?thesis using Suc(1) [OF k] by (simp add: step max_def)
  next
    case 2
    then have "max a (c - 1) = a" "max (a + 1) (c - 1) = a + 1" "a \<le> min b (c + 1)" using ab by auto
    then show ?thesis using Suc(1) [OF k] 2 by (simp add: step upto_rec1 [of a "min b (c + 1)"])
  next
    case 3
    then show ?thesis using Suc(1) [OF k] by (simp add: step)
  qed
qed

lemma offered_pages:
  assumes "n > 7"
  shows "filter (offered c n) [1..n] = 1 # [max 2 (c - 1)..min (n - 1) (c + 1)] @ [n]"
proof -
  have "[1..n] = 1 # [2..n - 1] @ [n]"
    using assms by (simp add: upto_rec1 [of 1 n] upto_rec2 [of 2 n])
  moreover have "filter (offered c n) [2..n - 1] = filter (\<lambda>p. \<bar>p - c\<bar> \<le> 1) [2..n - 1]"
    using assms by (intro filter_cong) (auto simp: offered_def)
  ultimately show ?thesis by (simp add: filter_upto_near offered_def)
qed

lemma buildPageList_gaps: "buildPageList c n = with_gaps (filter (offered c n) [1..n])"
proof (cases "n \<le> 7")
  case True
  then have "filter (offered c n) [1..n] = [1..n]" by (simp add: offered_def)
  moreover have "map (\<lambda>i. PageNo (int i + 1)) [0..<nat n] = map PageNo [1..n]"
    by (simp flip: pages_upto)
  moreover have "with_gaps [1..n] = map PageNo [1..n]" using with_gaps_run [of 1 n "[]"] by simp
  ultimately show ?thesis using True by (simp add: buildPageList_def)
next
  case False
  let ?a = "max 2 (c - 1)" and ?b = "min (n - 1) (c + 1)"
  have one: "with_gaps (1 # ps) = PageNo 1 # (if ps \<noteq> [] \<and> hd ps \<noteq> 2 then [Ellipsis] else []) @ with_gaps ps"
    for ps by (cases ps) auto
  have run: "with_gaps ([?a..?b] @ [n]) =
      map PageNo [?a..?b] @ (if ?a \<le> ?b \<and> n \<noteq> ?b + 1 then [Ellipsis] else []) @ [PageNo n]"
    using with_gaps_run [of ?a ?b "[n]"] by simp
  have start: "hd ([?a..?b] @ [n]) = (if ?a \<le> ?b then ?a else n)"
    by (auto simp: upto_rec1 [of ?a ?b])
  show ?thesis
  proof (cases "?a \<le> ?b")
    case True
    then have "(?a \<noteq> 2) = (c > 3)" "(n \<noteq> ?b + 1) = (c < n - 2)" using False by auto
    then show ?thesis
      using False True by (simp add: buildPageList_def Let_def offered_pages one run start)
  next
    case empty: False
    then have "c > n \<or> c < 1" using False by auto
    then have "(c > 3) \<noteq> (c < n - 2)" using False by auto
    moreover have "?b < ?a" using empty by linarith
    then have "[?a..?b] = []" by (rule upto_empty)
    ultimately show ?thesis
      using False empty by (auto simp add: buildPageList_def Let_def offered_pages one)
  qed
qed

lemma map_upto_shift: "map (\<lambda>p. f (p + 1)) [a..b] = map f [a + 1..b + 1]" for a b :: int
proof -
  have "[a + 1..b + 1] = map (\<lambda>p. p + 1) [a..b]" by (rule nth_equalityI) auto
  then show ?thesis by simp
qed

lemma dash_pages_same: "map dash_button (dash_pages page n) = buildPageList page n"
proof (cases "n \<le> 7")
  case True
  have "map (dash_button \<circ> DashPage) [0..n - 1] = map PageNo [1..n]"
    using map_upto_shift [of PageNo 0 "n - 1"] by (simp add: comp_def)
  moreover have "map (\<lambda>i. PageNo (int i + 1)) [0..<nat n] = map PageNo [1..n]"
    by (simp flip: pages_upto)
  ultimately show ?thesis using True by (simp add: dash_pages_def buildPageList_def)
next
  case False
  have "max 1 (page - 1 - 1) + 1 = max 2 (page - 1)" "min (n - 2) (page - 1 + 1) + 1 = min (n - 1) (page + 1)"
    by auto
  then have "map (dash_button \<circ> DashPage) [max 1 (page - 1 - 1)..min (n - 2) (page - 1 + 1)] =
      map PageNo [max 2 (page - 1)..min (n - 1) (page + 1)]"
    using map_upto_shift [of PageNo "max 1 (page - 1 - 1)" "min (n - 2) (page - 1 + 1)"]
    by (simp add: comp_def)
  then show ?thesis using False by (simp add: dash_pages_def buildPageList_def Let_def comp_def)
qed

lemma set_with_gaps: "PageNo p \<in> set (with_gaps ps) \<longleftrightarrow> p \<in> set ps"
  by (induction ps rule: with_gaps.induct) auto

lemma page_in_list: "PageNo p \<in> set (buildPageList c n) \<longleftrightarrow> 1 \<le> p \<and> p \<le> n \<and> offered c n p"
  by (auto simp: buildPageList_gaps set_with_gaps)

lemma dash_click_same: "dash_click n page e = neo_click n page e"
proof (cases e)
  case (Click i)
  have "length (dash_pages page n) = length (buildPageList page n)"
    using dash_pages_same [of page n] by (metis length_map)
  moreover have "dash_button (dash_pages page n ! i) = buildPageList page n ! i" if "i < length (dash_pages page n)"
    using dash_pages_same [of page n] nth_map [OF that, of dash_button] by simp
  ultimately show ?thesis
    using Click by (cases "dash_pages page n ! i") (auto simp: Let_def split: page_entry.splits)
qed (simp_all add: not_le not_less)

lemma neo_click_stays:
  assumes "1 \<le> page" "page \<le> n"
  shows "1 \<le> neo_click n page e \<and> neo_click n page e \<le> n"
proof (cases e)
  case (Click i)
  show ?thesis
  proof (cases "i < length (buildPageList page n)")
    case True
    show ?thesis
    proof (cases "buildPageList page n ! i")
      case (PageNo p)
      then have "PageNo p \<in> set (buildPageList page n)" using nth_mem [OF True] by simp
      then show ?thesis using Click True PageNo by (simp add: page_in_list)
    qed (use assms Click True in simp)
  qed (use assms Click in simp)
qed (use assms in simp_all)

lemma next_clicks: "page + int k \<le> n \<Longrightarrow> foldl (neo_click n) page (replicate k Next) = page + int k"
  by (induction k arbitrary: page) auto

lemma prev_clicks: "page - int k \<ge> 1 \<Longrightarrow> foldl (neo_click n) page (replicate k Previous) = page - int k"
  by (induction k arbitrary: page) auto

lemma click_reaches:
  assumes "1 \<le> p" "p \<le> n" "offered page n p"
  shows "\<exists>i. neo_click n page (Click i) = p"
proof -
  have "PageNo p \<in> set (buildPageList page n)" using assms by (simp add: page_in_list)
  then obtain i where "i < length (buildPageList page n)" "buildPageList page n ! i = PageNo p"
    by (meson in_set_conv_nth)
  then have "neo_click n page (Click i) = p" by (simp add: Let_def)
  then show ?thesis ..
qed

lemma page_reachable:
  assumes "1 \<le> p" "p \<le> n"
  shows "\<exists>es. length es \<le> Suc (nat (min (p - 1) (n - p))) \<and> foldl (neo_click n) page es = p"
proof (cases "p - 1 \<le> n - p")
  case True
  have "1 \<le> n" using assms by simp
  then obtain i where i: "neo_click n page (Click i) = 1"
    using click_reaches [of 1 n page] by (auto simp: offered_def)
  let ?es = "Click i # replicate (nat (p - 1)) Next"
  have "foldl (neo_click n) page ?es = p" using i assms next_clicks [of 1 "nat (p - 1)" n] by simp
  moreover have "length ?es \<le> Suc (nat (min (p - 1) (n - p)))" using True by simp
  ultimately show ?thesis by blast
next
  case False
  have "1 \<le> n" using assms by simp
  then obtain i where i: "neo_click n page (Click i) = n"
    using click_reaches [of n n page] by (auto simp: offered_def)
  let ?es = "Click i # replicate (nat (n - p)) Previous"
  have "foldl (neo_click n) page ?es = p" using i assms prev_clicks [of n "nat (n - p)" n] by simp
  moreover have "length ?es \<le> Suc (nat (min (p - 1) (n - p)))" using False by simp
  ultimately show ?thesis by blast
qed

lemma totalPages_cover:
  assumes "pageSize > 0" "0 \<le> i" "i < rows"
  shows "1 \<le> i div pageSize + 1 \<and> i div pageSize + 1 \<le> totalPages rows pageSize"
proof -
  have "pageSize * (i div pageSize) \<le> i" using assms mult_div_mod_eq [of pageSize i] pos_mod_sign [of pageSize i] by linarith
  with assms have "i div pageSize * pageSize < rows" by (simp add: mult.commute)
  then have "rat_of_int (i div pageSize) * rat_of_int pageSize < rat_of_int rows"
    by (metis of_int_less_iff of_int_mult)
  then have "rat_of_int (i div pageSize) < rat_of_int rows / rat_of_int pageSize"
    using assms by (simp add: pos_less_divide_eq)
  then have "i div pageSize < \<lceil>rat_of_int rows / rat_of_int pageSize\<rceil>" by (simp add: less_ceiling_iff)
  then show ?thesis using assms by (simp add: totalPages_def pos_imp_zdiv_nonneg_iff)
qed

text \<open>
  C25: the pager. The two themes offer the same buttons, and they are the first page, the last, and
  the current one with its neighbours (all pages up to seven), in order, with an ellipsis exactly
  where pages are left out. On any sequence of clicks both themes go the same way and never leave
  the pages there are; every row of the table stands on one of these pages, and from any page it is
  reached with one click and the steps from the nearer end.
\<close>

theorem pager_reaches_every_row:
  fixes n :: int
  shows "buildPageList page n = with_gaps (filter (offered page n) [1..n]) \<and>
    map dash_button (dash_pages page n) = buildPageList page n \<and>
    (\<forall>es. clicks (dash_click n) page es = clicks (neo_click n) page es \<and>
       (1 \<le> page \<and> page \<le> n \<longrightarrow> 1 \<le> clicks (neo_click n) page es \<and> clicks (neo_click n) page es \<le> n)) \<and>
    (\<forall>i rows pageSize. pageSize > 0 \<and> 0 \<le> i \<and> i < rows \<and> n = totalPages rows pageSize \<longrightarrow>
       (let p = i div pageSize + 1 in
        (p - 1) * pageSize \<le> i \<and> i < p * pageSize \<and>
        (\<exists>es. length es \<le> Suc (nat (min (p - 1) (n - p))) \<and> clicks (neo_click n) page es = p)))"
proof (intro conjI allI impI)
  show "buildPageList page n = with_gaps (filter (offered page n) [1..n])" by (rule buildPageList_gaps)
  show "map dash_button (dash_pages page n) = buildPageList page n" by (rule dash_pages_same)
  fix es
  have "dash_click n = neo_click n" by (intro ext) (rule dash_click_same)
  then show "clicks (dash_click n) page es = clicks (neo_click n) page es" by simp
  assume "1 \<le> page \<and> page \<le> n"
  then have "1 \<le> foldl (neo_click n) page es \<and> foldl (neo_click n) page es \<le> n"
    using neo_click_stays by (induction es arbitrary: page) simp_all
  then show "1 \<le> clicks (neo_click n) page es" "clicks (neo_click n) page es \<le> n"
    by (simp_all add: clicks_def)
next
  fix i rows pageSize :: int
  assume a: "pageSize > 0 \<and> 0 \<le> i \<and> i < rows \<and> n = totalPages rows pageSize"
  have "i div pageSize * pageSize + i mod pageSize = i" by (rule div_mult_mod_eq)
  moreover have "0 \<le> i mod pageSize" "i mod pageSize < pageSize" using a by simp_all
  moreover have "(i div pageSize + 1) * pageSize = i div pageSize * pageSize + pageSize" by algebra
  ultimately have "i div pageSize * pageSize \<le> i" "i < (i div pageSize + 1) * pageSize" by linarith+
  then show "let p = i div pageSize + 1 in (p - 1) * pageSize \<le> i \<and> i < p * pageSize \<and>
      (\<exists>es. length es \<le> Suc (nat (min (p - 1) (n - p))) \<and> clicks (neo_click n) page es = p)"
    using page_reachable [of "i div pageSize + 1" n page] totalPages_cover [of pageSize i rows] a
    by (simp add: Let_def clicks_def)
qed

theorem pager_reaches_every_row_witness:
  "clicks (dash_click 10) 5 [Click 4, Next, Click 0] = clicks (neo_click 10) 5 [Click 4, Next, Click 0] \<and>
   1 \<le> clicks (neo_click 10) 5 [Click 4, Next, Click 0] \<and>
   (\<exists>es. length es \<le> 3 \<and> clicks (neo_click 10) 5 es = 3)"
proof -
  have "totalPages 95 10 = 10" by code_simp
  note all = pager_reaches_every_row [of 5 10]
  have "\<exists>es. length es \<le> Suc (nat (min 2 7)) \<and> clicks (neo_click 10) 5 es = 3"
    using all [THEN conjunct2, THEN conjunct2, THEN conjunct2, rule_format, of 10 25 95] \<open>totalPages 95 10 = 10\<close>
    by (simp add: Let_def)
  moreover have "clicks (dash_click 10) 5 es = clicks (neo_click 10) 5 es \<and> 1 \<le> clicks (neo_click 10) 5 es"
    for es using all [THEN conjunct2, THEN conjunct2, THEN conjunct1, rule_format, of es] by simp
  ultimately show ?thesis by simp
qed

subsection \<open>What a table shows\<close>

text \<open>
  The numbers of a note are printed in the reader's locale; the notes keep the numbers. A field that
  is missing is \<open>None\<close>.
\<close>

record infinite_props =
  hasNextPage :: bool
  isFetchingNextPage :: bool
  known_total :: "int option"
  loaded :: "nat option"
  skeletonRows :: "nat option"

record pagination_props =
  pageIndex :: int
  pageSize :: int
  row_total :: int
  resizable :: bool

record 'row table_props =
  table_rows :: "'row list"
  isLoading :: bool
  infiniteScroll :: "infinite_props option"
  pagination :: "pagination_props option"
  viewMode :: "TableViewMode option"

definition activeMode :: "'row table_props \<Rightarrow> TableViewMode" where
  "activeMode t =
     (case viewMode t of
        Some m \<Rightarrow> m
      | None \<Rightarrow>
          if infiniteScroll t \<noteq> None then InfiniteView
          else if pagination t \<noteq> None then PaginationView else InfiniteView)"

definition showInfinite :: "'row table_props \<Rightarrow> bool" where
  "showInfinite t \<longleftrightarrow> infiniteScroll t \<noteq> None \<and> activeMode t = InfiniteView"

definition showPagination :: "'row table_props \<Rightarrow> bool" where
  "showPagination t \<longleftrightarrow> pagination t \<noteq> None \<and> activeMode t = PaginationView"

definition table_pages :: "'row table_props \<Rightarrow> int" where
  "table_pages t = (case pagination t of Some p \<Rightarrow> totalPages (row_total p) (pageSize p) | None \<Rightarrow> 0)"

definition pageList :: "'row table_props \<Rightarrow> page_entry list" where
  "pageList t = (case pagination t of Some p \<Rightarrow> buildPageList (pageIndex p) (table_pages t) | None \<Rightarrow> [])"

definition has_next :: "'row table_props \<Rightarrow> bool" where
  "has_next t = (case infiniteScroll t of Some s \<Rightarrow> hasNextPage s | None \<Rightarrow> False)"

definition is_fetching_next :: "'row table_props \<Rightarrow> bool" where
  "is_fetching_next t = (case infiniteScroll t of Some s \<Rightarrow> isFetchingNextPage s | None \<Rightarrow> False)"

text \<open>
  The observer stands while there is more to load; each of its entries that shows the end of the
  table asks for more, unless more is on its way.
\<close>

definition observes :: "'row table_props \<Rightarrow> bool" where
  "observes t \<longleftrightarrow> showInfinite t \<and> has_next t"

definition observed :: "'row table_props \<Rightarrow> bool list \<Rightarrow> nat" where
  "observed t entries =
     (if observes t
      then length (filter (\<lambda>isIntersecting. isIntersecting \<and> \<not> is_fetching_next t) entries) else 0)"

datatype 'row table_body = SkeletonRows nat | NoResults | TableRows "'row list" nat

definition table_body :: "'row table_props \<Rightarrow> 'row table_body" where
  "table_body t =
     (if isLoading t \<and> length (table_rows t) = 0 then
        SkeletonRows
          (if showPagination t
           then (case pagination t of Some p \<Rightarrow> nat (pageSize p) | None \<Rightarrow> 10)
           else (case infiniteScroll t of Some s \<Rightarrow> or_else (skeletonRows s) 10 | None \<Rightarrow> 10))
      else if length (table_rows t) = 0 then NoResults
      else TableRows (table_rows t)
        (if showInfinite t \<and> is_fetching_next t
         then (case infiniteScroll t of Some s \<Rightarrow> or_else (skeletonRows s) 5 | None \<Rightarrow> 5) else 0))"

datatype scroll_note = LoadingMore | ScrollForMore | ShowingOf int int | EndOfResults | NoNote

definition scroll_footer :: "'row table_props \<Rightarrow> scroll_note option" where
  "scroll_footer t =
     (case infiniteScroll t of
        Some s \<Rightarrow>
          if \<not> showInfinite t then None
          else Some
            (if has_next t then (if is_fetching_next t then LoadingMore else ScrollForMore)
             else if length (table_rows t) > 0 then
               (case known_total s of
                  Some n \<Rightarrow> ShowingOf (int (or_else (loaded s) (length (table_rows t)))) n
                | None \<Rightarrow> EndOfResults)
             else NoNote)
      | None \<Rightarrow> None)"

record page_footer =
  shown_page :: int
  shown_pages :: int
  shown_total :: int
  size_choices :: "int list"
  page_buttons :: "page_entry list"
  active_page :: int
  previous_dead :: bool
  next_dead :: bool

definition PAGE_SIZE_OPTIONS :: "int list" where "PAGE_SIZE_OPTIONS = [10, 25, 50, 100]"

definition pagination_footer :: "'row table_props \<Rightarrow> page_footer option" where
  "pagination_footer t =
     (case pagination t of
        Some p \<Rightarrow>
          if showPagination t \<and> row_total p > 0
          then Some \<lparr>shown_page = pageIndex p, shown_pages = table_pages t, shown_total = row_total p,
            size_choices = (if resizable p then PAGE_SIZE_OPTIONS else []),
            page_buttons = pageList t, active_page = pageIndex p,
            previous_dead = (pageIndex p \<le> 1), next_dead = (pageIndex p \<ge> table_pages t)\<rparr>
          else None
      | None \<Rightarrow> None)"

text \<open>The table of the Dash theme has its pager beside it.\<close>

definition dash_table_body :: "bool \<Rightarrow> bool \<Rightarrow> nat option \<Rightarrow> 'row list \<Rightarrow> 'row table_body" where
  "dash_table_body isFetching isEmpty skeletons rows =
     (if isFetching \<and> isEmpty then SkeletonRows (or_else skeletons 10)
      else if length rows > 0 then TableRows rows 0
      else NoResults)"

text \<open>
  What the reader is told of a table. It shows one footer at most; it asks for more rows only
  where it scrolls, when the list has more and no request is under way, and then once for each
  entry of the observer that shows its end; while it waits for the first rows it never says that
  there are none, and rows that are there are shown whatever is being loaded. A table that can
  scroll and has no mode set scrolls; and where both ways are offered, the mode decides which.
\<close>

theorem table_shows_one_footer:
  fixes t :: "'row table_props"
  shows "(scroll_footer t = None \<or> pagination_footer t = None) \<and>
    (observed t entries > 0 \<longleftrightarrow>
       True \<in> set entries \<and> scroll_footer t = Some ScrollForMore) \<and>
    observed t entries \<le> length entries \<and>
    (table_rows t \<noteq> [] \<longrightarrow> (\<exists>k. table_body t = TableRows (table_rows t) k \<and>
       (k > 0 \<longrightarrow> scroll_footer t = Some LoadingMore \<or> \<not> has_next t))) \<and>
    (isLoading t \<longrightarrow> table_body t \<noteq> NoResults) \<and>
    (infiniteScroll t \<noteq> None \<and> pagination t \<noteq> None \<longrightarrow>
       (if viewMode t = Some PaginationView then showPagination t \<and> \<not> showInfinite t
        else showInfinite t \<and> \<not> showPagination t))"
proof (intro conjI impI)
  show "scroll_footer t = None \<or> pagination_footer t = None"
    by (auto simp: scroll_footer_def pagination_footer_def showInfinite_def showPagination_def split: option.splits)
  have asks: "(scroll_footer t = Some ScrollForMore) = (observes t \<and> \<not> is_fetching_next t)"
    by (auto simp: scroll_footer_def observes_def showInfinite_def has_next_def split: option.splits)
  show "(observed t entries > 0) = (True \<in> set entries \<and> scroll_footer t = Some ScrollForMore)"
    unfolding asks observed_def by (induction entries) auto
  show "observed t entries \<le> length entries" by (simp add: observed_def)
  show "\<exists>k. table_body t = TableRows (table_rows t) k \<and>
      (k > 0 \<longrightarrow> scroll_footer t = Some LoadingMore \<or> \<not> has_next t)" if "table_rows t \<noteq> []"
    using that by (auto simp: table_body_def scroll_footer_def showInfinite_def split: option.splits)
  show "table_body t \<noteq> NoResults" if "isLoading t" using that by (simp add: table_body_def)
  show "if viewMode t = Some PaginationView then showPagination t \<and> \<not> showInfinite t
      else showInfinite t \<and> \<not> showPagination t" if "infiniteScroll t \<noteq> None \<and> pagination t \<noteq> None"
    using that by (cases "viewMode t"; cases "the (viewMode t)")
      (auto simp: showInfinite_def showPagination_def activeMode_def)
qed

theorem table_shows_one_footer_witness:
  "(\<exists>k. table_body \<lparr>table_rows = [1 :: int], isLoading = False,
      infiniteScroll = Some \<lparr>hasNextPage = True, isFetchingNextPage = True, known_total = None,
        loaded = None, skeletonRows = None\<rparr>, pagination = None, viewMode = None\<rparr> = TableRows [1] k)"
  using table_shows_one_footer [of "\<lparr>table_rows = [1 :: int], isLoading = False,
      infiniteScroll = Some \<lparr>hasNextPage = True, isFetchingNextPage = True, known_total = None,
        loaded = None, skeletonRows = None\<rparr>, pagination = None, viewMode = None\<rparr>" "[True]"] by auto

end
