(* ===== verification/ListPages.thy ===== *)
theory ListPages
  imports Dashboard SupplyCards QueryCache TablePager
begin

text \<open>
  The pages with the list of blocks and the list of transactions,
  \<open>frontend/src/themes/neo/pages/blocks-list.tsx\<close> and \<open>transactions-list.tsx\<close>, with their routes
  \<open>frontend/src/routes/blocks.index.tsx\<close> and \<open>transactions.index.tsx\<close>: the filters in the address bar and the
  controls that change them, what is asked for, the rows, the table they are handed to and the
  numbers above it. The markup, the charts and the links of the cells are not modelled; what a
  number prints as in the reader's locale and the dates of the texts are parameters.
\<close>

section \<open>The address bar\<close>

fun read_limit :: "raw_param option \<Rightarrow> int option" where
  "read_limit (Some (RawNumber q)) = (if q \<in> {10, 25, 50, 100} then Some \<lfloor>q\<rfloor> else None)"
| "read_limit _ = None"

fun read_bool :: "raw_param option \<Rightarrow> bool option" where
  "read_bool (Some (RawBool b)) = Some b"
| "read_bool _ = None"

record page_search =
  se_page :: nat
  se_limit :: int

definition paginationSearchSchema :: "(string \<Rightarrow> raw_param option) \<Rightarrow> page_search" where
  "paginationSearchSchema raw =
     \<lparr>se_page = or_else (read_page (raw ''page'')) 1, se_limit = or_else (read_limit (raw ''limit'')) 10\<rparr>"

record blocks_search = page_search +
  se_superblock :: "bool option"

definition blocksSearchSchema :: "(string \<Rightarrow> raw_param option) \<Rightarrow> blocks_search" where
  "blocksSearchSchema raw =
     page_search.extend (paginationSearchSchema raw)
       (blocks_search.fields (read_bool (raw ''superblock'')))"

definition TRANSACTION_TYPE_VALUES :: "string list" where
  "TRANSACTION_TYPE_VALUES =
     [''CLASSIC'', ''PROVIDER_REGISTRATION'', ''PROVIDER_UPDATE_SERVICE'', ''PROVIDER_UPDATE_REGISTRAR'',
      ''PROVIDER_UPDATE_REVOCATION'', ''COINBASE'', ''QUORUM_COMMITMENT'', ''MASTERNODE_HARD_FORK_SIGNAL'',
      ''ASSET_LOCK'', ''ASSET_UNLOCK'']"

fun read_type :: "raw_param option \<Rightarrow> string option" where
  "read_type (Some (RawText s)) = (if s \<in> set TRANSACTION_TYPE_VALUES then Some s else None)"
| "read_type _ = None"

record transactions_search = page_search +
  se_filters :: tx_filters

definition transactionsSearchSchema :: "(string \<Rightarrow> raw_param option) \<Rightarrow> transactions_search" where
  "transactionsSearchSchema raw =
     page_search.extend (paginationSearchSchema raw)
       (transactions_search.fields
         \<lparr>transactionType = read_type (raw ''transaction_type''), coinjoin = read_bool (raw ''coinjoin''),
          multisig = read_bool (raw ''multisig''),
          blockHeight = map_option int (read_page (raw ''block_height''))\<rparr>)"

text \<open>What the router writes into the address bar for the filters; an undefined one is left out.\<close>

definition raw_filters :: "tx_filters \<Rightarrow> string \<Rightarrow> raw_param option" where
  "raw_filters f name =
     (if name = ''transaction_type'' then map_option RawText (transactionType f)
      else if name = ''coinjoin'' then map_option RawBool (coinjoin f)
      else if name = ''multisig'' then map_option RawBool (multisig f)
      else if name = ''block_height'' then map_option (\<lambda>h. RawNumber (of_int h)) (blockHeight f)
      else None)"

section \<open>The state of a list\<close>

text \<open>
  Both pages keep a search text, the mode of the table with its storage, a page and its size, in
  React's state; only the filters are in the address bar. Events are the calls of the setters.
\<close>

record list_state =
  li_search :: string
  li_view :: "storage \<times> TableViewMode"
  li_page :: int
  li_pageSize :: int

definition INFINITE_PAGE_SIZE :: int where "INFINITE_PAGE_SIZE = 25"
definition PAGINATION_PAGE_SIZE :: int where "PAGINATION_PAGE_SIZE = 25"

text \<open>
  The list is first drawn with the default view, scrolling; the effect of that drawing then brings
  the view that is stored for the table.
\<close>

definition list_initial :: "storage \<Rightarrow> list_state" where
  "list_initial st =
     \<lparr>li_search = '''', li_view = (st, first_view InfiniteView), li_page = 1,
      li_pageSize = PAGINATION_PAGE_SIZE\<rparr>"

definition list_mounted :: "string \<Rightarrow> list_state \<Rightarrow> list_state" where
  "list_mounted key s = s\<lparr>li_view := (fst (li_view s), mount_view (fst (li_view s)) key (snd (li_view s)))\<rparr>"

datatype list_event = SearchTyped string | ViewChosen TableViewMode | PageChosen int | SizeChosen int

fun list_step :: "string \<Rightarrow> list_state \<Rightarrow> list_event \<Rightarrow> list_state" where
  "list_step key s (SearchTyped q) = s\<lparr>li_search := q\<rparr>"
| "list_step key s (ViewChosen m) = s\<lparr>li_view := update_view key m (li_view s)\<rparr>"
| "list_step key s (PageChosen p) = s\<lparr>li_page := p\<rparr>"
| "list_step key s (SizeChosen n) = s\<lparr>li_pageSize := n, li_page := 1\<rparr>"

definition isInfinite :: "list_state \<Rightarrow> bool" where
  "isInfinite s \<longleftrightarrow> snd (li_view s) = InfiniteView"

text \<open>
  The answers that are there. While one is not, the query has no data. A total is a whole
  number; what is not a number arrives as \<open>null\<close> and counts as none.
\<close>

record 'row answers =
  an_infinite :: "'row PaginatedResultSet list option"
  an_isFetching :: bool
  an_isFetchingNextPage :: bool
  an_hasNextPage :: bool
  an_paged :: "'row PaginatedResultSet option"
  an_isPagedFetching :: bool

definition stated_total :: "'row PaginatedResultSet \<Rightarrow> int" where
  "stated_total r = \<lfloor>json_number (pg_total (PaginatedResultSet.pagination r))\<rfloor>"

definition list_rows :: "list_state \<Rightarrow> 'row answers \<Rightarrow> 'row list" where
  "list_rows s a =
     (if isInfinite s
      then (case an_infinite a of Some pages \<Rightarrow> concat (map resultSet pages) | None \<Rightarrow> [])
      else (case an_paged a of Some r \<Rightarrow> resultSet r | None \<Rightarrow> []))"

definition list_total :: "list_state \<Rightarrow> 'row answers \<Rightarrow> int" where
  "list_total s a =
     (if isInfinite s
      then (case an_infinite a of Some (r # _) \<Rightarrow> stated_total r | _ \<Rightarrow> 0)
      else (case an_paged a of Some r \<Rightarrow> stated_total r | None \<Rightarrow> 0))"

text \<open>The table that both pages make of this; \<open>matches\<close> is the page's own search in a row.\<close>

definition searched :: "(string \<Rightarrow> 'row \<Rightarrow> bool) \<Rightarrow> string \<Rightarrow> 'row list \<Rightarrow> 'row list" where
  "searched matches search rows =
     (if search = [] then rows else filter (matches (js_lower search)) rows)"

definition list_table :: "(string \<Rightarrow> 'row \<Rightarrow> bool) \<Rightarrow> list_state \<Rightarrow> 'row answers \<Rightarrow> 'row table_props" where
  "list_table matches s a =
     \<lparr>table_rows = searched matches (li_search s) (list_rows s a),
      isLoading = ((if isInfinite s then an_isFetching a else an_isPagedFetching a) \<and> list_rows s a = []),
      infiniteScroll = Some \<lparr>hasNextPage = an_hasNextPage a, isFetchingNextPage = an_isFetchingNextPage a,
        known_total = Some (list_total s a), loaded = Some (length (list_rows s a)), skeletonRows = Some 5\<rparr>,
      table_props.pagination = Some \<lparr>pageIndex = li_page s, pageSize = li_pageSize s,
        row_total = list_total s a, resizable = True\<rparr>,
      viewMode = Some (snd (li_view s))\<rparr>"

definition block_matches :: "string \<Rightarrow> ApiBlock \<Rightarrow> bool" where
  "block_matches q b \<longleftrightarrow> js_includes (js_lower (ab_hash b)) q \<or> js_includes (dec_int (ab_height b)) q"

definition tx_matches :: "string \<Rightarrow> 'p ApiTransaction \<Rightarrow> bool" where
  "tx_matches q t \<longleftrightarrow> js_includes (js_lower (at_hash t)) q \<or>
     js_includes (dec_int (at_blockHeight t)) q \<or> js_includes (js_lower (at_blockHash t)) q"

section \<open>The page of the blocks\<close>

record blocks_page =
  bp_list :: list_state
  bp_superblock :: "bool option"

datatype blocks_event = BlocksList list_event | ToggleSuperblocks | ClearSuperblocks

fun blocks_step :: "blocks_page \<Rightarrow> blocks_event \<Rightarrow> blocks_page" where
  "blocks_step s (BlocksList e) = s\<lparr>bp_list := list_step ''blocks'' (bp_list s) e\<rparr>"
| "blocks_step s ToggleSuperblocks =
     s\<lparr>bp_superblock := (if bp_superblock s = Some True then None else Some True)\<rparr>"
| "blocks_step s ClearSuperblocks = s\<lparr>bp_superblock := None\<rparr>"

definition blocks_infinite_query :: "network \<Rightarrow> blocks_page \<Rightarrow> 'b query_options" where
  "blocks_infinite_query n s =
     (blocksInfiniteQueryOptions n (Some INFINITE_PAGE_SIZE) (Some ''desc'') (js_of_option (bp_superblock s)))
       \<lparr>enabled := isInfinite (bp_list s)\<rparr>"

definition blocks_paged_query :: "network \<Rightarrow> blocks_page \<Rightarrow> 'b query_options" where
  "blocks_paged_query n s =
     (blocksQueryOptions n \<lparr>page_no = Some (li_page (bp_list s)), page_limit = Some (li_pageSize (bp_list s)),
        page_order = Some ''desc''\<rparr> (js_of_option (bp_superblock s)))
       \<lparr>enabled := \<not> isInfinite (bp_list s)\<rparr>"

definition blocks_loader :: "network \<Rightarrow> blocks_search \<Rightarrow> 'b query_options" where
  "blocks_loader n se =
     blocksInfiniteQueryOptions n (Some 25) (Some ''desc'')
       (case se_superblock se of Some b \<Rightarrow> J b | None \<Rightarrow> JUndef)"

definition blocks_table :: "blocks_page \<Rightarrow> ApiBlock answers \<Rightarrow> ApiBlock table_props" where
  "blocks_table s = list_table block_matches (bp_list s)"

text \<open>The numbers above the table; they are of the rows that are there, whatever the search text.\<close>

fun num_minus :: "jsnum \<Rightarrow> jsnum \<Rightarrow> jsnum" where
  "num_minus a b = num_add a (num_neg b)"

fun num_abs :: "jsnum \<Rightarrow> jsnum" where
  "num_abs (Fin q) = Fin \<bar>q\<bar>"
| "num_abs NegInf = PosInf"
| "num_abs x = x"

definition get_time :: "(string \<Rightarrow> date) \<Rightarrow> string \<Rightarrow> jsnum" where
  "get_time parse s = (case parse s of Some ms \<Rightarrow> Fin (of_int ms) | None \<Rightarrow> NaN)"

definition block_diffs :: "(string \<Rightarrow> date) \<Rightarrow> ApiBlock list \<Rightarrow> jsnum list" where
  "block_diffs parse blocks =
     (let times = map (\<lambda>b. get_time parse (ab_timestamp b)) blocks
      in map (\<lambda>i. num_abs (num_minus (times ! i) (times ! Suc i))) [0..<length times - 1])"

definition blocks_stats :: "(string \<Rightarrow> date) \<Rightarrow> ApiBlock list \<Rightarrow> int option \<times> jsnum option" where
  "blocks_stats parse blocks =
     ((case blocks of [] \<Rightarrow> None | b # _ \<Rightarrow> Some (ab_height b)),
      (if length blocks \<ge> 2
       then (let diffs = block_diffs parse blocks
             in Some (num_scale (1 / 1000) (num_scale (1 / of_nat (length diffs)) (num_sum diffs))))
       else None))"

definition block_time_text :: "jsnum option \<Rightarrow> int option \<Rightarrow> string option" where
  "block_time_text avgBlockTime chainTime =
     (case avgBlockTime of
        Some (Fin q) \<Rightarrow> Some (to_fixed 0 q @ ''s'')
      | Some NaN \<Rightarrow> Some ''NaNs''
      | Some PosInf \<Rightarrow> Some ''Infinitys''
      | Some NegInf \<Rightarrow> Some ''-Infinitys''
      | None \<Rightarrow> map_option (\<lambda>ms. to_fixed 0 (of_int ms / 1000) @ ''s'') chainTime)"

definition total_text :: "(rat \<Rightarrow> string) \<Rightarrow> int \<Rightarrow> string option" where
  "total_text toLocaleString n = (if n > 0 then Some (formatCompact toLocaleString (of_int n)) else None)"

definition size_chart :: "ApiBlock list \<Rightarrow> (int \<times> rat) list" where
  "size_chart blocks =
     map (\<lambda>b. (ab_height b, of_int (ab_size b) / 1024)) (js_sort (\<lambda>a b. ab_height a - ab_height b) blocks)"

definition tx_chart :: "(string \<Rightarrow> date) \<Rightarrow> (string \<times> rat js) list option \<Rightarrow> (jsnum \<times> rat) list" where
  "tx_chart parse stats =
     map (\<lambda>p. (get_time parse (fst p), coalesce (snd p) 0)) (or_else stats [])"

definition mean_text :: "('x \<times> rat) list \<Rightarrow> string option" where
  "mean_text points =
     (if length points > 0
      then Some (to_fixed 2 (foldl (\<lambda>s p. s + snd p) 0 points / of_nat (length points))) else None)"

record block_cells =
  bc_height :: int
  bc_superblock :: bool
  bc_to :: string
  bc_txCount :: int
  bc_size :: string
  bc_difficulty :: string
  bc_age :: string

definition block_cells_of :: "(string \<Rightarrow> date) \<Rightarrow> int \<Rightarrow> ApiBlock \<Rightarrow> block_cells" where
  "block_cells_of parse now b =
     \<lparr>bc_height = ab_height b, bc_superblock = (ab_superblock b = J True), bc_to = ''/blocks/'' @ ab_hash b,
      bc_txCount = ab_txCount b, bc_size = to_fixed 2 (of_int (ab_size b) / 1024) @ '' KB'',
      bc_difficulty = to_fixed 4 (ab_difficulty b),
      bc_age = formatRelativeTime parse now (MomentText (ab_timestamp b))\<rparr>"

subsection \<open>The list over the API\<close>

text \<open>
  What has arrived when nothing is under way: the page asked for, and in the other mode what
  scrolling \<open>n\<close> times has loaded. A block of the API becomes a block of the browser by whatever
  reading of its JSON.
\<close>

definition decoded :: "('a \<Rightarrow> 'row) \<Rightarrow> 'a PaginatedResultSet \<Rightarrow> 'row PaginatedResultSet" where
  "decoded read r = \<lparr>resultSet = map read (resultSet r), PaginatedResultSet.pagination = PaginatedResultSet.pagination r\<rparr>"

definition blocks_answers :: "(Block \<Rightarrow> ApiBlock) \<Rightarrow> db \<Rightarrow> nat \<Rightarrow> blocks_page \<Rightarrow> ApiBlock answers" where
  "blocks_answers read d n s =
     (let sb = js_of_option (bp_superblock s);
          pages = scroll (block_pages d 25 (J ''desc'') sb) (Suc n) 1
      in \<lparr>an_infinite = Some (map (decoded read) pages), an_isFetching = False, an_isFetchingNextPage = False,
          an_hasNextPage = (getNextPageParam (last pages) \<noteq> None),
          an_paged = Some (decoded read (block_pages d (nat (li_pageSize (bp_list s))) (J ''desc'') sb
            (li_page (bp_list s)))),
          an_isPagedFetching = False\<rparr>)"

text \<open>What the table offers to its reader.\<close>

fun offers :: "'row table_props \<Rightarrow> list_event \<Rightarrow> bool" where
  "offers t (SearchTyped q) = True"
| "offers t (ViewChosen m) = True"
| "offers t (PageChosen p) =
     (case pagination_footer t of
        Some f \<Rightarrow> PageNo p \<in> set (page_buttons f) \<or>
          (p = active_page f - 1 \<and> \<not> previous_dead f) \<or> (p = active_page f + 1 \<and> \<not> next_dead f)
      | None \<Rightarrow> False)"
| "offers t (SizeChosen n) =
     (case pagination_footer t of Some f \<Rightarrow> n \<in> set (size_choices f) | None \<Rightarrow> False)"

text \<open>
  A reader's way over the page: the controls of the table are those that it offers over one of the
  answers the page may have got by then.
\<close>

inductive blocks_walk ::
  "(blocks_page \<Rightarrow> ApiBlock answers \<Rightarrow> bool) \<Rightarrow> blocks_page \<Rightarrow> blocks_event list \<Rightarrow> blocks_page \<Rightarrow> bool"
  for may_get where
  walk_nil: "blocks_walk may_get s [] s"
| walk_list: "blocks_walk may_get s es s' \<Longrightarrow> may_get s' a \<Longrightarrow> offers (blocks_table s' a) e \<Longrightarrow>
     blocks_walk may_get s (es @ [BlocksList e]) (blocks_step s' (BlocksList e))"
| walk_filter: "blocks_walk may_get s es s' \<Longrightarrow> e \<in> {ToggleSuperblocks, ClearSuperblocks} \<Longrightarrow>
     blocks_walk may_get s (es @ [e]) (blocks_step s' e)"

text \<open>The database may change on the way; what has arrived then is of one of its states.\<close>

definition answers_from ::
  "(Block \<Rightarrow> ApiBlock) \<Rightarrow> db set \<Rightarrow> blocks_page \<Rightarrow> ApiBlock answers \<Rightarrow> bool" where
  "answers_from read D s a \<longleftrightarrow> (\<exists>d \<in> D. \<exists>n. a = blocks_answers read d n s)"

lemma block_pages_of:
  assumes "1 \<le> p"
  shows "resultSet (block_pages d k order sb (int p)) = page_of p k (all_blocks d order sb)"
    and "PaginatedResultSet.pagination (block_pages d k order sb (int p)) =
      \<lparr>pg_page = int p, pg_limit = Fin (of_nat k),
       pg_total = (if page_of p k (all_blocks d order sb) = [] then Fin (- 1)
         else js_Number (J (bigint (block_total d sb))))\<rparr>"
  using assms
  by (auto simp: block_pages_def getBlocks_page all_blocks_def new_PaginatedResultSet_def Let_def
      page_of_map block_total_def)

lemma blocks_list_settled:
  assumes "\<not> isInfinite (bp_list s)" "li_page (bp_list s) = int p" "1 \<le> p"
    "li_pageSize (bp_list s) = int k"
    "0 \<le> block_total d (js_of_option (bp_superblock s))"
    "of_int (block_total d (js_of_option (bp_superblock s))) < double_limit"
  defines "rows \<equiv> page_of p k (all_blocks d (J ''desc'') (js_of_option (bp_superblock s)))"
  shows "list_rows (bp_list s) (blocks_answers read d n s) = map read rows"
    and "list_total (bp_list s) (blocks_answers read d n s) =
      (if rows = [] then - 1 else block_total d (js_of_option (bp_superblock s)))"
proof -
  have minus: "\<lfloor>- 1 :: rat\<rfloor> = - 1" by (simp add: floor_eq_iff)
  show "list_rows (bp_list s) (blocks_answers read d n s) = map read rows"
    using assms by (simp add: list_rows_def blocks_answers_def Let_def decoded_def block_pages_of)
  show "list_total (bp_list s) (blocks_answers read d n s) =
      (if rows = [] then - 1 else block_total d (js_of_option (bp_superblock s)))"
    using assms minus
    by (simp add: list_total_def blocks_answers_def Let_def decoded_def stated_total_def block_pages_of
        js_Number_int del: js_Number.simps)
qed

definition stranded :: "'row table_props \<Rightarrow> bool" where
  "stranded t \<longleftrightarrow> table_body t = NoResults \<and> pagination_footer t = None"

lemma empty_page_strands:
  assumes "\<not> isInfinite s" "list_rows s a = []" "list_total s a \<le> 0" "\<not> an_isPagedFetching a"
  shows "stranded (list_table matches s a)"
  using assms
  by (cases "snd (li_view s)")
    (simp_all add: stranded_def table_body_def pagination_footer_def list_table_def searched_def isInfinite_def)

text \<open>A page that is empty in every state of the database, with a total that is a number.\<close>

definition empty_in :: "db set \<Rightarrow> nat \<Rightarrow> nat \<Rightarrow> bool option \<Rightarrow> bool" where
  "empty_in D p k sb \<longleftrightarrow>
     (\<forall>d \<in> D. page_of p k (all_blocks d (J ''desc'') (js_of_option sb)) = [] \<and>
        0 \<le> block_total d (js_of_option sb) \<and> of_int (block_total d (js_of_option sb)) < double_limit)"

lemma empty_strands:
  assumes "d \<in> D" "empty_in D p k (bp_superblock s)"
    "\<not> isInfinite (bp_list s)" "li_page (bp_list s) = int p" "1 \<le> p" "li_pageSize (bp_list s) = int k"
  shows "stranded (blocks_table s (blocks_answers read d n s))"
  using blocks_list_settled [of s p k d read n] assms
  by (auto simp: empty_in_def blocks_table_def blocks_answers_def Let_def intro!: empty_page_strands)

lemma stays_stranded:
  assumes "blocks_walk (answers_from read D) s es s'"
    "\<not> isInfinite (bp_list s)" "li_page (bp_list s) = int p" "1 \<le> p" "li_pageSize (bp_list s) = int k"
    "empty_in D p k (bp_superblock s)"
    "\<forall>e \<in> set es. \<exists>l. e = BlocksList l \<and> (\<forall>m. l \<noteq> ViewChosen m)"
  shows "li_page (bp_list s') = int p \<and> li_pageSize (bp_list s') = int k \<and>
    bp_superblock s' = bp_superblock s \<and> \<not> isInfinite (bp_list s')"
  using assms
proof (induction rule: blocks_walk.induct)
  case (walk_list s es s' a e)
  then have IH: "li_page (bp_list s') = int p" "li_pageSize (bp_list s') = int k"
    "bp_superblock s' = bp_superblock s" "\<not> isInfinite (bp_list s')" by auto
  obtain d n where d: "d \<in> D" "a = blocks_answers read d n s'"
    using walk_list.hyps(2) by (auto simp: answers_from_def)
  have "stranded (blocks_table s' a)"
    unfolding d(2) using walk_list.prems IH by (intro empty_strands [OF d(1)]) simp_all
  with walk_list.hyps(3) walk_list.prems(6) obtain q where "e = SearchTyped q"
    by (cases e) (auto simp: stranded_def)
  then show ?case using IH by (simp add: isInfinite_def)
qed auto

lemma filled_page_footer:
  assumes "\<not> isInfinite s" "list_rows s a = rows" "rows \<noteq> []" "\<not> an_isPagedFetching a"
  shows "table_body (list_table matches s a) =
      (if searched matches (li_search s) rows = [] then NoResults
       else TableRows (searched matches (li_search s) rows) 0)"
    and "pagination_footer (list_table matches s a) = None \<longleftrightarrow> list_total s a \<le> 0"
    and "pagination_footer (list_table matches s a) = Some f \<Longrightarrow>
      shown_page f = li_page s \<and> shown_pages f = totalPages (list_total s a) (li_pageSize s) \<and>
      shown_total f = list_total s a"
  using assms
  by (cases "snd (li_view s)";
      auto simp: table_body_def pagination_footer_def list_table_def isInfinite_def
        showPagination_def showInfinite_def activeMode_def table_pages_def split: if_splits)+

text \<open>
  C13: the list of the blocks under its pager, over the API, whatever the search text, where the
  stated total is a number. A page with rows shows those of exactly that page of the filtered chain
  that hold the search text, and the footer tells the number of the page and the total of the
  reply: with the filter for superblocks the number of the superblocks, without it the estimate that the
  database keeps for the table. But choosing the filter keeps the number of the page, and on a page
  behind the end of the filtered blocks the table says that there are no results and has no
  footer: as long as that page stays empty, even if blocks arrive meanwhile, no search text nor anything else
  that the table offers leads away from it, only the filter or the other view of the table does.
\<close>

theorem filter_can_strand_the_reader:
  fixes d :: db and D :: "db set" and s :: blocks_page and p k n :: nat and read :: "Block \<Rightarrow> ApiBlock"
  assumes "\<not> isInfinite (bp_list s)" "li_page (bp_list s) = int p" "1 \<le> p" "li_pageSize (bp_list s) = int k"
    "0 \<le> block_total d (js_of_option (bp_superblock s))"
    "of_int (block_total d (js_of_option (bp_superblock s))) < double_limit"
  defines "shown \<equiv> page_of p k (all_blocks d (J ''desc'') (js_of_option (bp_superblock s)))"
    and "table \<equiv> \<lambda>d s. blocks_table s (blocks_answers read d n s)"
    and "stated \<equiv> if bp_superblock s = Some True then int (length (filter b_superblock (db_blocks d)))
                   else db_reltuples d ''blocks''"
  shows "(shown \<noteq> [] \<longrightarrow>
      table_body (table d s) =
        (let hits = searched block_matches (li_search (bp_list s)) (map read shown)
         in if hits = [] then NoResults else TableRows hits 0) \<and>
      (pagination_footer (table d s) = None \<longleftrightarrow> stated = 0) \<and>
      (\<forall>f. pagination_footer (table d s) = Some f \<longrightarrow> shown_page f = int p \<and> shown_total f = stated)) \<and>
    (\<forall>e. li_page (bp_list (blocks_step s e)) = int p \<or> (\<exists>l. e = BlocksList l)) \<and>
    (empty_in D p k (bp_superblock s) \<longrightarrow>
      (\<forall>es s'. blocks_walk (answers_from read D) s es s' \<and>
          (\<forall>e \<in> set es. \<exists>l. e = BlocksList l \<and> (\<forall>m. l \<noteq> ViewChosen m)) \<longrightarrow>
        li_page (bp_list s') = int p \<and> (\<forall>d' \<in> D. stranded (table d' s'))))"
proof (intro conjI impI allI)
  have stated: "block_total d (js_of_option (bp_superblock s)) = stated"
    by (cases "bp_superblock s") (simp_all add: stated_def block_total_def)
  note settled = blocks_list_settled [OF assms(1-6), of read n, folded shown_def, unfolded stated]
  { assume ne: "shown \<noteq> []"
    note filled = filled_page_footer [OF assms(1) settled(1), of block_matches, folded blocks_table_def]
    have nf: "\<not> an_isPagedFetching (blocks_answers read d n s)" by (simp add: blocks_answers_def Let_def)
    have ne': "map read shown \<noteq> []" using ne by simp
    show "table_body (table d s) =
        (let hits = searched block_matches (li_search (bp_list s)) (map read shown)
         in if hits = [] then NoResults else TableRows hits 0)"
      using filled(1) [OF ne' nf] by (simp add: table_def Let_def)
    show "pagination_footer (table d s) = None \<longleftrightarrow> stated = 0"
      using filled(2) [OF ne' nf] settled(2) ne assms(5) stated by (auto simp: table_def)
    fix f assume f: "pagination_footer (table d s) = Some f"
    show "shown_page f = int p" "shown_total f = stated"
      using filled(3) [OF ne' nf, of f] f settled(2) ne assms(2) by (simp_all add: table_def) }
  fix e :: blocks_event
  show "li_page (bp_list (blocks_step s e)) = int p \<or> (\<exists>l. e = BlocksList l)"
    using assms(2) by (cases e) auto
next
  fix es s'
  assume empty: "empty_in D p k (bp_superblock s)" and walk: "blocks_walk (answers_from read D) s es s' \<and>
        (\<forall>e \<in> set es. \<exists>l. e = BlocksList l \<and> (\<forall>m. l \<noteq> ViewChosen m))"
  note stuck = stays_stranded [OF walk [THEN conjunct1] assms(1-4) empty walk [THEN conjunct2]]
  show "li_page (bp_list s') = int p" using stuck by simp
  show "\<forall>d' \<in> D. stranded (table d' s')"
    unfolding table_def using stuck empty assms(3) by (intro ballI empty_strands [of _ D p k]) simp_all
qed

definition sample_blocks_page :: blocks_page where
  "sample_blocks_page =
     \<lparr>bp_list = \<lparr>li_search = '''', li_view = (\<lparr>has_window = False, readable = False, writable = False,
        items = []\<rparr>, PaginationView), li_page = 2, li_pageSize = 2\<rparr>, bp_superblock = None\<rparr>"

text \<open>The sample database, also with one more block that is no superblock.\<close>

definition grown_db :: db where
  "grown_db = sample_db\<lparr>db_blocks := sample_block 99 90000000 False # db_blocks sample_db\<rparr>"

theorem filter_can_strand_the_reader_witness:
  "\<forall>read. table_body (blocks_table sample_blocks_page (blocks_answers read sample_db 1 sample_blocks_page)) \<noteq> NoResults \<and>
    stranded (blocks_table (blocks_step sample_blocks_page ToggleSuperblocks)
      (blocks_answers read grown_db 1 (blocks_step sample_blocks_page ToggleSuperblocks)))"
proof
  fix read
  let ?s = "blocks_step sample_blocks_page ToggleSuperblocks"
  have page: "page_of 2 2 xs = [] \<longleftrightarrow> length xs \<le> 2" for xs :: "Block list" by (simp add: page_of_def)
  have three: "length (all_blocks sample_db (J ''desc'') JNull) = 3" "block_total sample_db JNull = 3"
    by (simp_all add: all_blocks_def superblock_filter_def when_given_def block_total_def sample_db_def)
  have one: "length (all_blocks sample_db (J ''desc'') (J True)) = 1" "block_total sample_db (J True) = 1"
    "length (all_blocks grown_db (J ''desc'') (J True)) = 1" "block_total grown_db (J True) = 1"
    by (simp_all add: all_blocks_def superblock_filter_def when_given_def block_total_def sample_db_def
        sample_block_def grown_db_def)
  have first: "page_of 2 2 (all_blocks sample_db (J ''desc'') JNull) \<noteq> []" using three by (simp add: page)
  have second: "empty_in {sample_db, grown_db} 2 2 (Some True)"
    using one below_double_limit [of 1] by (simp add: empty_in_def page)
  have "table_body (blocks_table sample_blocks_page (blocks_answers read sample_db 1 sample_blocks_page)) \<noteq> NoResults"
    using filter_can_strand_the_reader [of sample_blocks_page 2 2 sample_db read 1 "{}"] first three
      below_double_limit [of 3]
    by (simp add: sample_blocks_page_def isInfinite_def searched_def)
  moreover have "stranded (blocks_table ?s (blocks_answers read grown_db 1 ?s))"
    using filter_can_strand_the_reader [of ?s 2 2 sample_db read 1 "{sample_db, grown_db}", THEN conjunct2, THEN conjunct2]
      second one below_double_limit [of 1] walk_nil [of "answers_from read {sample_db, grown_db}" ?s]
    by (force simp: sample_blocks_page_def isInfinite_def)
  ultimately show "table_body (blocks_table sample_blocks_page (blocks_answers read sample_db 1 sample_blocks_page)) \<noteq> NoResults \<and>
    stranded (blocks_table ?s (blocks_answers read grown_db 1 ?s))" by blast
qed

section \<open>The page of the transactions\<close>

definition TX_TYPE_OPTIONS :: "(string \<times> string) list" where
  "TX_TYPE_OPTIONS =
     [(''CLASSIC'', ''Classic''), (''PROVIDER_REGISTRATION'', ''Provider Register''),
      (''PROVIDER_UPDATE_SERVICE'', ''Provider Update Service''),
      (''PROVIDER_UPDATE_REGISTRAR'', ''Provider Update Registrar''),
      (''PROVIDER_UPDATE_REVOCATION'', ''Provider Revocation''), (''COINBASE'', ''Coinbase''),
      (''QUORUM_COMMITMENT'', ''Quorum Commitment''),
      (''MASTERNODE_HARD_FORK_SIGNAL'', ''MN Hard Fork Signal''), (''ASSET_LOCK'', ''Asset Lock''),
      (''ASSET_UNLOCK'', ''Asset Unlock'')]"

definition TX_TYPE_NONE :: string where "TX_TYPE_NONE = ''__none__''"

record tx_page =
  tp_list :: list_state
  tp_filters :: tx_filters
  tp_blockInput :: string

definition tx_page_opened :: "storage \<Rightarrow> tx_filters \<Rightarrow> tx_page" where
  "tx_page_opened st f =
     \<lparr>tp_list = list_initial st, tp_filters = f,
      tp_blockInput = (case blockHeight f of Some h \<Rightarrow> dec_int h | None \<Rightarrow> '''')\<rparr>"

definition tx_mounted :: "tx_page \<Rightarrow> tx_page" where
  "tx_mounted s = s\<lparr>tp_list := list_mounted ''transactions'' (tp_list s)\<rparr>"

definition no_filters :: tx_filters where
  "no_filters = \<lparr>transactionType = None, coinjoin = None, multisig = None, blockHeight = None\<rparr>"

definition hasFilters :: "tx_filters \<Rightarrow> bool" where
  "hasFilters f \<longleftrightarrow> transactionType f \<noteq> None \<or> coinjoin f \<noteq> None \<or> multisig f \<noteq> None \<or> blockHeight f \<noteq> None"

datatype tx_event =
    TxList list_event
  | TypeChosen string
  | CoinjoinPressed
  | MultisigPressed
  | BlockTyped string
  | BlockSubmitted
  | FiltersCleared

definition submit_block :: "string \<Rightarrow> tx_filters \<Rightarrow> tx_filters" where
  "submit_block blockInput f =
     (let v = js_trim blockInput in
      if v = [] then f\<lparr>blockHeight := None\<rparr>
      else case js_number v of
          Fin n \<Rightarrow> if of_int \<lfloor>n\<rfloor> = n \<and> n > 0 then f\<lparr>blockHeight := Some \<lfloor>n\<rfloor>\<rparr> else f
        | _ \<Rightarrow> f)"

text \<open>
  The filters are kept in the address bar. Setting them is a navigation, for which the router reads the
  new address by the schema of the route.
\<close>

definition set_filters :: "tx_filters \<Rightarrow> tx_page \<Rightarrow> tx_page" where
  "set_filters f s = s\<lparr>tp_filters := se_filters (transactionsSearchSchema (raw_filters f))\<rparr>"

fun tx_step :: "tx_page \<Rightarrow> tx_event \<Rightarrow> tx_page" where
  "tx_step s (TxList e) = s\<lparr>tp_list := list_step ''transactions'' (tp_list s) e\<rparr>"
| "tx_step s (TypeChosen v) =
     set_filters ((tp_filters s)\<lparr>transactionType := (if v = TX_TYPE_NONE then None else Some v)\<rparr>) s"
| "tx_step s CoinjoinPressed =
     set_filters ((tp_filters s)\<lparr>coinjoin := (if coinjoin (tp_filters s) = Some True then None else Some True)\<rparr>) s"
| "tx_step s MultisigPressed =
     set_filters ((tp_filters s)\<lparr>multisig := (if multisig (tp_filters s) = Some True then None else Some True)\<rparr>) s"
| "tx_step s (BlockTyped q) = s\<lparr>tp_blockInput := q\<rparr>"
| "tx_step s BlockSubmitted = set_filters (submit_block (tp_blockInput s) (tp_filters s)) s"
| "tx_step s FiltersCleared = set_filters no_filters (s\<lparr>tp_blockInput := ''''\<rparr>)"

text \<open>The select offers its options and no other value; the button for clearing stands while there is a filter.\<close>

fun tx_offered :: "tx_page \<Rightarrow> tx_event \<Rightarrow> bool" where
  "tx_offered s (TypeChosen v) \<longleftrightarrow> v = TX_TYPE_NONE \<or> v \<in> fst ` set TX_TYPE_OPTIONS"
| "tx_offered s FiltersCleared \<longleftrightarrow> hasFilters (tp_filters s)"
| "tx_offered s _ \<longleftrightarrow> True"

inductive tx_walk :: "tx_page \<Rightarrow> tx_event list \<Rightarrow> tx_page \<Rightarrow> bool" where
  tx_nil: "tx_walk s [] s"
| tx_snoc: "tx_walk s es s' \<Longrightarrow> tx_offered s' e \<Longrightarrow> tx_walk s (es @ [e]) (tx_step s' e)"

definition tx_infinite_query :: "network \<Rightarrow> tx_page \<Rightarrow> 'b query_options" where
  "tx_infinite_query n s =
     (transactionsInfiniteQueryOptions n (Some INFINITE_PAGE_SIZE) (Some ''desc'') (tp_filters s))
       \<lparr>enabled := isInfinite (tp_list s)\<rparr>"

definition tx_paged_query :: "network \<Rightarrow> tx_page \<Rightarrow> 'b query_options" where
  "tx_paged_query n s =
     (transactionsQueryOptions n \<lparr>page_no = Some (li_page (tp_list s)), page_limit = Some (li_pageSize (tp_list s)),
        page_order = Some ''desc''\<rparr> (tp_filters s))
       \<lparr>enabled := \<not> isInfinite (tp_list s)\<rparr>"

definition transactions_loader :: "network \<Rightarrow> transactions_search \<Rightarrow> 'b query_options" where
  "transactions_loader n se = transactionsInfiniteQueryOptions n (Some 25) (Some ''desc'') (se_filters se)"

definition tx_table :: "tx_page \<Rightarrow> 'p ApiTransaction answers \<Rightarrow> 'p ApiTransaction table_props" where
  "tx_table s = list_table tx_matches (tp_list s)"

text \<open>The numbers above the table, from the chart of the last thirty days. Its dates are valid.\<close>

record tx_stats =
  count30d :: "int option"
  tps :: "rat option"
  change30d :: "rat option"

definition tx_stats_of :: "(string \<Rightarrow> int) \<Rightarrow> (string \<times> int) list option \<Rightarrow> tx_stats" where
  "tx_stats_of getTime txStats =
     (case txStats of
        None \<Rightarrow> \<lparr>count30d = None, tps = None, change30d = None\<rparr>
      | Some entries \<Rightarrow>
          if entries = [] then \<lparr>count30d = None, tps = None, change30d = None\<rparr>
          else let
              by_time = js_sort (\<lambda>a b. getTime (fst a) - getTime (fst b)) entries;
              total30d = foldl (\<lambda>s e. s + snd e) 0 by_time;
              half = int (length by_time) div 2;
              firstHalf = foldl (\<lambda>s e. s + snd e) 0 (js_slice by_time 0 half);
              secondHalf = foldl (\<lambda>s e. s + snd e) 0 (js_slice by_time half (int (length by_time)));
              firstTs = getTime (fst (by_time ! 0));
              lastTs = getTime (fst (by_time ! (length by_time - 1)));
              spanSeconds = rat_of_int (lastTs - firstTs) / 1000
            in \<lparr>count30d = Some total30d,
                tps = (if spanSeconds > 0 then Some (of_int total30d / spanSeconds) else None),
                change30d = (if firstHalf > 0
                  then Some (of_int (secondHalf - firstHalf) / of_int firstHalf * 100) else None)\<rparr>)"

definition mempoolCount :: "int option \<Rightarrow> int" where
  "mempoolCount rawMempoolTotal = (case rawMempoolTotal of Some n \<Rightarrow> if n \<ge> 0 then n else 0 | None \<Rightarrow> 0)"

definition change_badge :: "rat \<Rightarrow> bool \<times> string" where
  "change_badge c = (c \<ge> 0, (if c \<ge> 0 then ''+'' else '''') @ to_fixed 2 c @ ''%'')"

definition tps_text :: "rat option \<Rightarrow> rat option \<Rightarrow> string option" where
  "tps_text transactionsPerSecond own =
     (case transactionsPerSecond of Some q \<Rightarrow> Some (to_fixed 2 q) | None \<Rightarrow> map_option (to_fixed 2) own)"

definition per_minute_text :: "rat option \<Rightarrow> string" where
  "per_minute_text transactionsPerMinute =
     (case transactionsPerMinute of Some q \<Rightarrow> to_fixed 1 q @ '' /min'' | None \<Rightarrow> ''Per second'')"

record tx_cells =
  tc_to :: string
  tc_type :: "string option"
  tc_lock :: "lock_field option"
  tc_inputs :: "nat \<times> string"
  tc_outputs :: "nat \<times> string"
  tc_block :: "string \<times> string"
  tc_confirmations :: int
  tc_amount :: string
  tc_age :: "string option"

definition tx_cells_of :: "(string \<Rightarrow> date) \<Rightarrow> int \<Rightarrow> 'p ApiTransaction \<Rightarrow> tx_cells" where
  "tx_cells_of parse now t =
     \<lparr>tc_to = ''/transactions/'' @ at_hash t, tc_type = at_type t, tc_lock = at_instantLock t,
      tc_inputs = (length (at_vIn t),
        dec_nat (length (at_vIn t)) @ '' input'' @ (if length (at_vIn t) = 1 then '''' else ''s'')),
      tc_outputs = (length (at_vOut t),
        dec_nat (length (at_vOut t)) @ '' output'' @ (if length (at_vOut t) = 1 then '''' else ''s'')),
      tc_block = (''/blocks/'' @ at_blockHash t, CHR ''#'' # dec_int (at_blockHeight t)),
      tc_confirmations = at_confirmations t,
      tc_amount = formatDuffs (sumVOut (J (at_vOut t))) 8,
      tc_age = (case at_timestamp t of
          Some s \<Rightarrow> if s = [] then None else Some (formatRelativeTime parse now (MomentText s))
        | None \<Rightarrow> None)\<rparr>"

subsection \<open>Links to a filtered list\<close>

definition valid_filters :: "tx_filters \<Rightarrow> bool" where
  "valid_filters f \<longleftrightarrow>
     (case transactionType f of Some t \<Rightarrow> t \<in> set TRANSACTION_TYPE_VALUES | None \<Rightarrow> True) \<and>
     (case blockHeight f of Some h \<Rightarrow> 1 \<le> h \<and> h \<le> MAX_SAFE_INTEGER | None \<Rightarrow> True)"

lemma options_are_values: "fst ` set TX_TYPE_OPTIONS = set TRANSACTION_TYPE_VALUES"
  by (simp add: TX_TYPE_OPTIONS_def TRANSACTION_TYPE_VALUES_def)

lemma schema_filters:
  "se_filters (transactionsSearchSchema raw) =
     \<lparr>transactionType = read_type (raw ''transaction_type''), coinjoin = read_bool (raw ''coinjoin''),
      multisig = read_bool (raw ''multisig''), blockHeight = map_option int (read_page (raw ''block_height''))\<rparr>"
  by (simp add: transactionsSearchSchema_def paginationSearchSchema_def page_search.extend_def
      transactions_search.fields_def)

lemma read_type_valid: "read_type r = Some t \<Longrightarrow> t \<in> set TRANSACTION_TYPE_VALUES"
  by (cases r rule: read_type.cases) (auto split: if_splits)

lemma read_page_valid: "read_page r = Some p \<Longrightarrow> 1 \<le> int p \<and> int p \<le> MAX_SAFE_INTEGER"
  by (cases r rule: read_page.cases) (auto split: if_splits simp: le_nat_iff le_floor_iff floor_le_iff)

lemma read_page_of_int:
  "read_page (Some (RawNumber (of_int h))) = (if 1 \<le> h \<and> h \<le> MAX_SAFE_INTEGER then Some (nat h) else None)"
  by simp

lemma schema_valid: "valid_filters (se_filters (transactionsSearchSchema raw))"
  by (auto simp: valid_filters_def schema_filters dest: read_type_valid read_page_valid split: option.splits)

lemma schema_reads_back:
  assumes "valid_filters f"
  shows "se_filters (transactionsSearchSchema (raw_filters f)) = f"
proof -
  have "read_type (map_option RawText t) = t" if "\<forall>x. t = Some x \<longrightarrow> x \<in> set TRANSACTION_TYPE_VALUES" for t
    using that by (cases t) auto
  moreover have "read_bool (map_option RawBool b) = b" for b by (cases b) auto
  moreover have "map_option int (read_page (map_option (\<lambda>h. RawNumber (rat_of_int h)) h)) = h"
    if "\<forall>x. h = Some x \<longrightarrow> 1 \<le> x \<and> x \<le> MAX_SAFE_INTEGER" for h
    using that by (cases h) (auto simp: read_page_of_int simp del: read_page.simps(1))
  ultimately show ?thesis
    using assms by (cases f) (auto simp: schema_filters raw_filters_def valid_filters_def split: option.splits)
qed

lemma schema_block_dropped:
  assumes "valid_filters f" "\<not> h \<le> MAX_SAFE_INTEGER"
  shows "se_filters (transactionsSearchSchema (raw_filters (f\<lparr>blockHeight := Some h\<rparr>))) = f\<lparr>blockHeight := None\<rparr>"
proof -
  have "valid_filters (f\<lparr>blockHeight := None\<rparr>)" using assms(1) by (simp add: valid_filters_def)
  from schema_reads_back [OF this] show ?thesis
    using assms(2) by (simp add: schema_filters raw_filters_def read_page_of_int del: read_page.simps(1))
qed

lemma tx_walk_valid:
  assumes "tx_walk s es s'" "valid_filters (tp_filters s)"
  shows "valid_filters (tp_filters s')"
  using assms
proof (induction rule: tx_walk.induct)
  case (tx_snoc s es s' e)
  then show ?case by (cases e) (simp_all add: set_filters_def schema_valid)
qed simp

lemma submit_number:
  assumes "0 < h" "of_int h < double_limit"
  shows "submit_block (dec_int h) f = f\<lparr>blockHeight := Some h\<rparr>"
proof -
  have h: "dec_int h = dec_nat (nat h)" "of_nat (nat h) < double_limit"
    using assms by (simp_all add: dec_int_def)
  have "js_trim (dec_nat (nat h)) = dec_nat (nat h)"
    using all_digits_dec_nat digit_not_space by (intro js_trim_id) blast
  then show ?thesis
    using js_number_dec_nat [OF h(2)] assms(1) dec_nat_nonempty [of "nat h"] by (simp add: submit_block_def h(1))
qed

text \<open>
  C15: a link to the filtered list. However the filters are set, the address bar holds them so that
  opening it again gives the very same filters, the page then asks at its first drawing for exactly what the
  loader of the route has fetched for it, and from then on either the pages of the scrolling list or one page is
  asked for, never both. The field for a block takes the whole numbers from 1 to 2^53 - 1; the form lets
  a greater one pass, but the schema of the route drops it, so that submitting it takes the filter
  off. Submitting the field as a link has filled it changes nothing, and clearing leaves no filter. No filter touches
  the number of the page.
\<close>

theorem filters_survive_the_link:
  fixes raw :: "string \<Rightarrow> raw_param option" and network :: network
  assumes "tx_walk (tx_mounted (tx_page_opened st (se_filters (transactionsSearchSchema raw)))) es s"
  defines "again \<equiv> transactionsSearchSchema (raw_filters (tp_filters s))"
  shows "se_filters again = tp_filters s \<and>
    query_key (tx_infinite_query network (tx_page_opened st (se_filters again)) :: 'b query_options) =
      query_key (transactions_loader network again :: 'b query_options) \<and>
    query_fn (tx_infinite_query network (tx_page_opened st (se_filters again)) :: 'b query_options) =
      query_fn (transactions_loader network again) \<and>
    enabled (tx_infinite_query network (tx_page_opened st (se_filters again)) :: 'b query_options) \<and>
    (enabled (tx_infinite_query network s :: 'b query_options) \<longleftrightarrow>
       \<not> enabled (tx_paged_query network s :: 'b query_options)) \<and>
    (\<forall>h. 0 < h \<and> of_int h < double_limit \<longrightarrow>
       tp_filters (tx_step (tx_step s (BlockTyped (dec_int h))) BlockSubmitted) =
         (tp_filters s)\<lparr>blockHeight := if h \<le> 9007199254740991 then Some h else None\<rparr>) \<and>
    (blockHeight (tp_filters s) \<noteq> None \<longrightarrow>
       tp_filters (tx_step (tx_page_opened st (tp_filters s)) BlockSubmitted) = tp_filters s) \<and>
    \<not> hasFilters (tp_filters (tx_step s FiltersCleared)) \<and>
    (\<forall>e. li_page (tp_list (tx_step s e)) = li_page (tp_list s) \<or> (\<exists>l. e = TxList l))"
proof -
  have valid: "valid_filters (tp_filters s)"
    by (rule tx_walk_valid [OF assms(1)]) (simp add: tx_page_opened_def tx_mounted_def schema_valid)
  then have reads: "se_filters again = tp_filters s" by (simp add: again_def schema_reads_back)
  have submitted: "tp_filters (tx_step (tx_step s (BlockTyped (dec_int h))) BlockSubmitted) =
      (tp_filters s)\<lparr>blockHeight := if h \<le> 9007199254740991 then Some h else None\<rparr>"
    if "0 < h" "of_int h < double_limit" for h
  proof (cases "h \<le> MAX_SAFE_INTEGER")
    case True
    then have "valid_filters ((tp_filters s)\<lparr>blockHeight := Some h\<rparr>)"
      using valid that(1) by (simp add: valid_filters_def)
    with True show ?thesis
      using that by (simp add: set_filters_def submit_number schema_reads_back MAX_SAFE_INTEGER_def)
  next
    case False
    with schema_block_dropped [OF valid False] show ?thesis
      using that by (simp add: set_filters_def submit_number MAX_SAFE_INTEGER_def)
  qed
  have refill: "tp_filters (tx_step (tx_page_opened st (tp_filters s)) BlockSubmitted) = tp_filters s"
    if "blockHeight (tp_filters s) = Some h" for h
  proof -
    have h: "0 < h" "h \<le> MAX_SAFE_INTEGER" using valid that by (simp_all add: valid_filters_def)
    have "(of_int h :: rat) \<le> of_int MAX_SAFE_INTEGER" using h(2) by (simp only: of_int_le_iff)
    also have "\<dots> < double_limit" by (simp add: MAX_SAFE_INTEGER_def double_limit_def)
    finally have "tp_filters (tx_step (tx_page_opened st (tp_filters s)) BlockSubmitted) =
        se_filters (transactionsSearchSchema (raw_filters ((tp_filters s)\<lparr>blockHeight := Some h\<rparr>)))"
      using submit_number [OF h(1)] that by (simp add: tx_page_opened_def set_filters_def)
    also have "(tp_filters s)\<lparr>blockHeight := Some h\<rparr> = tp_filters s"
      using that by (cases "tp_filters s") simp
    finally show ?thesis by (simp only: schema_reads_back [OF valid])
  qed
  have page: "li_page (tp_list (tx_step s e)) = li_page (tp_list s) \<or> (\<exists>l. e = TxList l)" for e
    by (cases e) (auto simp: set_filters_def)
  have "valid_filters no_filters" by (simp add: valid_filters_def no_filters_def)
  then have cleared: "\<not> hasFilters (tp_filters (tx_step s FiltersCleared))"
    by (simp add: set_filters_def schema_reads_back hasFilters_def no_filters_def)
  have first: "isInfinite (tp_list (tx_page_opened st f))" for f
    by (simp add: isInfinite_def tx_page_opened_def list_initial_def first_view_def)
  show ?thesis
    using reads refill page submitted cleared first
    by (auto simp: tx_infinite_query_def tx_paged_query_def transactions_loader_def tx_page_opened_def
        INFINITE_PAGE_SIZE_def simp del: tx_step.simps)
qed

theorem filters_survive_the_link_witness:
  "\<forall>st. transactionType (se_filters (transactionsSearchSchema (raw_filters (tp_filters
     (tx_step (tx_mounted (tx_page_opened st (se_filters (transactionsSearchSchema (\<lambda>_. None)))))
       (TypeChosen ''COINBASE'')))))) = Some ''COINBASE''"
proof
  fix st
  let ?s = "tx_mounted (tx_page_opened st (se_filters (transactionsSearchSchema (\<lambda>_. None))))"
  have "tx_walk ?s ([] @ [TypeChosen ''COINBASE'']) (tx_step ?s (TypeChosen ''COINBASE''))"
    by (rule tx_snoc) (simp_all add: tx_nil TX_TYPE_OPTIONS_def)
  from filters_survive_the_link [OF this, THEN conjunct1]
  show "transactionType (se_filters (transactionsSearchSchema (raw_filters (tp_filters
      (tx_step ?s (TypeChosen ''COINBASE'')))))) = Some ''COINBASE''"
    by (simp add: TX_TYPE_NONE_def TRANSACTION_TYPE_VALUES_def set_filters_def schema_filters raw_filters_def)
qed

text \<open>The loader of the route of the blocks fetches what the page then asks for.\<close>

lemma blocks_loader_serves_page:
  "bp_superblock s = se_superblock se \<Longrightarrow>
   query_key (blocks_infinite_query n s :: 'b query_options) = query_key (blocks_loader n se :: 'b query_options) \<and>
   query_fn (blocks_infinite_query n s :: 'b query_options) = query_fn (blocks_loader n se)"
  by (cases "se_superblock se")
    (simp_all add: blocks_infinite_query_def blocks_loader_def blocksInfiniteQueryOptions_def infinite_query_def
      INFINITE_PAGE_SIZE_def)

text \<open>
  Thirty points a day apart are counted over the 29 days between the first and the last of them, so
  the rate shown where the API has none is too high by a thirtieth of a 29th.
\<close>

lemma rate_over_one_interval_less:
  assumes "entries = map (\<lambda>i. (name i, c i)) [0..<Suc (Suc n)]" "0 < step"
    "\<And>i. getTime (name i) = t0 + step * int i"
  shows "tps (tx_stats_of getTime (Some entries)) =
    Some (of_int (sum_list (map snd entries)) / (of_int (step * int (Suc n)) / 1000))"
proof -
  have "sorted_wrt (\<lambda>a b. getTime (fst a) - getTime (fst b) \<le> 0) entries"
    unfolding assms(1) sorted_wrt_map
    by (rule sorted_wrt_mono_rel [OF _ sorted_wrt_upt]) (use assms(2,3) in auto)
  then have ordered: "js_sort (\<lambda>a b. getTime (fst a) - getTime (fst b)) entries = entries"
    by (rule js_sort_sorted)
  have ends: "entries \<noteq> []" "getTime (fst (entries ! 0)) = t0"
    "getTime (fst (entries ! (length entries - Suc 0))) = t0 + step * int (Suc n)"
    by (simp_all add: assms(1,3) nth_append del: of_nat_Suc)
  have "0 < step * int (Suc n)" using assms(2) by simp
  then have "0 < rat_of_int (step * int (Suc n)) / 1000" by (simp only: of_int_0_less_iff zero_less_divide_iff) simp
  then show ?thesis
    using ends(1)
    by (simp add: tx_stats_of_def Let_def ordered ends(2,3) foldl_add_sum del: of_int_mult of_nat_Suc)
qed

end
