(* ===== verification/RouteLoaders.thy ===== *)
theory RouteLoaders
  imports ListPages OgImage MasternodesPage
begin

text \<open>
  The routes of the web interface, \<open>frontend/src/routes\<close>: what the loader of each route fetches on the
  server before the page is drawn, what the page then asks for when it is first drawn and once
  the stored views of its tables have been read, and the preview images of \<open>og.$kind.$id.tsx\<close> with the titles that point to them. The
  router, which reads an address into a route, is third party. Dates are printed by a parameter
  (\<open>toISOString\<close>), and so is the full hour of the reader's own clock, which the dashboard uses once.
\<close>

section \<open>Windows of time in a query\<close>

definition utc_hour :: "int \<Rightarrow> int" where "utc_hour t = t - t mod 3600000"

definition monthStatsRange :: "(int \<Rightarrow> string) \<Rightarrow> int \<Rightarrow> string \<times> string" where
  "monthStatsRange iso_text now =
     (let stop = utc_hour now in (iso_text (stop - 30 * 24 * 60 * 60 * 1000), iso_text stop))"

definition dayStatsRange :: "(int \<Rightarrow> string) \<Rightarrow> int \<Rightarrow> string \<times> string" where
  "dayStatsRange iso_text now =
     (let stop = utc_hour now in (iso_text (stop - 24 * 60 * 60 * 1000), iso_text stop))"

definition stats_between :: "string \<times> string \<Rightarrow> int \<Rightarrow> stats_input" where
  "stats_between w intervals =
     \<lparr>stats_start = Some (fst w), stats_end = Some (snd w), stats_intervals = Some intervals\<rparr>"

section \<open>Loaders\<close>

datatype route =
    HomeRoute
  | BlocksRoute blocks_search
  | BlockRoute string
  | TransactionsRoute transactions_search
  | TransactionRoute string
  | AddressesRoute addresses_search
  | AddressRoute string
  | MasternodesRoute
  | MasternodeRoute string
  | PeersRoute
  | DaoRoute
  | ProposalRoute string

definition page_of_ten :: paging where
  "page_of_ten = \<lparr>page_no = Some 1, page_limit = Some 10, page_order = Some ''desc''\<rparr>"

definition home_loader :: "network \<Rightarrow> (int \<Rightarrow> string) \<Rightarrow> int \<Rightarrow> 'b query_options list" where
  "home_loader n iso_text now =
     [blocksQueryOptions n page_of_ten JUndef,
      chainStatsQueryOptions n,
      priceQueryOptions n Usd,
      priceHistoricalQueryOptions n Usd,
      marketCapQueryOptions n Usd,
      marketCapHistoricalQueryOptions n Usd,
      volumeQueryOptions n Usd,
      volumeHistoricalQueryOptions n Usd,
      blockTransactionsStatsQueryOptions n (stats_between (dayStatsRange iso_text now) 24)]"

definition addresses_loader :: "network \<Rightarrow> (int \<Rightarrow> string) \<Rightarrow> int \<Rightarrow> addresses_search \<Rightarrow> 'b query_options" where
  "addresses_loader n iso_text now se =
     (case or_else (as_tab se) ActiveTab of
        ActiveTab \<Rightarrow>
          (let w = getAddressActivityWindowBounds (or_else (as_window se) W24h) now
           in addressesActivityInfiniteQueryOptions n (Some 25) (Some ''desc'')
                (Some (iso_text (fst w))) (Some (iso_text (snd w))))
      | RichTab \<Rightarrow> richListInfiniteQueryOptions n (Some 25) (Some ''desc''))"

definition block_loader :: "network \<Rightarrow> string \<Rightarrow> 'b query_options" where
  "block_loader n h = blockQueryOptions n h"

definition transaction_loader :: "network \<Rightarrow> string \<Rightarrow> 'b query_options" where
  "transaction_loader n h = transactionQueryOptions n h"

definition address_loader :: "network \<Rightarrow> string \<Rightarrow> 'b query_options" where
  "address_loader n a = addressQueryOptions n a"

definition masternode_loader :: "network \<Rightarrow> string \<Rightarrow> 'b query_options" where
  "masternode_loader n h = masternodeQueryOptions n h"

definition proposal_loader :: "network \<Rightarrow> string \<Rightarrow> 'b query_options" where
  "proposal_loader n h = proposalQueryOptions n h"

definition masternodes_loader :: "network \<Rightarrow> 'b query_options" where
  "masternodes_loader n = masternodesInfiniteQueryOptions n (Some 25) (Some ''desc'')"

definition peers_loader :: "network \<Rightarrow> 'b query_options" where
  "peers_loader n = allPeersQueryOptions n"

definition dao_loader :: "network \<Rightarrow> 'b query_options" where
  "dao_loader n = proposalsQueryOptions n (Some ''all'')"

lemmas loader_defs =
  block_loader_def transaction_loader_def address_loader_def masternode_loader_def proposal_loader_def
  masternodes_loader_def peers_loader_def dao_loader_def

fun loader :: "network \<Rightarrow> (int \<Rightarrow> string) \<Rightarrow> int \<Rightarrow> route \<Rightarrow> 'b query_options list" where
  "loader n iso_text now HomeRoute = home_loader n iso_text now"
| "loader n iso_text now (BlocksRoute se) = [blocks_loader n se]"
| "loader n iso_text now (BlockRoute h) = [block_loader n h]"
| "loader n iso_text now (TransactionsRoute se) = [transactions_loader n se]"
| "loader n iso_text now (TransactionRoute h) = [transaction_loader n h]"
| "loader n iso_text now (AddressesRoute se) = [addresses_loader n iso_text now se]"
| "loader n iso_text now (AddressRoute a) = [address_loader n a]"
| "loader n iso_text now MasternodesRoute = [masternodes_loader n]"
| "loader n iso_text now (MasternodeRoute h) = [masternode_loader n h]"
| "loader n iso_text now PeersRoute = [peers_loader n]"
| "loader n iso_text now DaoRoute = [dao_loader n]"
| "loader n iso_text now (ProposalRoute h) = [proposal_loader n h]"

section \<open>What a page asks for\<close>

text \<open>
  The queries of the neo theme that depend on no answer; the others (the transactions of a block, the
  votes of a masternode) follow when their page has its first answer. The map of the masternodes selects from the
  entry of \<open>allMasternodesQueryOptions\<close>.
\<close>

definition dashboard_queries ::
  "network \<Rightarrow> (int \<Rightarrow> string) \<Rightarrow> (int \<Rightarrow> int) \<Rightarrow> int \<Rightarrow> 'b query_options list" where
  "dashboard_queries n iso_text local_hour now =
     [blocksQueryOptions n page_of_ten JUndef,
      transactionsQueryOptions n page_of_ten no_filters,
      masternodesQueryOptions n \<lparr>page_no = Some 1, page_limit = Some 50, page_order = None\<rparr>,
      priceQueryOptions n Usd,
      priceHistoricalQueryOptions n Usd,
      volumeQueryOptions n Usd,
      volumeHistoricalQueryOptions n Usd,
      marketCapHistoricalQueryOptions n Usd,
      marketCapQueryOptions n Usd,
      transactionsStatsQueryOptions n (stats_between (monthStatsRange iso_text now) 30),
      blockTransactionsStatsQueryOptions n (stats_between (dayStatsRange iso_text now) 24),
      chainStatsQueryOptions n,
      budgetQueryOptions n,
      proposalsQueryOptions n None,
      mempoolQueryOptions n \<lparr>page_no = Some 1, page_limit = Some 1, page_order = None\<rparr>,
      richListQueryOptions n page_of_ten,
      addressesActivityQueryOptions n page_of_ten
        (Some (iso_text (local_hour now - 24 * 60 * 60 * 1000))) (Some (iso_text (local_hour now))),
      transactionsBreakdown24hQueryOptions n]"

definition blocks_queries ::
  "network \<Rightarrow> (int \<Rightarrow> string) \<Rightarrow> int \<Rightarrow> blocks_page \<Rightarrow> 'b query_options list" where
  "blocks_queries n iso_text now s =
     [blocks_infinite_query n s, blocks_paged_query n s,
      blockTransactionsStatsQueryOptions n (stats_between (dayStatsRange iso_text now) 24),
      chainStatsQueryOptions n]"

definition transactions_queries ::
  "network \<Rightarrow> (int \<Rightarrow> string) \<Rightarrow> int \<Rightarrow> tx_page \<Rightarrow> 'b query_options list" where
  "transactions_queries n iso_text now s =
     [tx_infinite_query n s, tx_paged_query n s,
      transactionsStatsQueryOptions n (stats_between (monthStatsRange iso_text now) 30),
      chainStatsQueryOptions n,
      mempoolQueryOptions n \<lparr>page_no = Some 1, page_limit = Some 1, page_order = None\<rparr>,
      transactionsBreakdown24hQueryOptions n]"

definition addresses_queries ::
  "network \<Rightarrow> (int \<Rightarrow> string) \<Rightarrow> int \<Rightarrow> TableViewMode \<Rightarrow> addresses_search \<Rightarrow> 'b query_options list" where
  "addresses_queries n iso_text now mode se =
     (let tab = shown_tab se; w = getAddressActivityWindowBounds (activityWindow se) now;
          page = \<lparr>page_no = Some (int (AddressesPage.shown_page se)), page_limit = Some 25, page_order = Some ''desc''\<rparr>
      in [(addressesActivityInfiniteQueryOptions n (Some 25) (Some ''desc'')
             (Some (iso_text (fst w))) (Some (iso_text (snd w))))
             \<lparr>enabled := tab = ActiveTab \<and> mode = InfiniteView\<rparr>,
          (addressesActivityQueryOptions n page (Some (iso_text (fst w))) (Some (iso_text (snd w))))
             \<lparr>enabled := tab = ActiveTab \<and> mode \<noteq> InfiniteView\<rparr>,
          (richListInfiniteQueryOptions n (Some 25) (Some ''desc''))
             \<lparr>enabled := tab = RichTab \<and> mode = InfiniteView\<rparr>,
          (richListQueryOptions n page)\<lparr>enabled := tab = RichTab \<and> mode \<noteq> InfiniteView\<rparr>,
          priceQueryOptions n Usd])"

definition address_queries ::
  "network \<Rightarrow> (int \<Rightarrow> string) \<Rightarrow> int \<Rightarrow> TableViewMode \<Rightarrow> string \<Rightarrow> 'b query_options list" where
  "address_queries n iso_text now mode a =
     [addressQueryOptions n a,
      addressBalanceChartQueryOptions n a (iso_text (now - 30 * 24 * 60 * 60 * 1000)) (iso_text now) None,
      (addressTransactionsInfiniteQueryOptions n a (Some INFINITE_PAGE_SIZE) (Some ''desc''))
        \<lparr>enabled := mode = InfiniteView\<rparr>,
      (addressTransactionsQueryOptions n a
         \<lparr>page_no = Some 1, page_limit = Some PAGINATION_PAGE_SIZE, page_order = Some ''desc''\<rparr>)
        \<lparr>enabled := mode \<noteq> InfiniteView\<rparr>]"

definition masternodes_queries :: "network \<Rightarrow> TableViewMode \<Rightarrow> 'b query_options list" where
  "masternodes_queries n mode =
     [(masternodesInfiniteQueryOptions n (Some INFINITE_PAGE_SIZE) (Some ''desc''))
        \<lparr>enabled := mode = InfiniteView\<rparr>,
      (masternodesQueryOptions n
         \<lparr>page_no = Some 1, page_limit = Some PAGINATION_PAGE_SIZE, page_order = Some ''desc''\<rparr>)
        \<lparr>enabled := mode \<noteq> InfiniteView\<rparr>,
      allMasternodesQueryOptions n]"

definition dao_queries :: "network \<Rightarrow> 'b query_options list" where
  "dao_queries n =
     [proposalsQueryOptions n (Some ''all''),
      budgetQueryOptions n,
      blocksQueryOptions n \<lparr>page_no = Some 1, page_limit = Some 1, page_order = Some ''desc''\<rparr> JUndef,
      masternodesQueryOptions n \<lparr>page_no = Some 1, page_limit = Some 1, page_order = None\<rparr>,
      chainStatsQueryOptions n]"

definition proposal_queries :: "network \<Rightarrow> string \<Rightarrow> 'b query_options list" where
  "proposal_queries n h =
     [proposalQueryOptions n h,
      blocksQueryOptions n \<lparr>page_no = Some 1, page_limit = Some 1, page_order = Some ''desc''\<rparr> JUndef,
      masternodesQueryOptions n \<lparr>page_no = Some 1, page_limit = Some 1, page_order = None\<rparr>,
      chainStatsQueryOptions n,
      priceQueryOptions n Usd]"

text \<open>
  A page is drawn first with the default views of its tables; once it is there, the effects of that drawing
  bring the stored views, and the page asks with these.
\<close>

definition view_when :: "bool \<Rightarrow> storage \<Rightarrow> string \<Rightarrow> TableViewMode" where
  "view_when mounted st key =
     (if mounted then mount_view st key (first_view InfiniteView) else first_view InfiniteView)"

definition list_when :: "bool \<Rightarrow> storage \<Rightarrow> string \<Rightarrow> ListPages.list_state" where
  "list_when mounted st key = (if mounted then list_mounted key (list_initial st) else list_initial st)"

definition tx_page_when :: "bool \<Rightarrow> storage \<Rightarrow> tx_filters \<Rightarrow> tx_page" where
  "tx_page_when mounted st f = (if mounted then tx_mounted (tx_page_opened st f) else tx_page_opened st f)"

fun page_queries ::
  "network \<Rightarrow> (int \<Rightarrow> string) \<Rightarrow> (int \<Rightarrow> int) \<Rightarrow> int \<Rightarrow> storage \<Rightarrow> bool \<Rightarrow> route \<Rightarrow> 'b query_options list" where
  "page_queries n iso_text local_hour now st mounted HomeRoute = dashboard_queries n iso_text local_hour now"
| "page_queries n iso_text local_hour now st mounted (BlocksRoute se) =
     blocks_queries n iso_text now \<lparr>bp_list = list_when mounted st ''blocks'', bp_superblock = se_superblock se\<rparr>"
| "page_queries n iso_text local_hour now st mounted (BlockRoute h) = [blockQueryOptions n h]"
| "page_queries n iso_text local_hour now st mounted (TransactionsRoute se) =
     transactions_queries n iso_text now (tx_page_when mounted st (se_filters se))"
| "page_queries n iso_text local_hour now st mounted (TransactionRoute h) = [transactionQueryOptions n h]"
| "page_queries n iso_text local_hour now st mounted (AddressesRoute se) =
     addresses_queries n iso_text now (view_when mounted st ''addresses'') se"
| "page_queries n iso_text local_hour now st mounted (AddressRoute a) =
     address_queries n iso_text now (view_when mounted st ''address-transactions'') a"
| "page_queries n iso_text local_hour now st mounted MasternodesRoute =
     masternodes_queries n (view_when mounted st ''masternodes'')"
| "page_queries n iso_text local_hour now st mounted (MasternodeRoute h) = [masternodeQueryOptions n h]"
| "page_queries n iso_text local_hour now st mounted PeersRoute =
     [allPeersQueryOptions n, peerUserAgentsQueryOptions n]"
| "page_queries n iso_text local_hour now st mounted DaoRoute = dao_queries n"
| "page_queries n iso_text local_hour now st mounted (ProposalRoute h) = proposal_queries n h"

lemmas query_simps =
  options_defs plain_query_def infinite_query_def net_part_def paging_parts_def scroll_parts_def filter_parts_def

lemmas page_defs =
  home_loader_def dashboard_queries_def blocks_loader_def blocks_queries_def blocks_infinite_query_def
  blocks_paged_query_def transactions_loader_def transactions_queries_def tx_infinite_query_def tx_paged_query_def
  addresses_loader_def addresses_queries_def address_queries_def masternodes_queries_def dao_queries_def
  proposal_queries_def shown_tab_def activityWindow_def

lemma minute_fixes_hour:
  assumes "start_of_minute now' = start_of_minute now"
  shows "utc_hour now' = utc_hour now"
proof -
  have minute: "start_of_minute t = 60000 * (t div 60000)" for t
    by (simp add: start_of_minute_def minus_mod_eq_mult_div)
  have "t div 3600000 = t div 60000 div 60" for t :: int using zdiv_zmult2_eq [of 60 t 60000] by simp
  then have hour: "utc_hour t = 3600000 * (t div 60000 div 60)" for t
    by (simp add: utc_hour_def minus_mod_eq_mult_div)
  show ?thesis using assms by (simp add: minute hour)
qed

fun table_key :: "route \<Rightarrow> string option" where
  "table_key (BlocksRoute _) = Some ''blocks''"
| "table_key (TransactionsRoute _) = Some ''transactions''"
| "table_key (AddressesRoute _) = Some ''addresses''"
| "table_key MasternodesRoute = Some ''masternodes''"
| "table_key _ = None"

definition served :: "'b query_options list \<Rightarrow> 'b query_options \<Rightarrow> bool" where
  "served asked q \<longleftrightarrow> (\<exists>q' \<in> set asked. enabled q' \<and> query_key q' = query_key q \<and> query_fn q' = query_fn q)"

definition wasted :: "'b query_options list \<Rightarrow> 'b query_options \<Rightarrow> bool" where
  "wasted asked q \<longleftrightarrow> (\<forall>q' \<in> set asked. enabled q' \<longrightarrow> json_key (query_key q') \<noteq> json_key (query_key q))"

lemma served_Cons: "served (q' # asked) q \<longleftrightarrow>
   (enabled q' \<and> query_key q' = query_key q \<and> query_fn q' = query_fn q) \<or> served asked q"
  by (auto simp: served_def)

lemma wasted_Cons: "wasted (q' # asked) q \<longleftrightarrow>
   (enabled q' \<longrightarrow> json_key (query_key q') \<noteq> json_key (query_key q)) \<and> wasted asked q"
  by (auto simp: wasted_def)

lemma wasted_Nil: "wasted [] q" by (simp add: wasted_def)

lemma served_member: "q \<in> set asked \<Longrightarrow> enabled q \<Longrightarrow> served asked q"
  by (auto simp: served_def)

lemma home_enabled: "q \<in> set (home_loader n iso_text now) \<Longrightarrow> enabled q"
  by (auto simp: home_loader_def query_simps)

lemma home_is_served:
  assumes "utc_hour now' = utc_hour now" "q \<in> set (home_loader n iso_text now)"
  shows "served (dashboard_queries n iso_text local_hour now') q"
proof (rule served_member [OF _ home_enabled [OF assms(2)]])
  show "q \<in> set (dashboard_queries n iso_text local_hour now')"
    using assms by (auto simp: home_loader_def dashboard_queries_def dayStatsRange_def Let_def)
qed

lemma view_first [simp]: "view_when False st key = InfiniteView"
  by (simp add: view_when_def first_view_def)

lemma view_later:
  "view_when True st key = (if readStored st key = Some PaginationView then PaginationView else InfiniteView)"
  by (cases "readStored st key"; cases "the (readStored st key)")
    (auto simp: view_when_def mount_view_def view_effect_def first_view_def)

lemma list_when_view [simp]:
  "isInfinite (list_when mounted st key) \<longleftrightarrow> view_when mounted st key = InfiniteView"
  "li_page (list_when mounted st key) = 1" "li_pageSize (list_when mounted st key) = PAGINATION_PAGE_SIZE"
  by (simp_all add: isInfinite_def list_when_def view_when_def list_mounted_def list_initial_def first_view_def mount_view_def)

lemma tx_page_when_view [simp]:
  "isInfinite (tp_list (tx_page_when mounted st f)) \<longleftrightarrow> view_when mounted st ''transactions'' = InfiniteView"
  "li_page (tp_list (tx_page_when mounted st f)) = 1"
  "li_pageSize (tp_list (tx_page_when mounted st f)) = PAGINATION_PAGE_SIZE" "tp_filters (tx_page_when mounted st f) = f"
  by (simp_all add: isInfinite_def tx_page_when_def tx_mounted_def tx_page_opened_def view_when_def list_mounted_def
      list_initial_def first_view_def mount_view_def)

lemma blocks_queries_view:
  "isInfinite (bp_list s) = isInfinite (bp_list s') \<Longrightarrow> li_page (bp_list s) = li_page (bp_list s') \<Longrightarrow>
   li_pageSize (bp_list s) = li_pageSize (bp_list s') \<Longrightarrow> bp_superblock s = bp_superblock s' \<Longrightarrow>
   blocks_queries n iso_text now s = blocks_queries n iso_text now s'"
  by (simp add: blocks_queries_def blocks_infinite_query_def blocks_paged_query_def)

lemma tx_queries_view:
  "isInfinite (tp_list s) = isInfinite (tp_list s') \<Longrightarrow> li_page (tp_list s) = li_page (tp_list s') \<Longrightarrow>
   li_pageSize (tp_list s) = li_pageSize (tp_list s') \<Longrightarrow> tp_filters s = tp_filters s' \<Longrightarrow>
   transactions_queries n iso_text now s = transactions_queries n iso_text now s'"
  by (simp add: transactions_queries_def tx_infinite_query_def tx_paged_query_def)

text \<open>Only the view of its table decides what a page asks for.\<close>

lemma page_queries_view:
  assumes "\<And>key. table_key r = Some key \<Longrightarrow> readStored st key \<noteq> Some PaginationView" "table_key r \<noteq> None"
  shows "page_queries n iso_text local_hour now st True r = page_queries n iso_text local_hour now st False r"
  using assms
  by (cases r) (auto simp: view_later intro!: blocks_queries_view tx_queries_view)

text \<open>A query of the page that is enabled and none of those enabled before.\<close>

definition asks_more :: "'b query_options list \<Rightarrow> 'b query_options list \<Rightarrow> bool" where
  "asks_more before after \<longleftrightarrow> (\<exists>q \<in> set after. enabled q \<and> wasted before q)"

lemma asks_more_member: "q \<in> set after \<Longrightarrow> enabled q \<Longrightarrow> wasted before q \<Longrightarrow> asks_more before after"
  by (auto simp: asks_more_def)

lemma asks_more_Cons: "asks_more before (q # after) \<longleftrightarrow> (enabled q \<and> wasted before q) \<or> asks_more before after"
  by (auto simp: asks_more_def)

lemmas asked_simps = served_Cons wasted_Cons wasted_Nil asks_more_Cons query_simps json_key_def stats_parts_def
  INFINITE_PAGE_SIZE_def PAGINATION_PAGE_SIZE_def Let_def

lemma blocks_served:
  fixes n :: network and se :: blocks_search
  defines "q \<equiv> blocks_loader n se :: 'b query_options"
  shows "served (page_queries n iso_text local_hour now st False (BlocksRoute se)) q"
    and "readStored st ''blocks'' = Some PaginationView \<Longrightarrow>
      wasted (page_queries n iso_text local_hour now st True (BlocksRoute se)) q"
    and "readStored st ''blocks'' = Some PaginationView \<Longrightarrow>
      asks_more (page_queries n iso_text local_hour now st False (BlocksRoute se))
        (page_queries n iso_text local_hour now st True (BlocksRoute se) :: 'b query_options list)"
proof -
  let ?s = "\<lparr>bp_list = list_when False st ''blocks'', bp_superblock = se_superblock se\<rparr>"
  have "enabled (blocks_infinite_query n ?s :: 'b query_options)" by (simp add: blocks_infinite_query_def)
  then show "served (page_queries n iso_text local_hour now st False (BlocksRoute se)) q"
    using blocks_loader_serves_page [of ?s se n] by (auto simp: q_def blocks_queries_def served_Cons)
qed (simp_all add: q_def view_later blocks_queries_def blocks_infinite_query_def blocks_paged_query_def
    blocks_loader_def asked_simps)

lemma transactions_served:
  fixes n :: network and se :: transactions_search
  defines "q \<equiv> transactions_loader n se :: 'b query_options"
  shows "served (page_queries n iso_text local_hour now st False (TransactionsRoute se)) q"
    and "readStored st ''transactions'' = Some PaginationView \<Longrightarrow>
      wasted (page_queries n iso_text local_hour now st True (TransactionsRoute se)) q"
    and "readStored st ''transactions'' = Some PaginationView \<Longrightarrow>
      asks_more (page_queries n iso_text local_hour now st False (TransactionsRoute se))
        (page_queries n iso_text local_hour now st True (TransactionsRoute se) :: 'b query_options list)"
  by (simp_all add: q_def view_later transactions_queries_def tx_infinite_query_def tx_paged_query_def
      transactions_loader_def asked_simps)

lemma addresses_served:
  fixes n :: network and se :: addresses_search and iso_text :: "int \<Rightarrow> string" and now now' :: int
  assumes "start_of_minute now' = start_of_minute now"
  defines "q \<equiv> addresses_loader n iso_text now se :: 'b query_options"
  shows "served (page_queries n iso_text local_hour now' st False (AddressesRoute se)) q"
    and "readStored st ''addresses'' = Some PaginationView \<Longrightarrow>
      wasted (page_queries n iso_text local_hour now' st True (AddressesRoute se)) q"
    and "readStored st ''addresses'' = Some PaginationView \<Longrightarrow>
      asks_more (page_queries n iso_text local_hour now' st False (AddressesRoute se))
        (page_queries n iso_text local_hour now' st True (AddressesRoute se) :: 'b query_options list)"
  using assms(1)
  by (cases "or_else (as_tab se) ActiveTab";
      simp add: q_def view_later addresses_queries_def addresses_loader_def shown_tab_def activityWindow_def
        getAddressActivityWindowBounds_def asked_simps)+

lemma masternodes_served:
  fixes n :: network
  defines "q \<equiv> masternodes_loader n :: 'b query_options"
  shows "served (page_queries n iso_text local_hour now st False MasternodesRoute) q"
    and "readStored st ''masternodes'' = Some PaginationView \<Longrightarrow>
      wasted (page_queries n iso_text local_hour now st True MasternodesRoute) q"
    and "readStored st ''masternodes'' = Some PaginationView \<Longrightarrow>
      asks_more (page_queries n iso_text local_hour now st False MasternodesRoute)
        (page_queries n iso_text local_hour now st True MasternodesRoute :: 'b query_options list)"
  by (simp_all add: q_def view_later loader_defs masternodes_queries_def asked_simps
      allMasternodesQueryOptions_def allMasternodesBaseQueryOptions_def)

text \<open>
  C14: what the server fetches for a page. When the page is drawn in the same minute in which its route was
  loaded, its first drawing asks for every query that the loader has fetched, under the same key and
  with the same function, whatever view of its table the reader has stored: the table is drawn as an
  endless list first. For the four routes of lists, where pages are not the stored view, the effect of that
  drawing changes nothing in what is asked for; where they are, the page then asks for none of the queries that
  the loader has fetched, and for one more that nobody has fetched before.
\<close>

theorem prefetched_is_asked:
  fixes r :: route and now now' :: int and n :: network and iso_text :: "int \<Rightarrow> string"
    and local_hour :: "int \<Rightarrow> int" and st :: storage
  assumes "start_of_minute now' = start_of_minute now"
  defines "fetched \<equiv> loader n iso_text now r :: 'b query_options list"
    and "asked \<equiv> \<lambda>mounted. page_queries n iso_text local_hour now' st mounted r :: 'b query_options list"
  shows "fetched \<noteq> [] \<and> (\<forall>q \<in> set fetched. served (asked False) q) \<and>
    (\<forall>key. table_key r = Some key \<longrightarrow>
       (if readStored st key = Some PaginationView
        then (\<forall>q \<in> set fetched. wasted (asked True) q) \<and> asks_more (asked False) (asked True)
        else asked True = asked False))"
proof (cases r)
  case HomeRoute
  then show ?thesis
    using home_is_served [OF minute_fixes_hour [OF assms(1)]]
    by (auto simp: fetched_def asked_def home_loader_def)
next
  case (BlocksRoute se)
  then show ?thesis
    by (auto simp: fetched_def asked_def simp del: page_queries.simps intro!: blocks_served page_queries_view)
next
  case (TransactionsRoute se)
  then show ?thesis
    by (auto simp: fetched_def asked_def simp del: page_queries.simps intro!: transactions_served page_queries_view)
next
  case (AddressesRoute se)
  then show ?thesis
    by (auto simp: fetched_def asked_def simp del: page_queries.simps intro!: addresses_served [OF assms(1)] page_queries_view)
next
  case MasternodesRoute
  then show ?thesis
    by (auto simp: fetched_def asked_def simp del: page_queries.simps intro!: masternodes_served page_queries_view)
qed (auto simp: fetched_def asked_def loader_defs address_queries_def dao_queries_def proposal_queries_def query_simps
    intro!: served_member)

theorem prefetched_is_asked_witness:
  "\<forall>iso_text local_hour. list_all
     (served (page_queries Mainnet iso_text local_hour 119000
       \<lparr>has_window = False, readable = False, writable = False, items = []\<rparr> False MasternodesRoute))
     (loader Mainnet iso_text 61000 MasternodesRoute :: string query_options list)"
proof (intro allI)
  fix iso_text :: "int \<Rightarrow> string" and local_hour :: "int \<Rightarrow> int"
  let ?st = "\<lparr>has_window = False, readable = False, writable = False, items = []\<rparr>"
  have "start_of_minute 119000 = start_of_minute 61000" by (simp add: start_of_minute_def)
  from prefetched_is_asked [OF this, of Mainnet iso_text MasternodesRoute local_hour ?st,
      THEN conjunct2, THEN conjunct1]
  show "list_all (served (page_queries Mainnet iso_text local_hour 119000 ?st False MasternodesRoute))
      (loader Mainnet iso_text 61000 MasternodesRoute :: string query_options list)"
    by (simp add: list_all_iff del: page_queries.simps loader.simps)
qed

text \<open>
  When the minute has passed in between, what was fetched for the ranking by activity is asked for by no query
  of the page: its key holds the minute.
\<close>

lemma late_ranking_is_wasted:
  assumes "inj iso_text" "start_of_minute now' \<noteq> start_of_minute now" "shown_tab se = ActiveTab"
    "q \<in> set (loader n iso_text now (AddressesRoute se))"
  shows "wasted (page_queries n iso_text local_hour now' st mounted (AddressesRoute se)) q"
proof -
  have tab: "or_else (as_tab se) ActiveTab = ActiveTab" using assms(3) by (simp add: shown_tab_def)
  have "iso_text (start_of_minute now') \<noteq> iso_text (start_of_minute now)"
    using assms(1,2) by (simp add: inj_eq)
  then show ?thesis
    using assms(4) tab
    by (simp add: addresses_queries_def wasted_Cons wasted_Nil addresses_loader_def query_simps json_key_def
        shown_tab_def activityWindow_def getAddressActivityWindowBounds_def Let_def)
qed

section \<open>Titles and preview images\<close>

text \<open>A title, and for the pages with a preview its heading and its path.\<close>

definition dots :: string where "dots = ''...''"

definition block_head :: "string \<Rightarrow> string \<times> (string \<times> string) option" where
  "block_head h = (''Block '' @ h @ '' | Dashscan'', Some (''Block '' @ h, ''/og/block/'' @ h))"

definition transaction_head :: "string \<Rightarrow> string \<times> (string \<times> string) option" where
  "transaction_head h =
     (''TX '' @ js_slice h 0 12 @ dots @ '' | Dashscan'',
      Some (''Transaction '' @ js_slice h 0 12 @ ellipsis, ''/og/transaction/'' @ h))"

definition address_head :: "string \<Rightarrow> string \<times> (string \<times> string) option" where
  "address_head a =
     (''Address '' @ js_slice a 0 12 @ dots @ '' | Dashscan'',
      Some (''Address '' @ js_slice a 0 12 @ ellipsis, ''/og/address/'' @ a))"

definition masternode_head :: "string \<Rightarrow> string \<times> (string \<times> string) option" where
  "masternode_head h =
     (''Masternode '' @ js_slice h 0 12 @ dots @ '' | Dashscan'',
      Some (''Masternode '' @ js_slice h 0 12 @ ellipsis, ''/og/masternode/'' @ h))"

definition proposal_head :: "string \<Rightarrow> string \<times> (string \<times> string) option" where
  "proposal_head h = (''Proposal '' @ js_slice h 0 12 @ ellipsis @ '' | Dashscan'', None)"

fun route_head :: "route \<Rightarrow> string \<times> (string \<times> string) option" where
  "route_head HomeRoute = (''Dashboard | Dashscan'', None)"
| "route_head (BlocksRoute _) = (''Blocks | Dashscan'', None)"
| "route_head (BlockRoute h) = block_head h"
| "route_head (TransactionsRoute _) = (''Transactions | Dashscan'', None)"
| "route_head (TransactionRoute h) = transaction_head h"
| "route_head (AddressesRoute _) = (''Addresses | Dashscan'', None)"
| "route_head (AddressRoute a) = address_head a"
| "route_head MasternodesRoute = (''Masternodes | Dashscan'', None)"
| "route_head (MasternodeRoute h) = masternode_head h"
| "route_head PeersRoute = (''Peers | Dashscan'', None)"
| "route_head DaoRoute = (''DAO | Dashscan'', None)"
| "route_head (ProposalRoute h) = proposal_head h"

lemmas head_defs = block_head_def transaction_head_def address_head_def masternode_head_def proposal_head_def

definition KINDS :: "string list" where "KINDS = [''block'', ''transaction'', ''address'', ''masternode'']"

definition isOgKind :: "string \<Rightarrow> bool" where "isOgKind kind \<longleftrightarrow> kind \<in> set KINDS"

definition og_query :: "network \<Rightarrow> string \<Rightarrow> string \<Rightarrow> 'b query_options option" where
  "og_query n kind ident =
     (if \<not> isOgKind kind then None
      else if kind = ''block'' then Some (blockQueryOptions n ident)
      else if kind = ''transaction'' then Some (transactionQueryOptions n ident)
      else if kind = ''address'' then Some (addressQueryOptions n ident)
      else Some (masternodeQueryOptions n ident))"

definition og_txTypeLabel :: "tx_type_ref js \<Rightarrow> string" where
  "og_txTypeLabel t =
     (let n = txTypeNum t in
      if n = 0 then ''Standard'' else if n = 5 then ''Coinbase'' else if n = 6 then ''Quorum''
      else if n = 8 then ''ProRegTx'' else ''Type '' @ dec_int n)"

definition og_block :: "ApiBlock option \<Rightarrow> OgPayload option" where
  "og_block = map_option (\<lambda>b. OgBlock (ab_height b) (ab_hash b) (ab_txCount b) (ab_timestamp b))"

definition og_transaction :: "'p ApiTransaction option \<Rightarrow> OgPayload option" where
  "og_transaction =
     map_option (\<lambda>tx. OgTransaction (at_hash tx)
       (Some (og_txTypeLabel (case at_type tx of Some t \<Rightarrow> J (TypeName t) | None \<Rightarrow> JNull))) None)"

text \<open>The balance and the count are texts of digits.\<close>

definition og_address :: "(string \<times> string \<times> string) option \<Rightarrow> OgPayload option" where
  "og_address =
     map_option (\<lambda>(address, bal, txCount). OgAddress address
       (case js_number bal of Fin q \<Rightarrow> Some (fl (q / 100000000)) | _ \<Rightarrow> None)
       (case js_number txCount of Fin q \<Rightarrow> Some \<lfloor>q\<rfloor> | _ \<Rightarrow> None))"

definition og_masternode :: "dash_masternode option \<Rightarrow> OgPayload option" where
  "og_masternode =
     map_option (\<lambda>mn. OgMasternode (dm_proTxHash mn) (Some (hd (js_split (CHR '':'') (dm_address mn))))
       (Some (dm_status mn)) (Some (getCollateral (dm_type mn))))"

text \<open>The preview of a page is made from what the page itself is loaded from.\<close>

lemma preview_fetches_the_same:
  assumes "snd (route_head r) = Some (heading, place)"
  shows "\<exists>kind ident q. place = ''/og/'' @ kind @ ''/'' @ ident \<and> og_query n kind ident = Some q \<and>
    (loader n iso_text now r :: 'b query_options list) = [q]"
proof (cases r)
  case (BlockRoute h)
  then show ?thesis using assms by (intro exI [of _ "''block''"] exI [of _ h]) (simp add: head_defs loader_defs og_query_def isOgKind_def KINDS_def)
next
  case (TransactionRoute h)
  then show ?thesis using assms
    by (intro exI [of _ "''transaction''"] exI [of _ h]) (simp add: head_defs loader_defs og_query_def isOgKind_def KINDS_def)
next
  case (AddressRoute a)
  then show ?thesis using assms
    by (intro exI [of _ "''address''"] exI [of _ a]) (simp add: head_defs loader_defs og_query_def isOgKind_def KINDS_def)
next
  case (MasternodeRoute h)
  then show ?thesis using assms
    by (intro exI [of _ "''masternode''"] exI [of _ h]) (simp add: head_defs loader_defs og_query_def isOgKind_def KINDS_def)
qed (use assms in \<open>simp_all add: head_defs\<close>)

text \<open>
  The preview calls an asset lock a registration of a provider, which is what the page itself calls
  transactions of type 1.
\<close>

lemma preview_mislabels_asset_locks:
  "og_txTypeLabel (J (TypeName ''ASSET_LOCK'')) = ''ProRegTx'' \<and>
   getTxTypeLabel (J (TypeName ''ASSET_LOCK'')) = ''Asset Lock'' \<and>
   og_txTypeLabel (J (TypeName ''PROVIDER_REGISTRATION'')) = ''Type 1''"
  by (simp add: og_txTypeLabel_def getTxTypeLabel_def TX_TYPE_BY_NAME_def TX_TYPE_LABELS_def dec_int_def
      dec_nat.simps [of "Suc 0"] digit_char_def char_of_def bit_0)

end
