(* ===== verification/BlockPage.thy ===== *)
theory BlockPage
  imports RouteLoaders
begin

text \<open>
  The page of a block, \<open>frontend/src/themes/neo/pages/block-detail.tsx\<close>: its age, the bar of its
  confirmations, the buttons that lead to its neighbours, its rows and the table of its
  transactions, over the API's look-up of a block. The cube, the markup and the colouring of the raw JSON
  (in \<open>Markup\<close>) are not modelled here. Dates are valid; what the locale prints is a parameter.
\<close>

section \<open>Age and confirmations\<close>

definition FINALITY_CONFIRMS :: nat where "FINALITY_CONFIRMS = 6"

definition formatAge :: "int \<Rightarrow> string" where
  "formatAge diffMs =
     (if diffMs < 0 then ''just now''
      else let sec = diffMs div 1000 in
        if sec < 60 then dec_int sec @ ''s''
        else let min = sec div 60; remSec = sec mod 60 in
          if min < 60 then dec_int min @ ''m '' @ pad_left 2 (dec_int remSec) @ ''s''
          else let hr = min div 60; remMin = min mod 60 in
            if hr < 24 then dec_int hr @ ''h '' @ dec_int remMin @ ''m''
            else let days = hr div 24 in dec_int days @ ''d '' @ dec_int (hr mod 24) @ ''h'')"

text \<open>The clock of the page: its interval sets the moment of each tick.\<close>

fun useNow :: "int \<Rightarrow> int list \<Rightarrow> int" where
  "useNow mounted [] = mounted"
| "useNow mounted (tick # ticks) = useNow tick ticks"

record confirmation_bar =
  cb_slots :: "bool list"
  cb_final :: bool
  cb_note :: string

definition ConfirmationBar :: "int \<Rightarrow> confirmation_bar" where
  "ConfirmationBar confirmations =
     (let ratio = min 1 (fl (of_int confirmations / of_nat FINALITY_CONFIRMS));
          final = confirmations \<ge> int FINALITY_CONFIRMS
      in \<lparr>cb_slots = map (\<lambda>i. int i < confirmations) [0..<FINALITY_CONFIRMS], cb_final = final,
          cb_note = (if final then ''Finalized'' else dec_int (js_round (fl (ratio * 100))) @ ''% to finality'')\<rparr>)"

section \<open>The page\<close>

record block_view =
  bv_txPage :: int
  bv_txLimit :: int

definition block_view_initial :: block_view where
  "block_view_initial = \<lparr>bv_txPage = 1, bv_txLimit = 10\<rparr>"

datatype block_view_event = TxPage int | TxLimit int

fun block_view_step :: "block_view \<Rightarrow> block_view_event \<Rightarrow> block_view" where
  "block_view_step s (TxPage p) = s\<lparr>bv_txPage := p\<rparr>"
| "block_view_step s (TxLimit n) = s\<lparr>bv_txLimit := n, bv_txPage := 1\<rparr>"

text \<open>Without a block the query of the transactions is skipped.\<close>

definition block_tx_query :: "network \<Rightarrow> block_view \<Rightarrow> ApiBlock option \<Rightarrow> 'b query_options option" where
  "block_tx_query n s block =
     map_option (\<lambda>b. transactionsByHeightQueryOptions n (ab_height b)
       \<lparr>page_no = Some (bv_txPage s), page_limit = Some (bv_txLimit s), page_order = Some ''desc''\<rparr>) block"

datatype block_body = BlockSkeleton | BlockNotFound string | BlockShown ApiBlock

definition block_body_of :: "bool \<Rightarrow> string \<Rightarrow> ApiBlock option \<Rightarrow> block_body" where
  "block_body_of isFetching hashOrHeight block =
     (case block of
        None \<Rightarrow> if isFetching then BlockSkeleton else BlockNotFound hashOrHeight
      | Some b \<Rightarrow> BlockShown b)"

definition block_tx_table ::
  "block_view \<Rightarrow> ApiBlock \<Rightarrow> 'p ApiTransaction PaginatedResultSet option \<Rightarrow> bool \<Rightarrow> 'p ApiTransaction table_props" where
  "block_tx_table s block txData isTxFetching =
     \<lparr>table_rows = (case txData of Some r \<Rightarrow> resultSet r | None \<Rightarrow> []), isLoading = isTxFetching,
      infiniteScroll = None,
      table_props.pagination = Some \<lparr>pageIndex = bv_txPage s, pageSize = bv_txLimit s,
        row_total = (case txData of Some r \<Rightarrow> stated_total r | None \<Rightarrow> ab_txCount block), resizable = True\<rparr>,
      viewMode = None\<rparr>"

definition previous_link :: "ApiBlock \<Rightarrow> route" where
  "previous_link b = BlockRoute (ab_previousBlockHash b)"

definition next_link :: "ApiBlock \<Rightarrow> route option" where
  "next_link b = (if ab_confirmations b \<le> 1 then None else Some (BlockRoute (dec_int (ab_height b + 1))))"

definition block_rows :: "(string \<Rightarrow> date) \<Rightarrow> (int \<Rightarrow> string) \<Rightarrow> (string \<Rightarrow> string) \<Rightarrow> int \<Rightarrow> ApiBlock \<Rightarrow> (string \<times> string list) list" where
  "block_rows parse toLocaleString dateLocale now b =
     [(''Block Hash'', [ab_hash b]),
      (''Merkle Root'', [ab_merkleRoot b]),
      (''Previous Block'', [CHR ''#'' # toLocaleString (ab_height b - 1)]),
      (''Timestamp'', [dateLocale (ab_timestamp b), formatRelativeTime parse now (MomentText (ab_timestamp b))]),
      (''Confirmations'', [toLocaleString (ab_confirmations b)]),
      (''Size'', [to_fixed 2 (of_int (ab_size b) / 1024) @ '' KB'', ''('' @ toLocaleString (ab_size b) @ '' bytes)'']),
      (''Difficulty'', [to_fixed 4 (ab_difficulty b)]),
      (''Nonce'', [toLocaleString (ab_nonce b)]),
      (''Version'', [dec_int (ab_version b)]),
      (''Credit Pool'', [formatDuffs (ab_creditPoolBalance b) 8])]"

definition block_hero :: "(int \<Rightarrow> string) \<Rightarrow> ApiBlock \<Rightarrow> (string \<times> string) list" where
  "block_hero toLocaleString b =
     [(''Transactions'', toLocaleString (ab_txCount b)),
      (''Size'', to_fixed 2 (of_int (ab_size b) / 1024) @ ''KB''),
      (''Difficulty'', to_fixed 2 (ab_difficulty b))]"

section \<open>The neighbours of a block\<close>

text \<open>What the page knows of a row of the table of blocks.\<close>

definition block_read :: "db \<Rightarrow> block_row \<Rightarrow> ApiBlock \<Rightarrow> bool" where
  "block_read d row b \<longleftrightarrow>
     ab_height b = b_height row \<and> b_hash row = Some (ab_hash b) \<and>
     b_previous_block_hash row = Some (ab_previousBlockHash b) \<and>
     confirmations_of d (Some (b_height row)) = J (ab_confirmations b)"

definition hashes_of_64 :: "db \<Rightarrow> bool" where
  "hashes_of_64 d \<longleftrightarrow> list_all (\<lambda>b. map_option length (b_hash b) \<in> {None, Some 64}) (db_blocks d)"

definition linked :: "db \<Rightarrow> block_row \<Rightarrow> bool" where
  "linked d row \<longleftrightarrow> list_ex (\<lambda>p. b_hash p = b_previous_block_hash row \<and> b_height p = b_height row - 1) (db_blocks d)"

lemma short_text_not_found:
  assumes "hashes_of_64 d" "length x < 64"
  shows "block_handler d x = Inr (Refused 404 ''Block not found'')"
proof -
  have "find (\<lambda>b. b_hash b = Some x) (db_blocks d) = None"
    using assms unfolding find_None_iff hashes_of_64_def list_all_iff by fastforce
  then show ?thesis by (simp add: block_handler_def getBlockByHash_def)
qed

lemma height_text_short:
  assumes "0 \<le> h" "h < 10 ^ 20"
  shows "length (dec_int h) < 64"
proof -
  have "nat h < 10 ^ Suc 19" using assms by (simp add: nat_less_iff)
  from length_dec_nat [OF this] show ?thesis using assms(1) by (simp add: dec_int_def)
qed

lemma hash_found:
  assumes "distinct (map b_hash (db_blocks d))" "p \<in> set (db_blocks d)" "b_hash p = Some x"
  shows "block_handler d x = Inr (Sent 200 (Block_fromRow (block_columns d p)))"
  using find_key [OF assms(1,2)] assms(3) by (simp add: block_handler_def getBlockByHash_def)

text \<open>
  C16: the neighbours of a block. The button for the previous block leads to the block below, since it goes
  by its hash. The button for the next block is offered exactly when the chain has a higher block, but
  it goes by a height, and the API knows blocks by their hash only: wherever it is offered, the look-up
  is refused and the page that opens says that there is no such block.
\<close>

theorem next_block_is_never_found:
  assumes "row \<in> set (db_blocks d)" "block_read d row b" "hashes_of_64 d" "linked d row"
    "distinct (map b_hash (db_blocks d))" "0 \<le> b_height row" "b_height row + 1 < 10 ^ 20"
  shows "(\<exists>p. previous_link b = BlockRoute (ab_previousBlockHash b) \<and>
      block_handler d (ab_previousBlockHash b) = Inr (Sent 200 p) \<and>
      bk_hash p = Some (ab_previousBlockHash b) \<and> bk_height p = Some (b_height row - 1)) \<and>
    (next_link b \<noteq> None \<longleftrightarrow> (\<exists>above \<in> set (db_blocks d). b_height row < b_height above)) \<and>
    (\<forall>x. next_link b = Some (BlockRoute x) \<longrightarrow>
      block_handler d x = Inr (Refused 404 ''Block not found'') \<and>
      block_body_of False x None = BlockNotFound (dec_int (b_height row + 1)))"
proof (intro conjI allI impI)
  obtain p where p: "p \<in> set (db_blocks d)" "b_hash p = b_previous_block_hash row" "b_height p = b_height row - 1"
    using assms(4) by (auto simp: linked_def list_ex_iff)
  have "b_hash p = Some (ab_previousBlockHash b)" using p(2) assms(2) by (simp add: block_read_def)
  from hash_found [OF assms(5) p(1) this] this p(3)
  show "\<exists>p. previous_link b = BlockRoute (ab_previousBlockHash b) \<and>
      block_handler d (ab_previousBlockHash b) = Inr (Sent 200 p) \<and>
      bk_hash p = Some (ab_previousBlockHash b) \<and> bk_height p = Some (b_height row - 1)"
    by (intro exI [of _ "Block_fromRow (block_columns d p)"])
       (simp add: previous_link_def Block_fromRow_def new_Block_def block_columns_def)
next
  show "next_link b \<noteq> None \<longleftrightarrow> (\<exists>above \<in> set (db_blocks d). b_height row < b_height above)"
  proof -
    obtain m where m: "max_height d = Some m" and conf: "ab_confirmations b = m - b_height row + 1"
      using assms(2) by (auto simp: block_read_def confirmations_of_def split: option.splits)
    have "next_link b \<noteq> None \<longleftrightarrow> b_height row < m" by (simp add: next_link_def conf)
    also have "\<dots> \<longleftrightarrow> (\<exists>above \<in> set (db_blocks d). b_height row < b_height above)"
      using m [unfolded max_height_Some] by (auto intro: less_le_trans)
    finally show ?thesis .
  qed
next
  fix x assume "next_link b = Some (BlockRoute x)"
  then have x: "x = dec_int (b_height row + 1)"
    using assms(2) by (simp add: next_link_def block_read_def split: if_splits)
  then have "length x < 64" using height_text_short assms(6,7) by simp
  then show "block_handler d x = Inr (Refused 404 ''Block not found'')"
    by (rule short_text_not_found [OF assms(3)])
  show "block_body_of False x None = BlockNotFound (dec_int (b_height row + 1))"
    by (simp add: block_body_of_def x)
qed

definition three_blocks :: db where
  "three_blocks = sample_db\<lparr>db_blocks :=
     [(sample_block 1 0 False)\<lparr>b_hash := Some (replicate 64 (CHR ''a''))\<rparr>,
      (sample_block 2 150000 False)\<lparr>b_hash := Some (replicate 64 (CHR ''b'')),
        b_previous_block_hash := Some (replicate 64 (CHR ''a''))\<rparr>,
      (sample_block 3 300000 False)\<lparr>b_hash := Some (replicate 64 (CHR ''c'')),
        b_previous_block_hash := Some (replicate 64 (CHR ''b''))\<rparr>]\<rparr>"

definition second_block :: ApiBlock where
  "second_block = \<lparr>ab_height = 2, ab_hash = replicate 64 (CHR ''b''), ab_version = 1, ab_timestamp = '''',
     ab_txCount = 2, ab_size = 300, ab_creditPoolBalance = 0, ab_difficulty = 1, ab_merkleRoot = ''r'',
     ab_previousBlockHash = replicate 64 (CHR ''a''), ab_confirmations = 2, ab_nonce = 0, ab_superblock = J False\<rparr>"

theorem next_block_is_never_found_witness:
  "next_link second_block \<noteq> None \<and>
   block_handler three_blocks (dec_int 3) = Inr (Refused 404 ''Block not found'')"
proof -
  let ?row = "(sample_block 2 150000 False)\<lparr>b_hash := Some (replicate 64 (CHR ''b'')),
        b_previous_block_hash := Some (replicate 64 (CHR ''a''))\<rparr>"
  have row: "?row \<in> set (db_blocks three_blocks)" by (simp add: three_blocks_def)
  have top: "max_height three_blocks = Some 3"
    by (simp add: max_height_def three_blocks_def sample_block_def)
  have seen: "block_read three_blocks ?row second_block"
    by (simp add: block_read_def confirmations_of_def top second_block_def sample_block_def)
  have hashes: "hashes_of_64 three_blocks" by (simp add: hashes_of_64_def three_blocks_def sample_block_def)
  have chain: "linked three_blocks ?row"
    by (simp add: linked_def three_blocks_def sample_block_def)
  have apart: "distinct (map b_hash (db_blocks three_blocks))"
    by (simp add: three_blocks_def sample_block_def replicate_eq_replicate)
  have low: "0 \<le> b_height ?row" "b_height ?row + 1 < 10 ^ 20" by (simp_all add: sample_block_def)
  note neighbours = next_block_is_never_found [OF row seen hashes chain apart low]
  have "\<exists>above \<in> set (db_blocks three_blocks). b_height ?row < b_height above"
    by (simp add: three_blocks_def sample_block_def)
  then have "next_link second_block \<noteq> None"
    using neighbours [THEN conjunct2, THEN conjunct1] by blast
  moreover have "next_link second_block = Some (BlockRoute (dec_int 3))"
    by (simp add: next_link_def second_block_def)
  ultimately show ?thesis
    using neighbours [THEN conjunct2, THEN conjunct2] by blast
qed

text \<open>The bar fills one slot for each confirmation, six of them at most.\<close>

lemma lit_slots: "0 \<le> c \<Longrightarrow> length (filter id (map (\<lambda>i. int i < c) [0..<k])) = min k (nat c)"
  by (induction k) (auto simp: min_def)

lemma slots_filled:
  "0 \<le> c \<Longrightarrow> length (filter id (cb_slots (ConfirmationBar c))) = min 6 (nat c)"
  using lit_slots [of c 6] by (simp add: ConfirmationBar_def Let_def FINALITY_CONFIRMS_def del: upt_rec_numeral)

text \<open>An age is printed exactly up to its last unit, which is rounded down.\<close>

lemma age_in_days:
  assumes "86400000 \<le> ms"
  shows "\<exists>days hours. formatAge ms = dec_int days @ ''d '' @ dec_int hours @ ''h'' \<and> 0 \<le> hours \<and> hours < 24 \<and>
    days * 86400000 + hours * 3600000 \<le> ms \<and> ms < days * 86400000 + hours * 3600000 + 3600000"
proof -
  define sec where "sec = ms div 1000"
  define min where "min = sec div 60"
  define hr where "hr = min div 60"
  have sec: "sec * 1000 \<le> ms" "ms < sec * 1000 + 1000" unfolding sec_def by linarith+
  have min: "min * 60 \<le> sec" "sec < min * 60 + 60" unfolding min_def by linarith+
  have hour: "hr * 60 \<le> min" "min < hr * 60 + 60" unfolding hr_def by linarith+
  have bounds: "hr * 3600000 \<le> ms" "ms < hr * 3600000 + 3600000" "24 \<le> hr" "60 \<le> min" "60 \<le> sec"
    using sec min hour assms by linarith+
  have age: "formatAge ms = dec_int (hr div 24) @ ''d '' @ dec_int (hr mod 24) @ ''h''"
    using bounds assms
    by (simp add: formatAge_def Let_def sec_def [symmetric] min_def [symmetric] hr_def [symmetric])
  have "hr div 24 * 24 + hr mod 24 = hr" by simp
  moreover have "(q * 24 + r) * 3600000 = q * 86400000 + r * 3600000" for q r :: int by simp
  ultimately have "hr div 24 * 86400000 + hr mod 24 * 3600000 = hr * 3600000" by metis
  then show ?thesis using bounds age by (intro exI [of _ "hr div 24"] exI [of _ "hr mod 24"]) simp
qed

end
