(* ===== verification/TransactionPage.thy ===== *)
theory TransactionPage
  imports BlockPage
begin

text \<open>
  The page of a transaction, \<open>frontend/src/themes/neo/pages/transaction-detail.tsx\<close>: its sums and fee, the ribbon
  that divides its value, and its rows, with \<open>components/extra-payload.tsx\<close>, which shows the payload of a special
  transaction, and the badges of \<open>components/status-badge.tsx\<close>. The graph of its inputs and outputs is in \<open>FlowGraph\<close>.
  Amounts are whole numbers of duffs. Colours are kept as the texts of the source; the markup is not modelled.
\<close>

section \<open>Badges\<close>

definition TX_TYPE_VARIANTS :: "(int \<times> string) list" where
  "TX_TYPE_VARIANTS =
     [(0, ''soft-accent''), (1, ''soft''), (2, ''soft''), (3, ''soft''), (4, ''soft-destructive''), (5, ''soft''),
      (6, ''soft''), (7, ''soft''), (8, ''soft-success''), (9, ''soft-success'')]"

definition getTxTypeVariant :: "int \<Rightarrow> string" where
  "getTxTypeVariant n = or_else (map_of TX_TYPE_VARIANTS n) ''soft''"

definition getMnStatusVariant :: "string \<Rightarrow> string" where
  "getMnStatusVariant st =
     (let s = js_upper st in
      if s = ''ENABLED'' then ''soft-success''
      else if js_includes s ''BANNED'' then ''soft-destructive'' else ''soft'')"

definition getMnTypeVariant :: "string \<Rightarrow> string" where
  "getMnTypeVariant ty =
     (let t = js_lower ty in
      if t = ''evo'' \<or> t = ''evolution'' \<or> t = ''highperformance'' then ''soft-accent'' else ''soft'')"

definition TX_TYPE_CLASSES :: "(int \<times> string) list" where
  "TX_TYPE_CLASSES =
     [(0, ''bg-blue-500/10 text-blue-600 border-blue-500/20 dark:bg-blue-400/10 dark:text-blue-300''),
      (1, ''bg-violet-500/10 text-violet-600 border-violet-500/20 dark:bg-violet-400/10 dark:text-violet-300''),
      (2, ''bg-indigo-500/10 text-indigo-600 border-indigo-500/20 dark:bg-indigo-400/10 dark:text-indigo-300''),
      (3, ''bg-cyan-500/10 text-cyan-700 border-cyan-500/20 dark:bg-cyan-400/10 dark:text-cyan-300''),
      (4, ''bg-red-500/10 text-red-600 border-red-500/20 dark:bg-red-400/10 dark:text-red-300''),
      (5, ''bg-amber-500/10 text-amber-700 border-amber-500/30 dark:bg-amber-400/10 dark:text-amber-300''),
      (6, ''bg-teal-500/10 text-teal-700 border-teal-500/20 dark:bg-teal-400/10 dark:text-teal-300''),
      (7, ''bg-slate-500/10 text-slate-700 border-slate-500/20 dark:bg-slate-400/10 dark:text-slate-300''),
      (8, ''bg-emerald-500/10 text-emerald-700 border-emerald-500/20 dark:bg-emerald-400/10 dark:text-emerald-300''),
      (9, ''bg-lime-500/10 text-lime-700 border-lime-500/20 dark:bg-lime-400/10 dark:text-lime-300'')]"

datatype type_badge = OutlineBadge string string | VariantBadge string string

definition TxTypeBadge :: "tx_type_ref js \<Rightarrow> type_badge" where
  "TxTypeBadge ty =
     (let n = txTypeNum ty; label = getTxTypeLabel (J (TypeNum n)) in
      case map_of TX_TYPE_CLASSES n of
        Some cls \<Rightarrow> if cls = [] then VariantBadge (getTxTypeVariant n) label else OutlineBadge cls label
      | None \<Rightarrow> VariantBadge (getTxTypeVariant n) label)"

definition type_ref :: "string option \<Rightarrow> tx_type_ref js" where
  "type_ref ty = (case ty of Some s \<Rightarrow> J (TypeName s) | None \<Rightarrow> JNull)"

fun InstantLockBadge :: "lock_field option \<Rightarrow> string \<times> string" where
  "InstantLockBadge (Some (LockText s)) = (if length s > 0 then (''soft-success'', ''InstantSend'') else (''soft'', ''Pending''))"
| "InstantLockBadge (Some (LockFlag b)) = (if b then (''soft-success'', ''InstantSend'') else (''soft'', ''Pending''))"
| "InstantLockBadge None = (''soft'', ''Pending'')"

definition ChainLockBadge :: "bool js \<Rightarrow> (string \<times> string) option" where
  "ChainLockBadge locked = (if locked = J True then Some (''soft-accent'', ''Chain Locked'') else None)"

definition ConfirmationsBadge :: "(int \<Rightarrow> string) \<Rightarrow> int \<Rightarrow> string \<times> string" where
  "ConfirmationsBadge toLocaleString confirmations =
     (if confirmations = 0 then (''soft'', ''Unconfirmed'')
      else (''soft-success'', toLocaleString confirmations @ '' '' @ (if confirmations = 1 then ''confirm'' else ''confirms'')))"

text \<open>The rows of the table of a block's transactions.\<close>

record block_tx_cells =
  bt_to :: string
  bt_type :: type_badge
  bt_lock :: "string \<times> string"
  bt_inputs :: "nat \<times> string"
  bt_outputs :: "nat \<times> string"
  bt_confirms :: "string \<times> string"
  bt_amount :: string

definition counted :: "string \<Rightarrow> nat \<Rightarrow> nat \<times> string" where
  "counted what n = (n, dec_nat n @ '' '' @ what @ (if n = 1 then '''' else ''s''))"

definition block_tx_cells_of :: "(int \<Rightarrow> string) \<Rightarrow> 'p ApiTransaction \<Rightarrow> block_tx_cells" where
  "block_tx_cells_of toLocaleString t =
     \<lparr>bt_to = ''/transactions/'' @ at_hash t, bt_type = TxTypeBadge (type_ref (at_type t)),
      bt_lock = InstantLockBadge (at_instantLock t), bt_inputs = counted ''input'' (length (at_vIn t)),
      bt_outputs = counted ''output'' (length (at_vOut t)),
      bt_confirms = ConfirmationsBadge toLocaleString (at_confirmations t),
      bt_amount = formatDuffs (sumVOut (J (at_vOut t))) 8\<rparr>"

section \<open>The value of a transaction\<close>

definition RIBBON_PALETTE :: "string list" where
  "RIBBON_PALETTE = [''#4c7eff'', ''#8b5cf6'', ''#14b8a6'', ''#f59e0b'', ''#84cc16'', ''#ec4899'', ''#06b6d4'', ''#f43f5e'']"

definition paletteFor :: "nat \<Rightarrow> string" where
  "paletteFor index = RIBBON_PALETTE ! (index mod length RIBBON_PALETTE)"

definition shortAddr :: "string option \<Rightarrow> string" where
  "shortAddr addr =
     (case addr of
        None \<Rightarrow> long_dash
      | Some a \<Rightarrow>
          if a = [] then long_dash
          else if length a \<le> 14 then a
          else js_slice a 0 6 @ ellipsis @ js_slice_from a (- 6))"

record ribbon_segment =
  rs_id :: string
  rs_label :: string
  rs_amount :: int
  rs_color :: string

definition sumInputs :: "ApiVIn list \<Rightarrow> int option" where
  "sumInputs ins =
     (if ins = [] then None
      else let
          step = (\<lambda>acc input. case vi_amount input of None \<Rightarrow> acc | Some n \<Rightarrow> (fst acc + n, True));
          acc = foldl step (0, False) ins
        in if snd acc then Some (fst acc) else None)"

definition sumOutputs :: "ApiVOut list \<Rightarrow> int option" where
  "sumOutputs outs = (if outs = [] then None else Some (foldl (\<lambda>acc out. acc + vo_value out) 0 outs))"

definition isCoinbase :: "'p ApiTransaction \<Rightarrow> bool" where
  "isCoinbase tx \<longleftrightarrow> at_type tx = Some ''COINBASE''"

definition isQuorum :: "'p ApiTransaction \<Rightarrow> bool" where
  "isQuorum tx \<longleftrightarrow> at_type tx = Some ''QUORUM_COMMITMENT''"

definition tx_fee :: "'p ApiTransaction \<Rightarrow> int option" where
  "tx_fee tx =
     (if isCoinbase tx then None
      else case (sumInputs (at_vIn tx), sumOutputs (at_vOut tx)) of
          (Some i, Some out) \<Rightarrow> Some (max 0 (i - out))
        | _ \<Rightarrow> None)"

definition ribbonSegments :: "'p ApiTransaction \<Rightarrow> ribbon_segment list" where
  "ribbonSegments tx =
     map (\<lambda>(i, out). \<lparr>rs_id = ''out-'' @ dec_nat i, rs_label = shortAddr (vo_address out), rs_amount = vo_value out,
         rs_color = paletteFor i\<rparr>)
       (enumerate 0 (filter (\<lambda>out. vo_value out > 0) (at_vOut tx))) @
     (case tx_fee tx of
        Some fee \<Rightarrow> if fee > 0
          then [\<lparr>rs_id = ''fee'', rs_label = ''Fee'', rs_amount = fee, rs_color = ''var(--accent-amber)''\<rparr>] else []
      | None \<Rightarrow> [])"

definition ribbonTotal :: "'p ApiTransaction \<Rightarrow> int" where
  "ribbonTotal tx = foldl (\<lambda>s x. s + rs_amount x) 0 (ribbonSegments tx)"

text \<open>A share as it is, and as the doubles of the browser print it.\<close>

definition segment_pct :: "int \<Rightarrow> ribbon_segment \<Rightarrow> rat" where
  "segment_pct whole s = of_int (rs_amount s) / of_int whole * 100"

definition shown_pct :: "int \<Rightarrow> ribbon_segment \<Rightarrow> rat" where
  "shown_pct whole s = fl (fl (of_int (rs_amount s) / of_int whole) * 100)"

record ribbon =
  rb_bars :: "(ribbon_segment \<times> rat) list"
  rb_legend :: "(ribbon_segment \<times> string) list"
  rb_more :: "nat option"

definition ValueRibbon :: "ribbon_segment list \<Rightarrow> int \<Rightarrow> ribbon option" where
  "ValueRibbon segs whole =
     (if whole \<le> 0 \<or> segs = [] then None
      else Some
        \<lparr>rb_bars = map (\<lambda>s. (s, segment_pct whole s)) (filter (\<lambda>s. segment_pct whole s > 0) segs),
         rb_legend = map (\<lambda>s. let pct = shown_pct whole s
             in (s, to_fixed (if pct < 1 then 2 else 1) pct @ ''%'')) (js_slice segs 0 8),
         rb_more = (if length segs > 8 then Some (length segs - 8) else None)\<rparr>)"

definition hasValueData :: "'p ApiTransaction \<Rightarrow> bool" where
  "hasValueData tx \<longleftrightarrow> \<not> isQuorum tx \<and> (sumInputs (at_vIn tx) \<noteq> None \<or> sumOutputs (at_vOut tx) \<noteq> None)"

definition callout :: "int option \<Rightarrow> string option" where
  "callout v = map_option (\<lambda>n. to_fixed 8 (fl (of_int n / 100000000))) v"

record value_card =
  vc_fee_badge :: "string option"
  vc_ribbon :: "ribbon option"
  vc_cells :: "(string \<times> string option \<times> bool) list"

definition valueDistributionCard :: "'p ApiTransaction \<Rightarrow> value_card option" where
  "valueDistributionCard tx =
     (if hasValueData tx then
        Some \<lparr>vc_fee_badge = (case tx_fee tx of Some fee \<Rightarrow> if fee > 0 then callout (Some fee) else None | None \<Rightarrow> None),
          vc_ribbon = (if ribbonTotal tx > 0 then ValueRibbon (ribbonSegments tx) (ribbonTotal tx) else None),
          vc_cells = [(''Total Input'', callout (sumInputs (at_vIn tx)), False),
            (''Total Output'', callout (sumOutputs (at_vOut tx)), False),
            (''Network Fee'', callout (tx_fee tx), \<not> (\<exists>fee \<in> set_option (tx_fee tx). fee > 0))]\<rparr>
      else None)"

section \<open>The rows of the summary\<close>

definition amount_row :: "int option \<Rightarrow> string" where
  "amount_row v = (case v of None \<Rightarrow> long_dash | Some n \<Rightarrow> formatDuffs n 8)"

definition tx_rows :: "(string \<Rightarrow> date) \<Rightarrow> (int \<Rightarrow> string) \<Rightarrow> (string \<Rightarrow> string) \<Rightarrow> int \<Rightarrow>
    'p ApiTransaction \<Rightarrow> (string \<times> string list) list" where
  "tx_rows parse toLocaleString dateLocale now tx =
     [(''Hash'', [at_hash tx]),
      (''Block'', [CHR ''#'' # toLocaleString (at_blockHeight tx)]),
      (''Timestamp'', (case at_timestamp tx of
         Some s \<Rightarrow> if s = [] then [long_dash] else [dateLocale s, formatRelativeTime parse now (MomentText s)]
       | None \<Rightarrow> [long_dash])),
      (''Confirmations'', [toLocaleString (at_confirmations tx)])] @
     (if isCoinbase tx then [(''Block Reward'', [amount_row (sumOutputs (at_vOut tx))])]
      else if isQuorum tx then []
      else [(''Total Input'', [amount_row (sumInputs (at_vIn tx))]),
        (''Total Output'', [amount_row (sumOutputs (at_vOut tx))]), (''Fee'', [amount_row (tx_fee tx)])]) @
     [(''Size'', [case at_size tx of J n \<Rightarrow> toLocaleString n @ '' bytes'' | _ \<Rightarrow> long_dash])]"

datatype flow_panel = FlowShown | FlowEmpty string "string option"

definition flow_panel_of :: "'p ApiTransaction \<Rightarrow> flow_panel" where
  "flow_panel_of tx =
     (if length (at_vIn tx) > 0 \<or> length (at_vOut tx) > 0 then FlowShown
      else if isCoinbase tx then FlowEmpty ''Coinbase transaction''
        (Some ''This transaction creates new coins from a mined block.'')
      else if isQuorum tx then FlowEmpty ''Quorum commitment''
        (Some ''Quorum commitments do not consume inputs or produce outputs.'')
      else FlowEmpty ''No inputs or outputs'' None)"

datatype 'p tx_body = TxSkeleton | TxNotFound string | TxShown "'p ApiTransaction"

definition tx_body_of :: "bool \<Rightarrow> string \<Rightarrow> 'p ApiTransaction option \<Rightarrow> 'p tx_body" where
  "tx_body_of isFetching hash tx =
     (case tx of None \<Rightarrow> if isFetching then TxSkeleton else TxNotFound hash | Some t \<Rightarrow> TxShown t)"

definition CoinbaseRewardPill :: "int option \<Rightarrow> string option" where
  "CoinbaseRewardPill reward = callout reward"

section \<open>What the sums say\<close>

lemma sumInputs_all:
  assumes "ins \<noteq> []" "\<forall>i \<in> set ins. vi_amount i \<noteq> None"
  shows "sumInputs ins = Some (sum_list (map (\<lambda>i. the (vi_amount i)) ins))"
proof -
  have "foldl (\<lambda>acc input. case vi_amount input of None \<Rightarrow> acc | Some n \<Rightarrow> (fst acc + n, True)) (a, b) xs =
      (a + sum_list (map (\<lambda>i. the (vi_amount i)) xs), b \<or> xs \<noteq> [])"
    if "\<forall>i \<in> set xs. vi_amount i \<noteq> None" for xs a b
    using that by (induction xs arbitrary: a b) auto
  from this [OF assms(2), of 0 False] show ?thesis using assms(1) by (simp add: sumInputs_def)
qed

lemma sumInputs_known:
  "sumInputs ins = (if \<exists>i \<in> set ins. vi_amount i \<noteq> None
     then Some (sum_list (map (\<lambda>i. or_else (vi_amount i) 0) ins)) else None)"
proof -
  have "foldl (\<lambda>acc input. case vi_amount input of None \<Rightarrow> acc | Some n \<Rightarrow> (fst acc + n, True)) (a, b) xs =
      (a + sum_list (map (\<lambda>i. or_else (vi_amount i) 0) xs), b \<or> (\<exists>i \<in> set xs. vi_amount i \<noteq> None))" for xs a b
    by (induction xs arbitrary: a b) (auto split: option.splits)
  from this [of 0 False ins] show ?thesis by (auto simp: sumInputs_def Let_def)
qed

lemma sumOutputs_sum: "outs \<noteq> [] \<Longrightarrow> sumOutputs outs = Some (sum_list (map vo_value outs))"
proof -
  have "foldl (\<lambda>acc out. acc + vo_value out) z xs = z + sum_list (map vo_value xs)" for z and xs :: "ApiVOut list"
    by (induction xs arbitrary: z) simp_all
  then show "outs \<noteq> [] \<Longrightarrow> sumOutputs outs = Some (sum_list (map vo_value outs))" by (simp add: sumOutputs_def)
qed

lemma ribbonTotal_sum:
  "ribbonTotal tx = sum_list (map vo_value (filter (\<lambda>out. vo_value out > 0) (at_vOut tx))) +
     (case tx_fee tx of Some fee \<Rightarrow> max 0 fee | None \<Rightarrow> 0)"
proof -
  have "sum_list (map rs_amount (map (\<lambda>(i, out). \<lparr>rs_id = ''out-'' @ dec_nat i, rs_label = shortAddr (vo_address out),
      rs_amount = vo_value out, rs_color = paletteFor i\<rparr>) (enumerate n outs))) = sum_list (map vo_value outs)" for n and outs :: "ApiVOut list"
    by (induction outs arbitrary: n) simp_all
  then show ?thesis
    by (simp add: ribbonTotal_def foldl_add_sum ribbonSegments_def comp_def split: option.split)
qed

lemma ribbon_positive: "s \<in> set (ribbonSegments tx) \<Longrightarrow> 0 < rs_amount s"
  by (auto simp: ribbonSegments_def in_set_enumerate_eq dest!: nth_mem split: option.splits if_splits)

lemma pct_sum:
  assumes "0 < whole" "whole = sum_list (map rs_amount segs)"
  shows "sum_list (map (segment_pct whole) segs) = 100"
proof -
  have "sum_list (map (segment_pct w) xs) = of_int (sum_list (map rs_amount xs)) / of_int w * 100" for w xs
    by (induction xs) (simp_all add: segment_pct_def add_divide_distrib algebra_simps)
  then show ?thesis using assms by simp
qed

text \<open>
  C17: where the value goes. The fee is never negative, and where every amount is known it is what the inputs
  hold more than the outputs; then the ribbon divides exactly the value of the inputs, and its bars, each
  wider than nothing, fill it to the full. But an input without an amount counts as nothing: then the
  fee is too low by what those inputs hold, down to zero, and the page says nothing of it.
\<close>

theorem value_is_divided:
  fixes tx :: "'p ApiTransaction" and real_amount :: "ApiVIn \<Rightarrow> int"
  assumes "\<not> isCoinbase tx" "at_vIn tx \<noteq> []" "at_vOut tx \<noteq> []" "\<forall>out \<in> set (at_vOut tx). 0 \<le> vo_value out"
    "\<forall>i \<in> set (at_vIn tx). 0 \<le> real_amount i \<and> vi_amount i \<in> {None, Some (real_amount i)}"
  defines "paid_in \<equiv> sum_list (map real_amount (at_vIn tx))"
    and "paid_out \<equiv> sum_list (map vo_value (at_vOut tx))"
    and "unknown \<equiv> sum_list (map real_amount (filter (\<lambda>i. vi_amount i = None) (at_vIn tx)))"
  assumes "paid_out \<le> paid_in"
  shows "(\<forall>fee. tx_fee tx = Some fee \<longrightarrow> fee = max 0 (paid_in - paid_out - unknown) \<and> fee \<le> paid_in - paid_out) \<and>
    (tx_fee tx = None \<longleftrightarrow> (\<forall>i \<in> set (at_vIn tx). vi_amount i = None)) \<and>
    ((\<forall>i \<in> set (at_vIn tx). vi_amount i \<noteq> None) \<longrightarrow>
       tx_fee tx = Some (paid_in - paid_out) \<and> ribbonTotal tx = paid_in) \<and>
    (\<forall>rb. ValueRibbon (ribbonSegments tx) (ribbonTotal tx) = Some rb \<longrightarrow>
       map fst (rb_bars rb) = ribbonSegments tx \<and> (\<forall>(s, pct) \<in> set (rb_bars rb). 0 < pct) \<and>
       sum_list (map snd (rb_bars rb)) = 100)"
proof -
  have known: "sum_list (map (\<lambda>i. or_else (vi_amount i) 0) (at_vIn tx)) = paid_in - unknown"
  proof -
    have "sum_list (map (\<lambda>i. or_else (vi_amount i) 0) xs) =
        sum_list (map real_amount xs) - sum_list (map real_amount (filter (\<lambda>i. vi_amount i = None) xs))"
      if "\<forall>i \<in> set xs. 0 \<le> real_amount i \<and> vi_amount i \<in> {None, Some (real_amount i)}" for xs
      using that by (induction xs) auto
    from this [OF assms(5)] show ?thesis by (simp add: paid_in_def unknown_def)
  qed
  have "0 \<le> unknown" unfolding unknown_def using assms(5) by (intro sum_list_nonneg) auto
  have fee: "tx_fee tx = (if \<exists>i \<in> set (at_vIn tx). vi_amount i \<noteq> None
      then Some (max 0 (paid_in - unknown - paid_out)) else None)"
    using assms(1,2) sumOutputs_sum [OF assms(3)]
    by (simp add: tx_fee_def sumInputs_known known paid_out_def)
  have outs: "sum_list (map vo_value (filter (\<lambda>out. vo_value out > 0) xs)) = sum_list (map vo_value xs)"
    if "\<forall>out \<in> set xs. 0 \<le> vo_value out" for xs :: "ApiVOut list" using that by (induction xs) auto
  have part1: "fee' = max 0 (paid_in - paid_out - unknown) \<and> fee' \<le> paid_in - paid_out" if "tx_fee tx = Some fee'" for fee'
    using that \<open>0 \<le> unknown\<close> assms(9) unfolding fee by (auto split: if_splits)
  have part2: "tx_fee tx = None \<longleftrightarrow> (\<forall>i \<in> set (at_vIn tx). vi_amount i = None)"
    unfolding fee by auto
  have part3: "tx_fee tx = Some (paid_in - paid_out) \<and> ribbonTotal tx = paid_in"
    if all: "\<forall>i \<in> set (at_vIn tx). vi_amount i \<noteq> None"
  proof -
    have "filter (\<lambda>i. vi_amount i = None) (at_vIn tx) = []" using all by (simp add: filter_empty_conv)
    then have "unknown = 0" by (simp add: unknown_def)
    moreover have "\<exists>i \<in> set (at_vIn tx). vi_amount i \<noteq> None" using all assms(2) by (cases "at_vIn tx") auto
    ultimately have "tx_fee tx = Some (paid_in - paid_out)" using assms(9) by (simp add: fee)
    then show ?thesis using assms(9) by (simp add: ribbonTotal_sum outs [OF assms(4)] paid_out_def [symmetric])
  qed
  have part4: "map fst (rb_bars rb) = ribbonSegments tx \<and> (\<forall>(s, pct) \<in> set (rb_bars rb). 0 < pct) \<and>
      sum_list (map snd (rb_bars rb)) = 100"
    if rb: "ValueRibbon (ribbonSegments tx) (ribbonTotal tx) = Some rb" for rb
  proof -
    have pos: "0 < ribbonTotal tx" using rb by (auto simp: ValueRibbon_def split: if_splits)
    have bars: "rb_bars rb = map (\<lambda>s. (s, segment_pct (ribbonTotal tx) s))
        (filter (\<lambda>s. segment_pct (ribbonTotal tx) s > 0) (ribbonSegments tx))"
      using rb by (auto simp: ValueRibbon_def split: if_splits)
    have wide: "\<forall>s \<in> set (ribbonSegments tx). 0 < segment_pct (ribbonTotal tx) s"
    proof
      fix s assume "s \<in> set (ribbonSegments tx)"
      then have "0 < rs_amount s" by (rule ribbon_positive)
      then show "0 < segment_pct (ribbonTotal tx) s" using pos by (simp add: segment_pct_def)
    qed
    then have "filter (\<lambda>s. segment_pct (ribbonTotal tx) s > 0) (ribbonSegments tx) = ribbonSegments tx"
      by (simp add: filter_id_conv)
    moreover have "ribbonTotal tx = sum_list (map rs_amount (ribbonSegments tx))"
      by (simp add: ribbonTotal_def foldl_add_sum)
    ultimately show ?thesis using bars wide pct_sum [OF pos] by (simp add: comp_def)
  qed
  show ?thesis using part1 part2 part3 part4 by blast
qed

definition sample_payment :: "unit ApiTransaction" where
  "sample_payment =
     \<lparr>at_hash = ''h'', at_type = Some ''CLASSIC'', at_blockHeight = 7, at_blockHash = ''b'', at_amount = None,
      at_version = 1,
      at_vIn = [\<lparr>vi_prevTxHash = None, vi_vOutIndex = None, vi_sequence = None, vi_scriptSigASM = None,
          vi_address = None, vi_amount = Some 300\<rparr>,
        \<lparr>vi_prevTxHash = None, vi_vOutIndex = None, vi_sequence = None, vi_scriptSigASM = None,
          vi_address = None, vi_amount = None\<rparr>],
      at_vOut = [\<lparr>vo_value = 250, vo_number = 0, vo_scriptPubKeyASM = '''', vo_address = Some ''a''\<rparr>],
      at_confirmations = 1, at_instantLock = None, at_chainLocked = JNull, at_coinjoin = False, at_multisig = False,
      at_size = JNull, at_timestamp = None, at_extraPayload = JNull\<rparr>"

theorem value_is_divided_witness:
  "\<exists>fee. tx_fee sample_payment = Some fee \<and> fee = max 0 (350 - 250 - 50)"
proof -
  have facts: "\<not> isCoinbase sample_payment" "at_vIn sample_payment \<noteq> []" "at_vOut sample_payment \<noteq> []"
    "\<forall>out \<in> set (at_vOut sample_payment). 0 \<le> vo_value out"
    "\<forall>i \<in> set (at_vIn sample_payment). 0 \<le> or_else (vi_amount i) 50 \<and>
       vi_amount i \<in> {None, Some (or_else (vi_amount i) 50)}"
    "sum_list (map vo_value (at_vOut sample_payment)) \<le>
       sum_list (map (\<lambda>i. or_else (vi_amount i) 50) (at_vIn sample_payment))"
    by (simp_all add: sample_payment_def isCoinbase_def)
  have "tx_fee sample_payment \<noteq> None"
    using value_is_divided [OF facts, THEN conjunct2, THEN conjunct1] by (simp add: sample_payment_def)
  then obtain fee where fee: "tx_fee sample_payment = Some fee" by blast
  have "fee = max 0 (350 - 250 - 50)"
    using value_is_divided [OF facts, THEN conjunct1, rule_format, OF fee] by (simp add: sample_payment_def)
  with fee show ?thesis by blast
qed

section \<open>Payloads of special transactions\<close>

record platform_fields =
  pf_platformNodeID :: string
  pf_platformP2PPort :: int
  pf_platformHTTPPort :: int

record ProRegTxPayload = platform_fields +
  pr_version :: int
  pr_type :: int
  pr_mode :: int
  pr_collateralOutpoint :: "(string \<times> int) option"
  pr_ipAddress :: string
  pr_port :: int
  pr_keyIdOwner :: string
  pr_keyIdVoting :: string
  pr_pubKeyOperator :: string
  pr_operatorReward :: int
  pr_scriptPayout :: string
  pr_inputsHash :: string
  pr_payloadSig :: string

record ProUpServTxPayload = platform_fields +
  ps_version :: int
  ps_type :: int
  ps_proTxHash :: string
  ps_ipAddress :: string
  ps_port :: int
  ps_scriptOperatorPayout :: string
  ps_inputsHash :: string
  ps_payloadSig :: string

record ProUpRegTxPayload =
  pg_version :: int
  pg_proTxHash :: string
  pg_mode :: int
  pg_keyIdVoting :: string
  pg_pubKeyOperator :: string
  pg_scriptPayout :: string
  pg_inputsHash :: string
  pg_payloadSig :: string

record ProUpRevTxPayload =
  pv_version :: int
  pv_proTxHash :: string
  pv_reason :: int
  pv_inputsHash :: string
  pv_payloadSig :: string

record CbTxPayload =
  cx_version :: int
  cx_height :: int
  cx_merkleRootMNList :: string
  cx_merkleRootQuorums :: "string option"
  cx_bestCLHeightDiff :: "string option"
  cx_bestCLSignature :: "string option"
  cx_creditPoolBalance :: "string option"

record QfCommit =
  qf_version :: int
  qf_llmqType :: int
  qf_quorumHash :: string
  qf_quorumIndex :: "int option"
  qf_signers :: string
  qf_validMembers :: string
  qf_quorumPublicKey :: string
  qf_quorumVvecHash :: string
  qf_quorumSig :: string
  qf_sig :: string

record QcTxPayload =
  qc_version :: int
  qc_height :: int
  qc_commitment :: QfCommit

record MnHfTxPayload =
  mh_version :: int
  mh_versionBit :: int
  mh_quorumHash :: string
  mh_sig :: string

record AssetLockTxPayload =
  al_version :: int
  al_count :: int
  al_outputs :: "(string \<times> string) list js"

record AssetUnlockTxPayload =
  au_version :: int
  au_index :: string
  au_fee :: int
  au_requestedHeight :: int
  au_quorumHash :: string
  au_quorumSig :: string

datatype payload =
    ProRegTx ProRegTxPayload
  | ProUpServTx ProUpServTxPayload
  | ProUpRegTx ProUpRegTxPayload
  | ProUpRevTx ProUpRevTxPayload
  | CbTx CbTxPayload
  | QcTx QcTxPayload
  | MnHfTx MnHfTxPayload
  | AssetLockTx AssetLockTxPayload
  | AssetUnlockTx AssetUnlockTxPayload

definition REVOCATION_REASONS :: "(int \<times> string) list" where
  "REVOCATION_REASONS =
     [(0, ''Not specified''), (1, ''Termination of service''), (2, ''Compromised keys''), (3, ''Change of keys'')]"

definition LLMQ_TYPES :: "(int \<times> string) list" where
  "LLMQ_TYPES =
     [(1, ''LLMQ_50_60''), (2, ''LLMQ_400_60''), (3, ''LLMQ_400_85''), (4, ''LLMQ_100_67''), (5, ''LLMQ_60_75''),
      (6, ''LLMQ_25_67''), (100, ''LLMQ_TEST''), (101, ''LLMQ_DEVNET''), (102, ''LLMQ_TEST_V17''),
      (103, ''LLMQ_TEST_DIP0024''), (104, ''LLMQ_TEST_INSTANTSEND''), (105, ''LLMQ_DEVNET_DIP0024''),
      (106, ''LLMQ_TEST_PLATFORM''), (107, ''LLMQ_DEVNET_PLATFORM'')]"

definition PAYLOAD_META :: "(int \<times> string) list" where
  "PAYLOAD_META =
     [(1, ''ProRegTx''), (2, ''ProUpServTx''), (3, ''ProUpRegTx''), (4, ''ProUpRevTx''), (5, ''CbTx''), (6, ''QcTx''),
      (7, ''MnHfTx''), (8, ''AssetLockTx''), (9, ''AssetUnlockTx'')]"

text \<open>What a row shows; \<open>Muted\<close> is the dash that stands for what is missing.\<close>

datatype shown =
    Muted
  | HashText string
  | PlainText string
  | TxRef string
  | BlockRef int
  | NumText string
  | ServiceText string int
  | AmountText string
  | PctText string
  | TagText string string
  | PortsText int int

definition Hex :: "string option \<Rightarrow> shown" where
  "Hex v = (case v of None \<Rightarrow> Muted | Some s \<Rightarrow> if s = [] then Muted else HashText s)"

definition HexPlain :: "string option \<Rightarrow> shown" where
  "HexPlain v = (case v of None \<Rightarrow> Muted | Some s \<Rightarrow> if s = [] then Muted else PlainText s)"

definition TxLink :: "string option \<Rightarrow> shown" where
  "TxLink v = (case v of None \<Rightarrow> Muted | Some s \<Rightarrow> if s = [] then Muted else TxRef s)"

definition Num :: "string option \<Rightarrow> shown" where
  "Num v = (case v of None \<Rightarrow> Muted | Some s \<Rightarrow> if s = [] then Muted else NumText s)"

abbreviation num_of :: "int \<Rightarrow> shown" where "num_of n \<equiv> Num (Some (dec_int n))"

definition Service :: "string \<Rightarrow> int \<Rightarrow> shown" where
  "Service ip port = (if ip = [] then Muted else ServiceText ip port)"

definition DashAmount :: "jsnum option \<Rightarrow> shown" where
  "DashAmount duffs =
     (case duffs of Some (Fin n) \<Rightarrow> AmountText (to_fixed 8 (fl (n / 100000000))) | _ \<Rightarrow> Muted)"

definition Pct :: "int \<Rightarrow> shown" where
  "Pct basisPoints = PctText (to_fixed 2 (fl (of_int basisPoints / 100)) @ ''%'')"

definition bit_lookup :: "int list" where
  "bit_lookup = [0, 1, 1, 2, 1, 2, 2, 3, 1, 2, 2, 3, 2, 3, 3, 4]"

definition countBitsSet :: "string option \<Rightarrow> int" where
  "countBitsSet hex =
     (case hex of
        None \<Rightarrow> 0
      | Some s \<Rightarrow> foldl (\<lambda>acc c. case radix_digit 16 c of Some v \<Rightarrow> acc + bit_lookup ! v | None \<Rightarrow> acc) 0 s)"

type_synonym shown_section = "string option \<times> (string \<times> shown) list"

definition platform_rows :: "'a platform_fields_scheme \<Rightarrow> (string \<times> shown) list" where
  "platform_rows p =
     (if pf_platformNodeID p \<noteq> []
      then [(''Platform Node ID'', HexPlain (Some (pf_platformNodeID p))),
        (''Platform P2P / HTTP'', PortsText (pf_platformP2PPort p) (pf_platformHTTPPort p))]
      else [])"

definition ProRegTxBody :: "ProRegTxPayload \<Rightarrow> shown_section list" where
  "ProRegTxBody p =
     [(Some ''Identity'',
        [(''Version'', num_of (pr_version p)), (''MN Type'', num_of (pr_type p)), (''Mode'', num_of (pr_mode p)),
         (''Collateral Tx'', TxLink (map_option fst (pr_collateralOutpoint p))),
         (''Collateral Output'', Num (map_option (\<lambda>o'. dec_int (snd o')) (pr_collateralOutpoint p))),
         (''Service'', Service (pr_ipAddress p) (pr_port p)), (''Operator Reward'', Pct (pr_operatorReward p))]),
      (Some ''Keys & Signatures'',
        [(''Owner Key'', HexPlain (Some (pr_keyIdOwner p))), (''Voting Key'', HexPlain (Some (pr_keyIdVoting p))),
         (''Operator PubKey'', HexPlain (Some (pr_pubKeyOperator p))),
         (''Payout Script'', HexPlain (Some (pr_scriptPayout p))), (''Inputs Hash'', Hex (Some (pr_inputsHash p))),
         (''Payload Signature'', HexPlain (Some (pr_payloadSig p)))] @ platform_rows p)]"

definition ProUpServTxBody :: "ProUpServTxPayload \<Rightarrow> shown_section list" where
  "ProUpServTxBody p =
     [(Some ''Target'',
        [(''Version'', num_of (ps_version p)), (''MN Type'', num_of (ps_type p)),
         (''ProRegTx Hash'', TxLink (Some (ps_proTxHash p))), (''Service'', Service (ps_ipAddress p) (ps_port p))]),
      (Some ''Keys & Signatures'',
        [(''Operator Payout'', HexPlain (Some (ps_scriptOperatorPayout p))),
         (''Inputs Hash'', Hex (Some (ps_inputsHash p))),
         (''Payload Signature'', HexPlain (Some (ps_payloadSig p)))] @ platform_rows p)]"

definition ProUpRegTxBody :: "ProUpRegTxPayload \<Rightarrow> shown_section list" where
  "ProUpRegTxBody p =
     [(Some ''Target'',
        [(''Version'', num_of (pg_version p)), (''ProRegTx Hash'', TxLink (Some (pg_proTxHash p))),
         (''Mode'', num_of (pg_mode p))]),
      (Some ''Keys & Signatures'',
        [(''Voting Key'', HexPlain (Some (pg_keyIdVoting p))),
         (''Operator PubKey'', HexPlain (Some (pg_pubKeyOperator p))),
         (''Payout Script'', HexPlain (Some (pg_scriptPayout p))), (''Inputs Hash'', Hex (Some (pg_inputsHash p))),
         (''Payload Signature'', HexPlain (Some (pg_payloadSig p)))])]"

definition ProUpRevTxBody :: "ProUpRevTxPayload \<Rightarrow> shown_section list" where
  "ProUpRevTxBody p =
     (let reasonLabel = or_else (map_of REVOCATION_REASONS (pv_reason p)) (''Reason '' @ dec_int (pv_reason p))
      in [(Some ''Target'',
            [(''Version'', num_of (pv_version p)), (''ProRegTx Hash'', TxLink (Some (pv_proTxHash p))),
             (''Reason'', TagText (dec_int (pv_reason p)) reasonLabel)]),
          (Some ''Signatures'',
            [(''Inputs Hash'', Hex (Some (pv_inputsHash p))),
             (''Payload Signature'', HexPlain (Some (pv_payloadSig p)))])])"

definition CbTxBody :: "CbTxPayload \<Rightarrow> shown_section list" where
  "CbTxBody p =
     [(Some ''Block Context'',
        [(''Version'', num_of (cx_version p)), (''Block Height'', BlockRef (cx_height p))] @
        (case cx_creditPoolBalance p of
           Some t \<Rightarrow> [(''Credit Pool'', DashAmount (Some (js_number t)))] | None \<Rightarrow> []) @
        (case cx_bestCLHeightDiff p of Some t \<Rightarrow> [(''Best CL Height Diff'', Num (Some t))] | None \<Rightarrow> [])),
      (Some ''Merkle & Signatures'',
        [(''MN List Merkle'', Hex (Some (cx_merkleRootMNList p))), (''Quorums Merkle'', Hex (cx_merkleRootQuorums p))] @
        (case cx_bestCLSignature p of
           Some t \<Rightarrow> if t = [] then [] else [(''Best CL Signature'', HexPlain (Some t))] | None \<Rightarrow> []))]"

definition QcTxBody :: "QcTxPayload \<Rightarrow> shown_section list" where
  "QcTxBody p =
     (let c = qc_commitment p;
          llmqLabel = or_else (map_of LLMQ_TYPES (qf_llmqType c)) (''Type '' @ dec_int (qf_llmqType c))
      in [(Some ''Commitment'',
            [(''Tx Version'', num_of (qc_version p)), (''Block Height'', BlockRef (qc_height p)),
             (''Commitment Version'', num_of (qf_version c)),
             (''LLMQ Type'', TagText (dec_int (qf_llmqType c)) llmqLabel),
             (''Quorum Hash'', Hex (Some (qf_quorumHash c)))] @
            (case qf_quorumIndex c of Some i \<Rightarrow> [(''Quorum Index'', num_of i)] | None \<Rightarrow> [])),
          (Some ''Members & Signatures'',
            [(''Signers Count'', num_of (countBitsSet (Some (qf_signers c)))),
             (''Valid Members Count'', num_of (countBitsSet (Some (qf_validMembers c)))),
             (''Quorum PubKey'', HexPlain (Some (qf_quorumPublicKey c))),
             (''Quorum Vvec Hash'', Hex (Some (qf_quorumVvecHash c))),
             (''Quorum Signature'', HexPlain (Some (qf_quorumSig c))),
             (''Member Signature'', HexPlain (Some (qf_sig c)))])])"

definition MnHfTxBody :: "MnHfTxPayload \<Rightarrow> shown_section list" where
  "MnHfTxBody p =
     [(None,
        [(''Version'', num_of (mh_version p)), (''Version Bit'', num_of (mh_versionBit p)),
         (''Quorum Hash'', Hex (Some (mh_quorumHash p))), (''Signature'', HexPlain (Some (mh_sig p)))])]"

definition AssetLockTxBody :: "AssetLockTxPayload \<Rightarrow> shown_section list" where
  "AssetLockTxBody p =
     [(Some ''Lock'', [(''Version'', num_of (al_version p)), (''Output Count'', num_of (al_count p))]),
      (Some ''Credit Outputs'',
        (case al_outputs p of
           J (out # outs) \<Rightarrow> concat (map (\<lambda>(idx, out).
             [(''Output #'' @ dec_nat idx, DashAmount (Some (js_number (fst out)))), ([], HexPlain (Some (snd out)))])
             (enumerate 0 (out # outs)))
         | _ \<Rightarrow> [(''No outputs'', Muted)]))]"

definition AssetUnlockTxBody :: "AssetUnlockTxPayload \<Rightarrow> shown_section list" where
  "AssetUnlockTxBody p =
     [(Some ''Unlock'',
        [(''Version'', num_of (au_version p)), (''Index'', Num (Some (au_index p))),
         (''Fee'', DashAmount (Some (Fin (of_int (au_fee p))))), (''Requested Height'', BlockRef (au_requestedHeight p))]),
      (Some ''Quorum'',
        [(''Quorum Hash'', Hex (Some (au_quorumHash p))), (''Quorum Signature'', HexPlain (Some (au_quorumSig p)))])]"

text \<open>
  The type decides how the payload is read. The API gives each type its own payload; \<open>None\<close> stands for a payload
  of another one, whose fields would be undefined.
\<close>

datatype payload_body = Sections "shown_section list" | Unrecognized

fun renderBody :: "int \<Rightarrow> payload \<Rightarrow> payload_body option" where
  "renderBody n (ProRegTx p) = (if n = 1 then Some (Sections (ProRegTxBody p)) else if n \<notin> {1..9} then Some Unrecognized else None)"
| "renderBody n (ProUpServTx p) = (if n = 2 then Some (Sections (ProUpServTxBody p)) else if n \<notin> {1..9} then Some Unrecognized else None)"
| "renderBody n (ProUpRegTx p) = (if n = 3 then Some (Sections (ProUpRegTxBody p)) else if n \<notin> {1..9} then Some Unrecognized else None)"
| "renderBody n (ProUpRevTx p) = (if n = 4 then Some (Sections (ProUpRevTxBody p)) else if n \<notin> {1..9} then Some Unrecognized else None)"
| "renderBody n (CbTx p) = (if n = 5 then Some (Sections (CbTxBody p)) else if n \<notin> {1..9} then Some Unrecognized else None)"
| "renderBody n (QcTx p) = (if n = 6 then Some (Sections (QcTxBody p)) else if n \<notin> {1..9} then Some Unrecognized else None)"
| "renderBody n (MnHfTx p) = (if n = 7 then Some (Sections (MnHfTxBody p)) else if n \<notin> {1..9} then Some Unrecognized else None)"
| "renderBody n (AssetLockTx p) = (if n = 8 then Some (Sections (AssetLockTxBody p)) else if n \<notin> {1..9} then Some Unrecognized else None)"
| "renderBody n (AssetUnlockTx p) = (if n = 9 then Some (Sections (AssetUnlockTxBody p)) else if n \<notin> {1..9} then Some Unrecognized else None)"

definition ExtraPayloadSection :: "tx_type_ref js \<Rightarrow> payload js \<Rightarrow> (string \<times> int \<times> payload_body option) option" where
  "ExtraPayloadSection txType payload =
     (case payload of
        J p \<Rightarrow> (let typeNum = txTypeNum txType
          in Some (or_else (map_of PAYLOAD_META typeNum) ''Unknown payload'', typeNum, renderBody typeNum p))
      | _ \<Rightarrow> None)"

section \<open>The header and the parts of the page\<close>

definition tx_badges :: "(int \<Rightarrow> string) \<Rightarrow> 'p ApiTransaction \<Rightarrow> (string \<times> string) list" where
  "tx_badges toLocaleString tx =
     [if at_confirmations tx > 0 then (''soft-success'', ''Confirmed'') else (''soft'', ''Pending''),
      ConfirmationsBadge toLocaleString (at_confirmations tx)] @
     (case ChainLockBadge (at_chainLocked tx) of Some b \<Rightarrow> [b] | None \<Rightarrow> []) @
     [InstantLockBadge (at_instantLock tx)]"

definition tx_block_link :: "'p ApiTransaction \<Rightarrow> route" where
  "tx_block_link tx = BlockRoute (at_blockHash tx)"

definition tx_layout :: "'p ApiTransaction \<Rightarrow> string" where
  "tx_layout tx =
     (if (case at_extraPayload tx of J p \<Rightarrow> True | _ \<Rightarrow> False) \<or>
         (\<not> isQuorum tx \<and> (sumInputs (at_vIn tx) \<noteq> None \<or> sumOutputs (at_vOut tx) \<noteq> None))
      then ''lg:grid-cols-2'' else ''lg:grid-cols-1'')"

datatype tx_part = PayloadPart "string \<times> int \<times> payload_body option" | ValuePart value_card | RewardPart string

definition part_if :: "('a \<Rightarrow> tx_part) \<Rightarrow> 'a option \<Rightarrow> tx_part list" where
  "part_if part v = (case v of Some x \<Rightarrow> [part x] | None \<Rightarrow> [])"

definition tx_parts :: "payload ApiTransaction \<Rightarrow> tx_part list" where
  "tx_parts tx =
     (let reward = (if isCoinbase tx then part_if RewardPart (CoinbaseRewardPill (sumOutputs (at_vOut tx))) else []);
          distribution = part_if ValuePart (valueDistributionCard tx)
      in case at_extraPayload tx of
           J p \<Rightarrow> part_if PayloadPart (ExtraPayloadSection (type_ref (at_type tx)) (J p)) @ reward @ distribution
         | _ \<Rightarrow> distribution @ reward)"

section \<open>What the payloads say\<close>

definition hex_number :: "string \<Rightarrow> nat" where
  "hex_number s = foldl (\<lambda>a c. 16 * a + the (radix_digit 16 c)) 0 s"

lemma bit_after_nibble:
  assumes "v < (16::nat)"
  shows "bit (16 * a + v) i \<longleftrightarrow> (if i < 4 then bit v i else bit a (i - 4))"
proof (cases "i < 4")
  case True
  then consider "i = 0" | "i = 1" | "i = 2" | "i = 3" by linarith
  then show ?thesis
  proof cases
    case 1 then show ?thesis by (simp add: bit_iff_odd)
  next
    case 2
    have "(16 * a + v) div 2 = 2 * (4 * a) + v div 2" by simp
    with 2 show ?thesis by (simp add: bit_iff_odd)
  next
    case 3
    have "(16 * a + v) div 4 = 2 * (2 * a) + v div 4" by simp
    with 3 show ?thesis by (simp add: bit_iff_odd)
  next
    case 4
    have "(16 * a + v) div 8 = 2 * a + v div 8" by simp
    with 4 show ?thesis by (simp add: bit_iff_odd)
  qed
next
  case False
  then obtain k where k: "i = 4 + k" by (metis le_Suc_ex not_less)
  have "(16 * a + v) div 2 ^ i = (16 * a + v) div 16 div 2 ^ k"
    unfolding k power_add by (simp add: div_mult2_eq)
  also have "(16 * a + v) div 16 = a" using assms by simp
  finally show ?thesis using k by (simp add: bit_iff_odd)
qed

lemma finite_bits: "finite {i. bit (n::nat) i}"
proof (rule finite_subset)
  show "{i. bit n i} \<subseteq> {i. i < n}"
  proof clarsimp
    fix i assume "bit n i"
    then have "odd (n div 2 ^ i)" by (simp add: bit_iff_odd)
    then have "n div 2 ^ i \<noteq> 0" by (metis even_zero)
    then have "2 ^ i \<le> n" by (metis div_less not_le)
    then show "i < n" by (rule less_le_trans [OF less_exp])
  qed
qed simp

lemma one_bits_of_nibble: "v < 16 \<Longrightarrow> int (card {i. i < 4 \<and> bit v i}) = bit_lookup ! v"
proof -
  assume "v < (16::nat)"
  have bits: "{i. i < (4::nat) \<and> bit v i} = set (filter (bit v) [0, 1, 2, 3])"
    unfolding set_filter by (intro Collect_cong) (auto simp: less_Suc_eq numeral_eq_Suc)
  have "v = 0 \<or> v = 1 \<or> v = 2 \<or> v = 3 \<or> v = 4 \<or> v = 5 \<or> v = 6 \<or> v = 7 \<or> v = 8 \<or> v = 9 \<or> v = 10 \<or>
      v = 11 \<or> v = 12 \<or> v = 13 \<or> v = 14 \<or> v = 15"
    using \<open>v < 16\<close> by presburger
  then have "v \<in> {0, 1, 2, 3, 4, 5, 6, 7, 8, 9, 10, 11, 12, 13, 14, 15}" by simp
  then show ?thesis unfolding bits by (elim insertE emptyE) (simp_all add: bit_lookup_def bit_iff_odd)
qed

text \<open>The members that the page counts are the bits that are one in the number the text stands for.\<close>

lemma members_counted:
  assumes "list_all (\<lambda>c. \<exists>v < 16. radix_digit 16 c = Some v) s"
  shows "countBitsSet (Some s) = int (card {i. bit (hex_number s) i})"
  using assms
proof (induction s rule: rev_induct)
  case Nil
  then show ?case by (simp add: countBitsSet_def hex_number_def)
next
  case (snoc c s)
  then obtain v where v: "v < 16" "radix_digit 16 c = Some v" by auto
  have n: "hex_number (s @ [c]) = 16 * hex_number s + v" by (simp add: hex_number_def v)
  have "{i. bit (16 * hex_number s + v) i} =
      {i. i < 4 \<and> bit v i} \<union> (\<lambda>i. i + 4) ` {i. bit (hex_number s) i}"
  proof (intro set_eqI)
    fix i
    have "i \<in> (\<lambda>i. i + 4) ` {i. bit (hex_number s) i} \<longleftrightarrow> 4 \<le> i \<and> bit (hex_number s) (i - 4)"
      by (force simp: image_iff intro: exI [of _ "i - 4"])
    then show "i \<in> {i. bit (16 * hex_number s + v) i} \<longleftrightarrow>
        i \<in> {i. i < 4 \<and> bit v i} \<union> (\<lambda>i. i + 4) ` {i. bit (hex_number s) i}"
      by (simp add: bit_after_nibble [OF v(1)] del: image_Collect)
  qed
  moreover have "{i. i < 4 \<and> bit v i} \<inter> (\<lambda>i. i + 4) ` {i. bit (hex_number s) i} = {}" by auto
  ultimately have "card {i. bit (16 * hex_number s + v) i} =
      card {i. i < 4 \<and> bit v i} + card {i. bit (hex_number s) i}"
    by (simp add: card_Un_disjoint finite_bits card_image)
  then have "int (card {i. bit (hex_number (s @ [c])) i}) = bit_lookup ! v + int (card {i. bit (hex_number s) i})"
    by (simp add: n one_bits_of_nibble [OF v(1), symmetric])
  moreover have "countBitsSet (Some (s @ [c])) = countBitsSet (Some s) + bit_lookup ! v"
    by (simp add: countBitsSet_def v)
  ultimately show ?case using snoc by simp
qed

text \<open>Every type that carries a payload has a name and a body, and no other type has either.\<close>

lemma payloads_named:
  "(map_of PAYLOAD_META n \<noteq> None) = (n \<in> {1..9})"
  "n \<notin> {1..9} \<Longrightarrow> renderBody n p = Some Unrecognized"
proof -
  have "n \<in> {1..9} \<longleftrightarrow> n \<in> set [1, 2, 3, 4, 5, 6, 7, 8, 9]" by auto
  then show "(map_of PAYLOAD_META n \<noteq> None) = (n \<in> {1..9})" by (auto simp: PAYLOAD_META_def)
  show "n \<notin> {1..9} \<Longrightarrow> renderBody n p = Some Unrecognized" by (cases p) auto
qed

end
