(* ===== verification/AddressPage.thy ===== *)
theory AddressPage
  imports TransactionPage SearchBox
begin

text \<open>
  The page of an address, \<open>frontend/src/themes/neo/pages/address-detail.tsx\<close>: what it asks for, its sums, the
  direction of a transaction, the curves of what came and went, the table of the transactions, the
  panel that stands for an empty history with the picture under \<open>Scan to send\<close>, and the card of the unspent
  outputs. The charts' drawing is not modelled. Dates are read by a parameter.
\<close>

section \<open>What the API answers\<close>

record ApiAddressDetail =
  dt_address :: string
  dt_firstSeenBlock :: "string option"
  dt_firstSeenBlockTimestamp :: "string option"
  dt_firstSeenTx :: "string option"
  dt_lastSeenBlock :: "string option"
  dt_lastSeenBlockTimestamp :: "string option"
  dt_lastSeenTx :: "string option"
  dt_txCount :: string
  dt_received :: string
  dt_sent :: string
  dt_balance :: string

record ApiAddressBalancePoint =
  bp_timestamp :: string
  bp_balance :: string

record ApiUtxoEntry =
  ue_prevTxHash :: string
  ue_vOutIndex :: int
  ue_address :: string
  ue_amount :: string
  ue_sequence :: "int option"
  ue_scriptSigASM :: "string option"

section \<open>State and queries\<close>

datatype AddressRange = Last1d | Last1w | Last1m | Last1y

fun ADDRESS_RANGE_MS :: "AddressRange \<Rightarrow> int" where
  "ADDRESS_RANGE_MS Last1d = 24 * 60 * 60 * 1000"
| "ADDRESS_RANGE_MS Last1w = 7 * 24 * 60 * 60 * 1000"
| "ADDRESS_RANGE_MS Last1m = 30 * 24 * 60 * 60 * 1000"
| "ADDRESS_RANGE_MS Last1y = 365 * 24 * 60 * 60 * 1000"

definition getRangeBounds :: "(int \<Rightarrow> string) \<Rightarrow> int \<Rightarrow> AddressRange \<Rightarrow> string \<times> string" where
  "getRangeBounds iso_text now r = (iso_text (now - ADDRESS_RANGE_MS r), iso_text now)"

record address_state =
  as_list :: "ListPages.list_state"
  as_range :: AddressRange
  as_bounds :: "string \<times> string"

definition address_initial :: "(int \<Rightarrow> string) \<Rightarrow> int \<Rightarrow> storage \<Rightarrow> address_state" where
  "address_initial iso_text now st =
     \<lparr>as_list = list_initial st, as_range = Last1m,
      as_bounds = getRangeBounds iso_text now Last1m\<rparr>"

definition address_mounted :: "address_state \<Rightarrow> address_state" where
  "address_mounted s = s\<lparr>as_list := list_mounted ''address-transactions'' (as_list s)\<rparr>"

datatype address_event = AddressList list_event | RangeChosen AddressRange

text \<open>The bounds are those of the moment at which the range was chosen; they are kept until another one is.\<close>

fun address_step :: "(int \<Rightarrow> string) \<Rightarrow> int \<Rightarrow> address_state \<Rightarrow> address_event \<Rightarrow> address_state" where
  "address_step iso_text now s (AddressList e) = s\<lparr>as_list := list_step ''address-transactions'' (as_list s) e\<rparr>"
| "address_step iso_text now s (RangeChosen r) =
     s\<lparr>as_range := r, as_bounds := (if r = as_range s then as_bounds s else getRangeBounds iso_text now r)\<rparr>"

definition address_page_queries :: "network \<Rightarrow> string \<Rightarrow> address_state \<Rightarrow> 'b query_options list" where
  "address_page_queries n a s =
     [addressQueryOptions n a,
      addressBalanceChartQueryOptions n a (fst (as_bounds s)) (snd (as_bounds s)) None,
      (addressTransactionsInfiniteQueryOptions n a (Some INFINITE_PAGE_SIZE) (Some ''desc''))
        \<lparr>enabled := isInfinite (as_list s)\<rparr>,
      (addressTransactionsQueryOptions n a
         \<lparr>page_no = Some (li_page (as_list s)), page_limit = Some (li_pageSize (as_list s)), page_order = Some ''desc''\<rparr>)
        \<lparr>enabled := \<not> isInfinite (as_list s)\<rparr>]"

datatype address_body = AddressUnknown string | AddressSkeleton | AddressNothing | AddressShown ApiAddressDetail

definition address_body_of :: "string \<Rightarrow> ApiAddressDetail option \<Rightarrow> bool \<Rightarrow> bool \<Rightarrow> address_body" where
  "address_body_of address detail isDetailFetching failed =
     (case detail of
        Some d \<Rightarrow> AddressShown d
      | None \<Rightarrow>
          if failed then AddressUnknown address
          else if isDetailFetching then AddressSkeleton
          else AddressNothing)"

section \<open>Sums and curves\<close>

fun dash_num :: "jsnum \<Rightarrow> jsnum" where
  "dash_num (Fin q) = Fin (fl (q / 100000000))"
| "dash_num x = x"

text \<open>Balance, received and sent, each printed with a bound on its decimals; and the number of transactions.\<close>

definition address_sums :: "(nat option \<Rightarrow> jsnum \<Rightarrow> string) \<Rightarrow> ApiAddressDetail \<Rightarrow> string \<times> string \<times> string \<times> string" where
  "address_sums locale_number d =
     (locale_number (Some 4) (dash_num (js_number (dt_balance d))),
      locale_number (Some 2) (dash_num (js_number (dt_received d))),
      locale_number (Some 2) (dash_num (js_number (dt_sent d))),
      locale_number None (js_number (dt_txCount d)))"

definition tx_time :: "(string \<Rightarrow> date) \<Rightarrow> 'p ApiTransaction \<Rightarrow> date" where
  "tx_time parse t = (case at_timestamp t of Some s \<Rightarrow> parse s | None \<Rightarrow> None)"

definition older_first :: "(string \<Rightarrow> date) \<Rightarrow> 'p ApiTransaction \<Rightarrow> 'p ApiTransaction \<Rightarrow> int" where
  "older_first parse a b =
     (case (tx_time parse a, tx_time parse b) of (Some x, Some y) \<Rightarrow> x - y | _ \<Rightarrow> 0)"

definition net_of :: "string \<Rightarrow> 'p ApiTransaction \<Rightarrow> int" where
  "net_of address t = addressNetAmount (J (at_vIn t)) (J (at_vOut t)) address"

record flow_point =
  fp_ts :: date
  fp_received :: rat
  fp_sent :: rat

fun flow_points :: "(string \<Rightarrow> date) \<Rightarrow> string \<Rightarrow> rat \<Rightarrow> rat \<Rightarrow> 'p ApiTransaction list \<Rightarrow> flow_point list" where
  "flow_points parse address cumIn cumOut [] = []"
| "flow_points parse address cumIn cumOut (t # ts) =
     (let net = net_of address t;
          moved = fl (of_int \<bar>net\<bar> / of_int DUFFS_PER_DASH);
          cumIn' = (if net > 0 then fl (cumIn + moved) else cumIn);
          cumOut' = (if net < 0 then fl (cumOut + moved) else cumOut)
      in \<lparr>fp_ts = tx_time parse t, fp_received = cumIn', fp_sent = cumOut'\<rparr> #
         flow_points parse address cumIn' cumOut' ts)"

definition ordered_txs :: "(string \<Rightarrow> date) \<Rightarrow> 'p ApiTransaction list \<Rightarrow> 'p ApiTransaction list" where
  "ordered_txs parse txs =
     js_sort (older_first parse) (filter (\<lambda>t. case at_timestamp t of Some s \<Rightarrow> s \<noteq> [] | None \<Rightarrow> False) txs)"

definition flowSparkPoints :: "(string \<Rightarrow> date) \<Rightarrow> string \<Rightarrow> 'p ApiTransaction list \<Rightarrow> flow_point list" where
  "flowSparkPoints parse address txs = flow_points parse address 0 0 (ordered_txs parse txs)"

definition chartPoints :: "(string \<Rightarrow> date) \<Rightarrow> ApiAddressBalancePoint list option \<Rightarrow> (date \<times> string \<times> jsnum) list" where
  "chartPoints parse chartData =
     (case chartData of
        None \<Rightarrow> []
      | Some ps \<Rightarrow> map (\<lambda>p. (parse (bp_timestamp p), bp_timestamp p, dash_num (js_number (bp_balance p)))) ps)"

section \<open>Rows\<close>

datatype Direction = DirIn | DirOut | DirSelf

definition direction :: "string \<Rightarrow> 'p ApiTransaction \<Rightarrow> Direction" where
  "direction address tx =
     (let inAddr = list_ex (\<lambda>v. vi_address v = Some address) (at_vIn tx);
          outAddr = list_ex (\<lambda>v. vo_address v = Some address) (at_vOut tx)
      in if inAddr \<and> outAddr then DirSelf else if inAddr then DirOut else DirIn)"

fun direction_badge :: "Direction \<Rightarrow> string \<times> string" where
  "direction_badge DirIn = (''soft-success'', ''Received'')"
| "direction_badge DirOut = (''soft-destructive'', ''Sent'')"
| "direction_badge DirSelf = (''soft'', ''Self'')"

definition minus_sign :: string where "minus_sign = map char_of [226, 136, 146 :: nat]"

fun direction_sign :: "Direction \<Rightarrow> string" where
  "direction_sign DirIn = ''+''"
| "direction_sign DirOut = minus_sign"
| "direction_sign DirSelf = ''''"

fun direction_tone :: "Direction \<Rightarrow> string" where
  "direction_tone DirIn = ''text-success''"
| "direction_tone DirOut = ''text-destructive''"
| "direction_tone DirSelf = ''text-accent''"

definition dash_text :: "int \<Rightarrow> string" where
  "dash_text duffs =
     (let dash = fl (of_int duffs / of_int DUFFS_PER_DASH) in if dash \<ge> 1 then to_fixed 2 dash else to_fixed 4 dash)"

definition when_text :: "(string \<Rightarrow> date) \<Rightarrow> int \<Rightarrow> 'p ApiTransaction \<Rightarrow> string" where
  "when_text parse now t =
     (case at_timestamp t of
        Some s \<Rightarrow> if s = [] then ''Pending'' else formatRelativeTime parse now (MomentText s)
      | None \<Rightarrow> ''Pending'')"

record address_cells =
  ac_hash :: string
  ac_direction :: Direction
  ac_tone :: string
  ac_amount :: string
  ac_when :: string

definition address_cells_of :: "(string \<Rightarrow> date) \<Rightarrow> int \<Rightarrow> string \<Rightarrow> 'p ApiTransaction \<Rightarrow> address_cells" where
  "address_cells_of parse now address t =
     (let dir = direction address t
      in \<lparr>ac_hash = at_hash t, ac_direction = dir, ac_tone = direction_tone dir,
          ac_amount = direction_sign dir @ dash_text \<bar>net_of address t\<bar>, ac_when = when_text parse now t\<rparr>)"

definition hash_matches :: "string \<Rightarrow> 'p ApiTransaction \<Rightarrow> bool" where
  "hash_matches q t \<longleftrightarrow> js_includes (js_lower (at_hash t)) q"

datatype 'p history_panel = NoHistory string | HistoryTable "'p ApiTransaction table_props"

definition history_panel_of :: "string \<Rightarrow> address_state \<Rightarrow> 'p ApiTransaction answers \<Rightarrow> 'p history_panel" where
  "history_panel_of address s a =
     (if list_rows (as_list s) a = [] \<and> \<not> an_isFetching a \<and> \<not> an_isPagedFetching a then NoHistory address
      else HistoryTable (list_table hash_matches (as_list s) a))"

definition search_placeholder :: "address_state \<Rightarrow> string" where
  "search_placeholder s =
     (if isInfinite (as_list s) then ''Filter loaded transactions by hash'' else ''Filter visible page by hash'') @ ellipsis"

section \<open>The panel of an empty history\<close>

text \<open>Places of earlier searches that begin like the address; what cannot be read counts as none.\<close>

definition similar_addresses :: "json_code \<Rightarrow> item_storage \<Rightarrow> string \<Rightarrow> RecentItem list" where
  "similar_addresses jc st address =
     (if \<not> is_window st \<or> \<not> usable st then []
      else (case map_of (stored st) RECENT_KEY of
              None \<Rightarrow> []
            | Some raw \<Rightarrow>
                if raw = [] then []
                else (case jc_parse jc raw of
                        Some (Some parsed) \<Rightarrow>
                          (let prefix = js_lower (js_slice address 0 4);
                               matches = filter (\<lambda>r. ri_category r = AddressItem \<and>
                                 (let candidate = js_lower (or_else (ri_sub r) (ri_label r))
                                  in starts_with candidate prefix \<and> candidate \<noteq> js_lower address)) parsed
                           in js_slice matches 0 4)
                      | _ \<Rightarrow> [])))"

text \<open>
  The picture under \<open>Scan to send\<close>: 81 cells from a generator of 32 bits, seeded by the codes of the address.
\<close>

unbundle bit_operations_syntax

definition qr_seed :: "string \<Rightarrow> 32 word" where
  "qr_seed value = foldl (\<lambda>seed c. seed * 31 + of_nat (of_char c)) 0 value"

definition qr_next :: "32 word \<Rightarrow> 32 word" where
  "qr_next seed = seed * 1664525 + 1013904223"

fun qr_cells :: "nat \<Rightarrow> 32 word \<Rightarrow> bool list" where
  "qr_cells 0 seed = []"
| "qr_cells (Suc n) seed = (let seed' = qr_next seed in (seed' AND 1 = 1) # qr_cells n seed')"

definition is_finder :: "nat \<Rightarrow> bool" where
  "is_finder i \<longleftrightarrow> (i < 27 \<and> i mod 9 < 3) \<or> (i < 27 \<and> i mod 9 > 5) \<or> (54 \<le> i \<and> i < 81 \<and> i mod 9 < 3)"

definition QrIllustration :: "string \<Rightarrow> bool list" where
  "QrIllustration value = map (\<lambda>(i, on). is_finder i \<or> on) (enumerate 0 (qr_cells 81 (qr_seed value)))"

text \<open>
  The browser computes with doubles and cuts to 32 bits: the products stay below \<open>2 ^ 53\<close>, where doubles are
  exact, so that each step is the one of the word.
\<close>

lemma qr_next_exact:
  "uint s * 1664525 + 1013904223 < 2 ^ 53"
  "uint (qr_next s) = (uint s * 1664525 + 1013904223) mod 2 ^ 32"
proof -
  have "uint s < 2 ^ 32" using uint_lt2p [of s] by simp
  then show "uint s * 1664525 + 1013904223 < 2 ^ 53" by simp
  show "uint (qr_next s) = (uint s * 1664525 + 1013904223) mod 2 ^ 32"
    by (simp add: qr_next_def uint_word_ariths mod_simps)
qed

lemma qr_seed_exact:
  fixes s :: "32 word"
  shows "uint s * 31 + of_nat (of_char c) < (2 :: int) ^ 53"
    "uint (s * 31 + of_nat (of_char c)) = (uint s * 31 + of_nat (of_char c)) mod 2 ^ 32"
proof -
  have "uint s < 2 ^ 32" using uint_lt2p [of s] by simp
  moreover have "int (of_char c) < 256" by simp
  ultimately have "uint s * 31 + int (of_char c) < 2 ^ 32 * 31 + 256" by linarith
  then show "uint s * 31 + of_nat (of_char c) < (2 :: int) ^ 53" by (rule less_trans) simp
  show "uint (s * 31 + of_nat (of_char c)) = (uint s * 31 + of_nat (of_char c)) mod 2 ^ 32"
  proof -
    have "s * 31 + of_nat (of_char c) = word_of_int (uint s * 31 + int (of_char c))" by simp
    then show ?thesis by (simp only: uint_word_of_int) simp
  qed
qed

lemma odd_word: "(w AND 1 = 1) = odd (uint (w :: 32 word))"
proof -
  have "(w AND 1 = 1) = bit w 0" by (simp add: and_one_eq mod2_eq_if bit_0)
  also have "\<dots> = bit (uint w) 0" by (simp add: bit_uint_iff)
  finally show ?thesis by (simp add: bit_0)
qed

lemma even_cut: "even ((x :: int) mod 2 ^ 32) \<longleftrightarrow> even x"
  by (rule dvd_mod_iff) simp

lemma qr_next_flips: "odd (uint (qr_next s)) \<longleftrightarrow> even (uint s)"
  unfolding qr_next_exact(2) even_cut by simp

lemma qr_cells_alternate:
  "qr_cells n s = map (\<lambda>i. odd i = odd (uint s)) [0..<n]"
proof (induction n arbitrary: s)
  case (Suc n)
  have "qr_cells (Suc n) s = even (uint s) # map (\<lambda>i. odd i = even (uint s)) [0..<n]"
    using Suc [of "qr_next s"] by (simp add: Let_def odd_word qr_next_flips)
  also have "\<dots> = map (\<lambda>i. odd i = odd (uint s)) (0 # map Suc [0..<n])" by auto
  finally show ?case by (simp add: upt_conv_Cons map_Suc_upt del: upt_Suc)
qed simp

lemma qr_seed_parity: "odd (uint (qr_seed a)) \<longleftrightarrow> odd (\<Sum>c\<leftarrow>a. of_char c :: nat)"
proof (induction a rule: rev_induct)
  case (snoc c a)
  have seed: "qr_seed (a @ [c]) = qr_seed a * 31 + of_nat (of_char c)" by (simp add: qr_seed_def)
  have "odd (uint (qr_seed (a @ [c]))) \<longleftrightarrow> odd (uint (qr_seed a) * 31 + int (of_char c))"
    unfolding seed qr_seed_exact(2) even_cut by (rule refl)
  then show ?case using snoc by simp
qed (simp add: qr_seed_def)

text \<open>
  C19: the picture under \<open>Scan to send\<close>. An odd multiplier and an odd increment make the last bit of the
  generator alternate, so the cells outside the three corners are a checkerboard that does not depend on
  the address but for its colouring, the parity of the sum of its codes: the page has two pictures for all
  addresses there are, so no reader of it can learn which address to pay.
\<close>

theorem address_picture_says_one_bit:
  "QrIllustration a = map (\<lambda>i. is_finder i \<or> (odd i = odd (\<Sum>c\<leftarrow>a. of_char c :: nat))) [0..<81] \<and>
   (QrIllustration a = QrIllustration b) = (odd (\<Sum>c\<leftarrow>a. of_char c :: nat) = odd (\<Sum>c\<leftarrow>b. of_char c :: nat)) \<and>
   card (range QrIllustration) = 2"
proof (intro conjI)
  have picture: "QrIllustration v = map (\<lambda>i. is_finder i \<or> (odd i = odd (\<Sum>c\<leftarrow>v. of_char c :: nat))) [0..<81]" for v
    by (simp add: QrIllustration_def qr_cells_alternate qr_seed_parity enumerate_map_upt comp_def
        del: upt_rec_numeral)
  then show "QrIllustration a = map (\<lambda>i. is_finder i \<or> (odd i = odd (\<Sum>c\<leftarrow>a. of_char c :: nat))) [0..<81]" .
  have same: "(QrIllustration u = QrIllustration v) =
      (odd (\<Sum>c\<leftarrow>u. of_char c :: nat) = odd (\<Sum>c\<leftarrow>v. of_char c :: nat))" for u v
  proof
    assume "QrIllustration u = QrIllustration v"
    then have "QrIllustration u ! 3 = QrIllustration v ! 3" by simp
    then show "odd (\<Sum>c\<leftarrow>u. of_char c :: nat) = odd (\<Sum>c\<leftarrow>v. of_char c :: nat)"
      unfolding picture by (simp add: is_finder_def del: upt_rec_numeral)
  next
    assume "odd (\<Sum>c\<leftarrow>u. of_char c :: nat) = odd (\<Sum>c\<leftarrow>v. of_char c :: nat)"
    then show "QrIllustration u = QrIllustration v" unfolding picture by simp
  qed
  show "(QrIllustration a = QrIllustration b) =
      (odd (\<Sum>c\<leftarrow>a. of_char c :: nat) = odd (\<Sum>c\<leftarrow>b. of_char c :: nat))" by (rule same)
  have codes: "odd (\<Sum>c\<leftarrow>''a''. of_char c :: nat)" "even (\<Sum>c\<leftarrow>''b''. of_char c :: nat)" by simp_all
  have "range QrIllustration = {QrIllustration ''a'', QrIllustration ''b''}"
  proof -
    have "QrIllustration v \<in> {QrIllustration ''a'', QrIllustration ''b''}" for v
      using same [of v "''a''"] same [of v "''b''"] codes by auto
    then show ?thesis by auto
  qed
  moreover have "QrIllustration ''a'' \<noteq> QrIllustration ''b''" using same codes by simp
  ultimately show "card (range QrIllustration) = 2" by simp
qed

section \<open>What the rows and the curves say\<close>

lemma spent_by_none: "\<not> list_ex (\<lambda>v. vi_address v = Some a) ins \<Longrightarrow> spent_by ins a = 0"
  by (induction ins) (auto simp: spent_by_def)

lemma received_by_none: "\<not> list_ex (\<lambda>v. vo_address v = Some a) outs \<Longrightarrow> received_by outs a = 0"
  by (induction outs) (auto simp: received_by_def)

lemma direction_net:
  assumes "list_all (\<lambda>out. 0 \<le> vo_value out) (at_vOut t)" "list_all (\<lambda>i. 0 \<le> or_else (vi_amount i) 0) (at_vIn t)"
  shows "direction a t = DirIn \<Longrightarrow> net_of a t = received_by (at_vOut t) a \<and> 0 \<le> net_of a t"
    and "direction a t = DirOut \<Longrightarrow> net_of a t = - spent_by (at_vIn t) a \<and> net_of a t \<le> 0"
proof -
  have received: "0 \<le> received_by (at_vOut t) a" unfolding received_by_def
    using assms(1) by (intro sum_list_nonneg) (auto simp: list_all_iff)
  have spent: "0 \<le> spent_by (at_vIn t) a" unfolding spent_by_def
    using assms(2) by (intro sum_list_nonneg) (auto simp: list_all_iff)
  show "direction a t = DirIn \<Longrightarrow> net_of a t = received_by (at_vOut t) a \<and> 0 \<le> net_of a t"
    using received spent_by_none [of a "at_vIn t"]
    by (auto simp: direction_def Let_def net_of_def addressNetAmount_sums split: if_splits)
  show "direction a t = DirOut \<Longrightarrow> net_of a t = - spent_by (at_vIn t) a \<and> net_of a t \<le> 0"
    using spent received_by_none [of a "at_vOut t"]
    by (auto simp: direction_def Let_def net_of_def addressNetAmount_sums split: if_splits)
qed

text \<open>At each transaction at most one of the two curves moves, and it is the one of the sign of its net amount.\<close>

lemma flow_moves_one_curve:
  "length (flow_points parse a i out ts) = length ts"
  "flow_points parse a i out (t # ts) ! 0 = \<lparr>fp_ts = tx_time parse t, fp_received = r, fp_sent = s\<rparr> \<Longrightarrow>
     (net_of a t \<le> 0 \<longrightarrow> r = i) \<and> (0 \<le> net_of a t \<longrightarrow> s = out)"
proof -
  show "length (flow_points parse a i out ts) = length ts"
    by (induction ts arbitrary: i out) (simp_all add: Let_def)
qed (auto simp: Let_def)

text \<open>
  A failed request for the history leaves the page with the panel that says that the address has no
  transactions and a balance of zero, whatever balance stands above it.
\<close>

lemma failed_history_reads_empty:
  assumes "an_infinite a = None" "an_paged a = None" "\<not> an_isFetching a" "\<not> an_isPagedFetching a"
  shows "history_panel_of address s a = NoHistory address"
  using assms by (simp add: history_panel_of_def list_rows_def)

section \<open>When an address was seen\<close>

record seen_tile =
  st_date :: "(string \<times> string) option"
  st_block :: "(route \<times> string) option"

definition SeenTile :: "(string \<Rightarrow> date) \<Rightarrow> (int \<Rightarrow> string) \<Rightarrow> (int \<Rightarrow> string) \<Rightarrow> string option \<Rightarrow> string option \<Rightarrow> seen_tile" where
  "SeenTile parse dateLocale iso_text stamp blockHash =
     \<lparr>st_date = (case stamp of
         Some s \<Rightarrow> if s = [] then None else map_option (\<lambda>ms. (dateLocale ms, iso_text ms)) (parse s)
       | None \<Rightarrow> None),
      st_block = (case blockHash of
         Some h \<Rightarrow> if h = [] then None else Some (BlockRoute h, js_slice h 0 16 @ ellipsis)
       | None \<Rightarrow> None)\<rparr>"

section \<open>The unspent outputs\<close>

definition UTXO_PAGE_SIZE :: int where "UTXO_PAGE_SIZE = 10"

definition utxo_query :: "network \<Rightarrow> string \<Rightarrow> int \<Rightarrow> 'b query_options" where
  "utxo_query n address utxoPage =
     addressUtxosQueryOptions n address
       \<lparr>page_no = Some utxoPage, page_limit = Some UTXO_PAGE_SIZE, page_order = Some ''desc''\<rparr>"

text \<open>The API writes an amount as a whole number of duffs in digits.\<close>

definition utxo_duffs :: "ApiUtxoEntry \<Rightarrow> int" where
  "utxo_duffs u = (case js_number (ue_amount u) of Fin q \<Rightarrow> \<lfloor>q\<rfloor> | _ \<Rightarrow> 0)"

definition sumDuffs :: "ApiUtxoEntry list \<Rightarrow> int" where
  "sumDuffs utxos = foldl (\<lambda>s u. s + utxo_duffs u) 0 utxos"

definition utxo_share :: "int \<Rightarrow> ApiUtxoEntry \<Rightarrow> rat" where
  "utxo_share whole u = (if whole > 0 then of_int (utxo_duffs u) / of_int whole * 100 else 0)"

definition UtxosTable :: "ApiUtxoEntry list \<Rightarrow> int \<Rightarrow> (string \<times> int \<times> rat \<times> string) list" where
  "UtxosTable utxos whole =
     map (\<lambda>u. (''/transactions/'' @ ue_prevTxHash u, ue_vOutIndex u, utxo_share whole u, formatDuffs (utxo_duffs u) 8)) utxos"

definition utxo_total :: "ApiUtxoEntry PaginatedResultSet option \<Rightarrow> int" where
  "utxo_total result = (case result of Some r \<Rightarrow> stated_total r | None \<Rightarrow> 0)"

definition utxo_pages :: "ApiUtxoEntry PaginatedResultSet option \<Rightarrow> int" where
  "utxo_pages result = totalPages (utxo_total result) UTXO_PAGE_SIZE"

datatype utxo_list = UtxoSkeletons nat | UtxoRows "(string \<times> int \<times> rat \<times> string) list"

record utxo_footer =
  uf_page :: int
  uf_pages :: int
  uf_prevDisabled :: bool
  uf_nextDisabled :: bool

record utxo_card =
  uc_total :: string
  uc_described :: "nat"
  uc_list :: utxo_list
  uc_footer :: "utxo_footer option"

definition AddressUtxosCard ::
  "(rat \<Rightarrow> string) \<Rightarrow> int \<Rightarrow> ApiUtxoEntry PaginatedResultSet option \<Rightarrow> bool \<Rightarrow> bool \<Rightarrow> utxo_card option" where
  "AddressUtxosCard toLocaleString utxoPage result isFetching failed =
     (let utxos = (case result of Some r \<Rightarrow> resultSet r | None \<Rightarrow> []) in
      if failed then None
      else if \<not> isFetching \<and> utxos = [] then None
      else Some
        \<lparr>uc_total = formatCompact toLocaleString (of_int (utxo_total result)),
         uc_described = min (length utxos) (nat UTXO_PAGE_SIZE),
         uc_list = (if isFetching \<and> utxos = [] then UtxoSkeletons 5 else UtxoRows (UtxosTable utxos (sumDuffs utxos))),
         uc_footer = (if utxo_pages result > 1
           then Some \<lparr>uf_page = utxoPage, uf_pages = utxo_pages result, uf_prevDisabled = (utxoPage \<le> 1),
             uf_nextDisabled = (utxoPage \<ge> utxo_pages result)\<rparr>
           else None)\<rparr>)"

datatype utxo_event = UtxoPrev | UtxoNext

fun utxo_step :: "int \<Rightarrow> int \<Rightarrow> utxo_event \<Rightarrow> int" where
  "utxo_step pages p UtxoPrev = max 1 (p - 1)"
| "utxo_step pages p UtxoNext = min pages (p + 1)"

text \<open>A button that is not there, or is disabled, is not pressed.\<close>

definition utxo_offered :: "utxo_card option \<Rightarrow> utxo_event set" where
  "utxo_offered shown =
     (case shown of
        Some c \<Rightarrow> (case uc_footer c of
            Some f \<Rightarrow> (if uf_prevDisabled f then {} else {UtxoPrev}) \<union> (if uf_nextDisabled f then {} else {UtxoNext})
          | None \<Rightarrow> {})
      | None \<Rightarrow> {})"

lemma shares_fill_page:
  assumes "0 < sumDuffs utxos"
  shows "sum_list (map (utxo_share (sumDuffs utxos)) utxos) = 100"
proof -
  have "sum_list (map (utxo_share w) us) = of_int (sum_list (map utxo_duffs us)) / of_int w * 100" if "0 < w" for w us
    using that by (induction us) (simp_all add: utxo_share_def add_divide_distrib algebra_simps)
  then show ?thesis using assms by (simp add: sumDuffs_def foldl_add_sum)
qed

text \<open>
  Turning the pages of the unspent outputs. While the answer for the page is there, the buttons that are
  offered are exactly those that lead to a page of the list, and lead there. But when the last page has become
  empty since (its outputs were spent), the card is not drawn at all, so that no button leads back to the pages
  that are still full.
\<close>

lemma utxo_pages_turned:
  assumes "1 \<le> utxoPage" "utxoPage \<le> utxo_pages (Some r)" "resultSet r \<noteq> []"
  shows "(UtxoPrev \<in> utxo_offered (AddressUtxosCard toLocale utxoPage (Some r) isFetching False)) = (1 \<le> utxoPage - 1) \<and>
    (UtxoNext \<in> utxo_offered (AddressUtxosCard toLocale utxoPage (Some r) isFetching False)) =
      (utxoPage + 1 \<le> utxo_pages (Some r)) \<and>
    (\<forall>e. e \<in> utxo_offered (AddressUtxosCard toLocale utxoPage (Some r) isFetching False) \<longrightarrow>
       utxo_step (utxo_pages (Some r)) utxoPage e = (case e of UtxoPrev \<Rightarrow> utxoPage - 1 | UtxoNext \<Rightarrow> utxoPage + 1)) \<and>
    utxo_offered (AddressUtxosCard toLocale p (Some (r\<lparr>resultSet := []\<rparr>)) False False) = {}"
  using assms
  by (auto simp: AddressUtxosCard_def utxo_offered_def Let_def split: utxo_event.split)

end
