(* ===== verification/MasternodePage.thy ===== *)
theory MasternodePage
  imports AddressPage ProposalPage
begin

text \<open>
  The page of a masternode, \<open>frontend/src/themes/neo/pages/masternode-detail.tsx\<close>: its badges, its roles, the
  snapshot of its payouts, the record of its votes with their table, and its transactions; with the
  badges of \<open>components/vote-badges.tsx\<close>. Dates are read by a parameter; those of the votes travel as their
  milliseconds. The markup is not modelled.
\<close>

section \<open>What the API answers\<close>

record ApiMasternodeDetail = mn_row +
  am_consecutivePayments :: "int js"
  am_lastPaidBlock :: "int js"
  am_ownerAddress :: "string option"
  am_votingAddress :: "string option"
  am_collateralAddress :: "string option"
  am_pubKeyOperator :: "string option"
  am_createdAt :: string
  am_updatedAt :: string

section \<open>The page\<close>

definition AddressOrDash :: "string option \<Rightarrow> route option" where
  "AddressOrDash v = (case v of None \<Rightarrow> None | Some a \<Rightarrow> if a = [] then None else Some (AddressRoute a))"

datatype role_value = NotSet | RoleAddress "route option"

definition RolePill :: "string option \<Rightarrow> role_value" where
  "RolePill address = (if or_else address [] = [] then NotSet else RoleAddress (AddressOrDash address))"

definition owner_card :: "ApiMasternodeDetail \<Rightarrow> (string \<times> role_value) list" where
  "owner_card mn =
     [(''Owner'', RolePill (am_ownerAddress mn)), (''Collateral'', RolePill (am_collateralAddress mn)),
      (''Voting'', RolePill (am_votingAddress mn)), (''Payout'', RolePill (am_payee mn))]"

definition isEnabled :: "ApiMasternodeDetail \<Rightarrow> bool" where
  "isEnabled mn \<longleftrightarrow> js_upper (am_status mn) = ''ENABLED''"

definition isClean :: "ApiMasternodeDetail \<Rightarrow> bool" where
  "isClean mn \<longleftrightarrow> am_penalty mn = 0"

definition mn_badges :: "ApiMasternodeDetail \<Rightarrow> (string \<times> string) list" where
  "mn_badges mn =
     [(''soft-accent'', ''Masternode''),
      (getMnStatusVariant (am_status mn), getMnStatusLabel (am_status mn)),
      (getMnTypeVariant (am_type mn), getMnTypeLabel (am_type mn)),
      if isClean mn then (''soft-success'', ''Clean record'')
      else (''soft-destructive'', ''PoSe '' @ dec_int (am_penalty mn))]"

definition live_note :: "ApiMasternodeDetail \<Rightarrow> string" where
  "live_note mn = (if isEnabled mn then ''Live'' else ''Down'')"

record payment_strip =
  ps_filled :: int
  ps_bars :: "(bool \<times> int) list"

definition STRIP_SLOTS :: nat where "STRIP_SLOTS = 12"

definition ConsecutivePaymentsStrip :: "int \<Rightarrow> payment_strip" where
  "ConsecutivePaymentsStrip n =
     (let filled = min (int STRIP_SLOTS) n
      in \<lparr>ps_filled = filled,
          ps_bars = map (\<lambda>i. let lit = int i < filled in (lit, 6 + min 18 (int i + (if lit then 6 else 0)))) [0..<STRIP_SLOTS]\<rparr>)"

definition last_paid_text :: "(string \<Rightarrow> date) \<Rightarrow> int \<Rightarrow> ApiMasternodeDetail \<Rightarrow> string" where
  "last_paid_text parse now mn =
     (case am_lastPaidTime mn of
        Some s \<Rightarrow> if s = [] then ''Never'' else formatRelativeTime parse now (MomentText s)
      | None \<Rightarrow> ''Never'')"

definition last_paid_link :: "ApiMasternodeDetail \<Rightarrow> route option" where
  "last_paid_link mn =
     (case am_lastPaidBlock mn of J h \<Rightarrow> if h = 0 then None else Some (BlockRoute (dec_int h)) | _ \<Rightarrow> None)"

record payout_snapshot =
  po_paid :: string
  po_block :: "route option"
  po_strip :: payment_strip
  po_score :: int
  po_endpoint :: string

definition payout_card :: "(string \<Rightarrow> date) \<Rightarrow> int \<Rightarrow> ApiMasternodeDetail \<Rightarrow> payout_snapshot" where
  "payout_card parse now mn =
     \<lparr>po_paid = last_paid_text parse now mn, po_block = last_paid_link mn,
      po_strip = ConsecutivePaymentsStrip (coalesce (am_consecutivePayments mn) 0),
      po_score = am_penalty mn, po_endpoint = getIp (am_address mn)\<rparr>"

definition mn_rows :: "(string \<Rightarrow> date) \<Rightarrow> (string \<Rightarrow> string) \<Rightarrow> int \<Rightarrow> ApiMasternodeDetail \<Rightarrow> (string \<times> string list) list" where
  "mn_rows parse dateLocale now mn =
     (let age = (\<lambda>s. [dateLocale s, ''('' @ formatRelativeTime parse now (MomentText s) @ '')'']) in
      [(''ProTx Hash'', [am_proTxHash mn]),
       (''Network Address'', [am_address mn]),
       (''Operator PubKey'', [let k = or_else (am_pubKeyOperator mn) [] in if k = [] then long_dash else k]),
       (''Last Paid'', (case am_lastPaidTime mn of
          Some s \<Rightarrow> if s = [] then [''Never''] else age s | None \<Rightarrow> [''Never''])),
       (''Registered'', age (am_createdAt mn)),
       (''Updated'', age (am_updatedAt mn))])"

datatype mn_body = MnSkeleton | MnNotFound string | MnShown ApiMasternodeDetail

definition mn_body_of :: "bool \<Rightarrow> string \<Rightarrow> ApiMasternodeDetail option \<Rightarrow> mn_body" where
  "mn_body_of isFetching hash mn =
     (case mn of None \<Rightarrow> if isFetching then MnSkeleton else MnNotFound hash | Some m \<Rightarrow> MnShown m)"

section \<open>The record of the votes\<close>

definition SIGNAL_META :: "(string \<times> string \<times> string) list" where
  "SIGNAL_META =
     [(''funding'', ''Funding'', ''soft-accent''), (''delete'', ''Delete'', ''soft-destructive''),
      (''endorsed'', ''Endorsed'', ''soft''), (''valid'', ''Valid'', ''soft'')]"

definition SignalBadge :: "string \<Rightarrow> string \<times> string" where
  "SignalBadge signal = or_else (map_of SIGNAL_META signal) (signal, ''soft'')"

definition OutcomeBadge :: "string \<Rightarrow> string \<times> string" where
  "OutcomeBadge outcome =
     (if outcome = ''yes'' then (''Yes'', ''soft-success'')
      else if outcome = ''no'' then (''No'', ''soft-destructive'')
      else (''Abstain'', ''soft''))"

definition proposalNames :: "(string option \<times> string option) list option \<Rightarrow> (string \<times> string) list" where
  "proposalNames proposals =
     foldl (\<lambda>m (h, name). if or_else h [] \<noteq> [] \<and> or_else name [] \<noteq> [] then AList.update (or_else h []) (or_else name []) m else m)
       [] (or_else proposals [])"

definition sortedVotes :: "ProposalVote list option \<Rightarrow> ProposalVote list" where
  "sortedVotes votes' = js_sort newer_first (or_else votes' [])"

definition tally_votes :: "ProposalVote list \<Rightarrow> nat \<times> nat \<times> nat" where
  "tally_votes vs =
     foldl (\<lambda>(y, n, a) v.
       if vote_outcome v = ''yes'' then (y + 1, n, a)
       else if vote_outcome v = ''no'' then (y, n + 1, a)
       else (y, n, a + 1)) (0, 0, 0) vs"

definition MN_VOTES_PAGE_SIZE :: int where "MN_VOTES_PAGE_SIZE = 10"

record record_state =
  rs_page :: int
  rs_mode :: "storage \<times> TableViewMode"
  rs_visible :: int

definition record_initial :: "storage \<Rightarrow> record_state" where
  "record_initial st =
     \<lparr>rs_page = 1, rs_mode = (st, first_view InfiniteView), rs_visible = MN_VOTES_PAGE_SIZE\<rparr>"

definition record_mounted :: "record_state \<Rightarrow> record_state" where
  "record_mounted s = s\<lparr>rs_mode := (fst (rs_mode s), mount_view (fst (rs_mode s)) ''masternode-votes'' (snd (rs_mode s)))\<rparr>"

datatype record_event = RecordPage int | RecordView TableViewMode | RecordMore

fun record_step :: "record_state \<Rightarrow> record_event \<Rightarrow> record_state" where
  "record_step s (RecordPage p) = s\<lparr>rs_page := p\<rparr>"
| "record_step s (RecordView m) = s\<lparr>rs_mode := update_view ''masternode-votes'' m (rs_mode s)\<rparr>"
| "record_step s RecordMore = s\<lparr>rs_visible := rs_visible s + MN_VOTES_PAGE_SIZE\<rparr>"

definition record_rows :: "record_state \<Rightarrow> ProposalVote list \<Rightarrow> ProposalVote list" where
  "record_rows s sorted' =
     (if snd (rs_mode s) = InfiniteView then js_slice sorted' 0 (rs_visible s)
      else js_slice sorted' ((rs_page s - 1) * MN_VOTES_PAGE_SIZE) (rs_page s * MN_VOTES_PAGE_SIZE))"

definition record_table :: "record_state \<Rightarrow> ProposalVote list option \<Rightarrow> bool \<Rightarrow> ProposalVote table_props" where
  "record_table s votes' isFetching =
     (let rows = sortedVotes votes'; shown' = record_rows s rows in
      \<lparr>table_rows = shown', isLoading = (isFetching \<and> rows = []),
       infiniteScroll = Some \<lparr>hasNextPage = (rs_visible s < int (length rows)), isFetchingNextPage = False,
         known_total = Some (int (length rows)), loaded = Some (length shown'), skeletonRows = Some 3\<rparr>,
       table_props.pagination = Some \<lparr>pageIndex = rs_page s, pageSize = MN_VOTES_PAGE_SIZE,
         row_total = int (length rows), resizable = False\<rparr>,
       viewMode = Some (snd (rs_mode s))\<rparr>)"

record vote_cells =
  vc_proposal :: "(route \<times> string \<times> string option) option"
  vc_signal :: "string \<times> string"
  vc_outcome :: "string \<times> string"

definition vote_cells_of :: "(string \<times> string) list \<Rightarrow> ProposalVote \<Rightarrow> vote_cells" where
  "vote_cells_of names v =
     \<lparr>vc_proposal = (case vote_proposalHash v of
         J h \<Rightarrow> if h = [] then None
           else Some (ProposalRoute h, or_else (map_of names h) h, map_option (\<lambda>_. h) (map_of names h))
       | _ \<Rightarrow> None),
      vc_signal = SignalBadge (vote_signal v), vc_outcome = OutcomeBadge (vote_outcome v)\<rparr>"

section \<open>The transactions\<close>

definition mn_list_initial :: "storage \<Rightarrow> ListPages.list_state" where
  "mn_list_initial st = list_initial st"

definition mn_list_mounted :: "ListPages.list_state \<Rightarrow> ListPages.list_state" where
  "mn_list_mounted s = list_mounted ''masternode-transactions'' s"

definition mn_tx_queries :: "network \<Rightarrow> string \<Rightarrow> ListPages.list_state \<Rightarrow> 'b query_options list" where
  "mn_tx_queries n h s =
     [(masternodeTransactionsInfiniteQueryOptions n h (Some INFINITE_PAGE_SIZE) (Some ''desc''))
        \<lparr>enabled := isInfinite s\<rparr>,
      (masternodeTransactionsQueryOptions n h
         \<lparr>page_no = Some (li_page s), page_limit = Some (li_pageSize s), page_order = Some ''desc''\<rparr>)
        \<lparr>enabled := \<not> isInfinite s\<rparr>]"

text \<open>The table has no search of its own: its search text stays empty.\<close>

definition mn_tx_table :: "ListPages.list_state \<Rightarrow> 'p ApiTransaction answers \<Rightarrow> 'p ApiTransaction table_props" where
  "mn_tx_table s a = list_table (\<lambda>_ _. True) (s\<lparr>li_search := []\<rparr>) a"

record mn_tx_cells =
  mc_hash :: string
  mc_block :: "route \<times> string"
  mc_amount :: string
  mc_when :: string

definition mn_tx_duffs :: "'p ApiTransaction \<Rightarrow> jsnum" where
  "mn_tx_duffs t =
     (case at_amount t of Some s \<Rightarrow> js_number s | None \<Rightarrow> Fin (of_int (sumVOut (J (at_vOut t)))))"

fun dash_of_num :: "jsnum \<Rightarrow> string" where
  "dash_of_num (Fin q) =
     (let dash = fl (q / of_int DUFFS_PER_DASH) in if dash \<ge> 1 then to_fixed 2 dash else to_fixed 4 dash)"
| "dash_of_num NaN = ''NaN''"
| "dash_of_num PosInf = ''Infinity''"
| "dash_of_num NegInf = ''-Infinity''"

definition mn_tx_cells_of ::
  "(string \<Rightarrow> date) \<Rightarrow> (int \<Rightarrow> string) \<Rightarrow> int \<Rightarrow> 'p ApiTransaction \<Rightarrow> mn_tx_cells" where
  "mn_tx_cells_of parse toLocaleString now t =
     \<lparr>mc_hash = at_hash t, mc_block = (BlockRoute (dec_int (at_blockHeight t)), toLocaleString (at_blockHeight t)),
      mc_amount = dash_of_num (mn_tx_duffs t), mc_when = when_text parse now t\<rparr>"

section \<open>A masternode that was never paid\<close>

text \<open>What the page receives of a row of the API's table: a date travels as the text that is printed for it.\<close>

definition mn_received :: "(int \<Rightarrow> string) \<Rightarrow> Masternode \<Rightarrow> ApiMasternodeDetail \<Rightarrow> bool" where
  "mn_received iso_text m mn \<longleftrightarrow>
     am_lastPaidTime mn = (case lastPaidTime m of J (Some ms) \<Rightarrow> Some (iso_text ms) | _ \<Rightarrow> None) \<and>
     am_lastPaidBlock mn = lastPaidBlock m"

lemma unpaid_date:
  assumes "mr_last_paid_time r \<in> {JUndef, JNull, J (CNum 0)}"
  shows "lastPaidTime (Masternode_fromRow r) = J (Some 0)"
proof -
  have zero: "date_of_seconds 0 = Some 0" using date_of_seconds_nat [of 0] by simp
  have "date_of_seconds_num (js_Number (J (coalesce (mr_last_paid_time r) (CNum 0)))) = Some 0"
    using assms by (auto simp: zero)
  then show ?thesis by (simp add: Masternode_fromRow_def new_Masternode_def)
qed

text \<open>
  C18: the last payment of a masternode that was never paid. The table of the API holds zero or nothing for it,
  but the API makes a date of either, the first instant of 1970. The filter of the list of the masternodes knows
  that and finds the masternode under \<open>never paid\<close>; the page of the masternode, which means to say
  \<open>Never\<close>, does not: it says that the masternode was paid as many days ago as there have been since 1970.
\<close>

theorem never_paid_reads_as_1970:
  assumes "mr_last_paid_time r \<in> {JUndef, JNull, J (CNum 0)}" "mr_last_paid_block r \<in> {JUndef, JNull, J 0}"
    "mn_received iso_text (Masternode_fromRow r) mn"
    "\<forall>t. parse (iso_text t) = Some t" "\<not> list_all is_digit (iso_text 0)" "2 * 86400000 \<le> now"
  shows "paid_within (\<lambda>s. case parse s of Some ms \<Rightarrow> ms | None \<Rightarrow> 0) (now div 1000) NeverPaid (mn_row.truncate mn) \<and>
    last_paid_link mn = None \<and>
    last_paid_text parse now mn = dec_int (now div 86400000) @ '' days ago'' \<and>
    last_paid_text parse now mn \<noteq> ''Never''"
proof -
  have paid: "am_lastPaidTime mn = Some (iso_text 0)"
    using assms(3) unpaid_date [OF assms(1)] by (simp add: mn_received_def)
  have "iso_text 0 \<noteq> []" using assms(5) by auto
  have filter: "paid_within (\<lambda>s. case parse s of Some ms \<Rightarrow> ms | None \<Rightarrow> 0) (now div 1000) NeverPaid (mn_row.truncate mn)"
    using paid assms(4) \<open>iso_text 0 \<noteq> []\<close>
    by (simp add: paid_within_def last_paid_sec_def mn_row.truncate_def)
  have block: "last_paid_link mn = None"
    using assms(2,3) by (auto simp: last_paid_link_def mn_received_def Masternode_fromRow_def new_Masternode_def)
  have secs: "whole_seconds_ago (of_int now) = now div 1000"
    using floor_divide_of_int_eq [of now 1000, where 'a = rat] by (simp add: whole_seconds_ago_def)
  define sec where "sec = now div 1000"
  define mins where "mins = sec div 60"
  define hrs where "hrs = mins div 60"
  have "2 * 86400 \<le> sec" using assms(6) unfolding sec_def by linarith
  then have "2 * 1440 \<le> mins" unfolding mins_def by linarith
  then have "2 * 24 \<le> hrs" unfolding hrs_def by linarith
  then have "1 < hrs div 24" by linarith
  have days: "hrs div 24 = now div 86400000"
    unfolding hrs_def mins_def sec_def by (simp add: zdiv_zmult2_eq [symmetric])
  have "last_paid_text parse now mn = seconds_ago_text sec"
    using paid assms(4,5) \<open>iso_text 0 \<noteq> []\<close> secs
    by (simp add: last_paid_text_def formatRelativeTime_def Let_def sec_def)
  also have "\<dots> = dec_int (hrs div 24) @ '' days ago''"
    using \<open>2 * 86400 \<le> sec\<close> \<open>2 * 1440 \<le> mins\<close> \<open>2 * 24 \<le> hrs\<close> \<open>1 < hrs div 24\<close>
    by (simp add: seconds_ago_text_def Let_def mins_def [symmetric] hrs_def [symmetric])
  finally have said: "last_paid_text parse now mn = dec_int (now div 86400000) @ '' days ago''" by (simp add: days)
  moreover have "last (dec_int (now div 86400000) @ '' days ago'') \<noteq> last ''Never''" by simp
  then have "dec_int (now div 86400000) @ '' days ago'' \<noteq> ''Never''" by metis
  ultimately show ?thesis using filter block by simp
qed

section \<open>The votes that are shown\<close>

lemma tally_counts:
  "tally_votes vs =
     (length (filter (\<lambda>v. vote_outcome v = ''yes'') vs), length (filter (\<lambda>v. vote_outcome v = ''no'') vs),
      length (filter (\<lambda>v. vote_outcome v \<noteq> ''yes'' \<and> vote_outcome v \<noteq> ''no'') vs))"
proof -
  have "foldl (\<lambda>(y, n, a) v.
       if vote_outcome v = ''yes'' then (y + 1, n, a)
       else if vote_outcome v = ''no'' then (y, n + 1, a) else (y, n, a + 1)) (i, j, k) vs =
     (i + length (filter (\<lambda>v. vote_outcome v = ''yes'') vs), j + length (filter (\<lambda>v. vote_outcome v = ''no'') vs),
      k + length (filter (\<lambda>v. vote_outcome v \<noteq> ''yes'' \<and> vote_outcome v \<noteq> ''no'') vs))" for i j k :: nat
    by (induction vs arbitrary: i j k) auto
  then show ?thesis by (simp add: tally_votes_def)
qed

lemma tally_adds_up: "(case tally_votes vs of (y, n, a) \<Rightarrow> y + n + a) = length vs"
  unfolding tally_counts by (induction vs) auto

text \<open>The pages of the record put together are all votes, once each, the latest first.\<close>

lemma record_pages:
  assumes "snd (rs_mode s) = PaginationView" "length (or_else votes' []) \<le> n * 10"
  shows "concat (map (\<lambda>p. record_rows (record_step s (RecordPage (int p))) (sortedVotes votes')) [1..<Suc n]) =
    sortedVotes votes' \<and> mset (sortedVotes votes') = mset (or_else votes' [])"
proof
  have page: "record_rows (record_step s (RecordPage (int p))) xs = page_of p 10 xs" if "1 \<le> p" for p xs
    using js_slice_page_of [OF that, of xs 10] assms(1) by (simp add: record_rows_def MN_VOTES_PAGE_SIZE_def)
  have "map (\<lambda>p. record_rows (record_step s (RecordPage (int p))) (sortedVotes votes')) [1..<Suc n] =
      map (\<lambda>p. page_of p 10 (sortedVotes votes')) [1..<Suc n]"
    by (rule map_cong [OF refl], rule page) auto
  moreover have "length (sortedVotes votes') \<le> n * 10" using assms(2) by (simp add: sortedVotes_def)
  ultimately show "concat (map (\<lambda>p. record_rows (record_step s (RecordPage (int p))) (sortedVotes votes')) [1..<Suc n]) =
      sortedVotes votes'"
    using concat_all_pages by metis
qed (simp add: sortedVotes_def)

text \<open>The strip of the payments lights one bar for each, twelve at most.\<close>

lemma strip_lit:
  assumes "0 \<le> n"
  shows "length (filter fst (ps_bars (ConsecutivePaymentsStrip n))) = min 12 (nat n)"
proof -
  have "map fst (ps_bars (ConsecutivePaymentsStrip n)) = map (\<lambda>i. int i < min 12 n) [0..<12]"
    by (simp add: ConsecutivePaymentsStrip_def Let_def STRIP_SLOTS_def comp_def del: upt_rec_numeral)
  then have "length (filter id (map fst (ps_bars (ConsecutivePaymentsStrip n)))) = min 12 (nat (min 12 n))"
    using lit_slots [of "min 12 n" 12] assms by simp
  then show ?thesis by (simp add: filter_map)
qed

definition unpaid_row :: MasternodeRow where
  "unpaid_row = \<lparr>mr_pro_tx_hash = J ''ab'', mr_address = J ''1.2.3.4:9999'', mr_payee = J ''X'', mr_status = J ''ENABLED'',
     mr_type = J ''Regular'', mr_pos_penalty_score = J 0, mr_consecutive_payments = J 0, mr_last_paid_time = J (CNum 0),
     mr_last_paid_block = J 0, mr_owner_address = J ''Xo'', mr_voting_address = J ''Xv'', mr_collateral_address = J ''Xc'',
     mr_pub_key_operator = J ''p'', mr_created_at = J (Some 0), mr_updated_at = J (Some 0)\<rparr>"

definition unpaid_node :: ApiMasternodeDetail where
  "unpaid_node = \<lparr>am_proTxHash = ''ab'', am_status = ''ENABLED'', am_type = ''Regular'', am_address = ''1.2.3.4:9999'',
     am_geoIpInfo = None, am_payee = Some ''X'', am_lastPaidTime = Some (sample_iso 0), am_penalty = 0,
     am_consecutivePayments = J 0, am_lastPaidBlock = J 0, am_ownerAddress = Some ''Xo'', am_votingAddress = Some ''Xv'',
     am_collateralAddress = Some ''Xc'', am_pubKeyOperator = Some ''p'', am_createdAt = ''c'', am_updatedAt = ''u''\<rparr>"

theorem never_paid_reads_as_1970_witness:
  "last_paid_text (\<lambda>s. Some (sample_parse_iso s)) (20000 * 86400000) unpaid_node = dec_int 20000 @ '' days ago''"
proof -
  have row: "mr_last_paid_time unpaid_row \<in> {JUndef, JNull, J (CNum 0)}" "mr_last_paid_block unpaid_row \<in> {JUndef, JNull, J 0}"
    by (simp_all add: unpaid_row_def)
  have received: "mn_received sample_iso (Masternode_fromRow unpaid_row) unpaid_node"
    using unpaid_date [OF row(1)]
    by (simp add: mn_received_def unpaid_node_def)
       (simp add: Masternode_fromRow_def new_Masternode_def unpaid_row_def)
  have iso: "\<forall>t. Some (sample_parse_iso (sample_iso t)) = Some t" "\<not> list_all is_digit (sample_iso 0)"
    by (simp_all add: sample_iso_parsed) (simp add: sample_iso_def is_digit_def)
  show ?thesis
    using never_paid_reads_as_1970 [OF row received iso, of "20000 * 86400000", THEN conjunct2, THEN conjunct2, THEN conjunct1]
    by simp
qed

end
