(* ===== verification/Spec2Isabelle.thy ===== *)
theory Spec2Isabelle
  imports GovernanceBudget TransactionListings AddressHandlers Xpub Search Peers InFlight Market SuperblockClock Format OgImage QueryCache InfiniteScroll ApiFetch MasternodesPage DaoPage Countries FlowGraph AddressesPage ProposalPage
    SearchBox KeyboardNav PeersPanels MapCanvas RouteLoaders BlockPage TransactionPage AddressPage MasternodePage
begin

text \<open>
  A model of Dashscan: of its API (\<open>api/src\<close>), the service between the database that the indexer fills and
  the block explorer, and of the logic of that explorer in the browser (\<open>frontend/src\<close>), with the theorems
  that make them correct.

  The program. A request is dispatched by \<open>routes.ts\<close> to a method of a controller
  (\<open>controllers/*.ts\<close>). The controller applies the defaults of the query, refuses what it cannot answer,
  and calls data access objects (\<open>dao/*.ts\<close>) that read Postgres or Redis, services (\<open>services/*.ts\<close>)
  and the JSON RPC interface of a Dash Core node (\<open>dashcoreRPC.ts\<close>). Rows become objects through the
  factories of \<open>models/*.ts\<close>. What is expensive is kept in \<open>cache.ts\<close>. An exception that reaches the
  framework is turned into a status by the error handler of \<open>server.ts\<close>. In the browser a route's loader
  fetches the first queries of its page on the server, the page asks for its queries through the query library's
  cache, whose entries are named by keys, each query calls the API through \<open>apiFetch\<close>, and the page makes rows,
  tables, charts and maps of the answers, with its filters partly in React's state and partly in the address bar.

  The vocabulary.
  \<^item> \<open>Prelude\<close>, \<open>JsText\<close>, \<open>Floats\<close>: what the sources use of the language: nullish values, \<open>Array.sort\<close>
    (a stable sort for the comparator contract, the locale \<open>js_comparator\<close>), \<open>slice\<close>, decimal texts, \<open>Number(s)\<close>,
    dates as milliseconds, rounding to a double where an integer is rounded after a multiplication. \<open>Number(s)\<close> of
    a finite decimal is the fraction that the text names, not the double next to it.
  \<^item> \<open>Constants\<close>, \<open>TimeUtils\<close>, \<open>BucketSeries\<close>, \<open>Http\<close>: \<open>constants.ts\<close>, the enums and exceptions, \<open>utils.ts\<close>, the
    windows of the charts and their buckets, replies and the error handler.
  \<^item> \<open>Sql\<close>, \<open>Ranking\<close>, \<open>Database\<close>: ordering, limits and offsets, text aggregates, and the tables as records of
    rows. A table is a list of rows and the order of the list is the order in which the server
    delivers the rows, so a theorem about every table does not rest on how ties are broken.
  \<^item> \<open>Models\<close>, \<open>TransactionModels\<close>, \<open>GovernanceModels\<close>: one record per class, its constructor and its factories.

  The components.
  \<^item> \<open>CacheModel\<close>: \<open>cache.ts\<close> over a Redis with life times; the locale \<open>ttl_cache\<close> is what its clients rely on.
  \<^item> \<open>DashcoreRPC\<close>: every method of the client with its arguments and its error handler.
  \<^item> \<open>Masternodes\<close>: \<open>MasternodesDAO\<close>, \<open>GeoIPService\<close>, \<open>MasternodesController\<close>.
  \<^item> \<open>Governance\<close>, \<open>GovernanceVotes\<close>, \<open>GovernanceBudget\<close>: \<open>GovernanceDAO\<close> and \<open>GovernanceController\<close>: the greedy
    funding of proposals, the votes and their series, the budget of the next superblock.
  \<^item> \<open>Blocks\<close>: \<open>BlocksDAO\<close>, \<open>BlocksController\<close>, \<open>MainController\<close>.
  \<^item> \<open>Transactions\<close>, \<open>TransactionSeries\<close>, \<open>TransactionListings\<close>: \<open>TransactionsDAO\<close> and \<open>TransactionsController\<close>.
    The wallet history with its cursor is in \<open>XpubHistory\<close>.
  \<^item> \<open>Addresses\<close>, \<open>BalanceSeries\<close>, \<open>AddressActivity\<close>, \<open>AddressHandlers\<close>: \<open>AddressesDAO\<close> and
    \<open>AddressesController\<close>, with the daily and weekly rollups next to the live tables.
  \<^item> \<open>XpubScan\<close>, \<open>Xpub\<close>: \<open>XpubService\<close> and \<open>XpubController\<close>: keys, the gap-limit scan of a branch with its
    cache, the wallet endpoints.
  \<^item> \<open>InFlight\<close>: the map of running promises of \<open>XpubService.resolve\<close> and \<open>MarketService.load\<close>, as a step relation
    over callers and promises in any order.
  \<^item> \<open>Market\<close>: \<open>MarketService\<close> and \<open>MarketController\<close>. \<open>Peers\<close>: \<open>PeersDAO\<close> and \<open>PeersController\<close>. \<open>Search\<close>: \<open>SearchDAO\<close>
    and \<open>SearchController\<close>.

  The web interface.
  \<^item> \<open>Routes\<close>: \<open>routes.ts\<close> and \<open>schemas.ts\<close> of the API as data. \<open>ClientRequests\<close>: every request of
    \<open>frontend/src/lib/api\<close> with its key, \<open>QueryCache\<close>: the cache entries and the routes that answer them.
    \<open>ApiFetch\<close>: \<open>apiFetch\<close> under its two signals and \<open>prefetchSsrData\<close>, as step relations; waiting for the
    cancelled queries after the deadline is one step with the deadline.
    \<open>RouteLoaders\<close>: the loaders of \<open>frontend/src/routes\<close> and the queries of the pages when they are drawn for the
    first time, and after the effects of that drawing have brought the stored view of their table.
  \<^item> \<open>InfiniteScroll\<close>: \<open>getNextPageParam\<close> over the API's listings, where every request reads the tables as they are
    at its time (\<open>scroll_over\<close>); the locale \<open>stated_listing\<close> is what a listing promises while they stand still.
    \<open>ViewModes\<close>, \<open>TablePager\<close>: \<open>use-table-view-mode.ts\<close>, the tables and the pagers of both themes.
  \<^item> \<open>Doubles\<close>, \<open>Format\<close>, \<open>Markup\<close>, \<open>OgImage\<close>: \<open>lib/format.ts\<close> and \<open>lib/og.ts\<close>. \<open>SuperblockClock\<close>: \<open>lib/governance.ts\<close>.
  \<^item> \<open>ListPages\<close>, \<open>MasternodesPage\<close>, \<open>AddressesPage\<close>, \<open>DaoPage\<close>, \<open>ProposalPage\<close>, \<open>PeersPage\<close>, \<open>PeersPanels\<close>: the pages of
    the neo theme, each with its state, the events of its controls, its queries and rows. \<open>BlockPage\<close>,
    \<open>TransactionPage\<close>, \<open>AddressPage\<close>, \<open>MasternodePage\<close>: the pages of one block, transaction, address or masternode.
  \<^item> \<open>BlockTimeline\<close>, \<open>Dashboard\<close>, \<open>SupplyCards\<close>: the dashboard. \<open>FlowGraph\<close>: the drawing of a transaction.
    \<open>BrowserPeers\<close>, \<open>Countries\<close>, \<open>NodeMaps\<close>, \<open>MapCanvas\<close>: the maps of masternodes and peers.
    \<open>SearchBox\<close>, \<open>KeyboardNav\<close>: the search box and the keyboard shortcuts.

  State and effects. An operation takes the state it reads (the database, a cache with the current
  time) and gives the state it leaves; an exception is the left summand of a result (\<open>api_error\<close>),
  a reply is \<open>Sent\<close> or \<open>Refused\<close> with its status. \<open>Promise.all\<close> is evaluated in the order of its list,
  which is right because its parts share no state that they write. Integers are \<open>int\<close> or \<open>nat\<close>,
  fractions \<open>rat\<close>, and a value that may be \<open>NaN\<close> or infinite a \<open>jsnum\<close>. Absent, \<open>undefined\<close> and \<open>null\<close> are told
  apart by \<open>js\<close> where the code does. A page or component of the browser is a record of its state with a step
  function over the events of its controls; timers and effects that may come in any order are step
  relations, and a theorem about them holds after every sequence of events.

  Parameters. What is not in the repository is an argument: the node, dash-core-sdk, the HD key library
  and the curve, the reader of the geography database, the JSON parser, regular expressions, the
  collation of the server, calendar arithmetic of the server, the answers of \<open>fetch\<close>, the printing of the
  reader's locale, projections and paths of the maps, the merging of clusters. Where a theorem needs
  a law of one of them, the law is a named hypothesis and the witness gives a concrete instance.

  What the theorems show.
  \<^item> Listings: the pages put together are the matching rows, each once, in the order asked for
    (blocks, transactions, masternodes, peers, unspent outputs, user agents).
  \<^item> Series and rollups: the fast path through buckets or rollup tables gives what a plain pass over the
    live tables gives, and the buckets or windows tile the window that was asked for. Nothing is assumed of
    the order of block times: what is counted beside the window when they step back is stated
    (\<open>strays\<close>, \<open>counted_twice\<close>). The rollup tables are assumed to hold what the indexer writes into them.
  \<^item> Governance: marked proposals fit into the budget, unmarked ones would not have fitted, and the
    overview agrees with the listing.
  \<^item> Wallets: the scan of a branch ends and finds exactly the wallet's addresses, with and without its
    cache; caches stay sound and are not shared by wallets; the pages of the history refine the
    sorted history; refused keys, unused next addresses, shared scans.
  \<^item> Market: prices are recent quotes of a provider, outages cost one attempt and are survived by the last
    quote, failures are 503, charts have one point per hour.
  \<^item> Text: addresses of peers, amounts and the filters of a link are read back exactly; of the filters, a block
    height beyond the safe integers is dropped.
  \<^item> Requests: every query of the browser reaches the handler it means, the path parameters that pass the schemas
    are exactly the texts the handlers rely on, equal keys belong to equal functions, each query makes of a
    failure what is stated for it, what a loader prefetches the first drawing of the page asks for, an aborted
    call blames the right signal.
  \<^item> Lists: the pager reaches every row; scrolling shows the rows of the API in order, none left out, and while
    blocks arrive between its requests repeats exactly as many rows as have arrived; filters of the browser agree
    with those of the API, panels of a page agree with its filters after any clicks; and where they
    do not (a filter that keeps the page number), what then happens exactly. Where the API states an estimate of
    the number of blocks, the theorems speak of what it states.
  \<^item> Dashboard, search and maps: cards and items composed with the answers of the API say what the
    tables hold, or by how much they are off; what Dash addresses and hashes look like is said by
    definitions of their own (\<open>dash_address\<close>, \<open>printed_hash\<close>), not by the patterns of the search; zoom and flights of
    a map stay within their bounds; a page is opened by the shortcuts only after the leader key.
  \<^item> Details: a ribbon divides the whole value of a transaction, the members of a quorum are counted right, the rows of
    an address agree with its net amounts; and where a page is wrong (the button to the next block, the
    last payment of a masternode that has none, the picture of an address) what it shows instead.

  Bounds. The loop of a scan ends because every round either moves on or stops, below the 5000 addresses
  of \<open>XPUB_MAX_ADDRESSES_PER_BRANCH\<close>; its measure is what is left of them. Nothing needs fuel.

  Not modelled. The indexer is another program in another language: its effect is the content of the tables. Of
  the browser, what is markup, style or drawing (components, charts, icons, the pages of the dash theme other than
  its pager and search bar). Start-up and the scripts only wire libraries together.
\<close>

end
